(* ===== verification/Prelude.thy ===== *)
theory Prelude
  imports Main "HOL-Library.Char_ord" "HOL-Library.List_Lexorder" "HOL-Library.AList"
    "HOL-Library.Multiset"
begin

text \<open>
  What the components share: fallible results as sums, the pieces of Python's string and
  list library the code uses (decimal text, zero padding, slices, the first maximum of a
  key), and dictionaries that keep insertion order as association lists.  A Python \<open>str\<close>
  is its UTF-8 text as a HOL \<open>string\<close>: the code compares, slices and orders strings only
  at positions where bytes and code points agree, and byte order is code point order.

  The collections declared here gather the facts the component proofs share:
  \<open>py_simps\<close> (evaluation of the Python helpers), \<open>dict_simps\<close> (laws of the dictionary
  operations), \<open>inv_intros\<close> (preservation lemmas of invariants).
\<close>

named_theorems py_simps
named_theorems dict_simps
named_theorems inv_intros

section \<open>Fallible results\<close>

text \<open>A Python call that may raise returns \<open>Inl\<close> of the exception or \<open>Inr\<close> of its value.\<close>

definition bindE :: "'e + 'a \<Rightarrow> ('a \<Rightarrow> 'e + 'b) \<Rightarrow> 'e + 'b" where
  "bindE m f = (case m of Inl e \<Rightarrow> Inl e | Inr x \<Rightarrow> f x)"

lemma bindE_simps [simp]:
  "bindE (Inl e) f = Inl e"
  "bindE (Inr x) f = f x"
  by (simp_all add: bindE_def)

lemma bindE_Inr: "bindE m f = Inr y \<longleftrightarrow> (\<exists>x. m = Inr x \<and> f x = Inr y)"
  by (cases m) auto

lemma bindE_split:
  "P (bindE m f) \<longleftrightarrow> (\<forall>e. m = Inl e \<longrightarrow> P (Inl e)) \<and> (\<forall>x. m = Inr x \<longrightarrow> P (f x))"
  by (cases m) auto

text \<open>Raise \<open>e\<close> unless the guard holds.\<close>

definition guardE :: "bool \<Rightarrow> 'e \<Rightarrow> 'e + unit" where
  "guardE b e = (if b then Inr () else Inl e)"

lemma guardE_Inr [simp]: "guardE b e = Inr u \<longleftrightarrow> b"
  by (auto simp: guardE_def)

lemma guardE_True [simp]: "guardE True e = Inr ()"
  by (simp add: guardE_def)

lemma guardE_False [simp]: "guardE False e = Inl e"
  by (simp add: guardE_def)

fun mapE :: "('a \<Rightarrow> 'e + 'b) \<Rightarrow> 'a list \<Rightarrow> 'e + 'b list" where
  "mapE f [] = Inr []"
| "mapE f (x # xs) =
     (case f x of Inl e \<Rightarrow> Inl e
      | Inr y \<Rightarrow> (case mapE f xs of Inl e \<Rightarrow> Inl e | Inr ys \<Rightarrow> Inr (y # ys)))"

lemma mapE_Inr: "mapE f xs = Inr ys \<longleftrightarrow> list_all2 (\<lambda>x y. f x = Inr y) xs ys"
proof (induction xs arbitrary: ys)
  case Nil
  then show ?case by auto
next
  case (Cons x xs)
  then show ?case
    by (cases ys) (simp_all split: sum.splits, metis Inr_not_Inl sum.inject(2))
qed

section \<open>Lists and keys\<close>

text \<open>\<open>max(xs, key=k)\<close> of Python: the first element whose key is greatest.\<close>

fun first_max :: "('a \<Rightarrow> 'b::linorder) \<Rightarrow> 'a \<Rightarrow> 'a list \<Rightarrow> 'a" where
  "first_max k best [] = best"
| "first_max k best (x # xs) = (if k best < k x then first_max k x xs else first_max k best xs)"

lemma first_max_in: "first_max k b xs \<in> set (b # xs)"
  by (induction xs arbitrary: b) auto

lemma first_max_start: "k b \<le> k (first_max k b xs)"
proof (induction xs arbitrary: b)
  case Nil
  then show ?case by simp
next
  case (Cons x xs)
  have "k b \<le> k (first_max k b xs)" "k x \<le> k (first_max k x xs)" by (fact Cons.IH)+
  then show ?case by auto
qed

lemma first_max_ge: "y \<in> set (b # xs) \<Longrightarrow> k y \<le> k (first_max k b xs)"
proof (induction xs arbitrary: b)
  case Nil
  then show ?case by simp
next
  case (Cons x xs)
  show ?case
  proof (cases "k b < k x")
    case True
    then show ?thesis
      using Cons.prems Cons.IH[of x] first_max_start[of k x xs] by (auto dest: order_less_imp_le intro: order_trans)
  next
    case False
    then show ?thesis
      using Cons.prems Cons.IH[of b] first_max_start[of k b xs] by (auto simp: not_less intro: order_trans)
  qed
qed

text \<open>\<open>xs[lo:hi]\<close> for slices with non-negative bounds.\<close>

definition py_slice :: "nat \<Rightarrow> nat \<Rightarrow> 'a list \<Rightarrow> 'a list" where
  "py_slice lo hi xs = take (hi - lo) (drop lo xs)"

lemma set_py_slice: "set (py_slice lo hi xs) \<subseteq> set xs"
  unfolding py_slice_def using set_take_subset set_drop_subset by fast

lemma length_py_slice: "length (py_slice lo hi xs) \<le> hi - lo"
  by (simp add: py_slice_def)

definition starts_with :: "'a list \<Rightarrow> 'a list \<Rightarrow> bool" where
  "starts_with p xs \<longleftrightarrow> take (length p) xs = p"

lemma starts_with_append [simp, py_simps]: "starts_with p (p @ xs)"
  by (simp add: starts_with_def)

definition ends_with :: "'a list \<Rightarrow> 'a list \<Rightarrow> bool" where
  "ends_with s xs \<longleftrightarrow> length s \<le> length xs \<and> drop (length xs - length s) xs = s"

lemma ends_with_append [simp, py_simps]: "ends_with s (xs @ s)"
  by (simp add: ends_with_def)

section \<open>Dictionaries\<close>

text \<open>
  A \<open>dict\<close> keeps insertion order, and assigning to a present key keeps its place:
  that is \<open>AList.update\<close>.  \<open>dict.get\<close> is \<open>map_of\<close> and \<open>pop(k, None)\<close> is \<open>AList.delete\<close>.
\<close>

type_synonym ('k, 'v) dict = "('k \<times> 'v) list"

abbreviation dict_get :: "('k, 'v) dict \<Rightarrow> 'k \<Rightarrow> 'v option" where
  "dict_get \<equiv> map_of"

abbreviation dict_set :: "'k \<Rightarrow> 'v \<Rightarrow> ('k, 'v) dict \<Rightarrow> ('k, 'v) dict" where
  "dict_set \<equiv> AList.update"

abbreviation dict_pop :: "'k \<Rightarrow> ('k, 'v) dict \<Rightarrow> ('k, 'v) dict" where
  "dict_pop \<equiv> AList.delete"

abbreviation dict_keys :: "('k, 'v) dict \<Rightarrow> 'k list" where
  "dict_keys d \<equiv> map fst d"

definition dict_ok :: "('k, 'v) dict \<Rightarrow> bool" where
  "dict_ok d \<longleftrightarrow> distinct (dict_keys d)"

lemma dict_ok_Nil [simp, inv_intros]: "dict_ok []"
  by (simp add: dict_ok_def)

lemma dict_ok_set [simp, inv_intros]: "dict_ok d \<Longrightarrow> dict_ok (dict_set k v d)"
  by (simp add: dict_ok_def distinct_update)

lemma dict_ok_pop [simp, inv_intros]: "dict_ok d \<Longrightarrow> dict_ok (dict_pop k d)"
  by (simp add: dict_ok_def distinct_delete)

lemma dict_ok_sort: "dict_ok (sort_key f d) \<longleftrightarrow> dict_ok d"
proof -
  have "mset (map fst (sort_key f d)) = mset (map fst d)" by simp
  then show ?thesis unfolding dict_ok_def by (rule mset_eq_imp_distinct_iff)
qed

lemma dict_get_set [simp, dict_simps]:
  "dict_get (dict_set k v d) k' = (if k = k' then Some v else dict_get d k')"
  by (simp add: update_conv')

lemma dict_get_pop [simp, dict_simps]:
  "dict_get (dict_pop k d) k' = (if k = k' then None else dict_get d k')"
  by (auto simp: delete_conv')

lemma keys_dict_pop [simp, dict_simps]: "fst ` set (dict_pop k d) = fst ` set d - {k}"
  by (induction d) auto

lemma dict_get_in: "dict_ok d \<Longrightarrow> (k, v) \<in> set d \<longleftrightarrow> dict_get d k = Some v"
  by (auto simp: dict_ok_def dest: map_of_SomeD)

lemma length_dict_set_le: "length (dict_set k v d) \<le> Suc (length d)"
  by (induction d) auto

lemma length_dict_set_in: "k \<in> set (dict_keys d) \<Longrightarrow> length (dict_set k v d) = length d"
  by (induction d) auto

section \<open>Decimal text\<close>

definition digit_char :: "nat \<Rightarrow> char" where
  "digit_char d = char_of (48 + d)"

definition digit_val :: "char \<Rightarrow> nat" where
  "digit_val c = of_char c - 48"

definition is_digit :: "char \<Rightarrow> bool" where
  "is_digit c \<longleftrightarrow> 48 \<le> (of_char c :: nat) \<and> (of_char c :: nat) \<le> 57"

lemma of_digit_char: "d < 10 \<Longrightarrow> of_char (digit_char d) = 48 + d"
  by (simp add: digit_char_def)

lemma digit_val_char [simp, py_simps]: "d < 10 \<Longrightarrow> digit_val (digit_char d) = d"
  by (simp add: digit_val_def of_digit_char)

lemma is_digit_char [simp, py_simps]: "d < 10 \<Longrightarrow> is_digit (digit_char d)"
  by (simp add: is_digit_def of_digit_char)

lemma digit_char_0 [simp]: "digit_char 0 = CHR ''0''"
  by code_simp

lemma digit_val_0 [simp]: "digit_val (CHR ''0'') = 0"
  by (simp add: digit_val_def)

lemma is_digit_0 [simp]: "is_digit (CHR ''0'')"
  by (simp add: is_digit_def)

lemma digit_char_inj: "d < 10 \<Longrightarrow> e < 10 \<Longrightarrow> digit_char d = digit_char e \<longleftrightarrow> d = e"
  by (metis digit_val_char)

text \<open>\<open>str(n)\<close> for a natural number.\<close>

fun nat_str :: "nat \<Rightarrow> string" where
  "nat_str n = (if n < 10 then [digit_char n] else nat_str (n div 10) @ [digit_char (n mod 10)])"

declare nat_str.simps [simp del]

definition str_nat :: "string \<Rightarrow> nat" where
  "str_nat s = foldl (\<lambda>a c. a * 10 + digit_val c) 0 s"

lemma nat_str_small: "n < 10 \<Longrightarrow> nat_str n = [digit_char n]"
  by (subst nat_str.simps) simp

lemma nat_str_big: "\<not> n < 10 \<Longrightarrow> nat_str n = nat_str (n div 10) @ [digit_char (n mod 10)]"
  by (subst nat_str.simps) simp

lemma nat_str_nonempty [simp]: "nat_str n \<noteq> []"
  by (subst nat_str.simps) simp

lemma str_nat_Nil [simp]: "str_nat [] = 0"
  by (simp add: str_nat_def)

lemma str_nat_snoc: "str_nat (s @ [c]) = str_nat s * 10 + digit_val c"
  by (simp add: str_nat_def)

lemma str_nat_append: "str_nat (s @ t) = str_nat s * 10 ^ length t + str_nat t"
proof (induction t rule: rev_induct)
  case Nil
  then show ?case by simp
next
  case (snoc c t)
  have "str_nat (s @ t @ [c]) = str_nat (s @ t) * 10 + digit_val c"
    using str_nat_snoc[where s = "s @ t" and c = c] by simp
  with snoc show ?case by (simp add: str_nat_snoc algebra_simps)
qed

lemma str_nat_nat_str [simp, py_simps]: "str_nat (nat_str n) = n"
proof (induction n rule: nat_str.induct)
  case (1 n)
  show ?case
  proof (cases "n < 10")
    case True
    then show ?thesis by (simp add: nat_str_small str_nat_def)
  next
    case False
    with 1 show ?thesis by (simp add: nat_str_big str_nat_snoc)
  qed
qed

lemma nat_str_inj [simp]: "nat_str m = nat_str n \<longleftrightarrow> m = n"
  by (metis str_nat_nat_str)

lemma nat_str_digits: "list_all is_digit (nat_str n)"
proof (induction n rule: nat_str.induct)
  case (1 n)
  then show ?case
    by (cases "n < 10") (simp_all add: nat_str_small nat_str_big)
qed

lemma hd_nat_str_zero: "hd (nat_str n) = CHR ''0'' \<longleftrightarrow> n = 0"
proof (induction n rule: nat_str.induct)
  case (1 n)
  show ?case
  proof (cases "n < 10")
    case True
    then show ?thesis
      using digit_char_inj[where d = n and e = 0] by (simp add: nat_str_small)
  next
    case False
    with 1 show ?thesis by (simp add: nat_str_big)
  qed
qed

lemma length_nat_str_le: "n < 10 ^ k \<Longrightarrow> 0 < k \<Longrightarrow> length (nat_str n) \<le> k"
proof (induction k arbitrary: n)
  case 0
  then show ?case by simp
next
  case (Suc k)
  show ?case
  proof (cases "n < 10")
    case True
    then show ?thesis by (simp add: nat_str_small)
  next
    case False
    then have "0 < k" using Suc.prems by (cases k) auto
    moreover have "n div 10 < 10 ^ k" using Suc.prems by (simp add: less_mult_imp_div_less)
    ultimately have "length (nat_str (n div 10)) \<le> k" by (rule Suc.IH[rotated])
    with False show ?thesis by (simp add: nat_str_big)
  qed
qed

text \<open>\<open>f"{n:0{k}d}"\<close>: decimal text, zero padded to at least \<open>k\<close> places.\<close>

definition zfill :: "nat \<Rightarrow> nat \<Rightarrow> string" where
  "zfill k n = replicate (k - length (nat_str n)) (CHR ''0'') @ nat_str n"

lemma str_nat_zeros: "str_nat (replicate k (CHR ''0'')) = 0"
  by (induction k) (simp_all add: str_nat_snoc replicate_append_same[symmetric])

lemma str_nat_zfill [simp, py_simps]: "str_nat (zfill k n) = n"
  by (simp add: zfill_def str_nat_append str_nat_zeros)

lemma length_zfill: "n < 10 ^ k \<Longrightarrow> 0 < k \<Longrightarrow> length (zfill k n) = k"
  using length_nat_str_le by (simp add: zfill_def)

lemma zfill_digits: "list_all is_digit (zfill k n)"
  using nat_str_digits[of n] by (auto simp: zfill_def list_all_iff)


section \<open>Machines\<close>

text \<open>
  A component that serves calls one at a time: every allowed call keeps the invariant.  The
  lemma carries it through any sequence of allowed calls, which is how the code's lock
  serialises them.
\<close>

locale machine =
  fixes exec :: "'c \<Rightarrow> 's \<Rightarrow> 's"
    and inv :: "'s \<Rightarrow> bool"
    and allowed :: "'c \<Rightarrow> bool"
  assumes inv_exec: "allowed c \<Longrightarrow> inv s \<Longrightarrow> inv (exec c s)"
begin

lemma inv_run: "list_all allowed cs \<Longrightarrow> inv s \<Longrightarrow> inv (fold exec cs s)"
  by (induction cs arbitrary: s) (simp_all add: inv_exec)

end

text \<open>A machine whose states only move forward in a preorder, such as an append-only ledger.\<close>

locale growing_machine = machine exec inv allowed
  for exec :: "'c \<Rightarrow> 's \<Rightarrow> 's" and inv and allowed +
  fixes keeps :: "'s \<Rightarrow> 's \<Rightarrow> bool"
  assumes keeps_refl: "keeps s s"
    and keeps_trans: "keeps r s \<Longrightarrow> keeps s t \<Longrightarrow> keeps r t"
    and keeps_exec: "allowed c \<Longrightarrow> inv s \<Longrightarrow> keeps s (exec c s)"
begin

lemma keeps_run: "list_all allowed cs \<Longrightarrow> inv s \<Longrightarrow> keeps s (fold exec cs s)"
proof (induction cs arbitrary: s)
  case Nil
  then show ?case by (simp add: keeps_refl)
next
  case (Cons c cs)
  then have "keeps s (exec c s)" "keeps (exec c s) (fold exec cs (exec c s))"
    by (simp_all add: keeps_exec inv_exec)
  then show ?case by (auto intro: keeps_trans)
qed

end

text \<open>Shared shape of dictionary lemmas: a filtered dictionary.\<close>

lemma dict_ok_filter [simp, inv_intros]: "dict_ok d \<Longrightarrow> dict_ok (filter P d)"
  by (simp add: dict_ok_def distinct_map_filter)

lemma dict_get_filter:
  "dict_ok d \<Longrightarrow> dict_get (filter P d) k = Some v \<longleftrightarrow> dict_get d k = Some v \<and> P (k, v)"
  using dict_get_in[of "filter P d" k v] dict_get_in[of d k v] by simp

lemma dict_ok_fold_pop [simp, inv_intros]: "dict_ok d \<Longrightarrow> dict_ok (fold (\<lambda>x. dict_pop (f x)) xs d)"
  by (induction xs arbitrary: d) simp_all

lemma dict_get_fold_pop:
  "dict_get (fold (\<lambda>x. dict_pop (f x)) xs d) k = (if k \<in> f ` set xs then None else dict_get d k)"
  by (induction xs arbitrary: d) auto

definition opt_set :: "'a option \<Rightarrow> 'a \<Rightarrow> 'a" where
  "opt_set x old = (case x of None \<Rightarrow> old | Some v \<Rightarrow> v)"

lemma opt_set_simps [simp]: "opt_set None old = old" "opt_set (Some v) old = v"
  by (simp_all add: opt_set_def)

end
