(* ===== verification/Json.thy ===== *)
theory Json
  imports Prelude
begin

text \<open>
  The JSON text of the standard library's \<open>json\<close> module, as the ledgers use it:
  \<open>json.dumps(v, sort_keys=True, separators=(",", ":"), ensure_ascii=False)\<close> is \<open>dumps v\<close>
  and \<open>json.loads(text)\<close> is \<open>loads text\<close>.  A \<open>str\<close> is its UTF-8 bytes; a \<open>dict\<close> is an
  association list in insertion order.  A \<open>float\<close> is a decimal in units of \<open>10^-9\<close>: the
  ledgers hold values rounded to at most six places, whose \<open>repr\<close> is that decimal.  A
  literal that is no such decimal (more places, \<open>NaN\<close>, \<open>Infinity\<close>) is outside the model
  and read as an error.

  The main result is \<open>loads_dumps\<close>: reading back what was written gives the value with its
  objects' keys sorted, so two values with the same canonical bytes are the same value up
  to key order (\<open>dumps_inj\<close>).
\<close>

section \<open>Values\<close>

datatype json =
    JNull
  | JBool bool
  | JInt int
  | JFloat int
  | JStr string
  | JArr "json list"
  | JObj "(string, json) dict"

text \<open>Accessors, for code that indexes parsed JSON: \<open>d.get(k)\<close> and \<open>isinstance\<close> tests.\<close>

definition is_obj :: "json \<Rightarrow> bool" where
  "is_obj v = (case v of JObj _ \<Rightarrow> True | _ \<Rightarrow> False)"

definition obj_fields :: "json \<Rightarrow> (string, json) dict" where
  "obj_fields v = (case v of JObj kvs \<Rightarrow> kvs | _ \<Rightarrow> [])"

definition jget :: "json \<Rightarrow> string \<Rightarrow> json" where
  "jget v k = (case dict_get (obj_fields v) k of Some x \<Rightarrow> x | None \<Rightarrow> JNull)"

lemma obj_fields_simps [simp]:
  "obj_fields (JObj kvs) = kvs" "is_obj (JObj kvs)" "\<not> is_obj JNull"
  "\<not> is_obj (JStr s)" "\<not> is_obj (JArr vs)" "\<not> is_obj (JInt i)"
  by (simp_all add: obj_fields_def is_obj_def)

definition json_size :: "json + json list + (string, json) dict \<Rightarrow> nat" where
  "json_size = case_sum size (case_sum (size_list size) (size_list (size_prod (\<lambda>_. 0) size)))"

lemma json_size_simps [simp]:
  "json_size (Inl v) = size v"
  "json_size (Inr (Inl vs)) = size_list size vs"
  "json_size (Inr (Inr kvs)) = size_list (size_prod (\<lambda>_. 0) size) kvs"
  by (simp_all add: json_size_def)

text \<open>\<open>sort_keys\<close>: every object's members in the order of their keys.\<close>

function normalise :: "json \<Rightarrow> json"
  and normalise_items :: "json list \<Rightarrow> json list"
  and normalise_members :: "(string, json) dict \<Rightarrow> (string, json) dict" where
  "normalise (JArr vs) = JArr (normalise_items vs)"
| "normalise (JObj kvs) = JObj (sort_key fst (normalise_members kvs))"
| "normalise JNull = JNull"
| "normalise (JBool b) = JBool b"
| "normalise (JInt i) = JInt i"
| "normalise (JFloat n) = JFloat n"
| "normalise (JStr s) = JStr s"
| "normalise_items [] = []"
| "normalise_items (v # vs) = normalise v # normalise_items vs"
| "normalise_members [] = []"
| "normalise_members ((k, v) # kvs) = (k, normalise v) # normalise_members kvs"
  by pat_completeness auto
termination
  by (relation "measure json_size") simp_all

lemma keys_normalise_members [simp]: "dict_keys (normalise_members kvs) = dict_keys kvs"
  by (induction kvs) auto

lemma normalise_members_map: "normalise_members kvs = map (\<lambda>(k, v). (k, normalise v)) kvs"
  by (induction kvs) auto

lemma normalise_items_map: "normalise_items vs = map normalise vs"
  by (induction vs) auto

section \<open>Printing\<close>

definition hex_digit :: "nat \<Rightarrow> char" where
  "hex_digit d = (if d < 10 then digit_char d else char_of (87 + d))"

text \<open>The escapes of \<open>ensure_ascii=False\<close>: the quote, the backslash and control characters.\<close>

definition esc_char :: "char \<Rightarrow> string" where
  "esc_char c =
     (let n = of_char c in
      if n = (34::nat) then [CHR 0x5c, CHR 0x22]
      else if n = 92 then [CHR 0x5c, CHR 0x5c]
      else if n = 10 then [CHR 0x5c, CHR ''n'']
      else if n = 13 then [CHR 0x5c, CHR ''r'']
      else if n = 9 then [CHR 0x5c, CHR ''t'']
      else if n = 12 then [CHR 0x5c, CHR ''f'']
      else if n = 8 then [CHR 0x5c, CHR ''b'']
      else if n < 32 then [CHR 0x5c, CHR ''u'', CHR ''0'', CHR ''0'', hex_digit (n div 16), hex_digit (n mod 16)]
      else [c])"

definition print_string :: "string \<Rightarrow> string" where
  "print_string s = CHR 0x22 # concat (map esc_char s) @ [CHR 0x22]"

definition print_int :: "int \<Rightarrow> string" where
  "print_int i = (if i < 0 then CHR ''-'' # nat_str (nat (- i)) else nat_str (nat i))"

text \<open>
  \<open>repr\<close> of the float \<open>n * 10^-9\<close>: positional with the shortest fraction, and exponent
  form below \<open>10^-4\<close>.
\<close>

definition strip_zeros :: "string \<Rightarrow> string" where
  "strip_zeros s = rev (dropWhile (\<lambda>c. c = CHR ''0'') (rev s))"

definition frac_text :: "string \<Rightarrow> string" where
  "frac_text ds = (if ds = [] then [] else CHR ''.'' # ds)"

definition print_ufloat :: "nat \<Rightarrow> string" where
  "print_ufloat n =
     (if n = 0 \<or> 100000 \<le> n
      then (let f = strip_zeros (zfill 9 (n mod 1000000000))
            in nat_str (n div 1000000000) @ CHR ''.'' # (if f = [] then ''0'' else f))
      else (let ds = nat_str n
            in hd ds # frac_text (strip_zeros (tl ds)) @ ''e-0'' @ nat_str (10 - length ds)))"

definition print_float :: "int \<Rightarrow> string" where
  "print_float n = (if n < 0 then CHR ''-'' # print_ufloat (nat (- n)) else print_ufloat (nat n))"

function print_json :: "json \<Rightarrow> string"
  and print_items :: "json list \<Rightarrow> string"
  and print_members :: "(string, json) dict \<Rightarrow> string" where
  "print_json JNull = ''null''"
| "print_json (JBool b) = (if b then ''true'' else ''false'')"
| "print_json (JInt i) = print_int i"
| "print_json (JFloat n) = print_float n"
| "print_json (JStr s) = print_string s"
| "print_json (JArr vs) = CHR ''['' # print_items vs @ '']''"
| "print_json (JObj kvs) = CHR ''{'' # print_members kvs @ ''}''"
| "print_items [] = []"
| "print_items [v] = print_json v"
| "print_items (v # w # vs) = print_json v @ CHR '','' # print_items (w # vs)"
| "print_members [] = []"
| "print_members [(k, v)] = print_string k @ CHR '':'' # print_json v"
| "print_members ((k, v) # q # kvs) =
     print_string k @ CHR '':'' # print_json v @ CHR '','' # print_members (q # kvs)"
  by pat_completeness auto
termination
  by (relation "measure json_size") simp_all

definition dumps :: "json \<Rightarrow> string" where
  "dumps v = print_json (normalise v)"


section \<open>Parsing\<close>

subsection \<open>Numbers\<close>

text \<open>The number grammar \<open>-?(0|[1-9][0-9]*)(\.[0-9]+)?([eE][-+]?[0-9]+)?\<close>, longest match.\<close>

definition parse_uint :: "string \<Rightarrow> (string \<times> string) option" where
  "parse_uint s =
     (case s of
        [] \<Rightarrow> None
      | c # cs \<Rightarrow>
          if c = CHR ''0'' then Some (''0'', cs)
          else if is_digit c then Some (takeWhile is_digit s, dropWhile is_digit s)
          else None)"

definition parse_frac :: "string \<Rightarrow> string \<times> string" where
  "parse_frac s =
     (case s of
        [] \<Rightarrow> ([], s)
      | c # cs \<Rightarrow>
          if c = CHR ''.'' \<and> takeWhile is_digit cs \<noteq> []
          then (takeWhile is_digit cs, dropWhile is_digit cs)
          else ([], s))"

definition parse_exp_digits :: "int \<Rightarrow> string \<Rightarrow> string \<Rightarrow> int option \<times> string" where
  "parse_exp_digits sg whole cs =
     (if takeWhile is_digit cs \<noteq> []
      then (Some (sg * int (str_nat (takeWhile is_digit cs))), dropWhile is_digit cs)
      else (None, whole))"

definition parse_exp :: "string \<Rightarrow> int option \<times> string" where
  "parse_exp s =
     (case s of
        c # d # cs \<Rightarrow>
          if c = CHR ''e'' \<or> c = CHR ''E''
          then (if d = CHR ''-'' then parse_exp_digits (- 1) s cs
                else if d = CHR ''+'' then parse_exp_digits 1 s cs
                else parse_exp_digits 1 s (d # cs))
          else (None, s)
      | _ \<Rightarrow> (None, s))"

text \<open>The decimal \<open>m * 10^e\<close> in units of \<open>10^-9\<close>, if it is a whole number of them.\<close>

definition scale9 :: "nat \<Rightarrow> int \<Rightarrow> nat option" where
  "scale9 m e =
     (if 0 \<le> e + 9 then Some (m * 10 ^ nat (e + 9))
      else if 10 ^ nat (- (e + 9)) dvd m then Some (m div 10 ^ nat (- (e + 9)))
      else None)"

definition parse_unumber :: "bool \<Rightarrow> string \<Rightarrow> (json \<times> string) option" where
  "parse_unumber neg s =
     (case parse_uint s of
        None \<Rightarrow> None
      | Some (ds, s1) \<Rightarrow>
          (case parse_frac s1 of (fs, s2) \<Rightarrow>
            (case parse_exp s2 of (ex, s3) \<Rightarrow>
              if fs = [] \<and> ex = None
              then Some (JInt ((if neg then - 1 else 1) * int (str_nat ds)), s3)
              else (case scale9 (str_nat (ds @ fs))
                           ((case ex of Some e \<Rightarrow> e | None \<Rightarrow> 0) - int (length fs)) of
                      None \<Rightarrow> None
                    | Some n \<Rightarrow>
                        if neg \<and> n = 0 then None
                        else Some (JFloat ((if neg then - 1 else 1) * int n), s3)))))"

definition parse_number :: "string \<Rightarrow> (json \<times> string) option" where
  "parse_number s =
     (case s of
        [] \<Rightarrow> None
      | c # cs \<Rightarrow> if c = CHR ''-'' then parse_unumber True cs else parse_unumber False s)"

subsection \<open>Strings\<close>

definition hex_val :: "char \<Rightarrow> nat option" where
  "hex_val c =
     (let n = of_char c in
      if 48 \<le> n \<and> n \<le> 57 then Some (n - 48)
      else if 97 \<le> n \<and> n \<le> 102 then Some (n - 87)
      else if 65 \<le> n \<and> n \<le> 70 then Some (n - 55)
      else None)"

fun hex4 :: "string \<Rightarrow> (nat \<times> string) option" where
  "hex4 (a # b # c # d # cs) =
     (case (hex_val a, hex_val b, hex_val c, hex_val d) of
        (Some w, Some x, Some y, Some z) \<Rightarrow> Some (((w * 16 + x) * 16 + y) * 16 + z, cs)
      | _ \<Rightarrow> None)"
| "hex4 _ = None"

definition utf8 :: "nat \<Rightarrow> string" where
  "utf8 n =
     (if n < 128 then [char_of n]
      else if n < 2048 then [char_of (192 + n div 64), char_of (128 + n mod 64)]
      else if n < 65536
      then [char_of (224 + n div 4096), char_of (128 + n div 64 mod 64), char_of (128 + n mod 64)]
      else [char_of (240 + n div 262144), char_of (128 + n div 4096 mod 64),
            char_of (128 + n div 64 mod 64), char_of (128 + n mod 64)])"

text \<open>\<open>\uXXXX\<close>, with a high and a low surrogate joined into one code point.\<close>

definition unescape_u :: "string \<Rightarrow> (string \<times> string) option" where
  "unescape_u cs =
     (case hex4 cs of
        None \<Rightarrow> None
      | Some (hi, rest) \<Rightarrow>
          (case rest of
             b # u # rest1 \<Rightarrow>
               if 55296 \<le> hi \<and> hi \<le> 56319 \<and> b = CHR 0x5c \<and> u = CHR ''u''
               then (case hex4 rest1 of
                       None \<Rightarrow> None
                     | Some (lo, rest2) \<Rightarrow>
                         if 56320 \<le> lo \<and> lo \<le> 57343
                         then Some (utf8 (65536 + ((hi - 55296) * 1024 + (lo - 56320))), rest2)
                         else Some (utf8 hi, rest))
               else Some (utf8 hi, rest)
           | _ \<Rightarrow> Some (utf8 hi, rest)))"

text \<open>What follows a backslash.\<close>

definition unescape :: "string \<Rightarrow> (string \<times> string) option" where
  "unescape s =
     (case s of
        [] \<Rightarrow> None
      | c # cs \<Rightarrow>
          let n = of_char c in
          if n = (34::nat) then Some ([CHR 0x22], cs)
          else if n = 92 then Some ([CHR 0x5c], cs)
          else if c = CHR ''/'' then Some (''/'', cs)
          else if c = CHR ''n'' then Some ([char_of (10::nat)], cs)
          else if c = CHR ''r'' then Some ([char_of (13::nat)], cs)
          else if c = CHR ''t'' then Some ([char_of (9::nat)], cs)
          else if c = CHR ''f'' then Some ([char_of (12::nat)], cs)
          else if c = CHR ''b'' then Some ([char_of (8::nat)], cs)
          else if c = CHR ''u'' then unescape_u cs
          else None)"

lemma hex4_length: "hex4 s = Some (n, t) \<Longrightarrow> length t < length s"
  by (induction s rule: hex4.induct) (auto split: option.splits)

lemma unescape_u_length: "unescape_u s = Some (t, r) \<Longrightarrow> length r < length s"
  by (auto simp: unescape_u_def dest!: hex4_length split: option.splits list.splits if_splits)

lemma unescape_length: "unescape s = Some (t, r) \<Longrightarrow> length r < length s"
  by (auto simp: unescape_def Let_def dest: unescape_u_length split: list.splits if_splits)

text \<open>The rest of a string literal after its opening quote.\<close>

function scan_string :: "string \<Rightarrow> (string \<times> string) option" where
  "scan_string s =
     (case s of
        [] \<Rightarrow> None
      | c # cs \<Rightarrow>
          if of_char c = (34::nat) then Some ([], cs)
          else if of_char c = (92::nat)
          then (case unescape cs of
                  None \<Rightarrow> None
                | Some (t, rest) \<Rightarrow>
                    (case scan_string rest of
                       None \<Rightarrow> None
                     | Some (u, rest') \<Rightarrow> Some (t @ u, rest')))
          else if of_char c < (32::nat) then None
          else (case scan_string cs of
                  None \<Rightarrow> None
                | Some (u, rest) \<Rightarrow> Some (c # u, rest)))"
  by pat_completeness auto
termination
  by (relation "measure length") (auto dest: unescape_length)

declare scan_string.simps [simp del]

subsection \<open>Values\<close>

definition is_ws :: "char \<Rightarrow> bool" where
  "is_ws c \<longleftrightarrow> (of_char c :: nat) \<in> {32, 9, 10, 13}"

definition skip_ws :: "string \<Rightarrow> string" where
  "skip_ws s = dropWhile is_ws s"

definition parse_literal :: "string \<Rightarrow> (json \<times> string) option" where
  "parse_literal s =
     (if starts_with ''null'' s then Some (JNull, drop 4 s)
      else if starts_with ''true'' s then Some (JBool True, drop 4 s)
      else if starts_with ''false'' s then Some (JBool False, drop 5 s)
      else parse_number s)"

text \<open>
  The scanner.  The fuel bounds the recursion: each unit of it pays for one value, one
  array element or one object member, and \<open>2 * length s + 2\<close> is enough for the text \<open>s\<close>.
\<close>

fun parse_value :: "nat \<Rightarrow> string \<Rightarrow> (json \<times> string) option"
  and parse_items :: "nat \<Rightarrow> string \<Rightarrow> (json list \<times> string) option"
  and parse_members :: "nat \<Rightarrow> string \<Rightarrow> ((string \<times> json) list \<times> string) option" where
  "parse_value 0 s = None"
| "parse_value (Suc f) s =
     (case s of
        [] \<Rightarrow> None
      | c # cs \<Rightarrow>
          if of_char c = (34::nat)
          then (case scan_string cs of None \<Rightarrow> None | Some (t, rest) \<Rightarrow> Some (JStr t, rest))
          else if c = CHR ''[''
          then (case skip_ws cs of
                  [] \<Rightarrow> None
                | d # ds \<Rightarrow>
                    if d = CHR '']'' then Some (JArr [], ds)
                    else (case parse_items f (d # ds) of
                            None \<Rightarrow> None | Some (vs, rest) \<Rightarrow> Some (JArr vs, rest)))
          else if c = CHR ''{''
          then (case skip_ws cs of
                  [] \<Rightarrow> None
                | d # ds \<Rightarrow>
                    if d = CHR ''}'' then Some (JObj [], ds)
                    else (case parse_members f (d # ds) of
                            None \<Rightarrow> None
                          | Some (kvs, rest) \<Rightarrow>
                              Some (JObj (fold (\<lambda>(k, v) d. dict_set k v d) kvs []), rest)))
          else parse_literal s)"
| "parse_items 0 s = None"
| "parse_items (Suc f) s =
     (case parse_value f s of
        None \<Rightarrow> None
      | Some (v, rest) \<Rightarrow>
          (case skip_ws rest of
             [] \<Rightarrow> None
           | c # cs \<Rightarrow>
               if c = CHR '']'' then Some ([v], cs)
               else if c = CHR '',''
               then (case parse_items f (skip_ws cs) of
                       None \<Rightarrow> None | Some (vs, rest') \<Rightarrow> Some (v # vs, rest'))
               else None))"
| "parse_members 0 s = None"
| "parse_members (Suc f) s =
     (case s of
        [] \<Rightarrow> None
      | q # s1 \<Rightarrow>
          if of_char q \<noteq> (34::nat) then None
          else (case scan_string s1 of
             None \<Rightarrow> None
           | Some (k, rest) \<Rightarrow>
               (case skip_ws rest of
                  [] \<Rightarrow> None
                | c # cs \<Rightarrow>
                    if c \<noteq> CHR '':'' then None
                    else (case parse_value f (skip_ws cs) of
                            None \<Rightarrow> None
                          | Some (v, rest1) \<Rightarrow>
                              (case skip_ws rest1 of
                                 [] \<Rightarrow> None
                               | d # ds \<Rightarrow>
                                   if d = CHR ''}'' then Some ([(k, v)], ds)
                                   else if d = CHR '',''
                                   then (case parse_members f (skip_ws ds) of
                                           None \<Rightarrow> None
                                         | Some (kvs, rest') \<Rightarrow> Some ((k, v) # kvs, rest'))
                                   else None)))))"

definition loads :: "string \<Rightarrow> json option" where
  "loads s =
     (case parse_value (2 * length s + 2) (skip_ws s) of
        None \<Rightarrow> None
      | Some (v, rest) \<Rightarrow> if skip_ws rest = [] then Some v else None)"

section \<open>Reading back what was printed\<close>

lemma scan_string_quote [simp]: "scan_string (CHR 0x22 # t) = Some ([], t)"
  by (subst scan_string.simps) simp

lemma scan_string_escape:
  "scan_string (CHR 0x5c # t) =
     (case unescape t of
        None \<Rightarrow> None
      | Some (x, rest) \<Rightarrow>
          (case scan_string rest of None \<Rightarrow> None | Some (u, rest') \<Rightarrow> Some (x @ u, rest')))"
  by (subst scan_string.simps) simp

lemma scan_string_plain:
  "of_char c \<noteq> (34::nat) \<Longrightarrow> of_char c \<noteq> (92::nat) \<Longrightarrow> \<not> of_char c < (32::nat) \<Longrightarrow>
   scan_string (c # t) =
     (case scan_string t of None \<Rightarrow> None | Some (u, rest) \<Rightarrow> Some (c # u, rest))"
  by (subst scan_string.simps) simp

lemma hex_val_digit: "d < 16 \<Longrightarrow> hex_val (hex_digit d) = Some d"
  by (simp add: hex_val_def hex_digit_def digit_char_def)

lemma hex_val_0 [simp]: "hex_val (CHR ''0'') = Some 0"
  by (simp add: hex_val_def)

lemma unescape_control:
  "n < 32 \<Longrightarrow>
   unescape (CHR ''u'' # CHR ''0'' # CHR ''0'' # hex_digit (n div 16) # hex_digit (n mod 16) # t) =
     Some ([char_of n], t)"
  by (cases t rule: list.exhaust)
    (auto simp: unescape_def unescape_u_def hex_val_digit utf8_def split: list.splits)

lemma char_of_quotes [simp]: "char_of (34::nat) = CHR 0x22" "char_of (92::nat) = CHR 0x5c"
  by code_simp+

lemma scan_esc_char:
  "scan_string (esc_char c @ t) =
     (case scan_string t of None \<Rightarrow> None | Some (u, rest) \<Rightarrow> Some (c # u, rest))"
proof -
  define n :: nat where "n = of_char c"
  then have n: "n = of_char c" "c = char_of n" by simp_all
  consider "n = 34" | "n = 92" | "n = 10" | "n = 13" | "n = 9" | "n = 12" | "n = 8"
    | "n < 32" "n \<noteq> 10" "n \<noteq> 13" "n \<noteq> 9" "n \<noteq> 12" "n \<noteq> 8"
    | "\<not> n < 32" "n \<noteq> 34" "n \<noteq> 92" by linarith
  then show ?thesis
  proof cases
    case 8
    then have "esc_char c = CHR 0x5c # [CHR ''u'', CHR ''0'', CHR ''0'', hex_digit (n div 16), hex_digit (n mod 16)]"
      unfolding esc_char_def n(1)[symmetric] by simp
    with 8 show ?thesis
      by (simp add: scan_string_escape unescape_control n(2)[symmetric] split: option.splits)
  next
    case 9
    then have "esc_char c = [c]"
      unfolding esc_char_def n(1)[symmetric] by simp
    with 9 show ?thesis by (simp add: scan_string_plain n(1)[symmetric])
  qed (simp_all add: n(2) esc_char_def scan_string_escape unescape_def split: option.splits)
qed

lemma scan_print_body: "scan_string (concat (map esc_char s) @ CHR 0x22 # t) = Some (s, t)"
  by (induction s) (simp_all add: scan_esc_char)

subsection \<open>Numbers\<close>

text \<open>Text after a number that does not continue it.\<close>

definition stops :: "string \<Rightarrow> bool" where
  "stops t \<longleftrightarrow> (case t of [] \<Rightarrow> True | c # _ \<Rightarrow> \<not> is_digit c \<and> c \<noteq> CHR ''.'' \<and> c \<noteq> CHR ''e'' \<and> c \<noteq> CHR ''E'')"

definition no_digit :: "string \<Rightarrow> bool" where
  "no_digit t \<longleftrightarrow> (case t of [] \<Rightarrow> True | c # _ \<Rightarrow> \<not> is_digit c)"

lemma stops_no_digit: "stops t \<Longrightarrow> no_digit t"
  by (auto simp: stops_def no_digit_def split: list.splits)

lemma take_digits: "list_all is_digit ds \<Longrightarrow> no_digit t \<Longrightarrow> takeWhile is_digit (ds @ t) = ds"
  by (induction ds) (auto simp: no_digit_def split: list.splits)

lemma drop_digits: "list_all is_digit ds \<Longrightarrow> no_digit t \<Longrightarrow> dropWhile is_digit (ds @ t) = t"
  by (induction ds) (auto simp: no_digit_def split: list.splits)

lemma not_digit_simps [simp]:
  "\<not> is_digit (CHR ''.'')" "\<not> is_digit (CHR ''e'')" "\<not> is_digit (CHR ''-'')"
  by (simp_all add: is_digit_def)

lemma parse_uint_digits:
  "list_all is_digit ds \<Longrightarrow> ds \<noteq> [] \<Longrightarrow> hd ds = CHR ''0'' \<longrightarrow> ds = ''0'' \<Longrightarrow> no_digit t \<Longrightarrow>
   parse_uint (ds @ t) = Some (ds, t)"
  using take_digits[of ds t] drop_digits[of ds t]
  by (cases ds) (auto simp: parse_uint_def)

lemma nat_str_zero_hd: "hd (nat_str n) = CHR ''0'' \<longrightarrow> nat_str n = ''0''"
  using hd_nat_str_zero[of n] by (auto simp: nat_str_small)

lemma parse_uint_nat_str: "no_digit t \<Longrightarrow> parse_uint (nat_str n @ t) = Some (nat_str n, t)"
  using nat_str_digits nat_str_nonempty nat_str_zero_hd by (rule parse_uint_digits)

lemma parse_frac_digits:
  "list_all is_digit ds \<Longrightarrow> ds \<noteq> [] \<Longrightarrow> no_digit t \<Longrightarrow> parse_frac (CHR ''.'' # ds @ t) = (ds, t)"
  by (simp add: parse_frac_def take_digits drop_digits)

lemma parse_frac_none: "stops t \<Longrightarrow> parse_frac t = ([], t)"
  by (auto simp: parse_frac_def stops_def split: list.splits)

lemma parse_exp_none: "stops t \<Longrightarrow> parse_exp t = (None, t)"
  by (auto simp: parse_exp_def stops_def split: list.splits)

lemma parse_exp_neg:
  "list_all is_digit ds \<Longrightarrow> ds \<noteq> [] \<Longrightarrow> no_digit t \<Longrightarrow>
   parse_exp (CHR ''e'' # CHR ''-'' # ds @ t) = (Some (- int (str_nat ds)), t)"
  by (simp add: parse_exp_def parse_exp_digits_def take_digits drop_digits)

lemma parse_unumber_int:
  "stops t \<Longrightarrow> parse_unumber neg (nat_str n @ t) = Some (JInt ((if neg then - 1 else 1) * int n), t)"
  by (simp add: parse_unumber_def parse_uint_nat_str stops_no_digit parse_frac_none parse_exp_none)

lemma strip_zeros_split: "\<exists>k. ds = strip_zeros ds @ replicate k (CHR ''0'')"
proof -
  let ?p = "\<lambda>c. c = CHR ''0''"
  have "ds = rev (dropWhile ?p (rev ds)) @ rev (takeWhile ?p (rev ds))"
    by (simp flip: rev_append)
  moreover have "takeWhile ?p (rev ds) = replicate (length (takeWhile ?p (rev ds))) (CHR ''0'')"
    by (rule replicate_length_same[symmetric]) (auto dest: set_takeWhileD)
  ultimately have "ds = strip_zeros ds @ rev (replicate (length (takeWhile ?p (rev ds))) (CHR ''0''))"
    by (simp add: strip_zeros_def)
  then show ?thesis by (metis rev_replicate)
qed

lemma strip_zeros_digits: "list_all is_digit ds \<Longrightarrow> list_all is_digit (strip_zeros ds)"
  using strip_zeros_split[of ds] by (metis list_all_append)

lemma str_nat_strip: "str_nat ds = str_nat (strip_zeros ds) * 10 ^ (length ds - length (strip_zeros ds))"
proof -
  obtain k where k: "ds = strip_zeros ds @ replicate k (CHR ''0'')" using strip_zeros_split by blast
  have "length ds - length (strip_zeros ds) = k" by (subst k) simp
  moreover have "str_nat ds = str_nat (strip_zeros ds) * 10 ^ k"
    by (subst k) (simp add: str_nat_append str_nat_zeros)
  ultimately show ?thesis by simp
qed

lemma length_strip_le: "length (strip_zeros ds) \<le> length ds"
proof -
  obtain k where k: "ds = strip_zeros ds @ replicate k (CHR ''0'')" using strip_zeros_split by blast
  show ?thesis by (subst (2) k) simp
qed

lemma scale9_int: "k \<le> 9 \<Longrightarrow> scale9 m (0 - int k) = Some (m * 10 ^ (9 - k))"
proof -
  assume "k \<le> 9"
  then have "nat (0 - int k + 9) = 9 - k" by linarith
  with \<open>k \<le> 9\<close> show ?thesis by (simp add: scale9_def)
qed

lemma parse_ufloat_positional:
  assumes "stops t" "n = 0 \<or> 100000 \<le> n"
  shows "parse_unumber neg (print_ufloat n @ t) =
           (if neg \<and> n = 0 then None else Some (JFloat ((if neg then - 1 else 1) * int n), t))"
proof -
  define z where "z = zfill 9 (n mod 1000000000)"
  define f where "f = (if strip_zeros z = [] then ''0'' else strip_zeros z)"
  have lz: "length z = 9" unfolding z_def by (rule length_zfill) simp_all
  have sz: "str_nat z = n mod 1000000000" unfolding z_def by simp
  have dz: "list_all is_digit z" unfolding z_def by (rule zfill_digits)
  have df: "list_all is_digit f" "f \<noteq> []" using strip_zeros_digits[OF dz] by (simp_all add: f_def)
  have lf: "length f \<le> 9" using length_strip_le[of z] lz by (simp add: f_def)
  have sf: "str_nat f * 10 ^ (9 - length f) = n mod 1000000000"
    using str_nat_strip[of z] lz sz by (auto simp: f_def str_nat_def)
  have pr: "print_ufloat n @ t = nat_str (n div 1000000000) @ CHR ''.'' # f @ t"
    using assms(2) by (simp add: print_ufloat_def Let_def f_def z_def)
  have nd: "no_digit (CHR ''.'' # f @ t)" "no_digit t"
    using stops_no_digit[OF assms(1)] by (simp_all add: no_digit_def)
  have val: "str_nat (nat_str (n div 1000000000) @ f) * 10 ^ (9 - length f) = n"
  proof -
    have "str_nat (nat_str (n div 1000000000) @ f) * 10 ^ (9 - length f)
          = (n div 1000000000) * (10 ^ length f * 10 ^ (9 - length f)) + str_nat f * 10 ^ (9 - length f)"
      by (simp add: str_nat_append algebra_simps)
    also have "(10::nat) ^ length f * 10 ^ (9 - length f) = 1000000000"
      using lf by (simp flip: power_add)
    finally show ?thesis using sf by simp
  qed
  have "scale9 (str_nat (nat_str (n div 1000000000) @ f)) (0 - int (length f)) = Some n"
    using scale9_int[OF lf, of "str_nat (nat_str (n div 1000000000) @ f)"] val by simp
  then show ?thesis
    using nd df assms(1)
    by (auto simp: pr parse_unumber_def parse_uint_nat_str parse_frac_digits parse_exp_none)
qed

lemma parse_ufloat_exponent:
  assumes "stops t" "0 < n" "n < 100000"
  shows "parse_unumber neg (print_ufloat n @ t) = Some (JFloat ((if neg then - 1 else 1) * int n), t)"
proof -
  obtain d ds where ds: "nat_str n = d # ds" using nat_str_nonempty[of n] by (cases "nat_str n") auto
  define f where "f = strip_zeros ds"
  have len: "length (d # ds) \<le> 5" using length_nat_str_le[of n 5] assms(3) by (simp flip: ds)
  have dig: "is_digit d" "list_all is_digit ds" using nat_str_digits[of n] by (simp_all add: ds)
  have d0: "d \<noteq> CHR ''0''" using hd_nat_str_zero[of n] assms(2) by (simp add: ds)
  have df: "list_all is_digit f" unfolding f_def using dig(2) by (rule strip_zeros_digits)
  have lf: "length f \<le> length ds" unfolding f_def by (rule length_strip_le)
  define e where "e = nat_str (10 - length (d # ds))"
  have e1: "e = [digit_char (10 - length (d # ds))]" unfolding e_def using len by (intro nat_str_small) simp
  have pr: "print_ufloat n @ t = [d] @ frac_text f @ CHR ''e'' # CHR ''-'' # (CHR ''0'' # e) @ t"
    using assms(2,3) by (simp add: print_ufloat_def ds f_def e_def)
  have nd: "no_digit (frac_text f @ CHR ''e'' # CHR ''-'' # (CHR ''0'' # e) @ t)"
    by (auto simp: no_digit_def frac_text_def)
  have u: "parse_uint (print_ufloat n @ t) = Some ([d], frac_text f @ CHR ''e'' # CHR ''-'' # (CHR ''0'' # e) @ t)"
    unfolding pr by (rule parse_uint_digits) (use dig d0 nd in auto)
  have fr: "parse_frac (frac_text f @ CHR ''e'' # CHR ''-'' # (CHR ''0'' # e) @ t)
              = (f, CHR ''e'' # CHR ''-'' # (CHR ''0'' # e) @ t)"
  proof (cases "f = []")
    case True
    then show ?thesis by (simp add: frac_text_def parse_frac_def)
  next
    case False
    then show ?thesis
      using parse_frac_digits[OF df False, of "CHR ''e'' # CHR ''-'' # (CHR ''0'' # e) @ t"]
      by (simp add: frac_text_def no_digit_def)
  qed
  have ex: "parse_exp (CHR ''e'' # CHR ''-'' # (CHR ''0'' # e) @ t) = (Some (- int (10 - length (d # ds))), t)"
    using parse_exp_neg[of "CHR ''0'' # e" t] stops_no_digit[OF assms(1)] len
    by (simp add: e1 str_nat_def)
  obtain k where k: "ds = f @ replicate k (CHR ''0'')" unfolding f_def using strip_zeros_split by blast
  then have "str_nat (d # ds) = str_nat (d # f) * 10 ^ (length ds - length f)"
    using str_nat_append[of "d # f" "replicate k (CHR ''0'')"] by (simp add: str_nat_zeros)
  then have val: "str_nat (d # f) * 10 ^ (length ds - length f) = n"
    using str_nat_nat_str[of n] by (simp add: ds)
  have "nat (- int (10 - length (d # ds)) - int (length f) + 9) = length ds - length f"
    using len lf by simp
  then have "scale9 (str_nat (d # f)) (- int (10 - length (d # ds)) - int (length f)) = Some n"
    using val len lf by (simp add: scale9_def)
  then show ?thesis
    unfolding parse_unumber_def u option.case prod.case fr ex using assms(2) by simp
qed

lemma parse_ufloat:
  "stops t \<Longrightarrow> neg \<longrightarrow> 0 < n \<Longrightarrow>
   parse_unumber neg (print_ufloat n @ t) = Some (JFloat ((if neg then - 1 else 1) * int n), t)"
  using parse_ufloat_positional[of t n neg] parse_ufloat_exponent[of t n neg]
  by (cases "n = 0 \<or> 100000 \<le> n") auto

lemma nat_str_hd: "\<exists>c cs. nat_str n = c # cs \<and> is_digit c"
  using nat_str_digits[of n] nat_str_nonempty[of n] by (cases "nat_str n") auto

lemma print_ufloat_hd: "\<exists>c cs. print_ufloat n = c # cs \<and> is_digit c"
  using nat_str_hd[of n] nat_str_hd[of "n div 1000000000"]
  by (cases "n = 0 \<or> 100000 \<le> n") (auto simp: print_ufloat_def Let_def)

lemma parse_number_int: "stops t \<Longrightarrow> parse_number (print_int i @ t) = Some (JInt i, t)"
  using nat_str_hd[of "nat i"] parse_unumber_int[of t False "nat i"] parse_unumber_int[of t True "nat (- i)"]
  by (auto simp: parse_number_def print_int_def)

lemma parse_number_float: "stops t \<Longrightarrow> parse_number (print_float n @ t) = Some (JFloat n, t)"
  using print_ufloat_hd[of "nat n"] parse_ufloat[of t False "nat n"] parse_ufloat[of t True "nat (- n)"]
  by (auto simp: parse_number_def print_float_def)

subsection \<open>Values\<close>

text \<open>A value as Python holds it: no object has a key twice.\<close>

function wf_json :: "json \<Rightarrow> bool"
  and wf_items :: "json list \<Rightarrow> bool"
  and wf_members :: "(string, json) dict \<Rightarrow> bool" where
  "wf_json (JArr vs) = wf_items vs"
| "wf_json (JObj kvs) = (dict_ok kvs \<and> wf_members kvs)"
| "wf_json JNull = True"
| "wf_json (JBool b) = True"
| "wf_json (JInt i) = True"
| "wf_json (JFloat n) = True"
| "wf_json (JStr s) = True"
| "wf_items [] = True"
| "wf_items (v # vs) = (wf_json v \<and> wf_items vs)"
| "wf_members [] = True"
| "wf_members ((k, v) # kvs) = (wf_json v \<and> wf_members kvs)"
  by pat_completeness auto
termination
  by (relation "measure json_size") simp_all

text \<open>The characters that begin a printed value, and what may follow one.\<close>

definition value_start :: "char \<Rightarrow> bool" where
  "value_start c \<longleftrightarrow> is_digit c \<or> c \<in> set ''-ntf[{'' \<or> c = CHR 0x22"

lemma print_json_hd: "\<exists>c cs. print_json v = c # cs \<and> value_start c"
  using nat_str_hd print_ufloat_hd
  by (cases v) (fastforce simp: value_start_def print_string_def print_int_def print_float_def)+

lemma value_start_not_ws: "value_start c \<Longrightarrow> \<not> is_ws c \<and> c \<noteq> CHR '']''"
  by (auto simp: value_start_def is_ws_def is_digit_def)

lemma skip_ws_print [simp]: "skip_ws (print_json v @ t) = print_json v @ t"
  using print_json_hd[of v] value_start_not_ws by (auto simp: skip_ws_def)

lemma skip_ws_simps [simp]:
  "skip_ws [] = []" "skip_ws (CHR '','' # t) = CHR '','' # t" "skip_ws (CHR '':'' # t) = CHR '':'' # t"
  "skip_ws (CHR '']'' # t) = CHR '']'' # t" "skip_ws (CHR ''}'' # t) = CHR ''}'' # t"
  "skip_ws (CHR 0x22 # t) = CHR 0x22 # t"
  by (simp_all add: skip_ws_def is_ws_def)

lemma stops_simps [simp]:
  "stops []" "stops (CHR '','' # t)" "stops (CHR '']'' # t)" "stops (CHR ''}'' # t)"
  by (simp_all add: stops_def is_digit_def)

lemma digit_not_literal: 
  "is_digit c \<or> c = CHR ''-'' \<Longrightarrow> parse_literal (c # cs) = parse_number (c # cs)"
  by (auto simp: parse_literal_def starts_with_def is_digit_def)

lemma number_start:
  "is_digit c \<or> c = CHR ''-'' \<Longrightarrow> parse_value (Suc f) (c # cs) = parse_number (c # cs)"
  by (auto simp: digit_not_literal is_digit_def)

lemma print_int_hd: "\<exists>c cs. print_int i = c # cs \<and> (is_digit c \<or> c = CHR ''-'')"
  using nat_str_hd[of "nat i"] by (cases "i < 0") (auto simp: print_int_def)

lemma print_float_hd: "\<exists>c cs. print_float i = c # cs \<and> (is_digit c \<or> c = CHR ''-'')"
  using print_ufloat_hd[of "nat i"] by (cases "i < 0") (auto simp: print_float_def)

lemma parse_value_number:
  "\<exists>c cs. x = c # cs \<and> (is_digit c \<or> c = CHR ''-'') \<Longrightarrow>
   parse_value (Suc f) (x @ t) = parse_number (x @ t)"
  using number_start by (metis append_Cons)

lemma parse_value_int: "stops t \<Longrightarrow> parse_value (Suc f) (print_int i @ t) = Some (JInt i, t)"
  using parse_value_number[OF print_int_hd] parse_number_int by simp

lemma parse_value_float: "stops t \<Longrightarrow> parse_value (Suc f) (print_float i @ t) = Some (JFloat i, t)"
  using parse_value_number[OF print_float_hd] parse_number_float by simp

lemma print_items_hd: "vs \<noteq> [] \<Longrightarrow> \<exists>c cs. print_items vs = c # cs \<and> value_start c"
  using print_json_hd[of "hd vs"] by (cases vs rule: print_items.cases) auto


lemma print_members_hd: "kvs \<noteq> [] \<Longrightarrow> \<exists>cs. print_members kvs = CHR 0x22 # cs"
  by (cases kvs rule: print_members.cases) (auto simp: print_string_def)

lemma print_json_length: "0 < length (print_json v)"
  using print_json_hd[of v] by auto

lemma dict_set_new: "k \<notin> set (dict_keys d) \<Longrightarrow> dict_set k v d = d @ [(k, v)]"
  by (induction d) auto

lemma fold_dict_set: "distinct (dict_keys (acc @ kvs)) \<Longrightarrow> fold (\<lambda>(k, v) d. dict_set k v d) kvs acc = acc @ kvs"
proof (induction kvs arbitrary: acc)
  case Nil
  then show ?case by simp
next
  case (Cons p kvs)
  obtain k v where p: "p = (k, v)" by (cases p)
  have "dict_set k v acc = acc @ [(k, v)]" using Cons.prems by (intro dict_set_new) (simp add: p)
  with Cons.prems Cons.IH[of "acc @ [(k, v)]"] show ?case by (simp add: p)
qed

lemma fuel_Suc: "2 * length (print_json v) \<le> f \<Longrightarrow> \<exists>f'. f = Suc f'"
  using print_json_length[of v] by (cases f) auto

lemma parse_items_step:
  "parse_value f (print_json v @ CHR '','' # t) = Some (v, CHR '','' # t) \<Longrightarrow>
   skip_ws t = t \<Longrightarrow> parse_items f t = Some (vs, t') \<Longrightarrow>
   parse_items (Suc f) (print_json v @ CHR '','' # t) = Some (v # vs, t')"
  by simp

lemma parse_members_last:
  "parse_value f (print_json v @ CHR ''}'' # t) = Some (v, CHR ''}'' # t) \<Longrightarrow>
   parse_members (Suc f) (print_string k @ CHR '':'' # print_json v @ CHR ''}'' # t) = Some ([(k, v)], t)"
  by (simp add: print_string_def scan_print_body)

lemma parse_members_step:
  "parse_value f (print_json v @ CHR '','' # t) = Some (v, CHR '','' # t) \<Longrightarrow>
   skip_ws t = t \<Longrightarrow> parse_members f t = Some (kvs, t') \<Longrightarrow>
   parse_members (Suc f) (print_string k @ CHR '':'' # print_json v @ CHR '','' # t) = Some ((k, v) # kvs, t')"
  by (simp add: print_string_def scan_print_body)

lemma parse_value_arr:
  "s = c # cs \<Longrightarrow> value_start c \<Longrightarrow> parse_items f s = Some (vs, t) \<Longrightarrow>
   parse_value (Suc f) (CHR ''['' # s) = Some (JArr vs, t)"
  using value_start_not_ws[of c] by (simp add: skip_ws_def)

lemma parse_value_obj:
  "s = CHR 0x22 # cs \<Longrightarrow> parse_members f s = Some (kvs, t) \<Longrightarrow> dict_ok kvs \<Longrightarrow>
   parse_value (Suc f) (CHR ''{'' # s) = Some (JObj kvs, t)"
  using fold_dict_set[of "[]" kvs] by (simp add: dict_ok_def)

lemma parse_print:
  shows "wf_json v \<Longrightarrow> stops t \<Longrightarrow> 2 * length (print_json v) \<le> f \<Longrightarrow>
           parse_value f (print_json v @ t) = Some (v, t)"
    and "wf_items vs \<Longrightarrow> vs \<noteq> [] \<Longrightarrow> 2 * length (print_items vs) + 1 \<le> f \<Longrightarrow>
           parse_items f (print_items vs @ CHR '']'' # t) = Some (vs, t)"
    and "wf_members kvs \<Longrightarrow> kvs \<noteq> [] \<Longrightarrow> 2 * length (print_members kvs) + 1 \<le> f \<Longrightarrow>
           parse_members f (print_members kvs @ CHR ''}'' # t) = Some (kvs, t)"
proof (induction v and vs and kvs arbitrary: f t and f t and f t rule: print_json_print_items_print_members.induct)
  case 1
  then obtain f' where "f = Suc f'" using fuel_Suc[of JNull f] by auto
  then show ?case by (simp add: parse_literal_def starts_with_def)
next
  case (2 b)
  then obtain f' where "f = Suc f'" using fuel_Suc[of "JBool b" f] by auto
  then show ?case by (simp add: parse_literal_def starts_with_def)
next
  case (3 i)
  then obtain f' where "f = Suc f'" using fuel_Suc[of "JInt i" f] by auto
  with 3 show ?case by (simp only: print_json.simps parse_value_int)
next
  case (4 n)
  then obtain f' where "f = Suc f'" using fuel_Suc[of "JFloat n" f] by auto
  with 4 show ?case by (simp only: print_json.simps parse_value_float)
next
  case (5 s)
  then obtain f' where "f = Suc f'" using fuel_Suc[of "JStr s" f] by auto
  with 5 show ?case by (simp add: print_string_def scan_print_body)
next
  case (6 vs)
  then obtain f' where f: "f = Suc f'" using fuel_Suc[of "JArr vs" f] by auto
  show ?case
  proof (cases "vs = []")
    case True
    with f show ?thesis by simp
  next
    case False
    then obtain c cs where "print_items vs = c # cs" "value_start c" using print_items_hd by blast
    moreover have "parse_items f' (print_items vs @ CHR '']'' # t) = Some (vs, t)"
      using 6 False f by simp
    ultimately show ?thesis
      using parse_value_arr[of "print_items vs @ CHR '']'' # t" c "cs @ CHR '']'' # t" f' vs t] f by simp
  qed
next
  case (7 kvs)
  then obtain f' where f: "f = Suc f'" using fuel_Suc[of "JObj kvs" f] by auto
  show ?case
  proof (cases "kvs = []")
    case True
    with f show ?thesis by simp
  next
    case False
    then obtain cs where "print_members kvs = CHR 0x22 # cs" using print_members_hd by blast
    moreover have "parse_members f' (print_members kvs @ CHR ''}'' # t) = Some (kvs, t)"
      using 7 False f by simp
    ultimately show ?thesis
      using parse_value_obj[of "print_members kvs @ CHR ''}'' # t" "cs @ CHR ''}'' # t" f' kvs t] 7 f by simp
  qed
next
  case 8
  then show ?case by simp
next
  case (9 v)
  then obtain f' where "f = Suc f'" by (cases f) auto
  with 9 show ?case by simp
next
  case (10 v w vs)
  then obtain f' where f: "f = Suc f'" by (cases f) auto
  obtain c cs where "print_items (w # vs) = c # cs" "value_start c" using print_items_hd[of "w # vs"] by blast
  then have "skip_ws (print_items (w # vs) @ CHR '']'' # t) = print_items (w # vs) @ CHR '']'' # t"
    using value_start_not_ws[of c] by (simp add: skip_ws_def)
  with 10 f show ?case
    by (simp only: print_items.simps append_assoc append_Cons) (intro parse_items_step, simp_all)
next
  case 11
  then show ?case by simp
next
  case (12 k v)
  then obtain f' where "f = Suc f'" by (cases f) auto
  with 12 show ?case
    by (simp only: print_members.simps append_assoc append_Cons) (intro parse_members_last, simp_all)
next
  case (13 k v q kvs)
  then obtain f' where f: "f = Suc f'" by (cases f) auto
  obtain cs where "print_members (q # kvs) = CHR 0x22 # cs" using print_members_hd[of "q # kvs"] by blast
  then have "skip_ws (print_members (q # kvs) @ CHR ''}'' # t) = print_members (q # kvs) @ CHR ''}'' # t"
    by simp
  with 13 f show ?case
    by (simp only: print_members.simps append_assoc append_Cons) (intro parse_members_step, simp_all)
qed

subsection \<open>Canonical text\<close>

lemma wf_members_iff: "wf_members kvs \<longleftrightarrow> (\<forall>(k, v) \<in> set kvs. wf_json v)"
  by (induction kvs) auto

lemma wf_items_iff: "wf_items vs \<longleftrightarrow> list_all wf_json vs"
  by (induction vs) auto

lemma wf_normalise:
  "wf_json v \<Longrightarrow> wf_json (normalise v)"
  "wf_items vs \<Longrightarrow> wf_items (normalise_items vs)"
  "wf_members kvs \<Longrightarrow> wf_members (normalise_members kvs)"
  by (induction v and vs and kvs rule: normalise_normalise_items_normalise_members.induct)
    (simp_all add: wf_members_iff dict_ok_sort, simp add: dict_ok_def)

lemma loads_dumps: "wf_json v \<Longrightarrow> loads (dumps v) = Some (normalise v)"
proof -
  assume "wf_json v"
  then have "parse_value (2 * length (dumps v) + 2) (dumps v @ []) = Some (normalise v, [])"
    unfolding dumps_def by (intro parse_print wf_normalise) simp_all
  moreover have "skip_ws (dumps v) = dumps v"
    using skip_ws_print[of "normalise v" "[]"] by (simp add: dumps_def)
  ultimately show ?thesis by (simp add: loads_def)
qed

lemma dumps_inj: "wf_json v \<Longrightarrow> wf_json w \<Longrightarrow> dumps v = dumps w \<Longrightarrow> normalise v = normalise w"
  using loads_dumps by (metis option.inject)

lemma insort_map: "(\<And>x. fst (g x) = fst x) \<Longrightarrow> insort_key fst (g x) (map g xs) = map g (insort_key fst x xs)"
  by (induction xs) auto

lemma sort_map: "(\<And>x. fst (g x) = fst x) \<Longrightarrow> sort_key fst (map g xs) = map g (sort_key fst xs)"
  by (induction xs) (simp_all add: insort_map)

lemma normalise_idem [simp]:
  "normalise (normalise v) = normalise v"
  "normalise_items (normalise_items vs) = normalise_items vs"
  "normalise_members (normalise_members kvs) = normalise_members kvs"
  by (induction v and vs and kvs rule: normalise_normalise_items_normalise_members.induct)
    (simp_all add: normalise_members_map sort_map case_prod_beta sort_key_id_if_sorted[of fst "sort_key fst _", OF sorted_sort_key])

lemma dumps_normalise [simp]: "dumps (normalise v) = dumps v"
  by (simp add: dumps_def)

lemma dict_get_sort: "dict_ok d \<Longrightarrow> dict_get (sort_key fst d) k = dict_get d k"
  by (metis dict_ok_def dict_ok_sort map_of_inject_set set_sort)

lemma dict_get_normalise_members: "dict_get (normalise_members kvs) k = map_option normalise (dict_get kvs k)"
  by (induction kvs) auto

lemma jget_normalise: "wf_json (JObj kvs) \<Longrightarrow> jget (normalise (JObj kvs)) k = normalise (jget (JObj kvs) k)"
proof -
  assume "wf_json (JObj kvs)"
  then have "dict_ok (normalise_members kvs)" by (simp add: dict_ok_def)
  then show ?thesis
    by (simp add: jget_def obj_fields_def dict_get_sort dict_get_normalise_members split: option.splits)
qed

section \<open>What parsing yields\<close>

lemma fold_dict_set_wf:
  "dict_ok d \<Longrightarrow> wf_members d \<Longrightarrow> wf_members kvs \<Longrightarrow>
   dict_ok (fold (\<lambda>(k, v) d. dict_set k v d) kvs d) \<and> wf_members (fold (\<lambda>(k, v) d. dict_set k v d) kvs d)"
proof (induction kvs arbitrary: d)
  case Nil
  then show ?case by simp
next
  case (Cons p kvs)
  obtain k v where p: "p = (k, v)" by (cases p)
  have "wf_members (dict_set k v d)"
    using Cons.prems dict_ok_set[of d k v]
    by (auto simp: wf_members_iff p dict_get_in split: if_splits)
  then show ?case using Cons by (simp add: p)
qed

lemma parse_literal_wf: "parse_literal s = Some (v, t) \<Longrightarrow> wf_json v"
  by (auto simp: parse_literal_def parse_number_def parse_unumber_def
      split: if_splits list.splits option.splits prod.splits)

lemma parse_wf:
  shows "parse_value f s = Some (v, t) \<Longrightarrow> wf_json v"
    and "parse_items f s = Some (vs, t) \<Longrightarrow> wf_items vs"
    and "parse_members f s = Some (kvs, t) \<Longrightarrow> wf_members kvs"
proof (induction f s and f s and f s arbitrary: v t and vs t and kvs t
    rule: parse_value_parse_items_parse_members.induct)
  case (2 f s)
  then show ?case
    using fold_dict_set_wf[of "[]"]
    by (auto split: list.splits if_splits option.splits dest: parse_literal_wf)
next
  case (4 f s)
  then show ?case
    by (auto split: list.splits if_splits option.splits)
next
  case (6 f s)
  then show ?case
    by (auto split: list.splits if_splits option.splits)
qed simp_all

lemma loads_wf: "loads s = Some v \<Longrightarrow> wf_json v"
  unfolding loads_def using parse_wf(1)
  by (auto simp del: parse_value.simps split: option.splits if_splits)

lemma loads_dumps_ws:
  assumes "wf_json v" "list_all is_ws w"
  shows "loads (dumps v @ w) = Some (normalise v)"
proof -
  have st: "stops w" using assms(2) by (cases w) (auto simp: stops_def is_ws_def is_digit_def)
  have "parse_value (2 * length (dumps v @ w) + 2) (dumps v @ w) = Some (normalise v, w)"
    unfolding dumps_def using assms(1) st by (intro parse_print wf_normalise) simp_all
  moreover have "skip_ws (dumps v @ w) = dumps v @ w"
    using skip_ws_print[of "normalise v" w] by (simp add: dumps_def)
  moreover have "skip_ws w = []" using assms(2) by (simp add: skip_ws_def list_all_iff)
  ultimately show ?thesis by (simp add: loads_def)
qed

section \<open>Objects with known keys\<close>

definition has_keys :: "string list \<Rightarrow> json \<Rightarrow> bool" where
  "has_keys ks v \<longleftrightarrow> is_obj v \<and> sort (dict_keys (obj_fields v)) = sort ks"

lemma has_keysI: "dict_keys kvs = ks \<Longrightarrow> has_keys ks (JObj kvs)"
  by (simp add: has_keys_def)

lemma has_keys_normalise: "has_keys ks (normalise (JObj kvs)) = has_keys ks (JObj kvs)"
proof -
  have "mset (dict_keys (sort_key fst (normalise_members kvs))) = mset (dict_keys kvs)"
    by (metis keys_normalise_members mset_map mset_sort)
  then have "sort (dict_keys (sort_key fst (normalise_members kvs))) = sort (dict_keys kvs)"
    by (metis mset_sort properties_for_sort sorted_sort)
  then show ?thesis by (simp add: has_keys_def)
qed

lemma map_fst_sort: "map fst (sort_key fst kvs) = sort (map fst kvs)"
  by (rule properties_for_sort[symmetric]) simp_all

lemma dict_as_map: "dict_ok d \<Longrightarrow> d = map (\<lambda>k. (k, the (dict_get d k))) (dict_keys d)"
proof (rule nth_equalityI)
  assume ok: "dict_ok d"
  show "length d = length (map (\<lambda>k. (k, the (dict_get d k))) (dict_keys d))" by simp
  fix i
  assume "i < length d"
  then have "(fst (d ! i), snd (d ! i)) \<in> set d" by simp
  then have "dict_get d (fst (d ! i)) = Some (snd (d ! i))" using ok dict_get_in by fast
  then show "d ! i = map (\<lambda>k. (k, the (dict_get d k))) (dict_keys d) ! i"
    using \<open>i < length d\<close> by simp
qed

lemma normalise_as_map:
  assumes "wf_json v" "has_keys ks v"
  shows "normalise v = JObj (map (\<lambda>k. (k, normalise (jget v k))) (sort ks))"
proof -
  obtain kvs where v: "v = JObj kvs" using assms(2) by (cases v) (auto simp: has_keys_def is_obj_def)
  let ?d = "sort_key fst (normalise_members kvs)"
  have ok: "dict_ok ?d" using wf_normalise(1)[OF assms(1)] by (simp add: v)
  have keys: "dict_keys ?d = sort ks" using assms(2) by (simp add: v has_keys_def map_fst_sort)
  have "the (dict_get ?d k) = normalise (jget v k)" if "k \<in> set (sort ks)" for k
  proof -
    have "k \<in> set (dict_keys ?d)" using that keys by simp
    then obtain x where x: "dict_get ?d k = Some x" by (metis dict_get_in list.set_map map_of_eq_None_iff not_None_eq)
    then show ?thesis
      using jget_normalise[of kvs k] assms(1) by (simp add: v jget_def obj_fields_def)
  qed
  then have "map (\<lambda>k. (k, the (dict_get ?d k))) (sort ks) = map (\<lambda>k. (k, normalise (jget v k))) (sort ks)"
    by simp
  with dict_as_map[OF ok] have "?d = map (\<lambda>k. (k, normalise (jget v k))) (sort ks)"
    unfolding keys by (rule trans)
  then show ?thesis by (simp add: v)
qed

lemma obj_eqI:
  assumes "wf_json v" "wf_json w" "has_keys ks v" "has_keys ks w"
    and "\<And>k. k \<in> set ks \<Longrightarrow> normalise (jget v k) = normalise (jget w k)"
  shows "normalise v = normalise w"
  using assms by (simp add: normalise_as_map)

lemma obj_eq_keys:
  assumes "wf_json v" "wf_json w" "has_keys ks v" "has_keys ks w"
    and "list_all (\<lambda>k. normalise (jget v k) = normalise (jget w k)) ks"
  shows "normalise v = normalise w"
  using assms(5) by (intro obj_eqI[OF assms(1-4)]) (simp add: list_all_iff)

lemmas jget_obj = jget_def[of "JObj _"] obj_fields_def

lemma jget_cong:
  assumes "wf_json v" "wf_json w" "is_obj v" "is_obj w" "normalise v = normalise w"
  shows "normalise (jget v k) = normalise (jget w k)"
proof -
  obtain kvs kvs' where "v = JObj kvs" "w = JObj kvs'"
    using assms(3,4) by (cases v; cases w) (auto simp: is_obj_def)
  then show ?thesis using assms jget_normalise by metis
qed

lemma wf_jget: "wf_json v \<Longrightarrow> wf_json (jget v k)"
  by (cases v) (auto simp: jget_def obj_fields_def wf_members_iff dest: map_of_SomeD split: option.splits)

text \<open>\<open>d.pop(k, None)\<close> on a copy.\<close>

definition json_pop :: "string \<Rightarrow> json \<Rightarrow> json" where
  "json_pop k v = (case v of JObj kvs \<Rightarrow> JObj (dict_pop k kvs) | _ \<Rightarrow> v)"

lemma is_obj_pop [simp]: "is_obj (json_pop k v) = is_obj v"
  by (cases v) (simp_all add: json_pop_def is_obj_def)

lemma jget_pop: "jget (json_pop k v) k' = (if k' = k then JNull else jget v k')"
  by (cases v) (auto simp: json_pop_def jget_def obj_fields_def)

lemma wf_json_pop [simp]: "wf_json v \<Longrightarrow> wf_json (json_pop k v)"
  by (cases v) (auto simp: json_pop_def wf_members_iff AList.delete_eq)

lemma normalise_members_pop: "normalise_members (dict_pop k kvs) = dict_pop k (normalise_members kvs)"
  by (induction kvs) auto

lemma sort_pop: "sort_key fst (dict_pop k d) = dict_pop k (sort_key fst d)"
  by (simp add: AList.delete_eq filter_sort)

lemma normalise_pop: "normalise (json_pop k v) = json_pop k (normalise v)"
  by (cases v) (simp_all add: json_pop_def normalise_members_pop sort_pop)

lemma dumps_pop [simp]: "dumps (json_pop k (normalise v)) = dumps (json_pop k v)"
  by (simp add: dumps_def normalise_pop)

lemma json_pop_cong: "normalise v = normalise w \<Longrightarrow> normalise (json_pop k v) = normalise (json_pop k w)"
  by (simp add: normalise_pop)

text \<open>Objects are equal up to order when every key holds equal values.\<close>

lemma sorted_dict_unique:
  assumes "dict_ok d" "dict_ok e" "\<And>k. dict_get d k = dict_get e k"
  shows "sort_key fst d = sort_key fst e"
proof -
  have "set d = set e"
    using dict_get_in[OF assms(1)] dict_get_in[OF assms(2)] assms(3) by auto
  moreover from this have "inj_on fst (set (sort_key fst d) \<union> set (sort_key fst e))"
    using assms(1) by (simp add: dict_ok_def distinct_map)
  moreover have "distinct (map fst (sort_key fst d))" "distinct (map fst (sort_key fst e))"
    using assms(1,2) dict_ok_sort[of fst d] dict_ok_sort[of fst e] by (simp_all add: dict_ok_def)
  ultimately show ?thesis
    by (intro map_sorted_distinct_set_unique[of fst]) simp_all
qed

lemma normalise_ext:
  assumes "dict_ok d" "dict_ok e" "\<And>k. map_option normalise (dict_get d k) = map_option normalise (dict_get e k)"
  shows "normalise (JObj d) = normalise (JObj e)"
proof -
  have "dict_ok (normalise_members d)" "dict_ok (normalise_members e)"
    using assms(1,2) by (simp_all add: dict_ok_def)
  then have "sort_key fst (normalise_members d) = sort_key fst (normalise_members e)"
    by (rule sorted_dict_unique) (simp add: dict_get_normalise_members assms(3))
  then show ?thesis by simp
qed

text \<open>\<open>d[k] = x\<close>.\<close>

definition json_set :: "string \<Rightarrow> json \<Rightarrow> json \<Rightarrow> json" where
  "json_set k x v = (case v of JObj kvs \<Rightarrow> JObj (dict_set k x kvs) | _ \<Rightarrow> v)"

lemma is_obj_set [simp]: "is_obj (json_set k x v) = is_obj v"
  by (cases v) (simp_all add: json_set_def is_obj_def)

lemma jget_set: "is_obj v \<Longrightarrow> jget (json_set k x v) k' = (if k' = k then x else jget v k')"
  by (cases v) (auto simp: json_set_def jget_def obj_fields_def is_obj_def)

lemma dict_get_json_set:
  "is_obj v \<Longrightarrow> dict_get (obj_fields (json_set k x v)) k' = (if k' = k then Some x else dict_get (obj_fields v) k')"
  by (cases v) (auto simp: json_set_def obj_fields_def is_obj_def)

lemma dict_get_json_pop:
  "dict_get (obj_fields (json_pop k v)) k' = (if k' = k then None else dict_get (obj_fields v) k')"
  by (cases v) (auto simp: json_pop_def obj_fields_def)

lemma set_dict_set: "set (dict_set k x d) \<subseteq> insert (k, x) (set d)"
  by (induction d) auto

lemma wf_json_set [simp]: "wf_json v \<Longrightarrow> wf_json x \<Longrightarrow> wf_json (json_set k x v)"
  using set_dict_set by (cases v) (fastforce simp: json_set_def wf_members_iff)+

lemma wf_dict: "wf_json v \<Longrightarrow> dict_ok (obj_fields v)"
  by (cases v) (simp_all add: obj_fields_def)

lemma obj_eta: "is_obj v \<Longrightarrow> JObj (obj_fields v) = v"
  by (cases v) (simp_all add: is_obj_def obj_fields_def)

lemma normalise_eqI:
  assumes "wf_json v" "wf_json w" "is_obj v" "is_obj w"
    and "\<And>k. map_option normalise (dict_get (obj_fields v) k) = map_option normalise (dict_get (obj_fields w) k)"
  shows "normalise v = normalise w"
  using normalise_ext[OF wf_dict[OF assms(1)] wf_dict[OF assms(2)]] assms(3-5) by (simp add: obj_eta)

lemma is_obj_normalise [simp]: "is_obj (normalise v) = is_obj v"
  by (cases v) (simp_all add: is_obj_def)

lemma dict_get_normalise:
  "wf_json v \<Longrightarrow> dict_get (obj_fields (normalise v)) k = map_option normalise (dict_get (obj_fields v) k)"
  by (cases v) (simp_all add: obj_fields_def dict_get_sort dict_get_normalise_members dict_ok_def)

lemma jget_normal: "wf_json v \<Longrightarrow> jget (normalise v) k = normalise (jget v k)"
  by (simp add: jget_def dict_get_normalise split: option.splits)

lemma normalise_set:
  assumes "wf_json v" "wf_json x"
  shows "normalise (json_set k (normalise x) (normalise v)) = normalise (json_set k x v)"
proof (cases "is_obj v")
  case True
  then show ?thesis
    using assms wf_normalise(1)[OF assms(1)] wf_normalise(1)[OF assms(2)]
    by (intro normalise_eqI) (auto simp: dict_get_json_set dict_get_normalise option.map_comp comp_def)
next
  case False
  then show ?thesis by (cases v) (simp_all add: json_set_def is_obj_def)
qed

lemma keys_normalise: "set (dict_keys (obj_fields (normalise v))) = set (dict_keys (obj_fields v))"
proof (cases v)
  case (JObj kvs)
  have "fst ` set (normalise_members kvs) = fst ` set kvs"
    by (simp add: normalise_members_map image_image case_prod_beta)
  then show ?thesis using JObj by (simp add: obj_fields_def)
qed (simp_all add: obj_fields_def)

end
