(* ===== verification/Jobs.thy ===== *)
theory Jobs
  imports Json
begin

text \<open>
  \<open>src/server/golavo_server/jobs.py\<close>: the in-memory job store and the lanes that run work
  through it.  The store is the dictionary \<open>_jobs\<close>; every operation takes the reading of
  the monotonic clock (in nanoseconds) at which it runs under the store's lock, and the
  calls of different threads are a sequence of such operations.  An exception is the left
  side of a sum.

  The lemmas show the store's invariant over all call sequences, that a job a worker still
  owns is never pruned or replaced, that cancellation stays the public verdict, the size
  bound after pruning, and what a lane's \<open>run\<close> leaves behind.
\<close>

section \<open>The store\<close>

datatype job_state = Running | Done | Failed | Cancelled

record job =
  j_id :: string
  j_state :: job_state
  j_stage :: string
  j_detail :: "string option"
  j_counts :: "(string, json) dict"
  j_created :: int
  j_updated :: int
  j_error :: "string option"
  j_result :: "(string, json) dict option"
  j_active :: bool

type_synonym job_store = "(string, job) dict"

datatype job_error = JobConflict string | StageError string string

definition ttl_ns :: int where
  "ttl_ns = 900 * 1000000000"

definition max_jobs :: nat where
  "max_jobs = 64"

definition state_text :: "job_state \<Rightarrow> string" where
  "state_text st =
     (case st of Running \<Rightarrow> ''running'' | Done \<Rightarrow> ''done'' | Failed \<Rightarrow> ''failed'' | Cancelled \<Rightarrow> ''cancelled'')"

text \<open>\<open>round(max(0.0, now - created_at), 3)\<close> in milliseconds: half to even.\<close>

definition round_ms :: "int \<Rightarrow> int" where
  "round_ms n =
     (let q = n div 1000000; r = n mod 1000000 in
      if r < 500000 then q else if r > 500000 then q + 1 else if even q then q else q + 1)"

definition to_dict :: "int \<Rightarrow> job \<Rightarrow> (string, json) dict" where
  "to_dict now j =
     [(''job_id'', JStr (j_id j)),
      (''state'', JStr (state_text (j_state j))),
      (''stage'', JStr (j_stage j)),
      (''detail'', (case j_detail j of None \<Rightarrow> JNull | Some d \<Rightarrow> JStr d)),
      (''counts'', JObj (j_counts j)),
      (''elapsed_s'', JFloat (1000000 * round_ms (max 0 (now - j_created j))))]
     @ (case (j_state j, j_result j) of (Done, Some r) \<Rightarrow> [(''result'', JObj r)] | _ \<Rightarrow> [])
     @ (case (j_state j, j_error j) of
          (Failed, Some e) \<Rightarrow> if e \<noteq> [] then [(''error'', JStr e)] else [] | _ \<Rightarrow> [])"

definition new_job :: "string \<Rightarrow> int \<Rightarrow> job" where
  "new_job jid now =
     \<lparr> j_id = jid, j_state = Running, j_stage = ''queued'', j_detail = None, j_counts = [],
       j_created = now, j_updated = now, j_error = None, j_result = None, j_active = True \<rparr>"

definition prune_locked :: "int \<Rightarrow> job_store \<Rightarrow> job_store" where
  "prune_locked now s =
     (let s1 = filter (\<lambda>(jid, j). \<not> (\<not> j_active j \<and> now - j_updated j > ttl_ns)) s;
          finished = sort_key j_updated (filter (\<lambda>j. \<not> j_active j) (map snd s1))
      in if length s1 > max_jobs
         then fold (\<lambda>j. dict_pop (j_id j)) (take (length s1 - max_jobs) finished) s1
         else s1)"

definition start :: "int \<Rightarrow> string \<Rightarrow> string option \<Rightarrow> string option \<Rightarrow> (string, json) dict option \<Rightarrow>
    job_store \<Rightarrow> job_store \<times> (job_error + job)" where
  "start now jid stage detail counts s =
     (let s1 = prune_locked now s in
      if (case dict_get s1 jid of None \<Rightarrow> False | Some existing \<Rightarrow> j_active existing)
      then (s1, Inl (JobConflict jid))
      else (let j = new_job jid now;
                j = j \<lparr> j_stage := opt_set stage (j_stage j),
                        j_detail := (case detail of None \<Rightarrow> j_detail j | Some d \<Rightarrow> Some d),
                        j_counts := opt_set counts (j_counts j) \<rparr>
            in (dict_set jid j s1, Inr j)))"

definition update :: "int \<Rightarrow> string \<Rightarrow> string option \<Rightarrow> string option \<Rightarrow> (string, json) dict option \<Rightarrow>
    job_store \<Rightarrow> job_store" where
  "update now jid stage detail counts s =
     (case dict_get s jid of
        None \<Rightarrow> s
      | Some j \<Rightarrow>
          if j_state j \<noteq> Running then s
          else dict_set jid
                 (j \<lparr> j_stage := opt_set stage (j_stage j),
                      j_detail := (case detail of None \<Rightarrow> j_detail j | Some d \<Rightarrow> Some d),
                      j_counts := opt_set counts (j_counts j),
                      j_updated := now \<rparr>) s)"

definition terminate :: "int \<Rightarrow> string \<Rightarrow> job_state \<Rightarrow> string option \<Rightarrow> (string, json) dict option \<Rightarrow>
    job_store \<Rightarrow> job_store \<times> bool" where
  "terminate now jid st err res s =
     (case dict_get s jid of
        None \<Rightarrow> (s, False)
      | Some j \<Rightarrow>
          if j_state j = Cancelled
          then (dict_set jid (j \<lparr> j_active := False, j_stage := ''done'', j_updated := now \<rparr>) s, False)
          else if j_state j \<noteq> Running then (s, False)
          else (dict_set jid
                 (j \<lparr> j_state := st, j_active := False, j_stage := ''done'', j_error := err,
                      j_result := res, j_updated := now \<rparr>) s, True))"

definition finish :: "int \<Rightarrow> string \<Rightarrow> (string, json) dict option \<Rightarrow> job_store \<Rightarrow> job_store \<times> bool" where
  "finish now jid res s = terminate now jid Done None res s"

definition fail :: "int \<Rightarrow> string \<Rightarrow> string \<Rightarrow> job_store \<Rightarrow> job_store \<times> bool" where
  "fail now jid err s = terminate now jid Failed (Some err) None s"

definition cancel :: "int \<Rightarrow> string \<Rightarrow> job_store \<Rightarrow> job_store \<times> bool" where
  "cancel now jid s =
     (case dict_get s jid of
        None \<Rightarrow> (s, False)
      | Some j \<Rightarrow>
          if j_state j \<noteq> Running then (s, False)
          else (dict_set jid (j \<lparr> j_state := Cancelled, j_updated := now \<rparr>) s, True))"

definition is_cancelled :: "string \<Rightarrow> job_store \<Rightarrow> bool" where
  "is_cancelled jid s = (case dict_get s jid of None \<Rightarrow> False | Some j \<Rightarrow> j_state j = Cancelled)"

definition get_job :: "int \<Rightarrow> string \<Rightarrow> job_store \<Rightarrow> job_store \<times> job option" where
  "get_job now jid s = (let s1 = prune_locked now s in (s1, dict_get s1 jid))"

definition running_ids :: "int \<Rightarrow> string \<Rightarrow> job_store \<Rightarrow> job_store \<times> string list" where
  "running_ids now prefix s =
     (let s1 = prune_locked now s in
      (s1, sort (map fst (filter (\<lambda>(jid, j). j_active j \<and> starts_with prefix jid) s1))))"

section \<open>Lanes\<close>

record lane =
  l_prefix :: string
  l_stages :: "string list"

definition is_alnum :: "char \<Rightarrow> bool" where
  "is_alnum c \<longleftrightarrow>
     is_digit c \<or> (65 \<le> (of_char c :: nat) \<and> (of_char c :: nat) \<le> 90)
     \<or> (97 \<le> (of_char c :: nat) \<and> (of_char c :: nat) \<le> 122)"

definition is_id_char :: "char \<Rightarrow> bool" where
  "is_id_char c \<longleftrightarrow> is_alnum c \<or> c = CHR ''_'' \<or> c = CHR ''-''"

definition id_body :: "string \<Rightarrow> bool" where
  "id_body s = (case s of [] \<Rightarrow> False
     | c # cs \<Rightarrow> is_alnum c \<and> list_all is_id_char cs \<and> 7 \<le> length cs \<and> length cs \<le> 63)"

text \<open>
  \<open>JOB_ID_RE.match(s)\<close>: \<open>$\<close> matches at the end and before a newline that ends the text.
\<close>

definition job_id_matches :: "string \<Rightarrow> bool" where
  "job_id_matches s \<longleftrightarrow> id_body s \<or> (s \<noteq> [] \<and> of_char (last s) = (10::nat) \<and> id_body (butlast s))"

definition mint :: "lane \<Rightarrow> string \<Rightarrow> string" where
  "mint l token = l_prefix l @ ''-'' @ token"

definition owns :: "lane \<Rightarrow> string \<Rightarrow> bool" where
  "owns l jid \<longleftrightarrow> job_id_matches jid \<and> starts_with (l_prefix l @ ''-'') jid"

definition lane_start :: "lane \<Rightarrow> int \<Rightarrow> string \<Rightarrow> string option \<Rightarrow> (string, json) dict option \<Rightarrow>
    job_store \<Rightarrow> job_store \<times> (job_error + job)" where
  "lane_start l now jid detail counts s = start now jid (Some (hd (l_stages l))) detail counts s"

definition lane_progress :: "lane \<Rightarrow> int \<Rightarrow> string option \<Rightarrow> string \<Rightarrow> string option \<Rightarrow>
    (string, json) dict option \<Rightarrow> job_store \<Rightarrow> job_error + job_store" where
  "lane_progress l now jid stage detail counts s =
     (if stage \<notin> set (l_stages l) then Inl (StageError stage (l_prefix l))
      else (case jid of None \<Rightarrow> Inr s | Some i \<Rightarrow> Inr (update now i (Some stage) detail counts s)))"

definition lane_is_cancelled :: "string option \<Rightarrow> job_store \<Rightarrow> bool" where
  "lane_is_cancelled jid s = (case jid of None \<Rightarrow> False | Some i \<Rightarrow> is_cancelled i s)"

definition lane_cancel :: "int \<Rightarrow> string \<Rightarrow> job_store \<Rightarrow> job_store \<times> bool" where
  "lane_cancel now jid s = cancel now jid s"

text \<open>What a unit of work does: return a value, or raise an \<open>Exception\<close> with its text.\<close>

datatype work_outcome = Returned json | Raised string

text \<open>
  \<open>Lane.run\<close>: the work runs while other threads call the store, so it is a function from
  the store at its start to the store at its end.
\<close>

definition lane_run :: "int \<Rightarrow> string option \<Rightarrow> (job_store \<Rightarrow> job_store \<times> work_outcome) \<Rightarrow>
    job_store \<Rightarrow> job_store \<times> work_outcome" where
  "lane_run now jid work s =
     (case work s of (s1, out) \<Rightarrow>
        (case out of
           Raised msg \<Rightarrow>
             ((case jid of None \<Rightarrow> s1 | Some i \<Rightarrow> fst (fail now i (take 240 msg) s1)), Raised msg)
         | Returned v \<Rightarrow>
             ((case jid of None \<Rightarrow> s1
               | Some i \<Rightarrow> fst (finish now i (case v of JObj kvs \<Rightarrow> Some kvs | _ \<Rightarrow> None) s1)),
              Returned v)))"

definition ai_lane :: lane where
  "ai_lane = \<lparr> l_prefix = ''cl'',
     l_stages = [''assembling_evidence'', ''researching'', ''writing'', ''verifying'', ''done''] \<rparr>"

definition retrospective_lane :: lane where
  "retrospective_lane = \<lparr> l_prefix = ''rt'', l_stages = [''replaying'', ''done''] \<rparr>"

definition model_download_lane :: lane where
  "model_download_lane = \<lparr> l_prefix = ''dl'', l_stages = [''downloading_model'', ''done''] \<rparr>"

section \<open>Calls as a machine\<close>

datatype job_call =
    CStart int string "string option" "string option" "(string, json) dict option"
  | CUpdate int string "string option" "string option" "(string, json) dict option"
  | CFinish int string "(string, json) dict option"
  | CFail int string string
  | CCancel int string
  | CGet int string
  | CRunning int string

fun exec_call :: "job_call \<Rightarrow> job_store \<Rightarrow> job_store" where
  "exec_call (CStart now jid stage detail counts) s = fst (start now jid stage detail counts s)"
| "exec_call (CUpdate now jid stage detail counts) s = update now jid stage detail counts s"
| "exec_call (CFinish now jid res) s = fst (finish now jid res s)"
| "exec_call (CFail now jid err) s = fst (fail now jid err s)"
| "exec_call (CCancel now jid) s = fst (cancel now jid s)"
| "exec_call (CGet now jid) s = fst (get_job now jid s)"
| "exec_call (CRunning now prefix) s = fst (running_ids now prefix s)"

text \<open>A call by which the worker of job \<open>jid\<close> reports that it has returned.\<close>

fun ends_worker :: "string \<Rightarrow> job_call \<Rightarrow> bool" where
  "ends_worker jid (CFinish now i res) = (i = jid)"
| "ends_worker jid (CFail now i err) = (i = jid)"
| "ends_worker jid _ = False"

text \<open>The step relation of the store: one call under its lock.\<close>

inductive job_step :: "job_store \<Rightarrow> job_store \<Rightarrow> bool" where
  call: "job_step s (exec_call c s)"

inductive job_reachable :: "job_store \<Rightarrow> bool" where
  init: "job_reachable []"
| step: "job_reachable s \<Longrightarrow> job_step s s' \<Longrightarrow> job_reachable s'"

inductive_cases job_stepE: "job_step s s'"

text \<open>What holds of a job between calls.\<close>

definition job_ok :: "string \<times> job \<Rightarrow> bool" where
  "job_ok p = (case p of (jid, j) \<Rightarrow>
     j_id j = jid \<and>
     (j_state j = Running \<longrightarrow> j_active j) \<and>
     (j_state j \<in> {Done, Failed} \<longrightarrow> \<not> j_active j) \<and>
     (\<not> j_active j \<longrightarrow> j_stage j = ''done'') \<and>
     (j_result j \<noteq> None \<longrightarrow> j_state j = Done) \<and>
     (j_error j \<noteq> None \<longrightarrow> j_state j = Failed))"

definition store_ok :: "job_store \<Rightarrow> bool" where
  "store_ok s \<longleftrightarrow> dict_ok s \<and> (\<forall>p \<in> set s. job_ok p)"

section \<open>The invariant\<close>

lemma store_ok_get: "store_ok s \<Longrightarrow> dict_get s jid = Some j \<Longrightarrow> job_ok (jid, j)"
  by (auto simp: store_ok_def dest: map_of_SomeD)

lemma store_ok_set [inv_intros]: "store_ok s \<Longrightarrow> job_ok (jid, j) \<Longrightarrow> store_ok (dict_set jid j s)"
  unfolding store_ok_def using dict_ok_set[of s jid j]
  by (auto simp: dict_get_in split: if_splits)

lemma set_dict_pop: "set (dict_pop k d) \<subseteq> set d"
  by (induction d) auto

lemma set_fold_pop: "set (fold (\<lambda>x. dict_pop (f x)) xs d) \<subseteq> set d"
  by (induction xs arbitrary: d) (use set_dict_pop in fastforce)+

lemma set_prune: "set (prune_locked now s) \<subseteq> set s"
  by (auto simp: prune_locked_def Let_def dest!: subsetD[OF set_fold_pop])

lemma dict_ok_prune: "dict_ok s \<Longrightarrow> dict_ok (prune_locked now s)"
  by (simp add: prune_locked_def Let_def)

lemma store_ok_prune [inv_intros]: "store_ok s \<Longrightarrow> store_ok (prune_locked now s)"
  unfolding store_ok_def using dict_ok_prune set_prune by blast

lemma store_ok_start [inv_intros]: "store_ok s \<Longrightarrow> store_ok (fst (start now jid stage detail counts s))"
  by (auto simp: start_def Let_def job_ok_def new_job_def intro!: inv_intros split: option.splits)

lemma store_ok_update [inv_intros]: "store_ok s \<Longrightarrow> store_ok (update now jid stage detail counts s)"
  using store_ok_get[of s jid]
  by (auto simp: update_def job_ok_def intro!: store_ok_set split: option.splits)

lemma store_ok_terminate [inv_intros]:
  "store_ok s \<Longrightarrow> st = Done \<and> err = None \<or> st = Failed \<and> res = None \<Longrightarrow>
   store_ok (fst (terminate now jid st err res s))"
  using store_ok_get[of s jid]
  by (auto simp: terminate_def job_ok_def intro!: store_ok_set split: option.splits)

lemma store_ok_cancel [inv_intros]: "store_ok s \<Longrightarrow> store_ok (fst (cancel now jid s))"
  using store_ok_get[of s jid]
  by (auto simp: cancel_def job_ok_def intro!: store_ok_set split: option.splits)

lemma store_ok_exec: "store_ok s \<Longrightarrow> store_ok (exec_call c s)"
  by (cases c) (simp_all add: finish_def fail_def get_job_def running_ids_def Let_def inv_intros)

lemma store_ok_Nil [simp]: "store_ok []"
  by (simp add: store_ok_def)

section \<open>Ownership and pruning\<close>

lemma dict_get_prune_active:
  assumes ok: "store_ok s" and j: "dict_get s jid = Some j" "j_active j"
  shows "dict_get (prune_locked now s) jid = Some j"
proof -
  let ?s1 = "filter (\<lambda>(jid, j). \<not> (\<not> j_active j \<and> now - j_updated j > ttl_ns)) s"
  let ?fin = "sort_key j_updated (filter (\<lambda>j. \<not> j_active j) (map snd ?s1))"
  have s1: "dict_get ?s1 jid = Some j" using ok j by (simp add: store_ok_def dict_get_filter)
  have "jid \<notin> j_id ` set (take n ?fin)" for n
  proof
    assume "jid \<in> j_id ` set (take n ?fin)"
    then obtain j' where j': "j' \<in> set ?fin" "j_id j' = jid" by (auto dest: in_set_takeD)
    then obtain jid' where "(jid', j') \<in> set s" "\<not> j_active j'" by auto
    moreover from this ok j'(2) have "jid' = jid" by (auto simp: store_ok_def job_ok_def)
    ultimately have "dict_get s jid = Some j'" using ok by (simp add: store_ok_def dict_get_in)
    with j \<open>\<not> j_active j'\<close> show False by simp
  qed
  then show ?thesis using s1 by (simp add: prune_locked_def Let_def dict_get_fold_pop)
qed

lemma dict_get_prune_some: "store_ok s \<Longrightarrow> dict_get (prune_locked now s) jid = Some j \<Longrightarrow> dict_get s jid = Some j"
  using set_prune[of now s] dict_ok_prune[of s now]
  by (auto simp: store_ok_def simp flip: dict_get_in)

text \<open>A worker still owns the job it started: same entry, same start.\<close>

definition owned :: "string \<Rightarrow> int \<Rightarrow> job_store \<Rightarrow> bool" where
  "owned jid t s \<longleftrightarrow> (case dict_get s jid of None \<Rightarrow> False | Some j \<Rightarrow> j_active j \<and> j_created j = t)"

lemma owned_prune [simp]: "store_ok s \<Longrightarrow> owned jid t s \<Longrightarrow> owned jid t (prune_locked now s)"
  by (auto simp: owned_def dict_get_prune_active split: option.splits)

lemma owned_exec: "store_ok s \<Longrightarrow> owned jid t s \<Longrightarrow> \<not> ends_worker jid c \<Longrightarrow> owned jid t (exec_call c s)"
proof (cases c)
  case (CStart now i stage detail counts)
  assume "store_ok s" "owned jid t s"
  then have "owned jid t (prune_locked now s)" by simp
  with CStart show ?thesis by (auto simp: start_def Let_def owned_def split: option.splits)
qed (auto simp: owned_def update_def finish_def fail_def terminate_def cancel_def get_job_def
       running_ids_def Let_def dict_get_prune_active split: option.splits)

section \<open>Cancellation\<close>

lemma cancelled_exec:
  "store_ok s \<Longrightarrow> is_cancelled jid s \<and> owned jid t s \<Longrightarrow> \<not> ends_worker jid c \<Longrightarrow>
   is_cancelled jid (exec_call c s) \<and> owned jid t (exec_call c s)"
proof -
  assume ok: "store_ok s" and c: "is_cancelled jid s \<and> owned jid t s" and e: "\<not> ends_worker jid c"
  obtain j where j: "dict_get s jid = Some j" "j_state j = Cancelled" "j_active j" "j_created j = t"
    using c by (auto simp: is_cancelled_def owned_def split: option.splits)
  have "is_cancelled jid (exec_call c s)"
    using ok j e dict_get_prune_active[OF ok j(1) j(3)]
    by (cases c) (auto simp: is_cancelled_def start_def update_def finish_def fail_def terminate_def
        cancel_def get_job_def running_ids_def Let_def split: option.splits)
  then show ?thesis using owned_exec[OF ok _ e, of t] c by simp
qed

section \<open>The store as a machine\<close>

interpretation jobs: machine exec_call store_ok "\<lambda>_. True"
  by unfold_locales (simp add: store_ok_exec)

interpretation ownership: machine exec_call "\<lambda>s. store_ok s \<and> owned jid t s" "\<lambda>c. \<not> ends_worker jid c" for jid t
  by unfold_locales (simp add: store_ok_exec owned_exec)

interpretation cancellation: machine exec_call
  "\<lambda>s. store_ok s \<and> (is_cancelled jid s \<and> owned jid t s)" "\<lambda>c. \<not> ends_worker jid c" for jid t
  by unfold_locales (auto simp: store_ok_exec dest: cancelled_exec)

section \<open>Size after pruning\<close>

text \<open>The two stages of \<open>_prune_locked\<close>: the jobs within their TTL, and the finished ones.\<close>

definition fresh :: "int \<Rightarrow> job_store \<Rightarrow> job_store" where
  "fresh now s = filter (\<lambda>(jid, j). \<not> (\<not> j_active j \<and> now - j_updated j > ttl_ns)) s"

definition finished_jobs :: "job_store \<Rightarrow> job list" where
  "finished_jobs s = sort_key j_updated (filter (\<lambda>j. \<not> j_active j) (map snd s))"

lemma prune_locked_alt:
  "prune_locked now s =
     fold (\<lambda>j. dict_pop (j_id j)) (take (length (fresh now s) - max_jobs) (finished_jobs (fresh now s)))
       (fresh now s)"
  by (simp add: prune_locked_def fresh_def finished_jobs_def Let_def)

lemma store_ok_fresh: "store_ok s \<Longrightarrow> store_ok (fresh now s)"
  by (auto simp: store_ok_def fresh_def)

lemma length_dict_pop: "dict_ok d \<Longrightarrow> k \<in> set (dict_keys d) \<Longrightarrow> length (dict_pop k d) = length d - 1"
proof (induction d)
  case Nil
  then show ?case by simp
next
  case (Cons p d)
  show ?case
  proof (cases "fst p = k")
    case True
    with Cons.prems have "k \<notin> set (dict_keys d)" by (cases p) (auto simp: dict_ok_def)
    with True show ?thesis by (cases p) (simp add: delete_idem)
  next
    case False
    have "dict_ok d" "k \<in> set (dict_keys d)" using Cons.prems False by (auto simp: dict_ok_def)
    moreover from this(2) have "0 < length d" by (cases d) auto
    ultimately show ?thesis using Cons.IH False by (cases p) simp
  qed
qed

lemma length_fold_pop:
  "dict_ok d \<Longrightarrow> distinct (map f xs) \<Longrightarrow> f ` set xs \<subseteq> set (dict_keys d) \<Longrightarrow>
   length (fold (\<lambda>x. dict_pop (f x)) xs d) = length d - length xs"
proof (induction xs arbitrary: d)
  case Nil
  then show ?case by simp
next
  case (Cons x xs)
  have "f ` set xs \<subseteq> set (dict_keys (dict_pop (f x) d))"
    using Cons.prems by (auto simp del: delete_simps) (metis imageI)
  with Cons show ?case by (simp add: length_dict_pop)
qed

lemma finished_ids:
  assumes "store_ok s"
  shows "distinct (map j_id (finished_jobs s))" "j_id ` set (finished_jobs s) \<subseteq> set (dict_keys s)"
proof -
  have ids: "map j_id (map snd s) = map fst s"
    using assms by (auto simp: store_ok_def job_ok_def)
  then have "distinct (map j_id (map snd s))" using assms unfolding store_ok_def dict_ok_def by metis
  then have d: "distinct (map j_id (filter (\<lambda>j. \<not> j_active j) (map snd s)))"
    by (rule distinct_map_filter)
  have "mset (map j_id (finished_jobs s)) = mset (map j_id (filter (\<lambda>j. \<not> j_active j) (map snd s)))"
    by (simp add: finished_jobs_def)
  with d show "distinct (map j_id (finished_jobs s))" using mset_eq_imp_distinct_iff by blast
  have "j_id ` set (map snd s) = set (dict_keys s)" using ids by (metis list.set_map)
  then show "j_id ` set (finished_jobs s) \<subseteq> set (dict_keys s)"
    by (auto simp: finished_jobs_def)
qed

lemma length_finished: "length (finished_jobs s) = length (filter (\<lambda>p. \<not> j_active (snd p)) s)"
  by (simp add: finished_jobs_def filter_map comp_def)

lemma length_prune:
  assumes "store_ok s"
  shows "length (prune_locked now s) =
           length (fresh now s) - min (length (fresh now s) - max_jobs) (length (finished_jobs (fresh now s)))"
proof -
  let ?s1 = "fresh now s"
  let ?xs = "take (length ?s1 - max_jobs) (finished_jobs ?s1)"
  note ids = finished_ids[OF store_ok_fresh[OF assms, of now]]
  have "distinct (map j_id ?xs)" using ids(1) by (simp add: take_map[symmetric])
  moreover have "j_id ` set ?xs \<subseteq> set (dict_keys ?s1)" using ids(2) set_take_subset by fast
  moreover have "dict_ok ?s1" using store_ok_fresh[OF assms] by (simp add: store_ok_def)
  ultimately show ?thesis by (simp add: prune_locked_alt length_fold_pop min.commute)
qed

lemma length_active_finished:
  "length s = length (filter (\<lambda>p. j_active (snd p)) s) + length (finished_jobs s)"
  using sum_length_filter_compl[of "\<lambda>p. j_active (snd p)" s] by (simp add: length_finished)

lemma active_fresh: "filter (\<lambda>p. j_active (snd p)) (fresh now s) = filter (\<lambda>p. j_active (snd p)) s"
  by (auto simp: fresh_def intro!: filter_cong)

lemma finished_sorted: "sorted (map j_updated (finished_jobs s))"
  by (simp add: finished_jobs_def)

lemma length_fresh: "length (fresh now s) =
    length (filter (\<lambda>p. j_active (snd p)) s) + length (finished_jobs (fresh now s))"
  using length_active_finished[of "fresh now s"] by (simp add: active_fresh)

lemma prune_length_bound:
  "store_ok s \<Longrightarrow> length (prune_locked now s) \<le> max 64 (length (filter (\<lambda>p. j_active (snd p)) s))"
  using length_fresh[of now s] by (simp add: length_prune max_jobs_def)

lemma prune_oldest:
  assumes ok: "store_ok s"
    and a: "(a, ja) \<in> set (fresh now s)" "dict_get (prune_locked now s) a = None"
    and b: "(b, jb) \<in> set (prune_locked now s)" "\<not> j_active jb"
  shows "\<not> j_active ja \<and> j_updated ja \<le> j_updated jb \<and> length (prune_locked now s) = 64"
proof -
  let ?s1 = "fresh now s"
  let ?n = "length ?s1 - max_jobs" and ?fin = "finished_jobs ?s1"
  have ok1: "store_ok ?s1" by (rule store_ok_fresh[OF ok])
  have ga: "dict_get ?s1 a = Some ja" using a(1) ok1 by (simp add: store_ok_def dict_get_in)
  have "j_id ja = a" using store_ok_get[OF ok1 ga] by (simp add: job_ok_def)
  with a(2) ga obtain j where j: "j \<in> set (take ?n ?fin)" "j_id j = a"
    by (auto simp: prune_locked_alt dict_get_fold_pop split: if_splits)
  then have "j \<in> set ?fin" by (auto dest: in_set_takeD)
  then obtain i where "(i, j) \<in> set ?s1" "\<not> j_active j" by (auto simp: finished_jobs_def)
  moreover from this have "i = a" using ok1 j(2) by (auto simp: store_ok_def job_ok_def)
  ultimately have ja: "ja = j" "\<not> j_active ja"
    using \<open>dict_get ?s1 a = Some ja\<close> ok1 by (auto simp: store_ok_def dict_get_in)
  have bs1: "(b, jb) \<in> set ?s1" using b(1) unfolding prune_locked_alt by (rule subsetD[OF set_fold_pop])
  have "dict_get (prune_locked now s) b = Some jb"
    using b(1) dict_ok_prune[of s now] ok by (simp add: store_ok_def dict_get_in)
  then have "b \<notin> j_id ` set (take ?n ?fin)"
    by (auto simp: prune_locked_alt dict_get_fold_pop split: if_splits)
  moreover have "j_id jb = b" using bs1 ok1 by (auto simp: store_ok_def job_ok_def)
  ultimately have nb: "jb \<notin> set (take ?n ?fin)" by blast
  moreover have "jb \<in> set ?fin" using bs1 b(2) by (force simp: finished_jobs_def)
  ultimately have jb: "jb \<in> set (drop ?n ?fin)" by (metis append_take_drop_id UnE set_append)
  have "sorted (map j_updated (take ?n ?fin @ drop ?n ?fin))"
    using finished_sorted by simp
  then have "j_updated j \<le> j_updated jb"
    using j(1) jb unfolding map_append sorted_append by auto
  moreover have "?n < length ?fin" using jb by (metis drop_all empty_iff list.set(1) not_le)
  moreover have "0 < ?n" using j(1) by (cases ?n) auto
  ultimately show "\<not> j_active ja \<and> j_updated ja \<le> j_updated jb \<and> length (prune_locked now s) = 64"
    using ja by (simp add: length_prune[OF ok] max_jobs_def)
qed

lemmas lane_defs = ai_lane_def retrospective_lane_def model_download_lane_def

definition declared_lanes :: "lane set" where
  "declared_lanes = {ai_lane, retrospective_lane, model_download_lane}"

lemma lane_prefix: "l \<in> declared_lanes \<Longrightarrow> \<exists>a b. l_prefix l = [a, b] \<and> is_alnum a \<and> is_id_char b"
  by (auto simp: declared_lanes_def lane_defs is_alnum_def is_id_char_def is_digit_def)

lemma lane_prefix_inj: "l \<in> declared_lanes \<Longrightarrow> l' \<in> declared_lanes \<Longrightarrow> l_prefix l = l_prefix l' \<Longrightarrow> l = l'"
  by (auto simp: declared_lanes_def lane_defs)

lemma lane_prefix_owned: "l \<in> declared_lanes \<Longrightarrow> owns l jid \<Longrightarrow> l_prefix l = take 2 jid"
proof -
  assume "l \<in> declared_lanes" "owns l jid"
  then obtain a b where p: "l_prefix l = [a, b]" "take 3 jid = [a, b, CHR ''-'']"
    using lane_prefix[of l] by (auto simp: owns_def starts_with_def eval_nat_numeral)
  have "take 2 jid = take 2 (take 3 jid)" by (simp add: take_take)
  then show ?thesis using p by simp
qed

lemma owns_mint:
  "l \<in> declared_lanes \<Longrightarrow> list_all is_id_char token \<Longrightarrow> 5 \<le> length token \<Longrightarrow> length token \<le> 61 \<Longrightarrow>
   owns l (mint l token)"
  using lane_prefix[of l]
  by (auto simp: owns_def mint_def starts_with_def job_id_matches_def id_body_def is_id_char_def[of "CHR ''-''"])

section \<open>Properties\<close>

lemma reachable_run: "job_reachable s \<Longrightarrow> job_reachable (fold exec_call cs s)"
  by (induction cs arbitrary: s) (auto intro: job_reachable.step job_step.call)

lemma reachable_store_ok: "job_reachable s \<Longrightarrow> store_ok s"
  by (induction rule: job_reachable.induct) (auto elim!: job_stepE simp: store_ok_exec)

text \<open>
  C36: in every reachable state of the store each entry is filed under its own id, a running
  job has a worker, a done or failed one has none, a job without a worker shows the stage
  \<open>done\<close>, only a done job carries a result and only a failed one an error.
\<close>

theorem job_states_honest:
  assumes "job_reachable s" "dict_get s jid = Some j"
  shows "j_id j = jid \<and> (j_state j = Running \<longrightarrow> j_active j)
         \<and> (j_state j \<in> {Done, Failed} \<longrightarrow> \<not> j_active j) \<and> (\<not> j_active j \<longrightarrow> j_stage j = ''done'')
         \<and> (j_result j \<noteq> None \<longrightarrow> j_state j = Done) \<and> (j_error j \<noteq> None \<longrightarrow> j_state j = Failed)"
  using store_ok_get[OF reachable_store_ok[OF assms(1)] assms(2)] by (auto simp: job_ok_def)

lemma exec_start_finish:
  "fold exec_call [CStart 5 ''cl-abcdefgh'' None None None, CFinish 9 ''cl-abcdefgh'' (Some [])] []
   = [(''cl-abcdefgh'', (new_job ''cl-abcdefgh'' 5) \<lparr> j_state := Done, j_stage := ''done'',
        j_updated := 9, j_result := Some [], j_active := False \<rparr>)]"
  by (simp add: start_def finish_def terminate_def prune_locked_def max_jobs_def new_job_def Let_def)

lemma job_states_honest_witness:
  "\<exists>j. dict_get (fold exec_call [CStart 5 ''cl-abcdefgh'' None None None,
                                CFinish 9 ''cl-abcdefgh'' (Some [])] []) ''cl-abcdefgh'' = Some j
       \<and> j_state j = Done \<and> \<not> j_active j"
  using job_states_honest[OF reachable_run[OF job_reachable.init,
      of "[CStart 5 ''cl-abcdefgh'' None None None, CFinish 9 ''cl-abcdefgh'' (Some [])]"],
      of "''cl-abcdefgh''"]
  unfolding exec_start_finish by simp

text \<open>
  C16: as long as the worker of a job has not reported back, no sequence of calls (pruning
  by time or by number, starts, cancellations) removes or replaces the job, and starting
  its id again is refused.
\<close>

theorem active_job_kept:
  assumes "job_reachable s" "owned jid t s" "list_all (\<lambda>c. \<not> ends_worker jid c) cs"
  shows "owned jid t (fold exec_call cs s)
         \<and> snd (start now jid stage detail counts (fold exec_call cs s)) = Inl (JobConflict jid)"
proof
  have inv: "store_ok (fold exec_call cs s) \<and> owned jid t (fold exec_call cs s)"
    using ownership.inv_run[OF assms(3)] reachable_store_ok[OF assms(1)] assms(2) by blast
  then show "owned jid t (fold exec_call cs s)" ..
  have "owned jid t (prune_locked now (fold exec_call cs s))" using inv by simp
  then show "snd (start now jid stage detail counts (fold exec_call cs s)) = Inl (JobConflict jid)"
    by (auto simp: start_def Let_def owned_def split: option.splits)
qed

lemma exec_start:
  "exec_call (CStart 5 ''cl-abcdefgh'' None None None) [] = [(''cl-abcdefgh'', new_job ''cl-abcdefgh'' 5)]"
  by (simp add: start_def prune_locked_def max_jobs_def new_job_def Let_def)

lemma reachable_start: "job_reachable [(''cl-abcdefgh'', new_job ''cl-abcdefgh'' 5)]"
  using reachable_run[OF job_reachable.init, of "[CStart 5 ''cl-abcdefgh'' None None None]"]
  by (simp only: fold.simps comp_def id_def exec_start)

lemma active_job_kept_witness:
  "owned ''cl-abcdefgh'' 5
     (fold exec_call [CCancel 6 ''cl-abcdefgh'', CGet (10 ^ 15) ''cl-other'']
       [(''cl-abcdefgh'', new_job ''cl-abcdefgh'' 5)])"
  by (rule active_job_kept[OF reachable_start, THEN conjunct1]) (simp_all add: owned_def new_job_def)

text \<open>
  Cancellation is final for the public.  Whatever calls follow before the worker
  reports back, the job stays cancelled, and when the worker then reports (success or
  failure) the report is refused: the job is still cancelled, now without a worker, and
  carries neither the worker's result nor its error.
\<close>

theorem cancellation_sticky:
  assumes "job_reachable s" "owned jid t s" "is_cancelled jid s"
    and "list_all (\<lambda>c. \<not> ends_worker jid c) cs" "ends_worker jid c"
  shows "is_cancelled jid (fold exec_call cs s)
         \<and> (\<exists>j. dict_get (exec_call c (fold exec_call cs s)) jid = Some j \<and> j_state j = Cancelled
             \<and> \<not> j_active j \<and> j_result j = None \<and> j_error j = None)"
proof
  have inv: "store_ok (fold exec_call cs s) \<and> is_cancelled jid (fold exec_call cs s)
               \<and> owned jid t (fold exec_call cs s)"
    using cancellation.inv_run[OF assms(4)] reachable_store_ok[OF assms(1)] assms(2,3) by blast
  then show "is_cancelled jid (fold exec_call cs s)" by blast
  from inv obtain j where j: "dict_get (fold exec_call cs s) jid = Some j" "j_state j = Cancelled"
    by (auto simp: is_cancelled_def split: option.splits)
  moreover have "j_result j = None" "j_error j = None"
    using inv store_ok_get[OF _ j(1)] j(2) by (auto simp: job_ok_def)
  ultimately show "\<exists>j. dict_get (exec_call c (fold exec_call cs s)) jid = Some j \<and> j_state j = Cancelled
             \<and> \<not> j_active j \<and> j_result j = None \<and> j_error j = None"
    using assms(5) by (cases c) (auto simp: finish_def fail_def terminate_def)
qed

lemma cancellation_sticky_witness:
  "is_cancelled ''cl-abcdefgh''
     (fold exec_call [CGet (10 ^ 15) ''cl-other'']
       (exec_call (CCancel 6 ''cl-abcdefgh'') [(''cl-abcdefgh'', new_job ''cl-abcdefgh'' 5)]))"
  by (rule cancellation_sticky[where t = 5 and c = "CFinish 8 ''cl-abcdefgh'' None",
        OF job_reachable.step[OF reachable_start job_step.call], THEN conjunct1])
    (simp_all add: owned_def is_cancelled_def cancel_def new_job_def)

text \<open>
  Pruning bounds the store: at most 64 jobs remain, unless more than 64 still have a
  worker, and then only those remain.  The cap takes the oldest first: a job still within
  its TTL that was dropped is finished, no newer than any finished job that was kept, and
  a finished job was kept only if exactly 64 jobs remain.
\<close>

theorem prune_bounded:
  assumes "job_reachable s"
  shows "length (prune_locked now s) \<le> max 64 (length (filter (\<lambda>p. j_active (snd p)) s)) \<and>
         (\<forall>a ja b jb. (a, ja) \<in> set (fresh now s) \<and> dict_get (prune_locked now s) a = None \<and>
            (b, jb) \<in> set (prune_locked now s) \<and> \<not> j_active jb \<longrightarrow>
            \<not> j_active ja \<and> j_updated ja \<le> j_updated jb \<and> length (prune_locked now s) = 64)"
  using prune_length_bound[OF reachable_store_ok[OF assms]] prune_oldest[OF reachable_store_ok[OF assms]]
  by blast

lemma prune_bounded_witness:
  "length (prune_locked 7 [(''cl-abcdefgh'', new_job ''cl-abcdefgh'' 5)])
     \<le> max 64 (length (filter (\<lambda>p. j_active (snd p)) [(''cl-abcdefgh'', new_job ''cl-abcdefgh'' 5)]))"
  by (rule prune_bounded[OF reachable_start, THEN conjunct1])

text \<open>
  \<open>Lane.run\<close> keeps the verdict honest.  If the job is tracked and its worker still owns
  it when the work ends, whatever other threads did meanwhile, the job ends without a
  worker in the stage \<open>done\<close>; it is cancelled if it was cancelled, otherwise done with the
  returned object when the work returned, and failed with the first 240 characters of the
  message when it raised.  The work's own outcome is passed on.
\<close>

theorem lane_run_honest:
  assumes "job_reachable s" "owned jid t s" "list_all (\<lambda>c. \<not> ends_worker jid c) cs"
  shows "snd (lane_run now (Some jid) (\<lambda>s. (fold exec_call cs s, out)) s) = out
         \<and> (\<exists>j. dict_get (fst (lane_run now (Some jid) (\<lambda>s. (fold exec_call cs s, out)) s)) jid = Some j
           \<and> \<not> j_active j \<and> j_stage j = ''done''
           \<and> (if is_cancelled jid (fold exec_call cs s) then j_state j = Cancelled
              else case out of
                     Returned v \<Rightarrow> j_state j = Done \<and> j_result j = (if is_obj v then Some (obj_fields v) else None)
                   | Raised msg \<Rightarrow> j_state j = Failed \<and> j_error j = Some (take 240 msg)))"
proof
  let ?s1 = "fold exec_call cs s"
  show "snd (lane_run now (Some jid) (\<lambda>s. (fold exec_call cs s, out)) s) = out"
    by (simp add: lane_run_def split: work_outcome.splits)
  have inv: "store_ok ?s1 \<and> owned jid t ?s1"
    using ownership.inv_run[OF assms(3)] reachable_store_ok[OF assms(1)] assms(2) by blast
  then obtain j where j: "dict_get ?s1 jid = Some j" "j_active j"
    by (auto simp: owned_def split: option.splits)
  then have "j_state j = Running \<or> j_state j = Cancelled"
    using inv store_ok_get[OF _ j(1)] by (cases "j_state j") (auto simp: job_ok_def)
  then show "\<exists>j. dict_get (fst (lane_run now (Some jid) (\<lambda>s. (fold exec_call cs s, out)) s)) jid = Some j
           \<and> \<not> j_active j \<and> j_stage j = ''done''
           \<and> (if is_cancelled jid (fold exec_call cs s) then j_state j = Cancelled
              else case out of
                     Returned v \<Rightarrow> j_state j = Done \<and> j_result j = (if is_obj v then Some (obj_fields v) else None)
                   | Raised msg \<Rightarrow> j_state j = Failed \<and> j_error j = Some (take 240 msg))"
    using j by (auto simp: lane_run_def finish_def fail_def terminate_def is_cancelled_def is_obj_def
        obj_fields_def split: work_outcome.splits json.splits)
qed

lemma lane_run_honest_witness:
  "snd (lane_run 9 (Some ''cl-abcdefgh'') (\<lambda>s. (fold exec_call [CCancel 6 ''cl-abcdefgh''] s, Raised ''stopped''))
        [(''cl-abcdefgh'', new_job ''cl-abcdefgh'' 5)]) = Raised ''stopped''"
  by (rule lane_run_honest[OF reachable_start, of _ 5, THEN conjunct1]) (simp_all add: owned_def new_job_def)

text \<open>
  Each lane's id space is its own.  No id is owned by two of the three declared lanes,
  and a lane owns the id it mints from a token of 5 to 61 letters, digits, dashes and
  underscores.
\<close>

theorem lanes_disjoint:
  assumes "l \<in> declared_lanes" "l' \<in> declared_lanes"
  shows "(owns l jid \<and> owns l' jid \<longrightarrow> l = l') \<and>
         (list_all is_id_char token \<and> 5 \<le> length token \<and> length token \<le> 61 \<longrightarrow> owns l (mint l token))"
  using assms lane_prefix_owned[of l jid] lane_prefix_owned[of l' jid] owns_mint[of l token] lane_prefix_inj
  by auto

lemma lanes_disjoint_witness: "owns ai_lane (mint ai_lane ''token-1'')"
  using lanes_disjoint[of ai_lane ai_lane "[]" "''token-1''"]
  by (simp add: declared_lanes_def is_id_char_def is_alnum_def is_digit_def)

text \<open>
  The id check of \<open>Lane.owns\<close> admits a little more than well-formed ids: a well-formed
  id followed by a newline is owned too, because \<open>re.match\<close> with \<open>$\<close> accepts it.
\<close>

theorem owns_trailing_newline:
  "owns ai_lane ''cl-abcdefgh'' \<and> owns ai_lane (''cl-abcdefgh'' @ [CHR 0x0A])
   \<and> \<not> id_body (''cl-abcdefgh'' @ [CHR 0x0A])"
  by (simp add: owns_def job_id_matches_def id_body_def is_alnum_def is_id_char_def is_digit_def
      ai_lane_def starts_with_def)

end
