(* ===== verification/Sha256.thy ===== *)
theory Sha256
  imports Prelude "HOL-Library.Word"
begin

text \<open>
  \<open>hashlib.sha256(data).hexdigest()\<close> of the standard library, over \<open>32 word\<close>: padding,
  message schedule, compression and the hexadecimal digest (FIPS 180-4).  The code uses the
  digest only as a fingerprint, so the properties that rest on it say "equal, or a
  collision of \<open>sha256_hex\<close>"; what is proved here is its shape: 64 lower-case hexadecimal
  characters.
\<close>

unbundle bit_operations_syntax

type_synonym u32 = "32 word"

section \<open>The compression function\<close>

definition rotr :: "nat \<Rightarrow> u32 \<Rightarrow> u32" where
  "rotr n w = drop_bit n w OR push_bit (32 - n) w"

text \<open>
  The constants: the first 32 bits of the fractional parts of the cube roots of the first
  64 primes, and of the square roots of the first 8, found bit by bit.
\<close>

definition floor_root :: "nat \<Rightarrow> nat \<Rightarrow> nat" where
  "floor_root k n = fold (\<lambda>i r. if (r + 2 ^ i) ^ k \<le> n then r + 2 ^ i else r) (rev [0..<40]) 0"

definition is_prime :: "nat \<Rightarrow> bool" where
  "is_prime n \<longleftrightarrow> 2 \<le> n \<and> list_all (\<lambda>d. n mod d \<noteq> 0) [2..<n]"

definition primes_below :: "nat \<Rightarrow> nat list" where
  "primes_below n = filter is_prime [0..<n]"

definition round_constants :: "u32 list" where
  "round_constants = map (\<lambda>p. word_of_nat (floor_root 3 (p * 2 ^ 96))) (primes_below 312)"

definition initial_words :: "u32 list" where
  "initial_words = map (\<lambda>p. word_of_nat (floor_root 2 (p * 2 ^ 64))) (primes_below 20)"

fun bytes_to_words :: "nat list \<Rightarrow> u32 list" where
  "bytes_to_words (a # b # c # d # bs) =
     word_of_nat (((a * 256 + b) * 256 + c) * 256 + d) # bytes_to_words bs"
| "bytes_to_words _ = []"

primrec extend_schedule :: "nat \<Rightarrow> u32 list \<Rightarrow> u32 list" where
  "extend_schedule 0 ws = ws"
| "extend_schedule (Suc n) ws =
     (let w15 = ws ! 14; w2 = ws ! 1;
          s0 = rotr 7 w15 XOR rotr 18 w15 XOR drop_bit 3 w15;
          s1 = rotr 17 w2 XOR rotr 19 w2 XOR drop_bit 10 w2
      in extend_schedule n ((ws ! 15 + s0 + ws ! 6 + s1) # ws))"

type_synonym sha_state = "u32 \<times> u32 \<times> u32 \<times> u32 \<times> u32 \<times> u32 \<times> u32 \<times> u32"

fun compress_round :: "u32 \<times> u32 \<Rightarrow> sha_state \<Rightarrow> sha_state" where
  "compress_round (k, w) (a, b, c, d, e, f, g, h) =
     (let s1 = rotr 6 e XOR rotr 11 e XOR rotr 25 e;
          ch = (e AND f) XOR (NOT e AND g);
          t1 = h + s1 + ch + k + w;
          s0 = rotr 2 a XOR rotr 13 a XOR rotr 22 a;
          maj = (a AND b) XOR (a AND c) XOR (b AND c);
          t2 = s0 + maj
      in (t1 + t2, a, b, c, d + t1, e, f, g))"

fun add_state :: "sha_state \<Rightarrow> sha_state \<Rightarrow> sha_state" where
  "add_state (a, b, c, d, e, f, g, h) (a', b', c', d', e', f', g', h') =
     (a + a', b + b', c + c', d + d', e + e', f + f', g + g', h + h')"

definition compress_block :: "nat list \<Rightarrow> sha_state \<Rightarrow> sha_state" where
  "compress_block block s =
     add_state s
       (fold compress_round
         (zip round_constants (rev (extend_schedule 48 (rev (bytes_to_words block))))) s)"

definition init_state :: sha_state where
  "init_state = (let h = initial_words in (h ! 0, h ! 1, h ! 2, h ! 3, h ! 4, h ! 5, h ! 6, h ! 7))"

section \<open>Padding and digest\<close>

text \<open>The message, the bit \<open>1\<close>, zeros up to 56 bytes modulo 64, and its length in bits.\<close>

definition be_bytes :: "nat \<Rightarrow> nat \<Rightarrow> nat list" where
  "be_bytes k n = map (\<lambda>i. n div 256 ^ i mod 256) (rev [0..<k])"

definition pad :: "nat list \<Rightarrow> nat list" where
  "pad bs = bs @ [128] @ replicate ((119 - length bs mod 64) mod 64) 0 @ be_bytes 8 (8 * length bs)"

fun blocks :: "nat \<Rightarrow> nat list \<Rightarrow> nat list list" where
  "blocks 0 bs = []"
| "blocks (Suc n) bs = take 64 bs # blocks n (drop 64 bs)"

fun state_words :: "sha_state \<Rightarrow> u32 list" where
  "state_words (a, b, c, d, e, f, g, h) = [a, b, c, d, e, f, g, h]"

definition sha256_words :: "nat list \<Rightarrow> u32 list" where
  "sha256_words bs =
     (let p = pad bs in
      state_words (fold compress_block (blocks (length p div 64) p) init_state))"

definition hex_nibble :: "nat \<Rightarrow> char" where
  "hex_nibble d = (if d < 10 then digit_char d else char_of (87 + d))"

definition hex_word :: "u32 \<Rightarrow> string" where
  "hex_word w = map (\<lambda>i. hex_nibble (unat w div 16 ^ i mod 16)) (rev [0..<8])"

definition sha256_hex :: "string \<Rightarrow> string" where
  "sha256_hex s = concat (map hex_word (sha256_words (map of_char s)))"

section \<open>The shape of a digest\<close>

lemma length_be_bytes [simp]: "length (be_bytes k n) = k"
  by (simp add: be_bytes_def)

lemma pad_blocks: "length (pad bs) mod 64 = 0"
proof -
  define r where "r = length bs mod 64"
  have r: "r < 64" by (simp add: r_def)
  have pad: "(119 - r) mod 64 = (if r \<le> 55 then 55 - r else 119 - r)"
    using r by (auto simp: mod_if)
  have "length (pad bs) = length bs + (9 + (119 - r) mod 64)"
    by (simp add: pad_def r_def)
  also have "\<dots> mod 64 = (r + (9 + (119 - r) mod 64)) mod 64"
    unfolding r_def by (rule mod_add_left_eq[symmetric])
  also have "\<dots> = 0" unfolding pad using r by (cases "r \<le> 55") simp_all
  finally show ?thesis .
qed

definition is_hex :: "char \<Rightarrow> bool" where
  "is_hex c \<longleftrightarrow> is_digit c \<or> (97 \<le> (of_char c :: nat) \<and> (of_char c :: nat) \<le> 102)"

lemma is_hex_nibble: "d < 16 \<Longrightarrow> is_hex (hex_nibble d)"
  by (auto simp: is_hex_def hex_nibble_def is_digit_def digit_char_def)

lemma length_state_words: "length (state_words s) = 8"
  by (induction s rule: state_words.induct) simp

lemma length_sha256_words: "length (sha256_words bs) = 8"
  unfolding sha256_words_def Let_def by (rule length_state_words)

lemma length_hex_word [simp]: "length (hex_word w) = 8"
  by (simp add: hex_word_def)

lemma hex_word_hex: "list_all is_hex (hex_word w)"
  by (auto simp: hex_word_def list_all_iff intro: is_hex_nibble)

lemma length_sha256_hex [simp]: "length (sha256_hex s) = 64"
  by (simp add: sha256_hex_def length_concat comp_def length_sha256_words sum_list_triv)

lemma sha256_hex_hex: "list_all is_hex (sha256_hex s)"
  using hex_word_hex by (fastforce simp: sha256_hex_def list_all_iff)

lemma sha256_hex_nonempty [simp]: "sha256_hex s \<noteq> []"
  using length_sha256_hex[of s] by (metis list.size(3) zero_neq_numeral)

text \<open>Two texts with one digest: what a forger of a fingerprinted record would have to find.\<close>

definition collision :: "string \<Rightarrow> string \<Rightarrow> bool" where
  "collision a b \<longleftrightarrow> a \<noteq> b \<and> sha256_hex a = sha256_hex b"

lemma sha256_eq: "sha256_hex a = sha256_hex b \<longleftrightarrow> a = b \<or> collision a b"
  by (auto simp: collision_def)

lemma collision_irrefl [simp]: "\<not> collision a a"
  by (simp add: collision_def)

text \<open>A content id keeps the first 20 hex digits of the digest.\<close>

definition id_collision :: "string \<Rightarrow> string \<Rightarrow> bool" where
  "id_collision a b \<longleftrightarrow> a \<noteq> b \<and> take 20 (sha256_hex a) = take 20 (sha256_hex b)"

lemma id_collision_irrefl [simp]: "\<not> id_collision a a"
  by (simp add: id_collision_def)

end
