(* ===== verification/Py_Time.thy ===== *)
theory Py_Time
  imports Prelude "HOL-Library.Product_Lexorder"
begin

text \<open>
  UTC instants as the ledgers write them, \<open>YYYY-MM-DDTHH:MM:SSZ\<close>, with the pieces of
  \<open>datetime\<close> the code uses: comparison, \<open>isoformat\<close>, \<open>fromisoformat\<close> of that canonical
  form, adding hours, and the football season of a kickoff.  Clocks are read to the second,
  as the code does with \<open>replace(microsecond=0)\<close>.

  The lemmas make the two orders the code mixes interchangeable: comparing instants and
  comparing their ISO texts (\<open>dt_iso_less\<close>), and show that parsing inverts printing.
\<close>

section \<open>Instants\<close>

datatype dt = DT (yr: nat) (mon: nat) (dy: nat) (hr: nat) (mnt: nat) (sec: nat)

definition dt_key :: "dt \<Rightarrow> nat \<times> nat \<times> nat \<times> nat \<times> nat \<times> nat" where
  "dt_key t = (yr t, mon t, dy t, hr t, mnt t, sec t)"

lemma dt_key_inj [simp]: "dt_key s = dt_key t \<longleftrightarrow> s = t"
  by (cases s; cases t) (auto simp: dt_key_def)

instantiation dt :: linorder
begin

definition less_eq_dt :: "dt \<Rightarrow> dt \<Rightarrow> bool" where
  "less_eq_dt s t \<longleftrightarrow> dt_key s \<le> dt_key t"

definition less_dt :: "dt \<Rightarrow> dt \<Rightarrow> bool" where
  "less_dt s t \<longleftrightarrow> dt_key s < dt_key t"

instance
  by standard (auto simp: less_eq_dt_def less_dt_def less_le_not_le dest: antisym)

end

definition leap :: "nat \<Rightarrow> bool" where
  "leap y \<longleftrightarrow> y mod 4 = 0 \<and> (y mod 100 \<noteq> 0 \<or> y mod 400 = 0)"

definition days_in_month :: "nat \<Rightarrow> nat \<Rightarrow> nat" where
  "days_in_month y m =
     (if m = 2 then (if leap y then 29 else 28) else if m \<in> {4, 6, 9, 11} then 30 else 31)"

definition wf_dt :: "dt \<Rightarrow> bool" where
  "wf_dt t \<longleftrightarrow>
     1 \<le> yr t \<and> yr t \<le> 9999 \<and> 1 \<le> mon t \<and> mon t \<le> 12 \<and>
     1 \<le> dy t \<and> dy t \<le> days_in_month (yr t) (mon t) \<and> hr t < 24 \<and> mnt t < 60 \<and> sec t < 60"

lemma days_in_month_le: "days_in_month y m \<le> 31"
  by (simp add: days_in_month_def)

section \<open>ISO text\<close>

definition dt_iso :: "dt \<Rightarrow> string" where
  "dt_iso t =
     zfill 4 (yr t) @ ''-'' @ zfill 2 (mon t) @ ''-'' @ zfill 2 (dy t) @ ''T'' @
     zfill 2 (hr t) @ '':'' @ zfill 2 (mnt t) @ '':'' @ zfill 2 (sec t) @ ''Z''"

definition iso_date :: "dt \<Rightarrow> string" where
  "iso_date t = take 10 (dt_iso t)"

definition parse_iso :: "string \<Rightarrow> dt option" where
  "parse_iso s =
     (if length s = 20 \<and> s ! 4 = CHR ''-'' \<and> s ! 7 = CHR ''-'' \<and> s ! 10 = CHR ''T'' \<and>
         s ! 13 = CHR '':'' \<and> s ! 16 = CHR '':'' \<and> s ! 19 = CHR ''Z'' \<and>
         list_all (\<lambda>i. is_digit (s ! i)) [0,1,2,3,5,6,8,9,11,12,14,15,17,18]
      then (let t = DT (str_nat (py_slice 0 4 s)) (str_nat (py_slice 5 7 s)) (str_nat (py_slice 8 10 s))
                       (str_nat (py_slice 11 13 s)) (str_nat (py_slice 14 16 s)) (str_nat (py_slice 17 19 s))
            in if wf_dt t then Some t else None)
      else None)"

lemma list2: "length xs = 2 \<Longrightarrow> \<exists>a b. xs = [a, b]"
  by (auto simp: numeral_2_eq_2 length_Suc_conv)

lemma list4: "length xs = 4 \<Longrightarrow> \<exists>a b c d. xs = [a, b, c, d]"
  by (auto simp: eval_nat_numeral length_Suc_conv)

lemma zfill2: "n < 100 \<Longrightarrow> \<exists>a b. zfill 2 n = [a, b] \<and> is_digit a \<and> is_digit b \<and> str_nat [a, b] = n"
proof -
  assume "n < 100"
  then obtain a b where z: "zfill 2 n = [a, b]" using length_zfill[of n 2] list2[of "zfill 2 n"] by auto
  moreover have "str_nat [a, b] = n" using str_nat_zfill[of 2 n] unfolding z .
  ultimately show ?thesis using zfill_digits[of 2 n] by simp
qed

lemma zfill4:
  "n < 10000 \<Longrightarrow>
   \<exists>a b c d. zfill 4 n = [a, b, c, d] \<and> is_digit a \<and> is_digit b \<and> is_digit c \<and> is_digit d \<and>
             str_nat [a, b, c, d] = n"
proof -
  assume "n < 10000"
  then obtain a b c d where z: "zfill 4 n = [a, b, c, d]"
    using length_zfill[of n 4] list4[of "zfill 4 n"] by auto
  moreover have "str_nat [a, b, c, d] = n" using str_nat_zfill[of 4 n] unfolding z .
  ultimately show ?thesis using zfill_digits[of 4 n] by simp
qed

lemma wf_dt_bounds:
  "wf_dt t \<Longrightarrow> yr t < 10000 \<and> mon t < 100 \<and> dy t < 100 \<and> hr t < 100 \<and> mnt t < 100 \<and> sec t < 100"
  using days_in_month_le[of "yr t" "mon t"] by (auto simp: wf_dt_def)

lemma parse_dt_iso [simp]: "wf_dt t \<Longrightarrow> parse_iso (dt_iso t) = Some t"
proof -
  assume wf: "wf_dt t"
  note b = wf_dt_bounds[OF wf]
  obtain a1 a2 a3 a4 where y: "zfill 4 (yr t) = [a1, a2, a3, a4]" "is_digit a1" "is_digit a2"
    "is_digit a3" "is_digit a4" "str_nat [a1, a2, a3, a4] = yr t" using zfill4 b by blast
  obtain b1 b2 where m: "zfill 2 (mon t) = [b1, b2]" "is_digit b1" "is_digit b2"
    "str_nat [b1, b2] = mon t" using zfill2 b by blast
  obtain c1 c2 where d: "zfill 2 (dy t) = [c1, c2]" "is_digit c1" "is_digit c2"
    "str_nat [c1, c2] = dy t" using zfill2 b by blast
  obtain d1 d2 where h: "zfill 2 (hr t) = [d1, d2]" "is_digit d1" "is_digit d2"
    "str_nat [d1, d2] = hr t" using zfill2 b by blast
  obtain e1 e2 where n: "zfill 2 (mnt t) = [e1, e2]" "is_digit e1" "is_digit e2"
    "str_nat [e1, e2] = mnt t" using zfill2 b by blast
  obtain f1 f2 where s: "zfill 2 (sec t) = [f1, f2]" "is_digit f1" "is_digit f2"
    "str_nat [f1, f2] = sec t" using zfill2 b by blast
  show ?thesis
    using wf by (simp add: parse_iso_def dt_iso_def y m d h n s py_slice_def)
qed

lemma dt_iso_inj: "wf_dt s \<Longrightarrow> wf_dt t \<Longrightarrow> dt_iso s = dt_iso t \<longleftrightarrow> s = t"
  by (metis option.inject parse_dt_iso)

subsection \<open>Order of texts is order of instants\<close>

lemma str_nat_Cons: "str_nat (c # s) = digit_val c * 10 ^ length s + str_nat s"
  using str_nat_append[of "[c]" s] by (simp add: str_nat_def)

lemma digit_val_less: "is_digit c \<Longrightarrow> digit_val c < 10"
  by (auto simp: is_digit_def digit_val_def)

lemma str_nat_bound: "list_all is_digit s \<Longrightarrow> str_nat s < 10 ^ length s"
proof (induction s)
  case Nil
  then show ?case by simp
next
  case (Cons c s)
  then have "digit_val c \<le> 9" "str_nat s < 10 ^ length s" using digit_val_less[of c] by auto
  then have "digit_val c * 10 ^ length s \<le> 9 * 10 ^ length s" by (intro mult_right_mono) simp_all
  with \<open>str_nat s < _\<close> show ?case
    unfolding str_nat_Cons list.size power_Suc add_0_right add_Suc_right by linarith
qed

lemma digit_less: "is_digit c \<Longrightarrow> is_digit d \<Longrightarrow> c < d \<longleftrightarrow> digit_val c < digit_val d"
  by (auto simp: is_digit_def digit_val_def less_char_def)

lemma digit_eq: "is_digit c \<Longrightarrow> is_digit d \<Longrightarrow> c = d \<longleftrightarrow> digit_val c = digit_val d"
  by (metis digit_less less_irrefl linorder_less_linear)

lemma str_nat_less:
  "length s = length t \<Longrightarrow> list_all is_digit s \<Longrightarrow> list_all is_digit t \<Longrightarrow>
   s < t \<longleftrightarrow> str_nat s < str_nat t"
proof (induction s t rule: list_induct2)
  case Nil
  then show ?case by simp
next
  case (Cons c s d t)
  have b: "str_nat s < 10 ^ length t" "str_nat t < 10 ^ length t"
    using Cons str_nat_bound[of s] str_nat_bound[of t] by auto
  have carry: "digit_val x < digit_val y \<Longrightarrow> u < 10 ^ k \<Longrightarrow>
        digit_val x * 10 ^ k + u < digit_val y * 10 ^ k + v" for x y and u v k :: nat
  proof -
    assume "digit_val x < digit_val y" "u < 10 ^ k"
    then have "(digit_val x + 1) * 10 ^ k \<le> digit_val y * 10 ^ k" by (intro mult_right_mono) simp_all
    with \<open>u < 10 ^ k\<close> show ?thesis by (simp add: algebra_simps)
  qed
  consider "digit_val c < digit_val d" | "digit_val c = digit_val d" | "digit_val d < digit_val c"
    by linarith
  then show ?case
  proof cases
    case 1
    then show ?thesis
      using Cons carry[OF 1 b(1)] digit_less[of c d] by (simp add: str_nat_Cons)
  next
    case 2
    then show ?thesis using Cons digit_eq[of c d] by (simp add: str_nat_Cons)
  next
    case 3
    have "\<not> c < d" "c \<noteq> d" using Cons 3 digit_less[of c d] by auto
    moreover have "str_nat (d # t) < str_nat (c # s)"
      using carry[OF 3 b(2), of "str_nat s"] Cons.hyps by (simp add: str_nat_Cons)
    ultimately show ?thesis by simp
  qed
qed

lemma append_less_same_length:
  fixes u v :: string
  shows "length u = length v \<Longrightarrow> u @ s < v @ t \<longleftrightarrow> u < v \<or> (u = v \<and> s < t)"
  by (induction u v rule: list_induct2) auto

lemma zfill_less:
  "m < 10 ^ k \<Longrightarrow> n < 10 ^ k \<Longrightarrow> 0 < k \<Longrightarrow>
   zfill k m @ s < zfill k n @ t \<longleftrightarrow> m < n \<or> (m = n \<and> s < t)"
  using append_less_same_length[of "zfill k m" "zfill k n" s t]
    str_nat_less[of "zfill k m" "zfill k n"] zfill_digits length_zfill[of m k] length_zfill[of n k]
  by (metis str_nat_zfill)

lemma dt_iso_less: "wf_dt s \<Longrightarrow> wf_dt t \<Longrightarrow> dt_iso s < dt_iso t \<longleftrightarrow> s < t"
proof -
  assume "wf_dt s" "wf_dt t"
  note b = wf_dt_bounds[OF this(1)] wf_dt_bounds[OF this(2)]
  show ?thesis
    using b by (auto simp: dt_iso_def zfill_less less_dt_def dt_key_def)
qed

subsection \<open>Printing inverts parsing\<close>

lemma zfill_str_nat: "list_all is_digit s \<Longrightarrow> s \<noteq> [] \<Longrightarrow> zfill (length s) (str_nat s) = s"
proof -
  assume s: "list_all is_digit s" "s \<noteq> []"
  let ?z = "zfill (length s) (str_nat s)"
  have l: "length ?z = length s" using str_nat_bound[OF s(1)] s(2) by (intro length_zfill) simp_all
  have "\<not> ?z < s" "\<not> s < ?z"
    using str_nat_less[OF l zfill_digits s(1)] str_nat_less[OF l[symmetric] s(1) zfill_digits] by simp_all
  then show ?thesis by (metis linorder_less_linear)
qed

lemma list20:
  "length xs = 20 \<Longrightarrow> \<exists>a b c d e f g h i j k l m n p q r s t u.
     xs = [a, b, c, d, e, f, g, h, i, j, k, l, m, n, p, q, r, s, t, u]"
  by (auto simp: eval_nat_numeral length_Suc_conv)

lemma parse_iso_inverse: "parse_iso s = Some t \<Longrightarrow> dt_iso t = s"
proof -
  assume p: "parse_iso s = Some t"
  then have "length s = 20" by (auto simp: parse_iso_def split: if_splits)
  from list20[OF this] obtain a b c d e f g h i j k l m n p q r u v w where
    s: "s = [a, b, c, d, e, f, g, h, i, j, k, l, m, n, p, q, r, u, v, w]" by (elim exE) (rule that)
  show ?thesis
    using p zfill_str_nat[of "[a, b, c, d]"] zfill_str_nat[of "[f, g]"] zfill_str_nat[of "[i, j]"]
      zfill_str_nat[of "[l, m]"] zfill_str_nat[of "[p, q]"] zfill_str_nat[of "[u, v]"]
    by (auto simp: s parse_iso_def py_slice_def dt_iso_def Let_def eval_nat_numeral split: if_splits)
qed

lemma parse_iso_wf: "parse_iso s = Some t \<Longrightarrow> wf_dt t"
  by (auto simp: parse_iso_def Let_def split: if_splits)

section \<open>Calendar arithmetic\<close>

text \<open>Adding a whole number of hours, at most a day's worth at a time.\<close>

definition next_day :: "dt \<Rightarrow> dt" where
  "next_day t =
     (if dy t < days_in_month (yr t) (mon t) then DT (yr t) (mon t) (dy t + 1) (hr t) (mnt t) (sec t)
      else if mon t < 12 then DT (yr t) (mon t + 1) 1 (hr t) (mnt t) (sec t)
      else DT (yr t + 1) 1 1 (hr t) (mnt t) (sec t))"

definition add_hours :: "nat \<Rightarrow> dt \<Rightarrow> dt" where
  "add_hours h t =
     (let t' = DT (yr t) (mon t) (dy t) ((hr t + h) mod 24) (mnt t) (sec t)
      in (next_day ^^ ((hr t + h) div 24)) t')"

lemma next_day_less: "DT y m d h1 n1 s1 < next_day (DT y m d h2 n2 s2)"
  by (simp add: next_day_def less_dt_def dt_key_def)

lemma add_hours_less: "0 < h \<Longrightarrow> h < 24 \<Longrightarrow> hr t < 24 \<Longrightarrow> t < add_hours h t"
proof -
  assume h: "0 < h" "h < 24" "hr t < 24"
  show ?thesis
  proof (cases "hr t + h < 24")
    case True
    with h show ?thesis by (simp add: add_hours_def less_dt_def dt_key_def)
  next
    case False
    then have "(hr t + h) div 24 = 1" using h by simp
    then show ?thesis
      using next_day_less[of "yr t" "mon t" "dy t" "hr t" "mnt t" "sec t"] by (simp add: add_hours_def)
  qed
qed

text \<open>One second, and whole days, earlier (\<open>datetime - timedelta\<close>; the year 1 is the floor).\<close>

definition prev_day :: "dt \<Rightarrow> dt" where
  "prev_day t =
     (if 1 < dy t then DT (yr t) (mon t) (dy t - 1) (hr t) (mnt t) (sec t)
      else if 1 < mon t then DT (yr t) (mon t - 1) (days_in_month (yr t) (mon t - 1)) (hr t) (mnt t) (sec t)
      else DT (yr t - 1) 12 31 (hr t) (mnt t) (sec t))"

definition prev_second :: "dt \<Rightarrow> dt" where
  "prev_second t =
     (if 0 < sec t then DT (yr t) (mon t) (dy t) (hr t) (mnt t) (sec t - 1)
      else if 0 < mnt t then DT (yr t) (mon t) (dy t) (hr t) (mnt t - 1) 59
      else if 0 < hr t then DT (yr t) (mon t) (dy t) (hr t - 1) 59 59
      else prev_day (DT (yr t) (mon t) (dy t) 23 59 59))"

definition minus_days :: "nat \<Rightarrow> dt \<Rightarrow> dt" where
  "minus_days k t = (prev_day ^^ k) t"

lemma days_in_month_ge: "28 \<le> days_in_month y m"
  by (simp add: days_in_month_def)

lemma wf_prev_second: "wf_dt t \<Longrightarrow> 1 < yr t \<Longrightarrow> wf_dt (prev_second t)"
  using days_in_month_ge[of "yr t" "mon t - 1"]
  by (auto simp: wf_dt_def prev_second_def prev_day_def) (simp add: days_in_month_def)

text \<open>The second before is the greatest earlier instant.\<close>

lemma less_iff_le_prev_second:
  assumes "wf_dt s" "wf_dt t" "1 < yr t"
  shows "s < t \<longleftrightarrow> s \<le> prev_second t"
proof -
  obtain a b c d e f where s: "s = DT a b c d e f" by (cases s)
  obtain y m d' h n c' where t: "t = DT y m d' h n c'" by (cases t)
  have dec: "days_in_month z 12 = 31" for z by (simp add: days_in_month_def)
  have mon: "b < m \<Longrightarrow> \<not> b < m - Suc 0 \<Longrightarrow> m - Suc 0 = b" by linarith
  show ?thesis
    using assms unfolding s t
    by (auto simp: less_dt_def less_eq_dt_def dt_key_def prev_second_def prev_day_def wf_dt_def dec mon split: if_splits)
qed

lemma prev_second_less: "wf_dt t \<Longrightarrow> 1 < yr t \<Longrightarrow> prev_second t < t"
  using less_iff_le_prev_second[OF wf_prev_second] by simp

end
