(* ===== verification/Picks_Core.thy ===== *)
theory Picks_Core
  imports Complex_Main "HOL-Library.Monad_Syntax" Json Sha256 Py_Time
begin

text \<open>
  \<open>src/core/golavo_core/picks.py\<close>: content addressing and integrity of locked picks, the
  rival calls derived from an analysis, the scoring rules and the season summary.  A pick
  record has the fields of the closed schema \<open>UserPick\<close>
  (\<open>src/docs/contracts/user_pick.schema.json\<close>); \<open>pick_json\<close> writes it and \<open>pick_of_json\<close> is
  the schema's validation of parsed JSON.  Goals are Python integers, probabilities are
  rationals (only their order matters here).
\<close>

section \<open>Records\<close>

datatype outcome = Home | Draw | Away

text \<open>The order of \<open>OUTCOMES\<close>, which breaks ties.\<close>

definition outcomes :: "outcome list" where
  "outcomes = [Home, Draw, Away]"

definition outcome_text :: "outcome \<Rightarrow> string" where
  "outcome_text oc = (case oc of Home \<Rightarrow> ''home'' | Draw \<Rightarrow> ''draw'' | Away \<Rightarrow> ''away'')"

definition outcome_of_text :: "string \<Rightarrow> outcome option" where
  "outcome_of_text s =
     (if s = ''home'' then Some Home else if s = ''draw'' then Some Draw
      else if s = ''away'' then Some Away else None)"

datatype capability = Score | Outcome_only | Abstained

definition capability_text :: "capability \<Rightarrow> string" where
  "capability_text c =
     (case c of Score \<Rightarrow> ''score'' | Outcome_only \<Rightarrow> ''outcome_only'' | Abstained \<Rightarrow> ''abstained'')"

definition capability_of_text :: "string \<Rightarrow> capability option" where
  "capability_of_text s =
     (if s = ''score'' then Some Score else if s = ''outcome_only'' then Some Outcome_only
      else if s = ''abstained'' then Some Abstained else None)"

record user_call =
  uc_home :: int
  uc_away :: int
  uc_outcome :: outcome

record rival =
  rv_family :: string
  rv_capability :: capability
  rv_score :: "(int \<times> int) option"
  rv_outcome :: "outcome option"

record match_snapshot =
  ms_match_id :: string
  ms_kickoff :: dt
  ms_time_known :: bool
  ms_home_team :: string
  ms_away_team :: string
  ms_home_norm :: string
  ms_away_norm :: string
  ms_competition :: "string option"

record fingerprint =
  fp_index :: string
  fp_schema :: string
  fp_cutoff :: string

datatype pick_status = Draft | Locked

record pick =
  pk_id :: "string option"
  pk_status :: pick_status
  pk_match :: match_snapshot
  pk_call :: user_call
  pk_rivals :: "rival list"
  pk_fp :: fingerprint
  pk_created :: dt
  pk_updated :: dt
  pk_lock_at :: dt
  pk_locked_at :: "dt option"
  pk_sha :: "string option"

definition scored_rival_families :: "string list" where
  "scored_rival_families =
     [''elo_ordlogit'', ''dixon_coles'', ''poisson_independent'', ''bivariate_poisson'', ''climatological'']"

section \<open>JSON of a record\<close>

definition jopt :: "string option \<Rightarrow> json" where
  "jopt x = (case x of None \<Rightarrow> JNull | Some s \<Rightarrow> JStr s)"

definition status_text :: "pick_status \<Rightarrow> string" where
  "status_text st = (case st of Draft \<Rightarrow> ''draft'' | Locked \<Rightarrow> ''locked'')"

definition match_json :: "match_snapshot \<Rightarrow> json" where
  "match_json m = JObj
     [(''match_id'', JStr (ms_match_id m)),
      (''kickoff_utc'', JStr (dt_iso (ms_kickoff m))),
      (''kickoff_time_known'', JBool (ms_time_known m)),
      (''home_team'', JStr (ms_home_team m)),
      (''away_team'', JStr (ms_away_team m)),
      (''home_norm'', JStr (ms_home_norm m)),
      (''away_norm'', JStr (ms_away_norm m)),
      (''competition'', jopt (ms_competition m))]"

definition call_json :: "user_call \<Rightarrow> json" where
  "call_json c = JObj
     [(''home_goals'', JInt (uc_home c)), (''away_goals'', JInt (uc_away c)),
      (''outcome'', JStr (outcome_text (uc_outcome c)))]"

definition score_json :: "(int \<times> int) option \<Rightarrow> json" where
  "score_json s = (case s of None \<Rightarrow> JNull
     | Some (h, a) \<Rightarrow> JObj [(''home_goals'', JInt h), (''away_goals'', JInt a)])"

definition rival_json :: "rival \<Rightarrow> json" where
  "rival_json r = JObj
     [(''family'', JStr (rv_family r)),
      (''capability'', JStr (capability_text (rv_capability r))),
      (''score_pick'', score_json (rv_score r)),
      (''outcome_pick'', jopt (map_option outcome_text (rv_outcome r)))]"

definition fp_json :: "fingerprint \<Rightarrow> json" where
  "fp_json f = JObj
     [(''index_fingerprint'', JStr (fp_index f)),
      (''analysis_schema_version'', JStr (fp_schema f)),
      (''information_cutoff_utc'', JStr (fp_cutoff f))]"

definition pick_schema_version :: string where
  "pick_schema_version = ''0.1.0''"

definition pick_json :: "pick \<Rightarrow> json" where
  "pick_json p = JObj
     [(''schema_version'', JStr pick_schema_version),
      (''pick_id'', jopt (pk_id p)),
      (''status'', JStr (status_text (pk_status p))),
      (''match'', match_json (pk_match p)),
      (''user_pick'', call_json (pk_call p)),
      (''rivals'', JArr (map rival_json (pk_rivals p))),
      (''analysis_fingerprint'', fp_json (pk_fp p)),
      (''created_at_utc'', JStr (dt_iso (pk_created p))),
      (''updated_at_utc'', JStr (dt_iso (pk_updated p))),
      (''lock_at_utc'', JStr (dt_iso (pk_lock_at p))),
      (''locked_at_utc'', jopt (map_option dt_iso (pk_locked_at p))),
      (''payload_sha256'', jopt (pk_sha p))]"

section \<open>Validation\<close>

text \<open>
  The schema \<open>UserPick\<close>: what it asks of the values once their JSON types are right.
\<close>

definition valid_goal :: "int \<Rightarrow> bool" where
  "valid_goal g \<longleftrightarrow> 0 \<le> g \<and> g \<le> 20"

definition valid_rival :: "rival \<Rightarrow> bool" where
  "valid_rival r \<longleftrightarrow>
     rv_family r \<in> set scored_rival_families \<and>
     (case rv_score r of None \<Rightarrow> True | Some (h, a) \<Rightarrow> valid_goal h \<and> valid_goal a) \<and>
     (case rv_capability r of
        Score \<Rightarrow> rv_score r \<noteq> None \<and> rv_outcome r \<noteq> None
      | Outcome_only \<Rightarrow> rv_score r = None \<and> rv_outcome r \<noteq> None
      | Abstained \<Rightarrow> rv_score r = None \<and> rv_outcome r = None)"

definition valid_match :: "match_snapshot \<Rightarrow> bool" where
  "valid_match m \<longleftrightarrow>
     ms_match_id m \<noteq> [] \<and> wf_dt (ms_kickoff m) \<and> ms_home_team m \<noteq> [] \<and> ms_away_team m \<noteq> [] \<and>
     ms_home_norm m \<noteq> [] \<and> ms_away_norm m \<noteq> []"

definition valid_fp :: "fingerprint \<Rightarrow> bool" where
  "valid_fp f \<longleftrightarrow> fp_index f \<noteq> [] \<and> fp_schema f \<noteq> [] \<and> parse_iso (fp_cutoff f) \<noteq> None"

definition pick_id_pattern :: "string \<Rightarrow> bool" where
  "pick_id_pattern s \<longleftrightarrow> length s = 23 \<and> take 3 s = ''pk_'' \<and> list_all is_hex (drop 3 s)"

definition sha_pattern :: "string \<Rightarrow> bool" where
  "sha_pattern s \<longleftrightarrow> length s = 64 \<and> list_all is_hex s"

definition valid_pick :: "pick \<Rightarrow> bool" where
  "valid_pick p \<longleftrightarrow>
     valid_match (pk_match p) \<and> valid_goal (uc_home (pk_call p)) \<and> valid_goal (uc_away (pk_call p)) \<and>
     length (pk_rivals p) \<le> 5 \<and> list_all valid_rival (pk_rivals p) \<and> valid_fp (pk_fp p) \<and>
     wf_dt (pk_created p) \<and> wf_dt (pk_updated p) \<and> wf_dt (pk_lock_at p) \<and>
     (case pk_status p of
        Draft \<Rightarrow> pk_id p = None \<and> pk_locked_at p = None \<and> pk_sha p = None
      | Locked \<Rightarrow>
          (case pk_id p of None \<Rightarrow> False | Some i \<Rightarrow> pick_id_pattern i) \<and>
          (case pk_locked_at p of None \<Rightarrow> False | Some t \<Rightarrow> wf_dt t) \<and>
          (case pk_sha p of None \<Rightarrow> False | Some s \<Rightarrow> sha_pattern s))"

text \<open>Readers of one JSON type each; \<open>additionalProperties: false\<close> and \<open>required\<close> fix the keys.\<close>

definition rd_str :: "json \<Rightarrow> string option" where
  "rd_str v = (case v of JStr s \<Rightarrow> Some s | _ \<Rightarrow> None)"

definition rd_int :: "json \<Rightarrow> int option" where
  "rd_int v = (case v of JInt i \<Rightarrow> Some i | _ \<Rightarrow> None)"

definition rd_bool :: "json \<Rightarrow> bool option" where
  "rd_bool v = (case v of JBool b \<Rightarrow> Some b | _ \<Rightarrow> None)"

definition rd_opt :: "(json \<Rightarrow> 'a option) \<Rightarrow> json \<Rightarrow> 'a option option" where
  "rd_opt f v = (if v = JNull then Some None else map_option Some (f v))"

definition rd_dt :: "json \<Rightarrow> dt option" where
  "rd_dt v = Option.bind (rd_str v) parse_iso"

fun rd_list :: "(json \<Rightarrow> 'a option) \<Rightarrow> json list \<Rightarrow> 'a list option" where
  "rd_list f [] = Some []"
| "rd_list f (v # vs) =
     (case (f v, rd_list f vs) of (Some x, Some xs) \<Rightarrow> Some (x # xs) | _ \<Rightarrow> None)"

definition rd_match :: "json \<Rightarrow> match_snapshot option" where
  "rd_match v =
     (if \<not> has_keys [''match_id'', ''kickoff_utc'', ''kickoff_time_known'', ''home_team'', ''away_team'',
                     ''home_norm'', ''away_norm'', ''competition''] v then None
      else do {
        i \<leftarrow> rd_str (jget v ''match_id'');
        k \<leftarrow> rd_dt (jget v ''kickoff_utc'');
        b \<leftarrow> rd_bool (jget v ''kickoff_time_known'');
        h \<leftarrow> rd_str (jget v ''home_team'');
        a \<leftarrow> rd_str (jget v ''away_team'');
        hn \<leftarrow> rd_str (jget v ''home_norm'');
        an \<leftarrow> rd_str (jget v ''away_norm'');
        c \<leftarrow> rd_opt rd_str (jget v ''competition'');
        Some \<lparr> ms_match_id = i, ms_kickoff = k, ms_time_known = b, ms_home_team = h,
               ms_away_team = a, ms_home_norm = hn, ms_away_norm = an, ms_competition = c \<rparr>
      })"

definition rd_outcome :: "json \<Rightarrow> outcome option" where
  "rd_outcome v = Option.bind (rd_str v) outcome_of_text"

definition rd_call :: "json \<Rightarrow> user_call option" where
  "rd_call v =
     (if \<not> has_keys [''home_goals'', ''away_goals'', ''outcome''] v then None
      else do {
        h \<leftarrow> rd_int (jget v ''home_goals'');
        a \<leftarrow> rd_int (jget v ''away_goals'');
        oc \<leftarrow> rd_outcome (jget v ''outcome'');
        Some \<lparr> uc_home = h, uc_away = a, uc_outcome = oc \<rparr>
      })"

definition rd_score :: "json \<Rightarrow> (int \<times> int) option" where
  "rd_score v =
     (if \<not> has_keys [''home_goals'', ''away_goals''] v then None
      else do {
        h \<leftarrow> rd_int (jget v ''home_goals'');
        a \<leftarrow> rd_int (jget v ''away_goals'');
        Some (h, a)
      })"

definition rd_rival :: "json \<Rightarrow> rival option" where
  "rd_rival v =
     (if \<not> has_keys [''family'', ''capability'', ''score_pick'', ''outcome_pick''] v then None
      else do {
        f \<leftarrow> rd_str (jget v ''family'');
        ct \<leftarrow> rd_str (jget v ''capability'');
        c \<leftarrow> capability_of_text ct;
        s \<leftarrow> rd_opt rd_score (jget v ''score_pick'');
        oc \<leftarrow> rd_opt rd_outcome (jget v ''outcome_pick'');
        Some \<lparr> rv_family = f, rv_capability = c, rv_score = s, rv_outcome = oc \<rparr>
      })"

definition rd_fp :: "json \<Rightarrow> fingerprint option" where
  "rd_fp v =
     (if \<not> has_keys [''index_fingerprint'', ''analysis_schema_version'', ''information_cutoff_utc''] v then None
      else do {
        i \<leftarrow> rd_str (jget v ''index_fingerprint'');
        s \<leftarrow> rd_str (jget v ''analysis_schema_version'');
        c \<leftarrow> rd_str (jget v ''information_cutoff_utc'');
        Some \<lparr> fp_index = i, fp_schema = s, fp_cutoff = c \<rparr>
      })"

definition rd_status :: "json \<Rightarrow> pick_status option" where
  "rd_status v =
     (if v = JStr ''draft'' then Some Draft else if v = JStr ''locked'' then Some Locked else None)"

definition rd_rivals :: "json \<Rightarrow> rival list option" where
  "rd_rivals v = (case v of JArr vs \<Rightarrow> rd_list rd_rival vs | _ \<Rightarrow> None)"

definition rd_pick :: "json \<Rightarrow> pick option" where
  "rd_pick v =
     (if \<not> has_keys [''schema_version'', ''pick_id'', ''status'', ''match'', ''user_pick'', ''rivals'',
                     ''analysis_fingerprint'', ''created_at_utc'', ''updated_at_utc'', ''lock_at_utc'',
                     ''locked_at_utc'', ''payload_sha256''] v
         \<or> jget v ''schema_version'' \<noteq> JStr pick_schema_version then None
      else do {
        i \<leftarrow> rd_opt rd_str (jget v ''pick_id'');
        st \<leftarrow> rd_status (jget v ''status'');
        m \<leftarrow> rd_match (jget v ''match'');
        c \<leftarrow> rd_call (jget v ''user_pick'');
        rs \<leftarrow> rd_rivals (jget v ''rivals'');
        f \<leftarrow> rd_fp (jget v ''analysis_fingerprint'');
        cr \<leftarrow> rd_dt (jget v ''created_at_utc'');
        up \<leftarrow> rd_dt (jget v ''updated_at_utc'');
        la \<leftarrow> rd_dt (jget v ''lock_at_utc'');
        ld \<leftarrow> rd_opt rd_dt (jget v ''locked_at_utc'');
        sh \<leftarrow> rd_opt rd_str (jget v ''payload_sha256'');
        Some \<lparr> pk_id = i, pk_status = st, pk_match = m, pk_call = c, pk_rivals = rs, pk_fp = f,
               pk_created = cr, pk_updated = up, pk_lock_at = la, pk_locked_at = ld, pk_sha = sh \<rparr>
      })"

text \<open>\<open>validate_user_pick\<close>: the record the JSON holds, if the schema accepts it.\<close>

definition validate_user_pick :: "json \<Rightarrow> pick option" where
  "validate_user_pick v =
     (case rd_pick v of None \<Rightarrow> None | Some p \<Rightarrow> if valid_pick p then Some p else None)"

section \<open>Reading a record back\<close>

lemma wf_jopt [simp]: "wf_json (jopt x)"
  by (simp add: jopt_def split: option.splits)

lemma normalise_jopt [simp]: "normalise (jopt x) = jopt x"
  by (simp add: jopt_def split: option.splits)

lemma wf_match_json [simp]: "wf_json (match_json m)"
  by (simp add: match_json_def dict_ok_def)

lemma wf_call_json [simp]: "wf_json (call_json c)"
  by (simp add: call_json_def dict_ok_def)

lemma wf_score_json [simp]: "wf_json (score_json s)"
  by (simp add: score_json_def dict_ok_def split: option.splits)

lemma wf_rival_json [simp]: "wf_json (rival_json r)"
  by (simp add: rival_json_def dict_ok_def)

lemma wf_fp_json [simp]: "wf_json (fp_json f)"
  by (simp add: fp_json_def dict_ok_def)

lemma wf_pick_json [simp]: "wf_json (pick_json p)"
  by (simp add: pick_json_def dict_ok_def wf_items_iff list_all_iff)

named_theorems rd_simps

lemma rd_simple [rd_simps]:
  "rd_str (JStr s) = Some s" "rd_int (JInt i) = Some i" "rd_bool (JBool b) = Some b"
  by (simp_all add: rd_str_def rd_int_def rd_bool_def)

lemma rd_opt_jopt [rd_simps]: "rd_opt rd_str (jopt x) = Some x"
  by (simp add: rd_opt_def jopt_def rd_simps split: option.splits)

lemma rd_dt_iso [rd_simps]: "wf_dt t \<Longrightarrow> rd_dt (JStr (dt_iso t)) = Some t"
  by (simp add: rd_dt_def rd_simps)

lemma rd_opt_dt [rd_simps]: "pred_option wf_dt t \<Longrightarrow> rd_opt rd_dt (jopt (map_option dt_iso t)) = Some t"
  by (cases t) (simp_all add: rd_opt_def jopt_def rd_simps)

lemma outcome_text_inverse [simp]: "outcome_of_text (outcome_text oc) = Some oc"
  by (cases oc) (simp_all add: outcome_of_text_def outcome_text_def)

lemma capability_text_inverse [simp]: "capability_of_text (capability_text c) = Some c"
  by (cases c) (simp_all add: capability_of_text_def capability_text_def)

lemma rd_outcome_text [rd_simps]:
  "rd_outcome (JStr (outcome_text oc)) = Some oc"
  "rd_opt rd_outcome (jopt (map_option outcome_text x)) = Some x"
  by (simp_all add: rd_outcome_def rd_simps rd_opt_def jopt_def split: option.splits)

lemma rd_status_text [rd_simps]: "rd_status (JStr (status_text st)) = Some st"
  by (cases st) (simp_all add: rd_status_def status_text_def)

text \<open>One lemma per object: its members read through the sorted keys.\<close>

lemma jget_match: "jget (normalise (match_json m)) k = normalise (jget (match_json m) k)"
  using jget_normalise wf_match_json unfolding match_json_def by blast

lemma jget_call: "jget (normalise (call_json c)) k = normalise (jget (call_json c) k)"
  using jget_normalise wf_call_json unfolding call_json_def by blast

lemma jget_rival: "jget (normalise (rival_json r)) k = normalise (jget (rival_json r) k)"
  using jget_normalise wf_rival_json unfolding rival_json_def by blast

lemma jget_fp: "jget (normalise (fp_json f)) k = normalise (jget (fp_json f) k)"
  using jget_normalise wf_fp_json unfolding fp_json_def by blast

lemma jget_pick: "jget (normalise (pick_json p)) k = normalise (jget (pick_json p) k)"
  using jget_normalise wf_pick_json unfolding pick_json_def by blast

lemma rd_match_normalise [rd_simps]: "wf_dt (ms_kickoff m) \<Longrightarrow> rd_match (normalise (match_json m)) = Some m"
  unfolding rd_match_def jget_match
  by (simp add: match_json_def has_keys_normalise has_keysI del: normalise.simps(2))
    (simp add: jget_def obj_fields_def rd_simps)

lemma rd_call_normalise [rd_simps]: "rd_call (normalise (call_json c)) = Some c"
  unfolding rd_call_def jget_call
  by (simp add: call_json_def has_keys_normalise has_keysI del: normalise.simps(2))
    (simp add: jget_def obj_fields_def rd_simps)

lemma rd_score_json [rd_simps]: "rd_opt rd_score (normalise (score_json s)) = Some s"
proof (cases s)
  case None
  then show ?thesis by (simp add: score_json_def rd_opt_def)
next
  case (Some p)
  obtain h a where p: "p = (h, a)" by (cases p)
  let ?v = "JObj [(''home_goals'', JInt h), (''away_goals'', JInt a)]"
  have "wf_json ?v" by (simp add: dict_ok_def)
  then have "jget (normalise ?v) k = normalise (jget ?v k)" for k by (rule jget_normalise)
  then have "rd_score (normalise ?v) = Some (h, a)"
    unfolding rd_score_def has_keys_normalise
    by (simp add: has_keysI del: normalise.simps(2)) (simp add: jget_def obj_fields_def rd_simps)
  then show ?thesis by (simp add: Some p score_json_def rd_opt_def)
qed

lemma rd_rival_normalise [rd_simps]: "rd_rival (normalise (rival_json r)) = Some r"
  unfolding rd_rival_def jget_rival
  by (simp add: rival_json_def has_keys_normalise has_keysI del: normalise.simps(2))
    (simp add: jget_def obj_fields_def rd_simps)

lemma rd_fp_normalise [rd_simps]: "rd_fp (normalise (fp_json f)) = Some f"
  unfolding rd_fp_def jget_fp
  by (simp add: fp_json_def has_keys_normalise has_keysI del: normalise.simps(2))
    (simp add: jget_def obj_fields_def rd_simps)

lemma rd_rivals_normalise [rd_simps]: "rd_rivals (JArr (normalise_items (map rival_json rs))) = Some rs"
proof -
  have "rd_list rd_rival (map (\<lambda>r. normalise (rival_json r)) rs) = Some rs"
    by (induction rs) (simp_all add: rd_simps)
  then show ?thesis by (simp add: rd_rivals_def normalise_items_map comp_def)
qed

definition pick_times_ok :: "pick \<Rightarrow> bool" where
  "pick_times_ok p \<longleftrightarrow>
     wf_dt (ms_kickoff (pk_match p)) \<and> wf_dt (pk_created p) \<and> wf_dt (pk_updated p)
     \<and> wf_dt (pk_lock_at p) \<and> pred_option wf_dt (pk_locked_at p)"

lemma rd_pick_normalise: "pick_times_ok p \<Longrightarrow> rd_pick (normalise (pick_json p)) = Some p"
proof -
  assume "pick_times_ok p"
  note t = this[unfolded pick_times_ok_def]
  show ?thesis
    unfolding rd_pick_def jget_pick
    by (simp add: pick_json_def has_keys_normalise has_keysI del: normalise.simps(2))
      (simp add: jget_def obj_fields_def pick_json_def rd_simps t)
qed

lemma valid_pick_times: "valid_pick p \<Longrightarrow> pick_times_ok p"
  by (auto simp: valid_pick_def pick_times_ok_def valid_match_def split: pick_status.splits option.splits)

lemma validate_pick_json [simp]: "valid_pick p \<Longrightarrow> validate_user_pick (normalise (pick_json p)) = Some p"
  by (simp add: validate_user_pick_def rd_pick_normalise valid_pick_times)

lemma loads_pick: "valid_pick p \<Longrightarrow> Option.bind (loads (dumps (pick_json p))) validate_user_pick = Some p"
  by (simp add: loads_dumps)

section \<open>Reading is faithful\<close>

lemma rd_strD: "rd_str v = Some s \<Longrightarrow> v = JStr s"
  by (auto simp: rd_str_def split: json.splits)

lemma rd_intD: "rd_int v = Some i \<Longrightarrow> v = JInt i"
  by (auto simp: rd_int_def split: json.splits)

lemma rd_boolD: "rd_bool v = Some b \<Longrightarrow> v = JBool b"
  by (auto simp: rd_bool_def split: json.splits)

lemma rd_dtD: "rd_dt v = Some t \<Longrightarrow> v = JStr (dt_iso t)"
  by (auto simp: rd_dt_def bind_eq_Some_conv dest!: rd_strD parse_iso_inverse)

lemma rd_opt_strD: "rd_opt rd_str v = Some x \<Longrightarrow> v = jopt x"
  by (auto simp: rd_opt_def jopt_def split: if_splits dest!: rd_strD)

lemma rd_opt_dtD: "rd_opt rd_dt v = Some x \<Longrightarrow> v = jopt (map_option dt_iso x)"
  by (auto simp: rd_opt_def jopt_def split: if_splits dest!: rd_dtD)

lemma outcome_of_textD: "outcome_of_text s = Some oc \<Longrightarrow> s = outcome_text oc"
  by (auto simp: outcome_of_text_def outcome_text_def split: if_splits)

lemma rd_outcomeD: "rd_outcome v = Some oc \<Longrightarrow> v = JStr (outcome_text oc)"
  by (auto simp: rd_outcome_def bind_eq_Some_conv dest!: rd_strD outcome_of_textD)

lemma rd_opt_outcomeD: "rd_opt rd_outcome v = Some x \<Longrightarrow> v = jopt (map_option outcome_text x)"
  by (auto simp: rd_opt_def jopt_def split: if_splits dest!: rd_outcomeD)

lemma capability_of_textD: "capability_of_text s = Some c \<Longrightarrow> s = capability_text c"
  by (auto simp: capability_of_text_def capability_text_def split: if_splits)

lemma rd_statusD: "rd_status v = Some st \<Longrightarrow> v = JStr (status_text st)"
  by (auto simp: rd_status_def status_text_def split: if_splits)

lemmas rd_inverse = rd_strD rd_intD rd_boolD rd_dtD rd_opt_strD rd_opt_dtD rd_outcomeD
  rd_opt_outcomeD rd_statusD

lemma rd_fpD:
  assumes wf: "wf_json v" and rd: "rd_fp v = Some f"
  shows "normalise v = normalise (fp_json f)"
proof (rule obj_eq_keys[OF wf wf_fp_json])
  let ?ks = "[''index_fingerprint'', ''analysis_schema_version'', ''information_cutoff_utc'']"
  show k: "has_keys ?ks v" using rd by (simp add: rd_fp_def split: if_splits)
  show "has_keys ?ks (fp_json f)" unfolding fp_json_def by (rule has_keysI) simp
  have "jget v ''index_fingerprint'' = JStr (fp_index f)"
    "jget v ''analysis_schema_version'' = JStr (fp_schema f)"
    "jget v ''information_cutoff_utc'' = JStr (fp_cutoff f)"
    using rd k by (auto simp: rd_fp_def bind_eq_Some_conv dest!: rd_inverse)
  then show "list_all (\<lambda>k. normalise (jget v k) = normalise (jget (fp_json f) k)) ?ks"
    by (simp add: fp_json_def jget_obj)
qed

lemma rd_matchD:
  assumes wf: "wf_json v" and rd: "rd_match v = Some m"
  shows "normalise v = normalise (match_json m)"
proof (rule obj_eq_keys[OF wf wf_match_json])
  let ?ks = "[''match_id'', ''kickoff_utc'', ''kickoff_time_known'', ''home_team'',
      ''away_team'', ''home_norm'', ''away_norm'', ''competition'']"
  show k: "has_keys ?ks v" using rd by (simp add: rd_match_def split: if_splits)
  show "has_keys ?ks (match_json m)" unfolding match_json_def by (rule has_keysI) simp
  have "jget v ''match_id'' = JStr (ms_match_id m)" "jget v ''kickoff_utc'' = JStr (dt_iso (ms_kickoff m))"
    "jget v ''kickoff_time_known'' = JBool (ms_time_known m)" "jget v ''home_team'' = JStr (ms_home_team m)"
    "jget v ''away_team'' = JStr (ms_away_team m)" "jget v ''home_norm'' = JStr (ms_home_norm m)"
    "jget v ''away_norm'' = JStr (ms_away_norm m)" "jget v ''competition'' = jopt (ms_competition m)"
    using rd k by (auto simp: rd_match_def bind_eq_Some_conv dest!: rd_inverse)
  then show "list_all (\<lambda>k. normalise (jget v k) = normalise (jget (match_json m) k)) ?ks"
    by (simp add: match_json_def jget_obj)
qed

lemma rd_callD:
  assumes wf: "wf_json v" and rd: "rd_call v = Some c"
  shows "normalise v = normalise (call_json c)"
proof (rule obj_eq_keys[OF wf wf_call_json])
  let ?ks = "[''home_goals'', ''away_goals'', ''outcome'']"
  show k: "has_keys ?ks v" using rd by (simp add: rd_call_def split: if_splits)
  show "has_keys ?ks (call_json c)" unfolding call_json_def by (rule has_keysI) simp
  have "jget v ''home_goals'' = JInt (uc_home c)" "jget v ''away_goals'' = JInt (uc_away c)"
    "jget v ''outcome'' = JStr (outcome_text (uc_outcome c))"
    using rd k by (auto simp: rd_call_def bind_eq_Some_conv dest!: rd_inverse)
  then show "list_all (\<lambda>k. normalise (jget v k) = normalise (jget (call_json c) k)) ?ks"
    by (simp add: call_json_def jget_obj)
qed

lemma rd_opt_scoreD:
  assumes wf: "wf_json v" and rd: "rd_opt rd_score v = Some s"
  shows "normalise v = normalise (score_json s)"
proof (cases "v = JNull")
  case True
  with rd show ?thesis by (simp add: rd_opt_def score_json_def)
next
  case False
  then obtain h a where s: "s = Some (h, a)" "rd_score v = Some (h, a)"
    using rd by (auto simp: rd_opt_def)
  show ?thesis
  proof (rule obj_eq_keys[OF wf wf_score_json])
    let ?ks = "[''home_goals'', ''away_goals'']"
    show k: "has_keys ?ks v" using s by (simp add: rd_score_def split: if_splits)
    show "has_keys ?ks (score_json s)" by (simp add: score_json_def s has_keysI)
    have "jget v ''home_goals'' = JInt h" "jget v ''away_goals'' = JInt a"
      using s k by (auto simp: rd_score_def bind_eq_Some_conv dest!: rd_inverse)
    then show "list_all (\<lambda>k. normalise (jget v k) = normalise (jget (score_json s) k)) ?ks"
      by (simp add: score_json_def jget_obj s)
  qed
qed

lemma rd_rivalD:
  assumes wf: "wf_json v" and rd: "rd_rival v = Some r"
  shows "normalise v = normalise (rival_json r)"
proof (rule obj_eq_keys[OF wf wf_rival_json])
  let ?ks = "[''family'', ''capability'', ''score_pick'', ''outcome_pick'']"
  show k: "has_keys ?ks v" using rd by (simp add: rd_rival_def split: if_splits)
  show "has_keys ?ks (rival_json r)" unfolding rival_json_def by (rule has_keysI) simp
  have "jget v ''family'' = JStr (rv_family r)" "jget v ''capability'' = JStr (capability_text (rv_capability r))"
    "normalise (jget v ''score_pick'') = normalise (score_json (rv_score r))"
    "jget v ''outcome_pick'' = jopt (map_option outcome_text (rv_outcome r))"
    using rd k by (auto simp: rd_rival_def bind_eq_Some_conv
        dest!: rd_inverse capability_of_textD rd_opt_scoreD[OF wf_jget[OF wf]])
  then show "list_all (\<lambda>k. normalise (jget v k) = normalise (jget (rival_json r) k)) ?ks"
    by (simp add: rival_json_def jget_obj)
qed

lemma rd_listD:
  "rd_list rd_rival vs = Some rs \<Longrightarrow> list_all wf_json vs \<Longrightarrow> map normalise vs = map (normalise \<circ> rival_json) rs"
  by (induction vs arbitrary: rs) (auto split: option.splits dest!: rd_rivalD)

lemma rd_rivalsD: "wf_json v \<Longrightarrow> rd_rivals v = Some rs \<Longrightarrow> normalise v = normalise (JArr (map rival_json rs))"
  by (cases v) (auto simp: rd_rivals_def wf_items_iff normalise_items_map dest!: rd_listD)

lemma rd_pickD:
  assumes wf: "wf_json v" and rd: "rd_pick v = Some p"
  shows "normalise v = normalise (pick_json p)"
proof (rule obj_eq_keys[OF wf wf_pick_json])
  let ?ks = "[''schema_version'', ''pick_id'', ''status'', ''match'', ''user_pick'', ''rivals'',
                     ''analysis_fingerprint'', ''created_at_utc'', ''updated_at_utc'', ''lock_at_utc'',
                     ''locked_at_utc'', ''payload_sha256'']"
  show k: "has_keys ?ks v" using rd by (simp add: rd_pick_def split: if_splits)
  show "has_keys ?ks (pick_json p)" unfolding pick_json_def by (rule has_keysI) simp
  have k2: "jget v ''schema_version'' = JStr pick_schema_version" using rd by (simp add: rd_pick_def split: if_splits)
  moreover have "jget v ''pick_id'' = jopt (pk_id p)" "jget v ''status'' = JStr (status_text (pk_status p))"
    "normalise (jget v ''match'') = normalise (match_json (pk_match p))"
    "normalise (jget v ''user_pick'') = normalise (call_json (pk_call p))"
    "normalise (jget v ''rivals'') = normalise (JArr (map rival_json (pk_rivals p)))"
    "normalise (jget v ''analysis_fingerprint'') = normalise (fp_json (pk_fp p))"
    "jget v ''created_at_utc'' = JStr (dt_iso (pk_created p))"
    "jget v ''updated_at_utc'' = JStr (dt_iso (pk_updated p))"
    "jget v ''lock_at_utc'' = JStr (dt_iso (pk_lock_at p))"
    "jget v ''locked_at_utc'' = jopt (map_option dt_iso (pk_locked_at p))"
    "jget v ''payload_sha256'' = jopt (pk_sha p)"
    using rd k k2 by (auto simp: rd_pick_def bind_eq_Some_conv simp del: normalise.simps
        dest!: rd_inverse rd_matchD[OF wf_jget[OF wf]] rd_callD[OF wf_jget[OF wf]]
          rd_rivalsD[OF wf_jget[OF wf]] rd_fpD[OF wf_jget[OF wf]])
  ultimately show "list_all (\<lambda>k. normalise (jget v k) = normalise (jget (pick_json p) k)) ?ks"
    by (simp add: pick_json_def jget_obj)
qed

section \<open>Content addressing and integrity\<close>

definition canonical_pick_bytes :: "json \<Rightarrow> string" where
  "canonical_pick_bytes v = dumps v"

definition pick_id :: "json \<Rightarrow> string" where
  "pick_id payload = ''pk_'' @ take 20 (sha256_hex (canonical_pick_bytes payload))"

definition pick_payload_sha256 :: "json \<Rightarrow> string" where
  "pick_payload_sha256 v = sha256_hex (canonical_pick_bytes (json_pop ''payload_sha256'' v))"

definition stable_pick_payload :: "json \<Rightarrow> json" where
  "stable_pick_payload v = json_pop ''payload_sha256'' (json_pop ''pick_id'' v)"

datatype integrity_error =
  Validation_error | Not_locked | Sha_mismatch | Id_mismatch | Filename_mismatch

definition verify_pick_integrity :: "json \<Rightarrow> string option \<Rightarrow> integrity_error + pick" where
  "verify_pick_integrity v expected_id =
     (case validate_user_pick v of
        None \<Rightarrow> Inl Validation_error
      | Some p \<Rightarrow>
          if pk_status p \<noteq> Locked then Inl Not_locked
          else if pk_sha p \<noteq> Some (pick_payload_sha256 v) then Inl Sha_mismatch
          else (let recomputed_id = pick_id (stable_pick_payload v) in
                if pk_id p \<noteq> Some recomputed_id then Inl Id_mismatch
                else if expected_id \<noteq> None \<and> expected_id \<noteq> Some recomputed_id then Inl Filename_mismatch
                else Inr p))"

lemma verify_pick_InrD:
  "verify_pick_integrity v e = Inr p \<Longrightarrow>
   validate_user_pick v = Some p \<and> pk_status p = Locked \<and> pk_sha p = Some (pick_payload_sha256 v) \<and>
   pk_id p = Some (pick_id (stable_pick_payload v)) \<and>
   (e = None \<or> e = Some (pick_id (stable_pick_payload v)))"
  by (auto simp: verify_pick_integrity_def Let_def split: option.splits if_splits)

section \<open>Outcomes and rivals\<close>

definition outcome_of :: "int \<Rightarrow> int \<Rightarrow> outcome" where
  "outcome_of home_goals away_goals =
     (if home_goals > away_goals then Home else if home_goals < away_goals then Away else Draw)"

type_synonym probs = "outcome \<Rightarrow> rat"

definition modal_outcome :: "probs \<Rightarrow> outcome" where
  "modal_outcome probs = first_max probs Home [Draw, Away]"

text \<open>
  A council model's entry: the probabilities, the matrix's most likely score (each spelling
  of the keys that may be present) and the abstention flag.
\<close>

record likely_score =
  lk_home :: "int option"
  lk_home_goals :: "int option"
  lk_away :: "int option"
  lk_away_goals :: "int option"

record model_entry =
  me_family :: string
  me_probs :: "probs option"
  me_matrix :: "likely_score option"
  me_abstained :: bool

record analysis =
  an_models :: "model_entry list"
  an_index_fingerprint :: "string option"
  an_index_fingerprint' :: "string option"
  an_schema_version :: "string option"
  an_cutoff :: "string option"

text \<open>\<open>likely.get("home", likely.get("home_goals"))\<close>; \<open>int(None)\<close> raises.\<close>

definition first_present :: "int option \<Rightarrow> int option \<Rightarrow> int option" where
  "first_present a b = (case a of Some x \<Rightarrow> Some x | None \<Rightarrow> b)"

text \<open>\<open>str(a or b)\<close>: the empty text counts as absent.\<close>

definition or_text :: "string option \<Rightarrow> string \<Rightarrow> string" where
  "or_text a b = (case a of Some x \<Rightarrow> if x = [] then b else x | None \<Rightarrow> b)"

definition derive_rival :: "model_entry \<Rightarrow> rival option" where
  "derive_rival m =
     (case me_probs m of
        None \<Rightarrow> Some \<lparr> rv_family = me_family m, rv_capability = Abstained, rv_score = None, rv_outcome = None \<rparr>
      | Some probs \<Rightarrow>
          if me_abstained m
          then Some \<lparr> rv_family = me_family m, rv_capability = Abstained, rv_score = None, rv_outcome = None \<rparr>
          else (case me_matrix m of
                  Some lk \<Rightarrow>
                    (case (first_present (lk_home lk) (lk_home_goals lk),
                           first_present (lk_away lk) (lk_away_goals lk)) of
                       (Some h, Some a) \<Rightarrow>
                         Some \<lparr> rv_family = me_family m, rv_capability = Score,
                                rv_score = Some (h, a), rv_outcome = Some (outcome_of h a) \<rparr>
                     | _ \<Rightarrow> None)
                | None \<Rightarrow>
                    Some \<lparr> rv_family = me_family m, rv_capability = Outcome_only, rv_score = None,
                           rv_outcome = Some (modal_outcome probs) \<rparr>))"

fun derive_rivals :: "model_entry list \<Rightarrow> rival list option" where
  "derive_rivals [] = Some []"
| "derive_rivals (m # ms) =
     (if me_family m \<notin> set scored_rival_families then derive_rivals ms
      else (case derive_rival m of
              None \<Rightarrow> None
            | Some r \<Rightarrow> map_option ((#) r) (derive_rivals ms)))"

definition derive_rival_picks :: "analysis \<Rightarrow> (fingerprint \<times> rival list) option" where
  "derive_rival_picks an =
     map_option (\<lambda>rs.
       (\<lparr> fp_index = or_text (an_index_fingerprint an) (or_text (an_index_fingerprint' an) ''unknown''),
          fp_schema = or_text (an_schema_version an) ''unknown'',
          fp_cutoff = or_text (an_cutoff an) ''1970-01-01T00:00:00Z'' \<rparr>, rs))
       (derive_rivals (an_models an))"

section \<open>Scoring\<close>

record points =
  pt_exact :: int
  pt_outcome :: int
  pt_total :: int

definition points_for_call :: "(int \<times> int) option \<Rightarrow> outcome option \<Rightarrow> int \<Rightarrow> int \<Rightarrow> points" where
  "points_for_call score oc result_home result_away =
     (let actual = outcome_of result_home result_away;
          exact = of_bool (score = Some (result_home, result_away)) * 3;
          outcome_points = of_bool (oc = Some actual)
      in \<lparr> pt_exact = exact, pt_outcome = outcome_points, pt_total = exact + outcome_points \<rparr>)"

record scoring =
  so_exact :: int
  so_outcome :: int
  so_bonus :: int
  so_total :: int
  so_rivals :: "(string \<times> points) list"
  so_beat_ai :: bool
  so_best :: int

definition score_pick :: "pick \<Rightarrow> int \<Rightarrow> int \<Rightarrow> scoring" where
  "score_pick p result_home result_away =
     (let call = pk_call p;
          user = points_for_call (Some (uc_home call, uc_away call)) (Some (uc_outcome call))
                   result_home result_away;
          rival_points = map (\<lambda>r. (r, points_for_call (rv_score r) (rv_outcome r) result_home result_away))
                           (pk_rivals p);
          played = map (pt_total \<circ> snd) (filter (\<lambda>(r, _). rv_capability r \<noteq> Abstained) rival_points);
          best = (case played of [] \<Rightarrow> 0 | t # ts \<Rightarrow> fold max ts t);
          beat = (played \<noteq> [] \<and> pt_total user > best);
          bonus = of_bool beat
      in \<lparr> so_exact = pt_exact user, so_outcome = pt_outcome user, so_bonus = bonus,
           so_total = pt_total user + bonus,
           so_rivals = map (\<lambda>(r, q). (rv_family r, q)) rival_points,
           so_beat_ai = beat, so_best = best \<rparr>)"

section \<open>Seasons\<close>

text \<open>The season of a kickoff runs from the first of July.\<close>

definition football_season :: "dt \<Rightarrow> string" where
  "football_season t =
     (let first_year = (if (mon t, dy t) \<ge> (7, 1) then yr t else yr t - 1);
          next_text = nat_str (first_year + 1)
      in nat_str first_year @ ''-'' @ drop (length next_text - 2) next_text)"

datatype pick_view =
    Draft_view pick
  | Locked_view pick
  | Void_view pick
  | Scored_view pick "int \<times> int" scoring

fun view_record :: "pick_view \<Rightarrow> pick" where
  "view_record (Draft_view p) = p"
| "view_record (Locked_view p) = p"
| "view_record (Void_view p) = p"
| "view_record (Scored_view p r sc) = p"

fun view_status :: "pick_view \<Rightarrow> string" where
  "view_status (Draft_view p) = ''draft''"
| "view_status (Locked_view p) = ''locked''"
| "view_status (Void_view p) = ''void''"
| "view_status (Scored_view p r sc) = ''scored''"

definition view_key :: "pick_view \<Rightarrow> dt \<times> string" where
  "view_key v = (ms_kickoff (pk_match (view_record v)), ms_match_id (pk_match (view_record v)))"

definition ordered_views :: "pick_view list \<Rightarrow> pick_view list" where
  "ordered_views views = sort_key view_key views"

type_synonym family_totals = "(string, int \<times> int \<times> int) dict"

record season_acc =
  sa_total :: int
  sa_exact :: int
  sa_outcome :: int
  sa_bonus :: int
  sa_rivals :: family_totals
  sa_series :: "(dt \<times> string \<times> int \<times> (string \<times> int) list) list"
  sa_errors :: "int list"
  sa_best :: nat
  sa_current :: nat

definition season_acc_init :: season_acc where
  "season_acc_init = \<lparr> sa_total = 0, sa_exact = 0, sa_outcome = 0, sa_bonus = 0, sa_rivals = [],
     sa_series = [], sa_errors = [], sa_best = 0, sa_current = 0 \<rparr>"

definition add_rival :: "string \<times> points \<Rightarrow> family_totals \<Rightarrow> family_totals" where
  "add_rival rp d =
     (case rp of (family, q) \<Rightarrow>
        (case (case dict_get d family of None \<Rightarrow> (0, 0, 0) | Some row \<Rightarrow> row) of (t, e, oc) \<Rightarrow>
           dict_set family (t + pt_total q, e + pt_exact q, oc + pt_outcome q) d))"

definition season_step :: "pick \<times> (int \<times> int) \<times> scoring \<Rightarrow> season_acc \<Rightarrow> season_acc" where
  "season_step v acc =
     (case v of (p, (rh, ra), sc) \<Rightarrow>
        let rivals = fold add_rival (so_rivals sc) (sa_rivals acc);
            current = (if so_outcome sc \<ge> 1 then sa_current acc + 1 else 0);
            total = sa_total acc + so_total sc
        in \<lparr> sa_total = total, sa_exact = sa_exact acc + so_exact sc,
             sa_outcome = sa_outcome acc + so_outcome sc, sa_bonus = sa_bonus acc + so_bonus sc,
             sa_rivals = rivals,
             sa_series = sa_series acc @
               [(ms_kickoff (pk_match p), ms_match_id (pk_match p), total,
                 map (\<lambda>(f, t, _). (f, t)) (sort_key fst rivals))],
             sa_errors = sa_errors acc @
               [\<bar>(uc_home (pk_call p) - uc_away (pk_call p)) - (rh - ra)\<bar>],
             sa_best = (if so_outcome sc \<ge> 1 then max (sa_best acc) current else sa_best acc),
             sa_current = current \<rparr>)"

fun scored_of :: "pick_view \<Rightarrow> (pick \<times> (int \<times> int) \<times> scoring) list" where
  "scored_of (Scored_view p r sc) = [(p, r, sc)]"
| "scored_of _ = []"

record season_summary =
  ss_counts :: "(string \<times> nat) list"
  ss_user :: "int \<times> int \<times> int \<times> int"
  ss_rivals :: family_totals
  ss_series :: "(dt \<times> string \<times> int \<times> (string \<times> int) list) list"
  ss_accuracy_exact :: rat
  ss_accuracy_winner :: rat
  ss_streak :: "nat \<times> nat"
  ss_goal_diff_mae :: rat

definition ratio :: "int \<Rightarrow> nat \<Rightarrow> rat" where
  "ratio a n = (if n = 0 then 0 else of_int a / of_nat n)"

definition season_summary :: "pick_view list \<Rightarrow> string option \<Rightarrow> season_summary" where
  "season_summary views season =
     (let filtered = filter (\<lambda>v. case season of None \<Rightarrow> True
                 | Some s \<Rightarrow> football_season (ms_kickoff (pk_match (view_record v))) = s) views;
          ordered = ordered_views filtered;
          scored = concat (map scored_of ordered);
          acc = fold season_step scored season_acc_init;
          n = length scored
      in \<lparr> ss_counts = map (\<lambda>st. (st, length (filter (\<lambda>v. view_status v = st) ordered)))
                         [''draft'', ''locked'', ''scored'', ''void''],
           ss_user = (sa_total acc, sa_exact acc, sa_outcome acc, sa_bonus acc),
           ss_rivals = sort_key fst (sa_rivals acc),
           ss_series = sa_series acc,
           ss_accuracy_exact = ratio (int (length (filter (\<lambda>(_, _, sc). so_exact sc > 0) scored))) n,
           ss_accuracy_winner = ratio (int (length (filter (\<lambda>(_, _, sc). so_outcome sc > 0) scored))) n,
           ss_streak = (sa_current acc, sa_best acc),
           ss_goal_diff_mae = ratio (sum_list (sa_errors acc)) (length (sa_errors acc)) \<rparr>)"

end
