(* ===== verification/Picks_Ledger.thy ===== *)
theory Picks_Ledger
  imports Picks_Core
begin

text \<open>
  \<open>src/server/golavo_server/picks.py\<close>: the pick ledger as a state machine over files.  The
  state holds the contents of \<open>drafts/<match_id>.json\<close>, of the immutable \<open>pk_*.json\<close> files
  (by stem) and the lines of \<open>audit.jsonl\<close>.  The match index may move to another generation
  while an operation runs, so every attempt of an operation takes the frame it sees and the
  answers it gets: whether the snapshot is still current, whether the commit was applied,
  the council's analysis and whether the file system failed.  An operation makes three
  attempts, as the code does.  Raised exceptions are values, returned with the state the
  operation leaves behind.
\<close>

section \<open>State and environment\<close>

record picks_state =
  ps_drafts :: "(string, string) dict"
  ps_locked :: "(string, string) dict"
  ps_audit :: "string list"

datatype exn = Pick_error nat string | Os_error | Value_error | Type_error

record index_row =
  ir_match_id :: string
  ir_kickoff :: "dt option"
  ir_home_team :: string
  ir_away_team :: string
  ir_home_norm :: string
  ir_away_norm :: string
  ir_competition :: "string option"
  ir_source_kind :: string
  ir_is_complete :: bool
  ir_home_score :: int
  ir_away_score :: int

type_synonym frame = "index_row list"

text \<open>
  Where the file system fails, if it does.  \<open>Value_error\<close> is any exception of validation
  (\<open>jsonschema\<close> or \<open>ValueError\<close>) that is not a \<open>PickError\<close>.
\<close>

datatype io = Io_ok | Write_fails | Unlink_fails | Audit_fails

record attempt =
  at_frame :: frame
  at_fingerprint :: string
  at_current :: bool
  at_analysis :: "analysis option"
  at_analysis_current :: bool
  at_commit :: bool
  at_io :: io

definition generation_changed :: exn where
  "generation_changed = Pick_error 409 ''index_generation_changed''"

definition safe_char :: "char \<Rightarrow> bool" where
  "safe_char c \<longleftrightarrow>
     is_digit c \<or> (65 \<le> (of_char c :: nat) \<and> (of_char c :: nat) \<le> 90)
     \<or> (97 \<le> (of_char c :: nat) \<and> (of_char c :: nat) \<le> 122) \<or> c \<in> set ''_.-''"

definition safe_match_id :: "string \<Rightarrow> bool" where
  "safe_match_id s \<longleftrightarrow> s \<noteq> [] \<and> list_all safe_char s"

section \<open>Files\<close>

definition newline :: string where
  "newline = [CHR 0x0A]"

definition file_bytes :: "pick \<Rightarrow> string" where
  "file_bytes p = canonical_pick_bytes (pick_json p) @ newline"

definition payload_digest :: "pick \<Rightarrow> string" where
  "payload_digest p = sha256_hex (canonical_pick_bytes (pick_json p))"

definition append_audit :: "string \<Rightarrow> pick \<Rightarrow> dt \<Rightarrow> picks_state \<Rightarrow> picks_state" where
  "append_audit event p at_utc s =
     (let audit = JObj
        [(''event'', JStr event), (''match_id'', JStr (ms_match_id (pk_match p))),
         (''pick_id'', jopt (pk_id p)), (''at_utc'', JStr (dt_iso at_utc)),
         (''payload_sha256'', JStr (or_text (pk_sha p) (payload_digest p)))]
      in s \<lparr> ps_audit := ps_audit s @ [canonical_pick_bytes audit @ newline] \<rparr>)"

definition load_draft :: "picks_state \<Rightarrow> string \<Rightarrow> exn + pick option" where
  "load_draft s match_id =
     (if \<not> safe_match_id match_id then Inl (Pick_error 404 ''match_not_found'')
      else (case dict_get (ps_drafts s) match_id of
              None \<Rightarrow> Inr None
            | Some b \<Rightarrow>
                (case Option.bind (loads b) validate_user_pick of
                   None \<Rightarrow> Inl (Pick_error 500 ''integrity_error'')
                 | Some p \<Rightarrow> Inr (Some p))))"

definition load_locked :: "string \<Rightarrow> string \<Rightarrow> exn + pick" where
  "load_locked stem b =
     (case loads b of
        None \<Rightarrow> Inl (Pick_error 500 ''integrity_error'')
      | Some v \<Rightarrow>
          (case verify_pick_integrity v (Some stem) of
             Inl _ \<Rightarrow> Inl (Pick_error 500 ''integrity_error'')
           | Inr p \<Rightarrow> Inr p))"

definition locked_paths :: "picks_state \<Rightarrow> (string \<times> string) list" where
  "locked_paths s = sort_key fst (ps_locked s)"

text \<open>
  \<open>_write_draft\<close> through \<open>_atomic_write_bytes\<close>: nothing changes unless the temporary file
  was written and the generation is still the one the operation saw.
\<close>

definition write_draft :: "attempt \<Rightarrow> pick \<Rightarrow> picks_state \<Rightarrow> picks_state \<times> (exn + unit)" where
  "write_draft a p s =
     (if \<not> valid_pick p then (s, Inl Value_error)
      else if \<not> safe_match_id (ms_match_id (pk_match p)) then (s, Inl (Pick_error 404 ''match_not_found''))
      else if at_io a = Write_fails then (s, Inl Os_error)
      else if \<not> at_commit a then (s, Inl generation_changed)
      else (s \<lparr> ps_drafts := dict_set (ms_match_id (pk_match p)) (file_bytes p) (ps_drafts s) \<rparr>, Inr ()))"

definition unlink_draft :: "string \<Rightarrow> picks_state \<Rightarrow> picks_state" where
  "unlink_draft match_id s = s \<lparr> ps_drafts := dict_pop match_id (ps_drafts s) \<rparr>"

text \<open>
  \<open>_write_locked\<close>: refuses to replace another valid pick under the same id; after the
  replacement it removes the draft of \<open>draft_id\<close>, which may itself fail.
\<close>

definition write_locked :: "attempt \<Rightarrow> string \<Rightarrow> pick \<Rightarrow> picks_state \<Rightarrow> picks_state \<times> (exn + unit)" where
  "write_locked a draft_id p s =
     (case verify_pick_integrity (pick_json p) None of
        Inl _ \<Rightarrow> (s, Inl Value_error)
      | Inr _ \<Rightarrow>
          (let stem = (case pk_id p of Some i \<Rightarrow> i | None \<Rightarrow> []);
               data = file_bytes p;
               collision = (case dict_get (ps_locked s) stem of
                              None \<Rightarrow> False
                            | Some existing \<Rightarrow>
                                existing \<noteq> data \<and> (case load_locked stem existing of Inl _ \<Rightarrow> False | Inr _ \<Rightarrow> True))
           in if collision then (s, Inl (Pick_error 409 ''pick_collision''))
              else if at_io a = Write_fails then (s, Inl Os_error)
              else if \<not> at_commit a then (s, Inl generation_changed)
              else (let s1 = s \<lparr> ps_locked := dict_set stem data (ps_locked s) \<rparr>
                    in if \<not> safe_match_id draft_id then (s1, Inl (Pick_error 404 ''match_not_found''))
                       else if at_io a = Unlink_fails then (s1, Inl Os_error)
                       else (unlink_draft draft_id s1, Inr ()))))"

section \<open>The index row of a pick\<close>

definition find_row :: "frame \<Rightarrow> string \<Rightarrow> index_row option" where
  "find_row fr match_id = List.find (\<lambda>r. ir_match_id r = match_id) fr"

type_synonym fixture_key = "string \<times> string \<times> string"

definition fixture_key_from_record :: "pick \<Rightarrow> fixture_key" where
  "fixture_key_from_record p =
     (iso_date (ms_kickoff (pk_match p)), ms_home_norm (pk_match p), ms_away_norm (pk_match p))"

definition fallback_row :: "pick \<Rightarrow> frame \<Rightarrow> index_row option" where
  "fallback_row p fr =
     (case fixture_key_from_record p of (date, home_norm, away_norm) \<Rightarrow>
        let rows = filter (\<lambda>r. map_option iso_date (ir_kickoff r) = Some date
                         \<and> ir_home_norm r = home_norm \<and> ir_away_norm r = away_norm) fr
        in case sort_key ir_match_id rows of [] \<Rightarrow> None | r # _ \<Rightarrow> Some r)"

definition current_row :: "pick \<Rightarrow> frame \<Rightarrow> index_row option" where
  "current_row p fr =
     (case find_row fr (ms_match_id (pk_match p)) of
        Some r \<Rightarrow> Some r | None \<Rightarrow> fallback_row p fr)"

definition row_kickoff :: "index_row \<Rightarrow> exn + dt" where
  "row_kickoff r =
     (case ir_kickoff r of None \<Rightarrow> Inl (Pick_error 422 ''no_kickoff'') | Some t \<Rightarrow> Inr t)"

definition effective_lock :: "pick \<Rightarrow> index_row option \<Rightarrow> exn + dt" where
  "effective_lock p row =
     (case row of
        None \<Rightarrow> Inr (pk_lock_at p)
      | Some r \<Rightarrow> bindE (row_kickoff r) (\<lambda>t. Inr (min (pk_lock_at p) t)))"

definition match_snapshot_of :: "index_row \<Rightarrow> exn + match_snapshot" where
  "match_snapshot_of r =
     bindE (row_kickoff r) (\<lambda>kickoff.
       let is_day_proxy = (ir_source_kind r = ''international'' \<and> ends_with ''T00:00:00Z'' (dt_iso kickoff))
       in Inr \<lparr> ms_match_id = ir_match_id r, ms_kickoff = kickoff, ms_time_known = \<not> is_day_proxy,
                ms_home_team = ir_home_team r, ms_away_team = ir_away_team r,
                ms_home_norm = ir_home_norm r, ms_away_norm = ir_away_norm r,
                ms_competition = ir_competition r \<rparr>)"

section \<open>Finding a locked pick\<close>

text \<open>\<open>str(raw)\<close> of a scalar; an object or array has no text an id or norm can equal.\<close>

definition scalar_text :: "json \<Rightarrow> string option" where
  "scalar_text v =
     (case v of
        JStr s \<Rightarrow> Some s | JNull \<Rightarrow> Some ''None''
      | JBool b \<Rightarrow> Some (if b then ''True'' else ''False'')
      | JInt i \<Rightarrow> Some (print_int i) | JFloat n \<Rightarrow> Some (print_float n) | _ \<Rightarrow> None)"

definition raw_get_text :: "json \<Rightarrow> string \<Rightarrow> string option" where
  "raw_get_text m k = (case dict_get (obj_fields m) k of None \<Rightarrow> Some [] | Some v \<Rightarrow> scalar_text v)"

text \<open>
  A locked file that fails verification is peeked at just far enough to see whether it is
  the requested pick.
\<close>

definition corrupt_is_requested :: "string \<Rightarrow> fixture_key option \<Rightarrow> string \<Rightarrow> bool" where
  "corrupt_is_requested match_id row_key b =
     (case loads b of
        None \<Rightarrow> False
      | Some raw \<Rightarrow>
          is_obj raw \<and>
          (let m = (case dict_get (obj_fields raw) ''match'' of None \<Rightarrow> JObj [] | Some v \<Rightarrow> v)
           in is_obj m \<and>
              (dict_get (obj_fields m) ''match_id'' = Some (JStr match_id) \<or>
               (case row_key of
                  None \<Rightarrow> False
                | Some (d, h, a) \<Rightarrow>
                    map_option (take 10) (raw_get_text m ''kickoff_utc'') = Some d
                    \<and> raw_get_text m ''home_norm'' = Some h \<and> raw_get_text m ''away_norm'' = Some a))))"

fun scan_locked :: "string \<Rightarrow> fixture_key option \<Rightarrow> (string \<times> string) list \<Rightarrow> (string \<times> pick) option \<Rightarrow>
    exn + (string \<times> pick) option" where
  "scan_locked match_id row_key [] fallback = Inr fallback"
| "scan_locked match_id row_key ((stem, b) # paths) fallback =
     (case load_locked stem b of
        Inl e \<Rightarrow> if corrupt_is_requested match_id row_key b then Inl e
                 else scan_locked match_id row_key paths fallback
      | Inr p \<Rightarrow>
          if ms_match_id (pk_match p) = match_id then Inr (Some (stem, p))
          else if row_key = Some (fixture_key_from_record p)
          then scan_locked match_id row_key paths (Some (stem, p))
          else scan_locked match_id row_key paths fallback)"

definition find_locked :: "picks_state \<Rightarrow> string \<Rightarrow> index_row option \<Rightarrow> exn + (string \<times> pick) option" where
  "find_locked s match_id row =
     bindE (case row of
              None \<Rightarrow> Inr None
            | Some r \<Rightarrow> bindE (row_kickoff r) (\<lambda>t. Inr (Some (iso_date t, ir_home_norm r, ir_away_norm r))))
       (\<lambda>row_key. scan_locked match_id row_key (locked_paths s) None)"

section \<open>Locking\<close>

definition sealed_record :: "pick \<Rightarrow> dt \<Rightarrow> pick option" where
  "sealed_record draft lock_at =
     (let record = draft \<lparr> pk_status := Locked, pk_lock_at := lock_at, pk_locked_at := Some lock_at,
                           pk_updated := lock_at \<rparr>;
          record1 = record \<lparr> pk_id := Some (pick_id (stable_pick_payload (pick_json record))) \<rparr>;
          record2 = record1 \<lparr> pk_sha := Some (pick_payload_sha256 (pick_json record1)) \<rparr>
      in if valid_pick record2 then Some record2 else None)"

definition freeze :: "attempt \<Rightarrow> pick \<Rightarrow> index_row option \<Rightarrow> bool \<Rightarrow> picks_state \<Rightarrow> picks_state \<times> (exn + pick)" where
  "freeze a draft row virtual_on_error s =
     (case effective_lock draft row of
        Inl e \<Rightarrow> (s, Inl e)
      | Inr lock_at \<Rightarrow>
          (case sealed_record draft lock_at of
             None \<Rightarrow> (s, Inl Value_error)
           | Some record \<Rightarrow>
               (case write_locked a (ms_match_id (pk_match draft)) record s of
                  (s1, Inl e) \<Rightarrow>
                    if e = Os_error \<and> virtual_on_error then (s1, Inr record) else (s1, Inl e)
                | (s1, Inr _) \<Rightarrow>
                    if at_io a = Audit_fails
                    then (if virtual_on_error then (s1, Inr record) else (s1, Inl Os_error))
                    else (append_audit ''pick_locked'' record lock_at s1, Inr record))))"

definition view_of :: "pick \<Rightarrow> index_row option \<Rightarrow> pick_view" where
  "view_of p row =
     (if pk_status p = Draft then Draft_view p
      else (case row of
              None \<Rightarrow> Void_view p
            | Some r \<Rightarrow>
                if \<not> ir_is_complete r then Locked_view p
                else Scored_view p (ir_home_score r, ir_away_score r)
                       (score_pick p (ir_home_score r) (ir_away_score r))))"

definition validate_goals :: "json \<Rightarrow> json \<Rightarrow> exn + (int \<times> int)" where
  "validate_goals home away =
     (case (home, away) of
        (JInt h, JInt a) \<Rightarrow>
          if 0 \<le> h \<and> h \<le> 20 \<and> 0 \<le> a \<and> a \<le> 20 then Inr (h, a) else Inl (Pick_error 422 ''invalid_score'')
      | _ \<Rightarrow> Inl (Pick_error 422 ''invalid_score''))"

definition analysis_snapshot :: "attempt \<Rightarrow> exn + (fingerprint \<times> rival list)" where
  "analysis_snapshot a =
     (if \<not> at_analysis_current a then Inl generation_changed
      else (case at_analysis a of
              None \<Rightarrow> Inl (Pick_error 503 ''analysis_unavailable'')
            | Some an \<Rightarrow>
                (case derive_rival_picks (an \<lparr> an_index_fingerprint := Some (at_fingerprint a) \<rparr>) of
                   None \<Rightarrow> Inl Type_error
                 | Some (fp, rivals) \<Rightarrow>
                     if rivals = [] then Inl (Pick_error 503 ''analysis_unavailable'')
                     else Inr (fp, rivals))))"

section \<open>Operations\<close>

text \<open>One attempt either asks for another one or stops with a result.\<close>

datatype 'a step_result = Retry picks_state | Stop picks_state "exn + 'a"

fun attempts :: "(attempt \<Rightarrow> picks_state \<Rightarrow> 'a step_result) \<Rightarrow> attempt list \<Rightarrow> picks_state \<Rightarrow>
    picks_state \<times> (exn + 'a)" where
  "attempts f [] s = (s, Inl generation_changed)"
| "attempts f (a # as) s =
     (case f a s of Retry s1 \<Rightarrow> attempts f as s1 | Stop s1 r \<Rightarrow> (s1, r))"

text \<open>
  The common \<open>except PickError\<close>: a moved generation asks for another attempt, any other
  exception propagates.
\<close>

definition retry_or :: "(picks_state \<Rightarrow> 'b \<Rightarrow> 'a step_result) \<Rightarrow> picks_state \<times> (exn + 'b) \<Rightarrow> 'a step_result" where
  "retry_or ok r =
     (case r of
        (s1, Inl e) \<Rightarrow> if e = generation_changed then Retry s1 else Stop s1 (Inl e)
      | (s1, Inr x) \<Rightarrow> ok s1 x)"

definition get_pick_once :: "string \<Rightarrow> dt \<Rightarrow> attempt \<Rightarrow> picks_state \<Rightarrow> pick_view option step_result" where
  "get_pick_once match_id now a s =
     (case load_draft s match_id of
        Inl e \<Rightarrow> Stop s (Inl e)
      | Inr draft \<Rightarrow>
          let request_row = find_row (at_frame a) match_id;
              row = (case draft of None \<Rightarrow> None | Some d \<Rightarrow> current_row d (at_frame a))
          in (case find_locked s match_id request_row of
                Inl e \<Rightarrow> Stop s (Inl e)
              | Inr (Some (path, p)) \<Rightarrow>
                  (let s1 = unlink_draft match_id s in
                   if at_current a then Stop s1 (Inr (Some (view_of p (current_row p (at_frame a)))))
                   else Retry s1)
              | Inr None \<Rightarrow>
                  (case draft of
                     None \<Rightarrow> if at_current a then Stop s (Inr None) else Retry s
                   | Some d \<Rightarrow>
                       (case effective_lock d row of
                          Inl e \<Rightarrow> Stop s (Inl e)
                        | Inr lock_at \<Rightarrow>
                            if now \<ge> lock_at
                            then retry_or (\<lambda>s1 p. Stop s1 (Inr (Some (view_of p row)))) (freeze a d row True s)
                            else if at_current a then Stop s (Inr (Some (view_of d row))) else Retry s))))"

definition save_pick_once :: "string \<Rightarrow> int \<Rightarrow> int \<Rightarrow> dt \<Rightarrow> attempt \<Rightarrow> picks_state \<Rightarrow> pick_view step_result" where
  "save_pick_once match_id home away now a s =
     (case find_row (at_frame a) match_id of
        None \<Rightarrow> if at_current a then Stop s (Inl (Pick_error 404 ''match_not_found'')) else Retry s
      | Some r \<Rightarrow>
          if ir_is_complete r
          then (if at_current a then Stop s (Inl (Pick_error 422 ''fixture_complete'')) else Retry s)
          else (case find_locked s match_id (Some r) of
             Inl e \<Rightarrow> Stop s (Inl e)
           | Inr (Some _) \<Rightarrow> Stop s (Inl (Pick_error 409 ''pick_locked''))
           | Inr None \<Rightarrow>
               (case load_draft s match_id of
                  Inl e \<Rightarrow> Stop s (Inl e)
                | Inr existing \<Rightarrow>
                    (case row_kickoff r of
                       Inl e \<Rightarrow> Stop s (Inl e)
                     | Inr current_lock \<Rightarrow>
                         let lock_at = (case existing of
                               None \<Rightarrow> current_lock | Some d \<Rightarrow> min (pk_lock_at d) current_lock)
                         in if now \<ge> lock_at
                            then (case existing of
                                    None \<Rightarrow> Stop s (Inl (Pick_error 409 ''pick_locked''))
                                  | Some d \<Rightarrow>
                                      retry_or (\<lambda>s1 _. Stop s1 (Inl (Pick_error 409 ''pick_locked'')))
                                        (freeze a d (Some r) True s))
                            else retry_or (\<lambda>s (fp, rivals).
                                      (case (case existing of
                                               Some d \<Rightarrow> Inr (pk_match d) | None \<Rightarrow> match_snapshot_of r) of
                                         Inl e \<Rightarrow> Stop s (Inl e)
                                       | Inr m \<Rightarrow>
                                           let p = \<lparr> pk_id = None, pk_status = Draft, pk_match = m,
                                                     pk_call = \<lparr> uc_home = home, uc_away = away,
                                                                 uc_outcome = outcome_of home away \<rparr>,
                                                     pk_rivals = rivals, pk_fp = fp,
                                                     pk_created = (case existing of Some d \<Rightarrow> pk_created d | None \<Rightarrow> now),
                                                     pk_updated = now, pk_lock_at = lock_at,
                                                     pk_locked_at = None, pk_sha = None \<rparr>
                                           in retry_or (\<lambda>s1 _.
                                                   if at_io a = Audit_fails then Stop s1 (Inl Os_error)
                                                   else Stop (append_audit ''pick_saved'' p now s1)
                                                          (Inr (view_of p (Some r))))
                                                (write_draft a p s)))
                                   (s, analysis_snapshot a)))))"

definition delete_pick_once :: "string \<Rightarrow> dt \<Rightarrow> attempt \<Rightarrow> picks_state \<Rightarrow> bool step_result" where
  "delete_pick_once match_id now a s =
     (case load_draft s match_id of
        Inl e \<Rightarrow> Stop s (Inl e)
      | Inr draft \<Rightarrow>
          let row = (case draft of None \<Rightarrow> None | Some d \<Rightarrow> current_row d (at_frame a))
          in (case find_locked s match_id row of
                Inl e \<Rightarrow> Stop s (Inl e)
              | Inr (Some _) \<Rightarrow> Stop s (Inl (Pick_error 409 ''pick_locked''))
              | Inr None \<Rightarrow>
                  (case draft of
                     None \<Rightarrow> if at_current a then Stop s (Inr False) else Retry s
                   | Some d \<Rightarrow>
                       (case effective_lock d row of
                          Inl e \<Rightarrow> Stop s (Inl e)
                        | Inr lock_at \<Rightarrow>
                            if now \<ge> lock_at
                            then retry_or (\<lambda>s1 _. Stop s1 (Inl (Pick_error 409 ''pick_locked''))) (freeze a d row True s)
                            else if \<not> at_commit a then Retry s
                            else if at_io a = Unlink_fails then Stop s (Inl Os_error)
                            else (let s1 = unlink_draft match_id s in
                                  if at_io a = Audit_fails then Stop s1 (Inl Os_error)
                                  else Stop (append_audit ''pick_deleted'' d now s1) (Inr True))))))"

text \<open>\<open>for _attempt in range(3)\<close>.\<close>

definition three :: "(nat \<Rightarrow> attempt) \<Rightarrow> attempt list" where
  "three env = map env [0..<3]"

definition get_pick :: "string \<Rightarrow> dt \<Rightarrow> (nat \<Rightarrow> attempt) \<Rightarrow> picks_state \<Rightarrow>
    picks_state \<times> (exn + pick_view option)" where
  "get_pick match_id now env s = attempts (get_pick_once match_id now) (three env) s"

definition save_pick :: "string \<Rightarrow> json \<Rightarrow> json \<Rightarrow> dt \<Rightarrow> (nat \<Rightarrow> attempt) \<Rightarrow> picks_state \<Rightarrow>
    picks_state \<times> (exn + pick_view)" where
  "save_pick match_id home away now env s =
     (case validate_goals home away of
        Inl e \<Rightarrow> (s, Inl e)
      | Inr (h, a) \<Rightarrow> attempts (save_pick_once match_id h a now) (three env) s)"

definition delete_pick :: "string \<Rightarrow> dt \<Rightarrow> (nat \<Rightarrow> attempt) \<Rightarrow> picks_state \<Rightarrow> picks_state \<times> (exn + bool)" where
  "delete_pick match_id now env s = attempts (delete_pick_once match_id now) (three env) s"

section \<open>Lists\<close>

definition all_match_ids :: "picks_state \<Rightarrow> string list" where
  "all_match_ids s =
     sort (remdups
       (map fst (ps_drafts s) @
        concat (map (\<lambda>(stem, b). case load_locked stem b of Inl _ \<Rightarrow> [] | Inr p \<Rightarrow> [ms_match_id (pk_match p)])
          (locked_paths s))))"

fun collect_views :: "(string \<Rightarrow> nat \<Rightarrow> attempt) \<Rightarrow> dt \<Rightarrow> string option \<Rightarrow> string option \<Rightarrow> string list \<Rightarrow>
    picks_state \<Rightarrow> picks_state \<times> (exn + pick_view list)" where
  "collect_views env now status season [] s = (s, Inr [])"
| "collect_views env now status season (i # is) s =
     (case get_pick i now (env i) s of
        (s1, Inl e) \<Rightarrow>
          if e = Pick_error 500 ''integrity_error'' then collect_views env now status season is s1
          else (s1, Inl e)
      | (s1, Inr v) \<Rightarrow>
          (case collect_views env now status season is s1 of
             (s2, Inl e) \<Rightarrow> (s2, Inl e)
           | (s2, Inr vs) \<Rightarrow>
               (case v of
                  None \<Rightarrow> (s2, Inr vs)
                | Some w \<Rightarrow>
                    if (status \<noteq> None \<and> status \<noteq> Some (view_status w))
                       \<or> (season \<noteq> None \<and> season \<noteq> Some (football_season (ms_kickoff (pk_match (view_record w)))))
                    then (s2, Inr vs) else (s2, Inr (w # vs)))))"

definition list_picks :: "(string \<Rightarrow> nat \<Rightarrow> attempt) \<Rightarrow> dt \<Rightarrow> string option \<Rightarrow> string option \<Rightarrow> int \<Rightarrow> int \<Rightarrow>
    picks_state \<Rightarrow> picks_state \<times> (exn + pick_view list \<times> nat)" where
  "list_picks env now status season limit offset s =
     (if status \<notin> {None, Some ''draft'', Some ''locked'', Some ''scored'', Some ''void''}
      then (s, Inl (Pick_error 422 ''invalid_status''))
      else if limit < 1 \<or> limit > 500 \<or> offset < 0 then (s, Inl (Pick_error 422 ''invalid_pagination''))
      else (case collect_views env now status season (all_match_ids s) s of
              (s1, Inl e) \<Rightarrow> (s1, Inl e)
            | (s1, Inr vs) \<Rightarrow>
                let sorted = rev (sort_key view_key (rev vs))
                in (s1, Inr (py_slice (nat offset) (nat (offset + limit)) sorted, length sorted))))"

definition picks_summary :: "(string \<Rightarrow> nat \<Rightarrow> attempt) \<Rightarrow> dt \<Rightarrow> string option \<Rightarrow> picks_state \<Rightarrow>
    picks_state \<times> (exn + season_summary)" where
  "picks_summary env now season s =
     (case list_picks env now None None 500 0 s of
        (s1, Inl e) \<Rightarrow> (s1, Inl e)
      | (s1, Inr (items, _)) \<Rightarrow> (s1, Inr (season_summary items season)))"

section \<open>Reading does not see the order of keys\<close>

lemma rd_normalise [simp]:
  "rd_str (normalise v) = rd_str v" "rd_int (normalise v) = rd_int v" "rd_bool (normalise v) = rd_bool v"
  "rd_dt (normalise v) = rd_dt v" "rd_outcome (normalise v) = rd_outcome v"
  "normalise v = JNull \<longleftrightarrow> v = JNull" "is_obj (normalise v) = is_obj v"
  by (cases v; simp add: rd_str_def rd_int_def rd_bool_def rd_dt_def rd_outcome_def is_obj_def)+

lemma rd_status_norm [simp]: "rd_status (normalise v) = rd_status v"
  by (cases v) (simp_all add: rd_status_def)

lemma rd_opt_normalise: "(f (normalise v) = f v) \<Longrightarrow> rd_opt f (normalise v) = rd_opt f v"
  by (simp add: rd_opt_def)

lemma has_keys_norm [simp]: "has_keys ks (normalise v) = has_keys ks v"
proof (cases v)
  case (JObj kvs)
  then show ?thesis by (simp only: has_keys_normalise)
qed (simp_all add: has_keys_def is_obj_def)

lemma jget_norm: "wf_json v \<Longrightarrow> is_obj v \<Longrightarrow> jget (normalise v) k = normalise (jget v k)"
  by (cases v) (simp_all add: jget_normalise is_obj_def del: normalise.simps)

lemma has_keys_obj: "has_keys ks v \<Longrightarrow> is_obj v"
  by (simp add: has_keys_def)

lemma rd_score_norm [simp]: "wf_json v \<Longrightarrow> rd_score (normalise v) = rd_score v"
  using has_keys_obj by (auto simp: rd_score_def jget_norm)

lemma rd_match_norm [simp]: "wf_json v \<Longrightarrow> rd_match (normalise v) = rd_match v"
  using has_keys_obj by (auto simp: rd_match_def jget_norm rd_opt_normalise)

lemma rd_call_norm [simp]: "wf_json v \<Longrightarrow> rd_call (normalise v) = rd_call v"
  using has_keys_obj by (auto simp: rd_call_def jget_norm)

lemma rd_rival_norm [simp]: "wf_json v \<Longrightarrow> rd_rival (normalise v) = rd_rival v"
  using has_keys_obj by (auto simp: rd_rival_def jget_norm rd_opt_normalise wf_jget)

lemma rd_fp_norm [simp]: "wf_json v \<Longrightarrow> rd_fp (normalise v) = rd_fp v"
  using has_keys_obj by (auto simp: rd_fp_def jget_norm)

lemma rd_rivals_norm [simp]: "wf_json v \<Longrightarrow> rd_rivals (normalise v) = rd_rivals v"
proof (cases v)
  case (JArr vs)
  assume "wf_json v"
  then have "list_all wf_json vs" by (simp add: JArr wf_items_iff)
  then have "rd_list rd_rival (map normalise vs) = rd_list rd_rival vs" by (induction vs) simp_all
  then show ?thesis by (simp add: JArr rd_rivals_def normalise_items_map)
qed (simp_all add: rd_rivals_def)

lemma rd_pick_norm [simp]: "wf_json v \<Longrightarrow> rd_pick (normalise v) = rd_pick v"
proof -
  assume wf: "wf_json v"
  have "jget (normalise v) ''schema_version'' = JStr pick_schema_version \<longleftrightarrow>
        jget v ''schema_version'' = JStr pick_schema_version" if "is_obj v"
    using that wf by (cases "jget v ''schema_version''") (simp_all add: jget_norm)
  then show ?thesis
    using wf has_keys_obj unfolding rd_pick_def
    by (auto simp: jget_norm rd_opt_normalise wf_jget)
qed

lemma validate_norm [simp]: "wf_json v \<Longrightarrow> validate_user_pick (normalise v) = validate_user_pick v"
  by (simp add: validate_user_pick_def)

lemma validate_pick_json_raw [simp]: "valid_pick p \<Longrightarrow> validate_user_pick (pick_json p) = Some p"
  using validate_pick_json[of p] validate_norm[OF wf_pick_json, of p] by simp

lemma digests_norm [simp]:
  "pick_payload_sha256 (normalise v) = pick_payload_sha256 v"
  "canonical_pick_bytes (stable_pick_payload (normalise v)) = canonical_pick_bytes (stable_pick_payload v)"
  by (simp_all add: pick_payload_sha256_def canonical_pick_bytes_def stable_pick_payload_def normalise_pop[symmetric])

lemma pick_id_norm [simp]: "pick_id (stable_pick_payload (normalise v)) = pick_id (stable_pick_payload v)"
  by (simp add: pick_id_def)

lemma verify_norm: "wf_json v \<Longrightarrow> verify_pick_integrity (normalise v) e = verify_pick_integrity v e"
  by (cases "validate_user_pick v") (simp_all add: verify_pick_integrity_def)

section \<open>Sealed records\<close>

lemma sealed_recordD:
  assumes "sealed_record d t = Some r"
  shows "valid_pick r \<and> pk_status r = Locked \<and> pk_lock_at r = t \<and> pk_locked_at r = Some t \<and> pk_updated r = t
    \<and> pk_call r = pk_call d \<and> pk_rivals r = pk_rivals d \<and> pk_fp r = pk_fp d \<and> pk_match r = pk_match d
    \<and> pk_created r = pk_created d
    \<and> pk_id r = Some (pick_id (stable_pick_payload (pick_json r)))
    \<and> pk_sha r = Some (pick_payload_sha256 (pick_json r))"
proof -
  define r0 where "r0 = d \<lparr> pk_status := Locked, pk_lock_at := t, pk_locked_at := Some t, pk_updated := t \<rparr>"
  define i where "i = pick_id (stable_pick_payload (pick_json r0))"
  define r1 where "r1 = r0 \<lparr> pk_id := Some i \<rparr>"
  have r: "r = r1 \<lparr> pk_sha := Some (pick_payload_sha256 (pick_json r1)) \<rparr>" "valid_pick r"
    using assms by (auto simp: sealed_record_def Let_def r0_def r1_def i_def split: if_splits)
  have "stable_pick_payload (pick_json r) = stable_pick_payload (pick_json r0)"
    by (simp add: r(1) r1_def stable_pick_payload_def pick_json_def json_pop_def)
  then have "pk_id r = Some (pick_id (stable_pick_payload (pick_json r)))" by (simp add: r(1) r1_def i_def)
  moreover have "pick_payload_sha256 (pick_json r) = pick_payload_sha256 (pick_json r1)"
    by (simp add: r(1) pick_payload_sha256_def pick_json_def json_pop_def)
  then have "pk_sha r = Some (pick_payload_sha256 (pick_json r))" by (simp add: r(1))
  ultimately show ?thesis using r by (simp add: r1_def r0_def)
qed

lemma sealed_verifies:
  "sealed_record d t = Some r \<Longrightarrow> e = None \<or> e = pk_id r \<Longrightarrow> verify_pick_integrity (pick_json r) e = Inr r"
  using sealed_recordD[of d t r] by (auto simp: verify_pick_integrity_def Let_def)

lemma loads_file_bytes: "loads (file_bytes p) = Some (normalise (pick_json p))"
  unfolding file_bytes_def canonical_pick_bytes_def
  by (rule loads_dumps_ws) (simp_all add: newline_def is_ws_def)

lemma load_locked_sealed: "sealed_record d t = Some r \<Longrightarrow> pk_id r = Some i \<Longrightarrow> load_locked i (file_bytes r) = Inr r"
  by (simp add: load_locked_def loads_file_bytes verify_norm sealed_verifies)

lemma sealed_record_valid:
  assumes "valid_pick d" "wf_dt t"
  shows "\<exists>r. sealed_record d t = Some r"
proof -
  have "pick_id_pattern (pick_id v)" for v
    using sha256_hex_hex by (auto simp: pick_id_pattern_def pick_id_def list_all_iff dest: in_set_takeD)
  moreover have "sha_pattern (pick_payload_sha256 v)" for v
    using sha256_hex_hex by (simp add: sha_pattern_def pick_payload_sha256_def)
  ultimately show ?thesis
    using assms by (simp add: sealed_record_def Let_def valid_pick_def)
qed

section \<open>What each primitive keeps\<close>

definition picks_ok :: "picks_state \<Rightarrow> bool" where
  "picks_ok s \<longleftrightarrow> dict_ok (ps_drafts s) \<and> dict_ok (ps_locked s)"

text \<open>Every locked file that verifies is still there with the same bytes.\<close>

definition keeps_locked :: "picks_state \<Rightarrow> picks_state \<Rightarrow> bool" where
  "keeps_locked s s' \<longleftrightarrow>
     (\<forall>stem b p. dict_get (ps_locked s) stem = Some b \<and> load_locked stem b = Inr p \<longrightarrow>
        dict_get (ps_locked s') stem = Some b)"

lemma keeps_locked_refl [simp, intro]: "keeps_locked s s"
  by (simp add: keeps_locked_def)

lemma keeps_locked_trans: "keeps_locked r s \<Longrightarrow> keeps_locked s t \<Longrightarrow> keeps_locked r t"
  by (auto simp: keeps_locked_def)

lemma keeps_locked_same: "ps_locked s' = ps_locked s \<Longrightarrow> keeps_locked s s'"
  by (simp add: keeps_locked_def)

lemma locked_unchanged [simp]:
  "ps_locked (append_audit ev p t s) = ps_locked s" "ps_locked (unlink_draft i s) = ps_locked s"
  "ps_drafts (append_audit ev p t s) = ps_drafts s" "ps_locked (fst (write_draft a p s)) = ps_locked s"
  by (simp_all add: append_audit_def unlink_draft_def write_draft_def Let_def)

lemma picks_ok_simps [simp]:
  "picks_ok (append_audit ev p t s) = picks_ok s" "picks_ok s \<Longrightarrow> picks_ok (unlink_draft i s)"
  "picks_ok s \<Longrightarrow> picks_ok (fst (write_draft a p s))"
  by (simp_all add: picks_ok_def append_audit_def unlink_draft_def write_draft_def Let_def)

lemma write_locked_keeps: "keeps_locked s (fst (write_locked a i p s))"
  by (auto simp: write_locked_def keeps_locked_def Let_def unlink_draft_def
      split: sum.splits option.splits if_splits)

lemma write_locked_ok: "picks_ok s \<Longrightarrow> picks_ok (fst (write_locked a i p s))"
  by (auto simp: write_locked_def picks_ok_def Let_def unlink_draft_def
      split: sum.splits option.splits if_splits)

text \<open>A refused write changes nothing.\<close>

lemma write_locked_changed: "snd (write_locked a i p s) = Inl generation_changed \<Longrightarrow> fst (write_locked a i p s) = s"
  by (auto simp: write_locked_def Let_def generation_changed_def split: sum.splits option.splits if_splits)

lemma write_draft_changed: "snd (write_draft a p s) = Inl generation_changed \<Longrightarrow> fst (write_draft a p s) = s"
  by (auto simp: write_draft_def generation_changed_def split: if_splits)

lemma freeze_cases:
  "(\<exists>e. freeze a d row v s = (s, Inl e)) \<or>
   (\<exists>lock_at r. effective_lock d row = Inr lock_at \<and> sealed_record d lock_at = Some r \<and>
      (fst (freeze a d row v s) = fst (write_locked a (ms_match_id (pk_match d)) r s) \<or>
       fst (freeze a d row v s) = append_audit ''pick_locked'' r lock_at (fst (write_locked a (ms_match_id (pk_match d)) r s))) \<and>
      (snd (freeze a d row v s) = Inr r \<or> (\<exists>e. snd (freeze a d row v s) = Inl e \<and>
          fst (freeze a d row v s) = fst (write_locked a (ms_match_id (pk_match d)) r s) \<and>
          (snd (write_locked a (ms_match_id (pk_match d)) r s) = Inl e \<or> e = Os_error))))"
  (is "?err \<or> ?write")
proof (cases "effective_lock d row")
  case (Inl e)
  then show ?thesis by (simp add: freeze_def)
next
  case lock: (Inr lock_at)
  show ?thesis
  proof (cases "sealed_record d lock_at")
    case None
    then show ?thesis using lock by (simp add: freeze_def)
  next
    case (Some r)
    then show ?thesis
      using lock
      by (cases "write_locked a (ms_match_id (pk_match d)) r s") (auto simp: freeze_def split: sum.splits if_splits)
  qed
qed

lemma freeze_keeps: "keeps_locked s (fst (freeze a d row v s))"
proof -
  have "keeps_locked s (fst (write_locked a (ms_match_id (pk_match d)) r s))" for r by (rule write_locked_keeps)
  then show ?thesis using freeze_cases[of a d row v s] by (auto simp: keeps_locked_def)
qed

lemma freeze_ok: "picks_ok s \<Longrightarrow> picks_ok (fst (freeze a d row v s))"
  using freeze_cases[of a d row v s] write_locked_ok by auto

lemma freeze_changed:
  "snd (freeze a d row v s) = Inl generation_changed \<Longrightarrow> fst (freeze a d row v s) = s"
  using freeze_cases[of a d row v s] write_locked_changed by (auto simp: generation_changed_def)

lemma freeze_InrD:
  "freeze a d row v s = (s', Inr r) \<Longrightarrow> \<exists>lock_at. effective_lock d row = Inr lock_at \<and> sealed_record d lock_at = Some r"
  using freeze_cases[of a d row v s] by auto

section \<open>Operations keep the locked picks\<close>

fun result_state :: "'a step_result \<Rightarrow> picks_state" where
  "result_state (Retry s) = s"
| "result_state (Stop s r) = s"

text \<open>A good change keeps the locked picks and the well-formed state.\<close>

definition good :: "picks_state \<Rightarrow> picks_state \<Rightarrow> bool" where
  "good s s1 \<longleftrightarrow> keeps_locked s s1 \<and> (picks_ok s \<longrightarrow> picks_ok s1)"

named_theorems good_intros

lemma good_refl [good_intros, simp]: "good s s"
  by (simp add: good_def)

lemma good_trans: "good r s \<Longrightarrow> good s t \<Longrightarrow> good r t"
  by (auto simp: good_def intro: keeps_locked_trans)

lemma good_freeze [good_intros]: "good s (fst (freeze a d row v s))"
  by (simp add: good_def freeze_keeps freeze_ok)

lemma good_write_draft [good_intros]: "good s (fst (write_draft a p s))"
  by (simp add: good_def keeps_locked_same)

lemma good_unlink [good_intros]: "good s (unlink_draft i s)"
  by (simp add: good_def keeps_locked_same)

lemma good_audit [good_intros]: "good s s1 \<Longrightarrow> good s (append_audit ev p t s1)"
  by (simp add: good_def keeps_locked_def)

lemma good_retry_or [good_intros]:
  "good s (fst r) \<Longrightarrow> (\<And>x. snd r = Inr x \<Longrightarrow> good s (result_state (ok (fst r) x))) \<Longrightarrow>
   good s (result_state (retry_or ok r))"
  by (cases r) (auto simp: retry_or_def split: sum.splits)

lemma attempts_good:
  assumes "\<And>a s. good s (result_state (f a s))"
  shows "good s (fst (attempts f as s))"
proof (induction as arbitrary: s)
  case Nil
  then show ?case by simp
next
  case (Cons a as)
  show ?case
    using assms[of s a] Cons.IH by (cases "f a s") (auto intro: good_trans)
qed

lemma get_once_good: "good s (result_state (get_pick_once match_id now a s))"
  unfolding get_pick_once_def
  by (auto simp: Let_def intro!: good_intros split: sum.splits option.splits)

lemma delete_once_good: "good s (result_state (delete_pick_once match_id now a s))"
  unfolding delete_pick_once_def
  by (auto simp: Let_def intro!: good_intros split: sum.splits option.splits)

lemma save_once_good: "good s (result_state (save_pick_once match_id h w now a s))"
  unfolding save_pick_once_def
  by (auto simp: Let_def intro!: good_intros split: sum.splits option.splits prod.splits)

lemma get_pick_good: "good s (fst (get_pick match_id now env s))"
  unfolding get_pick_def by (rule attempts_good) (rule get_once_good)

lemma delete_pick_good: "good s (fst (delete_pick match_id now env s))"
  unfolding delete_pick_def by (rule attempts_good) (rule delete_once_good)

lemma save_pick_good: "good s (fst (save_pick match_id h w now env s))"
proof (cases "validate_goals h w")
  case (Inr p)
  then show ?thesis
    unfolding save_pick_def by (cases p) (simp add: attempts_good[OF save_once_good])
qed (simp add: save_pick_def)

lemma collect_good: "good s (fst (collect_views env now status season is s))"
proof (induction "is" arbitrary: s)
  case Nil
  then show ?case by simp
next
  case (Cons i "is")
  have g: "good s (fst (get_pick i now (env i) s))" by (rule get_pick_good)
  then have "good s (fst (collect_views env now status season is (fst (get_pick i now (env i) s))))"
    using Cons.IH good_trans by blast
  with g show ?case by (auto split: prod.splits sum.splits option.splits)
qed

lemma list_picks_good: "good s (fst (list_picks env now status season limit offset s))"
  using collect_good[of s env now status season "all_match_ids s"]
  by (auto simp: list_picks_def Let_def split: prod.splits sum.splits)

end
