(* ===== verification/Picks_Rules.thy ===== *)
theory Picks_Rules
  imports Picks_Core "HOL-Library.Sublist"
begin

text \<open>
  What the definitions of \<open>Picks_Core\<close> achieve: two verified picks with one id are one pick
  (or a collision of the digest), the scoring rules, the roster and honesty of the rival
  calls, and the totals and streaks of the season summary.
\<close>

section \<open>A concrete pick\<close>

definition example_match :: match_snapshot where
  "example_match = \<lparr> ms_match_id = ''m1'', ms_kickoff = DT 2026 7 19 15 0 0, ms_time_known = True,
     ms_home_team = ''A'', ms_away_team = ''B'', ms_home_norm = ''a'', ms_away_norm = ''b'',
     ms_competition = None \<rparr>"

definition example_draft :: pick where
  "example_draft = \<lparr> pk_id = None, pk_status = Draft, pk_match = example_match,
     pk_call = \<lparr> uc_home = 2, uc_away = 1, uc_outcome = Home \<rparr>,
     pk_rivals = [\<lparr> rv_family = ''elo_ordlogit'', rv_capability = Outcome_only, rv_score = None,
                    rv_outcome = Some Draw \<rparr>],
     pk_fp = \<lparr> fp_index = ''idx'', fp_schema = ''0.1.0'', fp_cutoff = ''2026-07-19T00:00:00Z'' \<rparr>,
     pk_created = DT 2026 7 18 12 0 0, pk_updated = DT 2026 7 18 12 0 0, pk_lock_at = DT 2026 7 19 15 0 0,
     pk_locked_at = None, pk_sha = None \<rparr>"

lemma example_cutoff: "parse_iso ''2026-07-19T00:00:00Z'' = Some (DT 2026 7 19 0 0 0)"
  by (simp add: parse_iso_def Let_def is_digit_def py_slice_def str_nat_def digit_val_def wf_dt_def days_in_month_def)

lemma example_draft_valid: "valid_pick example_draft"
  by (simp add: valid_pick_def example_draft_def example_match_def valid_match_def valid_goal_def
      valid_rival_def scored_rival_families_def valid_fp_def example_cutoff wf_dt_def days_in_month_def)

section \<open>Two verified picks with one id\<close>

definition blank_pick :: "pick \<Rightarrow> pick" where
  "blank_pick p = p \<lparr> pk_id := None, pk_sha := None \<rparr>"

lemma stable_blank: "stable_pick_payload (pick_json (blank_pick p)) = stable_pick_payload (pick_json p)"
  by (simp add: stable_pick_payload_def blank_pick_def pick_json_def json_pop_def)

lemma pop_sha: "json_pop ''payload_sha256'' (pick_json (p \<lparr> pk_sha := x \<rparr>)) = json_pop ''payload_sha256'' (pick_json p)"
  by (simp add: pick_json_def json_pop_def)

lemma validateD:
  "validate_user_pick v = Some p \<Longrightarrow> rd_pick v = Some p \<and> valid_pick p"
  by (auto simp: validate_user_pick_def split: option.splits if_splits)

lemma is_obj_pick_json [simp]: "is_obj (pick_json p)"
  by (simp add: pick_json_def)

lemma has_keys_pick_json:
  "has_keys [''schema_version'', ''pick_id'', ''status'', ''match'', ''user_pick'', ''rivals'',
             ''analysis_fingerprint'', ''created_at_utc'', ''updated_at_utc'', ''lock_at_utc'',
             ''locked_at_utc'', ''payload_sha256''] (pick_json p)"
  unfolding pick_json_def by (rule has_keysI) simp

lemma wf_stable [simp]: "wf_json v \<Longrightarrow> wf_json (stable_pick_payload v)"
  by (simp add: stable_pick_payload_def)

lemma jget_stable:
  "jget (stable_pick_payload v) k = (if k \<in> {''pick_id'', ''payload_sha256''} then JNull else jget v k)"
  by (simp add: stable_pick_payload_def jget_pop)

lemma stable_pick_inj:
  assumes "pick_times_ok p" "pick_times_ok q"
    and eq: "normalise (stable_pick_payload (pick_json p)) = normalise (stable_pick_payload (pick_json q))"
  shows "blank_pick p = blank_pick q"
proof -
  have j: "normalise (jget (stable_pick_payload (pick_json p)) k) = normalise (jget (stable_pick_payload (pick_json q)) k)" for k
    by (rule jget_cong) (use eq in \<open>simp_all add: stable_pick_payload_def\<close>)
  have nul: "jget (pick_json (blank_pick r)) ''pick_id'' = JNull"
    "jget (pick_json (blank_pick r)) ''payload_sha256'' = JNull" for r
    by (simp_all add: pick_json_def blank_pick_def jget_obj jopt_def)
  have same: "jget (pick_json (blank_pick r)) k = jget (stable_pick_payload (pick_json r)) k"
    if "k \<notin> {''pick_id'', ''payload_sha256''}" for r k
    using that jget_stable[of "pick_json (blank_pick r)" k] stable_blank[of r] by simp
  have "normalise (jget (pick_json (blank_pick p)) k) = normalise (jget (pick_json (blank_pick q)) k)" for k
    using j[of k] nul same[of k] by (cases "k \<in> {''pick_id'', ''payload_sha256''}") auto
  then have "normalise (pick_json (blank_pick p)) = normalise (pick_json (blank_pick q))"
    by (intro obj_eqI[OF _ _ has_keys_pick_json has_keys_pick_json]) simp_all
  moreover have "pick_times_ok (blank_pick p)" "pick_times_ok (blank_pick q)"
    using assms(1,2) by (simp_all add: pick_times_ok_def blank_pick_def)
  ultimately show ?thesis using rd_pick_normalise by (metis option.inject)
qed

lemma dumps_cong: "normalise v = normalise w \<Longrightarrow> dumps v = dumps w"
  by (simp add: dumps_def)

lemma verified_same_id:
  assumes wf: "wf_json v" "wf_json v'"
    and p: "verify_pick_integrity v e = Inr p" "verify_pick_integrity v' e' = Inr p'"
    and id: "pk_id p = pk_id p'"
  shows "p = p' \<or> id_collision (canonical_pick_bytes (stable_pick_payload v))
                               (canonical_pick_bytes (stable_pick_payload v'))"
proof (cases "canonical_pick_bytes (stable_pick_payload v) = canonical_pick_bytes (stable_pick_payload v')")
  case False
  then show ?thesis
    using verify_pick_InrD[OF p(1)] verify_pick_InrD[OF p(2)] id
    by (simp add: id_collision_def pick_id_def)
next
  case True
  note d = verify_pick_InrD[OF p(1)] verify_pick_InrD[OF p(2)]
  have rp: "rd_pick v = Some p" "valid_pick p" "rd_pick v' = Some p'" "valid_pick p'"
    using d validateD by auto
  have n: "normalise v = normalise (pick_json p)" "normalise v' = normalise (pick_json p')"
    using rd_pickD wf rp by auto
  have "normalise (stable_pick_payload v) = normalise (stable_pick_payload v')"
    using dumps_inj True wf by (simp add: canonical_pick_bytes_def)
  then have "normalise (stable_pick_payload (pick_json p)) = normalise (stable_pick_payload (pick_json p'))"
    using n by (simp add: stable_pick_payload_def normalise_pop)
  then have "blank_pick p = blank_pick p'"
    using stable_pick_inj rp(2,4) valid_pick_times by blast
  with id have b: "p \<lparr> pk_sha := None \<rparr> = p' \<lparr> pk_sha := None \<rparr>"
    by (cases p; cases p') (simp add: blank_pick_def)
  have sha: "pick_payload_sha256 w = pick_payload_sha256 (pick_json (q \<lparr> pk_sha := None \<rparr>))"
    if "normalise w = normalise (pick_json q)" for w q
    unfolding pick_payload_sha256_def canonical_pick_bytes_def pop_sha
    using dumps_cong[OF json_pop_cong[OF that]] by simp
  have "pk_sha p = pk_sha p'" using d sha[OF n(1)] sha[OF n(2)] b by simp
  with b have "p = p'" by (cases p; cases p') simp
  then show ?thesis ..
qed

section \<open>Scoring lemmas\<close>

lemma fold_max_Max: "fold max xs (x::int) = Max (set (x # xs))"
  by (rule Max.set_eq_fold[symmetric])

lemma outcome_of_exact: "points_for_call (Some (h, a)) oc h a = \<lparr> pt_exact = 3, pt_outcome = of_bool (oc = Some (outcome_of h a)),
   pt_total = 3 + of_bool (oc = Some (outcome_of h a)) \<rparr>"
  by (simp add: points_for_call_def Let_def)

lemma points_total: "pt_total (points_for_call s oc h a) = pt_exact (points_for_call s oc h a) + pt_outcome (points_for_call s oc h a)"
  by (simp add: points_for_call_def Let_def)

lemma points_exact: "pt_exact (points_for_call s oc h a) = (if s = Some (h, a) then 3 else 0)"
  by (simp add: points_for_call_def Let_def)

lemma points_outcome: "pt_outcome (points_for_call s oc h a) = (if oc = Some (outcome_of h a) then 1 else 0)"
  by (simp add: points_for_call_def Let_def)

definition rival_total :: "rival \<Rightarrow> int \<Rightarrow> int \<Rightarrow> int" where
  "rival_total r h a = pt_total (points_for_call (rv_score r) (rv_outcome r) h a)"

definition playing :: "pick \<Rightarrow> rival set" where
  "playing p = {r \<in> set (pk_rivals p). rv_capability r \<noteq> Abstained}"

lemma played_totals:
  "set (map (pt_total \<circ> snd) (filter (\<lambda>(r, _). rv_capability r \<noteq> Abstained)
     (map (\<lambda>r. (r, points_for_call (rv_score r) (rv_outcome r) h a)) (pk_rivals p))))
   = (\<lambda>r. rival_total r h a) ` playing p"
  by (auto simp: playing_def rival_total_def image_iff)

lemma fold_max_cases:
  "(case xs of [] \<Rightarrow> (0::int) | t # ts \<Rightarrow> fold max ts t) = (if set xs = {} then 0 else Max (set xs))"
  by (cases xs) (simp_all add: fold_max_Max)

text \<open>
  The scoring rules.  An exact score is worth 3, the right outcome 1; the best rival is
  the greatest total among the rivals that played (0 if none did); the user beats the AI,
  and earns the bonus point, exactly when some rival played and every one of them has fewer
  points; the total adds the three parts and lies between 0 and 5.
\<close>

theorem score_pick_rules:
  "let s = score_pick p h a;
       base = (if (uc_home (pk_call p), uc_away (pk_call p)) = (h, a) then 3 else 0)
              + (if uc_outcome (pk_call p) = outcome_of h a then 1 else 0)
   in so_exact s = (if (uc_home (pk_call p), uc_away (pk_call p)) = (h, a) then 3 else 0)
      \<and> so_outcome s = (if uc_outcome (pk_call p) = outcome_of h a then 1 else 0)
      \<and> so_total s = so_exact s + so_outcome s + so_bonus s \<and> 0 \<le> so_total s \<and> so_total s \<le> 5
      \<and> so_bonus s = (if so_beat_ai s then 1 else 0)
      \<and> so_best s = (if playing p = {} then 0 else Max ((\<lambda>r. rival_total r h a) ` playing p))
      \<and> (so_beat_ai s \<longleftrightarrow> playing p \<noteq> {} \<and> \<not> (\<exists>r \<in> playing p. base \<le> rival_total r h a))"
proof -
  let ?pl = "map (pt_total \<circ> snd) (filter (\<lambda>(r, _). rv_capability r \<noteq> Abstained)
     (map (\<lambda>r. (r, points_for_call (rv_score r) (rv_outcome r) h a)) (pk_rivals p)))"
  have fin: "finite (playing p)" by (simp add: playing_def)
  have emp: "?pl = [] \<longleftrightarrow> playing p = {}"
    unfolding set_empty[symmetric] played_totals by (rule image_is_empty)
  have best: "so_best (score_pick p h a) = (if playing p = {} then 0 else Max ((\<lambda>r. rival_total r h a) ` playing p))"
    using fold_max_cases[of ?pl] unfolding played_totals by (simp add: score_pick_def Let_def)
  have beat: "so_beat_ai (score_pick p h a) \<longleftrightarrow> playing p \<noteq> {} \<and>
      so_best (score_pick p h a) < so_exact (score_pick p h a) + so_outcome (score_pick p h a)"
    unfolding emp[symmetric] by (simp add: score_pick_def Let_def points_total)
  have parts: "so_exact (score_pick p h a) = (if (uc_home (pk_call p), uc_away (pk_call p)) = (h, a) then 3 else 0)"
    "so_outcome (score_pick p h a) = (if uc_outcome (pk_call p) = outcome_of h a then 1 else 0)"
    "so_total (score_pick p h a) = so_exact (score_pick p h a) + so_outcome (score_pick p h a) + so_bonus (score_pick p h a)"
    "so_bonus (score_pick p h a) = (if so_beat_ai (score_pick p h a) then 1 else 0)"
    by (simp_all add: score_pick_def Let_def points_total points_exact points_outcome)
  have bounds: "0 \<le> so_total (score_pick p h a)" "so_total (score_pick p h a) \<le> 5"
    unfolding parts by simp_all
  have lt: "playing p \<noteq> {} \<Longrightarrow> so_best (score_pick p h a) < b \<longleftrightarrow> \<not> (\<exists>r \<in> playing p. b \<le> rival_total r h a)" for b
    using fin by (auto simp: best not_le)
  have beat2: "so_beat_ai (score_pick p h a) \<longleftrightarrow>
      playing p \<noteq> {} \<and> \<not> (\<exists>r \<in> playing p.
         (if (uc_home (pk_call p), uc_away (pk_call p)) = (h, a) then 3 else 0)
           + (if uc_outcome (pk_call p) = outcome_of h a then 1 else 0) \<le> rival_total r h a)"
    using beat lt unfolding parts(1,2) by blast
  show ?thesis unfolding Let_def by (intro conjI) (fact parts bounds best beat2)+
qed

section \<open>Rival calls\<close>

lemma modal_outcome_max: "probs oc \<le> probs (modal_outcome probs)"
  unfolding modal_outcome_def by (rule first_max_ge) (cases oc; simp)

lemma modal_outcome_tie:
  "(modal_outcome probs = Draw \<longrightarrow> probs Home < probs Draw) \<and>
   (modal_outcome probs = Away \<longrightarrow> probs Home < probs Away \<and> probs Draw < probs Away)"
  by (auto simp: modal_outcome_def)

lemma derive_rival_family: "derive_rival m = Some r \<Longrightarrow> rv_family r = me_family m"
  by (auto simp: derive_rival_def split: option.splits if_splits)

text \<open>What the schema's conditionals ask of a rival, apart from the goal range.\<close>

definition honest_rival :: "rival \<Rightarrow> bool" where
  "honest_rival r \<longleftrightarrow>
     (case rv_capability r of
        Score \<Rightarrow> (\<exists>h a. rv_score r = Some (h, a) \<and> rv_outcome r = Some (outcome_of h a))
      | Outcome_only \<Rightarrow> rv_score r = None \<and> rv_outcome r \<noteq> None
      | Abstained \<Rightarrow> rv_score r = None \<and> rv_outcome r = None)"

lemma derive_rival_honest: "derive_rival m = Some r \<Longrightarrow> honest_rival r"
  by (auto simp: derive_rival_def honest_rival_def split: option.splits if_splits)

lemma derive_rivals_filter:
  "derive_rivals ms = Some rs \<Longrightarrow>
   list_all2 (\<lambda>m r. derive_rival m = Some r) (filter (\<lambda>m. me_family m \<in> set scored_rival_families) ms) rs"
  by (induction ms arbitrary: rs) (auto split: option.splits if_splits)

text \<open>
  The rivals of a pick are the council's models whose family is on the fixed roster, in
  the council's order and nobody else; each carries exactly the call its capability allows,
  a score call agrees with its own outcome, and a model without a score matrix calls its
  most likely outcome, home before draw before away on ties.
\<close>

theorem rivals_faithful:
  assumes "derive_rival_picks an = Some (fp, rs)"
  shows "map rv_family rs = filter (\<lambda>f. f \<in> set scored_rival_families) (map me_family (an_models an))
         \<and> list_all honest_rival rs
         \<and> list_all2 (\<lambda>m r. \<forall>probs. me_probs m = Some probs \<and> \<not> me_abstained m \<and> me_matrix m = None \<longrightarrow>
              rv_capability r = Outcome_only \<and> rv_outcome r = Some (modal_outcome probs)
              \<and> (\<forall>oc. probs oc \<le> probs (modal_outcome probs)))
              (filter (\<lambda>m. me_family m \<in> set scored_rival_families) (an_models an)) rs"
proof -
  let ?ms = "filter (\<lambda>m. me_family m \<in> set scored_rival_families) (an_models an)"
  have all: "list_all2 (\<lambda>m r. derive_rival m = Some r) ?ms rs"
    using assms derive_rivals_filter by (auto simp: derive_rival_picks_def)
  then have "map rv_family rs = map me_family ?ms"
    by (induction rule: list_all2_induct) (auto dest: derive_rival_family)
  then have "map rv_family rs = filter (\<lambda>f. f \<in> set scored_rival_families) (map me_family (an_models an))"
    by (simp add: filter_map comp_def)
  moreover have "list_all honest_rival rs"
    using all by (induction rule: list_all2_induct) (auto dest: derive_rival_honest)
  moreover have "list_all2 (\<lambda>m r. \<forall>probs. me_probs m = Some probs \<and> \<not> me_abstained m \<and> me_matrix m = None \<longrightarrow>
              rv_capability r = Outcome_only \<and> rv_outcome r = Some (modal_outcome probs)
              \<and> (\<forall>oc. probs oc \<le> probs (modal_outcome probs))) ?ms rs"
    using all by (rule list_all2_mono) (auto simp: derive_rival_def modal_outcome_max)
  ultimately show ?thesis by blast
qed

definition example_analysis :: analysis where
  "example_analysis =
     \<lparr> an_models = [\<lparr> me_family = ''elo_ordlogit'', me_probs = Some (\<lambda>oc. case oc of Home \<Rightarrow> 1 / 2 | Draw \<Rightarrow> 1 / 4 | Away \<Rightarrow> 1 / 4),
                      me_matrix = None, me_abstained = False \<rparr>],
       an_index_fingerprint = Some ''idx'', an_index_fingerprint' = None, an_schema_version = Some ''0.1.0'',
       an_cutoff = None \<rparr>"

lemma rivals_faithful_witness:
  "\<exists>fp rs. derive_rival_picks example_analysis = Some (fp, rs) \<and> map rv_family rs = [''elo_ordlogit'']"
proof -
  have fam: "''elo_ordlogit'' \<in> set scored_rival_families" by (simp add: scored_rival_families_def)
  then have "derive_rivals (an_models example_analysis) \<noteq> None"
    by (simp add: example_analysis_def derive_rival_def)
  then obtain fp rs where d: "derive_rival_picks example_analysis = Some (fp, rs)"
    by (auto simp: derive_rival_picks_def)
  have "filter (\<lambda>f. f \<in> set scored_rival_families) (map me_family (an_models example_analysis)) = [''elo_ordlogit'']"
    using fam by (simp add: example_analysis_def)
  with d rivals_faithful[OF d] show ?thesis by auto
qed

section \<open>The season loop\<close>

definition season_scored :: "pick_view list \<Rightarrow> string option \<Rightarrow> (pick \<times> (int \<times> int) \<times> scoring) list" where
  "season_scored views season =
     concat (map scored_of (ordered_views (filter (\<lambda>v. case season of None \<Rightarrow> True
        | Some s \<Rightarrow> football_season (ms_kickoff (pk_match (view_record v))) = s) views)))"

abbreviation sc_of :: "pick \<times> (int \<times> int) \<times> scoring \<Rightarrow> scoring" where
  "sc_of v \<equiv> snd (snd v)"

definition hit :: "pick \<times> (int \<times> int) \<times> scoring \<Rightarrow> bool" where
  "hit v \<longleftrightarrow> so_outcome (sc_of v) \<ge> 1"

definition family_rows :: "string \<Rightarrow> (pick \<times> (int \<times> int) \<times> scoring) list \<Rightarrow> points list" where
  "family_rows f vs = map snd (filter (\<lambda>rp. fst rp = f) (concat (map (so_rivals \<circ> sc_of) vs)))"

lemma season_step_sums:
  "sa_total (season_step v acc) = sa_total acc + so_total (sc_of v)"
  "sa_exact (season_step v acc) = sa_exact acc + so_exact (sc_of v)"
  "sa_outcome (season_step v acc) = sa_outcome acc + so_outcome (sc_of v)"
  "sa_bonus (season_step v acc) = sa_bonus acc + so_bonus (sc_of v)"
  "sa_rivals (season_step v acc) = fold add_rival (so_rivals (sc_of v)) (sa_rivals acc)"
  "sa_current (season_step v acc) = (if hit v then sa_current acc + 1 else 0)"
  "sa_best (season_step v acc) = (if hit v then max (sa_best acc) (sa_current acc + 1) else sa_best acc)"
  "length (sa_series (season_step v acc)) = Suc (length (sa_series acc))"
  by (simp_all add: season_step_def hit_def Let_def split: prod.splits)

lemma season_sums:
  "sa_total (fold season_step vs acc) = sa_total acc + sum_list (map (so_total \<circ> sc_of) vs)"
  "sa_exact (fold season_step vs acc) = sa_exact acc + sum_list (map (so_exact \<circ> sc_of) vs)"
  "sa_outcome (fold season_step vs acc) = sa_outcome acc + sum_list (map (so_outcome \<circ> sc_of) vs)"
  "sa_bonus (fold season_step vs acc) = sa_bonus acc + sum_list (map (so_bonus \<circ> sc_of) vs)"
  "sa_rivals (fold season_step vs acc) = fold add_rival (concat (map (so_rivals \<circ> sc_of) vs)) (sa_rivals acc)"
  "length (sa_series (fold season_step vs acc)) = length (sa_series acc) + length vs"
  by (induction vs arbitrary: acc) (simp_all add: season_step_sums)

lemma add_rival_ok: "dict_ok d \<Longrightarrow> dict_ok (add_rival rp d)"
  by (simp add: add_rival_def split: prod.splits)

lemma fold_add_rival_ok: "dict_ok d \<Longrightarrow> dict_ok (fold add_rival rps d)"
  by (induction rps arbitrary: d) (simp_all add: add_rival_ok)

definition totals :: "points list \<Rightarrow> int \<times> int \<times> int" where
  "totals qs = (sum_list (map pt_total qs), sum_list (map pt_exact qs), sum_list (map pt_outcome qs))"

lemma fold_add_rival:
  "dict_get (fold add_rival rps []) f =
     (let qs = map snd (filter (\<lambda>rp. fst rp = f) rps) in if qs = [] then None else Some (totals qs))"
proof (induction rps rule: rev_induct)
  case Nil
  then show ?case by simp
next
  case (snoc rp rps)
  obtain g q where rp: "rp = (g, q)" by (cases rp)
  show ?case
    using snoc by (auto simp: rp add_rival_def totals_def Let_def split: prod.splits option.splits if_splits)
qed

text \<open>The streaks: the run of hits at the end, and the longest run anywhere.\<close>

definition longest_run :: "nat \<Rightarrow> bool list \<Rightarrow> bool" where
  "longest_run n bs \<longleftrightarrow>
     (\<exists>run. sublist run bs \<and> list_all id run \<and> length run = n) \<and>
     (\<forall>run. sublist run bs \<and> list_all id run \<longrightarrow> length run \<le> n)"

lemma suffix_run_snoc:
  "suffix run (bs @ [True]) \<and> list_all id run \<longleftrightarrow>
     run = [] \<or> (\<exists>r. run = r @ [True] \<and> suffix r bs \<and> list_all id r)"
  by (cases run rule: rev_cases) auto

lemma trailing_run: "suffix run bs \<Longrightarrow> list_all id run \<Longrightarrow> length run \<le> length (takeWhile id (rev bs))"
proof (induction bs arbitrary: run rule: rev_induct)
  case Nil
  then show ?case by simp
next
  case (snoc b bs)
  then show ?case by (cases run rule: rev_cases) auto
qed

lemma sublist_snoc_iff: "sublist r (bs @ [b]) \<longleftrightarrow> sublist r bs \<or> suffix r (bs @ [b])"
proof -
  have "sublist r (bs @ [b]) \<longleftrightarrow> sublist (rev r) (b # rev bs)" by (metis rev.simps(2) rev_rev_ident sublist_rev)
  also have "\<dots> \<longleftrightarrow> prefix (rev r) (b # rev bs) \<or> sublist (rev r) (rev bs)" by (rule sublist_Cons_right)
  also have "\<dots> \<longleftrightarrow> sublist r bs \<or> suffix r (bs @ [b])"
    by (auto simp: suffix_to_prefix)
  finally show ?thesis .
qed

lemma streaks:
  "sa_current (fold season_step vs season_acc_init) = length (takeWhile hit (rev vs)) \<and>
   longest_run (sa_best (fold season_step vs season_acc_init)) (map hit vs)"
proof (induction vs rule: rev_induct)
  case Nil
  then show ?case by (simp add: season_acc_init_def longest_run_def)
next
  case (snoc v vs)
  let ?acc = "fold season_step vs season_acc_init"
  have cur: "sa_current ?acc = length (takeWhile id (rev (map hit vs)))"
    using snoc by (simp add: rev_map takeWhile_map comp_def)
  have best: "longest_run (sa_best ?acc) (map hit vs)" using snoc by simp
  show ?case
  proof (cases "hit v")
    case False
    then have "suffix run (map hit vs @ [False]) \<and> list_all id run \<longleftrightarrow> run = []" for run
      by (cases run rule: rev_cases) auto
    then have "longest_run (sa_best ?acc) (map hit vs @ [False])"
      using best unfolding longest_run_def sublist_snoc_iff by (metis list.size(3) zero_le sublist_Nil_left)
    with False show ?thesis using snoc by (simp add: season_step_sums)
  next
    case True
    let ?run = "replicate (sa_current ?acc + 1) True"
    have "takeWhile id (rev (map hit vs)) = replicate (sa_current ?acc) True"
      unfolding cur by (intro replicate_length_same[symmetric]) (auto dest: set_takeWhileD)
    then have "prefix (replicate (sa_current ?acc) True) (rev (map hit vs))"
      by (metis takeWhile_is_prefix)
    then have suf: "suffix ?run (map hit vs @ [True])"
      unfolding suffix_to_prefix rev_replicate by simp
    have bound: "length run \<le> max (sa_best ?acc) (sa_current ?acc + 1)"
      if "sublist run (map hit vs @ [True])" "list_all id run" for run
    proof -
      from that(1) have "sublist run (map hit vs) \<or> suffix run (map hit vs @ [True])"
        by (simp add: sublist_snoc_iff)
      then show ?thesis
      proof
        assume "sublist run (map hit vs)"
        then have "length run \<le> sa_best ?acc" using best that(2) by (simp add: longest_run_def)
        then show ?thesis by simp
      next
        assume "suffix run (map hit vs @ [True])"
        from trailing_run[OF this that(2)] show ?thesis using cur by simp
      qed
    qed
    have "\<exists>run. sublist run (map hit vs @ [True]) \<and> list_all id run \<and>
            length run = max (sa_best ?acc) (sa_current ?acc + 1)"
    proof (cases "sa_best ?acc \<le> sa_current ?acc + 1")
      case True
      have "list_all id ?run" "length ?run = max (sa_best ?acc) (sa_current ?acc + 1)"
        using True by (simp_all add: list_all_iff max_def)
      with suf show ?thesis by (metis suffix_imp_sublist)
    next
      case False
      then show ?thesis using best by (auto simp: longest_run_def sublist_snoc_iff max_def)
    qed
    then have "longest_run (max (sa_best ?acc) (sa_current ?acc + 1)) (map hit vs @ [True])"
      using bound by (simp add: longest_run_def)
    with True show ?thesis using snoc by (simp add: season_step_sums)
  qed
qed

text \<open>
  The season summary aggregates what the ledger shows.  The user's totals are the sums
  over the scored picks; every family that has a rival row has exactly one entry, with the
  sums of its rows; the series has one point per scored pick; the current streak is the run
  of right calls up to the latest pick and the best streak is the longest run of right calls.
\<close>

theorem season_summary_correct:
  "let sc = season_scored views season; s = season_summary views season
   in ss_user s = (sum_list (map (so_total \<circ> sc_of) sc), sum_list (map (so_exact \<circ> sc_of) sc),
                   sum_list (map (so_outcome \<circ> sc_of) sc), sum_list (map (so_bonus \<circ> sc_of) sc))
      \<and> sorted (dict_keys (ss_rivals s)) \<and> distinct (dict_keys (ss_rivals s))
      \<and> (\<forall>f. dict_get (ss_rivals s) f = (if family_rows f sc = [] then None else Some (totals (family_rows f sc))))
      \<and> length (ss_series s) = length sc
      \<and> fst (ss_streak s) = length (takeWhile hit (rev sc)) \<and> longest_run (snd (ss_streak s)) (map hit sc)"
proof -
  let ?acc = "fold season_step (season_scored views season) season_acc_init"
  have sel: "ss_user (season_summary views season) = (sa_total ?acc, sa_exact ?acc, sa_outcome ?acc, sa_bonus ?acc)"
    "ss_rivals (season_summary views season) = sort_key fst (sa_rivals ?acc)"
    "ss_series (season_summary views season) = sa_series ?acc"
    "ss_streak (season_summary views season) = (sa_current ?acc, sa_best ?acc)"
    by (simp_all add: season_summary_def season_scored_def Let_def)
  have ok: "dict_ok (sa_rivals ?acc)"
    by (simp add: season_sums season_acc_init_def fold_add_rival_ok)
  have riv: "dict_get (sa_rivals ?acc) f = (if family_rows f (season_scored views season) = [] then None
      else Some (totals (family_rows f (season_scored views season))))" for f
    by (simp add: season_sums season_acc_init_def fold_add_rival family_rows_def Let_def)
  have keys: "sorted (dict_keys (sort_key fst (sa_rivals ?acc)))" "distinct (dict_keys (sort_key fst (sa_rivals ?acc)))"
    using ok dict_ok_sort[of fst "sa_rivals ?acc"] by (simp_all add: dict_ok_def)
  have init: "sa_total season_acc_init = 0" "sa_exact season_acc_init = 0" "sa_outcome season_acc_init = 0"
    "sa_bonus season_acc_init = 0" "sa_series season_acc_init = []"
    by (simp_all add: season_acc_init_def)
  have all: "\<forall>f. dict_get (sort_key fst (sa_rivals ?acc)) f
      = (if family_rows f (season_scored views season) = [] then None
         else Some (totals (family_rows f (season_scored views season))))"
    using riv dict_get_sort[OF ok] by metis
  show ?thesis
    unfolding Let_def sel fst_conv snd_conv
    by (intro conjI keys all streaks[THEN conjunct1] streaks[THEN conjunct2]) (simp_all add: season_sums init)
qed

text \<open>
  The summary does not depend on the order in which the ledger lists its picks, as long
  as no two of them share both kickoff and match id.
\<close>

theorem season_summary_order_free:
  assumes "mset views = mset views'" "inj_on view_key (set views)"
  shows "season_summary views season = season_summary views' season"
proof -
  let ?P = "\<lambda>v. case season of None \<Rightarrow> True
      | Some s \<Rightarrow> football_season (ms_kickoff (pk_match (view_record v))) = s"
  have m: "mset (filter ?P views) = mset (filter ?P views')" using assms(1) by simp
  have "inj_on view_key (set (filter ?P views))" using assms(2) by (auto simp: inj_on_def)
  then have "sort_key view_key (filter ?P views) = sort_key view_key (filter ?P views')"
    using m by (intro sort_key_inj_key_eq) simp_all
  then show ?thesis by (simp add: season_summary_def ordered_views_def)
qed

lemma season_summary_order_free_witness:
  "season_summary [Draft_view example_draft,
      Scored_view (example_draft \<lparr> pk_match := example_match \<lparr> ms_match_id := ''m2'' \<rparr> \<rparr>) (2, 1) (score_pick example_draft 2 1)] None
   = season_summary [Scored_view (example_draft \<lparr> pk_match := example_match \<lparr> ms_match_id := ''m2'' \<rparr> \<rparr>) (2, 1)
      (score_pick example_draft 2 1), Draft_view example_draft] None"
  by (rule season_summary_order_free) (simp_all add: view_key_def example_draft_def example_match_def add.commute)

end
