(* ===== verification/Picks_Safety.thy ===== *)
theory Picks_Safety
  imports Picks_Ledger Picks_Rules
begin

text \<open>
  The promises of the pick ledger over whole operations: locked files are immutable and
  tamper-evident, calls can be made, changed or deleted only before the lock, and a due
  draft is locked with the call it carries.
\<close>

section \<open>The ledger as a machine\<close>

datatype picks_call =
    P_get string dt "nat \<Rightarrow> attempt"
  | P_save string json json dt "nat \<Rightarrow> attempt"
  | P_delete string dt "nat \<Rightarrow> attempt"
  | P_list "string \<Rightarrow> nat \<Rightarrow> attempt" dt "string option" "string option" int int

fun exec_picks :: "picks_call \<Rightarrow> picks_state \<Rightarrow> picks_state" where
  "exec_picks (P_get i now env) s = fst (get_pick i now env s)"
| "exec_picks (P_save i h w now env) s = fst (save_pick i h w now env s)"
| "exec_picks (P_delete i now env) s = fst (delete_pick i now env s)"
| "exec_picks (P_list env now status season limit offset) s = fst (list_picks env now status season limit offset s)"

lemma exec_picks_good: "good s (exec_picks c s)"
  by (cases c) (simp_all add: get_pick_good save_pick_good delete_pick_good list_picks_good)

interpretation picks: growing_machine exec_picks picks_ok "\<lambda>_. True" keeps_locked
  by unfold_locales (use exec_picks_good keeps_locked_trans in \<open>auto simp: good_def\<close>)

text \<open>
  C17: locked picks are immutable.  Whatever sequence of reads, saves, deletions and listings
  follows, under any clock, any index generations and any file system failures, a locked
  file that verifies keeps its bytes.
\<close>

theorem locked_picks_immutable:
  assumes "picks_ok s" "dict_get (ps_locked s) stem = Some b" "load_locked stem b = Inr p"
  shows "dict_get (ps_locked (fold exec_picks cs s)) stem = Some b"
  using picks.keeps_run[of cs s] assms by (auto simp: list_all_iff keeps_locked_def)

lemma example_sealed: "\<exists>r i. sealed_record example_draft (DT 2026 7 19 15 0 0) = Some r \<and> pk_id r = Some i"
  using sealed_record_valid[OF example_draft_valid, of "DT 2026 7 19 15 0 0"] sealed_recordD
  by (fastforce simp: wf_dt_def days_in_month_def)

definition example_env :: attempt where
  "example_env = \<lparr> at_frame = [], at_fingerprint = ''g1'', at_current = True, at_analysis = None,
     at_analysis_current = True, at_commit = True, at_io = Io_ok \<rparr>"

lemma locked_picks_immutable_witness:
  "\<exists>stem b. dict_get (ps_locked (fold exec_picks [P_delete ''m1'' (DT 2026 7 20 0 0 0) (\<lambda>_. example_env)]
      \<lparr> ps_drafts = [], ps_locked = [(stem, b)], ps_audit = [] \<rparr>)) stem = Some b"
proof -
  obtain r i where r: "sealed_record example_draft (DT 2026 7 19 15 0 0) = Some r" "pk_id r = Some i"
    using example_sealed by blast
  show ?thesis
    by (rule exI[of _ i], rule exI[of _ "file_bytes r"],
        rule locked_picks_immutable[where p = r])
      (simp_all add: picks_ok_def dict_ok_def load_locked_sealed[OF r])
qed

text \<open>
  C37: sealing round-trips through the file.  The file written for a sealed pick reads back
  and verifies to exactly that pick, under the pick's own id and under no other name.
\<close>

theorem sealed_pick_roundtrip:
  assumes "sealed_record d lock_at = Some r"
  shows "\<exists>i. pk_id r = Some i \<and> load_locked i (file_bytes r) = Inr r
         \<and> (\<forall>j p. load_locked j (file_bytes r) = Inr p \<longrightarrow> j = i \<and> p = r)"
proof -
  obtain i where i: "pk_id r = Some i" using sealed_recordD[OF assms] by blast
  have "j = i \<and> p = r" if "load_locked j (file_bytes r) = Inr p" for j p
  proof -
    have "verify_pick_integrity (normalise (pick_json r)) (Some j) = Inr p"
      using that by (auto simp: load_locked_def loads_file_bytes split: sum.splits)
    then have v: "verify_pick_integrity (pick_json r) (Some j) = Inr p" by (simp add: verify_norm)
    then have "validate_user_pick (pick_json r) = Some p" "Some j = Some (pick_id (stable_pick_payload (pick_json r)))"
      using verify_pick_InrD by blast+
    then show ?thesis using sealed_recordD[OF assms] i by simp
  qed
  then show ?thesis using i load_locked_sealed[OF assms i] by blast
qed

lemma sealed_pick_roundtrip_witness:
  "\<exists>r i. sealed_record example_draft (DT 2026 7 19 15 0 0) = Some r \<and> load_locked i (file_bytes r) = Inr r"
proof -
  obtain r where r: "sealed_record example_draft (DT 2026 7 19 15 0 0) = Some r" using example_sealed by blast
  with sealed_pick_roundtrip[OF r] show ?thesis by blast
qed

text \<open>
  Locked picks are tamper-evident.  Two file contents that both verify under one name
  hold the same pick, call, rivals, times and digest included, unless their canonical
  payloads are two different texts whose SHA-256 agree in the 80 bits of the id.
\<close>

theorem locked_pick_tamper_evident:
  assumes "load_locked stem b = Inr p" "load_locked stem b' = Inr p'"
  shows "p = p' \<or> id_collision (canonical_pick_bytes (stable_pick_payload (pick_json p)))
                               (canonical_pick_bytes (stable_pick_payload (pick_json p')))"
proof -
  obtain v v' where v: "loads b = Some v" "verify_pick_integrity v (Some stem) = Inr p"
    "loads b' = Some v'" "verify_pick_integrity v' (Some stem) = Inr p'"
    using assms by (auto simp: load_locked_def split: option.splits sum.splits)
  have wf: "wf_json v" "wf_json v'" using v loads_wf by blast+
  have "pk_id p = pk_id p'" using verify_pick_InrD[OF v(2)] verify_pick_InrD[OF v(4)] by simp
  moreover have "normalise v = normalise (pick_json p)" "normalise v' = normalise (pick_json p')"
    using wf v verify_pick_InrD validateD rd_pickD by blast+
  then have "canonical_pick_bytes (stable_pick_payload v) = canonical_pick_bytes (stable_pick_payload (pick_json p))"
    "canonical_pick_bytes (stable_pick_payload v') = canonical_pick_bytes (stable_pick_payload (pick_json p'))"
    using digests_norm(2) by metis+
  ultimately show ?thesis using verified_same_id[OF wf v(2) v(4)] by simp
qed

lemma locked_pick_tamper_evident_witness:
  "\<exists>stem b p. load_locked stem b = Inr p \<and>
     (p = p \<or> id_collision (canonical_pick_bytes (stable_pick_payload (pick_json p)))
                           (canonical_pick_bytes (stable_pick_payload (pick_json p))))"
proof -
  obtain r i where r: "sealed_record example_draft (DT 2026 7 19 15 0 0) = Some r" "pk_id r = Some i"
    using example_sealed by blast
  note l = load_locked_sealed[OF r]
  from locked_pick_tamper_evident[OF l l] l show ?thesis by blast
qed

section \<open>Locking at kickoff\<close>

lemma attempts_Inr:
  assumes "\<And>a s s'. f a s = Retry s' \<Longrightarrow> s' = s" "attempts f as s = (s1, Inr v)"
  shows "\<exists>a \<in> set as. f a s = Stop s1 (Inr v)"
  using assms(2)
proof (induction as arbitrary: s)
  case Nil
  then show ?case by simp
next
  case (Cons a as)
  show ?case
  proof (cases "f a s")
    case (Retry x)
    then have "x = s" by (rule assms(1))
    with Retry Cons show ?thesis by auto
  next
    case (Stop x r)
    with Cons.prems show ?thesis by simp
  qed
qed

lemma freeze_changed': "freeze a d row v s = (s1, Inl generation_changed) \<Longrightarrow> s1 = s"
  using freeze_changed[of a d row v s] by simp

lemma write_draft_changed': "write_draft a p s = (s1, Inl generation_changed) \<Longrightarrow> s1 = s"
  using write_draft_changed[of a p s] by simp

lemma save_once_retry: "save_pick_once match_id h w now a s = Retry s' \<Longrightarrow> s' = s"
  by (auto simp: save_pick_once_def retry_or_def Let_def
      dest!: freeze_changed' write_draft_changed'
      split: option.splits sum.splits prod.splits if_splits)

lemma write_draft_InrD:
  "write_draft a p s = (s1, Inr u) \<Longrightarrow>
   valid_pick p \<and> dict_get (ps_drafts s1) (ms_match_id (pk_match p)) = Some (file_bytes p) \<and> ps_locked s1 = ps_locked s"
  by (auto simp: write_draft_def split: if_splits)

lemma save_once_stop:
  "save_pick_once match_id h w now a s = Stop s1 (Inr v) \<Longrightarrow>
   \<exists>r p k. find_row (at_frame a) match_id = Some r \<and> \<not> ir_is_complete r \<and> ir_kickoff r = Some k \<and>
     v = Draft_view p \<and> valid_pick p \<and> now < pk_lock_at p \<and> pk_lock_at p \<le> k \<and>
     pk_call p = \<lparr> uc_home = h, uc_away = w, uc_outcome = outcome_of h w \<rparr> \<and>
     (\<forall>d. load_draft s match_id = Inr (Some d) \<longrightarrow>
        pk_lock_at p \<le> pk_lock_at d \<and> pk_created p = pk_created d \<and> pk_match p = pk_match d) \<and>
     dict_get (ps_drafts s1) (ms_match_id (pk_match p)) = Some (file_bytes p) \<and> ps_locked s1 = ps_locked s \<and>
     find_locked s match_id (Some r) = Inr None"
  by (auto simp: save_pick_once_def retry_or_def Let_def row_kickoff_def view_of_def not_le
      dest!: write_draft_InrD
      split: option.splits sum.splits prod.splits if_splits)

lemma load_draft_valid: "load_draft s i = Inr (Some d) \<Longrightarrow> valid_pick d \<and> safe_match_id i"
  by (auto simp: load_draft_def bind_eq_Some_conv dest!: validateD split: if_splits option.splits)

lemma load_locked_status: "load_locked stem b = Inr p \<Longrightarrow> pk_status p = Locked"
  by (auto simp: load_locked_def dest!: verify_pick_InrD split: option.splits sum.splits)

lemma scan_locked_status:
  "scan_locked i k ps fb = Inr (Some (stem, p)) \<Longrightarrow> (\<And>st q. fb = Some (st, q) \<Longrightarrow> pk_status q = Locked) \<Longrightarrow>
   pk_status p = Locked"
  by (induction i k ps fb rule: scan_locked.induct)
    (auto dest: load_locked_status split: sum.splits if_splits)

lemma find_locked_status: "find_locked s i row = Inr (Some (stem, p)) \<Longrightarrow> pk_status p = Locked"
  by (auto simp: find_locked_def bindE_Inr dest!: scan_locked_status split: option.splits)

lemma view_of_locked: "pk_status p = Locked \<Longrightarrow> view_of p row \<noteq> Draft_view q"
  by (auto simp: view_of_def split: option.splits)

lemma view_of_draftD: "view_of p row = Draft_view q \<Longrightarrow> p = q \<and> pk_status q = Draft"
  by (auto simp: view_of_def split: option.splits if_splits)

lemma effective_lock_le: "effective_lock d row = Inr t \<Longrightarrow> t \<le> pk_lock_at d"
  by (auto simp: effective_lock_def bindE_Inr split: option.splits)

lemma get_once_draft:
  "get_pick_once match_id now a s = Stop s1 (Inr (Some (Draft_view p))) \<Longrightarrow>
   now < pk_lock_at p \<and> load_draft s1 match_id = Inr (Some p)"
  by (auto simp: get_pick_once_def retry_or_def Let_def view_of_locked not_le
      dest!: find_locked_status effective_lock_le freeze_InrD sealed_recordD view_of_draftD
      split: option.splits sum.splits prod.splits if_splits)

lemma attempts_get_draft:
  "attempts (get_pick_once match_id now) as s = (s1, Inr (Some (Draft_view p))) \<Longrightarrow>
   now < pk_lock_at p \<and> load_draft s1 match_id = Inr (Some p)"
proof (induction as arbitrary: s)
  case Nil
  then show ?case by simp
next
  case (Cons a as)
  show ?case
  proof (cases "get_pick_once match_id now a s")
    case (Retry s')
    with Cons show ?thesis by simp
  next
    case (Stop s' r)
    with Cons.prems have "get_pick_once match_id now a s = Stop s1 (Inr (Some (Draft_view p)))" by simp
    then show ?thesis by (rule get_once_draft)
  qed
qed

lemma delete_once_retry: "delete_pick_once match_id now a s = Retry s' \<Longrightarrow> s' = s"
  by (auto simp: delete_pick_once_def retry_or_def Let_def dest!: freeze_changed'
      split: option.splits sum.splits prod.splits if_splits)

lemma delete_once_true:
  "delete_pick_once match_id now a s = Stop s1 (Inr True) \<Longrightarrow>
   \<exists>d. load_draft s match_id = Inr (Some d) \<and> now < pk_lock_at d \<and>
     dict_get (ps_drafts s1) match_id = None \<and> ps_locked s1 = ps_locked s"
  by (auto simp: delete_pick_once_def retry_or_def Let_def not_le unlink_draft_def dest!: effective_lock_le
      split: option.splits sum.splits prod.splits if_splits)

text \<open>A ledger with one draft and no locked pick.\<close>

definition example_state :: picks_state where
  "example_state = \<lparr> ps_drafts = [(''m1'', file_bytes example_draft)], ps_locked = [], ps_audit = [] \<rparr>"

lemma example_load: "load_draft example_state ''m1'' = Inr (Some example_draft)"
  by (simp add: load_draft_def example_state_def safe_match_id_def safe_char_def is_digit_def
      loads_file_bytes example_draft_valid)

lemma example_draft_simps: "pk_lock_at example_draft = DT 2026 7 19 15 0 0" "pk_status example_draft = Draft"
  by (simp_all add: example_draft_def)

lemma example_row_none: "current_row example_draft [] = None"
  by (simp add: current_row_def find_row_def fallback_row_def split: prod.splits)

lemma example_find: "find_locked example_state i None = Inr None"
  by (simp add: find_locked_def locked_paths_def example_state_def)

lemma example_lock: "effective_lock example_draft (current_row example_draft []) = Inr (DT 2026 7 19 15 0 0)"
  by (simp add: example_row_none effective_lock_def example_draft_simps)

definition example_row :: index_row where
  "example_row = \<lparr> ir_match_id = ''m1'', ir_kickoff = Some (DT 2026 7 19 15 0 0), ir_home_team = ''A'',
     ir_away_team = ''B'', ir_home_norm = ''a'', ir_away_norm = ''b'', ir_competition = None,
     ir_source_kind = ''club'', ir_is_complete = False, ir_home_score = 0, ir_away_score = 0 \<rparr>"

definition example_save_env :: attempt where
  "example_save_env = example_env \<lparr> at_frame := [example_row], at_analysis := Some example_analysis \<rparr>"

text \<open>
  A save is accepted only before the lock.  When \<open>save_pick\<close> returns a view, the clock
  is before the lock time it wrote, that lock time is no later than the fixture's current
  kickoff and, for a pick saved before, no later than the earlier lock time, so a lock never
  moves back; the stored draft holds exactly the given goals, keeps the first snapshot and
  creation time, and no locked file changes.
\<close>

theorem save_only_before_lock:
  assumes "save_pick match_id home away now env s = (s1, Inr v)"
  shows "\<exists>h w a p k r. home = JInt h \<and> away = JInt w \<and> valid_goal h \<and> valid_goal w \<and> a \<in> set (three env) \<and>
     find_row (at_frame a) match_id = Some r \<and> ir_kickoff r = Some k \<and> \<not> ir_is_complete r \<and>
     v = Draft_view p \<and> now < pk_lock_at p \<and> pk_lock_at p \<le> k \<and>
     pk_call p = \<lparr> uc_home = h, uc_away = w, uc_outcome = outcome_of h w \<rparr> \<and>
     (\<forall>d. load_draft s match_id = Inr (Some d) \<longrightarrow>
        pk_lock_at p \<le> pk_lock_at d \<and> pk_created p = pk_created d \<and> pk_match p = pk_match d) \<and>
     dict_get (ps_drafts s1) (ms_match_id (pk_match p)) = Some (file_bytes p) \<and> ps_locked s1 = ps_locked s"
proof -
  obtain h w where g: "home = JInt h" "away = JInt w" "valid_goal h" "valid_goal w"
    and at: "attempts (save_pick_once match_id h w now) (three env) s = (s1, Inr v)"
    using assms
    by (auto simp: save_pick_def validate_goals_def valid_goal_def split: json.splits if_splits sum.splits)
  obtain a where a: "a \<in> set (three env)" "save_pick_once match_id h w now a s = Stop s1 (Inr v)"
    using attempts_Inr[OF _ at] save_once_retry by metis
  from save_once_stop[OF a(2)] a(1) g show ?thesis by blast
qed

lemma example_epoch: "parse_iso ''1970-01-01T00:00:00Z'' = Some (DT 1970 1 1 0 0 0)"
  by (simp add: parse_iso_def Let_def is_digit_def py_slice_def str_nat_def digit_val_def wf_dt_def days_in_month_def)

lemma save_only_before_lock_witness:
  "\<exists>s1 p. save_pick ''m1'' (JInt 2) (JInt 1) (DT 2026 7 18 0 0 0) (\<lambda>_. example_save_env)
       \<lparr> ps_drafts = [], ps_locked = [], ps_audit = [] \<rparr> = (s1, Inr (Draft_view p))
     \<and> pk_lock_at p \<le> DT 2026 7 19 15 0 0"
proof -
  have "\<exists>s1 v. save_pick ''m1'' (JInt 2) (JInt 1) (DT 2026 7 18 0 0 0) (\<lambda>_. example_save_env)
       \<lparr> ps_drafts = [], ps_locked = [], ps_audit = [] \<rparr> = (s1, Inr v)"
    by (simp add: save_pick_def validate_goals_def three_def upt_rec save_pick_once_def example_save_env_def
        example_env_def example_row_def find_row_def find_locked_def locked_paths_def row_kickoff_def
        load_draft_def safe_match_id_def safe_char_def is_digit_def less_eq_dt_def dt_key_def Let_def retry_or_def
        analysis_snapshot_def derive_rival_picks_def example_analysis_def derive_rival_def
        scored_rival_families_def match_snapshot_of_def write_draft_def valid_pick_def valid_match_def
        valid_goal_def valid_rival_def valid_fp_def or_text_def example_epoch wf_dt_def days_in_month_def)
  then obtain s1 v where e: "save_pick ''m1'' (JInt 2) (JInt 1) (DT 2026 7 18 0 0 0) (\<lambda>_. example_save_env)
       \<lparr> ps_drafts = [], ps_locked = [], ps_audit = [] \<rparr> = (s1, Inr v)" by blast
  from save_only_before_lock[OF e] obtain a p k r where
    "a \<in> set (three (\<lambda>_. example_save_env))" "find_row (at_frame a) ''m1'' = Some r" "ir_kickoff r = Some k"
    "v = Draft_view p" "pk_lock_at p \<le> k" by blast
  moreover from this have "k = DT 2026 7 19 15 0 0"
    by (auto simp: three_def example_save_env_def find_row_def example_row_def)
  ultimately show ?thesis using e by auto
qed

text \<open>
  After the lock a draft is never shown as a draft.  When \<open>get_pick\<close> shows a draft, the
  clock is before its lock time and the draft is still on disk.
\<close>

theorem get_shows_draft_before_lock:
  assumes "get_pick match_id now env s = (s1, Inr (Some (Draft_view p)))"
  shows "now < pk_lock_at p \<and> load_draft s1 match_id = Inr (Some p)"
  using assms unfolding get_pick_def by (rule attempts_get_draft)

lemma get_shows_draft_before_lock_witness:
  "DT 2026 7 18 0 0 0 < pk_lock_at example_draft \<and> load_draft example_state ''m1'' = Inr (Some example_draft)"
  by (rule get_shows_draft_before_lock[of "''m1''" _ "\<lambda>_. example_env" example_state])
    (simp add: get_pick_def three_def upt_rec get_pick_once_def example_load example_lock example_find
      example_env_def find_row_def view_of_def example_draft_simps less_eq_dt_def dt_key_def Let_def)

text \<open>
  A deletion happens only before the lock.  When \<open>delete_pick\<close> reports success, there
  was a draft whose lock time is still ahead, that draft is gone, and no locked file
  changed.
\<close>

theorem delete_only_before_lock:
  assumes "delete_pick match_id now env s = (s1, Inr True)"
  shows "\<exists>d. load_draft s match_id = Inr (Some d) \<and> now < pk_lock_at d \<and>
     dict_get (ps_drafts s1) match_id = None \<and> ps_locked s1 = ps_locked s"
proof -
  obtain a where "delete_pick_once match_id now a s = Stop s1 (Inr True)"
    using attempts_Inr[OF _ assms[unfolded delete_pick_def]] delete_once_retry by metis
  then show ?thesis by (rule delete_once_true)
qed

lemma delete_only_before_lock_witness:
  "\<exists>d. load_draft example_state ''m1'' = Inr (Some d) \<and> DT 2026 7 18 0 0 0 < pk_lock_at d"
proof -
  have "\<exists>s1. delete_pick ''m1'' (DT 2026 7 18 0 0 0) (\<lambda>_. example_env) example_state = (s1, Inr True)"
    by (simp add: delete_pick_def three_def upt_rec delete_pick_once_def example_load example_find
        example_env_def example_row_none effective_lock_def Let_def retry_or_def
        example_draft_simps less_eq_dt_def dt_key_def)
  then obtain s1 where "delete_pick ''m1'' (DT 2026 7 18 0 0 0) (\<lambda>_. example_env) example_state = (s1, Inr True)" ..
  from delete_only_before_lock[OF this] show ?thesis by blast
qed

text \<open>
  Reading a due draft locks it.  If the draft's lock time has come, no locked pick
  stands for the match and the files can be written, \<open>get_pick\<close> returns the sealed record,
  stores it under its content id, removes the draft and appends one audit line; the sealed
  record carries the draft's call, rivals, fingerprint and snapshot, and locks at the
  earlier of the stored lock time and the fixture's current kickoff.
\<close>

theorem due_draft_is_locked:
  assumes "load_draft s match_id = Inr (Some d)" "ms_match_id (pk_match d) = match_id"
    and "find_locked s match_id (find_row (at_frame (env 0)) match_id) = Inr None"
    and "effective_lock d (current_row d (at_frame (env 0))) = Inr lock_at" "lock_at \<le> now" "wf_dt lock_at"
    and "at_commit (env 0)" "at_io (env 0) = Io_ok"
    and "\<forall>r i. sealed_record d lock_at = Some r \<and> pk_id r = Some i \<longrightarrow> dict_get (ps_locked s) i = None"
  shows "\<exists>r i s1. sealed_record d lock_at = Some r \<and> pk_id r = Some i \<and>
     get_pick match_id now env s = (s1, Inr (Some (view_of r (current_row d (at_frame (env 0)))))) \<and>
     pk_call r = pk_call d \<and> pk_rivals r = pk_rivals d \<and> pk_fp r = pk_fp d \<and> pk_match r = pk_match d \<and>
     lock_at \<le> pk_lock_at d \<and> pk_locked_at r = Some lock_at \<and>
     ps_locked s1 = dict_set i (file_bytes r) (ps_locked s) \<and> ps_drafts s1 = dict_pop match_id (ps_drafts s) \<and>
     length (ps_audit s1) = Suc (length (ps_audit s))"
proof -
  have d: "valid_pick d" "safe_match_id match_id"
    using load_draft_valid[OF assms(1)] by auto
  obtain r where r: "sealed_record d lock_at = Some r" using sealed_record_valid[OF d(1) assms(6)] by blast
  note sd = sealed_recordD[OF r]
  then obtain i where i: "pk_id r = Some i" by blast
  have wl: "write_locked (env 0) match_id r s =
      (unlink_draft match_id (s \<lparr> ps_locked := dict_set i (file_bytes r) (ps_locked s) \<rparr>), Inr ())"
    using sealed_verifies[OF r, of None] assms(7,8) assms(9) r i d(2)
    by (simp add: write_locked_def Let_def)
  have fz: "freeze (env 0) d (current_row d (at_frame (env 0))) True s =
      (append_audit ''pick_locked'' r lock_at
         (unlink_draft match_id (s \<lparr> ps_locked := dict_set i (file_bytes r) (ps_locked s) \<rparr>)), Inr r)"
    using assms(2,4,8) r wl by (simp add: freeze_def)
  have le: "lock_at \<le> pk_lock_at d"
    using assms(4) by (auto simp: effective_lock_def bindE_Inr split: option.splits)
  have "get_pick_once match_id now (env 0) s =
      Stop (append_audit ''pick_locked'' r lock_at
         (unlink_draft match_id (s \<lparr> ps_locked := dict_set i (file_bytes r) (ps_locked s) \<rparr>)))
       (Inr (Some (view_of r (current_row d (at_frame (env 0))))))"
    using assms(1,3,4,5) fz by (simp add: get_pick_once_def Let_def retry_or_def)
  then show ?thesis
    using r i sd le
    by (auto simp: get_pick_def three_def upt_rec append_audit_def unlink_draft_def Let_def)
qed

lemma due_draft_is_locked_witness:
  "\<exists>r s1. get_pick ''m1'' (DT 2026 7 20 0 0 0) (\<lambda>_. example_env) example_state = (s1, Inr (Some (Void_view r)))
     \<and> pk_call r = pk_call example_draft"
proof -
  have m: "ms_match_id (pk_match example_draft) = ''m1''" by (simp add: example_draft_def example_match_def)
  obtain r i s1 where "sealed_record example_draft (DT 2026 7 19 15 0 0) = Some r"
    "get_pick ''m1'' (DT 2026 7 20 0 0 0) (\<lambda>_. example_env) example_state = (s1, Inr (Some (view_of r None)))"
    "pk_call r = pk_call example_draft"
    using due_draft_is_locked[of example_state "''m1''" example_draft "\<lambda>_. example_env" "DT 2026 7 19 15 0 0"
        "DT 2026 7 20 0 0 0"] example_load m example_find example_lock example_row_none
    by (auto simp: example_env_def find_row_def example_state_def less_eq_dt_def dt_key_def wf_dt_def days_in_month_def)
  moreover have "pk_status r = Locked" using sealed_recordD calculation(1) by blast
  ultimately show ?thesis by (auto simp: view_of_def)
qed

text \<open>
  The summary endpoint aggregates at most the 500 latest picks of the whole ledger,
  before it looks at the season asked for: what it passes to the aggregation is the first
  500 of all views, latest first, and every view it leaves out is no later than every view
  it keeps.
\<close>

theorem summary_covers_latest_500:
  assumes "collect_views env now None None (all_match_ids s) s = (s1, Inr vs)"
  shows "\<exists>items dropped. picks_summary env now season s = (s1, Inr (season_summary items season)) \<and>
     mset (items @ dropped) = mset vs \<and> length items = min 500 (length vs) \<and>
     (\<forall>v \<in> set items. \<forall>w \<in> set dropped. view_key w \<le> view_key v)"
proof -
  let ?vs = "rev (sort_key view_key (rev vs))"
  have "sorted (map view_key (rev ?vs))" by simp
  then have "sorted (rev (map view_key (take 500 ?vs @ drop 500 ?vs)))" by (simp add: rev_map)
  then have le: "\<forall>v \<in> set (take 500 ?vs). \<forall>w \<in> set (drop 500 ?vs). view_key w \<le> view_key v"
    unfolding map_append rev_append sorted_append by auto
  have "mset (take 500 ?vs @ drop 500 ?vs) = mset vs" unfolding append_take_drop_id by simp
  moreover have "picks_summary env now season s = (s1, Inr (season_summary (take 500 ?vs) season))"
    using assms by (simp add: picks_summary_def list_picks_def py_slice_def Let_def)
  moreover have "length (take 500 ?vs) = min 500 (length vs)" by simp
  ultimately show ?thesis using le by blast
qed

lemma summary_covers_latest_500_witness:
  "\<exists>items. picks_summary (\<lambda>_ _. example_env) (DT 2026 7 18 0 0 0) None \<lparr> ps_drafts = [], ps_locked = [], ps_audit = [] \<rparr>
     = (\<lparr> ps_drafts = [], ps_locked = [], ps_audit = [] \<rparr>, Inr (season_summary items None)) \<and> length items = 0"
  using summary_covers_latest_500[of "\<lambda>_ _. example_env" "DT 2026 7 18 0 0 0"
      "\<lparr> ps_drafts = [], ps_locked = [], ps_audit = [] \<rparr>" _ "[]" None]
  by (fastforce simp: all_match_ids_def locked_paths_def)


end
