(* ===== verification/Rounding.thy ===== *)
theory Rounding
  imports Complex_Main Prelude
begin

text \<open>
  Python's \<open>round(x, k)\<close> on exact values: the nearest multiple of \<open>10^-k\<close>, ties to even.
  A float is taken as the rational (for a logarithm, the real) it stands for; results are counted in units of the last
  place (micro-units for \<open>round(x, 6)\<close>, nano-units for \<open>round(x, 9)\<close>).
\<close>

definition round_half_even :: "'a::floor_ceiling \<Rightarrow> int" where
  "round_half_even x =
     (let f = \<lfloor>x\<rfloor>; r = x - of_int f in
      if r < 1 / 2 then f else if r > 1 / 2 then f + 1 else if even f then f else f + 1)"

definition round6 :: "'a::floor_ceiling \<Rightarrow> int" where
  "round6 x = round_half_even (x * 1000000)"

definition round9 :: "'a::floor_ceiling \<Rightarrow> int" where
  "round9 x = round_half_even (x * 1000000000)"

lemma round_half_even_error: "\<bar>of_int (round_half_even x) - x\<bar> \<le> 1 / 2"
proof -
  have "of_int \<lfloor>x\<rfloor> \<le> x" "x < of_int \<lfloor>x\<rfloor> + 1" by linarith+
  then show ?thesis unfolding round_half_even_def Let_def by (auto simp: abs_le_iff)
qed

lemma round_half_even_of_int [simp]: "round_half_even (of_int i) = i"
  by (simp add: round_half_even_def)

lemma round6_error: "\<bar>of_int (round6 x) - x * 1000000\<bar> \<le> 1 / 2"
  unfolding round6_def by (rule round_half_even_error)

lemma round9_error: "\<bar>of_int (round9 x) - x * 1000000000\<bar> \<le> 1 / 2"
  unfolding round9_def by (rule round_half_even_error)

lemma round6_micro [simp]: "round6 (of_int i / 1000000) = i"
  by (simp add: round6_def)

lemma round9_nano [simp]: "round9 (of_int i / 1000000000) = i"
  by (simp add: round9_def)

lemma round_half_even_mono: "x \<le> y \<Longrightarrow> round_half_even x \<le> round_half_even y"
proof -
  assume xy: "x \<le> y"
  then have f: "\<lfloor>x\<rfloor> \<le> \<lfloor>y\<rfloor>" by (rule floor_mono)
  have e: "of_int (round_half_even x) - x \<le> 1 / 2" "y - of_int (round_half_even y) \<le> 1 / 2"
    using round_half_even_error[of x] round_half_even_error[of y] by linarith+
  show ?thesis
  proof (cases "\<lfloor>x\<rfloor> = \<lfloor>y\<rfloor>")
    case True
    with xy show ?thesis by (auto simp: round_half_even_def Let_def)
  next
    case False
    with f have "\<lfloor>x\<rfloor> + 1 \<le> \<lfloor>y\<rfloor>" by linarith
    moreover have "round_half_even x \<le> \<lfloor>x\<rfloor> + 1" "\<lfloor>y\<rfloor> \<le> round_half_even y"
      by (auto simp: round_half_even_def Let_def)
    ultimately show ?thesis by linarith
  qed
qed

lemma round_half_even_0 [simp]: "round_half_even 0 = 0"
  using round_half_even_of_int[of 0] unfolding of_int_0 .

lemma round6_nonneg: "0 \<le> x \<Longrightarrow> 0 \<le> round6 x"
  using round_half_even_mono[of 0 "x * 1000000"] by (simp add: round6_def)

end
