(* ===== verification/Score_Matrix.thy ===== *)
theory Score_Matrix
  imports Rounding "HOL-Library.Product_Lexorder"
begin

text \<open>
  \<open>src/core/golavo_core/score_matrix.py\<close>: the exact-score grid of a sealed forecast.  The
  fitted joint distribution is a square list of rows of rationals (rows are home goals);
  the stored object counts probabilities in units of \<open>10^-9\<close>, the stored precision.  The
  canonical form of the sealed probabilities (\<open>canonical_bytes\<close> of \<open>artifacts.py\<close>) is here
  too, because coherence relates the two.

  The main result is \<open>built_matrix_coherent\<close>: the grid built from a normalised matrix
  passes every stored coherence check against the sealed probabilities of that matrix.
\<close>

section \<open>Canonical probabilities\<close>

text \<open>
  Each probability rounded to six places, the drift of the sum added to the first largest.
\<close>

definition canonical_probs :: "rat \<times> rat \<times> rat \<Rightarrow> int \<times> int \<times> int" where
  "canonical_probs p =
     (case p of (home, draw, away) \<Rightarrow>
        let h = round6 home; d = round6 draw; a = round6 away;
            drift = 1000000 - (h + d + a);
            largest = first_max (\<lambda>i. [h, d, a] ! i) (0::nat) [1, 2]
        in (if largest = 0 then h + drift else h,
            if largest = 1 then d + drift else d,
            if largest = 2 then a + drift else a))"

lemma canonical_cases:
  "canonical_probs (x, y, z) =
     (let h = round6 x; d = round6 y; a = round6 z; e = 1000000 - (h + d + a) in
      if d \<le> h \<and> a \<le> h then (h + e, d, a) else if h < d \<and> a \<le> d then (h, d + e, a) else (h, d, a + e))"
  by (auto simp: canonical_probs_def Let_def)

lemma canonical_sum: "canonical_probs p = (h, d, a) \<Longrightarrow> h + d + a = 1000000"
  by (cases p) (auto simp: canonical_cases Let_def split: if_splits)

lemma canonical_fixed:
  "h + d + a = 1000000 \<Longrightarrow>
   canonical_probs (of_int h / 1000000, of_int d / 1000000, of_int a / 1000000) = (h, d, a)"
  by (simp add: canonical_cases)

lemma int_below_two: "\<bar>of_int e\<bar> \<le> (3 / 2 :: rat) \<Longrightarrow> \<bar>of_int e\<bar> \<le> (1 :: rat)"
proof -
  assume "\<bar>of_int e\<bar> \<le> (3 / 2 :: rat)"
  then have "of_int \<bar>e\<bar> < (of_int 2 :: rat)" unfolding of_int_abs by simp
  then have "\<bar>e\<bar> \<le> 1" unfolding of_int_less_iff by simp
  then have "of_int \<bar>e\<bar> \<le> (of_int 1 :: rat)" unfolding of_int_le_iff .
  then show ?thesis by simp
qed

lemma canonical_error:
  assumes "x + y + z = 1" "canonical_probs (x, y, z) = (h, d, a)"
  shows "\<bar>of_int h - x * 1000000\<bar> \<le> 3 / 2 \<and> \<bar>of_int d - y * 1000000\<bar> \<le> 3 / 2 \<and> \<bar>of_int a - z * 1000000\<bar> \<le> 3 / 2"
proof -
  obtain e where e: "e = 1000000 - (round6 x + round6 y + round6 z)" by simp
  note r = round6_error[of x] round6_error[of y] round6_error[of z]
  have "x * 1000000 + y * 1000000 + z * 1000000 = 1000000"
    unfolding distrib_right[symmetric] assms(1) by simp
  moreover have "of_int e = (1000000 - (of_int (round6 x) + of_int (round6 y) + of_int (round6 z)) :: rat)"
    by (simp add: e)
  ultimately have "\<bar>of_int e :: rat\<bar> \<le> 3 / 2" using r by linarith
  then have e1: "\<bar>of_int e :: rat\<bar> \<le> 1" by (rule int_below_two)
  have shift: "\<bar>of_int (round6 v + e) - v * 1000000\<bar> \<le> 3 / 2" for v :: rat
    using round6_error[of v] e1 unfolding of_int_add by linarith
  have keep: "\<bar>of_int (round6 v) - v * 1000000\<bar> \<le> 3 / 2" for v :: rat
    using round6_error[of v] by linarith
  have "(h, d, a) = (round6 x + e, round6 y, round6 z) \<or> (h, d, a) = (round6 x, round6 y + e, round6 z)
          \<or> (h, d, a) = (round6 x, round6 y, round6 z + e)"
    using assms(2) unfolding canonical_cases Let_def e[symmetric] by (simp split: if_splits)
  then show ?thesis using shift keep by (elim disjE) (simp_all only: prod.inject)
qed

section \<open>The matrix and the stored grid\<close>

type_synonym matrix = "rat list list"

text \<open>The sum of \<open>f i j\<close> over a square of the given side.\<close>

definition square_sum :: "nat \<Rightarrow> (nat \<Rightarrow> nat \<Rightarrow> 'a::comm_monoid_add) \<Rightarrow> 'a" where
  "square_sum n f = sum_list (map (\<lambda>i. sum_list (map (f i) [0..<n])) [0..<n])"

definition outcome_probabilities :: "matrix \<Rightarrow> rat \<times> rat \<times> rat" where
  "outcome_probabilities m =
     (square_sum (length m) (\<lambda>i j. if i > j then m ! i ! j else 0),
      square_sum (length m) (\<lambda>i j. if i = j then m ! i ! j else 0),
      square_sum (length m) (\<lambda>i j. if i < j then m ! i ! j else 0))"

definition expected_goals :: "matrix \<Rightarrow> rat \<times> rat" where
  "expected_goals m =
     (square_sum (length m) (\<lambda>i j. m ! i ! j * of_nat i),
      square_sum (length m) (\<lambda>i j. m ! i ! j * of_nat j))"

record score_matrix =
  sm_max_goals :: nat
  sm_resolution :: nat
  sm_grid :: "int list list"
  sm_tail :: int
  sm_tail_home :: int
  sm_tail_draw :: int
  sm_tail_away :: int
  sm_likely_home :: nat
  sm_likely_away :: nat
  sm_likely_probability :: int
  sm_total :: int

definition score_matrix_display_n :: nat where
  "score_matrix_display_n = 7"

text \<open>The cells in reading order, and the key of the most likely one.\<close>

definition cells :: "nat \<Rightarrow> (nat \<times> nat) list" where
  "cells n = concat (map (\<lambda>i. map (\<lambda>j. (i, j)) [0..<n]) [0..<n])"

definition cell_key :: "int list list \<Rightarrow> nat \<times> nat \<Rightarrow> int \<times> int \<times> int" where
  "cell_key grid c = (case c of (i, j) \<Rightarrow> (grid ! i ! j, - int i, - int j))"

definition argmax_cell :: "int list list \<Rightarrow> nat \<Rightarrow> nat \<times> nat" where
  "argmax_cell grid n = (case cells n of [] \<Rightarrow> (0, 0) | c # cs \<Rightarrow> first_max (cell_key grid) c cs)"

definition build_score_matrix :: "nat \<Rightarrow> matrix \<Rightarrow> score_matrix" where
  "build_score_matrix n m =
     (let outside = (\<lambda>i j. if i \<le> n \<and> j \<le> n then 0 else m ! i ! j);
          tail_home = round9 (square_sum (length m) (\<lambda>i j. if i > j then outside i j else 0));
          tail_draw = round9 (square_sum (length m) (\<lambda>i j. if i = j then outside i j else 0));
          tail_away = round9 (square_sum (length m) (\<lambda>i j. if i < j then outside i j else 0));
          tail = tail_home + tail_draw + tail_away;
          grid = map (\<lambda>i. map (\<lambda>j. round9 (m ! i ! j)) [0..<n + 1]) [0..<n + 1];
          likely = argmax_cell grid (n + 1)
      in \<lparr> sm_max_goals = n, sm_resolution = length m - 1, sm_grid = grid, sm_tail = tail,
           sm_tail_home = tail_home, sm_tail_draw = tail_draw, sm_tail_away = tail_away,
           sm_likely_home = fst likely, sm_likely_away = snd likely,
           sm_likely_probability = grid ! fst likely ! snd likely,
           sm_total = square_sum (n + 1) (\<lambda>i j. grid ! i ! j) + tail \<rparr>)"

section \<open>Stored coherence\<close>

definition stored_marginals :: "score_matrix \<Rightarrow> int \<times> int \<times> int" where
  "stored_marginals s =
     (let n = sm_max_goals s + 1; grid = sm_grid s in
      (square_sum n (\<lambda>i j. if i > j then grid ! i ! j else 0) + sm_tail_home s,
       square_sum n (\<lambda>i j. if i = j then grid ! i ! j else 0) + sm_tail_draw s,
       square_sum n (\<lambda>i j. if i < j then grid ! i ! j else 0) + sm_tail_away s))"

datatype violation =
    Grid_shape | Tail_decomposition | Total_not_one | Total_disagrees
  | Marginal_home | Marginal_draw | Marginal_away | Likely_not_argmax | Likely_probability

definition prob_tolerance :: rat where
  "prob_tolerance = 1 / 100000"

text \<open>A stored figure as the number it stands for, and the test \<open>abs(x - want) > tol\<close> on it.\<close>

definition nano :: "int \<Rightarrow> rat" where
  "nano i = of_int i / 1000000000"

definition off :: "int \<Rightarrow> rat \<Rightarrow> bool" where
  "off i want \<longleftrightarrow> \<bar>nano i - want\<bar> > prob_tolerance"

definition flag :: "bool \<Rightarrow> violation \<Rightarrow> violation list" where
  "flag b v = (if b then [v] else [])"

definition stored_coherence_violations :: "score_matrix \<Rightarrow> rat \<times> rat \<times> rat \<Rightarrow> violation list" where
  "stored_coherence_violations s probs =
     (let n = sm_max_goals s; grid = sm_grid s in
      if length grid \<noteq> n + 1 \<or> \<not> list_all (\<lambda>row. length row = n + 1) grid then [Grid_shape]
      else
        (let total = sum_list (map sum_list grid) + sm_tail s;
             best = argmax_cell grid (n + 1)
         in (case (probs, stored_marginals s) of ((wh, wd, wa), (home, draw, away)) \<Rightarrow>
           flag (off (sm_tail_home s + sm_tail_draw s + sm_tail_away s) (nano (sm_tail s))) Tail_decomposition
           @ flag (off total 1) Total_not_one
           @ flag (off (sm_total s) (nano total)) Total_disagrees
           @ flag (off home wh) Marginal_home
           @ flag (off draw wd) Marginal_draw
           @ flag (off away wa) Marginal_away
           @ (if (sm_likely_home s, sm_likely_away s) \<noteq> best then [Likely_not_argmax]
              else flag (off (sm_likely_probability s) (nano (grid ! fst best ! snd best))) Likely_probability))))"

definition goals_tolerance :: rat where
  "goals_tolerance = 1 / 10000"

text \<open>The check made before a seal is written; \<open>eg\<close> is the sealed expected goals.\<close>

definition model_coherent :: "matrix \<Rightarrow> score_matrix \<Rightarrow> rat \<times> rat \<times> rat \<Rightarrow> rat \<times> rat \<Rightarrow> bool" where
  "model_coherent m s probs eg \<longleftrightarrow>
     (case (outcome_probabilities m, probs, expected_goals m, eg) of
        ((h, d, a), (wh, wd, wa), (gh, ga), (eh, ea)) \<Rightarrow>
          \<bar>h - wh\<bar> \<le> prob_tolerance \<and> \<bar>d - wd\<bar> \<le> prob_tolerance \<and> \<bar>a - wa\<bar> \<le> prob_tolerance \<and>
          \<bar>gh - eh\<bar> \<le> goals_tolerance \<and> \<bar>ga - ea\<bar> \<le> goals_tolerance)
     \<and> stored_coherence_violations s probs = []"

section \<open>Derived markets\<close>

definition double_chance :: "int \<times> int \<times> int \<Rightarrow> int \<times> int \<times> int" where
  "double_chance p = (case p of (home, draw, away) \<Rightarrow> (home + draw, home + away, draw + away))"

text \<open>Totals \<open>0..n\<close>, then everything from \<open>n + 1\<close> up.\<close>

definition total_goals_bands :: "score_matrix \<Rightarrow> int list" where
  "total_goals_bands s =
     (let n = sm_max_goals s; grid = sm_grid s in
      map (\<lambda>t. square_sum (n + 1) (\<lambda>i j. if i + j = t then grid ! i ! j else 0)) [0..<n + 1]
      @ [sm_tail s + square_sum (n + 1) (\<lambda>i j. if i + j \<le> n then 0 else grid ! i ! j)])"

definition total_goals_over_under :: "score_matrix \<Rightarrow> rat \<Rightarrow> (int \<times> int) option" where
  "total_goals_over_under s line =
     (let n = sm_max_goals s; grid = sm_grid s in
      if \<not> (0 < line \<and> line < of_nat (n + 1)) then None
      else Some (sm_tail s + square_sum (n + 1) (\<lambda>i j. if of_nat (i + j) > line then grid ! i ! j else 0),
                 square_sum (n + 1) (\<lambda>i j. if of_nat (i + j) > line then 0 else grid ! i ! j)))"

section \<open>Sums over squares\<close>

lemma square_sum_set: "square_sum n f = (\<Sum>i<n. \<Sum>j<n. f i j)"
  by (simp add: square_sum_def interv_sum_list_conv_sum_set_nat atLeast0LessThan)

lemma square_sum_add: "square_sum n (\<lambda>i j. f i j + g i j) = square_sum n f + square_sum n g"
  by (simp add: square_sum_set sum.distrib)

lemma square_sum_cong: "(\<And>i j. i < n \<Longrightarrow> j < n \<Longrightarrow> f i j = g i j) \<Longrightarrow> square_sum n f = square_sum n g"
  by (simp add: square_sum_set)

lemma square_sum_zero: "(\<And>i j. i < n \<Longrightarrow> j < n \<Longrightarrow> f i j = 0) \<Longrightarrow> square_sum n f = 0"
  by (simp add: square_sum_set)

lemma square_sum_of_int: "of_int (square_sum n f) = square_sum n (\<lambda>i j. of_int (f i j))"
  by (simp add: square_sum_set of_int_sum)

lemma square_sum_mult: "square_sum n (\<lambda>i j. f i j * c) = square_sum n f * (c::rat)"
  by (simp add: square_sum_set sum_distrib_right)

text \<open>A square inside a larger one, and what lies outside it.\<close>

lemma square_sum_split:
  assumes "k \<le> n"
  shows "square_sum n f = square_sum k f + square_sum n (\<lambda>i j. if i < k \<and> j < k then 0 else f i j)"
proof -
  have "square_sum n f = square_sum n (\<lambda>i j. if i < k \<and> j < k then f i j else 0)
          + square_sum n (\<lambda>i j. if i < k \<and> j < k then 0 else f i j)"
    unfolding square_sum_add[symmetric] by (rule square_sum_cong) simp
  moreover have "square_sum n (\<lambda>i j. if i < k \<and> j < k then f i j else 0) = square_sum k f"
  proof -
    have inner: "(\<Sum>j<n. if i < k \<and> j < k then f i j else 0) = (if i < k then \<Sum>j<k. f i j else 0)" for i
    proof (cases "i < k")
      case True
      have "(\<Sum>j<n. if j < k then f i j else 0) = (\<Sum>j\<in>{..<n} \<inter> {j. j < k}. f i j)"
        by (simp add: sum.inter_restrict)
      also have "{..<n} \<inter> {j. j < k} = {..<k}" using assms by auto
      finally show ?thesis using True by simp
    qed simp
    have "(\<Sum>i<n. if i < k then \<Sum>j<k. f i j else 0) = (\<Sum>i\<in>{..<n} \<inter> {i. i < k}. \<Sum>j<k. f i j)"
      by (simp add: sum.inter_restrict)
    also have "{..<n} \<inter> {i. i < k} = {..<k}" using assms by auto
    finally show ?thesis by (simp add: square_sum_set inner)
  qed
  ultimately show ?thesis by simp
qed

lemma sum_bound: "(\<And>i. i < n \<Longrightarrow> \<bar>g i\<bar> \<le> c) \<Longrightarrow> \<bar>\<Sum>i<n. g i\<bar> \<le> of_nat n * (c::rat)"
proof -
  assume "\<And>i. i < n \<Longrightarrow> \<bar>g i\<bar> \<le> c"
  then have "(\<Sum>i<n. \<bar>g i\<bar>) \<le> of_nat n * c"
    using sum_bounded_above[of "{..<n}" "\<lambda>i. \<bar>g i\<bar>" c] by simp
  with sum_abs[of g "{..<n}"] show ?thesis by (rule order_trans)
qed

lemma square_sum_bound:
  "(\<And>i j. i < n \<Longrightarrow> j < n \<Longrightarrow> \<bar>f i j\<bar> \<le> c) \<Longrightarrow> \<bar>square_sum n f\<bar> \<le> of_nat n * (of_nat n * (c::rat))"
  unfolding square_sum_set by (intro sum_bound) auto

lemma square_sum_diff: "square_sum n f - square_sum n g = square_sum n (\<lambda>i j. f i j - (g i j :: rat))"
  by (simp add: square_sum_set sum_subtractf)

lemma square_sum_outcomes:
  "square_sum n (\<lambda>i j. if i > j then f i j else 0) + square_sum n (\<lambda>i j. if i = j then f i j else 0)
     + square_sum n (\<lambda>i j. if i < j then f i j else 0) = square_sum n f"
  unfolding square_sum_add[symmetric] by (rule square_sum_cong) auto

lemma sum_list_grid:
  "sum_list (map sum_list (map (\<lambda>i. map (f i) [0..<n]) [0..<n])) = square_sum n f"
  by (simp add: square_sum_def comp_def)

section \<open>The built grid is coherent\<close>

text \<open>The rounding error of one outcome: half a unit per displayed cell and half for the tail.\<close>

lemma bucket_error:
  fixes f :: "nat \<Rightarrow> nat \<Rightarrow> rat"
  assumes "n < N"
  shows "\<bar>of_int (square_sum (n + 1) (\<lambda>i j. if P i j then round9 (f i j) else 0)
             + round9 (square_sum N (\<lambda>i j. if P i j then (if i \<le> n \<and> j \<le> n then 0 else f i j) else 0)))
           - square_sum N (\<lambda>i j. if P i j then f i j else 0) * 1000000000\<bar>
         \<le> of_nat (n + 1) * (of_nat (n + 1) * (1 / 2)) + 1 / 2"
proof -
  let ?in = "\<lambda>i j. if P i j then f i j else 0"
  let ?out = "square_sum N (\<lambda>i j. if P i j then (if i \<le> n \<and> j \<le> n then 0 else f i j) else 0)"
  have "square_sum N ?in = square_sum (n + 1) ?in + square_sum N (\<lambda>i j. if i < n + 1 \<and> j < n + 1 then 0 else ?in i j)"
    using assms by (intro square_sum_split) simp
  also have "square_sum N (\<lambda>i j. if i < n + 1 \<and> j < n + 1 then 0 else ?in i j) = ?out"
    by (rule square_sum_cong) auto
  finally have split: "square_sum N ?in * 1000000000 = square_sum (n + 1) (\<lambda>i j. ?in i j * 1000000000) + ?out * 1000000000"
    unfolding square_sum_mult by (simp add: distrib_right)
  have "\<bar>square_sum (n + 1) (\<lambda>i j. of_int (if P i j then round9 (f i j) else 0) - ?in i j * 1000000000)\<bar>
          \<le> of_nat (n + 1) * (of_nat (n + 1) * (1 / 2))"
    using round9_error[where 'a = rat] by (intro square_sum_bound) simp
  then have "\<bar>of_int (square_sum (n + 1) (\<lambda>i j. if P i j then round9 (f i j) else 0))
               - square_sum (n + 1) (\<lambda>i j. ?in i j * 1000000000)\<bar> \<le> of_nat (n + 1) * (of_nat (n + 1) * (1 / 2))"
    unfolding square_sum_of_int square_sum_diff .
  then show ?thesis using round9_error[of ?out] unfolding split of_int_add by linarith
qed

lemma built_fields:
  "sm_max_goals (build_score_matrix n m) = n"
  "sm_grid (build_score_matrix n m) = map (\<lambda>i. map (\<lambda>j. round9 (m ! i ! j)) [0..<n + 1]) [0..<n + 1]"
  "sm_tail (build_score_matrix n m)
     = sm_tail_home (build_score_matrix n m) + sm_tail_draw (build_score_matrix n m) + sm_tail_away (build_score_matrix n m)"
  "sm_total (build_score_matrix n m)
     = square_sum (n + 1) (\<lambda>i j. round9 (m ! i ! j)) + sm_tail (build_score_matrix n m)"
  by (auto simp: build_score_matrix_def Let_def simp del: upt_Suc intro!: square_sum_cong)

lemma built_likely:
  "(sm_likely_home (build_score_matrix n m), sm_likely_away (build_score_matrix n m))
     = argmax_cell (sm_grid (build_score_matrix n m)) (n + 1)"
  "sm_likely_probability (build_score_matrix n m)
     = sm_grid (build_score_matrix n m) ! sm_likely_home (build_score_matrix n m) ! sm_likely_away (build_score_matrix n m)"
  by (simp_all add: build_score_matrix_def Let_def del: upt_Suc)

lemma built_marginals:
  assumes "n < length m" "outcome_probabilities m = (h, d, a)" "stored_marginals (build_score_matrix n m) = (sh, sd, sa)"
  defines "b \<equiv> of_nat (n + 1) * (of_nat (n + 1) * (1 / 2)) + (1 / 2 :: rat)"
  shows "\<bar>of_int sh - h * 1000000000\<bar> \<le> b" "\<bar>of_int sd - d * 1000000000\<bar> \<le> b" "\<bar>of_int sa - a * 1000000000\<bar> \<le> b"
    and "sh + sd + sa = sm_total (build_score_matrix n m)"
proof -
  have cell: "square_sum (n + 1) (\<lambda>i j. if P i j then sm_grid (build_score_matrix n m) ! i ! j else 0)
           = square_sum (n + 1) (\<lambda>i j. if P i j then round9 (m ! i ! j) else 0)" for P
    by (rule square_sum_cong) (simp add: built_fields del: upt_Suc)
  have marg: "sh = square_sum (n + 1) (\<lambda>i j. if i > j then round9 (m ! i ! j) else 0) + sm_tail_home (build_score_matrix n m)"
      "sd = square_sum (n + 1) (\<lambda>i j. if i = j then round9 (m ! i ! j) else 0) + sm_tail_draw (build_score_matrix n m)"
      "sa = square_sum (n + 1) (\<lambda>i j. if i < j then round9 (m ! i ! j) else 0) + sm_tail_away (build_score_matrix n m)"
    using assms(3) unfolding stored_marginals_def Let_def built_fields(1) cell by simp_all
  have tails: "sm_tail_home (build_score_matrix n m) = round9 (square_sum (length m) (\<lambda>i j. if i > j then (if i \<le> n \<and> j \<le> n then 0 else m ! i ! j) else 0))"
      "sm_tail_draw (build_score_matrix n m) = round9 (square_sum (length m) (\<lambda>i j. if i = j then (if i \<le> n \<and> j \<le> n then 0 else m ! i ! j) else 0))"
      "sm_tail_away (build_score_matrix n m) = round9 (square_sum (length m) (\<lambda>i j. if i < j then (if i \<le> n \<and> j \<le> n then 0 else m ! i ! j) else 0))"
    by (simp_all add: build_score_matrix_def Let_def del: upt_Suc)
  have probs: "h = square_sum (length m) (\<lambda>i j. if i > j then m ! i ! j else 0)"
      "d = square_sum (length m) (\<lambda>i j. if i = j then m ! i ! j else 0)"
      "a = square_sum (length m) (\<lambda>i j. if i < j then m ! i ! j else 0)"
    using assms(2) by (simp_all add: outcome_probabilities_def)
  show "\<bar>of_int sh - h * 1000000000\<bar> \<le> b" "\<bar>of_int sd - d * 1000000000\<bar> \<le> b" "\<bar>of_int sa - a * 1000000000\<bar> \<le> b"
    unfolding marg tails probs b_def by (rule bucket_error[OF assms(1)])+
  show "sh + sd + sa = sm_total (build_score_matrix n m)"
    unfolding marg built_fields(3,4) square_sum_outcomes[of "n + 1" "\<lambda>i j. round9 (m ! i ! j)", symmetric] by simp
qed

lemma built_grid_ok:
  "length (sm_grid (build_score_matrix n m)) = n + 1"
  "list_all (\<lambda>row. length row = n + 1) (sm_grid (build_score_matrix n m))"
  by (auto simp: built_fields list_all_iff simp del: upt_Suc)

lemma built_total: "sum_list (map sum_list (sm_grid (build_score_matrix n m))) + sm_tail (build_score_matrix n m) = sm_total (build_score_matrix n m)"
  unfolding built_fields(2,4) sum_list_grid ..

text \<open>The tail as one bucket: three rounded outcomes, so at most 3/2 units off.\<close>

lemma built_tail_error:
  "\<bar>of_int (sm_tail (build_score_matrix n m))
     - square_sum (length m) (\<lambda>i j. if i \<le> n \<and> j \<le> n then 0 else m ! i ! j) * 1000000000\<bar> \<le> 3 / 2"
proof -
  let ?o = "\<lambda>i j. if i \<le> n \<and> j \<le> n then 0 else m ! i ! j"
  let ?h = "square_sum (length m) (\<lambda>i j. if i > j then ?o i j else 0)"
  let ?d = "square_sum (length m) (\<lambda>i j. if i = j then ?o i j else 0)"
  let ?a = "square_sum (length m) (\<lambda>i j. if i < j then ?o i j else 0)"
  have "sm_tail (build_score_matrix n m) = round9 ?h + round9 ?d + round9 ?a"
    by (simp add: build_score_matrix_def Let_def del: upt_Suc)
  moreover have "square_sum (length m) ?o = ?h + ?d + ?a"
    by (rule square_sum_outcomes[symmetric])
  ultimately show ?thesis
    using round9_error[of ?h] round9_error[of ?d] round9_error[of ?a]
    unfolding abs_le_iff by (simp only: of_int_add distrib_right) linarith
qed

lemma built_coherent:
  assumes "7 < length m" "outcome_probabilities m = (h, d, a)" "h + d + a = 1"
    and near: "\<bar>wh - h\<bar> \<le> 3 / 2000000" "\<bar>wd - d\<bar> \<le> 3 / 2000000" "\<bar>wa - a\<bar> \<le> 3 / 2000000"
  shows "stored_coherence_violations (build_score_matrix score_matrix_display_n m) (wh, wd, wa) = []"
proof -
  let ?s = "build_score_matrix 7 m"
  obtain sh sd sa where st: "stored_marginals ?s = (sh, sd, sa)" by (cases "stored_marginals ?s")
  have b: "of_nat (7 + 1) * (of_nat (7 + 1) * (1 / 2)) + 1 / 2 = (65 / 2 :: rat)" by simp
  note mg = built_marginals[OF assms(1,2) st, unfolded b]
  have cell: "\<not> off s w"
    if "\<bar>of_int s - x * 1000000000\<bar> \<le> (65 / 2 :: rat)" "\<bar>w - x\<bar> \<le> 3 / 2000000" for s w x
    using that unfolding off_def nano_def prob_tolerance_def abs_le_iff not_less by linarith
  have c: "\<not> off sh wh" "\<not> off sd wd" "\<not> off sa wa"
    using cell[OF mg(1) near(1)] cell[OF mg(2) near(2)] cell[OF mg(3) near(3)] by simp_all
  have "of_int (sm_total ?s) = (of_int sh + of_int sd + of_int sa :: rat)"
    unfolding mg(4)[symmetric] by simp
  moreover have "h * 1000000000 + d * 1000000000 + a * 1000000000 = 1000000000"
    unfolding distrib_right[symmetric] assms(3) by simp
  ultimately have t: "\<not> off (sm_total ?s) 1"
    using mg(1,2,3) unfolding off_def nano_def prob_tolerance_def abs_le_iff not_less by linarith
  have same: "\<not> off i (nano i)" for i by (simp add: off_def prob_tolerance_def)
  show ?thesis
    unfolding score_matrix_display_n_def stored_coherence_violations_def Let_def st prod.case
      built_total built_fields(1)
    using c t same built_likely(1)[of 7 m, symmetric] built_likely(2)[of 7 m] built_grid_ok[of 7 m] built_fields(3)[of 7 m]
    by (auto simp: flag_def)
qed

text \<open>
  The score grid built from a normalised joint matrix (any square matrix wider than the
  display cap whose cells sum to one) passes every stored coherence check against the
  probabilities of that matrix, both as they are and in the six-decimal canonical form that is
  sealed.
\<close>

theorem built_matrix_coherent:
  assumes "7 < length m"
    and "outcome_probabilities m = (h, d, a)" "h + d + a = 1"
    and "canonical_probs (h, d, a) = (ph, pd, pa)"
  shows "stored_coherence_violations (build_score_matrix score_matrix_display_n m) (h, d, a) = []
       \<and> stored_coherence_violations (build_score_matrix score_matrix_display_n m)
           (of_int ph / 1000000, of_int pd / 1000000, of_int pa / 1000000) = []"
proof -
  have near: "\<bar>of_int p / 1000000 - x\<bar> \<le> 3 / 2000000" if "\<bar>of_int p - x * 1000000\<bar> \<le> (3 / 2 :: rat)" for p x
    using that unfolding abs_le_iff by linarith
  show ?thesis
    using built_coherent[OF assms(1-3)] near canonical_error[OF assms(3,4)] by simp
qed

definition uniform_matrix :: matrix where
  "uniform_matrix = replicate 8 (replicate 8 (1 / 64))"

lemma uniform_outcomes: "outcome_probabilities uniform_matrix = (7 / 16, 1 / 8, 7 / 16)"
  by (simp add: outcome_probabilities_def uniform_matrix_def square_sum_def upt_rec)

lemma uniform_canonical: "canonical_probs (7 / 16, 1 / 8, 7 / 16) = (437500, 125000, 437500)"
  using canonical_fixed[of 437500 125000 437500] by simp

lemma built_matrix_coherent_witness:
  "stored_coherence_violations (build_score_matrix score_matrix_display_n uniform_matrix)
     (of_int 437500 / 1000000, of_int 125000 / 1000000, of_int 437500 / 1000000) = []"
  using built_matrix_coherent[OF _ uniform_outcomes _ uniform_canonical] by (simp add: uniform_matrix_def)

section \<open>The derived markets are marginals\<close>

lemma if_not: "(if \<not> b then x else y) = (if b then y else x)"
  by simp

lemma square_sum_compl:
  "square_sum n (\<lambda>i j. if P i j then f i j else 0) + square_sum n (\<lambda>i j. if P i j then 0 else f i j) = square_sum n f"
  unfolding square_sum_add[symmetric] by (rule square_sum_cong) auto

text \<open>
  For every line the function accepts, the over and under figures of a built grid are the
  true probabilities of the joint matrix up to rounding (33.5 units of the ninth decimal), and
  they add up to the stored total: the whole tail belongs to the over side.
\<close>

theorem over_under_true:
  assumes "n < length m" "total_goals_over_under (build_score_matrix n m) line = Some (ovr, und)"
  shows "\<bar>of_int ovr - square_sum (length m) (\<lambda>i j. if of_nat (i + j) > line then m ! i ! j else 0) * 1000000000\<bar>
           \<le> of_nat (n + 1) * (of_nat (n + 1) / 2) + 3 / 2
       \<and> \<bar>of_int und - square_sum (length m) (\<lambda>i j. if of_nat (i + j) > line then 0 else m ! i ! j) * 1000000000\<bar>
           \<le> of_nat (n + 1) * (of_nat (n + 1) / 2)
       \<and> ovr + und = sm_total (build_score_matrix n m)"
proof -
  let ?P = "\<lambda>i j. line < rat_of_nat (i + j)"
  let ?r = "\<lambda>i j. round9 (m ! i ! j)"
  let ?out = "square_sum (length m) (\<lambda>i j. if i \<le> n \<and> j \<le> n then 0 else m ! i ! j)"
  have line: "line < of_nat (n + 1)"
    using assms(2) by (simp add: total_goals_over_under_def built_fields Let_def split: if_splits)
  have cell: "square_sum (n + 1) (\<lambda>i j. g i j (sm_grid (build_score_matrix n m) ! i ! j))
           = square_sum (n + 1) (\<lambda>i j. g i j (?r i j))" for g :: "nat \<Rightarrow> nat \<Rightarrow> int \<Rightarrow> int"
    by (rule square_sum_cong) (simp add: built_fields del: upt_Suc)
  have ou: "ovr = sm_tail (build_score_matrix n m) + square_sum (n + 1) (\<lambda>i j. if ?P i j then ?r i j else 0)"
      "und = square_sum (n + 1) (\<lambda>i j. if ?P i j then 0 else ?r i j)"
    using assms(2) cell[of "\<lambda>i j v. if ?P i j then v else 0"] cell[of "\<lambda>i j v. if ?P i j then 0 else v"]
    by (simp_all add: total_goals_over_under_def built_fields(1) Let_def split: if_splits)
  have far: "?P i j" if "\<not> (i < n + 1 \<and> j < n + 1)" for i j
  proof -
    have "n + 1 \<le> i + j" using that by linarith
    then have "rat_of_nat (n + 1) \<le> of_nat (i + j)" unfolding of_nat_le_iff .
    with line show ?thesis by linarith
  qed
  have sides: "square_sum (length m) (\<lambda>i j. if ?P i j then m ! i ! j else 0)
         = square_sum (n + 1) (\<lambda>i j. if ?P i j then m ! i ! j else 0) + ?out"
      "square_sum (length m) (\<lambda>i j. if ?P i j then 0 else m ! i ! j)
         = square_sum (n + 1) (\<lambda>i j. if ?P i j then 0 else m ! i ! j)"
  proof -
    have "square_sum (length m) (\<lambda>i j. if i < n + 1 \<and> j < n + 1 then 0 else if ?P i j then m ! i ! j else 0) = ?out"
      using far by (intro square_sum_cong) (auto simp: less_Suc_eq_le)
    then show "square_sum (length m) (\<lambda>i j. if ?P i j then m ! i ! j else 0)
         = square_sum (n + 1) (\<lambda>i j. if ?P i j then m ! i ! j else 0) + ?out"
      using square_sum_split[of "n + 1" "length m" "\<lambda>i j. if ?P i j then m ! i ! j else 0"] assms(1) by simp
    have "square_sum (length m) (\<lambda>i j. if i < n + 1 \<and> j < n + 1 then 0 else if ?P i j then 0 else m ! i ! j)
            = square_sum (length m) (\<lambda>i j. 0)"
      using far by (intro square_sum_cong) auto
    then show "square_sum (length m) (\<lambda>i j. if ?P i j then 0 else m ! i ! j)
         = square_sum (n + 1) (\<lambda>i j. if ?P i j then 0 else m ! i ! j)"
      using square_sum_split[of "n + 1" "length m" "\<lambda>i j. if ?P i j then 0 else m ! i ! j"] assms(1)
      by (simp add: square_sum_set)
  qed
  have block: "\<bar>of_int (square_sum (n + 1) (\<lambda>i j. if Q i j then ?r i j else 0))
          - square_sum (n + 1) (\<lambda>i j. if Q i j then m ! i ! j else 0) * 1000000000\<bar>
          \<le> of_nat (n + 1) * (of_nat (n + 1) * (1 / 2))" for Q
    unfolding square_sum_of_int square_sum_mult[symmetric] square_sum_diff
    by (rule square_sum_bound) (use round9_error[where 'a = rat] in simp)
  have "ovr + und = sm_total (build_score_matrix n m)"
    unfolding ou built_fields(4) using square_sum_compl[of "n + 1" ?P ?r] by simp
  moreover have "\<bar>of_int ovr - (square_sum (n + 1) (\<lambda>i j. if ?P i j then m ! i ! j else 0) + ?out) * 1000000000\<bar>
      \<le> of_nat (n + 1) * (of_nat (n + 1) * (1 / 2)) + 3 / 2"
    unfolding ou of_int_add distrib_right using block[of ?P] built_tail_error[of n m] by linarith
  moreover have "\<bar>of_int und - square_sum (n + 1) (\<lambda>i j. if ?P i j then 0 else m ! i ! j) * 1000000000\<bar>
      \<le> of_nat (n + 1) * (of_nat (n + 1) * (1 / 2))"
    using block[of "\<lambda>i j. \<not> ?P i j"] unfolding ou if_not .
  ultimately show ?thesis unfolding sides by simp
qed

definition small_matrix :: matrix where
  "small_matrix = [[1 / 2, 1 / 4], [1 / 4, 0]]"

lemma over_under_true_witness:
  "\<bar>of_int 500000000 - square_sum 2 (\<lambda>i j. if of_nat (i + j) > (1 / 2 :: rat) then small_matrix ! i ! j else 0) * 1000000000\<bar>
     \<le> 1 + (1 :: rat)"
proof -
  have "round9 (1 / 2 :: rat) = 500000000" "round9 (1 / 4 :: rat) = 250000000" "round9 (0 :: rat) = 0"
    using round9_nano[of 500000000, where 'a = rat] round9_nano[of 250000000, where 'a = rat] by (simp_all add: round9_def)
  then have "total_goals_over_under (build_score_matrix 0 small_matrix) (1 / 2) = Some (500000000, 500000000)"
    by (simp add: total_goals_over_under_def build_score_matrix_def small_matrix_def square_sum_def Let_def
        argmax_cell_def cells_def upt_rec)
  note result = over_under_true[OF _ this]
  have "length small_matrix = 2" by (simp add: small_matrix_def)
  with result show ?thesis by simp
qed

text \<open>
  The goal bands and the goal lines tell one story: for every whole total \<open>t\<close> up to the
  display cap, the under side of the line \<open>t + 1/2\<close> is the sum of the bands \<open>0..t\<close>, and the over
  side is the sum of the bands above, the open-ended one included.
\<close>

theorem bands_match_lines:
  assumes "t \<le> sm_max_goals s"
  shows "total_goals_over_under s (of_nat t + 1 / 2)
           = Some (sum_list (drop (t + 1) (total_goals_bands s)), sum_list (take (t + 1) (total_goals_bands s)))"
proof -
  let ?n = "sm_max_goals s" and ?g = "\<lambda>i j. sm_grid s ! i ! j"
  have line: "0 < of_nat t + (1 / 2 :: rat) \<and> of_nat t + 1 / 2 < (of_nat (?n + 1) :: rat)"
  proof -
    have "(of_nat t :: rat) \<le> of_nat ?n" using assms by simp
    then show ?thesis by (simp add: add_pos_nonneg add.commute)
  qed
  have cmp: "(of_nat t + 1 / 2 < rat_of_nat k) = (t < k)" for k
  proof
    assume "t < k"
    then have "rat_of_nat (t + 1) \<le> of_nat k" unfolding of_nat_le_iff by simp
    then show "of_nat t + 1 / 2 < rat_of_nat k" by simp
  next
    assume "of_nat t + 1 / 2 < rat_of_nat k"
    then have "rat_of_nat t < of_nat k" by simp
    then show "t < k" by simp
  qed
  have bands: "sum_list (map (\<lambda>u. square_sum (?n + 1) (\<lambda>i j. if i + j = u then ?g i j else 0)) [a..<b])
      = square_sum (?n + 1) (\<lambda>i j. if a \<le> i + j \<and> i + j < b then ?g i j else 0)" if "a \<le> b" for a b
    using that
  proof (induction b rule: dec_induct)
    case base
    show ?case by (auto intro!: square_sum_zero)
  next
    case (step b)
    then show ?case by (auto simp: square_sum_add[symmetric] intro!: square_sum_cong)
  qed
  have "take (t + 1) (total_goals_bands s)
         = map (\<lambda>u. square_sum (?n + 1) (\<lambda>i j. if i + j = u then ?g i j else 0)) [0..<t + 1]"
    using assms by (simp add: total_goals_bands_def Let_def take_map del: upt_Suc)
  then have lo: "sum_list (take (t + 1) (total_goals_bands s)) = square_sum (?n + 1) (\<lambda>i j. if t < i + j then 0 else ?g i j)"
    using bands[of 0 "t + 1"] by (auto simp del: upt_Suc intro!: square_sum_cong)
  have "drop (t + 1) (total_goals_bands s)
         = map (\<lambda>u. square_sum (?n + 1) (\<lambda>i j. if i + j = u then ?g i j else 0)) [t + 1..<?n + 1]
           @ [sm_tail s + square_sum (?n + 1) (\<lambda>i j. if i + j \<le> ?n then 0 else ?g i j)]"
    using assms by (simp add: total_goals_bands_def Let_def drop_map del: upt_Suc)
  then have "sum_list (drop (t + 1) (total_goals_bands s))
      = square_sum (?n + 1) (\<lambda>i j. if t + 1 \<le> i + j \<and> i + j < ?n + 1 then ?g i j else 0)
        + (sm_tail s + square_sum (?n + 1) (\<lambda>i j. if i + j \<le> ?n then 0 else ?g i j))"
    using bands[of "t + 1" "?n + 1"] assms by (simp del: upt_Suc)
  also have "\<dots> = sm_tail s + square_sum (?n + 1) (\<lambda>i j. (if t + 1 \<le> i + j \<and> i + j < ?n + 1 then ?g i j else 0)
        + (if i + j \<le> ?n then 0 else ?g i j))"
    unfolding square_sum_add by simp
  also have "\<dots> = sm_tail s + square_sum (?n + 1) (\<lambda>i j. if t < i + j then ?g i j else 0)"
    using assms by (intro arg_cong[of _ _ "(+) (sm_tail s)"] square_sum_cong) auto
  finally show ?thesis using line lo unfolding total_goals_over_under_def Let_def cmp by simp
qed

lemma bands_match_lines_witness:
  "total_goals_over_under (build_score_matrix 1 small_matrix) (of_nat 1 + 1 / 2)
     = Some (sum_list (drop 2 (total_goals_bands (build_score_matrix 1 small_matrix))),
             sum_list (take 2 (total_goals_bands (build_score_matrix 1 small_matrix))))"
  using bands_match_lines[of 1 "build_score_matrix 1 small_matrix"] by (simp add: built_fields numeral_2_eq_2)

end
