(* ===== verification/Leak_Safe.thy ===== *)
theory Leak_Safe
  imports Sha256 Py_Time
begin

text \<open>
  \<open>src/core/golavo_core/ingest/snapshot.py\<close> and \<open>matchframe.py\<close>: the typed match table and
  the one owner of the information boundary.  A frame is its list of rows with the names of
  its optional columns; a pandas \<open>NA\<close> or \<open>NaT\<close> is \<open>None\<close>.  Instants are UTC to the second,
  the resolution every source has.  A comparison with \<open>NaT\<close> is false and a nullable
  boolean mask selects the rows that are true.

  \<open>leak_safe_view_exact\<close> gives the training view in closed form (the leakage guard never
  fires on it), and \<open>training_view_blind_to_future\<close> says the view cannot depend on anything
  that happened after the boundary, the fixture's own result included.
\<close>

section \<open>The match table\<close>

record mrow =
  mr_id :: string
  mr_date :: "dt option"
  mr_kickoff :: "dt option"
  mr_home :: string
  mr_away :: string
  mr_home_score :: "int option"
  mr_away_score :: "int option"
  mr_tournament :: string
  mr_city :: "string option"
  mr_country :: "string option"
  mr_neutral :: bool
  mr_complete :: "bool option"
  mr_eligible :: "bool option"
  mr_source_id :: "string option"
  mr_source_kind :: "string option"
  mr_competition :: "string option"

record frame =
  fr_columns :: "string list"
  fr_rows :: "mrow list"

definition has_column :: "string \<Rightarrow> frame \<Rightarrow> bool" where
  "has_column c f \<longleftrightarrow> c \<in> set (fr_columns f)"

text \<open>The most precise instant of a row.\<close>

definition order_instant :: "frame \<Rightarrow> mrow \<Rightarrow> dt option" where
  "order_instant f r =
     (if \<not> has_column ''kickoff_utc'' f then mr_date r
      else case mr_kickoff r of Some k \<Rightarrow> Some k
           | None \<Rightarrow> if has_column ''date'' f then mr_date r else None)"

definition after_cutoff :: "dt option \<Rightarrow> dt \<Rightarrow> bool" where
  "after_cutoff i c = (case i of None \<Rightarrow> False | Some t \<Rightarrow> t > c)"

definition by_cutoff :: "dt option \<Rightarrow> dt \<Rightarrow> bool" where
  "by_cutoff i c = (case i of None \<Rightarrow> False | Some t \<Rightarrow> t \<le> c)"

definition truthy :: "bool option \<Rightarrow> bool" where
  "truthy b \<longleftrightarrow> b = Some True"

datatype leak_error =
    Training_leakage string
  | No_kickoff_anchor
  | No_as_of

text \<open>\<open>assert_no_future_rows\<close>: the earliest offender is the one reported.\<close>

definition assert_no_future_rows :: "frame \<Rightarrow> dt \<Rightarrow> leak_error + unit" where
  "assert_no_future_rows f c =
     (case sort_key (\<lambda>r. the (order_instant f r)) (filter (\<lambda>r. after_cutoff (order_instant f r) c) (fr_rows f)) of
        [] \<Rightarrow> Inr ()
      | r # _ \<Rightarrow> Inl (Training_leakage (mr_id r)))"

definition eligible :: "frame \<Rightarrow> mrow \<Rightarrow> bool" where
  "eligible f r = (if has_column ''training_eligible'' f then truthy (mr_eligible r) else truthy (mr_complete r))"

definition training_rows :: "frame \<Rightarrow> dt \<Rightarrow> leak_error + frame" where
  "training_rows f c =
     (let selected = f\<lparr>fr_rows := filter (\<lambda>r. by_cutoff (order_instant f r) c \<and> truthy (mr_complete r) \<and> eligible f r)
                                   (fr_rows f)\<rparr>
      in bindE (assert_no_future_rows selected c) (\<lambda>_. Inr selected))"

definition leak_safe_cutoff :: "dt \<Rightarrow> dt" where
  "leak_safe_cutoff kickoff = prev_second kickoff"

record training_view =
  tv_frame :: frame
  tv_cutoff :: dt
  tv_kickoff :: dt

definition scope_to_fixture_source :: "frame \<Rightarrow> mrow \<Rightarrow> frame" where
  "scope_to_fixture_source f m =
     (let f = (case mr_source_id m of
                 Some s \<Rightarrow> if has_column ''source_id'' f
                           then f\<lparr>fr_rows := filter (\<lambda>r. mr_source_id r = Some s) (fr_rows f)\<rparr> else f
               | None \<Rightarrow> f)
      in (case mr_competition m of
            Some c \<Rightarrow> if mr_source_kind m = Some ''club'' \<and> has_column ''competition'' f
                      then f\<lparr>fr_rows := filter (\<lambda>r. mr_competition r = Some c) (fr_rows f)\<rparr> else f
          | None \<Rightarrow> f))"

definition leak_safe_training_view :: "frame \<Rightarrow> mrow \<Rightarrow> dt option \<Rightarrow> leak_error + training_view" where
  "leak_safe_training_view f m as_of =
     (case mr_kickoff m of
        None \<Rightarrow> Inl No_kickoff_anchor
      | Some kickoff \<Rightarrow>
          (let cutoff = (case as_of of None \<Rightarrow> leak_safe_cutoff kickoff
                         | Some t \<Rightarrow> min t (leak_safe_cutoff kickoff))
           in bindE (training_rows (scope_to_fixture_source f m) cutoff) (\<lambda>train.
             Inr \<lparr> tv_frame = train\<lparr>fr_rows := filter (\<lambda>r. mr_id r \<noteq> mr_id m) (fr_rows train)\<rparr>,
                   tv_cutoff = cutoff, tv_kickoff = kickoff \<rparr>)))"

text \<open>\<open>completed_view\<close>: the read side, with the instant each row was cut on.\<close>

record completed_view =
  cv_rows :: "(mrow \<times> dt option) list"
  cv_cutoff :: dt

definition completed_view_of :: "frame \<Rightarrow> dt option \<Rightarrow> leak_error + completed_view" where
  "completed_view_of f as_of =
     (case as_of of
        None \<Rightarrow> Inl No_as_of
      | Some c \<Rightarrow>
          Inr \<lparr> cv_rows = map (\<lambda>r. (r, order_instant f r))
                            (filter (\<lambda>r. truthy (mr_complete r) \<and> by_cutoff (order_instant f r) c) (fr_rows f)),
                cv_cutoff = c \<rparr>)"

section \<open>Match ids\<close>

text \<open>
  Identity columns as text, one dictionary per row.  A frame is its column names and rows.
\<close>

definition join_bar :: "string list \<Rightarrow> string" where
  "join_bar ps = (case ps of [] \<Rightarrow> [] | p # qs \<Rightarrow> p @ concat (map (\<lambda>q. CHR ''|'' # q) qs))"

definition match_identities ::
  "string list \<Rightarrow> (string, string) dict list \<Rightarrow> string list \<Rightarrow> string option \<Rightarrow> string list + string list" where
  "match_identities frame_columns rows columns prefix =
     (let missing = filter (\<lambda>c. c \<notin> set frame_columns) columns in
      if missing \<noteq> [] then Inl missing
      else Inr (map (\<lambda>row. join_bar ((case prefix of None \<Rightarrow> [] | Some p \<Rightarrow> [p])
                                     @ map (\<lambda>c. case dict_get row c of Some t \<Rightarrow> t | None \<Rightarrow> []) columns)) rows))"

text \<open>\<open>groupby(...).cumcount()\<close>: how often the identity occurred before.\<close>

definition occurrences :: "string list \<Rightarrow> nat list" where
  "occurrences ids = map (\<lambda>i. count_list (take i ids) (ids ! i)) [0..<length ids]"

definition match_id_text :: "string \<Rightarrow> nat \<Rightarrow> string" where
  "match_id_text identity n = identity @ ''|'' @ nat_str n"

definition match_id :: "string \<Rightarrow> nat \<Rightarrow> string" where
  "match_id identity n = ''m_'' @ take 16 (sha256_hex (match_id_text identity n))"

definition mint_match_ids ::
  "string list \<Rightarrow> (string, string) dict list \<Rightarrow> string list \<Rightarrow> string option \<Rightarrow> string list + string list" where
  "mint_match_ids frame_columns rows columns prefix =
     bindE (match_identities frame_columns rows columns prefix) (\<lambda>ids.
       Inr (map2 match_id ids (occurrences ids)))"

definition with_day_precision_kickoff :: "mrow \<Rightarrow> mrow" where
  "with_day_precision_kickoff r =
     r\<lparr>mr_kickoff := mr_date r,
       mr_complete := Some (mr_home_score r \<noteq> None \<and> mr_away_score r \<noteq> None)\<rparr>"

section \<open>The guard never fires on a selected frame\<close>

lemma order_instant_rows [simp]: "order_instant (f\<lparr>fr_rows := rs\<rparr>) r = order_instant f r"
  by (simp add: order_instant_def has_column_def)

lemma eligible_rows [simp]: "eligible (f\<lparr>fr_rows := rs\<rparr>) r = eligible f r"
  by (simp add: eligible_def has_column_def)

lemma assert_no_future_rows_Inr: "assert_no_future_rows f c = Inr () \<longleftrightarrow> (\<forall>r\<in>set (fr_rows f). \<not> after_cutoff (order_instant f r) c)"
proof -
  let ?o = "filter (\<lambda>r. after_cutoff (order_instant f r) c) (fr_rows f)"
  have "assert_no_future_rows f c = Inr () \<longleftrightarrow> sort_key (\<lambda>r. the (order_instant f r)) ?o = []"
    by (simp add: assert_no_future_rows_def split: list.splits)
  also have "\<dots> \<longleftrightarrow> ?o = []"
    by (metis length_0_conv length_sort)
  also have "\<dots> \<longleftrightarrow> (\<forall>r\<in>set (fr_rows f). \<not> after_cutoff (order_instant f r) c)"
    by (simp add: filter_empty_conv)
  finally show ?thesis .
qed

lemma training_rows_total:
  "training_rows f c =
     Inr (f\<lparr>fr_rows := filter (\<lambda>r. by_cutoff (order_instant f r) c \<and> truthy (mr_complete r) \<and> eligible f r) (fr_rows f)\<rparr>)"
proof -
  have "\<not> after_cutoff i c" if "by_cutoff i c" for i
    using that by (auto simp: after_cutoff_def by_cutoff_def split: option.splits)
  then have "assert_no_future_rows (f\<lparr>fr_rows := filter (\<lambda>r. by_cutoff (order_instant f r) c \<and> truthy (mr_complete r)
               \<and> eligible f r) (fr_rows f)\<rparr>) c = Inr ()"
    by (auto simp: assert_no_future_rows_Inr)
  then show ?thesis by (simp add: training_rows_def Let_def)
qed

text \<open>What the scoping keeps.\<close>

definition in_scope :: "frame \<Rightarrow> mrow \<Rightarrow> mrow \<Rightarrow> bool" where
  "in_scope f m =
     (\<lambda>r. (mr_source_id m \<noteq> None \<and> has_column ''source_id'' f \<longrightarrow> mr_source_id r = mr_source_id m) \<and>
          (mr_source_kind m = Some ''club'' \<and> mr_competition m \<noteq> None \<and> has_column ''competition'' f
             \<longrightarrow> mr_competition r = mr_competition m))"

lemma scope_rows: "scope_to_fixture_source f m = f\<lparr>fr_rows := filter (in_scope f m) (fr_rows f)\<rparr>"
  by (auto simp: scope_to_fixture_source_def Let_def in_scope_def has_column_def filter_filter split: option.splits)

section \<open>The boundary\<close>

text \<open>
  What a training row is: played to completion by the boundary, in the fixture's scope,
  eligible, and not the fixture itself.
\<close>

definition trains :: "frame \<Rightarrow> mrow \<Rightarrow> dt \<Rightarrow> mrow \<Rightarrow> bool" where
  "trains f m c r \<longleftrightarrow>
     in_scope f m r \<and> by_cutoff (order_instant f r) c \<and> truthy (mr_complete r) \<and> eligible f r \<and> mr_id r \<noteq> mr_id m"

definition boundary :: "dt \<Rightarrow> dt option \<Rightarrow> dt" where
  "boundary kickoff as_of = (case as_of of None \<Rightarrow> prev_second kickoff | Some t \<Rightarrow> min t (prev_second kickoff))"

lemma view_rows:
  "leak_safe_training_view f m as_of =
     (case mr_kickoff m of None \<Rightarrow> Inl No_kickoff_anchor
      | Some k \<Rightarrow> Inr \<lparr> tv_frame = f\<lparr>fr_rows := filter (trains f m (boundary k as_of)) (fr_rows f)\<rparr>,
                       tv_cutoff = boundary k as_of, tv_kickoff = k \<rparr>)"
proof (cases "mr_kickoff m")
  case None
  then show ?thesis by (simp add: leak_safe_training_view_def)
next
  case (Some k)
  have "filter (\<lambda>r. mr_id r \<noteq> mr_id m) (filter (\<lambda>r. by_cutoff (order_instant f r) c \<and> truthy (mr_complete r) \<and> eligible f r)
            (filter (in_scope f m) (fr_rows f))) = filter (trains f m c) (fr_rows f)" for c
    unfolding filter_filter by (rule filter_cong) (auto simp: trains_def)
  with Some show ?thesis
    unfolding leak_safe_training_view_def Let_def scope_rows training_rows_total boundary_def leak_safe_cutoff_def
    by (simp del: filter_filter)
qed

text \<open>
  C4: With a kickoff to anchor on, the view is exactly the completed, eligible rows of the
  fixture's own source (and competition, for a club fixture) up to the boundary, its own row
  excluded; the leakage guard never raises, the boundary lies strictly before the kickoff and an
  as-of instant can only lower it.  Without a kickoff the call raises.
\<close>

theorem leak_safe_view_exact:
  assumes "mr_kickoff m = Some k" "wf_dt k" "1 < yr k"
  shows "\<exists>c. leak_safe_training_view f m as_of =
           Inr \<lparr> tv_frame = f\<lparr>fr_rows := filter (\<lambda>r.
                     (mr_source_id m = None \<or> \<not> has_column ''source_id'' f \<or> mr_source_id r = mr_source_id m)
                   \<and> (mr_source_kind m \<noteq> Some ''club'' \<or> mr_competition m = None \<or> \<not> has_column ''competition'' f
                        \<or> mr_competition r = mr_competition m)
                   \<and> by_cutoff (order_instant f r) c \<and> mr_complete r = Some True \<and> eligible f r
                   \<and> mr_id r \<noteq> mr_id m) (fr_rows f)\<rparr>,
                 tv_cutoff = c, tv_kickoff = k \<rparr>
         \<and> c < k \<and> c = (case as_of of None \<Rightarrow> prev_second k | Some t \<Rightarrow> min t (prev_second k))"
proof -
  have "trains f m c = (\<lambda>r. (mr_source_id m = None \<or> \<not> has_column ''source_id'' f \<or> mr_source_id r = mr_source_id m)
                   \<and> (mr_source_kind m \<noteq> Some ''club'' \<or> mr_competition m = None \<or> \<not> has_column ''competition'' f
                        \<or> mr_competition r = mr_competition m)
                   \<and> by_cutoff (order_instant f r) c \<and> mr_complete r = Some True \<and> eligible f r
                   \<and> mr_id r \<noteq> mr_id m)" for c
    by (auto simp: fun_eq_iff trains_def in_scope_def truthy_def)
  moreover have "boundary k as_of < k"
    using prev_second_less[OF assms(2,3)] by (auto simp: boundary_def min_def split: option.splits)
  ultimately show ?thesis
    using assms(1) by (intro exI[of _ "boundary k as_of"]) (simp add: view_rows boundary_def)
qed

text \<open>A small table: a finished match, the fixture itself and a match after its kickoff.\<close>

definition sample_row :: mrow where
  "sample_row = \<lparr> mr_id = ''m_1'', mr_date = Some (DT 2026 6 1 0 0 0), mr_kickoff = Some (DT 2026 6 1 18 0 0),
     mr_home = ''A'', mr_away = ''B'', mr_home_score = Some 2, mr_away_score = Some 1,
     mr_tournament = ''Cup'', mr_city = None, mr_country = None, mr_neutral = False,
     mr_complete = Some True, mr_eligible = Some True, mr_source_id = Some ''s'',
     mr_source_kind = Some ''international'', mr_competition = None \<rparr>"

definition sample_fixture :: mrow where
  "sample_fixture = sample_row\<lparr>mr_id := ''m_2'', mr_kickoff := Some (DT 2026 6 11 20 0 0)\<rparr>"

definition sample_frame :: frame where
  "sample_frame = \<lparr> fr_columns = [''date'', ''kickoff_utc'', ''source_id''],
     fr_rows = [sample_row, sample_fixture, sample_row\<lparr>mr_id := ''m_3'', mr_kickoff := Some (DT 2026 6 12 0 0 0)\<rparr>] \<rparr>"

lemma leak_safe_view_exact_witness:
  "leak_safe_training_view sample_frame sample_fixture None =
     Inr \<lparr> tv_frame = sample_frame\<lparr>fr_rows := [sample_row]\<rparr>,
           tv_cutoff = DT 2026 6 11 19 59 59, tv_kickoff = DT 2026 6 11 20 0 0 \<rparr>"
proof -
  have k: "mr_kickoff sample_fixture = Some (DT 2026 6 11 20 0 0)" "wf_dt (DT 2026 6 11 20 0 0)" "1 < yr (DT 2026 6 11 20 0 0)"
    by (simp_all add: sample_fixture_def wf_dt_def days_in_month_def)
  have p: "prev_second (DT 2026 6 11 20 0 0) = DT 2026 6 11 19 59 59" by (simp add: prev_second_def)
  show ?thesis
    using leak_safe_view_exact[OF k, of sample_frame None]
    by (auto simp: p sample_frame_def sample_fixture_def sample_row_def order_instant_def has_column_def
        by_cutoff_def eligible_def truthy_def less_eq_dt_def dt_key_def)
qed

text \<open>
  Non-interference.  Two tables with the same columns that agree on the rows up to the
  boundary, other than the fixture's own row, give the same training view: no result, kickoff
  or row after the boundary, and nothing in the fixture's own row of the table, can influence a
  fit, whichever way the tables differ there.
\<close>

theorem training_view_blind_to_future:
  assumes "fr_columns f = fr_columns g" "mr_kickoff m = Some k"
    and "filter (\<lambda>r. by_cutoff (order_instant f r) (boundary k as_of) \<and> mr_id r \<noteq> mr_id m) (fr_rows f)
       = filter (\<lambda>r. by_cutoff (order_instant g r) (boundary k as_of) \<and> mr_id r \<noteq> mr_id m) (fr_rows g)"
  shows "leak_safe_training_view f m as_of = leak_safe_training_view g m as_of"
proof -
  have same: "order_instant f = order_instant g" "eligible f = eligible g" "in_scope f m = in_scope g m"
    using assms(1) by (auto simp: fun_eq_iff order_instant_def eligible_def in_scope_def has_column_def)
  have "filter (trains f m (boundary k as_of)) (fr_rows f) = filter (trains f m (boundary k as_of))
          (filter (\<lambda>r. by_cutoff (order_instant f r) (boundary k as_of) \<and> mr_id r \<noteq> mr_id m) (fr_rows f))"
    by (auto simp: filter_filter trains_def intro!: filter_cong)
  also have "\<dots> = filter (trains g m (boundary k as_of))
          (filter (\<lambda>r. by_cutoff (order_instant g r) (boundary k as_of) \<and> mr_id r \<noteq> mr_id m) (fr_rows g))"
    unfolding assms(3) by (rule filter_cong) (auto simp: trains_def same)
  also have "\<dots> = filter (trains g m (boundary k as_of)) (fr_rows g)"
    by (auto simp: filter_filter trains_def intro!: filter_cong)
  finally show ?thesis
    using assms(1,2) by (simp add: view_rows)
qed

lemma training_view_blind_to_future_witness:
  "leak_safe_training_view sample_frame sample_fixture None =
     leak_safe_training_view (sample_frame\<lparr>fr_rows := [sample_row, sample_fixture\<lparr>mr_home_score := Some 9\<rparr>]\<rparr>)
       sample_fixture None"
  by (rule training_view_blind_to_future[of _ _ _ "DT 2026 6 11 20 0 0"])
    (simp_all add: sample_frame_def sample_fixture_def sample_row_def order_instant_def has_column_def
      by_cutoff_def boundary_def prev_second_def less_eq_dt_def dt_key_def)

text \<open>
  The read side.  A board at an instant shows exactly the matches completed by then, in table
  order, each with the instant it was cut on, and a later instant never hides one.
\<close>

theorem completed_view_monotone:
  assumes "completed_view_of f (Some s) = Inr early" "completed_view_of f (Some t) = Inr late" "s \<le> t"
  shows "cv_rows early = filter (\<lambda>(r, i). by_cutoff i s) (cv_rows late)
       \<and> map fst (cv_rows late)
           = filter (\<lambda>r. mr_complete r = Some True \<and> by_cutoff (order_instant f r) t) (fr_rows f)"
proof -
  have le: "by_cutoff i s \<Longrightarrow> by_cutoff i t" for i
    using assms(3) by (auto simp: by_cutoff_def split: option.splits)
  have "cv_rows early = map (\<lambda>r. (r, order_instant f r)) (filter (\<lambda>r. truthy (mr_complete r) \<and> by_cutoff (order_instant f r) s) (fr_rows f))"
       "cv_rows late = map (\<lambda>r. (r, order_instant f r)) (filter (\<lambda>r. truthy (mr_complete r) \<and> by_cutoff (order_instant f r) t) (fr_rows f))"
    using assms(1,2) by (auto simp: completed_view_of_def)
  then show ?thesis
    by (auto simp: filter_map comp_def filter_filter truthy_def intro!: arg_cong[of _ _ "map _"] filter_cong dest: le)
qed

lemma completed_view_monotone_witness:
  "\<exists>early late. completed_view_of sample_frame (Some (DT 2026 6 2 0 0 0)) = Inr early
     \<and> completed_view_of sample_frame (Some (DT 2026 6 30 0 0 0)) = Inr late
     \<and> cv_rows early = filter (\<lambda>(r, i). by_cutoff i (DT 2026 6 2 0 0 0)) (cv_rows late)"
proof -
  obtain early late where v: "completed_view_of sample_frame (Some (DT 2026 6 2 0 0 0)) = Inr early"
      "completed_view_of sample_frame (Some (DT 2026 6 30 0 0 0)) = Inr late"
    by (simp add: completed_view_of_def)
  have "DT 2026 6 2 0 0 0 \<le> DT 2026 6 30 0 0 0" by (simp add: less_eq_dt_def dt_key_def)
  from completed_view_monotone[OF v this] v show ?thesis by blast
qed

section \<open>Match ids are pairwise distinct up to digest collisions\<close>

lemma length_occurrences [simp]: "length (occurrences ids) = length ids"
  by (simp add: occurrences_def)

lemma bar_split:
  "a @ CHR ''|'' # nat_str m = b @ CHR ''|'' # nat_str n \<longleftrightarrow> a = b \<and> m = n"
proof
  assume eq: "a @ CHR ''|'' # nat_str m = b @ CHR ''|'' # nat_str n"
  have nb: "CHR ''|'' \<notin> set (nat_str k)" for k
    using nat_str_digits[of k] by (auto simp: list_all_iff is_digit_def)
  have "takeWhile (\<lambda>c. c \<noteq> CHR ''|'') (rev (x @ CHR ''|'' # nat_str k)) = rev (nat_str k)" for x k
    using nb[of k] by (auto simp: takeWhile_eq_all_conv takeWhile_tail)
  with eq have "rev (nat_str m) = rev (nat_str n)" by metis
  then have "m = n" by simp
  with eq show "a = b \<and> m = n" by simp
qed simp

lemma occurrences_step:
  assumes "i < j" "j < length ids" "ids ! i = ids ! j"
  shows "occurrences ids ! i < occurrences ids ! j"
proof -
  have "take j ids = take i ids @ drop i (take j ids)"
    by (metis append_take_drop_id assms(1) less_imp_le min.absorb1 take_take)
  moreover have "ids ! j \<in> set (drop i (take j ids))"
    using assms by (auto simp: in_set_conv_nth intro!: exI[of _ 0])
  then have "0 < count_list (drop i (take j ids)) (ids ! j)"
    using count_list_0_iff by (metis neq0_conv)
  ultimately have "count_list (take i ids) (ids ! j) < count_list (take j ids) (ids ! j)"
    by (metis count_list_append less_add_same_cancel1)
  with assms show ?thesis by (simp add: occurrences_def)
qed

lemma texts_distinct: "distinct (map2 match_id_text ids (occurrences ids))"
proof -
  have "match_id_text (ids ! i) (occurrences ids ! i) \<noteq> match_id_text (ids ! j) (occurrences ids ! j)"
    if "i < j" "j < length ids" for i j
    using occurrences_step[OF that] that by (auto simp: match_id_text_def bar_split)
  then show ?thesis by (auto simp: distinct_conv_nth) (metis linorder_neqE_nat)
qed

text \<open>
  Every row gets its own id: the ids are truncated digests of pairwise distinct texts, repeat
  fixtures and separators inside names included, and appending rows to the table leaves the ids
  of the rows before them unchanged.
\<close>

theorem minted_ids_separate_rows:
  assumes "mint_match_ids cols (rows @ added) columns prefix = Inr ids"
  shows "(\<exists>texts. distinct texts \<and> length texts = length (rows @ added)
            \<and> ids = map (\<lambda>t. ''m_'' @ take 16 (sha256_hex t)) texts)
       \<and> mint_match_ids cols rows columns prefix = Inr (take (length rows) ids)"
proof -
  obtain idents where i: "match_identities cols (rows @ added) columns prefix = Inr idents"
      "ids = map2 match_id idents (occurrences idents)"
    using assms by (auto simp: mint_match_ids_def bindE_Inr)
  have len: "length idents = length (rows @ added)"
    using i(1) by (auto simp: match_identities_def Let_def split: if_splits)
  have "ids = map (\<lambda>t. ''m_'' @ take 16 (sha256_hex t)) (map2 match_id_text idents (occurrences idents))"
    unfolding i(2) by (simp add: match_id_def comp_def case_prod_unfold)
  moreover have "match_identities cols rows columns prefix = Inr (take (length rows) idents)"
    using i(1) by (auto simp: match_identities_def Let_def take_map split: if_splits)
  moreover have "occurrences (take (length rows) idents) = take (length rows) (occurrences idents)"
    using len by (auto simp: occurrences_def take_map min_def intro!: map_cong)
  ultimately show ?thesis
    using len texts_distinct[of idents]
    by (auto simp: mint_match_ids_def i(2) take_map take_zip intro!: exI[of _ "map2 match_id_text idents (occurrences idents)"])
qed

lemma minted_ids_separate_rows_witness:
  "\<exists>texts ids. mint_match_ids [''home_team''] [[(''home_team'', ''A|0'')], [(''home_team'', ''A|0'')]] [''home_team''] None = Inr ids
     \<and> distinct texts \<and> ids = map (\<lambda>t. ''m_'' @ take 16 (sha256_hex t)) texts"
proof -
  obtain ids where m: "mint_match_ids [''home_team''] ([] @ [[(''home_team'', ''A|0'')], [(''home_team'', ''A|0'')]]) [''home_team''] None = Inr ids"
    by (simp add: mint_match_ids_def match_identities_def)
  from minted_ids_separate_rows[OF m] m show ?thesis by auto
qed

end
