(* ===== verification/Source_Packs.thy ===== *)
theory Source_Packs
  imports Json Sha256
begin

text \<open>
  \<open>src/core/golavo_core/ingest/snapshot.py\<close>, the provenance boundary: sourcepacks, their
  manifests, the snapshot registry and the descriptors an artifact records.  A pack directory
  is the dictionary of the regular files below it, keyed by relative POSIX path, with the paths
  that are symbolic links; \<open>json.loads\<close> is \<open>loads\<close> of Json.  The minisign check and the
  resolution of directory links are parameters (cryptography and the file system).

  The theorems say what an accepted pack proves: every file is declared and has the declared
  hash, so a manifest, and through the registry a single digest, pins every byte of a pack up to
  SHA-256 collisions.
\<close>

section \<open>Paths\<close>

fun split_on :: "char \<Rightarrow> string \<Rightarrow> string list" where
  "split_on c [] = [[]]"
| "split_on c (x # xs) =
     (if x = c then [] # split_on c xs
      else case split_on c xs of [] \<Rightarrow> [[x]] | w # ws \<Rightarrow> (x # w) # ws)"

text \<open>\<open>Path(s).parts\<close> of a relative POSIX path and back.\<close>

definition path_parts :: "string \<Rightarrow> string list" where
  "path_parts s = filter (\<lambda>p. p \<noteq> [] \<and> p \<noteq> ''.'') (split_on (CHR ''/'') s)"

definition as_posix :: "string list \<Rightarrow> string" where
  "as_posix ps = (case ps of [] \<Rightarrow> ''.'' | p # qs \<Rightarrow> p @ concat (map (\<lambda>q. CHR ''/'' # q) qs))"

definition is_absolute :: "string \<Rightarrow> bool" where
  "is_absolute s = starts_with ''/'' s"

definition path_name :: "string \<Rightarrow> string" where
  "path_name s = (case rev (path_parts s) of [] \<Rightarrow> [] | p # _ \<Rightarrow> p)"

record pack =
  pk_files :: "(string, string) dict"
  pk_links :: "string list"

datatype pack_error =
    Bad_manifest | Manifest_not_object | Missing_fields | No_files
  | Bad_signature | Missing_signature
  | Entry_not_object | Invalid_name | Unsafe_path | Is_symlink | Duplicate_file
  | Invalid_sha256 | File_missing | Hash_mismatch | Undeclared_files
  | Bad_registry | Snapshots_not_array | Invalid_pack_path | Path_escapes | Not_one_declaration
  | Manifest_hash_disagrees | Source_id_disagrees | Unexpected_source | Ref_disagrees
  | Retrieval_disagrees | Key_error string | Type_error

section \<open>A pack and its manifest\<close>

definition required_manifest_fields :: "string list" where
  "required_manifest_fields = [''source_id'', ''upstream_ref'', ''files'', ''license'']"

definition is_sha256 :: "string \<Rightarrow> bool" where
  "is_sha256 s \<longleftrightarrow> length s = 64 \<and> list_all is_hex s"

text \<open>\<open>_safe_declared_path\<close>: the file below the pack a manifest name stands for.\<close>

definition safe_declared_path :: "pack \<Rightarrow> json \<Rightarrow> pack_error + string" where
  "safe_declared_path p name =
     (case name of
        JStr s \<Rightarrow>
          (if s = [] \<or> CHR 0x5C \<in> set s then Inl Invalid_name
           else if is_absolute s \<or> ''..'' \<in> set (path_parts s) then Inl Unsafe_path
           else let path = as_posix (path_parts s) in
             if path \<in> set (pk_links p) then Inl Is_symlink else Inr path)
      | _ \<Rightarrow> Inl Invalid_name)"

text \<open>One manifest entry, given the names declared before it; the result is its own name.\<close>

definition check_entry :: "pack \<Rightarrow> string list \<Rightarrow> json \<Rightarrow> pack_error + string" where
  "check_entry p declared entry =
     bindE (guardE (is_obj entry) Entry_not_object) (\<lambda>_.
     bindE (safe_declared_path p (jget entry ''name'')) (\<lambda>path.
       (case jget entry ''name'' of
          JStr name \<Rightarrow>
            bindE (guardE (name \<notin> set declared) Duplicate_file) (\<lambda>_.
              (case jget entry ''sha256'' of
                 JStr expected \<Rightarrow>
                   bindE (guardE (is_sha256 expected) Invalid_sha256) (\<lambda>_.
                     (case dict_get (pk_files p) path of
                        None \<Rightarrow> Inl File_missing
                      | Some data \<Rightarrow>
                          bindE (guardE (sha256_hex data = expected) Hash_mismatch) (\<lambda>_. Inr name)))
               | _ \<Rightarrow> Inl Invalid_sha256))
        | _ \<Rightarrow> Inl Invalid_name)))"

fun check_entries :: "pack \<Rightarrow> string list \<Rightarrow> json list \<Rightarrow> pack_error + string list" where
  "check_entries p declared [] = Inr declared"
| "check_entries p declared (e # es) =
     bindE (check_entry p declared e) (\<lambda>name. check_entries p (declared @ [name]) es)"

definition manifest_name :: "string \<Rightarrow> bool" where
  "manifest_name n \<longleftrightarrow> n = ''manifest.json'' \<or> n = ''manifest.json.sig''"

definition present_files :: "pack \<Rightarrow> string list" where
  "present_files p = filter (\<lambda>f. \<not> manifest_name (path_name f)) (dict_keys (pk_files p))"

definition check_signature :: "(string \<Rightarrow> string \<Rightarrow> bool) \<Rightarrow> bool \<Rightarrow> pack \<Rightarrow> string \<Rightarrow> pack_error + unit" where
  "check_signature sig_ok required p manifest =
     (case dict_get (pk_files p) ''manifest.json.sig'' of
        Some sig \<Rightarrow> guardE (sig_ok manifest sig) Bad_signature
      | None \<Rightarrow> guardE (\<not> required) Missing_signature)"

definition validate_pack :: "(string \<Rightarrow> string \<Rightarrow> bool) \<Rightarrow> bool \<Rightarrow> pack \<Rightarrow> pack_error + json" where
  "validate_pack sig_ok required p =
     (case dict_get (pk_files p) ''manifest.json'' of
        None \<Rightarrow> Inl Bad_manifest
      | Some data \<Rightarrow>
          (case loads data of
             None \<Rightarrow> Inl Bad_manifest
           | Some manifest \<Rightarrow>
               bindE (guardE (is_obj manifest) Manifest_not_object) (\<lambda>_.
               bindE (guardE (list_all (\<lambda>k. k \<in> set (dict_keys (obj_fields manifest))) required_manifest_fields)
                        Missing_fields) (\<lambda>_.
                 (case jget manifest ''files'' of
                    JArr files \<Rightarrow>
                      bindE (guardE (files \<noteq> []) No_files) (\<lambda>_.
                      bindE (check_signature sig_ok required p data) (\<lambda>_.
                      bindE (check_entries p [] files) (\<lambda>declared.
                      bindE (guardE (list_all (\<lambda>f. f \<in> set declared) (present_files p)) Undeclared_files) (\<lambda>_.
                        Inr manifest))))
                  | _ \<Rightarrow> Inl No_files)))))"

section \<open>The snapshot registry\<close>

text \<open>\<open>str(x or "")\<close> and \<open>str(x)\<close> of a parsed value.\<close>

definition py_text :: "json \<Rightarrow> string" where
  "py_text v = (case v of JNull \<Rightarrow> ''None'' | JBool b \<Rightarrow> (if b then ''True'' else ''False'')
     | JInt i \<Rightarrow> print_int i | JFloat n \<Rightarrow> print_float n | JStr s \<Rightarrow> s | _ \<Rightarrow> dumps v)"

definition py_truthy :: "json \<Rightarrow> bool" where
  "py_truthy v = (case v of JNull \<Rightarrow> False | JBool b \<Rightarrow> b | JInt i \<Rightarrow> i \<noteq> 0 | JFloat n \<Rightarrow> n \<noteq> 0
     | JStr s \<Rightarrow> s \<noteq> [] | JArr vs \<Rightarrow> vs \<noteq> [] | JObj kvs \<Rightarrow> kvs \<noteq> [])"

definition text_or_empty :: "json \<Rightarrow> string" where
  "text_or_empty v = (if py_truthy v then py_text v else [])"

definition json_or :: "json \<Rightarrow> json \<Rightarrow> json" where
  "json_or a b = (if py_truthy a then a else b)"

definition check_declaration ::
  "(string list \<Rightarrow> string list) \<Rightarrow> string list \<Rightarrow> string list \<Rightarrow> json \<Rightarrow> pack_error + bool" where
  "check_declaration resolve root pack_dir entry =
     bindE (guardE (is_obj entry) Entry_not_object) (\<lambda>_.
       (case jget entry ''pack'' of
          JStr declared \<Rightarrow>
            bindE (guardE (declared \<noteq> [] \<and> CHR 0x5C \<notin> set declared) Invalid_pack_path) (\<lambda>_.
            bindE (guardE (\<not> is_absolute declared \<and> ''..'' \<notin> set (path_parts declared)) Unsafe_path) (\<lambda>_.
              let resolved = resolve (root @ path_parts declared) in
              bindE (guardE (starts_with root resolved) Path_escapes) (\<lambda>_. Inr (resolved = pack_dir))))
        | _ \<Rightarrow> Inl Invalid_pack_path))"

fun matching_declarations ::
  "(string list \<Rightarrow> string list) \<Rightarrow> string list \<Rightarrow> string list \<Rightarrow> json list \<Rightarrow> pack_error + json list" where
  "matching_declarations resolve root pack_dir [] = Inr []"
| "matching_declarations resolve root pack_dir (e # es) =
     bindE (check_declaration resolve root pack_dir e) (\<lambda>here.
     bindE (matching_declarations resolve root pack_dir es) (\<lambda>ms. Inr (if here then e # ms else ms)))"

definition validate_registered_pack ::
  "(string \<Rightarrow> string \<Rightarrow> bool) \<Rightarrow> bool \<Rightarrow> (string list \<Rightarrow> string list) \<Rightarrow> string list \<Rightarrow> string list \<Rightarrow>
   string \<Rightarrow> string option \<Rightarrow> pack \<Rightarrow> pack_error + json" where
  "validate_registered_pack sig_ok required resolve root pack_dir registry expected p =
     (case loads registry of
        None \<Rightarrow> Inl Bad_registry
      | Some reg \<Rightarrow>
          (case jget reg ''snapshots'' of
             JArr entries \<Rightarrow>
               bindE (matching_declarations resolve root pack_dir entries) (\<lambda>found.
                 (case found of
                    [decl] \<Rightarrow>
                      bindE (validate_pack sig_ok required p) (\<lambda>manifest.
                      let data = (case dict_get (pk_files p) ''manifest.json'' of Some d \<Rightarrow> d | None \<Rightarrow> []);
                          source_id = text_or_empty (jget manifest ''source_id'');
                          retrieved = json_or (jget manifest ''retrieved_at_utc'') (jget manifest ''retrieved_at'') in
                      bindE (guardE (jget decl ''manifest_sha256'' = JStr (sha256_hex data)) Manifest_hash_disagrees) (\<lambda>_.
                      bindE (guardE (jget decl ''source_id'' = JStr source_id) Source_id_disagrees) (\<lambda>_.
                      bindE (guardE (expected = None \<or> expected = Some source_id) Unexpected_source) (\<lambda>_.
                      bindE (guardE (text_or_empty (jget decl ''upstream_ref'') = text_or_empty (jget manifest ''upstream_ref''))
                               Ref_disagrees) (\<lambda>_.
                      bindE (guardE (text_or_empty (jget decl ''retrieved_at_utc'') = text_or_empty retrieved)
                               Retrieval_disagrees) (\<lambda>_.
                        Inr manifest))))))
                  | _ \<Rightarrow> Inl Not_one_declaration))
           | _ \<Rightarrow> Inl Snapshots_not_array))"

section \<open>Descriptors\<close>

definition need :: "json \<Rightarrow> string \<Rightarrow> pack_error + json" where
  "need v k = (case dict_get (obj_fields v) k of None \<Rightarrow> Inl (Key_error k) | Some x \<Rightarrow> Inr x)"

text \<open>The descriptor both kinds of snapshot share, with the optional commit time last.\<close>

definition descriptor_json :: "json \<Rightarrow> string \<Rightarrow> pack_error + json" where
  "descriptor_json m sha =
     bindE (need m ''upstream_ref'') (\<lambda>ref.
     bindE (need m ''source_id'') (\<lambda>sid.
     bindE (need m ''url'') (\<lambda>url.
     bindE (need m ''retrieved_at_utc'') (\<lambda>at.
     bindE (need m ''license'') (\<lambda>lic.
       Inr (JObj ([(''snapshot_id'', JStr (''sp_'' @ take 12 (py_text ref))), (''source_id'', JStr (py_text sid)),
                   (''url'', JStr (py_text url)), (''upstream_ref'', JStr (py_text ref)),
                   (''retrieved_at_utc'', JStr (py_text at)), (''sha256'', JStr sha), (''license'', JStr (py_text lic))]
                  @ (if py_truthy (jget m ''upstream_committed_at_utc'')
                     then [(''upstream_committed_at_utc'', JStr (py_text (jget m ''upstream_committed_at_utc'')))]
                     else []))))))))"

definition snapshot_descriptor :: "(string \<Rightarrow> string \<Rightarrow> bool) \<Rightarrow> bool \<Rightarrow> pack \<Rightarrow> pack_error + json" where
  "snapshot_descriptor sig_ok required p =
     bindE (validate_pack sig_ok required p) (\<lambda>manifest.
       descriptor_json manifest
         (sha256_hex (case dict_get (pk_files p) ''manifest.json'' of Some d \<Rightarrow> d | None \<Rightarrow> [])))"

definition co_source_sha :: "pack \<Rightarrow> json \<Rightarrow> pack_error + string" where
  "co_source_sha p entry =
     (let digest_file = jget entry ''sha256_file'' in
      if py_truthy digest_file
      then (case dict_get (pk_files p) (as_posix (path_parts (py_text digest_file))) of
              None \<Rightarrow> Inl File_missing | Some data \<Rightarrow> Inr (sha256_hex data))
      else bindE (need entry ''sha256'') (\<lambda>v. Inr (py_text v)))"

definition co_source_descriptor :: "pack \<Rightarrow> json \<Rightarrow> pack_error + json" where
  "co_source_descriptor p entry =
     bindE (need entry ''upstream_ref'') (\<lambda>_.
     bindE (co_source_sha p entry) (\<lambda>sha. descriptor_json entry sha))"

definition co_source_descriptors :: "(string \<Rightarrow> string \<Rightarrow> bool) \<Rightarrow> bool \<Rightarrow> pack \<Rightarrow> pack_error + json list" where
  "co_source_descriptors sig_ok required p =
     bindE (validate_pack sig_ok required p) (\<lambda>manifest.
       (case dict_get (obj_fields manifest) ''co_sources'' of
          None \<Rightarrow> Inr []
        | Some (JArr entries) \<Rightarrow> mapE (co_source_descriptor p) entries
        | Some _ \<Rightarrow> Inl Type_error))"

definition snapshot_anchor_utc :: "json \<Rightarrow> string" where
  "snapshot_anchor_utc d = py_text (json_or (jget d ''upstream_committed_at_utc'') (jget d ''retrieved_at_utc''))"

section \<open>What an accepted pack proves\<close>

text \<open>An entry that names file \<open>f\<close> with the hash of \<open>data\<close>.\<close>

definition entry_for :: "json \<Rightarrow> string \<Rightarrow> string \<Rightarrow> bool" where
  "entry_for e f data \<longleftrightarrow> jget e ''name'' = JStr f \<and> jget e ''sha256'' = JStr (sha256_hex data)"

lemma check_entry_Inr:
  assumes "check_entry p declared e = Inr name"
  shows "\<exists>data. dict_get (pk_files p) (as_posix (path_parts name)) = Some data \<and> entry_for e name data
        \<and> as_posix (path_parts name) \<notin> set (pk_links p)"
proof -
  obtain path where path: "safe_declared_path p (jget e ''name'') = Inr path"
    using assms by (auto simp: check_entry_def bindE_Inr)
  then obtain n where n: "jget e ''name'' = JStr n" "path = as_posix (path_parts n)" "path \<notin> set (pk_links p)"
    by (cases "jget e ''name''") (auto simp: safe_declared_path_def Let_def split: if_splits)
  obtain h where h: "jget e ''sha256'' = JStr h"
    using assms path n(1) by (cases "jget e ''sha256''") (auto simp: check_entry_def bindE_Inr)
  obtain d where d: "dict_get (pk_files p) path = Some d"
    using assms path n(1) h by (cases "dict_get (pk_files p) path") (auto simp: check_entry_def bindE_Inr)
  show ?thesis
    using assms path n h d by (auto simp: check_entry_def bindE_Inr entry_for_def)
qed

lemma check_entries_Inr:
  "check_entries p declared es = Inr ds \<Longrightarrow>
   \<exists>names. ds = declared @ names \<and>
     list_all2 (\<lambda>e n. \<exists>data. dict_get (pk_files p) (as_posix (path_parts n)) = Some data \<and> entry_for e n data
                         \<and> as_posix (path_parts n) \<notin> set (pk_links p)) es names"
proof (induction es arbitrary: declared)
  case Nil
  then show ?case by simp
next
  case (Cons e es)
  then obtain n where n: "check_entry p declared e = Inr n" "check_entries p (declared @ [n]) es = Inr ds"
    by (auto simp: bindE_Inr)
  from Cons.IH[OF n(2)] obtain names where "ds = (declared @ [n]) @ names"
    "list_all2 (\<lambda>e n. \<exists>data. dict_get (pk_files p) (as_posix (path_parts n)) = Some data \<and> entry_for e n data
                         \<and> as_posix (path_parts n) \<notin> set (pk_links p)) es names" by blast
  with check_entry_Inr[OF n(1)] show ?case by (intro exI[of _ "n # names"]) simp
qed

lemma validate_pack_Inr:
  assumes "validate_pack so rq p = Inr m"
  shows "\<exists>data files names. dict_get (pk_files p) ''manifest.json'' = Some data \<and> loads data = Some m
       \<and> jget m ''files'' = JArr files \<and> check_entries p [] files = Inr names
       \<and> (\<forall>f\<in>set (present_files p). f \<in> set names)"
proof -
  obtain data where d: "dict_get (pk_files p) ''manifest.json'' = Some data"
    using assms by (cases "dict_get (pk_files p) ''manifest.json''") (auto simp: validate_pack_def)
  obtain m' where m': "loads data = Some m'"
    using assms d by (cases "loads data") (auto simp: validate_pack_def)
  obtain files where files: "jget m' ''files'' = JArr files"
    using assms d m' by (cases "jget m' ''files''") (auto simp: validate_pack_def bindE_Inr)
  show ?thesis
    using assms d m' files by (auto simp: validate_pack_def bindE_Inr list_all_iff)
qed

text \<open>The keys of a directory listing are normal paths, each once.\<close>

definition wf_pack :: "pack \<Rightarrow> bool" where
  "wf_pack p \<longleftrightarrow> dict_ok (pk_files p) \<and> list_all (\<lambda>f. as_posix (path_parts f) = f) (dict_keys (pk_files p))"

lemma present_get: "f \<in> set (present_files p) \<longleftrightarrow> \<not> manifest_name (path_name f) \<and> dict_get (pk_files p) f \<noteq> None"
  by (auto simp: present_files_def map_of_eq_None_iff)

text \<open>
  An accepted pack holds no undeclared content: every file outside the manifest pair is
  named by an entry of the manifest with the SHA-256 of its bytes, is not a symbolic link, and
  every entry's file is there.
\<close>

theorem accepted_pack_declares_every_file:
  assumes "validate_pack so rq p = Inr m" "wf_pack p" "f \<in> set (present_files p)"
  shows "\<exists>entries e data. jget m ''files'' = JArr entries \<and> e \<in> set entries
       \<and> dict_get (pk_files p) f = Some data
       \<and> jget e ''name'' = JStr f \<and> jget e ''sha256'' = JStr (sha256_hex data) \<and> f \<notin> set (pk_links p)"
proof -
  obtain files names where v: "jget m ''files'' = JArr files" "check_entries p [] files = Inr names"
      "f \<in> set names"
    using validate_pack_Inr[OF assms(1)] assms(3) by blast
  have norm: "as_posix (path_parts f) = f"
    using assms(2,3) by (auto simp: wf_pack_def list_all_iff present_files_def)
  from check_entries_Inr[OF v(2)] v(3) norm obtain e data where
    "e \<in> set files" "dict_get (pk_files p) f = Some data" "entry_for e f data" "f \<notin> set (pk_links p)"
    by (auto simp: list_all2_conv_all_nth in_set_conv_nth) metis
  with v(1) show ?thesis by (auto simp: entry_for_def)
qed

lemma pinned_file:
  assumes p: "validate_pack so rq p = Inr m" "wf_pack p" "f \<in> set (present_files p)"
    and q: "validate_pack so' rq' q = Inr m"
  shows "\<exists>a b. dict_get (pk_files p) f = Some a \<and> dict_get (pk_files q) f = Some b \<and> sha256_hex a = sha256_hex b"
proof -
  obtain files names where vp: "jget m ''files'' = JArr files" "check_entries p [] files = Inr names" "f \<in> set names"
    using validate_pack_Inr[OF p(1)] p(3) by blast
  obtain names' where vq: "check_entries q [] files = Inr names'"
    using validate_pack_Inr[OF q] vp(1) by auto
  have norm: "as_posix (path_parts f) = f"
    using p(2,3) by (auto simp: wf_pack_def list_all_iff present_files_def)
  from vp(3) obtain i where n: "i < length names" "names ! i = f" by (auto simp: in_set_conv_nth)
  with check_entries_Inr[OF vp(2)] norm obtain a where i: "i < length files" "names ! i = f"
      "dict_get (pk_files p) f = Some a" "entry_for (files ! i) f a"
    by (auto simp: list_all2_conv_all_nth)
  from check_entries_Inr[OF vq] i(1) obtain b where
    "dict_get (pk_files q) (as_posix (path_parts (names' ! i))) = Some b" "entry_for (files ! i) (names' ! i) b"
    by (auto simp: list_all2_conv_all_nth)
  with i norm show ?thesis by (auto simp: entry_for_def)
qed

lemma pinned_files:
  assumes p: "validate_pack so rq p = Inr m" "wf_pack p" and q: "validate_pack so' rq' q = Inr m" "wf_pack q"
    and nc: "\<And>f a b. dict_get (pk_files p) f = Some a \<Longrightarrow> dict_get (pk_files q) f = Some b \<Longrightarrow> \<not> collision a b"
    and f: "\<not> manifest_name (path_name f)"
  shows "dict_get (pk_files p) f = dict_get (pk_files q) f"
proof -
  have eq: "a = b" if "dict_get (pk_files p) f = Some a" "dict_get (pk_files q) f = Some b" "sha256_hex a = sha256_hex b" for a b
    using nc[OF that(1,2)] that(3) by (simp add: sha256_eq)
  show ?thesis
  proof (cases "f \<in> set (present_files p) \<or> f \<in> set (present_files q)")
    case True
    then show ?thesis
      using pinned_file[OF p _ q(1)] pinned_file[OF q _ p(1)] eq by (elim disjE) (metis, metis)
  next
    case False
    with f show ?thesis by (auto simp: present_get)
  qed
qed

definition manifest_digest :: "pack \<Rightarrow> string" where
  "manifest_digest p = sha256_hex (case dict_get (pk_files p) ''manifest.json'' of Some d \<Rightarrow> d | None \<Rightarrow> [])"

lemma registered_Inr:
  assumes "validate_registered_pack so rq resolve root dir registry expected p = Inr m"
  shows "\<exists>reg entries decl. loads registry = Some reg \<and> jget reg ''snapshots'' = JArr entries
       \<and> matching_declarations resolve root dir entries = Inr [decl]
       \<and> validate_pack so rq p = Inr m \<and> jget decl ''manifest_sha256'' = JStr (manifest_digest p)"
proof -
  obtain reg where reg: "loads registry = Some reg"
    using assms by (cases "loads registry") (auto simp: validate_registered_pack_def)
  obtain entries where entries: "jget reg ''snapshots'' = JArr entries"
    using assms reg by (cases "jget reg ''snapshots''") (auto simp: validate_registered_pack_def)
  obtain found where found: "matching_declarations resolve root dir entries = Inr found"
    using assms reg entries by (auto simp: validate_registered_pack_def bindE_Inr)
  obtain decl where decl: "found = [decl]"
    using assms reg entries found by (auto simp: validate_registered_pack_def split: list.splits)
  show ?thesis
    using assms reg entries found decl
    by (auto simp: validate_registered_pack_def bindE_Inr Let_def manifest_digest_def)
qed

text \<open>
  C31: the registry pins a pack.  Two directories accepted for the same place against the same
  registry have the same manifest and the same file, byte for byte, at every path whose last part is
  not \<open>manifest.json\<close> or \<open>manifest.json.sig\<close>, unless two of their files at one path are a SHA-256
  collision.  What the exception leaves open is real: \<open>nested_manifest_names_unchecked\<close> below.
\<close>

theorem registry_pins_pack:
  assumes "validate_registered_pack so rq resolve root dir registry expected p = Inr m" "wf_pack p"
    and "validate_registered_pack so' rq' resolve root dir registry expected' q = Inr n" "wf_pack q"
    and "manifest_name (path_name f) \<Longrightarrow> f = ''manifest.json''"
  shows "dict_get (pk_files p) f = dict_get (pk_files q) f
       \<or> (\<exists>g a b. dict_get (pk_files p) g = Some a \<and> dict_get (pk_files q) g = Some b \<and> collision a b)"
proof (rule disjCI)
  assume "\<not> (\<exists>g a b. dict_get (pk_files p) g = Some a \<and> dict_get (pk_files q) g = Some b \<and> collision a b)"
  then have nc: "\<And>g a b. dict_get (pk_files p) g = Some a \<Longrightarrow> dict_get (pk_files q) g = Some b \<Longrightarrow> \<not> collision a b"
    by blast
  obtain reg entries decl where reg: "loads registry = Some reg" "jget reg ''snapshots'' = JArr entries"
      "matching_declarations resolve root dir entries = Inr [decl]"
    and vp: "validate_pack so rq p = Inr m" "jget decl ''manifest_sha256'' = JStr (manifest_digest p)"
    using registered_Inr[OF assms(1)] by blast
  have vq: "validate_pack so' rq' q = Inr n" "jget decl ''manifest_sha256'' = JStr (manifest_digest q)"
    using registered_Inr[OF assms(3)] reg by auto
  obtain a b where ab: "dict_get (pk_files p) ''manifest.json'' = Some a" "loads a = Some m"
      "dict_get (pk_files q) ''manifest.json'' = Some b" "loads b = Some n"
    using validate_pack_Inr[OF vp(1)] validate_pack_Inr[OF vq(1)] by blast
  then have "sha256_hex a = sha256_hex b" using vp(2) vq(2) by (simp add: manifest_digest_def)
  then have "a = b" using nc[OF ab(1,3)] by (simp add: sha256_eq)
  then have "n = m" using ab by simp
  with vq(1) have vq': "validate_pack so' rq' q = Inr m" by simp
  show "dict_get (pk_files p) f = dict_get (pk_files q) f"
  proof (cases "manifest_name (path_name f)")
    case True
    then show ?thesis using assms(5) ab(1,3) \<open>a = b\<close> by simp
  next
    case False
    show ?thesis by (rule pinned_files[OF vp(1) assms(2) vq' assms(4) nc False])
  qed
qed

section \<open>A sample pack\<close>

text \<open>One results file and its manifest; JSON texts are what \<open>dumps\<close> writes.\<close>

definition sample_entry :: json where
  "sample_entry = JObj [(''name'', JStr ''results.csv''), (''sha256'', JStr (sha256_hex ''date''))]"

definition sample_manifest :: json where
  "sample_manifest = JObj [(''files'', JArr [sample_entry]), (''license'', JStr ''CC0''),
     (''source_id'', JStr ''martj42''), (''upstream_ref'', JStr ''abc'')]"

definition sample_pack :: pack where
  "sample_pack = \<lparr> pk_files = [(''manifest.json'', dumps sample_manifest), (''results.csv'', ''date'')], pk_links = [] \<rparr>"

definition sample_registry :: string where
  "sample_registry = dumps (JObj [(''snapshots'', JArr [JObj [(''manifest_sha256'', JStr (sha256_hex (dumps sample_manifest))),
     (''pack'', JStr ''packs/a''), (''source_id'', JStr ''martj42''), (''upstream_ref'', JStr ''abc'')]])])"

lemma string_less_simps:
  "''files'' < ''license''" "''files'' < ''source_id''" "''files'' < ''upstream_ref''" "''license'' < ''source_id''"
  "''license'' < ''upstream_ref''" "''source_id'' < ''upstream_ref''" "''name'' < ''sha256''"
  "''manifest_sha256'' < ''pack''" "''manifest_sha256'' < ''source_id''" "''manifest_sha256'' < ''upstream_ref''"
  "''pack'' < ''source_id''" "''pack'' < ''upstream_ref''"
  by (simp_all add: less_char_def)

lemma loads_sample: "loads (dumps sample_manifest) = Some sample_manifest"
proof -
  have "wf_json sample_manifest" by (simp add: sample_manifest_def sample_entry_def dict_ok_def)
  moreover have "normalise sample_manifest = sample_manifest"
    by (simp add: sample_manifest_def sample_entry_def string_less_simps less_imp_le)
  ultimately show ?thesis using loads_dumps by metis
qed

lemma validate_sample: "validate_pack (\<lambda>_ _. True) False sample_pack = Inr sample_manifest"
proof -
  have "path_parts ''results.csv'' = [''results.csv'']" "path_name ''results.csv'' = ''results.csv''"
    "path_name ''manifest.json'' = ''manifest.json''"
    by (simp_all add: path_parts_def path_name_def)
  then show ?thesis
    by (simp add: validate_pack_def sample_pack_def loads_sample)
      (simp add: sample_manifest_def sample_entry_def jget_obj required_manifest_fields_def check_signature_def
        check_entry_def safe_declared_path_def is_absolute_def starts_with_def as_posix_def is_sha256_def
        sha256_hex_hex present_files_def manifest_name_def)
qed

lemma wf_sample: "wf_pack sample_pack"
  by (simp add: wf_pack_def sample_pack_def dict_ok_def path_parts_def as_posix_def)

lemma present_sample: "''results.csv'' \<in> set (present_files sample_pack)"
  by (simp add: present_files_def sample_pack_def manifest_name_def path_name_def path_parts_def)

lemma accepted_pack_declares_every_file_witness:
  "\<exists>e data. jget sample_manifest ''files'' = JArr [sample_entry] \<and> e \<in> set [sample_entry]
     \<and> dict_get (pk_files sample_pack) ''results.csv'' = Some data \<and> jget e ''sha256'' = JStr (sha256_hex data)"
  using accepted_pack_declares_every_file[OF validate_sample wf_sample present_sample]
  by (auto simp: sample_manifest_def jget_obj)

lemma registered_sample:
  "validate_registered_pack (\<lambda>_ _. True) False (\<lambda>p. p) [''r''] [''r'', ''packs'', ''a''] sample_registry (Some ''martj42'') sample_pack
     = Inr sample_manifest"
proof -
  let ?decl = "JObj [(''manifest_sha256'', JStr (sha256_hex (dumps sample_manifest))),
     (''pack'', JStr ''packs/a''), (''source_id'', JStr ''martj42''), (''upstream_ref'', JStr ''abc'')]"
  have "loads sample_registry = Some (JObj [(''snapshots'', JArr [?decl])])"
    unfolding sample_registry_def by (subst loads_dumps) (simp_all add: dict_ok_def string_less_simps less_imp_le)
  moreover have "jget (JObj [(''snapshots'', JArr [?decl])]) ''snapshots'' = JArr [?decl]" by (simp add: jget_obj)
  moreover have "matching_declarations (\<lambda>p. p) [''r''] [''r'', ''packs'', ''a''] [?decl] = Inr [?decl]"
    by (simp add: check_declaration_def jget_obj is_absolute_def starts_with_def path_parts_def Let_def)
  ultimately show ?thesis
    by (simp add: validate_registered_pack_def validate_sample)
      (simp add: sample_pack_def sample_manifest_def jget_obj text_or_empty_def py_truthy_def py_text_def json_or_def)
qed

lemma registry_pins_pack_witness:
  "dict_get (pk_files sample_pack) ''results.csv'' = dict_get (pk_files sample_pack) ''results.csv''
     \<or> (\<exists>g a b. dict_get (pk_files sample_pack) g = Some a \<and> dict_get (pk_files sample_pack) g = Some b \<and> collision a b)"
  by (rule registry_pins_pack[OF registered_sample wf_sample registered_sample wf_sample])
    (simp add: manifest_name_def path_name_def path_parts_def)

section \<open>A gap: manifest names below the top\<close>

lemma check_entries_more:
  assumes "check_entries p declared es = Inr ds" "\<And>f d. dict_get (pk_files p) f = Some d \<Longrightarrow> dict_get (pk_files q) f = Some d"
    and "pk_links q = pk_links p"
  shows "check_entries q declared es = Inr ds"
  using assms(1)
proof (induction es arbitrary: declared)
  case Nil
  then show ?case by simp
next
  case (Cons e es)
  then obtain n where n: "check_entry p declared e = Inr n" "check_entries p (declared @ [n]) es = Inr ds"
    by (auto simp: bindE_Inr)
  have same: "safe_declared_path q v = safe_declared_path p v" for v
    unfolding safe_declared_path_def assms(3) ..
  obtain path where path: "safe_declared_path p (jget e ''name'') = Inr path"
    using n(1) by (auto simp: check_entry_def bindE_Inr)
  obtain s where s: "jget e ''name'' = JStr s"
    using path by (cases "jget e ''name''") (auto simp: safe_declared_path_def)
  obtain h where h: "jget e ''sha256'' = JStr h"
    using n(1) path s by (cases "jget e ''sha256''") (auto simp: check_entry_def bindE_Inr)
  obtain d where d: "dict_get (pk_files p) path = Some d"
    using n(1) path s h by (cases "dict_get (pk_files p) path") (auto simp: check_entry_def bindE_Inr)
  have "check_entry q declared e = Inr n"
    using n(1) path s h d assms(2)[OF d] by (auto simp: check_entry_def same bindE_Inr)
  with Cons.IH[OF n(2)] show ?case by simp
qed

text \<open>
  The rejection of undeclared files has a gap: a file whose base name is one of the manifest
  names may be added anywhere below an accepted pack, with any content and without an entry, and
  the pack is still accepted (the top level pair itself is read and checked separately).
\<close>

theorem nested_manifest_names_unchecked:
  assumes "validate_pack so rq p = Inr m" "manifest_name (path_name f)"
    and "f \<notin> set (dict_keys (pk_files p))" "f \<noteq> ''manifest.json.sig''"
  shows "validate_pack so rq (p\<lparr>pk_files := pk_files p @ [(f, data)]\<rparr>) = Inr m"
proof -
  let ?q = "p\<lparr>pk_files := pk_files p @ [(f, data)]\<rparr>"
  have more: "dict_get (pk_files p) g = Some d \<Longrightarrow> dict_get (pk_files ?q) g = Some d" for g d
    by (simp add: map_of_append)
  obtain man where man: "dict_get (pk_files p) ''manifest.json'' = Some man"
    using validate_pack_Inr[OF assms(1)] by blast
  obtain m' where m': "loads man = Some m'"
    using assms(1) man by (cases "loads man") (auto simp: validate_pack_def)
  obtain files where files: "jget m' ''files'' = JArr files"
    using assms(1) man m' by (cases "jget m' ''files''") (auto simp: validate_pack_def bindE_Inr)
  obtain names where names: "check_entries p [] files = Inr names"
    using assms(1) man m' files by (auto simp: validate_pack_def bindE_Inr)
  have "check_entries ?q [] files = Inr names"
    by (rule check_entries_more[OF names]) (simp_all add: map_of_append)
  moreover have "present_files ?q = present_files p"
    using assms(2) by (simp add: present_files_def)
  moreover have "dict_get (pk_files ?q) ''manifest.json.sig'' = dict_get (pk_files p) ''manifest.json.sig''"
    using assms(4) by (simp add: map_of_append map_add_def split: option.splits)
  ultimately show ?thesis
    using assms(1) man m' files names more[OF man]
    by (simp add: validate_pack_def check_signature_def)
qed

lemma nested_manifest_names_unchecked_witness:
  "validate_pack (\<lambda>_ _. True) False
     (sample_pack\<lparr>pk_files := pk_files sample_pack @ [(''overlay/manifest.json'', ''anything'')]\<rparr>) = Inr sample_manifest"
  by (rule nested_manifest_names_unchecked[OF validate_sample])
    (simp_all add: manifest_name_def path_name_def path_parts_def sample_pack_def)

end
