(* ===== verification/Schema.thy ===== *)
theory Schema
  imports Json Sha256
begin

text \<open>
  JSON Schema as the contracts under \<open>src/docs/contracts\<close> use it: types, required keys with
  \<open>additionalProperties: false\<close>, enumerations of strings, minimum and maximum, minimum lengths,
  regular expressions (as predicates on the text, \<open>$\<close> also matching before a final newline, as
  \<open>re.search\<close> does) and \<open>oneOf\<close> with null.  \<open>format\<close> is checked only when the validator's optional
  dependencies are installed, so it is a parameter of a schema.
\<close>

datatype schema =
    Anything
  | Enum "string list"
  | Is_true
  | Boolean
  | Text "string \<Rightarrow> bool"
  | Number int "int option"
  | Integer "int option"
  | Nullable schema
  | Items nat schema
  | Props "(string \<times> bool \<times> schema) list"
  | Any_number
  | Const_int int

text \<open>Numbers in units of \<open>10^-9\<close>; an integer may be written as a float without a fraction.\<close>

definition num_nano :: "json \<Rightarrow> int option" where
  "num_nano v = (case v of JInt i \<Rightarrow> Some (i * 1000000000) | JFloat n \<Rightarrow> Some n | _ \<Rightarrow> None)"

definition num_int :: "json \<Rightarrow> int option" where
  "num_int v =
     (case v of JInt i \<Rightarrow> Some i
      | JFloat n \<Rightarrow> if n mod 1000000000 = 0 then Some (n div 1000000000) else None
      | _ \<Rightarrow> None)"

fun conforms :: "schema \<Rightarrow> json \<Rightarrow> bool" where
  "conforms Anything v = True"
| "conforms (Enum ss) v = (case v of JStr s \<Rightarrow> s \<in> set ss | _ \<Rightarrow> False)"
| "conforms Is_true v = (v = JBool True)"
| "conforms Boolean v = (case v of JBool _ \<Rightarrow> True | _ \<Rightarrow> False)"
| "conforms (Text ok) v = (case v of JStr s \<Rightarrow> ok s | _ \<Rightarrow> False)"
| "conforms (Number lo hi) v =
     (case num_nano v of None \<Rightarrow> False
      | Some n \<Rightarrow> lo \<le> n \<and> (case hi of None \<Rightarrow> True | Some h \<Rightarrow> n \<le> h))"
| "conforms (Integer lo) v =
     (case num_int v of None \<Rightarrow> False | Some i \<Rightarrow> (case lo of None \<Rightarrow> True | Some l \<Rightarrow> l \<le> i))"
| "conforms (Nullable s) v = (v = JNull \<or> conforms s v)"
| "conforms (Items k s) v = (case v of JArr vs \<Rightarrow> k \<le> length vs \<and> list_all (conforms s) vs | _ \<Rightarrow> False)"
| "conforms (Props ps) v =
     (is_obj v \<and> list_all (\<lambda>k. k \<in> set (map fst ps)) (dict_keys (obj_fields v)) \<and>
      list_all (\<lambda>p. case dict_get (obj_fields v) (fst p) of
                      None \<Rightarrow> \<not> fst (snd p) | Some x \<Rightarrow> conforms (snd (snd p)) x) ps)"
| "conforms Any_number v = (num_nano v \<noteq> None)"
| "conforms (Const_int i) v = (num_int v = Some i)"

text \<open>Patterns.\<close>

definition chomp :: "string \<Rightarrow> string" where
  "chomp s = (if s \<noteq> [] \<and> last s = CHR 0x0A then butlast s else s)"

definition lower_alnum :: "char \<Rightarrow> bool" where
  "lower_alnum c \<longleftrightarrow> is_digit c \<or> (97 \<le> (of_char c :: nat) \<and> (of_char c :: nat) \<le> 122)"

definition artifact_id_pattern :: "string \<Rightarrow> bool" where
  "artifact_id_pattern s \<longleftrightarrow>
     (let t = chomp s in starts_with ''fa_'' t \<and> 11 \<le> length t \<and> list_all lower_alnum (drop 3 t))"

definition hex_pattern :: "nat \<Rightarrow> nat \<Rightarrow> string \<Rightarrow> bool" where
  "hex_pattern lo hi s \<longleftrightarrow> (let t = chomp s in lo \<le> length t \<and> length t \<le> hi \<and> list_all is_hex t)"

definition nonempty :: "string \<Rightarrow> bool" where
  "nonempty s \<longleftrightarrow> s \<noteq> []"

section \<open>Sorting keys does not matter\<close>

lemma num_normalise [simp]: "num_nano (normalise v) = num_nano v" "num_int (normalise v) = num_int v"
  by (cases v; simp add: num_nano_def num_int_def)+

lemma conforms_normalise: "wf_json v \<Longrightarrow> conforms s (normalise v) = conforms s v"
proof (induction s v rule: conforms.induct)
  case (9 k s v)
  show ?case
  proof (cases v)
    case (JArr vs)
    with 9 show ?thesis
      by (auto simp: normalise_items_map list_all_iff wf_items_iff)
  qed simp_all
next
  case (10 ps v)
  have sub: "list_all Q (dict_keys (obj_fields (normalise v))) = list_all Q (dict_keys (obj_fields v))" for Q
    using keys_normalise[of v] by (simp add: list_all_iff)
  have "(case dict_get (obj_fields (normalise v)) (fst p) of None \<Rightarrow> \<not> fst (snd p) | Some x \<Rightarrow> conforms (snd (snd p)) x)
      = (case dict_get (obj_fields v) (fst p) of None \<Rightarrow> \<not> fst (snd p) | Some x \<Rightarrow> conforms (snd (snd p)) x)"
    if "p \<in> set ps" for p
  proof (cases "dict_get (obj_fields v) (fst p)")
    case None
    then show ?thesis using 10(2) by (simp add: dict_get_normalise)
  next
    case (Some x)
    moreover have "wf_json x"
      using wf_jget[OF 10(2), of "fst p"] Some by (simp add: jget_def)
    ultimately show ?thesis using 10 that by (simp add: dict_get_normalise)
  qed
  then have "list_all (\<lambda>p. case dict_get (obj_fields (normalise v)) (fst p) of None \<Rightarrow> \<not> fst (snd p) | Some x \<Rightarrow> conforms (snd (snd p)) x) ps
      = list_all (\<lambda>p. case dict_get (obj_fields v) (fst p) of None \<Rightarrow> \<not> fst (snd p) | Some x \<Rightarrow> conforms (snd (snd p)) x) ps"
    by (simp add: list_all_iff)
  then show ?case unfolding conforms.simps sub is_obj_normalise by simp
next
  case (2 ss v)
  show ?case by (cases v) simp_all
next
  case (3 v)
  show ?case by (cases v) simp_all
next
  case (4 v)
  show ?case by (cases v) simp_all
next
  case (5 ok v)
  show ?case by (cases v) simp_all
next
  case (8 s v)
  then show ?case by (cases v) simp_all
qed simp_all

text \<open>Reading a conforming object.\<close>

lemma props_get:
  assumes "conforms (Props ps) v" "(k, req, s) \<in> set ps" "dict_get (obj_fields v) k = Some x"
  shows "conforms s x"
  using assms by (force simp: list_all_iff)

lemma props_required:
  assumes "conforms (Props ps) v" "(k, True, s) \<in> set ps"
  shows "dict_get (obj_fields v) k = Some (jget v k) \<and> conforms s (jget v k)"
  using assms by (fastforce simp: list_all_iff jget_def split: option.splits)

lemma props_obj: "conforms (Props ps) v \<Longrightarrow> is_obj v"
  by simp

text \<open>Replacing one member of a conforming object by a conforming value.\<close>

lemma conforms_set:
  assumes "conforms (Props ps) v" "(k, req, s) \<in> set ps" "distinct (map fst ps)" "conforms s x"
  shows "conforms (Props ps) (json_set k x v)"
proof -
  have ob: "is_obj v" using assms(1) by simp
  have keys: "set (dict_keys (obj_fields (json_set k x v))) = insert k (set (dict_keys (obj_fields v)))"
    using ob by (cases v) (simp_all add: json_set_def obj_fields_def is_obj_def dom_update)
  have "k \<in> set (map fst ps)" using assms(2) by force
  then have dom: "list_all (\<lambda>k. k \<in> set (map fst ps)) (dict_keys (obj_fields (json_set k x v)))"
    using assms(1) keys by (auto simp: list_all_iff)
  have "case dict_get (obj_fields (json_set k x v)) (fst p) of None \<Rightarrow> \<not> fst (snd p) | Some y \<Rightarrow> conforms (snd (snd p)) y"
    if p: "p \<in> set ps" for p
  proof (cases "fst p = k")
    case True
    then have "p = (k, req, s)" using assms(2,3) p by (metis eq_key_imp_eq_value prod.collapse)
    then show ?thesis using ob assms(4) by (simp add: dict_get_json_set)
  next
    case False
    then show ?thesis using ob assms(1) p by (simp add: dict_get_json_set list_all_iff)
  qed
  then show ?thesis using ob dom by (simp add: list_all_iff)
qed

lemma hex_text_pattern: "list_all is_hex s \<Longrightarrow> lo \<le> length s \<Longrightarrow> length s \<le> hi \<Longrightarrow> hex_pattern lo hi s"
proof -
  assume s: "list_all is_hex s" "lo \<le> length s" "length s \<le> hi"
  have "chomp s = s"
    using s(1) last_in_set[of s] by (fastforce simp: chomp_def list_all_iff is_hex_def is_digit_def)
  then show ?thesis using s by (simp add: hex_pattern_def)
qed

lemma content_id_pattern: "list_all is_hex s \<Longrightarrow> 8 \<le> length s \<Longrightarrow> artifact_id_pattern (''fa_'' @ s)"
proof -
  assume s: "list_all is_hex s" "8 \<le> length s"
  then have "last s \<in> set s" by (intro last_in_set) auto
  then have "is_hex (last s)" using s(1) by (simp add: list_all_iff)
  then have "last (''fa_'' @ s) \<noteq> CHR 0x0A"
    using s(2) by (auto simp: is_hex_def is_digit_def)
  then have "chomp (''fa_'' @ s) = ''fa_'' @ s" by (simp add: chomp_def)
  moreover have "list_all lower_alnum s"
    using s(1) by (auto simp: list_all_iff is_hex_def lower_alnum_def)
  ultimately show ?thesis using s(2) by (simp add: artifact_id_pattern_def Let_def starts_with_def)
qed

text \<open>Objects are opened only where a proof asks for it.\<close>

lemmas conforms_props = conforms.simps(10)

declare conforms.simps(10) [simp del]

end
