(* ===== verification/Artifacts.thy ===== *)
theory Artifacts
  imports Complex_Main Schema Py_Time Score_Matrix Leak_Safe Source_Packs
begin

text \<open>
  \<open>src/core/golavo_core/artifacts.py\<close>: canonical, content-addressed ForecastArtifacts and the
  ledger directory that keeps them.  An artifact is parsed JSON, validated by the schema
  \<open>src/docs/contracts/forecast_artifact.schema.json\<close> (here \<open>artifact_schema\<close>).  Instants are texts
  in the canonical form \<open>YYYY-MM-DDTHH:MM:SSZ\<close>.

  A freshly fitted probability is a float with more digits than a JSON value here holds; the
  artifact is built with its canonical form, which \<open>canonical_bytes\<close> makes of it before any byte is
  hashed or written.  Fitting a model is a parameter; the code revision and the generator text
  are inputs.
\<close>

datatype aerror =
    Schema_invalid | Probs_not_one | Matrix_without_probs | Incoherent
  | Type_failure | Not_json | Payload_mismatch | Id_mismatch | Name_mismatch | Collision
  | Unknown_family | Bad_time | Anchor_in_future | Not_one_match | Already_complete
  | Not_before_kickoff | Leak leak_error | Model_incoherent
  | Not_scorable | Not_newer | Bad_goals | No_result | Not_voidable | No_reason

section \<open>The schema\<close>

definition probability :: schema where
  "probability = Number 0 (Some 1000000000)"

definition date_time :: "(string \<Rightarrow> string \<Rightarrow> bool) \<Rightarrow> schema" where
  "date_time fmt = Text (fmt ''date-time'')"

definition some_text :: schema where
  "some_text = Text (\<lambda>_. True)"

definition match_schema :: "(string \<Rightarrow> string \<Rightarrow> bool) \<Rightarrow> schema" where
  "match_schema fmt = Props
     [(''match_id'', True, Text nonempty), (''competition'', True, Text nonempty),
      (''stage'', False, Nullable some_text), (''kickoff_utc'', True, date_time fmt),
      (''home_team'', True, Text nonempty), (''away_team'', True, Text nonempty),
      (''neutral_venue'', True, Boolean), (''city'', False, Nullable some_text),
      (''country'', False, Nullable some_text)]"

definition probabilities_schema :: schema where
  "probabilities_schema = Props
     [(''home'', True, probability), (''draw'', True, probability), (''away'', True, probability)]"

definition score_matrix_schema :: schema where
  "score_matrix_schema = Props
     [(''max_goals'', True, Integer (Some 1)), (''resolution'', True, Integer (Some 1)),
      (''grid'', True, Items 1 (Items 1 probability)),
      (''tail'', True, Props [(''probability'', True, probability), (''home'', True, probability),
                             (''draw'', True, probability), (''away'', True, probability)]),
      (''most_likely'', True, Props [(''home'', True, Integer (Some 0)), (''away'', True, Integer (Some 0)),
                                    (''probability'', True, probability)]),
      (''total_probability'', True, Number 0 None)]"

definition forecast_schema :: "(string \<Rightarrow> string \<Rightarrow> bool) \<Rightarrow> schema" where
  "forecast_schema fmt = Props
     [(''market'', True, Enum [''1x2_regulation'']), (''sealed_at_utc'', True, date_time fmt),
      (''horizon'', True, Enum [''T-72h'', ''T-24h'', ''T-60m'']),
      (''probs'', True, Nullable probabilities_schema),
      (''expected_goals'', True, Nullable (Props [(''home'', True, Number 0 None), (''away'', True, Number 0 None)])),
      (''abstained'', True, Boolean), (''abstain_reason'', True, Nullable some_text),
      (''uncertainty'', True, Enum [''low'', ''medium'', ''high'']),
      (''score_matrix'', False, score_matrix_schema)]"

definition frozen_families :: "string list" where
  "frozen_families = [''climatological'', ''elo_ordlogit'', ''poisson_independent'', ''dixon_coles'', ''bivariate_poisson'']"

definition model_schema :: schema where
  "model_schema = Props
     [(''model_id'', True, Text nonempty), (''family'', True, Enum frozen_families),
      (''version'', True, Text nonempty), (''params_hash'', True, Text (hex_pattern 64 64)),
      (''code_git_sha'', True, Text (hex_pattern 7 40)), (''seed'', True, Integer None)]"

definition snapshot_schema :: "(string \<Rightarrow> string \<Rightarrow> bool) \<Rightarrow> schema" where
  "snapshot_schema fmt = Props
     [(''snapshot_id'', True, Text nonempty), (''source_id'', True, Text nonempty),
      (''url'', True, Text (fmt ''uri'')), (''upstream_ref'', True, Text nonempty),
      (''retrieved_at_utc'', True, date_time fmt),
      (''upstream_committed_at_utc'', False, Nullable (date_time fmt)),
      (''sha256'', True, Text (hex_pattern 64 64)), (''license'', True, Text nonempty)]"

definition inputs_schema :: "(string \<Rightarrow> string \<Rightarrow> bool) \<Rightarrow> schema" where
  "inputs_schema fmt = Props
     [(''training_cutoff_utc'', True, date_time fmt), (''snapshots'', True, Items 1 (snapshot_schema fmt))]"

definition provenance_schema :: "(string \<Rightarrow> string \<Rightarrow> bool) \<Rightarrow> schema" where
  "provenance_schema fmt = Props
     [(''created_at_utc'', True, date_time fmt), (''generator'', True, Text nonempty),
      (''deterministic'', True, Is_true), (''payload_sha256'', True, Text (hex_pattern 64 64))]"

definition evaluation_schema :: "(string \<Rightarrow> string \<Rightarrow> bool) \<Rightarrow> schema" where
  "evaluation_schema fmt = Props
     [(''actual'', True, Props [(''home_goals'', True, Integer (Some 0)), (''away_goals'', True, Integer (Some 0)),
                               (''outcome'', True, Enum [''home'', ''draw'', ''away''])]),
      (''scored_at_utc'', True, date_time fmt),
      (''metrics'', True, Props [(''log_loss'', True, Number 0 None), (''brier'', True, Number 0 None),
                                (''prob_assigned_to_outcome'', True, probability)])]"

definition artifact_props :: "(string \<Rightarrow> string \<Rightarrow> bool) \<Rightarrow> (string \<times> bool \<times> schema) list" where
  "artifact_props fmt =
     [(''schema_version'', True, Enum [''0.1.0'', ''0.2.0'']),
      (''artifact_id'', True, Text artifact_id_pattern),
      (''status'', True, Enum [''sealed'', ''scored'', ''abstained'', ''voided'']),
      (''supersedes'', False, Nullable (Text artifact_id_pattern)),
      (''void_reason'', False, Nullable (Text nonempty)),
      (''match'', True, match_schema fmt), (''forecast'', True, forecast_schema fmt),
      (''model'', True, model_schema), (''inputs'', True, inputs_schema fmt),
      (''provenance'', True, provenance_schema fmt),
      (''evaluation'', True, Nullable (evaluation_schema fmt))]"

definition artifact_schema :: "(string \<Rightarrow> string \<Rightarrow> bool) \<Rightarrow> schema" where
  "artifact_schema fmt = Props (artifact_props fmt)"

section \<open>Validation\<close>

definition nano_at :: "json \<Rightarrow> string \<Rightarrow> int" where
  "nano_at v k = (case num_nano (jget v k) of Some n \<Rightarrow> n | None \<Rightarrow> 0)"

definition nat_at :: "json \<Rightarrow> string \<Rightarrow> nat" where
  "nat_at v k = (case num_int (jget v k) of Some i \<Rightarrow> nat i | None \<Rightarrow> 0)"

definition arr :: "json \<Rightarrow> json list" where
  "arr v = (case v of JArr vs \<Rightarrow> vs | _ \<Rightarrow> [])"

lemma wf_arr: "wf_json v \<Longrightarrow> wf_items (arr v)"
  by (cases v) (simp_all add: arr_def)

definition probs_of :: "json \<Rightarrow> rat \<times> rat \<times> rat" where
  "probs_of p = (nano (nano_at p ''home''), nano (nano_at p ''draw''), nano (nano_at p ''away''))"

definition read_score_matrix :: "json \<Rightarrow> score_matrix" where
  "read_score_matrix s =
     (let tail = jget s ''tail''; likely = jget s ''most_likely'' in
      \<lparr> sm_max_goals = nat_at s ''max_goals'', sm_resolution = nat_at s ''resolution'',
        sm_grid = map (\<lambda>row. map (\<lambda>c. case num_nano c of Some n \<Rightarrow> n | None \<Rightarrow> 0) (arr row)) (arr (jget s ''grid'')),
        sm_tail = nano_at tail ''probability'', sm_tail_home = nano_at tail ''home'',
        sm_tail_draw = nano_at tail ''draw'', sm_tail_away = nano_at tail ''away'',
        sm_likely_home = nat_at likely ''home'', sm_likely_away = nat_at likely ''away'',
        sm_likely_probability = nano_at likely ''probability'',
        sm_total = nano_at s ''total_probability'' \<rparr>)"

definition validate_artifact :: "(string \<Rightarrow> string \<Rightarrow> bool) \<Rightarrow> json \<Rightarrow> aerror + unit" where
  "validate_artifact fmt v =
     (let probs = jget (jget v ''forecast'') ''probs''; grid = jget (jget v ''forecast'') ''score_matrix'' in
      if \<not> conforms (artifact_schema fmt) v then Inl Schema_invalid
      else if probs \<noteq> JNull
              \<and> \<bar>nano_at probs ''home'' + nano_at probs ''draw'' + nano_at probs ''away'' - 1000000000\<bar> > 1000
           then Inl Probs_not_one
      else if grid = JNull then Inr ()
      else if probs = JNull then Inl Matrix_without_probs
      else if stored_coherence_violations (read_score_matrix grid) (probs_of probs) \<noteq> [] then Inl Incoherent
      else Inr ())"

section \<open>Canonical bytes and content ids\<close>

definition probs_json :: "int \<times> int \<times> int \<Rightarrow> json" where
  "probs_json p = (case p of (h, d, a) \<Rightarrow>
     JObj [(''home'', JFloat (h * 1000)), (''draw'', JFloat (d * 1000)), (''away'', JFloat (a * 1000))])"

text \<open>The artifact with canonical probabilities; \<open>None\<close> where \<open>canonical_bytes\<close> would raise.\<close>

definition canonical_json :: "json \<Rightarrow> json option" where
  "canonical_json v =
     (case dict_get (obj_fields v) ''forecast'' of
        None \<Rightarrow> if is_obj v then Some v else None
      | Some f \<Rightarrow>
          if \<not> is_obj f then None
          else let p = jget f ''probs'' in
            if p = JNull then Some v
            else (case (num_nano (jget p ''home''), num_nano (jget p ''draw''), num_nano (jget p ''away'')) of
                    (Some h, Some d, Some a) \<Rightarrow>
                      Some (json_set ''forecast'' (json_set ''probs'' (probs_json (canonical_probs (nano h, nano d, nano a))) f) v)
                  | _ \<Rightarrow> None))"

definition canonical_bytes :: "json \<Rightarrow> string option" where
  "canonical_bytes v = map_option dumps (canonical_json v)"

definition without_payload_sha256 :: "json \<Rightarrow> json" where
  "without_payload_sha256 v = json_set ''provenance'' (json_pop ''payload_sha256'' (jget v ''provenance'')) v"

definition payload_sha256 :: "json \<Rightarrow> string option" where
  "payload_sha256 v = map_option sha256_hex (canonical_bytes (without_payload_sha256 v))"

definition artifact_id :: "json \<Rightarrow> string option" where
  "artifact_id payload = map_option (\<lambda>b. ''fa_'' @ take 20 (sha256_hex b)) (canonical_bytes payload)"

definition stable_payload :: "json \<Rightarrow> json" where
  "stable_payload v = without_payload_sha256 (json_pop ''artifact_id'' v)"

definition verify_artifact_integrity ::
  "(string \<Rightarrow> string \<Rightarrow> bool) \<Rightarrow> json \<Rightarrow> string option \<Rightarrow> aerror + json" where
  "verify_artifact_integrity fmt v expected =
     bindE (validate_artifact fmt v) (\<lambda>_.
       (case (payload_sha256 v, artifact_id (stable_payload v)) of
          (Some h, Some i) \<Rightarrow>
            if jget (jget v ''provenance'') ''payload_sha256'' \<noteq> JStr h then Inl Payload_mismatch
            else if jget v ''artifact_id'' \<noteq> JStr i then Inl Id_mismatch
            else if expected \<noteq> None \<and> expected \<noteq> Some i then Inl Name_mismatch
            else Inr v
        | _ \<Rightarrow> Inl Type_failure))"

definition load_verified_artifact :: "(string \<Rightarrow> string \<Rightarrow> bool) \<Rightarrow> string \<Rightarrow> string \<Rightarrow> aerror + json" where
  "load_verified_artifact fmt stem data =
     (case loads data of None \<Rightarrow> Inl Not_json | Some v \<Rightarrow> verify_artifact_integrity fmt v (Some stem))"

definition is_valid_artifact_bytes :: "(string \<Rightarrow> string \<Rightarrow> bool) \<Rightarrow> string \<Rightarrow> string \<Rightarrow> bool" where
  "is_valid_artifact_bytes fmt data i =
     (case load_verified_artifact fmt i data of Inl _ \<Rightarrow> False | Inr _ \<Rightarrow> True)"

text \<open>Every writer ends the same way: the id of the stable payload, then the payload digest.\<close>

definition finish_artifact :: "json \<Rightarrow> json option" where
  "finish_artifact v =
     (case artifact_id (stable_payload v) of
        None \<Rightarrow> None
      | Some i \<Rightarrow>
          let w = json_set ''artifact_id'' (JStr i) v in
          (case payload_sha256 w of
             None \<Rightarrow> None
           | Some h \<Rightarrow> Some (json_set ''provenance'' (json_set ''payload_sha256'' (JStr h) (jget w ''provenance'')) w)))"

section \<open>The ledger directory\<close>

text \<open>Artifact files by stem, and the bytes of \<open>audit.jsonl\<close>.\<close>

record ledger =
  lg_files :: "(string, string) dict"
  lg_audit :: string

text \<open>\<open>bytes.splitlines(keepends=True)\<close>.\<close>

fun split_lines :: "string \<Rightarrow> string list" where
  "split_lines [] = []"
| "split_lines (c # cs) =
     (if c = CHR 0x0D \<and> cs \<noteq> [] \<and> hd cs = CHR 0x0A then [c, hd cs] # split_lines (tl cs)
      else if c = CHR 0x0A \<or> c = CHR 0x0D then [c] # split_lines cs
      else case split_lines cs of [] \<Rightarrow> [[c]] | l # ls \<Rightarrow> (c # l) # ls)"

definition audit_event :: "json \<Rightarrow> json" where
  "audit_event v = JObj
     [(''artifact_id'', jget v ''artifact_id''),
      (''created_at_utc'', jget (jget v ''provenance'') ''created_at_utc''),
      (''payload_sha256'', jget (jget v ''provenance'') ''payload_sha256''),
      (''status'', jget v ''status''),
      (''supersedes'', jget v ''supersedes'')]"

definition audit_line :: "json \<Rightarrow> string" where
  "audit_line v = dumps (audit_event v) @ [CHR 0x0A]"

definition append_audit_event :: "json \<Rightarrow> ledger \<Rightarrow> ledger" where
  "append_audit_event v l =
     (if audit_line v \<in> set (split_lines (lg_audit l)) then l
      else l\<lparr>lg_audit := lg_audit l @ audit_line v\<rparr>)"

definition id_text :: "json \<Rightarrow> string" where
  "id_text v = (case jget v ''artifact_id'' of JStr s \<Rightarrow> s | _ \<Rightarrow> [])"

definition write_artifact :: "(string \<Rightarrow> string \<Rightarrow> bool) \<Rightarrow> json \<Rightarrow> ledger \<Rightarrow> (aerror + string) \<times> ledger" where
  "write_artifact fmt v l =
     (case validate_artifact fmt v of
        Inl e \<Rightarrow> (Inl e, l)
      | Inr _ \<Rightarrow>
          (case canonical_bytes v of
             None \<Rightarrow> (Inl Type_failure, l)
           | Some b \<Rightarrow>
               let stem = id_text v; data = b @ [CHR 0x0A];
                   written = append_audit_event v (l\<lparr>lg_files := dict_set stem data (lg_files l)\<rparr>) in
               (case dict_get (lg_files l) stem of
                  None \<Rightarrow> (Inr stem, written)
                | Some existing \<Rightarrow>
                    if existing = data then (Inr stem, append_audit_event v l)
                    else if is_valid_artifact_bytes fmt existing stem then (Inl Collision, l)
                    else (Inr stem, written))))"

section \<open>Sealing\<close>

record prediction =
  pr_probs :: "rat \<times> rat \<times> rat"
  pr_expected :: "(rat \<times> rat) option"
  pr_params :: "(string, json) dict"
  pr_matrix :: "matrix option"

record seal_request =
  rq_date :: string
  rq_home :: string
  rq_away :: string
  rq_as_of :: string
  rq_horizon :: string
  rq_family :: string
  rq_seed :: int
  rq_match_id :: "string option"

definition parse_day :: "string \<Rightarrow> dt option" where
  "parse_day s = parse_iso (s @ ''T00:00:00Z'')"

definition find_match :: "frame \<Rightarrow> string \<Rightarrow> string \<Rightarrow> string \<Rightarrow> string option \<Rightarrow> aerror + mrow" where
  "find_match f date home away mid =
     (case parse_day date of
        None \<Rightarrow> Inl Bad_time
      | Some day \<Rightarrow>
          (case filter (\<lambda>r. mr_date r = Some day \<and> mr_home r = home \<and> mr_away r = away
                         \<and> (mid = None \<or> mid = Some (mr_id r))) (fr_rows f) of
             [r] \<Rightarrow> Inr r
           | _ \<Rightarrow> Inl Not_one_match))"

definition decay_window_days :: nat where
  "decay_window_days = 365 * 8"

definition min_team_matches :: nat where
  "min_team_matches = 10"

definition team_count :: "frame \<Rightarrow> dt \<Rightarrow> string \<Rightarrow> nat" where
  "team_count train as_of team =
     (let start = minus_days decay_window_days as_of in
      length (filter (\<lambda>r. (case mr_date r of None \<Rightarrow> False | Some d \<Rightarrow> d \<ge> start)
                        \<and> (mr_home r = team \<or> mr_away r = team)) (fr_rows train)))"

definition snapshot_anchor :: "json \<Rightarrow> dt option" where
  "snapshot_anchor s = parse_iso (snapshot_anchor_utc s)"

text \<open>The latest data state among the snapshots; \<open>None\<close> when one has no readable instant.\<close>

fun latest_anchor :: "json list \<Rightarrow> dt option" where
  "latest_anchor [] = None"
| "latest_anchor [s] = snapshot_anchor s"
| "latest_anchor (s # ss) =
     (case (snapshot_anchor s, latest_anchor ss) of (Some a, Some b) \<Rightarrow> Some (max a b) | _ \<Rightarrow> None)"

definition score_matrix_json :: "score_matrix \<Rightarrow> json" where
  "score_matrix_json s = JObj
     [(''max_goals'', JInt (int (sm_max_goals s))), (''resolution'', JInt (int (sm_resolution s))),
      (''grid'', JArr (map (\<lambda>row. JArr (map JFloat row)) (sm_grid s))),
      (''tail'', JObj [(''probability'', JFloat (sm_tail s)), (''home'', JFloat (sm_tail_home s)),
                      (''draw'', JFloat (sm_tail_draw s)), (''away'', JFloat (sm_tail_away s))]),
      (''most_likely'', JObj [(''home'', JInt (int (sm_likely_home s))), (''away'', JInt (int (sm_likely_away s))),
                             (''probability'', JFloat (sm_likely_probability s))]),
      (''total_probability'', JFloat (sm_total s))]"

definition jtext :: "string option \<Rightarrow> json" where
  "jtext x = (case x of None \<Rightarrow> JNull | Some s \<Rightarrow> JStr s)"

definition zero_sha :: string where
  "zero_sha = replicate 64 (CHR ''0'')"

definition uncertainty_of :: "nat \<Rightarrow> string" where
  "uncertainty_of k = (if k < 20 then ''high'' else if k < 40 then ''medium'' else ''low'')"

text \<open>The forecast part: abstention, or the model's numbers with a coherent grid.\<close>

record numbers =
  nm_probs :: json
  nm_expected :: json
  nm_grid :: "score_matrix option"
  nm_params :: "(string, json) dict"

definition abstained_numbers :: numbers where
  "abstained_numbers = \<lparr> nm_probs = JNull, nm_expected = JNull, nm_grid = None,
     nm_params = [(''minimum_team_matches'', JInt (int min_team_matches))] \<rparr>"

definition merge_params :: "(string, json) dict \<Rightarrow> (string, json) dict \<Rightarrow> (string, json) dict" where
  "merge_params d ps = fold (\<lambda>(k, v). dict_set k v) ps d"

definition micro_json :: "int \<Rightarrow> json" where
  "micro_json i = JFloat (i * 1000)"

definition model_numbers :: "prediction \<Rightarrow> aerror + numbers" where
  "model_numbers p =
     (let expected = (case pr_expected p of None \<Rightarrow> None | Some (h, a) \<Rightarrow> Some (round6 h, round6 a));
          base = \<lparr> nm_probs = probs_json (canonical_probs (pr_probs p)),
                   nm_expected = (case expected of None \<Rightarrow> JNull
                                  | Some (h, a) \<Rightarrow> JObj [(''home'', micro_json h), (''away'', micro_json a)]),
                   nm_grid = None, nm_params = merge_params (nm_params abstained_numbers) (pr_params p) \<rparr>
      in (case (pr_matrix p, expected) of
            (Some m, Some (h, a)) \<Rightarrow>
              let grid = build_score_matrix score_matrix_display_n m in
              if model_coherent m grid (pr_probs p) (of_int h / 1000000, of_int a / 1000000)
              then Inr (base\<lparr>nm_grid := Some grid\<rparr>) else Inl Model_incoherent
          | _ \<Rightarrow> Inr base))"

definition params_hash :: "(string, json) dict \<Rightarrow> string" where
  "params_hash ps = sha256_hex (dumps (JObj [(''params'', JObj ps)]))"

record environment =
  en_version :: string
  en_code_sha :: string

definition abstain_reason :: "seal_request \<Rightarrow> nat \<Rightarrow> nat \<Rightarrow> string" where
  "abstain_reason rq hc ac = ''insufficient data: '' @ rq_home rq @ ''='' @ nat_str hc @ '', ''
     @ rq_away rq @ ''='' @ nat_str ac @ ''; require '' @ nat_str min_team_matches @ '' each''"

definition artifact_json ::
  "environment \<Rightarrow> seal_request \<Rightarrow> mrow \<Rightarrow> dt \<Rightarrow> dt \<Rightarrow> dt \<Rightarrow> json list \<Rightarrow> nat \<Rightarrow> nat \<Rightarrow> bool \<Rightarrow> numbers \<Rightarrow> json" where
  "artifact_json en rq m as_of kickoff cutoff snapshots hc ac abstained nm = JObj
     [(''schema_version'', JStr ''0.2.0''), (''artifact_id'', JStr ''fa_pending00''),
      (''status'', JStr (if abstained then ''abstained'' else ''sealed'')), (''supersedes'', JNull),
      (''match'', JObj
        [(''match_id'', JStr (mr_id m)), (''competition'', JStr (mr_tournament m)), (''stage'', JNull),
         (''kickoff_utc'', JStr (dt_iso kickoff)), (''home_team'', JStr (rq_home rq)),
         (''away_team'', JStr (rq_away rq)), (''neutral_venue'', JBool (mr_neutral m)),
         (''city'', jtext (mr_city m)), (''country'', jtext (mr_country m))]),
      (''forecast'', JObj
        ([(''market'', JStr ''1x2_regulation''), (''sealed_at_utc'', JStr (dt_iso as_of)),
          (''horizon'', JStr (rq_horizon rq)), (''probs'', nm_probs nm), (''expected_goals'', nm_expected nm),
          (''abstained'', JBool abstained),
          (''abstain_reason'', if abstained then JStr (abstain_reason rq hc ac) else JNull),
          (''uncertainty'', JStr (uncertainty_of (min hc ac)))]
         @ (case nm_grid nm of None \<Rightarrow> [] | Some s \<Rightarrow> [(''score_matrix'', score_matrix_json s)]))),
      (''model'', JObj
        [(''model_id'', JStr (rq_family rq @ ''_phase0'')), (''family'', JStr (rq_family rq)),
         (''version'', JStr (en_version en)), (''params_hash'', JStr (params_hash (nm_params nm))),
         (''code_git_sha'', JStr (en_code_sha en)), (''seed'', JInt (rq_seed rq))]),
      (''inputs'', JObj [(''training_cutoff_utc'', JStr (dt_iso cutoff)), (''snapshots'', JArr snapshots)]),
      (''provenance'', JObj
        [(''created_at_utc'', JStr (dt_iso as_of)), (''generator'', JStr (''golavo-core/'' @ en_version en)),
         (''deterministic'', JBool True), (''payload_sha256'', JStr zero_sha)]),
      (''evaluation'', JNull)]"

definition orE :: "'a option \<Rightarrow> 'e \<Rightarrow> 'e + 'a" where
  "orE x e = (case x of None \<Rightarrow> Inl e | Some v \<Rightarrow> Inr v)"

definition build_forecast_artifact ::
  "environment \<Rightarrow> (string \<Rightarrow> frame \<Rightarrow> dt \<Rightarrow> string \<Rightarrow> string \<Rightarrow> bool \<Rightarrow> prediction) \<Rightarrow> json list \<Rightarrow> frame \<Rightarrow>
   seal_request \<Rightarrow> aerror + json" where
  "build_forecast_artifact en fit snapshots matches rq =
     bindE (guardE (rq_family rq \<in> set frozen_families) Unknown_family) (\<lambda>_.
     bindE (orE (parse_iso (rq_as_of rq)) Bad_time) (\<lambda>as_of.
     bindE (orE (latest_anchor snapshots) Bad_time) (\<lambda>anchor.
     bindE (guardE (\<not> anchor > as_of) Anchor_in_future) (\<lambda>_.
     bindE (find_match matches (rq_date rq) (rq_home rq) (rq_away rq) (rq_match_id rq)) (\<lambda>m.
     bindE (orE (mr_complete m) Type_failure) (\<lambda>complete.
     bindE (guardE (\<not> complete) Already_complete) (\<lambda>_.
     bindE (case mr_kickoff m of Some k \<Rightarrow> guardE (\<not> as_of \<ge> k) Not_before_kickoff | None \<Rightarrow> Inr ()) (\<lambda>_.
     bindE (case leak_safe_training_view matches m (Some as_of) of Inl e \<Rightarrow> Inl (Leak e) | Inr view \<Rightarrow> Inr view) (\<lambda>view.
       let train = tv_frame view;
           hc = team_count train as_of (rq_home rq); ac = team_count train as_of (rq_away rq);
           abstained = (min hc ac < min_team_matches) in
       bindE (if abstained then Inr abstained_numbers
              else model_numbers (fit (rq_family rq) train (tv_cutoff view) (rq_home rq) (rq_away rq) (mr_neutral m))) (\<lambda>nm.
         orE (finish_artifact (artifact_json en rq m as_of (tv_kickoff view) (tv_cutoff view) snapshots hc ac abstained nm))
           Type_failure))))))))))"

definition seal_forecast ::
  "(string \<Rightarrow> string \<Rightarrow> bool) \<Rightarrow> environment \<Rightarrow> (string \<Rightarrow> frame \<Rightarrow> dt \<Rightarrow> string \<Rightarrow> string \<Rightarrow> bool \<Rightarrow> prediction) \<Rightarrow>
   json list \<Rightarrow> frame \<Rightarrow> seal_request \<Rightarrow> ledger \<Rightarrow> (aerror + string) \<times> ledger" where
  "seal_forecast fmt en fit snapshots matches rq l =
     (case build_forecast_artifact en fit snapshots matches rq of
        Inl e \<Rightarrow> (Inl e, l) | Inr v \<Rightarrow> write_artifact fmt v l)"

section \<open>Scoring and voiding\<close>

definition score_snapshot_anchor :: "json \<Rightarrow> json \<Rightarrow> aerror + dt" where
  "score_snapshot_anchor sealed snap =
     (if jget sealed ''status'' \<noteq> JStr ''sealed'' \<or> jget (jget sealed ''forecast'') ''probs'' = JNull then Inl Not_scorable
      else
        bindE (orE (latest_anchor (arr (jget (jget sealed ''inputs'') ''snapshots''))) Bad_time) (\<lambda>old.
        bindE (orE (snapshot_anchor snap) Bad_time) (\<lambda>new.
          if new \<le> old then Inl Not_newer else Inr new)))"

definition outcome_key :: "int \<Rightarrow> int \<Rightarrow> string" where
  "outcome_key h a = (if h > a then ''home'' else if h = a then ''draw'' else ''away'')"

definition log_loss :: "rat \<Rightarrow> int" where
  "log_loss p = round6 (- ln (max (real_of_rat p) (1 / 10 ^ 12)))"

definition brier :: "json \<Rightarrow> string \<Rightarrow> int" where
  "brier probs outcome =
     round6 (sum_list (map (\<lambda>k. (nano (nano_at probs k) - (if k = outcome then 1 else 0)) ^ 2) [''home'', ''draw'', ''away'']))"

definition evaluation_json :: "json \<Rightarrow> int \<Rightarrow> int \<Rightarrow> dt \<Rightarrow> json" where
  "evaluation_json probs h a now =
     (let oc = outcome_key h a; assigned = nano (nano_at probs oc) in
      JObj [(''actual'', JObj [(''home_goals'', JInt h), (''away_goals'', JInt a), (''outcome'', JStr oc)]),
            (''scored_at_utc'', JStr (dt_iso now)),
            (''metrics'', JObj [(''log_loss'', micro_json (log_loss assigned)), (''brier'', micro_json (brier probs oc)),
                               (''prob_assigned_to_outcome'', micro_json (round6 assigned))])])"

text \<open>The provenance of a successor before its own digest is known.\<close>

definition restamp :: "dt \<Rightarrow> json \<Rightarrow> json" where
  "restamp now v =
     json_set ''provenance'' (json_set ''payload_sha256'' (JStr zero_sha)
       (json_set ''created_at_utc'' (JStr (dt_iso now)) (jget v ''provenance''))) v"

definition scored_json :: "json \<Rightarrow> json \<Rightarrow> int \<Rightarrow> int \<Rightarrow> dt \<Rightarrow> json" where
  "scored_json sealed snap h a now =
     restamp now
       (json_set ''evaluation'' (evaluation_json (jget (jget sealed ''forecast'') ''probs'') h a now)
       (json_set ''inputs'' (json_set ''snapshots'' (JArr (arr (jget (jget sealed ''inputs'') ''snapshots'') @ [snap])) (jget sealed ''inputs''))
       (json_set ''supersedes'' (jget sealed ''artifact_id'')
       (json_set ''status'' (JStr ''scored'') sealed))))"

definition finish_and_write :: "(string \<Rightarrow> string \<Rightarrow> bool) \<Rightarrow> json \<Rightarrow> ledger \<Rightarrow> (aerror + string) \<times> ledger" where
  "finish_and_write fmt v l = (case finish_artifact v of None \<Rightarrow> (Inl Type_failure, l) | Some w \<Rightarrow> write_artifact fmt w l)"

definition score_verified_seal ::
  "(string \<Rightarrow> string \<Rightarrow> bool) \<Rightarrow> json \<Rightarrow> json \<Rightarrow> int \<Rightarrow> int \<Rightarrow> ledger \<Rightarrow> (aerror + string) \<times> ledger" where
  "score_verified_seal fmt sealed snap h a l =
     (case score_snapshot_anchor sealed snap of
        Inl e \<Rightarrow> (Inl e, l)
      | Inr now \<Rightarrow>
          if h < 0 \<or> a < 0 then (Inl Bad_goals, l)
          else finish_and_write fmt (scored_json sealed snap h a now) l)"

definition score_forecast_result ::
  "(string \<Rightarrow> string \<Rightarrow> bool) \<Rightarrow> string \<Rightarrow> string \<Rightarrow> json \<Rightarrow> int \<Rightarrow> int \<Rightarrow> ledger \<Rightarrow> (aerror + string) \<times> ledger" where
  "score_forecast_result fmt stem data snap h a l =
     (case load_verified_artifact fmt stem data of
        Inl e \<Rightarrow> (Inl e, l) | Inr sealed \<Rightarrow> score_verified_seal fmt sealed snap h a l)"

definition text_at :: "json \<Rightarrow> string \<Rightarrow> string" where
  "text_at v k = (case jget v k of JStr s \<Rightarrow> s | _ \<Rightarrow> [])"

definition score_forecast ::
  "(string \<Rightarrow> string \<Rightarrow> bool) \<Rightarrow> string \<Rightarrow> string \<Rightarrow> json \<Rightarrow> frame \<Rightarrow> ledger \<Rightarrow> (aerror + string) \<times> ledger" where
  "score_forecast fmt stem data snap matches l =
     (case load_verified_artifact fmt stem data of
        Inl e \<Rightarrow> (Inl e, l)
      | Inr sealed \<Rightarrow>
          (case score_snapshot_anchor sealed snap of
             Inl e \<Rightarrow> (Inl e, l)
           | Inr _ \<Rightarrow>
               let m = jget sealed ''match'' in
               (case find_match matches (take 10 (text_at m ''kickoff_utc'')) (text_at m ''home_team'') (text_at m ''away_team'')
                       (Some (text_at m ''match_id'')) of
                  Inl e \<Rightarrow> (Inl e, l)
                | Inr actual \<Rightarrow>
                    (case (mr_complete actual, mr_home_score actual, mr_away_score actual) of
                       (Some True, Some h, Some a) \<Rightarrow> score_verified_seal fmt sealed snap h a l
                     | (Some False, _, _) \<Rightarrow> (Inl No_result, l)
                     | _ \<Rightarrow> (Inl Type_failure, l)))))"

text \<open>\<open>str.strip\<close>: the encodings of the characters Python counts as white space.\<close>

definition byte :: "nat \<Rightarrow> char" where
  "byte n = char_of n"

definition white_space :: "string list" where
  "white_space =
     map (\<lambda>n. [byte n]) [9, 10, 11, 12, 13, 28, 29, 30, 31, 32]
     @ [[byte 194, byte 133], [byte 194, byte 160], [byte 225, byte 154, byte 128]]
     @ map (\<lambda>n. [byte 226, byte 128, byte n]) [128, 129, 130, 131, 132, 133, 134, 135, 136, 137, 138, 168, 169, 175]
     @ [[byte 226, byte 129, byte 159], [byte 227, byte 128, byte 128]]"

text \<open>Every round drops at least one byte, so that the length of the text is enough fuel.\<close>

fun drop_prefixes :: "string list \<Rightarrow> nat \<Rightarrow> string \<Rightarrow> string" where
  "drop_prefixes ws 0 s = s"
| "drop_prefixes ws (Suc n) s =
     (case find (\<lambda>w. starts_with w s) ws of None \<Rightarrow> s | Some w \<Rightarrow> drop_prefixes ws n (drop (length w) s))"

definition strip_text :: "string \<Rightarrow> string" where
  "strip_text s =
     (let front = drop_prefixes white_space (length s) s in
      rev (drop_prefixes (map rev white_space) (length front) (rev front)))"

definition voided_json :: "json \<Rightarrow> dt \<Rightarrow> string \<Rightarrow> json" where
  "voided_json sealed now reason =
     restamp now
       (json_set ''void_reason'' (JStr (strip_text reason))
       (json_set ''supersedes'' (jget sealed ''artifact_id'')
       (json_set ''status'' (JStr ''voided'') sealed)))"

definition void_forecast ::
  "(string \<Rightarrow> string \<Rightarrow> bool) \<Rightarrow> string \<Rightarrow> string \<Rightarrow> string \<Rightarrow> string \<Rightarrow> ledger \<Rightarrow> (aerror + string) \<times> ledger" where
  "void_forecast fmt stem data voided_at reason l =
     (case load_verified_artifact fmt stem data of
        Inl e \<Rightarrow> (Inl e, l)
      | Inr sealed \<Rightarrow>
          if jget sealed ''status'' \<notin> {JStr ''sealed'', JStr ''abstained''} then (Inl Not_voidable, l)
          else if strip_text reason = [] then (Inl No_reason, l)
          else (case parse_iso voided_at of
                  None \<Rightarrow> (Inl Bad_time, l)
                | Some now \<Rightarrow> finish_and_write fmt (voided_json sealed now reason) l))"

end
