(* ===== verification/Artifact_Laws.thy ===== *)
theory Artifact_Laws
  imports Artifacts
begin

text \<open>
  Laws of canonical artifacts: \<open>canonical_bytes\<close> depends on an artifact only up to the order of its
  keys, canonicalisation is idempotent and commutes with changes outside the forecast, so the
  payload digest and the content id of an artifact are those of its canonical form; the writers
  end with an artifact that verifies; and a file written in canonical form reads back and
  verifies under its own name.
\<close>

section \<open>Equality up to key order\<close>

definition jeq :: "json \<Rightarrow> json \<Rightarrow> bool" where
  "jeq v w \<longleftrightarrow> wf_json v \<and> wf_json w \<and> normalise v = normalise w"

lemma jeq_refl: "wf_json v \<Longrightarrow> jeq v v"
  by (simp add: jeq_def)

lemma jeq_sym: "jeq v w \<Longrightarrow> jeq w v"
  by (simp add: jeq_def)

lemma jeq_trans [trans]: "jeq u v \<Longrightarrow> jeq v w \<Longrightarrow> jeq u w"
  by (simp add: jeq_def)

lemma jeq_normalise: "wf_json v \<Longrightarrow> jeq (normalise v) v"
  by (simp add: jeq_def wf_normalise)

lemma jeq_jget: "jeq v w \<Longrightarrow> jeq (jget v k) (jget w k)"
  using jget_normal[of v k] jget_normal[of w k] by (simp add: jeq_def wf_jget)

lemma jeq_obj: "jeq v w \<Longrightarrow> is_obj v = is_obj w"
  using is_obj_normalise[of v] is_obj_normalise[of w] by (simp add: jeq_def del: is_obj_normalise)

lemma jeq_set: "jeq v w \<Longrightarrow> jeq x y \<Longrightarrow> jeq (json_set k x v) (json_set k y w)"
  using normalise_set[of v x k] normalise_set[of w y k] by (simp add: jeq_def)

lemma jeq_pop: "jeq v w \<Longrightarrow> jeq (json_pop k v) (json_pop k w)"
  using normalise_pop[of k v] normalise_pop[of k w] by (simp add: jeq_def)

lemma jeqI:
  assumes "wf_json v" "wf_json w" "is_obj v" "is_obj w" "\<And>k. dict_get (obj_fields v) k = dict_get (obj_fields w) k"
  shows "jeq v w"
  using assms(1,2) normalise_eqI[OF assms(1-4)] assms(5) by (simp add: jeq_def)

lemma jeq_dict_get:
  assumes "jeq v w"
  shows "rel_option jeq (dict_get (obj_fields v) k) (dict_get (obj_fields w) k)"
proof -
  have n: "map_option normalise (dict_get (obj_fields v) k) = map_option normalise (dict_get (obj_fields w) k)"
    using assms dict_get_normalise[of v k] dict_get_normalise[of w k] by (simp add: jeq_def)
  have wf: "dict_get (obj_fields u) k = Some x \<Longrightarrow> wf_json u \<Longrightarrow> wf_json x" for u x
    using wf_jget[of u k] by (simp add: jget_def)
  show ?thesis
    using n assms wf by (cases "dict_get (obj_fields v) k"; cases "dict_get (obj_fields w) k") (auto simp: jeq_def)
qed

lemma jeq_null: "jeq v w \<Longrightarrow> v = JNull \<longleftrightarrow> w = JNull"
  by (cases v; cases w) (auto simp: jeq_def)

lemma jeq_str: "jeq v w \<Longrightarrow> v = JStr s \<longleftrightarrow> w = JStr s"
  by (cases v; cases w) (auto simp: jeq_def)

lemma jeq_num: "jeq v w \<Longrightarrow> num_nano v = num_nano w" "jeq v w \<Longrightarrow> num_int v = num_int w"
  unfolding jeq_def by (metis num_normalise)+

lemma jeq_dumps: "jeq v w \<Longrightarrow> dumps v = dumps w"
  by (simp add: jeq_def dumps_def)

lemma set_pop_swap:
  assumes "wf_json v" "wf_json x" "is_obj v" "j \<noteq> k"
  shows "jeq (json_pop j (json_set k x v)) (json_set k x (json_pop j v))"
  using assms by (intro jeqI) (auto simp: dict_get_json_set dict_get_json_pop)

lemma set_set_swap:
  assumes "wf_json v" "wf_json x" "wf_json y" "is_obj v" "j \<noteq> k"
  shows "jeq (json_set j y (json_set k x v)) (json_set k x (json_set j y v))"
  using assms by (intro jeqI) (auto simp: dict_get_json_set)

lemma set_set_same:
  "wf_json v \<Longrightarrow> wf_json x \<Longrightarrow> wf_json y \<Longrightarrow> is_obj v \<Longrightarrow> jeq (json_set k y (json_set k x v)) (json_set k y v)"
  by (intro jeqI) (auto simp: dict_get_json_set)

lemma pop_set_same:
  "wf_json v \<Longrightarrow> wf_json x \<Longrightarrow> is_obj v \<Longrightarrow> jeq (json_pop k (json_set k x v)) (json_pop k v)"
  by (intro jeqI) (auto simp: dict_get_json_set dict_get_json_pop)

section \<open>The canonical form\<close>

lemma wf_probs_json [simp]: "wf_json (probs_json p)"
  by (cases p) (simp add: probs_json_def dict_ok_def)

lemma wf_fields: "wf_json v \<Longrightarrow> dict_get (obj_fields v) k = Some x \<Longrightarrow> wf_json x"
  using wf_jget[of v k] by (simp add: jget_def)

lemma canonical_wf: "wf_json v \<Longrightarrow> canonical_json v = Some c \<Longrightarrow> wf_json c"
  by (auto simp: canonical_json_def Let_def wf_fields split: option.splits if_splits)

lemma canonical_obj: "canonical_json v = Some c \<Longrightarrow> is_obj v \<and> is_obj c"
proof -
  assume c: "canonical_json v = Some c"
  have "dict_get (obj_fields v) k = Some x \<Longrightarrow> is_obj v" for k x
    by (cases v) (simp_all add: obj_fields_def)
  then show ?thesis
    using c by (auto simp: canonical_json_def Let_def split: option.splits if_splits)
qed

lemma canonical_jeq:
  assumes "jeq v w"
  shows "rel_option jeq (canonical_json v) (canonical_json w)"
proof -
  note fs = jeq_dict_get[OF assms, of "''forecast''"]
  show ?thesis
  proof (cases "dict_get (obj_fields v) ''forecast''")
    case None
    then show ?thesis using fs assms jeq_obj[OF assms] by (auto simp: canonical_json_def)
  next
    case (Some f)
    then obtain g where g: "dict_get (obj_fields w) ''forecast'' = Some g" "jeq f g"
      using fs by (auto simp: option_rel_Some1)
    note p = jeq_jget[OF g(2), of "''probs''"]
    have nums: "num_nano (jget (jget f ''probs'') k) = num_nano (jget (jget g ''probs'') k)" for k
      using jeq_jget[OF p] by (rule jeq_num)
    have step: "jeq (json_set ''forecast'' (json_set ''probs'' (probs_json q) f) v)
                 (json_set ''forecast'' (json_set ''probs'' (probs_json q) g) w)" for q
      using assms g(2) by (intro jeq_set) (simp_all add: jeq_refl)
    show ?thesis
      using Some g assms jeq_obj[OF g(2)] jeq_null[OF p] nums step
      by (auto simp: canonical_json_def Let_def split: option.splits)
  qed
qed

lemma canonical_bytes_jeq: "jeq v w \<Longrightarrow> canonical_bytes v = canonical_bytes w"
  using canonical_jeq[of v w] jeq_dumps
  by (cases "canonical_json v"; cases "canonical_json w") (auto simp: canonical_bytes_def)

text \<open>Changes outside the forecast commute with canonicalisation.\<close>

lemma canonical_set:
  assumes "wf_json v" "wf_json x" "k \<noteq> ''forecast''"
  shows "rel_option jeq (canonical_json (json_set k x v)) (map_option (json_set k x) (canonical_json v))"
proof (cases "is_obj v")
  case False
  then show ?thesis by (cases v) (auto simp: canonical_json_def json_set_def obj_fields_def is_obj_def)
next
  case True
  have f: "dict_get (obj_fields (json_set k x v)) ''forecast'' = dict_get (obj_fields v) ''forecast''"
    using True assms(3) by (auto simp: dict_get_json_set)
  show ?thesis
  proof (cases "dict_get (obj_fields v) ''forecast''")
    case None
    then show ?thesis using True f assms by (simp add: canonical_json_def jeq_refl)
  next
    case (Some g)
    have wg: "wf_json g" using wf_fields[OF assms(1) Some] .
    have swap: "jeq (json_set ''forecast'' y (json_set k x v)) (json_set k x (json_set ''forecast'' y v))" if "wf_json y" for y
      using assms that True by (intro set_set_swap) auto
    show ?thesis
      using Some True f assms wg swap
      by (auto simp: canonical_json_def Let_def jeq_refl split: option.splits)
  qed
qed

lemma canonical_pop:
  assumes "wf_json v" "k \<noteq> ''forecast''"
  shows "rel_option jeq (canonical_json (json_pop k v)) (map_option (json_pop k) (canonical_json v))"
proof (cases "is_obj v")
  case False
  then show ?thesis by (cases v) (auto simp: canonical_json_def json_pop_def obj_fields_def is_obj_def)
next
  case True
  have f: "dict_get (obj_fields (json_pop k v)) ''forecast'' = dict_get (obj_fields v) ''forecast''"
    using assms(2) by (auto simp: dict_get_json_pop)
  show ?thesis
  proof (cases "dict_get (obj_fields v) ''forecast''")
    case None
    then show ?thesis using True f assms by (simp add: canonical_json_def jeq_refl)
  next
    case (Some g)
    have wg: "wf_json g" using wf_fields[OF assms(1) Some] .
    have swap: "jeq (json_set ''forecast'' y (json_pop k v)) (json_pop k (json_set ''forecast'' y v))" if "wf_json y" for y
      using assms that True by (intro jeq_sym[OF set_pop_swap]) auto
    show ?thesis
      using Some True f assms wg swap
      by (auto simp: canonical_json_def Let_def jeq_refl split: option.splits)
  qed
qed

lemma canonical_idem:
  assumes "wf_json v" "canonical_json v = Some c"
  shows "\<exists>c'. canonical_json c = Some c' \<and> jeq c' c"
proof (cases "dict_get (obj_fields v) ''forecast''")
  case None
  then show ?thesis using assms by (auto simp: canonical_json_def jeq_refl split: if_splits)
next
  case (Some f)
  note ob = canonical_obj[OF assms(2)]
  have fo: "is_obj f" "wf_json f" using assms Some wf_fields by (auto simp: canonical_json_def split: if_splits)
  show ?thesis
  proof (cases "jget f ''probs'' = JNull")
    case True
    then show ?thesis using assms Some fo by (auto simp: canonical_json_def Let_def jeq_refl split: if_splits)
  next
    case False
    then obtain ph pd pa where q: "c = json_set ''forecast'' (json_set ''probs'' (probs_json (ph, pd, pa)) f) v"
        "ph + pd + pa = 1000000"
      using assms(2) Some fo canonical_sum
      by (auto simp: canonical_json_def Let_def split: option.splits) (metis prod_cases3)
    have nano: "nano (i * 1000) = of_int i / 1000000" for i by (simp add: nano_def)
    have probs: "jget (json_set ''probs'' (probs_json (ph, pd, pa)) f) ''probs'' = probs_json (ph, pd, pa)"
      using fo by (simp add: jget_set)
    have nums: "num_nano (jget (probs_json (ph, pd, pa)) ''home'') = Some (ph * 1000)"
        "num_nano (jget (probs_json (ph, pd, pa)) ''draw'') = Some (pd * 1000)"
        "num_nano (jget (probs_json (ph, pd, pa)) ''away'') = Some (pa * 1000)"
      by (simp_all add: probs_json_def jget_obj num_nano_def)
    have notnull: "probs_json (ph, pd, pa) \<noteq> JNull" by (simp add: probs_json_def)
    let ?f = "json_set ''probs'' (probs_json (ph, pd, pa)) f"
    have "canonical_json c = Some (json_set ''forecast'' (json_set ''probs'' (probs_json (ph, pd, pa)) ?f) c)"
      using ob fo notnull
      by (simp add: canonical_json_def q(1) dict_get_json_set Let_def probs nums nano canonical_fixed[OF q(2)])
    moreover have "jeq (json_set ''forecast'' (json_set ''probs'' (probs_json (ph, pd, pa)) ?f) c) c"
    proof -
      have "jeq (json_set ''forecast'' (json_set ''probs'' (probs_json (ph, pd, pa)) ?f) c) (json_set ''forecast'' ?f c)"
        using assms(1) fo by (intro jeq_set jeq_refl set_set_same) (auto simp: q(1))
      moreover have "jeq (json_set ''forecast'' ?f c) c"
        unfolding q(1) using assms(1) fo ob by (intro set_set_same) auto
      ultimately show ?thesis by (rule jeq_trans)
    qed
    ultimately show ?thesis by blast
  qed
qed

section \<open>Digests and ids\<close>

lemma wf_without [simp]: "wf_json v \<Longrightarrow> wf_json (without_payload_sha256 v)"
  by (simp add: without_payload_sha256_def wf_jget)

lemma without_jeq: "jeq v w \<Longrightarrow> jeq (without_payload_sha256 v) (without_payload_sha256 w)"
  unfolding without_payload_sha256_def by (intro jeq_set jeq_pop jeq_jget)

lemma stable_jeq: "jeq v w \<Longrightarrow> jeq (stable_payload v) (stable_payload w)"
  unfolding stable_payload_def by (intro without_jeq jeq_pop)

lemma payload_sha256_jeq: "jeq v w \<Longrightarrow> payload_sha256 v = payload_sha256 w"
  unfolding payload_sha256_def using canonical_bytes_jeq[OF without_jeq] by simp

lemma artifact_id_jeq: "jeq v w \<Longrightarrow> artifact_id (stable_payload v) = artifact_id (stable_payload w)"
  unfolding artifact_id_def using canonical_bytes_jeq[OF stable_jeq] by simp

text \<open>Both are those of the canonical form.\<close>

lemma canonical_elsewhere:
  "canonical_json v = Some c \<Longrightarrow> k \<noteq> ''forecast'' \<Longrightarrow> jget c k = jget v k"
  using canonical_obj[of v c]
  by (auto simp: canonical_json_def Let_def jget_set split: option.splits if_splits)

lemma canonical_bytes_without:
  assumes "wf_json v" "canonical_json v = Some c"
  shows "canonical_bytes (without_payload_sha256 c) = canonical_bytes (without_payload_sha256 v)"
proof -
  let ?x = "json_pop ''payload_sha256'' (jget v ''provenance'')"
  have wc: "wf_json c" and wx: "wf_json ?x" using assms by (simp_all add: canonical_wf wf_jget)
  have w: "without_payload_sha256 v = json_set ''provenance'' ?x v" "without_payload_sha256 c = json_set ''provenance'' ?x c"
    using canonical_elsewhere[OF assms(2)] by (simp_all add: without_payload_sha256_def)
  obtain c' where c': "canonical_json c = Some c'" "jeq c' c" using canonical_idem[OF assms] by blast
  have "rel_option jeq (canonical_json (json_set ''provenance'' ?x v)) (Some (json_set ''provenance'' ?x c))"
    using canonical_set[OF assms(1) wx, of "''provenance''"] assms(2) by simp
  moreover have "rel_option jeq (canonical_json (json_set ''provenance'' ?x c)) (Some (json_set ''provenance'' ?x c'))"
    using canonical_set[OF wc wx, of "''provenance''"] c'(1) by simp
  moreover have "jeq (json_set ''provenance'' ?x c') (json_set ''provenance'' ?x c)"
    using c'(2) wx by (intro jeq_set jeq_refl)
  ultimately obtain d e where "canonical_json (json_set ''provenance'' ?x v) = Some d"
      "canonical_json (json_set ''provenance'' ?x c) = Some e" "jeq d e"
    unfolding option_rel_Some2 by (blast intro: jeq_sym jeq_trans)
  then show ?thesis by (simp add: w canonical_bytes_def jeq_dumps)
qed

lemma canonical_payload_sha256:
  "wf_json v \<Longrightarrow> canonical_json v = Some c \<Longrightarrow> payload_sha256 c = payload_sha256 v"
  by (simp add: payload_sha256_def canonical_bytes_without)

lemma canonical_artifact_id:
  assumes "wf_json v" "canonical_json v = Some c"
  shows "artifact_id (stable_payload c) = artifact_id (stable_payload v)"
proof -
  have "rel_option jeq (canonical_json (json_pop ''artifact_id'' v)) (Some (json_pop ''artifact_id'' c))"
    using canonical_pop[OF assms(1), of "''artifact_id''"] assms(2) by simp
  then obtain d where d: "canonical_json (json_pop ''artifact_id'' v) = Some d" "jeq d (json_pop ''artifact_id'' c)"
    by (auto simp: option_rel_Some2)
  have "canonical_bytes (without_payload_sha256 d) = canonical_bytes (stable_payload v)"
    unfolding stable_payload_def using assms(1) d(1) by (intro canonical_bytes_without) simp_all
  then show ?thesis
    using canonical_bytes_jeq[OF without_jeq[OF d(2)]] by (simp add: artifact_id_def stable_payload_def)
qed

section \<open>Finished artifacts\<close>

lemma without_restamp:
  assumes "wf_json u" "is_obj u" "is_obj (jget u ''provenance'')"
  shows "jeq (without_payload_sha256 (json_set ''provenance'' (json_set ''payload_sha256'' (JStr h) (jget u ''provenance'')) u))
           (without_payload_sha256 u)"
proof -
  let ?p = "json_set ''payload_sha256'' (JStr h) (jget u ''provenance'')"
  have "jeq (json_set ''provenance'' (json_pop ''payload_sha256'' ?p) (json_set ''provenance'' ?p u))
          (json_set ''provenance'' (json_pop ''payload_sha256'' ?p) u)"
    using assms by (intro set_set_same) (auto simp: wf_jget)
  moreover have "jeq (json_set ''provenance'' (json_pop ''payload_sha256'' ?p) u)
          (json_set ''provenance'' (json_pop ''payload_sha256'' (jget u ''provenance'')) u)"
    using assms by (intro jeq_set pop_set_same jeq_refl) (auto simp: wf_jget)
  ultimately show ?thesis
    using assms by (simp add: without_payload_sha256_def jget_set) (rule jeq_trans)
qed

lemma finish_artifact_ids:
  assumes "finish_artifact v = Some w" "wf_json v" "is_obj v" "is_obj (jget v ''provenance'')"
  shows "\<exists>i h. artifact_id (stable_payload v) = Some i
       \<and> artifact_id (stable_payload w) = Some i \<and> payload_sha256 w = Some h
       \<and> jget w ''artifact_id'' = JStr i \<and> jget (jget w ''provenance'') ''payload_sha256'' = JStr h
       \<and> wf_json w \<and> is_obj w
       \<and> w = json_set ''provenance'' (json_set ''payload_sha256'' (JStr h) (jget v ''provenance'')) (json_set ''artifact_id'' (JStr i) v)"
proof -
  obtain i where i: "artifact_id (stable_payload v) = Some i"
    using assms(1) by (auto simp: finish_artifact_def split: option.splits)
  let ?u = "json_set ''artifact_id'' (JStr i) v"
  obtain h where h: "payload_sha256 ?u = Some h"
      "w = json_set ''provenance'' (json_set ''payload_sha256'' (JStr h) (jget ?u ''provenance'')) ?u"
    using assms(1) i by (auto simp: finish_artifact_def Let_def split: option.splits)
  have u: "wf_json ?u" "is_obj ?u" "jget ?u ''provenance'' = jget v ''provenance''"
    using assms by (simp_all add: jget_set)
  have "jeq (without_payload_sha256 w) (without_payload_sha256 ?u)"
    unfolding h(2) using assms(4) u by (intro without_restamp) simp_all
  then have hw: "payload_sha256 w = Some h"
    using h(1) canonical_bytes_jeq by (simp add: payload_sha256_def)
  let ?p = "json_pop ''artifact_id'' ?u"
  have p: "jeq ?p (json_pop ''artifact_id'' v)" using assms by (intro pop_set_same) auto
  have "jeq (json_pop ''artifact_id'' w) (json_set ''provenance'' (json_set ''payload_sha256'' (JStr h) (jget ?p ''provenance'')) ?p)"
    unfolding h(2) using assms u by (simp add: jget_pop) (intro set_pop_swap; simp add: wf_jget)
  then have "jeq (stable_payload w) (without_payload_sha256 (json_set ''provenance'' (json_set ''payload_sha256'' (JStr h) (jget ?p ''provenance'')) ?p))"
    unfolding stable_payload_def by (rule without_jeq)
  also have "jeq \<dots> (without_payload_sha256 ?p)"
    using assms u by (intro without_restamp) (simp_all add: jget_pop)
  also have "jeq \<dots> (stable_payload v)"
    unfolding stable_payload_def using p by (rule without_jeq)
  finally have "canonical_bytes (stable_payload w) = canonical_bytes (stable_payload v)"
    by (rule canonical_bytes_jeq)
  then have "artifact_id (stable_payload w) = Some i" using i by (simp add: artifact_id_def)
  then show ?thesis
    using i hw h(2) u assms by (simp add: jget_set wf_jget)
qed

lemma finish_verifies:
  assumes "finish_artifact v = Some w" "wf_json v" "is_obj v" "is_obj (jget v ''provenance'')"
    and "validate_artifact fmt w = Inr ()"
  shows "verify_artifact_integrity fmt w (Some (id_text w)) = Inr w"
  using finish_artifact_ids[OF assms(1-4)] assms(5)
  by (auto simp: verify_artifact_integrity_def id_text_def)

section \<open>Validation up to key order\<close>

lemma nat_at_jeq: "jeq v w \<Longrightarrow> nat_at v k = nat_at w k"
  by (simp add: nat_at_def jeq_num(2)[OF jeq_jget])

lemma nano_at_jeq: "jeq v w \<Longrightarrow> nano_at v k = nano_at w k"
  by (simp add: nano_at_def jeq_num(1)[OF jeq_jget])

lemma arr_jeq: "jeq v w \<Longrightarrow> list_all2 jeq (arr v) (arr w)"
proof -
  assume vw: "jeq v w"
  have n: "arr (normalise u) = map normalise (arr u)" for u
    by (cases u) (simp_all add: arr_def normalise_items_map)
  have wf: "list_all wf_json (arr u)" if "wf_json u" for u
    using that by (cases u) (simp_all add: arr_def wf_items_iff)
  have "list_all2 (=) (map normalise (arr v)) (map normalise (arr w))"
    using vw n[of v] n[of w] by (simp add: jeq_def list.rel_eq)
  then have "list_all2 (\<lambda>a b. normalise a = normalise b) (arr v) (arr w)"
    by (simp add: list_all2_map1 list_all2_map2)
  then show ?thesis
    using vw wf[of v] wf[of w] by (auto simp: jeq_def list_all2_conv_all_nth list_all_length)
qed

lemma map_jeq: "list_all2 jeq xs ys \<Longrightarrow> (\<And>a b. jeq a b \<Longrightarrow> f a = f b) \<Longrightarrow> map f xs = map f ys"
  by (induction rule: list_all2_induct) auto

lemma grid_jeq:
  assumes "jeq v w"
  shows "map (\<lambda>row. map g (map num_nano (arr row))) (arr v) = map (\<lambda>row. map g (map num_nano (arr row))) (arr w)"
proof -
  have "map num_nano (arr a) = map num_nano (arr b)" if "jeq a b" for a b
    using arr_jeq[OF that] jeq_num(1) by (rule map_jeq)
  then show ?thesis by (intro map_jeq[OF arr_jeq[OF assms]]) (rule arg_cong)
qed

lemma read_score_matrix_jeq:
  assumes "jeq v w"
  shows "read_score_matrix v = read_score_matrix w"
proof -
  have g: "map (\<lambda>row. map (\<lambda>c. case num_nano c of Some n \<Rightarrow> n | None \<Rightarrow> 0) (arr row)) (arr u)
         = map (\<lambda>row. map (\<lambda>x. case x of Some n \<Rightarrow> n | None \<Rightarrow> 0) (map num_nano (arr row))) (arr u)" for u
    by (simp add: comp_def)
  show ?thesis
    unfolding read_score_matrix_def Let_def g grid_jeq[OF jeq_jget[OF assms]]
    using jeq_jget[OF assms] by (simp add: nat_at_jeq[OF assms] nano_at_jeq[OF assms] nat_at_jeq nano_at_jeq)
qed

lemma validate_jeq:
  assumes "jeq v w"
  shows "validate_artifact fmt v = validate_artifact fmt w"
proof -
  let ?p = "\<lambda>v. jget (jget v ''forecast'') ''probs''" and ?g = "\<lambda>v. jget (jget v ''forecast'') ''score_matrix''"
  have p: "jeq (?p v) (?p w)" and g: "jeq (?g v) (?g w)" by (intro jeq_jget assms)+
  have "conforms s v = conforms s w" for s
    using assms conforms_normalise[of v s] conforms_normalise[of w s] by (simp add: jeq_def)
  moreover have "probs_of (?p v) = probs_of (?p w)" by (simp add: probs_of_def nano_at_jeq[OF p])
  ultimately show ?thesis
    unfolding validate_artifact_def Let_def
    by (simp only: nano_at_jeq[OF p] jeq_null[OF p] jeq_null[OF g] read_score_matrix_jeq[OF g])
qed

lemma verify_jeq:
  assumes "jeq v w" "verify_artifact_integrity fmt v e = Inr v"
  shows "verify_artifact_integrity fmt w e = Inr w"
proof -
  have p: "jeq (jget (jget v ''provenance'') ''payload_sha256'') (jget (jget w ''provenance'') ''payload_sha256'')"
    and i: "jeq (jget v ''artifact_id'') (jget w ''artifact_id'')"
    by (intro jeq_jget assms)+
  show ?thesis
    using assms(2) jeq_str[OF p] jeq_str[OF i]
    by (auto simp: verify_artifact_integrity_def bindE_Inr validate_jeq[OF assms(1)] payload_sha256_jeq[OF assms(1)]
        artifact_id_jeq[OF assms(1)] split: option.splits if_splits)
qed

section \<open>A written file reads back\<close>

text \<open>
  The bytes of a verified artifact whose canonical form still validates read back as that form
  and verify under the artifact's own id.
\<close>

lemma written_loads:
  assumes "wf_json w" "verify_artifact_integrity fmt w (Some i) = Inr w"
    and "canonical_json w = Some c" "validate_artifact fmt c = Inr ()"
  shows "load_verified_artifact fmt i (dumps c @ [CHR 0x0A]) = Inr (normalise c)"
proof -
  have wc: "wf_json c" using assms by (auto intro: canonical_wf)
  have "verify_artifact_integrity fmt c (Some i) = Inr c"
    using assms(2,4) canonical_elsewhere[OF assms(3)]
    by (auto simp: verify_artifact_integrity_def bindE_Inr canonical_payload_sha256[OF assms(1,3)]
        canonical_artifact_id[OF assms(1,3)] split: option.splits if_splits)
  then have "verify_artifact_integrity fmt (normalise c) (Some i) = Inr (normalise c)"
    using jeq_sym[OF jeq_normalise[OF wc]] verify_jeq by blast
  then show ?thesis
    using loads_dumps_ws[OF wc, of "[CHR 0x0A]"] by (simp add: load_verified_artifact_def is_ws_def)
qed

end
