(* ===== verification/Artifact_Safety.thy ===== *)
theory Artifact_Safety
  imports Artifact_Laws
begin

text \<open>
  What the artifact ledger promises: verified artifacts are immutable under every operation and
  the audit log only grows; an artifact cannot be altered and keep its id; a seal respects its
  gates and its file reads back and verifies; a scored or voided successor repeats the sealed
  forecast word for word and names the seal it resolves.
\<close>

section \<open>The ledger as a machine\<close>

datatype ledger_call =
    Seal environment "string \<Rightarrow> frame \<Rightarrow> dt \<Rightarrow> string \<Rightarrow> string \<Rightarrow> bool \<Rightarrow> prediction" "json list" frame seal_request
  | Score_result string string json int int
  | Score_pack string string json frame
  | Void string string string string

fun run_call :: "(string \<Rightarrow> string \<Rightarrow> bool) \<Rightarrow> ledger_call \<Rightarrow> ledger \<Rightarrow> ledger" where
  "run_call fmt (Seal en fit snapshots matches rq) l = snd (seal_forecast fmt en fit snapshots matches rq l)"
| "run_call fmt (Score_result stem data snap h a) l = snd (score_forecast_result fmt stem data snap h a l)"
| "run_call fmt (Score_pack stem data snap matches) l = snd (score_forecast fmt stem data snap matches l)"
| "run_call fmt (Void stem data t reason) l = snd (void_forecast fmt stem data t reason l)"

definition keeps :: "(string \<Rightarrow> string \<Rightarrow> bool) \<Rightarrow> ledger \<Rightarrow> ledger \<Rightarrow> bool" where
  "keeps fmt l l' \<longleftrightarrow>
     (\<forall>stem data. dict_get (lg_files l) stem = Some data \<longrightarrow> is_valid_artifact_bytes fmt data stem
        \<longrightarrow> dict_get (lg_files l') stem = Some data)
     \<and> (\<exists>added. lg_audit l' = lg_audit l @ added)"

lemma keeps_refl: "keeps fmt l l"
  by (simp add: keeps_def)

lemma keeps_trans: "keeps fmt k l \<Longrightarrow> keeps fmt l m \<Longrightarrow> keeps fmt k m"
  unfolding keeps_def by (metis append.assoc)

lemma append_audit_files [simp]: "lg_files (append_audit_event v l) = lg_files l"
  by (simp add: append_audit_event_def)

lemma append_audit_grows: "\<exists>added. lg_audit (append_audit_event v l) = lg_audit l @ added"
  by (simp add: append_audit_event_def)

lemma write_keeps: "keeps fmt l (snd (write_artifact fmt v l))"
  using append_audit_grows[of v l] append_audit_grows[of v "l\<lparr>lg_files := d\<rparr>" for d]
  by (auto simp: write_artifact_def keeps_def Let_def split: sum.splits option.splits)

lemma finish_and_write_keeps: "keeps fmt l (snd (finish_and_write fmt v l))"
  by (auto simp: finish_and_write_def keeps_refl write_keeps split: option.splits)

lemma score_verified_keeps: "keeps fmt l (snd (score_verified_seal fmt sealed snap h a l))"
  by (auto simp: score_verified_seal_def keeps_refl finish_and_write_keeps split: sum.splits)

lemma run_call_keeps: "keeps fmt l (run_call fmt c l)"
proof (cases c)
  case (Seal en fit snapshots matches rq)
  then show ?thesis by (auto simp: seal_forecast_def keeps_refl write_keeps split: sum.splits)
next
  case (Score_result stem data snap h a)
  then show ?thesis by (auto simp: score_forecast_result_def keeps_refl score_verified_keeps split: sum.splits)
next
  case (Score_pack stem data snap matches)
  then show ?thesis
    by (auto simp: score_forecast_def Let_def keeps_refl score_verified_keeps split: sum.splits option.splits bool.splits)
next
  case (Void stem data t reason)
  then show ?thesis by (auto simp: void_forecast_def keeps_refl finish_and_write_keeps split: sum.splits option.splits)
qed

interpretation artifact_ledger: growing_machine "run_call fmt" "\<lambda>_. True" "\<lambda>_. True" "keeps fmt" for fmt
  by unfold_locales (simp_all add: keeps_refl run_call_keeps, rule keeps_trans)

section \<open>What a write does\<close>

lemma write_Inr:
  assumes "write_artifact fmt v l = (Inr s, l')"
  shows "validate_artifact fmt v = Inr () \<and> s = id_text v
       \<and> (\<exists>c. canonical_json v = Some c \<and> dict_get (lg_files l') s = Some (dumps c @ [CHR 0x0A]))"
  using assms
  by (auto simp: write_artifact_def Let_def canonical_bytes_def split: sum.splits option.splits if_splits)

lemma conforms_provenance:
  assumes "conforms (artifact_schema fmt) v"
  shows "is_obj v \<and> is_obj (jget v ''provenance'')"
proof -
  have v: "conforms (Props (artifact_props fmt)) v" using assms by (simp add: artifact_schema_def)
  have "(''provenance'', True, provenance_schema fmt) \<in> set (artifact_props fmt)" by (simp add: artifact_props_def)
  from props_required[OF v this] props_obj[OF v] show ?thesis
    unfolding provenance_schema_def by (blast intro: props_obj)
qed

lemma validate_conforms: "validate_artifact fmt v = Inr u \<Longrightarrow> conforms (artifact_schema fmt) v"
  by (simp add: validate_artifact_def Let_def split: if_splits)

lemma load_verified_Inr:
  assumes "load_verified_artifact fmt stem data = Inr v"
  shows "wf_json v \<and> is_obj v \<and> is_obj (jget v ''provenance'') \<and> validate_artifact fmt v = Inr ()
       \<and> jget v ''artifact_id'' = JStr stem \<and> artifact_id (stable_payload v) = Some stem
       \<and> (\<exists>h. payload_sha256 v = Some h \<and> jget (jget v ''provenance'') ''payload_sha256'' = JStr h)"
  using assms conforms_provenance[OF validate_conforms]
  by (auto simp: load_verified_artifact_def verify_artifact_integrity_def bindE_Inr dest: loads_wf
      split: option.splits if_splits)

text \<open>A finished artifact keeps everything but its id and its digest.\<close>

lemma finish_elsewhere:
  assumes "finish_artifact v = Some w" "is_obj v" "k \<noteq> ''artifact_id''" "k \<noteq> ''provenance''"
  shows "jget w k = jget v k"
  using assms by (auto simp: finish_artifact_def Let_def jget_set split: option.splits)

section \<open>Tampering\<close>

lemma jget_present: "jget v k \<noteq> JNull \<Longrightarrow> dict_get (obj_fields v) k = Some (jget v k)"
  by (simp add: jget_def split: option.splits)

lemma wf_stable_payload [simp]: "wf_json v \<Longrightarrow> wf_json (stable_payload v)"
  by (simp add: stable_payload_def)

lemma obj_stable [simp]: "is_obj (stable_payload v) = is_obj v"
  by (simp add: stable_payload_def without_payload_sha256_def)

lemma stable_fields:
  "is_obj v \<Longrightarrow> dict_get (obj_fields (stable_payload v)) k
     = (if k = ''provenance'' then Some (json_pop ''payload_sha256'' (jget v ''provenance''))
        else if k = ''artifact_id'' then None else dict_get (obj_fields v) k)"
  by (auto simp: stable_payload_def without_payload_sha256_def dict_get_json_set dict_get_json_pop jget_pop)

text \<open>An artifact is its stable payload with the id and the digest put back.\<close>

definition restore :: "string \<Rightarrow> string \<Rightarrow> json \<Rightarrow> json" where
  "restore i h s = json_set ''provenance'' (json_set ''payload_sha256'' (JStr h) (jget s ''provenance'')) (json_set ''artifact_id'' (JStr i) s)"

text \<open>What reading a file has established of an artifact, its id and its digest.\<close>

definition stamped :: "string \<Rightarrow> string \<Rightarrow> json \<Rightarrow> bool" where
  "stamped i h v \<longleftrightarrow>
     wf_json v \<and> is_obj v \<and> is_obj (jget v ''provenance'') \<and> jget v ''artifact_id'' = JStr i
     \<and> jget (jget v ''provenance'') ''payload_sha256'' = JStr h"

lemma without_payload_stable:
  "stamped i h v \<Longrightarrow> jeq (without_payload_sha256 v) (json_set ''artifact_id'' (JStr i) (stable_payload v))"
  using jget_present[of v "''artifact_id''"]
  by (intro jeqI) (auto simp: stamped_def without_payload_sha256_def wf_jget dict_get_json_set stable_fields)

lemma restore_stable:
  assumes "stamped i h v"
  shows "jeq v (restore i h (stable_payload v))"
proof -
  let ?p = "jget v ''provenance''" and ?s = "stable_payload v"
  let ?q = "json_set ''payload_sha256'' (JStr h) (json_pop ''payload_sha256'' ?p)"
  note wf = assms[unfolded stamped_def]
  have prov: "?p \<noteq> JNull" using wf by auto
  have p: "jeq ?p ?q"
    using wf jget_present[of ?p "''payload_sha256''"]
    by (intro jeqI) (auto simp: wf_jget dict_get_json_set dict_get_json_pop)
  have "jeq v (json_set ''provenance'' ?p v)"
    using wf jget_present[OF prov] by (intro jeqI) (auto simp: wf_jget dict_get_json_set)
  also have "jeq \<dots> (json_set ''provenance'' ?q v)"
    using wf p by (intro jeq_set jeq_refl) simp_all
  also have "jeq \<dots> (json_set ''provenance'' ?q (json_set ''artifact_id'' (JStr i) ?s))"
    using wf jget_present[of v "''artifact_id''"]
    by (intro jeqI) (auto simp: wf_jget dict_get_json_set stable_fields)
  finally show ?thesis
    using wf by (simp add: restore_def jget_def stable_fields)
qed

lemma restore_canonical:
  assumes "wf_json s" "is_obj s" "canonical_json s = Some c"
  shows "\<exists>d. canonical_json (restore i h s) = Some d \<and> jeq d (restore i h c)"
proof -
  let ?u = "json_set ''artifact_id'' (JStr i) s" and ?p = "json_set ''payload_sha256'' (JStr h) (jget s ''provenance'')"
  have wp: "wf_json ?p" using assms by (simp add: wf_jget)
  obtain u where u: "canonical_json ?u = Some u" "jeq u (json_set ''artifact_id'' (JStr i) c)"
    using canonical_set[OF assms(1), of "JStr i" "''artifact_id''"] assms(3) by (auto simp: option_rel_Some2)
  obtain d where d: "canonical_json (json_set ''provenance'' ?p ?u) = Some d" "jeq d (json_set ''provenance'' ?p u)"
    using canonical_set[OF _ wp, of ?u "''provenance''"] u(1) assms(1) by (auto simp: option_rel_Some2)
  have "jeq d (json_set ''provenance'' ?p (json_set ''artifact_id'' (JStr i) c))"
    using d(2) u(2) wp by (blast intro: jeq_trans jeq_set jeq_refl)
  then show ?thesis
    using d(1) canonical_elsewhere[OF assms(3)] by (simp add: restore_def)
qed

text \<open>
  C22: an artifact cannot be changed and keep its name.  Two contents that verify under one id
  are the same artifact in canonical form, or their canonical texts collide on the 20 hex digits
  an id keeps.
\<close>

theorem artifact_tamper_evident:
  assumes "load_verified_artifact fmt stem a = Inr v" "load_verified_artifact fmt stem b = Inr w"
  shows "\<exists>p q. canonical_bytes (stable_payload v) = Some p \<and> canonical_bytes (stable_payload w) = Some q
       \<and> (canonical_bytes v = canonical_bytes w \<or> id_collision p q)"
proof -
  note fv = load_verified_Inr[OF assms(1)] and fw = load_verified_Inr[OF assms(2)]
  obtain c d where c: "canonical_json (stable_payload v) = Some c" and d: "canonical_json (stable_payload w) = Some d"
      and eq: "take 20 (sha256_hex (dumps c)) = take 20 (sha256_hex (dumps d))"
    using fv fw by (auto simp: artifact_id_def canonical_bytes_def)
  obtain h k where hk: "payload_sha256 v = Some h" "jget (jget v ''provenance'') ''payload_sha256'' = JStr h"
      "payload_sha256 w = Some k" "jget (jget w ''provenance'') ''payload_sha256'' = JStr k"
    using fv fw by blast
  have "canonical_bytes v = canonical_bytes w" if same: "dumps c = dumps d"
  proof -
    have "wf_json c" "wf_json d" using canonical_wf[OF _ c] canonical_wf[OF _ d] fv fw by simp_all
    then have cd: "jeq c d" using dumps_inj[OF _ _ same] by (simp add: jeq_def)
    have pay: "canonical_bytes (without_payload_sha256 u) = Some (dumps (json_set ''artifact_id'' (JStr stem) e))"
      if "stamped stem g u" "canonical_json (stable_payload u) = Some e" for u e g
      using canonical_bytes_jeq[OF without_payload_stable[OF that(1)]]
        canonical_set[of "stable_payload u" "JStr stem" "''artifact_id''"] that
      by (auto simp: canonical_bytes_def option_rel_Some2 jeq_dumps stamped_def)
    have sv: "stamped stem h v" and sw: "stamped stem k w" using fv fw hk by (simp_all add: stamped_def)
    have "h = k"
      using pay[OF sv c] pay[OF sw d] hk jeq_dumps[OF jeq_set[OF cd jeq_refl, of "JStr stem" "''artifact_id''"]]
      by (simp add: payload_sha256_def)
    moreover have "canonical_bytes v = Some (dumps (restore stem h c))"
      using canonical_bytes_jeq[OF restore_stable[OF sv]] restore_canonical[OF _ _ c, of stem h] fv
      by (auto simp: canonical_bytes_def jeq_dumps)
    moreover have "canonical_bytes w = Some (dumps (restore stem k d))"
      using canonical_bytes_jeq[OF restore_stable[OF sw]] restore_canonical[OF _ _ d, of stem k] fw
      by (auto simp: canonical_bytes_def jeq_dumps)
    moreover have "jeq (restore stem h c) (restore stem h d)"
      unfolding restore_def using cd by (intro jeq_set jeq_jget jeq_refl) simp_all
    ultimately show ?thesis by (simp add: jeq_dumps)
  qed
  then show ?thesis using c d eq by (auto simp: id_collision_def canonical_bytes_def)
qed

section \<open>Immutability\<close>

text \<open>
  C3: no sequence of seals, scores and voids changes a byte of an artifact file that verifies
  under its name, and the audit log is only ever appended to.
\<close>

theorem artifact_ledger_immutable:
  assumes "dict_get (lg_files l) stem = Some data" "is_valid_artifact_bytes fmt data stem"
  shows "dict_get (lg_files (fold (run_call fmt) calls l)) stem = Some data
       \<and> (\<exists>added. lg_audit (fold (run_call fmt) calls l) = lg_audit l @ added)"
  using artifact_ledger.keeps_run[where cs = calls and s = l and fmt = fmt] assms by (simp add: keeps_def list_all_iff)

section \<open>Successors\<close>

text \<open>The checker accepts the instants the code writes.\<close>

definition accepts_utc :: "(string \<Rightarrow> string \<Rightarrow> bool) \<Rightarrow> bool" where
  "accepts_utc fmt \<longleftrightarrow> (\<forall>t. wf_dt t \<longrightarrow> fmt ''date-time'' (dt_iso t))"

lemma artifact_conforms_set:
  assumes "conforms (artifact_schema fmt) v" "(k, req, s) \<in> set (artifact_props fmt)" "conforms s x"
  shows "conforms (artifact_schema fmt) (json_set k x v)"
  using assms unfolding artifact_schema_def by (intro conforms_set) (simp_all add: artifact_props_def)

lemma artifact_conforms_get:
  assumes "conforms (artifact_schema fmt) v" "(k, True, s) \<in> set (artifact_props fmt)"
  shows "conforms s (jget v k)"
  using assms props_required unfolding artifact_schema_def by blast

lemmas conforms_obj = props_obj[of "artifact_props fmt" for fmt, folded artifact_schema_def]

lemma hex_sha: "hex_pattern 64 64 (sha256_hex s)"
  by (rule hex_text_pattern) (simp_all add: sha256_hex_hex)

lemma zero_sha_ok: "hex_pattern 64 64 zero_sha"
  by (rule hex_text_pattern) (simp_all add: zero_sha_def is_hex_def list_all_iff)

lemma id_ok:
  assumes "artifact_id v = Some i"
  shows "artifact_id_pattern i"
proof -
  obtain b where i: "i = ''fa_'' @ take 20 (sha256_hex b)" using assms by (auto simp: artifact_id_def)
  have "list_all is_hex (take 20 (sha256_hex b))"
    using sha256_hex_hex[of b] by (auto simp: list_all_iff dest: in_set_takeD)
  then show ?thesis unfolding i by (intro content_id_pattern) simp_all
qed

lemma provenance_set_sha:
  "conforms (provenance_schema fmt) p \<Longrightarrow> hex_pattern 64 64 h \<Longrightarrow>
   conforms (provenance_schema fmt) (json_set ''payload_sha256'' (JStr h) p)"
  unfolding provenance_schema_def
  by (rule conforms_set[where k = "''payload_sha256''" and req = True and s = "Text (hex_pattern 64 64)"]) simp_all

lemma provenance_set_created:
  "conforms (provenance_schema fmt) p \<Longrightarrow> fmt ''date-time'' t \<Longrightarrow>
   conforms (provenance_schema fmt) (json_set ''created_at_utc'' (JStr t) p)"
  unfolding provenance_schema_def
  by (rule conforms_set[where k = "''created_at_utc''" and req = True and s = "date_time fmt"]) (simp_all add: date_time_def)

lemmas provenance_set = provenance_set_sha provenance_set_created

lemma finish_validates:
  assumes "finish_artifact v = Some w" "wf_json v" "validate_artifact fmt v = Inr ()"
  shows "validate_artifact fmt w = Inr ()"
proof -
  note cv = validate_conforms[OF assms(3)]
  have ob: "is_obj v" "is_obj (jget v ''provenance'')" using conforms_provenance[OF cv] by simp_all
  obtain i h where ih: "artifact_id (stable_payload v) = Some i" "payload_sha256 w = Some h"
      "w = json_set ''provenance'' (json_set ''payload_sha256'' (JStr h) (jget v ''provenance'')) (json_set ''artifact_id'' (JStr i) v)"
    using finish_artifact_ids[OF assms(1,2) ob] by blast
  have "hex_pattern 64 64 h" using ih(2) hex_sha by (auto simp: payload_sha256_def)
  moreover have "artifact_id_pattern i" using ih(1) by (rule id_ok)
  moreover have "conforms (provenance_schema fmt) (jget v ''provenance'')"
    using cv by (rule artifact_conforms_get) (simp add: artifact_props_def)
  ultimately have "conforms (artifact_schema fmt) w"
    unfolding ih(3) using cv
    by (intro artifact_conforms_set[where k = "''provenance''"] artifact_conforms_set[where k = "''artifact_id''"])
      (auto simp: artifact_props_def intro: provenance_set)
  moreover have "jget w ''forecast'' = jget v ''forecast''"
    using finish_elsewhere[OF assms(1) ob(1)] by simp
  ultimately show ?thesis using assms(3) cv by (simp add: validate_artifact_def Let_def)
qed

lemma restamp_get: "is_obj v \<Longrightarrow> k \<noteq> ''provenance'' \<Longrightarrow> jget (restamp t v) k = jget v k"
  by (simp add: restamp_def jget_set)

lemma restamp_wf [simp]: "wf_json v \<Longrightarrow> wf_json (restamp t v)"
  by (simp add: restamp_def wf_jget)

lemma restamp_conforms:
  assumes "conforms (artifact_schema fmt) v" "fmt ''date-time'' (dt_iso t)"
  shows "conforms (artifact_schema fmt) (restamp t v)"
proof -
  have "conforms (provenance_schema fmt) (jget v ''provenance'')"
    using assms(1) by (rule artifact_conforms_get) (simp add: artifact_props_def)
  then show ?thesis
    unfolding restamp_def using assms zero_sha_ok
    by (intro artifact_conforms_set[where k = "''provenance''"]) (auto simp: artifact_props_def intro: provenance_set)
qed

lemma validate_same_forecast:
  assumes "validate_artifact fmt v = Inr ()" "conforms (artifact_schema fmt) w" "jget w ''forecast'' = jget v ''forecast''"
  shows "validate_artifact fmt w = Inr ()"
  using assms validate_conforms[OF assms(1)] by (simp add: validate_artifact_def Let_def)

text \<open>The evaluation of a result against sealed probabilities is in range.\<close>

lemma log_loss_nonneg: "p \<le> 1 \<Longrightarrow> 0 \<le> log_loss p"
proof -
  assume "p \<le> 1"
  then have "max (real_of_rat p) (1 / 10 ^ 12) \<le> 1" by simp
  moreover have "0 < max (real_of_rat p) (1 / 10 ^ 12)" by simp
  ultimately have "ln (max (real_of_rat p) (1 / 10 ^ 12)) \<le> 0" by simp
  then show ?thesis by (simp add: log_loss_def round6_nonneg)
qed

lemma round6_le_one: "p \<le> 1 \<Longrightarrow> round6 (p :: rat) \<le> 1000000"
  using round_half_even_mono[of "p * 1000000" "of_int 1000000"] round_half_even_of_int[of 1000000, where 'a = rat]
  by (simp add: round6_def)

lemma probability_in:
  "conforms probabilities_schema p \<Longrightarrow> k \<in> {''home'', ''draw'', ''away''} \<Longrightarrow> 0 \<le> nano_at p k \<and> nano_at p k \<le> 1000000000"
  using props_required[of _ p k probability]
  by (force simp: probabilities_schema_def probability_def nano_at_def split: option.splits)

lemma brier_nonneg: "0 \<le> brier p oc"
  unfolding brier_def by (rule round6_nonneg) (auto intro!: sum_list_nonneg)

lemma evaluation_conforms:
  assumes "conforms probabilities_schema p" "0 \<le> h" "0 \<le> a" "fmt ''date-time'' (dt_iso t)"
  shows "conforms (evaluation_schema fmt) (evaluation_json p h a t)"
proof -
  have oc: "outcome_key h a \<in> {''home'', ''draw'', ''away''}" by (simp add: outcome_key_def)
  have n: "0 \<le> nano (nano_at p (outcome_key h a))" "nano (nano_at p (outcome_key h a)) \<le> 1"
    using probability_in[OF assms(1) oc] by (simp_all add: nano_def)
  show ?thesis
    using assms(2-4) oc brier_nonneg[of p "outcome_key h a"] log_loss_nonneg[OF n(2)] round6_nonneg[OF n(1)] round6_le_one[OF n(2)]
    unfolding evaluation_schema_def evaluation_json_def Let_def
    by (simp add: conforms_props num_int_def num_nano_def micro_json_def date_time_def probability_def)
qed

lemma forecast_probs_conform:
  assumes "conforms (artifact_schema fmt) v"
  shows "jget (jget v ''forecast'') ''probs'' = JNull \<or> conforms probabilities_schema (jget (jget v ''forecast'') ''probs'')"
proof -
  have "conforms (forecast_schema fmt) (jget v ''forecast'')"
    using assms by (rule artifact_conforms_get) (simp add: artifact_props_def)
  then show ?thesis
    using props_required[of _ "jget v ''forecast''" "''probs''" "Nullable probabilities_schema"]
    unfolding forecast_schema_def by (metis conforms.simps(8) list.set_intros)
qed

text \<open>Canonicalisation and finishing never fail on a valid artifact.\<close>

lemma canonical_total:
  assumes "validate_artifact fmt v = Inr ()"
  shows "\<exists>c. canonical_json v = Some c"
proof -
  note cv = validate_conforms[OF assms]
  have f: "conforms (forecast_schema fmt) (jget v ''forecast'')"
    using cv by (rule artifact_conforms_get) (simp add: artifact_props_def)
  then have ob: "is_obj (jget v ''forecast'')" unfolding forecast_schema_def by (rule props_obj)
  then have g: "dict_get (obj_fields v) ''forecast'' = Some (jget v ''forecast'')"
    by (intro jget_present) auto
  have "\<exists>n. num_nano (jget p k) = Some n" if "conforms probabilities_schema p" "k \<in> {''home'', ''draw'', ''away''}" for p k
    using props_required[of _ p k probability] that
    by (force simp: probabilities_schema_def probability_def split: option.splits)
  then show ?thesis
    using forecast_probs_conform[OF cv] ob g by (fastforce simp: canonical_json_def Let_def split: option.splits)
qed

lemma canonical_without_total:
  assumes "canonical_json v = Some c" "wf_json v"
  shows "\<exists>b. canonical_bytes (without_payload_sha256 v) = Some b"
  using canonical_set[OF assms(2), of "json_pop ''payload_sha256'' (jget v ''provenance'')" "''provenance''"] assms
  by (auto simp: without_payload_sha256_def canonical_bytes_def option_rel_Some2 wf_jget)

lemma finish_total:
  assumes "validate_artifact fmt v = Inr ()" "wf_json v"
  shows "\<exists>w. finish_artifact v = Some w"
proof -
  obtain c where c: "canonical_json v = Some c" using canonical_total[OF assms(1)] by blast
  obtain d where d: "canonical_json (json_pop ''artifact_id'' v) = Some d"
    using canonical_pop[OF assms(2), of "''artifact_id''"] c by (auto simp: option_rel_Some2)
  obtain b where b: "canonical_bytes (stable_payload v) = Some b"
    unfolding stable_payload_def using canonical_without_total[OF d] assms(2) by auto
  have "\<exists>e. canonical_json (json_set ''artifact_id'' (JStr i) v) = Some e" for i
    using canonical_set[OF assms(2), of "JStr i" "''artifact_id''"] c by (auto simp: option_rel_Some2)
  then have "\<exists>b. canonical_bytes (without_payload_sha256 (json_set ''artifact_id'' (JStr i) v)) = Some b" for i
    using canonical_without_total[of "json_set ''artifact_id'' (JStr i) v"] assms(2) by auto
  then show ?thesis
    using b by (fastforce simp: finish_artifact_def artifact_id_def payload_sha256_def Let_def split: option.splits)
qed

section \<open>Scoring\<close>

lemma scored_json_get:
  assumes "is_obj v"
  shows "k \<notin> {''status'', ''supersedes'', ''inputs'', ''evaluation'', ''provenance''} \<Longrightarrow>
           jget (scored_json v snap h a t) k = jget v k"
    and "jget (scored_json v snap h a t) ''status'' = JStr ''scored''"
    and "jget (scored_json v snap h a t) ''supersedes'' = jget v ''artifact_id''"
    and "jget (scored_json v snap h a t) ''evaluation'' = evaluation_json (jget (jget v ''forecast'') ''probs'') h a t"
  using assms by (auto simp: scored_json_def restamp_get jget_set)

lemma wf_micro [simp]: "wf_json (micro_json i)"
  by (simp add: micro_json_def)

lemma wf_evaluation [simp]: "wf_json (evaluation_json p h a t)"
  by (simp add: evaluation_json_def Let_def dict_ok_def)

lemma wf_scored_json: "wf_json v \<Longrightarrow> wf_json snap \<Longrightarrow> wf_json (scored_json v snap h a t)"
proof -
  assume v: "wf_json v" "wf_json snap"
  then have "wf_items (arr (jget (jget v ''inputs'') ''snapshots'') @ [snap])"
    using wf_arr[of "jget (jget v ''inputs'') ''snapshots''"] by (simp add: wf_items_iff wf_jget)
  with v show ?thesis unfolding scored_json_def by (intro restamp_wf wf_json_set) (simp_all add: wf_jget)
qed

lemma finish_and_write_Inr:
  assumes "finish_and_write fmt v l = (Inr s, l')" "wf_json v" "is_obj v" "is_obj (jget v ''provenance'')"
  shows "\<exists>w c. finish_artifact v = Some w \<and> validate_artifact fmt w = Inr () \<and> canonical_json w = Some c
       \<and> jget w ''artifact_id'' = JStr s \<and> dict_get (lg_files l') s = Some (dumps c @ [CHR 0x0A])"
proof -
  obtain w where w: "finish_artifact v = Some w" "write_artifact fmt w l = (Inr s, l')"
    using assms(1) by (auto simp: finish_and_write_def split: option.splits)
  note fi = finish_artifact_ids[OF w(1) assms(2-4)] and wr = write_Inr[OF w(2)]
  show ?thesis using w(1) fi wr by (auto simp: id_text_def)
qed

lemma scored_provenance: "is_obj v \<Longrightarrow> is_obj (jget v ''provenance'') \<Longrightarrow> is_obj (jget (scored_json v snap h a t) ''provenance'')"
  by (simp add: scored_json_def restamp_def jget_set)

lemma scored_obj [simp]: "is_obj (scored_json v snap h a t) = is_obj v"
  by (simp add: scored_json_def restamp_def)

text \<open>
  C23: a score is accepted only for a verified, non-abstained, still sealed artifact, from a data
  state strictly newer than every snapshot of the seal and for non-negative goals; the written
  successor repeats match, forecast and model unchanged, names the seal it resolves, and records
  the outcome the goals say.
\<close>

theorem scored_successor_faithful:
  assumes "score_forecast_result fmt stem data snap h a l = (Inr s, l')" "wf_json snap"
  shows "\<exists>sealed w c old now. load_verified_artifact fmt stem data = Inr sealed
       \<and> jget sealed ''status'' = JStr ''sealed'' \<and> jget (jget sealed ''forecast'') ''probs'' \<noteq> JNull
       \<and> latest_anchor (arr (jget (jget sealed ''inputs'') ''snapshots'')) = Some old
       \<and> snapshot_anchor snap = Some now \<and> old < now \<and> 0 \<le> h \<and> 0 \<le> a
       \<and> dict_get (lg_files l') s = Some (dumps c @ [CHR 0x0A]) \<and> canonical_json w = Some c
       \<and> validate_artifact fmt w = Inr ()
       \<and> jget w ''artifact_id'' = JStr s \<and> jget w ''status'' = JStr ''scored'' \<and> jget w ''supersedes'' = JStr stem
       \<and> jget w ''match'' = jget sealed ''match'' \<and> jget w ''forecast'' = jget sealed ''forecast''
       \<and> jget w ''model'' = jget sealed ''model''
       \<and> jget (jget (jget w ''evaluation'') ''actual'') ''outcome''
           = JStr (if a < h then ''home'' else if h = a then ''draw'' else ''away'')"
proof -
  obtain sealed where sealed: "load_verified_artifact fmt stem data = Inr sealed"
      "score_verified_seal fmt sealed snap h a l = (Inr s, l')"
    using assms(1) by (auto simp: score_forecast_result_def split: sum.splits)
  note fs = load_verified_Inr[OF sealed(1)]
  obtain now where now: "score_snapshot_anchor sealed snap = Inr now" "0 \<le> h" "0 \<le> a"
      "finish_and_write fmt (scored_json sealed snap h a now) l = (Inr s, l')"
    using sealed(2) by (auto simp: score_verified_seal_def split: sum.splits if_splits)
  have anchor: "jget sealed ''status'' = JStr ''sealed''" "jget (jget sealed ''forecast'') ''probs'' \<noteq> JNull"
      "\<exists>old. latest_anchor (arr (jget (jget sealed ''inputs'') ''snapshots'')) = Some old \<and> old < now"
      "snapshot_anchor snap = Some now"
    using now(1) by (auto simp: score_snapshot_anchor_def bindE_Inr orE_def split: option.splits if_splits)
  obtain w c where w: "finish_artifact (scored_json sealed snap h a now) = Some w" "validate_artifact fmt w = Inr ()"
      "canonical_json w = Some c" "jget w ''artifact_id'' = JStr s" "dict_get (lg_files l') s = Some (dumps c @ [CHR 0x0A])"
    using finish_and_write_Inr[OF now(4)] fs assms(2) by (auto simp: wf_scored_json scored_provenance)
  have g: "jget w k = jget (scored_json sealed snap h a now) k" if "k \<noteq> ''artifact_id''" "k \<noteq> ''provenance''" for k
    using finish_elsewhere[OF w(1) _ that] fs by simp
  have "jget (jget (evaluation_json p h a now) ''actual'') ''outcome''
          = JStr (if a < h then ''home'' else if h = a then ''draw'' else ''away'')" for p
    by (simp add: evaluation_json_def Let_def jget_obj outcome_key_def)
  then have kept: "jget w ''status'' = JStr ''scored''" "jget w ''supersedes'' = JStr stem"
      "jget w ''match'' = jget sealed ''match''" "jget w ''forecast'' = jget sealed ''forecast''"
      "jget w ''model'' = jget sealed ''model''"
      "jget (jget (jget w ''evaluation'') ''actual'') ''outcome''
           = JStr (if a < h then ''home'' else if h = a then ''draw'' else ''away'')"
    using fs by (simp_all add: g scored_json_get)
  obtain old where old: "latest_anchor (arr (jget (jget sealed ''inputs'') ''snapshots'')) = Some old" "old < now"
    using anchor(3) by blast
  show ?thesis
    by (intro exI[of _ sealed] exI[of _ w] exI[of _ c] exI[of _ old] exI[of _ now] conjI
        sealed(1) anchor(1,2,4) old now(2,3) w kept)
qed

text \<open>What a score needs to go through.\<close>

lemma scored_json_conforms:
  assumes "conforms (artifact_schema fmt) v" "jget (jget v ''forecast'') ''probs'' \<noteq> JNull" "jget v ''artifact_id'' = JStr i"
    and "conforms (snapshot_schema fmt) snap" "0 \<le> h" "0 \<le> a" "fmt ''date-time'' (dt_iso t)"
  shows "conforms (artifact_schema fmt) (scored_json v snap h a t)"
proof -
  have p: "conforms probabilities_schema (jget (jget v ''forecast'') ''probs'')"
    using forecast_probs_conform[OF assms(1)] assms(2) by simp
  have id: "conforms (Text artifact_id_pattern) (JStr i)"
    using artifact_conforms_get[OF assms(1), of "''artifact_id''" "Text artifact_id_pattern"] assms(3) by (simp add: artifact_props_def)
  have inp: "conforms (inputs_schema fmt) (jget v ''inputs'')"
    using assms(1) by (rule artifact_conforms_get) (simp add: artifact_props_def)
  then have "dict_get (obj_fields (jget v ''inputs'')) ''snapshots'' = Some (jget (jget v ''inputs'') ''snapshots'')
      \<and> conforms (Items 1 (snapshot_schema fmt)) (jget (jget v ''inputs'') ''snapshots'')"
    unfolding inputs_schema_def by (rule props_required) simp
  then have "conforms (Items 1 (snapshot_schema fmt)) (JArr (arr (jget (jget v ''inputs'') ''snapshots'') @ [snap]))"
    using assms(4) by (cases "jget (jget v ''inputs'') ''snapshots''") (simp_all add: arr_def)
  with inp have inp': "conforms (inputs_schema fmt) (json_set ''snapshots'' (JArr (arr (jget (jget v ''inputs'') ''snapshots'') @ [snap])) (jget v ''inputs''))"
    unfolding inputs_schema_def
    by (intro conforms_set[where req = True and s = "Items 1 (snapshot_schema fmt)"]) simp_all
  note ev = evaluation_conforms[of _ h a fmt t, OF p assms(5,6,7)]
  have "conforms (artifact_schema fmt) (json_set ''supersedes'' (JStr i) (json_set ''status'' (JStr ''scored'') v))"
    using assms(1) id by (intro artifact_conforms_set[where k = "''supersedes''"] artifact_conforms_set[where k = "''status''"])
      (auto simp: artifact_props_def)
  then have "conforms (artifact_schema fmt) (json_set ''evaluation'' (evaluation_json (jget (jget v ''forecast'') ''probs'') h a t)
      (json_set ''inputs'' (json_set ''snapshots'' (JArr (arr (jget (jget v ''inputs'') ''snapshots'') @ [snap])) (jget v ''inputs''))
        (json_set ''supersedes'' (JStr i) (json_set ''status'' (JStr ''scored'') v))))"
    using inp' ev
    by (intro artifact_conforms_set[where k = "''evaluation''" and s = "Nullable (evaluation_schema fmt)" and req = True]
        artifact_conforms_set[where k = "''inputs''" and s = "inputs_schema fmt" and req = True])
      (simp_all add: artifact_props_def)
  then show ?thesis
    unfolding scored_json_def assms(3) by (rule restamp_conforms) (rule assms(7))
qed

lemma score_writes:
  assumes "load_verified_artifact fmt stem data = Inr sealed" "jget sealed ''status'' = JStr ''sealed''"
    and "jget (jget sealed ''forecast'') ''probs'' \<noteq> JNull"
    and "latest_anchor (arr (jget (jget sealed ''inputs'') ''snapshots'')) = Some old" "snapshot_anchor snap = Some now" "old < now"
    and "conforms (snapshot_schema fmt) snap" "wf_json snap" "0 \<le> h" "0 \<le> a" "accepts_utc fmt"
  shows "\<exists>w c. score_forecast_result fmt stem data snap h a l = write_artifact fmt w l
            \<and> validate_artifact fmt w = Inr () \<and> canonical_json w = Some c
            \<and> finish_artifact (scored_json sealed snap h a now) = Some w"
proof -
  note fs = load_verified_Inr[OF assms(1)]
  let ?v = "scored_json sealed snap h a now"
  have "wf_dt now" using assms(5) by (auto simp: snapshot_anchor_def intro: parse_iso_wf)
  then have iso: "fmt ''date-time'' (dt_iso now)" using assms(11) by (simp add: accepts_utc_def)
  have cv: "conforms (artifact_schema fmt) ?v"
    using fs by (intro scored_json_conforms[OF validate_conforms assms(3) _ assms(7,9,10) iso]) auto
  have wf: "wf_json ?v" "is_obj ?v" "is_obj (jget ?v ''provenance'')"
    using fs assms(8) by (simp_all add: wf_scored_json scored_provenance)
  have same: "jget ?v ''forecast'' = jget sealed ''forecast''" using fs by (simp add: scored_json_get)
  have val: "validate_artifact fmt ?v = Inr ()"
    using validate_same_forecast[OF _ cv same] fs by blast
  have anchor: "score_snapshot_anchor sealed snap = Inr now"
    using assms(2-6) by (simp add: score_snapshot_anchor_def orE_def)
  obtain w where w: "finish_artifact ?v = Some w" using finish_total[OF val wf(1)] by blast
  have vw: "validate_artifact fmt w = Inr ()" using w wf(1) val by (rule finish_validates)
  moreover obtain c where "canonical_json w = Some c" using canonical_total[OF vw] by blast
  moreover have "score_forecast_result fmt stem data snap h a l = write_artifact fmt w l"
    using assms(1,9,10) anchor w by (simp add: score_forecast_result_def score_verified_seal_def finish_and_write_def)
  ultimately show ?thesis using w by blast
qed

text \<open>
  C24: scoring never gets stuck.  For any verified sealed artifact with probabilities, any
  schema-valid newer snapshot and any non-negative goals, the successor made of exactly these passes
  every check.  It is refused, and nothing written, only when the file of its own id holds another
  verified artifact; otherwise the call answers that id and the file holds the successor's bytes.
\<close>

theorem scoring_always_completes:
  assumes "load_verified_artifact fmt stem data = Inr sealed" "jget sealed ''status'' = JStr ''sealed''"
    and "jget (jget sealed ''forecast'') ''probs'' \<noteq> JNull"
    and "latest_anchor (arr (jget (jget sealed ''inputs'') ''snapshots'')) = Some old" "snapshot_anchor snap = Some now" "old < now"
    and "conforms (snapshot_schema fmt) snap" "wf_json snap" "0 \<le> h" "0 \<le> a" "accepts_utc fmt"
  shows "\<exists>w b. finish_artifact (scored_json sealed snap h a now) = Some w \<and> validate_artifact fmt w = Inr ()
     \<and> canonical_bytes w = Some b
     \<and> (if \<exists>d. dict_get (lg_files l) (id_text w) = Some d \<and> d \<noteq> b @ [CHR 0x0A] \<and> is_valid_artifact_bytes fmt d (id_text w)
        then score_forecast_result fmt stem data snap h a l = (Inl Collision, l)
        else \<exists>l'. score_forecast_result fmt stem data snap h a l = (Inr (id_text w), l')
               \<and> dict_get (lg_files l') (id_text w) = Some (b @ [CHR 0x0A]))"
proof -
  obtain w c where w: "score_forecast_result fmt stem data snap h a l = write_artifact fmt w l"
      "validate_artifact fmt w = Inr ()" "canonical_json w = Some c" "finish_artifact (scored_json sealed snap h a now) = Some w"
    using score_writes[OF assms, of l] by blast
  show ?thesis
  proof (intro exI[of _ w] exI[of _ "dumps c"] conjI w(4) w(2))
    show "canonical_bytes w = Some (dumps c)" using w(3) by (simp add: canonical_bytes_def)
    show "if \<exists>d. dict_get (lg_files l) (id_text w) = Some d \<and> d \<noteq> dumps c @ [CHR 0x0A] \<and> is_valid_artifact_bytes fmt d (id_text w)
        then score_forecast_result fmt stem data snap h a l = (Inl Collision, l)
        else \<exists>l'. score_forecast_result fmt stem data snap h a l = (Inr (id_text w), l')
               \<and> dict_get (lg_files l') (id_text w) = Some (dumps c @ [CHR 0x0A])"
      unfolding w(1) using w(2,3)
      by (cases "dict_get (lg_files l) (id_text w)")
        (auto simp: write_artifact_def canonical_bytes_def append_audit_event_def Let_def)
  qed
qed

end
