(* ===== verification/Artifact_Sealing.thy ===== *)
theory Artifact_Sealing
  imports Artifact_Safety
begin

text \<open>
  Seals: the gates of \<open>build_forecast_artifact\<close>, and the round trip from a sealed forecast through
  its file back to a verified artifact.  A sample seal, built by the code's own path from a small
  table with too little history, serves the witnesses; a second one with probabilities is scored.
\<close>

section \<open>The gates\<close>

lemma orE_Inr [simp]: "(orE x e = Inr v) = (x = Some v)"
  by (cases x) (simp_all add: orE_def)

lemma build_Inr:
  assumes "build_forecast_artifact en fit snapshots matches rq = Inr v"
  shows "\<exists>as_of anchor m k hc ac nm view. rq_family rq \<in> set frozen_families \<and> parse_iso (rq_as_of rq) = Some as_of
       \<and> latest_anchor snapshots = Some anchor \<and> anchor \<le> as_of
       \<and> find_match matches (rq_date rq) (rq_home rq) (rq_away rq) (rq_match_id rq) = Inr m \<and> mr_complete m = Some False
       \<and> mr_kickoff m = Some k \<and> as_of < k
       \<and> leak_safe_training_view matches m (Some as_of) = Inr view
       \<and> hc = team_count (tv_frame view) as_of (rq_home rq) \<and> ac = team_count (tv_frame view) as_of (rq_away rq)
       \<and> (if min hc ac < min_team_matches then nm = abstained_numbers
          else model_numbers (fit (rq_family rq) (tv_frame view) (tv_cutoff view) (rq_home rq) (rq_away rq) (mr_neutral m)) = Inr nm)
       \<and> finish_artifact (artifact_json en rq m as_of (tv_kickoff view) (tv_cutoff view) snapshots hc ac (min hc ac < min_team_matches) nm) = Some v"
proof -
  obtain as_of anchor m where a: "rq_family rq \<in> set frozen_families" "parse_iso (rq_as_of rq) = Some as_of"
      "latest_anchor snapshots = Some anchor" "anchor \<le> as_of"
      "find_match matches (rq_date rq) (rq_home rq) (rq_away rq) (rq_match_id rq) = Inr m" "mr_complete m = Some False"
    using assms by (auto simp: build_forecast_artifact_def bindE_Inr orE_def split: option.splits)
  obtain view where v: "leak_safe_training_view matches m (Some as_of) = Inr view"
    using assms a by (auto simp: build_forecast_artifact_def bindE_Inr orE_def split: option.splits sum.splits)
  then obtain k where k: "mr_kickoff m = Some k" by (cases "mr_kickoff m") (simp_all add: view_rows)
  have lt: "as_of < k"
    using assms a k by (auto simp: build_forecast_artifact_def bindE_Inr orE_def split: option.splits)
  let ?hc = "team_count (tv_frame view) as_of (rq_home rq)" and ?ac = "team_count (tv_frame view) as_of (rq_away rq)"
  have "\<exists>nm. (if min ?hc ?ac < min_team_matches then nm = abstained_numbers
          else model_numbers (fit (rq_family rq) (tv_frame view) (tv_cutoff view) (rq_home rq) (rq_away rq) (mr_neutral m)) = Inr nm)
       \<and> finish_artifact (artifact_json en rq m as_of (tv_kickoff view) (tv_cutoff view) snapshots ?hc ?ac (min ?hc ?ac < min_team_matches) nm) = Some v"
    using assms a v k lt
    by (cases "min ?hc ?ac < min_team_matches") (auto simp: build_forecast_artifact_def bindE_Inr Let_def not_le)
  then show ?thesis using a v k lt by blast
qed

lemma wf_jtext [simp]: "wf_json (jtext x)"
  by (simp add: jtext_def split: option.splits)

lemma wf_score_matrix_json [simp]: "wf_json (score_matrix_json s)"
proof -
  have "wf_items (map JFloat row)" for row by (induction row) auto
  then have "wf_items (map (\<lambda>row. JArr (map JFloat row)) g)" for g by (induction g) auto
  then show ?thesis by (simp add: score_matrix_json_def dict_ok_def)
qed

lemma wf_numbers:
  assumes "model_numbers p = Inr nm"
  shows "wf_json (nm_probs nm) \<and> wf_json (nm_expected nm)"
  using assms
  by (auto simp: model_numbers_def Let_def dict_ok_def split: option.splits prod.splits if_splits)

lemma wf_artifact_json:
  assumes "list_all wf_json snapshots" "wf_json (nm_probs nm)" "wf_json (nm_expected nm)"
  shows "wf_json (artifact_json en rq m as_of k c snapshots hc ac ab nm)"
  using assms by (simp add: artifact_json_def dict_ok_def wf_items_iff split: option.splits)

lemma artifact_json_get:
  "jget (artifact_json en rq m as_of k c snapshots hc ac ab nm) ''status'' = JStr (if ab then ''abstained'' else ''sealed'')"
  "jget (jget (artifact_json en rq m as_of k c snapshots hc ac ab nm) ''forecast'') ''probs'' = nm_probs nm"
  "jget (jget (artifact_json en rq m as_of k c snapshots hc ac ab nm) ''forecast'') ''sealed_at_utc'' = JStr (dt_iso as_of)"
  "jget (jget (artifact_json en rq m as_of k c snapshots hc ac ab nm) ''inputs'') ''training_cutoff_utc'' = JStr (dt_iso c)"
  "jget (jget (artifact_json en rq m as_of k c snapshots hc ac ab nm) ''inputs'') ''snapshots'' = JArr snapshots"
  "is_obj (artifact_json en rq m as_of k c snapshots hc ac ab nm)"
  "is_obj (jget (artifact_json en rq m as_of k c snapshots hc ac ab nm) ''provenance'')"
  "is_obj (jget (artifact_json en rq m as_of k c snapshots hc ac ab nm) ''forecast'')"
  by (simp_all add: artifact_json_def jget_obj)

lemma artifact_json_root:
  "jget (artifact_json en rq m as_of k c snapshots hc ac ab nm) ''supersedes'' = JNull"
  by (simp add: artifact_json_def jget_obj)

lemma numbers_probs:
  "model_numbers p = Inr nm \<Longrightarrow> nm_probs nm = probs_json (canonical_probs (pr_probs p))"
  by (auto simp: model_numbers_def Let_def split: option.splits prod.splits if_splits)


section \<open>The file of a seal reads back\<close>

text \<open>Canonical probabilities are a fixed point of canonicalisation.\<close>

lemma canonical_fixpoint:
  assumes "wf_json w" "is_obj w" "is_obj (jget w ''forecast'')"
    and "jget (jget w ''forecast'') ''probs'' = JNull
         \<or> (\<exists>h d a. jget (jget w ''forecast'') ''probs'' = probs_json (h, d, a) \<and> h + d + a = 1000000)"
  shows "\<exists>c. canonical_json w = Some c \<and> jeq c w"
  using assms(4)
proof
  have f: "dict_get (obj_fields w) ''forecast'' = Some (jget w ''forecast'')"
    using assms(3) by (intro jget_present) auto
  let ?f = "jget w ''forecast''"
  {
    assume "jget ?f ''probs'' = JNull"
    then show ?thesis using f assms by (auto simp: canonical_json_def Let_def jeq_refl)
  next
    assume "\<exists>h d a. jget ?f ''probs'' = probs_json (h, d, a) \<and> h + d + a = 1000000"
    then obtain h d a where p: "jget ?f ''probs'' = probs_json (h, d, a)" "h + d + a = 1000000" by blast
    have nn: "probs_json (h, d, a) \<noteq> JNull" by (simp add: probs_json_def)
    have nums: "num_nano (jget (probs_json (h, d, a)) ''home'') = Some (h * 1000)"
        "num_nano (jget (probs_json (h, d, a)) ''draw'') = Some (d * 1000)"
        "num_nano (jget (probs_json (h, d, a)) ''away'') = Some (a * 1000)"
      by (simp_all add: probs_json_def jget_obj num_nano_def)
    have nano: "nano (i * 1000) = of_int i / 1000000" for i by (simp add: nano_def)
    have "canonical_json w = Some (json_set ''forecast'' (json_set ''probs'' (probs_json (h, d, a)) ?f) w)"
      using f assms(3) nn by (simp add: canonical_json_def Let_def p(1) nums nano canonical_fixed[OF p(2)])
    moreover have "jeq (json_set ''forecast'' (json_set ''probs'' (probs_json (h, d, a)) ?f) w) w"
    proof -
      have "dict_get (obj_fields ?f) ''probs'' = Some (probs_json (h, d, a))"
        using p(1) nn jget_present[of ?f "''probs''"] by simp
      then have "jeq (json_set ''probs'' (probs_json (h, d, a)) ?f) ?f"
        using assms by (intro jeqI) (auto simp: wf_jget dict_get_json_set)
      then have "jeq (json_set ''forecast'' (json_set ''probs'' (probs_json (h, d, a)) ?f) w) (json_set ''forecast'' ?f w)"
        using assms(1) by (intro jeq_set jeq_refl)
      also have "jeq \<dots> w"
        using assms f by (intro jeqI) (auto simp: wf_jget dict_get_json_set)
      finally show ?thesis .
    qed
    ultimately show ?thesis by blast
  }
qed

text \<open>Finishing keeps an artifact canonical.\<close>

lemma canonical_set_fixed:
  assumes "canonical_json v = Some c" "jeq c v" "wf_json v" "wf_json x" "k \<noteq> ''forecast''"
  shows "\<exists>d. canonical_json (json_set k x v) = Some d \<and> jeq d (json_set k x v)"
proof -
  obtain d where d: "canonical_json (json_set k x v) = Some d" "jeq d (json_set k x c)"
    using canonical_set[OF assms(3-5)] assms(1) by (auto simp: option_rel_Some2)
  have "jeq (json_set k x c) (json_set k x v)" using assms(2,4) by (intro jeq_set jeq_refl)
  with d show ?thesis by (blast intro: jeq_trans)
qed

lemma finish_settled:
  assumes "finish_artifact v = Some w" "wf_json v" "is_obj v" "is_obj (jget v ''provenance'')"
    and "canonical_json v = Some c" "jeq c v"
  shows "\<exists>d. canonical_json w = Some d \<and> jeq d w"
proof -
  obtain i h where w: "w = json_set ''provenance'' (json_set ''payload_sha256'' (JStr h) (jget v ''provenance'')) (json_set ''artifact_id'' (JStr i) v)"
    using finish_artifact_ids[OF assms(1-4)] by blast
  obtain d where "canonical_json (json_set ''artifact_id'' (JStr i) v) = Some d" "jeq d (json_set ''artifact_id'' (JStr i) v)"
    using canonical_set_fixed[OF assms(5,6,2), of "JStr i" "''artifact_id''"] by auto
  then show ?thesis
    unfolding w using assms(2) by (intro canonical_set_fixed) (simp_all add: wf_jget)
qed

text \<open>An artifact before it is finished that a request with its gates gives.\<close>

definition of_request :: "environment \<Rightarrow> json list \<Rightarrow> frame \<Rightarrow> seal_request \<Rightarrow> json \<Rightarrow> bool" where
  "of_request en snapshots matches rq a \<longleftrightarrow>
     (\<exists>as_of anchor m k view hc ac few nm. rq_family rq \<in> set frozen_families \<and> parse_iso (rq_as_of rq) = Some as_of
        \<and> latest_anchor snapshots = Some anchor \<and> anchor \<le> as_of
        \<and> find_match matches (rq_date rq) (rq_home rq) (rq_away rq) (rq_match_id rq) = Inr m
        \<and> mr_complete m = Some False \<and> mr_kickoff m = Some k \<and> as_of < k
        \<and> leak_safe_training_view matches m (Some as_of) = Inr view
        \<and> a = artifact_json en rq m as_of (tv_kickoff view) (tv_cutoff view) snapshots hc ac few nm)"

lemma build_shape:
  assumes "build_forecast_artifact en fit snapshots matches rq = Inr v" "list_all wf_json snapshots"
  shows "\<exists>a c. finish_artifact a = Some v \<and> wf_json a \<and> is_obj a \<and> is_obj (jget a ''provenance'')
       \<and> canonical_json a = Some c \<and> jeq c a \<and> of_request en snapshots matches rq a
       \<and> jget a ''supersedes'' = JNull \<and> jget a ''status'' \<in> {JStr ''sealed'', JStr ''abstained''}"
proof -
  obtain as_of anchor m k hc ac nm view where b0: "rq_family rq \<in> set frozen_families" "parse_iso (rq_as_of rq) = Some as_of"
      "latest_anchor snapshots = Some anchor" "anchor \<le> as_of"
      "find_match matches (rq_date rq) (rq_home rq) (rq_away rq) (rq_match_id rq) = Inr m" "mr_complete m = Some False"
      "mr_kickoff m = Some k" "as_of < k" "leak_safe_training_view matches m (Some as_of) = Inr view"
      "hc = team_count (tv_frame view) as_of (rq_home rq)" "ac = team_count (tv_frame view) as_of (rq_away rq)"
    and b: "if min hc ac < min_team_matches then nm = abstained_numbers
          else model_numbers (fit (rq_family rq) (tv_frame view) (tv_cutoff view) (rq_home rq) (rq_away rq) (mr_neutral m)) = Inr nm"
      "finish_artifact (artifact_json en rq m as_of (tv_kickoff view) (tv_cutoff view) snapshots hc ac (min hc ac < min_team_matches) nm) = Some v"
    using build_Inr[OF assms(1)] by blast
  let ?a = "artifact_json en rq m as_of (tv_kickoff view) (tv_cutoff view) snapshots hc ac (min hc ac < min_team_matches) nm"
  have wf: "wf_json ?a"
    using b(1) wf_numbers assms(2) by (intro wf_artifact_json) (auto simp: abstained_numbers_def split: if_splits)
  have "nm_probs nm = JNull \<or> (\<exists>h d a. nm_probs nm = probs_json (h, d, a) \<and> h + d + a = 1000000)"
    using b(1) numbers_probs canonical_sum by (auto simp: abstained_numbers_def split: if_splits) (metis prod_cases3)
  then obtain c where "canonical_json ?a = Some c" "jeq c ?a"
    using wf canonical_fixpoint[of ?a] by (auto simp: artifact_json_get)
  moreover have "of_request en snapshots matches rq ?a" unfolding of_request_def using b0 by blast
  ultimately show ?thesis
    using b(2) wf by (intro exI[of _ ?a] exI[of _ c]) (simp add: artifact_json_get artifact_json_root)
qed

text \<open>
  A seal that was written reads back.  The file under the returned id parses, validates,
  reproduces its own digest and content id, and is the sealed artifact up to the order of keys.
\<close>

theorem sealed_file_verifies:
  assumes "seal_forecast fmt en fit snapshots matches rq l = (Inr s, l')" "list_all wf_json snapshots"
  shows "\<exists>data v w. dict_get (lg_files l') s = Some data
       \<and> build_forecast_artifact en fit snapshots matches rq = Inr v
       \<and> load_verified_artifact fmt s data = Inr w \<and> normalise w = normalise v"
proof -
  obtain v where v: "build_forecast_artifact en fit snapshots matches rq = Inr v" "write_artifact fmt v l = (Inr s, l')"
    using assms(1) by (auto simp: seal_forecast_def split: sum.splits)
  obtain a b where a: "finish_artifact a = Some v" "wf_json a" "is_obj a" "is_obj (jget a ''provenance'')"
      "canonical_json a = Some b" "jeq b a"
    using build_shape[OF v(1) assms(2)] by blast
  note wr = write_Inr[OF v(2)]
  have val: "validate_artifact fmt v = Inr ()" and wv: "wf_json v" using wr finish_artifact_ids[OF a(1-4)] by blast+
  obtain c where c: "canonical_json v = Some c" "jeq c v" using finish_settled[OF a] by blast
  have "verify_artifact_integrity fmt v (Some s) = Inr v" using finish_verifies[OF a(1-4) val] wr by simp
  moreover have "validate_artifact fmt c = Inr ()" using validate_jeq[OF c(2)] val by simp
  ultimately have "load_verified_artifact fmt s (dumps c @ [CHR 0x0A]) = Inr (normalise c)"
    using written_loads[OF wv _ c(1)] by blast
  moreover have "normalise (normalise c) = normalise v" using c(2) by (simp add: jeq_def)
  ultimately show ?thesis using v(1) wr c(1) by (metis option.inject)
qed

end
