(* ===== verification/Artifact_Samples.thy ===== *)
theory Artifact_Samples
  imports Artifact_Sealing
begin

text \<open>
  Concrete artifacts.  One is sealed by the code's own path from a table with too little history,
  so it abstains; one carries probabilities and is scored.  They show that the statements of
  \<open>Artifact_Safety\<close> and \<open>Artifact_Sealing\<close> have inputs they speak about.  Hashes stay symbolic:
  nothing here depends on a digest's value.
\<close>

definition any_format :: "string \<Rightarrow> string \<Rightarrow> bool" where
  "any_format k s = True"

lemma accepts_any_format: "accepts_utc any_format"
  by (simp add: accepts_utc_def any_format_def)

definition old_snapshot :: json where
  "old_snapshot = JObj
     [(''snapshot_id'', JStr ''s''), (''source_id'', JStr ''s''), (''url'', JStr ''u''), (''upstream_ref'', JStr ''r''),
      (''retrieved_at_utc'', JStr ''2026-06-09T12:00:00Z''), (''sha256'', JStr zero_sha), (''license'', JStr ''CC0'')]"

definition new_snapshot :: json where
  "new_snapshot = json_set ''retrieved_at_utc'' (JStr ''2026-06-13T12:00:00Z'') old_snapshot"

definition sealed_fixture :: mrow where
  "sealed_fixture = sample_fixture\<lparr>mr_date := Some (DT 2026 6 11 0 0 0), mr_complete := Some False,
     mr_home_score := None, mr_away_score := None\<rparr>"

definition seal_frame :: frame where
  "seal_frame = sample_frame\<lparr>fr_rows := [sample_row, sealed_fixture]\<rparr>"

definition sample_request :: seal_request where
  "sample_request = \<lparr> rq_date = ''2026-06-11'', rq_home = ''A'', rq_away = ''B'', rq_as_of = ''2026-06-10T12:00:00Z'',
     rq_horizon = ''T-24h'', rq_family = ''climatological'', rq_seed = 0, rq_match_id = None \<rparr>"

definition sample_env :: environment where
  "sample_env = \<lparr> en_version = ''0.1'', en_code_sha = ''0000000'' \<rparr>"

definition no_fit :: "string \<Rightarrow> frame \<Rightarrow> dt \<Rightarrow> string \<Rightarrow> string \<Rightarrow> bool \<Rightarrow> prediction" where
  "no_fit family train cutoff home away neutral = \<lparr> pr_probs = (1 / 2, 3 / 10, 1 / 5), pr_expected = None, pr_params = [], pr_matrix = None \<rparr>"

definition even_numbers :: numbers where
  "even_numbers = \<lparr> nm_probs = probs_json (500000, 300000, 200000), nm_expected = JNull, nm_grid = None, nm_params = [] \<rparr>"

definition empty_ledger :: ledger where
  "empty_ledger = \<lparr> lg_files = [], lg_audit = [] \<rparr>"

lemma instants:
  "parse_iso ''2026-06-09T12:00:00Z'' = Some (DT 2026 6 9 12 0 0)"
  "parse_iso ''2026-06-13T12:00:00Z'' = Some (DT 2026 6 13 12 0 0)"
  "parse_iso ''2026-06-10T12:00:00Z'' = Some (DT 2026 6 10 12 0 0)"
  "parse_iso ''2026-06-11T00:00:00Z'' = Some (DT 2026 6 11 0 0 0)"
  by code_simp+

lemma snapshot_ok:
  "conforms (snapshot_schema any_format) old_snapshot" "conforms (snapshot_schema any_format) new_snapshot"
  "wf_json old_snapshot" "wf_json new_snapshot"
  "snapshot_anchor old_snapshot = Some (DT 2026 6 9 12 0 0)" "snapshot_anchor new_snapshot = Some (DT 2026 6 13 12 0 0)"
proof -
  show old: "conforms (snapshot_schema any_format) old_snapshot"
    by (simp add: snapshot_schema_def conforms_props old_snapshot_def date_time_def any_format_def nonempty_def zero_sha_ok
        is_obj_def obj_fields_def)
  then show "conforms (snapshot_schema any_format) new_snapshot"
    unfolding new_snapshot_def snapshot_schema_def
    by (rule conforms_set[where req = True and s = "date_time any_format"]) (simp_all add: date_time_def any_format_def)
  show "wf_json old_snapshot" by (simp add: old_snapshot_def dict_ok_def)
  then show "wf_json new_snapshot" by (simp add: new_snapshot_def)
  show "snapshot_anchor old_snapshot = Some (DT 2026 6 9 12 0 0)"
    by (simp add: snapshot_anchor_def snapshot_anchor_utc_def old_snapshot_def jget_obj json_or_def py_text_def
        py_truthy_def instants)
  show "snapshot_anchor new_snapshot = Some (DT 2026 6 13 12 0 0)"
    by (simp add: snapshot_anchor_def snapshot_anchor_utc_def new_snapshot_def old_snapshot_def jget_obj json_or_def
        py_text_def py_truthy_def json_set_def instants)
qed

abbreviation sample_json :: "nat \<Rightarrow> nat \<Rightarrow> bool \<Rightarrow> numbers \<Rightarrow> json" where
  "sample_json hc ac ab nm \<equiv> artifact_json sample_env sample_request sealed_fixture (DT 2026 6 10 12 0 0)
     (DT 2026 6 11 20 0 0) (DT 2026 6 10 12 0 0) [old_snapshot] hc ac ab nm"


lemma id_patterns: "artifact_id_pattern ''fa_pending00''" "hex_pattern 7 40 ''0000000''"
  by code_simp+

lemma params_hex: "hex_pattern 64 64 (params_hash d)"
  by (simp add: params_hash_def hex_sha)

lemmas sample_schemas = artifact_schema_def artifact_props_def match_schema_def forecast_schema_def probabilities_schema_def
  probability_def model_schema_def inputs_schema_def provenance_schema_def date_time_def some_text_def any_format_def

lemma sample_valid:
  "validate_artifact any_format (sample_json hc ac True abstained_numbers) = Inr ()"
  "validate_artifact any_format (sample_json hc ac False even_numbers) = Inr ()"
proof -
  have snap: "conforms (snapshot_schema (\<lambda>_ _. True)) old_snapshot"
    using snapshot_ok(1) by (simp add: any_format_def[abs_def])
  have unc: "uncertainty_of k \<in> {''low'', ''medium'', ''high''}" for k by (simp add: uncertainty_of_def)
  have c: "conforms (artifact_schema any_format) (sample_json hc ac ab nm)"
    if "nm_grid nm = None" "nm_expected nm = JNull" "nm_probs nm = JNull \<or> nm_probs nm = probs_json (500000, 300000, 200000)" for ab nm
    using unc[of "min hc ac"] that(3) snapshot_ok(1)
    by (auto simp: sample_schemas conforms_props artifact_json_def is_obj_def obj_fields_def that(1,2) probs_json_def
        num_nano_def num_int_def id_patterns params_hex zero_sha_ok nonempty_def frozen_families_def jtext_def
        sample_env_def sample_request_def sealed_fixture_def sample_fixture_def sample_row_def any_format_def[abs_def] snap)
  show "validate_artifact any_format (sample_json hc ac True abstained_numbers) = Inr ()"
    using c[of abstained_numbers True]
    by (simp add: validate_artifact_def artifact_json_get abstained_numbers_def)
       (simp add: artifact_json_def jget_obj)
  show "validate_artifact any_format (sample_json hc ac False even_numbers) = Inr ()"
    using c[of even_numbers False]
    by (simp add: validate_artifact_def artifact_json_get even_numbers_def probs_json_def nano_at_def jget_obj num_nano_def)
       (simp add: artifact_json_def jget_obj)
qed


section \<open>The two artifacts\<close>

lemma finished_loads:
  assumes "validate_artifact fmt v = Inr ()" "wf_json v"
    and "jget (jget v ''forecast'') ''probs'' = JNull
         \<or> (\<exists>h d a. jget (jget v ''forecast'') ''probs'' = probs_json (h, d, a) \<and> h + d + a = 1000000)"
  shows "\<exists>w i c. finish_artifact v = Some w \<and> jget w ''artifact_id'' = JStr i \<and> canonical_json w = Some c
       \<and> load_verified_artifact fmt i (dumps c @ [CHR 0x0A]) = Inr (normalise w)
       \<and> validate_artifact fmt w = Inr ()
       \<and> (\<forall>k. k \<noteq> ''artifact_id'' \<longrightarrow> k \<noteq> ''provenance'' \<longrightarrow> jget w k = jget v k)"
proof -
  note cv = validate_conforms[OF assms(1)]
  have ob: "is_obj v" "is_obj (jget v ''provenance'')" using conforms_provenance[OF cv] by simp_all
  obtain w where w: "finish_artifact v = Some w" using finish_total assms(1,2) by blast
  have val: "validate_artifact fmt w = Inr ()" using finish_validates[OF w assms(2,1)] .
  note fi = finish_artifact_ids[OF w assms(2) ob] and same = finish_elsewhere[OF w ob(1)]
  have f: "conforms (forecast_schema fmt) (jget v ''forecast'')"
    using cv by (rule artifact_conforms_get) (simp add: artifact_props_def)
  then have "is_obj (jget v ''forecast'')" unfolding forecast_schema_def by (rule props_obj)
  then obtain c where c: "canonical_json w = Some c" "jeq c w"
    using canonical_fixpoint[of w] fi assms(3) same[of "''forecast''"] by auto
  have "verify_artifact_integrity fmt w (Some (id_text w)) = Inr w"
    using finish_verifies[OF w assms(2) ob val] .
  moreover have "validate_artifact fmt c = Inr ()" using validate_jeq[OF c(2)] val by simp
  ultimately have "load_verified_artifact fmt (id_text w) (dumps c @ [CHR 0x0A]) = Inr (normalise c)"
    using written_loads[OF _ _ c(1)] fi by blast
  then show ?thesis using w val c fi same by (fastforce simp: id_text_def jeq_def)
qed

lemma sample_wf:
  "wf_json (sample_json hc ac True abstained_numbers)" "wf_json (sample_json hc ac False even_numbers)"
  by (intro wf_artifact_json; simp add: snapshot_ok abstained_numbers_def even_numbers_def)+

text \<open>The abstaining seal goes through \<open>build_forecast_artifact\<close>.\<close>

lemma sample_view:
  "leak_safe_training_view seal_frame sealed_fixture (Some (DT 2026 6 10 12 0 0)) =
     Inr \<lparr> tv_frame = seal_frame\<lparr>fr_rows := [sample_row]\<rparr>, tv_cutoff = DT 2026 6 10 12 0 0, tv_kickoff = DT 2026 6 11 20 0 0 \<rparr>"
proof -
  have k: "mr_kickoff sealed_fixture = Some (DT 2026 6 11 20 0 0)" "wf_dt (DT 2026 6 11 20 0 0)" "1 < yr (DT 2026 6 11 20 0 0)"
    by (simp_all add: sealed_fixture_def sample_fixture_def wf_dt_def days_in_month_def)
  have p: "prev_second (DT 2026 6 11 20 0 0) = DT 2026 6 11 19 59 59" by (simp add: prev_second_def)
  show ?thesis
    using k by (simp add: view_rows p seal_frame_def sample_frame_def sealed_fixture_def sample_fixture_def sample_row_def
        order_instant_def has_column_def by_cutoff_def eligible_def truthy_def less_eq_dt_def dt_key_def boundary_def min_def
        trains_def in_scope_def)
qed


lemma sample_counts: "team_count (seal_frame\<lparr>fr_rows := [sample_row]\<rparr>) t x < min_team_matches"
  by (simp add: team_count_def min_team_matches_def Let_def)

lemma sample_build:
  "\<exists>hc ac w. build_forecast_artifact sample_env no_fit [old_snapshot] seal_frame sample_request = Inr w
     \<and> finish_artifact (sample_json hc ac True abstained_numbers) = Some w"
proof -
  let ?f = "seal_frame\<lparr>fr_rows := [sample_row]\<rparr>" and ?t = "DT 2026 6 10 12 0 0"
  let ?hc = "team_count ?f ?t ''A''" and ?ac = "team_count ?f ?t ''B''"
  obtain w where w: "finish_artifact (sample_json ?hc ?ac True abstained_numbers) = Some w"
    using finish_total[OF sample_valid(1) sample_wf(1)] by blast
  have m: "find_match seal_frame ''2026-06-11'' ''A'' ''B'' None = Inr sealed_fixture"
    by (simp add: find_match_def parse_day_def instants seal_frame_def sample_frame_def sealed_fixture_def
        sample_fixture_def sample_row_def)
  have "mr_complete sealed_fixture = Some False" "mr_kickoff sealed_fixture = Some (DT 2026 6 11 20 0 0)"
    by (simp_all add: sealed_fixture_def sample_fixture_def)
  then have "build_forecast_artifact sample_env no_fit [old_snapshot] seal_frame sample_request = Inr w"
    using w m sample_counts[of ?t "''A''"] sample_counts[of ?t "''B''"]
    by (simp add: build_forecast_artifact_def sample_request_def frozen_families_def orE_def instants snapshot_ok sample_view
        Let_def less_eq_dt_def less_dt_def dt_key_def min_less_iff_disj)
  then show ?thesis using w by blast
qed

lemma sample_seal:
  "\<exists>s l. seal_forecast any_format sample_env no_fit [old_snapshot] seal_frame sample_request empty_ledger = (Inr s, l)"
proof -
  obtain hc ac w where w: "build_forecast_artifact sample_env no_fit [old_snapshot] seal_frame sample_request = Inr w"
      "finish_artifact (sample_json hc ac True abstained_numbers) = Some w"
    using sample_build by blast
  have v: "validate_artifact any_format w = Inr ()" using finish_validates[OF w(2) sample_wf(1) sample_valid(1)] .
  then obtain c where "canonical_json w = Some c" using canonical_total by blast
  then show ?thesis
    using w(1) v by (simp add: seal_forecast_def write_artifact_def canonical_bytes_def empty_ledger_def Let_def)
qed

text \<open>The sealed artifact with probabilities, as its file holds it.\<close>

lemma sample_sealed:
  "\<exists>i d w. load_verified_artifact any_format i d = Inr w \<and> jget w ''status'' = JStr ''sealed''
     \<and> jget (jget w ''forecast'') ''probs'' \<noteq> JNull
     \<and> latest_anchor (arr (jget (jget w ''inputs'') ''snapshots'')) = Some (DT 2026 6 9 12 0 0)"
proof -
  have "\<exists>h d a. jget (jget (sample_json 10 10 False even_numbers) ''forecast'') ''probs'' = probs_json (h, d, a) \<and> h + d + a = 1000000"
    by (intro exI[of _ 500000] exI[of _ 300000] exI[of _ 200000]) (simp add: artifact_json_get even_numbers_def)
  note fl = finished_loads[OF sample_valid(2) sample_wf(2) disjI2, OF this]
  obtain w i c where w: "finish_artifact (sample_json 10 10 False even_numbers) = Some w"
      "load_verified_artifact any_format i (dumps c @ [CHR 0x0A]) = Inr (normalise w)"
      "\<forall>k. k \<noteq> ''artifact_id'' \<longrightarrow> k \<noteq> ''provenance'' \<longrightarrow> jget w k = jget (sample_json 10 10 False even_numbers) k"
    using fl by (elim exE conjE) (rule that)
  have wf: "wf_json w" using finish_artifact_ids[OF w(1) sample_wf(2) artifact_json_get(6,7)] by blast
  have g: "jget (normalise w) k = normalise (jget (sample_json 10 10 False even_numbers) k)"
    if "k \<noteq> ''artifact_id''" "k \<noteq> ''provenance''" for k
    using w(3) that jget_normal[OF wf] by simp
  have wfk: "wf_json (jget (sample_json 10 10 False even_numbers) k)" for k using sample_wf(2) by (rule wf_jget)
  have "snapshot_anchor (normalise old_snapshot) = snapshot_anchor old_snapshot"
    by (simp add: snapshot_anchor_def snapshot_anchor_utc_def jget_normal[OF snapshot_ok(3)])
       (simp add: old_snapshot_def jget_obj)
  then show ?thesis
    using w(2) wfk
    by (intro exI[of _ i] exI[of _ "dumps c @ [CHR 0x0A]"] exI[of _ "normalise w"])
       (simp add: g jget_normal artifact_json_get even_numbers_def probs_json_def arr_def snapshot_ok)
qed


lemma sample_scored:
  "\<exists>i d w. load_verified_artifact any_format i d = Inr w
     \<and> (\<exists>s l. score_forecast_result any_format i d new_snapshot 2 1 empty_ledger = (Inr s, l))"
proof -
  obtain i d w where w: "load_verified_artifact any_format i d = Inr w" "jget w ''status'' = JStr ''sealed''"
      "jget (jget w ''forecast'') ''probs'' \<noteq> JNull"
      "latest_anchor (arr (jget (jget w ''inputs'') ''snapshots'')) = Some (DT 2026 6 9 12 0 0)"
    using sample_sealed by blast
  have "DT 2026 6 9 12 0 0 < DT 2026 6 13 12 0 0" by (simp add: less_dt_def dt_key_def)
  from score_writes[OF w snapshot_ok(6) this snapshot_ok(2,4) _ _ accepts_any_format, of 2 1 empty_ledger]
  obtain v c where "score_forecast_result any_format i d new_snapshot 2 1 empty_ledger = write_artifact any_format v empty_ledger"
      "validate_artifact any_format v = Inr ()" "canonical_json v = Some c"
    by (metis zero_le_numeral zero_le_one)
  then have "\<exists>s l. score_forecast_result any_format i d new_snapshot 2 1 empty_ledger = (Inr s, l)"
    by (simp add: write_artifact_def canonical_bytes_def empty_ledger_def Let_def)
  then show ?thesis using w(1) by blast
qed

section \<open>Witnesses\<close>

lemma artifact_tamper_evident_witness:
  "\<exists>i d v p. load_verified_artifact any_format i d = Inr v \<and> canonical_bytes (stable_payload v) = Some p"
proof -
  obtain i d v where v: "load_verified_artifact any_format i d = Inr v" using sample_sealed by blast
  from artifact_tamper_evident[OF v v] v show ?thesis by blast
qed

lemma artifact_ledger_immutable_witness:
  "\<exists>i d. is_valid_artifact_bytes any_format d i
     \<and> dict_get (lg_files (fold (run_call any_format)
          [Score_result i d new_snapshot 2 1, Void i d ''2026-06-13T12:00:00Z'' ''postponed'']
          (empty_ledger\<lparr>lg_files := [(i, d)]\<rparr>))) i = Some d"
proof -
  obtain i d v where "load_verified_artifact any_format i d = Inr v" using sample_sealed by blast
  then have v: "is_valid_artifact_bytes any_format d i" by (simp add: is_valid_artifact_bytes_def)
  have "dict_get (lg_files (empty_ledger\<lparr>lg_files := [(i, d)]\<rparr>)) i = Some d" by simp
  from artifact_ledger_immutable[OF this v] v show ?thesis by blast
qed

lemma scored_successor_faithful_witness:
  "\<exists>i d s l w c. score_forecast_result any_format i d new_snapshot 2 1 empty_ledger = (Inr s, l)
     \<and> canonical_json w = Some c \<and> dict_get (lg_files l) s = Some (dumps c @ [CHR 0x0A])
     \<and> jget w ''supersedes'' = JStr i
     \<and> jget (jget (jget w ''evaluation'') ''actual'') ''outcome'' = JStr ''home''"
proof -
  obtain i d s l where s: "score_forecast_result any_format i d new_snapshot 2 1 empty_ledger = (Inr s, l)"
    using sample_scored by blast
  from scored_successor_faithful[OF s snapshot_ok(4)] s show ?thesis by simp blast
qed

lemma scoring_always_completes_witness:
  "\<exists>i d s b l. score_forecast_result any_format i d new_snapshot 2 1 empty_ledger = (Inr s, l)
     \<and> dict_get (lg_files l) s = Some (b @ [CHR 0x0A])"
proof -
  obtain i d w where w: "load_verified_artifact any_format i d = Inr w" "jget w ''status'' = JStr ''sealed''"
      "jget (jget w ''forecast'') ''probs'' \<noteq> JNull"
      "latest_anchor (arr (jget (jget w ''inputs'') ''snapshots'')) = Some (DT 2026 6 9 12 0 0)"
    using sample_sealed by blast
  have "DT 2026 6 9 12 0 0 < DT 2026 6 13 12 0 0" by (simp add: less_dt_def dt_key_def)
  from scoring_always_completes[OF w snapshot_ok(6) this snapshot_ok(2,4) _ _ accepts_any_format, of 2 1 empty_ledger]
  obtain v b l where "score_forecast_result any_format i d new_snapshot 2 1 empty_ledger = (Inr (id_text v), l)"
      "dict_get (lg_files l) (id_text v) = Some (b @ [CHR 0x0A])"
    by (auto simp: empty_ledger_def)
  then show ?thesis by blast
qed


lemma sealed_file_verifies_witness:
  "\<exists>s l d w. seal_forecast any_format sample_env no_fit [old_snapshot] seal_frame sample_request empty_ledger = (Inr s, l)
     \<and> dict_get (lg_files l) s = Some d \<and> load_verified_artifact any_format s d = Inr w"
proof -
  obtain s l where s: "seal_forecast any_format sample_env no_fit [old_snapshot] seal_frame sample_request empty_ledger = (Inr s, l)"
    using sample_seal by blast
  have "list_all wf_json [old_snapshot]" by (simp add: snapshot_ok)
  from sealed_file_verifies[OF s this] s show ?thesis by blast
qed

end
