(* ===== verification/Ledger_Checkpoints.thy ===== *)
theory Ledger_Checkpoints
  imports Artifact_Safety
begin

text \<open>
  \<open>src/server/golavo_server/ledger_checkpoints.py\<close>: a hash chain of local checkpoints over the
  artifact files of a ledger.  A checkpoint records the SHA-256 of every artifact file and the
  digest of its predecessor; the head file names the newest one.

  The directory is a value: artifact bytes by stem, checkpoint records by digest and the head
  file, the last two as the JSON value their text reads back to (\<open>None\<close> for a text that is not
  JSON).  Which names are symbolic links is part of the state.  \<open>os.replace\<close> may fail; which
  write fails is an input of \<open>create\<close>.

  \<open>walk\<close> is the loop of \<open>_status_unlocked\<close>, a total function: it never follows a record twice.
\<close>

datatype cerror =
    Unsafe_path | Unhashable | Unreadable | Bad_schema | Hash_mismatch | Bad_predecessor
  | Bad_entry | Bad_entries | Bad_limits | Bad_count | Bad_predecessor_schema
  | Head_missing | Head_unreadable | Head_invalid | Cycle | Link_schema
  | Artifact_changed string | Not_verified aerror | Write_failed

record ledger_dir =
  ld_root_unsafe :: bool
  ld_links :: "string list"
  ld_artifacts :: "(string, string) dict"
  ld_head :: "json option option"
  ld_records :: "(string, json option) dict"

definition schema_current :: string where
  "schema_current = ''0.2.0''"

definition schema_legacy :: string where
  "schema_legacy = ''0.1.0''"

definition checkpoint_limits :: "string list" where
  "checkpoint_limits =
     [''The chain detects changes relative to earlier local checkpoints; it does not prove external authenticity.'',
      ''It cannot prove that an artifact was created before a particular real-world event.'',
      ''A checkpoint records the artifacts present at creation time and does not prevent explicit later removal.'',
      ''A verified forecast-ledger archive can preserve and recover the linked chain, but it cannot recover artifact bytes that were already absent when the archive was made.'',
      ''Optional external anchoring remains a separate release gate.'']"

definition digest :: "json \<Rightarrow> string" where
  "digest v = sha256_hex (dumps v)"

definition is_sha256_value :: "json \<Rightarrow> bool" where
  "is_sha256_value v = (case v of JStr s \<Rightarrow> length s = 64 \<and> list_all is_hex s | _ \<Rightarrow> False)"

definition canonical_artifact_id :: "json \<Rightarrow> bool" where
  "canonical_artifact_id v =
     (case v of JStr s \<Rightarrow> starts_with ''fa_'' s \<and> length s = 23 \<and> list_all is_hex (drop 3 s) | _ \<Rightarrow> False)"

section \<open>Paths\<close>

definition owned_checkpoint_path :: "ledger_dir \<Rightarrow> string \<Rightarrow> cerror + unit" where
  "owned_checkpoint_path d name = guardE (\<not> ld_root_unsafe d \<and> ''checkpoints/'' @ name \<notin> set (ld_links d)) Unsafe_path"

definition record_name :: "string \<Rightarrow> string" where
  "record_name c = ''lc_'' @ c @ ''.json''"

definition artifact_name :: "string \<Rightarrow> string" where
  "artifact_name i = i @ ''.json''"

definition checked_artifact_path :: "ledger_dir \<Rightarrow> json \<Rightarrow> cerror + string" where
  "checked_artifact_path d v =
     (if \<not> canonical_artifact_id v then Inl Bad_entry
      else if artifact_name (py_text v) \<in> set (ld_links d) then Inl Unsafe_path else Inr (py_text v))"

definition validate_paths :: "ledger_dir \<Rightarrow> cerror + unit" where
  "validate_paths d =
     bindE (owned_checkpoint_path d ''head.json'') (\<lambda>_.
     bindE (mapE (\<lambda>c. owned_checkpoint_path d (record_name c)) (dict_keys (ld_records d))) (\<lambda>_. Inr ()))"

section \<open>One record\<close>

text \<open>\<open>x in frozenset\<close> raises for a list or a dict.\<close>

definition hashable :: "json \<Rightarrow> bool" where
  "hashable v = (case v of JArr _ \<Rightarrow> False | JObj _ \<Rightarrow> False | _ \<Rightarrow> True)"

definition supported_schema :: "json \<Rightarrow> cerror + bool" where
  "supported_schema v =
     bindE (guardE (hashable v) Unhashable) (\<lambda>_. Inr (v = JStr schema_current \<or> v = JStr schema_legacy))"

fun check_entries :: "ledger_dir \<Rightarrow> json list \<Rightarrow> json list \<Rightarrow> cerror + unit" where
  "check_entries d [] seen = Inr ()"
| "check_entries d (e # es) seen =
     bindE (guardE (is_obj e) Bad_entry) (\<lambda>_.
     bindE (guardE (hashable (jget e ''artifact_id'')) Unhashable) (\<lambda>_.
     bindE (guardE (jget e ''artifact_id'' \<notin> set seen \<and> is_sha256_value (jget e ''sha256'')) Bad_entry) (\<lambda>_.
     bindE (checked_artifact_path d (jget e ''artifact_id'')) (\<lambda>_.
       check_entries d es (jget e ''artifact_id'' # seen)))))"

definition is_text :: "json \<Rightarrow> bool" where
  "is_text v = (case v of JStr _ \<Rightarrow> True | _ \<Rightarrow> False)"

definition check_current_schema :: "json \<Rightarrow> json list \<Rightarrow> cerror + unit" where
  "check_current_schema v entries =
     (let previous = jget v ''previous_checkpoint_sha256''; previous_schema = jget v ''previous_schema_version'' in
      bindE (guardE (jget v ''artifact_count'' = JInt (int (length entries))) Bad_count) (\<lambda>_.
        if previous = JNull then guardE (previous_schema = JNull) Bad_predecessor_schema
        else bindE (supported_schema previous_schema) (\<lambda>ok. guardE ok Bad_predecessor_schema)))"

definition checked_value :: "ledger_dir \<Rightarrow> string \<Rightarrow> json \<Rightarrow> cerror + json" where
  "checked_value d expected v =
     bindE (guardE (is_obj v) Bad_schema) (\<lambda>_.
     bindE (supported_schema (jget v ''schema_version'')) (\<lambda>ok.
     bindE (guardE ok Bad_schema) (\<lambda>_.
     bindE (guardE (jget v ''checkpoint_sha256'' = JStr expected
                    \<and> digest (json_pop ''checkpoint_sha256'' v) = expected) Hash_mismatch) (\<lambda>_.
     bindE (guardE (jget v ''previous_checkpoint_sha256'' = JNull
                    \<or> is_sha256_value (jget v ''previous_checkpoint_sha256'')) Bad_predecessor) (\<lambda>_.
       (case jget v ''artifacts'' of
          JArr entries \<Rightarrow>
            bindE (check_entries d entries []) (\<lambda>_.
            bindE (case jget v ''limits'' of JArr ls \<Rightarrow> guardE (list_all is_text ls) Bad_limits | _ \<Rightarrow> Inl Bad_limits) (\<lambda>_.
            bindE (if jget v ''schema_version'' = JStr schema_current then check_current_schema v entries else Inr ()) (\<lambda>_.
              Inr v)))
        | _ \<Rightarrow> Inl Bad_entries))))))"

definition checkpoint :: "ledger_dir \<Rightarrow> string \<Rightarrow> cerror + json" where
  "checkpoint d expected =
     bindE (owned_checkpoint_path d (record_name expected)) (\<lambda>_.
       (case dict_get (ld_records d) expected of
          Some (Some v) \<Rightarrow> checked_value d expected v
        | _ \<Rightarrow> Inl Unreadable))"

section \<open>The chain\<close>

definition predecessor :: "json \<Rightarrow> string option" where
  "predecessor v = (case jget v ''previous_checkpoint_sha256'' of JStr s \<Rightarrow> Some s | _ \<Rightarrow> None)"

definition expected_schema :: "json \<Rightarrow> json" where
  "expected_schema v =
     (if jget v ''schema_version'' = JStr schema_current \<and> jget v ''previous_checkpoint_sha256'' \<noteq> JNull
      then jget v ''previous_schema_version'' else JNull)"

definition entries_of :: "json \<Rightarrow> json list" where
  "entries_of v = arr (jget v ''artifacts'')"

text \<open>Every recorded artifact that is still there has its recorded bytes.\<close>

fun check_files :: "ledger_dir \<Rightarrow> json list \<Rightarrow> cerror + unit" where
  "check_files d [] = Inr ()"
| "check_files d (e # es) =
     bindE (checked_artifact_path d (jget e ''artifact_id'')) (\<lambda>i.
       (case dict_get (ld_artifacts d) i of
          None \<Rightarrow> check_files d es
        | Some data \<Rightarrow>
            bindE (guardE (JStr (sha256_hex data) = jget e ''sha256'') (Artifact_changed i)) (\<lambda>_. check_files d es)))"

definition unseen :: "ledger_dir \<Rightarrow> string list \<Rightarrow> nat" where
  "unseen d seen = length (filter (\<lambda>c. c \<notin> set seen) (dict_keys (ld_records d)))"

lemma checkpoint_file: "checkpoint d c = Inr v \<Longrightarrow> c \<in> set (dict_keys (ld_records d))"
  by (auto simp: checkpoint_def bindE_Inr split: option.splits) (force dest: map_of_SomeD)

lemma unseen_less:
  assumes "checkpoint d c = Inr v" "c \<notin> set seen"
  shows "unseen d (c # seen) < unseen d seen"
proof -
  have less: "length (filter (\<lambda>k. k \<noteq> c \<and> k \<notin> set seen) ks) < length (filter (\<lambda>k. k \<notin> set seen) ks)" if "c \<in> set ks" for ks
    using that assms(2)
  proof (induction ks)
    case (Cons k ks)
    have "length (filter (\<lambda>k. k \<noteq> c \<and> k \<notin> set seen) ks) \<le> length (filter (\<lambda>k. k \<notin> set seen) ks)"
      by (induction ks) auto
    then show ?case using Cons by (cases "c = k") auto
  qed simp
  show ?thesis using less[OF checkpoint_file[OF assms(1)]] by (simp add: unseen_def)
qed

function walk :: "ledger_dir \<Rightarrow> string option \<Rightarrow> json \<Rightarrow> string list \<Rightarrow> cerror + (string \<times> json) list" where
  "walk d None expected seen = Inr []"
| "walk d (Some c) expected seen =
     (if c \<in> set seen then Inl Cycle
      else case checkpoint d c of
        Inl e \<Rightarrow> Inl e
      | Inr v \<Rightarrow>
          if expected \<noteq> JNull \<and> jget v ''schema_version'' \<noteq> expected then Inl Link_schema
          else case check_files d (entries_of v) of
            Inl e \<Rightarrow> Inl e
          | Inr _ \<Rightarrow>
              (case walk d (predecessor v) (expected_schema v) (c # seen) of
                 Inl e \<Rightarrow> Inl e | Inr rest \<Rightarrow> Inr ((c, v) # rest)))"
  by pat_completeness auto

termination walk
proof (relation "measure (\<lambda>(d, c, _, seen). unseen d seen + (if c = None then 0 else 1))")
qed (auto dest: unseen_less)


section \<open>Status\<close>

record chain_status =
  cs_count :: nat
  cs_head :: "string option"
  cs_head_schema :: json
  cs_schema_versions :: "string list"
  cs_legacy :: nat
  cs_migration :: bool
  cs_missing :: "string list"
  cs_uncheckpointed :: "string list"

definition entry_ids :: "json \<Rightarrow> string list" where
  "entry_ids v = map (\<lambda>e. py_text (jget e ''artifact_id'')) (entries_of v)"

definition read_head :: "ledger_dir \<Rightarrow> cerror + (string \<times> json) option" where
  "read_head d =
     bindE (owned_checkpoint_path d ''head.json'') (\<lambda>_.
       (case ld_head d of
          None \<Rightarrow> if ld_records d = [] then Inr None else Inl Head_missing
        | Some None \<Rightarrow> Inl Head_unreadable
        | Some (Some h) \<Rightarrow>
            bindE (guardE (is_obj h) Head_invalid) (\<lambda>_.
            bindE (supported_schema (jget h ''schema_version'')) (\<lambda>ok.
            bindE (guardE (ok \<and> is_sha256_value (jget h ''checkpoint_sha256'')) Head_invalid) (\<lambda>_.
              Inr (Some (py_text (jget h ''checkpoint_sha256''), jget h ''schema_version'')))))))"

definition artifact_ids :: "ledger_dir \<Rightarrow> string list" where
  "artifact_ids d = sort (dict_keys (ld_artifacts d))"

definition summarise :: "ledger_dir \<Rightarrow> string \<Rightarrow> json \<Rightarrow> (string \<times> json) list \<Rightarrow> chain_status" where
  "summarise d head schema ch =
     (let versions = map (\<lambda>(c, v). py_text (jget v ''schema_version'')) ch;
          recorded = concat (map (\<lambda>(c, v). entry_ids v) ch);
          newest = (case ch of [] \<Rightarrow> [] | (c, v) # _ \<Rightarrow> entry_ids v) in
      \<lparr> cs_count = length ch, cs_head = Some head, cs_head_schema = schema,
        cs_schema_versions = sort (remdups versions),
        cs_legacy = length (filter (\<lambda>s. s \<noteq> schema_current) versions),
        cs_migration = (schema \<noteq> JStr schema_current),
        cs_missing = sort (remdups (filter (\<lambda>i. dict_get (ld_artifacts d) i = None) recorded)),
        cs_uncheckpointed = filter (\<lambda>i. i \<notin> set newest) (artifact_ids d) \<rparr>)"

definition chain_status_of :: "ledger_dir \<Rightarrow> cerror + chain_status" where
  "chain_status_of d =
     bindE (read_head d) (\<lambda>h.
       (case h of
          None \<Rightarrow> Inr \<lparr> cs_count = 0, cs_head = None, cs_head_schema = JNull, cs_schema_versions = [], cs_legacy = 0,
                        cs_migration = False, cs_missing = [], cs_uncheckpointed = artifact_ids d \<rparr>
        | Some (head, schema) \<Rightarrow>
            bindE (walk d (Some head) schema []) (\<lambda>ch. Inr (summarise d head schema ch))))"

section \<open>Creating a checkpoint\<close>

text \<open>Which of the two writes fails, if any.\<close>

datatype fault = No_fault | Record_fails | Head_fails

definition entry_json :: "string \<Rightarrow> string \<Rightarrow> json" where
  "entry_json i data = JObj [(''artifact_id'', JStr i), (''sha256'', JStr (sha256_hex data))]"

definition checkpoint_entry :: "(string \<Rightarrow> string \<Rightarrow> bool) \<Rightarrow> ledger_dir \<Rightarrow> string \<Rightarrow> cerror + json" where
  "checkpoint_entry fmt d i =
     bindE (guardE (artifact_name i \<notin> set (ld_links d)) Unsafe_path) (\<lambda>_.
       (case dict_get (ld_artifacts d) i of
          None \<Rightarrow> Inl Unreadable
        | Some data \<Rightarrow>
            (case load_verified_artifact fmt i data of
               Inl e \<Rightarrow> Inl (Not_verified e)
             | Inr v \<Rightarrow> Inr (entry_json (py_text (jget v ''artifact_id'')) data))))"

definition checkpoint_body :: "string \<Rightarrow> chain_status \<Rightarrow> json list \<Rightarrow> json" where
  "checkpoint_body now st entries = JObj
     [(''schema_version'', JStr schema_current), (''created_at_utc'', JStr now),
      (''previous_checkpoint_sha256'', jtext (cs_head st)),
      (''previous_schema_version'', cs_head_schema st),
      (''artifact_count'', JInt (int (length entries))), (''artifacts'', JArr entries),
      (''limits'', JArr (map JStr checkpoint_limits))]"

definition head_json :: "string \<Rightarrow> json" where
  "head_json c = JObj [(''schema_version'', JStr schema_current), (''checkpoint_sha256'', JStr c)]"

text \<open>\<open>json.dumps(value, sort_keys=True)\<close> reads back as the value with its keys sorted.\<close>

definition write_record :: "string \<Rightarrow> json \<Rightarrow> ledger_dir \<Rightarrow> ledger_dir" where
  "write_record c v d = d\<lparr>ld_records := dict_set c (Some (normalise v)) (ld_records d)\<rparr>"

definition write_head :: "string \<Rightarrow> ledger_dir \<Rightarrow> ledger_dir" where
  "write_head c d = d\<lparr>ld_head := Some (Some (normalise (head_json c)))\<rparr>"

definition create_checkpoint ::
  "(string \<Rightarrow> string \<Rightarrow> bool) \<Rightarrow> fault \<Rightarrow> string \<Rightarrow> ledger_dir \<Rightarrow> (cerror + json) \<times> ledger_dir" where
  "create_checkpoint fmt flt now d =
     (case chain_status_of d of
        Inl e \<Rightarrow> (Inl e, d)
      | Inr st \<Rightarrow>
          (case mapE (checkpoint_entry fmt d) (artifact_ids d) of
             Inl e \<Rightarrow> (Inl e, d)
           | Inr entries \<Rightarrow>
               let body = checkpoint_body now st entries; c = digest body;
                   value = json_set ''checkpoint_sha256'' (JStr c) body;
                   created = (dict_get (ld_records d) c = None) in
               (case owned_checkpoint_path d (record_name c) of
                  Inl e \<Rightarrow> (Inl e, d)
                | Inr _ \<Rightarrow>
                    if flt = Record_fails then (Inl Write_failed, d)
                    else let d' = write_record c value d in
                      if flt = Head_fails
                      then (Inl Write_failed, if created then d'\<lparr>ld_records := dict_pop c (ld_records d')\<rparr> else d')
                      else (Inr value, write_head c d'))))"

section \<open>Recovery\<close>

text \<open>The second walk has no cycle check of its own: it may in principle not return.\<close>

partial_function (option) recover :: "ledger_dir \<Rightarrow> string option \<Rightarrow> (cerror + string list) option" where
  "recover d c =
     (case c of
        None \<Rightarrow> Some (Inr [])
      | Some k \<Rightarrow>
          (case checkpoint d k of
             Inl e \<Rightarrow> Some (Inl e)
           | Inr v \<Rightarrow>
               Option.bind (recover d (predecessor v)) (\<lambda>r.
                 Some (case r of Inl e \<Rightarrow> Inl e | Inr rest \<Rightarrow> Inr (record_name k # rest)))))"

definition recovery_files :: "ledger_dir \<Rightarrow> (cerror + string list) option" where
  "recovery_files d =
     (case chain_status_of d of
        Inl e \<Rightarrow> Some (Inl e)
      | Inr st \<Rightarrow>
          (case cs_head st of
             None \<Rightarrow> Some (Inr [])
           | Some c \<Rightarrow>
               (case owned_checkpoint_path d ''head.json'' of
                  Inl e \<Rightarrow> Some (Inl e)
                | Inr _ \<Rightarrow>
                    (case recover d (Some c) of
                       None \<Rightarrow> None
                     | Some (Inl e) \<Rightarrow> Some (Inl e)
                     | Some (Inr fs) \<Rightarrow> Some (Inr (''head.json'' # fs))))))"


section \<open>The walk\<close>

lemma walk_Some:
  assumes "walk d (Some c) ex seen = Inr ch"
  shows "\<exists>v rest. ch = (c, v) # rest \<and> c \<notin> set seen \<and> checkpoint d c = Inr v
       \<and> (ex = JNull \<or> jget v ''schema_version'' = ex) \<and> check_files d (entries_of v) = Inr ()
       \<and> walk d (predecessor v) (expected_schema v) (c # seen) = Inr rest"
  using assms by (auto split: if_splits sum.splits)

lemma walk_step:
  "c \<notin> set seen \<Longrightarrow> checkpoint d c = Inr v \<Longrightarrow> ex = JNull \<or> jget v ''schema_version'' = ex \<Longrightarrow>
   check_files d (entries_of v) = Inr () \<Longrightarrow> walk d (predecessor v) (expected_schema v) (c # seen) = Inr rest \<Longrightarrow>
   walk d (Some c) ex seen = Inr ((c, v) # rest)"
  by auto

declare walk.simps(2) [simp del]

lemma walk_induct [consumes 1, case_names Done Step]:
  assumes "walk d c ex seen = Inr ch"
    and "\<And>ex seen. P None ex seen []"
    and "\<And>c ex seen v rest. c \<notin> set seen \<Longrightarrow> checkpoint d c = Inr v \<Longrightarrow> ex = JNull \<or> jget v ''schema_version'' = ex \<Longrightarrow>
           check_files d (entries_of v) = Inr () \<Longrightarrow> walk d (predecessor v) (expected_schema v) (c # seen) = Inr rest \<Longrightarrow>
           P (predecessor v) (expected_schema v) (c # seen) rest \<Longrightarrow> P (Some c) ex seen ((c, v) # rest)"
  shows "P c ex seen ch"
  using assms(1)
proof (induction ch arbitrary: c ex seen)
  case Nil
  then show ?case using assms(2) walk_Some by (cases c) fastforce+
next
  case (Cons x rest)
  then obtain k where k: "c = Some k" by (cases c) auto
  obtain v where w: "x = (k, v)" "k \<notin> set seen" "checkpoint d k = Inr v"
      "ex = JNull \<or> jget v ''schema_version'' = ex" "check_files d (entries_of v) = Inr ()"
      "walk d (predecessor v) (expected_schema v) (k # seen) = Inr rest"
    using walk_Some[OF Cons.prems[unfolded k]] by blast
  show ?case unfolding k w(1) by (rule assms(3)[OF w(2-6) Cons.IH[OF w(6)]])
qed

text \<open>Every record is visited at most once, and none before it is visited again.\<close>

lemma walk_distinct:
  "walk d c ex seen = Inr ch \<Longrightarrow> distinct (map fst ch) \<and> set (map fst ch) \<inter> set seen = {}
     \<and> set (map fst ch) \<subseteq> set (dict_keys (ld_records d))"
proof (induction rule: walk_induct)
  case (Step c ex seen v rest)
  then show ?case using checkpoint_file[of d c v] by auto
qed simp

text \<open>No visited record has a predecessor that was already visited.\<close>

lemma walk_fresh:
  "walk d c ex seen = Inr ch \<Longrightarrow> \<forall>(k, v) \<in> set ch. checkpoint d k = Inr v \<and> (\<forall>p. predecessor v = Some p \<longrightarrow> p \<notin> set seen)"
proof (induction rule: walk_induct)
  case (Step c ex seen v rest)
  have "p \<notin> set seen" if "predecessor v = Some p" for p
    using Step.hyps(5) walk_Some[of d p "expected_schema v" "c # seen" rest] that by auto
  then show ?case using Step by auto
qed simp

text \<open>Adding a record the walk does not meet changes nothing, nor does a wider set of seen ones.\<close>

lemma checkpoint_links:
  "checkpoint (d\<lparr>ld_records := r, ld_head := h\<rparr>) c =
     bindE (owned_checkpoint_path d (record_name c)) (\<lambda>_.
       (case dict_get r c of Some (Some v) \<Rightarrow> checked_value d c v | _ \<Rightarrow> Inl Unreadable))"
proof -
  have p: "checked_artifact_path (d\<lparr>ld_records := r, ld_head := h\<rparr>) = checked_artifact_path d"
    by (simp add: checked_artifact_path_def fun_eq_iff)
  have e: "check_entries (d\<lparr>ld_records := r, ld_head := h\<rparr>) es seen = check_entries d es seen" for es seen
    by (induction es arbitrary: seen) (simp_all add: p)
  have v: "checked_value (d\<lparr>ld_records := r, ld_head := h\<rparr>) = checked_value d"
    unfolding checked_value_def e ..
  show ?thesis
    unfolding checkpoint_def v owned_checkpoint_path_def by simp
qed

lemma check_files_links:
  "check_files (d\<lparr>ld_records := r, ld_head := h\<rparr>) es = check_files d es"
proof (induction es)
  case (Cons e es)
  have p: "checked_artifact_path (d\<lparr>ld_records := r, ld_head := h\<rparr>) = checked_artifact_path d"
    by (simp add: checked_artifact_path_def fun_eq_iff)
  show ?case unfolding check_files.simps p Cons by simp
qed simp

lemma walk_extend:
  assumes "walk d c ex seen = Inr ch" "k \<notin> set (map fst ch)" "set seen' = insert k (set seen)"
  shows "walk (d\<lparr>ld_records := dict_set k x (ld_records d), ld_head := h\<rparr>) c ex seen' = Inr ch"
  using assms
proof (induction arbitrary: seen' rule: walk_induct)
  case (Step c ex seen v rest)
  have ne: "c \<noteq> k" using Step.prems by auto
  have "checkpoint (d\<lparr>ld_records := dict_set k x (ld_records d), ld_head := h\<rparr>) c = Inr v"
    using Step.hyps(2) ne by (simp add: checkpoint_links dict_get_set) (simp add: checkpoint_def)
  moreover have "set (c # seen') = insert k (set (c # seen))" using Step.prems by auto
  ultimately show ?case
    using Step ne by (intro walk_step) (auto simp: check_files_links)
qed simp

end
