(* ===== verification/Checkpoint_Chain.thy ===== *)
theory Checkpoint_Chain
  imports Ledger_Checkpoints Artifact_Samples
begin

text \<open>
  What the checkpoint chain guarantees: a created checkpoint extends a chain that verifies
  (\<open>create_extends_chain\<close>), a failed one leaves the old chain (\<open>failed_create_harmless\<close>), a head
  pins the whole history and the recorded bytes (\<open>head_pins_history\<close>), and the second, unguarded
  walk of \<open>recovery_files\<close> returns (\<open>recovery_returns\<close>).
\<close>

text \<open>Directory entries have distinct names and a parsed text is a well-formed value.\<close>

definition wf_dir :: "ledger_dir \<Rightarrow> bool" where
  "wf_dir d \<longleftrightarrow> dict_ok (ld_artifacts d) \<and> dict_ok (ld_records d)
     \<and> (\<forall>c v. dict_get (ld_records d) c = Some (Some v) \<longrightarrow> wf_json v)"

abbreviation body_text :: "json \<Rightarrow> string" where
  "body_text v \<equiv> dumps (json_pop ''checkpoint_sha256'' v)"

lemma checkpoint_Inr:
  assumes "checkpoint d c = Inr v"
  shows "dict_get (ld_records d) c = Some (Some v) \<and> is_obj v \<and> jget v ''checkpoint_sha256'' = JStr c
       \<and> sha256_hex (body_text v) = c \<and> (\<exists>es. jget v ''artifacts'' = JArr es)"
  using assms by (auto simp: checkpoint_def checked_value_def bindE_Inr digest_def split: option.splits json.splits)

lemma same_record:
  assumes "checkpoint d c = Inr v" "checkpoint e c = Inr w" "wf_dir d" "wf_dir e"
  shows "collision (body_text v) (body_text w) \<or> jeq v w"
proof -
  note v = checkpoint_Inr[OF assms(1)] and w = checkpoint_Inr[OF assms(2)]
  have wf: "wf_json v" "wf_json w" using v w assms(3,4) by (auto simp: wf_dir_def)
  have "sha256_hex (body_text v) = sha256_hex (body_text w)" using v w by simp
  then consider "collision (body_text v) (body_text w)" | "body_text v = body_text w" by (auto simp: sha256_eq)
  then show ?thesis
  proof cases
    case 2
    then have p: "jeq (json_pop ''checkpoint_sha256'' v) (json_pop ''checkpoint_sha256'' w)"
      using dumps_inj[OF _ _ 2] wf by (simp add: jeq_def)
    have whole: "jeq (json_set ''checkpoint_sha256'' (JStr c) (json_pop ''checkpoint_sha256'' u)) u"
      if "wf_json u" "is_obj u" "jget u ''checkpoint_sha256'' = JStr c" for u
      using that jget_present[of u "''checkpoint_sha256''"]
      by (intro jeqI) (auto simp: dict_get_json_set dict_get_json_pop)
    have "jeq (json_set ''checkpoint_sha256'' (JStr c) (json_pop ''checkpoint_sha256'' v))
              (json_set ''checkpoint_sha256'' (JStr c) (json_pop ''checkpoint_sha256'' w))"
      using p by (rule jeq_set) (simp add: jeq_refl)
    then show ?thesis using whole[of v] whole[of w] v w wf by (meson jeq_sym jeq_trans)
  qed simp
qed

lemma predecessor_jeq: "jeq v w \<Longrightarrow> predecessor v = predecessor w"
proof -
  have "(case a of JStr s \<Rightarrow> Some s | _ \<Rightarrow> None) = (case b of JStr s \<Rightarrow> Some s | _ \<Rightarrow> None)" if "jeq a b" for a b
    using that by (cases a; cases b) (simp_all add: jeq_def)
  then show "jeq v w \<Longrightarrow> predecessor v = predecessor w"
    unfolding predecessor_def using jeq_jget by blast
qed

section \<open>The head pins the history\<close>

text \<open>
  What two verified directories say of one recorded artifact: each either still has the file or lists
  it as missing, and where both have it they have the same bytes (or two texts with one digest).
\<close>

definition same_bytes :: "ledger_dir \<Rightarrow> ledger_dir \<Rightarrow> string \<Rightarrow> bool" where
  "same_bytes d e i \<longleftrightarrow>
     (case (dict_get (ld_artifacts d) i, dict_get (ld_artifacts e) i) of
        (Some a, Some b) \<Rightarrow> a = b \<or> collision a b | _ \<Rightarrow> True)"

definition agree_on :: "ledger_dir \<Rightarrow> chain_status \<Rightarrow> ledger_dir \<Rightarrow> chain_status \<Rightarrow> string \<Rightarrow> bool" where
  "agree_on d st e st' i \<longleftrightarrow>
     (case (dict_get (ld_artifacts d) i, dict_get (ld_artifacts e) i) of
        (Some a, Some b) \<Rightarrow> i \<notin> set (cs_missing st) \<and> i \<notin> set (cs_missing st') \<and> (a = b \<or> collision a b)
      | (Some _, None) \<Rightarrow> i \<notin> set (cs_missing st) \<and> i \<in> set (cs_missing st')
      | (None, Some _) \<Rightarrow> i \<in> set (cs_missing st) \<and> i \<notin> set (cs_missing st')
      | (None, None) \<Rightarrow> i \<in> set (cs_missing st) \<and> i \<in> set (cs_missing st'))"

lemma check_files_Inr:
  assumes "check_files d es = Inr ()" "x \<in> set es"
  shows "\<exists>i. jget x ''artifact_id'' = JStr i
       \<and> (\<forall>data. dict_get (ld_artifacts d) i = Some data \<longrightarrow> jget x ''sha256'' = JStr (sha256_hex data))"
  using assms
proof (induction es)
  case (Cons e es)
  obtain i where i: "jget e ''artifact_id'' = JStr i"
      "(case dict_get (ld_artifacts d) i of None \<Rightarrow> check_files d es
        | Some data \<Rightarrow> bindE (guardE (JStr (sha256_hex data) = jget e ''sha256'') (Artifact_changed i)) (\<lambda>_. check_files d es)) = Inr ()"
    using Cons.prems(1)
    by (cases "jget e ''artifact_id''") (auto simp: bindE_Inr checked_artifact_path_def canonical_artifact_id_def py_text_def split: if_splits)
  show ?case
  proof (cases "dict_get (ld_artifacts d) i")
    case None
    then show ?thesis using i Cons by auto
  next
    case (Some data)
    then have "JStr (sha256_hex data) = jget e ''sha256''" "check_files d es = Inr ()" using i(2) by (simp_all add: bindE_Inr)
    then show ?thesis using i(1) Some Cons by auto
  qed
qed simp

lemma same_entries:
  assumes "check_files d (entries_of v) = Inr ()" "check_files e (entries_of w) = Inr ()" "jeq v w" "i \<in> set (entry_ids v)"
  shows "same_bytes d e i \<and> i \<in> set (entry_ids w)"
proof -
  obtain x where x: "x \<in> set (entries_of v)" "i = py_text (jget x ''artifact_id'')"
    using assms(4) by (auto simp: entry_ids_def)
  obtain n where n: "n < length (entries_of v)" "x = entries_of v ! n" using x(1) by (metis in_set_conv_nth)
  have all: "list_all2 jeq (entries_of v) (entries_of w)"
    unfolding entries_of_def using assms(3) by (intro arr_jeq jeq_jget)
  define y where "y = entries_of w ! n"
  have y: "y \<in> set (entries_of w)" "jeq x y"
    using n list_all2_nthD[OF all n(1)] list_all2_lengthD[OF all] by (simp_all add: y_def)
  obtain j where j: "jget x ''artifact_id'' = JStr j"
      "\<forall>data. dict_get (ld_artifacts d) j = Some data \<longrightarrow> jget x ''sha256'' = JStr (sha256_hex data)"
    using check_files_Inr[OF assms(1) x(1)] by blast
  obtain k where k: "jget y ''artifact_id'' = JStr k"
      "\<forall>data. dict_get (ld_artifacts e) k = Some data \<longrightarrow> jget y ''sha256'' = JStr (sha256_hex data)"
    using check_files_Inr[OF assms(2) y(1)] by blast
  have kj: "k = j" using jeq_str[OF jeq_jget[OF y(2), of "''artifact_id''"], of j] j(1) k(1) by simp
  then have "i = py_text (jget y ''artifact_id'')" using x(2) j(1) k(1) by simp
  then have "i \<in> set (entry_ids w)" using y(1) by (auto simp: entry_ids_def)
  moreover have "i = j" using x(2) j(1) by (simp add: py_text_def)
  moreover have "a = b \<or> collision a b"
    if "dict_get (ld_artifacts d) j = Some a" "dict_get (ld_artifacts e) j = Some b" for a b
  proof -
    have "jget x ''sha256'' = JStr (sha256_hex a)" using j(2) that(1) by blast
    moreover have "jget y ''sha256'' = JStr (sha256_hex b)" using k(2) that(2) kj by blast
    ultimately have "sha256_hex a = sha256_hex b"
      using jeq_str[OF jeq_jget[OF y(2), of "''sha256''"], of "sha256_hex a"] by simp
    then show ?thesis unfolding sha256_eq .
  qed
  ultimately show ?thesis by (simp add: same_bytes_def split: option.split)
qed

text \<open>The two walks from one head meet the same records, entry by entry.\<close>

lemma same_chain:
  assumes "walk d (Some c) s [] = Inr ch" "walk e (Some c) t [] = Inr ch'" "wf_dir d" "wf_dir e"
  shows "(\<exists>((k, v), (l, w)) \<in> set (zip ch ch'). collision (body_text v) (body_text w))
       \<or> list_all2 (\<lambda>(k, v) (l, w). k = l \<and> normalise v = normalise w
            \<and> (\<forall>i \<in> set (entry_ids v). same_bytes d e i \<and> i \<in> set (entry_ids w))) ch ch'"
proof -
  have "(\<exists>((k, v), (l, w)) \<in> set (zip ch ch'). collision (body_text v) (body_text w))
       \<or> list_all2 (\<lambda>(k, v) (l, w). k = l \<and> normalise v = normalise w
            \<and> (\<forall>i \<in> set (entry_ids v). same_bytes d e i \<and> i \<in> set (entry_ids w))) ch ch'"
    if "walk d k s seen = Inr ch" "walk e k t seen' = Inr ch'" for k s seen t seen'
    using that
  proof (induction arbitrary: t seen' ch' rule: walk_induct)
    case (Step k s seen v rest)
    obtain w rest' where w: "ch' = (k, w) # rest'" "checkpoint e k = Inr w" "check_files e (entries_of w) = Inr ()"
        "walk e (predecessor w) (expected_schema w) (k # seen') = Inr rest'"
      using walk_Some[OF Step.prems] by blast
    consider "collision (body_text v) (body_text w)" | "jeq v w"
      using same_record[OF Step.hyps(2) w(2) assms(3,4)] by blast
    then show ?case
    proof cases
      case 2
      then have "\<forall>i \<in> set (entry_ids v). same_bytes d e i \<and> i \<in> set (entry_ids w)"
        using same_entries[OF Step.hyps(4) w(3)] by blast
      moreover have "normalise v = normalise w" using 2 by (simp add: jeq_def)
      moreover have "walk e (predecessor v) (expected_schema w) (k # seen') = Inr rest'"
        using w(4) predecessor_jeq[OF 2] by simp
      from Step.IH[OF this] show ?thesis using calculation w(1) by auto
    qed (use w(1) in auto)
  qed simp
  then show ?thesis using assms(1,2) by blast
qed

text \<open>What a verified status says of the head it found.\<close>

lemma status_Inr:
  assumes "chain_status_of d = Inr st"
  shows "owned_checkpoint_path d ''head.json'' = Inr () \<and>
     (cs_head st = None \<and> cs_head_schema st = JNull \<and> cs_count st = 0 \<and> cs_missing st = [] \<and> ld_records d = []
      \<or> (\<exists>c ch. cs_head st = Some c \<and> is_sha256_value (JStr c)
           \<and> (cs_head_schema st = JStr schema_current \<or> cs_head_schema st = JStr schema_legacy)
           \<and> walk d (Some c) (cs_head_schema st) [] = Inr ch \<and> st = summarise d c (cs_head_schema st) ch))"
proof -
  obtain h where h: "read_head d = Inr h" using assms by (auto simp: chain_status_of_def bindE_Inr)
  then have o: "owned_checkpoint_path d ''head.json'' = Inr ()" by (auto simp: read_head_def bindE_Inr)
  show ?thesis
  proof (cases h)
    case None
    then have "ld_records d = []"
      using h by (auto simp: read_head_def bindE_Inr split: option.splits if_splits)
    then show ?thesis using assms h None o by (auto simp: chain_status_of_def)
  next
    case (Some p)
    obtain c s where p: "p = (c, s)" by (cases p)
    have "is_sha256_value (JStr c) \<and> (s = JStr schema_current \<or> s = JStr schema_legacy)"
      using h Some p by (auto simp: read_head_def bindE_Inr supported_schema_def is_sha256_value_def py_text_def
          split: option.splits if_splits json.splits)
    then show ?thesis using assms h Some p o by (auto simp: chain_status_of_def bindE_Inr summarise_def Let_def)
  qed
qed

lemma list_all2_member: "list_all2 P xs ys \<Longrightarrow> x \<in> set xs \<Longrightarrow> \<exists>y \<in> set ys. P x y"
  by (induction rule: list_all2_induct) auto

lemma missing_iff:
  "i \<in> set (cs_missing (summarise d c s ch)) \<longleftrightarrow>
     (\<exists>(k, v) \<in> set ch. i \<in> set (entry_ids v)) \<and> dict_get (ld_artifacts d) i = None"
  by (auto simp: summarise_def Let_def)

lemma status_walk:
  assumes "chain_status_of d = Inr st" "cs_head st = Some c"
  shows "\<exists>ch. walk d (Some c) (cs_head_schema st) [] = Inr ch \<and> st = summarise d c (cs_head_schema st) ch"
  using status_Inr[OF assms(1)] assms(2) by auto

text \<open>
  C26: a head pins the whole history.  Two directories that verify and name the same head hold the
  same chain of records, and agree on every artifact any of these records ever named: the status of
  a directory lists the artifact as missing exactly when its file is gone, and where both have the
  file they have the same bytes.  The only escape is a SHA-256 collision between the two texts of
  one record or between the two files of one artifact.
\<close>

theorem head_pins_history:
  assumes "chain_status_of d = Inr st" "chain_status_of e = Inr st'" "cs_head st = Some c" "cs_head st' = Some c"
    and "wf_dir d" "wf_dir e"
  shows "\<exists>ch ch'. walk d (Some c) (cs_head_schema st) [] = Inr ch \<and> walk e (Some c) (cs_head_schema st') [] = Inr ch'
       \<and> ((\<exists>((k, v), (l, w)) \<in> set (zip ch ch'). collision (body_text v) (body_text w))
          \<or> (list_all2 (\<lambda>(k, v) (l, w). k = l \<and> normalise v = normalise w) ch ch'
             \<and> list_all (\<lambda>(k, v). list_all (agree_on d st e st') (entry_ids v)) ch))"
proof -
  obtain ch ch' where w: "walk d (Some c) (cs_head_schema st) [] = Inr ch" "st = summarise d c (cs_head_schema st) ch"
      "walk e (Some c) (cs_head_schema st') [] = Inr ch'" "st' = summarise e c (cs_head_schema st') ch'"
    using status_walk[OF assms(1,3)] status_walk[OF assms(2,4)] by blast
  have missing: "i \<in> set (cs_missing st) \<longleftrightarrow> (\<exists>(k, v) \<in> set ch. i \<in> set (entry_ids v)) \<and> dict_get (ld_artifacts d) i = None"
      "i \<in> set (cs_missing st') \<longleftrightarrow> (\<exists>(k, v) \<in> set ch'. i \<in> set (entry_ids v)) \<and> dict_get (ld_artifacts e) i = None" for i
    by (subst w(2), rule missing_iff) (subst w(4), rule missing_iff)
  have "list_all2 (\<lambda>(k, v) (l, w). k = l \<and> normalise v = normalise w) ch ch'
        \<and> list_all (\<lambda>(k, v). list_all (agree_on d st e st') (entry_ids v)) ch"
    if all: "list_all2 (\<lambda>(k, v) (l, w). k = l \<and> normalise v = normalise w
            \<and> (\<forall>i \<in> set (entry_ids v). same_bytes d e i \<and> i \<in> set (entry_ids w))) ch ch'"
  proof
    have "agree_on d st e st' i" if m: "(k, v) \<in> set ch" "i \<in> set (entry_ids v)" for k v i
    proof -
      obtain l w where lw: "(l, w) \<in> set ch'" "same_bytes d e i" "i \<in> set (entry_ids w)"
        using list_all2_member[OF all m(1)] m(2) by auto
      then show ?thesis using missing[of i] m by (auto simp: agree_on_def same_bytes_def split: option.splits)
    qed
    then show "list_all (\<lambda>(k, v). list_all (agree_on d st e st') (entry_ids v)) ch" by (auto simp: list_all_iff)
    show "list_all2 (\<lambda>(k, v) (l, w). k = l \<and> normalise v = normalise w) ch ch'"
      using all by (rule list_all2_mono) auto
  qed
  then show ?thesis using w(1,3) same_chain[OF w(1,3) assms(5,6)] by blast
qed


section \<open>Creating\<close>

lemma mapE_entries:
  assumes "mapE (checkpoint_entry fmt d) is = Inr es"
  shows "es = map (\<lambda>i. entry_json i (the (dict_get (ld_artifacts d) i))) is
       \<and> list_all (\<lambda>i. canonical_artifact_id (JStr i) \<and> artifact_name i \<notin> set (ld_links d)
                     \<and> dict_get (ld_artifacts d) i \<noteq> None) is"
  using assms
proof (induction "is" arbitrary: es)
  case (Cons i "is")
  obtain x xs where x: "checkpoint_entry fmt d i = Inr x" "mapE (checkpoint_entry fmt d) is = Inr xs" "es = x # xs"
    using Cons.prems by (auto split: sum.splits)
  obtain data v where v: "artifact_name i \<notin> set (ld_links d)" "dict_get (ld_artifacts d) i = Some data"
      "load_verified_artifact fmt i data = Inr v" "x = entry_json (py_text (jget v ''artifact_id'')) data"
    using x(1) by (auto simp: checkpoint_entry_def bindE_Inr split: option.splits sum.splits)
  have id: "jget v ''artifact_id'' = JStr i" "artifact_id (stable_payload v) = Some i"
    using load_verified_Inr[OF v(3)] by simp_all
  obtain b where b: "i = ''fa_'' @ take 20 (sha256_hex b)" using id(2) by (auto simp: artifact_id_def)
  have "list_all is_hex (take 20 (sha256_hex b))"
    using sha256_hex_hex[of b] by (auto simp: list_all_iff dest: in_set_takeD)
  then have "canonical_artifact_id (JStr i)" by (simp add: b canonical_artifact_id_def starts_with_def)
  then show ?case using Cons.IH[OF x(2)] x(3) v id(1) by (simp add: py_text_def)
qed simp

lemma entry_json_get [simp]:
  "jget (entry_json i data) ''artifact_id'' = JStr i" "jget (entry_json i data) ''sha256'' = JStr (sha256_hex data)"
  "is_obj (entry_json i data)" "wf_json (entry_json i data)" "normalise (entry_json i data) = entry_json i data"
proof -
  show "normalise (entry_json i data) = entry_json i data"
    by (simp add: entry_json_def string_less_simps)
qed (simp_all add: entry_json_def jget_obj is_obj_def dict_ok_def)

lemma entries_pass:
  assumes "list_all (\<lambda>i. canonical_artifact_id (JStr i) \<and> artifact_name i \<notin> set (ld_links d)) is"
    and "distinct is" "set (map JStr is) \<inter> set seen = {}"
  shows "check_entries d (map (\<lambda>i. entry_json i (f i)) is) seen = Inr ()"
  using assms
proof (induction "is" arbitrary: seen)
  case (Cons i "is")
  have "check_entries d (map (\<lambda>i. entry_json i (f i)) is) (JStr i # seen) = Inr ()"
    using Cons by (intro Cons.IH) auto
  then show ?case
    using Cons.prems by (simp add: hashable_def is_sha256_value_def checked_artifact_path_def py_text_def sha256_hex_hex)
qed simp

lemma files_pass:
  assumes "list_all (\<lambda>i. canonical_artifact_id (JStr i) \<and> artifact_name i \<notin> set (ld_links d)) is"
  shows "check_files d (map (\<lambda>i. entry_json i (the (dict_get (ld_artifacts d) i))) is) = Inr ()"
  using assms
proof (induction "is")
  case (Cons i "is")
  then show ?case
    by (cases "dict_get (ld_artifacts d) i") (simp_all add: checked_artifact_path_def py_text_def)
qed simp

abbreviation created_value :: "string \<Rightarrow> json \<Rightarrow> json" where
  "created_value c body \<equiv> json_set ''checkpoint_sha256'' (JStr c) body"

lemma wf_body:
  assumes "list_all wf_json es" "wf_json (cs_head_schema st)"
  shows "wf_json (checkpoint_body now st es)"
proof -
  have "wf_items (map JStr ls)" for ls by (induction ls) auto
  then show ?thesis using assms by (simp add: checkpoint_body_def dict_ok_def wf_items_iff jtext_def split: option.splits)
qed

lemma body_get:
  "jget (checkpoint_body now st es) ''schema_version'' = JStr schema_current"
  "jget (checkpoint_body now st es) ''previous_checkpoint_sha256'' = jtext (cs_head st)"
  "jget (checkpoint_body now st es) ''previous_schema_version'' = cs_head_schema st"
  "jget (checkpoint_body now st es) ''artifact_count'' = JInt (int (length es))"
  "jget (checkpoint_body now st es) ''artifacts'' = JArr es"
  "jget (checkpoint_body now st es) ''limits'' = JArr (map JStr checkpoint_limits)"
  "is_obj (checkpoint_body now st es)"
  by (simp_all add: checkpoint_body_def jget_obj is_obj_def)

lemma value_body_text:
  assumes "wf_json v" "is_obj v" "dict_get (obj_fields v) ''checkpoint_sha256'' = None"
  shows "body_text (normalise (created_value c v)) = dumps v"
proof -
  have "jeq (json_pop ''checkpoint_sha256'' (created_value c v)) v"
    using assms by (intro jeqI) (auto simp: dict_get_json_set dict_get_json_pop)
  then show ?thesis by (simp add: jeq_dumps)
qed

lemma created_checkpoint:
  assumes "chain_status_of d = Inr st" "mapE (checkpoint_entry fmt d) (artifact_ids d) = Inr es"
    and "owned_checkpoint_path d (record_name c) = Inr ()" "wf_dir d" "c = digest (checkpoint_body now st es)"
    and "d' = write_head c (write_record c (created_value c (checkpoint_body now st es)) d)"
  shows "checkpoint d' c = Inr (normalise (created_value c (checkpoint_body now st es)))
       \<and> entries_of (normalise (created_value c (checkpoint_body now st es))) = es
       \<and> predecessor (normalise (created_value c (checkpoint_body now st es))) = cs_head st
       \<and> expected_schema (normalise (created_value c (checkpoint_body now st es))) = cs_head_schema st
       \<and> check_files d' es = Inr ()"
proof -
  let ?b = "checkpoint_body now st es"
  let ?v = "normalise (created_value c ?b)"
  let ?ids = "artifact_ids d"
  note m = mapE_entries[OF assms(2)]
  have es: "es = map (\<lambda>i. entry_json i (the (dict_get (ld_artifacts d) i))) ?ids" using m by simp
  have wes: "list_all wf_json es" "map normalise es = es" unfolding es by (simp_all add: list_all_iff)
  have head: "cs_head st = None \<and> cs_head_schema st = JNull
      \<or> (\<exists>k. cs_head st = Some k \<and> is_sha256_value (JStr k) \<and> cs_head_schema st \<in> {JStr schema_current, JStr schema_legacy})"
    using status_Inr[OF assms(1)] by auto
  have wf: "wf_json ?b" using wes head by (intro wf_body) auto
  have wv: "wf_json (created_value c ?b)" using wf by simp
  have g: "jget ?v ''schema_version'' = JStr schema_current" "jget ?v ''checkpoint_sha256'' = JStr c"
      "jget ?v ''previous_checkpoint_sha256'' = jtext (cs_head st)" "jget ?v ''previous_schema_version'' = cs_head_schema st"
      "jget ?v ''artifact_count'' = JInt (int (length es))" "jget ?v ''artifacts'' = JArr es"
      "jget ?v ''limits'' = JArr (map JStr checkpoint_limits)" "is_obj ?v"
    using head wes by (auto simp: jget_normal[OF wv] jget_set body_get is_obj_normalise normalise_items_map jtext_def split: option.splits)
  have "dict_get (obj_fields ?b) ''checkpoint_sha256'' = None" by (simp add: checkpoint_body_def obj_fields_def)
  then have dig: "digest (json_pop ''checkpoint_sha256'' ?v) = c"
    using value_body_text[OF wf body_get(7)] assms(5) by (simp add: digest_def)
  have ok: "list_all (\<lambda>i. canonical_artifact_id (JStr i) \<and> artifact_name i \<notin> set (ld_links d)) ?ids"
    using m by (auto simp: list_all_iff)
  have dist: "distinct ?ids" using assms(4) by (simp add: artifact_ids_def wf_dir_def dict_ok_def)
  have entries: "check_entries d es []= Inr ()" unfolding es by (rule entries_pass[OF ok dist]) simp
  have files: "check_files d es = Inr ()" unfolding es by (rule files_pass[OF ok])
  have "checked_value d c ?v = Inr ?v"
    using head entries by (auto simp: checked_value_def g dig body_get(7) supported_schema_def hashable_def check_current_schema_def jtext_def
        Let_def is_text_def list_all_iff is_sha256_value_def)
  then show ?thesis
    unfolding assms(6) using assms(3) files head
    by (auto simp: write_head_def write_record_def checkpoint_links check_files_links dict_get_set g entries_of_def arr_def
        predecessor_def expected_schema_def jtext_def)
qed


text \<open>A record the new one would repeat cannot be in a verified chain.\<close>

lemma digest_not_in_chain:
  assumes "chain_status_of d = Inr st" "cs_head st = Some k" "walk d (Some k) s [] = Inr ch" "wf_dir d"
    and "list_all wf_json es" "wf_json (cs_head_schema st)" "c = digest (checkpoint_body now st es)" "(c, u) \<in> set ch"
  shows "dict_get (ld_records d) c = Some (Some u) \<and> collision (body_text u) (dumps (checkpoint_body now st es))"
proof -
  let ?b = "checkpoint_body now st es"
  obtain v rest where w: "ch = (k, v) # rest" "checkpoint d k = Inr v"
      "walk d (predecessor v) (expected_schema v) [k] = Inr rest"
    using walk_Some[OF assms(3)] by blast
  have cu: "checkpoint d c = Inr u" using walk_fresh[OF assms(3)] assms(8) by fastforce
  note u = checkpoint_Inr[OF cu]
  have "predecessor u \<noteq> Some k"
  proof (cases "(c, u) = (k, v)")
    case True
    then show ?thesis using w(3) walk_Some[of d k "expected_schema v" "[k]" rest] by auto
  next
    case False
    then have "(c, u) \<in> set rest" using assms(8) w(1) by auto
    then show ?thesis using walk_fresh[OF w(3)] by fastforce
  qed
  moreover have "predecessor u = Some k" if "body_text u = dumps ?b"
  proof -
    have wu: "wf_json u" using u assms(4) by (auto simp: wf_dir_def)
    have wb: "wf_json ?b" using assms(5,6) by (rule wf_body)
    have "jeq (json_pop ''checkpoint_sha256'' u) ?b"
      using dumps_inj[OF _ wb that] wu wb by (simp add: jeq_def)
    then have "predecessor (json_pop ''checkpoint_sha256'' u) = predecessor ?b" by (rule predecessor_jeq)
    then show ?thesis using u assms(2) by (simp add: predecessor_def jget_pop body_get jtext_def)
  qed
  moreover have "sha256_hex (body_text u) = sha256_hex (dumps ?b)" using u assms(7) by (simp add: digest_def)
  ultimately have "collision (body_text u) (dumps ?b)" by (auto simp: sha256_eq)
  then show ?thesis using u by blast
qed

lemma create_Inr:
  assumes "create_checkpoint fmt flt now d = (Inr cp, d')"
  shows "\<exists>st es c. chain_status_of d = Inr st \<and> mapE (checkpoint_entry fmt d) (artifact_ids d) = Inr es
       \<and> c = digest (checkpoint_body now st es) \<and> cp = created_value c (checkpoint_body now st es)
       \<and> owned_checkpoint_path d (record_name c) = Inr () \<and> d' = write_head c (write_record c cp d)"
  using assms by (auto simp: create_checkpoint_def Let_def split: sum.splits if_splits)


lemma new_head:
  assumes "owned_checkpoint_path d ''head.json'' = Inr ()"
  shows "read_head (write_head c d) = (if is_sha256_value (JStr c) then Inr (Some (c, JStr schema_current)) else Inl Head_invalid)"
proof -
  have h: "jget (normalise (head_json c)) ''checkpoint_sha256'' = JStr c" "is_obj (normalise (head_json c))"
      "jget (normalise (head_json c)) ''schema_version'' = JStr schema_current"
  proof -
    have wf: "wf_json (head_json c)" by (simp add: head_json_def dict_ok_def)
    show "jget (normalise (head_json c)) ''checkpoint_sha256'' = JStr c"
        "jget (normalise (head_json c)) ''schema_version'' = JStr schema_current"
      unfolding jget_normal[OF wf] by (simp_all add: head_json_def jget_obj)
    show "is_obj (normalise (head_json c))" by (simp add: is_obj_normalise head_json_def is_obj_def)
  qed
  have "owned_checkpoint_path (write_head c d) ''head.json'' = Inr ()"
    using assms by (simp add: owned_checkpoint_path_def write_head_def)
  then show ?thesis
    using h(2) by (simp add: read_head_def) (simp add: write_head_def h supported_schema_def hashable_def py_text_def)
qed

lemma extended_walk:
  assumes "chain_status_of d = Inr st" "wf_dir d" "list_all wf_json es" "c = digest (checkpoint_body now st es)"
    and "predecessor v = cs_head st" "expected_schema v = cs_head_schema st" "checkpoint d' c = Inr v"
    and "d' = write_head c (write_record c x d)" "check_files d' (entries_of v) = Inr ()" "jget v ''schema_version'' = JStr schema_current"
  shows "(\<exists>ch. walk d' (Some c) (JStr schema_current) [] = Inr ((c, v) # ch) \<and> length ch = cs_count st
            \<and> sort (remdups (filter (\<lambda>i. dict_get (ld_artifacts d) i = None) (concat (map (\<lambda>(c, v). entry_ids v) ch)))) = cs_missing st)
       \<or> (\<exists>u. dict_get (ld_records d) c = Some (Some u) \<and> collision (body_text u) (dumps (checkpoint_body now st es)))"
proof -
  have d': "d' = d\<lparr>ld_records := dict_set c (Some (normalise x)) (ld_records d), ld_head := Some (Some (normalise (head_json c)))\<rparr>"
    by (simp add: assms(8) write_head_def write_record_def)
  have start: "walk d' (predecessor v) (expected_schema v) [c] = Inr ch \<Longrightarrow> walk d' (Some c) (JStr schema_current) [] = Inr ((c, v) # ch)" for ch
    using assms(7,9,10) by (intro walk_step) auto
  from status_Inr[OF assms(1)] consider
      "cs_head st = None" "cs_count st = 0" "cs_missing st = []"
    | k ch where "cs_head st = Some k" "walk d (Some k) (cs_head_schema st) [] = Inr ch"
        "st = summarise d k (cs_head_schema st) ch" "wf_json (cs_head_schema st)"
    by auto
  then show ?thesis
  proof cases
    case 1
    then show ?thesis using start[of "[]"] assms(5) by auto
  next
    case 2
    have sums: "cs_count st = length ch"
        "cs_missing st = sort (remdups (filter (\<lambda>i. dict_get (ld_artifacts d) i = None) (concat (map (\<lambda>(c, v). entry_ids v) ch))))"
      by (subst 2(3), simp add: summarise_def Let_def)+
    show ?thesis
    proof (cases "c \<in> set (map fst ch)")
      case True
      then obtain u where "(c, u) \<in> set ch" by auto
      from digest_not_in_chain[OF assms(1) 2(1,2) assms(2,3) 2(4) assms(4) this] show ?thesis by blast
    next
      case False
      have "walk d' (Some k) (cs_head_schema st) [c] = Inr ch"
        unfolding d' by (rule walk_extend[OF 2(2) False]) simp
      then have "walk d' (Some c) (JStr schema_current) [] = Inr ((c, v) # ch)"
        using 2(1) assms(5,6) by (intro start) simp
      then show ?thesis using sums by auto
    qed
  qed
qed

text \<open>
  C13: a created checkpoint extends a verified chain into a verified chain.  Creation succeeds only
  on a chain that verifies; afterwards the status verifies again, one record longer, from the new
  head, with the same missing artifacts and nothing left uncheckpointed.  The one exception is a
  record that already sat under the new digest with another body: a SHA-256 collision.
\<close>

theorem create_extends_chain:
  assumes "create_checkpoint fmt flt now d = (Inr cp, d')" "wf_dir d"
  shows "\<exists>st c. chain_status_of d = Inr st \<and> jget cp ''checkpoint_sha256'' = JStr c \<and> ld_artifacts d' = ld_artifacts d
       \<and> ((\<exists>st'. chain_status_of d' = Inr st' \<and> cs_head st' = Some c \<and> cs_count st' = Suc (cs_count st)
             \<and> cs_missing st' = cs_missing st \<and> cs_uncheckpointed st' = [] \<and> \<not> cs_migration st')
          \<or> (\<exists>u. dict_get (ld_records d) c = Some (Some u) \<and> collision (body_text u) (body_text cp)))"
proof -
  obtain st es c where c: "chain_status_of d = Inr st" "mapE (checkpoint_entry fmt d) (artifact_ids d) = Inr es"
      "c = digest (checkpoint_body now st es)" "cp = created_value c (checkpoint_body now st es)"
      "owned_checkpoint_path d (record_name c) = Inr ()" "d' = write_head c (write_record c cp d)"
    using create_Inr[OF assms(1)] by blast
  let ?b = "checkpoint_body now st es"
  let ?v = "normalise (created_value c ?b)"
  note new = created_checkpoint[OF c(1,2,5) assms(2) c(3) c(6)[unfolded c(4)]]
  have es: "es = map (\<lambda>i. entry_json i (the (dict_get (ld_artifacts d) i))) (artifact_ids d)"
      "list_all (\<lambda>i. dict_get (ld_artifacts d) i \<noteq> None) (artifact_ids d)"
    using mapE_entries[OF c(2)] by (auto simp: list_all_iff)
  have wes: "list_all wf_json es" unfolding es(1) by (simp add: list_all_iff)
  have wf: "wf_json ?b" using wes status_Inr[OF c(1)] by (intro wf_body) auto
  have sha: "jget cp ''checkpoint_sha256'' = JStr c" using c(4) by (simp add: jget_set body_get)
  have "dict_get (obj_fields ?b) ''checkpoint_sha256'' = None" by (simp add: checkpoint_body_def obj_fields_def)
  then have body: "body_text cp = dumps ?b" using value_body_text[OF wf body_get(7)] c(4) by simp
  have sv: "jget ?v ''schema_version'' = JStr schema_current"
    using wf by (simp add: jget_normal jget_set body_get)
  have ids: "entry_ids ?v = artifact_ids d"
    using new by (simp add: entry_ids_def es(1) py_text_def comp_def)
  have art: "ld_artifacts d' = ld_artifacts d" by (simp add: c(6) write_head_def write_record_def)
  from extended_walk[OF c(1) assms(2) wes c(3) _ _ _ c(6)[unfolded c(4)], of ?v] new sv c(4,6)
  consider ch where "walk d' (Some c) (JStr schema_current) [] = Inr ((c, ?v) # ch)" "length ch = cs_count st"
      "sort (remdups (filter (\<lambda>i. dict_get (ld_artifacts d) i = None) (concat (map (\<lambda>(c, v). entry_ids v) ch)))) = cs_missing st"
    | u where "dict_get (ld_records d) c = Some (Some u)" "collision (body_text u) (dumps ?b)"
    by auto
  then show ?thesis
  proof cases
    case 1
    have head: "read_head d' = Inr (Some (c, JStr schema_current))"
      unfolding c(6) using status_Inr[OF c(1)] c(3) sha256_hex_hex
      by (subst new_head) (auto simp: write_record_def owned_checkpoint_path_def is_sha256_value_def digest_def)
    have none: "filter (\<lambda>i. dict_get (ld_artifacts d) i = None) (artifact_ids d) = []"
      using es(2) by (auto simp: list_all_iff filter_empty_conv)
    have "artifact_ids d' = artifact_ids d" by (simp add: artifact_ids_def art)
    then show ?thesis
      using c(1) sha art 1 head none ids
      by (auto simp: chain_status_of_def summarise_def Let_def filter_empty_conv)
  next
    case 2
    then show ?thesis using c(1) sha art body by auto
  qed
qed


text \<open>
  A creation that fails leaves the chain as it was.  Whatever fails, the guards, an unverified
  artifact or either write, the directory is unchanged, except that a head write that fails may
  have rewritten a record that was already there under the same digest.
\<close>

theorem failed_create_harmless:
  assumes "create_checkpoint fmt flt now d = (Inl e, d')"
  shows "d' = d \<or> (\<exists>c v old. flt = Head_fails \<and> dict_get (ld_records d) c = Some old \<and> d' = write_record c v d)"
proof -
  have undo: "(write_record c v d)\<lparr>ld_records := dict_pop c (ld_records (write_record c v d))\<rparr> = d"
    if "dict_get (ld_records d) c = None" for c v
  proof -
    have "dict_pop c (ld_records d) = ld_records d" using that by (intro delete_id) (simp add: map_of_eq_None_iff)
    then show ?thesis by (simp add: write_record_def delete_update_same)
  qed
  show ?thesis
    using assms undo by (auto simp: create_checkpoint_def Let_def split: sum.splits if_splits)
qed

section \<open>Recovery\<close>

lemma record_name_inj [simp]: "record_name c = record_name k \<longleftrightarrow> c = k"
  by (simp add: record_name_def)

lemma recover_walk:
  "walk d c ex seen = Inr ch \<Longrightarrow> recover d c = Some (Inr (map record_name (map fst ch)))"
proof (induction rule: walk_induct)
  case (Done ex seen)
  show ?case by (subst recover.simps) simp
next
  case (Step c ex seen v rest)
  then show ?case by (subst recover.simps) simp
qed

text \<open>
  C39: \<open>recovery_files\<close> returns although its loop has no cycle check: it raises what the status
  raises, lists nothing on a directory without a head, and on a verified chain lists the head file
  and then the file of each record the verifying walk met, in that order, none twice.
\<close>

theorem recovery_returns:
  "\<exists>r. recovery_files d = Some r
     \<and> (case chain_status_of d of Inl e \<Rightarrow> r = Inl e
        | Inr st \<Rightarrow>
            (case cs_head st of None \<Rightarrow> r = Inr []
             | Some c \<Rightarrow>
                 (\<exists>ch files. walk d (Some c) (cs_head_schema st) [] = Inr ch
                    \<and> files = ''head.json'' # map (record_name \<circ> fst) ch \<and> r = Inr files \<and> distinct files
                    \<and> length ch = cs_count st \<and> cs_count st \<le> length (ld_records d))))"
proof (cases "chain_status_of d")
  case (Inl e)
  then show ?thesis by (simp add: recovery_files_def)
next
  case (Inr st)
  from status_Inr[OF Inr] consider "cs_head st = None" "cs_count st = 0"
    | c ch where "cs_head st = Some c" "walk d (Some c) (cs_head_schema st) [] = Inr ch" "st = summarise d c (cs_head_schema st) ch"
        "owned_checkpoint_path d ''head.json'' = Inr ()"
    by auto
  then show ?thesis
  proof cases
    case 1
    then show ?thesis using Inr by (simp add: recovery_files_def)
  next
    case 2
    have count: "cs_count st = length ch" by (subst 2(3)) (simp add: summarise_def Let_def)
    note w = walk_distinct[OF 2(2)]
    have "card (set (map fst ch)) \<le> card (set (dict_keys (ld_records d)))" using w by (intro card_mono) auto
    also have "\<dots> \<le> length (ld_records d)" by (metis card_length length_map)
    finally have "length ch \<le> length (ld_records d)" using w distinct_card[of "map fst ch"] by simp
    moreover have "distinct (map (record_name \<circ> fst) ch)"
      using w by (subst map_map [symmetric], subst distinct_map) (simp add: inj_on_def)
    moreover have "''head.json'' \<notin> set (map (record_name \<circ> fst) ch)" by (auto simp: record_name_def)
    moreover have "recover d (Some c) = Some (Inr (map (record_name \<circ> fst) ch))"
      using recover_walk[OF 2(2)] by simp
    ultimately show ?thesis
      using Inr 2(1,2,4) count by (simp add: recovery_files_def)
  qed
qed

section \<open>Witnesses\<close>

abbreviation one_artifact :: "string \<Rightarrow> string \<Rightarrow> ledger_dir" where
  "one_artifact i data \<equiv> \<lparr> ld_root_unsafe = False, ld_links = [], ld_artifacts = [(i, data)], ld_head = None, ld_records = [] \<rparr>"

lemma sample_create:
  assumes "load_verified_artifact any_format i data = Inr w"
  shows "\<exists>cp d'. create_checkpoint any_format No_fault ''2026-06-13T12:00:00Z'' (one_artifact i data) = (Inr cp, d')"
  using assms
  by (simp add: create_checkpoint_def chain_status_of_def read_head_def owned_checkpoint_path_def artifact_ids_def
      checkpoint_entry_def Let_def)

lemma sample_dir_ok: "wf_dir (one_artifact i data)"
  by (simp add: wf_dir_def dict_ok_def)

lemma create_extends_chain_witness:
  "\<exists>i data cp d' st. create_checkpoint any_format No_fault ''2026-06-13T12:00:00Z'' (one_artifact i data) = (Inr cp, d')
     \<and> chain_status_of d' = Inr st \<and> cs_count st = 1 \<and> cs_uncheckpointed st = []"
proof -
  obtain i data w where "load_verified_artifact any_format i data = Inr w" using sample_sealed by blast
  then obtain cp d' where c: "create_checkpoint any_format No_fault ''2026-06-13T12:00:00Z'' (one_artifact i data) = (Inr cp, d')"
    using sample_create by blast
  have "chain_status_of (one_artifact i data) = Inr st \<Longrightarrow> cs_count st = 0" for st
    by (auto simp: chain_status_of_def read_head_def owned_checkpoint_path_def)
  with create_extends_chain[OF c sample_dir_ok] c show ?thesis by fastforce
qed

lemma failed_create_harmless_witness:
  "\<exists>e. create_checkpoint any_format No_fault ''2026-06-13T12:00:00Z'' (one_artifact ''x'' ''{}'') = (Inl e, one_artifact ''x'' ''{}'')"
proof -
  have "load_verified_artifact any_format ''x'' ''{}'' \<noteq> Inr v" for v
    using load_verified_Inr[of any_format "''x''" "''{}''" v] by (auto simp: artifact_id_def)
  then obtain e where "load_verified_artifact any_format ''x'' ''{}'' = Inl e"
    by (cases "load_verified_artifact any_format ''x'' ''{}''") auto
  then have "\<exists>e. create_checkpoint any_format No_fault ''2026-06-13T12:00:00Z'' (one_artifact ''x'' ''{}'') = (Inl e, one_artifact ''x'' ''{}'')"
    by (simp add: create_checkpoint_def chain_status_of_def read_head_def owned_checkpoint_path_def artifact_ids_def
        checkpoint_entry_def)
  then obtain e d' where e: "create_checkpoint any_format No_fault ''2026-06-13T12:00:00Z'' (one_artifact ''x'' ''{}'') = (Inl e, d')"
    by blast
  from failed_create_harmless[OF this] e show ?thesis by auto
qed

lemma head_pins_history_witness:
  "\<exists>d st c ch. chain_status_of d = Inr st \<and> cs_head st = Some c \<and> walk d (Some c) (JStr schema_current) [] = Inr ch
      \<and> list_all (\<lambda>(k, v). list_all (agree_on d st d st) (entry_ids v)) ch"
proof -
  obtain i data w where w: "load_verified_artifact any_format i data = Inr w" using sample_sealed by blast
  then obtain cp d' where c: "create_checkpoint any_format No_fault ''2026-06-13T12:00:00Z'' (one_artifact i data) = (Inr cp, d')"
    using sample_create by blast
  obtain st es k where k: "chain_status_of (one_artifact i data) = Inr st"
      "mapE (checkpoint_entry any_format (one_artifact i data)) (artifact_ids (one_artifact i data)) = Inr es"
      "k = digest (checkpoint_body ''2026-06-13T12:00:00Z'' st es)" "cp = created_value k (checkpoint_body ''2026-06-13T12:00:00Z'' st es)"
      "owned_checkpoint_path (one_artifact i data) (record_name k) = Inr ()" "d' = write_head k (write_record k cp (one_artifact i data))"
    using create_Inr[OF c] by blast
  let ?v = "normalise cp"
  note new = created_checkpoint[OF k(1,2,5) sample_dir_ok k(3) k(6)[unfolded k(4)]]
  have "cs_head st = None" "wf_json (cs_head_schema st)"
    using k(1) by (auto simp: chain_status_of_def read_head_def owned_checkpoint_path_def)
  moreover have "list_all wf_json es" using mapE_entries[OF k(2)] by (simp add: list_all_iff)
  ultimately have body: "wf_json cp" "jget ?v ''schema_version'' = JStr schema_current" "predecessor ?v = None"
    using new k(4) wf_body[of es st] by (auto simp: jget_normal jget_set body_get)
  then have walk: "walk d' (Some k) (JStr schema_current) [] = Inr [(k, ?v)]"
    using new k(4) by (intro walk_step) auto
  have "wf_dir d'" using wf_normalise(1)[OF body(1)] by (auto simp: k(6) wf_dir_def write_head_def write_record_def dict_ok_def)
  have "read_head d' = Inr (Some (k, JStr schema_current))"
    unfolding k(6) using k(3,5) sha256_hex_hex
    by (subst new_head) (auto simp: write_record_def owned_checkpoint_path_def is_sha256_value_def digest_def)
  then have status: "chain_status_of d' = Inr (summarise d' k (JStr schema_current) [(k, ?v)])"
    using walk by (simp add: chain_status_of_def)
  have head: "cs_head (summarise d' k (JStr schema_current) [(k, ?v)]) = Some k"
      "cs_head_schema (summarise d' k (JStr schema_current) [(k, ?v)]) = JStr schema_current"
    by (simp_all add: summarise_def Let_def)
  let ?st = "summarise d' k (JStr schema_current) [(k, ?v)]"
  have "\<not> collision x x" for x by (simp add: collision_def)
  then have "list_all (\<lambda>(k, v). list_all (agree_on d' ?st d' ?st) (entry_ids v)) [(k, ?v)]"
    using head_pins_history[OF status status head(1) head(1) \<open>wf_dir d'\<close> \<open>wf_dir d'\<close>] head walk by simp
  then show ?thesis using status head(1) walk by blast
qed

end
