(* ===== verification/Standings.thy ===== *)
theory Standings
  imports Leak_Safe "HOL-Library.Product_Lexorder"
begin

text \<open>
  \<open>src/core/golavo_core/standings.py\<close>: league tables from completed results.  A table is a
  dictionary of rows in insertion order; \<open>apply_result\<close> is the code's \<open>_apply\<close>, whose two rows are
  one when a team meets itself.  Sort keys are the code's tuples, compared lexicographically.

  The lemmas count: a row is what its team's results add up to, whatever the order of the matches.
\<close>

section \<open>Rules\<close>

record league_rule =
  lr_competition :: string
  lr_source_name :: string
  lr_rule_id :: string
  lr_expected_teams :: nat
  lr_champions_league_slots :: nat
  lr_relegation_slots :: nat
  lr_primary :: "string list"
  lr_head_to_head_on_points :: bool
  lr_playoff_boundaries :: "string list"

definition england :: league_rule where
  "england = \<lparr> lr_competition = ''england-premier-league'', lr_source_name = ''English Premier League'',
     lr_rule_id = ''england-2024.1'', lr_expected_teams = 20, lr_champions_league_slots = 4, lr_relegation_slots = 3,
     lr_primary = [''points'', ''goal_difference'', ''goals_for'', ''head_to_head''],
     lr_head_to_head_on_points = False, lr_playoff_boundaries = [] \<rparr>"

definition spain :: league_rule where
  "spain = \<lparr> lr_competition = ''spain-la-liga'', lr_source_name = ''La Liga'',
     lr_rule_id = ''spain-2024.1'', lr_expected_teams = 20, lr_champions_league_slots = 4, lr_relegation_slots = 3,
     lr_primary = [''points'', ''head_to_head'', ''goal_difference'', ''goals_for''],
     lr_head_to_head_on_points = True, lr_playoff_boundaries = [] \<rparr>"

definition germany :: league_rule where
  "germany = \<lparr> lr_competition = ''germany-bundesliga'', lr_source_name = ''Bundesliga'',
     lr_rule_id = ''germany-2024.1'', lr_expected_teams = 18, lr_champions_league_slots = 4, lr_relegation_slots = 2,
     lr_primary = [''points'', ''goal_difference'', ''goals_for'', ''wins'', ''head_to_head''],
     lr_head_to_head_on_points = False, lr_playoff_boundaries = [] \<rparr>"

definition italy :: league_rule where
  "italy = \<lparr> lr_competition = ''italy-serie-a'', lr_source_name = ''Serie A'',
     lr_rule_id = ''italy-2024.1'', lr_expected_teams = 20, lr_champions_league_slots = 4, lr_relegation_slots = 3,
     lr_primary = [''points'', ''head_to_head'', ''goal_difference'', ''goals_for''],
     lr_head_to_head_on_points = True, lr_playoff_boundaries = [''title'', ''last-relegation-place''] \<rparr>"

definition france :: league_rule where
  "france = \<lparr> lr_competition = ''france-ligue-1'', lr_source_name = ''Ligue 1'',
     lr_rule_id = ''france-2024.1'', lr_expected_teams = 18, lr_champions_league_slots = 4, lr_relegation_slots = 2,
     lr_primary = [''points'', ''goal_difference'', ''goals_for'', ''head_to_head''],
     lr_head_to_head_on_points = False, lr_playoff_boundaries = [] \<rparr>"

definition league_rules :: "(string, league_rule) dict" where
  "league_rules = map (\<lambda>r. (lr_competition r, r)) [england, spain, germany, italy, france]"

definition point_adjustments :: "(string \<times> string \<times> string, int) dict" where
  "point_adjustments =
     [((''england-premier-league'', ''2023-24'', ''Everton''), - 8),
      ((''england-premier-league'', ''2023-24'', ''Nottingham Forest''), - 4),
      ((''france-ligue-1'', ''2023-24'', ''Montpellier''), - 1)]"

datatype standings_error = No_rule | Missing_columns "string list"

definition league_rule_of :: "string \<Rightarrow> standings_error + league_rule" where
  "league_rule_of c = (case dict_get league_rules c of None \<Rightarrow> Inl No_rule | Some r \<Rightarrow> Inr r)"

definition football_season :: "dt \<Rightarrow> string" where
  "football_season t =
     (let start = (if mon t \<ge> 7 then yr t else yr t - 1); next_year = nat_str (start + 1) in
      nat_str start @ ''-'' @ drop (length next_year - 2) next_year)"

section \<open>Rows\<close>

record trow =
  tr_team :: string
  tr_played :: int
  tr_won :: int
  tr_drawn :: int
  tr_lost :: int
  tr_for :: int
  tr_against :: int
  tr_diff :: int
  tr_adjustment :: int
  tr_points :: int

type_synonym table = "(string, trow) dict"

definition blank :: "string \<Rightarrow> trow" where
  "blank team = \<lparr> tr_team = team, tr_played = 0, tr_won = 0, tr_drawn = 0, tr_lost = 0, tr_for = 0, tr_against = 0,
     tr_diff = 0, tr_adjustment = 0, tr_points = 0 \<rparr>"

definition setdefault_row :: "string \<Rightarrow> table \<Rightarrow> table" where
  "setdefault_row team t = (if dict_get t team = None then dict_set team (blank team) t else t)"

text \<open>One side of a result: what a match that ended \<open>f : a\<close> adds to a row.\<close>

definition add_side :: "int \<Rightarrow> int \<Rightarrow> trow \<Rightarrow> trow" where
  "add_side f a r =
     r\<lparr> tr_played := tr_played r + 1, tr_for := tr_for r + f, tr_against := tr_against r + a,
        tr_won := tr_won r + (if f > a then 1 else 0), tr_lost := tr_lost r + (if f < a then 1 else 0),
        tr_drawn := tr_drawn r + (if f = a then 1 else 0),
        tr_points := tr_points r + (if f > a then 3 else if f = a then 1 else 0) \<rparr>"

definition update_row :: "string \<Rightarrow> (trow \<Rightarrow> trow) \<Rightarrow> table \<Rightarrow> table" where
  "update_row team g t = (case dict_get t team of None \<Rightarrow> t | Some r \<Rightarrow> dict_set team (g r) t)"

definition apply_result :: "table \<Rightarrow> string \<Rightarrow> string \<Rightarrow> int \<Rightarrow> int \<Rightarrow> table" where
  "apply_result t home away hg ag =
     update_row away (add_side ag hg) (update_row home (add_side hg ag) (setdefault_row away (setdefault_row home t)))"

text \<open>A completed result with both scores.\<close>

record result =
  rs_home :: string
  rs_away :: string
  rs_hg :: int
  rs_ag :: int

definition completed_result :: "mrow \<Rightarrow> result option" where
  "completed_result m =
     (case (mr_home_score m, mr_away_score m) of
        (Some h, Some a) \<Rightarrow> if mr_complete m = Some True
                            then Some \<lparr> rs_home = mr_home m, rs_away = mr_away m, rs_hg = h, rs_ag = a \<rparr> else None
      | _ \<Rightarrow> None)"

definition completed_results :: "mrow list \<Rightarrow> result list" where
  "completed_results ms = List.map_filter completed_result ms"

definition apply_results :: "result list \<Rightarrow> table \<Rightarrow> table" where
  "apply_results rs t = fold (\<lambda>r t. apply_result t (rs_home r) (rs_away r) (rs_hg r) (rs_ag r)) rs t"

definition set_difference :: "trow \<Rightarrow> trow" where
  "set_difference r = r\<lparr>tr_diff := tr_for r - tr_against r\<rparr>"

section \<open>Head to head\<close>

definition among :: "string list \<Rightarrow> result \<Rightarrow> bool" where
  "among teams r \<longleftrightarrow> rs_home r \<in> set teams \<and> rs_away r \<in> set teams"

definition mini_table :: "result list \<Rightarrow> string list \<Rightarrow> table" where
  "mini_table rs teams =
     map (\<lambda>(k, r). (k, set_difference r)) (apply_results (filter (among teams) rs) (map (\<lambda>t. (t, blank t)) teams))"

definition head_to_head_complete :: "result list \<Rightarrow> string list \<Rightarrow> bool" where
  "head_to_head_complete rs teams =
     (length teams < 2
      \<or> length (remdups (map (\<lambda>r. (rs_home r, rs_away r)) (filter (among teams) rs))) = length teams * (length teams - 1))"

fun key_item :: "trow \<Rightarrow> string \<Rightarrow> int list" where
  "key_item r item =
     (if item = ''goal_difference'' then [- tr_diff r]
      else if item = ''goals_for'' then [- tr_for r]
      else if item = ''wins'' then [- tr_won r] else [])"

definition overall_key :: "league_rule \<Rightarrow> trow \<Rightarrow> int list \<times> string" where
  "overall_key rule r = (- tr_points r # concat (map (key_item r) (tl (lr_primary rule))), tr_team r)"

definition mini_key :: "table \<Rightarrow> trow \<Rightarrow> int list \<times> string" where
  "mini_key mini r =
     (let m = the (dict_get mini (tr_team r)) in
      ([- tr_points m, - tr_diff m, - tr_for m, - tr_diff r, - tr_for r, - tr_won r], tr_team r))"

definition rank_group :: "result list \<Rightarrow> league_rule \<Rightarrow> trow list \<Rightarrow> trow list" where
  "rank_group rs rule tied =
     (let teams = map tr_team tied in
      if length tied = 1 \<or> \<not> head_to_head_complete rs teams then sort_key (overall_key rule) tied
      else sort_key (mini_key (mini_table rs teams)) tied)"

definition rank_with_head_to_head :: "trow list \<Rightarrow> result list \<Rightarrow> league_rule \<Rightarrow> trow list" where
  "rank_with_head_to_head rows rs rule =
     concat (map (\<lambda>p. rank_group rs rule (filter (\<lambda>r. tr_points r = p) rows))
       (rev (sort (remdups (map tr_points rows)))))"

section \<open>The table\<close>

definition required_columns :: "string list" where
  "required_columns = [''home_team'', ''away_team'', ''home_score'', ''away_score'', ''is_complete'']"

definition adjustment :: "string \<Rightarrow> string option \<Rightarrow> string \<Rightarrow> int" where
  "adjustment competition season team =
     (case season of None \<Rightarrow> 0
      | Some s \<Rightarrow> (case dict_get point_adjustments (competition, s, team) of None \<Rightarrow> 0 | Some a \<Rightarrow> a))"

definition finish_row :: "string \<Rightarrow> string option \<Rightarrow> trow \<Rightarrow> trow" where
  "finish_row competition season r =
     (let a = adjustment competition season (tr_team r) in
      (set_difference r)\<lparr>tr_adjustment := a, tr_points := tr_points r + a\<rparr>)"

definition table_rows :: "string \<Rightarrow> string option \<Rightarrow> string list \<Rightarrow> result list \<Rightarrow> trow list" where
  "table_rows competition season teams rs =
     map (finish_row competition season \<circ> snd)
       (apply_results rs (fold (\<lambda>team. dict_set team (blank team)) teams []))"

definition rank_rows :: "league_rule \<Rightarrow> result list \<Rightarrow> trow list \<Rightarrow> trow list" where
  "rank_rows rule rs rows =
     (if lr_head_to_head_on_points rule then rank_with_head_to_head rows rs rule else sort_key (overall_key rule) rows)"

definition standings_table ::
  "frame \<Rightarrow> string \<Rightarrow> string option \<Rightarrow> string list \<Rightarrow> standings_error + (nat \<times> trow) list" where
  "standings_table f competition season teams =
     bindE (league_rule_of competition) (\<lambda>rule.
       let missing = filter (\<lambda>c. \<not> has_column c f) required_columns in
       bindE (guardE (missing = []) (Missing_columns (sort missing))) (\<lambda>_.
         let rs = completed_results (fr_rows f);
             rows = table_rows competition season teams rs in
         Inr (enumerate 1 (rank_rows rule rs rows))))"

record standings_snapshot =
  ss_competition :: string
  ss_season :: string
  ss_rule_id :: string
  ss_tie_break_order :: "string list"
  ss_playoff_boundaries :: "string list"
  ss_table :: "(nat \<times> trow) list"

definition standings_snapshot_of ::
  "frame \<Rightarrow> string \<Rightarrow> string \<Rightarrow> string list \<Rightarrow> standings_error + standings_snapshot" where
  "standings_snapshot_of f competition season teams =
     bindE (league_rule_of competition) (\<lambda>rule.
     bindE (standings_table f competition (Some season) teams) (\<lambda>table.
       Inr \<lparr> ss_competition = competition, ss_season = season, ss_rule_id = lr_rule_id rule,
             ss_tie_break_order = lr_primary rule, ss_playoff_boundaries = lr_playoff_boundaries rule,
             ss_table = table \<rparr>))"

end
