(* ===== verification/Standings_Laws.thy ===== *)
theory Standings_Laws
  imports Standings
begin

text \<open>
  What a league table says.  A row is the sum of its team's results (\<open>row_counts\<close>), the books of a
  table balance, and neither the order of the matches nor of the team list matters.
\<close>

section \<open>Sides\<close>

text \<open>The scores of a team's matches, own goals first.\<close>

definition sides :: "string \<Rightarrow> result \<Rightarrow> (int \<times> int) list" where
  "sides team r =
     (if rs_home r = team then [(rs_hg r, rs_ag r)] else []) @ (if rs_away r = team then [(rs_ag r, rs_hg r)] else [])"

definition all_sides :: "string \<Rightarrow> result list \<Rightarrow> (int \<times> int) list" where
  "all_sides team rs = concat (map (sides team) rs)"

definition add_sides :: "(int \<times> int) list \<Rightarrow> trow \<Rightarrow> trow" where
  "add_sides ss r = fold (\<lambda>(f, a). add_side f a) ss r"

lemma add_sides_simps [simp]:
  "add_sides [] r = r" "add_sides ((f, a) # ss) r = add_sides ss (add_side f a r)"
  "add_sides (ss @ us) r = add_sides us (add_sides ss r)"
  by (simp_all add: add_sides_def)

lemma all_sides_simps [simp]:
  "all_sides team [] = []" "all_sides team (r # rs) = sides team r @ all_sides team rs"
  by (simp_all add: all_sides_def)

definition count_if :: "('a \<Rightarrow> bool) \<Rightarrow> 'a list \<Rightarrow> int" where
  "count_if p xs = int (length (filter p xs))"

lemma add_sides_fields:
  "tr_team (add_sides ss r) = tr_team r \<and> tr_played (add_sides ss r) = tr_played r + int (length ss)
   \<and> tr_won (add_sides ss r) = tr_won r + count_if (\<lambda>(f, a). a < f) ss
   \<and> tr_drawn (add_sides ss r) = tr_drawn r + count_if (\<lambda>(f, a). f = a) ss
   \<and> tr_lost (add_sides ss r) = tr_lost r + count_if (\<lambda>(f, a). f < a) ss
   \<and> tr_for (add_sides ss r) = tr_for r + sum_list (map fst ss)
   \<and> tr_against (add_sides ss r) = tr_against r + sum_list (map snd ss)
   \<and> tr_diff (add_sides ss r) = tr_diff r \<and> tr_adjustment (add_sides ss r) = tr_adjustment r
   \<and> tr_points (add_sides ss r) = tr_points r + 3 * count_if (\<lambda>(f, a). a < f) ss + count_if (\<lambda>(f, a). f = a) ss"
proof (induction ss arbitrary: r)
  case (Cons s ss)
  then show ?case by (cases s) (auto simp: add_side_def count_if_def)
qed (simp add: count_if_def)

lemma add_sides_perm:
  assumes "mset ss = mset us"
  shows "add_sides ss r = add_sides us r"
proof -
  have c: "count_if p ss = count_if p us" for p
    using arg_cong[OF assms, of "\<lambda>m. size (filter_mset p m)"]
    by (simp add: count_if_def flip: mset_filter)
  have s: "sum_list (map g ss) = sum_list (map g us)" for g :: "int \<times> int \<Rightarrow> int"
    using assms by (metis mset_map sum_mset_sum_list)
  have l: "length ss = length us" using assms by (rule mset_eq_length)
  show ?thesis
    using add_sides_fields[of ss r] add_sides_fields[of us r]
    by (intro trow.equality) (simp_all add: c s l)
qed


section \<open>Tables\<close>

definition table_ok :: "table \<Rightarrow> bool" where
  "table_ok t \<longleftrightarrow> dict_ok t \<and> (\<forall>k r. dict_get t k = Some r \<longrightarrow> tr_team r = k)"

lemma add_side_team [simp]: "tr_team (add_side f a r) = tr_team r"
  by (simp add: add_side_def)

lemma setdefault_get [simp]:
  "dict_get (setdefault_row team t) k = (if k = team \<and> dict_get t k = None then Some (blank team) else dict_get t k)"
  by (auto simp: setdefault_row_def)

lemma update_get [simp]: "dict_get (update_row team g t) k = (if k = team then map_option g (dict_get t k) else dict_get t k)"
  by (auto simp: update_row_def split: option.splits)

lemma table_ok_steps [simp, inv_intros]:
  "table_ok t \<Longrightarrow> table_ok (setdefault_row team t)"
  "table_ok t \<Longrightarrow> table_ok (update_row team (add_side f a) t)"
proof -
  have d: "dict_ok t \<Longrightarrow> dict_ok (setdefault_row team t)" "dict_ok t \<Longrightarrow> dict_ok (update_row team g t)" for g
    by (auto simp: setdefault_row_def update_row_def split: option.splits)
  show "table_ok t \<Longrightarrow> table_ok (setdefault_row team t)"
    using d(1) by (auto simp: table_ok_def blank_def)
  show "table_ok t \<Longrightarrow> table_ok (update_row team (add_side f a) t)"
    using d(2) by (auto simp: table_ok_def)
qed

lemma table_ok_results [simp, inv_intros]: "table_ok t \<Longrightarrow> table_ok (apply_results rs t)"
  unfolding apply_results_def
  by (induction rs arbitrary: t) (simp_all add: apply_result_def)

text \<open>A row after all results: its old value, or a blank one for a new team, with its sides added.\<close>

lemma apply_result_get:
  "dict_get (apply_result t (rs_home r) (rs_away r) (rs_hg r) (rs_ag r)) k =
     (if dict_get t k = None \<and> sides k r = [] then None
      else Some (add_sides (sides k r) (case dict_get t k of None \<Rightarrow> blank k | Some x \<Rightarrow> x)))"
  by (cases "dict_get t k") (auto simp: apply_result_def sides_def)

lemma apply_results_get:
  "dict_get (apply_results rs t) k =
     (if dict_get t k = None \<and> all_sides k rs = [] then None
      else Some (add_sides (all_sides k rs) (case dict_get t k of None \<Rightarrow> blank k | Some x \<Rightarrow> x)))"
proof (induction rs arbitrary: t)
  case Nil
  show ?case by (cases "dict_get t k") (simp_all add: apply_results_def)
next
  case (Cons r rs)
  let ?t = "apply_result t (rs_home r) (rs_away r) (rs_hg r) (rs_ag r)"
  have "apply_results (r # rs) t = apply_results rs ?t" by (simp add: apply_results_def)
  then show ?case
    by (cases "dict_get t k"; cases "sides k r") (simp_all add: Cons apply_result_get add_sides_def)
qed

lemma start_get: "dict_get (fold (\<lambda>team. dict_set team (blank team)) teams t) k = (if k \<in> set teams then Some (blank k) else dict_get t k)"
  by (induction teams arbitrary: t) auto

lemma start_ok: "table_ok t \<Longrightarrow> table_ok (fold (\<lambda>team. dict_set team (blank team)) teams t)"
proof (induction teams arbitrary: t)
  case (Cons k teams)
  have "table_ok (dict_set k (blank k) t)" using Cons.prems by (auto simp: table_ok_def blank_def)
  then show ?case using Cons.IH by simp
qed simp

text \<open>The teams of a table: those asked for, then those that played.\<close>

definition teams_of :: "string list \<Rightarrow> result list \<Rightarrow> string set" where
  "teams_of teams rs = set teams \<union> set (map rs_home rs) \<union> set (map rs_away rs)"

lemma all_sides_empty: "all_sides k rs = [] \<longleftrightarrow> k \<notin> set (map rs_home rs) \<union> set (map rs_away rs)"
  by (induction rs) (auto simp: sides_def)

lemma table_get:
  "dict_get (apply_results rs (fold (\<lambda>team. dict_set team (blank team)) teams [])) k =
     (if k \<in> teams_of teams rs then Some (add_sides (all_sides k rs) (blank k)) else None)"
  using all_sides_empty[of k rs] by (auto simp: apply_results_get start_get teams_of_def)

definition row_of :: "string \<Rightarrow> string option \<Rightarrow> result list \<Rightarrow> string \<Rightarrow> trow" where
  "row_of competition season rs k = finish_row competition season (add_sides (all_sides k rs) (blank k))"

lemma row_of_team [simp]: "tr_team (row_of c s rs k) = k"
  using add_sides_fields[of "all_sides k rs" "blank k"]
  by (simp add: row_of_def finish_row_def set_difference_def Let_def) (simp add: blank_def)

text \<open>The rows of a table are the rows of its teams, each once.\<close>

lemma table_rows_teams:
  "distinct (map tr_team (table_rows c s teams rs)) \<and> set (table_rows c s teams rs) = row_of c s rs ` teams_of teams rs"
proof -
  let ?t = "apply_results rs (fold (\<lambda>team. dict_set team (blank team)) teams [])"
  have ok: "table_ok ?t" by (intro table_ok_results start_ok) (simp add: table_ok_def)
  then have d: "dict_ok ?t" by (simp add: table_ok_def)
  have mem: "(k, r) \<in> set ?t \<longleftrightarrow> dict_get ?t k = Some r" for k r
    using d by (simp add: dict_ok_def)
  have team: "tr_team (finish_row c s r) = k" if "(k, r) \<in> set ?t" for k r
    using ok that mem[of k r] by (simp add: table_ok_def finish_row_def set_difference_def Let_def)
  have "map tr_team (table_rows c s teams rs) = dict_keys ?t"
    unfolding table_rows_def using team by (auto intro!: map_cong)
  moreover have "set (table_rows c s teams rs) = row_of c s rs ` teams_of teams rs"
  proof -
    have "set (table_rows c s teams rs) = {finish_row c s r | k r. (k, r) \<in> set ?t}"
      unfolding table_rows_def by (force simp: image_iff)
    also have "\<dots> = {finish_row c s r | k r. dict_get ?t k = Some r}" by (simp add: mem)
    also have "\<dots> = row_of c s rs ` teams_of teams rs"
      unfolding table_get by (auto simp: row_of_def split: if_splits)
    finally show ?thesis .
  qed
  ultimately show ?thesis using d by (simp add: dict_ok_def)
qed


section \<open>Ranking\<close>

lemma sort_by_name_unique:
  assumes "mset xs = mset ys" "distinct (map tr_team xs)" "\<And>r. snd (key r) = tr_team r"
  shows "sort_key key xs = sort_key key ys"
proof (rule sort_key_inj_key_eq)
  show "mset xs = mset (sort_key key ys)" using assms(1) by simp
  show "inj_on key (set xs)"
    using assms(2) by (auto simp: inj_on_def distinct_map) (metis assms(3))
qed simp

lemma distinct_rows_mset:
  assumes "distinct (map tr_team xs)" "distinct (map tr_team ys)" "set xs = set ys"
  shows "mset xs = mset ys"
  using assms by (simp add: set_eq_iff_mset_eq_distinct distinct_map)

lemma all_sides_perm: "mset rs = mset us \<Longrightarrow> mset (all_sides k rs) = mset (all_sides k us)"
proof -
  have "mset (all_sides k rs) = (\<Sum>r\<in>#mset rs. mset (sides k r))" for rs by (induction rs) simp_all
  then show "mset rs = mset us \<Longrightarrow> mset (all_sides k rs) = mset (all_sides k us)" by simp
qed

lemma sums_perm: "mset rs = mset us \<Longrightarrow> add_sides (all_sides k rs) r = add_sides (all_sides k us) r"
  by (intro add_sides_perm all_sides_perm)

lemma row_of_perm: "mset rs = mset us \<Longrightarrow> row_of c s rs = row_of c s us"
  using sums_perm[of rs us] by (simp add: row_of_def fun_eq_iff)

lemma teams_of_perm: "mset rs = mset us \<Longrightarrow> set teams = set teams' \<Longrightarrow> teams_of teams rs = teams_of teams' us"
  by (auto simp: teams_of_def dest: mset_eq_setD)

lemma mini_get:
  "dict_get (mini_table rs teams) k =
     (if k \<in> set teams then Some (set_difference (add_sides (all_sides k (filter (among teams) rs)) (blank k))) else None)"
proof -
  have g: "dict_get (map (\<lambda>t. (t, blank t)) teams) k = (if k \<in> set teams then Some (blank k) else None)"
    by (induction teams) auto
  have e: "all_sides k (filter (among teams) rs) = []" if "k \<notin> set teams"
    using that by (auto simp: all_sides_empty among_def)
  have m: "dict_get (map (\<lambda>(k, r). (k, set_difference r)) t) k = map_option set_difference (dict_get t k)" for t
    by (induction t) auto
  show ?thesis unfolding mini_table_def m apply_results_get g using e by auto
qed

lemma mini_key_perm:
  assumes "mset rs = mset us" "set teams = set teams'"
  shows "mini_key (mini_table rs teams) = mini_key (mini_table us teams')"
proof -
  have "among teams = among teams'" using assms(2) by (simp add: among_def fun_eq_iff)
  then have "mset (filter (among teams) rs) = mset (filter (among teams') us)" using assms(1) by (simp add: mset_filter)
  then have "dict_get (mini_table rs teams) k = dict_get (mini_table us teams') k" for k
    using assms(2) sums_perm[of "filter (among teams) rs" "filter (among teams') us"] by (simp add: mini_get)
  then show ?thesis by (simp add: mini_key_def fun_eq_iff)
qed

lemma complete_perm:
  assumes "mset rs = mset us" "mset teams = mset teams'"
  shows "head_to_head_complete rs teams = head_to_head_complete us teams'"
proof -
  have "among teams = among teams'" using assms(2) by (auto simp: among_def fun_eq_iff dest: mset_eq_setD)
  then have "set (map (\<lambda>r. (rs_home r, rs_away r)) (filter (among teams) rs)) = set (map (\<lambda>r. (rs_home r, rs_away r)) (filter (among teams') us))"
    using mset_eq_setD[OF assms(1)] by auto
  then show ?thesis
    unfolding head_to_head_complete_def length_remdups_card_conv using mset_eq_length[OF assms(2)] by simp
qed

lemma key_names [simp]: "snd (overall_key rule r) = tr_team r" "snd (mini_key m r) = tr_team r"
  by (simp_all add: overall_key_def mini_key_def Let_def)

lemma rank_group_perm:
  assumes "mset rs = mset us" "mset xs = mset ys" "distinct (map tr_team xs)"
  shows "rank_group rs rule xs = rank_group us rule ys"
proof -
  have teams: "mset (map tr_team xs) = mset (map tr_team ys)" using assms(2) by simp
  then have "set (map tr_team xs) = set (map tr_team ys)" by (rule mset_eq_setD)
  from mini_key_perm[OF assms(1) this] show ?thesis
    using complete_perm[OF assms(1) teams] mset_eq_length[OF assms(2)]
      sort_by_name_unique[OF assms(2,3), of "overall_key rule"]
      sort_by_name_unique[OF assms(2,3), of "mini_key (mini_table us (map tr_team ys))"]
    by (simp add: rank_group_def Let_def)
qed

lemma rank_rows_perm:
  assumes "mset rs = mset us" "mset xs = mset ys" "distinct (map tr_team xs)"
  shows "rank_rows rule rs xs = rank_rows rule us ys"
proof -
  have points: "sort (remdups (map tr_points xs)) = sort (remdups (map tr_points ys))"
    using mset_eq_setD[OF assms(2)] by (intro sorted_distinct_set_unique) simp_all
  have "rank_group rs rule (filter (\<lambda>r. tr_points r = p) xs) = rank_group us rule (filter (\<lambda>r. tr_points r = p) ys)" for p
    using assms(2,3) by (intro rank_group_perm assms(1)) (simp_all add: mset_filter distinct_map_filter)
  then show ?thesis
    using sort_by_name_unique[OF assms(2,3), of "overall_key rule"] points
    by (simp add: rank_rows_def rank_with_head_to_head_def)
qed


lemma standings_Inr:
  assumes "standings_table f c s teams = Inr table"
  shows "\<exists>rule. league_rule_of c = Inr rule
       \<and> table = enumerate 1 (rank_rows rule (completed_results (fr_rows f)) (table_rows c s teams (completed_results (fr_rows f))))"
  using assms by (auto simp: standings_table_def bindE_Inr Let_def)

text \<open>
  C32: a league table is a function of the results.  Two match tables with the same completed
  results, in whatever order and with whatever unfinished matches besides, and two listings of the
  same teams give the same league table, positions included.
\<close>

theorem standings_order_free:
  assumes "mset (completed_results (fr_rows f)) = mset (completed_results (fr_rows g))"
    and "fr_columns f = fr_columns g" "set teams = set teams'"
  shows "standings_table f c s teams = standings_table g c s teams'"
proof -
  let ?rs = "completed_results (fr_rows f)" and ?us = "completed_results (fr_rows g)"
  have "set (table_rows c s teams ?rs) = set (table_rows c s teams' ?us)"
    using table_rows_teams[of c s teams ?rs] table_rows_teams[of c s teams' ?us]
    by (simp add: row_of_perm[OF assms(1)] teams_of_perm[OF assms(1,3)])
  then have "mset (table_rows c s teams ?rs) = mset (table_rows c s teams' ?us)"
    using table_rows_teams by (intro distinct_rows_mset) blast+
  then have "rank_rows rule ?rs (table_rows c s teams ?rs) = rank_rows rule ?us (table_rows c s teams' ?us)" for rule
    using table_rows_teams by (intro rank_rows_perm assms(1)) blast+
  then show ?thesis
    using assms(2) by (simp add: standings_table_def has_column_def[abs_def] Let_def)
qed

section \<open>The ranking\<close>

lemma mset_rank_group [simp]: "mset (rank_group rs rule xs) = mset xs"
  by (simp add: rank_group_def Let_def)

lemma mset_split_points:
  "distinct ps \<Longrightarrow> set (map tr_points xs) \<subseteq> set ps \<Longrightarrow>
   (\<Sum>p\<leftarrow>ps. mset (filter (\<lambda>r. tr_points r = p) xs)) = mset xs"
proof (induction xs)
  case (Cons x xs)
  have "(\<Sum>p\<leftarrow>ps. mset (filter (\<lambda>r. tr_points r = p) (x # xs)))
      = (\<Sum>p\<leftarrow>ps. (if tr_points x = p then {#x#} else {#}) + mset (filter (\<lambda>r. tr_points r = p) xs))"
    by (rule arg_cong[where f = sum_list]) auto
  also have "\<dots> = (\<Sum>p\<leftarrow>ps. if tr_points x = p then {#x#} else {#}) + mset xs"
    using Cons by (simp add: sum_list_addf)
  also have "(\<Sum>p\<leftarrow>ps. if tr_points x = p then {#x#} else {#}) = {#x#}"
    using Cons.prems by (simp add: sum_list_distinct_conv_sum_set sum.delta)
  finally show ?case by simp
qed (simp add: sum_list_0)

lemma mset_rank_rows: "mset (rank_rows rule rs rows) = mset rows"
proof -
  have "mset (rank_with_head_to_head rows rs rule)
      = (\<Sum>p\<leftarrow>rev (sort (remdups (map tr_points rows))). mset (filter (\<lambda>r. tr_points r = p) rows))"
    by (simp add: rank_with_head_to_head_def mset_concat comp_def)
  also have "\<dots> = mset rows" by (intro mset_split_points) simp_all
  finally show ?thesis by (simp add: rank_rows_def)
qed

text \<open>How a table separates two teams.\<close>

definition tied_rows :: "trow list \<Rightarrow> trow \<Rightarrow> trow list" where
  "tied_rows rows a = filter (\<lambda>r. tr_points r = tr_points a) rows"

definition decided_by_head_to_head :: "league_rule \<Rightarrow> result list \<Rightarrow> trow list \<Rightarrow> trow \<Rightarrow> bool" where
  "decided_by_head_to_head rule rs rows a \<longleftrightarrow>
     lr_head_to_head_on_points rule \<and> length (tied_rows rows a) \<noteq> 1
     \<and> head_to_head_complete rs (map tr_team (tied_rows rows a))"

definition ahead :: "league_rule \<Rightarrow> result list \<Rightarrow> trow list \<Rightarrow> trow \<Rightarrow> trow \<Rightarrow> bool" where
  "ahead rule rs rows a b \<longleftrightarrow>
     tr_points b < tr_points a
     \<or> tr_points a = tr_points b
        \<and> (if decided_by_head_to_head rule rs rows a
           then mini_key (mini_table rs (map tr_team (tied_rows rows a))) a < mini_key (mini_table rs (map tr_team (tied_rows rows a))) b
           else overall_key rule a < overall_key rule b)"

lemma sorted_keys_strict:
  assumes "distinct (map tr_team xs)" "\<And>r. snd (key r) = tr_team r"
  shows "sorted_wrt (\<lambda>a b. key a < key b) (sort_key key xs)"
proof -
  let ?ys = "sort_key key xs"
  have d: "distinct (map tr_team ?ys)"
    using assms(1) by (metis distinct_map distinct_sort set_sort)
  have "distinct (map key ?ys)"
  proof -
    have "map tr_team ?ys = map snd (map key ?ys)" by (simp add: assms(2))
    then show ?thesis using d by (metis distinct_map)
  qed
  then have "sorted_wrt (<) (map key ?ys)" by (simp add: strict_sorted_iff)
  then show ?thesis by (simp add: sorted_wrt_map)
qed


lemma sorted_wrt_groups:
  assumes "sorted_wrt R ps" "\<And>p. p \<in> set ps \<Longrightarrow> sorted_wrt P (g p)"
    and "\<And>p q x y. R p q \<Longrightarrow> x \<in> set (g p) \<Longrightarrow> y \<in> set (g q) \<Longrightarrow> P x y"
  shows "sorted_wrt P (concat (map g ps))"
  using assms by (induction ps) (auto simp: sorted_wrt_append)

lemma overall_points: "overall_key rule a < overall_key rule b \<Longrightarrow> tr_points b \<le> tr_points a"
  by (auto simp: overall_key_def)

lemma set_rank_group [simp]: "set (rank_group rs rule xs) = set xs"
  by (rule mset_eq_setD) simp

lemma ahead_sorted:
  assumes "distinct (map tr_team rows)"
  shows "sorted_wrt (ahead rule rs rows) (rank_rows rule rs rows)"
proof (cases "lr_head_to_head_on_points rule")
  case False
  have "ahead rule rs rows a b" if "overall_key rule a < overall_key rule b" for a b
    using overall_points[OF that] that False by (auto simp: ahead_def decided_by_head_to_head_def)
  then have "sorted_wrt (ahead rule rs rows) (sort_key (overall_key rule) rows)"
    using sorted_wrt_mono_rel[OF _ sorted_keys_strict[OF assms, of "overall_key rule"], of "ahead rule rs rows"] by simp
  then show ?thesis using False by (simp add: rank_rows_def)
next
  case True
  let ?g = "\<lambda>p. rank_group rs rule (filter (\<lambda>r. tr_points r = p) rows)"
  have "sorted_wrt (ahead rule rs rows) (?g p)" for p
  proof -
    let ?xs = "filter (\<lambda>r. tr_points r = p) rows"
    let ?key = "if length ?xs = 1 \<or> \<not> head_to_head_complete rs (map tr_team ?xs) then overall_key rule
                else mini_key (mini_table rs (map tr_team ?xs))"
    have "distinct (map tr_team ?xs)" using assms by (rule distinct_map_filter)
    then have k: "sorted_wrt (\<lambda>a b. ?key a < ?key b) (sort_key ?key ?xs)" by (rule sorted_keys_strict) simp
    have t: "tied_rows rows a = ?xs" if "tr_points a = p" for a using that by (simp add: tied_rows_def)
    have "sorted_wrt (ahead rule rs rows) (sort_key ?key ?xs)"
    proof (rule sorted_wrt_mono_rel[OF _ k])
      fix a b
      assume "a \<in> set (sort_key ?key ?xs)" "b \<in> set (sort_key ?key ?xs)" and less: "?key a < ?key b"
      then have ab: "tr_points a = p" "tr_points b = p" by simp_all
      then show "ahead rule rs rows a b"
        using less True by (auto simp: ahead_def decided_by_head_to_head_def t[OF ab(1)] split: if_splits)
    qed
    then show ?thesis
      by (cases "length ?xs = 1 \<or> \<not> head_to_head_complete rs (map tr_team ?xs)") (auto simp: rank_group_def Let_def)
  qed
  moreover have "sorted_wrt (>) (rev (sort (remdups (map tr_points rows))))"
    by (simp add: sorted_wrt_rev) (simp add: strict_sorted_iff)
  ultimately have "sorted_wrt (ahead rule rs rows) (concat (map ?g (rev (sort (remdups (map tr_points rows))))))"
    by (intro sorted_wrt_groups[where R = "(>)"]) (auto simp: ahead_def)
  then show ?thesis using True by (simp add: rank_rows_def rank_with_head_to_head_def)
qed

text \<open>
  C19: the ranking.  Positions run from 1, every team asked for or played appears once, and two teams
  are separated by points first; teams level on points by the table of their own matches where the
  league uses it and every pair has met home and away, and by the league's overall criteria
  otherwise; names only where everything else is level.
\<close>

theorem standings_ranked:
  assumes "standings_table f c s teams = Inr table" "league_rule_of c = Inr rule"
  shows "map fst table = [1..<Suc (length table)]
       \<and> distinct (map (tr_team \<circ> snd) table)
       \<and> set (map (tr_team \<circ> snd) table) = teams_of teams (completed_results (fr_rows f))
       \<and> sorted_wrt (ahead rule (completed_results (fr_rows f)) (table_rows c s teams (completed_results (fr_rows f)))) (map snd table)"
proof -
  let ?rs = "completed_results (fr_rows f)"
  let ?rows = "table_rows c s teams ?rs"
  have t: "table = enumerate 1 (rank_rows rule ?rs ?rows)" using standings_Inr[OF assms(1)] assms(2) by auto
  have m: "mset (rank_rows rule ?rs ?rows) = mset ?rows" by (rule mset_rank_rows)
  note r = table_rows_teams[of c s teams ?rs]
  have names: "mset (map tr_team (rank_rows rule ?rs ?rows)) = mset (map tr_team ?rows)" using m by simp
  have "distinct (map tr_team (rank_rows rule ?rs ?rows))" using r names mset_eq_imp_distinct_iff by blast
  moreover have "set (map tr_team (rank_rows rule ?rs ?rows)) = teams_of teams ?rs"
    using mset_eq_setD[OF names] r by (simp add: image_image)
  ultimately show ?thesis
    using ahead_sorted[OF conjunct1[OF r], of rule ?rs] t by (simp flip: map_map)
qed


section \<open>The books\<close>

lemma sides_sum:
  assumes "finite T" "rs_home r \<in> T" "rs_away r \<in> T"
  shows "(\<Sum>k\<in>T. sum_list (map g (sides k r))) = g (rs_hg r, rs_ag r) + (g (rs_ag r, rs_hg r) :: int)"
proof -
  have "sum_list (map g (sides k r))
      = (if k = rs_home r then g (rs_hg r, rs_ag r) else 0) + (if k = rs_away r then g (rs_ag r, rs_hg r) else 0)" for k
    by (auto simp: sides_def)
  then show ?thesis using assms by (simp add: sum.distrib sum.delta)
qed

lemma all_sides_sum:
  assumes "finite T" "set (map rs_home rs) \<union> set (map rs_away rs) \<subseteq> T"
  shows "(\<Sum>k\<in>T. sum_list (map g (all_sides k rs)))
       = (\<Sum>r\<leftarrow>rs. g (rs_hg r, rs_ag r) + (g (rs_ag r, rs_hg r) :: int))"
  using assms(2)
proof (induction rs)
  case (Cons r rs)
  then show ?case using sides_sum[OF assms(1), of r g] by (simp add: sum.distrib)
qed simp

lemma count_if_sum: "count_if p xs = sum_list (map (\<lambda>x. if p x then 1 else 0) xs)"
  by (induction xs) (auto simp: count_if_def)

lemma row_of_fields:
  "tr_played (row_of c s rs k) = sum_list (map (\<lambda>_. 1) (all_sides k rs))"
  "tr_won (row_of c s rs k) = sum_list (map (\<lambda>(f, a). if a < f then 1 else 0) (all_sides k rs))"
  "tr_drawn (row_of c s rs k) = sum_list (map (\<lambda>(f, a). if f = a then 1 else 0) (all_sides k rs))"
  "tr_lost (row_of c s rs k) = sum_list (map (\<lambda>(f, a). if f < a then 1 else 0) (all_sides k rs))"
  "tr_for (row_of c s rs k) = sum_list (map fst (all_sides k rs))"
  "tr_against (row_of c s rs k) = sum_list (map snd (all_sides k rs))"
  "tr_diff (row_of c s rs k) = tr_for (row_of c s rs k) - tr_against (row_of c s rs k)"
  "tr_adjustment (row_of c s rs k) = adjustment c s k"
  "tr_points (row_of c s rs k) = 3 * tr_won (row_of c s rs k) + tr_drawn (row_of c s rs k) + adjustment c s k"
proof -
  note f = add_sides_fields[of "all_sides k rs" "blank k"]
  have b: "tr_played (blank k) = 0" "tr_won (blank k) = 0" "tr_drawn (blank k) = 0" "tr_lost (blank k) = 0"
      "tr_for (blank k) = 0" "tr_against (blank k) = 0" "tr_points (blank k) = 0" "tr_team (blank k) = k"
    by (simp_all add: blank_def)
  have len: "int (length ss) = sum_list (map (\<lambda>_. 1) ss)" for ss :: "(int \<times> int) list" by (induction ss) auto
  note defs = row_of_def finish_row_def set_difference_def Let_def
  show "tr_played (row_of c s rs k) = sum_list (map (\<lambda>_. 1) (all_sides k rs))"
    using f len[of "all_sides k rs"] by (simp add: defs b)
  show "tr_won (row_of c s rs k) = sum_list (map (\<lambda>(f, a). if a < f then 1 else 0) (all_sides k rs))"
       "tr_drawn (row_of c s rs k) = sum_list (map (\<lambda>(f, a). if f = a then 1 else 0) (all_sides k rs))"
       "tr_lost (row_of c s rs k) = sum_list (map (\<lambda>(f, a). if f < a then 1 else 0) (all_sides k rs))"
    using f by (simp_all add: defs b count_if_sum case_prod_unfold)
  show "tr_for (row_of c s rs k) = sum_list (map fst (all_sides k rs))"
       "tr_against (row_of c s rs k) = sum_list (map snd (all_sides k rs))"
       "tr_diff (row_of c s rs k) = tr_for (row_of c s rs k) - tr_against (row_of c s rs k)"
       "tr_adjustment (row_of c s rs k) = adjustment c s k"
       "tr_points (row_of c s rs k) = 3 * tr_won (row_of c s rs k) + tr_drawn (row_of c s rs k) + adjustment c s k"
    using f by (simp_all add: defs b)
qed

lemma row_balance: "tr_played (row_of c s rs k) = tr_won (row_of c s rs k) + tr_drawn (row_of c s rs k) + tr_lost (row_of c s rs k)"
proof -
  have "sum_list (map (\<lambda>_. 1) ss) = sum_list (map (\<lambda>(f, a). if a < f then 1 else 0) ss)
      + sum_list (map (\<lambda>(f, a). if f = a then 1 else 0) ss) + sum_list (map (\<lambda>(f, a). if f < a then 1 else (0 :: int)) ss)"
    for ss :: "(int \<times> int) list" by (induction ss) auto
  then show ?thesis by (simp add: row_of_fields)
qed

text \<open>
  The books of a league table balance.  In every row the matches played are the wins, draws
  and losses, the points are three a win and one a draw plus the recorded adjustment, and the
  difference is goals for less goals against; over the table every match is counted twice, every
  win is another team's loss and every goal scored is a goal conceded.
\<close>

theorem standings_books_balance:
  assumes "standings_table f c s teams = Inr table"
  shows "list_all (\<lambda>(_, r). tr_played r = tr_won r + tr_drawn r + tr_lost r
              \<and> tr_points r = 3 * tr_won r + tr_drawn r + tr_adjustment r \<and> tr_diff r = tr_for r - tr_against r
              \<and> tr_adjustment r = adjustment c s (tr_team r)) table
       \<and> (\<Sum>(_, r)\<leftarrow>table. tr_played r) = 2 * int (length (completed_results (fr_rows f)))
       \<and> (\<Sum>(_, r)\<leftarrow>table. tr_won r) = (\<Sum>(_, r)\<leftarrow>table. tr_lost r)
       \<and> (\<Sum>(_, r)\<leftarrow>table. tr_for r) = (\<Sum>(_, r)\<leftarrow>table. tr_against r)"
proof -
  let ?rs = "completed_results (fr_rows f)"
  let ?T = "teams_of teams ?rs"
  obtain rule where t: "table = enumerate 1 (rank_rows rule ?rs (table_rows c s teams ?rs))"
    using standings_Inr[OF assms] by blast
  note r = table_rows_teams[of c s teams ?rs]
  have m: "mset (map snd table) = mset (table_rows c s teams ?rs)" using mset_rank_rows t by simp
  have fin: "finite ?T" "set (map rs_home ?rs) \<union> set (map rs_away ?rs) \<subseteq> ?T" by (auto simp: teams_of_def)
  have inj: "inj_on (row_of c s ?rs) ?T" by (rule inj_on_inverseI[where g = tr_team]) simp
  have total: "(\<Sum>(_, x)\<leftarrow>table. h x) = (\<Sum>k\<in>?T. h (row_of c s ?rs k))" for h :: "trow \<Rightarrow> int"
  proof -
    have "(\<Sum>(_, x)\<leftarrow>table. h x) = sum_list (map h (map snd table))" by (simp add: comp_def case_prod_unfold)
    also have "\<dots> = sum_list (map h (table_rows c s teams ?rs))" by (metis m mset_map sum_mset_sum_list)
    also have "\<dots> = sum h (set (table_rows c s teams ?rs))"
      using r by (intro sum_list_distinct_conv_sum_set) (simp add: distinct_map)
    also have "\<dots> = (\<Sum>k\<in>?T. h (row_of c s ?rs k))" using r inj by (simp add: sum.reindex)
    finally show ?thesis .
  qed
  have rows: "\<exists>k. x = row_of c s ?rs k" if "(i, x) \<in> set table" for i x
    using that mset_eq_setD[OF m] r by (force simp: image_iff)
  have each: "list_all (\<lambda>(_, r). tr_played r = tr_won r + tr_drawn r + tr_lost r
              \<and> tr_points r = 3 * tr_won r + tr_drawn r + tr_adjustment r \<and> tr_diff r = tr_for r - tr_against r
              \<and> tr_adjustment r = adjustment c s (tr_team r)) table"
  proof (unfold list_all_iff, intro ballI)
    fix p assume "p \<in> set table"
    then have "(fst p, snd p) \<in> set table" by simp
    then obtain k where "snd p = row_of c s ?rs k" using rows by blast
    then obtain i k where "p = (i, row_of c s ?rs k)" by (metis prod.collapse)
    then show "case p of (_, r) \<Rightarrow> tr_played r = tr_won r + tr_drawn r + tr_lost r
              \<and> tr_points r = 3 * tr_won r + tr_drawn r + tr_adjustment r \<and> tr_diff r = tr_for r - tr_against r
              \<and> tr_adjustment r = adjustment c s (tr_team r)"
      using row_balance[of c s ?rs k] row_of_fields(7,8,9)[of c s ?rs k] by simp
  qed
  have two: "(\<Sum>r\<leftarrow>us. 1 + (1 :: int)) = 2 * int (length us)" for us :: "result list" by (induction us) simp_all
  show ?thesis
    using each two[of ?rs] unfolding total row_of_fields all_sides_sum[OF fin] by (simp add: algebra_simps sum_list_addf)
qed


text \<open>
  Outside the two leagues that rank on head to head, it is never consulted.  The published
  tie-break order of England, Germany and France ends with \<open>head_to_head\<close>, but two teams level on
  points, goal difference, goals and wins are placed by name, whatever their own matches say.
\<close>

theorem head_to_head_never_consulted:
  assumes "standings_snapshot_of f c season teams = Inr snap" "c \<notin> {''spain-la-liga'', ''italy-serie-a''}"
    and "(i, a) \<in> set (ss_table snap)" "(j, b) \<in> set (ss_table snap)" "tr_team a < tr_team b"
    and "tr_points a = tr_points b" "tr_diff a = tr_diff b" "tr_for a = tr_for b" "tr_won a = tr_won b"
  shows "''head_to_head'' \<in> set (ss_tie_break_order snap) \<and> i < j"
proof -
  obtain rule table where t: "league_rule_of c = Inr rule" "standings_table f c (Some season) teams = Inr table"
      "ss_tie_break_order snap = lr_primary rule" "ss_table snap = table"
    using assms(1) by (auto simp: standings_snapshot_of_def bindE_Inr)
  have rule: "rule \<in> {england, germany, france}"
    using t(1) assms(2) by (auto simp: league_rule_of_def league_rules_def england_def spain_def germany_def italy_def france_def
        split: if_splits)
  then have "''head_to_head'' \<in> set (lr_primary rule)" "\<not> lr_head_to_head_on_points rule"
    by (auto simp: england_def germany_def france_def)
  moreover have "overall_key rule a < overall_key rule b"
    using rule assms(5-9) by (auto simp: overall_key_def england_def germany_def france_def)
  moreover have "i < j"
  proof -
    let ?xs = "rank_rows rule (completed_results (fr_rows f)) (table_rows c (Some season) teams (completed_results (fr_rows f)))"
    have xs: "?xs = sort_key (overall_key rule) (table_rows c (Some season) teams (completed_results (fr_rows f)))"
      using calculation(2) by (simp add: rank_rows_def)
    have "table = enumerate 1 ?xs" using standings_Inr[OF t(2)] t(1) by auto
    then have ij: "1 \<le> i" "i - 1 < length ?xs" "?xs ! (i - 1) = a" "1 \<le> j" "j - 1 < length ?xs" "?xs ! (j - 1) = b"
      using assms(3,4) t(4) by (auto simp: in_set_enumerate_eq)
    have "sorted (map (overall_key rule) ?xs)" unfolding xs by simp
    then have "j - 1 \<le> i - 1 \<Longrightarrow> overall_key rule b \<le> overall_key rule a"
      using ij sorted_nth_mono[of "map (overall_key rule) ?xs" "j - 1" "i - 1"] by simp
    then have "\<not> j - 1 \<le> i - 1" using calculation(3) by (meson leD)
    then show "i < j" by simp
  qed
  ultimately show ?thesis using t(3) by simp
qed

section \<open>Witnesses\<close>

text \<open>\<open>B\<close> beats \<open>A\<close> twice; both end level behind \<open>D\<close>.\<close>

definition league_match :: "string \<Rightarrow> string \<Rightarrow> int \<Rightarrow> int \<Rightarrow> mrow" where
  "league_match h a hg ag = sample_row\<lparr>mr_home := h, mr_away := a, mr_home_score := Some hg, mr_away_score := Some ag\<rparr>"

definition league_frame :: frame where
  "league_frame = \<lparr> fr_columns = required_columns,
     fr_rows = [league_match ''A'' ''B'' 0 1, league_match ''B'' ''A'' 1 0, league_match ''A'' ''C'' 1 0, league_match ''C'' ''A'' 0 1,
                league_match ''B'' ''D'' 0 1, league_match ''D'' ''B'' 1 0] \<rparr>"

definition league_row :: "string \<Rightarrow> int \<Rightarrow> int \<Rightarrow> int \<Rightarrow> int \<Rightarrow> trow" where
  "league_row t w l f a = \<lparr> tr_team = t, tr_played = w + l, tr_won = w, tr_drawn = 0, tr_lost = l, tr_for = f, tr_against = a,
     tr_diff = f - a, tr_adjustment = 0, tr_points = 3 * w \<rparr>"

definition league_table :: "(nat \<times> trow) list" where
  "league_table = [(1, league_row ''D'' 2 0 2 0), (2, league_row ''A'' 2 2 2 2), (3, league_row ''B'' 2 2 2 2), (4, league_row ''C'' 0 2 0 2)]"

lemma league_sample:
  "standings_table league_frame ''england-premier-league'' (Some ''2025-26'') [] = Inr league_table"
  by code_simp

lemma league_snapshot:
  "\<exists>snap. standings_snapshot_of league_frame ''england-premier-league'' ''2025-26'' [] = Inr snap \<and> ss_table snap = league_table"
proof -
  have "league_rule_of ''england-premier-league'' = Inr england" by code_simp
  then show ?thesis by (simp add: standings_snapshot_of_def league_sample)
qed

lemma standings_order_free_witness:
  "standings_table (league_frame\<lparr>fr_rows := rev (fr_rows league_frame)\<rparr>) ''italy-serie-a'' None [''A'', ''B'']
     = standings_table league_frame ''italy-serie-a'' None [''B'', ''A'', ''B'']"
proof (rule standings_order_free)
  have "completed_results (rev ms) = rev (completed_results ms)" for ms
    by (simp add: completed_results_def map_filter_def rev_filter rev_map)
  then show "mset (completed_results (fr_rows (league_frame\<lparr>fr_rows := rev (fr_rows league_frame)\<rparr>)))
      = mset (completed_results (fr_rows league_frame))" by simp
qed (auto simp: league_frame_def)

lemma standings_ranked_witness:
  "sorted_wrt (ahead england (completed_results (fr_rows league_frame))
     (table_rows ''england-premier-league'' (Some ''2025-26'') [] (completed_results (fr_rows league_frame)))) (map snd league_table)"
proof -
  have "league_rule_of ''england-premier-league'' = Inr england" by code_simp
  from standings_ranked[OF league_sample this] show ?thesis by blast
qed

lemma standings_books_balance_witness:
  "(\<Sum>(_, r)\<leftarrow>league_table. tr_for r) = (\<Sum>(_, r)\<leftarrow>league_table. tr_against r)
   \<and> (\<Sum>(_, r)\<leftarrow>league_table. tr_played r) = 12"
proof -
  have "length (completed_results (fr_rows league_frame)) = 6" by code_simp
  then show ?thesis using standings_books_balance[OF league_sample] by simp
qed

lemma head_to_head_never_consulted_witness:
  "\<exists>snap i j a b. standings_snapshot_of league_frame ''england-premier-league'' ''2025-26'' [] = Inr snap
     \<and> (i, a) \<in> set (ss_table snap) \<and> (j, b) \<in> set (ss_table snap) \<and> i < j \<and> tr_team a = ''A'' \<and> tr_team b = ''B''
     \<and> head_to_head_complete (completed_results (fr_rows league_frame)) [''A'', ''B'']
     \<and> tr_points (the (dict_get (mini_table (completed_results (fr_rows league_frame)) [''A'', ''B'']) ''A'')) = 0
     \<and> tr_points (the (dict_get (mini_table (completed_results (fr_rows league_frame)) [''A'', ''B'']) ''B'')) = 6"
proof -
  obtain snap where s: "standings_snapshot_of league_frame ''england-premier-league'' ''2025-26'' [] = Inr snap"
      "ss_table snap = league_table"
    using league_snapshot by blast
  let ?a = "league_row ''A'' 2 2 2 2" and ?b = "league_row ''B'' 2 2 2 2"
  have m: "(2, ?a) \<in> set (ss_table snap)" "(3, ?b) \<in> set (ss_table snap)" by (simp_all add: s(2) league_table_def)
  have "tr_team ?a < tr_team ?b" by code_simp
  from head_to_head_never_consulted[OF s(1) _ m this]
  have "(2 :: nat) < 3" by (simp add: league_row_def)
  moreover have "head_to_head_complete (completed_results (fr_rows league_frame)) [''A'', ''B'']
     \<and> tr_points (the (dict_get (mini_table (completed_results (fr_rows league_frame)) [''A'', ''B'']) ''A'')) = 0
     \<and> tr_points (the (dict_get (mini_table (completed_results (fr_rows league_frame)) [''A'', ''B'']) ''B'')) = 6"
    by code_simp
  ultimately show ?thesis using s(1) m by (fastforce simp: league_row_def)
qed

end
