(* ===== verification/Metrics.thy ===== *)
theory Metrics
  imports Rounding
begin

text \<open>
  The scores of \<open>src/core/golavo_core/evaluation.py\<close>: \<open>_metrics\<close> and \<open>_wilson\<close>.  Probabilities are
  rationals, means and squares are exact; a logarithm or a square root is the real one.  Results
  are in micro-units, the last place \<open>round(x, 6)\<close> keeps.

  The edges of the reliability bins are the floats of \<open>np.linspace(0, 1, 11)\<close>: \<open>i * 0.1\<close> is the
  decimal for every \<open>i\<close> but 3, 6 and 7, whose floats lie above it (by less than \<open>10^-16\<close>), so that
  a confidence of exactly 0.6 falls below the edge that is printed as 0.6.
\<close>

type_synonym prob_row = "rat \<times> rat \<times> rat"

definition nth3 :: "prob_row \<Rightarrow> nat \<Rightarrow> rat" where
  "nth3 p i = (case p of (h, d, a) \<Rightarrow> if i = 0 then h else if i = 1 then d else a)"

definition one_hot :: "nat \<Rightarrow> prob_row" where
  "one_hot i = (if i = 0 then (1, 0, 0) else if i = 1 then (0, 1, 0) else (0, 0, 1))"

definition clip :: "rat \<Rightarrow> rat" where
  "clip p = min 1 (max (1 / 10 ^ 12) p)"

definition mean :: "'a::division_ring list \<Rightarrow> 'a" where
  "mean xs = sum_list xs / of_nat (length xs)"

definition square_error :: "prob_row \<times> nat \<Rightarrow> rat" where
  "square_error r = (case r of ((h, d, a), i) \<Rightarrow> case one_hot i of (x, y, z) \<Rightarrow> (h - x)\<^sup>2 + (d - y)\<^sup>2 + (a - z)\<^sup>2)"

text \<open>The ranked probability score works on cumulative probabilities.\<close>

definition cumulative_error :: "prob_row \<times> nat \<Rightarrow> rat" where
  "cumulative_error r =
     (case r of ((h, d, a), i) \<Rightarrow> case one_hot i of (x, y, z) \<Rightarrow> (h - x)\<^sup>2 + ((h + d) - (x + y))\<^sup>2)"

definition confidence :: "prob_row \<Rightarrow> rat" where
  "confidence p = (case p of (h, d, a) \<Rightarrow> max h (max d a))"

definition predicted :: "prob_row \<Rightarrow> nat" where
  "predicted p = (case p of (h, d, a) \<Rightarrow> if h \<ge> d \<and> h \<ge> a then 0 else if d \<ge> a then 1 else 2)"

definition wilson_z :: real where
  "wilson_z = 1959963984540054 / 10 ^ 15"

definition wilson :: "nat \<Rightarrow> nat \<Rightarrow> (real \<times> real) option" where
  "wilson hits trials =
     (if trials = 0 then None
      else
        let n = of_nat trials; p = of_nat hits / n; z = wilson_z; denominator = 1 + z * z / n;
            centre = (p + z * z / (2 * n)) / denominator;
            margin = z * sqrt ((p * (1 - p) + z * z / (4 * n)) / n) / denominator
        in Some (max 0 (centre - margin), min 1 (centre + margin)))"

section \<open>Reliability bins\<close>

definition bin_edge :: "nat \<Rightarrow> rat" where
  "bin_edge i = of_nat i / 10 + (if i \<in> {3, 6, 7} then 1 / 10 ^ 16 else 0)"

definition in_bin :: "nat \<Rightarrow> rat \<Rightarrow> bool" where
  "in_bin i c \<longleftrightarrow> bin_edge i \<le> c \<and> (if i = 9 then c \<le> bin_edge (i + 1) else c < bin_edge (i + 1))"

record bin =
  bn_lower :: int
  bn_upper :: int
  bn_count :: nat
  bn_mean :: "int option"
  bn_accuracy :: "int option"
  bn_low :: "int option"
  bn_high :: "int option"

definition bin_rows :: "(prob_row \<times> nat) list \<Rightarrow> nat \<Rightarrow> (prob_row \<times> nat) list" where
  "bin_rows rows i = filter (\<lambda>(p, _). in_bin i (confidence p)) rows"

definition successes :: "(prob_row \<times> nat) list \<Rightarrow> nat" where
  "successes rows = length (filter (\<lambda>(p, o'). predicted p = o') rows)"

definition bin_accuracy :: "(prob_row \<times> nat) list \<Rightarrow> rat" where
  "bin_accuracy rows = of_nat (successes rows) / of_nat (length rows)"

definition bin_mean :: "(prob_row \<times> nat) list \<Rightarrow> rat" where
  "bin_mean rows = mean (map (\<lambda>(p, _). confidence p) rows)"

definition reliability_bin :: "(prob_row \<times> nat) list \<Rightarrow> nat \<Rightarrow> bin" where
  "reliability_bin rows i =
     (let masked = bin_rows rows i; count = length masked;
          ends = \<lparr> bn_lower = round6 (bin_edge i), bn_upper = round6 (bin_edge (i + 1)), bn_count = count,
                  bn_mean = None, bn_accuracy = None, bn_low = None, bn_high = None \<rparr>
      in (case wilson (successes masked) count of
            None \<Rightarrow> ends
          | Some (low, high) \<Rightarrow>
              ends\<lparr> bn_mean := Some (round6 (bin_mean masked)), bn_accuracy := Some (round6 (bin_accuracy masked)),
                    bn_low := Some (round6 low), bn_high := Some (round6 high) \<rparr>))"

definition calibration_error :: "(prob_row \<times> nat) list \<Rightarrow> rat" where
  "calibration_error rows =
     sum_list (map (\<lambda>i. let masked = bin_rows rows i in
         if masked = [] then 0
         else of_nat (length masked) / of_nat (length rows) * \<bar>bin_accuracy masked - bin_mean masked\<bar>) [0..<10])"

record metrics =
  mt_log_loss :: int
  mt_brier :: int
  mt_ece :: int
  mt_rps :: int
  mt_bins :: "bin list"

definition metrics_of :: "(prob_row \<times> nat) list \<Rightarrow> metrics" where
  "metrics_of rows =
     \<lparr> mt_log_loss = round6 (mean (map (\<lambda>(p, i). - ln (real_of_rat (clip (nth3 p i)))) rows)),
       mt_brier = round6 (mean (map square_error rows)),
       mt_ece = round6 (calibration_error rows),
       mt_rps = round6 (mean (map cumulative_error rows) / 2),
       mt_bins = map (reliability_bin rows) [0..<10] \<rparr>"

section \<open>The Wilson interval\<close>

text \<open>
  C38: the interval of a reliability bin brackets its accuracy and stays within [0, 1].
\<close>

theorem wilson_brackets:
  assumes "wilson s n = Some (low, high)" "s \<le> n"
  shows "0 \<le> low \<and> low \<le> real s / real n \<and> real s / real n \<le> high \<and> high \<le> 1"
proof -
  define m where "m = real n"
  define p where "p = real s / m"
  define z where "z = wilson_z"
  define den where "den = 1 + z * z / m"
  define c where "c = (p + z * z / (2 * m)) / den"
  define r where "r = sqrt ((p * (1 - p) + z * z / (4 * m)) / m)"
  have n: "0 < m" using assms(1) by (auto simp: m_def wilson_def split: if_splits)
  have z: "0 < z" by (simp add: z_def wilson_z_def)
  have p: "0 \<le> p" "p \<le> 1" using n assms(2) by (simp_all add: p_def m_def)
  have den: "1 \<le> den" using n by (simp add: den_def)
  have lh: "low = max 0 (c - z * r / den)" "high = min 1 (c + z * r / den)"
    using assms(1) n by (auto simp: wilson_def Let_def c_def r_def den_def z_def p_def m_def split: if_splits)
  have "(z / (2 * m))\<^sup>2 \<le> (p * (1 - p) + z * z / (4 * m)) / m"
    using p n mult_left_le[of p p] by (simp add: power2_eq_square field_simps)
  then have r: "z / (2 * m) \<le> r" unfolding r_def using z n by (intro real_le_rsqrt)
  have "c * den = p + z * z / (2 * m)" using den by (simp add: c_def)
  moreover have "p * den = p + p * (z * z / m)" by (simp add: den_def algebra_simps)
  ultimately have "c * den - p * den = (z * z / m) * (1 / 2 - p)" by (simp add: algebra_simps)
  then have "\<bar>c * den - p * den\<bar> = (z * z / m) * \<bar>1 / 2 - p\<bar>"
    using n z by (simp only: abs_mult) simp
  also have "\<dots> \<le> (z * z / m) * (1 / 2)"
  proof (rule mult_left_mono)
    show "\<bar>1 / 2 - p\<bar> \<le> 1 / 2" using p by linarith
  qed (use n z in simp)
  also have "\<dots> = z * (z / (2 * m))" by simp
  also have "\<dots> \<le> z * r" by (rule mult_left_mono[OF r]) (use z in simp)
  finally have "\<bar>c - p\<bar> * den \<le> z * r" using den by (simp add: abs_mult[symmetric] left_diff_distrib[symmetric] abs_mult)
  then have "\<bar>c - p\<bar> \<le> z * r / den" using den by (simp add: le_divide_eq)
  then show ?thesis using p lh unfolding p_def[symmetric] m_def[symmetric] by auto
qed

lemma wilson_brackets_witness: "\<exists>low high. wilson 3 4 = Some (low, high) \<and> low \<le> 3 / 4 \<and> 3 / 4 \<le> high"
proof -
  obtain low high where w: "wilson 3 4 = Some (low, high)" by (simp add: wilson_def Let_def)
  from wilson_brackets[OF this] w show ?thesis by auto
qed


section \<open>The bins\<close>

lemma bin_edge_mono: "bin_edge i \<le> bin_edge (Suc i)"
  by (auto simp: bin_edge_def field_simps)

lemma one_bin:
  assumes "0 \<le> c" "c \<le> 1"
  shows "(\<Sum>i\<leftarrow>[0..<10]. if in_bin i c then 1 else (0 :: int)) = 1"
proof -
  define g where "g i = (if bin_edge i \<le> c then 1 else (0 :: int))" for i
  have e: "bin_edge 0 = 0" "bin_edge 10 = 1" by (simp_all add: bin_edge_def)
  have step: "(if in_bin i c then 1 else 0) = g i - g (Suc i)" if "i \<noteq> 9" for i
    using that bin_edge_mono[of i] by (auto simp: in_bin_def g_def)
  have last: "(if in_bin 9 c then 1 else 0) = g 9"
    using assms(2) e(2) by (auto simp: in_bin_def g_def numeral_eq_Suc)
  have tele: "(\<Sum>i\<leftarrow>[0..<k]. g i - g (Suc i)) = g 0 - g k" for k by (induction k) simp_all
  have "[0..<10] = [0..<9] @ [9 :: nat]" by (simp add: upt_rec)
  then have "(\<Sum>i\<leftarrow>[0..<10]. if in_bin i c then 1 else 0) = (\<Sum>i\<leftarrow>[0..<9]. if in_bin i c then 1 else 0) + g 9"
    using last by simp
  also have "(\<Sum>i\<leftarrow>[0..<9]. if in_bin i c then 1 else 0) = (\<Sum>i\<leftarrow>[0..<9]. g i - g (Suc i))"
    by (rule arg_cong[where f = sum_list], rule map_cong) (simp_all add: step)
  finally show ?thesis using tele[of 9] assms(1) e(1) by (simp add: g_def)
qed

lemma bin_rows_total:
  assumes "list_all (\<lambda>(p, _). 0 \<le> confidence p \<and> confidence p \<le> 1) rows"
  shows "(\<Sum>i\<leftarrow>[0..<10]. int (length (bin_rows rows i))) = int (length rows)"
  using assms
proof (induction rows)
  case (Cons r rows)
  obtain p o' where r: "r = (p, o')" by (cases r)
  have "(\<Sum>i\<leftarrow>[0..<10]. int (length (bin_rows (r # rows) i)))
      = (\<Sum>i\<leftarrow>[0..<10]. (if in_bin i (confidence p) then 1 else 0) + int (length (bin_rows rows i)))"
    by (rule arg_cong[where f = sum_list], rule map_cong) (simp_all add: bin_rows_def r)
  also have "\<dots> = 1 + int (length rows)"
    using Cons one_bin[of "confidence p"] by (simp add: sum_list_addf r del: upt.simps)
  finally show ?case by simp
qed (simp add: bin_rows_def del: upt.simps)

lemma bn_count_bin [simp]: "bn_count (reliability_bin rows i) = length (bin_rows rows i)"
  by (simp add: reliability_bin_def Let_def split: option.split)

lemma mean_bounds:
  assumes "xs \<noteq> []" "\<And>x. x \<in> set xs \<Longrightarrow> 0 \<le> x \<and> x \<le> (b :: rat)"
  shows "0 \<le> mean xs \<and> mean xs \<le> b"
proof -
  have "0 \<le> sum_list xs \<and> sum_list xs \<le> of_nat (length xs) * b" using assms(2)
  proof (induction xs)
    case (Cons x xs)
    then show ?case by (force simp: algebra_simps)
  qed simp
  then show ?thesis using assms(1) by (simp add: mean_def divide_le_eq mult.commute)
qed

lemma bin_gap:
  assumes "list_all (\<lambda>(p, _). 0 \<le> confidence p \<and> confidence p \<le> 1) rows" "rows \<noteq> []"
  shows "\<bar>bin_accuracy rows - bin_mean rows\<bar> \<le> 1"
proof -
  have "0 \<le> bin_mean rows \<and> bin_mean rows \<le> 1"
    unfolding bin_mean_def using assms by (intro mean_bounds) (auto simp: list_all_iff)
  moreover have "0 \<le> bin_accuracy rows \<and> bin_accuracy rows \<le> 1"
    using assms(2) by (simp add: bin_accuracy_def successes_def divide_le_eq)
  ultimately show ?thesis by (auto simp: abs_le_iff)
qed

text \<open>
  The reliability bins partition the forecasts.  Every confidence in [0, 1] falls in exactly
  one of the ten bins, so the counts add up to the number of forecasts, and the expected
  calibration error, the count-weighted gap, lies in [0, 1].
\<close>

theorem reliability_bins_partition:
  assumes "list_all (\<lambda>(p, _). 0 \<le> confidence p \<and> confidence p \<le> 1) rows"
  shows "(\<Sum>b\<leftarrow>mt_bins (metrics_of rows). int (bn_count b)) = int (length rows)
       \<and> length (mt_bins (metrics_of rows)) = 10
       \<and> 0 \<le> mt_ece (metrics_of rows) \<and> mt_ece (metrics_of rows) \<le> 1000000"
proof -
  let ?n = "of_nat (length rows) :: rat"
  let ?gap = "\<lambda>i. let masked = bin_rows rows i in
         if masked = [] then 0 else of_nat (length masked) / ?n * \<bar>bin_accuracy masked - bin_mean masked\<bar>"
  have "0 \<le> ?gap i \<and> ?gap i \<le> of_int (int (length (bin_rows rows i))) / ?n" for i
  proof -
    have "list_all (\<lambda>(p, _). 0 \<le> confidence p \<and> confidence p \<le> 1) (bin_rows rows i)"
      using assms by (auto simp: list_all_iff bin_rows_def)
    then have "bin_rows rows i \<noteq> [] \<Longrightarrow> \<bar>bin_accuracy (bin_rows rows i) - bin_mean (bin_rows rows i)\<bar> \<le> 1" by (rule bin_gap)
    then have "of_nat (length (bin_rows rows i)) * \<bar>bin_accuracy (bin_rows rows i) - bin_mean (bin_rows rows i)\<bar>
        \<le> of_nat (length (bin_rows rows i)) * (1 :: rat)" if "bin_rows rows i \<noteq> []"
      using that by (intro mult_left_mono) simp_all
    then show ?thesis by (auto simp: Let_def intro!: divide_right_mono)
  qed
  then have terms: "0 \<le> (\<Sum>i\<leftarrow>is. ?gap i) \<and> (\<Sum>i\<leftarrow>is. ?gap i) \<le> (\<Sum>i\<leftarrow>is. of_int (int (length (bin_rows rows i))) / ?n)" for "is"
    by (induction "is") (auto intro: add_mono)
  have counts: "(\<Sum>i\<leftarrow>is. of_int (int (length (bin_rows rows i))) / ?n) = of_int (\<Sum>i\<leftarrow>is. int (length (bin_rows rows i))) / ?n" for "is"
    by (induction "is") (simp_all add: add_divide_distrib)
  have "0 \<le> calibration_error rows \<and> calibration_error rows \<le> of_int (int (length rows)) / ?n"
    using terms[of "[0..<10]"] unfolding calibration_error_def counts bin_rows_total[OF assms] .
  then have "0 \<le> calibration_error rows \<and> calibration_error rows \<le> 1" by (cases "rows = []") auto
  moreover have "round6 (1 :: rat) = 1000000" using round6_micro[of 1000000] by simp
  ultimately have "0 \<le> mt_ece (metrics_of rows) \<and> mt_ece (metrics_of rows) \<le> 1000000"
    using round_half_even_mono[of "calibration_error rows * 1000000" "1 * 1000000"]
    by (simp add: metrics_of_def round6_nonneg) (simp add: round6_def)
  then show ?thesis
    using bin_rows_total[OF assms] by (simp add: metrics_of_def comp_def del: upt.simps)
qed

lemma reliability_bins_partition_witness:
  "(\<Sum>b\<leftarrow>mt_bins (metrics_of [((3 / 5, 1 / 5, 1 / 5), 0), ((1 / 5, 3 / 10, 1 / 2), 1)]). int (bn_count b)) = 2"
  using reliability_bins_partition[of "[((3 / 5, 1 / 5, 1 / 5), 0), ((1 / 5, 3 / 10, 1 / 2), 1)]"]
  by (simp add: confidence_def)

end
