(* ===== verification/Calibration.thy ===== *)
theory Calibration
  imports Metrics Artifact_Safety "HOL-Library.Product_Lexorder"
begin

text \<open>
  \<open>src/core/golavo_core/calibration.py\<close>: the calibration record of a ledger.  Every artifact is
  loaded with its integrity checked, each root is paired with the one successor that resolves it,
  and the summary is checked against its schema
  (\<open>src/docs/contracts/forecast_artifact.schema.json\<close>, \<open>CalibrationSummary\<close>).
\<close>

datatype cal_error =
    Bad_artifact aerror | Root_must_supersede | Superseded_missing | Not_a_resolution | Two_successors
  | Cal_type_failure | Bad_summary | Counts_do_not_reconcile

section \<open>Chains\<close>

definition load_ledger :: "(string \<Rightarrow> string \<Rightarrow> bool) \<Rightarrow> (string, string) dict \<Rightarrow> cal_error + json list" where
  "load_ledger fmt files =
     mapE (\<lambda>(stem, data). case load_verified_artifact fmt stem data of Inl e \<Rightarrow> Inl (Bad_artifact e) | Inr v \<Rightarrow> Inr v)
       (sort_key fst files)"

definition is_root :: "json \<Rightarrow> bool" where
  "is_root a \<longleftrightarrow> jget a ''supersedes'' = JNull"

definition root_statuses :: "json list" where
  "root_statuses = [JStr ''sealed'', JStr ''abstained'']"

definition resolution_statuses :: "json list" where
  "resolution_statuses = [JStr ''scored'', JStr ''voided'']"

fun successors_of :: "string list \<Rightarrow> json list \<Rightarrow> (string, json) dict \<Rightarrow> cal_error + (string, json) dict" where
  "successors_of ids [] found = Inr found"
| "successors_of ids (a # as) found =
     (if is_root a then
        bindE (guardE (jget a ''status'' \<in> set root_statuses) Root_must_supersede) (\<lambda>_. successors_of ids as found)
      else
        let superseded = text_at a ''supersedes'' in
        bindE (guardE (superseded \<in> set ids) Superseded_missing) (\<lambda>_.
        bindE (guardE (jget a ''status'' \<in> set resolution_statuses) Not_a_resolution) (\<lambda>_.
        bindE (guardE (dict_get found superseded = None) Two_successors) (\<lambda>_.
          successors_of ids as (dict_set superseded a found)))))"

definition root_key :: "json \<Rightarrow> string \<times> string" where
  "root_key a = (text_at (jget a ''match'') ''kickoff_utc'', text_at a ''artifact_id'')"

definition chain_pairs :: "json list \<Rightarrow> cal_error + (json \<times> json option) list" where
  "chain_pairs artifacts =
     bindE (successors_of (map (\<lambda>a. text_at a ''artifact_id'') artifacts) artifacts []) (\<lambda>found.
       Inr (map (\<lambda>r. (r, dict_get found (text_at r ''artifact_id''))) (sort_key root_key (filter is_root artifacts))))"

definition resolution :: "json option \<Rightarrow> json" where
  "resolution successor =
     (case successor of
        None \<Rightarrow> JObj [(''status'', JStr ''pending''), (''artifact_id'', JNull), (''resolved_at_utc'', JNull),
                     (''actual'', JNull), (''metrics'', JNull), (''void_reason'', JNull)]
      | Some s \<Rightarrow>
          let evaluation = jget s ''evaluation'' in
          JObj [(''status'', jget s ''status''), (''artifact_id'', jget s ''artifact_id''),
                (''resolved_at_utc'', if evaluation \<noteq> JNull then jget evaluation ''scored_at_utc''
                                      else jget (jget s ''provenance'') ''created_at_utc''),
                (''actual'', if evaluation = JNull then JNull else jget evaluation ''actual''),
                (''metrics'', if evaluation = JNull then JNull else jget evaluation ''metrics''),
                (''void_reason'', jget s ''void_reason'')])"

definition chain_json :: "json \<times> json option \<Rightarrow> json" where
  "chain_json p =
     (case p of (seal, successor) \<Rightarrow>
        JObj [(''sealed_artifact_id'', jget seal ''artifact_id''), (''match'', jget seal ''match''),
              (''sealed_at_utc'', jget (jget seal ''forecast'') ''sealed_at_utc''),
              (''horizon'', jget (jget seal ''forecast'') ''horizon''),
              (''family'', jget (jget seal ''model'') ''family''),
              (''abstained'', jget (jget seal ''forecast'') ''abstained''),
              (''probs'', jget (jget seal ''forecast'') ''probs''),
              (''resolution'', resolution successor)])"

definition outcome_index :: "json \<Rightarrow> nat option" where
  "outcome_index v = (if v = JStr ''home'' then Some 0 else if v = JStr ''draw'' then Some 1
     else if v = JStr ''away'' then Some 2 else None)"

definition is_scored :: "json \<Rightarrow> bool" where
  "is_scored chain \<longleftrightarrow> jget (jget chain ''resolution'') ''status'' = JStr ''scored''"

text \<open>One scored forecast: its probabilities and the outcome; \<open>None\<close> where the code would raise.\<close>

definition scored_row :: "json \<Rightarrow> (prob_row \<times> nat) option" where
  "scored_row chain =
     (let probs = jget chain ''probs'' in
      case (num_nano (jget probs ''home''), num_nano (jget probs ''draw''), num_nano (jget probs ''away''),
            outcome_index (jget (jget (jget chain ''resolution'') ''actual'') ''outcome'')) of
        (Some h, Some d, Some a, Some i) \<Rightarrow> Some ((nano h, nano d, nano a), i)
      | _ \<Rightarrow> None)"

definition scored_rows :: "json list \<Rightarrow> cal_error + (prob_row \<times> nat) list" where
  "scored_rows links =
     mapE (\<lambda>c. case scored_row c of None \<Rightarrow> Inl Cal_type_failure | Some r \<Rightarrow> Inr r) (filter is_scored links)"

section \<open>Numbers\<close>

definition micro_option :: "int option \<Rightarrow> json" where
  "micro_option x = (case x of None \<Rightarrow> JNull | Some i \<Rightarrow> micro_json i)"

definition bin_json :: "bin \<Rightarrow> json" where
  "bin_json b = JObj
     [(''lower'', micro_json (bn_lower b)), (''upper'', micro_json (bn_upper b)), (''count'', JInt (int (bn_count b))),
      (''mean_confidence'', micro_option (bn_mean b)), (''accuracy'', micro_option (bn_accuracy b)),
      (''wilson_low'', micro_option (bn_low b)), (''wilson_high'', micro_option (bn_high b))]"

definition mean_assigned :: "(prob_row \<times> nat) list \<Rightarrow> json" where
  "mean_assigned rows = micro_json (round6 (mean (map (\<lambda>(p, i). nth3 p i) rows)))"

definition score_fields :: "(prob_row \<times> nat) list \<Rightarrow> (string \<times> json) list" where
  "score_fields rows =
     [(''log_loss'', micro_json (mt_log_loss (metrics_of rows))), (''brier'', micro_json (mt_brier (metrics_of rows))),
      (''prob_assigned_to_outcome'', mean_assigned rows)]"

definition running_json :: "(prob_row \<times> nat) list \<Rightarrow> json" where
  "running_json rows =
     (if rows = [] then JNull else JObj ((''n_scored'', JInt (int (length rows))) # score_fields rows))"

definition bins_json :: "(prob_row \<times> nat) list \<Rightarrow> json" where
  "bins_json rows = (if rows = [] then JArr [] else JArr (map bin_json (mt_bins (metrics_of rows))))"

section \<open>Slices\<close>

definition slice_min_scored :: nat where "slice_min_scored = 30"
definition slice_reliability_min_scored :: nat where "slice_reliability_min_scored = 100"
definition slice_min_bin :: nat where "slice_min_bin = 20"
definition slice_min_bins :: nat where "slice_min_bins = 3"

type_synonym slice_groups = "((string \<times> string), json list) dict"

definition add_to_group :: "string \<times> string \<Rightarrow> json \<Rightarrow> slice_groups \<Rightarrow> slice_groups" where
  "add_to_group k c g = dict_set k ((case dict_get g k of None \<Rightarrow> [] | Some cs \<Rightarrow> cs) @ [c]) g"

definition slice_groups :: "json list \<Rightarrow> slice_groups" where
  "slice_groups links =
     fold (\<lambda>c g. add_to_group (''model_family'', py_text (jget c ''family'')) c
                   (add_to_group (''competition'', py_text (jget (jget c ''match'') ''competition'')) c g))
       (filter (\<lambda>c. is_scored c \<and> jget c ''probs'' \<noteq> JNull) links) []"

definition qualifying_bins :: "(prob_row \<times> nat) list \<Rightarrow> bin list" where
  "qualifying_bins rows = filter (\<lambda>b. bn_count b \<ge> slice_min_bin \<and> bn_accuracy b \<noteq> None) (mt_bins (metrics_of rows))"

definition slice_caveat :: string where
  "slice_caveat = ''Descriptive local slice; selection and cold-start effects remain. It is not a confidence interval or a model comparison.''"

definition slice_json :: "(string \<times> string) \<times> json list \<Rightarrow> cal_error + json" where
  "slice_json s =
     (case s of ((dimension, key), links) \<Rightarrow>
        let n = length links; shown = (n \<ge> slice_min_scored) in
        bindE (if shown then scored_rows links else Inr []) (\<lambda>rows.
          let bins = (if shown \<and> n \<ge> slice_reliability_min_scored \<and> length (qualifying_bins rows) \<ge> slice_min_bins
                      then qualifying_bins rows else []);
              available = (shown \<and> n \<ge> slice_reliability_min_scored \<and> length (qualifying_bins rows) \<ge> slice_min_bins) in
          Inr (JObj
            [(''dimension'', JStr dimension), (''key'', JStr key), (''n_scored'', JInt (int n)),
             (''metrics_status'', JStr (if shown then ''available'' else ''held_back'')),
             (''metrics'', if shown then JObj (score_fields rows) else JNull),
             (''reliability_status'', JStr (if available then ''available'' else ''held_back'')),
             (''reliability_bins'', JArr (map bin_json bins)),
             (''thresholds'', JObj
                [(''metrics_min_scored'', JInt (int slice_min_scored)),
                 (''reliability_min_scored'', JInt (int slice_reliability_min_scored)),
                 (''reliability_min_bin'', JInt (int slice_min_bin)), (''reliability_min_bins'', JInt (int slice_min_bins))]),
             (''caveat'', JStr slice_caveat)])))"

definition calibration_slices :: "json list \<Rightarrow> cal_error + json list" where
  "calibration_slices links = mapE slice_json (sort_key fst (slice_groups links))"


section \<open>The summary\<close>

record counts =
  ct_sealed :: nat
  ct_abstained :: nat
  ct_scored :: nat
  ct_voided :: nat
  ct_pending :: nat

definition count_status :: "string \<Rightarrow> json list \<Rightarrow> nat" where
  "count_status s vs = length (filter (\<lambda>v. v = JStr s) vs)"

definition counts_of :: "(json \<times> json option) list \<Rightarrow> counts" where
  "counts_of pairs =
     (let roots = map (\<lambda>(r, s). jget r ''status'') pairs; ends = map (\<lambda>(r, s). jget (resolution s) ''status'') pairs in
      \<lparr> ct_sealed = count_status ''sealed'' roots, ct_abstained = count_status ''abstained'' roots,
        ct_scored = count_status ''scored'' ends, ct_voided = count_status ''voided'' ends,
        ct_pending = count_status ''pending'' ends \<rparr>)"

definition counts_json :: "counts \<Rightarrow> json" where
  "counts_json c = JObj
     [(''sealed'', JInt (int (ct_sealed c))), (''abstained'', JInt (int (ct_abstained c))),
      (''scored'', JInt (int (ct_scored c))), (''voided'', JInt (int (ct_voided c))), (''pending'', JInt (int (ct_pending c)))]"

record summary =
  sy_generated_from :: string
  sy_counts :: counts
  sy_rows :: "(prob_row \<times> nat) list"
  sy_slices :: "json list"
  sy_chains :: "json list"

definition summary_json :: "summary \<Rightarrow> json" where
  "summary_json s = JObj
     [(''schema_version'', JStr ''0.2.0''), (''generated_from'', JStr (sy_generated_from s)),
      (''primary_metric'', JStr ''log_loss''), (''counts'', counts_json (sy_counts s)),
      (''running'', running_json (sy_rows s)), (''reliability_bins'', bins_json (sy_rows s)),
      (''slices'', JArr (sy_slices s)), (''chains'', JArr (sy_chains s))]"

text \<open>The schema of the record.\<close>

definition bin_schema :: schema where
  "bin_schema = Props
     [(''lower'', True, Any_number), (''upper'', True, Any_number), (''count'', True, Integer (Some 0)),
      (''mean_confidence'', True, Nullable Any_number), (''accuracy'', True, Nullable Any_number),
      (''wilson_low'', True, Nullable Any_number), (''wilson_high'', True, Nullable Any_number)]"

definition score_schemas :: "(string \<times> bool \<times> schema) list" where
  "score_schemas = [(''log_loss'', True, Number 0 None), (''brier'', True, Number 0 None),
                    (''prob_assigned_to_outcome'', True, probability)]"

definition actual_schema :: schema where
  "actual_schema = Props [(''home_goals'', True, Integer (Some 0)), (''away_goals'', True, Integer (Some 0)),
                          (''outcome'', True, Enum [''home'', ''draw'', ''away''])]"

definition chain_schema :: "(string \<Rightarrow> string \<Rightarrow> bool) \<Rightarrow> schema" where
  "chain_schema fmt = Props
     [(''sealed_artifact_id'', True, Text artifact_id_pattern), (''match'', True, match_schema fmt),
      (''sealed_at_utc'', True, date_time fmt), (''horizon'', True, Enum [''T-72h'', ''T-24h'', ''T-60m'']),
      (''family'', True, Enum frozen_families), (''abstained'', True, Boolean),
      (''probs'', True, Nullable probabilities_schema),
      (''resolution'', True, Props
        [(''status'', True, Enum [''pending'', ''scored'', ''voided'']),
         (''artifact_id'', True, Nullable (Text artifact_id_pattern)), (''resolved_at_utc'', True, Nullable (date_time fmt)),
         (''actual'', True, Nullable actual_schema), (''metrics'', True, Nullable (Props score_schemas)),
         (''void_reason'', True, Nullable some_text)])]"

definition slice_schema :: schema where
  "slice_schema = Props
     [(''dimension'', True, Enum [''competition'', ''model_family'']), (''key'', True, Text nonempty),
      (''n_scored'', True, Integer (Some 1)), (''metrics_status'', True, Enum [''available'', ''held_back'']),
      (''metrics'', True, Nullable (Props score_schemas)), (''reliability_status'', True, Enum [''available'', ''held_back'']),
      (''reliability_bins'', True, Items 0 bin_schema),
      (''thresholds'', True, Props
        [(''metrics_min_scored'', True, Const_int 30), (''reliability_min_scored'', True, Const_int 100),
         (''reliability_min_bin'', True, Const_int 20), (''reliability_min_bins'', True, Const_int 3)]),
      (''caveat'', True, Text nonempty)]"

definition count_schema :: schema where
  "count_schema = Integer (Some 0)"

definition summary_schema :: "(string \<Rightarrow> string \<Rightarrow> bool) \<Rightarrow> schema" where
  "summary_schema fmt = Props
     [(''schema_version'', True, Enum [''0.2.0'']), (''generated_from'', True, Text nonempty),
      (''primary_metric'', True, Enum [''log_loss'']),
      (''counts'', True, Props [(''sealed'', True, count_schema), (''abstained'', True, count_schema),
                               (''scored'', True, count_schema), (''voided'', True, count_schema), (''pending'', True, count_schema)]),
      (''running'', True, Nullable (Props ((''n_scored'', True, Integer (Some 1)) # score_schemas))),
      (''reliability_bins'', True, Items 0 bin_schema), (''slices'', False, Items 0 slice_schema),
      (''chains'', True, Items 0 (chain_schema fmt))]"

definition validate_calibration :: "(string \<Rightarrow> string \<Rightarrow> bool) \<Rightarrow> summary \<Rightarrow> cal_error + unit" where
  "validate_calibration fmt s =
     (let c = sy_counts s in
      bindE (guardE (conforms (summary_schema fmt) (summary_json s)) Bad_summary) (\<lambda>_.
        guardE (ct_sealed c + ct_abstained c = ct_scored c + ct_voided c + ct_pending c) Counts_do_not_reconcile))"

definition calibration_summary ::
  "(string \<Rightarrow> string \<Rightarrow> bool) \<Rightarrow> (string, string) dict \<Rightarrow> string \<Rightarrow> cal_error + summary" where
  "calibration_summary fmt files generated_from =
     bindE (load_ledger fmt files) (\<lambda>artifacts.
     bindE (chain_pairs artifacts) (\<lambda>pairs.
       let links = map chain_json pairs in
       bindE (scored_rows links) (\<lambda>rows.
       bindE (calibration_slices links) (\<lambda>slices.
         let s = \<lparr> sy_generated_from = generated_from, sy_counts = counts_of pairs, sy_rows = rows,
                   sy_slices = slices, sy_chains = links \<rparr> in
         bindE (validate_calibration fmt s) (\<lambda>_. Inr s)))))"

end
