(* ===== verification/Calibration_Laws.thy ===== *)
theory Calibration_Laws
  imports Calibration
begin

text \<open>
  What the calibration record reports: every root once, with the one successor that resolves it
  (\<open>calibration_pairs_exact\<close>), and slices that are exactly the scored forecasts of a competition or
  a model family, their numbers withheld below the declared thresholds (\<open>slices_withheld\<close>).
\<close>

section \<open>Pairs\<close>

abbreviation superseded :: "json \<Rightarrow> string" where
  "superseded a \<equiv> text_at a ''supersedes''"

abbreviation id_of :: "json \<Rightarrow> string" where
  "id_of a \<equiv> text_at a ''artifact_id''"

definition resolves :: "json \<Rightarrow> json \<Rightarrow> bool" where
  "resolves r a \<longleftrightarrow> \<not> is_root a \<and> superseded a = id_of r"

text \<open>The rules every artifact of an accepted ledger keeps.\<close>

definition well_placed :: "string list \<Rightarrow> json \<Rightarrow> bool" where
  "well_placed ids a \<longleftrightarrow>
     (if is_root a then jget a ''status'' \<in> set root_statuses
      else superseded a \<in> set ids \<and> jget a ''status'' \<in> set resolution_statuses)"

lemma successors_of_Inr:
  assumes "successors_of ids as found = Inr found'"
  shows "list_all (well_placed ids) as \<and> distinct (map superseded (filter (\<lambda>a. \<not> is_root a) as))
       \<and> list_all (\<lambda>a. is_root a \<or> dict_get found (superseded a) = None) as
       \<and> (\<forall>k. dict_get found' k = (case dict_get found k of Some x \<Rightarrow> Some x
              | None \<Rightarrow> find (\<lambda>a. \<not> is_root a \<and> superseded a = k) as))"
  using assms
proof (induction ids as found rule: successors_of.induct)
  case (1 ids found)
  then show ?case by (auto split: option.splits)
next
  case (2 ids a as found)
  show ?case
  proof (cases "is_root a")
    case True
    then have "jget a ''status'' \<in> set root_statuses" "successors_of ids as found = Inr found'"
      using 2(3) by (simp_all add: bindE_Inr)
    then show ?thesis using 2(1)[OF True] True by (auto simp: well_placed_def split: option.split)
  next
    case False
    then have g: "superseded a \<in> set ids" "jget a ''status'' \<in> set resolution_statuses" "dict_get found (superseded a) = None"
        "successors_of ids as (dict_set (superseded a) a found) = Inr found'"
      using 2(3) by (simp_all add: bindE_Inr Let_def)
    have ih: "list_all (well_placed ids) as \<and> distinct (map superseded (filter (\<lambda>a. \<not> is_root a) as))
       \<and> list_all (\<lambda>b. is_root b \<or> dict_get (dict_set (superseded a) a found) (superseded b) = None) as
       \<and> (\<forall>k. dict_get found' k = (case dict_get (dict_set (superseded a) a found) k of Some x \<Rightarrow> Some x
              | None \<Rightarrow> find (\<lambda>a. \<not> is_root a \<and> superseded a = k) as))"
      using 2(2)[OF False refl g(4)] by simp
    have new: "superseded b \<noteq> superseded a" if "b \<in> set as" "\<not> is_root b" for b
      using ih that by (auto simp: list_all_iff split: if_splits)
    have old: "dict_get found (superseded b) = None" if "b \<in> set as" "\<not> is_root b" for b
      using ih that by (auto simp: list_all_iff split: if_splits)
    have "list_all (well_placed ids) (a # as)" using ih g(1,2) False by (simp add: well_placed_def)
    moreover have "distinct (map superseded (filter (\<lambda>a. \<not> is_root a) (a # as)))"
    proof -
      have "superseded a \<notin> set (map superseded (filter (\<lambda>a. \<not> is_root a) as))" using new by force
      then show ?thesis using ih False by simp
    qed
    moreover have "list_all (\<lambda>a. is_root a \<or> dict_get found (superseded a) = None) (a # as)"
      unfolding list_all_iff using old g(3) by (metis set_ConsD)
    moreover have "dict_get found' k = (case dict_get found k of Some x \<Rightarrow> Some x
              | None \<Rightarrow> find (\<lambda>a. \<not> is_root a \<and> superseded a = k) (a # as))" for k
      using ih g(3) False by (cases "superseded a = k") (auto split: option.split)
    ultimately show ?thesis by blast
  qed
qed

lemma find_filter: "find p xs = (case filter p xs of [] \<Rightarrow> None | x # _ \<Rightarrow> Some x)"
  by (induction xs) auto

lemma distinct_filter_one:
  assumes "distinct (map f xs)"
  shows "length (filter (\<lambda>x. f x = k) xs) \<le> 1"
proof -
  have "distinct (map f (filter (\<lambda>x. f x = k) xs))" using assms by (rule distinct_map_filter)
  then have "length (filter (\<lambda>x. f x = k) xs) = card (set (map f (filter (\<lambda>x. f x = k) xs)))"
    by (metis distinct_card length_map)
  also have "\<dots> \<le> card {k}" by (intro card_mono) auto
  finally show ?thesis by simp
qed

lemma resolution_status:
  "jget (resolution t) ''status'' = (case t of None \<Rightarrow> JStr ''pending'' | Some s \<Rightarrow> jget s ''status'')"
  by (simp add: resolution_def jget_obj Let_def split: option.split)

lemma count_two:
  assumes "\<And>x. x \<in> set xs \<Longrightarrow> f x = JStr a \<or> f x = JStr b" "a \<noteq> b"
  shows "count_status a (map f xs) + count_status b (map f xs) = length xs"
  using assms(1) by (induction xs) (auto simp: count_status_def assms(2) assms(2)[symmetric])

text \<open>Each root is paired with the only artifact that resolves it.\<close>

lemma chain_pairs_resolved:
  assumes "chain_pairs artifacts = Inr pairs"
  shows "map fst pairs = sort_key root_key (filter is_root artifacts)"
    and "list_all (well_placed (map id_of artifacts)) artifacts"
    and "(r, t) \<in> set pairs \<Longrightarrow> filter (resolves r) artifacts = (case t of None \<Rightarrow> [] | Some a \<Rightarrow> [a])"
    and "(r, t) \<in> set pairs \<Longrightarrow> jget r ''status'' \<in> set root_statuses"
    and "(r, Some a) \<in> set pairs \<Longrightarrow> jget a ''status'' \<in> set resolution_statuses"
proof -
  obtain found where f: "successors_of (map id_of artifacts) artifacts [] = Inr found"
      "pairs = map (\<lambda>r. (r, dict_get found (id_of r))) (sort_key root_key (filter is_root artifacts))"
    using assms by (auto simp: chain_pairs_def bindE_Inr)
  note s = successors_of_Inr[OF f(1)]
  show "map fst pairs = sort_key root_key (filter is_root artifacts)" by (simp add: f(2) comp_def)
  show "list_all (well_placed (map id_of artifacts)) artifacts" using s by blast
  have only: "filter (resolves r) artifacts = (case dict_get found (id_of r) of None \<Rightarrow> [] | Some a \<Rightarrow> [a])" for r
  proof -
    have eq: "filter (\<lambda>a. superseded a = id_of r) (filter (\<lambda>a. \<not> is_root a) artifacts) = filter (resolves r) artifacts"
      by (simp add: resolves_def[abs_def])
    have "length (filter (resolves r) artifacts) \<le> 1"
      using s distinct_filter_one[of superseded "filter (\<lambda>a. \<not> is_root a) artifacts" "id_of r"] eq by simp
    moreover have "dict_get found (id_of r) = find (resolves r) artifacts" using s by (simp add: resolves_def[abs_def])
    ultimately show ?thesis
      unfolding find_filter by (cases "filter (resolves r) artifacts") auto
  qed
  then show "(r, t) \<in> set pairs \<Longrightarrow> filter (resolves r) artifacts = (case t of None \<Rightarrow> [] | Some a \<Rightarrow> [a])"
    by (auto simp: f(2))
  show "(r, t) \<in> set pairs \<Longrightarrow> jget r ''status'' \<in> set root_statuses"
    using s by (auto simp: f(2) list_all_iff well_placed_def)
  show "jget a ''status'' \<in> set resolution_statuses" if "(r, Some a) \<in> set pairs"
  proof -
    have "a \<in> set (filter (resolves r) artifacts)" using that only[of r] by (auto simp: f(2))
    then show ?thesis using s by (auto simp: resolves_def list_all_iff well_placed_def)
  qed
qed

lemma counts_reconcile:
  assumes "chain_pairs artifacts = Inr pairs"
  shows "ct_sealed (counts_of pairs) + ct_abstained (counts_of pairs) = length pairs
       \<and> ct_scored (counts_of pairs) + ct_voided (counts_of pairs) + ct_pending (counts_of pairs) = length pairs"
proof -
  note p = chain_pairs_resolved[OF assms]
  have starts: "jget r ''status'' = JStr ''sealed'' \<or> jget r ''status'' = JStr ''abstained''" if "(r, t) \<in> set pairs" for r t
    using p(4)[OF that] by (simp add: root_statuses_def)
  have ends: "jget a ''status'' = JStr ''scored'' \<or> jget a ''status'' = JStr ''voided''" if "(r, Some a) \<in> set pairs" for r a
    using p(5)[OF that] by (simp add: resolution_statuses_def)
  have "ct_sealed (counts_of pairs) + ct_abstained (counts_of pairs) = length pairs"
    using count_two[of pairs "\<lambda>(r, t). jget r ''status''" "''sealed''" "''abstained''"] starts
    by (fastforce simp: counts_of_def Let_def)
  moreover have "ct_scored (counts_of pairs) + ct_voided (counts_of pairs) + ct_pending (counts_of pairs) = length pairs"
  proof -
    have "count_status ''scored'' (map (\<lambda>(r, t). jget (resolution t) ''status'') ps)
        + count_status ''voided'' (map (\<lambda>(r, t). jget (resolution t) ''status'') ps)
        + count_status ''pending'' (map (\<lambda>(r, t). jget (resolution t) ''status'') ps) = length ps"
      if "set ps \<subseteq> set pairs" for ps
      using that
    proof (induction ps)
      case (Cons p ps)
      obtain r t where p: "p = (r, t)" by (cases p)
      have "jget (resolution t) ''status'' \<in> {JStr ''scored'', JStr ''voided'', JStr ''pending''}"
        using ends[of r] Cons.prems p by (cases t) (auto simp: resolution_status)
      then show ?case using Cons p by (auto simp: count_status_def)
    qed (simp add: count_status_def)
    then show ?thesis by (simp add: counts_of_def Let_def)
  qed
  ultimately show ?thesis by blast
qed

text \<open>
  C25: the record reports every root exactly once, in order of kickoff, with the artifact that
  supersedes it: at most one does, or the whole ledger is refused, as it is when a root is not
  sealed or abstained, or a successor is not scored or voided or names an artifact that is not
  there.  The counts then reconcile by themselves.
\<close>

theorem calibration_pairs_exact:
  assumes "chain_pairs artifacts = Inr pairs"
  shows "mset (map fst pairs) = mset (filter is_root artifacts) \<and> sorted (map (root_key \<circ> fst) pairs)
       \<and> list_all (well_placed (map id_of artifacts)) artifacts
       \<and> list_all (\<lambda>(r, t). filter (resolves r) artifacts = (case t of None \<Rightarrow> [] | Some a \<Rightarrow> [a])) pairs
       \<and> ct_sealed (counts_of pairs) + ct_abstained (counts_of pairs) = length pairs
       \<and> ct_scored (counts_of pairs) + ct_voided (counts_of pairs) + ct_pending (counts_of pairs) = length pairs"
proof -
  note p = chain_pairs_resolved[OF assms]
  have "list_all (\<lambda>(r, t). filter (resolves r) artifacts = (case t of None \<Rightarrow> [] | Some a \<Rightarrow> [a])) pairs"
    using p(3) by (auto simp: list_all_iff)
  moreover have "sorted (map (root_key \<circ> fst) pairs)" using p(1) by (simp flip: map_map)
  ultimately show ?thesis using p(1,2) counts_reconcile[OF assms] by simp
qed

lemma calibration_pairs_exact_witness:
  "\<exists>pairs. chain_pairs
      [JObj [(''artifact_id'', JStr ''a''), (''status'', JStr ''sealed'')],
       JObj [(''artifact_id'', JStr ''b''), (''status'', JStr ''scored''), (''supersedes'', JStr ''a'')]] = Inr pairs
     \<and> ct_sealed (counts_of pairs) + ct_abstained (counts_of pairs) = length pairs"
proof -
  have "\<exists>pairs. chain_pairs
      [JObj [(''artifact_id'', JStr ''a''), (''status'', JStr ''sealed'')],
       JObj [(''artifact_id'', JStr ''b''), (''status'', JStr ''scored''), (''supersedes'', JStr ''a'')]] = Inr pairs"
    by (simp add: chain_pairs_def is_root_def jget_obj text_at_def root_statuses_def resolution_statuses_def Let_def)
  then obtain pairs where p: "chain_pairs
      [JObj [(''artifact_id'', JStr ''a''), (''status'', JStr ''sealed'')],
       JObj [(''artifact_id'', JStr ''b''), (''status'', JStr ''scored''), (''supersedes'', JStr ''a'')]] = Inr pairs" by blast
  from calibration_pairs_exact[OF this] p show ?thesis by blast
qed


section \<open>Slices\<close>

text \<open>The group a scored forecast with probabilities belongs to in one dimension.\<close>

definition group_key :: "string \<Rightarrow> json \<Rightarrow> string" where
  "group_key axis c = (if axis = ''competition'' then py_text (jget (jget c ''match'') ''competition'') else py_text (jget c ''family''))"

definition sliced :: "json \<Rightarrow> bool" where
  "sliced c \<longleftrightarrow> is_scored c \<and> jget c ''probs'' \<noteq> JNull"

lemma add_to_group_get:
  "dict_get (add_to_group k c g) k' = (if k' = k then Some ((case dict_get g k of None \<Rightarrow> [] | Some cs \<Rightarrow> cs) @ [c]) else dict_get g k')"
  by (simp add: add_to_group_def)

lemma slice_groups_get:
  "dict_get (slice_groups links) (axis, key) =
     (let cs = filter (\<lambda>c. sliced c \<and> group_key axis c = key) links in
      if axis \<in> {''competition'', ''model_family''} \<and> cs \<noteq> [] then Some cs else None)"
proof -
  let ?step = "\<lambda>c g. add_to_group (''model_family'', py_text (jget c ''family'')) c
                   (add_to_group (''competition'', py_text (jget (jget c ''match'') ''competition'')) c g)"
  have "dict_get (fold ?step cs g) (axis, key) =
      (let ds = filter (\<lambda>c. group_key axis c = key) cs in
       if axis \<in> {''competition'', ''model_family''} \<and> ds \<noteq> []
       then Some ((case dict_get g (axis, key) of None \<Rightarrow> [] | Some es \<Rightarrow> es) @ ds) else dict_get g (axis, key))" for cs g
  proof (induction cs arbitrary: g)
    case (Cons c cs)
    show ?case
      unfolding fold_simps(2) comp_def Cons
      by (auto simp: add_to_group_get group_key_def Let_def)
  qed simp
  from this[of "filter sliced links" "[]"] show ?thesis
    by (simp add: slice_groups_def sliced_def[abs_def] Let_def conj_commute)
qed

lemma dict_ok_groups: "dict_ok (slice_groups links)"
proof -
  let ?step = "\<lambda>c g. add_to_group (''model_family'', py_text (jget c ''family'')) c
                   (add_to_group (''competition'', py_text (jget (jget c ''match'') ''competition'')) c g)"
  have "dict_ok g \<Longrightarrow> dict_ok (fold ?step cs g)" for cs g
    by (induction cs arbitrary: g) (simp_all add: add_to_group_def)
  then show ?thesis by (simp add: slice_groups_def)
qed

lemma slice_json_Inr:
  assumes "slice_json ((axis, key), cs) = Inr v"
  shows "jget v ''dimension'' = JStr axis \<and> jget v ''key'' = JStr key \<and> jget v ''n_scored'' = JInt (int (length cs))
       \<and> (jget v ''metrics'' = JNull) = (length cs < 30)
       \<and> (jget v ''reliability_status'' = JStr ''available'') = (jget v ''reliability_bins'' \<noteq> JArr [])
       \<and> (length cs < 100 \<longrightarrow> jget v ''reliability_bins'' = JArr [])
       \<and> list_all (\<lambda>b. \<exists>n \<ge> 20. jget b ''count'' = JInt (int n)) (arr (jget v ''reliability_bins''))"
proof -
  obtain rows where rows: "(if length cs \<ge> slice_min_scored then scored_rows cs else Inr []) = Inr rows"
    using assms by (auto simp: slice_json_def bindE_Inr Let_def)
  let ?shown = "length cs \<ge> slice_min_scored"
  let ?available = "?shown \<and> length cs \<ge> slice_reliability_min_scored \<and> length (qualifying_bins rows) \<ge> slice_min_bins"
  have v: "jget v ''dimension'' = JStr axis" "jget v ''key'' = JStr key" "jget v ''n_scored'' = JInt (int (length cs))"
      "jget v ''metrics'' = (if ?shown then JObj (score_fields rows) else JNull)"
      "jget v ''reliability_status'' = JStr (if ?available then ''available'' else ''held_back'')"
      "jget v ''reliability_bins'' = JArr (map bin_json (if ?available then qualifying_bins rows else []))"
    using assms rows by (auto simp: slice_json_def bindE_Inr Let_def jget_obj)
  have "?available \<Longrightarrow> qualifying_bins rows \<noteq> []" by (auto simp: slice_min_bins_def)
  moreover have "list_all (\<lambda>b. \<exists>n \<ge> 20. jget b ''count'' = JInt (int n)) (map bin_json (qualifying_bins rows))"
    by (auto simp: list_all_iff qualifying_bins_def bin_json_def jget_obj slice_min_bin_def)
  ultimately show ?thesis
    unfolding v arr_def by (auto simp: slice_min_scored_def slice_reliability_min_scored_def)
qed

text \<open>
  A slice is exactly the scored forecasts with probabilities of one competition or one model
  family, in order, and numbers are withheld: no metrics below 30 scored forecasts, no reliability
  bins below 100, and no bin of fewer than 20.
\<close>

theorem slices_withheld:
  assumes "calibration_slices links = Inr slices"
  shows "list_all2 (\<lambda>((axis, key), cs) v.
            axis \<in> {''competition'', ''model_family''} \<and> cs \<noteq> [] \<and> cs = filter (\<lambda>c. sliced c \<and> group_key axis c = key) links
          \<and> jget v ''dimension'' = JStr axis \<and> jget v ''key'' = JStr key \<and> jget v ''n_scored'' = JInt (int (length cs))
          \<and> (jget v ''metrics'' = JNull) = (length cs < 30)
          \<and> (length cs < 100 \<longrightarrow> jget v ''reliability_bins'' = JArr [])
          \<and> list_all (\<lambda>b. \<exists>n \<ge> 20. jget b ''count'' = JInt (int n)) (arr (jget v ''reliability_bins'')))
        (sort_key fst (slice_groups links)) slices"
proof -
  have "list_all2 (\<lambda>s v. slice_json s = Inr v) (sort_key fst (slice_groups links)) slices"
    using assms by (simp add: calibration_slices_def mapE_Inr)
  then show ?thesis
  proof (rule list.rel_mono_strong)
    fix s v
    assume s: "s \<in> set (sort_key fst (slice_groups links))" "slice_json s = Inr v"
    obtain axis key cs where k: "s = ((axis, key), cs)" by (metis prod.collapse)
    have "dict_get (slice_groups links) (axis, key) = Some cs"
      using s(1) k dict_ok_groups[of links] by (simp add: dict_ok_def)
    then have "axis \<in> {''competition'', ''model_family''} \<and> cs \<noteq> [] \<and> cs = filter (\<lambda>c. sliced c \<and> group_key axis c = key) links"
      unfolding slice_groups_get by (auto simp: Let_def split: if_splits)
    then show "(\<lambda>((axis, key), cs) v.
            axis \<in> {''competition'', ''model_family''} \<and> cs \<noteq> [] \<and> cs = filter (\<lambda>c. sliced c \<and> group_key axis c = key) links
          \<and> jget v ''dimension'' = JStr axis \<and> jget v ''key'' = JStr key \<and> jget v ''n_scored'' = JInt (int (length cs))
          \<and> (jget v ''metrics'' = JNull) = (length cs < 30)
          \<and> (length cs < 100 \<longrightarrow> jget v ''reliability_bins'' = JArr [])
          \<and> list_all (\<lambda>b. \<exists>n \<ge> 20. jget b ''count'' = JInt (int n)) (arr (jget v ''reliability_bins''))) s v"
      using slice_json_Inr[OF s(2)[unfolded k]] unfolding k prod.case by blast
  qed
qed


definition sample_chain :: json where
  "sample_chain = JObj
     [(''match'', JObj [(''competition'', JStr ''Cup'')]), (''family'', JStr ''elo_ordlogit''), (''probs'', JObj []),
      (''resolution'', JObj [(''status'', JStr ''scored'')])]"

lemma slices_withheld_witness:
  "\<exists>slices. calibration_slices [sample_chain] = Inr slices \<and> length slices = 2"
proof -
  have g: "sort_key fst (slice_groups [sample_chain]) =
      [((''competition'', ''Cup''), [sample_chain]), ((''model_family'', ''elo_ordlogit''), [sample_chain])]"
    by code_simp
  then obtain slices where s: "calibration_slices [sample_chain] = Inr slices"
    by (simp add: calibration_slices_def slice_json_def slice_min_scored_def Let_def)
  from list_all2_lengthD[OF slices_withheld[OF s]] g s show ?thesis by simp
qed

end
