(* ===== verification/Artifact_Register.thy ===== *)
theory Artifact_Register
  imports Calibration Artifact_Samples
begin

text \<open>
  The artifact ledger as a whole, over any sequence of seals, scores and voids of its own files:
  every file verifies, so that the calibration record can always be loaded, and the directory
  implements a write-once register of artifacts.
\<close>

section \<open>Artifacts in canonical form\<close>

definition settled :: "json \<Rightarrow> bool" where
  "settled v \<longleftrightarrow> (\<exists>c. canonical_json v = Some c \<and> jeq c v)"

lemma settled_jeq: "jeq v w \<Longrightarrow> settled w \<Longrightarrow> settled v"
  using canonical_jeq[of v w] by (auto simp: settled_def option_rel_Some2) (meson jeq_trans jeq_sym)

lemma settled_set:
  "settled v \<Longrightarrow> wf_json v \<Longrightarrow> wf_json x \<Longrightarrow> k \<noteq> ''forecast'' \<Longrightarrow> settled (json_set k x v)"
  unfolding settled_def using canonical_set_fixed by blast

lemma settled_restamp: "settled v \<Longrightarrow> wf_json v \<Longrightarrow> settled (restamp t v)"
  unfolding restamp_def by (rule settled_set) (simp_all add: wf_jget)

lemma settled_scored:
  assumes "settled v" "wf_json v" "wf_json snap"
  shows "settled (scored_json v snap h a t)"
proof -
  have "wf_items (arr (jget (jget v ''inputs'') ''snapshots'') @ [snap])"
    using assms wf_arr[of "jget (jget v ''inputs'') ''snapshots''"] by (simp add: wf_items_iff wf_jget)
  then show ?thesis
    unfolding scored_json_def using assms
    by (intro settled_restamp settled_set wf_json_set) (simp_all add: wf_jget)
qed

lemma settled_voided: "settled v \<Longrightarrow> wf_json v \<Longrightarrow> settled (voided_json v t r)"
  unfolding voided_json_def by (intro settled_restamp settled_set wf_json_set) (simp_all add: wf_jget)

section \<open>Sound files\<close>

definition sound :: "(string \<Rightarrow> string \<Rightarrow> bool) \<Rightarrow> string \<Rightarrow> string \<Rightarrow> bool" where
  "sound fmt i d \<longleftrightarrow> (\<exists>v. load_verified_artifact fmt i d = Inr v \<and> settled v)"

definition all_sound :: "(string \<Rightarrow> string \<Rightarrow> bool) \<Rightarrow> ledger \<Rightarrow> bool" where
  "all_sound fmt l \<longleftrightarrow> dict_ok (lg_files l) \<and> (\<forall>i d. dict_get (lg_files l) i = Some d \<longrightarrow> sound fmt i d)"

text \<open>The bytes a finished artifact is written as are those of a sound file.\<close>

definition writable :: "(string \<Rightarrow> string \<Rightarrow> bool) \<Rightarrow> json \<Rightarrow> bool" where
  "writable fmt w \<longleftrightarrow> (\<forall>c. validate_artifact fmt w = Inr () \<longrightarrow> canonical_json w = Some c
     \<longrightarrow> sound fmt (id_text w) (dumps c @ [CHR 0x0A]))"

lemma finish_writable:
  assumes "finish_artifact v = Some w" "wf_json v" "is_obj v" "is_obj (jget v ''provenance'')" "settled v"
  shows "writable fmt w"
  unfolding writable_def
proof (intro allI impI)
  fix c assume val: "validate_artifact fmt w = Inr ()" and c: "canonical_json w = Some c"
  note fi = finish_artifact_ids[OF assms(1-4)]
  have ww: "wf_json w" using fi by blast
  have "settled w" using finish_settled[OF assms(1-4)] assms(5) unfolding settled_def by blast
  then have cw: "jeq c w" using c by (simp add: settled_def)
  have "verify_artifact_integrity fmt w (Some (id_text w)) = Inr w" using finish_verifies[OF assms(1-4) val] .
  moreover have "validate_artifact fmt c = Inr ()" using validate_jeq[OF cw] val by simp
  ultimately have "load_verified_artifact fmt (id_text w) (dumps c @ [CHR 0x0A]) = Inr (normalise c)"
    using written_loads[OF ww _ c] by blast
  moreover have "jeq (normalise c) w" using cw jeq_normalise[of c] by (auto simp: jeq_def wf_normalise)
  then have "settled (normalise c)" using \<open>settled w\<close> by (rule settled_jeq)
  ultimately show "sound fmt (id_text w) (dumps c @ [CHR 0x0A])" by (auto simp: sound_def)
qed

section \<open>The register\<close>

text \<open>The abstract ledger holds one artifact per id, and an entry is written once.\<close>

definition register :: "string \<Rightarrow> json \<Rightarrow> (string \<Rightarrow> json option) \<Rightarrow> (string \<Rightarrow> json option) option" where
  "register i v m = (case m i of None \<Rightarrow> Some (m(i \<mapsto> v)) | Some w \<Rightarrow> if w = v then Some m else None)"

definition contents :: "(string \<Rightarrow> string \<Rightarrow> bool) \<Rightarrow> ledger \<Rightarrow> string \<Rightarrow> json option" where
  "contents fmt l i =
     (case dict_get (lg_files l) i of None \<Rightarrow> None
      | Some d \<Rightarrow> (case load_verified_artifact fmt i d of Inl _ \<Rightarrow> None | Inr v \<Rightarrow> Some v))"

definition implements :: "(string \<Rightarrow> string \<Rightarrow> bool) \<Rightarrow> ledger \<Rightarrow> (aerror + string) \<times> ledger \<Rightarrow> bool" where
  "implements fmt l rl \<longleftrightarrow> all_sound fmt (snd rl) \<and>
     (case fst rl of
        Inl _ \<Rightarrow> contents fmt (snd rl) = contents fmt l
      | Inr i \<Rightarrow> (\<exists>v. contents fmt (snd rl) i = Some v \<and> register i v (contents fmt l) = Some (contents fmt (snd rl))))"

lemma refused_implements: "all_sound fmt l \<Longrightarrow> implements fmt l (Inl e, l)"
  by (simp add: implements_def)

lemma contents_audit [simp]: "contents fmt (append_audit_event v l) = contents fmt l"
  by (rule ext) (simp add: contents_def)

lemma all_sound_audit [simp]: "all_sound fmt (append_audit_event v l) = all_sound fmt l"
  by (simp add: all_sound_def)

lemma contents_set:
  "load_verified_artifact fmt i d = Inr v \<Longrightarrow>
     contents fmt (l\<lparr>lg_files := dict_set i d (lg_files l)\<rparr>) = (contents fmt l)(i \<mapsto> v)"
  by (rule ext) (simp add: contents_def)

lemma all_sound_set: "all_sound fmt l \<Longrightarrow> sound fmt i d \<Longrightarrow> all_sound fmt (l\<lparr>lg_files := dict_set i d (lg_files l)\<rparr>)"
  by (simp add: all_sound_def)

lemma write_implements:
  assumes "writable fmt w" "all_sound fmt l"
  shows "implements fmt l (write_artifact fmt w l)"
proof (cases "validate_artifact fmt w")
  case (Inl e)
  then show ?thesis using assms by (simp add: write_artifact_def refused_implements)
next
  case (Inr u)
  show ?thesis
  proof (cases "canonical_json w")
    case None
    then show ?thesis using Inr assms by (simp add: write_artifact_def canonical_bytes_def refused_implements)
  next
    case (Some c)
    let ?d = "dumps c @ [CHR 0x0A]" and ?i = "id_text w"
    have d: "sound fmt ?i ?d" using assms(1) Inr Some by (simp add: writable_def)
    then obtain v where v: "load_verified_artifact fmt ?i ?d = Inr v" by (auto simp: sound_def)
    show ?thesis
    proof (cases "dict_get (lg_files l) ?i")
      case None
      then have "contents fmt l ?i = None" by (simp add: contents_def)
      then show ?thesis
        using Inr Some None assms(2) d
        by (simp add: write_artifact_def canonical_bytes_def Let_def implements_def contents_set[OF v] all_sound_set register_def)
    next
      case old: (Some e)
      have valid: "is_valid_artifact_bytes fmt e ?i"
        using assms(2) old by (fastforce simp: all_sound_def sound_def is_valid_artifact_bytes_def)
      show ?thesis
      proof (cases "e = ?d")
        case True
        then have "contents fmt l ?i = Some v" using old v by (simp add: contents_def)
        then show ?thesis
          using Inr Some old True assms(2)
          by (simp add: write_artifact_def canonical_bytes_def Let_def implements_def register_def)
      next
        case False
        then show ?thesis
          using Inr Some old valid assms(2)
          by (simp add: write_artifact_def canonical_bytes_def Let_def refused_implements)
      qed
    qed
  qed
qed

section \<open>The operations\<close>

lemma finish_and_write_implements:
  assumes "wf_json v" "is_obj v" "is_obj (jget v ''provenance'')" "settled v" "all_sound fmt l"
  shows "implements fmt l (finish_and_write fmt v l)"
proof (cases "finish_artifact v")
  case None
  then show ?thesis using assms(5) by (simp add: finish_and_write_def refused_implements)
next
  case (Some w)
  then show ?thesis
    using write_implements[OF finish_writable[OF Some assms(1-4)] assms(5)] by (simp add: finish_and_write_def)
qed

lemma seal_implements:
  assumes "list_all wf_json snapshots" "all_sound fmt l"
  shows "implements fmt l (seal_forecast fmt en fit snapshots matches rq l)"
proof (cases "build_forecast_artifact en fit snapshots matches rq")
  case (Inl e)
  then show ?thesis using assms by (simp add: seal_forecast_def refused_implements)
next
  case (Inr v)
  obtain a c where "finish_artifact a = Some v" "wf_json a" "is_obj a" "is_obj (jget a ''provenance'')"
      "canonical_json a = Some c" "jeq c a"
    using build_shape[OF Inr assms(1)] by auto
  then have "writable fmt v" using finish_writable[of a v] unfolding settled_def by blast
  then show ?thesis using Inr assms(2) by (simp add: seal_forecast_def write_implements)
qed

lemma score_verified_implements:
  assumes "load_verified_artifact fmt i d = Inr v" "sound fmt i d" "wf_json snap" "all_sound fmt l"
  shows "implements fmt l (score_verified_seal fmt v snap h a l)"
proof -
  have s: "settled v" using assms(1,2) by (simp add: sound_def)
  note fv = load_verified_Inr[OF assms(1)]
  show ?thesis
  proof (cases "score_snapshot_anchor v snap")
    case (Inl e)
    then show ?thesis using assms by (simp add: score_verified_seal_def refused_implements)
  next
    case (Inr t)
    have "implements fmt l (finish_and_write fmt (scored_json v snap h a t) l)"
      using fv s assms(3,4)
      by (intro finish_and_write_implements) (simp_all add: wf_scored_json scored_provenance settled_scored)
    then show ?thesis using Inr assms(4) by (simp add: score_verified_seal_def refused_implements)
  qed
qed

lemma voided_shape:
  assumes "wf_json v" "is_obj v" "is_obj (jget v ''provenance'')"
  shows "wf_json (voided_json v t r) \<and> is_obj (voided_json v t r) \<and> is_obj (jget (voided_json v t r) ''provenance'')"
  using assms unfolding voided_json_def restamp_def
  by (intro conjI wf_json_set) (simp_all add: wf_jget jget_set)

text \<open>A call on the ledger's own files, and what it answers.\<close>

fun in_place :: "ledger \<Rightarrow> ledger_call \<Rightarrow> bool" where
  "in_place l (Seal en fit snapshots matches rq) = list_all wf_json snapshots"
| "in_place l (Score_result stem data snap h a) = (dict_get (lg_files l) stem = Some data \<and> wf_json snap)"
| "in_place l (Score_pack stem data snap matches) = (dict_get (lg_files l) stem = Some data \<and> wf_json snap)"
| "in_place l (Void stem data t reason) = (dict_get (lg_files l) stem = Some data)"

fun reply :: "(string \<Rightarrow> string \<Rightarrow> bool) \<Rightarrow> ledger_call \<Rightarrow> ledger \<Rightarrow> aerror + string" where
  "reply fmt (Seal en fit snapshots matches rq) l = fst (seal_forecast fmt en fit snapshots matches rq l)"
| "reply fmt (Score_result stem data snap h a) l = fst (score_forecast_result fmt stem data snap h a l)"
| "reply fmt (Score_pack stem data snap matches) l = fst (score_forecast fmt stem data snap matches l)"
| "reply fmt (Void stem data t reason) l = fst (void_forecast fmt stem data t reason l)"

lemma call_implements:
  assumes "in_place l c" "all_sound fmt l"
  shows "implements fmt l (reply fmt c l, run_call fmt c l)"
proof (cases c)
  case (Seal en fit snapshots matches rq)
  then show ?thesis using assms seal_implements by simp
next
  case (Score_result i d snap h a)
  then obtain v where v: "load_verified_artifact fmt i d = Inr v" and s: "sound fmt i d"
    using assms by (auto simp: all_sound_def sound_def)
  show ?thesis
    using Score_result assms score_verified_implements[OF v s] by (simp add: score_forecast_result_def v)
next
  case (Score_pack i d snap matches)
  then obtain v where v: "load_verified_artifact fmt i d = Inr v" and s: "sound fmt i d"
    using assms by (auto simp: all_sound_def sound_def)
  have "implements fmt l (score_forecast fmt i d snap matches l)"
    using Score_pack assms score_verified_implements[OF v s]
    by (auto simp: score_forecast_def v Let_def refused_implements split: sum.split option.split bool.split)
  then show ?thesis using Score_pack by simp
next
  case (Void i d t r)
  then obtain v where v: "load_verified_artifact fmt i d = Inr v" "settled v"
    using assms by (auto simp: all_sound_def sound_def)
  have "implements fmt l (finish_and_write fmt (voided_json v now r) l)" for now
    using load_verified_Inr[OF v(1)] v(2) assms(2) voided_shape[of v now r]
    by (intro finish_and_write_implements) (simp_all add: settled_voided)
  then have "implements fmt l (void_forecast fmt i d t r l)"
    using assms(2) by (simp add: void_forecast_def v refused_implements split: option.split)
  then show ?thesis using Void by simp
qed

text \<open>What the files of a sound ledger hold, and that they load.\<close>

definition artifacts_of :: "(string \<Rightarrow> string \<Rightarrow> bool) \<Rightarrow> (string, string) dict \<Rightarrow> json list" where
  "artifacts_of fmt files = map (\<lambda>(i, d). projr (load_verified_artifact fmt i d)) files"

lemma all_load:
  assumes "all_sound fmt l" "set ps \<subseteq> set (lg_files l)"
  shows "mapE (\<lambda>(i, d). case load_verified_artifact fmt i d of Inl e \<Rightarrow> Inl (f e) | Inr v \<Rightarrow> Inr v) ps = Inr (artifacts_of fmt ps)"
  using assms(2)
proof (induction ps)
  case (Cons p ps)
  note sound = assms(1)[unfolded all_sound_def sound_def]
  obtain i d where p: "p = (i, d)" by (cases p)
  then have "dict_get (lg_files l) i = Some d" using Cons.prems sound by (simp add: dict_get_in)
  then obtain v where "load_verified_artifact fmt i d = Inr v" using sound by blast
  then show ?case using Cons p by (simp add: artifacts_of_def)
qed (simp add: artifacts_of_def)

lemma load_ledger_sound:
  assumes "all_sound fmt l"
  shows "\<exists>vs. load_ledger fmt (lg_files l) = Inr vs \<and> mset vs = mset (artifacts_of fmt (lg_files l))"
  using all_load[OF assms, of "sort_key fst (lg_files l)" Bad_artifact]
  by (auto simp: load_ledger_def artifacts_of_def)

section \<open>Every ledger the program can grow\<close>

inductive grown :: "(string \<Rightarrow> string \<Rightarrow> bool) \<Rightarrow> ledger \<Rightarrow> bool" for fmt where
  start: "grown fmt \<lparr> lg_files = [], lg_audit = [] \<rparr>"
| call: "grown fmt l \<Longrightarrow> in_place l c \<Longrightarrow> grown fmt (run_call fmt c l)"

lemma grown_sound: "grown fmt l \<Longrightarrow> all_sound fmt l"
proof (induction rule: grown.induct)
  case start
  then show ?case by (simp add: all_sound_def)
next
  case (call l c)
  then show ?case using call_implements[of l c fmt] by (simp add: implements_def)
qed

text \<open>
  C1: whatever is sealed, scored and voided, in any order, the ledger stays well typed: every
  file of it parses, validates and verifies under its own name, so that loading the whole ledger
  for the calibration record never fails.
\<close>

theorem ledger_always_verifies:
  assumes "grown fmt l"
  shows "(\<forall>i d. dict_get (lg_files l) i = Some d \<longrightarrow> (\<exists>v. load_verified_artifact fmt i d = Inr v))
       \<and> (\<exists>vs. load_ledger fmt (lg_files l) = Inr vs \<and> length vs = length (lg_files l))"
proof -
  note sound = grown_sound[OF assms]
  obtain vs where vs: "load_ledger fmt (lg_files l) = Inr vs" "mset vs = mset (artifacts_of fmt (lg_files l))"
    using load_ledger_sound[OF sound] by blast
  have "length vs = length (lg_files l)"
    using arg_cong[OF vs(2), of size] by (simp add: artifacts_of_def)
  with vs(1) sound show ?thesis by (auto simp: all_sound_def sound_def)
qed

lemma ledger_always_verifies_witness:
  "\<exists>s l d v. seal_forecast any_format sample_env no_fit [old_snapshot] seal_frame sample_request empty_ledger = (Inr s, l)
     \<and> dict_get (lg_files l) s = Some d \<and> load_verified_artifact any_format s d = Inr v"
proof -
  obtain s l where s: "seal_forecast any_format sample_env no_fit [old_snapshot] seal_frame sample_request empty_ledger = (Inr s, l)"
    using sample_seal by blast
  have "grown any_format (run_call any_format (Seal sample_env no_fit [old_snapshot] seal_frame sample_request) empty_ledger)"
    unfolding empty_ledger_def by (intro grown.intros) (simp add: snapshot_ok)
  then have "grown any_format l" using s by simp
  from ledger_always_verifies[OF this] s show ?thesis
    by (auto simp: seal_forecast_def dest!: write_Inr split: sum.splits)
qed

text \<open>
  C14: the directory refines a write-once register.  On any ledger the program has grown, a call
  that fails changes no artifact; a call that answers an id has that artifact in its place
  afterwards, where before there was nothing or the very same artifact, and changes no other id.
\<close>

theorem ledger_refines_register:
  assumes "grown fmt l" "in_place l c"
  shows "case reply fmt c l of
           Inl e \<Rightarrow> contents fmt (run_call fmt c l) = contents fmt l
         | Inr i \<Rightarrow> \<exists>v. contents fmt (run_call fmt c l) i = Some v
                       \<and> register i v (contents fmt l) = Some (contents fmt (run_call fmt c l))"
  using call_implements[OF assms(2) grown_sound[OF assms(1)]] by (simp add: implements_def split: sum.splits)

lemma ledger_refines_register_witness:
  "\<exists>s l v. seal_forecast any_format sample_env no_fit [old_snapshot] seal_frame sample_request empty_ledger = (Inr s, l)
     \<and> contents any_format l s = Some v"
proof -
  let ?c = "Seal sample_env no_fit [old_snapshot] seal_frame sample_request"
  obtain s l where s: "seal_forecast any_format sample_env no_fit [old_snapshot] seal_frame sample_request empty_ledger = (Inr s, l)"
    using sample_seal by blast
  have "grown any_format empty_ledger" unfolding empty_ledger_def by (rule grown.start)
  moreover have "in_place empty_ledger ?c" by (simp add: snapshot_ok)
  ultimately show ?thesis using ledger_refines_register[of any_format empty_ledger ?c] s by auto
qed

end
