(* ===== verification/Competitions.thy ===== *)
theory Competitions
  imports Json
begin

text \<open>
  \<open>src/core/golavo_core/competitions.py\<close>: the frozen catalog of competitions, their format eras and
  what the program can do for each.  The module is data only; a capability has a status, a reason
  and the sources it rests on, and the two lookups resolve an id or a source's own name.
\<close>

record capability_entry =
  cp_status :: string
  cp_reason :: string
  cp_sources :: "string list"

definition capability :: "string \<Rightarrow> string \<Rightarrow> string list \<Rightarrow> capability_entry" where
  "capability status reason sources = \<lparr> cp_status = status, cp_reason = reason, cp_sources = sources \<rparr>"

record format_era =
  fe_id :: string
  fe_label :: string
  fe_first :: string
  fe_last :: "string option"
  fe_rules :: string

definition format_of :: "string \<Rightarrow> string \<Rightarrow> string \<Rightarrow> string option \<Rightarrow> format_era" where
  "format_of era label first last_cycle =
     \<lparr> fe_id = era, fe_label = label, fe_first = first, fe_last = last_cycle, fe_rules = ''declared'' \<rparr>"

record competition =
  co_id :: string
  co_slug :: string
  co_display :: string
  co_scope :: string
  co_jurisdiction :: string
  co_sources :: "string list"
  co_eras :: "format_era list"
  co_capabilities :: "(string, capability_entry) dict"

definition base_capabilities :: "(string, capability_entry) dict" where
  "base_capabilities =
    [(''report_cards'', capability ''planned''
      (''Phase 1 will add confidence intervals and skill scores.'')
      []),
     (''strength_trends'', capability ''planned''
      (''Phase 1 will add cutoff-safe, competition-local trends.'')
      []),
     (''rest_congestion'', capability ''planned''
      (''Phase 1 will derive pre-match rest and fixture load.'')
      []),
     (''schedule_difficulty'', capability ''blocked''
      (''A complete remaining-fixture list is required.'')
      []),
     (''conditions'', capability ''partial''
      (''Rest is available when a prior indexed match exists; city, local-time, and travel ''
       @ ''context require an exact city-country resolution, which the pinned CC0 club file ''
       @ ''supplies for 92 of the 96 clubs in the five 2026-27 top-flight schedules. A stadium ''
       @ ''is a separate, stricter claim, shown only where that pinned ground and the club's ''
       @ ''Wikidata home venue agree '' @ utf8 0x2014 @ '' 37 clubs, because upstream names no ground at all for a ''
       @ ''Spanish or Italian one.'')
      [''geonames'', ''natural-earth'', ''openfootball-clubs'', ''wikidata'']),
     (''simulation'', capability ''blocked''
      (''Verified rules and complete remaining fixtures are required.'')
      []),
     (''research'', capability ''unavailable''
      (''No competition-and-era-compatible research pack is installed.'')
      []),
     (''weather_context'', capability ''partial''
      (''A per-user Open-Meteo forecast can be fetched for an upcoming match and is shown only when''
       @ '' it was captured before kickoff; it is display-only context.'')
      [''open-meteo''])]"

definition domestic_capabilities :: "string \<Rightarrow> (string, capability_entry) dict" where
  "domestic_capabilities fixture_source =
     fold (\<lambda>(k, v). dict_set k v)
    [(''results'', capability ''available''
      (''Completed results are bundled from the pinned OpenFootball league pack.'')
      [''openfootball-football-json'']),
     (''fixtures'', capability ''available''
      (''The complete 2026-27 double round-robin is bundled from the pinned OpenFootball fixture ''
       @ ''list and machine-checked against the season certificate.'')
      [''openfootball-football-json'', fixture_source]),
     (''report_cards'', capability ''available''
      (''Three chronological held-out season folds include seeded match-bootstrap skill intervals.'')
      [''openfootball-football-json'']),
     (''strength_trends'', capability ''available''
      (''Competition-local, cutoff-safe Poisson strength trends are derived from bundled results.'')
      [''openfootball-football-json'']),
     (''rest_congestion'', capability ''available''
      (''Rest and fixture load are derived from matches present in the local index.'')
      [''openfootball-football-json'']),
     (''simulation'', capability ''available''
      (''Standings rules are verified and the 2026-27 fixture list certifies complete, so the ''
       @ ''seeded outlook runs. It still fails closed per request if that certificate ever ''
       @ ''fails. A promoted club with no recent history in this competition is simulated '' @ utf8 0x2014 @ '' the ''
       @ ''other clubs' projections require it '' @ utf8 0x2014 @ '' but every team row carries the count behind it,''
       @ '' because the per-match council abstains on that club's fixtures.'')
      [''openfootball-football-json'', fixture_source]),
     (''schedule_difficulty'', capability ''available''
      (''The same certificate that unblocks the outlook supplies a complete remaining-fixture list,''
       @ '' so each team's run-in is rated by its remaining opponents' competition-local Golavo ''
       @ ''Rating. It fails closed per request if that certificate ever fails.'')
      [''openfootball-football-json'', fixture_source]),
     (''research'', capability ''partial''
      (''Pappalardo/Wyscout event research is limited to the 2017/18 season.'')
      [''pappalardo-wyscout-events''])]
     base_capabilities"

definition domestic :: "string \<Rightarrow> string \<Rightarrow> string \<Rightarrow> string \<Rightarrow> string \<Rightarrow> competition" where
  "domestic cid slug display source fixture_source =
     \<lparr> co_id = cid, co_slug = slug, co_display = display, co_scope = ''club'', co_jurisdiction = ''domestic'',
       co_sources = [source],
       co_eras = [format_of (cid @ ''-current'') ''Current domestic league era'' ''2021/22'' None],
       co_capabilities = domestic_capabilities fixture_source \<rparr>"

definition uefa_club_capabilities :: "string \<Rightarrow> (string, capability_entry) dict" where
  "uefa_club_capabilities coverage =
     fold (\<lambda>(k, v). dict_set k v)
    [(''results'', capability ''available''
      (''Completed main-competition results are bundled for '' @ coverage @ ''.'')
      [''openfootball-champions-league'']),
     (''fixtures'', capability ''partial''
      (''Historical results are complete for the stated editions; no complete future schedule is ''
       @ ''claimed.'')
      [''openfootball-champions-league'']),
     (''strength_trends'', capability ''available''
      (''Competition-local, cutoff-safe strength trends are derived from bundled results.'')
      [''openfootball-champions-league'']),
     (''rest_congestion'', capability ''available''
      (''Rest and load count only matches present in this competition's local index.'')
      [''openfootball-champions-league''])]
     base_capabilities"

definition uefa_club :: "string \<Rightarrow> string \<Rightarrow> string \<Rightarrow> string \<Rightarrow> string \<Rightarrow> competition" where
  "uefa_club cid slug display coverage began =
     \<lparr> co_id = cid, co_slug = slug, co_display = display, co_scope = ''club'', co_jurisdiction = ''uefa-club'',
       co_sources = [display],
       co_eras =
         [format_of (cid @ ''-group-2021'')
            (if cid \<noteq> ''uefa-conference-league'' then ''Group-stage era'' else ''Inaugural group-stage era'') began (Some ''2023/24''),
          format_of (cid @ ''-league-2024'') ''League-phase era'' ''2024/25'' None],
       co_capabilities = uefa_club_capabilities coverage \<rparr>"

definition international_capabilities ::
  "string \<Rightarrow> bool \<Rightarrow> bool \<Rightarrow> bool \<Rightarrow> bool \<Rightarrow> (string, capability_entry) dict" where
  "international_capabilities cid named research report_card simulation =
     (let covered_era = (if cid = ''fifa-world-cup'' then ''World Cup 2018'' else ''Euro 2016'') in
     fold (\<lambda>(k, v). dict_set k v)
    ([(''results'', capability ''available''
      (''Historical results are present in the pinned martj42 internationals pack.'')
      [''martj42-international-results'']),
     (''fixtures'', capability ''partial''
      (''Historical results do not imply a complete future schedule.'')
      [''martj42-international-results''])]
     @ (if named then
    [(''strength_trends'', capability ''available''
      (''Competition-local, cutoff-safe strength trends are derived from bundled results.'')
      [''martj42-international-results'']),
     (''rest_congestion'', capability ''available''
      (''Rest and load count matches present in Golavo's international index.'')
      [''martj42-international-results''])] else [])
     @ (if report_card then
    [(''report_cards'', capability ''available''
      (''A frozen chronological tournament fold includes seeded match-bootstrap skill intervals.'')
      [''martj42-international-results''])] else [])
     @ (if simulation then
    [(''simulation'', capability ''available''
      (''The resolved four-team 2026 bracket is exactly enumerated from separate Golavo model ''
       @ ''voices; it is not a seal.'')
      [''martj42-international-results'', ''openfootball-worldcup-json''])] else [])
     @ (if research then
    [(''research'', capability ''partial''
      (''Pappalardo/Wyscout team event research covers '' @ covered_era @ '' only.'')
      [''pappalardo-wyscout-events''])] else []))
     base_capabilities)"

definition international ::
  "string \<Rightarrow> string \<Rightarrow> string \<Rightarrow> string list \<Rightarrow> format_era list \<Rightarrow> bool \<Rightarrow> bool \<Rightarrow> bool \<Rightarrow> string \<Rightarrow> competition" where
  "international cid slug display sources eras research report_card simulation jurisdiction =
     \<lparr> co_id = cid, co_slug = slug, co_display = display, co_scope = ''international'', co_jurisdiction = jurisdiction,
       co_sources = sources, co_eras = eras,
       co_capabilities = international_capabilities cid (sources \<noteq> []) research report_card simulation \<rparr>"

definition competitions :: "competition list" where
  "competitions =
    [domestic ''england-premier-league'' ''premier-league'' ''Premier League'' ''English Premier League'' ''openfootball-england'',
     domestic ''spain-la-liga'' ''la-liga'' ''La Liga'' ''La Liga'' ''openfootball-espana'',
     domestic ''germany-bundesliga'' ''bundesliga'' ''Bundesliga'' ''Bundesliga'' ''openfootball-deutschland'',
     domestic ''italy-serie-a'' ''serie-a'' ''Serie A'' ''Serie A'' ''openfootball-italy'',
     domestic ''france-ligue-1'' ''ligue-1'' ''Ligue 1'' ''Ligue 1'' ''openfootball-europe'',
     uefa_club ''uefa-champions-league'' ''champions-league'' ''UEFA Champions League''
       ''2020/21 through 2025/26'' ''2020/21'',
     uefa_club ''uefa-europa-league'' ''europa-league'' ''UEFA Europa League''
       ''2020/21 through 2024/25'' ''2020/21'',
     uefa_club ''uefa-conference-league'' ''conference-league'' ''UEFA Conference League''
       ''2021/22 through 2024/25'' ''2021/22'',
     international ''fifa-world-cup'' ''world-cup-2026'' ''FIFA World Cup'' [''FIFA World Cup'']
       [format_of ''fifa-world-cup-2026'' ''48-team finals era'' ''2026'' None]
       True True True ''fifa-international'',
     international ''uefa-euro'' ''euro'' ''UEFA European Championship'' [''UEFA Euro'']
       [format_of ''uefa-euro-finals-2020'' ''24-team finals era'' ''2020'' (Some ''2024'')]
       True True False ''uefa-international'',
     international ''uefa-euro-qualification'' ''euro-qualification'' ''UEFA Euro qualification'' [''UEFA Euro qualification'']
       [format_of ''uefa-euro-qualification-2024'' ''Euro 2024 qualifying era'' ''2024'' None]
       False False False ''uefa-international'',
     international ''uefa-nations-league'' ''nations-league'' ''UEFA Nations League'' [''UEFA Nations League'']
       [format_of ''uefa-nations-league-2020'' ''Pre-quarter-final era'' ''2020/21'' (Some ''2022/23''),
        format_of ''uefa-nations-league-2024'' ''Quarter-final era'' ''2024/25'' None]
       False False False ''uefa-international'',
     international ''uefa-world-cup-qualification'' ''world-cup-qualification'' ''UEFA World Cup qualification'' []
       [format_of ''uefa-world-cup-qualification-2022'' ''Qatar 2022 cycle'' ''2022'' (Some ''2022''),
        format_of ''uefa-world-cup-qualification-2026'' ''Canada/Mexico/USA 2026 cycle'' ''2026'' None]
       False False False ''uefa-international'']"

definition competition_by_id :: "string \<Rightarrow> competition option" where
  "competition_by_id cid = find (\<lambda>c. co_id c = cid) competitions"

definition competition_id_for_source_name :: "string \<Rightarrow> string option" where
  "competition_id_for_source_name name = map_option co_id (find (\<lambda>c. name \<in> set (co_sources c)) competitions)"

text \<open>The catalog as the API returns it.\<close>

definition texts_json :: "string list \<Rightarrow> json" where
  "texts_json xs = JArr (map JStr xs)"

definition capability_json :: "capability_entry \<Rightarrow> json" where
  "capability_json e = JObj
     [(''status'', JStr (cp_status e)), (''reason'', JStr (cp_reason e)), (''source_ids'', texts_json (cp_sources e))]"

definition era_json :: "format_era \<Rightarrow> json" where
  "era_json e = JObj
     [(''format_era_id'', JStr (fe_id e)), (''label'', JStr (fe_label e)), (''first_cycle'', JStr (fe_first e)),
      (''last_cycle'', case fe_last e of None \<Rightarrow> JNull | Some c \<Rightarrow> JStr c), (''rules_status'', JStr (fe_rules e))]"

definition competition_json :: "competition \<Rightarrow> json" where
  "competition_json c = JObj
     [(''competition_id'', JStr (co_id c)), (''slug'', JStr (co_slug c)), (''display_name'', JStr (co_display c)),
      (''team_scope'', JStr (co_scope c)), (''jurisdiction'', JStr (co_jurisdiction c)),
      (''source_competition_names'', texts_json (co_sources c)), (''format_eras'', JArr (map era_json (co_eras c))),
      (''capabilities'', JObj (map (\<lambda>(k, e). (k, capability_json e)) (co_capabilities c)))]"

definition competition_catalog :: json where
  "competition_catalog = JObj
     [(''schema_version'', JStr ''0.1.0''), (''catalog_version'', JStr ''2026.08.21.2''),
      (''scope'', JObj
        [(''team_category'', JStr ''mens-senior''), (''club_history'', JStr ''current-plus-five-completed-seasons''),
         (''cross_era_default'', JStr ''strict'')]),
      (''refresh_policy'', JObj
        [(''daily_open_snapshots'', JStr ''planned''), (''on_demand_open_refresh'', JStr ''planned''),
         (''byok_api'', JStr ''blocked''),
         (''byok_reason'', JStr (''football-data.org remains rejected by the verified source registry; ''
            @ ''a fresh terms review is required before an adapter can be enabled.''))]),
      (''competitions'', JArr (map competition_json competitions))]"

section \<open>The catalog\<close>

text \<open>What a capability claims is backed: it names its sources exactly when it is available or partly so.\<close>

definition honest_capability :: "capability_entry \<Rightarrow> bool" where
  "honest_capability e \<longleftrightarrow>
     cp_status e \<in> {''available'', ''partial'', ''planned'', ''blocked'', ''unavailable''} \<and> cp_reason e \<noteq> []
     \<and> (cp_sources e \<noteq> []) = (cp_status e \<in> {''available'', ''partial''})"

lemma honest_simps [simp]:
  "honest_capability (capability ''available'' r s) = (r \<noteq> [] \<and> s \<noteq> [])"
  "honest_capability (capability ''partial'' r s) = (r \<noteq> [] \<and> s \<noteq> [])"
  "honest_capability (capability ''planned'' r s) = (r \<noteq> [] \<and> s = [])"
  "honest_capability (capability ''blocked'' r s) = (r \<noteq> [] \<and> s = [])"
  "honest_capability (capability ''unavailable'' r s) = (r \<noteq> [] \<and> s = [])"
  by (auto simp: honest_capability_def capability_def)

definition all_honest :: "(string, capability_entry) dict \<Rightarrow> bool" where
  "all_honest d \<longleftrightarrow> list_all (\<lambda>(_, e). honest_capability e) d"

lemma all_honest_set: "honest_capability e \<Longrightarrow> all_honest d \<Longrightarrow> all_honest (dict_set k e d)"
  by (induction d) (auto simp: all_honest_def)

lemma all_honest_fold: "all_honest kvs \<Longrightarrow> all_honest d \<Longrightarrow> all_honest (fold (\<lambda>(k, v). dict_set k v) kvs d)"
proof (induction kvs arbitrary: d)
  case (Cons p kvs)
  obtain k e where p: "p = (k, e)" by (cases p)
  have "honest_capability e" "all_honest kvs" using Cons.prems(1) by (simp_all add: p all_honest_def)
  then show ?case using Cons.IH[OF _ all_honest_set[OF _ Cons.prems(2)]] by (simp add: p)
qed simp

lemma base_honest: "all_honest base_capabilities"
  by (simp add: base_capabilities_def all_honest_def)

lemma domestic_honest: "all_honest (domestic_capabilities s)"
  unfolding domestic_capabilities_def by (rule all_honest_fold[OF _ base_honest]) (simp add: all_honest_def)

lemma uefa_club_honest: "all_honest (uefa_club_capabilities c)"
  unfolding uefa_club_capabilities_def by (rule all_honest_fold[OF _ base_honest]) (simp add: all_honest_def)

lemma international_honest: "all_honest (international_capabilities c n r p s)"
  unfolding international_capabilities_def Let_def
  by (rule all_honest_fold[OF _ base_honest]) (simp add: all_honest_def)

text \<open>The fields of an entry, without its capabilities.\<close>

lemma entry_fields [simp]:
  "co_id (domestic i s d n f) = i" "co_slug (domestic i s d n f) = s" "co_sources (domestic i s d n f) = [n]"
  "co_scope (domestic i s d n f) = ''club''" "co_capabilities (domestic i s d n f) = domestic_capabilities f"
  "co_id (uefa_club i s d c b) = i" "co_slug (uefa_club i s d c b) = s" "co_sources (uefa_club i s d c b) = [d]"
  "co_scope (uefa_club i s d c b) = ''club''" "co_capabilities (uefa_club i s d c b) = uefa_club_capabilities c"
  "co_id (international i s d ns es r p m j) = i" "co_slug (international i s d ns es r p m j) = s"
  "co_sources (international i s d ns es r p m j) = ns" "co_scope (international i s d ns es r p m j) = ''international''"
  "co_capabilities (international i s d ns es r p m j) = international_capabilities i (ns \<noteq> []) r p m"
  by (simp_all add: domestic_def uefa_club_def international_def)

lemma catalog_distinct:
  "distinct (map co_id competitions)" "distinct (map co_slug competitions)"
  "distinct (concat (map co_sources competitions))"
  by (simp_all add: competitions_def)

lemma find_distinct:
  "distinct (map f xs) \<Longrightarrow> x \<in> set xs \<Longrightarrow> find (\<lambda>y. f y = f x) xs = Some x"
  by (induction xs) auto

lemma find_distinct_concat:
  "distinct (concat (map g xs)) \<Longrightarrow> x \<in> set xs \<Longrightarrow> n \<in> set (g x) \<Longrightarrow> find (\<lambda>y. n \<in> set (g y)) xs = Some x"
  by (induction xs) auto

text \<open>
  The catalog is unambiguous and honest.  Ids and slugs are distinct, an id and a source's
  name each resolve to the one entry that declares them, and every capability has a reason and
  names its sources exactly when it claims to be available.
\<close>

theorem catalog_unambiguous:
  "distinct (map co_id competitions) \<and> distinct (map co_slug competitions)
   \<and> list_all (\<lambda>c. competition_by_id (co_id c) = Some c
        \<and> list_all (\<lambda>n. competition_id_for_source_name n = Some (co_id c)) (co_sources c)
        \<and> list_all (\<lambda>(_, e). honest_capability e) (co_capabilities c)) competitions"
proof -
  have "competition_by_id (co_id c) = Some c" if "c \<in> set competitions" for c
    using find_distinct[OF catalog_distinct(1) that] by (simp add: competition_by_id_def)
  moreover have "competition_id_for_source_name n = Some (co_id c)" if "c \<in> set competitions" "n \<in> set (co_sources c)" for c n
    using find_distinct_concat[OF catalog_distinct(3) that] by (simp add: competition_id_for_source_name_def)
  moreover have "list_all (\<lambda>c. all_honest (co_capabilities c)) competitions"
    by (simp add: competitions_def domestic_honest uefa_club_honest international_honest)
  ultimately show ?thesis using catalog_distinct(1,2) by (simp add: list_all_iff all_honest_def)
qed

end
