(* ===== verification/Csv.thy ===== *)
theory Csv
  imports Artifacts
begin

text \<open>
  What the program uses of Python's \<open>csv\<close> module and of \<open>str\<close>: UTF-8 text as its bytes, the reader
  of the default dialect as the state machine it is, \<open>DictReader\<close> rows, and \<open>int(text)\<close>.

  A reader turns lines into records; a record can be cut short by \<open>csv.Error\<close> (a bare carriage
  return inside a line, or a field above the size limit), which ends the reading.
\<close>

section \<open>Text\<close>

definition is_continuation :: "char \<Rightarrow> bool" where
  "is_continuation c \<longleftrightarrow> (let n = of_char c :: nat in 128 \<le> n \<and> n < 192)"

text \<open>\<open>bytes.decode("utf-8")\<close> succeeds: no stray, missing, overlong, surrogate or too large sequence.\<close>

fun utf8_text :: "string \<Rightarrow> bool" where
  "utf8_text [] = True"
| "utf8_text (c # cs) =
     (let n = of_char c :: nat in
      if n < 128 then utf8_text cs
      else if 194 \<le> n \<and> n < 224
      then (case cs of d # ds \<Rightarrow> is_continuation d \<and> utf8_text ds | [] \<Rightarrow> False)
      else if 224 \<le> n \<and> n < 240
      then (case cs of
              d # e # es \<Rightarrow>
                is_continuation d \<and> is_continuation e \<and> (n = 224 \<longrightarrow> 160 \<le> (of_char d :: nat))
                \<and> (n = 237 \<longrightarrow> (of_char d :: nat) < 160) \<and> utf8_text es
            | _ \<Rightarrow> False)
      else if 240 \<le> n \<and> n < 245
      then (case cs of
              d # e # f # fs \<Rightarrow>
                is_continuation d \<and> is_continuation e \<and> is_continuation f \<and> (n = 240 \<longrightarrow> 144 \<le> (of_char d :: nat))
                \<and> (n = 244 \<longrightarrow> (of_char d :: nat) < 144) \<and> utf8_text fs
            | _ \<Rightarrow> False)
      else False)"

text \<open>\<open>json.loads(bytes.decode("utf-8"))\<close>; \<open>None\<close> for either exception.\<close>

definition read_json :: "string \<Rightarrow> json option" where
  "read_json payload = (if utf8_text payload then loads payload else None)"

definition code_points :: "string \<Rightarrow> nat" where
  "code_points s = length (filter (\<lambda>c. \<not> is_continuation c) s)"

text \<open>\<open>s[:n]\<close>, in code points.\<close>

fun take_points :: "nat \<Rightarrow> string \<Rightarrow> string" where
  "take_points n [] = []"
| "take_points n (c # cs) =
     (if is_continuation c then c # take_points n cs
      else (case n of 0 \<Rightarrow> [] | Suc m \<Rightarrow> c # take_points m cs))"

text \<open>\<open>int(text)\<close>; \<open>None\<close> is the \<open>ValueError\<close>.  Digits may be grouped by single underscores.\<close>

fun grouped_digits :: "string \<Rightarrow> bool" where
  "grouped_digits [] = False"
| "grouped_digits [c] = is_digit c"
| "grouped_digits (c # d # cs) =
     (is_digit c \<and> (if d = CHR ''_'' then grouped_digits cs else grouped_digits (d # cs)))"

definition py_int :: "string \<Rightarrow> int option" where
  "py_int s =
     (let t = strip_text s;
          (negative, body) = (case t of
             c # cs \<Rightarrow> if c = CHR ''-'' then (True, cs) else if c = CHR ''+'' then (False, cs) else (False, t)
           | [] \<Rightarrow> (False, t));
          digits = filter is_digit body
      in if grouped_digits body \<and> length digits \<le> 4300
         then Some (if negative then - int (str_nat digits) else int (str_nat digits)) else None)"

section \<open>The reader\<close>

datatype reader_state = Start_record | Start_field | In_field | In_quoted_field | Quote_in_quoted_field | Eat_crnl

record csv_reader =
  rd_state :: reader_state
  rd_field :: string
  rd_fields :: "string list"

definition fresh_reader :: csv_reader where
  "fresh_reader = \<lparr> rd_state = Start_record, rd_field = [], rd_fields = [] \<rparr>"

definition field_limit :: nat where "field_limit = 131072"

definition add_char :: "char \<Rightarrow> reader_state \<Rightarrow> csv_reader \<Rightarrow> csv_reader option" where
  "add_char c st r =
     (if \<not> is_continuation c \<and> code_points (rd_field r) \<ge> field_limit then None
      else Some (r\<lparr> rd_state := st, rd_field := rd_field r @ [c] \<rparr>))"

definition save_field :: "reader_state \<Rightarrow> csv_reader \<Rightarrow> csv_reader option" where
  "save_field st r = Some (r\<lparr> rd_state := st, rd_field := [], rd_fields := rd_fields r @ [rd_field r] \<rparr>)"

definition is_newline :: "char \<Rightarrow> bool" where
  "is_newline c \<longleftrightarrow> c = CHR 0x0A \<or> c = CHR 0x0D"

text \<open>One character, or \<open>None\<close> for the end of the line.  The result \<open>None\<close> is \<open>csv.Error\<close>.\<close>

definition start_field :: "char option \<Rightarrow> csv_reader \<Rightarrow> csv_reader option" where
  "start_field x r =
     (case x of
        None \<Rightarrow> save_field Start_record r
      | Some c \<Rightarrow>
          if is_newline c then save_field Eat_crnl r
          else if c = CHR 0x22 then Some (r\<lparr>rd_state := In_quoted_field\<rparr>)
          else if c = CHR '','' then save_field Start_field r
          else add_char c In_field r)"

definition read_char :: "char option \<Rightarrow> csv_reader \<Rightarrow> csv_reader option" where
  "read_char x r =
     (case rd_state r of
        Start_record \<Rightarrow>
          (case x of
             None \<Rightarrow> Some r
           | Some c \<Rightarrow> if is_newline c then Some (r\<lparr>rd_state := Eat_crnl\<rparr>) else start_field x r)
      | Start_field \<Rightarrow> start_field x r
      | In_field \<Rightarrow>
          (case x of
             None \<Rightarrow> save_field Start_record r
           | Some c \<Rightarrow>
               if is_newline c then save_field Eat_crnl r
               else if c = CHR '','' then save_field Start_field r else add_char c In_field r)
      | In_quoted_field \<Rightarrow>
          (case x of
             None \<Rightarrow> Some r
           | Some c \<Rightarrow>
               if c = CHR 0x22 then Some (r\<lparr>rd_state := Quote_in_quoted_field\<rparr>) else add_char c In_quoted_field r)
      | Quote_in_quoted_field \<Rightarrow>
          (case x of
             None \<Rightarrow> save_field Start_record r
           | Some c \<Rightarrow>
               if c = CHR 0x22 then add_char c In_quoted_field r
               else if c = CHR '','' then save_field Start_field r
               else if is_newline c then save_field Eat_crnl r else add_char c In_field r)
      | Eat_crnl \<Rightarrow>
          (case x of
             None \<Rightarrow> Some (r\<lparr>rd_state := Start_record\<rparr>)
           | Some c \<Rightarrow> if is_newline c then Some r else None))"

fun read_line :: "string \<Rightarrow> csv_reader \<Rightarrow> csv_reader option" where
  "read_line [] r = read_char None r"
| "read_line (c # cs) r = (case read_char (Some c) r of None \<Rightarrow> None | Some r' \<Rightarrow> read_line cs r')"

text \<open>\<open>io.StringIO\<close> iterates over lines that keep their line feed.\<close>

fun text_lines :: "string \<Rightarrow> string list" where
  "text_lines [] = []"
| "text_lines (c # cs) =
     (if c = CHR 0x0A then [c] # text_lines cs
      else case text_lines cs of [] \<Rightarrow> [[c]] | l # ls \<Rightarrow> (c # l) # ls)"

text \<open>
  The records of the remaining lines, and whether the reading ends in \<open>csv.Error\<close>.  A quoted
  field that is still open at the end of the text is closed there.
\<close>

fun read_records :: "csv_reader \<Rightarrow> string list \<Rightarrow> string list list \<times> bool" where
  "read_records r [] =
     (if rd_field r \<noteq> [] \<or> rd_state r = In_quoted_field then ([rd_fields r @ [rd_field r]], False) else ([], False))"
| "read_records r (l # ls) =
     (case read_line l r of
        None \<Rightarrow> ([], True)
      | Some r' \<Rightarrow>
          if rd_state r' = Start_record
          then (case read_records fresh_reader ls of (rows, failed) \<Rightarrow> (rd_fields r' # rows, failed))
          else read_records r' ls)"

definition csv_records :: "string \<Rightarrow> string list list \<times> bool" where
  "csv_records text = read_records fresh_reader (text_lines text)"

text \<open>A row of \<open>DictReader\<close>: a missing column reads as \<open>None\<close>, and so does a field the row is too short for.\<close>

definition cell :: "string list \<Rightarrow> string list \<Rightarrow> string \<Rightarrow> string option" where
  "cell names row k = (if k \<in> set (drop (length row) names) then None else map_of (rev (zip names row)) k)"

end
