(* ===== verification/Settlement.thy ===== *)
theory Settlement
  imports Calibration Competitions Csv
begin

text \<open>
  \<open>src/server/golavo_server/settlement.py\<close>: results from two pinned sources, matched to the
  pending forecasts of the ledger and appended as scored successors.  Parameters: \<open>fetch\<close> (the
  network, with the size limit and the typed transport failure of \<open>_fetch\<close>), \<open>fold_name\<close>
  (\<open>normalize\<close> of \<open>src/core/golavo_core/identity.py\<close>, which rests on the Unicode tables),
  \<open>stamp\<close> (pandas' reading of a date that is not an ISO day) and \<open>fmt\<close> (jsonschema's formats).
  The settlement lock makes a run one step.
\<close>

section \<open>Fixture keys\<close>

type_synonym match_key = "string \<times> string \<times> string \<times> string"

definition iso_day :: "string \<Rightarrow> bool" where
  "iso_day s \<longleftrightarrow> length s \<ge> 10 \<and> s ! 4 = CHR ''-'' \<and> s ! 7 = CHR ''-''
     \<and> list_all (\<lambda>i. is_digit (s ! i)) [0, 1, 2, 3, 5, 6, 8, 9]"

definition fixture_date :: "(string \<Rightarrow> string option) \<Rightarrow> string \<Rightarrow> string option" where
  "fixture_date stamp s = (if iso_day s then Some (take 10 s) else stamp s)"

definition fixture_key ::
  "(string \<Rightarrow> string) \<Rightarrow> (string \<Rightarrow> string option) \<Rightarrow> string \<Rightarrow> string \<Rightarrow> string \<Rightarrow> string \<Rightarrow> match_key" where
  "fixture_key fold_name stamp date home away competition =
     ((case fixture_date stamp date of Some day \<Rightarrow> day | None \<Rightarrow> date),
      fold_name home, fold_name away, fold_name competition)"

definition requires_independent_confirmation :: "string \<Rightarrow> bool" where
  "requires_independent_confirmation competition =
     (case competition_id_for_source_name competition of
        None \<Rightarrow> False
      | Some cid \<Rightarrow> (case competition_by_id cid of None \<Rightarrow> False | Some c \<Rightarrow> co_scope c = ''club''))"

section \<open>Sources\<close>

datatype refusal =
    Unreachable | Bad_commit | Incomplete_commit | Conflicting_duplicate | Header_changed | Invalid_score
  | No_matches | Not_utf8 | Bad_year | Bad_payload

text \<open>A source fails with the typed \<open>SettlementError\<close>, or with an exception no caller expects.\<close>

datatype source_error = Settlement_error refusal | Uncaught

type_synonym results = "(match_key, int \<times> int) dict"

record source_results =
  sr_source :: string
  sr_snapshot :: json
  sr_results :: results

definition insert_result :: "results \<Rightarrow> match_key \<Rightarrow> int \<times> int \<Rightarrow> source_error + results" where
  "insert_result results key score =
     (case dict_get results key of
        Some previous \<Rightarrow>
          if previous \<noteq> score then Inl (Settlement_error Conflicting_duplicate) else Inr (dict_set key score results)
      | None \<Rightarrow> Inr (dict_set key score results))"

definition wanted :: "match_key list option \<Rightarrow> match_key \<Rightarrow> bool" where
  "wanted targets key = (case targets of None \<Rightarrow> True | Some ks \<Rightarrow> key \<in> set ks)"

definition no_score :: "string option \<Rightarrow> bool" where
  "no_score x \<longleftrightarrow> x \<in> {None, Some [], Some ''NA''}"

definition cell_text :: "string option \<Rightarrow> string" where
  "cell_text x = (case x of None \<Rightarrow> ''None'' | Some s \<Rightarrow> s)"

definition martj42_columns :: "string list" where
  "martj42_columns = [''date'', ''home_team'', ''away_team'', ''home_score'', ''away_score'', ''tournament'']"

text \<open>One row: \<open>None\<close> when it has no score yet, else its key and score.\<close>

definition martj42_row ::
  "(string \<Rightarrow> string) \<Rightarrow> (string \<Rightarrow> string option) \<Rightarrow> string list \<Rightarrow> string list \<Rightarrow> source_error + (match_key \<times> int \<times> int) option" where
  "martj42_row fold_name stamp names row =
     (let home_score = cell names row ''home_score''; away_score = cell names row ''away_score'' in
      if no_score home_score \<or> no_score away_score then Inr None
      else (case (py_int (cell_text home_score), py_int (cell_text away_score)) of
              (Some h, Some a) \<Rightarrow>
                if h < 0 \<or> a < 0 then Inl (Settlement_error Invalid_score)
                else Inr (Some (fixture_key fold_name stamp (cell_text (cell names row ''date''))
                       (cell_text (cell names row ''home_team'')) (cell_text (cell names row ''away_team''))
                       (opt_set (cell names row ''tournament'') []), h, a))
            | _ \<Rightarrow> Inl (Settlement_error Invalid_score)))"

fun martj42_rows ::
  "(string list \<Rightarrow> source_error + (match_key \<times> int \<times> int) option) \<Rightarrow> match_key list option \<Rightarrow> string list list \<Rightarrow> results
   \<Rightarrow> source_error + results" where
  "martj42_rows parse targets [] results = Inr results"
| "martj42_rows parse targets (row # rows) results =
     (if row = [] then martj42_rows parse targets rows results
      else bindE (parse row) (\<lambda>x.
        case x of
          None \<Rightarrow> martj42_rows parse targets rows results
        | Some (key, score) \<Rightarrow>
            if wanted targets key
            then bindE (insert_result results key score) (martj42_rows parse targets rows)
            else martj42_rows parse targets rows results))"

definition martj42_results ::
  "(string \<Rightarrow> string) \<Rightarrow> (string \<Rightarrow> string option) \<Rightarrow> string \<Rightarrow> match_key list option \<Rightarrow> source_error + results" where
  "martj42_results fold_name stamp text targets =
     (case csv_records text of
        ([], True) \<Rightarrow> Inl Uncaught
      | ([], False) \<Rightarrow> Inl (Settlement_error Header_changed)
      | (names # rows, failed) \<Rightarrow>
          if \<not> set martj42_columns \<subseteq> set names then Inl (Settlement_error Header_changed)
          else bindE (martj42_rows (martj42_row fold_name stamp names) targets rows []) (\<lambda>results.
            if failed then Inl Uncaught else Inr results))"

text \<open>\<open>worldcup.py\<close>: the result after extra time when there is one, else after ninety minutes.\<close>

definition whole_number :: "json \<Rightarrow> int option" where
  "whole_number v = (case v of JInt i \<Rightarrow> Some i | JBool b \<Rightarrow> Some (if b then 1 else 0) | _ \<Rightarrow> None)"

definition score_pair :: "json \<Rightarrow> (int \<times> int) option" where
  "score_pair v =
     (case v of
        JArr [a, b] \<Rightarrow> (case (whole_number a, whole_number b) of (Some x, Some y) \<Rightarrow> Some (x, y) | _ \<Rightarrow> None)
      | _ \<Rightarrow> None)"

definition final_score :: "json \<Rightarrow> (int \<times> int) option" where
  "final_score v =
     (if \<not> is_obj v then None
      else (case score_pair (jget v ''et'') of Some s \<Rightarrow> Some s | None \<Rightarrow> score_pair (jget v ''ft'')))"

definition some_name :: "json \<Rightarrow> bool" where
  "some_name v = (case v of JStr s \<Rightarrow> s \<noteq> [] | _ \<Rightarrow> False)"

fun world_cup_rows ::
  "(string \<Rightarrow> string) \<Rightarrow> (string \<Rightarrow> string option) \<Rightarrow> match_key list option \<Rightarrow> json list \<Rightarrow> results \<Rightarrow> source_error + results" where
  "world_cup_rows fold_name stamp targets [] results = Inr results"
| "world_cup_rows fold_name stamp targets (m # ms) results =
     (if is_obj m \<and> some_name (jget m ''date'') \<and> some_name (jget m ''team1'') \<and> some_name (jget m ''team2'')
      then (case final_score (jget m ''score'') of
              None \<Rightarrow> world_cup_rows fold_name stamp targets ms results
            | Some score \<Rightarrow>
                let key = fixture_key fold_name stamp (text_at m ''date'') (text_at m ''team1'') (text_at m ''team2'') ''FIFA World Cup'' in
                if wanted targets key
                then bindE (insert_result results key score) (world_cup_rows fold_name stamp targets ms)
                else world_cup_rows fold_name stamp targets ms results)
      else world_cup_rows fold_name stamp targets ms results)"

definition world_cup_results ::
  "(string \<Rightarrow> string) \<Rightarrow> (string \<Rightarrow> string option) \<Rightarrow> json \<Rightarrow> match_key list option \<Rightarrow> source_error + results" where
  "world_cup_results fold_name stamp data targets =
     (if \<not> is_obj data then Inl Uncaught
      else (case jget data ''matches'' of
              JArr ms \<Rightarrow> world_cup_rows fold_name stamp targets ms []
            | _ \<Rightarrow> Inl (Settlement_error No_matches)))"

section \<open>Fetching\<close>

definition martj_repo :: string where "martj_repo = ''martj42/international_results''"
definition martj_source :: string where "martj_source = ''martj42-international-results''"
definition martj_url :: string where "martj_url = ''https://github.com/martj42/international_results''"
definition world_cup_repo :: string where "world_cup_repo = ''openfootball/worldcup.json''"
definition world_cup_source :: string where "world_cup_source = ''openfootball-worldcup-json''"
definition world_cup_url :: string where "world_cup_url = ''https://github.com/openfootball/worldcup.json''"

definition commit_api :: "string \<Rightarrow> string" where
  "commit_api repo = ''https://api.github.com/repos/'' @ repo @ ''/commits/master''"

definition raw_url :: "string \<Rightarrow> string \<Rightarrow> string \<Rightarrow> string" where
  "raw_url repo ref path = ''https://raw.githubusercontent.com/'' @ repo @ ''/'' @ ref @ ''/'' @ path"

text \<open>\<open>v[k]\<close>; \<open>None\<close> where a \<open>KeyError\<close> or \<open>TypeError\<close> would be raised.\<close>

definition json_item :: "json option \<Rightarrow> string \<Rightarrow> json option" where
  "json_item v k = (case v of Some (JObj kvs) \<Rightarrow> dict_get kvs k | _ \<Rightarrow> None)"

definition commit :: "string \<Rightarrow> (string \<Rightarrow> source_error + string) \<Rightarrow> source_error + (string \<times> string)" where
  "commit repo fetch =
     bindE (fetch (commit_api repo)) (\<lambda>payload.
       let body = read_json payload in
       (case (json_item body ''sha'', json_item (json_item (json_item body ''commit'') ''committer'') ''date'') of
          (Some sha, Some date) \<Rightarrow>
            let ref = py_text sha; committed_at = py_text date in
            if code_points ref < 12 \<or> committed_at = [] then Inl (Settlement_error Incomplete_commit)
            else Inr (ref, committed_at)
        | _ \<Rightarrow> Inl (Settlement_error Bad_commit)))"

definition descriptor :: "string \<Rightarrow> string \<Rightarrow> string \<Rightarrow> string \<Rightarrow> string \<Rightarrow> string \<Rightarrow> json" where
  "descriptor source_id source_url ref committed_at retrieved_at payload = JObj
     [(''snapshot_id'', JStr (''sp_'' @ take_points 12 ref)), (''source_id'', JStr source_id), (''url'', JStr source_url),
      (''upstream_ref'', JStr ref), (''upstream_committed_at_utc'', JStr committed_at),
      (''retrieved_at_utc'', JStr retrieved_at), (''sha256'', JStr (sha256_hex payload)), (''license'', JStr ''CC0-1.0'')]"

definition fetch_martj42 ::
  "(string \<Rightarrow> string) \<Rightarrow> (string \<Rightarrow> string option) \<Rightarrow> (string \<Rightarrow> source_error + string)
   \<Rightarrow> string \<Rightarrow> match_key list \<Rightarrow> source_error + source_results" where
  "fetch_martj42 fold_name stamp fetch retrieved_at targets =
     bindE (commit martj_repo fetch) (\<lambda>(ref, committed_at).
     bindE (fetch (raw_url martj_repo ref ''results.csv'')) (\<lambda>payload.
     bindE (guardE (utf8_text payload) (Settlement_error Not_utf8)) (\<lambda>_.
     bindE (martj42_results fold_name stamp payload (Some targets)) (\<lambda>results.
       Inr \<lparr> sr_source = martj_source,
             sr_snapshot = descriptor martj_source martj_url ref committed_at retrieved_at payload,
             sr_results = results \<rparr>))))"

definition fetch_world_cup ::
  "(string \<Rightarrow> string) \<Rightarrow> (string \<Rightarrow> string option) \<Rightarrow> (string \<Rightarrow> source_error + string)
   \<Rightarrow> string \<Rightarrow> string \<Rightarrow> match_key list \<Rightarrow> source_error + source_results" where
  "fetch_world_cup fold_name stamp fetch year retrieved_at targets =
     bindE (guardE (length year = 4 \<and> list_all is_digit year) (Settlement_error Bad_year)) (\<lambda>_.
     bindE (commit world_cup_repo fetch) (\<lambda>(ref, committed_at).
     bindE (fetch (raw_url world_cup_repo ref (year @ ''/worldcup.json''))) (\<lambda>payload.
       (case read_json payload of
          None \<Rightarrow> Inl (Settlement_error Bad_payload)
        | Some data \<Rightarrow>
            bindE (world_cup_results fold_name stamp data (Some targets)) (\<lambda>results.
              Inr \<lparr> sr_source = world_cup_source,
                    sr_snapshot = descriptor world_cup_source world_cup_url ref committed_at retrieved_at payload,
                    sr_results = results \<rparr>)))))"

section \<open>The pending forecasts\<close>

datatype timing = Deferred | Club_pending | Eligible

definition result_grace :: nat where "result_grace = 3"

definition chain_match :: "json \<Rightarrow> json" where
  "chain_match c = jget c ''match''"

definition chain_id :: "json \<Rightarrow> string" where
  "chain_id c = text_at c ''sealed_artifact_id''"

definition chain_kickoff :: "json \<Rightarrow> string" where
  "chain_kickoff c = text_at (chain_match c) ''kickoff_utc''"

definition is_unresolved :: "json \<Rightarrow> bool" where
  "is_unresolved c \<longleftrightarrow> jget (jget c ''resolution'') ''status'' = JStr ''pending''
     \<and> \<not> py_truthy (jget c ''abstained'') \<and> jget c ''probs'' \<noteq> JNull"

text \<open>\<open>None\<close> where the kickoff does not parse and the run raises.\<close>

definition timing_of :: "dt \<Rightarrow> json \<Rightarrow> timing option" where
  "timing_of now c =
     (case parse_iso (chain_kickoff c) of
        None \<Rightarrow> None
      | Some kickoff \<Rightarrow>
          Some (if now < add_hours result_grace kickoff then Deferred
                else if requires_independent_confirmation (text_at (chain_match c) ''competition'') then Club_pending
                else Eligible))"

definition timed :: "timing \<Rightarrow> dt \<Rightarrow> json list \<Rightarrow> json list" where
  "timed k now cs = filter (\<lambda>c. timing_of now c = Some k) cs"

definition chain_key :: "(string \<Rightarrow> string) \<Rightarrow> (string \<Rightarrow> string option) \<Rightarrow> json \<Rightarrow> match_key" where
  "chain_key fold_name stamp c =
     fixture_key fold_name stamp (take 10 (chain_kickoff c)) (text_at (chain_match c) ''home_team'')
       (text_at (chain_match c) ''away_team'') (text_at (chain_match c) ''competition'')"

definition is_world_cup :: "json \<Rightarrow> bool" where
  "is_world_cup c \<longleftrightarrow> jget (chain_match c) ''competition'' = JStr ''FIFA World Cup''"

section \<open>A settlement\<close>

datatype issue =
    Source_failed string refusal | Sources_disagree string string | Score_refused string string aerror
  | File_missing string string

datatype pending_reason = Awaiting_confirmation | Source_conflict | Result_not_published | Scoring_refused

record settled_score =
  ss_sealed :: string
  ss_scored :: string
  ss_home :: string
  ss_away :: string
  ss_home_goals :: int
  ss_away_goals :: int
  ss_source :: string

record report =
  rp_checked_at :: string
  rp_pending_before :: nat
  rp_eligible :: nat
  rp_awaiting :: nat
  rp_deferred :: "string list"
  rp_sources :: "string list"
  rp_scored :: "settled_score list"
  rp_still_pending :: "(string \<times> pending_reason) list"
  rp_errors :: "issue list"

text \<open>What ends a run without a report: an exception that is not one of those it catches.\<close>

datatype crash = Calibration_failed cal_error | Bad_kickoff | Source_crashed | Score_crashed aerror

record sources =
  so_martj :: "(string, source_results) dict"
  so_world_cup :: "(string, source_results) dict"

type_synonym martj_loader = "string \<Rightarrow> match_key list \<Rightarrow> source_error + source_results"
type_synonym world_cup_loader = "string \<Rightarrow> string \<Rightarrow> match_key list \<Rightarrow> source_error + source_results"

definition load_martj :: "martj_loader \<Rightarrow> string \<Rightarrow> match_key list \<Rightarrow> crash + ((string, source_results) dict \<times> issue list)" where
  "load_martj martj retrieved_at keys =
     (if keys = [] then Inr ([], [])
      else (case martj retrieved_at keys of
              Inr s \<Rightarrow> Inr ([(sr_source s, s)], [])
            | Inl (Settlement_error e) \<Rightarrow> Inr ([], [Source_failed martj_source e])
            | Inl Uncaught \<Rightarrow> Inl Source_crashed))"

fun load_world_cup ::
  "world_cup_loader \<Rightarrow> string \<Rightarrow> match_key list \<Rightarrow> string list \<Rightarrow> crash + ((string, source_results) dict \<times> issue list)" where
  "load_world_cup world retrieved_at keys [] = Inr ([], [])"
| "load_world_cup world retrieved_at keys (year # years) =
     (case world year retrieved_at (filter (\<lambda>k. starts_with year (fst k)) keys) of
        Inl Uncaught \<Rightarrow> Inl Source_crashed
      | Inl (Settlement_error e) \<Rightarrow>
          bindE (load_world_cup world retrieved_at keys years) (\<lambda>(d, ns). Inr (d, Source_failed world_cup_source e # ns))
      | Inr s \<Rightarrow>
          bindE (load_world_cup world retrieved_at keys years) (\<lambda>(d, ns). Inr ((year, s) # d, ns)))"

definition world_cup_years :: "json list \<Rightarrow> string list" where
  "world_cup_years due = sort (remdups (map (\<lambda>c. take 4 (chain_kickoff c)) (filter is_world_cup due)))"

definition observation :: "source_results option \<Rightarrow> match_key \<Rightarrow> ((int \<times> int) \<times> json) list" where
  "observation source key =
     (case source of None \<Rightarrow> []
      | Some s \<Rightarrow> (case dict_get (sr_results s) key of None \<Rightarrow> [] | Some score \<Rightarrow> [(score, sr_snapshot s)]))"

definition observations :: "(string \<Rightarrow> string) \<Rightarrow> (string \<Rightarrow> string option) \<Rightarrow> sources \<Rightarrow> json \<Rightarrow> ((int \<times> int) \<times> json) list" where
  "observations fold_name stamp so c =
     observation (dict_get (so_martj so) martj_source) (chain_key fold_name stamp c)
     @ (if is_world_cup c
        then observation (dict_get (so_world_cup so) (take 4 (chain_kickoff c))) (chain_key fold_name stamp c) else [])"

text \<open>The verdict on one due forecast.\<close>

datatype verdict = Scored settled_score | Pending pending_reason "issue list"

text \<open>\<open>except (OSError, ValueError)\<close> does not catch a schema violation or a type failure.\<close>

definition catches :: "aerror \<Rightarrow> bool" where
  "catches e \<longleftrightarrow> e \<noteq> Schema_invalid \<and> e \<noteq> Type_failure"

definition newest :: "((int \<times> int) \<times> json) list \<Rightarrow> json" where
  "newest obs = snd (first_max (\<lambda>o'. snapshot_anchor_utc (snd o')) (hd obs) (tl obs))"

definition settle_chain ::
  "(string \<Rightarrow> string \<Rightarrow> bool) \<Rightarrow> ((int \<times> int) \<times> json) list \<Rightarrow> json \<Rightarrow> ledger \<Rightarrow> crash + (verdict \<times> ledger)" where
  "settle_chain fmt obs c l =
     (let m = chain_match c; home = text_at m ''home_team''; away = text_at m ''away_team'' in
      if \<not> list_all (\<lambda>o'. fst o' = fst (hd obs)) obs
      then Inr (Pending Source_conflict [Sources_disagree home away], l)
      else if obs = [] then Inr (Pending Result_not_published [], l)
      else
        let (h, a) = fst (hd obs); snap = newest obs; source = text_at snap ''source_id'' in
        (case dict_get (lg_files l) (chain_id c) of
           None \<Rightarrow> Inr (Pending Scoring_refused [File_missing source (chain_id c)], l)
         | Some data \<Rightarrow>
             (case score_forecast_result fmt (chain_id c) data snap h a l of
                (Inr s, l') \<Rightarrow> Inr (Scored \<lparr> ss_sealed = chain_id c, ss_scored = s, ss_home = home, ss_away = away,
                                     ss_home_goals = h, ss_away_goals = a, ss_source = source \<rparr>, l')
              | (Inl e, l') \<Rightarrow>
                  if catches e then Inr (Pending Scoring_refused [Score_refused source (chain_id c) e], l')
                  else Inl (Score_crashed e))))"

text \<open>
  The due forecasts in turn.  The ledger survives a crash: what was scored before stays.
\<close>

fun settle_chains ::
  "(string \<Rightarrow> string \<Rightarrow> bool) \<Rightarrow> (json \<Rightarrow> ((int \<times> int) \<times> json) list) \<Rightarrow> json list \<Rightarrow> ledger
   \<Rightarrow> (crash + (json \<times> verdict) list) \<times> ledger" where
  "settle_chains fmt obs [] l = (Inr [], l)"
| "settle_chains fmt obs (c # cs) l =
     (case settle_chain fmt (obs c) c l of
        Inl e \<Rightarrow> (Inl e, l)
      | Inr (v, l') \<Rightarrow>
          (case settle_chains fmt obs cs l' of
             (Inl e, l'') \<Rightarrow> (Inl e, l'')
           | (Inr vs, l'') \<Rightarrow> (Inr ((c, v) # vs), l'')))"

definition scored_of :: "(json \<times> verdict) list \<Rightarrow> settled_score list" where
  "scored_of vs = concat (map (\<lambda>(c, v). case v of Scored s \<Rightarrow> [s] | Pending _ _ \<Rightarrow> []) vs)"

definition pending_of :: "(json \<times> verdict) list \<Rightarrow> (string \<times> pending_reason) list" where
  "pending_of vs = concat (map (\<lambda>(c, v). case v of Scored _ \<Rightarrow> [] | Pending r _ \<Rightarrow> [(chain_id c, r)]) vs)"

definition notes_of :: "(json \<times> verdict) list \<Rightarrow> issue list" where
  "notes_of vs = concat (map (\<lambda>(c, v). case v of Scored _ \<Rightarrow> [] | Pending _ ns \<Rightarrow> ns) vs)"

definition gather_sources ::
  "martj_loader \<Rightarrow> world_cup_loader \<Rightarrow> string \<Rightarrow> match_key list \<Rightarrow> string list \<Rightarrow> crash + (sources \<times> issue list)" where
  "gather_sources martj world retrieved_at keys years =
     bindE (load_martj martj retrieved_at keys) (\<lambda>(d, ns).
     bindE (load_world_cup world retrieved_at keys years) (\<lambda>(w, ms).
       Inr (\<lparr> so_martj = d, so_world_cup = w \<rparr>, ns @ ms)))"

definition default_origin :: string where
  "default_origin = ''data/artifacts (real sealed forecasts; never backtests)''"

definition settle_pending_forecasts ::
  "(string \<Rightarrow> string \<Rightarrow> bool) \<Rightarrow> (string \<Rightarrow> string) \<Rightarrow> (string \<Rightarrow> string option) \<Rightarrow> martj_loader \<Rightarrow> world_cup_loader
   \<Rightarrow> dt \<Rightarrow> ledger \<Rightarrow> (crash + report) \<times> ledger" where
  "settle_pending_forecasts fmt fold_name stamp martj world now l =
     (case calibration_summary fmt (lg_files l) default_origin of
        Inl e \<Rightarrow> (Inl (Calibration_failed e), l)
      | Inr summary \<Rightarrow>
          let unresolved = filter is_unresolved (sy_chains summary);
              due = timed Eligible now unresolved; clubs = timed Club_pending now unresolved in
          if \<not> list_all (\<lambda>c. timing_of now c \<noteq> None) unresolved then (Inl Bad_kickoff, l)
          else
            (case gather_sources martj world (dt_iso now) (map (chain_key fold_name stamp) due) (world_cup_years due) of
               Inl e \<Rightarrow> (Inl e, l)
             | Inr (so, notes) \<Rightarrow>
                 (case settle_chains fmt (observations fold_name stamp so) due l of
                    (Inl e, l') \<Rightarrow> (Inl e, l')
                  | (Inr vs, l') \<Rightarrow>
                      (Inr \<lparr> rp_checked_at = dt_iso now, rp_pending_before = length unresolved,
                             rp_eligible = length due, rp_awaiting = length clubs,
                             rp_deferred = map chain_id (timed Deferred now unresolved),
                             rp_sources = sort (remdups (map fst (so_martj so) @ map (\<lambda>(y, s). sr_source s) (so_world_cup so))),
                             rp_scored = scored_of vs,
                             rp_still_pending = map (\<lambda>c. (chain_id c, Awaiting_confirmation)) clubs @ pending_of vs,
                             rp_errors = notes @ notes_of vs \<rparr>, l'))))"

end
