(* ===== verification/Settlement_Laws.thy ===== *)
theory Settlement_Laws
  imports Settlement Artifact_Register Calibration_Laws
begin

text \<open>
  What settlement promises: a run never breaks the calibration record, whatever the sources
  answer; every score it writes is one the sources agree on, of a fixture three hours past its
  kickoff; and its report accounts for every forecast that was pending.
\<close>

section \<open>When the chains of a ledger pair up\<close>

definition placed :: "json list \<Rightarrow> bool" where
  "placed vs \<longleftrightarrow> list_all (well_placed (map id_of vs)) vs \<and> distinct (map superseded (filter (\<lambda>a. \<not> is_root a) vs))"

lemma successors_of_total:
  assumes "list_all (well_placed ids) as" "distinct (map superseded (filter (\<lambda>a. \<not> is_root a) as))"
    and "\<And>a. a \<in> set as \<Longrightarrow> \<not> is_root a \<Longrightarrow> dict_get found (superseded a) = None"
  shows "\<exists>found'. successors_of ids as found = Inr found'"
  using assms
proof (induction as arbitrary: found)
  case (Cons a as)
  show ?case
  proof (cases "is_root a")
    case True
    then show ?thesis using Cons by (simp add: well_placed_def)
  next
    case False
    have "\<exists>f. successors_of ids as (dict_set (superseded a) a found) = Inr f"
    proof (rule Cons.IH)
      fix b assume b: "b \<in> set as" "\<not> is_root b"
      then have "superseded b \<noteq> superseded a" using Cons.prems(2) False by (auto simp: image_iff)
      then show "dict_get (dict_set (superseded a) a found) (superseded b) = None" using Cons.prems(3) b by simp
    qed (use Cons.prems False in simp_all)
    then show ?thesis using Cons.prems False by (simp add: well_placed_def Let_def)
  qed
qed simp

lemma chain_pairs_placed: "(\<exists>pairs. chain_pairs vs = Inr pairs) = placed vs"
proof
  assume "\<exists>pairs. chain_pairs vs = Inr pairs"
  then obtain found where "successors_of (map id_of vs) vs [] = Inr found" by (auto simp: chain_pairs_def bindE_Inr)
  from successors_of_Inr[OF this] show "placed vs" by (simp add: placed_def)
next
  assume "placed vs"
  then show "\<exists>pairs. chain_pairs vs = Inr pairs"
    using successors_of_total[of "map id_of vs" vs "[]"] by (auto simp: placed_def chain_pairs_def)
qed

lemma placed_mset:
  assumes "mset vs = mset ws"
  shows "placed vs = placed ws"
proof -
  have s: "set vs = set ws" using assms by (rule mset_eq_setD)
  have "well_placed (map id_of vs) = well_placed (map id_of ws)"
    using s by (intro ext) (auto simp: well_placed_def)
  moreover have "mset (map superseded (filter (\<lambda>a. \<not> is_root a) vs)) = mset (map superseded (filter (\<lambda>a. \<not> is_root a) ws))"
    using assms by simp
  then have "distinct (map superseded (filter (\<lambda>a. \<not> is_root a) vs)) = distinct (map superseded (filter (\<lambda>a. \<not> is_root a) ws))"
    by (rule mset_eq_imp_distinct_iff)
  ultimately show ?thesis using s by (simp add: placed_def list_all_iff)
qed

lemma placed_root:
  "placed vs \<Longrightarrow> is_root w \<Longrightarrow> jget w ''status'' \<in> set root_statuses \<Longrightarrow> placed (vs @ [w])"
  by (auto simp: placed_def well_placed_def list_all_iff)

lemma placed_successor:
  assumes "placed vs" "\<not> is_root w" "jget w ''status'' \<in> set resolution_statuses" "superseded w \<in> set (map id_of vs)"
    and "list_all (\<lambda>v. is_root v \<or> superseded v \<noteq> superseded w) vs"
  shows "placed (vs @ [w])"
  using assms by (fastforce simp: placed_def well_placed_def list_all_iff)

text \<open>A scored successor carries its evaluation, and what it resolves has probabilities.\<close>

definition evaluated :: "json list \<Rightarrow> bool" where
  "evaluated vs \<longleftrightarrow> (\<forall>w \<in> set vs. \<not> is_root w \<longrightarrow> jget w ''status'' = JStr ''scored'' \<longrightarrow>
     jget w ''evaluation'' \<noteq> JNull
     \<and> (\<forall>r \<in> set vs. id_of r = superseded w \<longrightarrow> jget (jget r ''forecast'') ''probs'' \<noteq> JNull))"

lemma evaluated_snoc:
  assumes "evaluated vs" "placed vs" "id_of w \<notin> set (map id_of vs)"
    and "\<not> is_root w \<Longrightarrow> jget w ''status'' = JStr ''scored'' \<Longrightarrow> jget w ''evaluation'' \<noteq> JNull
       \<and> superseded w \<in> set (map id_of vs)
       \<and> (\<forall>r \<in> set vs. id_of r = superseded w \<longrightarrow> jget (jget r ''forecast'') ''probs'' \<noteq> JNull)"
  shows "evaluated (vs @ [w])"
proof -
  have old: "superseded x \<noteq> id_of w" if "x \<in> set vs" "\<not> is_root x" for x
  proof -
    have "superseded x \<in> set (map id_of vs)"
      using assms(2) that by (auto simp: placed_def list_all_iff well_placed_def)
    then show ?thesis using assms(3) by metis
  qed
  have new: "superseded w \<noteq> id_of w" if "\<not> is_root w" "jget w ''status'' = JStr ''scored''"
    using assms(3) assms(4)[OF that] by metis
  show ?thesis
    unfolding evaluated_def
  proof (intro ballI impI)
    fix x assume x: "x \<in> set (vs @ [w])" "\<not> is_root x" "jget x ''status'' = JStr ''scored''"
    show "jget x ''evaluation'' \<noteq> JNull
        \<and> (\<forall>r \<in> set (vs @ [w]). id_of r = superseded x \<longrightarrow> jget (jget r ''forecast'') ''probs'' \<noteq> JNull)"
    proof (cases "x \<in> set vs")
      case True
      then have "jget x ''evaluation'' \<noteq> JNull
          \<and> (\<forall>r \<in> set vs. id_of r = superseded x \<longrightarrow> jget (jget r ''forecast'') ''probs'' \<noteq> JNull)"
        using assms(1) x(2,3) unfolding evaluated_def by blast
      then show ?thesis using old[OF True x(2)] by (simp add: eq_commute[of "id_of w"])
    next
      case False
      then have w: "x = w" using x(1) by simp
      show ?thesis using assms(4)[OF x(2,3)[unfolded w]] new[OF x(2,3)[unfolded w]] by (simp add: w eq_commute[of "id_of w"])
    qed
  qed
qed

section \<open>What a call adds\<close>

text \<open>The ledger holds an artifact with property \<open>P\<close> under \<open>s\<close>, and gained nothing else.\<close>

definition extends :: "(string \<Rightarrow> string \<Rightarrow> bool) \<Rightarrow> ledger \<Rightarrow> ledger \<Rightarrow> string \<Rightarrow> (json \<Rightarrow> bool) \<Rightarrow> bool" where
  "extends fmt l l' s P \<longleftrightarrow>
     (\<exists>e w. dict_get (lg_files l') s = Some e \<and> load_verified_artifact fmt s e = Inr w \<and> P w
        \<and> (lg_files l' = lg_files l \<or> (dict_get (lg_files l) s = None \<and> lg_files l' = lg_files l @ [(s, e)])))"

lemma extends_mono: "extends fmt l l' s P \<Longrightarrow> (\<And>x. P x \<Longrightarrow> Q x) \<Longrightarrow> extends fmt l l' s Q"
  unfolding extends_def by blast

lemma map_of_none_keys: "map_of d k = None \<Longrightarrow> k \<notin> set (dict_keys d)"
  by (simp add: map_of_eq_None_iff)

lemma sound_valid: "sound fmt i d \<Longrightarrow> is_valid_artifact_bytes fmt d i"
  by (auto simp: sound_def is_valid_artifact_bytes_def)

lemma write_extends:
  assumes "all_sound fmt l" "write_artifact fmt w l = (r, l')"
  shows "case r of Inl e \<Rightarrow> l' = l
         | Inr s \<Rightarrow> lg_files l' = lg_files l
             \<or> (dict_get (lg_files l) s = None \<and> (\<exists>d. lg_files l' = lg_files l @ [(s, d)]))"
proof -
  have "is_valid_artifact_bytes fmt d (id_text w)" if "dict_get (lg_files l) (id_text w) = Some d" for d
    using assms(1) that by (auto simp: all_sound_def sound_valid)
  then show ?thesis
    using assms(2)
    by (auto simp: write_artifact_def Let_def dict_set_new[OF map_of_none_keys] split: sum.splits option.splits if_splits)
qed

lemma loaded_value:
  assumes "load_verified_artifact fmt s (dumps c @ [CHR 0x0A]) = Inr v" "wf_json c"
  shows "v = normalise c"
  using assms(1) loads_dumps_ws[OF assms(2), of "[CHR 0x0A]"]
  by (auto simp: load_verified_artifact_def is_ws_def verify_artifact_integrity_def bindE_Inr split: option.splits if_splits)

text \<open>The file of a finished artifact: under its id, with the fields the artifact had.\<close>

definition written_as :: "string \<Rightarrow> json \<Rightarrow> json \<Rightarrow> bool" where
  "written_as s v x \<longleftrightarrow> jget x ''artifact_id'' = JStr s
     \<and> (\<forall>k. k \<noteq> ''artifact_id'' \<longrightarrow> k \<noteq> ''provenance'' \<longrightarrow> k \<noteq> ''forecast'' \<longrightarrow> jget x k = normalise (jget v k))
     \<and> (\<forall>j. j \<noteq> ''probs'' \<longrightarrow> jget (jget x ''forecast'') j = normalise (jget (jget v ''forecast'') j))"

lemma canonical_forecast_elsewhere:
  assumes "canonical_json v = Some c" "j \<noteq> ''probs''"
  shows "jget (jget c ''forecast'') j = jget (jget v ''forecast'') j"
proof (cases "dict_get (obj_fields v) ''forecast''")
  case None
  then show ?thesis using assms(1) by (simp add: canonical_json_def split: if_splits)
next
  case (Some f)
  then have f: "jget v ''forecast'' = f" by (simp add: jget_def)
  have "is_obj v" using canonical_obj[OF assms(1)] by blast
  then have "c = v \<or> (\<exists>p. c = json_set ''forecast'' (json_set ''probs'' p f) v \<and> is_obj f)"
    using assms(1) Some by (auto simp: canonical_json_def Let_def split: option.splits if_splits)
  then show ?thesis using \<open>is_obj v\<close> assms(2) f by (auto simp: jget_set)
qed

lemma written_extends:
  assumes "finish_artifact v = Some w" "wf_json v" "is_obj v" "is_obj (jget v ''provenance'')" "settled v"
    and "all_sound fmt l" "write_artifact fmt w l = (Inr s, l')"
  shows "extends fmt l l' s (written_as s v)"
proof -
  obtain c where c: "canonical_json w = Some c" "dict_get (lg_files l') s = Some (dumps c @ [CHR 0x0A])"
      and s: "s = id_text w"
    using write_Inr[OF assms(7)] by blast
  note fi = finish_artifact_ids[OF assms(1-4)]
  have ww: "wf_json w" using fi by blast
  have wc: "wf_json c" using canonical_wf[OF ww c(1)] .
  have "all_sound fmt l'"
    using write_implements[OF finish_writable[OF assms(1-5)] assms(6)] assms(7) by (simp add: implements_def)
  then obtain x where x: "load_verified_artifact fmt s (dumps c @ [CHR 0x0A]) = Inr x"
    using c(2) by (auto simp: all_sound_def sound_def)
  have n: "x = normalise c" using loaded_value[OF x wc] .
  have "jget x k = normalise (jget v k)" if "k \<noteq> ''artifact_id''" "k \<noteq> ''provenance''" "k \<noteq> ''forecast''" for k
    using n jget_normal[OF wc, of k] canonical_elsewhere[OF c(1) that(3)] finish_elsewhere[OF assms(1,3) that(1,2)] by simp
  moreover have "jget (jget x ''forecast'') j = normalise (jget (jget v ''forecast'') j)" if "j \<noteq> ''probs''" for j
    using n jget_normal[OF wc, of "''forecast''"] jget_normal[OF wf_jget[OF wc], of "''forecast''" j]
      canonical_forecast_elsewhere[OF c(1) that] finish_elsewhere[OF assms(1,3), of "''forecast''"] by simp
  moreover have "jget x ''artifact_id'' = JStr s" using load_verified_Inr[OF x] by blast
  ultimately have "written_as s v x" unfolding written_as_def by blast
  moreover have "lg_files l' = lg_files l
      \<or> (dict_get (lg_files l) s = None \<and> lg_files l' = lg_files l @ [(s, dumps c @ [CHR 0x0A])])"
    using write_extends[OF assms(6,7)] c(2) by (auto simp: map_add_def split: option.splits)
  ultimately show ?thesis unfolding extends_def using c(2) x by blast
qed

lemma score_extends:
  assumes "all_sound fmt l" "dict_get (lg_files l) i = Some d" "wf_json snap"
    and "score_forecast_result fmt i d snap h a l = (r, l')"
  shows "all_sound fmt l' \<and> (case r of Inl e \<Rightarrow> l' = l
     | Inr s \<Rightarrow> (\<exists>v. load_verified_artifact fmt i d = Inr v \<and> jget (jget v ''forecast'') ''probs'' \<noteq> JNull)
         \<and> extends fmt l l' s (\<lambda>x. \<not> is_root x \<and> superseded x = i \<and> id_of x = s \<and> jget x ''status'' = JStr ''scored''
         \<and> jget (jget x ''evaluation'') ''actual'' = normalise (JObj
             [(''home_goals'', JInt h), (''away_goals'', JInt a), (''outcome'', JStr (outcome_key h a))])))"
proof -
  have snd': "sound fmt i d" using assms(1,2) by (simp add: all_sound_def)
  then obtain v where v: "load_verified_artifact fmt i d = Inr v" "settled v" by (auto simp: sound_def)
  note fv = load_verified_Inr[OF v(1)]
  have "implements fmt l (r, l')"
    using score_verified_implements[OF v(1) snd' assms(3,1), of h a] assms(4) by (simp add: score_forecast_result_def v(1))
  then have sound': "all_sound fmt l'" by (simp add: implements_def)
  have run: "score_verified_seal fmt v snap h a l = (r, l')" using assms(4) v(1) by (simp add: score_forecast_result_def)
  show ?thesis
  proof (cases r)
    case (Inl e)
    have "l' = l"
    proof (cases "score_snapshot_anchor v snap")
      case (Inr now)
      then show ?thesis
        using run Inl write_extends[OF assms(1)]
        by (fastforce simp: score_verified_seal_def finish_and_write_def split: if_splits option.splits)
    qed (use run in \<open>simp add: score_verified_seal_def\<close>)
    then show ?thesis using sound' Inl by simp
  next
    case (Inr s)
    then obtain now w where w: "finish_artifact (scored_json v snap h a now) = Some w" "write_artifact fmt w l = (Inr s, l')"
        "score_snapshot_anchor v snap = Inr now"
      using run by (auto simp: score_verified_seal_def finish_and_write_def split: sum.splits if_splits option.splits)
    let ?v = "scored_json v snap h a now"
    have "extends fmt l l' s (written_as s ?v)"
      using fv v(2) assms(1,3) w
      by (intro written_extends[of ?v]) (simp_all add: wf_scored_json scored_provenance settled_scored)
    then have "extends fmt l l' s (\<lambda>x. \<not> is_root x \<and> superseded x = i \<and> id_of x = s \<and> jget x ''status'' = JStr ''scored''
         \<and> jget (jget x ''evaluation'') ''actual'' = normalise (JObj
             [(''home_goals'', JInt h), (''away_goals'', JInt a), (''outcome'', JStr (outcome_key h a))]))"
    proof (rule extends_mono)
      fix x assume "written_as s ?v x"
      then have x: "jget x ''artifact_id'' = JStr s
           \<and> (\<forall>k. k \<noteq> ''artifact_id'' \<longrightarrow> k \<noteq> ''provenance'' \<longrightarrow> k \<noteq> ''forecast'' \<longrightarrow> jget x k = normalise (jget ?v k))"
        unfolding written_as_def by blast
      then have "jget x ''supersedes'' = JStr i" "jget x ''status'' = JStr ''scored''"
          "jget x ''evaluation'' = normalise (evaluation_json (jget (jget v ''forecast'') ''probs'') h a now)"
        using fv by (simp_all add: scored_json_get)
      moreover from this(3) have "jget (jget x ''evaluation'') ''actual'' = normalise (JObj
             [(''home_goals'', JInt h), (''away_goals'', JInt a), (''outcome'', JStr (outcome_key h a))])"
        by (simp only: jget_normal[OF wf_evaluation]) (simp add: evaluation_json_def Let_def jget_obj)
      ultimately show "\<not> is_root x \<and> superseded x = i \<and> id_of x = s \<and> jget x ''status'' = JStr ''scored''
         \<and> jget (jget x ''evaluation'') ''actual'' = normalise (JObj
             [(''home_goals'', JInt h), (''away_goals'', JInt a), (''outcome'', JStr (outcome_key h a))])"
        using x by (simp add: is_root_def text_at_def)
    qed
    moreover have "jget (jget v ''forecast'') ''probs'' \<noteq> JNull"
      using w(3) by (auto simp: score_snapshot_anchor_def split: if_splits)
    ultimately show ?thesis using sound' Inr v(1) by simp
  qed
qed

text \<open>A seal adds a root of its request.\<close>

lemma seal_adds:
  assumes "all_sound fmt l" "list_all wf_json snapshots" "seal_forecast fmt en fit snapshots matches rq l = (r, l')"
  shows "all_sound fmt l' \<and> (case r of Inl e \<Rightarrow> l' = l
     | Inr s \<Rightarrow> (\<exists>a. of_request en snapshots matches rq a \<and> jget a ''supersedes'' = JNull
         \<and> jget a ''status'' \<in> {JStr ''sealed'', JStr ''abstained''} \<and> extends fmt l l' s (written_as s a)))"
proof -
  have sound': "all_sound fmt l'" using seal_implements[OF assms(2,1), of en fit matches rq] assms(3) by (simp add: implements_def)
  show ?thesis
  proof (cases r)
    case (Inl e)
    then show ?thesis
      using sound' assms(3) write_extends[OF assms(1)] by (fastforce simp: seal_forecast_def split: sum.splits)
  next
    case (Inr s)
    then obtain v where v: "build_forecast_artifact en fit snapshots matches rq = Inr v" "write_artifact fmt v l = (Inr s, l')"
      using assms(3) by (auto simp: seal_forecast_def split: sum.splits)
    obtain a c where a: "finish_artifact a = Some v" "wf_json a" "is_obj a" "is_obj (jget a ''provenance'')"
        "canonical_json a = Some c" "jeq c a" "of_request en snapshots matches rq a" "jget a ''supersedes'' = JNull"
        "jget a ''status'' \<in> {JStr ''sealed'', JStr ''abstained''}"
      using build_shape[OF v(1) assms(2)] by blast
    have "settled a" using a(5,6) by (auto simp: settled_def)
    from written_extends[OF a(1-4) this assms(1) v(2)] show ?thesis using sound' Inr a(7-9) by auto
  qed
qed

lemma root_written:
  assumes "written_as s a x" "jget a ''supersedes'' = JNull" "jget a ''status'' \<in> {JStr ''sealed'', JStr ''abstained''}"
  shows "is_root x \<and> id_of x = s \<and> jget x ''status'' \<in> set root_statuses"
proof -
  have "jget x ''supersedes'' = normalise (jget a ''supersedes'')" "jget x ''status'' = normalise (jget a ''status'')"
    using assms(1) by (simp_all add: written_as_def)
  then have "jget x ''supersedes'' = JNull" "jget x ''status'' = JStr ''sealed'' \<or> jget x ''status'' = JStr ''abstained''"
    using assms(2,3) by (simp, elim insertE emptyE) simp_all
  then show ?thesis using assms(1) by (simp add: written_as_def is_root_def root_statuses_def text_at_def)
qed

lemma seal_extends:
  assumes "all_sound fmt l" "list_all wf_json snapshots" "seal_forecast fmt en fit snapshots matches rq l = (r, l')"
  shows "all_sound fmt l' \<and> (case r of Inl e \<Rightarrow> l' = l
     | Inr s \<Rightarrow> extends fmt l l' s (\<lambda>x. is_root x \<and> id_of x = s \<and> jget x ''status'' \<in> set root_statuses))"
proof (cases r)
  case (Inr s)
  with seal_adds[OF assms] obtain a where "all_sound fmt l'" "jget a ''supersedes'' = JNull"
      "jget a ''status'' \<in> {JStr ''sealed'', JStr ''abstained''}" "extends fmt l l' s (written_as s a)" by auto
  then show ?thesis using Inr extends_mono[of fmt l l' s "written_as s a", OF _ root_written] by simp
qed (use seal_adds[OF assms] in auto)

section \<open>The chains survive\<close>

definition chained :: "(string \<Rightarrow> string \<Rightarrow> bool) \<Rightarrow> ledger \<Rightarrow> bool" where
  "chained fmt l \<longleftrightarrow> all_sound fmt l \<and> placed (artifacts_of fmt (lg_files l)) \<and> evaluated (artifacts_of fmt (lg_files l))"

text \<open>No artifact of the ledger supersedes \<open>i\<close>.\<close>

definition open_seal :: "(string \<Rightarrow> string \<Rightarrow> bool) \<Rightarrow> ledger \<Rightarrow> string \<Rightarrow> bool" where
  "open_seal fmt l i \<longleftrightarrow> list_all (\<lambda>v. is_root v \<or> superseded v \<noteq> i) (artifacts_of fmt (lg_files l))"

lemma artifacts_snoc: "artifacts_of fmt (fs @ [(s, e)]) = artifacts_of fmt fs @ [projr (load_verified_artifact fmt s e)]"
  by (simp add: artifacts_of_def)

lemma artifacts_get:
  "dict_get fs i = Some d \<Longrightarrow> load_verified_artifact fmt i d = Inr v \<Longrightarrow> v \<in> set (artifacts_of fmt fs)"
  by (force simp: artifacts_of_def dest: map_of_SomeD)

lemma artifact_ids: "dict_get fs i = Some d \<Longrightarrow> load_verified_artifact fmt i d = Inr v \<Longrightarrow> i \<in> set (map id_of (artifacts_of fmt fs))"
  using artifacts_get[of fs i d fmt v] load_verified_Inr[of fmt i d v]
  by (auto simp: image_iff intro!: bexI[of _ v]) (simp add: text_at_def)

lemma artifact_keys:
  assumes "all_sound fmt l"
  shows "map id_of (artifacts_of fmt (lg_files l)) = dict_keys (lg_files l)"
proof -
  have "id_of (projr (load_verified_artifact fmt i d)) = i" if "(i, d) \<in> set (lg_files l)" for i d
  proof -
    have "dict_get (lg_files l) i = Some d" using assms that by (simp add: all_sound_def dict_get_in)
    then obtain v where v: "load_verified_artifact fmt i d = Inr v" using assms by (auto simp: all_sound_def sound_def)
    then show ?thesis using load_verified_Inr[OF v] by (simp add: text_at_def)
  qed
  then show ?thesis by (auto simp: artifacts_of_def)
qed

lemma fresh_id:
  assumes "all_sound fmt l" "dict_get (lg_files l) s = None"
  shows "s \<notin> set (map id_of (artifacts_of fmt (lg_files l)))"
  unfolding artifact_keys[OF assms(1)] by (rule map_of_none_keys[OF assms(2)])

lemma chained_root:
  assumes "chained fmt l" "all_sound fmt l'" "extends fmt l l' s (\<lambda>x. is_root x \<and> id_of x = s \<and> jget x ''status'' \<in> set root_statuses)"
  shows "chained fmt l'"
proof -
  obtain e w where w: "load_verified_artifact fmt s e = Inr w" "is_root w" "jget w ''status'' \<in> set root_statuses" "id_of w = s"
      "lg_files l' = lg_files l \<or> (dict_get (lg_files l) s = None \<and> lg_files l' = lg_files l @ [(s, e)])"
    using assms(3) unfolding extends_def by blast
  show ?thesis
    using w(5)
  proof
    assume "lg_files l' = lg_files l"
    then show ?thesis using assms(1,2) by (simp add: chained_def)
  next
    assume new: "dict_get (lg_files l) s = None \<and> lg_files l' = lg_files l @ [(s, e)]"
    then have "id_of w \<notin> set (map id_of (artifacts_of fmt (lg_files l)))"
      unfolding w(4) using fresh_id[of fmt l s] assms(1) unfolding chained_def by blast
    then show ?thesis
      using new assms(1,2) w(1,2) placed_root[OF _ w(2,3)] evaluated_snoc[of _ w]
      by (simp add: chained_def artifacts_snoc)
  qed
qed

text \<open>A successor may be added to an open seal once; other open seals stay open.\<close>

lemma chained_successor:
  assumes "chained fmt l" "all_sound fmt l'" "open_seal fmt l i" "dict_get (lg_files l) i = Some d"
    and "extends fmt l l' s P"
    and "\<And>x. P x \<Longrightarrow> \<not> is_root x \<and> superseded x = i \<and> id_of x = s \<and> jget x ''status'' = JStr ''scored'' \<and> jget x ''evaluation'' \<noteq> JNull"
    and "load_verified_artifact fmt i d = Inr v" "jget (jget v ''forecast'') ''probs'' \<noteq> JNull"
  shows "chained fmt l' \<and> (\<forall>j. j \<noteq> i \<longrightarrow> open_seal fmt l j \<longrightarrow> open_seal fmt l' j)"
proof -
  obtain e w where w: "dict_get (lg_files l') s = Some e" "load_verified_artifact fmt s e = Inr w"
      "\<not> is_root w" "superseded w = i" "jget w ''status'' = JStr ''scored''" "jget w ''evaluation'' \<noteq> JNull" "id_of w = s"
      "lg_files l' = lg_files l \<or> (dict_get (lg_files l) s = None \<and> lg_files l' = lg_files l @ [(s, e)])"
    using assms(5,6) unfolding extends_def by blast
  have sound: "all_sound fmt l" using assms(1) by (simp add: chained_def)
  have changed: "lg_files l' \<noteq> lg_files l"
    using artifacts_get[OF w(1,2)] w(3,4) assms(3) by (auto simp: open_seal_def list_all_iff)
  then have new: "artifacts_of fmt (lg_files l') = artifacts_of fmt (lg_files l) @ [w]"
    using w(2,8) by (simp add: artifacts_snoc)
  note known = artifact_ids[OF assms(4,7)]
  have placed: "placed (artifacts_of fmt (lg_files l) @ [w])"
    using assms(1,3) w(3-5) known
    by (intro placed_successor) (simp_all add: chained_def resolution_statuses_def open_seal_def)
  have fresh: "id_of w \<notin> set (map id_of (artifacts_of fmt (lg_files l)))"
    using changed w(8) fresh_id[OF sound, of s] by (simp only: w(7)) blast
  have probs: "jget (jget r ''forecast'') ''probs'' \<noteq> JNull"
    if "r \<in> set (artifacts_of fmt (lg_files l))" "id_of r = i" for r
  proof -
    have "distinct (map id_of (artifacts_of fmt (lg_files l)))"
      using sound by (simp add: artifact_keys all_sound_def dict_ok_def)
    then have "inj_on id_of (set (artifacts_of fmt (lg_files l)))" by (simp only: distinct_map)
    moreover have "id_of r = id_of v" using that(2) load_verified_Inr[OF assms(7)] by (simp add: text_at_def)
    ultimately have "r = v" using that(1) artifacts_get[OF assms(4,7)] by (rule inj_onD)
    then show ?thesis using assms(8) by simp
  qed
  have "evaluated (artifacts_of fmt (lg_files l) @ [w])"
    using assms(1) fresh w(3-6) known probs by (intro evaluated_snoc) (simp_all add: chained_def)
  then show ?thesis using assms(2) new w(4) placed by (auto simp: chained_def open_seal_def)
qed

lemma settle_chain_keeps:
  assumes "chained fmt l" "open_seal fmt l (chain_id c)" "list_all (\<lambda>p. wf_json (snd p)) obs"
    and "settle_chain fmt obs c l = Inr (v, l')"
  shows "chained fmt l' \<and> (\<forall>j. j \<noteq> chain_id c \<longrightarrow> open_seal fmt l j \<longrightarrow> open_seal fmt l' j)
       \<and> (case v of Pending _ _ \<Rightarrow> l' = l
          | Scored x \<Rightarrow> ss_sealed x = chain_id c \<and> obs \<noteq> []
              \<and> list_all (\<lambda>p. fst p = (ss_home_goals x, ss_away_goals x)) obs
              \<and> extends fmt l l' (ss_scored x) (\<lambda>w. \<not> is_root w \<and> superseded w = chain_id c \<and> id_of w = ss_scored x
                  \<and> jget w ''status'' = JStr ''scored''
                  \<and> jget (jget w ''evaluation'') ''actual'' = normalise (JObj
                      [(''home_goals'', JInt (ss_home_goals x)), (''away_goals'', JInt (ss_away_goals x)),
                       (''outcome'', JStr (outcome_key (ss_home_goals x) (ss_away_goals x)))])))"
proof (cases "obs = [] \<or> \<not> list_all (\<lambda>p. fst p = fst (hd obs)) obs \<or> dict_get (lg_files l) (chain_id c) = None")
  case True
  then show ?thesis using assms(1,4) by (auto simp: settle_chain_def Let_def split: if_splits prod.splits)
next
  case False
  obtain h a where ha: "fst (hd obs) = (h, a)" by (cases "fst (hd obs)")
  obtain d where d: "dict_get (lg_files l) (chain_id c) = Some d" using False by auto
  have "first_max (\<lambda>p. snapshot_anchor_utc (snd p)) (hd obs) (tl obs) \<in> set obs"
    using first_max_in[of _ "hd obs" "tl obs"] False by (metis list.collapse)
  then have wf: "wf_json (newest obs)" using assms(3) by (auto simp: newest_def list_all_iff)
  obtain r m where r: "score_forecast_result fmt (chain_id c) d (newest obs) h a l = (r, m)" by fastforce
  have sound: "all_sound fmt l" using assms(1) by (simp add: chained_def)
  note se = score_extends[OF sound d wf r]
  show ?thesis
  proof (cases r)
    case (Inl e)
    then have "v = Pending Scoring_refused [Score_refused (text_at (newest obs) ''source_id'') (chain_id c) e] \<and> l' = l"
      using assms(4) False d ha r se by (auto simp: settle_chain_def Let_def split: if_splits)
    then show ?thesis using assms(1) by simp
  next
    case (Inr s)
    then obtain x where x: "v = Scored x" "ss_sealed x = chain_id c" "ss_scored x = s" "ss_home_goals x = h" "ss_away_goals x = a" "l' = m"
      using assms(4) False d ha r by (auto simp: settle_chain_def Let_def split: if_splits)
    have ext: "extends fmt l l' s (\<lambda>w. \<not> is_root w \<and> superseded w = chain_id c \<and> id_of w = s \<and> jget w ''status'' = JStr ''scored''
         \<and> jget (jget w ''evaluation'') ''actual'' = normalise (JObj
             [(''home_goals'', JInt h), (''away_goals'', JInt a), (''outcome'', JStr (outcome_key h a))]))"
      and sound': "all_sound fmt l'"
      and "\<exists>u. load_verified_artifact fmt (chain_id c) d = Inr u \<and> jget (jget u ''forecast'') ''probs'' \<noteq> JNull"
      using se Inr x(6) by simp_all
    then obtain u where u: "load_verified_artifact fmt (chain_id c) d = Inr u" "jget (jget u ''forecast'') ''probs'' \<noteq> JNull"
      by blast
    have evaluation: "jget w ''evaluation'' \<noteq> JNull" if "jget (jget w ''evaluation'') ''actual'' = normalise (JObj kvs)" for w kvs
      using that by (auto simp: jget_def obj_fields_def)
    have "chained fmt l' \<and> (\<forall>j. j \<noteq> chain_id c \<longrightarrow> open_seal fmt l j \<longrightarrow> open_seal fmt l' j)"
      by (rule chained_successor[OF assms(1) sound' assms(2) d ext _ u]) (use evaluation in blast)
    then show ?thesis using ext x False ha by (simp add: list_all_iff)
  qed
qed

lemma extends_grows:
  assumes "extends fmt l l' s P" "dict_get (lg_files l) i = Some d"
  shows "dict_get (lg_files l') i = Some d"
proof -
  obtain e where e: "lg_files l' = lg_files l \<or> (dict_get (lg_files l) s = None \<and> lg_files l' = lg_files l @ [(s, e)])"
    using assms(1) unfolding extends_def by blast
  then show ?thesis using assms(2) by (auto simp: map_add_Some_iff)
qed

text \<open>The ledger holds the successor a score reports.\<close>

definition holds_score :: "(string \<Rightarrow> string \<Rightarrow> bool) \<Rightarrow> ledger \<Rightarrow> settled_score \<Rightarrow> bool" where
  "holds_score fmt l x \<longleftrightarrow>
     (\<exists>e w. dict_get (lg_files l) (ss_scored x) = Some e \<and> load_verified_artifact fmt (ss_scored x) e = Inr w
        \<and> jget w ''status'' = JStr ''scored'' \<and> superseded w = ss_sealed x
        \<and> jget (jget w ''evaluation'') ''actual'' = normalise (JObj
            [(''home_goals'', JInt (ss_home_goals x)), (''away_goals'', JInt (ss_away_goals x)),
             (''outcome'', JStr (outcome_key (ss_home_goals x) (ss_away_goals x)))]))"

lemma extends_holds:
  "extends fmt l l' (ss_scored x) (\<lambda>w. \<not> is_root w \<and> superseded w = ss_sealed x \<and> id_of w = ss_scored x
      \<and> jget w ''status'' = JStr ''scored''
      \<and> jget (jget w ''evaluation'') ''actual'' = normalise (JObj
          [(''home_goals'', JInt (ss_home_goals x)), (''away_goals'', JInt (ss_away_goals x)),
           (''outcome'', JStr (outcome_key (ss_home_goals x) (ss_away_goals x)))])) \<Longrightarrow> holds_score fmt l' x"
  unfolding extends_def holds_score_def by blast

definition agreed :: "((int \<times> int) \<times> json) list \<Rightarrow> settled_score \<Rightarrow> bool" where
  "agreed obs x \<longleftrightarrow> obs \<noteq> [] \<and> list_all (\<lambda>p. fst p = (ss_home_goals x, ss_away_goals x)) obs"

lemma settle_chain_step:
  assumes "chained fmt l" "open_seal fmt l (chain_id c)" "list_all (\<lambda>p. wf_json (snd p)) obs"
    and "settle_chain fmt obs c l = Inr (v, l')"
  shows "chained fmt l' \<and> (\<forall>j. j \<noteq> chain_id c \<longrightarrow> open_seal fmt l j \<longrightarrow> open_seal fmt l' j)
       \<and> (\<forall>i d. dict_get (lg_files l) i = Some d \<longrightarrow> dict_get (lg_files l') i = Some d)
       \<and> (case v of Pending _ _ \<Rightarrow> True | Scored x \<Rightarrow> ss_sealed x = chain_id c \<and> agreed obs x \<and> holds_score fmt l' x)"
proof (cases v)
  case (Scored x)
  then show ?thesis
    using settle_chain_keeps[OF assms] extends_grows extends_holds[of fmt l l' x] by (auto simp: agreed_def)
next
  case (Pending r ns)
  then show ?thesis using settle_chain_keeps[OF assms] assms(1) by simp
qed

lemma holds_grows:
  "holds_score fmt l x \<Longrightarrow> (\<forall>i d. dict_get (lg_files l) i = Some d \<longrightarrow> dict_get (lg_files l') i = Some d) \<Longrightarrow> holds_score fmt l' x"
  unfolding holds_score_def by blast

lemma settle_chains_keep:
  assumes "chained fmt l" "distinct (map chain_id cs)" "list_all (\<lambda>c. open_seal fmt l (chain_id c)) cs"
    and "\<And>c. list_all (\<lambda>p. wf_json (snd p)) (obs c)" "settle_chains fmt obs cs l = (r, l')"
  shows "chained fmt l' \<and> (\<forall>i d. dict_get (lg_files l) i = Some d \<longrightarrow> dict_get (lg_files l') i = Some d)
       \<and> (case r of Inl _ \<Rightarrow> True
          | Inr vs \<Rightarrow> map fst vs = cs \<and> list_all (\<lambda>(c, v). case v of Pending _ _ \<Rightarrow> True
              | Scored x \<Rightarrow> ss_sealed x = chain_id c \<and> agreed (obs c) x \<and> holds_score fmt l' x) vs)"
  using assms(1,2,3,5)
proof (induction cs arbitrary: l r)
  case (Cons c cs)
  show ?case
  proof (cases "settle_chain fmt (obs c) c l")
    case (Inl e)
    then show ?thesis using Cons.prems by auto
  next
    case (Inr p)
    obtain v m where p: "p = (v, m)" by (cases p)
    have op: "open_seal fmt l (chain_id c)" using Cons.prems(3) by simp
    note step = settle_chain_step[OF Cons.prems(1) op assms(4) Inr[unfolded p]]
    have rest: "list_all (\<lambda>c. open_seal fmt m (chain_id c)) cs"
      unfolding list_all_iff
    proof
      fix b assume b: "b \<in> set cs"
      then have "chain_id b \<in> set (map chain_id cs)" by simp
      moreover have "chain_id c \<notin> set (map chain_id cs)" using Cons.prems(2) by simp
      ultimately have "chain_id b \<noteq> chain_id c" by metis
      moreover have "open_seal fmt l (chain_id b)" using Cons.prems(3) b by (simp add: list_all_iff)
      ultimately show "open_seal fmt m (chain_id b)" using step by blast
    qed
    obtain r2 where r2: "settle_chains fmt obs cs m = (r2, l')"
      using Cons.prems(4) Inr p by (auto split: prod.splits sum.splits)
    note ih = Cons.IH[OF _ _ rest r2]
    show ?thesis
    proof (cases r2)
      case (Inl e)
      then show ?thesis using ih step Cons.prems(2,4) Inr p r2 by auto
    next
      case vs: (Inr vs)
      then have r: "r = Inr ((c, v) # vs)" using Cons.prems(4) \<open>settle_chain fmt (obs c) c l = Inr p\<close> p r2 by simp
      have grow: "\<forall>i d. dict_get (lg_files m) i = Some d \<longrightarrow> dict_get (lg_files l') i = Some d"
        using ih step Cons.prems(2) by simp
      have "case v of Pending _ _ \<Rightarrow> True | Scored x \<Rightarrow> ss_sealed x = chain_id c \<and> agreed (obs c) x \<and> holds_score fmt l' x"
        using step holds_grows[OF _ grow] by (cases v) auto
      then show ?thesis using ih step grow r vs Cons.prems(2) by simp
    qed
  qed
qed simp

section \<open>The pending forecasts are open\<close>

lemma chain_json_get:
  "chain_id (chain_json (r, t)) = id_of r"
  "jget (chain_json (r, t)) ''resolution'' = resolution t"
  by (simp_all add: chain_json_def chain_id_def jget_obj text_at_def)

lemma summary_Inr:
  assumes "calibration_summary fmt files origin = Inr s"
  shows "\<exists>vs pairs. load_ledger fmt files = Inr vs \<and> chain_pairs vs = Inr pairs \<and> sy_chains s = map chain_json pairs"
  using assms by (auto simp: calibration_summary_def bindE_Inr Let_def)

lemma unresolved_open:
  assumes "all_sound fmt l" "calibration_summary fmt (lg_files l) origin = Inr s"
  shows "distinct (map chain_id (sy_chains s))"
    and "c \<in> set (sy_chains s) \<Longrightarrow> is_unresolved c \<Longrightarrow> open_seal fmt l (chain_id c)"
proof -
  obtain vs pairs where vs: "load_ledger fmt (lg_files l) = Inr vs" "chain_pairs vs = Inr pairs" "sy_chains s = map chain_json pairs"
    using summary_Inr[OF assms(2)] by blast
  have m: "mset vs = mset (artifacts_of fmt (lg_files l))" using load_ledger_sound[OF assms(1)] vs(1) by auto
  note p = chain_pairs_resolved[OF vs(2)]
  have ids: "map chain_id (sy_chains s) = map id_of (map fst pairs)"
    by (simp add: vs(3) comp_def) (auto simp: chain_json_get intro!: map_cong)
  have "distinct (map id_of vs)"
    using mset_eq_imp_distinct_iff[of "map id_of vs" "map id_of (artifacts_of fmt (lg_files l))"] m assms(1) artifact_keys
    by (auto simp: all_sound_def dict_ok_def)
  then have "distinct (map id_of (filter is_root vs))" by (rule distinct_map_filter)
  moreover have "mset (map id_of (map fst pairs)) = mset (map id_of (filter is_root vs))" by (simp add: p(1))
  ultimately show "distinct (map chain_id (sy_chains s))"
    unfolding ids using mset_eq_imp_distinct_iff by blast
  show "open_seal fmt l (chain_id c)" if c: "c \<in> set (sy_chains s)" "is_unresolved c"
  proof -
    obtain r t where rt: "(r, t) \<in> set pairs" "c = chain_json (r, t)" using c(1) by (auto simp: vs(3))
    have "t = None"
    proof (cases t)
      case (Some a)
      then have "jget a ''status'' \<in> set resolution_statuses" using p(5) rt(1) by blast
      then show ?thesis
        using c(2) Some by (auto simp: rt(2) is_unresolved_def chain_json_get resolution_status resolution_statuses_def)
    qed
    then have "filter (resolves r) vs = []" using p(3)[OF rt(1)] by simp
    then have "filter (resolves r) (artifacts_of fmt (lg_files l)) = []"
      using mset_eq_setD[OF m] by (simp add: filter_empty_conv)
    then show ?thesis
      by (auto simp: open_seal_def list_all_iff filter_empty_conv resolves_def rt(2) chain_json_get)
  qed
qed

end
