(* ===== verification/Calibration_Total.thy ===== *)
theory Calibration_Total
  imports Calibration_Laws
begin

text \<open>
  When the calibration record can be built: every artifact is valid, the chains pair up, and a
  scored successor carries its evaluation and resolves a seal with probabilities.  Then every
  number exists, the summary conforms to its schema and the counts reconcile.
\<close>

section \<open>Rows\<close>

definition good_row :: "prob_row \<times> nat \<Rightarrow> bool" where
  "good_row r \<longleftrightarrow> (\<forall>k < 3. 0 \<le> nth3 (fst r) k \<and> nth3 (fst r) k \<le> 1) \<and> snd r < 3"

text \<open>A chain that is not scored, or has what scoring leaves.\<close>

definition rated :: "json \<Rightarrow> bool" where
  "rated c \<longleftrightarrow> is_scored c \<longrightarrow>
     conforms probabilities_schema (jget c ''probs'')
     \<and> conforms (Enum [''home'', ''draw'', ''away'']) (jget (jget (jget c ''resolution'') ''actual'') ''outcome'')"

lemma nano_bounds: "0 \<le> n \<Longrightarrow> n \<le> 1000000000 \<Longrightarrow> 0 \<le> nano n \<and> nano n \<le> (1 :: rat)"
  by (simp add: nano_def)

lemma rated_row:
  assumes "rated c" "is_scored c"
  shows "\<exists>r. scored_row c = Some r \<and> good_row r"
proof -
  let ?p = "jget c ''probs''" and ?o = "jget (jget (jget c ''resolution'') ''actual'') ''outcome''"
  have p: "conforms probabilities_schema ?p" and oc: "conforms (Enum [''home'', ''draw'', ''away'']) ?o"
    using assms by (simp_all add: rated_def)
  have num: "\<exists>n. num_nano (jget ?p k) = Some n \<and> 0 \<le> n \<and> n \<le> 1000000000" if "k \<in> {''home'', ''draw'', ''away''}" for k
  proof -
    have "conforms probability (jget ?p k)"
      using props_required[of _ ?p k probability] p that by (auto simp: probabilities_schema_def)
    then show ?thesis by (auto simp: probability_def split: option.splits)
  qed
  obtain h d a where n: "num_nano (jget ?p ''home'') = Some h" "num_nano (jget ?p ''draw'') = Some d"
      "num_nano (jget ?p ''away'') = Some a" "0 \<le> h" "h \<le> 1000000000" "0 \<le> d" "d \<le> 1000000000" "0 \<le> a" "a \<le> 1000000000"
    using num[of "''home''"] num[of "''draw''"] num[of "''away''"] by auto
  obtain i where i: "outcome_index ?o = Some i" "i < 3"
    using oc by (auto simp: outcome_index_def split: json.splits)
  have "scored_row c = Some ((nano h, nano d, nano a), i)" using n i by (simp add: scored_row_def Let_def)
  moreover have "good_row ((nano h, nano d, nano a), i)"
    using nano_bounds[OF n(4,5)] nano_bounds[OF n(6,7)] nano_bounds[OF n(8,9)] i(2) by (simp add: good_row_def nth3_def)
  ultimately show ?thesis by blast
qed

lemma scored_rows_total:
  assumes "list_all rated cs"
  shows "\<exists>rows. scored_rows cs = Inr rows \<and> list_all good_row rows \<and> length rows = length (filter is_scored cs)"
proof -
  have "\<exists>rows. mapE (\<lambda>c. case scored_row c of None \<Rightarrow> Inl Cal_type_failure | Some r \<Rightarrow> Inr r) ds = Inr rows
      \<and> list_all good_row rows \<and> length rows = length ds" if "list_all (\<lambda>c. rated c \<and> is_scored c) ds" for ds
    using that
  proof (induction ds)
    case (Cons c ds)
    then obtain r where "scored_row c = Some r" "good_row r" using rated_row[of c] by auto
    then show ?case using Cons by auto
  qed simp
  moreover have "list_all (\<lambda>c. rated c \<and> is_scored c) (filter is_scored cs)" using assms by (simp add: list_all_iff)
  ultimately show ?thesis unfolding scored_rows_def by blast
qed

section \<open>Numbers conform\<close>

lemma any_micro [simp]: "num_nano (micro_json i) = Some (i * 1000)"
  by (simp add: micro_json_def num_nano_def)

lemma micro_option_any: "micro_option x = JNull \<or> num_nano (micro_option x) \<noteq> None"
  by (simp add: micro_option_def split: option.split)

lemma bin_conforms [simp]: "conforms bin_schema (bin_json b)"
  using micro_option_any[of "bn_mean b"] micro_option_any[of "bn_accuracy b"] micro_option_any[of "bn_low b"]
    micro_option_any[of "bn_high b"]
  by (simp add: bin_schema_def bin_json_def conforms_props num_int_def)

lemma mean_nonneg: "(\<And>x. x \<in> set xs \<Longrightarrow> 0 \<le> x) \<Longrightarrow> 0 \<le> mean (xs :: 'a::linordered_field list)"
  by (simp add: mean_def sum_list_nonneg)

lemma log_loss_metric: "0 \<le> mt_log_loss (metrics_of rows)"
proof -
  have "ln (real_of_rat (clip p)) \<le> 0" for p
  proof -
    have "0 < clip p" "clip p \<le> 1" by (simp_all add: clip_def)
    then have "0 < real_of_rat (clip p)" "real_of_rat (clip p) \<le> 1" by (simp_all add: zero_less_of_rat_iff)
    then show ?thesis by simp
  qed
  then have "0 \<le> mean (map (\<lambda>(p, i). - ln (real_of_rat (clip (nth3 p i)))) rows)"
    by (intro mean_nonneg) auto
  then show ?thesis by (simp add: metrics_of_def round6_nonneg)
qed

lemma brier_metric: "0 \<le> mt_brier (metrics_of rows)"
proof -
  have "0 \<le> square_error r" for r by (simp add: square_error_def split: prod.split)
  then have "0 \<le> mean (map square_error rows)" by (intro mean_nonneg) auto
  then show ?thesis by (simp add: metrics_of_def round6_nonneg)
qed

lemma assigned_metric:
  assumes "list_all good_row rows" "rows \<noteq> []"
  shows "\<exists>i. mean_assigned rows = micro_json i \<and> 0 \<le> i \<and> i \<le> 1000000"
proof -
  let ?m = "mean (map (\<lambda>(p, i). nth3 p i) rows)"
  have "0 \<le> ?m \<and> ?m \<le> 1"
    using assms by (intro mean_bounds) (auto simp: good_row_def list_all_iff)
  then show ?thesis
    unfolding mean_assigned_def using round6_nonneg[of ?m] round6_le_one[of ?m] by blast
qed

lemma scores_conform:
  assumes "list_all good_row rows" "rows \<noteq> []"
  shows "conforms (Props score_schemas) (JObj (score_fields rows))"
  using assigned_metric[OF assms] log_loss_metric[of rows] brier_metric[of rows]
  by (auto simp: score_schemas_def score_fields_def conforms_props probability_def)

lemma running_conforms:
  assumes "list_all good_row rows"
  shows "conforms (Nullable (Props ((''n_scored'', True, Integer (Some 1)) # score_schemas))) (running_json rows)"
proof (cases "rows = []")
  case False
  then have "Suc 0 \<le> length rows" by (cases rows) simp_all
  then show ?thesis
    using assigned_metric[OF assms False] log_loss_metric[of rows] brier_metric[of rows]
    by (auto simp: running_json_def score_schemas_def score_fields_def conforms_props probability_def num_int_def)
qed (simp add: running_json_def)

lemma bins_conform: "conforms (Items 0 bin_schema) (bins_json rows)"
  by (simp add: bins_json_def list_all_iff)

section \<open>Slices conform\<close>

lemma slice_total:
  assumes "list_all rated cs" "cs \<noteq> []" "list_all is_scored cs" "key \<noteq> []" "axis \<in> {''competition'', ''model_family''}"
  shows "\<exists>v. slice_json ((axis, key), cs) = Inr v \<and> conforms slice_schema v"
proof -
  obtain rows where rows: "scored_rows cs = Inr rows" "list_all good_row rows" "length rows = length (filter is_scored cs)"
    using scored_rows_total[OF assms(1)] by blast
  have "rows \<noteq> []" using rows(3) assms(2,3) by (cases cs) auto
  note sc = scores_conform[OF rows(2) this]
  have n: "1 \<le> length cs" using assms(2) by (cases cs) auto
  have thresholds: "conforms (Props
        [(''metrics_min_scored'', True, Const_int 30), (''reliability_min_scored'', True, Const_int 100),
         (''reliability_min_bin'', True, Const_int 20), (''reliability_min_bins'', True, Const_int 3)])
      (JObj [(''metrics_min_scored'', JInt (int slice_min_scored)), (''reliability_min_scored'', JInt (int slice_reliability_min_scored)),
             (''reliability_min_bin'', JInt (int slice_min_bin)), (''reliability_min_bins'', JInt (int slice_min_bins))])"
    by (simp add: conforms_props num_int_def slice_min_scored_def slice_reliability_min_scored_def slice_min_bin_def slice_min_bins_def)
  have bins: "list_all (conforms bin_schema) (map bin_json bs)" for bs by (simp add: list_all_iff)
  have caveat: "slice_caveat \<noteq> []" by (simp add: slice_caveat_def)
  show ?thesis
  proof (cases "slice_min_scored \<le> length cs")
    case True
    then show ?thesis
      using rows(1) assms(4,5) n
      by (auto simp: slice_json_def Let_def slice_schema_def conforms_props[of "(''dimension'', x)  # xs" for x xs]
          sc thresholds bins caveat nonempty_def num_int_def simp del: map_map)
  next
    case False
    then show ?thesis
      using assms(4,5) n
      by (auto simp: slice_json_def Let_def slice_schema_def conforms_props[of "(''dimension'', x)  # xs" for x xs]
          thresholds caveat nonempty_def num_int_def)
  qed
qed

lemma slices_total:
  assumes "list_all rated links"
    and "list_all (\<lambda>c. py_text (jget (jget c ''match'') ''competition'') \<noteq> [] \<and> py_text (jget c ''family'') \<noteq> []) links"
  shows "\<exists>vs. calibration_slices links = Inr vs \<and> list_all (conforms slice_schema) vs"
proof -
  have one: "\<exists>v. slice_json s = Inr v \<and> conforms slice_schema v" if s: "s \<in> set (slice_groups links)" for s
  proof -
    obtain axis key cs where e: "s = ((axis, key), cs)" by (metis prod.collapse)
    have "dict_get (slice_groups links) (axis, key) = Some cs"
      using s dict_get_in[OF dict_ok_groups] by (simp add: e)
    then have g: "axis \<in> {''competition'', ''model_family''}" "cs \<noteq> []" "cs = filter (\<lambda>c. sliced c \<and> group_key axis c = key) links"
      by (auto simp: slice_groups_get Let_def split: if_splits)
    obtain c where c: "c \<in> set links" "group_key axis c = key" using g(2,3) by (auto simp: filter_empty_conv)
    have "group_key axis c \<noteq> []" using c(1) assms(2) by (cases "axis = ''competition''") (auto simp: group_key_def list_all_iff)
    then have "key \<noteq> []" using c(2) by simp
    moreover have "list_all rated cs" "list_all is_scored cs" using assms(1) by (simp_all add: g(3) list_all_iff sliced_def)
    ultimately show ?thesis unfolding e using g(1,2) by (intro slice_total)
  qed
  have "\<exists>vs. mapE slice_json gs = Inr vs \<and> list_all (conforms slice_schema) vs" if "set gs \<subseteq> set (slice_groups links)" for gs
    using that
  proof (induction gs)
    case (Cons g gs)
    then obtain v where "slice_json g = Inr v" "conforms slice_schema v" using one[of g] by auto
    then show ?case using Cons by auto
  qed simp
  then show ?thesis unfolding calibration_slices_def by simp
qed

section \<open>Chains conform\<close>

text \<open>A root and what resolves it, as a valid ledger has them.\<close>

definition sound_pair :: "(string \<Rightarrow> string \<Rightarrow> bool) \<Rightarrow> json \<times> json option \<Rightarrow> bool" where
  "sound_pair fmt p \<longleftrightarrow>
     conforms (artifact_schema fmt) (fst p)
     \<and> (case snd p of None \<Rightarrow> True
        | Some a \<Rightarrow> conforms (artifact_schema fmt) a \<and> jget a ''status'' \<in> set resolution_statuses
            \<and> (jget a ''status'' = JStr ''scored'' \<longrightarrow>
                 jget a ''evaluation'' \<noteq> JNull \<and> jget (jget (fst p) ''forecast'') ''probs'' \<noteq> JNull))"

lemma part:
  assumes "conforms (artifact_schema fmt) v" "(k, True, Props ps) \<in> set (artifact_props fmt)" "(j, True, s) \<in> set ps"
  shows "conforms s (jget (jget v k) j)"
  using props_required[OF artifact_conforms_get[OF assms(1,2)] assms(3)] by blast

lemma optional_part:
  assumes "conforms (artifact_schema fmt) v" "(k, False, Nullable s) \<in> set (artifact_props fmt)"
  shows "jget v k = JNull \<or> conforms s (jget v k)"
  using props_get[of "artifact_props fmt" v k False "Nullable s" "jget v k"] assms
  by (auto simp: artifact_schema_def jget_def split: option.splits)

lemma evaluation_parts:
  assumes "conforms (artifact_schema fmt) a" "jget a ''evaluation'' \<noteq> JNull"
  shows "conforms (date_time fmt) (jget (jget a ''evaluation'') ''scored_at_utc'')"
    and "conforms actual_schema (jget (jget a ''evaluation'') ''actual'')"
    and "conforms (Props score_schemas) (jget (jget a ''evaluation'') ''metrics'')"
    and "conforms (Enum [''home'', ''draw'', ''away'']) (jget (jget (jget a ''evaluation'') ''actual'') ''outcome'')"
proof -
  have "conforms (Nullable (evaluation_schema fmt)) (jget a ''evaluation'')"
    using assms(1) by (rule artifact_conforms_get) (simp add: artifact_props_def)
  then have e: "conforms (evaluation_schema fmt) (jget a ''evaluation'')" using assms(2) by simp
  show "conforms (date_time fmt) (jget (jget a ''evaluation'') ''scored_at_utc'')"
    using e unfolding evaluation_schema_def by (rule props_required[THEN conjunct2]) simp
  show act: "conforms actual_schema (jget (jget a ''evaluation'') ''actual'')"
    using e unfolding evaluation_schema_def actual_schema_def by (rule props_required[THEN conjunct2]) simp
  show "conforms (Props score_schemas) (jget (jget a ''evaluation'') ''metrics'')"
    using e unfolding evaluation_schema_def score_schemas_def by (rule props_required[THEN conjunct2]) simp
  show "conforms (Enum [''home'', ''draw'', ''away'']) (jget (jget (jget a ''evaluation'') ''actual'') ''outcome'')"
    using act unfolding actual_schema_def by (rule props_required[THEN conjunct2]) simp
qed

definition resolution_schema :: "(string \<Rightarrow> string \<Rightarrow> bool) \<Rightarrow> schema" where
  "resolution_schema fmt = Props
        [(''status'', True, Enum [''pending'', ''scored'', ''voided'']),
         (''artifact_id'', True, Nullable (Text artifact_id_pattern)), (''resolved_at_utc'', True, Nullable (date_time fmt)),
         (''actual'', True, Nullable actual_schema), (''metrics'', True, Nullable (Props score_schemas)),
         (''void_reason'', True, Nullable some_text)]"

lemma resolution_conforms:
  assumes "sound_pair fmt (r, t)"
  shows "conforms (resolution_schema fmt) (resolution t)"
proof (cases t)
  case None
  then show ?thesis by (simp add: resolution_schema_def resolution_def conforms_props)
next
  case (Some a)
  have a: "conforms (artifact_schema fmt) a" "jget a ''status'' \<in> set resolution_statuses" using assms Some by (simp_all add: sound_pair_def)
  have i: "conforms (Text artifact_id_pattern) (jget a ''artifact_id'')"
    using a(1) by (rule artifact_conforms_get) (simp add: artifact_props_def)
  have created: "conforms (date_time fmt) (jget (jget a ''provenance'') ''created_at_utc'')"
    using a(1) by (rule part[where k = "''provenance''"], simp add: artifact_props_def provenance_schema_def, simp)
  have void: "jget a ''void_reason'' = JNull \<or> conforms (Text nonempty) (jget a ''void_reason'')"
    using a(1) by (rule optional_part) (simp add: artifact_props_def)
  then have void': "jget a ''void_reason'' = JNull \<or> conforms some_text (jget a ''void_reason'')"
    by (auto simp: some_text_def split: json.splits)
  have st: "conforms (Enum [''pending'', ''scored'', ''voided'']) (jget a ''status'')"
    using a(2) by (auto simp: resolution_statuses_def)
  show ?thesis
  proof (cases "jget a ''evaluation'' = JNull")
    case True
    then show ?thesis
      using i created void' st
      by (simp add: Some resolution_schema_def resolution_def Let_def conforms_props[of "(''status'', x) # xs" for x xs])
  next
    case False
    note ev = evaluation_parts[OF a(1) False]
    show ?thesis
      using i void' st ev(1-3) False
      by (simp add: Some resolution_schema_def resolution_def Let_def conforms_props[of "(''status'', x) # xs" for x xs])
  qed
qed

lemma chain_conforms:
  assumes "sound_pair fmt (r, t)"
  shows "conforms (chain_schema fmt) (chain_json (r, t))"
proof -
  have r: "conforms (artifact_schema fmt) r" using assms by (simp add: sound_pair_def)
  have i: "conforms (Text artifact_id_pattern) (jget r ''artifact_id'')"
    using r by (rule artifact_conforms_get) (simp add: artifact_props_def)
  have m: "conforms (match_schema fmt) (jget r ''match'')"
    using r by (rule artifact_conforms_get) (simp add: artifact_props_def)
  have f: "conforms (date_time fmt) (jget (jget r ''forecast'') ''sealed_at_utc'')"
      "conforms (Enum [''T-72h'', ''T-24h'', ''T-60m'']) (jget (jget r ''forecast'') ''horizon'')"
      "conforms Boolean (jget (jget r ''forecast'') ''abstained'')"
      "conforms (Nullable probabilities_schema) (jget (jget r ''forecast'') ''probs'')"
    using r by (rule part[where k = "''forecast''"], simp add: artifact_props_def forecast_schema_def, simp)+
  have fam: "conforms (Enum frozen_families) (jget (jget r ''model'') ''family'')"
    using r by (rule part[where k = "''model''"], simp add: artifact_props_def model_schema_def, simp)
  show ?thesis
    using i m f fam resolution_conforms[OF assms]
    by (simp add: chain_schema_def chain_json_def resolution_schema_def
        conforms_props[of "(''sealed_artifact_id'', x) # xs" for x xs] del: conforms.simps(2))
qed

lemma chain_rated:
  assumes "sound_pair fmt (r, t)"
  shows "rated (chain_json (r, t))"
    and "py_text (jget (jget (chain_json (r, t)) ''match'') ''competition'') \<noteq> []"
    and "py_text (jget (chain_json (r, t)) ''family'') \<noteq> []"
proof -
  have r: "conforms (artifact_schema fmt) r" using assms by (simp add: sound_pair_def)
  have g: "jget (chain_json (r, t)) ''probs'' = jget (jget r ''forecast'') ''probs''"
      "jget (chain_json (r, t)) ''resolution'' = resolution t" "jget (chain_json (r, t)) ''match'' = jget r ''match''"
      "jget (chain_json (r, t)) ''family'' = jget (jget r ''model'') ''family''"
    by (simp_all add: chain_json_def jget_obj)
  show "rated (chain_json (r, t))"
    unfolding rated_def
  proof
    assume sc: "is_scored (chain_json (r, t))"
    then have "jget (resolution t) ''status'' = JStr ''scored''" by (simp add: is_scored_def g)
    then obtain a where a: "t = Some a" "jget a ''status'' = JStr ''scored''"
      by (cases t) (auto simp: resolution_status)
    then have ok: "conforms (artifact_schema fmt) a" "jget a ''evaluation'' \<noteq> JNull" "jget (jget r ''forecast'') ''probs'' \<noteq> JNull"
      using assms by (simp_all add: sound_pair_def)
    have "jget (resolution t) ''actual'' = jget (jget a ''evaluation'') ''actual''"
      using ok(2) by (simp add: a(1) resolution_def Let_def jget_obj)
    then show "conforms probabilities_schema (jget (chain_json (r, t)) ''probs'')
        \<and> conforms (Enum [''home'', ''draw'', ''away'']) (jget (jget (jget (chain_json (r, t)) ''resolution'') ''actual'') ''outcome'')"
      using evaluation_parts(4)[OF ok(1,2)] forecast_probs_conform[OF r] ok(3) by (simp add: g del: conforms.simps(2))
  qed
  have "conforms (Text nonempty) (jget (jget r ''match'') ''competition'')"
    using r by (rule part[where k = "''match''"], simp add: artifact_props_def match_schema_def, simp)
  then show "py_text (jget (jget (chain_json (r, t)) ''match'') ''competition'') \<noteq> []"
    by (auto simp: g py_text_def nonempty_def split: json.splits)
  have "conforms (Enum frozen_families) (jget (jget r ''model'') ''family'')"
    using r by (rule part[where k = "''model''"], simp add: artifact_props_def model_schema_def, simp)
  then show "py_text (jget (chain_json (r, t)) ''family'') \<noteq> []"
    by (auto simp: g py_text_def frozen_families_def split: json.splits)
qed

section \<open>The summary\<close>

lemma summary_total:
  assumes "load_ledger fmt files = Inr vs" "chain_pairs vs = Inr pairs" "list_all (sound_pair fmt) pairs" "origin \<noteq> []"
  shows "\<exists>s. calibration_summary fmt files origin = Inr s \<and> sy_chains s = map chain_json pairs"
proof -
  let ?links = "map chain_json pairs"
  have sp: "sound_pair fmt (r, t)" if "(r, t) \<in> set pairs" for r t using assms(3) that by (auto simp: list_all_iff)
  have rated: "list_all rated ?links"
    and keys: "list_all (\<lambda>c. py_text (jget (jget c ''match'') ''competition'') \<noteq> [] \<and> py_text (jget c ''family'') \<noteq> []) ?links"
    and chains: "list_all (conforms (chain_schema fmt)) ?links"
    using chain_rated[OF sp] chain_conforms[OF sp] by (auto simp: list_all_iff)
  obtain rows where rows: "scored_rows ?links = Inr rows" "list_all good_row rows"
    using scored_rows_total[OF rated] by blast
  obtain slices where slices: "calibration_slices ?links = Inr slices" "list_all (conforms slice_schema) slices"
    using slices_total[OF rated keys] by blast
  let ?s = "\<lparr> sy_generated_from = origin, sy_counts = counts_of pairs, sy_rows = rows, sy_slices = slices, sy_chains = ?links \<rparr>"
  have count: "conforms (Props [(''sealed'', True, count_schema), (''abstained'', True, count_schema),
      (''scored'', True, count_schema), (''voided'', True, count_schema), (''pending'', True, count_schema)]) (counts_json c)" for c
    by (simp add: counts_json_def conforms_props count_schema_def num_int_def)
  have "conforms (summary_schema fmt) (summary_json ?s)"
    using count running_conforms[OF rows(2)] bins_conform slices(2) chains assms(4)
    by (simp add: summary_schema_def summary_json_def conforms_props[of "(''schema_version'', x) # xs" for x xs] nonempty_def
        del: conforms.simps(8))
  then have "validate_calibration fmt ?s = Inr ()"
    using counts_reconcile[OF assms(2)] by (simp add: validate_calibration_def Let_def)
  then show ?thesis
    using assms(1,2) rows(1) slices(1) by (simp add: calibration_summary_def Let_def)
qed

end
