(* ===== verification/Settlement_Safety.thy ===== *)
theory Settlement_Safety
  imports Settlement_Laws Calibration_Total
begin

text \<open>
  The properties of settlement: ledgers that are only sealed into and settled can always be
  summarised, whatever the network answers; every score written is agreed by the sources and late
  enough; the report accounts for every pending forecast; and a source's results are exactly its
  completed, consistent rows.
\<close>

section \<open>Any chained ledger can be summarised\<close>

lemma chained_summary:
  assumes "chained fmt l"
  shows "\<exists>s pairs vs. calibration_summary fmt (lg_files l) default_origin = Inr s \<and> load_ledger fmt (lg_files l) = Inr vs
       \<and> chain_pairs vs = Inr pairs \<and> sy_chains s = map chain_json pairs"
proof -
  have sound: "all_sound fmt l" and ok: "placed (artifacts_of fmt (lg_files l))" "evaluated (artifacts_of fmt (lg_files l))"
    using assms by (simp_all add: chained_def)
  obtain vs where vs: "load_ledger fmt (lg_files l) = Inr vs" "mset vs = mset (artifacts_of fmt (lg_files l))"
    using load_ledger_sound[OF sound] by blast
  have set: "set vs = set (artifacts_of fmt (lg_files l))" using vs(2) by (rule mset_eq_setD)
  have "placed vs" using ok(1) placed_mset[OF vs(2)] by simp
  then obtain pairs where pairs: "chain_pairs vs = Inr pairs" using chain_pairs_placed[of vs] by blast
  note p = chain_pairs_resolved[OF pairs]
  have valid: "conforms (artifact_schema fmt) v" if v: "v \<in> set vs" for v
  proof -
    obtain i d where "(i, d) \<in> set (lg_files l)" "v = projr (load_verified_artifact fmt i d)"
      using v unfolding set artifacts_of_def by auto
    moreover from this have "dict_get (lg_files l) i = Some d" using sound by (simp add: all_sound_def dict_get_in)
    moreover obtain u where "load_verified_artifact fmt i d = Inr u"
      using calculation(3) sound by (auto simp: all_sound_def sound_def)
    ultimately have "load_verified_artifact fmt i d = Inr v" by simp
    then show ?thesis using load_verified_Inr validate_conforms by blast
  qed
  have "sound_pair fmt (r, t)" if rt: "(r, t) \<in> set pairs" for r t
  proof -
    have "r \<in> set (map fst pairs)" using rt by force
    then have r: "r \<in> set vs" by (simp add: p(1))
    show ?thesis
    proof (cases t)
      case None
      then show ?thesis using valid[OF r] by (simp add: sound_pair_def)
    next
      case (Some a)
      then have "a \<in> set (filter (resolves r) vs)" using p(3)[OF rt] by simp
      then have a: "a \<in> set vs" "\<not> is_root a" "superseded a = id_of r" by (auto simp: resolves_def)
      have "jget a ''status'' = JStr ''scored'' \<Longrightarrow> jget a ''evaluation'' \<noteq> JNull \<and> jget (jget r ''forecast'') ''probs'' \<noteq> JNull"
        using ok(2) a r set unfolding evaluated_def by metis
      then show ?thesis
        using valid[OF r] valid[OF a(1)] p(5) rt Some by (simp add: sound_pair_def)
    qed
  qed
  then have "list_all (sound_pair fmt) pairs" by (auto simp: list_all_iff)
  moreover have "default_origin \<noteq> []" by (simp add: default_origin_def)
  ultimately show ?thesis using summary_total[OF vs(1) pairs] vs(1) pairs by blast
qed

section \<open>A settlement keeps the ledger chained\<close>

text \<open>Whatever it is asked, a source's snapshot is a JSON value.\<close>

definition sane_sources :: "martj_loader \<Rightarrow> world_cup_loader \<Rightarrow> bool" where
  "sane_sources martj world \<longleftrightarrow>
     (\<forall>t ks s. martj t ks = Inr s \<longrightarrow> wf_json (sr_snapshot s)) \<and> (\<forall>y t ks s. world y t ks = Inr s \<longrightarrow> wf_json (sr_snapshot s))"

lemma wf_descriptor [simp]: "wf_json (descriptor a b c d e f)"
  by (simp add: descriptor_def dict_ok_def)

lemma fetched_sources_sane: "sane_sources (fetch_martj42 fold_name stamp fetch) (fetch_world_cup fold_name stamp fetch)"
  by (auto simp: sane_sources_def fetch_martj42_def fetch_world_cup_def bindE_Inr split: prod.splits option.splits)

lemma load_world_cup_snapshots:
  assumes "load_world_cup world t ks years = Inr (d, ns)" "\<And>y ks s. world y t ks = Inr s \<Longrightarrow> wf_json (sr_snapshot s)"
  shows "list_all (\<lambda>(y, s). wf_json (sr_snapshot s)) d"
  using assms(1)
proof (induction years arbitrary: d ns)
  case (Cons y years)
  then show ?case
    using assms(2) by (auto simp: bindE_Inr split: sum.splits source_error.splits)
qed simp

lemma gathered_snapshots:
  assumes "gather_sources martj world t ks years = Inr (so, ns)" "sane_sources martj world"
  shows "list_all (\<lambda>p. wf_json (snd p)) (observations fold_name stamp so c)"
proof -
  obtain d ms w us where g: "load_martj martj t ks = Inr (d, ms)" "load_world_cup world t ks years = Inr (w, us)"
      "so = \<lparr> so_martj = d, so_world_cup = w \<rparr>"
    using assms(1) by (auto simp: gather_sources_def bindE_Inr)
  have "list_all (\<lambda>(y, s). wf_json (sr_snapshot s)) d"
    using g(1) assms(2) by (auto simp: load_martj_def sane_sources_def split: if_splits sum.splits source_error.splits)
  moreover have "list_all (\<lambda>(y, s). wf_json (sr_snapshot s)) w"
    using load_world_cup_snapshots[OF g(2)] assms(2) by (auto simp: sane_sources_def)
  ultimately have "dict_get d k = Some s \<Longrightarrow> wf_json (sr_snapshot s)" "dict_get w k = Some s \<Longrightarrow> wf_json (sr_snapshot s)" for k s
    by (auto simp: list_all_iff dest!: map_of_SomeD)
  then have "list_all (\<lambda>p. wf_json (snd p)) (observation (dict_get d k) key)"
      "list_all (\<lambda>p. wf_json (snd p)) (observation (dict_get w k) key)" for k key
    by (simp_all add: observation_def split: option.split)
  then show ?thesis by (simp add: observations_def g(3))
qed

text \<open>What a run that reports has done.\<close>

lemma settled_run:
  assumes "settle_pending_forecasts fmt fold_name stamp martj world now l = (Inr rep, l')"
  shows "\<exists>s so ns vs. calibration_summary fmt (lg_files l) default_origin = Inr s
       \<and> (let open = filter is_unresolved (sy_chains s); due = timed Eligible now open in
          list_all (\<lambda>c. timing_of now c \<noteq> None) open
          \<and> gather_sources martj world (dt_iso now) (map (chain_key fold_name stamp) due) (world_cup_years due) = Inr (so, ns)
          \<and> settle_chains fmt (observations fold_name stamp so) due l = (Inr vs, l')
          \<and> rp_deferred rep = map chain_id (timed Deferred now open) \<and> rp_scored rep = scored_of vs
          \<and> rp_still_pending rep = map (\<lambda>c. (chain_id c, Awaiting_confirmation)) (timed Club_pending now open) @ pending_of vs)"
  using assms by (auto simp: settle_pending_forecasts_def Let_def split: sum.splits if_splits prod.splits)

lemma settle_keeps:
  assumes "chained fmt l" "sane_sources martj world" "settle_pending_forecasts fmt fold_name stamp martj world now l = (r, l')"
  shows "chained fmt l'"
proof (cases "lg_files l' = lg_files l")
  case True
  then show ?thesis using assms(1) by (simp add: chained_def all_sound_def)
next
  case False
  obtain s so ns r2 where s: "calibration_summary fmt (lg_files l) default_origin = Inr s"
      "gather_sources martj world (dt_iso now) (map (chain_key fold_name stamp) (timed Eligible now (filter is_unresolved (sy_chains s))))
         (world_cup_years (timed Eligible now (filter is_unresolved (sy_chains s)))) = Inr (so, ns)"
      "settle_chains fmt (observations fold_name stamp so) (timed Eligible now (filter is_unresolved (sy_chains s))) l = (r2, l')"
    using assms(3) False by (auto simp: settle_pending_forecasts_def Let_def split: sum.splits if_splits prod.splits)
  have sound: "all_sound fmt l" using assms(1) by (simp add: chained_def)
  note u = unresolved_open[OF sound s(1)]
  have "distinct (map chain_id (timed Eligible now (filter is_unresolved (sy_chains s))))"
    unfolding timed_def by (intro distinct_map_filter u(1))
  moreover have "list_all (\<lambda>c. open_seal fmt l (chain_id c)) (timed Eligible now (filter is_unresolved (sy_chains s)))"
    using u(2) by (auto simp: timed_def list_all_iff)
  ultimately show ?thesis
    using settle_chains_keep[OF assms(1) _ _ gathered_snapshots[OF s(2) assms(2)] s(3)] by blast
qed

section \<open>The properties\<close>

text \<open>A ledger that was only ever sealed into and settled, over any network.\<close>

inductive serviced :: "(string \<Rightarrow> string \<Rightarrow> bool) \<Rightarrow> ledger \<Rightarrow> bool" for fmt where
  start: "serviced fmt \<lparr> lg_files = [], lg_audit = [] \<rparr>"
| seal: "serviced fmt l \<Longrightarrow> list_all wf_json snapshots
    \<Longrightarrow> serviced fmt (snd (seal_forecast fmt en fit snapshots matches rq l))"
| settle: "serviced fmt l
    \<Longrightarrow> serviced fmt (snd (settle_pending_forecasts fmt fold_name stamp
         (fetch_martj42 fold_name stamp fetch) (fetch_world_cup fold_name stamp fetch) now l))"

lemma serviced_chained: "serviced fmt l \<Longrightarrow> chained fmt l"
proof (induction rule: serviced.induct)
  case start
  then show ?case by (simp add: chained_def all_sound_def artifacts_of_def placed_def evaluated_def)
next
  case (seal l snapshots en fit matches rq)
  obtain r l' where r: "seal_forecast fmt en fit snapshots matches rq l = (r, l')" by fastforce
  have "all_sound fmt l" using seal.IH by (simp add: chained_def)
  note ext = seal_extends[OF this seal.hyps(2) r]
  show ?case
  proof (cases r)
    case (Inl e)
    then show ?thesis using ext r seal.IH by simp
  next
    case (Inr s)
    then show ?thesis using ext r chained_root[OF seal.IH, of l' s] by simp
  qed
next
  case (settle l fold_name stamp fetch now)
  show ?case using settle_keeps[OF settle.IH fetched_sources_sane] by (metis prod.collapse)
qed

text \<open>
  C7: sealing and settling never break the record.  Whatever is sealed and however often pending
  forecasts are settled, over any network that answers anything or fails anywhere, every seal has
  at most one successor, and the calibration record of the ledger can be built: all files verify,
  the numbers exist, the summary conforms to its schema and its counts reconcile.
\<close>

theorem service_keeps_record:
  assumes "serviced fmt l"
  shows "\<exists>s vs pairs. calibration_summary fmt (lg_files l) default_origin = Inr s \<and> load_ledger fmt (lg_files l) = Inr vs
       \<and> chain_pairs vs = Inr pairs \<and> length vs = length (lg_files l)
       \<and> list_all (\<lambda>r. length (filter (resolves r) vs) \<le> 1) vs"
proof -
  have c: "chained fmt l" using serviced_chained[OF assms] .
  obtain s vs pairs where s: "calibration_summary fmt (lg_files l) default_origin = Inr s" "load_ledger fmt (lg_files l) = Inr vs"
      "chain_pairs vs = Inr pairs"
    using chained_summary[OF c] by blast
  have sound: "all_sound fmt l" using c by (simp add: chained_def)
  have "mset vs = mset (artifacts_of fmt (lg_files l))" using load_ledger_sound[OF sound] s(2) by auto
  from arg_cong[OF this, of size] have "length vs = length (lg_files l)" by (simp add: artifacts_of_def)
  moreover have "length (filter (resolves r) vs) \<le> 1" for r
  proof -
    have "distinct (map superseded (filter (\<lambda>a. \<not> is_root a) vs))"
      using chain_pairs_placed[of vs] s(3) by (auto simp: placed_def)
    then have "length (filter (\<lambda>a. superseded a = id_of r) (filter (\<lambda>a. \<not> is_root a) vs)) \<le> 1"
      by (rule distinct_filter_one)
    then show ?thesis by (simp add: resolves_def[abs_def])
  qed
  ultimately show ?thesis using s by (auto simp: list_all_iff)
qed

text \<open>
  What the sources published of one due forecast, straight from the answers of the two loaders:
  that of martj42 asked for all due fixtures, and for a World Cup fixture that of its year's file
  asked for the due fixtures of that year.
\<close>

definition published ::
  "(string \<Rightarrow> string) \<Rightarrow> (string \<Rightarrow> string option) \<Rightarrow> martj_loader \<Rightarrow> world_cup_loader \<Rightarrow> string \<Rightarrow> json list \<Rightarrow> json
   \<Rightarrow> ((int \<times> int) \<times> json) list" where
  "published fold_name stamp martj world retrieved_at due c =
     (let keys = map (chain_key fold_name stamp) due; year = take 4 (chain_kickoff c); key = chain_key fold_name stamp c in
      (case martj retrieved_at keys of
         Inr s \<Rightarrow> if sr_source s = martj_source then observation (Some s) key else []
       | Inl _ \<Rightarrow> [])
      @ (if is_world_cup c
         then (case world year retrieved_at (filter (\<lambda>k. starts_with year (fst k)) keys) of
                 Inr s \<Rightarrow> observation (Some s) key | Inl _ \<Rightarrow> [])
         else []))"

lemma world_cup_gathered:
  assumes "load_world_cup world t keys years = Inr (d, ns)" "distinct years"
  shows "dict_get d y = (if y \<in> set years
     then (case world y t (filter (\<lambda>k. starts_with y (fst k)) keys) of Inr s \<Rightarrow> Some s | Inl _ \<Rightarrow> None) else None)"
  using assms
proof (induction years arbitrary: d ns)
  case (Cons z years)
  show ?case
  proof (cases "world z t (filter (\<lambda>k. starts_with z (fst k)) keys)")
    case (Inl e)
    then obtain ms where "load_world_cup world t keys years = Inr (d, ms)"
      using Cons.prems(1) by (cases e) (auto simp: bindE_Inr)
    then show ?thesis using Cons Inl by auto
  next
    case (Inr s)
    then obtain d' where d': "load_world_cup world t keys years = Inr (d', ns)" "d = (z, s) # d'"
      using Cons.prems(1) by (auto simp: bindE_Inr)
    then show ?thesis using Cons.IH[OF d'(1)] Cons.prems(2) Inr by auto
  qed
qed simp

lemma gathered_published:
  assumes "gather_sources martj world t (map (chain_key fold_name stamp) due) (world_cup_years due) = Inr (so, ns)" "c \<in> set due"
  shows "observations fold_name stamp so c = published fold_name stamp martj world t due c"
proof -
  let ?keys = "map (chain_key fold_name stamp) due"
  obtain d ms w us where g: "load_martj martj t ?keys = Inr (d, ms)" "load_world_cup world t ?keys (world_cup_years due) = Inr (w, us)"
      "so = \<lparr> so_martj = d, so_world_cup = w \<rparr>"
    using assms(1) by (auto simp: gather_sources_def bindE_Inr)
  have "?keys \<noteq> []" using assms(2) by auto
  then have d: "dict_get d martj_source =
      (case martj t ?keys of Inr s \<Rightarrow> if sr_source s = martj_source then Some s else None | Inl _ \<Rightarrow> None)"
    using g(1) by (auto simp: load_martj_def split: sum.splits source_error.splits)
  have years: "distinct (world_cup_years due)" by (simp add: world_cup_years_def)
  have "is_world_cup c \<Longrightarrow> take 4 (chain_kickoff c) \<in> set (world_cup_years due)"
    using assms(2) by (auto simp: world_cup_years_def)
  then have w: "is_world_cup c \<Longrightarrow> dict_get w (take 4 (chain_kickoff c)) =
      (case world (take 4 (chain_kickoff c)) t (filter (\<lambda>k. starts_with (take 4 (chain_kickoff c)) (fst k)) ?keys) of
         Inr s \<Rightarrow> Some s | Inl _ \<Rightarrow> None)"
    using world_cup_gathered[OF g(2) years] by simp
  show ?thesis
    by (simp add: observations_def published_def g(3) d w Let_def observation_def split: sum.split)
qed

text \<open>
  C6: a score is settled only when it is safe.  Each score a run reports is of a forecast that was
  pending, of a fixture at least three hours past its kickoff and in no club competition; of the
  sources that were asked for it in this run at least one answered with its result, all that did
  gave exactly these goals, and the ledger now holds the verified successor with them.
\<close>

theorem settled_scores_agreed:
  assumes "chained fmt l" "sane_sources martj world"
    and "settle_pending_forecasts fmt fold_name stamp martj world now l = (Inr rep, l')"
  shows "\<exists>s. calibration_summary fmt (lg_files l) default_origin = Inr s
       \<and> list_all (\<lambda>x. \<exists>c kickoff. c \<in> set (sy_chains s) \<and> is_unresolved c \<and> chain_id c = ss_sealed x
            \<and> parse_iso (chain_kickoff c) = Some kickoff \<and> add_hours 3 kickoff \<le> now
            \<and> \<not> requires_independent_confirmation (text_at (chain_match c) ''competition'')
            \<and> agreed (published fold_name stamp martj world (dt_iso now) (timed Eligible now (filter is_unresolved (sy_chains s))) c) x
            \<and> holds_score fmt l' x) (rp_scored rep)"
proof -
  obtain s so ns vs where s: "calibration_summary fmt (lg_files l) default_origin = Inr s"
      "gather_sources martj world (dt_iso now) (map (chain_key fold_name stamp) (timed Eligible now (filter is_unresolved (sy_chains s))))
         (world_cup_years (timed Eligible now (filter is_unresolved (sy_chains s)))) = Inr (so, ns)"
      "settle_chains fmt (observations fold_name stamp so) (timed Eligible now (filter is_unresolved (sy_chains s))) l = (Inr vs, l')"
      "rp_scored rep = scored_of vs"
    using settled_run[OF assms(3)] by (auto simp: Let_def)
  let ?due = "timed Eligible now (filter is_unresolved (sy_chains s))"
  have sound: "all_sound fmt l" using assms(1) by (simp add: chained_def)
  note u = unresolved_open[OF sound s(1)]
  have "distinct (map chain_id ?due)" unfolding timed_def by (intro distinct_map_filter u(1))
  moreover have "list_all (\<lambda>c. open_seal fmt l (chain_id c)) ?due" using u(2) by (auto simp: timed_def list_all_iff)
  ultimately have done': "map fst vs = ?due"
      "list_all (\<lambda>(c, v). case v of Pending _ _ \<Rightarrow> True
         | Scored x \<Rightarrow> ss_sealed x = chain_id c \<and> agreed (observations fold_name stamp so c) x \<and> holds_score fmt l' x) vs"
    using settle_chains_keep[OF assms(1) _ _ gathered_snapshots[OF s(2) assms(2)] s(3)] by auto
  have "\<exists>c kickoff. c \<in> set (sy_chains s) \<and> is_unresolved c \<and> chain_id c = ss_sealed x
            \<and> parse_iso (chain_kickoff c) = Some kickoff \<and> add_hours 3 kickoff \<le> now
            \<and> \<not> requires_independent_confirmation (text_at (chain_match c) ''competition'')
            \<and> agreed (published fold_name stamp martj world (dt_iso now) ?due c) x \<and> holds_score fmt l' x"
    if x: "x \<in> set (scored_of vs)" for x
  proof -
    obtain c where c: "(c, Scored x) \<in> set vs"
      using x by (auto simp: scored_of_def split: verdict.splits)
    have "c \<in> set (map fst vs)" using c by force
    then have due: "c \<in> set ?due" by (simp only: done'(1))
    then have c': "c \<in> set (sy_chains s)" "is_unresolved c" "timing_of now c = Some Eligible" by (auto simp: timed_def)
    then have "\<exists>kickoff. parse_iso (chain_kickoff c) = Some kickoff \<and> add_hours 3 kickoff \<le> now
        \<and> \<not> requires_independent_confirmation (text_at (chain_match c) ''competition'')"
      by (auto simp: timing_of_def result_grace_def not_less split: option.splits if_splits)
    moreover have "ss_sealed x = chain_id c \<and> agreed (observations fold_name stamp so c) x \<and> holds_score fmt l' x"
      using done'(2) c by (auto simp: list_all_iff)
    ultimately show ?thesis using c'(1,2) gathered_published[OF s(2) due] by metis
  qed
  then show ?thesis using s(1,4) by (auto simp: list_all_iff)
qed

section \<open>The report\<close>

lemma settle_chain_id:
  "settle_chain fmt obs c l = Inr (Scored x, l') \<Longrightarrow> ss_sealed x = chain_id c"
  by (auto simp: settle_chain_def Let_def split: if_splits prod.splits option.splits sum.splits)

lemma settle_chains_ids:
  "settle_chains fmt obs cs l = (Inr vs, l') \<Longrightarrow>
     mset (map ss_sealed (scored_of vs)) + mset (map fst (pending_of vs)) = mset (map chain_id cs)"
proof (induction cs arbitrary: l vs)
  case (Cons c cs)
  then obtain v m ws where v: "settle_chain fmt (obs c) c l = Inr (v, m)" "settle_chains fmt obs cs m = (Inr ws, l')" "vs = (c, v) # ws"
    by (auto split: sum.splits prod.splits)
  have "mset (map ss_sealed (scored_of vs)) + mset (map fst (pending_of vs))
      = {#chain_id c#} + (mset (map ss_sealed (scored_of ws)) + mset (map fst (pending_of ws)))"
    using settle_chain_id[of fmt "obs c" c l _ m] v(1) by (cases v) (auto simp: v(3) scored_of_def pending_of_def)
  then show ?case using Cons.IH[OF v(2)] by simp
qed (simp add: scored_of_def pending_of_def)

text \<open>
  A report accounts for every forecast that was pending.  Each is deferred, scored or still
  pending with a reason, exactly once.
\<close>

theorem report_accounts_for_pending:
  assumes "settle_pending_forecasts fmt fold_name stamp martj world now l = (Inr rep, l')"
  shows "\<exists>s. calibration_summary fmt (lg_files l) default_origin = Inr s
       \<and> mset (map chain_id (filter is_unresolved (sy_chains s)))
         = mset (rp_deferred rep) + mset (map ss_sealed (rp_scored rep)) + mset (map fst (rp_still_pending rep))"
proof -
  obtain s so ns vs where s: "calibration_summary fmt (lg_files l) default_origin = Inr s"
      "list_all (\<lambda>c. timing_of now c \<noteq> None) (filter is_unresolved (sy_chains s))"
      "settle_chains fmt (observations fold_name stamp so) (timed Eligible now (filter is_unresolved (sy_chains s))) l = (Inr vs, l')"
      "rp_deferred rep = map chain_id (timed Deferred now (filter is_unresolved (sy_chains s)))" "rp_scored rep = scored_of vs"
      "rp_still_pending rep = map (\<lambda>c. (chain_id c, Awaiting_confirmation)) (timed Club_pending now (filter is_unresolved (sy_chains s)))
         @ pending_of vs"
    using settled_run[OF assms] by (auto simp: Let_def)
  have split: "mset (map chain_id cs) = mset (map chain_id (timed Deferred now cs)) + mset (map chain_id (timed Eligible now cs))
      + mset (map chain_id (timed Club_pending now cs))" if "list_all (\<lambda>c. timing_of now c \<noteq> None) cs" for cs
    using that
  proof (induction cs)
    case (Cons c cs)
    then obtain k where "timing_of now c = Some k" by auto
    then show ?case using Cons by (cases k) (auto simp: timed_def)
  qed (simp add: timed_def)
  show ?thesis
    using s(1) split[OF s(2)] settle_chains_ids[OF s(3)]
    by (simp add: s(4-6) comp_def union_ac)
qed

section \<open>The results of a source\<close>

lemma insert_result_Inr:
  "insert_result d k v = Inr d' \<Longrightarrow> (dict_get d k = None \<or> dict_get d k = Some v) \<and> d' = dict_set k v d"
  by (auto simp: insert_result_def split: option.splits if_splits)

lemma martj42_rows_Inr:
  assumes "martj42_rows parse targets rows d = Inr d'"
  shows "(\<forall>row \<in> set rows. row \<noteq> [] \<longrightarrow> (\<exists>x. parse row = Inr x))
       \<and> (\<forall>k v. dict_get d' k = Some v \<longleftrightarrow> dict_get d k = Some v
            \<or> (wanted targets k \<and> (\<exists>row \<in> set rows. row \<noteq> [] \<and> parse row = Inr (Some (k, v)))))"
  using assms
proof (induction rows arbitrary: d)
  case (Cons row rows)
  show ?case
  proof (cases "row = []")
    case True
    then show ?thesis using Cons by simp
  next
    case False
    then obtain x where x: "parse row = Inr x" using Cons.prems by (auto simp: bindE_Inr)
    show ?thesis
    proof (cases x)
      case None
      then show ?thesis using Cons False x by auto
    next
      case (Some p)
      obtain k v where p: "p = (k, v)" by (cases p)
      show ?thesis
      proof (cases "wanted targets k")
        case True
        obtain e where e: "insert_result d k v = Inr e" "martj42_rows parse targets rows e = Inr d'"
          using Cons.prems False x Some p True by (auto simp: bindE_Inr)
        have get: "dict_get e j = (if j = k then Some v else dict_get d j)" for j
          using insert_result_Inr[OF e(1)] by simp
        have old: "dict_get d k = Some u \<Longrightarrow> u = v" for u using insert_result_Inr[OF e(1)] by auto
        note ih = Cons.IH[OF e(2)]
        have "dict_get d' j = Some u \<longleftrightarrow> dict_get d j = Some u
            \<or> (wanted targets j \<and> (\<exists>r \<in> set (row # rows). r \<noteq> [] \<and> parse r = Inr (Some (j, u))))" for j u
        proof -
          have "dict_get d' j = Some u \<longleftrightarrow> dict_get e j = Some u
              \<or> (wanted targets j \<and> (\<exists>r \<in> set rows. r \<noteq> [] \<and> parse r = Inr (Some (j, u))))"
            using ih by blast
          moreover have "dict_get d j = Some u \<Longrightarrow> j = k \<Longrightarrow> u = v" using old[of u] by simp
          ultimately show ?thesis using False x Some p True by (cases "j = k") (auto simp: get)
        qed
        then show ?thesis using ih x by (simp del: split_paired_All)
      next
        case skip: False
        then have "martj42_rows parse targets rows d = Inr d'" using Cons.prems False x Some p by simp
        note ih = Cons.IH[OF this]
        have "dict_get d' j = Some u \<longleftrightarrow> dict_get d j = Some u
            \<or> (wanted targets j \<and> (\<exists>r \<in> set (row # rows). r \<noteq> [] \<and> parse r = Inr (Some (j, u))))" for j u
        proof -
          have "dict_get d' j = Some u \<longleftrightarrow> dict_get d j = Some u
              \<or> (wanted targets j \<and> (\<exists>r \<in> set rows. r \<noteq> [] \<and> parse r = Inr (Some (j, u))))"
            using ih by blast
          then show ?thesis using False x Some p skip by (cases "j = k") auto
        qed
        then show ?thesis using ih x by (simp del: split_paired_All)
      qed
    qed
  qed
qed simp

text \<open>
  The results read from the CSV are exactly the scores of its completed rows of wanted
  fixtures.  They are only read when the header has every column and every row parses; two rows
  of one fixture never carry different scores, or the whole source is refused.
\<close>

theorem martj42_results_exact:
  assumes "martj42_results fold_name stamp text targets = Inr results"
  shows "\<exists>names rows. csv_records text = (names # rows, False) \<and> set martj42_columns \<subseteq> set names
       \<and> list_all (\<lambda>row. row = [] \<or> (\<exists>x. martj42_row fold_name stamp names row = Inr x)) rows
       \<and> (\<forall>k v. dict_get results k = Some v \<longleftrightarrow> wanted targets k
            \<and> list_ex (\<lambda>row. row \<noteq> [] \<and> martj42_row fold_name stamp names row = Inr (Some (k, v))) rows)"
proof -
  obtain names rows where n: "csv_records text = (names # rows, False)" "set martj42_columns \<subseteq> set names"
      "martj42_rows (martj42_row fold_name stamp names) targets rows [] = Inr results"
    using assms by (auto simp: martj42_results_def bindE_Inr split: prod.splits list.splits bool.splits if_splits)
  from martj42_rows_Inr[OF n(3)] n(1,2) show ?thesis
    by (auto simp: list_all_iff list_ex_iff intro!: exI[of _ names] exI[of _ rows])
qed

end
