(* ===== verification/Settlement_Samples.thy ===== *)
theory Settlement_Samples
  imports Settlement_Safety
begin

text \<open>
  Concrete settlements: a ledger with one pending forecast whose fixture is over, a source that
  published its result, and a small results file.  They show that the properties of settlement
  have inputs they speak about.
\<close>

section \<open>A pending forecast\<close>

abbreviation pending_json :: json where
  "pending_json \<equiv> sample_json 10 10 False even_numbers"

abbreviation pending_match :: json where
  "pending_match \<equiv> jget pending_json ''match''"

definition settle_now :: dt where
  "settle_now = DT 2026 6 14 0 0 0"

lemma pending_canonical: "\<exists>c. canonical_json pending_json = Some c \<and> jeq c pending_json"
proof -
  have "\<exists>h d a. jget (jget pending_json ''forecast'') ''probs'' = probs_json (h, d, a) \<and> h + d + a = 1000000"
    by (intro exI[of _ 500000] exI[of _ 300000] exI[of _ 200000]) (simp add: artifact_json_get even_numbers_def)
  then show ?thesis by (intro canonical_fixpoint sample_wf) (simp_all add: artifact_json_get)
qed

lemma pending_file:
  "\<exists>i d v. load_verified_artifact any_format i d = Inr v \<and> settled v
     \<and> (\<forall>k. k \<noteq> ''artifact_id'' \<longrightarrow> k \<noteq> ''provenance'' \<longrightarrow> jget v k = normalise (jget pending_json k))"
proof -
  have "\<exists>h d a. jget (jget pending_json ''forecast'') ''probs'' = probs_json (h, d, a) \<and> h + d + a = 1000000"
    by (intro exI[of _ 500000] exI[of _ 300000] exI[of _ 200000]) (simp add: artifact_json_get even_numbers_def)
  note fl = finished_loads[OF sample_valid(2) sample_wf(2) disjI2, OF this]
  obtain w i c where w: "finish_artifact pending_json = Some w"
      "load_verified_artifact any_format i (dumps c @ [CHR 0x0A]) = Inr (normalise w)"
      "\<forall>k. k \<noteq> ''artifact_id'' \<longrightarrow> k \<noteq> ''provenance'' \<longrightarrow> jget w k = jget pending_json k"
    using fl by (elim exE conjE) (rule that)
  have wf: "wf_json w" using finish_artifact_ids[OF w(1) sample_wf(2) artifact_json_get(6,7)] by blast
  obtain e where e: "canonical_json pending_json = Some e" "jeq e pending_json" using pending_canonical by blast
  have "settled w" using finish_settled[OF w(1) sample_wf(2) artifact_json_get(6,7) e] by (simp add: settled_def)
  moreover have "jeq (normalise w) w" using wf by (rule jeq_normalise)
  ultimately have "settled (normalise w)" using settled_jeq by blast
  moreover have "jget (normalise w) k = normalise (jget pending_json k)" if "k \<noteq> ''artifact_id''" "k \<noteq> ''provenance''" for k
    using w(3) that jget_normal[OF wf] by simp
  ultimately show ?thesis using w(2) by blast
qed

lemma pending_match_json:
  "pending_match = JObj
     [(''match_id'', JStr ''m_2''), (''competition'', JStr ''Cup''), (''stage'', JNull), (''kickoff_utc'', JStr ''2026-06-11T20:00:00Z''),
      (''home_team'', JStr ''A''), (''away_team'', JStr ''B''), (''neutral_venue'', JBool False), (''city'', JNull), (''country'', JNull)]"
proof -
  have "dt_iso (DT 2026 6 11 20 0 0) = ''2026-06-11T20:00:00Z''" by code_simp
  then show ?thesis
    by (simp add: artifact_json_def jget_obj sealed_fixture_def sample_fixture_def sample_row_def sample_request_def jtext_def)
qed

lemma pending_forecast:
  "jget (jget pending_json ''forecast'') ''abstained'' = JBool False"
  "jget (jget pending_json ''forecast'') ''probs'' = probs_json (500000, 300000, 200000)"
  by (simp_all add: artifact_json_def jget_obj even_numbers_def)

lemmas pending_fields = artifact_json_get(1) artifact_json_root pending_forecast

lemma pending_ledger:
  "\<exists>i d v. load_verified_artifact any_format i d = Inr v \<and> is_root v
     \<and> chained any_format \<lparr> lg_files = [(i, d)], lg_audit = [] \<rparr>
     \<and> is_unresolved (chain_json (v, None)) \<and> timing_of settle_now (chain_json (v, None)) = Some Eligible
     \<and> \<not> is_world_cup (chain_json (v, None))
     \<and> (\<forall>l. \<exists>r l'. score_forecast_result any_format i d new_snapshot 2 1 l = (r, l') \<and> (\<forall>e. r = Inl e \<longrightarrow> catches e))"
proof -
  obtain i d v where v: "load_verified_artifact any_format i d = Inr v" "settled v"
      "\<forall>k. k \<noteq> ''artifact_id'' \<longrightarrow> k \<noteq> ''provenance'' \<longrightarrow> jget v k = normalise (jget pending_json k)"
    using pending_file by (elim exE conjE) (rule that)
  have wf: "wf_json (jget pending_json k)" for k using sample_wf(2) by (rule wf_jget)
  have m: "jget (jget v ''match'') k = normalise (jget pending_match k)"
    and f: "jget (jget v ''forecast'') k = normalise (jget (jget pending_json ''forecast'') k)" for k
    using v(3) wf by (simp_all add: jget_normal)
  have root: "is_root v" using v(3) by (simp add: pending_fields is_root_def)
  moreover have "chained any_format \<lparr> lg_files = [(i, d)], lg_audit = [] \<rparr>"
  proof -
    have "sound any_format i d" using v by (auto simp: sound_def)
    then show ?thesis
      using root v 
      by (simp add: pending_fields chained_def all_sound_def dict_ok_def artifacts_of_def placed_def evaluated_def well_placed_def root_statuses_def)
  qed
  moreover have "is_unresolved (chain_json (v, None))"
    using f[of "''probs''"] f[of "''abstained''"]
    by (simp add: pending_fields is_unresolved_def chain_json_def jget_obj resolution_def probs_json_def py_truthy_def)
  moreover have "timing_of settle_now (chain_json (v, None)) = Some Eligible"
  proof -
    have "parse_iso ''2026-06-11T20:00:00Z'' = Some (DT 2026 6 11 20 0 0)"
        "\<not> settle_now < add_hours result_grace (DT 2026 6 11 20 0 0)"
      by code_simp+
    moreover have "\<not> requires_independent_confirmation ''Cup''"
      by (simp add: requires_independent_confirmation_def competition_id_for_source_name_def competitions_def
          domestic_def uefa_club_def international_def)
    ultimately show ?thesis
      using m[of "''kickoff_utc''"] m[of "''competition''"]
      by (simp add: pending_match_json timing_of_def chain_kickoff_def chain_match_def chain_json_def jget_obj text_at_def)
  qed
  moreover have "\<not> is_world_cup (chain_json (v, None))"
    using m[of "''competition''"] by (simp add: pending_match_json is_world_cup_def chain_match_def chain_json_def jget_obj)
  moreover have "\<exists>r l'. score_forecast_result any_format i d new_snapshot 2 1 l = (r, l') \<and> (\<forall>e. r = Inl e \<longrightarrow> catches e)" for l
  proof -
    have "snapshot_anchor (normalise old_snapshot) = snapshot_anchor old_snapshot"
      by (simp add: snapshot_anchor_def snapshot_anchor_utc_def jget_normal[OF snapshot_ok(3)])
         (simp add: old_snapshot_def jget_obj)
    moreover have "jget (jget v ''inputs'') ''snapshots'' = normalise (JArr [old_snapshot])"
      using v(3) wf by (simp add: jget_normal artifact_json_get)
    ultimately have old: "latest_anchor (arr (jget (jget v ''inputs'') ''snapshots'')) = Some (DT 2026 6 9 12 0 0)"
      by (simp add: arr_def snapshot_ok)
    have st: "jget v ''status'' = JStr ''sealed''" "jget (jget v ''forecast'') ''probs'' \<noteq> JNull"
      using v(3) f[of "''probs''"] by (simp_all add: pending_fields probs_json_def)
    have "DT 2026 6 9 12 0 0 < DT 2026 6 13 12 0 0" by (simp add: less_dt_def dt_key_def)
    from score_writes[OF v(1) st old snapshot_ok(6) this snapshot_ok(2,4) _ _ accepts_any_format, of 2 1 l]
    obtain w c where "score_forecast_result any_format i d new_snapshot 2 1 l = write_artifact any_format w l"
        "validate_artifact any_format w = Inr ()" "canonical_json w = Some c"
      by (metis zero_le_numeral zero_le_one)
    then show ?thesis
      by (cases "dict_get (lg_files l) (id_text w)") (auto simp: write_artifact_def canonical_bytes_def Let_def catches_def)
  qed
  ultimately show ?thesis using v(1) by blast
qed

text \<open>A source that gives every fixture it is asked for the result two to one.\<close>

definition two_one :: martj_loader where
  "two_one retrieved_at keys = Inr \<lparr> sr_source = martj_source, sr_snapshot = new_snapshot, sr_results = map (\<lambda>k. (k, 2, 1)) keys \<rparr>"

definition no_world_cup :: world_cup_loader where
  "no_world_cup year retrieved_at keys = Inl (Settlement_error Unreachable)"

lemma sample_run:
  "\<exists>l l' rep. chained any_format (l :: ledger)
     \<and> settle_pending_forecasts any_format id (\<lambda>_. None) two_one no_world_cup settle_now l = (Inr rep, l')
     \<and> rp_pending_before rep = 1 \<and> rp_eligible rep = 1 \<and> rp_sources rep = [martj_source]"
proof -
  obtain i d v where v: "load_verified_artifact any_format i d = Inr v" "is_root v"
      "chained any_format \<lparr> lg_files = [(i, d)], lg_audit = [] \<rparr>"
      "is_unresolved (chain_json (v, None))" "timing_of settle_now (chain_json (v, None)) = Some Eligible"
      "\<not> is_world_cup (chain_json (v, None))"
      "\<forall>l. \<exists>r l'. score_forecast_result any_format i d new_snapshot 2 1 l = (r, l') \<and> (\<forall>e. r = Inl e \<longrightarrow> catches e)"
    using pending_ledger by (elim exE conjE) (rule that)
  let ?l = "\<lparr> lg_files = [(i, d)], lg_audit = [] \<rparr>" and ?c = "chain_json (v, None)"
  obtain s vs pairs where s: "calibration_summary any_format (lg_files ?l) default_origin = Inr s"
      "load_ledger any_format (lg_files ?l) = Inr vs" "chain_pairs vs = Inr pairs" "sy_chains s = map chain_json pairs"
    using chained_summary[OF v(3)] by blast
  have "vs = [v]" using s(2) v(1) by (simp add: load_ledger_def sort_key_def)
  then have c: "sy_chains s = [?c]"
    using s(3,4) v(2) by (auto simp: chain_pairs_def bindE_Inr sort_key_def split: if_splits)
  have id: "chain_id ?c = i" using load_verified_Inr[OF v(1)] by (simp add: chain_json_get text_at_def)
  have once: "\<exists>w l'. settle_chain any_format obs ?c ?l = Inr (w, l')" if "obs = [] \<or> obs = [((2, 1), new_snapshot)]" for obs
  proof -
    obtain r l' where "score_forecast_result any_format i d new_snapshot 2 1 ?l = (r, l')" "\<forall>e. r = Inl e \<longrightarrow> catches e"
      using v(7) by blast
    then show ?thesis using that by (cases r) (auto simp: settle_chain_def Let_def id newest_def)
  qed
  define key where "key = chain_key id (\<lambda>_. None) ?c"
  define obs where "obs = observations id (\<lambda>_. None) \<lparr> so_martj = [(martj_source, \<lparr> sr_source = martj_source,
      sr_snapshot = new_snapshot, sr_results = [(key, 2, 1)] \<rparr>)], so_world_cup = [] \<rparr>"
  have "obs ?c = [((2, 1), new_snapshot)]"
    by (simp add: obs_def observations_def observation_def key_def)
  then obtain w l' where "settle_chain any_format (obs ?c) ?c ?l = Inr (w, l')" using once by metis
  then have run: "settle_chains any_format obs [?c] ?l = (Inr [(?c, w)], l')" by simp
  have due: "timed Eligible settle_now [?c] = [?c]" "timed Deferred settle_now [?c] = []" "timed Club_pending settle_now [?c] = []"
    using v(5) by (simp_all add: timed_def)
  have nocup: "world_cup_years [?c] = []" using v(6) by (simp add: world_cup_years_def)
  have "gather_sources two_one no_world_cup (dt_iso settle_now) [key] [] = Inr (\<lparr> so_martj = [(martj_source, \<lparr> sr_source = martj_source,
      sr_snapshot = new_snapshot, sr_results = [(key, 2, 1)] \<rparr>)], so_world_cup = [] \<rparr>, [])"
    by (simp add: gather_sources_def load_martj_def two_one_def)
  then have "\<exists>rep. settle_pending_forecasts any_format id (\<lambda>_. None) two_one no_world_cup settle_now ?l = (Inr rep, l')
     \<and> rp_pending_before rep = 1 \<and> rp_eligible rep = 1 \<and> rp_sources rep = [martj_source]"
    using s(1) c v(4,5) due run nocup
    by (simp add: settle_pending_forecasts_def key_def obs_def)
  then show ?thesis using v(3) by blast
qed

lemma sample_sources_sane: "sane_sources two_one no_world_cup"
  by (auto simp: sane_sources_def two_one_def no_world_cup_def snapshot_ok)

section \<open>A results file\<close>

lemmas csv_steps = csv_records_def read_char_def start_field_def add_char_def save_field_def is_newline_def field_limit_def
  code_points_def fresh_reader_def is_continuation_def

definition sample_results :: string where
  "sample_results = ''date,home_team,away_team,home_score,away_score,tournament\<newline>2026-07-14,France,Spain,0,2,Cup\<newline>2026-07-15,A,B,NA,NA,Cup''"

lemma sample_records:
  "csv_records sample_results =
     ([martj42_columns, [''2026-07-14'', ''France'', ''Spain'', ''0'', ''2'', ''Cup''], [''2026-07-15'', ''A'', ''B'', ''NA'', ''NA'', ''Cup'']], False)"
  by (simp add: csv_steps sample_results_def martj42_columns_def)

lemma sample_rows:
  "martj42_row id (\<lambda>_. None) martj42_columns [''2026-07-14'', ''France'', ''Spain'', ''0'', ''2'', ''Cup'']
     = Inr (Some ((''2026-07-14'', ''France'', ''Spain'', ''Cup''), 0, 2))"
  "martj42_row id (\<lambda>_. None) martj42_columns [''2026-07-15'', ''A'', ''B'', ''NA'', ''NA'', ''Cup''] = Inr None"
proof -
  have "fixture_date (\<lambda>_. None) ''2026-07-14'' = Some ''2026-07-14''" by code_simp
  moreover have "py_int ''0'' = Some 0" "py_int ''2'' = Some 2" by code_simp+
  ultimately show
    "martj42_row id (\<lambda>_. None) martj42_columns [''2026-07-14'', ''France'', ''Spain'', ''0'', ''2'', ''Cup'']
       = Inr (Some ((''2026-07-14'', ''France'', ''Spain'', ''Cup''), 0, 2))"
    "martj42_row id (\<lambda>_. None) martj42_columns [''2026-07-15'', ''A'', ''B'', ''NA'', ''NA'', ''Cup''] = Inr None"
    by (simp_all add: martj42_columns_def martj42_row_def cell_def no_score_def cell_text_def fixture_key_def)
qed

lemma sample_read:
  "martj42_results id (\<lambda>_. None) sample_results None = Inr [((''2026-07-14'', ''France'', ''Spain'', ''Cup''), 0, 2)]"
  by (simp add: martj42_results_def sample_records sample_rows wanted_def insert_result_def)

section \<open>Witnesses\<close>

lemma service_keeps_record_witness:
  "\<exists>(l :: ledger) s. lg_files l \<noteq> [] \<and> calibration_summary any_format (lg_files l) default_origin = Inr s"
proof -
  obtain i l where s: "seal_forecast any_format sample_env no_fit [old_snapshot] seal_frame sample_request empty_ledger = (Inr i, l)"
    using sample_seal by blast
  have "serviced any_format (snd (seal_forecast any_format sample_env no_fit [old_snapshot] seal_frame sample_request empty_ledger))"
    unfolding empty_ledger_def by (intro serviced.intros) (simp add: snapshot_ok)
  then have "serviced any_format l" using s by simp
  from service_keeps_record[OF this] have "\<exists>s. calibration_summary any_format (lg_files l) default_origin = Inr s" by blast
  moreover have "lg_files l \<noteq> []" using s write_Inr by (fastforce simp: seal_forecast_def split: sum.splits)
  ultimately show ?thesis by blast
qed

lemma settled_scores_agreed_witness:
  "\<exists>(l :: ledger) l' rep. settle_pending_forecasts any_format id (\<lambda>_. None) two_one no_world_cup settle_now l = (Inr rep, l')
     \<and> rp_eligible rep = 1 \<and> list_all (holds_score any_format l') (rp_scored rep)"
proof -
  obtain l l' rep where r: "chained any_format (l :: ledger)"
      "settle_pending_forecasts any_format id (\<lambda>_. None) two_one no_world_cup settle_now l = (Inr rep, l')" "rp_eligible rep = 1"
    using sample_run by blast
  have "list_all (holds_score any_format l') (rp_scored rep)"
    using settled_scores_agreed[OF r(1) sample_sources_sane r(2)] by (auto simp: list_all_iff)
  then show ?thesis using r(2,3) by blast
qed

lemma report_accounts_for_pending_witness:
  "\<exists>(l :: ledger) l' rep. settle_pending_forecasts any_format id (\<lambda>_. None) two_one no_world_cup settle_now l = (Inr rep, l')
     \<and> rp_pending_before rep = 1
     \<and> length (rp_deferred rep) + length (rp_scored rep) + length (rp_still_pending rep) = 1"
proof -
  obtain l l' rep where r: "settle_pending_forecasts any_format id (\<lambda>_. None) two_one no_world_cup settle_now (l :: ledger) = (Inr rep, l')"
      "rp_pending_before rep = 1"
    using sample_run by blast
  obtain s where s: "calibration_summary any_format (lg_files l) default_origin = Inr s"
      "mset (map chain_id (filter is_unresolved (sy_chains s)))
         = mset (rp_deferred rep) + mset (map ss_sealed (rp_scored rep)) + mset (map fst (rp_still_pending rep))"
    using report_accounts_for_pending[OF r(1)] by blast
  have "length (filter is_unresolved (sy_chains s)) = 1"
    using r s(1) by (auto simp: settle_pending_forecasts_def Let_def split: sum.splits if_splits prod.splits)
  with arg_cong[OF s(2), of size] have "length (rp_deferred rep) + length (rp_scored rep) + length (rp_still_pending rep) = 1"
    by (simp flip: mset_filter)
  then show ?thesis using r by blast
qed

lemma martj42_results_exact_witness:
  "\<exists>names rows. csv_records sample_results = (names # rows, False) \<and> set martj42_columns \<subseteq> set names \<and> length rows = 2"
  using martj42_results_exact[OF sample_read] by (simp add: sample_records)

end
