(* ===== verification/Refresh_State.thy ===== *)
theory Refresh_State
  imports Csv
begin

text \<open>
  \<open>src/server/golavo_server/refresh_state.py\<close>: immutable generations of refreshed data, the active
  pointer and its fallback.  A generation is a directory, as in \<open>Source_Packs\<close>: the regular files
  below it by relative path, and the paths that are symbolic links.  Generations are keyed by what
  follows \<open>generations/\<close>.  The two JSON files of the root are held as what \<open>json.loads\<close> makes of
  them, \<open>None\<close> when a file is missing or is not JSON; an atomic write replaces the value.
\<close>

record refresh_root =
  rr_state :: "json option"
  rr_pointer :: "json option"
  rr_generations :: "(string, pack) dict"
  rr_staging :: "(string, pack) dict"

text \<open>\<open>Value_error\<close> is the \<open>ValueError\<close> or \<open>OSError\<close> callers expect; \<open>Unhashable\<close> is the \<open>TypeError\<close> of a set lookup.\<close>

datatype generation_fault =
    Invalid_id | Bad_manifest | Unsupported_schema | Id_mismatch | No_artifacts | Bad_entry | Unsafe_artifact
  | Artifact_missing | Artifact_mismatch | Index_missing | Bad_index_meta | Parquet_mismatch | Declaration_mismatch
  | Too_few_snapshots | Bad_snapshot | Unapproved_snapshot | License_contract | Bad_receipt | Unsafe_receipt
  | Receipt_undeclared | Receipt_mismatch | No_previous | No_staging | Outside_staging

datatype refresh_error = Value_error generation_fault | Unhashable

abbreviation refuse :: "generation_fault \<Rightarrow> refresh_error + 'a" where
  "refuse e \<equiv> Inl (Value_error e)"

abbreviation require :: "bool \<Rightarrow> generation_fault \<Rightarrow> refresh_error + unit" where
  "require b e \<equiv> guardE b (Value_error e)"

section \<open>State\<close>

definition state_schema_version :: string where "state_schema_version = ''0.1.0''"
definition generation_schema_version :: string where "generation_schema_version = ''0.1.0''"

definition default_state :: json where
  "default_state = JObj
     [(''schema_version'', JStr state_schema_version), (''sources'', JObj []), (''job'', JNull), (''last_error'', JNull)]"

definition load_state :: "refresh_root \<Rightarrow> json" where
  "load_state r =
     (case rr_state r of
        None \<Rightarrow> default_state
      | Some payload \<Rightarrow>
          if \<not> is_obj payload \<or> jget payload ''schema_version'' \<noteq> JStr state_schema_version then default_state
          else if is_obj (jget payload ''sources'') then payload else json_set ''sources'' (JObj []) payload)"

definition save_state :: "json \<Rightarrow> refresh_root \<Rightarrow> refresh_root" where
  "save_state payload r = r\<lparr> rr_state := Some (json_set ''schema_version'' (JStr state_schema_version) payload) \<rparr>"

definition load_pointer :: "refresh_root \<Rightarrow> json option" where
  "load_pointer r = (case rr_pointer r of Some v \<Rightarrow> if is_obj v then Some v else None | None \<Rightarrow> None)"

section \<open>Generations\<close>

definition valid_generation_id :: "string \<Rightarrow> bool" where
  "valid_generation_id g \<longleftrightarrow> starts_with ''g_'' g \<and> code_points g = 66"

text \<open>The directory of an id, \<open>None\<close> when there is none.\<close>

definition generation_dir :: "refresh_root \<Rightarrow> string \<Rightarrow> refresh_error + pack option" where
  "generation_dir r g = (if valid_generation_id g then Inr (dict_get (rr_generations r) g) else refuse Invalid_id)"

text \<open>\<open>str(v.get(k, ""))\<close>: a missing key is the empty text.\<close>

definition text_get :: "json \<Rightarrow> string \<Rightarrow> string" where
  "text_get v k = (case dict_get (obj_fields v) k of None \<Rightarrow> [] | Some x \<Rightarrow> py_text x)"

text \<open>\<open>is_file\<close> and not \<open>is_symlink\<close>.\<close>

definition plain_file :: "pack \<Rightarrow> string \<Rightarrow> string option" where
  "plain_file p f = (if f \<in> set (pk_links p) then None else dict_get (pk_files p) f)"

definition check_artifact :: "pack \<Rightarrow> json \<Rightarrow> refresh_error + (string \<times> string)" where
  "check_artifact p entry =
     bindE (require (is_obj entry) Bad_entry) (\<lambda>_.
       let relative = text_get entry ''path''; parts = path_parts relative; f = as_posix parts in
       bindE (require (\<not> is_absolute relative \<and> ''..'' \<notin> set parts \<and> parts \<noteq> []) Unsafe_artifact) (\<lambda>_.
         case plain_file p f of
           None \<Rightarrow> refuse Artifact_missing
         | Some data \<Rightarrow>
             bindE (require (sha256_hex data = text_get entry ''sha256'') Artifact_mismatch) (\<lambda>_. Inr (f, sha256_hex data))))"

definition index_parquet :: string where "index_parquet = ''index/matches_index.parquet''"
definition index_meta :: string where "index_meta = ''index/matches_index.meta.json''"

text \<open>The metadata of the index names the hash of the table it was built with.\<close>

definition check_index :: "pack \<Rightarrow> (string, string) dict \<Rightarrow> refresh_error + unit" where
  "check_index p hashes =
     (case read_json (case dict_get (pk_files p) index_meta of Some d \<Rightarrow> d | None \<Rightarrow> []) of
        None \<Rightarrow> refuse Bad_index_meta
      | Some meta \<Rightarrow>
          require (case jget meta ''parquet_sha256'' of
                     JStr h \<Rightarrow> is_sha256 h \<and> dict_get hashes index_parquet = Some h
                   | _ \<Rightarrow> False) Parquet_mismatch)"

definition generation_files :: "pack \<Rightarrow> string list" where
  "generation_files p = filter (\<lambda>f. path_name f \<noteq> ''generation.json'') (dict_keys (pk_files p))"

definition approved_source_ids :: "string list" where
  "approved_source_ids =
     [''martj42-international-results'', ''openfootball-worldcup-json'', ''openfootball-football-json'',
      ''openfootball-england'', ''openfootball-deutschland'', ''openfootball-espana'', ''openfootball-italy'',
      ''openfootball-europe'']"

text \<open>\<open>Path("raw") / source_id / ref / relative\<close>; an absolute part would discard what precedes it.\<close>

definition raw_path :: "string \<Rightarrow> string \<Rightarrow> string \<Rightarrow> string" where
  "raw_path source ref relative =
     (if is_absolute ref then CHR ''/'' # as_posix (path_parts ref @ path_parts relative)
      else as_posix (''raw'' # path_parts source @ path_parts ref @ path_parts relative))"

definition check_receipt :: "pack \<Rightarrow> string list \<Rightarrow> string \<Rightarrow> string \<Rightarrow> json \<Rightarrow> refresh_error + unit" where
  "check_receipt p declared source ref receipt =
     bindE (require (is_obj receipt) Bad_receipt) (\<lambda>_.
       let relative = text_get receipt ''path''; f = raw_path source ref relative in
       bindE (require (\<not> is_absolute relative \<and> ''..'' \<notin> set (path_parts relative)) Unsafe_receipt) (\<lambda>_.
       bindE (require (f \<in> set declared) Receipt_undeclared) (\<lambda>_.
         require (jget receipt ''sha256'' = JStr (sha256_hex (case dict_get (pk_files p) f of Some d \<Rightarrow> d | None \<Rightarrow> [])))
           Receipt_mismatch)))"

definition check_snapshot :: "pack \<Rightarrow> string list \<Rightarrow> json \<Rightarrow> refresh_error + unit" where
  "check_snapshot p declared snapshot =
     bindE (require (is_obj snapshot \<and> jget snapshot ''schema_version'' = JStr ''0.1.0'') Bad_snapshot) (\<lambda>_.
       (case jget snapshot ''source_id'' of
          JArr _ \<Rightarrow> Inl Unhashable
        | JObj _ \<Rightarrow> Inl Unhashable
        | JStr source \<Rightarrow>
            (case jget snapshot ''upstream_ref'' of
               JStr ref \<Rightarrow>
                 bindE (require (source \<in> set approved_source_ids \<and> code_points ref = 40) Unapproved_snapshot) (\<lambda>_.
                   (case jget snapshot ''files'' of
                      JArr files \<Rightarrow>
                        bindE (require (jget snapshot ''license'' = JStr ''CC0-1.0'') License_contract) (\<lambda>_.
                        bindE (mapE (check_receipt p declared source ref) files) (\<lambda>_. Inr ()))
                    | _ \<Rightarrow> refuse License_contract))
             | _ \<Rightarrow> refuse Unapproved_snapshot)
        | _ \<Rightarrow> refuse Unapproved_snapshot))"

definition verify_generation :: "string \<Rightarrow> pack option \<Rightarrow> refresh_error + json" where
  "verify_generation g dir =
     (case dir of
        None \<Rightarrow> refuse Bad_manifest
      | Some p \<Rightarrow>
          (case dict_get (pk_files p) ''generation.json'' of
             None \<Rightarrow> refuse Bad_manifest
           | Some data \<Rightarrow>
               (case read_json data of
                  None \<Rightarrow> refuse Bad_manifest
                | Some m \<Rightarrow>
                    bindE (require (is_obj m \<and> jget m ''schema_version'' = JStr generation_schema_version) Unsupported_schema) (\<lambda>_.
                    bindE (require (jget m ''generation_id'' = JStr (path_name g)) Id_mismatch) (\<lambda>_.
                      (case jget m ''artifacts'' of
                         JArr entries \<Rightarrow>
                           bindE (require (entries \<noteq> []) No_artifacts) (\<lambda>_.
                           bindE (mapE (check_artifact p) entries) (\<lambda>hashes.
                           let declared = map fst hashes in
                           bindE (require ({index_parquet, index_meta} \<subseteq> set declared) Index_missing) (\<lambda>_.
                           bindE (check_index p hashes) (\<lambda>_.
                           bindE (require (set (generation_files p) = set declared) Declaration_mismatch) (\<lambda>_.
                             (case jget m ''source_snapshots'' of
                                JArr snapshots \<Rightarrow>
                                  bindE (require (2 \<le> length snapshots) Too_few_snapshots) (\<lambda>_.
                                  bindE (mapE (check_snapshot p declared) snapshots) (\<lambda>_. Inr m))
                              | _ \<Rightarrow> refuse Too_few_snapshots))))))
                       | _ \<Rightarrow> refuse No_artifacts))))))"

definition verified :: "refresh_root \<Rightarrow> string \<Rightarrow> refresh_error + json" where
  "verified r g = bindE (generation_dir r g) (verify_generation g)"

section \<open>The active generation\<close>

text \<open>One candidate of the pointer: \<open>Inr True\<close> when it verifies, \<open>Inr False\<close> when the next is tried.\<close>

definition usable :: "refresh_root \<Rightarrow> json \<Rightarrow> unit + string option" where
  "usable r candidate =
     (case candidate of
        JStr g \<Rightarrow>
          (case verified r g of
             Inr _ \<Rightarrow> Inr (Some g) | Inl (Value_error _) \<Rightarrow> Inr None | Inl Unhashable \<Rightarrow> Inl ())
      | _ \<Rightarrow> Inr None)"

definition active_generation :: "refresh_root \<Rightarrow> unit + (string option \<times> bool)" where
  "active_generation r =
     (case load_pointer r of
        None \<Rightarrow> Inr (None, False)
      | Some pointer \<Rightarrow>
          bindE (usable r (jget pointer ''active_generation_id'')) (\<lambda>a.
            case a of
              Some g \<Rightarrow> Inr (Some g, False)
            | None \<Rightarrow>
                bindE (usable r (jget pointer ''previous_generation_id'')) (\<lambda>b.
                  case b of Some g \<Rightarrow> Inr (Some g, True) | None \<Rightarrow> Inr (None, False))))"

text \<open>A directory below a generation: its files by their path from there.\<close>

definition sub_pack :: "string \<Rightarrow> pack \<Rightarrow> pack" where
  "sub_pack d p =
     \<lparr> pk_files = map (\<lambda>(f, x). (drop (Suc (length d)) f, x)) (filter (\<lambda>(f, x). starts_with (d @ ''/'') f) (pk_files p)),
       pk_links = map (drop (Suc (length d))) (filter (starts_with (d @ ''/'')) (pk_links p)) \<rparr>"

definition active_tree :: "refresh_root \<Rightarrow> unit + pack option" where
  "active_tree r =
     bindE (active_generation r) (\<lambda>(g, fallback). Inr (case g of None \<Rightarrow> None | Some i \<Rightarrow> dict_get (rr_generations r) i))"

definition active_pack_dir :: "refresh_root \<Rightarrow> unit + pack option" where
  "active_pack_dir r =
     bindE (active_tree r) (\<lambda>t.
       Inr (case t of
              None \<Rightarrow> None
            | Some p \<Rightarrow>
                let q = sub_pack ''packs/internationals'' p in
                if ''manifest.json'' \<in> set (dict_keys (pk_files q)) then Some q else None))"

text \<open>
  The club packs in the order the directory is read; a manifest that is not JSON is skipped, one
  that is no object raises.
\<close>

fun find_club :: "string \<Rightarrow> pack \<Rightarrow> string list \<Rightarrow> unit + pack option" where
  "find_club competition p [] = Inr None"
| "find_club competition p (code # codes) =
     (let q = sub_pack (''packs/clubs/'' @ code) p in
      case dict_get (pk_files q) ''manifest.json'' of
        None \<Rightarrow> find_club competition p codes
      | Some data \<Rightarrow>
          (case read_json data of
             None \<Rightarrow> find_club competition p codes
           | Some m \<Rightarrow>
               if \<not> is_obj m then Inl ()
               else if jget m ''competition'' = JStr competition then Inr (Some q) else find_club competition p codes))"

definition club_codes :: "pack \<Rightarrow> string list" where
  "club_codes p =
     concat (map (\<lambda>f. case path_parts f of [_, _, code, _] \<Rightarrow> if f = ''packs/clubs/'' @ code @ ''/manifest.json'' then [code] else [] | _ \<Rightarrow> [])
       (dict_keys (pk_files p)))"

definition active_club_pack_dir :: "string \<Rightarrow> refresh_root \<Rightarrow> unit + pack option" where
  "active_club_pack_dir competition r =
     bindE (active_tree r) (\<lambda>t. case t of None \<Rightarrow> Inr None | Some p \<Rightarrow> find_club competition p (club_codes p))"

section \<open>Installing and activating\<close>

text \<open>
  An existing directory is verified and kept, and the staged one dropped; else the staged one is
  moved, and verified where it is now.
\<close>

definition install_generation :: "string \<Rightarrow> string \<Rightarrow> refresh_root \<Rightarrow> (refresh_error + string) \<times> refresh_root" where
  "install_generation staged g r =
     (case generation_dir r g of
        Inl e \<Rightarrow> (Inl e, r)
      | Inr (Some p) \<Rightarrow>
          (case verify_generation g (Some p) of
             Inl e \<Rightarrow> (Inl e, r)
           | Inr _ \<Rightarrow> (Inr g, r\<lparr> rr_staging := dict_pop staged (rr_staging r) \<rparr>))
      | Inr None \<Rightarrow>
          (case dict_get (rr_staging r) staged of
             None \<Rightarrow> (refuse No_staging, r)
           | Some p \<Rightarrow>
               let r' = r\<lparr> rr_staging := dict_pop staged (rr_staging r), rr_generations := dict_set g p (rr_generations r) \<rparr> in
               (case verify_generation g (Some p) of Inl e \<Rightarrow> (Inl e, r') | Inr _ \<Rightarrow> (Inr g, r'))))"

definition activation_pointer :: "json \<Rightarrow> string \<Rightarrow> string \<Rightarrow> json" where
  "activation_pointer current g activated_at =
     JObj [(''schema_version'', JStr state_schema_version), (''active_generation_id'', JStr g),
           (''previous_generation_id'',
              case jget current ''active_generation_id'' of
                JStr a \<Rightarrow> if a \<noteq> g then JStr a else jget current ''previous_generation_id''
              | _ \<Rightarrow> jget current ''previous_generation_id''),
           (''activated_at_utc'', JStr activated_at)]"

definition current_pointer :: "refresh_root \<Rightarrow> json" where
  "current_pointer r = (case load_pointer r of None \<Rightarrow> JObj [] | Some p \<Rightarrow> p)"

definition activate_generation :: "string \<Rightarrow> string \<Rightarrow> refresh_root \<Rightarrow> (refresh_error + json) \<times> refresh_root" where
  "activate_generation g activated_at r =
     (case verified r g of
        Inl e \<Rightarrow> (Inl e, r)
      | Inr _ \<Rightarrow>
          let pointer = activation_pointer (current_pointer r) g activated_at in
          (Inr pointer, r\<lparr> rr_pointer := Some pointer \<rparr>))"

definition rollback_pointer :: "json \<Rightarrow> string \<Rightarrow> string \<Rightarrow> json" where
  "rollback_pointer current previous activated_at =
     JObj [(''schema_version'', JStr state_schema_version), (''active_generation_id'', JStr previous),
           (''previous_generation_id'', case jget current ''active_generation_id'' of JStr a \<Rightarrow> JStr a | _ \<Rightarrow> JNull),
           (''activated_at_utc'', JStr activated_at), (''rollback'', JBool True)]"

definition rollback :: "string \<Rightarrow> refresh_root \<Rightarrow> (refresh_error + json) \<times> refresh_root" where
  "rollback activated_at r =
     (case jget (current_pointer r) ''previous_generation_id'' of
        JStr previous \<Rightarrow>
          (case verified r previous of
             Inl e \<Rightarrow> (Inl e, r)
           | Inr _ \<Rightarrow>
               let pointer = rollback_pointer (current_pointer r) previous activated_at in
               (Inr pointer, r\<lparr> rr_pointer := Some pointer \<rparr>))
      | _ \<Rightarrow> (refuse No_previous, r))"

text \<open>
  \<open>clean_staging\<close> of a path given by its parts, all of them from the file system's root on.  The check
  compares the parts as they are written; what is removed is the directory the path leads to.
  \<open>leads\<close> is the file system's answer to that: the parts of the directory reached through every \<open>..\<close>
  and every link, \<open>None\<close> when there is none or the path is itself a link, which \<open>rmtree\<close> refuses.
\<close>

definition remove_below :: "string list \<Rightarrow> pack \<Rightarrow> pack" where
  "remove_below parts p =
     (let gone = (\<lambda>f. starts_with parts (path_parts f)) in
      p\<lparr> pk_files := filter (\<lambda>(f, x). \<not> gone f) (pk_files p), pk_links := filter (\<lambda>f. \<not> gone f) (pk_links p) \<rparr>)"

definition remove_in :: "string \<Rightarrow> string list \<Rightarrow> (string, pack) dict \<Rightarrow> (string, pack) dict" where
  "remove_in name parts d =
     (if parts = [] then dict_pop name d
      else (case dict_get d name of None \<Rightarrow> d | Some p \<Rightarrow> dict_set name (remove_below parts p) d))"

text \<open>What is left of the refresh directory \<open>home\<close> when the tree at \<open>target\<close> is removed.\<close>

definition remove_tree :: "string list \<Rightarrow> string list \<Rightarrow> refresh_root \<Rightarrow> refresh_root" where
  "remove_tree home target r =
     (if starts_with target home then \<lparr> rr_state = None, rr_pointer = None, rr_generations = [], rr_staging = [] \<rparr>
      else if \<not> starts_with home target then r
      else (case drop (length home) target of
              [] \<Rightarrow> r
            | [d] \<Rightarrow>
                if d = ''staging'' then r\<lparr> rr_staging := [] \<rparr>
                else if d = ''generations'' then r\<lparr> rr_generations := [] \<rparr> else r
            | d # name # parts \<Rightarrow>
                if d = ''staging'' then r\<lparr> rr_staging := remove_in name parts (rr_staging r) \<rparr>
                else if d = ''generations'' then r\<lparr> rr_generations := remove_in name parts (rr_generations r) \<rparr> else r))"

definition clean_staging ::
  "(string list \<Rightarrow> string list option) \<Rightarrow> string list \<Rightarrow> string list \<Rightarrow> refresh_root \<Rightarrow> (refresh_error + unit) \<times> refresh_root" where
  "clean_staging leads home path r =
     (if \<not> starts_with (home @ [''staging'']) path then (refuse Outside_staging, r)
      else (Inr (), case leads path of None \<Rightarrow> r | Some target \<Rightarrow> remove_tree home target r))"

end
