(* ===== verification/Refresh_State_Laws.thy ===== *)
theory Refresh_State_Laws
  imports Refresh_State
begin

text \<open>
  What refreshed data guarantees: a verified generation is pinned by its manifest, the active
  pointer never names a generation that does not verify, activations are undone by a rollback, and
  a damaged active generation falls back to the one before it.
\<close>

section \<open>A verified generation\<close>

lemma check_artifact_Inr:
  assumes "check_artifact p e = Inr (f, h)"
  shows "\<exists>d. dict_get (pk_files p) f = Some d \<and> h = sha256_hex d \<and> f \<notin> set (pk_links p)
       \<and> f = as_posix (path_parts (text_get e ''path'')) \<and> h = text_get e ''sha256''"
  using assms by (auto simp: check_artifact_def plain_file_def bindE_Inr Let_def split: option.splits if_splits)

lemma array_case:
  "(case v of JArr vs \<Rightarrow> f vs | _ \<Rightarrow> Inl e) = Inr y \<longleftrightarrow> (\<exists>vs. v = JArr vs \<and> f vs = Inr y)"
  by (cases v) simp_all

lemma verify_Inr:
  assumes "verify_generation g dir = Inr m"
  shows "\<exists>p d entries hashes. dir = Some p \<and> dict_get (pk_files p) ''generation.json'' = Some d \<and> read_json d = Some m
       \<and> jget m ''artifacts'' = JArr entries \<and> mapE (check_artifact p) entries = Inr hashes
       \<and> {index_parquet, index_meta} \<subseteq> set (map fst hashes) \<and> set (generation_files p) = set (map fst hashes)"
  using assms
  by (auto simp: verify_generation_def bindE_Inr Let_def array_case split: option.splits)

lemma declared_file:
  assumes "mapE (check_artifact p) es = Inr hashes" "f \<in> set (map fst hashes)"
  shows "\<exists>e \<in> set es. \<exists>d. check_artifact p e = Inr (f, sha256_hex d) \<and> dict_get (pk_files p) f = Some d"
proof -
  obtain i where i: "i < length hashes" "fst (hashes ! i) = f" using assms(2) by (auto simp: in_set_conv_nth)
  then have "es ! i \<in> set es" "check_artifact p (es ! i) = Inr (f, snd (hashes ! i))"
    using assms(1) by (auto simp: mapE_Inr list_all2_conv_all_nth)
  then obtain e h where e: "e \<in> set es" "check_artifact p e = Inr (f, h)" by blast
  then show ?thesis using check_artifact_Inr[OF e(2)] by blast
qed

text \<open>
  The manifest pins a generation.  Two directories that verify and hold the same manifest bytes
  hold the same files with the same bytes at every path not named \<open>generation.json\<close>, unless two
  files at one path are a SHA-256 collision.
\<close>

theorem manifest_pins_generation:
  assumes "verify_generation g (Some p) = Inr m" "verify_generation g' (Some q) = Inr n"
    and "dict_get (pk_files p) ''generation.json'' = dict_get (pk_files q) ''generation.json''"
    and "path_name f \<noteq> ''generation.json''"
  shows "dict_get (pk_files p) f = dict_get (pk_files q) f
       \<or> (\<exists>h a b. dict_get (pk_files p) h = Some a \<and> dict_get (pk_files q) h = Some b \<and> collision a b)"
proof (rule disjCI)
  assume nc: "\<not> (\<exists>h a b. dict_get (pk_files p) h = Some a \<and> dict_get (pk_files q) h = Some b \<and> collision a b)"
  obtain d es hs where p: "dict_get (pk_files p) ''generation.json'' = Some d" "read_json d = Some m"
      "jget m ''artifacts'' = JArr es" "mapE (check_artifact p) es = Inr hs" "set (generation_files p) = set (map fst hs)"
    using verify_Inr[OF assms(1)] by auto
  obtain d' es' hs' where q: "dict_get (pk_files q) ''generation.json'' = Some d'" "read_json d' = Some n"
      "jget n ''artifacts'' = JArr es'" "mapE (check_artifact q) es' = Inr hs'" "set (generation_files q) = set (map fst hs')"
    using verify_Inr[OF assms(2)] by auto
  have same: "es' = es" using p(1-3) q(1-3) assms(3) by simp
  have pair: "\<exists>a b. dict_get (pk_files s) h = Some a \<and> dict_get (pk_files t) h = Some b \<and> sha256_hex a = sha256_hex b"
    if s: "mapE (check_artifact s) es = Inr ks" and t: "mapE (check_artifact t) es = Inr ls" and h: "h \<in> set (map fst ks)"
    for s t ks ls h
  proof -
    obtain e a where e: "e \<in> set es" "check_artifact s e = Inr (h, sha256_hex a)" "dict_get (pk_files s) h = Some a"
      using declared_file[OF s h] by blast
    obtain i where i: "i < length es" "es ! i = e" using e(1) by (auto simp: in_set_conv_nth)
    then have "check_artifact t e = Inr (ls ! i)" using t by (auto simp: mapE_Inr list_all2_conv_all_nth)
    then obtain k l where l: "check_artifact t e = Inr (k, l)" by (cases "ls ! i") auto
    obtain b where "dict_get (pk_files t) k = Some b" "l = sha256_hex b"
        "k = as_posix (path_parts (text_get e ''path''))" "l = text_get e ''sha256''"
      using check_artifact_Inr[OF l] by blast
    moreover have "h = as_posix (path_parts (text_get e ''path''))" "sha256_hex a = text_get e ''sha256''"
      using check_artifact_Inr[OF e(2)] by blast+
    ultimately show ?thesis using e(3) by auto
  qed
  show "dict_get (pk_files p) f = dict_get (pk_files q) f"
  proof (cases "f \<in> set (generation_files p) \<union> set (generation_files q)")
    case True
    then have "f \<in> set (map fst hs) \<or> f \<in> set (map fst hs')" unfolding p(5) q(5) by blast
    then obtain a b where ab: "dict_get (pk_files p) f = Some a" "dict_get (pk_files q) f = Some b" "sha256_hex a = sha256_hex b"
      using pair[OF p(4) q(4)[unfolded same], of f] pair[OF q(4)[unfolded same] p(4), of f] by metis
    have "a = b" using nc ab by (auto simp: sha256_eq)
    then show ?thesis using ab by simp
  next
    case False
    then have "f \<notin> set (dict_keys (pk_files p))" "f \<notin> set (dict_keys (pk_files q))"
      using assms(4) by (auto simp: generation_files_def)
    then have "dict_get (pk_files p) f = None" "dict_get (pk_files q) f = None" by (simp_all add: map_of_eq_None_iff)
    then show ?thesis by simp
  qed
qed

section \<open>The pointer\<close>

definition names_verified :: "refresh_root \<Rightarrow> json \<Rightarrow> bool" where
  "names_verified r v \<longleftrightarrow> (\<exists>g m. v = JStr g \<and> verified r g = Inr m)"

text \<open>An active generation that verifies, and before it none or one that does.\<close>

definition pointer_ok :: "refresh_root \<Rightarrow> bool" where
  "pointer_ok r \<longleftrightarrow>
     (case rr_pointer r of
        None \<Rightarrow> True
      | Some p \<Rightarrow> is_obj p \<and> names_verified r (jget p ''active_generation_id'')
          \<and> (jget p ''previous_generation_id'' = JNull \<or> names_verified r (jget p ''previous_generation_id'')))"

lemma verified_present: "verified r g = Inr m \<Longrightarrow> \<exists>p. dict_get (rr_generations r) g = Some p \<and> valid_generation_id g"
  by (auto simp: verified_def bindE_Inr generation_dir_def verify_generation_def split: if_splits option.splits)

lemma verified_keeps:
  assumes "verified r g = Inr m" "\<And>i p. dict_get (rr_generations r) i = Some p \<Longrightarrow> dict_get (rr_generations s) i = Some p"
  shows "verified s g = Inr m"
proof -
  obtain p where p: "dict_get (rr_generations r) g = Some p" "valid_generation_id g" using verified_present[OF assms(1)] by blast
  then show ?thesis using assms(1) assms(2)[OF p(1)] by (simp add: verified_def generation_dir_def)
qed

text \<open>What a run may do to the root: build and clean staging, install, activate, roll back, save.\<close>

datatype refresh_call =
    Stage string pack | Clean "string list \<Rightarrow> string list option" "string list" "string list" | Install string string | Activate string string
  | Roll_back string | Save json

fun exec_refresh :: "refresh_call \<Rightarrow> refresh_root \<Rightarrow> refresh_root" where
  "exec_refresh (Stage s p) r = r\<lparr> rr_staging := dict_set s p (rr_staging r) \<rparr>"
| "exec_refresh (Clean leads home path) r = snd (clean_staging leads home path r)"
| "exec_refresh (Install s g) r = snd (install_generation s g r)"
| "exec_refresh (Activate g t) r = snd (activate_generation g t r)"
| "exec_refresh (Roll_back t) r = snd (rollback t r)"
| "exec_refresh (Save v) r = save_state v r"

definition grows :: "refresh_root \<Rightarrow> refresh_root \<Rightarrow> bool" where
  "grows r s \<longleftrightarrow> (\<forall>i p. dict_get (rr_generations r) i = Some p \<longrightarrow> dict_get (rr_generations s) i = Some p)
     \<and> (rr_pointer r \<noteq> None \<longrightarrow> rr_pointer s \<noteq> None)"

text \<open>
  The directories the jobs clean, \<open>staging_dir() / job_id\<close>, are where their paths say: the paths go
  through no \<open>..\<close> and no link.
\<close>

fun plain_clean :: "refresh_call \<Rightarrow> bool" where
  "plain_clean (Clean leads home path) = (leads path \<in> {None, Some path})"
| "plain_clean c = True"

lemma clean_staging_keeps:
  assumes "leads path \<in> {None, Some path}"
  shows "rr_generations (snd (clean_staging leads home path r)) = rr_generations r
    \<and> rr_pointer (snd (clean_staging leads home path r)) = rr_pointer r"
proof (cases "starts_with (home @ [''staging'']) path")
  case True
  then obtain rest where path: "path = home @ ''staging'' # rest"
    by (metis append.assoc append_Cons append_Nil append_take_drop_id starts_with_def)
  then have "\<not> starts_with path home" by (simp add: starts_with_def)
  then have "rr_generations (remove_tree home path r) = rr_generations r \<and> rr_pointer (remove_tree home path r) = rr_pointer r"
    by (auto simp: path remove_tree_def split: list.splits)
  then show ?thesis using assms True by (auto simp: clean_staging_def)
qed (simp add: clean_staging_def)

text \<open>
  Without that the check protects nothing: a path that leaves the staging directory again passes it
  and removes an installed generation.
\<close>

lemma cleaning_reaches_generations:
  assumes "leads (home @ [''staging'', ''..'', ''generations'', g]) = Some (home @ [''generations'', g])"
  shows "clean_staging leads home (home @ [''staging'', ''..'', ''generations'', g]) r
    = (Inr (), r\<lparr> rr_generations := dict_pop g (rr_generations r) \<rparr>)"
proof -
  have "\<not> starts_with (home @ [''generations'', g]) home" by (simp add: starts_with_def)
  moreover have "starts_with (home @ [''staging'']) (home @ [''staging'', ''..'', ''generations'', g])"
      "starts_with home (home @ [''generations'', g])"
    by (simp_all add: starts_with_def)
  ultimately show ?thesis using assms by (simp add: clean_staging_def remove_tree_def remove_in_def)
qed

lemma install_grows:
  "rr_pointer (snd (install_generation s g r)) = rr_pointer r"
  "dict_get (rr_generations r) i = Some p \<Longrightarrow> dict_get (rr_generations (snd (install_generation s g r))) i = Some p"
  by (auto simp: install_generation_def generation_dir_def Let_def split: sum.splits option.splits if_splits)

lemma refresh_grows: "plain_clean c \<Longrightarrow> grows r (exec_refresh c r)"
  by (cases c)
    (auto simp: grows_def clean_staging_keeps install_grows save_state_def activate_generation_def rollback_def Let_def
      split: sum.splits json.splits)

lemma names_grow: "grows r s \<Longrightarrow> names_verified r v \<Longrightarrow> names_verified s v"
  unfolding names_verified_def grows_def using verified_keeps by metis

lemma pointer_same:
  assumes "pointer_ok r" "grows r s" "rr_pointer s = rr_pointer r"
  shows "pointer_ok s"
  using assms names_grow[OF assms(2)] by (auto simp: pointer_ok_def split: option.splits)

lemma pointer_written:
  assumes "rr_generations s = rr_generations r" "rr_pointer s = Some p" "is_obj p"
    and "names_verified r (jget p ''active_generation_id'')"
    and "jget p ''previous_generation_id'' = JNull \<or> names_verified r (jget p ''previous_generation_id'')"
  shows "pointer_ok s"
proof -
  have "verified s = verified r" using assms(1) by (auto simp: verified_def generation_dir_def)
  then show ?thesis using assms(2-5) by (simp add: pointer_ok_def names_verified_def)
qed

lemma pointer_current:
  assumes "pointer_ok r"
  shows "jget (current_pointer r) ''active_generation_id'' = JNull \<or> names_verified r (jget (current_pointer r) ''active_generation_id'')"
    and "jget (current_pointer r) ''previous_generation_id'' = JNull \<or> names_verified r (jget (current_pointer r) ''previous_generation_id'')"
  using assms by (auto simp: pointer_ok_def current_pointer_def load_pointer_def jget_obj split: option.splits)

lemma activate_ok:
  assumes "pointer_ok r"
  shows "pointer_ok (snd (activate_generation g t r))"
proof (cases "verified r g")
  case (Inr m)
  let ?p = "activation_pointer (current_pointer r) g t"
  have "names_verified r (JStr g)" using Inr by (auto simp: names_verified_def)
  moreover have "jget ?p ''previous_generation_id'' = JNull \<or> names_verified r (jget ?p ''previous_generation_id'')"
    using pointer_current[OF assms] by (auto simp: activation_pointer_def jget_obj split: json.split)
  ultimately show ?thesis
    using Inr by (simp add: activate_generation_def Let_def) (rule pointer_written[where p = ?p], simp_all add: activation_pointer_def jget_obj)
next
  case (Inl e)
  then show ?thesis using assms by (simp add: activate_generation_def)
qed

lemma rollback_ok:
  assumes "pointer_ok r"
  shows "pointer_ok (snd (rollback t r))"
proof (cases "rr_pointer (snd (rollback t r)) = rr_pointer r")
  case True
  then show ?thesis using pointer_same[OF assms refresh_grows[of "Roll_back t" r]] by simp
next
  case False
  then obtain b m where b: "jget (current_pointer r) ''previous_generation_id'' = JStr b" "verified r b = Inr m"
    by (auto simp: rollback_def Let_def split: json.splits sum.splits)
  let ?p = "rollback_pointer (current_pointer r) b t"
  have "names_verified r (JStr b)" using b by (auto simp: names_verified_def)
  moreover have "jget ?p ''previous_generation_id'' = JNull \<or> names_verified r (jget ?p ''previous_generation_id'')"
    using pointer_current(1)[OF assms] by (auto simp: rollback_pointer_def jget_obj split: json.split)
  ultimately show ?thesis
    using b by (simp add: rollback_def Let_def) (rule pointer_written[where p = ?p], simp_all add: rollback_pointer_def jget_obj)
qed

lemma refresh_keeps_pointer:
  assumes "pointer_ok r" "plain_clean c"
  shows "pointer_ok (exec_refresh c r)"
proof -
  consider (Moves) g t where "c = Activate g t" | (Back) t where "c = Roll_back t" | (Same) "rr_pointer (exec_refresh c r) = rr_pointer r"
    using assms(2) by (cases c) (auto simp: clean_staging_keeps install_grows save_state_def)
  then show ?thesis
  proof cases
    case Same
    then show ?thesis using pointer_same[OF assms(1) refresh_grows[OF assms(2)]] by simp
  qed (use activate_ok[OF assms(1)] rollback_ok[OF assms(1)] in simp_all)
qed

interpretation refresh: growing_machine exec_refresh pointer_ok plain_clean grows
  by unfold_locales (auto simp: refresh_keeps_pointer refresh_grows, auto simp: grows_def)

lemma active_ok:
  assumes "pointer_ok r" "rr_pointer r = Some p"
  shows "\<exists>g. jget p ''active_generation_id'' = JStr g \<and> active_generation r = Inr (Some g, False)"
  using assms
  by (auto simp: pointer_ok_def names_verified_def active_generation_def load_pointer_def usable_def)

text \<open>
  C8: activated data is never lost.  After any run of staging, installs, activations, rollbacks,
  saves and cleaning of directories that are where their paths in staging say, from an empty root, a
  pointer that was once written names a generation that verifies, so no reader ever falls back; and
  every directory installed by then is, byte for byte, what it was.
\<close>

theorem refresh_never_loses_data:
  assumes "r = fold exec_refresh cs \<lparr> rr_state = st, rr_pointer = None, rr_generations = [], rr_staging = [] \<rparr>"
    and "rr_pointer r = Some p" and "s = fold exec_refresh ds r"
    and "list_all plain_clean cs" "list_all plain_clean ds"
  shows "(\<exists>g. active_generation s = Inr (Some g, False) \<and> dict_get (rr_generations s) g \<noteq> None)
       \<and> (\<exists>q. rr_pointer s = Some q)
       \<and> map_le (dict_get (rr_generations r)) (dict_get (rr_generations s))"
proof -
  have r: "pointer_ok r" unfolding assms(1) by (rule refresh.inv_run[OF assms(4)]) (simp add: pointer_ok_def)
  have s: "pointer_ok s" unfolding assms(3) by (rule refresh.inv_run[OF assms(5) r])
  have k: "grows r s" unfolding assms(3) by (rule refresh.keeps_run[OF assms(5) r])
  then obtain q where q: "rr_pointer s = Some q" using assms(2) by (auto simp: grows_def)
  from active_ok[OF s q] obtain g where g: "jget q ''active_generation_id'' = JStr g" "active_generation s = Inr (Some g, False)"
    by blast
  have "names_verified s (JStr g)" using s q g(1) by (simp add: pointer_ok_def)
  then have "dict_get (rr_generations s) g \<noteq> None" using verified_present by (auto simp: names_verified_def)
  moreover have "map_le (dict_get (rr_generations r)) (dict_get (rr_generations s))"
    using k by (auto simp: grows_def map_le_def)
  ultimately show ?thesis using g(2) q by blast
qed

text \<open>
  A rollback undoes an activation.  Activating another generation and rolling back leaves the
  one that was active before active again, with the new one in reserve; rolling back once more
  returns to it.
\<close>

theorem rollback_undoes_activation:
  assumes "pointer_ok r" "active_generation r = Inr (Some a, False)" "g \<noteq> a"
    and "activate_generation g t r = (Inr pointer, s)"
  shows "active_generation s = Inr (Some g, False)
       \<and> active_generation (snd (rollback u s)) = Inr (Some a, False)
       \<and> active_generation (snd (rollback v (snd (rollback u s)))) = Inr (Some g, False)"
proof -
  obtain p where p: "rr_pointer r = Some p" "is_obj p" "jget p ''active_generation_id'' = JStr a"
  proof (cases "rr_pointer r")
    case None
    then show ?thesis using assms(2) by (simp add: active_generation_def load_pointer_def)
  next
    case (Some q)
    then show ?thesis using active_ok[OF assms(1) Some] assms(1,2) that by (auto simp: pointer_ok_def)
  qed
  obtain m where m: "verified r g = Inr m" using assms(4) by (auto simp: activate_generation_def split: sum.splits)
  obtain n where n: "verified r a = Inr n" using assms(1) p by (auto simp: pointer_ok_def names_verified_def)
  have cur: "current_pointer r = p" using p by (simp add: current_pointer_def load_pointer_def)
  have s: "s = r\<lparr> rr_pointer := Some (activation_pointer p g t) \<rparr>"
    using assms(4) m by (auto simp: activate_generation_def Let_def cur)
  have ver: "verified (r\<lparr> rr_pointer := x \<rparr>) = verified r" for x by (rule ext) (simp add: verified_def generation_dir_def)
  have act: "jget (activation_pointer p g t) ''active_generation_id'' = JStr g"
      "jget (activation_pointer p g t) ''previous_generation_id'' = JStr a" "is_obj (activation_pointer p g t)"
    using p(3) assms(3) by (simp_all add: activation_pointer_def jget_obj)
  have step: "snd (rollback w (r\<lparr> rr_pointer := Some q \<rparr>)) = r\<lparr> rr_pointer := Some (rollback_pointer q i w) \<rparr>"
    if "is_obj q" "jget q ''previous_generation_id'' = JStr i" "verified r i = Inr k" for q i k w
    using that by (simp add: rollback_def current_pointer_def load_pointer_def ver Let_def)
  have undone: "snd (rollback u s) = r\<lparr> rr_pointer := Some (rollback_pointer (activation_pointer p g t) a u) \<rparr>"
    unfolding s by (rule step[OF act(3,2) n])
  let ?b = "rollback_pointer (activation_pointer p g t) a u"
  have rb: "jget ?b ''active_generation_id'' = JStr a" "jget ?b ''previous_generation_id'' = JStr g" "is_obj ?b"
    using act by (simp_all add: rollback_pointer_def jget_obj)
  have again: "snd (rollback v (snd (rollback u s))) = r\<lparr> rr_pointer := Some (rollback_pointer ?b g v) \<rparr>"
    unfolding undone by (rule step[OF rb(3,2) m])
  have act': "active_generation (r\<lparr> rr_pointer := Some q \<rparr>) = Inr (Some i, False)"
    if "is_obj q" "jget q ''active_generation_id'' = JStr i" "verified r i = Inr k" for q i k
    using that by (simp add: active_generation_def load_pointer_def usable_def ver)
  have "jget (rollback_pointer ?b g v) ''active_generation_id'' = JStr g" "is_obj (rollback_pointer ?b g v)"
    by (simp_all add: rollback_pointer_def jget_obj)
  then show ?thesis unfolding again unfolding undone unfolding s using act'[OF act(3,1) m] act'[OF rb(3,1) n] act' m by blast
qed

text \<open>
  C35: damage falls back.  Whatever is done to the directory of the active generation, readers keep
  it when it still verifies.  When it is refused with \<open>ValueError\<close> or \<open>OSError\<close> they get the generation
  before it, still verified.  When a snapshot's source id is damaged into a list or an object, reading
  the active generation raises \<open>TypeError\<close> and there is no fallback.
\<close>

theorem damage_falls_back:
  assumes "pointer_ok r" "rr_pointer r = Some p"
    and "jget p ''active_generation_id'' = JStr a" "jget p ''previous_generation_id'' = JStr b" "a \<noteq> b"
    and "s = r\<lparr> rr_generations := dict_set a damaged (rr_generations r) \<rparr>"
  shows "active_generation s =
      (case verified s a of
         Inr _ \<Rightarrow> Inr (Some a, False)
       | Inl (Value_error _) \<Rightarrow> Inr (Some b, True)
       | Inl Unhashable \<Rightarrow> Inl ())
    \<and> (\<exists>m. verified s b = Inr m)"
proof -
  obtain m where m: "verified r b = Inr m" using assms(1,2,4) by (auto simp: pointer_ok_def names_verified_def)
  have vb: "verified s b = Inr m" using m assms(5) by (auto simp: assms(6) verified_def generation_dir_def bindE_Inr split: if_splits)
  have "load_pointer s = Some p" using assms(1,2) by (simp add: assms(6) load_pointer_def pointer_ok_def)
  then show ?thesis
    using vb assms(3,4) by (simp add: active_generation_def usable_def split: sum.split refresh_error.split)
qed

end
