(* ===== verification/Refresh_Receipts.thy ===== *)
theory Refresh_Receipts
  imports Refresh_State "HOL-Library.Product_Lexorder"
begin

text \<open>
  \<open>src/server/golavo_server/refresh_receipts.py\<close>, the append-only history of activations, and the part
  of \<open>refresh_jobs.py\<close> that keeps it honest: a marker in the state file is written before the active
  pointer moves and removed after the receipt is on disk, so that a process that stops in between
  leaves a gap that can be reported.  An activation is written as its steps, to be cut anywhere.

  The comparison of two index tables is a parameter (a parquet file read by pandas): the rows with a
  stable identity, or \<open>None\<close> when the table cannot be read.
\<close>

datatype receipt_error =
    Bad_operation | Truncated_log | Append_failed | Bad_limit | Bad_line | Corrupt_history | Receipt_hash_mismatch
  | Type_escapes

section \<open>Summaries\<close>

text \<open>The manifests summarised are ones the code wrote: where it loops over a list of them, they hold one.\<close>

type_synonym stable_rows = "((string \<times> string), (string \<times> bool)) dict"
type_synonym stable_index = "string \<Rightarrow> (stable_rows \<times> nat) option"

definition certificate_fields :: "string list" where
  "certificate_fields =
     [''expected_teams'', ''observed_teams'', ''expected_matches'', ''observed_matches'', ''unique_ordered_pairs'',
      ''duplicate_ordered_pairs'', ''self_fixtures'', ''incomplete_fixtures'', ''past_result_gaps'',
      ''future_completed_results'', ''complete_fixture_list'']"

definition index_hash :: "json \<Rightarrow> json" where
  "index_hash manifest =
     (case find (\<lambda>e. is_obj e \<and> jget e ''path'' = JStr index_parquet) (arr (jget manifest ''artifacts'')) of
        None \<Rightarrow> JNull
      | Some e \<Rightarrow> (case jget e ''sha256'' of JStr h \<Rightarrow> JStr h | _ \<Rightarrow> JNull))"

definition manifest_for :: "refresh_root \<Rightarrow> json \<Rightarrow> unit + json option" where
  "manifest_for r g =
     (case g of
        JStr i \<Rightarrow>
          if i = [] then Inr None
          else (case verified r i of Inr m \<Rightarrow> Inr (Some m) | Inl (Value_error _) \<Rightarrow> Inr None | Inl Unhashable \<Rightarrow> Inl ())
      | _ \<Rightarrow> Inr None)"

definition source_summary :: "json \<Rightarrow> json" where
  "source_summary v = JObj
     [(''source_id'', jget v ''source_id''), (''upstream_ref'', jget v ''upstream_ref''), (''license'', jget v ''license''),
      (''file_count'', case dict_get (obj_fields v) ''files'' of
          Some (JArr fs) \<Rightarrow> JInt (int (length fs)) | _ \<Rightarrow> JNull)]"

definition source_summaries :: "json \<Rightarrow> json list" where
  "source_summaries manifest =
     sort_key (\<lambda>v. py_text (jget v ''source_id'')) (map source_summary (filter is_obj (arr (jget manifest ''source_snapshots''))))"

definition capability_summary :: "json \<Rightarrow> json" where
  "capability_summary v =
     (let certificate = jget v ''certificate'' in JObj
       [(''source_id'', jget v ''source_id''), (''competition'', jget v ''competition''), (''season'', jget v ''season''),
        (''capability'', jget v ''capability''), (''last_known_good'', JBool (py_truthy (jget v ''last_known_good''))),
        (''schedule_certificate'',
           if is_obj certificate then JObj (map (\<lambda>k. (k, jget certificate k)) certificate_fields) else JNull)])"

definition capability_summaries :: "json \<Rightarrow> json list" where
  "capability_summaries manifest =
     sort_key (\<lambda>v. (py_text (jget v ''source_id''), py_text (jget v ''competition'')))
       (map capability_summary (filter is_obj (arr (jget manifest ''capabilities''))))"

definition count_json :: "'a list \<Rightarrow> json" where
  "count_json xs = JInt (int (length xs))"

definition safe_change_summary :: "stable_index \<Rightarrow> json \<Rightarrow> string \<Rightarrow> json" where
  "safe_change_summary stable_index previous active =
     (case previous of
        JStr p \<Rightarrow>
          (case (stable_index p, stable_index active) of
             (Some (old, old_rest), Some (new, new_rest)) \<Rightarrow>
               let shared = filter (\<lambda>k. k \<in> set (dict_keys new)) (dict_keys old) in
               JObj [(''status'', JStr ''partial_stable_identity''),
                     (''stable_identity_sources'', JArr [JStr ''openfootball-worldcup-json'']),
                     (''stable_identity_counts'', JObj
                        [(''added'', count_json (filter (\<lambda>k. k \<notin> set (dict_keys old)) (dict_keys new))),
                         (''removed'', count_json (filter (\<lambda>k. k \<notin> set (dict_keys new)) (dict_keys old))),
                         (''new_results'', count_json (filter (\<lambda>k. map_option snd (dict_get old k) = Some False
                                                                  \<and> map_option snd (dict_get new k) = Some True) shared)),
                         (''rekeyed'', count_json (filter (\<lambda>k. map_option fst (dict_get old k) \<noteq> map_option fst (dict_get new k)) shared))]),
                     (''unresolved_previous_rows'', JInt (int old_rest)), (''unresolved_active_rows'', JInt (int new_rest)),
                     (''reason'', JStr (''counts cover only source-owned identities proven stable and unique in both indexes; '' @
                        ''unresolved rows are not labeled added or removed''))]
           | _ \<Rightarrow> JObj [(''status'', JStr ''comparison_unavailable''), (''stable_identity_counts'', JNull),
                         (''reason'', JStr ''one verified generation index was unavailable'')])
      | _ \<Rightarrow> JObj [(''status'', JStr ''baseline_unavailable''), (''stable_identity_counts'', JNull),
                    (''reason'', JStr ''no prior generation exists for a rekey-safe comparison'')])"

section \<open>The log\<close>

record application =
  ap_root :: refresh_root
  ap_log :: "string option"

definition receipt_body :: "stable_index \<Rightarrow> string \<Rightarrow> json \<Rightarrow> string \<Rightarrow> json \<Rightarrow> json option \<Rightarrow> string \<Rightarrow> json" where
  "receipt_body stable_index operation previous active manifest previous_manifest occurred =
     JObj [(''schema_version'', JStr ''0.1.0''), (''operation'', JStr operation),
           (''outcome'', JStr (if operation = ''refresh_activation'' then ''activated'' else ''rolled_back'')),
           (''occurred_at_utc'', JStr occurred), (''previous_generation_id'', previous), (''active_generation_id'', JStr active),
           (''previous_index_sha256'', index_hash (case previous_manifest of None \<Rightarrow> JObj [] | Some m \<Rightarrow> m)),
           (''active_index_sha256'', index_hash manifest), (''source_summaries'', JArr (source_summaries manifest)),
           (''capability_summaries'', JArr (capability_summaries manifest)),
           (''change_summary'', safe_change_summary stable_index previous active),
           (''limitations'', JArr
              [JStr ''This is an append-only local application history, not a tamper-proof audit log.'',
               JStr (''Change counts cover only stable unique source identities; unresolved rows are '' @
                 ''reported separately and never guessed through an upstream rekey.'')])]"

definition receipt_digest :: "json \<Rightarrow> string" where
  "receipt_digest body = ''rr_'' @ sha256_hex (dumps body)"

definition atomic_append :: "bool \<Rightarrow> string \<Rightarrow> string option \<Rightarrow> (receipt_error + unit) \<times> string option" where
  "atomic_append disk_ok line history =
     (let existing = (case history of None \<Rightarrow> [] | Some b \<Rightarrow> b) in
      if existing \<noteq> [] \<and> \<not> ends_with [CHR 0x0A] existing then (Inl Truncated_log, history)
      else if \<not> disk_ok then (Inl Append_failed, history)
      else (Inr (), Some (existing @ line)))"

definition append_receipt ::
  "stable_index \<Rightarrow> bool \<Rightarrow> string \<Rightarrow> json \<Rightarrow> string \<Rightarrow> json \<Rightarrow> string \<Rightarrow> application \<Rightarrow> (receipt_error + json) \<times> application" where
  "append_receipt stable_index disk_ok operation previous active manifest occurred a =
     (if operation \<notin> {''refresh_activation'', ''rollback''} then (Inl Bad_operation, a)
      else (case manifest_for (ap_root a) previous of
              Inl _ \<Rightarrow> (Inl Type_escapes, a)
            | Inr pm \<Rightarrow>
                let body = receipt_body stable_index operation previous active manifest pm occurred;
                    receipt = json_set ''receipt_id'' (JStr (receipt_digest body)) body;
                    (result, history) = atomic_append disk_ok (dumps receipt @ [CHR 0x0A]) (ap_log a) in
                (case result of Inl e \<Rightarrow> (Inl e, a) | Inr _ \<Rightarrow> (Inr receipt, a\<lparr> ap_log := history \<rparr>))))"

text \<open>\<open>bytes.splitlines\<close>: line feeds, carriage returns and the pair of both end a line.\<close>

fun byte_lines :: "string \<Rightarrow> string list" where
  "byte_lines [] = []"
| "byte_lines (c # cs) =
     (if c = CHR 0x0A then [] # byte_lines cs
      else if c = CHR 0x0D then [] # (case cs of d # ds \<Rightarrow> if d = CHR 0x0A then byte_lines ds else byte_lines cs | [] \<Rightarrow> [])
      else case byte_lines cs of [] \<Rightarrow> [[c]] | l # ls \<Rightarrow> (c # l) # ls)"

definition read_receipt :: "string \<Rightarrow> receipt_error + json" where
  "read_receipt line =
     (case read_json line of
        None \<Rightarrow> Inl Bad_line
      | Some v \<Rightarrow>
          if \<not> is_obj v then Inl Corrupt_history
          else (case jget v ''receipt_id'' of
                  JStr claimed \<Rightarrow>
                    if \<not> starts_with ''rr_'' claimed then Inl Corrupt_history
                    else if claimed \<noteq> receipt_digest (json_pop ''receipt_id'' v) then Inl Receipt_hash_mismatch else Inr v
                | _ \<Rightarrow> Inl Corrupt_history))"

definition read_log :: "string option \<Rightarrow> receipt_error + (json list \<times> bool)" where
  "read_log history =
     (case history of
        None \<Rightarrow> Inr ([], False)
      | Some raw \<Rightarrow>
          let truncated = (raw \<noteq> [] \<and> \<not> ends_with [CHR 0x0A] raw); found = byte_lines raw in
          bindE (mapE read_receipt (if truncated then butlast found else found)) (\<lambda>items. Inr (items, truncated)))"

definition list_receipts :: "int \<Rightarrow> application \<Rightarrow> receipt_error + (json list \<times> bool)" where
  "list_receipts limit a =
     (if limit < 1 \<or> limit > 100 then Inl Bad_limit
      else bindE (read_log (ap_log a)) (\<lambda>(items, truncated). Inr (take (nat limit) (rev items), truncated)))"

section \<open>The marker\<close>

definition receipt_pending_key :: string where "receipt_pending_key = ''application_receipt_pending''"

definition marker_json :: "string \<Rightarrow> json \<Rightarrow> string \<Rightarrow> string \<Rightarrow> json \<Rightarrow> json" where
  "marker_json operation previous active occurred job_id = JObj
     [(''operation'', JStr operation), (''previous_generation_id'', previous), (''active_generation_id'', JStr active),
      (''occurred_at_utc'', JStr occurred), (''job_id'', job_id), (''error'', JNull)]"

definition mark_receipt_pending :: "json \<Rightarrow> refresh_root \<Rightarrow> refresh_root" where
  "mark_receipt_pending marker r = save_state (json_set receipt_pending_key marker (load_state r)) r"

definition finish_receipt_marker :: "json \<Rightarrow> json \<Rightarrow> refresh_root \<Rightarrow> refresh_root" where
  "finish_receipt_marker marker error r =
     (let state = load_state r; current = jget state receipt_pending_key in
      if \<not> is_obj current
         \<or> list_ex (\<lambda>k. jget current k \<noteq> jget marker k) [''operation'', ''active_generation_id'', ''occurred_at_utc''] then r
      else if error = JNull then save_state (json_pop receipt_pending_key state) r
      else save_state (json_set receipt_pending_key (json_set ''error'' error current) state) r)"

definition marker_targets_active :: "refresh_root \<Rightarrow> json \<Rightarrow> bool" where
  "marker_targets_active r state =
     (let marker = jget state receipt_pending_key in
      case load_pointer r of
        None \<Rightarrow> False
      | Some pointer \<Rightarrow> is_obj marker \<and> jget marker ''active_generation_id'' = jget pointer ''active_generation_id'')"

definition receipt_matches :: "json \<Rightarrow> json \<Rightarrow> bool" where
  "receipt_matches marker receipt \<longleftrightarrow>
     list_all (\<lambda>k. jget receipt k = jget marker k) [''operation'', ''active_generation_id'', ''occurred_at_utc'']"

definition stopped_message :: string where
  "stopped_message = ''the process stopped after the active pointer changed and before receipt append was confirmed''"

definition truncated_message :: string where
  "truncated_message = ''refresh receipt history ended with an incomplete final record''"

text \<open>The gap: the job and the message, or \<open>None\<close>.\<close>

definition application_receipt_gap :: "json list \<Rightarrow> bool \<Rightarrow> refresh_root \<Rightarrow> (json \<times> string) option" where
  "application_receipt_gap receipts truncated r =
     (let state = load_state r; marker = jget state receipt_pending_key in
      if \<not> marker_targets_active r state then (if truncated then Some (JNull, truncated_message) else None)
      else if list_ex (receipt_matches marker) receipts then None
      else Some (jget marker ''job_id'',
                 if py_truthy (jget marker ''error'') then py_text (jget marker ''error'') else stopped_message))"

section \<open>Activations with their receipt\<close>

text \<open>What an activation works with, and the run so far: the state on disk and the error to record.\<close>

record change =
  ch_operation :: string
  ch_previous :: json
  ch_active :: string
  ch_occurred :: string
  ch_job :: json
  ch_manifest :: json

definition change_marker :: "change \<Rightarrow> json" where
  "change_marker c = marker_json (ch_operation c) (ch_previous c) (ch_active c) (ch_occurred c) (ch_job c)"

text \<open>\<open>str(exc)\<close> of an append that failed.\<close>

definition error_text :: "receipt_error \<Rightarrow> string" where
  "error_text e = (case e of Truncated_log \<Rightarrow> ''refresh receipt history has a truncated final line'' | _ \<Rightarrow> ''append failed'')"

definition move_pointer :: "change \<Rightarrow> refresh_root \<Rightarrow> (refresh_error + json) \<times> refresh_root" where
  "move_pointer c r =
     (if ch_operation c = ''rollback'' then rollback (ch_occurred c) r else activate_generation (ch_active c) (ch_occurred c) r)"

text \<open>
  The durable writes of an activation or rollback in order: marker, pointer, receipt, end of marker.
  A refused pointer removes the marker and ends the run.
\<close>

definition change_writes :: "stable_index \<Rightarrow> bool \<Rightarrow> change \<Rightarrow> application \<Rightarrow> application list" where
  "change_writes stable_index disk_ok c a =
     (let marker = change_marker c; marked = a\<lparr> ap_root := mark_receipt_pending marker (ap_root a) \<rparr> in
      case move_pointer c (ap_root marked) of
        (Inl e, r) \<Rightarrow> [marked, marked\<lparr> ap_root := finish_receipt_marker marker JNull r \<rparr>]
      | (Inr pointer, r) \<Rightarrow>
          let moved = marked\<lparr> ap_root := r \<rparr> in
          (case append_receipt stable_index disk_ok (ch_operation c) (jget pointer ''previous_generation_id'') (ch_active c)
                  (ch_manifest c) (ch_occurred c) moved of
             (Inr receipt, appended) \<Rightarrow>
               [marked, moved, appended, appended\<lparr> ap_root := finish_receipt_marker marker JNull (ap_root appended) \<rparr>]
           | (Inl e, appended) \<Rightarrow>
               [marked, moved] @ (if e = Type_escapes then []
                 else [moved\<lparr> ap_root := finish_receipt_marker marker (JStr (error_text e)) (ap_root moved) \<rparr>])))"

text \<open>What the coordinator announces before it activates an installed generation.\<close>

definition activation_change :: "string \<Rightarrow> string \<Rightarrow> json \<Rightarrow> json \<Rightarrow> refresh_root \<Rightarrow> change" where
  "activation_change g occurred job_id manifest r =
     (let current = current_pointer r;
          previous = (case jget current ''active_generation_id'' of
                        JStr a \<Rightarrow> if a \<noteq> g then JStr a else jget current ''previous_generation_id''
                      | _ \<Rightarrow> jget current ''previous_generation_id'') in
      \<lparr> ch_operation = ''refresh_activation'', ch_previous = (case previous of JStr p \<Rightarrow> JStr p | _ \<Rightarrow> JNull),
        ch_active = g, ch_occurred = occurred, ch_job = job_id, ch_manifest = manifest \<rparr>)"

text \<open>And before a rollback, \<open>None\<close> when there is nothing to roll back to.\<close>

definition rollback_change :: "string \<Rightarrow> refresh_root \<Rightarrow> change option" where
  "rollback_change occurred r =
     (case jget (current_pointer r) ''previous_generation_id'' of
        JStr target \<Rightarrow>
          Some \<lparr> ch_operation = ''rollback'',
                 ch_previous = (case jget (current_pointer r) ''active_generation_id'' of JStr a \<Rightarrow> JStr a | _ \<Rightarrow> JNull),
                 ch_active = target, ch_occurred = occurred, ch_job = JNull,
                 ch_manifest = (case verified r target of Inr m \<Rightarrow> m | Inl _ \<Rightarrow> JNull) \<rparr>
      | _ \<Rightarrow> None)"

end
