(* ===== verification/Text_Json.thy ===== *)
theory Text_Json
  imports Csv
begin

text \<open>
  JSON written as one line of UTF-8: what \<open>dumps\<close> prints holds no control character, so no line
  break, and is UTF-8 when the strings of the value are.  Logs of one value a line rest on it.
\<close>

section \<open>Printable text\<close>

definition printable :: "string \<Rightarrow> bool" where
  "printable s \<longleftrightarrow> list_all (\<lambda>c. 32 \<le> (of_char c :: nat)) s"

lemma printable_simps [simp]:
  "printable []" "printable (c # s) \<longleftrightarrow> 32 \<le> (of_char c :: nat) \<and> printable s" "printable (s @ t) \<longleftrightarrow> printable s \<and> printable t"
  by (simp_all add: printable_def)

lemma digit_printable: "is_digit c \<Longrightarrow> 32 \<le> (of_char c :: nat)"
  by (simp add: is_digit_def)

lemma digits_printable: "list_all is_digit s \<Longrightarrow> printable s"
  by (auto simp: printable_def list_all_iff digit_printable)

lemma hex_digit_printable: "d < 16 \<Longrightarrow> 32 \<le> (of_char (hex_digit d) :: nat)"
  by (simp add: hex_digit_def digit_char_def)

lemma esc_char_printable: "printable (esc_char c)"
  by (simp add: esc_char_def Let_def hex_digit_printable)

lemma print_string_printable: "printable (print_string s)"
proof -
  have "printable (concat (map esc_char s))" by (induction s) (simp_all add: esc_char_printable)
  then show ?thesis by (simp add: print_string_def)
qed

lemma print_int_printable: "printable (print_int i)"
  by (simp add: print_int_def digits_printable[OF nat_str_digits])

lemma strip_printable: "printable s \<Longrightarrow> printable (strip_zeros s)"
  by (auto simp: printable_def strip_zeros_def list_all_iff dest: set_dropWhileD)

lemma print_ufloat_printable: "printable (print_ufloat n)"
proof -
  have d: "printable (nat_str k)" "printable (zfill j k)" for j k
    using digits_printable nat_str_digits zfill_digits by blast+
  have "printable (tl (nat_str k))" "32 \<le> (of_char (hd (nat_str k)) :: nat)" for k
    using d(1)[of k] nat_str_nonempty[of k] by (cases "nat_str k"; simp)+
  then show ?thesis
    by (auto simp: print_ufloat_def Let_def d frac_text_def strip_printable)
qed

lemma print_printable:
  "printable (print_json v)" "printable (print_items vs)" "printable (print_members kvs)"
  by (induction v and vs and kvs rule: print_json_print_items_print_members.induct)
    (simp_all add: print_int_printable print_string_printable print_ufloat_printable print_float_def)

lemma dumps_printable: "printable (dumps v)"
  by (simp add: dumps_def print_printable)

lemma printable_no_breaks: "printable s \<Longrightarrow> CHR 0x0A \<notin> set s \<and> CHR 0x0D \<notin> set s"
  by (auto simp: printable_def list_all_iff)

section \<open>UTF-8\<close>

lemma utf8_append: "utf8_text s \<Longrightarrow> utf8_text (s @ t) = utf8_text t"
  by (induction s rule: utf8_text.induct) (auto simp: Let_def split: if_splits list.splits)

definition ascii :: "string \<Rightarrow> bool" where
  "ascii s \<longleftrightarrow> list_all (\<lambda>c. (of_char c :: nat) < 128) s"

lemma ascii_utf8: "ascii s \<Longrightarrow> utf8_text s"
  by (induction s) (simp_all add: ascii_def)

lemma hex_digit_ascii: "d < 16 \<Longrightarrow> (of_char (hex_digit d) :: nat) < 128"
  by (simp add: hex_digit_def digit_char_def)

lemma esc_char_cases: "(of_char c :: nat) < 128 \<Longrightarrow> ascii (esc_char c)" "128 \<le> (of_char c :: nat) \<Longrightarrow> esc_char c = [c]"
  by (simp_all add: esc_char_def Let_def ascii_def hex_digit_ascii)

lemma utf8_escaped: "utf8_text s \<Longrightarrow> utf8_text (concat (map esc_char s))"
proof (induction s rule: utf8_text.induct)
  case (2 c cs)
  show ?case
  proof (cases "(of_char c :: nat) < 128")
    case True
    then show ?thesis using 2 by (simp add: utf8_append[OF ascii_utf8[OF esc_char_cases(1)]])
  next
    case False
    have cont: "is_continuation d \<Longrightarrow> esc_char d = [d]" for d by (rule esc_char_cases(2)) (simp add: is_continuation_def Let_def)
    show ?thesis using 2 False by (auto simp: Let_def cont esc_char_cases(2) split: if_splits list.splits)
  qed
qed simp

text \<open>All strings of a value, keys included.\<close>

function json_texts :: "json \<Rightarrow> string list"
  and item_texts :: "json list \<Rightarrow> string list"
  and member_texts :: "(string, json) dict \<Rightarrow> string list" where
  "json_texts JNull = []"
| "json_texts (JBool b) = []"
| "json_texts (JInt i) = []"
| "json_texts (JFloat n) = []"
| "json_texts (JStr s) = [s]"
| "json_texts (JArr vs) = item_texts vs"
| "json_texts (JObj kvs) = member_texts kvs"
| "item_texts [] = []"
| "item_texts (v # vs) = json_texts v @ item_texts vs"
| "member_texts [] = []"
| "member_texts ((k, v) # kvs) = k # json_texts v @ member_texts kvs"
  by pat_completeness auto
termination
  by (relation "measure json_size") simp_all

definition text_json :: "json \<Rightarrow> bool" where
  "text_json v \<longleftrightarrow> list_all utf8_text (json_texts v)"

lemma utf8_string: "utf8_text s \<Longrightarrow> utf8_text (print_string s)"
  by (simp add: print_string_def utf8_append[OF utf8_escaped])

lemma digits_ascii: "list_all is_digit s \<Longrightarrow> ascii s"
  by (auto simp: ascii_def list_all_iff is_digit_def)

lemma utf8_int: "utf8_text (print_int i)"
  by (simp add: print_int_def ascii_utf8[OF digits_ascii[OF nat_str_digits]])

lemma strip_ascii: "ascii s \<Longrightarrow> ascii (strip_zeros s)"
  by (auto simp: ascii_def strip_zeros_def list_all_iff dest: set_dropWhileD)

lemma ascii_simps [simp]:
  "ascii []" "ascii (c # s) \<longleftrightarrow> (of_char c :: nat) < 128 \<and> ascii s" "ascii (s @ t) \<longleftrightarrow> ascii s \<and> ascii t"
  by (simp_all add: ascii_def)

lemma ascii_float: "ascii (print_float n)"
proof -
  have d: "ascii (nat_str k)" "ascii (zfill j k)" for j k
    using digits_ascii nat_str_digits zfill_digits by blast+
  have "ascii (tl (nat_str k))" "(of_char (hd (nat_str k)) :: nat) < 128" for k
    using d(1)[of k] nat_str_nonempty[of k] by (cases "nat_str k"; simp)+
  then show ?thesis
    by (auto simp: print_float_def print_ufloat_def Let_def d frac_text_def strip_ascii)
qed

lemma print_utf8:
  "list_all utf8_text (json_texts v) \<Longrightarrow> utf8_text (print_json v)"
  "list_all utf8_text (item_texts vs) \<Longrightarrow> utf8_text (print_items vs)"
  "list_all utf8_text (member_texts kvs) \<Longrightarrow> utf8_text (print_members kvs)"
  by (induction v and vs and kvs rule: print_json_print_items_print_members.induct)
    (simp_all add: utf8_append utf8_string utf8_int ascii_utf8[OF ascii_float])

lemma member_texts_set: "set (member_texts kvs) = (\<Union>(k, v) \<in> set kvs. insert k (set (json_texts v)))"
  by (induction kvs) auto

lemma normalise_texts:
  "set (json_texts (normalise v)) = set (json_texts v)"
  "set (item_texts (normalise_items vs)) = set (item_texts vs)"
  "set (member_texts (normalise_members kvs)) = set (member_texts kvs)"
  by (induction v and vs and kvs rule: normalise_normalise_items_normalise_members.induct)
    (simp_all add: member_texts_set)

lemma dumps_utf8: "text_json v \<Longrightarrow> utf8_text (dumps v)"
  using print_utf8(1)[of "normalise v"] by (simp add: dumps_def text_json_def list_all_iff normalise_texts)

text \<open>Reading back what was written.\<close>

lemma utf8_sha [simp]: "utf8_text (sha256_hex s)"
proof -
  have "is_hex c \<Longrightarrow> (of_char c :: nat) < 128" for c by (auto simp: is_hex_def is_digit_def)
  then have "ascii (sha256_hex s)" using sha256_hex_hex[of s] by (simp add: ascii_def list_all_iff)
  then show ?thesis by (rule ascii_utf8)
qed

lemma read_dumps: "wf_json v \<Longrightarrow> text_json v \<Longrightarrow> normalise v = v \<Longrightarrow> read_json (dumps v) = Some v"
  using dumps_utf8[of v] loads_dumps[of v] by (simp add: read_json_def)

end
