(* ===== verification/Refresh_Receipts_Laws.thy ===== *)
theory Refresh_Receipts_Laws
  imports Refresh_State_Laws Refresh_Receipts Text_Json
begin

text \<open>
  What the receipt history guarantees: a receipt that was appended reads back behind everything
  before it, and a process that stops at any point of an activation leaves either the old pointer,
  or the new one with its receipt, or a gap that is reported.
\<close>

section \<open>The log\<close>

lemma byte_lines_line:
  assumes "CHR 0x0A \<notin> set s" "CHR 0x0D \<notin> set s"
  shows "byte_lines (s @ CHR 0x0A # t) = s # byte_lines t"
  using assms by (induction s) auto

lemma byte_lines_append: "byte_lines (s @ CHR 0x0A # t) = byte_lines (s @ [CHR 0x0A]) @ byte_lines t"
proof (induction s rule: byte_lines.induct)
  case (2 c cs)
  have ne: "byte_lines (d # ds) \<noteq> []" for d ds by (simp split: list.split)
  show ?case
  proof (cases "c = CHR 0x0D")
    case True
    then show ?thesis using 2 by (cases cs) auto
  next
    case False
    have "byte_lines (cs @ [CHR 0x0A]) \<noteq> []" using ne by (cases "cs @ [CHR 0x0A]") (simp, metis)
    then show ?thesis using 2 False by (cases "byte_lines (cs @ [CHR 0x0A])") auto
  qed
qed simp

lemma ends_with_newline: "ends_with [CHR 0x0A] s \<longleftrightarrow> (\<exists>t. s = t @ [CHR 0x0A])"
  by (cases s rule: rev_cases) (auto simp: ends_with_def)

lemma pop_set_absent:
  assumes "wf_json v" "wf_json x" "is_obj v" "dict_get (obj_fields v) k = None"
  shows "normalise (json_pop k (json_set k x v)) = normalise v"
  using assms by (intro normalise_eqI) (auto simp: dict_get_json_pop dict_get_json_set)

lemma read_receipt_written:
  assumes "wf_json body" "is_obj body" "dict_get (obj_fields body) ''receipt_id'' = None"
    and "text_json (json_set ''receipt_id'' (JStr (receipt_digest body)) body)"
  shows "read_receipt (dumps (json_set ''receipt_id'' (JStr (receipt_digest body)) body))
       = Inr (normalise (json_set ''receipt_id'' (JStr (receipt_digest body)) body))"
proof -
  let ?r = "json_set ''receipt_id'' (JStr (receipt_digest body)) body"
  have wf: "wf_json ?r" using assms(1) by simp
  have "read_json (dumps ?r) = Some (normalise ?r)"
    using dumps_utf8[OF assms(4)] loads_dumps[OF wf] by (simp add: read_json_def)
  moreover have "jget (normalise ?r) ''receipt_id'' = JStr (receipt_digest body)"
    using jget_normal[OF wf] assms(2) by (simp add: jget_set)
  moreover have "normalise (json_pop ''receipt_id'' ?r) = normalise body"
    using assms(1-3) by (intro pop_set_absent) simp_all
  then have "receipt_digest (json_pop ''receipt_id'' (normalise ?r)) = receipt_digest body"
    by (simp add: receipt_digest_def) (simp add: dumps_def)
  moreover have "starts_with ''rr_'' (receipt_digest body)" unfolding receipt_digest_def by (rule starts_with_append)
  ultimately show ?thesis using assms(2) by (simp add: read_receipt_def)
qed

lemma mapE_append: "mapE f (xs @ ys) = bindE (mapE f xs) (\<lambda>us. bindE (mapE f ys) (\<lambda>vs. Inr (us @ vs)))"
  by (induction xs) (auto simp: bindE_def split: sum.split)

text \<open>The history is whole and verifies.\<close>

definition log_ok :: "application \<Rightarrow> json list \<Rightarrow> bool" where
  "log_ok a items \<longleftrightarrow> read_log (ap_log a) = Inr (items, False)"

lemma read_log_line:
  assumes "read_log history = Inr (items, False)" "printable line"
  shows "read_log (Some ((case history of None \<Rightarrow> [] | Some b \<Rightarrow> b) @ line @ [CHR 0x0A]))
       = bindE (read_receipt line) (\<lambda>v. Inr (items @ [v], False))"
proof -
  let ?b = "case history of None \<Rightarrow> [] | Some b \<Rightarrow> b"
  have breaks: "CHR 0x0A \<notin> set line" "CHR 0x0D \<notin> set line" using printable_no_breaks[OF assms(2)] by simp_all
  have last_line: "byte_lines (line @ [CHR 0x0A]) = [line]" using byte_lines_line[OF breaks, of "[]"] by simp
  have "byte_lines (?b @ line @ [CHR 0x0A]) = byte_lines ?b @ [line] \<and> mapE read_receipt (byte_lines ?b) = Inr items"
  proof (cases "?b = []")
    case True
    then show ?thesis using assms(1) last_line by (auto simp: read_log_def bindE_Inr split: option.splits)
  next
    case False
    then have "ends_with [CHR 0x0A] ?b" "mapE read_receipt (byte_lines ?b) = Inr items"
      using assms(1) by (auto simp: read_log_def bindE_Inr Let_def split: option.splits if_splits)
    moreover from this obtain t where "?b = t @ [CHR 0x0A]" by (auto simp: ends_with_newline)
    then have "byte_lines (?b @ line @ [CHR 0x0A]) = byte_lines ?b @ [line]"
      using byte_lines_append[of t "line @ [CHR 0x0A]"] last_line by simp
    ultimately show ?thesis by simp
  qed
  moreover have "ends_with [CHR 0x0A] (?b @ line @ [CHR 0x0A])" using ends_with_append[of "[CHR 0x0A]" "?b @ line"] by simp
  ultimately show ?thesis by (cases "read_receipt line") (simp_all add: read_log_def mapE_append)
qed

lemma append_Inr:
  assumes "append_receipt stable_index ok operation previous active manifest occurred a = (Inr receipt, b)"
  shows "\<exists>pm body. manifest_for (ap_root a) previous = Inr pm
       \<and> body = receipt_body stable_index operation previous active manifest pm occurred
       \<and> receipt = json_set ''receipt_id'' (JStr (receipt_digest body)) body
       \<and> b = a\<lparr> ap_log := Some ((case ap_log a of None \<Rightarrow> [] | Some x \<Rightarrow> x) @ dumps receipt @ [CHR 0x0A]) \<rparr>"
  using assms
  by (auto simp: append_receipt_def atomic_append_def Let_def split: if_splits sum.splits prod.splits)

lemma wf_summaries: "wf_json m \<Longrightarrow> wf_json (JArr (source_summaries m)) \<and> wf_json (JArr (capability_summaries m))"
proof -
  assume m: "wf_json m"
  have "wf_json v \<Longrightarrow> wf_json (source_summary v)" for v
    by (auto simp: source_summary_def dict_ok_def wf_jget split: option.split json.split)
  moreover have "wf_json v \<Longrightarrow> wf_json (capability_summary v)" for v
    by (simp add: capability_summary_def Let_def dict_ok_def wf_jget certificate_fields_def)
  ultimately show ?thesis
    using wf_arr[OF wf_jget[OF m]]
    by (auto simp: source_summaries_def capability_summaries_def wf_items_iff list_all_iff)
qed

lemma wf_receipt_body:
  assumes "wf_json m" "wf_json previous"
  shows "wf_json (receipt_body stable_index operation previous active m pm occurred)"
proof -
  have "wf_json (index_hash v)" for v by (simp add: index_hash_def split: option.split json.split)
  moreover have "wf_json (safe_change_summary stable_index previous active)"
    by (auto simp: safe_change_summary_def dict_ok_def count_json_def Let_def split: json.split option.split prod.split)
  ultimately show ?thesis
    using wf_summaries[OF assms(1)] assms(2) by (simp add: receipt_body_def dict_ok_def)
qed

lemma receipt_body_fields:
  "is_obj (receipt_body i op pr ac m pm oc)" "dict_get (obj_fields (receipt_body i op pr ac m pm oc)) ''receipt_id'' = None"
  "jget (receipt_body i op pr ac m pm oc) ''operation'' = JStr op"
  "jget (receipt_body i op pr ac m pm oc) ''active_generation_id'' = JStr ac"
  "jget (receipt_body i op pr ac m pm oc) ''occurred_at_utc'' = JStr oc"
  by (simp_all add: receipt_body_def jget_obj)

text \<open>
  An appended receipt reads back.  It is the newest entry of the history, everything that was
  there stands unchanged behind it, the file only grew, and nothing but the file changed.
\<close>

theorem appended_receipt_reads_back:
  assumes "append_receipt stable_index ok operation previous active manifest occurred a = (Inr receipt, b)"
    and "log_ok a items" "wf_json manifest" "wf_json previous" "text_json receipt" "1 \<le> n" "n \<le> 100"
  shows "list_receipts n b = Inr (take (nat n) (normalise receipt # rev items), False)
       \<and> (\<exists>line. ap_log b = Some ((case ap_log a of None \<Rightarrow> [] | Some x \<Rightarrow> x) @ line)) \<and> ap_root b = ap_root a"
proof -
  obtain pm body where ab: "body = receipt_body stable_index operation previous active manifest pm occurred"
      "receipt = json_set ''receipt_id'' (JStr (receipt_digest body)) body"
      "b = a\<lparr> ap_log := Some ((case ap_log a of None \<Rightarrow> [] | Some x \<Rightarrow> x) @ dumps receipt @ [CHR 0x0A]) \<rparr>"
    using append_Inr[OF assms(1)] by blast
  have "read_receipt (dumps receipt) = Inr (normalise receipt)"
    unfolding ab(2) using assms(5)[unfolded ab(2)] wf_receipt_body[OF assms(3,4)]
    by (intro read_receipt_written) (simp_all add: ab(1) receipt_body_fields)
  then have "read_log (ap_log b) = Inr (items @ [normalise receipt], False)"
    using read_log_line[OF assms(2)[unfolded log_ok_def] dumps_printable[of receipt]] by (simp add: ab(3))
  then show ?thesis using assms(6,7) ab(3) by (simp add: list_receipts_def)
qed

section \<open>The marker\<close>

lemma load_state_obj: "is_obj (load_state r) \<and> is_obj (jget (load_state r) ''sources'')"
proof (cases "rr_state r")
  case (Some v)
  then show ?thesis
    by (cases "is_obj v") (auto simp: load_state_def default_state_def jget_obj jget_set)
qed (simp add: load_state_def default_state_def jget_obj)

lemma load_saved:
  "is_obj v \<Longrightarrow> is_obj (jget v ''sources'') \<Longrightarrow> load_state (save_state v r) = json_set ''schema_version'' (JStr state_schema_version) v"
  by (simp add: load_state_def save_state_def jget_set)

lemma save_state_same [simp]:
  "rr_pointer (save_state v r) = rr_pointer r" "rr_generations (save_state v r) = rr_generations r"
  "load_pointer (save_state v r) = load_pointer r"
  by (simp_all add: save_state_def load_pointer_def)

lemma marked_state:
  "jget (load_state (mark_receipt_pending m r)) receipt_pending_key = m"
  "rr_pointer (mark_receipt_pending m r) = rr_pointer r"
  by (simp_all add: mark_receipt_pending_def load_saved load_state_obj jget_set receipt_pending_key_def)

lemma load_state_cong: "rr_state s = rr_state r \<Longrightarrow> load_state s = load_state r"
  by (simp add: load_state_def)

lemma finished_state:
  assumes "jget (load_state r) receipt_pending_key = m" "is_obj m"
  shows "jget (load_state (finish_receipt_marker m JNull r)) receipt_pending_key = JNull"
    and "e \<noteq> JNull \<Longrightarrow> jget (load_state (finish_receipt_marker m e r)) receipt_pending_key = json_set ''error'' e m"
    and "rr_pointer (finish_receipt_marker m e r) = rr_pointer r"
  using assms load_state_obj[of r]
  by (simp_all add: finish_receipt_marker_def load_saved jget_set jget_pop receipt_pending_key_def Let_def)

section \<open>Stopping anywhere\<close>

text \<open>The change the coordinator announces for the pointer it finds.\<close>

definition announced :: "change \<Rightarrow> refresh_root \<Rightarrow> bool" where
  "announced c r \<longleftrightarrow> (\<exists>g oc job m. c = activation_change g oc job m r) \<or> (\<exists>oc. rollback_change oc r = Some c)"

lemma announced_moves:
  assumes "announced c r" "rr_pointer s = rr_pointer r" "move_pointer c s = (Inr p, t)"
  shows "rr_pointer t = Some p \<and> is_obj p \<and> jget p ''active_generation_id'' = JStr (ch_active c) \<and> rr_state t = rr_state s"
proof -
  have cur: "current_pointer s = current_pointer r" using assms(2) by (simp add: current_pointer_def load_pointer_def)
  from assms(1) show ?thesis
    unfolding announced_def
  proof
    assume "\<exists>g oc job m. c = activation_change g oc job m r"
    then show ?thesis
      using assms(3)
      by (auto simp: move_pointer_def activation_change_def activate_generation_def activation_pointer_def jget_obj Let_def
          split: sum.splits)
  next
    assume "\<exists>oc. rollback_change oc r = Some c"
    then obtain oc where oc: "rollback_change oc r = Some c" by blast
    then obtain target where target: "jget (current_pointer r) ''previous_generation_id'' = JStr target"
      by (cases "jget (current_pointer r) ''previous_generation_id''") (simp_all add: rollback_change_def)
    then have "ch_operation c = ''rollback''" "ch_active c = target" using oc by (auto simp: rollback_change_def)
    then show ?thesis
      using assms(3) target
      by (auto simp: move_pointer_def rollback_def cur rollback_pointer_def jget_obj Let_def split: sum.splits)
  qed
qed

lemma moved_wf:
  assumes "move_pointer c s = (Inr p, t)" "wf_json (current_pointer s)"
  shows "wf_json p"
proof -
  have "wf_json (activation_pointer (current_pointer s) g oc)" "wf_json (rollback_pointer (current_pointer s) g oc)" for g oc
    using wf_jget[OF assms(2)]
    by (auto simp: activation_pointer_def rollback_pointer_def dict_ok_def split: json.split)
  then show ?thesis
    using assms(1)
    by (auto simp: move_pointer_def activate_generation_def rollback_def Let_def split: if_splits sum.splits json.splits)
qed

lemma refused_moves: "move_pointer c s = (Inl e, t) \<Longrightarrow> t = s"
  by (auto simp: move_pointer_def activate_generation_def rollback_def Let_def split: if_splits sum.splits json.splits)

lemma marker_fields:
  "is_obj (change_marker c)" "jget (change_marker c) ''active_generation_id'' = JStr (ch_active c)"
  "jget (change_marker c) ''operation'' = JStr (ch_operation c)" "jget (change_marker c) ''occurred_at_utc'' = JStr (ch_occurred c)"
  by (simp_all add: change_marker_def marker_json_def jget_obj)

text \<open>The history is listed and the listing reports a gap.\<close>

definition reports_gap :: "int \<Rightarrow> application \<Rightarrow> bool" where
  "reports_gap n a \<longleftrightarrow>
     (case list_receipts n a of Inr (items, truncated) \<Rightarrow> application_receipt_gap items truncated (ap_root a) \<noteq> None | Inl _ \<Rightarrow> False)"

lemma gap_iff:
  assumes "log_ok a items" "1 \<le> n" "n \<le> 100"
  shows "reports_gap n a \<longleftrightarrow>
    marker_targets_active (ap_root a) (load_state (ap_root a))
    \<and> \<not> list_ex (receipt_matches (jget (load_state (ap_root a)) receipt_pending_key)) (take (nat n) (rev items))"
  using assms by (simp add: reports_gap_def list_receipts_def log_ok_def application_receipt_gap_def Let_def)

lemma no_match_taken: "\<not> list_ex P items \<Longrightarrow> \<not> list_ex P (take n (rev items))"
  by (auto simp: list_ex_iff dest: in_set_takeD)

lemma targets_iff:
  assumes "jget (load_state r) receipt_pending_key = m" "is_obj m" "rr_pointer r = Some p" "is_obj p"
  shows "marker_targets_active r (load_state r) \<longleftrightarrow> jget m ''active_generation_id'' = jget p ''active_generation_id''"
  using assms by (simp add: marker_targets_active_def load_pointer_def)

lemma matching_receipt:
  assumes "append_receipt i ok (ch_operation c) pr (ch_active c) (ch_manifest c) (ch_occurred c) a = (Inr receipt, b)"
    and "wf_json (ch_manifest c)" "wf_json pr" "log_ok a items" "log_ok b items'"
  shows "\<exists>v. items' = items @ [v] \<and> receipt_matches (change_marker c) v"
proof -
  obtain pm body where ab: "body = receipt_body i (ch_operation c) pr (ch_active c) (ch_manifest c) pm (ch_occurred c)"
      "receipt = json_set ''receipt_id'' (JStr (receipt_digest body)) body"
      "b = a\<lparr> ap_log := Some ((case ap_log a of None \<Rightarrow> [] | Some x \<Rightarrow> x) @ dumps receipt @ [CHR 0x0A]) \<rparr>"
    using append_Inr[OF assms(1)] by blast
  have wf: "wf_json receipt" using wf_receipt_body[OF assms(2,3)] by (simp add: ab)
  obtain v where v: "read_receipt (dumps receipt) = Inr v" "items' = items @ [v]"
    using read_log_line[OF assms(4)[unfolded log_ok_def] dumps_printable[of receipt]] assms(5)
    by (auto simp: ab(3) log_ok_def bindE_Inr)
  then have "read_json (dumps receipt) = Some v"
    by (auto simp: read_receipt_def split: option.splits if_splits json.splits)
  then have nv: "v = normalise receipt" using loads_dumps[OF wf] by (simp add: read_json_def split: if_splits)
  have "receipt_matches (change_marker c) v"
    using jget_normal[OF wf] by (simp add: nv receipt_matches_def marker_fields ab(1,2) jget_set receipt_body_fields)
  then show ?thesis using v(2) by blast
qed

text \<open>The marker that may be found, with or without the error of a failed append.\<close>

definition pending_marker :: "change \<Rightarrow> json \<Rightarrow> bool" where
  "pending_marker c m \<longleftrightarrow> (\<exists>e. m = change_marker c \<or> m = json_set ''error'' e (change_marker c))"

lemma pending_marker_fields:
  "pending_marker c m \<Longrightarrow> is_obj m \<and> jget m ''active_generation_id'' = JStr (ch_active c)
     \<and> receipt_matches m = receipt_matches (change_marker c)"
  by (auto simp: pending_marker_def marker_fields jget_set receipt_matches_def)

lemma no_marker_quiet:
  assumes "jget (load_state (ap_root t)) receipt_pending_key = JNull" "log_ok t items" "1 \<le> n" "n \<le> 100"
  shows "\<not> reports_gap n t"
  using gap_iff[OF assms(2-4)] assms(1) by (simp add: marker_targets_active_def split: option.splits)

lemma idle_marker_quiet:
  assumes "pending_marker c (jget (load_state (ap_root t)) receipt_pending_key)" "log_ok t items" "1 \<le> n" "n \<le> 100"
    and "jget (current_pointer (ap_root t)) ''active_generation_id'' \<noteq> JStr (ch_active c)"
  shows "\<not> reports_gap n t"
  using gap_iff[OF assms(2-4)] assms(5) pending_marker_fields[OF assms(1)]
  by (auto simp: marker_targets_active_def load_pointer_def current_pointer_def split: option.splits)

lemma open_marker_reports:
  assumes "pending_marker c (jget (load_state (ap_root t)) receipt_pending_key)" "log_ok t items" "1 \<le> n" "n \<le> 100"
    and "rr_pointer (ap_root t) = Some p" "is_obj p" "jget p ''active_generation_id'' = JStr (ch_active c)"
  shows "reports_gap n t \<longleftrightarrow> \<not> list_ex (receipt_matches (change_marker c)) (take (nat n) (rev items))"
  using gap_iff[OF assms(2-4)] pending_marker_fields[OF assms(1)] targets_iff[OF refl _ assms(5,6)] assms(7) by simp

text \<open>
  The states a stopped change may leave: the old pointer; the new one without a receipt and with the
  marker; or the new one with the receipt appended.
\<close>

lemma change_states:
  assumes "announced c (ap_root a)" "wf_json (current_pointer (ap_root a))" "s \<in> set (change_writes stable_index ok c a)"
  shows "\<exists>k. k = jget (load_state (ap_root s)) receipt_pending_key \<and> (k = JNull \<or> pending_marker c k)
    \<and> (rr_pointer (ap_root s) = rr_pointer (ap_root a) \<and> ap_log s = ap_log a
     \<or> (\<exists>p. rr_pointer (ap_root s) = Some p \<and> is_obj p \<and> wf_json p \<and> jget p ''active_generation_id'' = JStr (ch_active c)
          \<and> (k \<noteq> JNull \<and> ap_log s = ap_log a
           \<or> (\<exists>t receipt b. ap_log t = ap_log a \<and> ap_log s = ap_log b
                \<and> append_receipt stable_index ok (ch_operation c) (jget p ''previous_generation_id'') (ch_active c)
                    (ch_manifest c) (ch_occurred c) t = (Inr receipt, b)))))"
proof -
  let ?m = "change_marker c"
  let ?marked = "a\<lparr> ap_root := mark_receipt_pending ?m (ap_root a) \<rparr>"
  have mk: "jget (load_state (ap_root ?marked)) receipt_pending_key = ?m" "rr_pointer (ap_root ?marked) = rr_pointer (ap_root a)"
    by (simp_all add: marked_state)
  have pm: "pending_marker c ?m" "pending_marker c (json_set ''error'' e ?m)" for e by (auto simp: pending_marker_def)
  have nn: "?m \<noteq> JNull" "json_set ''error'' e ?m \<noteq> JNull" for e
    using pending_marker_fields[OF pm(1)] pending_marker_fields[OF pm(2)] obj_fields_simps(3) by metis+
  obtain x r where mv: "move_pointer c (ap_root ?marked) = (x, r)" by fastforce
  show ?thesis
  proof (cases x)
    case (Inl e)
    then have "s = ?marked \<or> s = ?marked\<lparr> ap_root := finish_receipt_marker ?m JNull (ap_root ?marked) \<rparr>"
      using assms(3) mv refused_moves[of c "ap_root ?marked" e r] by (auto simp: change_writes_def Let_def)
    then show ?thesis using mk finished_state[OF mk(1) marker_fields(1)] pm by auto
  next
    case (Inr p)
    have r: "rr_pointer r = Some p" "is_obj p" "jget p ''active_generation_id'' = JStr (ch_active c)"
        "rr_state r = rr_state (ap_root ?marked)" "wf_json p"
      using announced_moves[OF assms(1) mk(2), of p r] moved_wf[of c "ap_root ?marked" p r] mv Inr assms(2) mk(2)
      by (auto simp: current_pointer_def load_pointer_def)
    let ?moved = "?marked\<lparr> ap_root := r \<rparr>"
    have key: "jget (load_state r) receipt_pending_key = ?m" using mk(1) load_state_cong[OF r(4)] by simp
    note fin = finished_state[OF key marker_fields(1)]
    obtain y b where ap: "append_receipt stable_index ok (ch_operation c) (jget p ''previous_generation_id'') (ch_active c)
        (ch_manifest c) (ch_occurred c) ?moved = (y, b)" by fastforce
    have "y = Inr receipt \<Longrightarrow> ap_root b = r" for receipt using append_Inr[of stable_index ok] ap by fastforce
    then consider "s = ?marked" | "s = ?moved"
        | e where "s = ?moved\<lparr> ap_root := finish_receipt_marker ?m (JStr e) r \<rparr>"
        | receipt where "y = Inr receipt" "s = b \<or> s = b\<lparr> ap_root := finish_receipt_marker ?m JNull r \<rparr>" "ap_root b = r"
      using assms(3) mv Inr ap by (cases y) (auto simp: change_writes_def Let_def split: if_splits)
    then show ?thesis
    proof cases
      case 3
      then show ?thesis using r fin pm nn by auto
    next
      case 4
      have "ap_log ?moved = ap_log a" "ap_log s = ap_log b" "rr_pointer (ap_root s) = Some p"
          "jget (load_state (ap_root s)) receipt_pending_key = JNull \<or> pending_marker c (jget (load_state (ap_root s)) receipt_pending_key)"
        using 4(2,3) r fin key pm by auto
      then show ?thesis using r ap 4(1) by blast
    qed (use mk r key pm nn in auto)
  qed
qed

lemma gap_target:
  assumes "reports_gap n t" "pending_marker c (jget (load_state (ap_root t)) receipt_pending_key)" "log_ok t items" "1 \<le> n" "n \<le> 100"
  shows "jget (current_pointer (ap_root t)) ''active_generation_id'' = JStr (ch_active c)
    \<and> \<not> list_ex (receipt_matches (change_marker c)) (take (nat n) (rev items))"
  using assms(1) gap_iff[OF assms(3-5)] idle_marker_quiet[OF assms(2-5)] pending_marker_fields[OF assms(2)] by auto

text \<open>
  C15: no activation goes unrecorded silently.  Cut an announced activation or rollback after any of
  its writes, with the append of the receipt succeeding or failing, over any earlier history that can
  be read.  If the pointer has moved and the history holds no receipt of the change, a gap is
  reported.  And a reported gap is never about a recorded change: the pointer names the change's
  generation, which it has moved to unless that one was active before, and none of the last \<open>n\<close>
  receipts is of the change.
\<close>

theorem no_silent_activation:
  assumes "announced c (ap_root a)" "log_ok a items" "wf_json (ch_manifest c)" "wf_json (current_pointer (ap_root a))"
    and "s \<in> set (change_writes stable_index ok c a)" "log_ok s found" "1 \<le> n" "n \<le> 100"
  shows "(rr_pointer (ap_root s) \<noteq> rr_pointer (ap_root a) \<and> \<not> list_ex (receipt_matches (change_marker c)) found \<longrightarrow> reports_gap n s)
    \<and> (reports_gap n s \<longrightarrow>
         jget (current_pointer (ap_root s)) ''active_generation_id'' = JStr (ch_active c)
         \<and> (jget (current_pointer (ap_root a)) ''active_generation_id'' \<noteq> JStr (ch_active c)
              \<longrightarrow> rr_pointer (ap_root s) \<noteq> rr_pointer (ap_root a))
         \<and> \<not> list_ex (receipt_matches (change_marker c)) (take (nat n) (rev found)))"
proof -
  let ?k = "jget (load_state (ap_root s)) receipt_pending_key"
  have k: "?k = JNull \<or> pending_marker c ?k" and st: "rr_pointer (ap_root s) = rr_pointer (ap_root a) \<and> ap_log s = ap_log a
     \<or> (\<exists>p. rr_pointer (ap_root s) = Some p \<and> is_obj p \<and> wf_json p \<and> jget p ''active_generation_id'' = JStr (ch_active c)
          \<and> (?k \<noteq> JNull \<and> ap_log s = ap_log a
           \<or> (\<exists>t receipt b. ap_log t = ap_log a \<and> ap_log s = ap_log b
                \<and> append_receipt stable_index ok (ch_operation c) (jget p ''previous_generation_id'') (ch_active c)
                    (ch_manifest c) (ch_occurred c) t = (Inr receipt, b))))"
    using change_states[OF assms(1,4,5)] by (elim exE conjE, simp)+
  have heard: "jget (current_pointer (ap_root s)) ''active_generation_id'' = JStr (ch_active c)
      \<and> \<not> list_ex (receipt_matches (change_marker c)) (take (nat n) (rev found))" if "reports_gap n s"
    using that k no_marker_quiet[OF _ assms(6-8)] gap_target[OF _ _ assms(6-8)] by blast
  moreover have "current_pointer (ap_root s) = current_pointer (ap_root a)" if "rr_pointer (ap_root s) = rr_pointer (ap_root a)"
    using that by (simp add: current_pointer_def load_pointer_def)
  moreover have "reports_gap n s"
    if moved: "rr_pointer (ap_root s) \<noteq> rr_pointer (ap_root a)" "\<not> list_ex (receipt_matches (change_marker c)) found"
  proof -
    obtain p where p: "rr_pointer (ap_root s) = Some p" "is_obj p" "wf_json p" "jget p ''active_generation_id'' = JStr (ch_active c)"
        "?k \<noteq> JNull \<and> ap_log s = ap_log a
           \<or> (\<exists>t receipt b. ap_log t = ap_log a \<and> ap_log s = ap_log b
                \<and> append_receipt stable_index ok (ch_operation c) (jget p ''previous_generation_id'') (ch_active c)
                    (ch_manifest c) (ch_occurred c) t = (Inr receipt, b))"
      using st moved(1) by blast
    have "\<not> (ap_log t = ap_log a \<and> ap_log s = ap_log b
        \<and> append_receipt stable_index ok (ch_operation c) (jget p ''previous_generation_id'') (ch_active c) (ch_manifest c) (ch_occurred c) t
            = (Inr receipt, b))" for t receipt b
    proof
      assume t: "ap_log t = ap_log a \<and> ap_log s = ap_log b
        \<and> append_receipt stable_index ok (ch_operation c) (jget p ''previous_generation_id'') (ch_active c) (ch_manifest c) (ch_occurred c) t
            = (Inr receipt, b)"
      then have "log_ok t items" "log_ok b found" using assms(2,6) by (simp_all add: log_ok_def)
      then show False using matching_receipt[of stable_index ok c, OF _ assms(3) wf_jget[OF p(3)]] t moved(2) by fastforce
    qed
    then have "?k \<noteq> JNull" using p(5) by blast
    then show ?thesis using open_marker_reports[OF _ assms(6-8) p(1,2,4)] k no_match_taken[OF moved(2)] by blast
  qed
  ultimately show ?thesis by metis
qed

end
