(* ===== verification/Refresh_Samples.thy ===== *)
theory Refresh_Samples
  imports Refresh_Receipts_Laws
begin

text \<open>
  Two small generations that verify, a root where one is active and the other installed, and the
  witnesses of the properties of refreshed data.
\<close>

section \<open>A generation\<close>

definition sample_id :: "char \<Rightarrow> string" where
  "sample_id c = ''g_'' @ replicate 64 c"

definition sample_meta :: json where
  "sample_meta = JObj [(''parquet_sha256'', JStr (sha256_hex ''table''))]"

definition sample_snapshot :: "string \<Rightarrow> json" where
  "sample_snapshot source = JObj
     [(''files'', JArr []), (''license'', JStr ''CC0-1.0''), (''schema_version'', JStr ''0.1.0''), (''source_id'', JStr source),
      (''upstream_ref'', JStr (replicate 40 (CHR ''a'')))]"

definition sample_artifact :: "string \<Rightarrow> string \<Rightarrow> json" where
  "sample_artifact path data = JObj [(''path'', JStr path), (''sha256'', JStr (sha256_hex data))]"

definition generation_manifest :: "char \<Rightarrow> json" where
  "generation_manifest c = JObj
     [(''artifacts'', JArr [sample_artifact index_meta (dumps sample_meta), sample_artifact index_parquet ''table'']),
      (''generation_id'', JStr (sample_id c)), (''schema_version'', JStr ''0.1.0''),
      (''source_snapshots'', JArr [sample_snapshot ''martj42-international-results'', sample_snapshot ''openfootball-worldcup-json''])]"

definition sample_generation :: "char \<Rightarrow> pack" where
  "sample_generation c =
     \<lparr> pk_files = [(''generation.json'', dumps (generation_manifest c)), (index_meta, dumps sample_meta), (index_parquet, ''table'')],
       pk_links = [] \<rparr>"

lemma generation_keys:
  "''artifacts'' < ''generation_id''" "''artifacts'' < ''schema_version''" "''artifacts'' < ''source_snapshots''"
  "''generation_id'' < ''schema_version''" "''generation_id'' < ''source_snapshots''" "''schema_version'' < ''source_snapshots''"
  "''files'' < ''license''" "''files'' < ''schema_version''" "''files'' < ''source_id''" "''files'' < ''upstream_ref''"
  "''license'' < ''schema_version''" "''license'' < ''source_id''" "''license'' < ''upstream_ref''"
  "''schema_version'' < ''source_id''" "''schema_version'' < ''upstream_ref''" "''source_id'' < ''upstream_ref''"
  "''path'' < ''sha256''"
  by (simp_all add: less_char_def)

lemma utf8_plain: "(of_char c :: nat) < 128 \<Longrightarrow> utf8_text (replicate n c)"
  by (rule ascii_utf8) (simp add: ascii_def list_all_iff)

lemma read_meta: "read_json (dumps sample_meta) = Some sample_meta"
  by (rule read_dumps) (simp_all add: sample_meta_def dict_ok_def text_json_def)

lemma read_manifest:
  assumes "(of_char c :: nat) < 128"
  shows "read_json (dumps (generation_manifest c)) = Some (generation_manifest c)"
proof (rule read_dumps)
  have "utf8_text (sample_id c)" using utf8_plain[OF assms] by (simp add: sample_id_def)
  moreover have "utf8_text (replicate 40 (CHR ''a''))" by (rule utf8_plain) simp
  ultimately show "text_json (generation_manifest c)"
    by (simp add: generation_manifest_def sample_artifact_def sample_snapshot_def text_json_def index_meta_def index_parquet_def
        del: replicate.simps)
  show "wf_json (generation_manifest c)" "normalise (generation_manifest c) = generation_manifest c"
    by (simp_all add: generation_manifest_def sample_artifact_def sample_snapshot_def dict_ok_def generation_keys less_imp_le)
qed

lemma sample_id_valid: "(of_char c :: nat) < 128 \<Longrightarrow> valid_generation_id (sample_id c)"
  unfolding valid_generation_id_def sample_id_def
  by (simp add: code_points_def is_continuation_def Let_def starts_with_def)

lemma path_parts_plain: "CHR ''/'' \<notin> set s \<Longrightarrow> s \<noteq> [] \<Longrightarrow> s \<noteq> ''.'' \<Longrightarrow> path_parts s = [s]"
proof -
  assume "CHR ''/'' \<notin> set s"
  then have "split_on (CHR ''/'') s = [s]" by (induction s) auto
  then show "s \<noteq> [] \<Longrightarrow> s \<noteq> ''.'' \<Longrightarrow> path_parts s = [s]" by (simp add: path_parts_def)
qed

lemma sample_verifies:
  assumes "(of_char c :: nat) < 128" "c \<noteq> CHR ''/''"
  shows "verify_generation (sample_id c) (Some (sample_generation c)) = Inr (generation_manifest c)"
proof -
  have parts: "path_parts index_meta = [''index'', ''matches_index.meta.json'']"
      "path_parts index_parquet = [''index'', ''matches_index.parquet'']" "path_parts ''generation.json'' = [''generation.json'']"
    by (simp_all add: path_parts_def index_meta_def index_parquet_def)
  have name: "path_name (sample_id c) = sample_id c"
    using assms(2) by (simp add: path_name_def sample_id_def path_parts_plain del: replicate.simps)
  have ne: "index_meta \<noteq> index_parquet" "index_meta \<noteq> ''generation.json''" "index_parquet \<noteq> ''generation.json''"
    by (simp_all add: index_meta_def index_parquet_def)
  have posix: "as_posix [''index'', ''matches_index.meta.json''] = index_meta" "as_posix [''index'', ''matches_index.parquet''] = index_parquet"
      "\<not> is_absolute index_meta" "\<not> is_absolute index_parquet"
    by (simp_all add: as_posix_def index_meta_def index_parquet_def is_absolute_def starts_with_def)
  have art: "check_artifact (sample_generation c) (sample_artifact index_meta (dumps sample_meta)) = Inr (index_meta, sha256_hex (dumps sample_meta))"
      "check_artifact (sample_generation c) (sample_artifact index_parquet ''table'') = Inr (index_parquet, sha256_hex ''table'')"
    using ne by (simp_all add: check_artifact_def sample_artifact_def text_get_def py_text_def parts posix plain_file_def
        sample_generation_def Let_def)
  have idx: "check_index (sample_generation c) [(index_meta, sha256_hex (dumps sample_meta)), (index_parquet, sha256_hex ''table'')] = Inr ()"
    using ne by (simp add: check_index_def sample_generation_def read_meta)
      (simp add: sample_meta_def jget_obj is_sha256_def sha256_hex_hex)
  have snap: "check_snapshot (sample_generation c) d (sample_snapshot s) = Inr ()" if "s \<in> set approved_source_ids" for s d
    using that by (simp add: check_snapshot_def sample_snapshot_def jget_obj code_points_def is_continuation_def Let_def)
  have files: "set (generation_files (sample_generation c)) = {index_meta, index_parquet}"
    using ne by (auto simp: generation_files_def sample_generation_def path_name_def parts)
  have man: "is_obj (generation_manifest c)" "jget (generation_manifest c) ''schema_version'' = JStr ''0.1.0''"
      "jget (generation_manifest c) ''generation_id'' = JStr (sample_id c)"
      "jget (generation_manifest c) ''artifacts'' = JArr [sample_artifact index_meta (dumps sample_meta), sample_artifact index_parquet ''table'']"
      "jget (generation_manifest c) ''source_snapshots''
         = JArr [sample_snapshot ''martj42-international-results'', sample_snapshot ''openfootball-worldcup-json'']"
    by (simp_all add: generation_manifest_def jget_obj)
  have "dict_get (pk_files (sample_generation c)) ''generation.json'' = Some (dumps (generation_manifest c))"
    by (simp add: sample_generation_def)
  then show ?thesis
    by (simp add: verify_generation_def read_manifest[OF assms(1)] man generation_schema_version_def name art idx snap files
        approved_source_ids_def insert_commute)
qed

section \<open>Witnesses\<close>

lemma manifest_pins_generation_witness:
  "dict_get (pk_files (sample_generation (CHR ''0''))) index_parquet = dict_get (pk_files (sample_generation (CHR ''0''))) index_parquet
     \<or> (\<exists>h a b. dict_get (pk_files (sample_generation (CHR ''0''))) h = Some a
          \<and> dict_get (pk_files (sample_generation (CHR ''0''))) h = Some b \<and> collision a b)"
  by (rule manifest_pins_generation[OF sample_verifies sample_verifies])
    (simp_all add: path_name_def path_parts_def index_parquet_def)

abbreviation g0 :: string where "g0 \<equiv> sample_id (CHR ''0'')"
abbreviation g1 :: string where "g1 \<equiv> sample_id (CHR ''1'')"
abbreviation p0 :: pack where "p0 \<equiv> sample_generation (CHR ''0'')"
abbreviation p1 :: pack where "p1 \<equiv> sample_generation (CHR ''1'')"

abbreviation empty_root :: refresh_root where
  "empty_root \<equiv> \<lparr> rr_state = None, rr_pointer = None, rr_generations = [], rr_staging = [] \<rparr>"

text \<open>One generation active, the other installed.\<close>

definition first_pointer :: json where
  "first_pointer = activation_pointer (JObj []) g0 ''t0''"

definition two_generations :: refresh_root where
  "two_generations = \<lparr> rr_state = None, rr_pointer = Some first_pointer, rr_generations = [(g0, p0), (g1, p1)], rr_staging = [] \<rparr>"

lemma ids_differ: "g0 \<noteq> g1" "g1 \<noteq> g0"
  by (simp_all add: sample_id_def)

lemma sample_verified:
  "rr_generations r = [(g0, p0), (g1, p1)] \<Longrightarrow> verified r g0 = Inr (generation_manifest (CHR ''0''))"
  "rr_generations r = [(g0, p0), (g1, p1)] \<Longrightarrow> verified r g1 = Inr (generation_manifest (CHR ''1''))"
  by (simp_all add: verified_def generation_dir_def sample_id_valid sample_verifies ids_differ)

lemma pointer_fields:
  "is_obj first_pointer" "jget first_pointer ''active_generation_id'' = JStr g0" "jget first_pointer ''previous_generation_id'' = JNull"
  by (simp_all add: first_pointer_def activation_pointer_def jget_obj)

lemma sample_pointer_ok: "pointer_ok two_generations"
  by (simp add: pointer_ok_def two_generations_def pointer_fields names_verified_def)
     (rule exI, rule sample_verified, simp)

definition sample_calls :: "refresh_call list" where
  "sample_calls = [Stage ''a'' p0, Install ''a'' g0, Activate g0 ''t0'', Stage ''b'' p1, Install ''b'' g1]"

lemma sample_calls_run: "fold exec_refresh sample_calls empty_root = two_generations"
  by (simp add: sample_calls_def two_generations_def install_generation_def generation_dir_def sample_id_valid sample_verifies ids_differ
      activate_generation_def verified_def current_pointer_def load_pointer_def first_pointer_def Let_def)

lemma refresh_never_loses_data_witness:
  "\<exists>g. active_generation (fold exec_refresh
       [Clean Some [''refresh''] [''refresh'', ''staging'', ''job''], Activate g1 ''t1'', Roll_back ''t2''] two_generations) = Inr (Some g, False)"
  using refresh_never_loses_data[OF sample_calls_run[symmetric] _ refl, of first_pointer
      "[Clean Some [''refresh''] [''refresh'', ''staging'', ''job''], Activate g1 ''t1'', Roll_back ''t2'']"]
  by (auto simp: two_generations_def sample_calls_def)

lemma sample_active: "active_generation two_generations = Inr (Some g0, False)"
  using sample_verified(1)[of two_generations]
  by (simp add: active_generation_def two_generations_def load_pointer_def pointer_fields usable_def)

definition second_pointer :: json where
  "second_pointer = activation_pointer first_pointer g1 ''t1''"

lemma sample_activation:
  "activate_generation g1 ''t1'' two_generations = (Inr second_pointer, two_generations\<lparr> rr_pointer := Some second_pointer \<rparr>)"
  using sample_verified(2)[of two_generations]
  by (simp add: activate_generation_def two_generations_def second_pointer_def current_pointer_def load_pointer_def pointer_fields Let_def)

lemma rollback_undoes_activation_witness:
  "active_generation (snd (rollback ''t2'' (two_generations\<lparr> rr_pointer := Some second_pointer \<rparr>))) = Inr (Some g0, False)"
  using rollback_undoes_activation[OF sample_pointer_ok sample_active ids_differ(2) sample_activation] by blast

lemma second_pointer_fields:
  "is_obj second_pointer" "jget second_pointer ''active_generation_id'' = JStr g1" "jget second_pointer ''previous_generation_id'' = JStr g0"
  using ids_differ by (simp_all add: second_pointer_def activation_pointer_def jget_obj pointer_fields)

lemma damage_falls_back_witness:
  "active_generation (two_generations\<lparr> rr_pointer := Some second_pointer, rr_generations := [(g0, p0), (g1, \<lparr> pk_files = [], pk_links = [] \<rparr>)] \<rparr>)
     = Inr (Some g0, True)"
proof -
  let ?r = "two_generations\<lparr> rr_pointer := Some second_pointer \<rparr>"
  let ?d = "\<lparr> pk_files = [], pk_links = [] \<rparr> :: pack"
  let ?s = "?r\<lparr> rr_generations := dict_set g1 ?d (rr_generations ?r) \<rparr>"
  have ok: "pointer_ok ?r"
    using activate_ok[OF sample_pointer_ok, of g1 "''t1''"] by (simp add: sample_activation)
  have bad: "verified ?s g1 = Inl (Value_error Bad_manifest)"
    by (simp add: verified_def generation_dir_def sample_id_valid verify_generation_def)
  have same: "?s = two_generations\<lparr> rr_pointer := Some second_pointer, rr_generations := [(g0, p0), (g1, ?d)] \<rparr>"
    by (simp add: two_generations_def ids_differ)
  have "rr_pointer ?r = Some second_pointer" by simp
  from damage_falls_back[OF ok this second_pointer_fields(2,3) ids_differ(2) refl, of ?d]
  have "active_generation ?s = Inr (Some g0, True)" unfolding bad by simp
  then show ?thesis unfolding same .
qed

section \<open>Receipts\<close>

abbreviation fresh_application :: application where
  "fresh_application \<equiv> \<lparr> ap_root = two_generations, ap_log = None \<rparr>"

definition first_receipt :: json where
  "first_receipt =
     (let body = receipt_body (\<lambda>_. None) ''rollback'' JNull ''g'' (JObj []) None ''t'' in
      json_set ''receipt_id'' (JStr (receipt_digest body)) body)"

lemma first_receipt_appended:
  "append_receipt (\<lambda>_. None) True ''rollback'' JNull ''g'' (JObj []) ''t'' fresh_application
     = (Inr first_receipt, fresh_application\<lparr> ap_log := Some (dumps first_receipt @ [CHR 0x0A]) \<rparr>)"
  by (simp add: append_receipt_def manifest_for_def atomic_append_def first_receipt_def Let_def)

lemma first_receipt_text: "text_json first_receipt"
proof -
  have "utf8_text (receipt_digest v)" for v by (simp add: receipt_digest_def)
  then show ?thesis
    by (simp add: first_receipt_def receipt_body_def source_summaries_def capability_summaries_def safe_change_summary_def index_hash_def
        text_json_def jget_obj json_set_def arr_def Let_def)
qed

lemma appended_receipt_reads_back_witness:
  "list_receipts 20 (fresh_application\<lparr> ap_log := Some (dumps first_receipt @ [CHR 0x0A]) \<rparr>) = Inr ([normalise first_receipt], False)"
  using appended_receipt_reads_back[OF first_receipt_appended, of "[]" 20]
  by (simp add: log_ok_def read_log_def first_receipt_text dict_ok_def)

text \<open>A process that stops right after the pointer moved.\<close>

definition sample_change :: change where
  "sample_change = activation_change g1 ''t1'' JNull JNull two_generations"

definition stopped_application :: application where
  "stopped_application =
     fresh_application\<lparr> ap_root := (mark_receipt_pending (change_marker sample_change) two_generations)\<lparr> rr_pointer := Some second_pointer \<rparr> \<rparr>"

lemma sample_change_fields: "ch_active sample_change = g1" "ch_operation sample_change = ''refresh_activation''"
    "ch_occurred sample_change = ''t1''" "ch_manifest sample_change = JNull"
  by (simp_all add: sample_change_def activation_change_def Let_def)

lemma sample_moves:
  "move_pointer sample_change (mark_receipt_pending m two_generations)
     = (Inr second_pointer, (mark_receipt_pending m two_generations)\<lparr> rr_pointer := Some second_pointer \<rparr>)"
proof -
  let ?r = "mark_receipt_pending m two_generations"
  have "rr_generations ?r = [(g0, p0), (g1, p1)]" "rr_pointer ?r = Some first_pointer"
    by (simp_all add: mark_receipt_pending_def two_generations_def)
  then show ?thesis
    using sample_verified(2)[of ?r]
    by (simp add: move_pointer_def sample_change_fields activate_generation_def second_pointer_def current_pointer_def load_pointer_def
        pointer_fields Let_def)
qed

lemma stopped_reached: "stopped_application \<in> set (change_writes (\<lambda>_. None) True sample_change fresh_application)"
proof -
  let ?r = "append_receipt (\<lambda>_. None) True (ch_operation sample_change) (jget second_pointer ''previous_generation_id'')
    (ch_active sample_change) (ch_manifest sample_change) (ch_occurred sample_change) stopped_application"
  obtain x b where "?r = (x, b)" by fastforce
  then show ?thesis by (cases x) (simp_all add: change_writes_def sample_moves stopped_application_def Let_def)
qed

lemma no_silent_activation_witness: "reports_gap 20 stopped_application"
proof -
  have pointer: "current_pointer two_generations = first_pointer"
    by (simp add: current_pointer_def load_pointer_def two_generations_def pointer_fields)
  have wf: "wf_json first_pointer" by (simp add: first_pointer_def activation_pointer_def dict_ok_def jget_obj)
  have ne: "second_pointer \<noteq> first_pointer" using second_pointer_fields(2) pointer_fields(2) ids_differ by auto
  have "announced sample_change (ap_root fresh_application)"
      "log_ok fresh_application []" "wf_json (ch_manifest sample_change)" "wf_json (current_pointer (ap_root fresh_application))"
      "log_ok stopped_application []" "1 \<le> (20::int)" "(20::int) \<le> 100"
    by (auto simp: announced_def sample_change_def pointer pointer_fields wf log_ok_def read_log_def stopped_application_def
         sample_change_fields[unfolded sample_change_def])
  from no_silent_activation[OF this(1-4) stopped_reached this(5-7)]
  have "rr_pointer (ap_root stopped_application) \<noteq> rr_pointer (ap_root fresh_application) \<longrightarrow> reports_gap 20 stopped_application"
    by simp
  then show ?thesis using ne by (simp add: stopped_application_def two_generations_def)
qed

end
