(* ===== verification/Match_Links.thy ===== *)
theory Match_Links
  imports Settlement
begin

text \<open>
  \<open>src/server/golavo_server/matches.py\<close>: one row of the match index with the forecasts of the ledger
  that are linked to it.  The index itself is a table built by the ingest; a row is a record of its
  cells, \<open>None\<close> where the cell is missing.  \<open>fold_name\<close> and \<open>stamp\<close> are as in \<open>Settlement\<close>.  A date no
  reader understands raises, as \<open>Inl\<close>.
\<close>

section \<open>Links\<close>

type_synonym link_key = "string \<times> string \<times> string"

record links =
  lk_by_match_id :: "(string, json list) dict"
  lk_by_fixture :: "(link_key, json list) dict"

definition link_key ::
  "(string \<Rightarrow> string) \<Rightarrow> (string \<Rightarrow> string option) \<Rightarrow> string \<Rightarrow> string \<Rightarrow> string \<Rightarrow> unit + link_key" where
  "link_key fold_name stamp date home away =
     (case fixture_date stamp date of None \<Rightarrow> Inl () | Some day \<Rightarrow> Inr (day, fold_name home, fold_name away))"

definition summary_card :: "json \<Rightarrow> json" where
  "summary_card obj =
     (let forecast = (if is_obj (jget obj ''forecast'') then jget obj ''forecast'' else JObj []) in
      JObj [(''artifact_id'', jget obj ''artifact_id''), (''status'', jget obj ''status''),
            (''horizon'', jget forecast ''horizon''), (''sealed_at_utc'', jget forecast ''sealed_at_utc'')])"

text \<open>\<open>d.setdefault(k, []).append(x)\<close>.\<close>

definition append_at :: "'k \<Rightarrow> 'v \<Rightarrow> ('k, 'v list) dict \<Rightarrow> ('k, 'v list) dict" where
  "append_at k x d = dict_set k ((case dict_get d k of None \<Rightarrow> [] | Some xs \<Rightarrow> xs) @ [x]) d"

text \<open>One file of the ledger, not verified: linking is navigation.\<close>

definition link_file ::
  "(string \<Rightarrow> string) \<Rightarrow> (string \<Rightarrow> string option) \<Rightarrow> string \<Rightarrow> links \<Rightarrow> unit + links" where
  "link_file fold_name stamp data ls =
     (case read_json data of
        None \<Rightarrow> Inr ls
      | Some obj \<Rightarrow>
          if \<not> is_obj obj \<or> dict_get (obj_fields obj) ''artifact_id'' = None \<or> \<not> is_obj (jget obj ''match'') then Inr ls
          else
            let m = jget obj ''match''; card = summary_card obj;
                by_id = (if jget m ''match_id'' = JNull then lk_by_match_id ls
                         else append_at (py_text (jget m ''match_id'')) card (lk_by_match_id ls));
                ls' = ls\<lparr> lk_by_match_id := by_id \<rparr> in
            if jget m ''home_team'' = JNull \<or> jget m ''away_team'' = JNull \<or> jget m ''kickoff_utc'' = JNull then Inr ls'
            else
              bindE (link_key fold_name stamp (py_text (jget m ''kickoff_utc'')) (py_text (jget m ''home_team''))
                       (py_text (jget m ''away_team'')))
                (\<lambda>key. Inr (ls'\<lparr> lk_by_fixture := append_at key card (lk_by_fixture ls) \<rparr>)))"

fun link_files ::
  "(string \<Rightarrow> string) \<Rightarrow> (string \<Rightarrow> string option) \<Rightarrow> string list \<Rightarrow> links \<Rightarrow> unit + links" where
  "link_files fold_name stamp [] ls = Inr ls"
| "link_files fold_name stamp (d # ds) ls = bindE (link_file fold_name stamp d ls) (link_files fold_name stamp ds)"

definition artifact_links ::
  "(string \<Rightarrow> string) \<Rightarrow> (string \<Rightarrow> string option) \<Rightarrow> (string, string) dict \<Rightarrow> unit + links" where
  "artifact_links fold_name stamp files =
     link_files fold_name stamp (map snd (sort_key fst files)) \<lparr> lk_by_match_id = [], lk_by_fixture = [] \<rparr>"

section \<open>Rows\<close>

record index_row =
  ix_match_id :: string
  ix_date :: "string option"
  ix_kickoff :: "string option"
  ix_precision :: "string option"
  ix_home :: "string option"
  ix_away :: "string option"
  ix_home_norm :: string
  ix_away_norm :: string
  ix_home_score :: "int option"
  ix_away_score :: "int option"
  ix_competition :: "string option"
  ix_country :: "string option"
  ix_city :: "string option"
  ix_neutral :: "bool option"
  ix_complete :: bool
  ix_source_kind :: "string option"
  ix_source_id :: "string option"
  ix_provenance :: "(string, string option) dict"
  ix_fixture_key :: "string option"

record match_view =
  mv_row :: index_row
  mv_forecasts :: "json list"
  mv_linked_by :: "string option"

definition links_for_row ::
  "(string \<Rightarrow> string) \<Rightarrow> (string \<Rightarrow> string option) \<Rightarrow> index_row \<Rightarrow> links \<Rightarrow> unit + (json list \<times> string option)" where
  "links_for_row fold_name stamp row ls =
     (case dict_get (lk_by_match_id ls) (ix_match_id row) of
        Some fs \<Rightarrow> Inr (fs, Some ''match_id'')
      | None \<Rightarrow>
          (case ix_date row of
             None \<Rightarrow> Inr ([], None)
           | Some date \<Rightarrow>
               bindE (link_key fold_name stamp date (ix_home_norm row) (ix_away_norm row)) (\<lambda>key.
                 Inr (case dict_get (lk_by_fixture ls) key of Some fs \<Rightarrow> (fs, Some ''fixture'') | None \<Rightarrow> ([], None)))))"

definition text_cell :: "string option \<Rightarrow> json" where
  "text_cell x = (case x of None \<Rightarrow> JNull | Some s \<Rightarrow> JStr s)"

definition int_cell :: "int option \<Rightarrow> json" where
  "int_cell x = (case x of None \<Rightarrow> JNull | Some i \<Rightarrow> JInt i)"

definition bool_cell :: "bool option \<Rightarrow> json" where
  "bool_cell x = (case x of None \<Rightarrow> JNull | Some b \<Rightarrow> JBool b)"

definition row_json :: "match_view \<Rightarrow> json" where
  "row_json v =
     (let row = mv_row v in JObj
       [(''match_id'', JStr (ix_match_id row)), (''kickoff_utc'', text_cell (ix_kickoff row)),
        (''kickoff_precision'', text_cell (ix_precision row)), (''home_team'', text_cell (ix_home row)),
        (''away_team'', text_cell (ix_away row)), (''home_score'', int_cell (ix_home_score row)),
        (''away_score'', int_cell (ix_away_score row)), (''competition'', text_cell (ix_competition row)),
        (''country'', text_cell (ix_country row)), (''city'', text_cell (ix_city row)), (''neutral'', bool_cell (ix_neutral row)),
        (''is_complete'', JBool (ix_complete row)), (''source_kind'', text_cell (ix_source_kind row)),
        (''source_id'', text_cell (ix_source_id row)), (''provenance'', JObj (map (\<lambda>(k, x). (k, text_cell x)) (ix_provenance row))),
        (''upstream_fixture_key'', text_cell (ix_fixture_key row)), (''forecasts'', JArr (mv_forecasts v))])"

text \<open>The first row of the index with the id; \<open>None\<close> is the 404 of the route.\<close>

definition get_match ::
  "(string \<Rightarrow> string) \<Rightarrow> (string \<Rightarrow> string option) \<Rightarrow> index_row list \<Rightarrow> string \<Rightarrow> (string, string) dict \<Rightarrow>
   unit + match_view option" where
  "get_match fold_name stamp index mid files =
     (case find (\<lambda>row. ix_match_id row = mid) index of
        None \<Rightarrow> Inr None
      | Some row \<Rightarrow>
          bindE (artifact_links fold_name stamp files) (\<lambda>ls.
          bindE (links_for_row fold_name stamp row ls) (\<lambda>(fs, how).
            Inr (Some \<lparr> mv_row = row, mv_forecasts = fs, mv_linked_by = how \<rparr>))))"

definition match_detail :: "match_view \<Rightarrow> json" where
  "match_detail v = JObj
     [(''schema_version'', JStr ''0.2.0''), (''match'', row_json v), (''linked_by'', text_cell (mv_linked_by v))]"

end
