(* ===== verification/Packstore.thy ===== *)
theory Packstore
  imports Csv "HOL-Library.Product_Lexorder"
begin

text \<open>
  \<open>src/core/golavo_core/packstore.py\<close>: which bundled pack is current, for the search index and for
  a forward seal.  The registry only grows; per source and competition the pack with the greatest
  anchor wins.  \<open>resolve\<close> is the caller's, as in the code: where a declared path lives, with the
  directory it found, or \<open>None\<close> to decline it.
\<close>

section \<open>Candidates\<close>

datatype registry_fault = Unreadable | Key_missing | Wrong_type

record active_pack =
  ak_source :: string
  ak_competition :: string
  ak_directory :: string
  ak_pack :: pack

type_synonym resolver = "string \<Rightarrow> (string \<times> pack) option"
type_synonym candidate = "(string \<times> string) \<times> active_pack"

text \<open>\<open>v[k]\<close>.\<close>

definition index_key :: "json \<Rightarrow> string \<Rightarrow> registry_fault + json" where
  "index_key v k =
     (if is_obj v then (case dict_get (obj_fields v) k of None \<Rightarrow> Inl Key_missing | Some x \<Rightarrow> Inr x) else Inl Wrong_type)"

definition anchor_text :: "json \<Rightarrow> registry_fault + string" where
  "anchor_text entry =
     (let committed = jget entry ''upstream_committed_at_utc'' in
      if py_truthy committed then Inr (py_text committed)
      else bindE (index_key entry ''retrieved_at_utc'') (\<lambda>v. Inr (py_text v)))"

text \<open>An entry of the registry: declined, or a pack with its rank, the anchor before the declared path.\<close>

definition candidate_of :: "resolver \<Rightarrow> json \<Rightarrow> registry_fault + candidate option" where
  "candidate_of resolve entry =
     bindE (index_key entry ''pack'') (\<lambda>d.
       let declared = py_text d in
       (case resolve declared of
          None \<Rightarrow> Inr None
        | Some (directory, p) \<Rightarrow>
            (case dict_get (pk_files p) ''manifest.json'' of
               None \<Rightarrow> Inl Unreadable
             | Some data \<Rightarrow>
                 (case read_json data of
                    None \<Rightarrow> Inl Unreadable
                  | Some manifest \<Rightarrow>
                      bindE (guardE (is_obj manifest) Wrong_type) (\<lambda>_.
                      bindE (index_key entry ''source_id'') (\<lambda>source.
                      bindE (anchor_text entry) (\<lambda>anchor.
                        Inr (Some ((anchor, declared),
                          \<lparr> ak_source = py_text source, ak_competition = text_or_empty (jget manifest ''competition''),
                            ak_directory = directory, ak_pack = p \<rparr>)))))))))"

text \<open>What a \<open>for\<close> loop takes from a JSON value.\<close>

definition iter_json :: "json \<Rightarrow> registry_fault + json list" where
  "iter_json v =
     (case v of
        JArr vs \<Rightarrow> Inr vs
      | JObj kvs \<Rightarrow> Inr (map (\<lambda>(k, x). JStr k) kvs)
      | JStr s \<Rightarrow> Inr (map (\<lambda>c. JStr [c]) s)
      | _ \<Rightarrow> Inl Wrong_type)"

definition registry_entries :: "string option \<Rightarrow> registry_fault + json list" where
  "registry_entries registry =
     (case registry of
        None \<Rightarrow> Inr []
      | Some data \<Rightarrow>
          (case read_json data of
             None \<Rightarrow> Inl Unreadable
           | Some r \<Rightarrow>
               bindE (guardE (is_obj r) Wrong_type) (\<lambda>_.
                 (case dict_get (obj_fields r) ''snapshots'' of None \<Rightarrow> Inr [] | Some v \<Rightarrow> iter_json v))))"

section \<open>The current packs\<close>

definition group_of :: "active_pack \<Rightarrow> string \<times> string" where
  "group_of a = (ak_source a, ak_competition a)"

definition keep_best :: "candidate \<Rightarrow> (string \<times> string, candidate) dict \<Rightarrow> (string \<times> string, candidate) dict" where
  "keep_best c best =
     (case dict_get best (group_of (snd c)) of
        None \<Rightarrow> dict_set (group_of (snd c)) c best
      | Some incumbent \<Rightarrow> if fst c > fst incumbent then dict_set (group_of (snd c)) c best else best)"

definition present :: "'a option list \<Rightarrow> 'a list" where
  "present xs = concat (map (\<lambda>x. case x of None \<Rightarrow> [] | Some y \<Rightarrow> [y]) xs)"

definition active_packs :: "string option \<Rightarrow> resolver \<Rightarrow> registry_fault + active_pack list" where
  "active_packs registry resolve =
     bindE (registry_entries registry) (\<lambda>entries.
     bindE (mapE (candidate_of resolve) entries) (\<lambda>cs.
       Inr (sort_key ak_directory (map (\<lambda>(g, c). snd c) (fold keep_best (present cs) [])))))"

definition active_pack ::
  "string option \<Rightarrow> resolver \<Rightarrow> string \<Rightarrow> string option \<Rightarrow> registry_fault + active_pack option" where
  "active_pack registry resolve source competition =
     bindE (active_packs registry resolve) (\<lambda>ps.
       Inr (find (\<lambda>p. ak_source p = source \<and> (case competition of None \<Rightarrow> True | Some c \<Rightarrow> ak_competition p = c)) ps))"

section \<open>The greatest anchor wins\<close>

definition ranked :: "candidate list \<Rightarrow> candidate \<Rightarrow> bool" where
  "ranked cs c \<longleftrightarrow> c \<in> set cs \<and> list_all (\<lambda>d. group_of (snd d) \<noteq> group_of (snd c) \<or> fst d \<le> fst c) cs"

definition best_of :: "candidate list \<Rightarrow> (string \<times> string, candidate) dict \<Rightarrow> bool" where
  "best_of cs best \<longleftrightarrow> dict_ok best \<and> (\<forall>g c. dict_get best g = Some c \<longrightarrow> group_of (snd c) = g \<and> ranked cs c)
     \<and> (\<forall>c \<in> set cs. dict_get best (group_of (snd c)) \<noteq> None)"

lemma ranked_snoc:
  "ranked (cs @ [d]) c \<longleftrightarrow> (ranked cs c \<and> (group_of (snd d) \<noteq> group_of (snd c) \<or> fst d \<le> fst c))
     \<or> (c = d \<and> list_all (\<lambda>e. group_of (snd e) \<noteq> group_of (snd c) \<or> fst e \<le> fst c) cs)"
  by (auto simp: ranked_def)

lemma keep_best_step:
  assumes "best_of cs best"
  shows "best_of (cs @ [d]) (keep_best d best)"
proof -
  let ?g = "group_of (snd d)"
  note b = assms[unfolded best_of_def]
  have ok: "dict_ok (keep_best d best)" using b by (auto simp: keep_best_def split: option.split)
  have get: "dict_get (keep_best d best) g = (if g = ?g \<and> (\<forall>i. dict_get best ?g = Some i \<longrightarrow> fst d > fst i) then Some d else dict_get best g)" for g
    by (auto simp: keep_best_def split: option.split)
  have beats: "list_all (\<lambda>e. group_of (snd e) \<noteq> ?g \<or> fst e \<le> fst d) cs" if "\<forall>i. dict_get best ?g = Some i \<longrightarrow> fst d > fst i"
  proof -
    have "fst e \<le> fst d" if e: "e \<in> set cs" "group_of (snd e) = ?g" for e
    proof -
      obtain i where i: "dict_get best ?g = Some i" using b e by fastforce
      then have "ranked cs i" "group_of (snd i) = ?g" using b by blast+
      then have "fst e \<le> fst i" using e by (auto simp: ranked_def list_all_iff)
      moreover have "fst d > fst i" using \<open>\<forall>i. dict_get best ?g = Some i \<longrightarrow> fst d > fst i\<close> i by blast
      ultimately show ?thesis by order
    qed
    then show ?thesis by (auto simp: list_all_iff)
  qed
  have "group_of (snd c) = g \<and> ranked (cs @ [d]) c" if "dict_get (keep_best d best) g = Some c" for g c
  proof (cases "g = ?g \<and> (\<forall>i. dict_get best ?g = Some i \<longrightarrow> fst d > fst i)")
    case True
    then have "c = d" using that get by simp
    then show ?thesis using True beats by (auto simp: ranked_snoc)
  next
    case False
    then have c: "dict_get best g = Some c" using that get[of g] by (metis (no_types, lifting))
    then have "group_of (snd c) = g" "ranked cs c" using b by blast+
    moreover have "group_of (snd d) \<noteq> g \<or> fst d \<le> fst c" using False c by (auto simp: not_less)
    ultimately show ?thesis by (auto simp: ranked_snoc)
  qed
  moreover have "dict_get (keep_best d best) (group_of (snd c)) \<noteq> None" if "c \<in> set (cs @ [d])" for c
  proof (cases "c = d")
    case True
    then show ?thesis using get[of ?g] by (cases "dict_get best ?g") (simp_all del: split_paired_All split_paired_Ex)
  next
    case False
    then have "dict_get best (group_of (snd c)) \<noteq> None" using that b by auto
    then show ?thesis using get[of "group_of (snd c)"] by (metis option.distinct(1))
  qed
  ultimately show ?thesis using ok unfolding best_of_def by blast
qed

lemma best_of_fold: "best_of cs (fold keep_best cs [])"
proof (induction cs rule: rev_induct)
  case Nil
  then show ?case by (simp add: best_of_def dict_ok_def)
next
  case (snoc c cs)
  then show ?case using keep_best_step by simp
qed

text \<open>The candidates a registry declares.\<close>

definition registered :: "string option \<Rightarrow> resolver \<Rightarrow> candidate list" where
  "registered registry resolve =
     (case registry_entries registry of
        Inl _ \<Rightarrow> []
      | Inr entries \<Rightarrow> concat (map (\<lambda>e. case candidate_of resolve e of Inr (Some c) \<Rightarrow> [c] | _ \<Rightarrow> []) entries))"

lemma present_registered:
  "mapE f es = Inr cs \<Longrightarrow> present cs = concat (map (\<lambda>e. case f e of Inr (Some c) \<Rightarrow> [c] | _ \<Rightarrow> []) es)"
proof (induction es arbitrary: cs)
  case (Cons e es)
  then show ?case by (cases "f e"; cases "mapE f es") (auto simp: present_def split: option.splits)
qed (simp add: present_def)

lemma active_packs_Inr:
  assumes "active_packs registry resolve = Inr ps"
  shows "\<exists>best. best_of (registered registry resolve) best \<and> ps = sort_key ak_directory (map (\<lambda>(g, c). snd c) best)"
proof -
  obtain es cs where es: "registry_entries registry = Inr es" "mapE (candidate_of resolve) es = Inr cs"
      "ps = sort_key ak_directory (map (\<lambda>(g, c). snd c) (fold keep_best (present cs) []))"
    using assms by (auto simp: active_packs_def bindE_Inr)
  have "present cs = registered registry resolve" using present_registered[OF es(2)] es(1) by (simp add: registered_def)
  then show ?thesis using es(3) best_of_fold by metis
qed

lemma best_groups: "best_of cs best \<Longrightarrow> map (\<lambda>(g, c). group_of (snd c)) best = dict_keys best"
proof -
  assume b: "best_of cs best"
  have "group_of (snd c) = g" if "(g, c) \<in> set best" for g c
  proof -
    have "dict_get best g = Some c" using b that dict_get_in[of best g c] by (simp add: best_of_def)
    then show ?thesis using b unfolding best_of_def by blast
  qed
  then show ?thesis by auto
qed

lemma find_unique: "distinct (map f xs) \<Longrightarrow> set_option (find (\<lambda>x. f x = y) xs) = {x \<in> set xs. f x = y}"
  by (induction xs) (auto, metis imageI)

text \<open>
  C30: the current packs are the newest of each group.  For one registry and one resolver, per source
  and competition of the entries the resolver accepts there is exactly one current pack, no accepted
  entry of its group ranks higher, they come ordered by directory, and asking for a source and a
  competition answers exactly that group's pack, or nothing when the group is empty.  Callers with
  different resolvers (the search index never declines an entry, a seal declines what the build does
  not ship) are two instances of this statement and need not answer the same pack.
\<close>

theorem current_pack_is_newest:
  assumes "active_packs registry resolve = Inr ps"
  shows "\<exists>found. active_pack registry resolve s (Some c) = Inr found
       \<and> set_option found = {p \<in> set ps. group_of p = (s, c)}
       \<and> distinct (map group_of ps) \<and> sorted (map ak_directory ps)
       \<and> set (map group_of ps) = set (map (\<lambda>x. group_of (snd x)) (registered registry resolve))
       \<and> list_all (\<lambda>p. list_ex (\<lambda>x. snd x = p \<and> ranked (registered registry resolve) x) (registered registry resolve)) ps"
proof -
  obtain best where best: "best_of (registered registry resolve) best" "ps = sort_key ak_directory (map (\<lambda>(g, c). snd c) best)"
    using active_packs_Inr[OF assms] by blast
  note b = best(1)[unfolded best_of_def]
  have groups: "mset (map group_of ps) = mset (dict_keys best)"
  proof -
    have "map group_of (map (\<lambda>(g, c). snd c) best) = dict_keys best"
      using best_groups[OF best(1)] by (simp add: comp_def case_prod_unfold)
    then show ?thesis unfolding best(2) by (metis mset_map mset_sort)
  qed
  have dist: "distinct (map group_of ps)"
    using groups b by (metis dict_ok_def mset_eq_imp_distinct_iff)
  have "set (map group_of ps) = set (dict_keys best)" using groups by (metis mset_eq_setD)
  moreover have "set (dict_keys best) = set (map (\<lambda>x. group_of (snd x)) (registered registry resolve))"
  proof -
    have "g \<in> set (dict_keys best) \<longleftrightarrow> dict_get best g \<noteq> None" for g
      using map_of_eq_None_iff[of best g] by auto
    moreover have "dict_get best g \<noteq> None \<longleftrightarrow> g \<in> set (map (\<lambda>x. group_of (snd x)) (registered registry resolve))" for g
    proof
      assume "dict_get best g \<noteq> None"
      then obtain x where "dict_get best g = Some x" by blast
      then have "group_of (snd x) = g" "ranked (registered registry resolve) x" using b by blast+
      then show "g \<in> set (map (\<lambda>x. group_of (snd x)) (registered registry resolve))" by (auto simp: ranked_def)
    next
      assume "g \<in> set (map (\<lambda>x. group_of (snd x)) (registered registry resolve))"
      then obtain x where x: "x \<in> set (registered registry resolve)" "group_of (snd x) = g" by auto
      have "dict_get best (group_of (snd x)) \<noteq> None" using b x(1) by blast
      then show "dict_get best g \<noteq> None" unfolding x(2) .
    qed
    ultimately show ?thesis by blast
  qed
  moreover have "list_ex (\<lambda>x. snd x = p \<and> ranked (registered registry resolve) x) (registered registry resolve)" if "p \<in> set ps" for p
  proof -
    have "p \<in> (\<lambda>y. snd (snd y)) ` set best" using that by (simp add: best(2) case_prod_unfold)
    then obtain y where y: "y \<in> set best" "p = snd (snd y)" by blast
    define x where "x = snd y"
    have x: "p = snd x" using y(2) by (simp add: x_def)
    have "dict_get best (fst y) = Some x" using b dict_get_in[of best "fst y" x] y(1) by (simp add: x_def)
    then have "ranked (registered registry resolve) x" using b by blast
    then show ?thesis using x unfolding list_ex_iff ranked_def by blast
  qed
  then have "list_all (\<lambda>p. list_ex (\<lambda>x. snd x = p \<and> ranked (registered registry resolve) x) (registered registry resolve)) ps"
    by (simp add: list_all_iff)
  moreover have "active_pack registry resolve s (Some c) = Inr (find (\<lambda>p. group_of p = (s, c)) ps)"
    using assms by (simp add: active_pack_def group_of_def)
  moreover have "set_option (find (\<lambda>p. group_of p = (s, c)) ps) = {p \<in> set ps. group_of p = (s, c)}"
    using dist by (rule find_unique)
  moreover have "sorted (map ak_directory ps)" by (simp add: best(2))
  ultimately show ?thesis using dist by (intro exI[of _ "find (\<lambda>p. group_of p = (s, c)) ps"] conjI) (assumption | rule trans)+
qed

end
