(* ===== verification/Seal_Route.thy ===== *)
theory Seal_Route
  imports Match_Links Packstore Refresh_State
begin

text \<open>
  \<open>src/server/golavo_server/seal.py\<close>: the one write of the app's forecast route.  A request names a
  fixture and a model family; the pack is resolved from the fixture's source, the instant is the
  server's clock, and the seal goes through the engine of \<open>Artifacts\<close>.  The refreshed packs are those
  of \<open>Refresh_State\<close>, through the two readers of \<open>runtime.py\<close>.  Parameters: reading the matches of a
  pack (\<open>load\<close>, a table read by pandas; \<open>None\<close> is its \<open>ValueError\<close>), the signature check, the fit.
\<close>

section \<open>Resolving a pack\<close>

record pack_store =
  st_refresh :: "refresh_root option"
  st_legacy :: pack
  st_registry :: "string option"
  st_bundled :: "(string, pack) dict"

definition has_manifest :: "pack \<Rightarrow> bool" where
  "has_manifest p \<longleftrightarrow> ''manifest.json'' \<in> set (dict_keys (pk_files p))"

definition refreshed_pack_dir :: "pack_store \<Rightarrow> unit + pack option" where
  "refreshed_pack_dir st =
     (case st_refresh st of
        None \<Rightarrow> Inr None
      | Some r \<Rightarrow>
          bindE (active_pack_dir r) (\<lambda>active. Inr (Some (case active of Some p \<Rightarrow> p | None \<Rightarrow> st_legacy st))))"

definition refreshed_club_pack_dir :: "pack_store \<Rightarrow> string \<Rightarrow> unit + pack option" where
  "refreshed_club_pack_dir st competition =
     (case st_refresh st of None \<Rightarrow> Inr None | Some r \<Rightarrow> active_club_pack_dir competition r)"

definition bundled_resolver :: "pack_store \<Rightarrow> resolver" where
  "bundled_resolver st declared =
     (case dict_get (st_bundled st) (path_name declared) of
        Some p \<Rightarrow> if has_manifest p then Some (path_name declared, p) else None
      | None \<Rightarrow> None)"

definition active_bundled_pack :: "pack_store \<Rightarrow> string \<Rightarrow> string option \<Rightarrow> unit + pack option" where
  "active_bundled_pack st source competition =
     (case active_pack (st_registry st) (bundled_resolver st) source competition of
        Inl _ \<Rightarrow> Inl ()
      | Inr found \<Rightarrow> Inr (map_option ak_pack found))"

definition international_source_id :: string where "international_source_id = ''martj42-international-results''"
definition international_pack_name :: string where "international_pack_name = ''martj42-internationals''"

text \<open>\<open>Inl\<close> is an exception that no handler of the route types.\<close>

definition resolve_pack_dir ::
  "pack_store \<Rightarrow> string option \<Rightarrow> string option \<Rightarrow> string option \<Rightarrow> unit + pack option" where
  "resolve_pack_dir st source_id source_kind competition =
     (if source_kind = Some ''club'' then
        (case (source_id, competition) of
           (Some source, Some league) \<Rightarrow>
             if source = [] \<or> league = [] then Inr None
             else bindE (refreshed_club_pack_dir st league) (\<lambda>refreshed.
               (case refreshed of
                  Some p \<Rightarrow> if has_manifest p then Inr (Some p) else active_bundled_pack st source (Some league)
                | None \<Rightarrow> active_bundled_pack st source (Some league)))
         | _ \<Rightarrow> Inr None)
      else if source_kind \<noteq> Some ''international'' \<or> source_id \<noteq> Some international_source_id then Inr None
      else
        bindE (refreshed_pack_dir st) (\<lambda>refreshed.
          if (case refreshed of Some p \<Rightarrow> has_manifest p | None \<Rightarrow> False) then Inr refreshed
          else bindE (active_bundled_pack st international_source_id None) (\<lambda>active.
            (case active of
               Some p \<Rightarrow> Inr (Some p)
             | None \<Rightarrow>
                 (case dict_get (st_bundled st) international_pack_name of
                    Some p \<Rightarrow> Inr (if has_manifest p then Some p else None)
                  | None \<Rightarrow> Inr None)))))"

section \<open>Eligibility\<close>

definition default_family :: string where "default_family = ''dixon_coles''"
definition allowed_families :: "string list" where
  "allowed_families = [''dixon_coles'', ''poisson_independent'', ''elo_ordlogit'', ''climatological'']"
definition default_horizon :: string where "default_horizon = ''T-24h''"

record eligibility_verdict =
  ev_family :: string
  ev_existing :: "json list"
  ev_can_seal :: bool
  ev_reason :: string
  ev_detail :: string

definition existing_ids :: "match_view \<Rightarrow> json list" where
  "existing_ids v =
     concat (map (\<lambda>f. case dict_get (obj_fields f) ''artifact_id'' of Some i \<Rightarrow> [i] | None \<Rightarrow> []) (mv_forecasts v))"

text \<open>A kickoff that no reader understands raises.\<close>

definition eligibility :: "pack_store \<Rightarrow> match_view \<Rightarrow> dt \<Rightarrow> unit + eligibility_verdict" where
  "eligibility st v now =
     (let row = mv_row v;
          verdict = (\<lambda>ok reason detail. \<lparr> ev_family = default_family, ev_existing = existing_ids v, ev_can_seal = ok,
                       ev_reason = reason, ev_detail = detail \<rparr>) in
      if ix_complete row then
        Inr (verdict False ''fixture_complete'' ''this fixture already has a result; a forward seal targets a scheduled fixture'')
      else if ix_source_kind row \<notin> {Some ''international'', Some ''club''}
           \<or> (ix_source_kind row = Some ''international'' \<and> ix_source_id row \<noteq> Some international_source_id) then
        Inr (verdict False ''unsupported_competition''
               ''forward seals cover men's senior internationals and the bundled domestic leagues'')
      else
        bindE (resolve_pack_dir st (ix_source_id row) (ix_source_kind row) (ix_competition row)) (\<lambda>pack.
          if pack = None then
            Inr (verdict False ''pack_unavailable'' ''the pinned data pack for this fixture is not available in this build'')
          else
            (case ix_kickoff row of
               None \<Rightarrow> Inr (verdict False ''no_kickoff'' ''this fixture has no usable kickoff time'')
             | Some kickoff \<Rightarrow>
                 (case parse_iso kickoff of
                    None \<Rightarrow> Inl ()
                  | Some k \<Rightarrow>
                      if now \<ge> k then
                        Inr (verdict False ''kickoff_passed''
                               ''the seal window closes at kickoff (date-only source: 00:00 UTC on match day)'')
                      else Inr (verdict True ''eligible'' ''a local forecast can be sealed for this fixture'')))))"

section \<open>Errors\<close>

text \<open>A typed refusal with its HTTP status, or an exception that is not typed.\<close>

datatype seal_error = Refused nat string | Escapes

datatype seal_fault = Pack_fault pack_error | Load_fault | Engine aerror

fun contains :: "string \<Rightarrow> string \<Rightarrow> bool" where
  "contains pat [] \<longleftrightarrow> pat = []"
| "contains pat (c # cs) \<longleftrightarrow> starts_with pat (c # cs) \<or> contains pat cs"

definition lower_char :: "char \<Rightarrow> char" where
  "lower_char c = (let n = of_char c :: nat in if 65 \<le> n \<and> n \<le> 90 then char_of (n + 32) else c)"

definition reason_for :: "string \<Rightarrow> string" where
  "reason_for message =
     (let msg = map lower_char message in
      if contains ''already has a result'' msg then ''fixture_complete''
      else if contains ''before kickoff'' msg \<or> contains ''must be before kickoff'' msg then ''kickoff_passed''
      else if contains ''before the snapshot'' msg then ''snapshot_anchor''
      else if contains ''expected exactly one match'' msg then ''fixture_not_in_pack''
      else if contains ''unknown model family'' msg then ''unsupported_family''
      else ''seal_rejected'')"

text \<open>
  The message of a \<open>ValueError\<close> of the engine, up to the values it quotes after it; \<open>None\<close> for the
  exceptions that are not one (\<open>KeyError\<close>, \<open>TypeError\<close>, the schema's \<open>ValidationError\<close>).
\<close>

definition engine_message :: "seal_fault \<Rightarrow> string option" where
  "engine_message e =
     (case e of
        Pack_fault (Key_error k) \<Rightarrow> None
      | Pack_fault Type_error \<Rightarrow> None
      | Engine Schema_invalid \<Rightarrow> None
      | Engine Type_failure \<Rightarrow> None
      | Engine Unknown_family \<Rightarrow> Some ''unknown model family: ''
      | Engine Anchor_in_future \<Rightarrow>
          Some (''cannot seal as-of a time before the snapshot's data state existed '' @
                ''(upstream commit time, or our retrieval time when no commit time is pinned)'')
      | Engine Not_one_match \<Rightarrow> Some ''expected exactly one match for ''
      | Engine Already_complete \<Rightarrow>
          Some ''fixture already has a result in this snapshot; a forward seal targets a scheduled fixture''
      | Engine Not_before_kickoff \<Rightarrow>
          Some (''sealed_at_utc must be before kickoff_utc (dates-only source: kickoff is '' @
                ''the conservative 00:00 UTC day proxy)'')
      | _ \<Rightarrow> Some [])"

definition seal_failure :: "seal_fault \<Rightarrow> seal_error" where
  "seal_failure e =
     (if e = Engine Collision then Refused 409 ''artifact_collision''
      else (case engine_message e of Some m \<Rightarrow> Refused 422 (reason_for m) | None \<Rightarrow> Escapes))"

section \<open>The seal\<close>

definition is_seal_of :: "string \<Rightarrow> string \<Rightarrow> json \<Rightarrow> bool" where
  "is_seal_of mid family v \<longleftrightarrow>
     jget (jget v ''match'') ''match_id'' = JStr mid \<and> jget (jget v ''model'') ''family'' = JStr family
     \<and> jget v ''status'' \<in> {JStr ''sealed'', JStr ''abstained''} \<and> jget v ''supersedes'' = JNull"

text \<open>The whole ledger is read and verified; a fault or a second root refuses.\<close>

definition existing_seal :: "(string \<Rightarrow> string \<Rightarrow> bool) \<Rightarrow> (string, string) dict \<Rightarrow> string \<Rightarrow> string \<Rightarrow> seal_error + json option" where
  "existing_seal fmt files mid family =
     bindE (mapE (\<lambda>(stem, data). case load_verified_artifact fmt stem data of
                    Inl _ \<Rightarrow> Inl (Refused 409 ''artifact_integrity'') | Inr v \<Rightarrow> Inr v)
             (sort_key fst files)) (\<lambda>vs.
       (case filter (is_seal_of mid family) vs of
          [] \<Rightarrow> Inr None
        | [v] \<Rightarrow> Inr (Some v)
        | _ \<Rightarrow> Inl (Refused 409 ''artifact_integrity'')))"

definition result_view :: "bool \<Rightarrow> json \<Rightarrow> json" where
  "result_view created v = JObj
     [(''created'', JBool created), (''artifact_id'', jget v ''artifact_id''), (''status'', jget v ''status''),
      (''family'', jget (jget v ''model'') ''family''),
      (''abstained'', JBool (py_truthy (jget (jget v ''forecast'') ''abstained''))),
      (''abstain_reason'', jget (jget v ''forecast'') ''abstain_reason'')]"

definition pack_snapshots :: "(string \<Rightarrow> string \<Rightarrow> bool) \<Rightarrow> bool \<Rightarrow> pack \<Rightarrow> pack_error + json list" where
  "pack_snapshots sig_ok required p =
     bindE (snapshot_descriptor sig_ok required p) (\<lambda>s.
     bindE (co_source_descriptors sig_ok required p) (\<lambda>cs. Inr (s # cs)))"

text \<open>What a deployment fixes: format check, signature check and policy, version, reader, models.\<close>

record engine =
  en_fmt :: "string \<Rightarrow> string \<Rightarrow> bool"
  en_sig_ok :: "string \<Rightarrow> string \<Rightarrow> bool"
  en_required :: bool
  en_environment :: environment
  en_load :: "pack \<Rightarrow> frame option"
  en_fit :: "string \<Rightarrow> frame \<Rightarrow> dt \<Rightarrow> string \<Rightarrow> string \<Rightarrow> bool \<Rightarrow> prediction"

text \<open>
  \<open>seal_forecast\<close> of a pack directory: the snapshots are read before the matches, and the anchor is
  compared in between.
\<close>

definition seal_pack :: "engine \<Rightarrow> pack \<Rightarrow> seal_request \<Rightarrow> ledger \<Rightarrow> (seal_fault + string) \<times> ledger" where
  "seal_pack en p rq l =
     (case pack_snapshots (en_sig_ok en) (en_required en) p of
        Inl e \<Rightarrow> (Inl (Pack_fault e), l)
      | Inr snapshots \<Rightarrow>
          (case en_load en p of
             None \<Rightarrow>
               (Inl (case (latest_anchor snapshots, parse_iso (rq_as_of rq)) of
                       (Some anchor, Some as_of) \<Rightarrow> if anchor > as_of then Engine Anchor_in_future else Load_fault
                     | _ \<Rightarrow> Engine Bad_time), l)
           | Some frame \<Rightarrow>
               (case seal_forecast (en_fmt en) (en_environment en) (en_fit en) snapshots frame rq l of
                  (Inl e, l') \<Rightarrow> (Inl (Engine e), l') | (Inr s, l') \<Rightarrow> (Inr s, l'))))"

definition default_seed :: int where "default_seed = 20260710"

definition request_for :: "match_view \<Rightarrow> string \<Rightarrow> string \<Rightarrow> dt \<Rightarrow> seal_request" where
  "request_for v mid family now =
     (let row = mv_row v; text = (\<lambda>x. case x of Some s \<Rightarrow> s | None \<Rightarrow> []) in
      \<lparr> rq_date = take 10 (text (ix_kickoff row)), rq_home = text (ix_home row), rq_away = text (ix_away row),
        rq_as_of = dt_iso now, rq_horizon = default_horizon, rq_family = family, rq_seed = default_seed, rq_match_id = Some mid \<rparr>)"

text \<open>The part under the seal lock; the notebook written after it is context beside the ledger.\<close>

definition seal_once :: "engine \<Rightarrow> pack \<Rightarrow> match_view \<Rightarrow> string \<Rightarrow> string \<Rightarrow> dt \<Rightarrow> ledger \<Rightarrow> (seal_error + json) \<times> ledger" where
  "seal_once en p v mid family now l =
     (case existing_seal (en_fmt en) (lg_files l) mid family of
        Inl e \<Rightarrow> (Inl e, l)
      | Inr (Some a) \<Rightarrow> (Inr (result_view False a), l)
      | Inr None \<Rightarrow>
          (case seal_pack en p (request_for v mid family now) l of
             (Inl e, l') \<Rightarrow> (Inl (seal_failure e), l')
           | (Inr s, l') \<Rightarrow>
               (case load_verified_artifact (en_fmt en) s (case dict_get (lg_files l') s of Some d \<Rightarrow> d | None \<Rightarrow> []) of
                  Inl _ \<Rightarrow> (Inl Escapes, l')
                | Inr a \<Rightarrow> (Inr (result_view True a), l'))))"

definition seal_match ::
  "(string \<Rightarrow> string) \<Rightarrow> (string \<Rightarrow> string option) \<Rightarrow> engine \<Rightarrow> pack_store \<Rightarrow> index_row list \<Rightarrow> string \<Rightarrow> string \<Rightarrow> dt \<Rightarrow>
   ledger \<Rightarrow> (seal_error + json) \<times> ledger" where
  "seal_match fold_name stamp en st index mid family now l =
     (if family \<notin> set allowed_families then (Inl (Refused 422 ''unsupported_family''), l)
      else
        (case get_match fold_name stamp index mid (lg_files l) of
           Inl _ \<Rightarrow> (Inl Escapes, l)
         | Inr None \<Rightarrow> (Inl (Refused 404 ''match_not_found''), l)
         | Inr (Some v) \<Rightarrow>
             (case eligibility st v now of
                Inl _ \<Rightarrow> (Inl Escapes, l)
              | Inr verdict \<Rightarrow>
                  if \<not> ev_can_seal verdict then
                    (Inl (Refused (if ev_reason verdict = ''pack_unavailable'' then 503 else 422) (ev_reason verdict)), l)
                  else
                    (case resolve_pack_dir st (ix_source_id (mv_row v)) (ix_source_kind (mv_row v)) (ix_competition (mv_row v)) of
                       Inr (Some p) \<Rightarrow> seal_once en p v mid family now l
                     | _ \<Rightarrow> (Inl Escapes, l)))))"

end
