(* ===== verification/Seal_Route_Laws.thy ===== *)
theory Seal_Route_Laws
  imports Seal_Route Settlement_Safety
begin

text \<open>
  What the seal route guarantees, together with settlement: one root per fixture and family, a
  repeated request answered with the seal that exists, and no seal outside its window.
\<close>

section \<open>What a seal adds\<close>

lemma descriptor_wf: "descriptor_json m sha = Inr d \<Longrightarrow> wf_json d"
  by (auto simp: descriptor_json_def bindE_Inr dict_ok_def split: if_splits)

lemma mapE_all: "mapE f xs = Inr ys \<Longrightarrow> (\<And>x y. f x = Inr y \<Longrightarrow> P y) \<Longrightarrow> list_all P ys"
  by (induction xs arbitrary: ys) (auto split: sum.splits)

lemma pack_snapshots_wf: "pack_snapshots sig_ok required p = Inr ss \<Longrightarrow> list_all wf_json ss"
proof -
  assume "pack_snapshots sig_ok required p = Inr ss"
  then obtain s cs where s: "snapshot_descriptor sig_ok required p = Inr s" "co_source_descriptors sig_ok required p = Inr cs" "ss = s # cs"
    unfolding pack_snapshots_def bindE_Inr by blast
  obtain m sha where "descriptor_json m sha = Inr s" using s(1) unfolding snapshot_descriptor_def bindE_Inr by blast
  then have "wf_json s" by (rule descriptor_wf)
  moreover have "cs = [] \<or> (\<exists>es. mapE (co_source_descriptor p) es = Inr cs)"
  proof -
    obtain m where "(case dict_get (obj_fields m) ''co_sources'' of None \<Rightarrow> Inr []
        | Some (JArr entries) \<Rightarrow> mapE (co_source_descriptor p) entries | Some _ \<Rightarrow> Inl Type_error) = Inr cs"
      using s(2) unfolding co_source_descriptors_def bindE_Inr by blast
    then show ?thesis
      by (cases "dict_get (obj_fields m) ''co_sources''"; cases "the (dict_get (obj_fields m) ''co_sources'')") auto
  qed
  then have "list_all wf_json cs"
  proof (elim disjE exE)
    fix es assume "mapE (co_source_descriptor p) es = Inr cs"
    then show ?thesis by (rule mapE_all) (unfold co_source_descriptor_def bindE_Inr, blast intro: descriptor_wf)
  qed simp
  ultimately show ?thesis by (simp add: s(3))
qed

lemma find_match_id: "find_match f d h a (Some mid) = Inr m \<Longrightarrow> mr_id m = mid"
proof -
  assume a: "find_match f d h a (Some mid) = Inr m"
  then obtain day where "filter (\<lambda>r. mr_date r = Some day \<and> mr_home r = h \<and> mr_away r = a
      \<and> (Some mid = None \<or> Some mid = Some (mr_id r))) (fr_rows f) = [m]"
    by (auto simp: find_match_def split: option.splits list.splits)
  then have "m \<in> set (filter (\<lambda>r. mr_date r = Some day \<and> mr_home r = h \<and> mr_away r = a
      \<and> (Some mid = None \<or> Some mid = Some (mr_id r))) (fr_rows f))" by simp
  then show ?thesis by simp
qed

text \<open>The root of a request: its fixture and family, its instant, and a kickoff after it.\<close>

definition sealed_as :: "string \<Rightarrow> seal_request \<Rightarrow> string \<Rightarrow> json \<Rightarrow> bool" where
  "sealed_as mid rq s x \<longleftrightarrow> is_seal_of mid (rq_family rq) x \<and> id_of x = s \<and> jget x ''artifact_id'' = JStr s
     \<and> jget (jget x ''forecast'') ''sealed_at_utc'' = JStr (rq_as_of rq)
     \<and> (\<exists>as_of k. parse_iso (rq_as_of rq) = Some as_of \<and> as_of < k
          \<and> jget (jget x ''match'') ''kickoff_utc'' = JStr (dt_iso k))"

lemma artifact_json_parts:
  "jget (artifact_json en rq m as_of k c snapshots hc ac ab nm) ''match'' = JObj
     [(''match_id'', JStr (mr_id m)), (''competition'', JStr (mr_tournament m)), (''stage'', JNull),
      (''kickoff_utc'', JStr (dt_iso k)), (''home_team'', JStr (rq_home rq)),
      (''away_team'', JStr (rq_away rq)), (''neutral_venue'', JBool (mr_neutral m)),
      (''city'', jtext (mr_city m)), (''country'', jtext (mr_country m))]"
  "jget (artifact_json en rq m as_of k c snapshots hc ac ab nm) ''model'' = JObj
     [(''model_id'', JStr (rq_family rq @ ''_phase0'')), (''family'', JStr (rq_family rq)),
      (''version'', JStr (en_version en)), (''params_hash'', JStr (params_hash (nm_params nm))),
      (''code_git_sha'', JStr (en_code_sha en)), (''seed'', JInt (rq_seed rq))]"
  by (simp_all add: artifact_json_def jget_obj)

lemma request_written:
  assumes "of_request en snapshots matches rq a" "written_as s a x" "rq_match_id rq = Some mid"
    and "jget a ''supersedes'' = JNull" "jget a ''status'' \<in> {JStr ''sealed'', JStr ''abstained''}"
  shows "sealed_as mid rq s x"
proof -
  obtain as_of m k view hc ac few nm where r: "parse_iso (rq_as_of rq) = Some as_of"
      "find_match matches (rq_date rq) (rq_home rq) (rq_away rq) (rq_match_id rq) = Inr m" "mr_kickoff m = Some k" "as_of < k"
      "leak_safe_training_view matches m (Some as_of) = Inr view"
      "a = artifact_json en rq m as_of (tv_kickoff view) (tv_cutoff view) snapshots hc ac few nm"
    using assms(1) unfolding of_request_def by blast
  have view: "tv_kickoff view = k" using r(3,5) by (auto simp: view_rows)
  have mid: "mr_id m = mid" using find_match_id r(2) assms(3) by metis
  have x: "jget x ''match'' = normalise (jget a ''match'')" "jget x ''model'' = normalise (jget a ''model'')"
      "jget (jget x ''forecast'') ''sealed_at_utc'' = normalise (jget (jget a ''forecast'') ''sealed_at_utc'')"
    using assms(2) by (simp_all add: written_as_def)
  have wf: "wf_json (jget a ''match'')" "wf_json (jget a ''model'')"
    by (simp_all add: r(6) artifact_json_parts dict_ok_def)
  have "jget (jget x ''match'') ''match_id'' = JStr mid" "jget (jget x ''match'') ''kickoff_utc'' = JStr (dt_iso k)"
      "jget (jget x ''model'') ''family'' = JStr (rq_family rq)"
    unfolding x(1,2) jget_normal[OF wf(1)] jget_normal[OF wf(2)] by (simp_all add: r(6) artifact_json_parts jget_obj mid view)
  moreover have "jget (jget x ''forecast'') ''sealed_at_utc'' = JStr (rq_as_of rq)"
    unfolding x(3) using parse_iso_inverse[OF r(1)] by (simp add: r(6) artifact_json_get)
  moreover have "is_root x \<and> id_of x = s \<and> jget x ''status'' \<in> set root_statuses" by (rule root_written[OF assms(2,4,5)])
  moreover have "jget x ''artifact_id'' = JStr s" using assms(2) by (simp add: written_as_def)
  ultimately show ?thesis using r(1,4) by (auto simp: sealed_as_def is_seal_of_def is_root_def root_statuses_def)
qed

lemma seal_pack_adds:
  assumes "all_sound (en_fmt en) l" "seal_pack en p rq l = (r, l')" "rq_match_id rq = Some mid"
  shows "all_sound (en_fmt en) l' \<and> (case r of Inl e \<Rightarrow> l' = l | Inr s \<Rightarrow> extends (en_fmt en) l l' s (sealed_as mid rq s))"
proof (cases "\<exists>ss f. pack_snapshots (en_sig_ok en) (en_required en) p = Inr ss \<and> en_load en p = Some f")
  case True
  then obtain ss f where s: "pack_snapshots (en_sig_ok en) (en_required en) p = Inr ss" "en_load en p = Some f" by blast
  obtain r2 m where r2: "seal_forecast (en_fmt en) (en_environment en) (en_fit en) ss f rq l = (r2, m)" by fastforce
  note adds = seal_adds[OF assms(1) pack_snapshots_wf[OF s(1)] r2]
  show ?thesis
  proof (cases r2)
    case (Inl e)
    then have "l' = m" "\<exists>e. r = Inl e" using assms(2) s r2 by (auto simp: seal_pack_def)
    then show ?thesis using adds Inl by auto
  next
    case (Inr s')
    then have r: "l' = m" "r = Inr s'" using assms(2) s r2 by (auto simp: seal_pack_def)
    from adds Inr obtain a where a: "of_request (en_environment en) ss f rq a" "jget a ''supersedes'' = JNull"
        "jget a ''status'' \<in> {JStr ''sealed'', JStr ''abstained''}" "extends (en_fmt en) l m s' (written_as s' a)" "all_sound (en_fmt en) m"
      by auto
    have "extends (en_fmt en) l m s' (sealed_as mid rq s')"
      by (rule extends_mono[OF a(4)]) (rule request_written[OF a(1) _ assms(3) a(2,3)])
    then show ?thesis using r a(5) by simp
  qed
next
  case False
  then have "l' = l \<and> (\<exists>e. r = Inl e)" using assms(2) by (auto simp: seal_pack_def split: sum.splits option.splits)
  then show ?thesis using assms(1) by auto
qed

section \<open>The roots of a fixture\<close>

definition roots :: "(string \<Rightarrow> string \<Rightarrow> bool) \<Rightarrow> ledger \<Rightarrow> string \<Rightarrow> string \<Rightarrow> json list" where
  "roots fmt l mid family = filter (is_seal_of mid family) (artifacts_of fmt (lg_files l))"

lemma existing_seal_roots:
  assumes "all_sound fmt l" "length (roots fmt l mid family) \<le> 1"
  shows "existing_seal fmt (lg_files l) mid family = Inr (case roots fmt l mid family of [] \<Rightarrow> None | v # vs \<Rightarrow> Some v)"
proof -
  let ?f = "filter (is_seal_of mid family) (artifacts_of fmt (sort_key fst (lg_files l)))"
  have m: "mset ?f = mset (roots fmt l mid family)" by (simp add: roots_def artifacts_of_def)
  have "?f = roots fmt l mid family"
  proof (cases "roots fmt l mid family")
    case Nil
    then show ?thesis using m by simp
  next
    case (Cons a as)
    then have one: "roots fmt l mid family = [a]" using assms(2) by simp
    then have "mset ?f = {#a#}" using m by simp
    then show ?thesis unfolding one by (simp only: mset_single_iff)
  qed
  then show ?thesis using assms(2)
    by (cases "roots fmt l mid family") (simp_all add: existing_seal_def all_load[OF assms(1)])
qed

lemma roots_snoc:
  "roots fmt (l\<lparr> lg_files := lg_files l @ [(s, e)] \<rparr>) mid family
     = roots fmt l mid family @ (if is_seal_of mid family (projr (load_verified_artifact fmt s e))
                                 then [projr (load_verified_artifact fmt s e)] else [])"
  by (simp add: roots_def artifacts_snoc)

lemma roots_cong: "lg_files l' = lg_files l \<Longrightarrow> roots fmt l' = roots fmt l"
  by (intro ext) (simp add: roots_def)

lemma is_seal_of_unique: "is_seal_of mid family v \<Longrightarrow> is_seal_of mid' family' v \<longleftrightarrow> mid' = mid \<and> family' = family"
  by (auto simp: is_seal_of_def)

section \<open>The machine\<close>

text \<open>
  The ledger of the app: every fixture sealed through the route, at any time and over any index and
  packs, and every run of settlement, over any network.
\<close>

datatype app_call =
    Seal_fixture engine pack_store "index_row list" string string dt
  | Settle_pending "string \<Rightarrow> source_error + string" dt

fun exec_app ::
  "(string \<Rightarrow> string \<Rightarrow> bool) \<Rightarrow> (string \<Rightarrow> string) \<Rightarrow> (string \<Rightarrow> string option) \<Rightarrow> app_call \<Rightarrow> ledger \<Rightarrow> ledger" where
  "exec_app fmt fold_name stamp (Seal_fixture en st index mid family now) l =
     snd (seal_match fold_name stamp (en\<lparr> en_fmt := fmt \<rparr>) st index mid family now l)"
| "exec_app fmt fold_name stamp (Settle_pending fetch now) l =
     snd (settle_pending_forecasts fmt fold_name stamp (fetch_martj42 fold_name stamp fetch)
       (fetch_world_cup fold_name stamp fetch) now l)"

definition app_ok :: "(string \<Rightarrow> string \<Rightarrow> bool) \<Rightarrow> ledger \<Rightarrow> bool" where
  "app_ok fmt l \<longleftrightarrow> chained fmt l \<and> (\<forall>mid family. length (roots fmt l mid family) \<le> 1)"

lemma app_sound: "app_ok fmt l \<Longrightarrow> all_sound fmt l"
  by (simp add: app_ok_def chained_def)

text \<open>A file that extends the ledger is new unless it was there.\<close>

lemma extends_roots:
  assumes "extends fmt l l' s P" "\<And>x. P x \<Longrightarrow> is_seal_of mid family x" "roots fmt l mid family = []"
  shows "\<exists>w. P w \<and> roots fmt l' mid' family' = roots fmt l mid' family' @ (if mid' = mid \<and> family' = family then [w] else [])
       \<and> (\<exists>e. dict_get (lg_files l) s = None \<and> lg_files l' = lg_files l @ [(s, e)] \<and> load_verified_artifact fmt s e = Inr w)"
proof -
  obtain e w where w: "dict_get (lg_files l') s = Some e" "load_verified_artifact fmt s e = Inr w" "P w"
      "lg_files l' = lg_files l \<or> (dict_get (lg_files l) s = None \<and> lg_files l' = lg_files l @ [(s, e)])"
    using assms(1) unfolding extends_def by blast
  have seal: "is_seal_of mid family w" using assms(2)[OF w(3)] .
  have "lg_files l' \<noteq> lg_files l"
  proof
    assume "lg_files l' = lg_files l"
    then have "w \<in> set (artifacts_of fmt (lg_files l))" using artifacts_get[of "lg_files l" s e fmt w] w(1,2) by simp
    then have "w \<in> set (roots fmt l mid family)" using seal by (simp add: roots_def)
    then show False using assms(3) by simp
  qed
  then have new: "dict_get (lg_files l) s = None" "lg_files l' = lg_files l @ [(s, e)]" using w(4) by auto
  have "roots fmt l' mid' family' = roots fmt l mid' family' @ (if mid' = mid \<and> family' = family then [w] else [])"
    using is_seal_of_unique[OF seal, of mid' family'] w(2) by (simp add: roots_def new(2) artifacts_snoc)
  then show ?thesis using w(2,3) new by blast
qed

lemma seal_once_step:
  assumes "app_ok (en_fmt en) l" "seal_once en p v mid family now l = (r, l')"
  shows "app_ok (en_fmt en) l' \<and> (case r of Inl e \<Rightarrow> l' = l
     | Inr res \<Rightarrow> \<exists>a. roots (en_fmt en) l' mid family = [a]
         \<and> (res = result_view False a \<and> l' = l
          \<or> res = result_view True a \<and> roots (en_fmt en) l mid family = []
            \<and> sealed_as mid (request_for v mid family now) (id_of a) a
            \<and> (\<exists>s e. dict_get (lg_files l) s = None \<and> lg_files l' = lg_files l @ [(s, e)]
                \<and> load_verified_artifact (en_fmt en) s e = Inr a)))"
proof -
  let ?fmt = "en_fmt en" and ?rq = "request_for v mid family now"
  have sound: "all_sound ?fmt l" using app_sound[OF assms(1)] .
  have one: "length (roots ?fmt l mid family) \<le> 1" for mid family using assms(1) by (simp add: app_ok_def)
  note ex = existing_seal_roots[OF sound one]
  show ?thesis
  proof (cases "roots ?fmt l mid family")
    case (Cons a as)
    then have "as = []" using one[of mid family] by simp
    then show ?thesis using assms ex[of mid family] Cons by (auto simp: seal_once_def)
  next
    case Nil
    obtain r2 m where r2: "seal_pack en p ?rq l = (r2, m)" by fastforce
    have rq: "rq_match_id ?rq = Some mid" "rq_family ?rq = family" by (simp_all add: request_for_def Let_def)
    note adds = seal_pack_adds[OF sound r2 rq(1)]
    show ?thesis
    proof (cases r2)
      case (Inl e)
      then show ?thesis using assms ex[of mid family] Nil r2 adds by (auto simp: seal_once_def)
    next
      case (Inr s)
      then have ext: "extends ?fmt l m s (sealed_as mid ?rq s)" and sm: "all_sound ?fmt m" using adds by simp_all
      have sealed: "is_seal_of mid family x" if "sealed_as mid ?rq s x" for x using that rq(2) by (simp add: sealed_as_def)
      obtain w e where w: "sealed_as mid ?rq s w" "dict_get (lg_files l) s = None" "lg_files m = lg_files l @ [(s, e)]"
          "load_verified_artifact ?fmt s e = Inr w"
          "\<And>mid' family'. roots ?fmt m mid' family' = roots ?fmt l mid' family' @ (if mid' = mid \<and> family' = family then [w] else [])"
      proof -
        obtain w e where w: "sealed_as mid ?rq s w" "dict_get (lg_files l) s = None" "lg_files m = lg_files l @ [(s, e)]"
            "load_verified_artifact ?fmt s e = Inr w"
          using extends_roots[OF ext sealed Nil] by blast
        moreover have "roots ?fmt m mid' family' = roots ?fmt l mid' family' @ (if mid' = mid \<and> family' = family then [w] else [])"
          for mid' family'
          using extends_roots[OF ext sealed Nil, of mid' family'] w by auto
        ultimately show ?thesis using that by blast
      qed
      have stored: "dict_get (lg_files m) s = Some e" using w(2,3) by (simp add: map_add_def)
      have res: "r = Inr (result_view True w)" "l' = m"
        using assms(2) ex[of mid family] Nil r2 Inr stored w(4) by (simp_all add: seal_once_def)
      have "chained ?fmt m"
      proof (rule chained_root[OF _ sm extends_mono[OF ext]])
        show "chained ?fmt l" using assms(1) by (simp add: app_ok_def)
        show "is_root x \<and> id_of x = s \<and> jget x ''status'' \<in> set root_statuses" if "sealed_as mid ?rq s x" for x
          using that by (auto simp: sealed_as_def is_seal_of_def is_root_def root_statuses_def)
      qed
      moreover have "length (roots ?fmt m mid' family') \<le> 1" for mid' family'
        using one[of mid' family'] Nil by (simp add: w(5))
      ultimately have "app_ok ?fmt m" by (simp add: app_ok_def)
      moreover have "id_of w = s" using w(1) by (simp add: sealed_as_def)
      ultimately show ?thesis using res w Nil by auto
    qed
  qed
qed

lemma seal_match_cases:
  assumes "seal_match fold_name stamp en st index mid family now l = (r, l')"
  shows "(\<exists>e. r = Inl e) \<and> l' = l
    \<or> (\<exists>v verdict p. family \<in> set allowed_families \<and> get_match fold_name stamp index mid (lg_files l) = Inr (Some v)
         \<and> eligibility st v now = Inr verdict \<and> ev_can_seal verdict
         \<and> resolve_pack_dir st (ix_source_id (mv_row v)) (ix_source_kind (mv_row v)) (ix_competition (mv_row v)) = Inr (Some p)
         \<and> seal_once en p v mid family now l = (r, l'))"
  using assms by (simp add: seal_match_def split: if_splits sum.splits option.splits) blast+

lemma can_seal:
  "eligibility st v now = Inr verdict \<Longrightarrow> ev_can_seal verdict \<Longrightarrow>
     \<not> ix_complete (mv_row v) \<and> (\<exists>kickoff k. ix_kickoff (mv_row v) = Some kickoff \<and> parse_iso kickoff = Some k \<and> now < k)"
  by (auto simp: eligibility_def Let_def bindE_Inr not_le split: if_splits option.splits)

text \<open>The ledger only grows.\<close>

definition holds_all :: "ledger \<Rightarrow> ledger \<Rightarrow> bool" where
  "holds_all l l' \<longleftrightarrow> (\<forall>i d. dict_get (lg_files l) i = Some d \<longrightarrow> dict_get (lg_files l') i = Some d)"

lemma holds_all_refl [simp]: "holds_all l l"
  by (simp add: holds_all_def)

lemma holds_all_trans: "holds_all k l \<Longrightarrow> holds_all l m \<Longrightarrow> holds_all k m"
  by (simp add: holds_all_def)

lemma holds_all_append: "dict_get (lg_files l) s = None \<Longrightarrow> lg_files l' = lg_files l @ [(s, e)] \<Longrightarrow> holds_all l l'"
  by (auto simp: holds_all_def map_add_Some_iff)

lemma app_seal:
  assumes "app_ok fmt l" "en_fmt en = fmt" "seal_match fold_name stamp en st index mid family now l = (r, l')"
  shows "app_ok fmt l' \<and> holds_all l l' \<and> (\<forall>e. r = Inl e \<longrightarrow> l' = l)"
proof -
  have "app_ok (en_fmt en) l" using assms by simp
  note step = seal_once_step[OF this]
  from seal_match_cases[OF assms(3)] show ?thesis
  proof (elim disjE exE conjE)
    fix v verdict p assume "seal_once en p v mid family now l = (r, l')"
    from step[OF this] show ?thesis using assms(2) holds_all_append[of l _ l'] by (cases r) auto
  qed (use assms(1) in simp)
qed

subsection \<open>Settlement adds no root\<close>

lemma extends_no_root:
  assumes "extends fmt l l' s P" "\<And>x. P x \<Longrightarrow> \<not> is_root x"
  shows "roots fmt l' mid family = roots fmt l mid family"
proof -
  obtain e w where w: "load_verified_artifact fmt s e = Inr w" "P w" "lg_files l' = lg_files l \<or> lg_files l' = lg_files l @ [(s, e)]"
    using assms(1) unfolding extends_def by blast
  have "\<not> is_seal_of mid family w" using assms(2)[OF w(2)] by (simp add: is_seal_of_def is_root_def)
  then show ?thesis using w(1,3) by (auto simp: roots_def artifacts_snoc)
qed

lemma settle_chain_roots:
  assumes "all_sound fmt l" "list_all (\<lambda>p. wf_json (snd p)) obs" "settle_chain fmt obs c l = Inr (v, l')"
  shows "all_sound fmt l' \<and> roots fmt l' mid family = roots fmt l mid family \<and> holds_all l l'"
proof (cases "lg_files l' = lg_files l")
  case True
  then show ?thesis using assms(1) roots_cong[OF True] by (simp add: all_sound_def holds_all_def)
next
  case False
  obtain h a where ha: "fst (hd obs) = (h, a)" by (cases "fst (hd obs)")
  have "obs \<noteq> []" using False assms(3) by (auto simp: settle_chain_def Let_def split: if_splits)
  then have "first_max (\<lambda>p. snapshot_anchor_utc (snd p)) (hd obs) (tl obs) \<in> set obs"
    using first_max_in[of _ "hd obs" "tl obs"] by (metis list.collapse)
  then have wf: "wf_json (newest obs)" using assms(2) by (auto simp: newest_def list_all_iff)
  obtain d r where d: "dict_get (lg_files l) (chain_id c) = Some d" "score_forecast_result fmt (chain_id c) d (newest obs) h a l = (r, l')"
    using False assms(3) ha by (auto simp: settle_chain_def Let_def split: if_splits option.splits prod.splits sum.splits)
  note se = score_extends[OF assms(1) d(1) wf d(2)]
  show ?thesis
  proof (cases r)
    case (Inl e)
    then show ?thesis using se assms(1) False by auto
  next
    case (Inr s)
    then obtain P where "extends fmt l l' s P" "\<And>x. P x \<Longrightarrow> \<not> is_root x" using se by force
    moreover from this(1) have "holds_all l l'" using extends_grows[of fmt l l' s P] by (simp add: holds_all_def)
    ultimately show ?thesis using extends_no_root se Inr by simp
  qed
qed

lemma settle_chains_roots:
  assumes "all_sound fmt l" "\<And>c. list_all (\<lambda>p. wf_json (snd p)) (obs c)" "settle_chains fmt obs cs l = (r, l')"
  shows "roots fmt l' mid family = roots fmt l mid family \<and> holds_all l l'"
  using assms(1,3)
proof (induction cs arbitrary: l r)
  case (Cons c cs)
  show ?case
  proof (cases "settle_chain fmt (obs c) c l")
    case (Inl e)
    then show ?thesis using Cons.prems by auto
  next
    case (Inr p)
    obtain v m where p: "p = (v, m)" by (cases p)
    obtain r2 where r2: "settle_chains fmt obs cs m = (r2, l')"
      using Cons.prems(2) Inr p by (auto split: prod.splits sum.splits)
    show ?thesis
      using settle_chain_roots[OF Cons.prems(1) assms(2) Inr[unfolded p]] Cons.IH[OF _ r2] by (auto intro: holds_all_trans)
  qed
qed simp

lemma app_settle:
  assumes "app_ok fmt l"
    and "settle_pending_forecasts fmt fold_name stamp (fetch_martj42 fold_name stamp fetch)
       (fetch_world_cup fold_name stamp fetch) now l = (r, l')"
  shows "app_ok fmt l' \<and> holds_all l l'"
proof -
  let ?martj = "fetch_martj42 fold_name stamp fetch" and ?world = "fetch_world_cup fold_name stamp fetch"
  note r = assms(2)
  have "roots fmt l' mid family = roots fmt l mid family \<and> holds_all l l'" for mid family
  proof (cases "lg_files l' = lg_files l")
    case True
    then show ?thesis using roots_cong[OF True] by (simp add: holds_all_def)
  next
    case False
    obtain s so ns r2 where "calibration_summary fmt (lg_files l) default_origin = Inr s" and s: "gather_sources ?martj ?world (dt_iso now)
          (map (chain_key fold_name stamp) (timed Eligible now (filter is_unresolved (sy_chains s))))
          (world_cup_years (timed Eligible now (filter is_unresolved (sy_chains s)))) = Inr (so, ns)"
        "settle_chains fmt (observations fold_name stamp so) (timed Eligible now (filter is_unresolved (sy_chains s))) l = (r2, l')"
      using r False by (auto simp: settle_pending_forecasts_def Let_def split: sum.splits if_splits prod.splits)
    show ?thesis
      by (rule settle_chains_roots[OF app_sound[OF assms(1)] gathered_snapshots[OF s(1) fetched_sources_sane] s(2)])
  qed
  then show ?thesis
    using settle_keeps[OF _ fetched_sources_sane r] assms(1) by (simp add: app_ok_def)
qed

lemma app_exec: "app_ok fmt l \<Longrightarrow> app_ok fmt (exec_app fmt fold_name stamp c l) \<and> holds_all l (exec_app fmt fold_name stamp c l)"
proof (cases c)
  case (Seal_fixture en st index mid family now)
  moreover obtain r l' where "seal_match fold_name stamp (en\<lparr> en_fmt := fmt \<rparr>) st index mid family now l = (r, l')" by fastforce
  ultimately show "app_ok fmt l \<Longrightarrow> ?thesis" using app_seal[of fmt l "en\<lparr> en_fmt := fmt \<rparr>"] by fastforce
next
  case (Settle_pending fetch now)
  moreover obtain r l' where "settle_pending_forecasts fmt fold_name stamp (fetch_martj42 fold_name stamp fetch)
       (fetch_world_cup fold_name stamp fetch) now l = (r, l')" by fastforce
  ultimately show "app_ok fmt l \<Longrightarrow> ?thesis" using app_settle[of fmt l] by fastforce
qed

interpretation app: growing_machine "exec_app fmt fold_name stamp" "app_ok fmt" "\<lambda>_. True" holds_all for fmt fold_name stamp
  by unfold_locales (use app_exec holds_all_trans in auto)

definition fresh_ledger :: ledger where
  "fresh_ledger = \<lparr> lg_files = [], lg_audit = [] \<rparr>"

lemma app_run:
  assumes "l = fold (exec_app fmt fold_name stamp) cs fresh_ledger"
  shows "app_ok fmt l"
proof -
  have "app_ok fmt fresh_ledger"
    by (simp add: app_ok_def chained_def all_sound_def artifacts_of_def placed_def evaluated_def roots_def fresh_ledger_def)
  then show ?thesis unfolding assms by (intro app.inv_run) (simp_all add: list_all_iff)
qed

section \<open>The properties\<close>

text \<open>
  C5: one root per fixture and family.  Whatever fixtures are sealed through the route, with any
  models, packs and clocks, and however settlement runs in between, the ledger never holds two root
  seals of one fixture and family, the check for them never refuses, and a fixture's chain has at
  most one result.
\<close>

theorem one_root_per_fixture:
  assumes "l = fold (exec_app fmt fold_name stamp) cs fresh_ledger"
  shows "length (filter (is_seal_of mid family) (artifacts_of fmt (lg_files l))) \<le> 1
       \<and> existing_seal fmt (lg_files l) mid family = Inr (find (is_seal_of mid family) (artifacts_of fmt (lg_files l)))
       \<and> length (artifacts_of fmt (lg_files l)) = length (lg_files l)
       \<and> distinct (map superseded (filter (\<lambda>v. \<not> is_root v) (artifacts_of fmt (lg_files l))))"
proof -
  have ok: "app_ok fmt l" by (rule app_run[OF assms])
  have one: "length (roots fmt l mid family) \<le> 1" using ok by (simp add: app_ok_def)
  have "(case filter P xs of [] \<Rightarrow> None | v # vs \<Rightarrow> Some v) = find P xs" for P and xs :: "json list" by (induction xs) auto
  then show ?thesis
    using existing_seal_roots[OF app_sound[OF ok] one] one ok
    by (simp add: roots_def app_ok_def chained_def placed_def artifacts_of_def)
qed

text \<open>
  Sealing again returns the seal that exists.  After a request was answered with a seal, any
  later request for the fixture and family, whatever was sealed and settled since and whatever the
  packs and the clock now say, is refused or answered with the same seal, and adds nothing.
\<close>

theorem reseal_returns_existing:
  assumes "l = fold (exec_app fmt fold_name stamp) cs fresh_ledger" "en_fmt en = fmt" "en_fmt en' = fmt"
    and "seal_match fold_name stamp en st index mid family now l = (Inr res, l')"
    and "seal_match fold_name stamp en' st' index' mid family later (fold (exec_app fmt fold_name stamp) ds l') = (r, m)"
  shows "m = fold (exec_app fmt fold_name stamp) ds l'
       \<and> (\<exists>a. res \<in> {result_view True a, result_view False a} \<and> (\<forall>x. r = Inr x \<longrightarrow> x = result_view False a))"
proof -
  let ?k = "fold (exec_app fmt fold_name stamp) ds l'"
  have ok: "app_ok fmt l" by (rule app_run[OF assms(1)])
  from seal_match_cases[OF assms(4)] obtain v p where "seal_once en p v mid family now l = (Inr res, l')" by blast
  from seal_once_step[OF _ this] ok assms(2) obtain a where a: "roots fmt l' mid family = [a]" "app_ok fmt l'"
      "res \<in> {result_view True a, result_view False a}" by auto
  have all: "list_all (\<lambda>_. True) ds" by (simp add: list_all_iff)
  have k: "app_ok fmt ?k" by (rule app.inv_run[OF all a(2)])
  have grows: "holds_all l' ?k" by (rule app.keeps_run[OF all a(2)])
  have "a \<in> set (roots fmt l' mid family)" by (simp add: a(1))
  then obtain i d where i: "(i, d) \<in> set (lg_files l')" "a = projr (load_verified_artifact fmt i d)" "is_seal_of mid family a"
    by (auto simp: roots_def artifacts_of_def)
  have "dict_get (lg_files l') i = Some d" using i(1) app_sound[OF a(2)] by (simp add: all_sound_def dict_get_in)
  then have "dict_get (lg_files ?k) i = Some d" using grows by (simp add: holds_all_def)
  then have "(i, d) \<in> set (lg_files ?k)" by (rule map_of_SomeD)
  then have "a \<in> set (artifacts_of fmt (lg_files ?k))" using i(2) by (force simp: artifacts_of_def)
  then have "a \<in> set (roots fmt ?k mid family)" using i(3) by (simp add: roots_def)
  moreover have "length (roots fmt ?k mid family) \<le> 1" using k by (simp add: app_ok_def)
  ultimately have rk: "roots fmt ?k mid family = [a]"
    by (cases "roots fmt ?k mid family") auto
  have "m = ?k \<and> (\<forall>x. r = Inr x \<longrightarrow> x = result_view False a)"
    using seal_match_cases[OF assms(5)]
  proof (elim disjE exE conjE)
    fix w verdict q assume "seal_once en' q w mid family later ?k = (r, m)"
    from seal_once_step[OF _ this] k assms(3) rk show ?thesis by (cases r) auto
  qed simp
  then show ?thesis using a(3) by blast
qed

text \<open>
  A seal is made inside its window.  A request that creates a seal names an allowed family and
  an indexed fixture that is not complete and kicks off later than the clock, and finds a pack; the
  ledger gains exactly one file, a root of that fixture and family whose recorded instant is the
  clock's and lies before the kickoff it records; a request that is refused changes nothing.
\<close>

theorem seal_made_in_window:
  assumes "l = fold (exec_app fmt fold_name stamp) cs fresh_ledger" "en_fmt en = fmt" "wf_dt now"
    and "seal_match fold_name stamp en st index mid family now l = (r, l')"
  shows "case r of Inl e \<Rightarrow> l' = l
     | Inr res \<Rightarrow> family \<in> set allowed_families
         \<and> (jget res ''created'' = JBool True \<longrightarrow>
           (\<exists>row kickoff k s d a recorded. row \<in> set index \<and> ix_match_id row = mid \<and> \<not> ix_complete row
              \<and> ix_kickoff row = Some kickoff \<and> parse_iso kickoff = Some k \<and> now < k
              \<and> dict_get (lg_files l) s = None \<and> lg_files l' = lg_files l @ [(s, d)]
              \<and> load_verified_artifact fmt s d = Inr a \<and> is_seal_of mid family a
              \<and> jget res ''artifact_id'' = JStr s
              \<and> jget (jget a ''forecast'') ''sealed_at_utc'' = JStr (dt_iso now)
              \<and> jget (jget a ''match'') ''kickoff_utc'' = JStr (dt_iso recorded) \<and> now < recorded))"
proof -
  have ok: "app_ok (en_fmt en) l" using app_run[OF assms(1)] assms(2) by simp
  show ?thesis
  proof (cases r)
    case (Inl e)
    then show ?thesis using app_seal[OF _ assms(2,4)] ok assms(2) by simp
  next
    case (Inr res)
    then obtain v verdict p where v: "family \<in> set allowed_families" "get_match fold_name stamp index mid (lg_files l) = Inr (Some v)"
        "eligibility st v now = Inr verdict" "ev_can_seal verdict" "seal_once en p v mid family now l = (Inr res, l')"
      using seal_match_cases[OF assms(4)] by blast
    obtain row where row: "find (\<lambda>row. ix_match_id row = mid) index = Some row" "mv_row v = row"
      using v(2) by (auto simp: get_match_def bindE_Inr split: option.splits)
    then have "row \<in> set index \<and> ix_match_id row = mid" by (auto simp: find_Some_iff)
    moreover obtain kickoff k where "\<not> ix_complete row" "ix_kickoff row = Some kickoff" "parse_iso kickoff = Some k" "now < k"
      using can_seal[OF v(3,4)] row(2) by blast
    moreover have "\<exists>s d a recorded. dict_get (lg_files l) s = None \<and> lg_files l' = lg_files l @ [(s, d)]
        \<and> load_verified_artifact fmt s d = Inr a \<and> is_seal_of mid family a \<and> jget res ''artifact_id'' = JStr s
        \<and> jget (jget a ''forecast'') ''sealed_at_utc'' = JStr (dt_iso now)
        \<and> jget (jget a ''match'') ''kickoff_utc'' = JStr (dt_iso recorded) \<and> now < recorded"
      if created: "jget res ''created'' = JBool True"
    proof -
      have "res \<noteq> result_view False a" for a using created by (auto simp: result_view_def jget_obj)
      then obtain a s d where a: "res = result_view True a" "sealed_as mid (request_for v mid family now) (id_of a) a"
          "dict_get (lg_files l) s = None" "lg_files l' = lg_files l @ [(s, d)]" "load_verified_artifact fmt s d = Inr a"
        using seal_once_step[OF ok v(5)] assms(2) by auto
      have rq: "rq_as_of (request_for v mid family now) = dt_iso now" "rq_family (request_for v mid family now) = family"
        by (simp_all add: request_for_def Let_def)
      obtain as_of recorded where t: "parse_iso (dt_iso now) = Some as_of" "as_of < recorded"
          "jget (jget a ''match'') ''kickoff_utc'' = JStr (dt_iso recorded)"
        using a(2) by (auto simp: sealed_as_def rq)
      have "now < recorded" using t(1,2) parse_dt_iso[OF assms(3)] by simp
      moreover have "jget a ''artifact_id'' = JStr s" using load_verified_Inr[OF a(5)] by blast
      ultimately show ?thesis
        using a t(3) by (intro exI[of _ s] exI[of _ d] exI[of _ a] exI[of _ recorded]) (auto simp: sealed_as_def rq result_view_def jget_obj)
    qed
    ultimately show ?thesis using v(1) Inr by auto
  qed
qed

end
