(* ===== verification/Match_Links_Laws.thy ===== *)
theory Match_Links_Laws
  imports Match_Links
begin

text \<open>
  The links of a row against a reference: the forecasts of the ledger that name its id, or else
  those of its day and folded teams, in the order of the files.
\<close>

section \<open>Reference\<close>

text \<open>What linking reads of a ledger: the files that parse to an artifact with a match.\<close>

definition link_objects :: "string list \<Rightarrow> json list" where
  "link_objects ds = filter (\<lambda>obj. is_obj obj \<and> dict_get (obj_fields obj) ''artifact_id'' \<noteq> None \<and> is_obj (jget obj ''match''))
     (concat (map (\<lambda>d. case read_json d of None \<Rightarrow> [] | Some obj \<Rightarrow> [obj]) ds))"

definition names_id :: "string \<Rightarrow> json \<Rightarrow> bool" where
  "names_id mid obj \<longleftrightarrow> jget (jget obj ''match'') ''match_id'' \<noteq> JNull \<and> py_text (jget (jget obj ''match'') ''match_id'') = mid"

definition names_fixture :: "(string \<Rightarrow> string) \<Rightarrow> (string \<Rightarrow> string option) \<Rightarrow> link_key \<Rightarrow> json \<Rightarrow> bool" where
  "names_fixture fold_name stamp key obj \<longleftrightarrow>
     (let m = jget obj ''match'' in
      jget m ''home_team'' \<noteq> JNull \<and> jget m ''away_team'' \<noteq> JNull \<and> jget m ''kickoff_utc'' \<noteq> JNull
      \<and> link_key fold_name stamp (py_text (jget m ''kickoff_utc'')) (py_text (jget m ''home_team'')) (py_text (jget m ''away_team''))
          = Inr key)"

definition linked_to ::
  "(string \<Rightarrow> string) \<Rightarrow> (string \<Rightarrow> string option) \<Rightarrow> index_row \<Rightarrow> json list \<Rightarrow> json list \<times> string option" where
  "linked_to fold_name stamp row objs =
     (let by_id = filter (names_id (ix_match_id row)) objs;
          by_fixture = (case ix_date row of None \<Rightarrow> [] | Some date \<Rightarrow>
            filter (\<lambda>obj. \<exists>key. link_key fold_name stamp date (ix_home_norm row) (ix_away_norm row) = Inr key
                       \<and> names_fixture fold_name stamp key obj) objs) in
      if by_id \<noteq> [] then (map summary_card by_id, Some ''match_id'')
      else if by_fixture \<noteq> [] then (map summary_card by_fixture, Some ''fixture'') else ([], None))"

section \<open>The links of a ledger\<close>

definition cards_at :: "('k, json list) dict \<Rightarrow> 'k \<Rightarrow> json list" where
  "cards_at d k = (case dict_get d k of None \<Rightarrow> [] | Some cs \<Rightarrow> cs)"

definition no_empty :: "('k, json list) dict \<Rightarrow> bool" where
  "no_empty d \<longleftrightarrow> (\<forall>k. dict_get d k \<noteq> Some [])"

lemma cards_Nil [simp]: "cards_at [] k = []" "no_empty []"
  by (simp_all add: cards_at_def no_empty_def)

lemma cards_append: "cards_at (append_at k x d) j = (if j = k then cards_at d k @ [x] else cards_at d j)"
  by (simp add: cards_at_def append_at_def)

lemma no_empty_append: "no_empty d \<Longrightarrow> no_empty (append_at k x d)"
  by (auto simp: no_empty_def append_at_def)

lemma link_file_cards:
  assumes "link_file fold_name stamp d ls = Inr ls'"
  shows "cards_at (lk_by_match_id ls') mid = cards_at (lk_by_match_id ls) mid @ map summary_card (filter (names_id mid) (link_objects [d]))
       \<and> cards_at (lk_by_fixture ls') key = cards_at (lk_by_fixture ls) key @ map summary_card (filter (names_fixture fold_name stamp key) (link_objects [d]))
       \<and> (no_empty (lk_by_match_id ls) \<longrightarrow> no_empty (lk_by_match_id ls')) \<and> (no_empty (lk_by_fixture ls) \<longrightarrow> no_empty (lk_by_fixture ls'))"
proof (cases "read_json d")
  case None
  then show ?thesis using assms by (simp add: link_file_def link_objects_def)
next
  case (Some obj)
  show ?thesis
  proof (cases "is_obj obj \<and> dict_get (obj_fields obj) ''artifact_id'' \<noteq> None \<and> is_obj (jget obj ''match'')")
    case False
    then show ?thesis using assms Some by (auto simp: link_file_def link_objects_def)
  next
    case True
    then have objs: "link_objects [d] = [obj]" using Some by (simp add: link_objects_def)
    let ?m = "jget obj ''match''"
    let ?named = "jget ?m ''home_team'' \<noteq> JNull \<and> jget ?m ''away_team'' \<noteq> JNull \<and> jget ?m ''kickoff_utc'' \<noteq> JNull"
    have ids: "lk_by_match_id ls' = (if jget ?m ''match_id'' = JNull then lk_by_match_id ls
        else append_at (py_text (jget ?m ''match_id'')) (summary_card obj) (lk_by_match_id ls))"
      and fx: "if ?named then (\<exists>k. link_key fold_name stamp (py_text (jget ?m ''kickoff_utc'')) (py_text (jget ?m ''home_team''))
            (py_text (jget ?m ''away_team'')) = Inr k \<and> lk_by_fixture ls' = append_at k (summary_card obj) (lk_by_fixture ls))
          else lk_by_fixture ls' = lk_by_fixture ls"
      using assms Some True by (auto simp: link_file_def Let_def bindE_Inr split: if_splits)
    have "cards_at (lk_by_match_id ls') mid = cards_at (lk_by_match_id ls) mid @ map summary_card (filter (names_id mid) [obj])"
      by (simp add: ids cards_append names_id_def)
    moreover have "cards_at (lk_by_fixture ls') key
        = cards_at (lk_by_fixture ls) key @ map summary_card (filter (names_fixture fold_name stamp key) [obj])"
    proof (cases ?named)
      case True
      with fx obtain k where k: "link_key fold_name stamp (py_text (jget ?m ''kickoff_utc'')) (py_text (jget ?m ''home_team''))
            (py_text (jget ?m ''away_team'')) = Inr k" "lk_by_fixture ls' = append_at k (summary_card obj) (lk_by_fixture ls)" by auto
      then show ?thesis using True by (auto simp: cards_append names_fixture_def)
    next
      case False
      then have "lk_by_fixture ls' = lk_by_fixture ls" using fx by (simp only: if_False)
      then show ?thesis using False by (auto simp: names_fixture_def)
    qed
    moreover have "no_empty (lk_by_match_id ls) \<longrightarrow> no_empty (lk_by_match_id ls')" by (simp add: ids no_empty_append)
    moreover have "no_empty (lk_by_fixture ls) \<longrightarrow> no_empty (lk_by_fixture ls')"
      using fx no_empty_append by (metis (no_types, lifting))
    ultimately show ?thesis unfolding objs by blast
  qed
qed

lemma link_objects_Cons: "link_objects (d # ds) = link_objects [d] @ link_objects ds"
  by (simp add: link_objects_def)

lemma link_files_cards:
  assumes "link_files fold_name stamp ds ls = Inr ls'"
  shows "cards_at (lk_by_match_id ls') mid = cards_at (lk_by_match_id ls) mid @ map summary_card (filter (names_id mid) (link_objects ds))
       \<and> cards_at (lk_by_fixture ls') key = cards_at (lk_by_fixture ls) key @ map summary_card (filter (names_fixture fold_name stamp key) (link_objects ds))
       \<and> (no_empty (lk_by_match_id ls) \<longrightarrow> no_empty (lk_by_match_id ls')) \<and> (no_empty (lk_by_fixture ls) \<longrightarrow> no_empty (lk_by_fixture ls'))"
  using assms
proof (induction ds arbitrary: ls)
  case Nil
  then show ?case by (simp add: link_objects_def)
next
  case (Cons d ds)
  then obtain l2 where l2: "link_file fold_name stamp d ls = Inr l2" "link_files fold_name stamp ds l2 = Inr ls'"
    by (auto simp: bindE_Inr)
  note one = link_file_cards[OF l2(1), of mid key]
  note rest = Cons.IH[OF l2(2)]
  show ?case using one rest by (simp add: link_objects_Cons[of d ds])
qed

lemma cards_get: "no_empty d \<Longrightarrow> dict_get d k = (if cards_at d k = [] then None else Some (cards_at d k))"
  by (auto simp: no_empty_def cards_at_def split: option.split)

text \<open>
  A row carries exactly its forecasts.  They are those of the ledger that name its id, or,
  when there is none, those of its day and folded team names; each once, in the order of the files,
  and labelled by how they were found.
\<close>

theorem links_exact:
  assumes "get_match fold_name stamp index mid files = Inr (Some v)"
  shows "(mv_forecasts v, mv_linked_by v) = linked_to fold_name stamp (mv_row v) (link_objects (map snd (sort_key fst files)))
       \<and> ix_match_id (mv_row v) = mid \<and> mv_row v \<in> set index"
proof -
  obtain row ls fs how where r: "find (\<lambda>row. ix_match_id row = mid) index = Some row"
      "artifact_links fold_name stamp files = Inr ls" "links_for_row fold_name stamp row ls = Inr (fs, how)"
      "v = \<lparr> mv_row = row, mv_forecasts = fs, mv_linked_by = how \<rparr>"
    using assms by (auto simp: get_match_def bindE_Inr split: option.splits)
  let ?objs = "link_objects (map snd (sort_key fst files))"
  note run = link_files_cards[OF r(2)[unfolded artifact_links_def]]
  have ne: "no_empty (lk_by_match_id ls)" "no_empty (lk_by_fixture ls)" using run by simp_all
  have ids: "dict_get (lk_by_match_id ls) k = (if filter (names_id k) ?objs = [] then None
      else Some (map summary_card (filter (names_id k) ?objs)))" for k
    using run[of k] unfolding cards_get[OF ne(1), of k] by simp
  have fixtures: "dict_get (lk_by_fixture ls) k = (if filter (names_fixture fold_name stamp k) ?objs = [] then None
      else Some (map summary_card (filter (names_fixture fold_name stamp k) ?objs)))" for k
    using run[of _ k] unfolding cards_get[OF ne(2), of k] by simp
  have "(fs, how) = linked_to fold_name stamp row ?objs"
  proof (cases "filter (names_id (ix_match_id row)) ?objs = []")
    case False
    then show ?thesis using r(3) ids[of "ix_match_id row"] by (auto simp: links_for_row_def linked_to_def)
  next
    case True
    then have none: "dict_get (lk_by_match_id ls) (ix_match_id row) = None" using ids by simp
    show ?thesis
    proof (cases "ix_date row")
      case None
      then show ?thesis using r(3) none True by (simp add: links_for_row_def linked_to_def)
    next
      case (Some date)
      then obtain key where key: "link_key fold_name stamp date (ix_home_norm row) (ix_away_norm row) = Inr key"
          "(fs, how) = (case dict_get (lk_by_fixture ls) key of Some fs \<Rightarrow> (fs, Some ''fixture'') | None \<Rightarrow> ([], None))"
        using r(3) none by (auto simp: links_for_row_def bindE_Inr)
      then show ?thesis using True Some fixtures[of key] by (simp add: linked_to_def Let_def)
    qed
  qed
  moreover have "row \<in> set index \<and> ix_match_id row = mid" using r(1) by (auto simp: find_Some_iff)
  ultimately show ?thesis by (simp add: r(4))
qed

end
