(* ===== verification/Seal_Samples.thy ===== *)
theory Seal_Samples
  imports Seal_Route_Laws Match_Links_Laws Artifact_Samples Text_Json
begin

text \<open>
  A bundled pack, an index row and a request that seals through the route, and the witnesses of the
  properties of packs, links and seals.  As in \<open>Artifact_Samples\<close>, hashes stay symbolic.
\<close>

section \<open>A pack that seals\<close>

definition route_entry :: json where
  "route_entry = JObj [(''name'', JStr ''results.csv''), (''sha256'', JStr (sha256_hex ''date''))]"

definition route_manifest :: json where
  "route_manifest = JObj [(''files'', JArr [route_entry]), (''license'', JStr ''CC0''), (''retrieved_at_utc'', JStr ''2026-06-09T12:00:00Z''),
     (''source_id'', JStr ''martj42-international-results''), (''upstream_ref'', JStr ''abc''), (''url'', JStr ''u'')]"

definition route_pack :: pack where
  "route_pack = \<lparr> pk_files = [(''manifest.json'', dumps route_manifest), (''results.csv'', ''date'')], pk_links = [] \<rparr>"

definition route_snapshot :: json where
  "route_snapshot = JObj
     [(''snapshot_id'', JStr ''sp_abc''), (''source_id'', JStr ''martj42-international-results''), (''url'', JStr ''u''),
      (''upstream_ref'', JStr ''abc''), (''retrieved_at_utc'', JStr ''2026-06-09T12:00:00Z''),
      (''sha256'', JStr (sha256_hex (dumps route_manifest))), (''license'', JStr ''CC0'')]"

lemma route_keys:
  "''files'' < ''license''" "''files'' < ''retrieved_at_utc''" "''files'' < ''source_id''" "''files'' < ''upstream_ref''" "''files'' < ''url''"
  "''license'' < ''retrieved_at_utc''" "''license'' < ''source_id''" "''license'' < ''upstream_ref''" "''license'' < ''url''"
  "''retrieved_at_utc'' < ''source_id''" "''retrieved_at_utc'' < ''upstream_ref''" "''retrieved_at_utc'' < ''url''"
  "''source_id'' < ''upstream_ref''" "''source_id'' < ''url''" "''upstream_ref'' < ''url''" "''name'' < ''sha256''"
  by (simp_all add: less_char_def)

lemma loads_route: "loads (dumps route_manifest) = Some route_manifest"
proof -
  have "wf_json route_manifest" by (simp add: route_manifest_def route_entry_def dict_ok_def)
  moreover have "normalise route_manifest = route_manifest"
    by (simp add: route_manifest_def route_entry_def route_keys less_imp_le)
  ultimately show ?thesis using loads_dumps by metis
qed

lemma validate_route: "validate_pack (\<lambda>_ _. True) False route_pack = Inr route_manifest"
proof -
  have "path_parts ''results.csv'' = [''results.csv'']" "path_name ''results.csv'' = ''results.csv''"
    "path_name ''manifest.json'' = ''manifest.json''"
    by (simp_all add: path_parts_def path_name_def)
  then show ?thesis
    by (simp add: validate_pack_def route_pack_def loads_route)
      (simp add: route_manifest_def route_entry_def jget_obj required_manifest_fields_def check_signature_def
        check_entry_def safe_declared_path_def is_absolute_def starts_with_def as_posix_def is_sha256_def
        sha256_hex_hex present_files_def manifest_name_def)
qed

lemma route_snapshots: "pack_snapshots (\<lambda>_ _. True) False route_pack = Inr [route_snapshot]"
proof -
  have "descriptor_json route_manifest h = Inr (json_set ''sha256'' (JStr h) route_snapshot)" for h
    by (simp add: descriptor_json_def need_def route_manifest_def route_snapshot_def jget_obj json_set_def py_text_def py_truthy_def)
  moreover have "dict_get (obj_fields route_manifest) ''co_sources'' = None" by (simp add: route_manifest_def)
  moreover have "dict_get (pk_files route_pack) ''manifest.json'' = Some (dumps route_manifest)" by (simp add: route_pack_def)
  moreover have "json_set ''sha256'' (JStr (sha256_hex (dumps route_manifest))) route_snapshot = route_snapshot"
    by (simp add: route_snapshot_def json_set_def)
  ultimately show ?thesis
    by (simp add: pack_snapshots_def snapshot_descriptor_def co_source_descriptors_def validate_route)
qed

section \<open>The request\<close>

definition route_row :: index_row where
  "route_row = \<lparr> ix_match_id = ''m_2'', ix_date = Some ''2026-06-11'', ix_kickoff = Some ''2026-06-11T20:00:00Z'', ix_precision = None,
     ix_home = Some ''A'', ix_away = Some ''B'', ix_home_norm = ''a'', ix_away_norm = ''b'', ix_home_score = None, ix_away_score = None,
     ix_competition = Some ''Cup'', ix_country = None, ix_city = None, ix_neutral = Some False, ix_complete = False,
     ix_source_kind = Some ''international'', ix_source_id = Some ''martj42-international-results'', ix_provenance = [], ix_fixture_key = None \<rparr>"

definition route_store :: pack_store where
  "route_store = \<lparr> st_refresh = None, st_legacy = \<lparr> pk_files = [], pk_links = [] \<rparr>, st_registry = None,
     st_bundled = [(''martj42-internationals'', route_pack)] \<rparr>"

definition route_engine :: engine where
  "route_engine = \<lparr> en_fmt = any_format, en_sig_ok = \<lambda>_ _. True, en_required = False, en_environment = sample_env,
     en_load = \<lambda>_. Some seal_frame, en_fit = no_fit \<rparr>"

definition route_now :: dt where
  "route_now = DT 2026 6 10 12 0 0"

definition route_request :: seal_request where
  "route_request = \<lparr> rq_date = ''2026-06-11'', rq_home = ''A'', rq_away = ''B'', rq_as_of = ''2026-06-10T12:00:00Z'',
     rq_horizon = ''T-24h'', rq_family = ''climatological'', rq_seed = 20260710, rq_match_id = Some ''m_2'' \<rparr>"

lemma route_iso: "dt_iso route_now = ''2026-06-10T12:00:00Z''" "parse_iso ''2026-06-11T20:00:00Z'' = Some (DT 2026 6 11 20 0 0)"
  unfolding route_now_def by code_simp+

lemma route_request_for:
  "mv_row v = route_row \<Longrightarrow> request_for v ''m_2'' ''climatological'' route_now = route_request"
  by (simp add: request_for_def route_row_def route_request_def default_horizon_def default_seed_def route_iso)

definition route_view :: match_view where
  "route_view = \<lparr> mv_row = route_row, mv_forecasts = [], mv_linked_by = None \<rparr>"

lemma route_match: "get_match fold_name (\<lambda>_. None) [route_row] ''m_2'' [] = Inr (Some route_view)"
proof -
  have "iso_day ''2026-06-11''" by code_simp
  then show ?thesis
    by (simp add: get_match_def route_view_def artifact_links_def links_for_row_def link_key_def fixture_date_def route_row_def)
qed

lemma route_pack_found: "resolve_pack_dir route_store (Some ''martj42-international-results'') (Some ''international'') league = Inr (Some route_pack)"
  by (simp add: resolve_pack_dir_def international_source_id_def refreshed_pack_dir_def route_store_def active_bundled_pack_def
      active_pack_def active_packs_def registry_entries_def present_def international_pack_name_def has_manifest_def route_pack_def)

lemma route_can_seal:
  "\<exists>verdict. eligibility route_store route_view route_now = Inr verdict \<and> ev_can_seal verdict"
proof -
  have "\<not> DT 2026 6 11 20 0 0 \<le> route_now" by (simp add: route_now_def less_eq_dt_def dt_key_def)
  then show ?thesis
    by (simp add: eligibility_def route_view_def route_row_def international_source_id_def route_pack_found Let_def route_iso)
qed

section \<open>The seal\<close>

abbreviation route_json :: "nat \<Rightarrow> nat \<Rightarrow> json" where
  "route_json hc ac \<equiv> artifact_json sample_env route_request sealed_fixture (DT 2026 6 10 12 0 0)
     (DT 2026 6 11 20 0 0) (DT 2026 6 10 12 0 0) [route_snapshot] hc ac True abstained_numbers"

lemma route_snapshot_ok:
  "conforms (snapshot_schema any_format) route_snapshot" "wf_json route_snapshot"
  "snapshot_anchor route_snapshot = Some (DT 2026 6 9 12 0 0)"
proof -
  show "conforms (snapshot_schema any_format) route_snapshot"
    by (simp add: snapshot_schema_def conforms_props route_snapshot_def date_time_def any_format_def nonempty_def hex_sha
        is_obj_def obj_fields_def)
  show "wf_json route_snapshot" by (simp add: route_snapshot_def dict_ok_def)
  show "snapshot_anchor route_snapshot = Some (DT 2026 6 9 12 0 0)"
    by (simp add: snapshot_anchor_def snapshot_anchor_utc_def route_snapshot_def jget_obj json_or_def py_text_def py_truthy_def instants)
qed

lemma route_valid: "validate_artifact any_format (route_json hc ac) = Inr ()"
proof -
  have snap: "conforms (snapshot_schema (\<lambda>_ _. True)) route_snapshot"
    using route_snapshot_ok(1) by (simp add: any_format_def[abs_def])
  have unc: "uncertainty_of k \<in> {''low'', ''medium'', ''high''}" for k by (simp add: uncertainty_of_def)
  have "conforms (artifact_schema any_format) (route_json hc ac)"
    using unc[of "min hc ac"] route_snapshot_ok(1)
    by (auto simp: sample_schemas conforms_props artifact_json_def is_obj_def obj_fields_def abstained_numbers_def
        num_nano_def num_int_def id_patterns params_hex zero_sha_ok nonempty_def frozen_families_def jtext_def
        sample_env_def route_request_def sealed_fixture_def sample_fixture_def sample_row_def any_format_def[abs_def] snap)
  then show ?thesis
    by (simp add: validate_artifact_def artifact_json_get abstained_numbers_def) (simp add: artifact_json_def jget_obj)
qed

lemma route_wf: "wf_json (route_json hc ac)"
  by (intro wf_artifact_json) (simp_all add: route_snapshot_ok abstained_numbers_def)

lemma route_sealed:
  "\<exists>s l. seal_pack route_engine route_pack route_request fresh_ledger = (Inr s, l)"
proof -
  let ?f = "seal_frame\<lparr>fr_rows := [sample_row]\<rparr>" and ?t = "DT 2026 6 10 12 0 0"
  let ?hc = "team_count ?f ?t ''A''" and ?ac = "team_count ?f ?t ''B''"
  obtain w where w: "finish_artifact (route_json ?hc ?ac) = Some w"
    using finish_total[OF route_valid route_wf] by blast
  have m: "find_match seal_frame ''2026-06-11'' ''A'' ''B'' (Some ''m_2'') = Inr sealed_fixture"
    by (simp add: find_match_def parse_day_def instants seal_frame_def sample_frame_def sealed_fixture_def
        sample_fixture_def sample_row_def)
  have "mr_complete sealed_fixture = Some False" "mr_kickoff sealed_fixture = Some (DT 2026 6 11 20 0 0)"
    by (simp_all add: sealed_fixture_def sample_fixture_def)
  then have b: "build_forecast_artifact sample_env no_fit [route_snapshot] seal_frame route_request = Inr w"
    using w m sample_counts[of ?t "''A''"] sample_counts[of ?t "''B''"]
    by (simp add: build_forecast_artifact_def route_request_def frozen_families_def orE_def instants route_snapshot_ok sample_view
        Let_def less_eq_dt_def less_dt_def dt_key_def min_less_iff_disj)
  have v: "validate_artifact any_format w = Inr ()" using finish_validates[OF w route_wf route_valid] .
  then obtain c where "canonical_json w = Some c" using canonical_total by blast
  then have "\<exists>s l. seal_forecast any_format sample_env no_fit [route_snapshot] seal_frame route_request fresh_ledger = (Inr s, l)"
    using b v by (simp add: seal_forecast_def write_artifact_def canonical_bytes_def fresh_ledger_def Let_def)
  then show ?thesis by (auto simp: seal_pack_def route_engine_def route_snapshots)
qed

lemma route_seals:
  "\<exists>res l. seal_match fold_name (\<lambda>_. None) route_engine route_store [route_row] ''m_2'' ''climatological'' route_now fresh_ledger
     = (Inr res, l) \<and> jget res ''created'' = JBool True"
proof -
  obtain s l where s: "seal_pack route_engine route_pack route_request fresh_ledger = (Inr s, l)" using route_sealed by blast
  have ok: "app_ok any_format fresh_ledger" by (rule app_run[of _ any_format _ _ "[]"]) simp
  have fmt: "en_fmt route_engine = any_format" by (simp add: route_engine_def)
  have "extends any_format fresh_ledger l s (sealed_as ''m_2'' route_request s)"
    using seal_pack_adds[of route_engine fresh_ledger, OF _ s, of "''m_2''"] app_sound[OF ok] fmt by (simp add: route_request_def)
  then obtain d a where d: "dict_get (lg_files l) s = Some d" "load_verified_artifact any_format s d = Inr a"
    unfolding extends_def by blast
  have ex: "existing_seal any_format (lg_files fresh_ledger) ''m_2'' ''climatological'' = Inr None"
    by (simp add: existing_seal_def fresh_ledger_def)
  have rq: "request_for route_view ''m_2'' ''climatological'' route_now = route_request"
    by (rule route_request_for) (simp add: route_view_def)
  obtain verdict where e: "eligibility route_store route_view route_now = Inr verdict" "ev_can_seal verdict" using route_can_seal by blast
  have files: "lg_files fresh_ledger = []" by (simp add: fresh_ledger_def)
  have "mv_row route_view = route_row" by (simp add: route_view_def)
  then have "seal_match fold_name (\<lambda>_. None) route_engine route_store [route_row] ''m_2'' ''climatological'' route_now fresh_ledger
      = (Inr (result_view True a), l)"
    using route_match[of fold_name] e ex s d
    by (simp add: seal_match_def allowed_families_def files route_row_def[THEN arg_cong, of ix_source_id]
        route_row_def[THEN arg_cong, of ix_source_kind] route_row_def[THEN arg_cong, of ix_competition] route_pack_found
        seal_once_def fmt rq)
  then show ?thesis by (simp add: result_view_def jget_obj)
qed

section \<open>Witnesses\<close>

definition registry_entry :: "string \<Rightarrow> string \<Rightarrow> json" where
  "registry_entry d t = JObj [(''pack'', JStr d), (''retrieved_at_utc'', JStr t), (''source_id'', JStr ''s'')]"

definition two_snapshots :: json where
  "two_snapshots = JObj [(''snapshots'', JArr [registry_entry ''a'' ''2026-06-09T12:00:00Z'', registry_entry ''b'' ''2026-06-10T12:00:00Z''])]"

definition keep_path :: resolver where
  "keep_path d = Some (d, route_pack)"

definition newest_pack :: active_pack where
  "newest_pack = \<lparr> ak_source = ''s'', ak_competition = [], ak_directory = ''b'', ak_pack = route_pack \<rparr>"

lemma two_snapshots_read: "read_json (dumps two_snapshots) = Some two_snapshots"
  by (rule read_dumps) (simp_all add: two_snapshots_def registry_entry_def dict_ok_def text_json_def less_char_def less_imp_le)

lemma route_manifest_read: "read_json (dumps route_manifest) = Some route_manifest"
  by (rule read_dumps) (simp_all add: route_manifest_def route_entry_def dict_ok_def text_json_def route_keys less_imp_le)

lemma newest_active: "active_packs (Some (dumps two_snapshots)) keep_path = Inr [newest_pack]"
proof -
  have c: "candidate_of keep_path (registry_entry d t) = Inr (Some ((t, d), newest_pack\<lparr> ak_directory := d \<rparr>))" for d t
  proof -
    have "index_key (registry_entry d t) ''pack'' = Inr (JStr d)" "index_key (registry_entry d t) ''source_id'' = Inr (JStr ''s'')"
        "anchor_text (registry_entry d t) = Inr t"
      by (simp_all add: index_key_def registry_entry_def anchor_text_def jget_obj py_truthy_def py_text_def)
    moreover have "dict_get (pk_files route_pack) ''manifest.json'' = Some (dumps route_manifest)" by (simp add: route_pack_def)
    moreover have "is_obj route_manifest" "text_or_empty (jget route_manifest ''competition'') = []"
      by (simp_all add: route_manifest_def jget_obj text_or_empty_def py_truthy_def)
    ultimately show ?thesis
      by (simp add: candidate_of_def keep_path_def py_text_def newest_pack_def route_manifest_read)
  qed
  have "registry_entries (Some (dumps two_snapshots))
      = Inr [registry_entry ''a'' ''2026-06-09T12:00:00Z'', registry_entry ''b'' ''2026-06-10T12:00:00Z'']"
    by (simp add: registry_entries_def two_snapshots_read) (simp add: two_snapshots_def iter_json_def)
  then show ?thesis
    by (simp add: active_packs_def c present_def keep_best_def group_of_def newest_pack_def less_char_def less_prod_def)
qed

lemma current_pack_is_newest_witness:
  "\<exists>found. active_pack (Some (dumps two_snapshots)) keep_path ''s'' (Some []) = Inr found
     \<and> set_option found = {p \<in> set [newest_pack]. group_of p = (''s'', [])}"
  using current_pack_is_newest[OF newest_active, of "''s''" "[]"] by blast

definition route_calls :: "app_call list" where
  "route_calls = [Seal_fixture route_engine route_store [route_row] ''m_2'' ''climatological'' route_now,
     Settle_pending (\<lambda>url. Inl Uncaught) (DT 2026 6 12 12 0 0),
     Seal_fixture route_engine route_store [route_row] ''m_2'' ''climatological'' route_now]"

lemma one_root_per_fixture_witness:
  "length (filter (is_seal_of ''m_2'' ''climatological'')
     (artifacts_of any_format (lg_files (fold (exec_app any_format (\<lambda>s. s) (\<lambda>_. None)) route_calls fresh_ledger)))) \<le> 1"
  using one_root_per_fixture[OF refl] by blast

lemma reseal_returns_existing_witness:
  "\<exists>res l r m. seal_match (\<lambda>s. s) (\<lambda>_. None) route_engine route_store [route_row] ''m_2'' ''climatological'' route_now fresh_ledger = (Inr res, l)
     \<and> seal_match (\<lambda>s. s) (\<lambda>_. None) route_engine route_store [route_row] ''m_2'' ''climatological'' (DT 2026 6 10 13 0 0) l = (r, m) \<and> m = l"
proof -
  obtain res l where l: "seal_match (\<lambda>s. s) (\<lambda>_. None) route_engine route_store [route_row] ''m_2'' ''climatological'' route_now fresh_ledger = (Inr res, l)"
    using route_seals[of "\<lambda>s. s"] by blast
  obtain r m where r: "seal_match (\<lambda>s. s) (\<lambda>_. None) route_engine route_store [route_row] ''m_2'' ''climatological'' (DT 2026 6 10 13 0 0) l = (r, m)"
    by fastforce
  have "fold (exec_app any_format (\<lambda>s. s) (\<lambda>_. None)) [] l = l" by simp
  with r have r': "seal_match (\<lambda>s. s) (\<lambda>_. None) route_engine route_store [route_row] ''m_2'' ''climatological'' (DT 2026 6 10 13 0 0)
      (fold (exec_app any_format (\<lambda>s. s) (\<lambda>_. None)) [] l) = (r, m)" by simp
  have "fresh_ledger = fold (exec_app any_format (\<lambda>s. s) (\<lambda>_. None)) [] fresh_ledger" by simp
  from reseal_returns_existing[OF this _ _ l r'] have "m = l" by (simp add: route_engine_def)
  then show ?thesis using l r by blast
qed

lemma seal_made_in_window_witness:
  "\<exists>res l s d. seal_match (\<lambda>s. s) (\<lambda>_. None) route_engine route_store [route_row] ''m_2'' ''climatological'' route_now fresh_ledger = (Inr res, l)
     \<and> lg_files l = [(s, d)]"
proof -
  obtain res l where l: "seal_match (\<lambda>s. s) (\<lambda>_. None) route_engine route_store [route_row] ''m_2'' ''climatological'' route_now fresh_ledger = (Inr res, l)"
      "jget res ''created'' = JBool True"
    using route_seals[of "\<lambda>s. s"] by blast
  have "fresh_ledger = fold (exec_app any_format (\<lambda>s. s) (\<lambda>_. None)) [] fresh_ledger" "en_fmt route_engine = any_format" "wf_dt route_now"
    by (simp_all add: route_engine_def route_now_def wf_dt_def days_in_month_def)
  from seal_made_in_window[OF this l(1)] l show ?thesis by (auto simp: fresh_ledger_def)
qed

lemma links_exact_witness:
  "(mv_forecasts route_view, mv_linked_by route_view)
     = linked_to (\<lambda>s. s) (\<lambda>_. None) (mv_row route_view) (link_objects (map snd (sort_key fst ([] :: (string, string) dict))))"
  using links_exact[OF route_match, of "\<lambda>s. s"] by blast

end
