(* ===== verification/Correction_Policy.thy ===== *)
theory Correction_Policy
  imports Json
begin

text \<open>
  The source and license policy of local corrections
  (\<open>src/server/golavo_server/correction_policy.py\<close>): which registered sources may be
  corrected, in which namespace their proposals live, and which may leave the machine.  The
  catalog is the registry file's content, by source id.
\<close>

section \<open>Errors\<close>

text \<open>
  What a correction call can raise: \<open>CorrectionStoreError\<close> with its reason code and status,
  \<open>CorrectionPolicyError\<close> with its reason code, and the exceptions of the libraries and of
  Python (\<open>Type_fault\<close> is \<open>TypeError\<close>).
\<close>

datatype cexn =
    Store_error string nat
  | Policy_error string
  | Integrity_error
  | Database_error
  | Decode_error
  | Key_error
  | Value_error
  | Type_fault
  | Assertion_error

section \<open>The catalog\<close>

definition known_namespaces :: "string list" where
  "known_namespaces =
     [''core-cc0'', ''enrichment-cc0'', ''enrichment-public-domain'', ''enrichment-cc-by-4.0'',
      ''research-cc-by-sa-4.0'', ''overlay-odbl-1.0'', ''quarantine-unknown'']"

definition exportable_namespaces :: "string list" where
  "exportable_namespaces =
     [''core-cc0'', ''enrichment-cc0'', ''enrichment-public-domain'', ''enrichment-cc-by-4.0'']"

definition correction_types :: "string list" where
  "correction_types = [''missing_fixture'', ''kickoff_time'', ''team_alias'', ''venue'', ''final_score'']"

type_synonym catalog = "(string, json) dict"

text \<open>The policy of a source and the source itself; \<open>None\<close> for a source no one may correct.\<close>

definition policy_for :: "catalog \<Rightarrow> string option \<Rightarrow> (json \<times> json) option" where
  "policy_for cat source_id =
     (case source_id of
        None \<Rightarrow> None
      | Some sid \<Rightarrow>
          if sid = '''' then None
          else (case dict_get cat sid of
                  None \<Rightarrow> None
                | Some src \<Rightarrow>
                    let policy = jget src ''corrections''
                    in if is_obj policy \<and> jget policy ''enabled'' = JBool True
                       then Some (json_set ''source'' src policy, src) else None))"

text \<open>\<open>d[key]\<close> of an object, and \<open>str\<close> of what a registry holds there.\<close>

definition item :: "json \<Rightarrow> string \<Rightarrow> cexn + json" where
  "item v k = (case dict_get (obj_fields v) k of Some x \<Rightarrow> Inr x | None \<Rightarrow> Inl Key_error)"

definition py_str :: "json \<Rightarrow> string" where
  "py_str v = (case v of JStr s \<Rightarrow> s | JNull \<Rightarrow> ''None'' | JBool b \<Rightarrow> (if b then ''True'' else ''False'')
                | JInt i \<Rightarrow> print_int i | other \<Rightarrow> print_json other)"

definition namespace_for :: "catalog \<Rightarrow> string option \<Rightarrow> cexn + string" where
  "namespace_for cat source_id =
     (case policy_for cat source_id of
        None \<Rightarrow> Inr ''quarantine-unknown''
      | Some (policy, _) \<Rightarrow> bindE (item policy ''license_namespace'') (\<lambda>v. Inr (py_str v)))"

definition json_items :: "json \<Rightarrow> json list" where
  "json_items v = (case v of JArr vs \<Rightarrow> vs | _ \<Rightarrow> [])"

definition validate_type :: "catalog \<Rightarrow> string option \<Rightarrow> string \<Rightarrow> cexn + unit" where
  "validate_type cat source_id ctype =
     (if ctype \<notin> set correction_types then Inl (Policy_error ''unknown_correction_type'')
      else (case policy_for cat source_id of
              None \<Rightarrow> Inl (Policy_error ''source_unregistered'')
            | Some (policy, _) \<Rightarrow>
                bindE (item policy ''allowed_types'') (\<lambda>types.
                guardE (JStr ctype \<in> set (json_items types)) (Policy_error ''field_not_allowed''))))"

definition can_export :: "catalog \<Rightarrow> string option \<Rightarrow> bool" where
  "can_export cat source_id =
     (case policy_for cat source_id of
        None \<Rightarrow> False
      | Some (policy, _) \<Rightarrow>
          jget policy ''redistributable_export'' = JBool True \<and>
          jget policy ''license_namespace'' \<in> JStr ` set exportable_namespaces)"

definition py_truthy :: "json \<Rightarrow> bool" where
  "py_truthy v = (v \<notin> {JNull, JBool False, JInt 0, JFloat 0, JStr '''', JArr [], JObj []})"

definition public_source :: "catalog \<Rightarrow> string \<Rightarrow> cexn + json" where
  "public_source cat source_id =
     (case policy_for cat (Some source_id) of
        None \<Rightarrow> Inl (Policy_error ''source_unregistered'')
      | Some (policy, source) \<Rightarrow>
          bindE (item source ''name'') (\<lambda>name.
          bindE (item source ''license'') (\<lambda>license.
          bindE (item policy ''license_namespace'') (\<lambda>namespace.
          bindE (item policy ''allowed_types'') (\<lambda>types.
          bindE (item policy ''redistributable_export'') (\<lambda>export.
          bindE (item policy ''contribution_url'') (\<lambda>url.
          Inr (JObj
            [(''source_id'', JStr source_id), (''name'', name), (''license'', license),
             (''license_url'', jget source ''license_url''), (''attribution'', jget source ''attribution''),
             (''license_namespace'', namespace), (''allowed_types'', JArr (json_items types)),
             (''redistributable_export'', JBool (py_truthy export)), (''contribution_url'', url)]))))))))"

section \<open>What the policy promises\<close>

lemma quarantine_known: "''quarantine-unknown'' \<in> set known_namespaces"
  by (simp add: known_namespaces_def)

lemma exportable_known: "set exportable_namespaces \<subseteq> set known_namespaces"
  by (simp add: known_namespaces_def exportable_namespaces_def)

lemma jget_item: "jget v k \<noteq> JNull \<Longrightarrow> item v k = Inr (jget v k)"
  by (auto simp: jget_def item_def split: option.splits)

text \<open>An exportable source files its proposals under an exportable license.\<close>

lemma export_namespace:
  assumes "can_export cat sid"
  shows "\<exists>ns \<in> set exportable_namespaces. namespace_for cat sid = Inr ns"
proof -
  obtain policy src ns where p: "policy_for cat sid = Some (policy, src)"
    and ns: "ns \<in> set exportable_namespaces" "jget policy ''license_namespace'' = JStr ns"
    using assms by (auto simp: can_export_def split: option.splits)
  have "item policy ''license_namespace'' = Inr (JStr ns)" using jget_item[of policy "''license_namespace''"] ns(2) by simp
  then have "namespace_for cat sid = Inr ns" using p by (simp add: namespace_for_def py_str_def)
  then show ?thesis using ns(1) by blast
qed

end
