(* ===== verification/Py_Equality.thy ===== *)
theory Py_Equality
  imports Json
begin

text \<open>Python's equality of values read from JSON.\<close>

text \<open>\<open>==\<close> of decoded values: objects up to the order of their keys, numbers by their value.\<close>

function py_value :: "json \<Rightarrow> json"
  and py_values :: "json list \<Rightarrow> json list"
  and py_members :: "(string, json) dict \<Rightarrow> (string, json) dict" where
  "py_value (JArr vs) = JArr (py_values vs)"
| "py_value (JObj kvs) = JObj (sort_key fst (py_members kvs))"
| "py_value JNull = JNull"
| "py_value (JBool b) = JFloat (if b then 1000000000 else 0)"
| "py_value (JInt i) = JFloat (i * 1000000000)"
| "py_value (JFloat n) = JFloat n"
| "py_value (JStr t) = JStr t"
| "py_values [] = []"
| "py_values (v # vs) = py_value v # py_values vs"
| "py_members [] = []"
| "py_members ((k, v) # kvs) = (k, py_value v) # py_members kvs"
  by pat_completeness auto
termination
  by (relation "measure json_size") simp_all

definition py_eq :: "json \<Rightarrow> json \<Rightarrow> bool" where
  "py_eq v w \<longleftrightarrow> py_value v = py_value w"

lemma py_eq_refl [simp]: "py_eq v v"
  by (simp add: py_eq_def)

lemma py_members_map: "py_members kvs = map (\<lambda>(k, v). (k, py_value v)) kvs"
  by (induction kvs) auto

lemma py_members_sort: "py_members (sort_key fst kvs) = sort_key fst (py_members kvs)"
  unfolding py_members_map by (subst sort_map) (simp_all add: case_prod_beta)

lemma py_normalise:
  "py_value (normalise v) = py_value v"
  "py_values (normalise_items vs) = py_values vs"
  "py_members (normalise_members kvs) = py_members kvs"
  by (induction v and vs and kvs rule: normalise_normalise_items_normalise_members.induct)
    (simp_all add: py_members_sort sort_key_id_if_sorted[of fst "sort_key fst _", OF sorted_sort_key])

lemma py_eq_normalise [simp]: "py_eq (normalise v) w = py_eq v w" "py_eq v (normalise w) = py_eq v w"
  by (simp_all add: py_eq_def py_normalise)

text \<open>\<open>bool(value)\<close>.\<close>

definition py_bool :: "json \<Rightarrow> bool" where
  "py_bool v = (v \<notin> {JNull, JBool False, JInt 0, JFloat 0, JStr '''', JArr [], JObj []})"

text \<open>An integer compared with a value read from JSON.\<close>

definition equals_nat :: "nat \<Rightarrow> json \<Rightarrow> bool" where
  "equals_nat n v = py_eq (JInt (int n)) v"

end
