(* ===== verification/Correction_Store.thy ===== *)
theory Correction_Store
  imports Correction_Policy Py_Equality Sha256 Prelude "HOL-Library.Product_Lexorder"
begin

text \<open>
  The local correction proposals (\<open>src/server/golavo_server/correction_store.py\<close>): one SQLite
  database per license namespace holding proposal rows, an append-only hash-chained event log,
  evidence rows and export records, next to the captured evidence bytes and the exported
  files.  A call returns the new store and its answer; a rolled back transaction returns the
  store it started from.  A database file is its \<open>user_version\<close>, whether its integrity check
  passes, and its tables; the tables of a fresh file are made on the first connection, which
  no call can tell from a file that has none.  Times and the random part of a proposal id
  are arguments; texts are UTF-8 bytes.
\<close>

section \<open>Tables\<close>

record proposal_row =
  proposal_id :: string
  p_namespace :: string
  correction_type :: string
  p_state :: string
  verification_level :: string
  target_json :: string
  original_json :: "string option"
  proposed_json :: string
  p_source :: "string option"
  validation_json :: string
  local_visibility :: string
  p_fingerprint :: string
  created_at :: string
  updated_at :: string
  head_event_id :: "string option"

record event_row =
  event_id :: string
  e_proposal :: string
  e_sequence :: nat
  event_type :: string
  recorded_at :: string
  previous_hash :: "string option"
  payload_json :: string
  payload_sha :: string
  event_sha :: string

record evidence_row =
  evidence_id :: string
  v_proposal :: string
  source_url :: string
  hostname :: string
  v_source :: string
  v_namespace :: string
  source_revision :: "string option"
  raw_sha :: string
  raw_bytes :: nat
  sanitized_text :: string
  sanitized_sha :: string
  snapshot_verified :: bool
  captured_at :: string
  redacted :: bool

record export_row =
  export_id :: string
  x_proposal :: string
  x_head :: string
  relative_path :: string
  x_sha :: string
  x_bytes :: nat
  exported_at :: string

record db =
  proposals :: "proposal_row list"
  proposal_events :: "event_row list"
  evidence :: "evidence_row list"
  exports :: "export_row list"

definition empty_db :: db where
  "empty_db = \<lparr>proposals = [], proposal_events = [], evidence = [], exports = []\<rparr>"

section \<open>Files\<close>

datatype db_file = Broken_file | Db_file int bool db

datatype disk_entry = Regular string | Other_entry

record corr_store =
  databases :: "(string, db_file) dict"
  raws :: "(string \<times> string, disk_entry) dict"
  exported_files :: "(string, disk_entry) dict"

definition empty_store :: corr_store where
  "empty_store = \<lparr>databases = [], raws = [], exported_files = []\<rparr>"

definition put_db :: "string \<Rightarrow> db \<Rightarrow> corr_store \<Rightarrow> corr_store" where
  "put_db ns d s = s\<lparr>databases := dict_set ns (Db_file 1 True d) (databases s)\<rparr>"

definition unavailable :: cexn where
  "unavailable = Store_error ''correction_store_unavailable'' 503"

definition migrate :: "int \<Rightarrow> db \<Rightarrow> cexn + db" where
  "migrate version d =
     (if version > 1 then Inl (Store_error ''correction_store_newer_version'' 503)
      else if version = 1 then Inr d
      else if version \<noteq> 0 then Inl unavailable
      else if d = empty_db then Inr empty_db else Inl unavailable)"

definition connect :: "corr_store \<Rightarrow> string \<Rightarrow> bool \<Rightarrow> cexn + db option" where
  "connect s ns create =
     (if ns \<notin> set known_namespaces then Inl (Store_error ''invalid_license_namespace'' 422)
      else (case dict_get (databases s) ns of
              None \<Rightarrow> Inr (if create then Some empty_db else None)
            | Some Broken_file \<Rightarrow> Inl unavailable
            | Some (Db_file version intact d) \<Rightarrow>
                bindE (migrate version d) (\<lambda>d'. if intact then Inr (Some d') else Inl unavailable)))"

section \<open>Rows\<close>

definition find_proposal :: "db \<Rightarrow> string \<Rightarrow> proposal_row option" where
  "find_proposal d p = List.find (\<lambda>r. proposal_id r = p) (proposals d)"

definition update_proposal :: "string \<Rightarrow> (proposal_row \<Rightarrow> proposal_row) \<Rightarrow> db \<Rightarrow> db" where
  "update_proposal p f d = d\<lparr>proposals := map (\<lambda>r. if proposal_id r = p then f r else r) (proposals d)\<rparr>"

definition opt_json :: "string option \<Rightarrow> json" where
  "opt_json x = (case x of None \<Rightarrow> JNull | Some t \<Rightarrow> JStr t)"

definition schema_version :: json where
  "schema_version = JStr ''0.1.0''"

definition fingerprint_json :: "string \<Rightarrow> string \<Rightarrow> json \<Rightarrow> json \<Rightarrow> json" where
  "fingerprint_json ns ctype target proposed = JObj
     [(''schema_version'', schema_version), (''license_namespace'', JStr ns),
      (''correction_type'', JStr ctype), (''target'', target), (''proposed'', proposed)]"

definition fingerprint :: "string \<Rightarrow> string \<Rightarrow> json \<Rightarrow> json \<Rightarrow> string" where
  "fingerprint ns ctype target proposed = sha256_hex (dumps (fingerprint_json ns ctype target proposed))"

section \<open>Events\<close>

definition event_json :: "string \<Rightarrow> nat \<Rightarrow> string \<Rightarrow> string \<Rightarrow> string option \<Rightarrow> string \<Rightarrow> json" where
  "event_json p n etype now prev psha = JObj
     [(''schema_version'', schema_version), (''proposal_id'', JStr p), (''sequence'', JInt (int n)),
      (''event_type'', JStr etype), (''recorded_at_utc'', JStr now),
      (''previous_event_hash'', opt_json prev), (''payload_sha256'', JStr psha)]"

definition event_hash :: "string \<Rightarrow> nat \<Rightarrow> string \<Rightarrow> string \<Rightarrow> string option \<Rightarrow> string \<Rightarrow> string" where
  "event_hash p n etype now prev psha = sha256_hex (dumps (event_json p n etype now prev psha))"

definition events_of :: "string \<Rightarrow> db \<Rightarrow> event_row list" where
  "events_of p d = sort_key e_sequence (filter (\<lambda>e. e_proposal e = p) (proposal_events d))"

definition new_event :: "string \<Rightarrow> string \<Rightarrow> json \<Rightarrow> string \<Rightarrow> event_row option \<Rightarrow> event_row" where
  "new_event p etype payload now previous =
     (let n = (case previous of None \<Rightarrow> 1 | Some e \<Rightarrow> Suc (e_sequence e));
          prev = map_option event_sha previous;
          ptext = dumps payload;
          psha = sha256_hex ptext;
          esha = event_hash p n etype now prev psha
      in \<lparr>event_id = ''ce_'' @ esha, e_proposal = p, e_sequence = n, event_type = etype,
          recorded_at = now, previous_hash = prev, payload_json = ptext, payload_sha = psha,
          event_sha = esha\<rparr>)"

text \<open>The table's constraints: its two keys and the proposal it refers to.\<close>

definition insert_event :: "event_row \<Rightarrow> db \<Rightarrow> cexn + db" where
  "insert_event e d =
     (if e_proposal e \<notin> proposal_id ` set (proposals d) \<or> event_id e \<in> event_id ` set (proposal_events d) \<or>
         (e_proposal e, e_sequence e) \<in> (\<lambda>x. (e_proposal x, e_sequence x)) ` set (proposal_events d)
      then Inl Integrity_error
      else Inr (d\<lparr>proposal_events := proposal_events d @ [e]\<rparr>))"

definition append_event :: "string \<Rightarrow> string \<Rightarrow> json \<Rightarrow> string \<Rightarrow> db \<Rightarrow> cexn + db" where
  "append_event p etype payload now d =
     (let previous = (case rev (events_of p d) of [] \<Rightarrow> None | e # _ \<Rightarrow> Some e);
          e = new_event p etype payload now previous
      in bindE (insert_event e d) (\<lambda>d'.
         Inr (update_proposal p (\<lambda>r. r\<lparr>head_event_id := Some (event_id e), updated_at := now\<rparr>) d')))"

section \<open>Views\<close>

record evidence_view = evidence_row +
  untrusted :: bool

definition evidence_rows :: "db \<Rightarrow> string \<Rightarrow> evidence_view list" where
  "evidence_rows d p =
     map (\<lambda>v. evidence_row.extend
             (if redacted v then v\<lparr>sanitized_text := ''[evidence redacted]''\<rparr> else v) \<lparr>untrusted = True\<rparr>)
         (sort_key (\<lambda>v. (captured_at v, evidence_id v)) (filter (\<lambda>v. v_proposal v = p) (evidence d)))"

text \<open>A proposal as it is shown: its row, the JSON columns decoded, and its evidence.\<close>

record proposal_view =
  row :: proposal_row
  target :: json
  original :: json
  proposed :: json
  validation :: json
  shown_evidence :: "evidence_view list"

definition decode :: "string option \<Rightarrow> cexn + json" where
  "decode x = (case x of None \<Rightarrow> Inr JNull
               | Some t \<Rightarrow> (case loads t of Some v \<Rightarrow> Inr v | None \<Rightarrow> Inl Decode_error))"

definition view_of_row :: "db \<Rightarrow> proposal_row \<Rightarrow> cexn + proposal_view" where
  "view_of_row d r =
     bindE (decode (Some (target_json r))) (\<lambda>t.
     bindE (decode (original_json r)) (\<lambda>orig.
     bindE (decode (Some (proposed_json r))) (\<lambda>prop.
     bindE (decode (Some (validation_json r))) (\<lambda>v.
     Inr \<lparr>row = r, target = t, original = orig, proposed = prop, validation = v,
          shown_evidence = evidence_rows d (proposal_id r)\<rparr>))))"

text \<open>The freshly read row after a commit: it is there, or the assertion fails.\<close>

definition fresh_view :: "string \<Rightarrow> db \<Rightarrow> cexn + proposal_view" where
  "fresh_view p d = (case find_proposal d p of None \<Rightarrow> Inl Assertion_error | Some r \<Rightarrow> view_of_row d r)"

definition no_findings :: json where
  "no_findings = JObj [(''reason_codes'', JArr []), (''conflicts'', JArr [])]"

section \<open>Finding a proposal\<close>

fun locate_in :: "corr_store \<Rightarrow> string \<Rightarrow> string list \<Rightarrow> cexn + (string \<times> db \<times> proposal_row)" where
  "locate_in s p [] = Inl (Store_error ''proposal_not_found'' 404)"
| "locate_in s p (ns # nss) =
     bindE (connect s ns False) (\<lambda>c.
     case c of
       None \<Rightarrow> locate_in s p nss
     | Some d \<Rightarrow> (case find_proposal d p of Some r \<Rightarrow> Inr (ns, d, r) | None \<Rightarrow> locate_in s p nss))"

definition locate :: "corr_store \<Rightarrow> string \<Rightarrow> cexn + (string \<times> db \<times> proposal_row)" where
  "locate s p =
     (if \<not> starts_with ''cp_'' p \<or> length p \<noteq> 35 then Inl (Store_error ''proposal_not_found'' 404)
      else locate_in s p known_namespaces)"

definition get_proposal :: "corr_store \<Rightarrow> string \<Rightarrow> cexn + proposal_view" where
  "get_proposal s p = bindE (locate s p) (\<lambda>(ns, d, r). view_of_row d r)"

definition proposal_history :: "corr_store \<Rightarrow> string \<Rightarrow> cexn + event_row list" where
  "proposal_history s p = bindE (locate s p) (\<lambda>(ns, d, r). Inr (events_of p d))"

section \<open>Creating\<close>

definition existing_proposal :: "db \<Rightarrow> string \<Rightarrow> proposal_row option" where
  "existing_proposal d fp =
     (case sort_key created_at
             (filter (\<lambda>r. p_fingerprint r = fp \<and> p_state r \<notin> {''withdrawn'', ''superseded''}) (proposals d)) of
        [] \<Rightarrow> None | r # _ \<Rightarrow> Some r)"

definition created_payload :: "string \<Rightarrow> string \<Rightarrow> json \<Rightarrow> json option \<Rightarrow> json \<Rightarrow> string option \<Rightarrow> json" where
  "created_payload ns ctype tgt orig prop src = JObj
     [(''correction_type'', JStr ctype), (''target'', tgt),
      (''original'', case orig of None \<Rightarrow> JNull | Some v \<Rightarrow> v), (''proposed'', prop),
      (''source_id'', opt_json src), (''license_namespace'', JStr ns)]"

definition insert_proposal :: "proposal_row \<Rightarrow> db \<Rightarrow> cexn + db" where
  "insert_proposal r d =
     (if proposal_id r \<in> proposal_id ` set (proposals d) then Inl Integrity_error
      else Inr (d\<lparr>proposals := proposals d @ [r]\<rparr>))"

definition draft_row :: "string \<Rightarrow> string \<Rightarrow> string \<Rightarrow> json \<Rightarrow> json option \<Rightarrow> json \<Rightarrow> string option \<Rightarrow> string \<Rightarrow> proposal_row" where
  "draft_row p ns ctype tgt orig prop src now =
     \<lparr>proposal_id = p, p_namespace = ns, correction_type = ctype, p_state = ''draft'',
      verification_level = ''none'', target_json = dumps tgt, original_json = map_option dumps orig,
      proposed_json = dumps prop, p_source = src, validation_json = dumps no_findings,
      local_visibility = ''queue_only'', p_fingerprint = fingerprint ns ctype tgt prop,
      created_at = now, updated_at = now, head_event_id = None\<rparr>"

definition index_changed :: cexn where
  "index_changed = Store_error ''index_generation_changed'' 409"

definition create_in ::
  "string \<Rightarrow> string \<Rightarrow> json \<Rightarrow> json option \<Rightarrow> json \<Rightarrow> string option \<Rightarrow> string \<Rightarrow> string \<Rightarrow> db \<Rightarrow> cexn + db" where
  "create_in ns ctype tgt orig prop src uuid now d =
     bindE (insert_proposal (draft_row (''cp_'' @ uuid) ns ctype tgt orig prop src now) d) (\<lambda>d'.
     append_event (''cp_'' @ uuid) ''created'' (created_payload ns ctype tgt orig prop src) now d')"

text \<open>
  \<open>commit\<close> is the answer of \<open>generation_commit\<close>, which commits inside the generation's lock
  when the index is still the one the proposal was read from; \<open>None\<close> when there is none.
\<close>

definition create_proposal ::
  "catalog \<Rightarrow> string \<Rightarrow> json \<Rightarrow> json option \<Rightarrow> json \<Rightarrow> string option \<Rightarrow> bool option \<Rightarrow> string \<Rightarrow> string \<Rightarrow>
   corr_store \<Rightarrow> corr_store \<times> (cexn + proposal_view \<times> bool)" where
  "create_proposal cat ctype tgt orig prop src commit uuid now s =
     (case bindE (namespace_for cat src) (\<lambda>ns. bindE (connect s ns True) (\<lambda>c. Inr (ns, c))) of
        Inl e \<Rightarrow> (s, Inl e)
      | Inr (ns, None) \<Rightarrow> (s, Inl Assertion_error)
      | Inr (ns, Some d) \<Rightarrow>
          (case existing_proposal d (fingerprint ns ctype tgt prop) of
             Some r \<Rightarrow> (s, if commit = Some False then Inl index_changed
                          else bindE (view_of_row d r) (\<lambda>v. Inr (v, False)))
           | None \<Rightarrow>
               (case create_in ns ctype tgt orig prop src uuid now d of
                  Inl e \<Rightarrow> (s, Inl e)
                | Inr d' \<Rightarrow>
                    if commit = Some False then (s, Inl index_changed)
                    else (put_db ns d' s, bindE (fresh_view (''cp_'' @ uuid) d') (\<lambda>v. Inr (v, True))))))"

section \<open>Changing a proposal\<close>

text \<open>
  What the calls that change one proposal share: they find it, a check of its row decides, a
  transaction changes the tables, and the fresh row is answered.
\<close>

definition change ::
  "string \<Rightarrow> (proposal_row \<Rightarrow> cexn + unit) \<Rightarrow> (proposal_row \<Rightarrow> db \<Rightarrow> cexn + db) \<Rightarrow> corr_store \<Rightarrow>
   corr_store \<times> (cexn + proposal_view)" where
  "change p check work s =
     (case bindE (locate s p) (\<lambda>(ns, d, r). bindE (check r) (\<lambda>_. bindE (work r d) (\<lambda>d'. Inr (ns, d')))) of
        Inl e \<Rightarrow> (s, Inl e)
      | Inr (ns, d') \<Rightarrow> (put_db ns d' s, fresh_view p d'))"

definition not_editable :: cexn where
  "not_editable = Store_error ''proposal_not_editable'' 409"

definition proposal_changed :: cexn where
  "proposal_changed = Store_error ''proposal_changed'' 409"

definition expect_head :: "string option \<Rightarrow> proposal_row \<Rightarrow> cexn + unit" where
  "expect_head expected r = guardE (expected = None \<or> head_event_id r = expected) proposal_changed"

definition revise_check :: "string \<Rightarrow> proposal_row \<Rightarrow> cexn + unit" where
  "revise_check expected r =
     bindE (guardE (p_state r \<in> {''draft'', ''evidence_attached'', ''validated_candidate'', ''conflict''}) not_editable) (\<lambda>_.
     guardE (head_event_id r = Some expected) proposal_changed)"

definition revise_work :: "json \<Rightarrow> string \<Rightarrow> proposal_row \<Rightarrow> db \<Rightarrow> cexn + db" where
  "revise_work prop now r d =
     bindE (decode (Some (target_json r))) (\<lambda>tgt.
     let next_state = (if evidence_rows d (proposal_id r) \<noteq> [] then ''evidence_attached'' else ''draft'')
     in append_event (proposal_id r) ''draft_revised''
          (JObj [(''proposed'', prop), (''validation_reset'', JBool True)]) now
          (update_proposal (proposal_id r) (\<lambda>x. x\<lparr>proposed_json := dumps prop, p_state := next_state,
             verification_level := ''none'', validation_json := dumps no_findings,
             local_visibility := ''queue_only'',
             p_fingerprint := fingerprint (p_namespace r) (correction_type r) tgt prop\<rparr>) d))"

definition revise_draft :: "string \<Rightarrow> json \<Rightarrow> string \<Rightarrow> string \<Rightarrow> corr_store \<Rightarrow> corr_store \<times> (cexn + proposal_view)" where
  "revise_draft p prop expected now s = change p (revise_check expected) (revise_work prop now) s"

definition transition_check :: "string list \<Rightarrow> string option \<Rightarrow> proposal_row \<Rightarrow> cexn + unit" where
  "transition_check allowed expected r =
     bindE (guardE (p_state r \<in> set allowed) (Store_error ''invalid_correction_transition'' 409)) (\<lambda>_.
     expect_head expected r)"

definition transition_work ::
  "string \<Rightarrow> string \<Rightarrow> json \<Rightarrow> string option \<Rightarrow> string \<Rightarrow> proposal_row \<Rightarrow> db \<Rightarrow> cexn + db" where
  "transition_work state etype payload visibility now r d =
     append_event (proposal_id r) etype payload now
       (update_proposal (proposal_id r) (\<lambda>x. x\<lparr>p_state := state,
          local_visibility := (case visibility of Some v \<Rightarrow> v | None \<Rightarrow> local_visibility r)\<rparr>) d)"

definition transition ::
  "string \<Rightarrow> string list \<Rightarrow> string \<Rightarrow> string \<Rightarrow> json \<Rightarrow> string option \<Rightarrow> string option \<Rightarrow> string \<Rightarrow>
   corr_store \<Rightarrow> corr_store \<times> (cexn + proposal_view)" where
  "transition p allowed state etype payload visibility expected now s =
     change p (transition_check allowed expected) (transition_work state etype payload visibility now) s"

definition validation_check :: "string \<Rightarrow> string option \<Rightarrow> proposal_row \<Rightarrow> cexn + unit" where
  "validation_check state expected r =
     bindE (expect_head expected r) (\<lambda>_.
     bindE (guardE (p_state r \<notin> {''withdrawn'', ''superseded'', ''submitted''})
              (Store_error ''proposal_not_validatable'' 409)) (\<lambda>_.
     guardE (state \<in> {''validated_candidate'', ''conflict'', ''evidence_attached''}) Value_error))"

definition validation_event :: "string \<Rightarrow> string" where
  "validation_event state =
     (if state = ''conflict'' then ''conflict_detected''
      else if state = ''validated_candidate'' then ''validation_passed'' else ''validation_failed'')"

definition mark_snapshots :: "string \<Rightarrow> string list \<Rightarrow> db \<Rightarrow> db" where
  "mark_snapshots p ids d =
     d\<lparr>evidence := map (\<lambda>v. if v_proposal v = p then v\<lparr>snapshot_verified := evidence_id v \<in> set ids\<rparr> else v) (evidence d)\<rparr>"

definition findings_json :: "string list \<Rightarrow> json list \<Rightarrow> json" where
  "findings_json reasons conflicts = JObj [(''reason_codes'', JArr (map JStr reasons)), (''conflicts'', JArr conflicts)]"

definition validation_work ::
  "string \<Rightarrow> string \<Rightarrow> string list \<Rightarrow> json list \<Rightarrow> string list \<Rightarrow> string \<Rightarrow> proposal_row \<Rightarrow> db \<Rightarrow> cexn + db" where
  "validation_work state level reasons conflicts ids now r d =
     append_event (proposal_id r) (validation_event state)
       (JObj [(''state'', JStr state), (''verification_level'', JStr level),
              (''reason_codes'', JArr (map JStr reasons)), (''conflicts'', JArr conflicts)]) now
       (update_proposal (proposal_id r) (\<lambda>x. x\<lparr>p_state := state, verification_level := level,
          validation_json := dumps (findings_json reasons conflicts), local_visibility := ''queue_only''\<rparr>)
          (mark_snapshots (proposal_id r) ids d))"

definition apply_validation ::
  "string \<Rightarrow> string \<Rightarrow> string \<Rightarrow> string list \<Rightarrow> json list \<Rightarrow> string list \<Rightarrow> string option \<Rightarrow> string \<Rightarrow>
   corr_store \<Rightarrow> corr_store \<times> (cexn + proposal_view)" where
  "apply_validation p state level reasons conflicts ids expected now s =
     change p (validation_check state expected) (validation_work state level reasons conflicts ids now) s"

section \<open>Evidence\<close>

text \<open>What the sanitizer hands over with the captured bytes.\<close>

record receipt =
  r_raw_sha :: string
  r_raw_bytes :: nat
  r_text :: string
  r_text_sha :: string

definition atomic_raw :: "string \<Rightarrow> string \<Rightarrow> string \<Rightarrow> corr_store \<Rightarrow> cexn + corr_store" where
  "atomic_raw ns digest raw s =
     (case dict_get (raws s) (ns, digest) of
        Some Other_entry \<Rightarrow> Inl (Store_error ''evidence_path_unsafe'' 503)
      | Some (Regular b) \<Rightarrow>
          if sha256_hex b \<noteq> digest then Inl (Store_error ''evidence_hash_mismatch'' 503) else Inr s
      | None \<Rightarrow> Inr (s\<lparr>raws := dict_set (ns, digest) (Regular raw) (raws s)\<rparr>))"

definition evidence_hash :: "string \<Rightarrow> string \<Rightarrow> string \<Rightarrow> string" where
  "evidence_hash p url digest = ''ev_'' @ sha256_hex (p @ [CHR 0x0A] @ url @ [CHR 0x0A] @ digest)"

definition new_evidence ::
  "string \<Rightarrow> string \<Rightarrow> string \<Rightarrow> string \<Rightarrow> string option \<Rightarrow> receipt \<Rightarrow> string \<Rightarrow> proposal_row \<Rightarrow> evidence_row" where
  "new_evidence p ns url host revision rc now r =
     \<lparr>evidence_id = evidence_hash p url (r_raw_sha rc), v_proposal = p, source_url = url, hostname = host,
      v_source = (case p_source r of None \<Rightarrow> ''unregistered''
                  | Some src \<Rightarrow> if src = [] then ''unregistered'' else src),
      v_namespace = ns, source_revision = revision, raw_sha = r_raw_sha rc, raw_bytes = r_raw_bytes rc,
      sanitized_text = r_text rc, sanitized_sha = r_text_sha rc, snapshot_verified = False,
      captured_at = now, redacted = False\<rparr>"

definition insert_evidence :: "evidence_row \<Rightarrow> db \<Rightarrow> cexn + db" where
  "insert_evidence v d =
     (if v_proposal v \<notin> proposal_id ` set (proposals d) \<or> evidence_id v \<in> evidence_id ` set (evidence d) \<or>
         (v_proposal v, raw_sha v, source_url v) \<in> (\<lambda>x. (v_proposal x, raw_sha x, source_url x)) ` set (evidence d)
      then Inl Integrity_error
      else Inr (d\<lparr>evidence := evidence d @ [v]\<rparr>))"

definition attach_payload :: "string \<Rightarrow> string \<Rightarrow> receipt \<Rightarrow> json option \<Rightarrow> json" where
  "attach_payload eid url rc origin = JObj
     ([(''evidence_id'', JStr eid), (''source_url'', JStr url), (''raw_sha256'', JStr (r_raw_sha rc)),
       (''raw_bytes'', JInt (int (r_raw_bytes rc))), (''untrusted'', JBool True)] @
      (case origin of None \<Rightarrow> [] | Some v \<Rightarrow> [(''research_origin'', v)]))"

definition attach_work ::
  "string \<Rightarrow> string \<Rightarrow> string \<Rightarrow> string option \<Rightarrow> receipt \<Rightarrow> json option \<Rightarrow> string \<Rightarrow> proposal_row \<Rightarrow> db \<Rightarrow> cexn + db" where
  "attach_work ns url host revision rc origin now r d =
     bindE (insert_evidence (new_evidence (proposal_id r) ns url host revision rc now r) d) (\<lambda>d'.
     append_event (proposal_id r) (if origin = None then ''evidence_attached'' else ''evidence_imported_from_research'')
       (attach_payload (evidence_hash (proposal_id r) url (r_raw_sha rc)) url rc origin) now
       (update_proposal (proposal_id r) (\<lambda>x. x\<lparr>p_state := ''evidence_attached'', verification_level := ''none'',
          validation_json := dumps no_findings, local_visibility := ''queue_only''\<rparr>) d'))"

text \<open>
  The bytes are on disk before the row is committed, so a transaction that fails afterwards
  leaves them without a row.
\<close>

definition attach_evidence ::
  "string \<Rightarrow> string \<Rightarrow> string \<Rightarrow> string option \<Rightarrow> string \<Rightarrow> receipt \<Rightarrow> json option \<Rightarrow> string \<Rightarrow>
   corr_store \<Rightarrow> corr_store \<times> (cexn + proposal_view \<times> bool)" where
  "attach_evidence p url host revision raw rc origin now s =
     (case locate s p of
        Inl e \<Rightarrow> (s, Inl e)
      | Inr (ns, d, r) \<Rightarrow>
          let mine = filter (\<lambda>v. v_proposal v = p) (evidence d) in
          if p_state r \<in> {''withdrawn'', ''superseded'', ''submitted''} then (s, Inl not_editable)
          else if length mine \<ge> 10 then (s, Inl (Store_error ''too_many_evidence_items'' 422))
          else if list_ex (\<lambda>v. raw_sha v = r_raw_sha rc \<and> source_url v = url) mine
          then (s, bindE (view_of_row d r) (\<lambda>v. Inr (v, False)))
          else (case atomic_raw ns (r_raw_sha rc) raw s of
                  Inl e \<Rightarrow> (s, Inl e)
                | Inr s' \<Rightarrow>
                    (case attach_work ns url host revision rc origin now r d of
                       Inl e \<Rightarrow> (s', Inl e)
                     | Inr d' \<Rightarrow> (put_db ns d' s', bindE (fresh_view p d') (\<lambda>v. Inr (v, True))))))"

definition read_raw :: "corr_store \<Rightarrow> string \<Rightarrow> evidence_view \<Rightarrow> cexn + (evidence_view \<times> string)" where
  "read_raw s ns v =
     (case dict_get (raws s) (ns, raw_sha v) of
        Some (Regular b) \<Rightarrow>
          if sha256_hex b \<noteq> raw_sha v then Inl (Store_error ''evidence_hash_mismatch'' 503) else Inr (v, b)
      | _ \<Rightarrow> Inl (Store_error ''evidence_unavailable'' 503))"

definition raw_evidence :: "corr_store \<Rightarrow> string \<Rightarrow> cexn + (evidence_view \<times> string) list" where
  "raw_evidence s p =
     bindE (locate s p) (\<lambda>(ns, d, r).
     mapE (read_raw s ns) (filter (\<lambda>v. \<not> redacted v) (evidence_rows d p)))"

text \<open>
  Redacting removes the shown text, forgets the validation, unlinks every export of the
  proposal, and unlinks the bytes when no other evidence of the namespace uses them.
\<close>

definition redact_state :: "string \<Rightarrow> db \<Rightarrow> db" where
  "redact_state p d =
     (let remaining = filter (\<lambda>v. v_proposal v = p \<and> \<not> redacted v) (evidence d);
          reasons = (if remaining = [] then [''source_url_and_captured_evidence_required''] else [])
      in update_proposal p (\<lambda>x. x\<lparr>p_state := (if remaining = [] then ''draft'' else ''evidence_attached''),
           verification_level := ''none'', validation_json := dumps (findings_json reasons []),
           local_visibility := ''queue_only''\<rparr>) d)"

definition redact_rows :: "string \<Rightarrow> string \<Rightarrow> db \<Rightarrow> db" where
  "redact_rows p eid d =
     (mark_snapshots p [] d)\<lparr>evidence := map (\<lambda>v. if evidence_id v = eid then v\<lparr>redacted := True, sanitized_text := []\<rparr> else v)
        (evidence (mark_snapshots p [] d))\<rparr>"

definition redact_work :: "string \<Rightarrow> evidence_row \<Rightarrow> string \<Rightarrow> db \<Rightarrow> cexn + db" where
  "redact_work p v now d =
     bindE (append_event p ''evidence_redacted''
              (JObj [(''evidence_id'', JStr (evidence_id v)), (''raw_sha256'', JStr (raw_sha v))]) now
              (redact_rows p (evidence_id v) d)) (\<lambda>d'.
     Inr (redact_state p d'))"

definition unlink_exports :: "string list \<Rightarrow> corr_store \<Rightarrow> corr_store" where
  "unlink_exports paths s =
     s\<lparr>exported_files := filter (\<lambda>(f, entry). \<not> (f \<in> set paths \<and> entry \<noteq> Other_entry)) (exported_files s)\<rparr>"

definition unlink_raw :: "string \<Rightarrow> string \<Rightarrow> db \<Rightarrow> corr_store \<Rightarrow> corr_store" where
  "unlink_raw ns digest d s =
     (if list_ex (\<lambda>v. raw_sha v = digest \<and> \<not> redacted v) (evidence d) then s
      else s\<lparr>raws := dict_pop (ns, digest) (raws s)\<rparr>)"

definition redact_evidence :: "string \<Rightarrow> string \<Rightarrow> string option \<Rightarrow> string \<Rightarrow> corr_store \<Rightarrow> corr_store \<times> (cexn + proposal_view)" where
  "redact_evidence p eid expected now s =
     (case locate s p of
        Inl e \<Rightarrow> (s, Inl e)
      | Inr (ns, d, r) \<Rightarrow>
          (case expect_head expected r of
             Inl e \<Rightarrow> (s, Inl e)
           | Inr _ \<Rightarrow>
               (case List.find (\<lambda>v. v_proposal v = p \<and> evidence_id v = eid) (evidence d) of
                  None \<Rightarrow> (s, Inl (Store_error ''evidence_not_found'' 404))
                | Some v \<Rightarrow>
                    if redacted v then (s, fresh_view p d)
                    else (case redact_work p v now d of
                            Inl e \<Rightarrow> (s, Inl e)
                          | Inr d' \<Rightarrow>
                              (unlink_raw ns (raw_sha v) d'
                                 (unlink_exports (map relative_path (filter (\<lambda>x. x_proposal x = p) (exports d)))
                                    (put_db ns d' s)),
                               fresh_view p d')))))"

section \<open>Exports\<close>

definition insert_or_ignore :: "export_row \<Rightarrow> db \<Rightarrow> db" where
  "insert_or_ignore x d =
     (if export_id x \<in> export_id ` set (exports d) \<or>
         (x_proposal x, x_head x) \<in> (\<lambda>y. (x_proposal y, x_head y)) ` set (exports d)
      then d else d\<lparr>exports := exports d @ [x]\<rparr>)"

definition export_work :: "export_row \<Rightarrow> proposal_row \<Rightarrow> db \<Rightarrow> cexn + db" where
  "export_work x r d =
     (let d' = insert_or_ignore x d in
      if p_state r \<in> {''validated_candidate'', ''accepted_local''}
      then append_event (proposal_id r) ''exported''
             (JObj [(''export_id'', JStr (export_id x)), (''sha256'', JStr (x_sha x)), (''bytes'', JInt (int (x_bytes x)))])
             (exported_at x)
             (update_proposal (proposal_id r) (\<lambda>y. y\<lparr>p_state := ''exported''\<rparr>) d')
      else Inr d')"

definition record_export ::
  "string \<Rightarrow> string \<Rightarrow> string \<Rightarrow> string \<Rightarrow> string \<Rightarrow> nat \<Rightarrow> string \<Rightarrow> corr_store \<Rightarrow> corr_store \<times> (cexn + export_row)" where
  "record_export p head xid path sha bytes now s =
     (let x = \<lparr>export_id = xid, x_proposal = p, x_head = head, relative_path = path, x_sha = sha,
               x_bytes = bytes, exported_at = now\<rparr>
      in case bindE (locate s p) (\<lambda>(ns, d, r). bindE (export_work x r d) (\<lambda>d'. Inr (ns, d'))) of
           Inl e \<Rightarrow> (s, Inl e)
         | Inr (ns, d') \<Rightarrow> (put_db ns d' s, Inr x))"

definition latest_export :: "corr_store \<Rightarrow> string \<Rightarrow> cexn + export_row option" where
  "latest_export s p =
     bindE (locate s p) (\<lambda>(ns, d, r).
     Inr (case rev (sort_key exported_at (rev (filter (\<lambda>x. x_proposal x = p) (exports d)))) of
            [] \<Rightarrow> None | x # _ \<Rightarrow> Some x))"

section \<open>Reading across namespaces\<close>

definition active_states :: "string list" where
  "active_states = [''draft'', ''evidence_attached'', ''validated_candidate'', ''conflict'',
     ''accepted_local'', ''exported'', ''submitted'']"

definition competing_in :: "proposal_view \<Rightarrow> db \<Rightarrow> cexn + (string \<times> json) list" where
  "competing_in v d =
     bindE (mapE (\<lambda>r. bindE (decode (Some (proposed_json r))) (\<lambda>prop. Inr (proposal_id r, prop)))
        (filter (\<lambda>r. correction_type r = correction_type (row v) \<and> target_json r = dumps (target v) \<and>
                     proposal_id r \<noteq> proposal_id (row v) \<and> p_state r \<in> set active_states) (proposals d)))
       (\<lambda>found. Inr (filter (\<lambda>(_, prop). \<not> py_eq prop (proposed v)) found))"

fun over_namespaces :: "corr_store \<Rightarrow> (db \<Rightarrow> cexn + 'a list) \<Rightarrow> string list \<Rightarrow> cexn + 'a list" where
  "over_namespaces s f [] = Inr []"
| "over_namespaces s f (ns # nss) =
     bindE (connect s ns False) (\<lambda>c.
     bindE (case c of None \<Rightarrow> Inr [] | Some d \<Rightarrow> f d) (\<lambda>xs.
     bindE (over_namespaces s f nss) (\<lambda>ys. Inr (xs @ ys))))"

definition competing_json :: "string \<times> json \<Rightarrow> json" where
  "competing_json c = JObj [(''reason_code'', JStr ''competing_local_proposal''),
     (''proposal_id'', JStr (fst c)), (''proposed'', snd c)]"

definition competing_proposals :: "corr_store \<Rightarrow> proposal_view \<Rightarrow> cexn + json list" where
  "competing_proposals s v =
     bindE (over_namespaces s (competing_in v) known_namespaces) (\<lambda>found.
     Inr (map competing_json (sort_key fst found)))"

definition listed_in :: "string option \<Rightarrow> string option \<Rightarrow> bool \<Rightarrow> db \<Rightarrow> cexn + proposal_view list" where
  "listed_in state match accepted_only d =
     bindE (mapE (view_of_row d) (rev (sort_key updated_at (rev (proposals d))))) (\<lambda>views.
     Inr (filter (\<lambda>v.
        (case state of None \<Rightarrow> True | Some st \<Rightarrow> st = [] \<or> p_state (row v) = st) \<and>
        (accepted_only \<longrightarrow> p_state (row v) \<in> {''accepted_local'', ''exported'', ''submitted''}) \<and>
        (case match of None \<Rightarrow> True | Some m \<Rightarrow> m = [] \<or> jget (target v) ''match_id'' = JStr m)) views))"

definition list_proposals ::
  "corr_store \<Rightarrow> string option \<Rightarrow> string option \<Rightarrow> bool \<Rightarrow> int \<Rightarrow> int \<Rightarrow> cexn + (proposal_view list \<times> nat \<times> nat \<times> nat)" where
  "list_proposals s state match accepted_only limit offset =
     bindE (over_namespaces s (listed_in state match accepted_only) known_namespaces) (\<lambda>items.
     let items = rev (sort_key (\<lambda>v. (updated_at (row v), proposal_id (row v))) (rev items));
         limit = nat (max 1 (min limit 100)); offset = nat (max 0 offset)
     in Inr (take limit (drop offset items), length items, limit, offset))"

definition purge :: "corr_store \<Rightarrow> corr_store" where
  "purge s = empty_store"

end
