(* ===== verification/Correction_Audit.thy ===== *)
theory Correction_Audit
  imports Correction_Store
begin

text \<open>
  The audit of a correction database before an update is retired (\<open>_check_correction_database\<close> of
  \<open>src/server/golavo_server/main.py\<close>), which runs before an update retires its backup, and
  the hash chains it checks.
\<close>

section \<open>The audit\<close>

text \<open>What the audit has seen of each proposal: its last sequence number, hash and event id.\<close>

type_synonym seen = "(string, nat \<times> string \<times> string) dict"

definition audit_event :: "string list \<Rightarrow> seen \<Rightarrow> event_row \<Rightarrow> cexn + seen" where
  "audit_event ids acc e =
     (let p = e_proposal e;
          n = (case dict_get acc p of None \<Rightarrow> 0 | Some (k, h, i) \<Rightarrow> k);
          prev = (case dict_get acc p of None \<Rightarrow> None | Some (k, h, i) \<Rightarrow> Some h);
          psha = sha256_hex (payload_json e);
          h = event_hash p (e_sequence e) (event_type e) (recorded_at e) prev psha
      in bindE (guardE (p \<in> set ids) Value_error) (\<lambda>_.
         bindE (guardE (e_sequence e = Suc n \<and> previous_hash e = prev) Value_error) (\<lambda>_.
         bindE (decode (Some (payload_json e))) (\<lambda>payload.
         bindE (guardE (is_obj payload \<and> dumps payload = payload_json e) Value_error) (\<lambda>_.
         bindE (guardE (payload_sha e = psha) Value_error) (\<lambda>_.
         bindE (guardE (event_sha e = h \<and> event_id e = ''ce_'' @ h) Value_error) (\<lambda>_.
         Inr (dict_set p (e_sequence e, h, event_id e) acc))))))))"

fun audit_events :: "string list \<Rightarrow> seen \<Rightarrow> event_row list \<Rightarrow> cexn + seen" where
  "audit_events ids acc [] = Inr acc"
| "audit_events ids acc (e # es) = bindE (audit_event ids acc e) (\<lambda>acc'. audit_events ids acc' es)"

definition object_text :: "string option \<Rightarrow> cexn + unit" where
  "object_text x =
     (case x of None \<Rightarrow> Inr () | Some t \<Rightarrow> bindE (decode (Some t)) (\<lambda>v. guardE (is_obj v) Value_error))"

definition audit_proposal :: "string \<Rightarrow> seen \<Rightarrow> proposal_row \<Rightarrow> cexn + unit" where
  "audit_proposal ns acc r =
     bindE (guardE (p_namespace r = ns) Value_error) (\<lambda>_.
     bindE (object_text (Some (target_json r))) (\<lambda>_.
     bindE (object_text (Some (proposed_json r))) (\<lambda>_.
     bindE (object_text (Some (validation_json r))) (\<lambda>_.
     bindE (object_text (original_json r)) (\<lambda>_.
     guardE (head_event_id r = map_option (\<lambda>(n, h, i). i) (dict_get acc (proposal_id r))) Value_error)))))"

definition audit_evidence :: "string \<Rightarrow> corr_store \<Rightarrow> evidence_row \<Rightarrow> cexn + unit" where
  "audit_evidence ns s v =
     bindE (guardE (v_namespace v = ns) Value_error) (\<lambda>_.
     bindE (guardE (evidence_id v = evidence_hash (v_proposal v) (source_url v) (raw_sha v)) Value_error) (\<lambda>_.
     if redacted v then Inr ()
     else (case dict_get (raws s) (ns, raw_sha v) of
             Some (Regular raw) \<Rightarrow>
               bindE (guardE (length raw = raw_bytes v \<and> sha256_hex raw = raw_sha v) Value_error) (\<lambda>_.
               guardE (sanitized_sha v = sha256_hex (sanitized_text v)) Value_error)
           | _ \<Rightarrow> Inl Value_error)))"

definition foreign_keys_ok :: "db \<Rightarrow> bool" where
  "foreign_keys_ok d \<longleftrightarrow>
     (let ids = map proposal_id (proposals d)
      in list_all (\<lambda>e. e_proposal e \<in> set ids) (proposal_events d) \<and>
         list_all (\<lambda>v. v_proposal v \<in> set ids) (evidence d) \<and>
         list_all (\<lambda>x. x_proposal x \<in> set ids) (exports d))"

text \<open>
  \<open>PRAGMA quick_check\<close>, \<open>foreign_key_check\<close> and the version come first; a file of version 0
  has no tables to read.
\<close>

definition check_sqlite :: "db_file \<Rightarrow> cexn + db" where
  "check_sqlite f =
     (case f of
        Broken_file \<Rightarrow> Inl Database_error
      | Db_file version intact d \<Rightarrow>
          bindE (guardE (intact \<and> foreign_keys_ok d \<and> version \<le> 1 \<and> version \<noteq> 0) Database_error) (\<lambda>_. Inr d))"

definition ordered_events :: "db \<Rightarrow> event_row list" where
  "ordered_events d = sort_key (\<lambda>e. (e_proposal e, e_sequence e)) (proposal_events d)"

definition check_correction_database :: "string \<Rightarrow> corr_store \<Rightarrow> db_file \<Rightarrow> cexn + unit" where
  "check_correction_database ns s f =
     bindE (guardE (ns \<in> set known_namespaces) Value_error) (\<lambda>_.
     bindE (check_sqlite f) (\<lambda>d.
     bindE (audit_events (map proposal_id (proposals d)) [] (ordered_events d)) (\<lambda>acc.
     bindE (mapE (audit_proposal ns acc) (proposals d)) (\<lambda>_.
     bindE (mapE (audit_evidence ns s) (evidence d)) (\<lambda>_. Inr ())))))"

section \<open>Hash chains\<close>

text \<open>A proposal's event that follows \<open>n\<close> others, the last one with hash \<open>prev\<close>.\<close>

definition event_fits :: "string \<Rightarrow> nat \<Rightarrow> string option \<Rightarrow> event_row \<Rightarrow> bool" where
  "event_fits p n prev e \<longleftrightarrow>
     e_proposal e = p \<and> e_sequence e = Suc n \<and> previous_hash e = prev \<and>
     (\<exists>v. loads (payload_json e) = Some v \<and> is_obj v \<and> dumps v = payload_json e) \<and>
     payload_sha e = sha256_hex (payload_json e) \<and>
     event_sha e = event_hash p (Suc n) (event_type e) (recorded_at e) prev (payload_sha e) \<and>
     event_id e = ''ce_'' @ event_sha e"

fun chain_from :: "string \<Rightarrow> nat \<Rightarrow> string option \<Rightarrow> event_row list \<Rightarrow> bool" where
  "chain_from p n prev [] = True"
| "chain_from p n prev (e # es) = (event_fits p n prev e \<and> chain_from p (Suc n) (Some (event_sha e)) es)"

definition last_hash :: "string option \<Rightarrow> event_row list \<Rightarrow> string option" where
  "last_hash prev es = (if es = [] then prev else Some (event_sha (last es)))"

lemma chain_snoc:
  "chain_from p n prev (es @ [e]) \<longleftrightarrow>
     chain_from p n prev es \<and> event_fits p (n + length es) (last_hash prev es) e"
  by (induction es arbitrary: n prev) (auto simp: last_hash_def)

lemma chain_sequences: "chain_from p n prev es \<Longrightarrow> map e_sequence es = [Suc n..<Suc (n + length es)]"
proof (induction es arbitrary: n prev)
  case Nil
  then show ?case by simp
next
  case (Cons e es)
  have "[Suc n..<Suc (n + length (e # es))] = Suc n # [Suc (Suc n)..<Suc (Suc n + length es)]"
    by (subst upt_conv_Cons) simp_all
  moreover have "event_fits p n prev e" "chain_from p (Suc n) (Some (event_sha e)) es" using Cons.prems by simp_all
  moreover have "map e_sequence es = [Suc (Suc n)..<Suc (Suc n + length es)]" using Cons.IH calculation(3) .
  ultimately show ?case by (simp add: event_fits_def del: upt_Suc)
qed

lemma chain_proposal: "chain_from p n prev es \<Longrightarrow> e \<in> set es \<Longrightarrow> e_proposal e = p"
  by (induction es arbitrary: n prev) (auto simp: event_fits_def)

lemma chain_sorted: "chain_from p n prev es \<Longrightarrow> sort_key e_sequence es = es"
proof -
  assume "chain_from p n prev es"
  then have "map e_sequence es = [Suc n..<Suc (n + length es)]" by (rule chain_sequences)
  then have "sorted (map e_sequence es)" by (simp del: upt_Suc)
  then show ?thesis by (rule sort_key_id_if_sorted)
qed

end
