(* ===== verification/Correction_Laws.thy ===== *)
theory Correction_Laws
  imports Correction_Audit
begin

text \<open>
  The invariant of the correction store: rows that decode, one hash chain per proposal that
  its head closes, evidence whose bytes are on disk; every operation keeps it, and the audit
  accepts every database that has it.
\<close>

section \<open>The invariant\<close>

definition mine :: "string \<Rightarrow> db \<Rightarrow> event_row list" where
  "mine p d = filter (\<lambda>e. e_proposal e = p) (proposal_events d)"

definition object_json :: "string \<Rightarrow> bool" where
  "object_json t \<longleftrightarrow> (\<exists>v. loads t = Some v \<and> is_obj v)"

definition row_ok :: "string \<Rightarrow> proposal_row \<Rightarrow> bool" where
  "row_ok ns r \<longleftrightarrow>
     p_namespace r = ns \<and> object_json (target_json r) \<and> object_json (proposed_json r) \<and>
     object_json (validation_json r) \<and> (\<forall>t. original_json r = Some t \<longrightarrow> object_json t)"

definition head_of :: "event_row list \<Rightarrow> string option" where
  "head_of es = (if es = [] then None else Some (event_id (last es)))"

definition evidence_ok :: "string \<Rightarrow> (string \<times> string, disk_entry) dict \<Rightarrow> evidence_row \<Rightarrow> bool" where
  "evidence_ok ns R v \<longleftrightarrow>
     v_namespace v = ns \<and> evidence_id v = evidence_hash (v_proposal v) (source_url v) (raw_sha v) \<and>
     (\<not> redacted v \<longrightarrow>
        (\<exists>raw. dict_get R (ns, raw_sha v) = Some (Regular raw) \<and> length raw = raw_bytes v \<and>
               sha256_hex raw = raw_sha v \<and> sanitized_sha v = sha256_hex (sanitized_text v)))"

definition ids :: "db \<Rightarrow> string list" where
  "ids d = map proposal_id (proposals d)"

definition rows_ok :: "string \<Rightarrow> db \<Rightarrow> bool" where
  "rows_ok ns d \<longleftrightarrow> distinct (ids d) \<and> (\<forall>r \<in> set (proposals d). row_ok ns r \<and> head_event_id r = head_of (mine (proposal_id r) d))"

definition chains_ok :: "db \<Rightarrow> bool" where
  "chains_ok d \<longleftrightarrow> (\<forall>p. chain_from p 0 None (mine p d))"

definition db_ok :: "string \<Rightarrow> (string \<times> string, disk_entry) dict \<Rightarrow> db \<Rightarrow> bool" where
  "db_ok ns R d \<longleftrightarrow> rows_ok ns d \<and> chains_ok d \<and> (\<forall>v \<in> set (evidence d). evidence_ok ns R v) \<and> foreign_keys_ok d"

definition store_ok :: "corr_store \<Rightarrow> bool" where
  "store_ok s \<longleftrightarrow>
     dict_ok (databases s) \<and> dict_ok (raws s) \<and>
     (\<forall>ns f. dict_get (databases s) ns = Some f \<longrightarrow>
        ns \<in> set known_namespaces \<and> (\<exists>d. f = Db_file 1 True d \<and> db_ok ns (raws s) d))"

text \<open>The shape of the payloads and columns the code writes.\<close>

definition wf_obj :: "json \<Rightarrow> bool" where
  "wf_obj v \<longleftrightarrow> wf_json v \<and> is_obj v"

lemma object_dumps [intro]: "wf_obj v \<Longrightarrow> object_json (dumps v)"
  unfolding wf_obj_def object_json_def using loads_dumps by (metis is_obj_normalise)

lemma wf_obj_no_findings [simp]: "wf_obj no_findings"
  by (auto simp: wf_obj_def no_findings_def dict_ok_def)

lemma db_ok_empty [simp]: "db_ok ns R empty_db"
  by (simp add: db_ok_def rows_ok_def chains_ok_def ids_def mine_def empty_db_def foreign_keys_ok_def)

lemma store_ok_empty [simp]: "store_ok empty_store"
  by (simp add: store_ok_def empty_store_def)

section \<open>Rows and events\<close>

lemma find_proposal_Some:
  "find_proposal d p = Some r \<Longrightarrow> r \<in> set (proposals d) \<and> proposal_id r = p"
  by (auto simp: find_proposal_def find_Some_iff)

lemma find_proposal_unique:
  "distinct (ids d) \<Longrightarrow> r \<in> set (proposals d) \<Longrightarrow> find_proposal d (proposal_id r) = Some r"
proof -
  assume d: "distinct (ids d)" "r \<in> set (proposals d)"
  then obtain x where x: "find_proposal d (proposal_id r) = Some x"
    by (cases "find_proposal d (proposal_id r)") (auto simp: find_proposal_def find_None_iff)
  then have "x \<in> set (proposals d)" "proposal_id x = proposal_id r" using find_proposal_Some by blast+
  then show ?thesis using d x by (auto simp: ids_def distinct_map inj_on_def)
qed

lemma update_simps [simp]:
  "proposal_events (update_proposal p f d) = proposal_events d"
  "evidence (update_proposal p f d) = evidence d"
  "exports (update_proposal p f d) = exports d"
  "mine q (update_proposal p f d) = mine q d"
  by (simp_all add: update_proposal_def mine_def)

lemma ids_update [simp]: "(\<And>r. proposal_id (f r) = proposal_id r) \<Longrightarrow> ids (update_proposal p f d) = ids d"
  by (simp add: ids_def update_proposal_def)

lemma foreign_keys_ids:
  "foreign_keys_ok d \<longleftrightarrow> (\<forall>e \<in> set (proposal_events d). e_proposal e \<in> set (ids d)) \<and>
     (\<forall>v \<in> set (evidence d). v_proposal v \<in> set (ids d)) \<and> (\<forall>x \<in> set (exports d). x_proposal x \<in> set (ids d))"
  by (simp add: foreign_keys_ok_def ids_def Let_def list_all_iff)

text \<open>An update of one row's columns that keeps its id, its namespace and its head.\<close>

definition row_update :: "(proposal_row \<Rightarrow> proposal_row) \<Rightarrow> bool" where
  "row_update f \<longleftrightarrow> (\<forall>r. proposal_id (f r) = proposal_id r \<and> head_event_id (f r) = head_event_id r \<and>
     (\<forall>ns. row_ok ns r \<longrightarrow> row_ok ns (f r)))"

lemma update_ok: "db_ok ns R d \<Longrightarrow> row_update f \<Longrightarrow> db_ok ns R (update_proposal p f d)"
proof -
  assume d: "db_ok ns R d" and f: "row_update f"
  have i: "ids (update_proposal p f d) = ids d" using f by (simp add: row_update_def)
  have "row_ok ns x \<and> head_event_id x = head_of (mine (proposal_id x) d)" if x: "x \<in> set (proposals (update_proposal p f d))" for x
  proof -
    obtain r where r: "r \<in> set (proposals d)" "x = (if proposal_id r = p then f r else r)"
      using x by (auto simp: update_proposal_def)
    then have "row_ok ns r \<and> head_event_id r = head_of (mine (proposal_id r) d)" using d by (auto simp: db_ok_def rows_ok_def)
    then show ?thesis using r(2) f by (cases "proposal_id r = p") (simp_all add: row_update_def)
  qed
  then show ?thesis using d i by (simp add: db_ok_def rows_ok_def chains_ok_def foreign_keys_ids)
qed

lemma events_of_mine: "chains_ok d \<Longrightarrow> events_of p d = mine p d"
  using chain_sorted[of p 0 None "mine p d"] by (simp add: chains_ok_def events_of_def mine_def)

text \<open>The event a call appends to a proposal with the history \<open>es\<close>.\<close>

definition next_event :: "string \<Rightarrow> string \<Rightarrow> json \<Rightarrow> string \<Rightarrow> event_row list \<Rightarrow> event_row" where
  "next_event p etype payload now es = new_event p etype payload now (if es = [] then None else Some (last es))"

lemma next_event_fits:
  assumes "wf_obj payload" "chain_from p 0 None es"
  shows "event_fits p (length es) (last_hash None es) (next_event p etype payload now es)"
proof -
  have l: "loads (dumps payload) = Some (normalise payload)" "is_obj (normalise payload)"
    using assms(1) loads_dumps by (simp_all add: wf_obj_def)
  have "map e_sequence es = [Suc 0..<Suc (length es)]" using chain_sequences[OF assms(2)] by simp
  then have n: "es \<noteq> [] \<Longrightarrow> e_sequence (last es) = length es"
    using last_map[of es e_sequence] by (simp add: Suc_le_eq)
  show ?thesis
    using l n by (auto simp: event_fits_def next_event_def new_event_def Let_def last_hash_def)
qed

text \<open>Appending keeps the invariant, extends one chain and moves that proposal's head.\<close>

definition head_moved :: "string \<Rightarrow> string \<Rightarrow> string \<Rightarrow> db \<Rightarrow> db" where
  "head_moved p eid now d = update_proposal p (\<lambda>r. r\<lparr>head_event_id := Some eid, updated_at := now\<rparr>) d"

lemma append_event_Inr:
  assumes "append_event p etype payload now d = Inr d'" "chains_ok d"
  shows "p \<in> set (ids d) \<and>
    d' = head_moved p (event_id (next_event p etype payload now (mine p d))) now
           (d\<lparr>proposal_events := proposal_events d @ [next_event p etype payload now (mine p d)]\<rparr>)"
proof -
  have l: "(case rev (events_of p d) of [] \<Rightarrow> None | e # _ \<Rightarrow> Some e) =
      (if mine p d = [] then None else Some (last (mine p d)))"
    using events_of_mine[OF assms(2), of p] by (cases "mine p d" rule: rev_cases) simp_all
  have "e_proposal (next_event p etype payload now es) = p" for es by (simp add: next_event_def new_event_def Let_def)
  then show ?thesis
    using assms(1) l
    by (auto simp: append_event_def Let_def insert_event_def bindE_Inr ids_def next_event_def head_moved_def split: if_splits)
qed

lemma mine_append:
  "mine q (d\<lparr>proposal_events := proposal_events d @ [next_event p etype payload now es]\<rparr>) =
     mine q d @ (if q = p then [next_event p etype payload now es] else [])"
  by (simp add: mine_def next_event_def new_event_def Let_def)

lemma append_event_ok:
  assumes "append_event p etype payload now d = Inr d'" "db_ok ns R d" "wf_obj payload"
  shows "db_ok ns R d'"
proof -
  let ?e = "next_event p etype payload now (mine p d)"
  let ?d = "d\<lparr>proposal_events := proposal_events d @ [?e]\<rparr>"
  have c: "chains_ok d" "rows_ok ns d" using assms(2) by (simp_all add: db_ok_def)
  have d': "p \<in> set (ids d)" "d' = head_moved p (event_id ?e) now ?d" using append_event_Inr[OF assms(1) c(1)] by simp_all
  have e: "e_proposal ?e = p" by (simp add: next_event_def new_event_def Let_def)
  have m: "mine q d' = mine q d @ (if q = p then [?e] else [])" for q
    by (simp add: d'(2) head_moved_def mine_append)
  have i: "ids d' = ids d" by (simp add: d'(2) head_moved_def ids_def update_proposal_def)
  have "chains_ok d'"
    using c(1) next_event_fits[OF assms(3), of p "mine p d" etype now] by (simp add: chains_ok_def m chain_snoc)
  moreover have "row_ok ns x \<and> head_event_id x = head_of (mine (proposal_id x) d')" if x: "x \<in> set (proposals d')" for x
  proof -
    obtain r where r: "r \<in> set (proposals d)" "x = (if proposal_id r = p then r\<lparr>head_event_id := Some (event_id ?e), updated_at := now\<rparr> else r)"
      using x by (auto simp: d'(2) head_moved_def update_proposal_def)
    then have "row_ok ns r" "head_event_id r = head_of (mine (proposal_id r) d)" using c(2) by (auto simp: rows_ok_def)
    then show ?thesis using r(2) by (auto simp: m row_ok_def head_of_def)
  qed
  moreover have "foreign_keys_ok d'"
    using assms(2) d'(1) e i by (auto simp: db_ok_def foreign_keys_ids d'(2) head_moved_def)
  ultimately show ?thesis using assms(2) i by (simp add: db_ok_def rows_ok_def d'(2) head_moved_def)
qed

section \<open>Finding\<close>

lemma connect_ok:
  "store_ok s \<Longrightarrow> connect s ns c = Inr (Some d) \<Longrightarrow> ns \<in> set known_namespaces \<and> db_ok ns (raws s) d"
  by (auto simp: store_ok_def connect_def migrate_def bindE_Inr split: option.splits if_splits db_file.splits)

lemma locate_in_Inr:
  "locate_in s p nss = Inr (ns, d, r) \<Longrightarrow> ns \<in> set nss \<and> connect s ns False = Inr (Some d) \<and> find_proposal d p = Some r"
  by (induction nss) (auto simp: bindE_Inr split: option.splits)

lemma locate_Inr:
  "locate s p = Inr (ns, d, r) \<Longrightarrow> connect s ns False = Inr (Some d) \<and> find_proposal d p = Some r"
  by (auto simp: locate_def dest: locate_in_Inr split: if_splits)

lemma locate_ok:
  assumes "store_ok s" "locate s p = Inr (ns, d, r)"
  shows "ns \<in> set known_namespaces \<and> db_ok ns (raws s) d \<and> r \<in> set (proposals d) \<and> proposal_id r = p"
  using connect_ok[OF assms(1), of ns False d] locate_Inr[OF assms(2)] find_proposal_Some by blast

section \<open>Writing back\<close>

lemma put_db_ok:
  "store_ok s \<Longrightarrow> ns \<in> set known_namespaces \<Longrightarrow> db_ok ns (raws s) d \<Longrightarrow> store_ok (put_db ns d s)"
  by (auto simp: store_ok_def put_db_def)

lemma change_Inr:
  assumes "change p check work s = (s', a)"
  shows "(\<exists>e. s' = s \<and> a = Inl e) \<or>
    (\<exists>ns d r d'. locate s p = Inr (ns, d, r) \<and> check r = Inr () \<and> work r d = Inr d' \<and> s' = put_db ns d' s \<and> a = fresh_view p d')"
  using assms by (auto simp: change_def bindE_Inr split: sum.splits)

text \<open>A transaction that keeps a database's invariant keeps the store's.\<close>

definition safe_work :: "(proposal_row \<Rightarrow> db \<Rightarrow> cexn + db) \<Rightarrow> bool" where
  "safe_work work \<longleftrightarrow> (\<forall>ns R d r d'. db_ok ns R d \<longrightarrow> r \<in> set (proposals d) \<longrightarrow> work r d = Inr d' \<longrightarrow> db_ok ns R d')"

lemma change_ok:
  assumes "store_ok s" "safe_work work"
  shows "store_ok (fst (change p check work s))"
proof -
  obtain s' a where c: "change p check work s = (s', a)" by fastforce
  consider "s' = s" | ns d r d' where "locate s p = Inr (ns, d, r)" "work r d = Inr d'" "s' = put_db ns d' s"
    using change_Inr[OF c] by blast
  then have "store_ok s'"
  proof cases
    case 2
    have l: "ns \<in> set known_namespaces" "db_ok ns (raws s) d" "r \<in> set (proposals d)" using locate_ok[OF assms(1) 2(1)] by blast+
    then have "db_ok ns (raws s) d'" using assms(2) 2(2) by (auto simp: safe_work_def)
    then show ?thesis using put_db_ok[OF assms(1) l(1)] 2(3) by simp
  qed (simp add: assms(1))
  then show ?thesis by (simp add: c)
qed

end
