(* ===== verification/Correction_Steps.thy ===== *)
theory Correction_Steps
  imports Correction_Laws
begin

text \<open>Every operation of the correction store keeps its invariant.\<close>

section \<open>One-proposal transactions\<close>

lemma wf_obj_findings [simp]: "list_all wf_json conflicts \<Longrightarrow> wf_obj (findings_json reasons conflicts)"
  by (auto simp: wf_obj_def findings_json_def dict_ok_def wf_items_iff list_all_iff)

lemma wf_payloads [simp]:
  "wf_obj prop \<Longrightarrow> wf_obj (JObj [(''proposed'', prop), (''validation_reset'', JBool True)])"
  "list_all wf_json conflicts \<Longrightarrow> wf_obj (JObj [(''state'', JStr st), (''verification_level'', JStr level),
      (''reason_codes'', JArr (map JStr reasons)), (''conflicts'', JArr conflicts)])"
  "wf_obj (JObj [(''evidence_id'', JStr i), (''raw_sha256'', JStr sha)])"
  "wf_obj (JObj [(''export_id'', JStr i), (''sha256'', JStr sha), (''bytes'', JInt n)])"
  by (auto simp: wf_obj_def dict_ok_def wf_items_iff list_all_iff)

lemma row_ok_objects [dest]:
  "row_ok ns r \<Longrightarrow> p_namespace r = ns \<and> object_json (target_json r) \<and> object_json (proposed_json r) \<and> object_json (validation_json r)"
  by (simp add: row_ok_def)

lemma step_ok:
  "append_event p etype payload now (update_proposal q f d) = Inr d' \<Longrightarrow> db_ok ns R d \<Longrightarrow> row_update f \<Longrightarrow>
     wf_obj payload \<Longrightarrow> db_ok ns R d'"
  by (erule append_event_ok[OF _ update_ok])

lemma safe_workI:
  "(\<And>ns R d r d'. work r d = Inr d' \<Longrightarrow> db_ok ns R d \<Longrightarrow> r \<in> set (proposals d) \<Longrightarrow> db_ok ns R d') \<Longrightarrow> safe_work work"
  by (auto simp: safe_work_def)

lemma revise_safe: "wf_obj prop \<Longrightarrow> safe_work (revise_work prop now)"
proof -
  assume p: "wf_obj prop"
  have "db_ok ns R d'" if k: "db_ok ns R d" "revise_work prop now r d = Inr d'" for ns R d r d'
  proof -
    obtain tgt st where a: "append_event (proposal_id r) ''draft_revised'' (JObj [(''proposed'', prop), (''validation_reset'', JBool True)]) now
          (update_proposal (proposal_id r) (\<lambda>x. x\<lparr>proposed_json := dumps prop, p_state := st,
             verification_level := ''none'', validation_json := dumps no_findings, local_visibility := ''queue_only'',
             p_fingerprint := fingerprint (p_namespace r) (correction_type r) tgt prop\<rparr>) d) = Inr d'"
      using k(2) by (auto simp: revise_work_def Let_def bindE_Inr)
    show ?thesis
      by (rule step_ok[OF a k(1)]) (use p in \<open>auto simp: row_update_def row_ok_def\<close>)
  qed
  then show ?thesis by (simp add: safe_work_def)
qed

lemma transition_safe: "wf_obj payload \<Longrightarrow> safe_work (transition_work st etype payload vis now)"
  by (rule safe_workI, unfold transition_work_def, erule step_ok) (auto simp: row_update_def row_ok_def)

lemma mark_snapshots_simps [simp]:
  "proposals (mark_snapshots p is d) = proposals d" "proposal_events (mark_snapshots p is d) = proposal_events d"
  "exports (mark_snapshots p is d) = exports d" "mine q (mark_snapshots p is d) = mine q d"
  "ids (mark_snapshots p is d) = ids d"
  by (simp_all add: mark_snapshots_def mine_def ids_def)

lemma mark_snapshots_ok: "db_ok ns R d \<Longrightarrow> db_ok ns R (mark_snapshots p is d)"
  by (simp add: db_ok_def rows_ok_def chains_ok_def foreign_keys_ids)
     (auto simp: mark_snapshots_def evidence_ok_def)

lemma validation_safe: "list_all wf_json conflicts \<Longrightarrow> safe_work (validation_work st level reasons conflicts is now)"
  by (rule safe_workI, unfold validation_work_def, erule step_ok, erule mark_snapshots_ok)
    (auto simp: row_update_def row_ok_def)

section \<open>Creating\<close>

lemma created_payload_wf:
  "wf_obj tgt \<Longrightarrow> wf_obj prop \<Longrightarrow> (\<And>v. orig = Some v \<Longrightarrow> wf_obj v) \<Longrightarrow> wf_obj (created_payload ns ctype tgt orig prop src)"
  by (cases orig; cases src) (auto simp: wf_obj_def created_payload_def opt_json_def dict_ok_def)

lemma no_mine: "db_ok ns R d \<Longrightarrow> p \<notin> set (ids d) \<Longrightarrow> mine p d = []"
  by (auto simp: db_ok_def foreign_keys_ids mine_def filter_empty_conv)

lemma insert_proposal_ok:
  assumes "insert_proposal r d = Inr d'" "db_ok ns R d" "row_ok ns r" "head_event_id r = None"
  shows "db_ok ns R d' \<and> d' = d\<lparr>proposals := proposals d @ [r]\<rparr> \<and> proposal_id r \<notin> set (ids d)"
proof -
  have d': "d' = d\<lparr>proposals := proposals d @ [r]\<rparr>" "proposal_id r \<notin> set (ids d)"
    using assms(1) by (auto simp: insert_proposal_def ids_def split: if_splits)
  have m: "mine q (d\<lparr>proposals := proposals d @ [r]\<rparr>) = mine q d" for q by (simp add: mine_def)
  have i: "ids d' = ids d @ [proposal_id r]" by (simp add: d'(1) ids_def)
  have h: "mine (proposal_id r) d = []" by (rule no_mine[OF assms(2) d'(2)])
  have "rows_ok ns d'" using assms(2,3,4) d' i by (auto simp: db_ok_def rows_ok_def m h head_of_def)
  then have "db_ok ns R d'" using assms(2) i by (auto simp: db_ok_def chains_ok_def m foreign_keys_ids d'(1))
  then show ?thesis using d' by simp
qed

lemma draft_row_ok:
  "wf_obj tgt \<Longrightarrow> wf_obj prop \<Longrightarrow> (\<And>v. orig = Some v \<Longrightarrow> wf_obj v) \<Longrightarrow> row_ok ns (draft_row p ns ctype tgt orig prop src now)"
  by (auto simp: row_ok_def draft_row_def)

text \<open>What a create call is given: objects, as the route builds them.\<close>

definition create_args :: "json \<Rightarrow> json option \<Rightarrow> json \<Rightarrow> bool" where
  "create_args tgt orig prop \<longleftrightarrow> wf_obj tgt \<and> wf_obj prop \<and> (case orig of None \<Rightarrow> True | Some v \<Rightarrow> wf_obj v)"

lemma create_in_ok:
  assumes "create_in ns ctype tgt orig prop src uuid now d = Inr d'" "db_ok ns R d" "create_args tgt orig prop"
  shows "db_ok ns R d'"
proof -
  have a: "wf_obj tgt" "wf_obj prop" "\<And>v. orig = Some v \<Longrightarrow> wf_obj v" using assms(3) by (auto simp: create_args_def)
  obtain d1 where d1: "insert_proposal (draft_row (''cp_'' @ uuid) ns ctype tgt orig prop src now) d = Inr d1"
      "append_event (''cp_'' @ uuid) ''created'' (created_payload ns ctype tgt orig prop src) now d1 = Inr d'"
    using assms(1) by (auto simp: create_in_def bindE_Inr)
  have "db_ok ns R d1"
    by (rule conjunct1[OF insert_proposal_ok[OF d1(1) assms(2) draft_row_ok[OF a]]]) (simp_all add: draft_row_def)
  then show ?thesis by (rule append_event_ok[OF d1(2) _ created_payload_wf[OF a]])
qed

text \<open>The three ways a create call ends.\<close>

lemma create_cases:
  assumes "create_proposal cat ctype tgt orig prop src commit uuid now s = (s', a)"
  obtains (Refused) e where "s' = s" "a = Inl e"
  | (Found) ns d r where "namespace_for cat src = Inr ns" "connect s ns True = Inr (Some d)"
      "existing_proposal d (fingerprint ns ctype tgt prop) = Some r" "commit \<noteq> Some False" "s' = s"
      "a = bindE (view_of_row d r) (\<lambda>v. Inr (v, False))"
  | (Made) ns d d' where "namespace_for cat src = Inr ns" "connect s ns True = Inr (Some d)"
      "existing_proposal d (fingerprint ns ctype tgt prop) = None" "commit \<noteq> Some False"
      "create_in ns ctype tgt orig prop src uuid now d = Inr d'" "s' = put_db ns d' s"
      "a = bindE (fresh_view (''cp_'' @ uuid) d') (\<lambda>v. Inr (v, True))"
proof -
  note C = assms[unfolded create_proposal_def]
  show thesis
  proof (cases "bindE (namespace_for cat src) (\<lambda>ns. bindE (connect s ns True) (\<lambda>c. Inr (ns, c)))")
    case (Inl e)
    then show thesis using C by (intro Refused[of e]) auto
  next
    case (Inr nc)
    then obtain ns c where n: "nc = (ns, c)" "namespace_for cat src = Inr ns" "connect s ns True = Inr c"
      by (auto simp: bindE_Inr)
    show thesis
    proof (cases c)
      case None
      then show thesis using C Inr n by (intro Refused) auto
    next
      case (Some d)
      show thesis
      proof (cases "existing_proposal d (fingerprint ns ctype tgt prop)")
        case None
        show thesis
        proof (cases "create_in ns ctype tgt orig prop src uuid now d")
          case (Inl e)
          then show thesis using C Inr n Some None by (intro Refused[of e]) auto
        next
          case (Inr d')
          show thesis
            using C \<open>bindE _ _ = Inr nc\<close> n Some None Inr
            by (cases "commit = Some False") (auto intro: Refused[of index_changed] Made[of ns d d'])
        qed
      next
        case (Some r)
        show thesis
          using C Inr n \<open>c = Some d\<close> Some
          by (cases "commit = Some False") (auto intro: Refused[of index_changed] Found[of ns d r])
      qed
    qed
  qed
qed

lemma create_ok:
  assumes "store_ok s" "create_args tgt orig prop"
  shows "store_ok (fst (create_proposal cat ctype tgt orig prop src commit uuid now s))"
proof -
  obtain s' a where c: "create_proposal cat ctype tgt orig prop src commit uuid now s = (s', a)" by fastforce
  from c have "store_ok s'"
  proof (cases rule: create_cases)
    case (Made ns d d')
    have k: "ns \<in> set known_namespaces" "db_ok ns (raws s) d" using connect_ok[OF assms(1) Made(2)] by simp_all
    show ?thesis using put_db_ok[OF assms(1) k(1) create_in_ok[OF Made(5) k(2) assms(2)]] Made(6) by simp
  qed (simp_all add: assms(1))
  then show ?thesis by (simp add: c)
qed

section \<open>Evidence\<close>

text \<open>The digests a receipt of captured bytes carries.\<close>

definition receipt_ok :: "string \<Rightarrow> receipt \<Rightarrow> bool" where
  "receipt_ok raw rc \<longleftrightarrow>
     r_raw_sha rc = sha256_hex raw \<and> r_raw_bytes rc = length raw \<and> r_text_sha rc = sha256_hex (r_text rc)"

text \<open>The evidence of every database stays good when a file appears that was not there.\<close>

definition keeps_files :: "(string \<times> string, disk_entry) dict \<Rightarrow> (string \<times> string, disk_entry) dict \<Rightarrow> bool" where
  "keeps_files R R' \<longleftrightarrow> (\<forall>k b. dict_get R k = Some (Regular b) \<longrightarrow> dict_get R' k = Some (Regular b))"

lemma db_ok_files: "db_ok ns R d \<Longrightarrow> keeps_files R R' \<Longrightarrow> db_ok ns R' d"
  by (auto simp: db_ok_def evidence_ok_def keeps_files_def)

lemma store_ok_files:
  "store_ok s \<Longrightarrow> keeps_files (raws s) R \<Longrightarrow> dict_ok R \<Longrightarrow> store_ok (s\<lparr>raws := R\<rparr>)"
  by (fastforce simp: store_ok_def dest: db_ok_files)

text \<open>
  The captured texts of a run, and that the stored files hold nothing else.  A digest names
  one of them: the texts themselves must not collide.
\<close>

definition captured_in :: "string set \<Rightarrow> corr_store \<Rightarrow> bool" where
  "captured_in K s \<longleftrightarrow> (\<forall>k b. dict_get (raws s) k = Some (Regular b) \<longrightarrow> b \<in> K)"

lemma atomic_raw_ok:
  assumes "atomic_raw ns (sha256_hex raw) raw s = Inr s'" "store_ok s" "captured_in K s" "inj_on sha256_hex K" "raw \<in> K"
  shows "store_ok s' \<and> captured_in K s' \<and> databases s' = databases s \<and> keeps_files (raws s) (raws s') \<and>
    dict_get (raws s') (ns, sha256_hex raw) = Some (Regular raw)"
proof (cases "dict_get (raws s) (ns, sha256_hex raw)")
  case None
  then have s': "s' = s\<lparr>raws := dict_set (ns, sha256_hex raw) (Regular raw) (raws s)\<rparr>"
    using assms(1) by (simp add: atomic_raw_def)
  have "keeps_files (raws s) (raws s')" using None by (auto simp: s' keeps_files_def)
  moreover have "dict_ok (raws s')" using assms(2) by (simp add: s' store_ok_def)
  moreover have "captured_in K s'" using assms(3,5) by (auto simp: captured_in_def s')
  ultimately show ?thesis using store_ok_files[OF assms(2), of "raws s'"] by (simp add: s')
next
  case (Some f)
  then obtain b where b: "f = Regular b" "sha256_hex b = sha256_hex raw" "s' = s"
    using assms(1) by (cases f) (auto simp: atomic_raw_def split: if_splits)
  have "b \<in> K" using assms(3) Some b(1) by (auto simp: captured_in_def)
  then have "b = raw" using assms(4,5) b(2) by (simp add: inj_on_def)
  then show ?thesis using assms(2,3) Some b by (simp add: keeps_files_def)
qed

lemma insert_evidence_ok:
  assumes "insert_evidence v d = Inr d'" "db_ok ns R d" "evidence_ok ns R v"
  shows "db_ok ns R d'"
proof -
  have d': "d' = d\<lparr>evidence := evidence d @ [v]\<rparr>" "v_proposal v \<in> set (ids d)"
    using assms(1) by (auto simp: insert_evidence_def ids_def split: if_splits)
  have "mine q (d\<lparr>evidence := x\<rparr>) = mine q d" "ids (d\<lparr>evidence := x\<rparr>) = ids d" for q x by (simp_all add: mine_def ids_def)
  then show ?thesis using assms(2,3) d' by (auto simp: db_ok_def rows_ok_def chains_ok_def foreign_keys_ids)
qed

lemma attach_payload_wf:
  "(\<And>v. origin = Some v \<Longrightarrow> wf_json v) \<Longrightarrow> wf_obj (attach_payload eid url rc origin)"
  by (cases origin) (auto simp: wf_obj_def attach_payload_def dict_ok_def)

lemma attach_work_ok:
  assumes "attach_work ns url host revision rc origin now r d = Inr d'" "db_ok ns R d"
    "evidence_ok ns R (new_evidence (proposal_id r) ns url host revision rc now r)" "\<And>v. origin = Some v \<Longrightarrow> wf_json v"
  shows "db_ok ns R d'"
proof -
  obtain d1 etype where d1: "insert_evidence (new_evidence (proposal_id r) ns url host revision rc now r) d = Inr d1"
     "append_event (proposal_id r) etype (attach_payload (evidence_hash (proposal_id r) url (r_raw_sha rc)) url rc origin) now
       (update_proposal (proposal_id r) (\<lambda>x. x\<lparr>p_state := ''evidence_attached'', verification_level := ''none'',
          validation_json := dumps no_findings, local_visibility := ''queue_only''\<rparr>) d1) = Inr d'"
    using assms(1) unfolding attach_work_def bindE_Inr by blast
  show ?thesis
    by (rule step_ok[OF d1(2) insert_evidence_ok[OF d1(1) assms(2,3)] _ attach_payload_wf[OF assms(4)]])
      (auto simp: row_update_def row_ok_def)
qed

lemma captured_put [simp]: "captured_in K (put_db ns d s) = captured_in K s" "raws (put_db ns d s) = raws s"
  by (simp_all add: captured_in_def put_db_def)

text \<open>The ways an attach call ends: refused or already there, stopped after the bytes, or done.\<close>

lemma attach_cases:
  assumes "attach_evidence p url host revision raw rc origin now s = (s', a)"
  obtains (Same) "s' = s"
  | (Done) ns d r s1 d' where "locate s p = Inr (ns, d, r)" "p_state r \<notin> {''withdrawn'', ''superseded'', ''submitted''}"
      "atomic_raw ns (r_raw_sha rc) raw s = Inr s1" "attach_work ns url host revision rc origin now r d = Inr d'"
      "s' = put_db ns d' s1"
  | (Orphan) ns s1 where "atomic_raw ns (r_raw_sha rc) raw s = Inr s1" "s' = s1"
proof (cases "locate s p")
  case (Inl e)
  then show thesis using assms by (intro Same) (simp add: attach_evidence_def)
next
  case (Inr l)
  obtain ns d r where l: "locate s p = Inr (ns, d, r)" using Inr by (cases l) auto
  note A = assms[unfolded attach_evidence_def l, simplified]
  show thesis
  proof (cases "atomic_raw ns (r_raw_sha rc) raw s")
    case (Inl e)
    then show thesis using A by (intro Same) (auto simp: Let_def split: if_splits)
  next
    case (Inr s1)
    show thesis
    proof (cases "attach_work ns url host revision rc origin now r d")
      case (Inl e)
      then show thesis using A Inr by (auto simp: Let_def split: if_splits intro: Same Orphan)
    next
      case (Inr d')
      then show thesis using A l \<open>atomic_raw _ _ _ _ = Inr s1\<close>
        by (auto simp: Let_def split: if_splits intro: Same Done)
    qed
  qed
qed

lemma attach_ok:
  assumes "store_ok s" "captured_in K s" "inj_on sha256_hex K" "raw \<in> K" "receipt_ok raw rc"
    "\<And>v. origin = Some v \<Longrightarrow> wf_json v"
  shows "store_ok (fst (attach_evidence p url host revision raw rc origin now s)) \<and>
    captured_in K (fst (attach_evidence p url host revision raw rc origin now s))"
proof -
  obtain s' a where c: "attach_evidence p url host revision raw rc origin now s = (s', a)" by fastforce
  have sha: "r_raw_sha rc = sha256_hex raw" using assms(5) by (simp add: receipt_ok_def)
  from c have "store_ok s' \<and> captured_in K s'"
  proof (cases rule: attach_cases)
    case Same
    then show ?thesis using assms by simp
  next
    case (Done ns d r s1 d')
    have s1: "store_ok s1 \<and> captured_in K s1 \<and> databases s1 = databases s \<and> keeps_files (raws s) (raws s1)
        \<and> dict_get (raws s1) (ns, sha256_hex raw) = Some (Regular raw)"
      by (rule atomic_raw_ok[OF _ assms(1-4)]) (use Done(3) sha in simp)
    have l: "ns \<in> set known_namespaces" "db_ok ns (raws s1) d"
      using locate_ok[OF assms(1) Done(1)] s1 db_ok_files by blast+
    have "evidence_ok ns (raws s1) (new_evidence (proposal_id r) ns url host revision rc now r)"
      using s1 assms(5) by (simp add: evidence_ok_def new_evidence_def receipt_ok_def)
    then have "db_ok ns (raws s1) d'" using attach_work_ok[OF Done(4) l(2)] assms(6) by blast
    then show ?thesis using put_db_ok[of s1 ns d'] s1 l(1) Done(5) by simp
  next
    case (Orphan ns s1)
    show ?thesis using atomic_raw_ok[OF _ assms(1-4), of ns s1] Orphan sha by simp
  qed
  then show ?thesis by (simp add: c)
qed

section \<open>Redaction\<close>

definition redact_row :: "string \<Rightarrow> evidence_row \<Rightarrow> evidence_row" where
  "redact_row eid v = (if evidence_id v = eid then v\<lparr>redacted := True, sanitized_text := []\<rparr> else v)"

lemma redact_rows_simps [simp]:
  "proposals (redact_rows p eid d) = proposals d" "proposal_events (redact_rows p eid d) = proposal_events d"
  "exports (redact_rows p eid d) = exports d" "mine q (redact_rows p eid d) = mine q d" "ids (redact_rows p eid d) = ids d"
  "evidence (redact_rows p eid d) = map (redact_row eid) (evidence (mark_snapshots p [] d))"
  by (simp_all add: redact_rows_def mine_def ids_def redact_row_def)

lemma redact_rows_ok: "db_ok ns R d \<Longrightarrow> db_ok ns R (redact_rows p eid d)"
proof -
  assume "db_ok ns R d"
  then have "db_ok ns R (mark_snapshots p [] d)" by (rule mark_snapshots_ok)
  then show ?thesis
    by (simp add: db_ok_def rows_ok_def chains_ok_def foreign_keys_ids)
       (auto simp: redact_row_def evidence_ok_def)
qed

lemma redact_work_ok:
  assumes "redact_work p v now d = Inr d'" "db_ok ns R d"
  shows "db_ok ns R d'"
proof -
  obtain d1 where d1: "append_event p ''evidence_redacted''
      (JObj [(''evidence_id'', JStr (evidence_id v)), (''raw_sha256'', JStr (raw_sha v))]) now (redact_rows p (evidence_id v) d) = Inr d1"
      "d' = redact_state p d1"
    using assms(1) by (auto simp: redact_work_def bindE_Inr)
  have "db_ok ns R d1" by (rule append_event_ok[OF d1(1) redact_rows_ok[OF assms(2)]]) simp
  have w: "object_json (dumps (findings_json rs []))" for rs by (rule object_dumps) simp
  show ?thesis
    unfolding d1(2) redact_state_def Let_def
    by (rule update_ok[OF \<open>db_ok ns R d1\<close>]) (auto simp: row_update_def row_ok_def w)
qed

lemma unlink_raw_ok:
  assumes "store_ok s" "dict_get (databases s) ns = Some (Db_file 1 True d)"
  shows "store_ok (unlink_raw ns digest d s)"
proof (cases "list_ex (\<lambda>v. raw_sha v = digest \<and> \<not> redacted v) (evidence d)")
  case True
  then show ?thesis using assms(1) by (simp add: unlink_raw_def)
next
  case False
  have "db_ok ns' (dict_pop (ns, digest) (raws s)) d'" if d': "dict_get (databases s) ns' = Some (Db_file 1 True d')" for ns' d'
  proof -
    have ok: "db_ok ns' (raws s) d'" using assms(1) d' by (auto simp: store_ok_def)
    have "\<not> (raw_sha v = digest \<and> \<not> redacted v)" if "v \<in> set (evidence d')" "ns' = ns" for v
      using False that d' assms(2) by (auto simp: list_ex_iff)
    then show ?thesis using ok by (auto simp: db_ok_def evidence_ok_def)
  qed
  then show ?thesis using False assms(1) by (fastforce simp: unlink_raw_def store_ok_def)
qed

lemma unlink_exports_simps [simp]:
  "databases (unlink_exports xs s) = databases s" "raws (unlink_exports xs s) = raws s"
  "store_ok (unlink_exports xs s) = store_ok s" "captured_in K (unlink_exports xs s) = captured_in K s"
  by (simp_all add: unlink_exports_def store_ok_def captured_in_def)

lemma redact_cases:
  assumes "redact_evidence p eid expected now s = (s', a)"
  obtains (Same) "s' = s"
  | (Done) ns d r v d' where "locate s p = Inr (ns, d, r)" "expect_head expected r = Inr ()"
      "v \<in> set (evidence d)" "v_proposal v = p" "\<not> redacted v" "redact_work p v now d = Inr d'"
      "s' = unlink_raw ns (raw_sha v) d' (unlink_exports (map relative_path (filter (\<lambda>x. x_proposal x = p) (exports d))) (put_db ns d' s))"
proof (cases "locate s p")
  case (Inl e)
  then show thesis using assms by (intro Same) (simp add: redact_evidence_def)
next
  case (Inr l)
  obtain ns d r where l: "locate s p = Inr (ns, d, r)" using Inr by (cases l) auto
  note A = assms[unfolded redact_evidence_def l, simplified]
  show thesis
  proof (cases "List.find (\<lambda>v. v_proposal v = p \<and> evidence_id v = eid) (evidence d)")
    case None
    then show thesis using A by (intro Same) (auto split: sum.splits)
  next
    case (Some v)
    then have v: "v \<in> set (evidence d)" "v_proposal v = p" by (auto simp: find_Some_iff)
    show thesis
    proof (cases "redact_work p v now d")
      case (Inl e)
      then show thesis using A Some by (intro Same) (auto split: sum.splits if_splits)
    next
      case (Inr d')
      show thesis
        using A Some Inr l v by (auto split: sum.splits if_splits intro: Same Done)
    qed
  qed
qed

lemma redact_ok:
  assumes "store_ok s" "captured_in K s"
  shows "store_ok (fst (redact_evidence p eid expected now s)) \<and> captured_in K (fst (redact_evidence p eid expected now s))"
proof -
  obtain s' a where c: "redact_evidence p eid expected now s = (s', a)" by fastforce
  from c have "store_ok s' \<and> captured_in K s'"
  proof (cases rule: redact_cases)
    case Same
    then show ?thesis using assms by simp
  next
    case (Done ns d r v d')
    let ?s = "unlink_exports (map relative_path (filter (\<lambda>x. x_proposal x = p) (exports d))) (put_db ns d' s)"
    have l: "ns \<in> set known_namespaces" "db_ok ns (raws s) d" using locate_ok[OF assms(1) Done(1)] by blast+
    have "store_ok ?s" using put_db_ok[OF assms(1) l(1) redact_work_ok[OF Done(6) l(2)]] by simp
    moreover have "dict_get (databases ?s) ns = Some (Db_file 1 True d')" by (simp add: put_db_def)
    ultimately have "store_ok s'" unfolding Done(7) by (rule unlink_raw_ok)
    moreover have "captured_in K s'" using assms(2) by (auto simp: Done(7) unlink_raw_def captured_in_def split: if_splits)
    ultimately show ?thesis by simp
  qed
  then show ?thesis by (simp add: c)
qed

section \<open>Exports\<close>

lemma insert_or_ignore_simps [simp]:
  "proposals (insert_or_ignore x d) = proposals d" "proposal_events (insert_or_ignore x d) = proposal_events d"
  "evidence (insert_or_ignore x d) = evidence d" "mine q (insert_or_ignore x d) = mine q d" "ids (insert_or_ignore x d) = ids d"
  by (simp_all add: insert_or_ignore_def mine_def ids_def)

lemma insert_or_ignore_ok: "db_ok ns R d \<Longrightarrow> x_proposal x \<in> set (ids d) \<Longrightarrow> db_ok ns R (insert_or_ignore x d)"
  by (simp add: db_ok_def rows_ok_def chains_ok_def foreign_keys_ids) (auto simp: insert_or_ignore_def)

lemma export_work_ok:
  assumes "export_work x r d = Inr d'" "db_ok ns R d" "x_proposal x = proposal_id r" "r \<in> set (proposals d)"
  shows "db_ok ns R d'"
proof -
  have i: "db_ok ns R (insert_or_ignore x d)"
    using insert_or_ignore_ok[OF assms(2)] assms(3,4) by (simp add: ids_def)
  show ?thesis
  proof (cases "p_state r \<in> {''validated_candidate'', ''accepted_local''}")
    case True
    have "append_event (proposal_id r) ''exported''
        (JObj [(''export_id'', JStr (export_id x)), (''sha256'', JStr (x_sha x)), (''bytes'', JInt (int (x_bytes x)))])
        (exported_at x) (update_proposal (proposal_id r) (\<lambda>y. y\<lparr>p_state := ''exported''\<rparr>) (insert_or_ignore x d)) = Inr d'"
      using assms(1) True unfolding export_work_def Let_def by argo
    then show ?thesis by (rule step_ok[OF _ i]) (auto simp: row_update_def row_ok_def)
  next
    case False
    then have "d' = insert_or_ignore x d" using assms(1) unfolding export_work_def Let_def by (metis Inr_inject)
    then show ?thesis using i by simp
  qed
qed

lemma record_export_cases:
  assumes "record_export p head xid path sha bytes now s = (s', a)"
  obtains (Failed) e where "s' = s" "a = Inl e"
  | (Done) ns d r d' x where "locate s p = Inr (ns, d, r)" "export_work x r d = Inr d'" "s' = put_db ns d' s" "a = Inr x"
      "x = \<lparr>export_id = xid, x_proposal = p, x_head = head, relative_path = path, x_sha = sha, x_bytes = bytes, exported_at = now\<rparr>"
proof -
  define x where "x = \<lparr>export_id = xid, x_proposal = p, x_head = head, relative_path = path, x_sha = sha, x_bytes = bytes, exported_at = now\<rparr>"
  let ?m = "bindE (locate s p) (\<lambda>(ns, d, r). bindE (export_work x r d) (\<lambda>d'. Inr (ns, d')))"
  have e: "(s', a) = (case ?m of Inl e \<Rightarrow> (s, Inl e) | Inr (ns, d') \<Rightarrow> (put_db ns d' s, Inr x))"
    unfolding assms[symmetric] record_export_def Let_def x_def by (rule refl)
  show thesis
  proof (cases ?m)
    case (Inl err)
    then show thesis using e by (intro Failed) auto
  next
    case (Inr m)
    then obtain l where l: "locate s p = Inr l" "(case l of (ns, d, r) \<Rightarrow> bindE (export_work x r d) (\<lambda>d'. Inr (ns, d'))) = Inr m"
      unfolding bindE_Inr by blast
    obtain ns d r where "l = (ns, d, r)" by (cases l)
    then obtain d' where "locate s p = Inr (ns, d, r)" "export_work x r d = Inr d'" "m = (ns, d')"
      using l by (auto simp: bindE_Inr)
    then show thesis using e Inr by (intro Done[of ns d r x d']) (auto simp: x_def)
  qed
qed

lemma record_export_ok:
  assumes "store_ok s"
  shows "store_ok (fst (record_export p head xid path sha bytes now s))"
proof -
  obtain s' a where c: "record_export p head xid path sha bytes now s = (s', a)" by fastforce
  from c have "store_ok s'"
  proof (cases rule: record_export_cases)
    case (Done ns d r d' x)
    have l: "ns \<in> set known_namespaces" "db_ok ns (raws s) d" "r \<in> set (proposals d)" "proposal_id r = p"
      using locate_ok[OF assms Done(1)] by blast+
    have "db_ok ns (raws s) d'" by (rule export_work_ok[OF Done(2) l(2) _ l(3)]) (simp add: Done(5) l(4))
    then show ?thesis using put_db_ok[OF assms l(1)] Done(3) by simp
  qed (simp add: assms)
  then show ?thesis by (simp add: c)
qed

section \<open>The audit accepts what has the invariant\<close>

definition agrees :: "seen \<Rightarrow> string \<Rightarrow> nat \<Rightarrow> string option \<Rightarrow> bool" where
  "agrees acc p n prev \<longleftrightarrow>
     (case dict_get acc p of None \<Rightarrow> n = 0 \<and> prev = None | Some (k, h, i) \<Rightarrow> n = k \<and> prev = Some h)"

definition seen_head :: "seen \<Rightarrow> string \<Rightarrow> string option" where
  "seen_head acc p = map_option (\<lambda>(n, h, i). i) (dict_get acc p)"

lemma audit_event_fits:
  assumes "event_fits p n prev e" "agrees acc p n prev" "p \<in> set is"
  shows "audit_event is acc e = Inr (dict_set p (e_sequence e, event_sha e, event_id e) acc)"
proof -
  obtain v where v: "loads (payload_json e) = Some v" "is_obj v" "dumps v = payload_json e"
    using assms(1) by (auto simp: event_fits_def)
  have n: "(case dict_get acc p of None \<Rightarrow> 0 | Some (k, h, i) \<Rightarrow> k) = n"
      "(case dict_get acc p of None \<Rightarrow> None | Some (k, h, i) \<Rightarrow> Some h) = prev"
    using assms(2) by (auto simp: agrees_def split: option.splits)
  have "e_proposal e = p" using assms(1) by (simp add: event_fits_def)
  then show ?thesis
    using assms(1,3) v n unfolding audit_event_def Let_def by (simp add: event_fits_def decode_def)
qed

lemma audit_chains:
  assumes "\<forall>p. \<exists>n prev. agrees acc p n prev \<and> chain_from p n prev (filter (\<lambda>e. e_proposal e = p) es)"
    "\<forall>e \<in> set es. e_proposal e \<in> set is"
  shows "\<exists>acc'. audit_events is acc es = Inr acc' \<and>
    (\<forall>p. seen_head acc' p = (if filter (\<lambda>e. e_proposal e = p) es = [] then seen_head acc p
                              else head_of (filter (\<lambda>e. e_proposal e = p) es)))"
  using assms
proof (induction es arbitrary: acc)
  case Nil
  then show ?case by simp
next
  case (Cons e es)
  let ?p = "e_proposal e"
  let ?acc = "dict_set ?p (e_sequence e, event_sha e, event_id e) acc"
  obtain n prev where n: "agrees acc ?p n prev" "event_fits ?p n prev e"
      "chain_from ?p (Suc n) (Some (event_sha e)) (filter (\<lambda>x. e_proposal x = ?p) es)"
    using Cons.prems(1)[rule_format, of ?p] by auto
  have step: "audit_event is acc e = Inr ?acc" by (rule audit_event_fits[OF n(2,1)]) (use Cons.prems(2) in simp)
  have "\<exists>m q. agrees ?acc p m q \<and> chain_from p m q (filter (\<lambda>x. e_proposal x = p) es)" for p
  proof (cases "p = ?p")
    case True
    then have "agrees ?acc p (Suc n) (Some (event_sha e))" using n(2) by (simp add: agrees_def event_fits_def)
    then show ?thesis using n(3) True by blast
  next
    case False
    obtain m q where m: "agrees acc p m q" "chain_from p m q (filter (\<lambda>x. e_proposal x = p) (e # es))"
      using Cons.prems(1) by blast
    have "agrees ?acc p m q" using m(1) False by (simp add: agrees_def)
    moreover have "chain_from p m q (filter (\<lambda>x. e_proposal x = p) es)" using m(2) False by simp
    ultimately show ?thesis by blast
  qed
  then obtain acc' where acc': "audit_events is ?acc es = Inr acc'"
     "\<And>p. seen_head acc' p = (if filter (\<lambda>x. e_proposal x = p) es = [] then seen_head ?acc p
        else head_of (filter (\<lambda>x. e_proposal x = p) es))"
    using Cons.IH[of ?acc] Cons.prems(2) by auto
  have "seen_head acc' p = (if filter (\<lambda>x. e_proposal x = p) (e # es) = [] then seen_head acc p
        else head_of (filter (\<lambda>x. e_proposal x = p) (e # es)))" for p
    unfolding acc'(2) by (simp add: seen_head_def head_of_def)
  then show ?case using step acc'(1) by simp
qed

lemma mapE_unit: "(\<And>x. x \<in> set xs \<Longrightarrow> f x = Inr ()) \<Longrightarrow> \<exists>us. mapE f xs = Inr us"
  by (induction xs) auto

lemma ordered_mine: "chains_ok d \<Longrightarrow> filter (\<lambda>e. e_proposal e = p) (ordered_events d) = mine p d"
proof -
  assume "chains_ok d"
  then have c: "chain_from p 0 None (mine p d)" by (simp add: chains_ok_def)
  have "map (\<lambda>e. (e_proposal e, e_sequence e)) (mine p d) = map (Pair p) (map e_sequence (mine p d))"
    using chain_proposal[OF c] by simp
  also have "\<dots> = map (Pair p) [Suc 0..<Suc (length (mine p d))]" using chain_sequences[OF c] by (simp del: upt_Suc)
  finally have "sorted (map (\<lambda>e. (e_proposal e, e_sequence e)) (mine p d))"
    by (simp add: sorted_map less_eq_prod_def sorted_wrt_mono_rel[OF _ sorted_upt] del: upt_Suc)
  then show ?thesis
    by (simp add: ordered_events_def filter_sort sort_key_id_if_sorted mine_def)
qed

lemma object_text_ok: "(\<And>t. x = Some t \<Longrightarrow> object_json t) \<Longrightarrow> object_text x = Inr ()"
  by (cases x) (auto simp: object_text_def object_json_def decode_def)

lemma audit_evidence_ok: "evidence_ok ns (raws s) v \<Longrightarrow> audit_evidence ns s v = Inr ()"
  by (auto simp: evidence_ok_def audit_evidence_def)

lemma audit_ok:
  assumes "db_ok ns (raws s) d" "ns \<in> set known_namespaces"
  shows "check_correction_database ns s (Db_file 1 True d) = Inr ()"
proof -
  have c: "chains_ok d" "rows_ok ns d" "foreign_keys_ok d" "\<forall>v \<in> set (evidence d). evidence_ok ns (raws s) v"
    using assms(1) by (simp_all add: db_ok_def)
  have "\<forall>p. \<exists>n prev. agrees [] p n prev \<and> chain_from p n prev (filter (\<lambda>e. e_proposal e = p) (ordered_events d))"
    using c(1) ordered_mine[OF c(1)] by (auto simp: agrees_def chains_ok_def)
  moreover have "\<forall>e \<in> set (ordered_events d). e_proposal e \<in> set (map proposal_id (proposals d))"
    using c(3) by (simp add: foreign_keys_ids ids_def ordered_events_def)
  ultimately obtain acc where acc0: "audit_events (map proposal_id (proposals d)) [] (ordered_events d) = Inr acc"
      "\<forall>p. seen_head acc p = (if filter (\<lambda>e. e_proposal e = p) (ordered_events d) = [] then seen_head [] p
         else head_of (filter (\<lambda>e. e_proposal e = p) (ordered_events d)))"
    using audit_chains by blast
  have acc: "audit_events (map proposal_id (proposals d)) [] (ordered_events d) = Inr acc"
      "seen_head acc p = head_of (mine p d)" for p
    using acc0 ordered_mine[OF c(1)] by (simp_all add: head_of_def seen_head_def)
  have "audit_proposal ns acc r = Inr ()" if "r \<in> set (proposals d)" for r
  proof -
    have r: "row_ok ns r" "head_event_id r = seen_head acc (proposal_id r)" using c(2) that by (simp_all add: rows_ok_def acc(2))
    have "object_text (Some (target_json r)) = Inr ()" "object_text (Some (proposed_json r)) = Inr ()"
        "object_text (Some (validation_json r)) = Inr ()" "object_text (original_json r) = Inr ()"
      using r(1) by (auto simp: row_ok_def intro!: object_text_ok)
    then show ?thesis using r by (simp add: audit_proposal_def row_ok_def seen_head_def)
  qed
  then obtain us where "mapE (audit_proposal ns acc) (proposals d) = Inr us" using mapE_unit by blast
  moreover obtain vs where "mapE (audit_evidence ns s) (evidence d) = Inr vs"
    using mapE_unit[of "evidence d" "audit_evidence ns s"] audit_evidence_ok c(4) by blast
  ultimately show ?thesis using assms(2) c(3) acc(1) by (simp add: check_correction_database_def check_sqlite_def)
qed

end
