(* ===== verification/Correction_Validation.thy ===== *)
theory Correction_Validation
  imports Correction_Store Csv
begin

text \<open>
  The validation of correction proposals
  (\<open>src/server/golavo_server/correction_validation.py\<close>): what a proposed value must look like,
  what it is compared with, and the verdict written back.  The text functions whose Unicode
  tables are not modelled are arguments: the sanitizer of captured text, \<open>casefold\<close>,
  \<open>strip\<close>, and what \<open>datetime.fromisoformat\<close> makes of a text (\<open>Some\<close> true when it carries an
  offset).
\<close>

record texts =
  sanitize :: "string \<Rightarrow> cexn + string"
  casefold :: "string \<Rightarrow> string"
  strip :: "string \<Rightarrow> string"
  fromisoformat :: "string \<Rightarrow> bool option"

section \<open>Normalising what was proposed\<close>

definition char_count :: "string \<Rightarrow> nat" where
  "char_count s = length (filter (\<lambda>c. \<not> is_continuation c) s)"

definition refuse :: "string \<Rightarrow> cexn + 'a" where
  "refuse code = Inl (Store_error code 422)"

function normalize_proposed :: "texts \<Rightarrow> nat \<Rightarrow> json \<Rightarrow> cexn + json"
  and normalize_items :: "texts \<Rightarrow> nat \<Rightarrow> json list \<Rightarrow> cexn + json list"
  and normalize_members :: "texts \<Rightarrow> nat \<Rightarrow> (string, json) dict \<Rightarrow> cexn + (string, json) dict" where
  "normalize_proposed T depth v =
     (if depth > 5 then refuse ''proposed_value_too_deep''
      else (case v of
        JStr s \<Rightarrow>
          if char_count s > 500 then refuse ''proposed_text_too_long''
          else bindE (sanitize T s) (\<lambda>display. Inr (JStr display))
      | JBool b \<Rightarrow> Inr v
      | JNull \<Rightarrow> Inr v
      | JInt i \<Rightarrow> Inr v
      | JFloat n \<Rightarrow> if n mod 1000000000 \<noteq> 0 then refuse ''invalid_proposed_number'' else Inr (JInt (n div 1000000000))
      | JArr vs \<Rightarrow>
          if length vs > 20 then refuse ''proposed_value_too_large''
          else bindE (normalize_items T (Suc depth) vs) (\<lambda>ws. Inr (JArr ws))
      | JObj kvs \<Rightarrow>
          if length kvs > 20 then refuse ''invalid_proposed_value''
          else bindE (normalize_members T (Suc depth) kvs) (\<lambda>kws. Inr (JObj kws))))"
| "normalize_items T depth [] = Inr []"
| "normalize_items T depth (v # vs) =
     bindE (normalize_proposed T depth v) (\<lambda>w. bindE (normalize_items T depth vs) (\<lambda>ws. Inr (w # ws)))"
| "normalize_members T depth [] = Inr []"
| "normalize_members T depth ((k, v) # kvs) =
     bindE (normalize_proposed T depth v) (\<lambda>w. bindE (normalize_members T depth kvs) (\<lambda>kws. Inr ((k, w) # kws)))"
  by pat_completeness auto
termination
  by (relation "measure (case_sum (\<lambda>(T, d, v). json_size (Inl v)) (case_sum (\<lambda>(T, d, vs). json_size (Inr (Inl vs)))
        (\<lambda>(T, d, kvs). json_size (Inr (Inr kvs)))))") simp_all

section \<open>The original value\<close>

definition py_or :: "json \<Rightarrow> json \<Rightarrow> json" where
  "py_or v w = (if py_truthy v then v else w)"

definition derive_original :: "string \<Rightarrow> json option \<Rightarrow> cexn + json option" where
  "derive_original ctype match =
     (if ctype = ''missing_fixture'' then Inr None
      else (case match of
        None \<Rightarrow> refuse ''exact_identity_required''
      | Some m \<Rightarrow>
          let provenance = (if is_obj (jget m ''provenance'') then jget m ''provenance'' else JObj []);
              source = (\<lambda>k. py_or (jget provenance k) (jget m ''source_id''))
          in if ctype = ''kickoff_time'' then
               Inr (Some (JObj [(''kickoff_utc'', jget m ''kickoff_utc''),
                 (''kickoff_precision'', jget m ''kickoff_precision''), (''source_id'', source ''kickoff'')]))
             else if ctype = ''venue'' then
               Inr (Some (JObj [(''city'', jget m ''city''), (''country'', jget m ''country''),
                 (''source_id'', source ''venue'')]))
             else if ctype = ''final_score'' then
               Inr (Some (JObj [(''home_score'', jget m ''home_score''), (''away_score'', jget m ''away_score''),
                 (''is_complete'', JBool (py_truthy (jget m ''is_complete''))), (''source_id'', source ''result'')]))
             else if ctype = ''team_alias'' then
               Inr (Some (JObj [(''home_team'', jget m ''home_team''), (''away_team'', jget m ''away_team''),
                 (''competition'', jget m ''competition''), (''country'', jget m ''country''),
                 (''source_id'', source ''identity'')]))
             else refuse ''unknown_correction_type''))"

section \<open>Typed reasons\<close>

definition parse_aware :: "texts \<Rightarrow> json \<Rightarrow> bool" where
  "parse_aware T v =
     (case v of
        JStr s \<Rightarrow> fromisoformat T (concat (map (\<lambda>c. if c = CHR ''Z'' then ''+00:00'' else [c]) s)) = Some True
      | _ \<Rightarrow> False)"

definition required_string :: "texts \<Rightarrow> json \<Rightarrow> string \<Rightarrow> string option" where
  "required_string T payload k =
     (case jget payload k of JStr s \<Rightarrow> if strip T s \<noteq> [] then Some s else None | _ \<Rightarrow> None)"

definition reason_if :: "bool \<Rightarrow> string \<Rightarrow> string list" where
  "reason_if b reason = (if b then [reason] else [])"

text \<open>\<open>value in {...}\<close> raises \<open>TypeError\<close> for a list or a dict, which have no hash.\<close>

definition in_texts :: "json \<Rightarrow> string list \<Rightarrow> cexn + bool" where
  "in_texts v ts = (case v of JArr _ \<Rightarrow> Inl Type_fault | JObj _ \<Rightarrow> Inl Type_fault | _ \<Rightarrow> Inr (v \<in> JStr ` set ts))"

definition kickoff_reasons :: "texts \<Rightarrow> json \<Rightarrow> cexn + string list" where
  "kickoff_reasons T prop =
     bindE (in_texts (jget prop ''kickoff_precision'') [''day'', ''minute'', ''exact'']) (\<lambda>known.
     Inr (reason_if (\<not> parse_aware T (jget prop ''kickoff_utc'')) ''kickoff_requires_rfc3339_offset'' @
          reason_if (\<not> known) ''invalid_kickoff_precision''))"

definition same_name :: "texts \<Rightarrow> string option \<Rightarrow> string option \<Rightarrow> bool" where
  "same_name T a b = (case (a, b) of (Some x, Some y) \<Rightarrow> casefold T x = casefold T y | _ \<Rightarrow> True)"

definition scope_reasons :: "json \<Rightarrow> json \<Rightarrow> string \<Rightarrow> string \<Rightarrow> string list" where
  "scope_reasons scope orig k reason =
     reason_if (jget scope k \<noteq> JNull \<and> \<not> py_eq (jget scope k) (jget orig k)) reason"

definition alias_reasons :: "texts \<Rightarrow> json \<Rightarrow> json \<Rightarrow> string option \<Rightarrow> string list" where
  "alias_reasons T prop orig source_id =
     (let name = required_string T prop ''canonical_team''; scope = jget prop ''scope'';
          teams = concat (map (\<lambda>k. case jget orig k of JStr v \<Rightarrow> if py_truthy orig then [v] else [] | _ \<Rightarrow> [])
                    [''home_team'', ''away_team''])
      in reason_if (same_name T (required_string T prop ''alias'') name) ''alias_requires_distinct_exact_names'' @
         (if \<not> is_obj scope \<or> required_string T scope ''source_id'' = None then [''alias_requires_source_scope'']
          else reason_if (jget scope ''source_id'' \<noteq> opt_json source_id) ''alias_source_scope_mismatch'') @
         reason_if (case name of None \<Rightarrow> True | Some n \<Rightarrow> n \<notin> set teams) ''alias_requires_exact_indexed_team'' @
         (if is_obj scope \<and> py_truthy orig
          then scope_reasons scope orig ''competition'' ''alias_competition_scope_mismatch'' @
               scope_reasons scope orig ''country'' ''alias_country_scope_mismatch''
          else []))"

definition venue_reasons :: "texts \<Rightarrow> json \<Rightarrow> string list" where
  "venue_reasons T prop =
     reason_if (required_string T prop ''venue_name'' = None) ''venue_name_required'' @
     reason_if (required_string T prop ''city'' = None \<or> required_string T prop ''country'' = None) ''venue_city_country_required''"

definition goals_ok :: "json \<Rightarrow> bool" where
  "goals_ok v = (case v of JInt n \<Rightarrow> 0 \<le> n \<and> n \<le> 99 | _ \<Rightarrow> False)"

definition penalties_ok :: "json \<Rightarrow> bool" where
  "penalties_ok v \<longleftrightarrow>
     v = JNull \<or> is_obj v \<and> list_all (\<lambda>k. case jget v k of JInt n \<Rightarrow> 0 \<le> n | _ \<Rightarrow> False) [''home'', ''away'']"

definition score_reasons :: "json \<Rightarrow> string list" where
  "score_reasons prop =
     reason_if (\<not> goals_ok (jget prop ''home_score'') \<or> \<not> goals_ok (jget prop ''away_score'')) ''invalid_final_score'' @
     reason_if (jget prop ''score_basis'' \<noteq> JStr ''regulation_plus_extra_time'') ''score_basis_required'' @
     reason_if (\<not> penalties_ok (jget prop ''penalties'')) ''invalid_penalty_score''"

definition placeholder :: "string option \<Rightarrow> bool" where
  "placeholder x =
     (case x of Some (c # ds) \<Rightarrow> c \<in> set ''WLwl'' \<and> 1 \<le> length ds \<and> length ds \<le> 4 \<and> list_all is_digit ds | _ \<Rightarrow> False)"

definition fixture_reasons :: "texts \<Rightarrow> json \<Rightarrow> cexn + string list" where
  "fixture_reasons T prop =
     (let home = required_string T prop ''home_team''; away = required_string T prop ''away_team''
      in bindE (kickoff_reasons T prop) (\<lambda>kickoff.
         Inr (reason_if (same_name T home away) ''fixture_requires_distinct_teams'' @
              reason_if (placeholder home) ''placeholder_team_not_allowed'' @
              reason_if (placeholder away) ''placeholder_team_not_allowed'' @
              reason_if (required_string T prop ''competition'' = None) ''fixture_competition_required'' @
              kickoff @
              reason_if (required_string T prop ''upstream_record_key'' = None) ''upstream_record_key_required'')))"

definition sorted_set :: "string list \<Rightarrow> string list" where
  "sorted_set xs = sort (remdups xs)"

definition typed_reasons :: "texts \<Rightarrow> string \<Rightarrow> json \<Rightarrow> json \<Rightarrow> string option \<Rightarrow> cexn + string list" where
  "typed_reasons T ctype prop orig source_id =
     bindE (if ctype = ''kickoff_time'' then kickoff_reasons T prop
            else if ctype = ''team_alias'' then Inr (alias_reasons T prop orig source_id)
            else if ctype = ''venue'' then Inr (venue_reasons T prop)
            else if ctype = ''final_score'' then Inr (score_reasons prop)
            else if ctype = ''missing_fixture'' then fixture_reasons T prop
            else Inr []) (\<lambda>reasons. Inr (sorted_set reasons))"

section \<open>Evidence that quotes a verified snapshot\<close>

text \<open>\<open>str(proposed.get(k) or "")\<close>, and slices of it.\<close>

definition token :: "json \<Rightarrow> string \<Rightarrow> string" where
  "token prop k = (let v = jget prop k in if py_truthy v then py_str v else [])"

definition proposed_tokens :: "string \<Rightarrow> json \<Rightarrow> string list" where
  "proposed_tokens ctype prop =
     (let kickoff = token prop ''kickoff_utc'' in
      if ctype = ''missing_fixture'' then [token prop ''home_team'', token prop ''away_team'', take 10 kickoff]
      else if ctype = ''kickoff_time'' then [take 10 kickoff, take 5 (drop 11 kickoff)]
      else if ctype = ''team_alias'' then [token prop ''alias'', token prop ''canonical_team'']
      else if ctype = ''venue'' then [token prop ''venue_name'', token prop ''city'']
      else if ctype = ''final_score'' then [py_str (jget prop ''home_score''), py_str (jget prop ''away_score'')]
      else [])"

definition lower_byte :: "char \<Rightarrow> char" where
  "lower_byte c = (let n = of_char c :: nat in if 65 \<le> n \<and> n \<le> 90 then char_of (n + 32) else c)"

fun occurs_in :: "string \<Rightarrow> string \<Rightarrow> bool" where
  "occurs_in w [] = (w = [])"
| "occurs_in w (c # cs) = (starts_with w (c # cs) \<or> occurs_in w cs)"

text \<open>
  The active generation's manifest and its files, as \<open>read_source source_id revision path\<close>;
  \<open>None\<close> when there is no generation or it does not verify.  A path is split at its slashes.
\<close>

fun split_path :: "string \<Rightarrow> string list" where
  "split_path [] = [[]]"
| "split_path (c # cs) =
     (if c = CHR ''/'' then [] # split_path cs
      else (case split_path cs of p # ps \<Rightarrow> (c # p) # ps | [] \<Rightarrow> [[c]]))"

definition safe_relative :: "string \<Rightarrow> bool" where
  "safe_relative path \<longleftrightarrow> \<not> starts_with ''/'' path \<and> ''..'' \<notin> set (split_path path)"

definition receipt_for :: "json \<Rightarrow> string \<Rightarrow> string \<Rightarrow> json option" where
  "receipt_for manifest source_id revision =
     List.find (\<lambda>item. jget item ''source_id'' = JStr source_id \<and> py_str (jget item ''upstream_ref'') = revision)
       (rev (json_items (jget manifest ''source_snapshots'')))"

definition quotes_snapshot ::
  "texts \<Rightarrow> json \<Rightarrow> (string \<Rightarrow> string \<Rightarrow> string \<Rightarrow> string option) \<Rightarrow> string \<Rightarrow> string list \<Rightarrow> evidence_view \<times> string \<Rightarrow> bool" where
  "quotes_snapshot T manifest read_source source_id tokens ev =
     (let revision = py_str (opt_json (source_revision (fst ev))); raw = snd ev in
      case receipt_for manifest source_id revision of
        None \<Rightarrow> False
      | Some rc \<Rightarrow>
          list_all (\<lambda>t. occurs_in (map lower_byte t) (map lower_byte raw)) tokens \<and>
          list_ex (\<lambda>f. let path = (case dict_get (obj_fields f) ''path'' of None \<Rightarrow> [] | Some v \<Rightarrow> py_str v) in
             safe_relative path \<and>
             (case read_source source_id revision path of None \<Rightarrow> False | Some b \<Rightarrow> occurs_in raw b))
           (json_items (jget rc ''files'')))"

definition snapshot_evidence_ids ::
  "catalog \<Rightarrow> texts \<Rightarrow> json option \<Rightarrow> (string \<Rightarrow> string \<Rightarrow> string \<Rightarrow> string option) \<Rightarrow> corr_store \<Rightarrow> proposal_view \<Rightarrow>
   cexn + string list" where
  "snapshot_evidence_ids cat T manifest read_source s v =
     (case (policy_for cat (p_source (row v)), p_source (row v), manifest) of
        (Some (policy, _), Some source_id, m) \<Rightarrow>
          bindE (item policy ''license_namespace'') (\<lambda>ns.
          if ns \<noteq> JStr ''core-cc0'' then Inr []
          else (case m of
            None \<Rightarrow> Inr []
          | Some man \<Rightarrow>
              let tokens = map (casefold T) (filter (\<lambda>t. t \<noteq> [])
                    (proposed_tokens (correction_type (row v)) (proposed v)))
              in bindE (raw_evidence s (proposal_id (row v))) (\<lambda>evs.
                 Inr (sorted_set (map (\<lambda>ev. evidence_id (fst ev))
                   (filter (quotes_snapshot T man read_source source_id tokens) evs))))))
      | _ \<Rightarrow> Inr [])"

section \<open>The verdict\<close>

text \<open>What validation sees of the world besides the store.\<close>

record world =
  w_catalog :: catalog
  w_texts :: texts
  w_manifest :: "json option"
  w_source :: "string \<Rightarrow> string \<Rightarrow> string \<Rightarrow> string option"

definition type_reasons :: "catalog \<Rightarrow> string option \<Rightarrow> string \<Rightarrow> cexn + string list" where
  "type_reasons cat source_id ctype =
     (case validate_type cat source_id ctype of
        Inr _ \<Rightarrow> Inr [] | Inl (Policy_error code) \<Rightarrow> Inr [code] | Inl e \<Rightarrow> Inl e)"

definition reason_codes :: "world \<Rightarrow> proposal_view \<Rightarrow> cexn + string list" where
  "reason_codes W v =
     bindE (typed_reasons (w_texts W) (correction_type (row v)) (proposed v) (original v) (p_source (row v))) (\<lambda>fields.
     bindE (type_reasons (w_catalog W) (p_source (row v)) (correction_type (row v))) (\<lambda>typed.
     Inr (fields @ typed @ reason_if (list_all (\<lambda>e. redacted e) (shown_evidence v)) ''source_url_and_captured_evidence_required'')))"

definition own_conflicts :: "json option \<Rightarrow> proposal_view \<Rightarrow> cexn + json list" where
  "own_conflicts current v =
     (if correction_type (row v) \<noteq> ''missing_fixture'' then
        (case current of
           None \<Rightarrow> Inr [JObj [(''reason_code'', JStr ''target_match_missing'')]]
         | Some m \<Rightarrow>
             bindE (derive_original (correction_type (row v)) (Some m)) (\<lambda>now.
             let now = (case now of None \<Rightarrow> JNull | Some x \<Rightarrow> x) in
             Inr (if py_eq now (original v) then []
                  else [JObj [(''reason_code'', JStr ''authoritative_base_changed''),
                              (''original'', original v), (''current'', now)]])))
      else (case current of
              None \<Rightarrow> Inr []
            | Some m \<Rightarrow> Inr [JObj [(''reason_code'', JStr ''authoritative_fixture_already_exists''),
                                  (''match_id'', jget m ''match_id'')]]))"

definition verdict :: "proposal_view \<Rightarrow> string list \<Rightarrow> json list \<Rightarrow> string list \<Rightarrow> string \<times> string \<times> string list" where
  "verdict v reasons conflicts snapshot_ids =
     (let verification = (if snapshot_ids \<noteq> [] then ''snapshot_verified'' else ''structural_only'') in
      if conflicts \<noteq> [] then (''conflict'', verification, reasons @ [''conflict_fails_closed''])
      else if reasons \<noteq> [] then (if shown_evidence v \<noteq> [] then ''evidence_attached'' else ''draft'', ''none'', reasons)
      else (''validated_candidate'', verification, reasons))"

definition judge :: "world \<Rightarrow> json option \<Rightarrow> corr_store \<Rightarrow> proposal_view \<Rightarrow> cexn + (string list \<times> json list \<times> string list)" where
  "judge W current s v =
     bindE (reason_codes W v) (\<lambda>reasons.
     bindE (own_conflicts current v) (\<lambda>own.
     bindE (competing_proposals s v) (\<lambda>rivals.
     bindE (if reasons = [] then snapshot_evidence_ids (w_catalog W) (w_texts W) (w_manifest W) (w_source W) s v else Inr []) (\<lambda>snaps.
     Inr (reasons, own @ rivals, snaps)))))"

definition validate :: "world \<Rightarrow> string \<Rightarrow> json option \<Rightarrow> string \<Rightarrow> corr_store \<Rightarrow> corr_store \<times> (cexn + proposal_view)" where
  "validate W p current now s =
     (case bindE (get_proposal s p) (\<lambda>v. bindE (judge W current s v) (\<lambda>j. Inr (v, j))) of
        Inl e \<Rightarrow> (s, Inl e)
      | Inr (v, reasons, conflicts, snaps) \<Rightarrow>
          let (state, level, codes) = verdict v reasons conflicts snaps
          in apply_validation p state level (sorted_set codes) conflicts snaps (head_event_id (row v)) now s)"

end
