(* ===== verification/Correction_Routes.thy ===== *)
theory Correction_Routes
  imports Correction_Validation
begin

text \<open>
  The correction calls of the sidecar (\<open>src/server/golavo_server/main.py\<close>), the receipt of
  captured text (\<open>correction_sanitize.py\<close>) and the exports (\<open>correction_exports.py\<close>).  A
  request's body is its parsed JSON object; a refused request raises \<open>Policy_error\<close>,
  \<open>Store_error\<close>, or \<open>Store_error\<close> of the HTTP status the route itself raises.
\<close>

definition http :: "nat \<Rightarrow> cexn" where
  "http status = Store_error ''http'' status"

section \<open>Creating and revising\<close>

definition receipt_of :: "string \<Rightarrow> string \<Rightarrow> receipt" where
  "receipt_of raw display = \<lparr>r_raw_sha = sha256_hex raw, r_raw_bytes = length raw, r_text = display,
     r_text_sha = sha256_hex display\<rparr>"

definition source_id_pattern :: "json \<Rightarrow> bool" where
  "source_id_pattern v =
     (let lower_digit = (\<lambda>c. let n = of_char c :: nat in is_digit c \<or> (97 \<le> n \<and> n \<le> 122)) in
      case v of
        JStr (c # cs) \<Rightarrow> lower_digit c \<and> length cs \<le> 119 \<and> list_all (\<lambda>x. lower_digit x \<or> x \<in> set ''._-'') cs
      | _ \<Rightarrow> False)"

definition object_kind :: "string \<Rightarrow> string" where
  "object_kind ctype =
     (if ctype = ''missing_fixture'' then ''fixture_candidate'' else if ctype = ''team_alias'' then ''team''
      else if ctype = ''venue'' then ''venue'' else ''match'')"

definition target_of :: "string \<Rightarrow> json \<Rightarrow> json \<Rightarrow> json option \<Rightarrow> json \<Rightarrow> json \<Rightarrow> json" where
  "target_of ctype mid prop match generation index_print = JObj
     [(''kind'', JStr (object_kind ctype)),
      (''match_id'', case mid of JStr m \<Rightarrow> mid | _ \<Rightarrow> JNull),
      (''entity_id'', JNull),
      (''upstream_record_key'',
         if ctype = ''missing_fixture'' then jget prop ''upstream_record_key''
         else (case match of Some m \<Rightarrow> if py_truthy m then jget m ''upstream_fixture_key'' else JNull | None \<Rightarrow> JNull)),
      (''base_generation_id'', generation), (''index_fingerprint'', index_print)]"

text \<open>
  The stable generation a proposal is made on: its id, the index fingerprint, the match of an
  id, and what \<open>commit\<close> answers at the end.
\<close>

record stable_generation =
  g_id :: json
  g_index :: json
  g_match :: "string \<Rightarrow> json option"
  g_commit :: bool

definition match_for :: "stable_generation \<Rightarrow> json \<Rightarrow> json option" where
  "match_for G mid = (case mid of JStr m \<Rightarrow> if m = [] then None else g_match G m | _ \<Rightarrow> None)"

definition create_correction ::
  "world \<Rightarrow> stable_generation \<Rightarrow> json \<Rightarrow> string \<Rightarrow> string \<Rightarrow> corr_store \<Rightarrow> corr_store \<times> (cexn + proposal_view \<times> bool)" where
  "create_correction W G body uuid now s =
     (let ctype = py_str (jget body ''correction_type''); source_id = jget body ''source_id'';
          tgt = jget body ''target''; prop = jget body ''proposed''; mid = jget tgt ''match_id'' in
      if jget body ''correction_type'' \<notin> JStr ` set correction_types then (s, Inl (http 422))
      else if \<not> source_id_pattern source_id then (s, Inl (http 422))
      else if \<not> is_obj tgt \<or> \<not> is_obj prop then (s, Inl (http 422))
      else
        let src = Some (py_str source_id) in
        case bindE (if policy_for (w_catalog W) src = None then Inr ()
                    else validate_type (w_catalog W) src ctype) (\<lambda>_.
             bindE (guardE (ctype = ''missing_fixture'' \<or> (\<exists>m. mid = JStr m)) (http 422)) (\<lambda>_.
             bindE (normalize_proposed (w_texts W) 0 prop) (\<lambda>prop'.
             bindE (guardE (ctype = ''missing_fixture'' \<or> match_for G mid \<noteq> None) (http 404)) (\<lambda>_.
             bindE (derive_original ctype (match_for G mid)) (\<lambda>orig. Inr (prop', orig)))))) of
          Inl e \<Rightarrow> (s, Inl e)
        | Inr (prop', orig) \<Rightarrow>
            create_proposal (w_catalog W) ctype
              (target_of ctype mid prop' (match_for G mid) (g_id G) (g_index G))
              orig prop' src (Some (g_commit G)) uuid now s)"

definition head_text :: "json \<Rightarrow> string option" where
  "head_text body = (case jget body ''expected_head_event_id'' of JStr h \<Rightarrow> Some h | _ \<Rightarrow> None)"

definition revise_correction :: "world \<Rightarrow> string \<Rightarrow> json \<Rightarrow> string \<Rightarrow> corr_store \<Rightarrow> corr_store \<times> (cexn + proposal_view)" where
  "revise_correction W p body now s =
     (case (is_obj (jget body ''proposed''), head_text body) of
        (True, Some expected) \<Rightarrow>
          (case normalize_proposed (w_texts W) 0 (jget body ''proposed'') of
             Inl e \<Rightarrow> (s, Inl e)
           | Inr prop \<Rightarrow> revise_draft p prop expected now s)
      | _ \<Rightarrow> (s, Inl (http 422)))"

section \<open>Evidence\<close>

text \<open>
  \<open>canonical_evidence_url\<close> is an argument: the canonical URL and its host, or the refusal.  A
  research capture is imported through the same store call, with its origin.
\<close>

definition attach_correction_evidence ::
  "world \<Rightarrow> (string option \<Rightarrow> string \<Rightarrow> cexn + string \<times> string) \<Rightarrow> string \<Rightarrow> json \<Rightarrow> string \<Rightarrow> corr_store \<Rightarrow>
   corr_store \<times> (cexn + proposal_view \<times> bool)" where
  "attach_correction_evidence W canonical_url p body now s =
     (case (jget body ''source_url'', jget body ''captured_text'', jget body ''source_revision'') of
        (JStr url, JStr raw, revision) \<Rightarrow>
          if \<not> (case revision of JNull \<Rightarrow> True | JStr r \<Rightarrow> char_count r \<le> 200 | _ \<Rightarrow> False) then (s, Inl (http 422))
          else (case
             bindE (get_proposal s p) (\<lambda>v.
             bindE (canonical_url (p_source (row v)) url) (\<lambda>(canonical, host).
             bindE (sanitize (w_texts W) raw) (\<lambda>display.
             bindE (case revision of JStr r \<Rightarrow> bindE (sanitize (w_texts W) r) (\<lambda>x. Inr (Some x)) | _ \<Rightarrow> Inr None) (\<lambda>revised.
             Inr (canonical, host, display, revised))))) of
               Inl e \<Rightarrow> (s, Inl e)
             | Inr (canonical, host, display, revised) \<Rightarrow>
                 attach_evidence p canonical host revised raw (receipt_of raw display) None now s)
      | _ \<Rightarrow> (s, Inl (http 422)))"

section \<open>Moving a proposal\<close>

definition accept_local :: "string \<Rightarrow> json \<Rightarrow> string \<Rightarrow> corr_store \<Rightarrow> corr_store \<times> (cexn + proposal_view)" where
  "accept_local p body now s =
     (case (jget body ''confirm'' = JStr ''local_annotation_only'', head_text body) of
        (True, Some expected) \<Rightarrow>
          (case get_proposal s p of
             Inl e \<Rightarrow> (s, Inl e)
           | Inr v \<Rightarrow>
               transition p [''validated_candidate'', ''exported'']
                 (if p_state (row v) = ''validated_candidate'' then ''accepted_local'' else p_state (row v))
                 ''accepted_local''
                 (JObj [(''scope'', JStr ''local_annotation_only''), (''authoritative_override'', JBool False),
                        (''verification_level'', JStr (verification_level (row v)))])
                 (Some ''local_annotation'') (Some expected) now s)
      | _ \<Rightarrow> (s, Inl (http 422)))"

definition revoke_local :: "string \<Rightarrow> json \<Rightarrow> string \<Rightarrow> corr_store \<Rightarrow> corr_store \<times> (cexn + proposal_view)" where
  "revoke_local p body now s =
     (case head_text body of
        None \<Rightarrow> (s, Inl (http 422))
      | Some expected \<Rightarrow>
          (case get_proposal s p of
             Inl e \<Rightarrow> (s, Inl e)
           | Inr v \<Rightarrow>
               transition p [''accepted_local'', ''exported'', ''submitted'']
                 (if p_state (row v) = ''accepted_local'' then ''validated_candidate'' else p_state (row v))
                 ''acceptance_revoked'' (JObj [(''local_annotation_removed'', JBool True)])
                 (Some ''queue_only'') (Some expected) now s))"

definition text_or_null :: "json \<Rightarrow> json" where
  "text_or_null v = (case v of JStr s \<Rightarrow> v | _ \<Rightarrow> JNull)"

definition withdraw :: "string \<Rightarrow> json \<Rightarrow> string \<Rightarrow> corr_store \<Rightarrow> corr_store \<times> (cexn + proposal_view)" where
  "withdraw p body now s =
     (case head_text body of
        None \<Rightarrow> (s, Inl (http 422))
      | Some expected \<Rightarrow>
          transition p active_states ''withdrawn'' ''withdrawn'' (JObj [(''reason'', text_or_null (jget body ''reason''))])
            (Some ''queue_only'') (Some expected) now s)"

definition mark_submitted :: "string \<Rightarrow> json \<Rightarrow> string \<Rightarrow> corr_store \<Rightarrow> corr_store \<times> (cexn + proposal_view)" where
  "mark_submitted p body now s =
     (case (jget body ''confirm'' = JStr ''submitted_externally'', head_text body) of
        (True, Some expected) \<Rightarrow>
          (case get_proposal s p of
             Inl e \<Rightarrow> (s, Inl e)
           | Inr v \<Rightarrow>
               if head_event_id (row v) \<noteq> Some expected then (s, Inl proposal_changed)
               else if p_state (row v) = ''submitted'' then (s, Inr v)
               else transition p [''exported''] ''submitted'' ''marked_submitted''
                      (JObj [(''self_attested'', JBool True),
                             (''external_reference'', text_or_null (jget body ''external_reference''))])
                      None (Some expected) now s)
      | _ \<Rightarrow> (s, Inl (http 422)))"

definition redact_correction :: "string \<Rightarrow> string \<Rightarrow> json \<Rightarrow> string \<Rightarrow> corr_store \<Rightarrow> corr_store \<times> (cexn + proposal_view)" where
  "redact_correction p eid body now s =
     (case (jget body ''confirm'' = JStr ''redact_local_evidence'', head_text body) of
        (True, Some expected) \<Rightarrow> redact_evidence p eid (Some expected) now s
      | _ \<Rightarrow> (s, Inl (http 422)))"

definition purge_corrections :: "json \<Rightarrow> corr_store \<Rightarrow> corr_store \<times> (cexn + unit)" where
  "purge_corrections body s =
     (if jget body ''confirm'' \<noteq> JStr ''remove_all_local_corrections'' then (s, Inl (http 422)) else (purge s, Inr ()))"

section \<open>Exporting\<close>

fun take_chars :: "nat \<Rightarrow> string \<Rightarrow> string" where
  "take_chars n [] = []"
| "take_chars n (c # cs) =
     (if is_continuation c then c # take_chars n cs else case n of 0 \<Rightarrow> [] | Suc m \<Rightarrow> c # take_chars m cs)"

definition safe_excerpt :: "string \<Rightarrow> string" where
  "safe_excerpt s = (if char_count s \<le> 240 then s else take_chars 237 s @ ''...'')"

definition export_matches_head :: "export_row \<Rightarrow> proposal_view \<Rightarrow> event_row list \<Rightarrow> bool" where
  "export_matches_head x v history =
     (Some (x_head x) = head_event_id (row v) \<or>
      (case rev history of
         [] \<Rightarrow> False
       | e # _ \<Rightarrow> event_type e = ''exported'' \<and>
           (case loads (payload_json e) of Some pl \<Rightarrow> jget pl ''export_id'' = JStr (export_id x) | None \<Rightarrow> False) \<and>
           (case previous_hash e of None \<Rightarrow> False | Some h \<Rightarrow> h \<noteq> [] \<and> x_head x = ''ce_'' @ h)))"

definition evidence_json :: "evidence_view \<Rightarrow> json" where
  "evidence_json e = JObj
     [(''evidence_id'', JStr (evidence_id e)), (''source_url'', JStr (source_url e)),
      (''source_revision'', opt_json (source_revision e)), (''raw_sha256'', JStr (raw_sha e)),
      (''sanitized_excerpt'', JStr (safe_excerpt (sanitized_text e))),
      (''snapshot_verified'', JBool (snapshot_verified e))]"

definition history_json :: "event_row \<Rightarrow> json" where
  "history_json e = JObj
     [(''event_id'', JStr (event_id e)), (''sequence'', JInt (int (e_sequence e))),
      (''event_type'', JStr (event_type e)), (''event_sha256'', JStr (event_sha e))]"

definition disclosures :: json where
  "disclosures = JObj
     [(''untrusted_candidate'', JBool True), (''authoritative_override'', JBool False), (''model_input'', JBool False),
      (''settlement_input'', JBool False), (''raw_evidence_included'', JBool False),
      (''modifications_disclosed'', JBool True)]"

definition export_body :: "proposal_view \<Rightarrow> event_row list \<Rightarrow> json \<Rightarrow> (string, json) dict" where
  "export_body v history source =
     [(''schema_version'', schema_version), (''proposal_id'', JStr (proposal_id (row v))),
      (''proposal_head_event_id'', JStr (py_str (opt_json (head_event_id (row v))))),
      (''license_namespace'', JStr (p_namespace (row v))), (''correction_type'', JStr (correction_type (row v))),
      (''target'', target v), (''original'', original v), (''proposed'', proposed v), (''source'', source),
      (''evidence'', JArr (map evidence_json (filter (\<lambda>e. \<not> redacted e) (shown_evidence v)))),
      (''history'', JArr (map history_json history)), (''disclosures'', disclosures)]"

definition canonical_line :: "json \<Rightarrow> string" where
  "canonical_line v = dumps v @ [CHR 0x0A]"

definition write_atomic :: "string \<Rightarrow> string \<Rightarrow> corr_store \<Rightarrow> cexn + corr_store" where
  "write_atomic path payload s =
     (case dict_get (exported_files s) path of
        Some Other_entry \<Rightarrow> Inl (Store_error ''export_path_unsafe'' 503)
      | Some (Regular b) \<Rightarrow> if b \<noteq> payload then Inl (Store_error ''export_hash_collision'' 503) else Inr s
      | None \<Rightarrow> Inr (s\<lparr>exported_files := dict_set path (Regular payload) (exported_files s)\<rparr>))"

definition export_gate :: "catalog \<Rightarrow> string option \<Rightarrow> proposal_view \<Rightarrow> cexn + unit" where
  "export_gate cat expected v =
     bindE (guardE (expected = None \<or> head_event_id (row v) = expected) proposal_changed) (\<lambda>_.
     bindE (guardE (p_state (row v) \<in> {''validated_candidate'', ''accepted_local'', ''exported'', ''submitted''})
              (Store_error ''proposal_not_exportable'' 409)) (\<lambda>_.
     guardE (can_export cat (p_source (row v))) (Store_error ''license_blocks_export'' 422)))"

text \<open>An earlier export that still stands: its head, its file and the file's digest.\<close>

definition standing_export :: "corr_store \<Rightarrow> proposal_view \<Rightarrow> event_row list \<Rightarrow> export_row option \<Rightarrow> export_row option" where
  "standing_export s v history previous =
     (case previous of
        None \<Rightarrow> None
      | Some x \<Rightarrow>
          if p_state (row v) \<in> {''exported'', ''submitted''} \<and> export_matches_head x v history \<and>
             (case dict_get (exported_files s) (relative_path x) of
                Some (Regular b) \<Rightarrow> sha256_hex b = x_sha x | _ \<Rightarrow> False)
          then Some x else None)"

definition export_path :: "string \<Rightarrow> string \<Rightarrow> string" where
  "export_path ns xid = ''exports/'' @ ns @ ''/'' @ xid @ ''.golavo-correction.json''"

definition write_export :: "proposal_view \<Rightarrow> event_row list \<Rightarrow> json \<Rightarrow> string \<Rightarrow> corr_store \<Rightarrow> corr_store \<times> (cexn + export_row)" where
  "write_export v history source now s =
     (let body = export_body v history source;
          xid = ''cx_'' @ sha256_hex (canonical_line (JObj body));
          payload = canonical_line (JObj ((''export_id'', JStr xid) # body));
          path = export_path (p_namespace (row v)) xid
      in case write_atomic path payload s of
           Inl e \<Rightarrow> (s, Inl e)
         | Inr s' \<Rightarrow> record_export (proposal_id (row v)) (py_str (opt_json (head_event_id (row v)))) xid path
                      (sha256_hex payload) (length payload) now s')"

definition export_proposal :: "catalog \<Rightarrow> string \<Rightarrow> string option \<Rightarrow> string \<Rightarrow> corr_store \<Rightarrow> corr_store \<times> (cexn + export_row)" where
  "export_proposal cat p expected now s =
     (case bindE (get_proposal s p) (\<lambda>v.
           bindE (proposal_history s p) (\<lambda>history.
           bindE (export_gate cat expected v) (\<lambda>_.
           bindE (latest_export s p) (\<lambda>previous. Inr (v, history, previous))))) of
        Inl e \<Rightarrow> (s, Inl e)
      | Inr (v, history, previous) \<Rightarrow>
          (case standing_export s v history previous of
             Some x \<Rightarrow> (s, Inr x)
           | None \<Rightarrow>
               (case public_source cat (py_str (opt_json (p_source (row v)))) of
                  Inl e \<Rightarrow> (s, Inl e)
                | Inr source \<Rightarrow> write_export v history source now s)))"

definition export_correction :: "world \<Rightarrow> string \<Rightarrow> json \<Rightarrow> string \<Rightarrow> corr_store \<Rightarrow> corr_store \<times> (cexn + export_row)" where
  "export_correction W p body now s =
     (case (jget body ''confirm'' = JStr ''reviewed_for_public_export'', head_text body) of
        (True, Some expected) \<Rightarrow> export_proposal (w_catalog W) p (Some expected) now s
      | _ \<Rightarrow> (s, Inl (http 422)))"

section \<open>The calls of the app\<close>

datatype correction_call =
    Create stable_generation json string
  | Revise string json
  | Attach "string option \<Rightarrow> string \<Rightarrow> cexn + string \<times> string" string json
  | Import string string string "string option" string string json
  | Validate string "json option"
  | Accept string json
  | Revoke string json
  | Withdraw string json
  | Submit string json
  | Export string json
  | Redact string string json
  | Purge json

definition exec_call :: "world \<Rightarrow> string \<Rightarrow> correction_call \<Rightarrow> corr_store \<Rightarrow> corr_store" where
  "exec_call W now c s =
     (case c of
        Create G body uuid \<Rightarrow> fst (create_correction W G body uuid now s)
      | Revise p body \<Rightarrow> fst (revise_correction W p body now s)
      | Attach url p body \<Rightarrow> fst (attach_correction_evidence W url p body now s)
      | Import p url host revision raw display origin \<Rightarrow>
          fst (attach_evidence p url host revision raw (receipt_of raw display) (Some origin) now s)
      | Validate p current \<Rightarrow> fst (validate W p current now s)
      | Accept p body \<Rightarrow> fst (accept_local p body now s)
      | Revoke p body \<Rightarrow> fst (revoke_local p body now s)
      | Withdraw p body \<Rightarrow> fst (withdraw p body now s)
      | Submit p body \<Rightarrow> fst (mark_submitted p body now s)
      | Export p body \<Rightarrow> fst (export_correction W p body now s)
      | Redact p eid body \<Rightarrow> fst (redact_correction p eid body now s)
      | Purge body \<Rightarrow> fst (purge_corrections body s))"

end
