(* ===== verification/Correction_Lifecycle.thy ===== *)
theory Correction_Lifecycle
  imports Correction_Steps Correction_Routes
begin

text \<open>
  The lifecycle of a proposal, as its event log tells it, and the simulation: the row every
  operation writes is the replay of the log it appends to.
\<close>

section \<open>The abstract lifecycle\<close>

text \<open>
  What a log determines: the row, but for its head, and how many evidence items were attached and
  are still readable.
\<close>

record life =
  l_row :: proposal_row
  l_attached :: nat
  l_live :: nat

definition on_row :: "(proposal_row \<Rightarrow> proposal_row) \<Rightarrow> life \<Rightarrow> life" where
  "on_row f l = l\<lparr>l_row := f (l_row l)\<rparr>"

definition text_of :: "json \<Rightarrow> string" where
  "text_of v = (case v of JStr s \<Rightarrow> s | _ \<Rightarrow> [])"

definition parsed :: "string \<Rightarrow> json" where
  "parsed t = (case loads t of Some v \<Rightarrow> v | None \<Rightarrow> JNull)"

text \<open>The row a creation event describes.\<close>

definition born :: "string \<Rightarrow> string \<Rightarrow> json \<Rightarrow> proposal_row" where
  "born p now payload = draft_row p (text_of (jget payload ''license_namespace'')) (text_of (jget payload ''correction_type''))
     (jget payload ''target'') (case jget payload ''original'' of JNull \<Rightarrow> None | v \<Rightarrow> Some v) (jget payload ''proposed'')
     (case jget payload ''source_id'' of JStr src \<Rightarrow> Some src | _ \<Rightarrow> None) now"

definition blank_life :: life where
  "blank_life = \<lparr>l_row = draft_row [] [] [] JNull None JNull None [], l_attached = 0, l_live = 0\<rparr>"

definition reset :: "string \<Rightarrow> string \<Rightarrow> json \<Rightarrow> life \<Rightarrow> life" where
  "reset st level findings = on_row (\<lambda>r. r\<lparr>p_state := st, verification_level := level, validation_json := dumps findings,
     local_visibility := ''queue_only''\<rparr>)"

definition life_move :: "string \<Rightarrow> string \<Rightarrow> string \<Rightarrow> json \<Rightarrow> life \<Rightarrow> life" where
  "life_move p now etype payload l =
     (if etype = ''created'' then \<lparr>l_row = born p now payload, l_attached = 0, l_live = 0\<rparr>
      else if etype = ''draft_revised''
      then on_row (\<lambda>r. r\<lparr>proposed_json := dumps (jget payload ''proposed''),
               p_fingerprint := fingerprint (p_namespace r) (correction_type r) (parsed (target_json r)) (jget payload ''proposed'')\<rparr>)
             (reset (if l_attached l = 0 then ''draft'' else ''evidence_attached'') ''none'' no_findings l)
      else if etype \<in> {''evidence_attached'', ''evidence_imported_from_research''}
      then (reset ''evidence_attached'' ''none'' no_findings l)\<lparr>l_attached := Suc (l_attached l), l_live := Suc (l_live l)\<rparr>
      else if etype \<in> {''conflict_detected'', ''validation_passed'', ''validation_failed''}
      then reset (text_of (jget payload ''state'')) (text_of (jget payload ''verification_level''))
             (JObj [(''reason_codes'', jget payload ''reason_codes''), (''conflicts'', jget payload ''conflicts'')]) l
      else if etype = ''accepted_local''
      then on_row (\<lambda>r. r\<lparr>p_state := (if p_state r = ''validated_candidate'' then ''accepted_local'' else p_state r),
             local_visibility := ''local_annotation''\<rparr>) l
      else if etype = ''acceptance_revoked''
      then on_row (\<lambda>r. r\<lparr>p_state := (if p_state r = ''accepted_local'' then ''validated_candidate'' else p_state r),
             local_visibility := ''queue_only''\<rparr>) l
      else if etype = ''withdrawn'' then on_row (\<lambda>r. r\<lparr>p_state := ''withdrawn'', local_visibility := ''queue_only''\<rparr>) l
      else if etype = ''exported'' then on_row (\<lambda>r. r\<lparr>p_state := ''exported''\<rparr>) l
      else if etype = ''marked_submitted'' then on_row (\<lambda>r. r\<lparr>p_state := ''submitted''\<rparr>) l
      else if etype = ''evidence_redacted''
      then (reset (if l_live l = 1 then ''draft'' else ''evidence_attached'') ''none''
              (findings_json (if l_live l = 1 then [''source_url_and_captured_evidence_required''] else []) []) l)
             \<lparr>l_live := l_live l - 1\<rparr>
      else l)"

definition life_step :: "string \<Rightarrow> string \<Rightarrow> string \<Rightarrow> json \<Rightarrow> life \<Rightarrow> life" where
  "life_step p now etype payload l = on_row (\<lambda>r. r\<lparr>updated_at := now\<rparr>) (life_move p now etype payload l)"

definition payload_of :: "event_row \<Rightarrow> json" where
  "payload_of e = parsed (payload_json e)"

definition replay :: "event_row list \<Rightarrow> life" where
  "replay es = foldl (\<lambda>l e. life_step (e_proposal e) (recorded_at e) (event_type e) (payload_of e) l) blank_life es"

text \<open>What the tables say.\<close>

definition evidence_of :: "string \<Rightarrow> db \<Rightarrow> evidence_row list" where
  "evidence_of p d = filter (\<lambda>v. v_proposal v = p) (evidence d)"

definition life_of :: "db \<Rightarrow> proposal_row \<Rightarrow> life" where
  "life_of d r = \<lparr>l_row = r\<lparr>head_event_id := None\<rparr>,
     l_attached = length (evidence_of (proposal_id r) d),
     l_live = length (filter (\<lambda>v. \<not> redacted v) (evidence_of (proposal_id r) d))\<rparr>"

section \<open>What a row may say\<close>

definition approved :: "string list" where
  "approved = [''validated_candidate'', ''accepted_local'', ''exported'', ''submitted'']"

definition row_safe :: "catalog \<Rightarrow> proposal_row \<Rightarrow> bool" where
  "row_safe cat r \<longleftrightarrow>
     (p_state r = ''withdrawn'' \<or> p_state r \<in> set active_states) \<and>
     (local_visibility r = ''local_annotation'' \<longrightarrow> p_state r \<in> {''accepted_local'', ''exported'', ''submitted''}) \<and>
     (p_state r \<in> set approved \<longrightarrow>
        validation_json r = dumps no_findings \<and> verification_level r \<in> {''structural_only'', ''snapshot_verified''}) \<and>
     namespace_for cat (p_source r) = Inr (p_namespace r)"

definition life_but :: "catalog \<Rightarrow> string set \<Rightarrow> db \<Rightarrow> bool" where
  "life_but cat P d \<longleftrightarrow>
     distinct (map evidence_id (evidence d)) \<and>
     (\<forall>r \<in> set (proposals d). row_safe cat r \<and> (proposal_id r \<notin> P \<longrightarrow> life_of d r = replay (mine (proposal_id r) d)))"

definition life_ok :: "catalog \<Rightarrow> db \<Rightarrow> bool" where
  "life_ok cat d \<longleftrightarrow>
     distinct (map evidence_id (evidence d)) \<and>
     (\<forall>r \<in> set (proposals d). row_safe cat r \<and> life_of d r = replay (mine (proposal_id r) d))"

text \<open>
  The frame of every transaction on a proposal: the row changes by \<open>f\<close>, an event is appended
  and moves the head, the row changes by \<open>g\<close>; the evidence of other proposals stays.
\<close>

lemma replay_snoc:
  "replay (es @ [e]) = life_step (e_proposal e) (recorded_at e) (event_type e) (payload_of e) (replay es)"
  by (simp add: replay_def)

lemma payload_next: "wf_obj payload \<Longrightarrow> payload_of (next_event p etype payload now es) = normalise payload"
  by (simp add: payload_of_def parsed_def next_event_def new_event_def Let_def wf_obj_def loads_dumps)

lemma type_next:
  "event_type (next_event p etype payload now es) = etype" "e_proposal (next_event p etype payload now es) = p"
  "recorded_at (next_event p etype payload now es) = now"
  by (simp_all add: next_event_def new_event_def Let_def)

definition same_tables :: "string \<Rightarrow> db \<Rightarrow> db \<Rightarrow> bool" where
  "same_tables p d e \<longleftrightarrow> proposals e = proposals d \<and> proposal_events e = proposal_events d \<and>
     (\<forall>q. q \<noteq> p \<longrightarrow> evidence_of q e = evidence_of q d) \<and>
     (distinct (map evidence_id (evidence d)) \<longrightarrow> distinct (map evidence_id (evidence e)))"

lemma same_tables_refl [simp]: "same_tables p d d"
  by (simp add: same_tables_def)

lemma life_transaction:
  assumes "append_event p etype payload now (update_proposal p f e) = Inr d1" "same_tables p d e" "chains_ok d"
    "wf_obj payload" "life_but cat {p} d"
    "\<And>r. proposal_id (f r) = proposal_id r" "\<And>r. proposal_id (g r) = proposal_id r"
    "\<And>r h. r \<in> set (proposals d) \<Longrightarrow> proposal_id r = p \<Longrightarrow> row_safe cat r \<Longrightarrow>
       row_safe cat (g ((f r)\<lparr>head_event_id := h, updated_at := now\<rparr>)) \<and>
       life_of e (g ((f r)\<lparr>head_event_id := h, updated_at := now\<rparr>)) = life_step p now etype (normalise payload) (replay (mine p d))"
  shows "life_ok cat (update_proposal p g d1)"
proof -
  let ?E = "update_proposal p f e"
  have t: "proposals e = proposals d" "proposal_events e = proposal_events d" using assms(2) by (simp_all add: same_tables_def)
  have m: "mine q e = mine q d" for q using t by (simp add: mine_def)
  have c: "chains_ok ?E" using assms(3) by (simp add: chains_ok_def m)
  define n where "n = next_event p etype payload now (mine p d)"
  have n: "event_type n = etype" "payload_of n = normalise payload" "e_proposal n = p" "recorded_at n = now"
    by (simp_all add: n_def payload_next[OF assms(4)] type_next)
  have d1: "d1 = head_moved p (event_id n) now (?E\<lparr>proposal_events := proposal_events ?E @ [n]\<rparr>)"
    using append_event_Inr[OF assms(1) c] by (simp add: m n_def)
  have mine1: "mine q d1 = mine q d @ (if q = p then [n] else [])" for q
    using mine_append[of q ?E p etype payload now "mine p d"] by (simp add: d1 head_moved_def m n_def)
  have ev: "evidence d1 = evidence e" by (simp add: d1 head_moved_def)
  have life1: "life_of (update_proposal p g d1) r = life_of e r" for r by (simp add: life_of_def evidence_of_def ev)
  have rows: "proposals (update_proposal p g d1) =
      map (\<lambda>r. if proposal_id r = p then g ((f r)\<lparr>head_event_id := Some (event_id n), updated_at := now\<rparr>) else r) (proposals d)"
    using assms(6) by (simp add: d1 head_moved_def update_proposal_def t)
  have "row_safe cat x \<and> life_of e x = replay (mine (proposal_id x) d @ (if proposal_id x = p then [n] else []))"
    if x: "x \<in> set (proposals (update_proposal p g d1))" for x
  proof -
    obtain r where r: "r \<in> set (proposals d)"
      "x = (if proposal_id r = p then g ((f r)\<lparr>head_event_id := Some (event_id n), updated_at := now\<rparr>) else r)"
      using x unfolding rows by auto
    have ok: "row_safe cat r" "proposal_id r \<noteq> p \<Longrightarrow> life_of d r = replay (mine (proposal_id r) d)"
      using assms(5) r(1) by (simp_all add: life_but_def)
    show ?thesis
    proof (cases "proposal_id r = p")
      case True
      then have "proposal_id x = p" using r(2) assms(6,7) by simp
      then show ?thesis
        using assms(8)[OF r(1) True ok(1), of "Some (event_id n)"] r(2) True by (simp add: replay_snoc n)
    next
      case False
      then show ?thesis using ok(1) ok(2)[OF False] r(2) assms(2) by (simp add: same_tables_def life_of_def)
    qed
  qed
  moreover have "distinct (map evidence_id (evidence d1))" using assms(2,5) by (simp add: same_tables_def life_but_def ev)
  ultimately show ?thesis by (simp add: life_ok_def life1 mine1)
qed

lemma update_id [simp]: "update_proposal p (\<lambda>r. r) d = d"
  by (simp add: update_proposal_def)

text \<open>The frame without a later change of the row, for the transactions that append last.\<close>

lemma life_okD: "life_ok cat d \<Longrightarrow> r \<in> set (proposals d) \<Longrightarrow> replay (mine (proposal_id r) d) = life_of d r"
  by (simp add: life_ok_def)

lemma life_but_ok: "life_ok cat d \<Longrightarrow> life_but cat P d"
  by (simp add: life_ok_def life_but_def)

lemma life_append:
  assumes "append_event p etype payload now (update_proposal p f e) = Inr d1" "same_tables p d e" "chains_ok d"
    "wf_obj payload" "life_ok cat d" "\<And>r. proposal_id (f r) = proposal_id r"
    "\<And>r h. r \<in> set (proposals d) \<Longrightarrow> proposal_id r = p \<Longrightarrow> row_safe cat r \<Longrightarrow>
       row_safe cat ((f r)\<lparr>head_event_id := h, updated_at := now\<rparr>) \<and>
       life_of e ((f r)\<lparr>head_event_id := h, updated_at := now\<rparr>) = life_step p now etype (normalise payload) (life_of d r)"
  shows "life_ok cat d1"
  using life_transaction[OF assms(1-4) life_but_ok[OF assms(5)] assms(6), of "\<lambda>r. r"] assms(7) life_okD[OF assms(5)] by fastforce

lemma row_safe_simps [simp]:
  "row_safe cat (r\<lparr>head_event_id := h, updated_at := now\<rparr>) = row_safe cat r"
  "life_of d (r\<lparr>head_event_id := h, updated_at := now\<rparr>) = on_row (\<lambda>r. r\<lparr>updated_at := now\<rparr>) (life_of d r)"
  by (simp_all add: row_safe_def life_of_def on_row_def)

lemma same_row: "distinct (ids d) \<Longrightarrow> r \<in> set (proposals d) \<Longrightarrow> x \<in> set (proposals d) \<Longrightarrow> proposal_id x = proposal_id r \<Longrightarrow> x = r"
  by (auto simp: ids_def distinct_map inj_on_def)

lemma db_ok_parts: "db_ok ns R d \<Longrightarrow> chains_ok d \<and> distinct (ids d)"
  by (simp add: db_ok_def rows_ok_def)

section \<open>The transactions\<close>

text \<open>A transaction keeps the lifecycle of a database that has the store's invariant.\<close>

definition live_work :: "catalog \<Rightarrow> (proposal_row \<Rightarrow> db \<Rightarrow> cexn + db) \<Rightarrow> (proposal_row \<Rightarrow> bool) \<Rightarrow> bool" where
  "live_work cat work pre \<longleftrightarrow>
     (\<forall>ns R d r d'. db_ok ns R d \<longrightarrow> life_ok cat d \<longrightarrow> r \<in> set (proposals d) \<longrightarrow> pre r \<longrightarrow> work r d = Inr d' \<longrightarrow> life_ok cat d')"

lemma live_workI:
  "(\<And>ns R d r d'. work r d = Inr d' \<Longrightarrow> db_ok ns R d \<Longrightarrow> life_ok cat d \<Longrightarrow> r \<in> set (proposals d) \<Longrightarrow> pre r \<Longrightarrow> life_ok cat d')
   \<Longrightarrow> live_work cat work pre"
  by (auto simp: live_work_def)

lemma life_step_plain:
  "life_move p now ''created'' pl l = \<lparr>l_row = born p now pl, l_attached = 0, l_live = 0\<rparr>"
  "life_move p now ''draft_revised'' pl l = on_row (\<lambda>r. r\<lparr>proposed_json := dumps (jget pl ''proposed''),
       p_fingerprint := fingerprint (p_namespace r) (correction_type r) (parsed (target_json r)) (jget pl ''proposed'')\<rparr>)
     (reset (if l_attached l = 0 then ''draft'' else ''evidence_attached'') ''none'' no_findings l)"
  "life_move p now ''accepted_local'' pl l = on_row (\<lambda>r. r\<lparr>p_state := (if p_state r = ''validated_candidate'' then ''accepted_local'' else p_state r),
     local_visibility := ''local_annotation''\<rparr>) l"
  "life_move p now ''acceptance_revoked'' pl l = on_row (\<lambda>r. r\<lparr>p_state := (if p_state r = ''accepted_local'' then ''validated_candidate'' else p_state r),
     local_visibility := ''queue_only''\<rparr>) l"
  "life_move p now ''withdrawn'' pl l = on_row (\<lambda>r. r\<lparr>p_state := ''withdrawn'', local_visibility := ''queue_only''\<rparr>) l"
  "life_move p now ''exported'' pl l = on_row (\<lambda>r. r\<lparr>p_state := ''exported''\<rparr>) l"
  "life_move p now ''marked_submitted'' pl l = on_row (\<lambda>r. r\<lparr>p_state := ''submitted''\<rparr>) l"
  "life_move p now ''evidence_redacted'' pl l =
     (reset (if l_live l = 1 then ''draft'' else ''evidence_attached'') ''none''
        (findings_json (if l_live l = 1 then [''source_url_and_captured_evidence_required''] else []) []) l)\<lparr>l_live := l_live l - 1\<rparr>"
  by (simp_all add: life_move_def)

lemma life_step_attach:
  "life_move p now (if b then ''evidence_attached'' else ''evidence_imported_from_research'') pl l =
     (reset ''evidence_attached'' ''none'' no_findings l)\<lparr>l_attached := Suc (l_attached l), l_live := Suc (l_live l)\<rparr>"
  by (cases b) (simp_all add: life_move_def)

lemma life_step_validation:
  "life_move p now (validation_event st) pl l =
     reset (text_of (jget pl ''state'')) (text_of (jget pl ''verification_level''))
       (JObj [(''reason_codes'', jget pl ''reason_codes''), (''conflicts'', jget pl ''conflicts'')]) l"
proof -
  have "validation_event st \<in> {''conflict_detected'', ''validation_passed'', ''validation_failed''}"
    by (simp add: validation_event_def)
  then show ?thesis by (elim insertE) (simp_all add: life_move_def)
qed

lemmas life_step_simps = life_step_def life_step_plain life_step_attach life_step_validation

text \<open>A row that is only queued and not approved is safe.\<close>

lemma row_safe_queued:
  assumes "row_safe cat r" "local_visibility x = ''queue_only''" "p_source x = p_source r" "p_namespace x = p_namespace r"
    "p_state x \<in> {''draft'', ''evidence_attached'', ''conflict'', ''withdrawn''}"
  shows "row_safe cat x"
proof -
  have "namespace_for cat (p_source x) = Inr (p_namespace x)" using assms(1,3,4) by (simp add: row_safe_def)
  moreover have "p_state x = ''withdrawn'' \<or> p_state x \<in> set active_states" "p_state x \<notin> set approved"
    using assms(5) by (auto simp: active_states_def approved_def)
  ultimately show ?thesis using assms(2) by (simp add: row_safe_def)
qed

lemma sort_key_Nil [simp]: "sort_key f xs = [] \<longleftrightarrow> xs = []"
  by (metis length_0_conv length_sort)

lemmas life_simps = life_of_def life_step_simps reset_def on_row_def text_of_def

lemma fingerprint_normal: "fingerprint ns ctype tgt (normalise v) = fingerprint ns ctype tgt v"
  by (simp add: fingerprint_def fingerprint_json_def dumps_def)

lemma revise_live: "wf_obj prop \<Longrightarrow> live_work cat (revise_work prop now) (\<lambda>r. True)"
proof (rule live_workI)
  fix ns R d r d'
  assume a: "wf_obj prop" "revise_work prop now r d = Inr d'" "db_ok ns R d" "life_ok cat d" "r \<in> set (proposals d)"
  let ?st = "if evidence_rows d (proposal_id r) \<noteq> [] then ''evidence_attached'' else ''draft''"
  define pl where "pl = JObj [(''proposed'', prop), (''validation_reset'', JBool True)]"
  have "\<exists>tgt. decode (Some (target_json r)) = Inr tgt"
  proof (cases "decode (Some (target_json r))")
    case (Inl e)
    then show ?thesis using a(2) by (simp add: revise_work_def)
  qed blast
  then obtain tgt where t: "decode (Some (target_json r)) = Inr tgt" by blast
  note ap = a(2)[unfolded revise_work_def t bindE_simps Let_def, folded pl_def]
  have w: "wf_obj pl" using a(1) by (simp add: pl_def)
  have n: "evidence_rows d q = [] \<longleftrightarrow> evidence_of q d = []" for q
    by (simp add: evidence_of_def evidence_rows_def)
  have g: "jget (normalise pl) ''proposed'' = normalise prop"
    using jget_normal[of pl] w by (simp add: wf_obj_def pl_def jget_obj)
  have pt: "parsed (target_json r) = tgt" using t by (simp add: decode_def parsed_def split: option.splits)
  have u: "x = r" if "x \<in> set (proposals d)" "proposal_id x = proposal_id r" for x
    using same_row[OF _ a(5) that] db_ok_parts[OF a(3)] by blast
  show "life_ok cat d'"
    by (rule life_append[OF ap same_tables_refl _ w a(4)])
      (use db_ok_parts[OF a(3)] in \<open>auto simp: life_simps n row_safe_queued g fingerprint_normal pt dest: u\<close>)
qed

lemma filter_own:
  "(\<And>v. v_proposal (f v) = v_proposal v) \<Longrightarrow>
   filter (\<lambda>v. v_proposal v = q) (map (\<lambda>v. if v_proposal v = p then f v else v) vs) =
     (if q = p then map f (filter (\<lambda>v. v_proposal v = q) vs) else filter (\<lambda>v. v_proposal v = q) vs)"
  by (induction vs) auto

lemma evidence_of_mark:
  "evidence_of q (mark_snapshots p is d) =
     (if q = p then map (\<lambda>v. v\<lparr>snapshot_verified := evidence_id v \<in> set is\<rparr>) (evidence_of q d) else evidence_of q d)"
  unfolding evidence_of_def mark_snapshots_def by (simp add: filter_own)

lemma ids_mark: "map evidence_id (evidence (mark_snapshots p is d)) = map evidence_id (evidence d)"
  by (simp add: mark_snapshots_def comp_def)

lemma insert_keys: "insert_evidence v d = Inr d' \<Longrightarrow> evidence_id v \<notin> evidence_id ` set (evidence d)"
  by (auto simp: insert_evidence_def split: if_splits)

lemma validation_live:
  assumes "list_all wf_json conflicts"
    "st = ''validated_candidate'' \<Longrightarrow> reasons = [] \<and> conflicts = [] \<and> level \<in> {''structural_only'', ''snapshot_verified''}"
    "st \<in> {''validated_candidate'', ''conflict'', ''evidence_attached''}"
  shows "live_work cat (validation_work st level reasons conflicts is now) (\<lambda>r. True)"
proof (rule live_workI)
  fix ns R d r d'
  assume a: "validation_work st level reasons conflicts is now r d = Inr d'" "db_ok ns R d" "life_ok cat d"
  define pl where "pl = JObj [(''state'', JStr st), (''verification_level'', JStr level),
              (''reason_codes'', JArr (map JStr reasons)), (''conflicts'', JArr conflicts)]"
  have w: "wf_obj pl" using assms(1) by (simp add: pl_def)
  have g: "jget (normalise pl) ''state'' = JStr st" "jget (normalise pl) ''verification_level'' = JStr level"
      "jget (normalise pl) ''reason_codes'' = normalise (JArr (map JStr reasons))" "jget (normalise pl) ''conflicts'' = normalise (JArr conflicts)"
    using jget_normal[of pl] w by (simp_all add: wf_obj_def pl_def jget_obj)
  have j: "dumps (JObj [(''reason_codes'', normalise (JArr (map JStr reasons))), (''conflicts'', normalise (JArr conflicts))])
      = dumps (findings_json reasons conflicts)"
    by (simp add: findings_json_def dumps_def)
  have s: "same_tables (proposal_id r) d (mark_snapshots (proposal_id r) is d)"
    by (simp add: same_tables_def evidence_of_mark ids_mark)
  have l: "length (evidence_of p (mark_snapshots p is d)) = length (evidence_of p d)"
    "length (filter (\<lambda>v. \<not> redacted v) (evidence_of p (mark_snapshots p is d))) = length (filter (\<lambda>v. \<not> redacted v) (evidence_of p d))" for p
    by (simp_all add: evidence_of_mark filter_map comp_def)
  have safe: "row_safe cat (x\<lparr>p_state := st, verification_level := level,
      validation_json := dumps (findings_json reasons conflicts), local_visibility := ''queue_only''\<rparr>)" if "row_safe cat x" for x
  proof (cases "st = ''validated_candidate''")
    case True
    then have "reasons = []" "conflicts = []" "level \<in> {''structural_only'', ''snapshot_verified''}" using assms(2) by simp_all
    then show ?thesis using that True
      by (simp add: row_safe_def approved_def active_states_def findings_json_def no_findings_def)
  next
    case False
    then show ?thesis using assms(3) by (intro row_safe_queued[OF that]) auto
  qed
  show "life_ok cat d'"
    by (rule life_append[OF a(1)[unfolded validation_work_def, folded pl_def] s _ w a(3)])
      (use db_ok_parts[OF a(2)] in \<open>simp_all add: life_simps g[unfolded normalise.simps] j[unfolded normalise.simps] l safe\<close>)
qed

definition visibility_after :: "string option \<Rightarrow> proposal_row \<Rightarrow> string" where
  "visibility_after vis r = (case vis of Some v \<Rightarrow> v | None \<Rightarrow> local_visibility r)"

lemma transition_live:
  assumes "wf_obj payload"
    "\<And>x. pre x \<Longrightarrow> row_safe cat x \<Longrightarrow> row_safe cat (x\<lparr>p_state := st, local_visibility := visibility_after vis x\<rparr>)"
    "\<And>x d pl p. pre x \<Longrightarrow> life_move p now etype pl (life_of d x) =
       on_row (\<lambda>r. r\<lparr>p_state := st, local_visibility := visibility_after vis x\<rparr>) (life_of d x)"
  shows "live_work cat (transition_work st etype payload vis now) pre"
proof (rule live_workI)
  fix ns R d r d'
  assume a: "transition_work st etype payload vis now r d = Inr d'" "db_ok ns R d" "life_ok cat d" "r \<in> set (proposals d)" "pre r"
  show "life_ok cat d'"
  proof (rule life_append[OF a(1)[unfolded transition_work_def, folded visibility_after_def] same_tables_refl _ assms(1) a(3)])
    fix x h
    assume x: "x \<in> set (proposals d)" "proposal_id x = proposal_id r" "row_safe cat x"
    have "x = r" using same_row[OF _ a(4) x(1,2)] db_ok_parts[OF a(2)] by blast
    then show "row_safe cat (x\<lparr>p_state := st, local_visibility := visibility_after vis r\<rparr>\<lparr>head_event_id := h, updated_at := now\<rparr>) \<and>
        life_of d (x\<lparr>p_state := st, local_visibility := visibility_after vis r\<rparr>\<lparr>head_event_id := h, updated_at := now\<rparr>) =
        life_step (proposal_id r) now etype (normalise payload) (life_of d x)"
      using assms(2)[OF a(5)] assms(3)[OF a(5)] x(3) by (simp add: life_step_def) (simp add: life_of_def on_row_def)
  qed (use db_ok_parts[OF a(2)] in simp_all)
qed

lemma attach_live:
  assumes "attach_work ns url host revision rc origin now r d = Inr d'" "db_ok ns R d" "life_ok cat d" "\<And>v. origin = Some v \<Longrightarrow> wf_json v"
  shows "life_ok cat d'"
proof -
  let ?v = "new_evidence (proposal_id r) ns url host revision rc now r"
  define pl where "pl = attach_payload (evidence_hash (proposal_id r) url (r_raw_sha rc)) url rc origin"
  obtain e where e: "insert_evidence ?v d = Inr e"
     "append_event (proposal_id r) (if origin = None then ''evidence_attached'' else ''evidence_imported_from_research'') pl now
       (update_proposal (proposal_id r) (\<lambda>x. x\<lparr>p_state := ''evidence_attached'', verification_level := ''none'',
          validation_json := dumps no_findings, local_visibility := ''queue_only''\<rparr>) e) = Inr d'"
    using assms(1) unfolding attach_work_def bindE_Inr pl_def by blast
  have e': "e = d\<lparr>evidence := evidence d @ [?v]\<rparr>" using e(1) by (simp add: insert_evidence_def split: if_splits)
  have v: "v_proposal ?v = proposal_id r" "\<not> redacted ?v" by (simp_all add: new_evidence_def)
  have ev: "evidence_of q e = evidence_of q d @ (if q = proposal_id r then [?v] else [])" for q
    using v(1) by (simp add: e' evidence_of_def)
  have s: "same_tables (proposal_id r) d e"
    using insert_keys[OF e(1)] by (simp add: same_tables_def ev) (simp add: e')
  have w: "wf_obj pl" unfolding pl_def by (rule attach_payload_wf[OF assms(4)])
  show ?thesis
    by (rule life_append[OF e(2) s _ w assms(3)])
      (use db_ok_parts[OF assms(2)] v in \<open>simp_all add: life_simps row_safe_queued ev\<close>)
qed

lemma fingerprint_target: "fingerprint ns ctype (normalise t) v = fingerprint ns ctype t v"
  by (simp add: fingerprint_def fingerprint_json_def dumps_def)

text \<open>The creation event describes the row that was inserted.\<close>

lemma born_created:
  assumes "create_args tgt orig prop"
  shows "born p now (normalise (created_payload ns ctype tgt orig prop src)) = draft_row p ns ctype tgt orig prop src now"
proof -
  let ?pl = "created_payload ns ctype tgt orig prop src"
  have "wf_obj ?pl" using assms by (intro created_payload_wf) (auto simp: create_args_def)
  then have g: "jget (normalise ?pl) k = normalise (jget ?pl k)" for k by (simp add: wf_obj_def jget_normal)
  have o: "(case normalise v of JNull \<Rightarrow> None | w \<Rightarrow> Some w) = Some (normalise v)" if "wf_obj v" for v
    using that by (cases v) (simp_all add: wf_obj_def is_obj_def)
  have f: "jget ?pl ''license_namespace'' = JStr ns" "jget ?pl ''correction_type'' = JStr ctype" "jget ?pl ''target'' = tgt"
      "jget ?pl ''original'' = (case orig of None \<Rightarrow> JNull | Some v \<Rightarrow> v)" "jget ?pl ''proposed'' = prop"
      "jget ?pl ''source_id'' = opt_json src"
    by (simp_all add: created_payload_def jget_obj)
  show ?thesis
    unfolding born_def g f using assms o
    by (cases orig; cases src)
      (simp_all add: text_of_def opt_json_def draft_row_def fingerprint_normal fingerprint_target create_args_def)
qed

lemma create_live:
  assumes "create_in ns ctype tgt orig prop src uuid now d = Inr d'" "db_ok ns R d" "create_args tgt orig prop"
    "life_ok cat d" "namespace_for cat src = Inr ns"
  shows "life_ok cat d'"
proof -
  have a: "wf_obj tgt" "wf_obj prop" "\<And>v. orig = Some v \<Longrightarrow> wf_obj v" using assms(3) by (auto simp: create_args_def)
  let ?p = "''cp_'' @ uuid"
  define pl where "pl = created_payload ns ctype tgt orig prop src"
  define r where "r = draft_row ?p ns ctype tgt orig prop src now"
  have w: "wf_obj pl" unfolding pl_def by (rule created_payload_wf[OF a])
  have rr: "proposal_id r = ?p" "head_event_id r = None" "row_ok ns r"
    using draft_row_ok[OF a] by (simp_all add: r_def) (simp_all add: draft_row_def)
  obtain d1 where d1: "insert_proposal r d = Inr d1" "append_event ?p ''created'' pl now d1 = Inr d'"
    using assms(1) unfolding create_in_def bindE_Inr pl_def r_def by blast
  have ins: "db_ok ns R d1" "d1 = d\<lparr>proposals := proposals d @ [r]\<rparr>" "?p \<notin> set (ids d)"
    using insert_proposal_ok[OF d1(1) assms(2) rr(3,2)] rr(1) by auto
  have m: "mine q d1 = mine q d" "evidence_of q d1 = evidence_of q d" for q by (simp_all add: ins(2) mine_def evidence_of_def)
  have none: "mine ?p d = []" "evidence_of ?p d = []"
    using no_mine[OF assms(2) ins(3)] assms(2) ins(3)
    by (auto simp: db_ok_def foreign_keys_ids evidence_of_def filter_empty_conv)
  have new: "row_safe cat r"
    using assms(5) by (simp add: r_def draft_row_def row_safe_def active_states_def approved_def)
  have "life_but cat {?p} d1"
    using assms(4) new rr(1) by (auto simp: life_ok_def life_but_def ins(2) life_of_def[of d] life_of_def[of "d\<lparr>proposals := _\<rparr>"] m[unfolded ins(2)])
  moreover have "append_event ?p ''created'' pl now (update_proposal ?p (\<lambda>r. r) d1) = Inr d'" using d1(2) by simp
  moreover have "x = r" if "x \<in> set (proposals d1)" "proposal_id x = ?p" for x
    using that ins(2,3) by (auto simp: ids_def) (metis image_eqI)
  moreover have "life_of d1 (r\<lparr>head_event_id := h, updated_at := now\<rparr>) = life_step ?p now ''created'' (normalise pl) l" for h l
    using none(2) rr(1) born_created[OF assms(3), of ?p now ns ctype src]
    by (simp add: life_step_simps life_of_def on_row_def m) (simp add: r_def pl_def draft_row_def)
  ultimately show ?thesis
    using life_transaction[of ?p "''created''" pl now "\<lambda>r. r" d1 d' d1 cat "\<lambda>r. r"] w db_ok_parts[OF ins(1)] new by fastforce
qed

lemma evidence_of_redact:
  "evidence_of q (redact_rows p eid d) = map (redact_row eid) (evidence_of q (mark_snapshots p [] d))"
proof -
  have "v_proposal (redact_row eid v) = v_proposal v" for v by (simp add: redact_row_def)
  then show ?thesis by (simp add: evidence_of_def filter_map comp_def)
qed

text \<open>Redacting one live row of a list with distinct ids leaves one live row less.\<close>

lemma live_after_redact:
  assumes "distinct (map evidence_id vs)" "v \<in> set vs" "\<not> redacted v"
  shows "length (filter (\<lambda>x. \<not> redacted x) (map (redact_row (evidence_id v)) vs)) = length (filter (\<lambda>x. \<not> redacted x) vs) - 1
    \<and> 0 < length (filter (\<lambda>x. \<not> redacted x) vs)"
  using assms
proof (induction vs)
  case (Cons x vs)
  show ?case
  proof (cases "evidence_id x = evidence_id v")
    case True
    then have x: "x = v" and none: "\<forall>y \<in> set vs. evidence_id y \<noteq> evidence_id v"
      using Cons.prems by (auto simp: image_iff)
    have "map (redact_row (evidence_id v)) vs = vs" using none by (intro map_idI) (simp add: redact_row_def)
    then have m: "map (redact_row (evidence_id v)) (x # vs) = v\<lparr>redacted := True, sanitized_text := []\<rparr> # vs"
      by (simp add: x redact_row_def[of _ v])
    show ?thesis unfolding m using Cons.prems(3) x by simp
  next
    case False
    then show ?thesis using Cons by (auto simp: redact_row_def)
  qed
qed simp

lemma redact_live:
  assumes "redact_work p v now d = Inr d'" "db_ok ns R d" "life_ok cat d" "v \<in> set (evidence d)" "v_proposal v = p" "\<not> redacted v"
  shows "life_ok cat d'"
proof -
  define pl where "pl = JObj [(''evidence_id'', JStr (evidence_id v)), (''raw_sha256'', JStr (raw_sha v))]"
  define e where "e = redact_rows p (evidence_id v) d"
  obtain d1 where d1: "append_event p ''evidence_redacted'' pl now (update_proposal p (\<lambda>r. r) e) = Inr d1" "d' = redact_state p d1"
    using assms(1) by (auto simp: redact_work_def bindE_Inr pl_def e_def)
  have w: "wf_obj pl" by (simp add: pl_def)
  have dist: "distinct (map evidence_id (evidence d))" using assms(3) by (simp add: life_ok_def)
  then have mine_dist: "distinct (map evidence_id (evidence_of p (mark_snapshots p [] d)))"
    using ids_mark[of p "[]" d] by (simp add: evidence_of_def distinct_map_filter)
  have e_ids: "map evidence_id (evidence e) = map evidence_id (evidence d)"
  proof -
    have "evidence_id (redact_row i x) = evidence_id x" for i x by (simp add: redact_row_def)
    then show ?thesis using ids_mark[of p "[]" d] by (simp add: e_def comp_def)
  qed
  have other: "evidence_of q e = evidence_of q d" if q: "q \<noteq> p" for q
  proof -
    have "evidence_id x \<noteq> evidence_id v" if "x \<in> set (evidence_of q d)" for x
      using that dist assms(4,5) q by (auto simp: evidence_of_def distinct_map inj_on_def)
    then show ?thesis using q by (simp add: e_def evidence_of_redact evidence_of_mark map_idI redact_row_def)
  qed
  have s: "same_tables p d e" using dist e_ids other by (simp add: same_tables_def) (simp add: e_def)
  let ?m = "\<lambda>x. x\<lparr>snapshot_verified := False\<rparr>"
  have v': "?m v \<in> set (evidence_of p (mark_snapshots p [] d))" "\<not> redacted (?m v)"
    using assms(4-6) unfolding evidence_of_mark by (auto simp: evidence_of_def)
  have live: "length (filter (\<lambda>x. \<not> redacted x) (evidence_of p e)) = length (filter (\<lambda>x. \<not> redacted x) (evidence_of p d)) - 1"
      "0 < length (filter (\<lambda>x. \<not> redacted x) (evidence_of p d))"
    using live_after_redact[OF mine_dist v'] by (simp_all add: e_def evidence_of_redact evidence_of_mark filter_map comp_def)
  have n: "length (evidence_of p e) = length (evidence_of p d)" by (simp add: e_def evidence_of_redact evidence_of_mark)
  have ev: "evidence d1 = evidence e"
    using append_event_Inr[OF d1(1)] db_ok_parts[OF assms(2)] by (simp add: e_def chains_ok_def head_moved_def)
  have rem: "filter (\<lambda>x. v_proposal x = p \<and> \<not> redacted x) (evidence d1) = filter (\<lambda>x. \<not> redacted x) (evidence_of p e)"
    by (simp add: ev evidence_of_def)
  define rest where "rest = filter (\<lambda>x. \<not> redacted x) (evidence_of p e)"
  have d': "d' = update_proposal p (\<lambda>x. x\<lparr>p_state := (if rest = [] then ''draft'' else ''evidence_attached''),
           verification_level := ''none'',
           validation_json := dumps (findings_json (if rest = [] then [''source_url_and_captured_evidence_required''] else []) []),
           local_visibility := ''queue_only''\<rparr>) d1"
    by (simp add: d1(2) redact_state_def Let_def rem rest_def)
  have one: "rest = [] \<longleftrightarrow> length (filter (\<lambda>x. \<not> redacted x) (evidence_of p d)) = 1"
    using live unfolding rest_def by (metis One_nat_def Suc_pred diff_is_0_eq' le_numeral_extra(4) length_0_conv)
  have d'_ok: "life_of e (x\<lparr>head_event_id := h, updated_at := now\<rparr>\<lparr>p_state := (if rest = [] then ''draft'' else ''evidence_attached''),
           verification_level := ''none'',
           validation_json := dumps (findings_json (if rest = [] then [''source_url_and_captured_evidence_required''] else []) []),
           local_visibility := ''queue_only''\<rparr>) = life_step p now ''evidence_redacted'' (normalise pl) (life_of d x)"
    if "proposal_id x = p" for x h
    using one n live that unfolding rest_def by (simp add: life_simps)
  show ?thesis
    unfolding d'
    by (rule life_transaction[OF d1(1) s _ w life_but_ok[OF assms(3)]])
      (use db_ok_parts[OF assms(2)] d'_ok life_okD[OF assms(3)] in \<open>auto intro: row_safe_queued\<close>)
qed

end
