(* ===== verification/Correction_Safety.thy ===== *)
theory Correction_Safety
  imports Correction_Lifecycle
begin

text \<open>The calls of the app on the correction store: one invariant, kept by any run of them.\<close>

section \<open>What the calls pass on\<close>

lemma normalize_wf:
  "normalize_proposed T n v = Inr w \<Longrightarrow> wf_json v \<Longrightarrow> wf_json w \<and> (is_obj v \<longrightarrow> is_obj w)"
  "normalize_items T n vs = Inr ws \<Longrightarrow> wf_items vs \<Longrightarrow> wf_items ws"
  "normalize_members T n kvs = Inr kws \<Longrightarrow> wf_members kvs \<Longrightarrow> wf_members kws \<and> dict_keys kws = dict_keys kvs"
proof (induction T n v and T n vs and T n kvs arbitrary: w and ws and kws
    rule: normalize_proposed_normalize_items_normalize_members.induct)
  case (1 T n v)
  then show ?case
    by (cases v) (auto simp: refuse_def bindE_Inr dict_ok_def is_obj_def split: if_splits)
next
  case (3 T n v vs)
  then show ?case by (auto simp: bindE_Inr)
next
  case (5 T n k v kvs)
  then show ?case by (auto simp: bindE_Inr)
qed simp_all

lemma wf_or: "wf_json v \<Longrightarrow> wf_json w \<Longrightarrow> wf_json (py_or v w)"
  by (simp add: py_or_def)

lemma wf_none [simp]: "wf_json (JObj [])"
  by (simp add: dict_ok_def)

lemma derive_wf:
  assumes "derive_original ctype (Some m) = Inr (Some x)" "wf_json m"
  shows "wf_obj x"
proof -
  show ?thesis
    using assms unfolding derive_original_def Let_def
    by (auto simp: refuse_def wf_obj_def dict_ok_def split: if_splits intro!: wf_or wf_jget)
qed

lemma derive_None: "derive_original ctype None = Inr x \<Longrightarrow> x = None"
  by (simp add: derive_original_def refuse_def split: if_splits)

lemma derive_Some_or_None: "derive_original ctype (Some m) = Inr None \<Longrightarrow> ctype = ''missing_fixture''"
  by (simp add: derive_original_def refuse_def Let_def split: if_splits)

text \<open>What a stable generation gives: well-formed values.\<close>

definition generation_ok :: "stable_generation \<Rightarrow> bool" where
  "generation_ok G \<longleftrightarrow> wf_json (g_id G) \<and> wf_json (g_index G) \<and> (\<forall>m x. g_match G m = Some x \<longrightarrow> wf_json x)"

lemma target_wf:
  "generation_ok G \<Longrightarrow> wf_json prop \<Longrightarrow> wf_obj (target_of ctype mid prop (match_for G mid) (g_id G) (g_index G))"
  by (auto simp: generation_ok_def target_of_def wf_obj_def dict_ok_def match_for_def wf_jget split: json.splits option.splits)

section \<open>The invariant\<close>

definition corr_ok :: "catalog \<Rightarrow> string set \<Rightarrow> corr_store \<Rightarrow> bool" where
  "corr_ok cat K s \<longleftrightarrow> store_ok s \<and> captured_in K s \<and>
     (\<forall>ns d. dict_get (databases s) ns = Some (Db_file 1 True d) \<longrightarrow> life_ok cat d)"

lemma life_ok_empty [simp]: "life_ok cat empty_db"
  by (simp add: life_ok_def empty_db_def)

lemma corr_ok_empty [simp]: "corr_ok cat K empty_store"
  by (simp add: corr_ok_def captured_in_def) (simp add: empty_store_def)

lemma connect_life:
  assumes "corr_ok cat K s" "connect s ns c = Inr (Some d)"
  shows "life_ok cat d"
proof (cases "dict_get (databases s) ns")
  case None
  then show ?thesis using assms(2) by (simp add: connect_def split: if_splits)
next
  case (Some f)
  then obtain e where e: "f = Db_file 1 True e" using assms(1) by (auto simp: corr_ok_def store_ok_def)
  then show ?thesis using assms Some by (auto simp: corr_ok_def connect_def migrate_def split: if_splits)
qed

lemma locate_life:
  assumes "corr_ok cat K s" "locate s p = Inr (ns, d, r)"
  shows "ns \<in> set known_namespaces \<and> db_ok ns (raws s) d \<and> life_ok cat d \<and> r \<in> set (proposals d) \<and> proposal_id r = p"
  using locate_ok[OF _ assms(2)] connect_life[OF assms(1)] locate_Inr[OF assms(2)] assms(1) by (auto simp: corr_ok_def)

lemma put_corr:
  assumes "corr_ok cat K s" "ns \<in> set known_namespaces" "db_ok ns (raws s) d" "life_ok cat d"
  shows "corr_ok cat K (put_db ns d s)"
  using assms put_db_ok[of s ns d] by (auto simp: corr_ok_def) (auto simp: put_db_def split: if_splits)

lemma change_corr:
  assumes "corr_ok cat K s" "safe_work work" "live_work cat work pre"
    "\<And>ns d r. locate s p = Inr (ns, d, r) \<Longrightarrow> check r = Inr () \<Longrightarrow> pre r"
  shows "corr_ok cat K (fst (change p check work s))"
proof -
  obtain s' a where c: "change p check work s = (s', a)" by fastforce
  consider "s' = s" | ns d r d' where "locate s p = Inr (ns, d, r)" "check r = Inr ()" "work r d = Inr d'" "s' = put_db ns d' s"
    using change_Inr[OF c] by blast
  then have "corr_ok cat K s'"
  proof cases
    case 2
    have l: "ns \<in> set known_namespaces" "db_ok ns (raws s) d" "life_ok cat d" "r \<in> set (proposals d)"
      using locate_life[OF assms(1) 2(1)] by blast+
    have "db_ok ns (raws s) d'" using assms(2) l 2(3) by (auto simp: safe_work_def)
    moreover have "life_ok cat d'" using assms(3,4) l 2 unfolding live_work_def by blast
    ultimately show ?thesis using put_corr[OF assms(1) l(1)] 2(4) by simp
  qed (simp add: assms(1))
  then show ?thesis by (simp add: c)
qed

lemma view_of_row_parts:
  "view_of_row d r = Inr v \<Longrightarrow> row v = r \<and> shown_evidence v = evidence_rows d (proposal_id r) \<and>
     decode (Some (target_json r)) = Inr (target v) \<and> decode (original_json r) = Inr (original v) \<and>
     decode (Some (proposed_json r)) = Inr (proposed v)"
  by (auto simp: view_of_row_def bindE_Inr)

lemma get_proposal_Inr:
  assumes "get_proposal s p = Inr v"
  shows "\<exists>ns d. locate s p = Inr (ns, d, row v) \<and> view_of_row d (row v) = Inr v"
proof -
  obtain l where l: "locate s p = Inr l" "(case l of (ns, d, r) \<Rightarrow> view_of_row d r) = Inr v"
    using assms unfolding get_proposal_def bindE_Inr by blast
  obtain ns d r where "l = (ns, d, r)" by (cases l)
  then show ?thesis using l view_of_row_parts by fastforce
qed

lemma decode_wf: "decode x = Inr v \<Longrightarrow> wf_json v"
  by (auto simp: decode_def split: option.splits dest: loads_wf)

section \<open>Moving a proposal\<close>

lemma transition_corr:
  assumes "corr_ok cat K s" "wf_obj payload"
    "\<And>x. pre x \<Longrightarrow> row_safe cat x \<Longrightarrow> row_safe cat (x\<lparr>p_state := st, local_visibility := visibility_after vis x\<rparr>)"
    "\<And>x d pl p. pre x \<Longrightarrow> life_move p now etype pl (life_of d x) =
       on_row (\<lambda>r. r\<lparr>p_state := st, local_visibility := visibility_after vis x\<rparr>) (life_of d x)"
    "\<And>ns d r. locate s p = Inr (ns, d, r) \<Longrightarrow> p_state r \<in> set allowed \<Longrightarrow> pre r"
  shows "corr_ok cat K (fst (transition p allowed st etype payload vis expected now s))"
  unfolding transition_def
  by (rule change_corr[OF assms(1) transition_safe[OF assms(2)] transition_live[OF assms(2), where pre = pre]])
    (use assms(3-5) in \<open>auto simp: transition_check_def bindE_Inr\<close>)

definition accept_state :: "string \<Rightarrow> string" where
  "accept_state st = (if st = ''validated_candidate'' then ''accepted_local'' else st)"

definition revoke_state :: "string \<Rightarrow> string" where
  "revoke_state st = (if st = ''accepted_local'' then ''validated_candidate'' else st)"

lemma located_row:
  "get_proposal s p = Inr v \<Longrightarrow> locate s p = Inr (ns, d, r) \<Longrightarrow> row v = r"
  using get_proposal_Inr[of s p v] by fastforce

lemma wf_obj_moves [simp]:
  "wf_obj (JObj [(''scope'', JStr a), (''authoritative_override'', JBool b), (''verification_level'', JStr c)])"
  "wf_obj (JObj [(''local_annotation_removed'', JBool b)])"
  "wf_json v \<Longrightarrow> wf_obj (JObj [(''reason'', v)])"
  "wf_json v \<Longrightarrow> wf_obj (JObj [(''self_attested'', JBool b), (''external_reference'', v)])"
  by (auto simp: wf_obj_def dict_ok_def)

lemma text_or_null_wf [simp]: "wf_json (text_or_null v)"
  by (cases v) (simp_all add: text_or_null_def)

lemma approved_active: "st \<in> set approved \<Longrightarrow> st \<in> set active_states"
  by (auto simp: approved_def active_states_def)

text \<open>An approved row stays safe in every approved state it can be shown in.\<close>

lemma row_safe_approved:
  assumes "row_safe cat x" "p_state x \<in> set approved" "st \<in> set approved"
    "vis = ''local_annotation'' \<Longrightarrow> st \<noteq> ''validated_candidate''"
  shows "row_safe cat (x\<lparr>p_state := st, local_visibility := vis\<rparr>)"
proof -
  have "st \<noteq> ''validated_candidate'' \<Longrightarrow> st \<in> {''accepted_local'', ''exported'', ''submitted''}"
    using assms(3) by (auto simp: approved_def)
  moreover have "validation_json x = dumps no_findings" "verification_level x \<in> {''structural_only'', ''snapshot_verified''}"
      "namespace_for cat (p_source x) = Inr (p_namespace x)"
    using assms(1,2) by (simp_all add: row_safe_def)
  ultimately show ?thesis using assms(3,4) approved_active[OF assms(3)] by (simp add: row_safe_def)
qed

lemma in_approved [simp]:
  "''validated_candidate'' \<in> set approved" "''accepted_local'' \<in> set approved" "''exported'' \<in> set approved" "''submitted'' \<in> set approved"
  by (simp_all add: approved_def)

lemma accept_corr: "corr_ok cat K s \<Longrightarrow> corr_ok cat K (fst (accept_local p body now s))"
proof -
  assume ok: "corr_ok cat K s"
  have "corr_ok cat K (fst (transition p [''validated_candidate'', ''exported''] (accept_state (p_state (row v))) ''accepted_local''
      (JObj [(''scope'', JStr ''local_annotation_only''), (''authoritative_override'', JBool False),
             (''verification_level'', JStr (verification_level (row v)))]) (Some ''local_annotation'') (Some e) now s))"
    if v: "get_proposal s p = Inr v" for v e
  proof (rule transition_corr[OF ok, where pre = "\<lambda>x. p_state x = p_state (row v) \<and> p_state x \<in> {''validated_candidate'', ''exported''}"])
    fix x assume x: "p_state x = p_state (row v) \<and> p_state x \<in> {''validated_candidate'', ''exported''}" "row_safe cat x"
    have "p_state x \<in> set approved" using x(1) by (auto simp: approved_def)
    moreover have "accept_state (p_state (row v)) \<in> set approved" "accept_state (p_state (row v)) \<noteq> ''validated_candidate''"
      using x(1) by (auto simp: accept_state_def approved_def)
    ultimately show "row_safe cat (x\<lparr>p_state := accept_state (p_state (row v)), local_visibility := visibility_after (Some ''local_annotation'') x\<rparr>)"
      using row_safe_approved[OF x(2)] by (simp add: visibility_after_def)
  qed (use located_row[OF v] in \<open>auto simp: life_step_simps life_of_def on_row_def accept_state_def visibility_after_def\<close>)
  then show ?thesis using ok
    by (auto simp: accept_local_def accept_state_def split: bool.splits option.splits sum.splits)
qed

lemma revoke_corr: "corr_ok cat K s \<Longrightarrow> corr_ok cat K (fst (revoke_local p body now s))"
proof -
  assume ok: "corr_ok cat K s"
  have "corr_ok cat K (fst (transition p [''accepted_local'', ''exported'', ''submitted''] (revoke_state (p_state (row v)))
      ''acceptance_revoked'' (JObj [(''local_annotation_removed'', JBool True)]) (Some ''queue_only'') (Some e) now s))"
    if v: "get_proposal s p = Inr v" for v e
  proof (rule transition_corr[OF ok, where pre = "\<lambda>x. p_state x = p_state (row v) \<and> p_state x \<in> {''accepted_local'', ''exported'', ''submitted''}"])
    fix x assume x: "p_state x = p_state (row v) \<and> p_state x \<in> {''accepted_local'', ''exported'', ''submitted''}" "row_safe cat x"
    have "p_state x \<in> set approved" using x(1) by (auto simp: approved_def)
    moreover have "revoke_state (p_state (row v)) \<in> set approved" using x(1) by (auto simp: revoke_state_def approved_def)
    ultimately show "row_safe cat (x\<lparr>p_state := revoke_state (p_state (row v)), local_visibility := visibility_after (Some ''queue_only'') x\<rparr>)"
      unfolding visibility_after_def option.case by (rule row_safe_approved[OF x(2)]) simp
  qed (use located_row[OF v] in \<open>auto simp: life_step_simps life_of_def on_row_def revoke_state_def visibility_after_def\<close>)
  then show ?thesis using ok
    by (auto simp: revoke_local_def revoke_state_def split: option.splits sum.splits)
qed

lemma withdraw_corr: "corr_ok cat K s \<Longrightarrow> corr_ok cat K (fst (withdraw p body now s))"
proof -
  assume ok: "corr_ok cat K s"
  have "corr_ok cat K (fst (transition p active_states ''withdrawn'' ''withdrawn''
      (JObj [(''reason'', text_or_null (jget body ''reason''))]) (Some ''queue_only'') (Some e) now s))" for e
    by (rule transition_corr[OF ok, where pre = "\<lambda>x. True"])
      (simp_all add: life_step_simps life_of_def on_row_def visibility_after_def row_safe_queued)
  then show ?thesis using ok by (simp add: withdraw_def split: option.splits)
qed

lemma submit_corr: "corr_ok cat K s \<Longrightarrow> corr_ok cat K (fst (mark_submitted p body now s))"
proof -
  assume ok: "corr_ok cat K s"
  have "corr_ok cat K (fst (transition p [''exported''] ''submitted'' ''marked_submitted''
      (JObj [(''self_attested'', JBool True), (''external_reference'', text_or_null (jget body ''external_reference''))])
      None (Some e) now s))" for e
  proof (rule transition_corr[OF ok, where pre = "\<lambda>x. p_state x = ''exported''"])
    fix x assume x: "p_state x = ''exported''" "row_safe cat x"
    show "row_safe cat (x\<lparr>p_state := ''submitted'', local_visibility := visibility_after None x\<rparr>)"
      unfolding visibility_after_def option.case by (rule row_safe_approved[OF x(2)]) (simp_all add: x(1))
  qed (simp_all add: life_step_simps life_of_def on_row_def visibility_after_def)
  then show ?thesis using ok
    by (auto simp: mark_submitted_def split: bool.splits option.splits sum.splits)
qed

section \<open>Drafting, evidence and validation\<close>

lemma create_correction_corr:
  assumes "corr_ok (w_catalog W) K s" "generation_ok G" "wf_json body"
  shows "corr_ok (w_catalog W) K (fst (create_correction W G body uuid now s))"
proof -
  have main: "corr_ok (w_catalog W) K (fst (create_proposal (w_catalog W) ctype tgt orig pr src ans uuid now s))"
    if args: "create_args tgt orig pr" for ctype tgt orig pr src ans
  proof -
    obtain s' a where c: "create_proposal (w_catalog W) ctype tgt orig pr src ans uuid now s = (s', a)" by fastforce
    from c have "corr_ok (w_catalog W) K s'"
    proof (cases rule: create_cases)
      case (Made ns d d')
      have k: "ns \<in> set known_namespaces" "db_ok ns (raws s) d"
        using connect_ok[OF _ Made(2)] assms(1) by (auto simp: corr_ok_def)
      have "life_ok (w_catalog W) d'"
        by (rule create_live[OF Made(5) k(2) args connect_life[OF assms(1) Made(2)] Made(1)])
      then show ?thesis using put_corr[OF assms(1) k(1) create_in_ok[OF Made(5) k(2) args]] Made(6) by simp
    qed (simp_all add: assms(1))
    then show ?thesis by (simp add: c)
  qed
  have args: "create_args (target_of ctype mid prop' (match_for G mid) (g_id G) (g_index G)) orig prop'"
    if h: "normalize_proposed (w_texts W) 0 (jget body ''proposed'') = Inr prop'" "is_obj (jget body ''proposed'')"
      "derive_original ctype (match_for G mid) = Inr orig" for ctype mid prop' orig
  proof -
    have p: "wf_obj prop'" using normalize_wf(1)[OF h(1) wf_jget[OF assms(3)]] h(2) by (simp add: wf_obj_def)
    have "wf_obj x" if "orig = Some x" for x
    proof (cases "match_for G mid")
      case None
      then show ?thesis using h(3) that derive_None by fastforce
    next
      case (Some m)
      then have "wf_json m" using assms(2) by (auto simp: match_for_def generation_ok_def split: json.splits if_splits)
      then show ?thesis using derive_wf[of ctype m x] h(3) that Some by simp
    qed
    then show ?thesis using target_wf[OF assms(2)] p by (auto simp: create_args_def wf_obj_def split: option.splits)
  qed
  show ?thesis
    using assms(1) unfolding create_correction_def Let_def
    by (auto split: sum.splits prod.splits simp: bindE_Inr intro!: main args)
qed

lemma revise_corr:
  assumes "corr_ok (w_catalog W) K s" "wf_json body"
  shows "corr_ok (w_catalog W) K (fst (revise_correction W p body now s))"
proof -
  have "corr_ok (w_catalog W) K (fst (revise_draft p pr e now s))"
    if "normalize_proposed (w_texts W) 0 (jget body ''proposed'') = Inr pr" "is_obj (jget body ''proposed'')" for pr e
  proof -
    have "wf_obj pr" using normalize_wf(1)[OF that(1) wf_jget[OF assms(2)]] that(2) by (simp add: wf_obj_def)
    then show ?thesis
      unfolding revise_draft_def by (intro change_corr[OF assms(1) revise_safe revise_live]) simp_all
  qed
  then show ?thesis using assms(1)
    by (auto simp: revise_correction_def split: bool.splits option.splits sum.splits)
qed

lemma receipt_of_ok: "receipt_ok raw (receipt_of raw display)"
  by (simp add: receipt_ok_def receipt_of_def)

lemma attach_corr:
  assumes "corr_ok cat K s" "inj_on sha256_hex K" "raw \<in> K" "\<And>v. origin = Some v \<Longrightarrow> wf_json v"
  shows "corr_ok cat K (fst (attach_evidence p url host revision raw (receipt_of raw display) origin now s))"
proof -
  obtain s' a where c: "attach_evidence p url host revision raw (receipt_of raw display) origin now s = (s', a)" by fastforce
  have k: "store_ok s" "captured_in K s" using assms(1) by (simp_all add: corr_ok_def)
  have kept: "store_ok s' \<and> captured_in K s'"
    using attach_ok[OF k assms(2,3) receipt_of_ok[of raw display], where p = p and url = url and host = host and
        revision = revision and now = now and origin = origin, OF assms(4)] c by simp
  have sha: "r_raw_sha (receipt_of raw display) = sha256_hex raw" by (simp add: receipt_of_def)
  note files = atomic_raw_ok[OF _ k assms(2,3)]
  from c have "\<forall>ns d. dict_get (databases s') ns = Some (Db_file 1 True d) \<longrightarrow> life_ok cat d"
  proof (cases rule: attach_cases)
    case Same
    then show ?thesis using assms(1) by (simp add: corr_ok_def)
  next
    case (Done ns d r s1 d')
    have "databases s1 = databases s" using files[of ns s1] Done(3) sha by simp
    moreover have "life_ok cat d'"
      using attach_live[OF Done(4) _ _ assms(4)] locate_life[OF assms(1) Done(1)] by blast
    ultimately show ?thesis using assms(1) Done(5) by (auto simp: corr_ok_def put_db_def)
  next
    case (Orphan ns s1)
    then have "databases s' = databases s" using files[of ns s1] sha by simp
    then show ?thesis using assms(1) by (simp add: corr_ok_def)
  qed
  then show ?thesis using kept by (simp add: c corr_ok_def)
qed

lemma redact_corr:
  assumes "corr_ok cat K s"
  shows "corr_ok cat K (fst (redact_evidence p eid expected now s))"
proof -
  obtain s' a where c: "redact_evidence p eid expected now s = (s', a)" by fastforce
  have kept: "store_ok s' \<and> captured_in K s'"
    using redact_ok[of s K p eid expected now] assms c by (simp add: corr_ok_def)
  from c have "\<forall>ns d. dict_get (databases s') ns = Some (Db_file 1 True d) \<longrightarrow> life_ok cat d"
  proof (cases rule: redact_cases)
    case Same
    then show ?thesis using assms by (simp add: corr_ok_def)
  next
    case (Done ns d r v d')
    have "life_ok cat d'"
      using redact_live[OF Done(6) _ _ Done(3-5)] locate_life[OF assms Done(1)] by blast
    moreover have "databases s' = databases (put_db ns d' s)" by (simp add: Done(7) unlink_raw_def)
    ultimately show ?thesis using assms by (auto simp: corr_ok_def put_db_def)
  qed
  then show ?thesis using kept by (simp add: c corr_ok_def)
qed

text \<open>The conflicts a validation writes are well formed, and a candidate has none.\<close>

lemma over_namespaces_all:
  assumes "over_namespaces s f nss = Inr xs" "\<And>d ys. f d = Inr ys \<Longrightarrow> list_all P ys"
  shows "list_all P xs"
  using assms(1)
proof (induction nss arbitrary: xs)
  case (Cons ns nss)
  then obtain c ys zs where c: "(case c of None \<Rightarrow> Inr [] | Some d \<Rightarrow> f d) = Inr ys" "over_namespaces s f nss = Inr zs" "xs = ys @ zs"
    by (auto simp: bindE_Inr)
  have "list_all P ys" using c(1) assms(2) by (cases c) auto
  then show ?case using Cons.IH[OF c(2)] c(3) by simp
qed simp

lemma mapE_keeps: "mapE f xs = Inr ys \<Longrightarrow> (\<And>x y. f x = Inr y \<Longrightarrow> P y) \<Longrightarrow> list_all P ys"
  by (induction xs arbitrary: ys) (auto split: sum.splits)

lemma competing_wf:
  assumes "competing_proposals s v = Inr cs"
  shows "list_all wf_json cs"
proof -
  obtain found where f: "over_namespaces s (competing_in v) known_namespaces = Inr found"
      "cs = map competing_json (sort_key fst found)"
    using assms by (auto simp: competing_proposals_def bindE_Inr)
  have "list_all (\<lambda>c. wf_json (snd c)) ys" if y: "competing_in v d = Inr ys" for d ys
  proof -
    obtain rs where rs: "mapE (\<lambda>r. bindE (decode (Some (proposed_json r))) (\<lambda>prop. Inr (proposal_id r, prop)))
        (filter (\<lambda>r. correction_type r = correction_type (row v) \<and> target_json r = dumps (target v) \<and>
                     proposal_id r \<noteq> proposal_id (row v) \<and> p_state r \<in> set active_states) (proposals d)) = Inr rs"
        "ys = filter (\<lambda>(i, w). \<not> py_eq w (proposed v)) rs"
      using y unfolding competing_in_def bindE_Inr by auto
    have "list_all (\<lambda>c. wf_json (snd c)) rs"
      by (rule mapE_keeps[OF rs(1)]) (auto simp: bindE_Inr dest: decode_wf)
    then show ?thesis using rs(2) by (auto simp: list_all_iff)
  qed
  then have "list_all (\<lambda>c. wf_json (snd c)) found" using over_namespaces_all[OF f(1)] by blast
  then show ?thesis using f(2) by (auto simp: list_all_iff competing_json_def dict_ok_def)
qed

lemma own_conflicts_wf:
  assumes "own_conflicts current v = Inr cs" "wf_json (original v)" "\<And>m. current = Some m \<Longrightarrow> wf_json m"
  shows "list_all wf_json cs"
proof -
  have w: "wf_json (case x of None \<Rightarrow> JNull | Some y \<Rightarrow> y)"
    if "derive_original (correction_type (row v)) (Some m) = Inr x" "current = Some m" for m x
    using that assms(3) derive_wf[of "correction_type (row v)" m] by (cases x) (auto simp: wf_obj_def)
  show ?thesis
  proof (cases current)
    case None
    then show ?thesis using assms(1) by (auto simp: own_conflicts_def dict_ok_def split: if_splits)
  next
    case (Some m)
    then show ?thesis
      using assms(1) w[OF _ Some] assms(2) wf_jget[OF assms(3)[OF Some]]
      by (auto simp: own_conflicts_def bindE_Inr dict_ok_def Let_def split: if_splits)
  qed
qed

lemma judge_parts:
  assumes "judge W current s v = Inr (reasons, conflicts, snaps)"
  shows "reason_codes W v = Inr reasons \<and> (\<exists>own rivals. own_conflicts current v = Inr own \<and>
     competing_proposals s v = Inr rivals \<and> conflicts = own @ rivals)"
  using assms unfolding judge_def bindE_Inr by auto

lemma verdict_cases:
  assumes "verdict v reasons conflicts snaps = (st, level, codes)"
  shows "(st = ''validated_candidate'' \<longrightarrow> codes = [] \<and> conflicts = [] \<and> level \<in> {''structural_only'', ''snapshot_verified''}) \<and>
    st \<in> {''validated_candidate'', ''conflict'', ''evidence_attached'', ''draft''}"
  using assms by (auto simp: verdict_def Let_def split: if_splits)

lemma validate_cases:
  assumes "validate W p current now s = (s', a)"
  obtains (Failed) e where "s' = s" "a = Inl e"
  | (Judged) v reasons conflicts snaps st level codes where "get_proposal s p = Inr v"
      "judge W current s v = Inr (reasons, conflicts, snaps)" "verdict v reasons conflicts snaps = (st, level, codes)"
      "(s', a) = apply_validation p st level (sorted_set codes) conflicts snaps (head_event_id (row v)) now s"
proof (cases "get_proposal s p")
  case (Inl e)
  then show thesis using assms by (intro Failed[of e]) (auto simp: validate_def)
next
  case (Inr v)
  show thesis
  proof (cases "judge W current s v")
    case (Inl e)
    then show thesis using assms Inr by (intro Failed[of e]) (auto simp: validate_def)
  next
    case (Inr j)
    obtain reasons conflicts snaps where j: "j = (reasons, conflicts, snaps)" by (cases j)
    obtain st level codes where "verdict v reasons conflicts snaps = (st, level, codes)" by (cases "verdict v reasons conflicts snaps")
    then show thesis
      using assms \<open>get_proposal s p = Inr v\<close> Inr j by (intro Judged) (auto simp: validate_def)
  qed
qed

lemma validate_corr:
  assumes "corr_ok cat K s" "\<And>m. current = Some m \<Longrightarrow> wf_json m"
  shows "corr_ok cat K (fst (validate W p current now s))"
proof -
  obtain s' a where c: "validate W p current now s = (s', a)" by fastforce
  from c have "corr_ok cat K s'"
  proof (cases rule: validate_cases)
    case (Failed e)
    then show ?thesis using assms(1) by simp
  next
    case (Judged v reasons conflicts snaps st level codes)
    obtain own rivals where o: "own_conflicts current v = Inr own" "competing_proposals s v = Inr rivals" "conflicts = own @ rivals"
      using judge_parts[OF Judged(2)] by blast
    obtain ns d where v: "view_of_row d (row v) = Inr v" using get_proposal_Inr[OF Judged(1)] by blast
    have "wf_json (original v)" using view_of_row_parts[OF v] decode_wf by blast
    then have w: "list_all wf_json conflicts" using own_conflicts_wf[OF o(1)] competing_wf[OF o(2)] o(3) assms(2) by simp
    have vd: "st = ''validated_candidate'' \<Longrightarrow> sorted_set codes = [] \<and> conflicts = [] \<and> level \<in> {''structural_only'', ''snapshot_verified''}"
      using verdict_cases[OF Judged(3)] by (simp add: sorted_set_def)
    show ?thesis
    proof (cases "st = ''draft''")
      case True
      have "fst (apply_validation p st level (sorted_set codes) conflicts snaps (head_event_id (row v)) now s) = s"
        using True by (auto simp: apply_validation_def change_def validation_check_def bindE_Inr split: sum.splits)
      then show ?thesis using Judged(4) assms(1) by (metis fst_conv)
    next
      case False
      then have st: "st \<in> {''validated_candidate'', ''conflict'', ''evidence_attached''}" using verdict_cases[OF Judged(3)] by blast
      have "corr_ok cat K (fst (apply_validation p st level (sorted_set codes) conflicts snaps (head_event_id (row v)) now s))"
        unfolding apply_validation_def
        by (rule change_corr[OF assms(1) validation_safe[OF w] validation_live[OF w vd st]]) (assumption | rule TrueI)+
      then show ?thesis using Judged(4) by (metis fst_conv)
    qed
  qed
  then show ?thesis by (simp add: c)
qed

section \<open>Exporting\<close>

lemma export_live:
  assumes "export_work x r d = Inr d'" "db_ok ns R d" "life_ok cat d" "r \<in> set (proposals d)"
  shows "life_ok cat d'"
proof (cases "p_state r \<in> {''validated_candidate'', ''accepted_local''}")
  case True
  define pl where "pl = JObj [(''export_id'', JStr (export_id x)), (''sha256'', JStr (x_sha x)), (''bytes'', JInt (int (x_bytes x)))]"
  have w: "wf_obj pl" by (simp add: pl_def)
  have ap: "append_event (proposal_id r) ''exported'' pl (exported_at x)
      (update_proposal (proposal_id r) (\<lambda>y. y\<lparr>p_state := ''exported''\<rparr>) (insert_or_ignore x d)) = Inr d'"
    using assms(1) True unfolding export_work_def Let_def pl_def by argo
  have s: "same_tables (proposal_id r) d (insert_or_ignore x d)"
    by (simp add: same_tables_def evidence_of_def)
  have safe: "row_safe cat (y\<lparr>p_state := ''exported''\<rparr>)"
    if y: "y \<in> set (proposals d)" "proposal_id y = proposal_id r" "row_safe cat y" for y
  proof -
    have "y = r" using same_row[OF _ assms(4) y(1,2)] db_ok_parts[OF assms(2)] by blast
    then have "p_state y \<in> set approved" using True by (auto simp: approved_def)
    then show ?thesis using row_safe_approved[OF y(3), of "''exported''" "local_visibility y"] by simp
  qed
  have l: "evidence_of q (insert_or_ignore x d) = evidence_of q d" for q by (simp add: evidence_of_def)
  show ?thesis
    by (rule life_append[OF ap s _ w assms(3)]) (use db_ok_parts[OF assms(2)] safe in \<open>simp_all add: l life_step_simps life_of_def on_row_def\<close>)
next
  case False
  then have d': "d' = insert_or_ignore x d" using assms(1) unfolding export_work_def Let_def by (metis Inr_inject)
  then show ?thesis using assms(3) by (simp add: life_ok_def life_of_def evidence_of_def)
qed

lemma record_export_corr:
  assumes "corr_ok cat K s"
  shows "corr_ok cat K (fst (record_export p head xid path sha bytes now s))"
proof -
  obtain s' a where c: "record_export p head xid path sha bytes now s = (s', a)" by fastforce
  from c have "corr_ok cat K s'"
  proof (cases rule: record_export_cases)
    case (Done ns d r d' x)
    have l: "ns \<in> set known_namespaces" "db_ok ns (raws s) d" "life_ok cat d" "r \<in> set (proposals d)" "proposal_id r = p"
      using locate_life[OF assms Done(1)] by blast+
    have "db_ok ns (raws s) d'" by (rule export_work_ok[OF Done(2) l(2) _ l(4)]) (simp add: Done(5) l(5))
    moreover have "life_ok cat d'" by (rule export_live[OF Done(2) l(2-4)])
    ultimately show ?thesis using put_corr[OF assms l(1)] Done(3) by simp
  qed (simp add: assms)
  then show ?thesis by (simp add: c)
qed

lemma export_cases:
  assumes "export_proposal cat p expected now s = (s', a)"
  obtains (Failed) e where "s' = s" "a = Inl e"
  | (Gated) v history where "get_proposal s p = Inr v" "proposal_history s p = Inr history"
      "export_gate cat expected v = Inr ()" "s' = s \<and> (\<exists>x. a = Inr x) \<or> (\<exists>source. (s', a) = write_export v history source now s)"
proof (cases "bindE (get_proposal s p) (\<lambda>v. bindE (proposal_history s p) (\<lambda>history.
           bindE (export_gate cat expected v) (\<lambda>_. bindE (latest_export s p) (\<lambda>previous. Inr (v, history, previous)))))")
  case (Inl e)
  then show thesis using assms by (intro Failed[of e]) (auto simp: export_proposal_def)
next
  case (Inr m)
  obtain v history previous where m: "m = (v, history, previous)" by (cases m)
  then have g: "get_proposal s p = Inr v" "proposal_history s p = Inr history" "export_gate cat expected v = Inr ()"
    using Inr by (auto simp: bindE_Inr)
  note E = assms[unfolded export_proposal_def Inr m, simplified]
  show thesis
  proof (cases "standing_export s v history previous")
    case (Some x)
    then show thesis using E g by (intro Gated) auto
  next
    case None
    show thesis
    proof (cases "public_source cat (py_str (opt_json (p_source (row v))))")
      case (Inl e)
      then show thesis using E None by (intro Failed[of e]) auto
    next
      case (Inr source)
      then have "(s', a) = write_export v history source now s" using E None by simp
      then show thesis using g by (intro Gated) blast+
    qed
  qed
qed

lemma write_atomic_Inr:
  "write_atomic path payload s = Inr s' \<Longrightarrow>
     s' = s\<lparr>exported_files := exported_files s'\<rparr> \<and> (corr_ok cat K s \<longrightarrow> corr_ok cat K s')"
  by (auto simp: write_atomic_def corr_ok_def store_ok_def captured_in_def split: option.splits disk_entry.splits if_splits)

lemma write_export_corr: "corr_ok cat K s \<Longrightarrow> corr_ok cat K (fst (write_export v history source now s))"
  using write_atomic_Inr record_export_corr by (auto simp: write_export_def Let_def split: sum.splits)

lemma export_corr:
  assumes "corr_ok cat K s"
  shows "corr_ok cat K (fst (export_proposal cat' p expected now s))"
proof -
  obtain s' a where c: "export_proposal cat' p expected now s = (s', a)" by fastforce
  from c have "corr_ok cat K s'"
  proof (cases rule: export_cases)
    case (Gated v history)
    then show ?thesis using assms write_export_corr[OF assms] by (metis fst_conv)
  qed (simp add: assms)
  then show ?thesis by (simp add: c)
qed

section \<open>Runs\<close>

text \<open>What a call may pass: well-formed JSON, and captured texts out of \<open>K\<close>.\<close>

definition allowed_call :: "string set \<Rightarrow> correction_call \<Rightarrow> bool" where
  "allowed_call K c =
     (case c of
        Create G body uuid \<Rightarrow> generation_ok G \<and> wf_json body
      | Revise p body \<Rightarrow> wf_json body
      | Attach url p body \<Rightarrow> (\<forall>raw. jget body ''captured_text'' = JStr raw \<longrightarrow> raw \<in> K)
      | Import p url host revision raw display origin \<Rightarrow> raw \<in> K \<and> wf_json origin
      | Validate p current \<Rightarrow> (\<forall>m. current = Some m \<longrightarrow> wf_json m)
      | _ \<Rightarrow> True)"

lemma exec_call_corr:
  assumes "corr_ok (w_catalog W) K s" "inj_on sha256_hex K" "allowed_call K c"
  shows "corr_ok (w_catalog W) K (exec_call W now c s)"
proof (cases c)
  case (Create G body uuid)
  then show ?thesis using assms(1,3) create_correction_corr by (simp add: exec_call_def allowed_call_def)
next
  case (Revise p body)
  then show ?thesis using assms(1,3) revise_corr by (simp add: exec_call_def allowed_call_def)
next
  case (Attach url p body)
  have "corr_ok (w_catalog W) K (fst (attach_evidence p u h rv raw (receipt_of raw ds) None now s))"
    if "jget body ''captured_text'' = JStr raw" for u h rv raw ds
    using attach_corr[OF assms(1,2), of raw None] assms(3) that Attach by (simp add: allowed_call_def)
  then show ?thesis using assms(1) Attach
    by (auto simp: exec_call_def attach_correction_evidence_def split: json.splits sum.splits prod.splits)
next
  case (Import p url host revision raw display origin)
  then show ?thesis using attach_corr[OF assms(1,2), of raw "Some origin"] assms(3) by (simp add: exec_call_def allowed_call_def)
next
  case (Validate p current)
  then show ?thesis using validate_corr[OF assms(1)] assms(3) by (simp add: exec_call_def allowed_call_def)
next
  case (Export p body)
  then show ?thesis using export_corr[OF assms(1)] assms(1)
    by (auto simp: exec_call_def export_correction_def split: bool.splits option.splits)
next
  case (Redact p eid body)
  then show ?thesis using redact_corr[OF assms(1)] assms(1)
    by (auto simp: exec_call_def redact_correction_def split: bool.splits option.splits)
next
  case (Purge body)
  then show ?thesis using assms(1) by (simp add: exec_call_def purge_corrections_def purge_def)
qed (use assms(1) accept_corr revoke_corr withdraw_corr submit_corr in \<open>simp_all add: exec_call_def\<close>)

text \<open>A run of calls, each with its time.\<close>

definition run_calls :: "world \<Rightarrow> (string \<times> correction_call) list \<Rightarrow> corr_store \<Rightarrow> corr_store" where
  "run_calls W cs s = fold (\<lambda>(now, c). exec_call W now c) cs s"

interpretation corrections: machine "\<lambda>(now, c). exec_call W now c"
    "\<lambda>s. inj_on sha256_hex K \<and> corr_ok (w_catalog W) K s" "\<lambda>(now, c). allowed_call K c"
  for W K
  by unfold_locales (auto simp: exec_call_corr split: prod.splits)

lemma run_corr:
  assumes "list_all (\<lambda>(now, c). allowed_call K c) cs" "inj_on sha256_hex K"
  shows "corr_ok (w_catalog W) K (run_calls W cs empty_store)"
  using corrections.inv_run[of K cs W empty_store] assms by (simp add: run_calls_def)

end
