(* ===== verification/Correction_Promises.thy ===== *)
theory Correction_Promises
  imports Correction_Safety
begin

text \<open>
  What the correction store promises over any run of the app's calls: the startup audit
  passes, the history is append-only, every row is the replay of its log, what is shown was
  validated, stale views change nothing, withdrawal is final but for redaction, and only
  exportable licenses leave the machine.
\<close>

section \<open>What a call may do to a database\<close>

text \<open>
  Two versions of a row or of an evidence item; \<open>b\<close> says that a withdrawn proposal must stay
  withdrawn.
\<close>

definition row_kept :: "bool \<Rightarrow> proposal_row \<Rightarrow> proposal_row \<Rightarrow> bool" where
  "row_kept b r r' \<longleftrightarrow>
     proposal_id r' = proposal_id r \<and> p_namespace r' = p_namespace r \<and> correction_type r' = correction_type r \<and>
     target_json r' = target_json r \<and> original_json r' = original_json r \<and> p_source r' = p_source r \<and>
     created_at r' = created_at r \<and> (b \<longrightarrow> p_state r = ''withdrawn'' \<longrightarrow> p_state r' = ''withdrawn'')"

definition evidence_kept :: "evidence_row \<Rightarrow> evidence_row \<Rightarrow> bool" where
  "evidence_kept v v' \<longleftrightarrow>
     evidence_id v' = evidence_id v \<and> v_proposal v' = v_proposal v \<and> source_url v' = source_url v \<and>
     raw_sha v' = raw_sha v \<and> sanitized_sha v' = sanitized_sha v \<and> captured_at v' = captured_at v \<and>
     (redacted v \<longrightarrow> redacted v')"

definition kept_list :: "('a \<Rightarrow> 'a \<Rightarrow> bool) \<Rightarrow> 'a list \<Rightarrow> 'a list \<Rightarrow> bool" where
  "kept_list R xs ys \<longleftrightarrow> (\<exists>zs new. ys = zs @ new \<and> list_all2 R xs zs)"

definition extends :: "bool \<Rightarrow> db \<Rightarrow> db \<Rightarrow> bool" where
  "extends b d d' \<longleftrightarrow>
     kept_list (=) (proposal_events d) (proposal_events d') \<and>
     kept_list (row_kept b) (proposals d) (proposals d') \<and>
     kept_list evidence_kept (evidence d) (evidence d')"

lemma kept_list_refl: "(\<And>x. R x x) \<Longrightarrow> kept_list R xs xs"
  unfolding kept_list_def by (intro exI[of _ xs] exI[of _ "[]"]) (simp add: list_all2_refl)

lemma kept_list_append: "(\<And>x. R x x) \<Longrightarrow> kept_list R xs (xs @ ys)"
  unfolding kept_list_def by (intro exI[of _ xs] exI[of _ ys]) (simp add: list_all2_refl)

lemma kept_list_map: "(\<And>x. R x (f x)) \<Longrightarrow> kept_list R xs (map f xs)"
  unfolding kept_list_def by (intro exI[of _ "map f xs"] exI[of _ "[]"]) (simp add: list_all2_map2 list_all2_refl)

lemma kept_list_trans:
  assumes "kept_list R xs ys" "kept_list R ys zs" "\<And>x y z. R x y \<Longrightarrow> R y z \<Longrightarrow> R x z"
  shows "kept_list R xs zs"
proof -
  obtain as new where a: "ys = as @ new" "list_all2 R xs as" using assms(1) by (auto simp: kept_list_def)
  obtain bs more where b: "zs = bs @ more" "list_all2 R ys bs" using assms(2) by (auto simp: kept_list_def)
  obtain b1 b2 where s: "bs = b1 @ b2" "list_all2 R as b1" using b(2) a(1) by (auto simp: list_all2_append1)
  have "list_all2 R xs b1" by (rule list_all2_trans[OF assms(3) a(2) s(2)])
  then show ?thesis unfolding kept_list_def using b(1) s(1) by (intro exI[of _ b1] exI[of _ "b2 @ more"]) simp
qed

lemma kept_list_in:
  assumes "kept_list R xs ys" "x \<in> set xs"
  shows "\<exists>y \<in> set ys. R x y"
proof -
  obtain zs new where z: "ys = zs @ new" "list_all2 R xs zs" using assms(1) by (auto simp: kept_list_def)
  obtain i where "i < length xs" "x = xs ! i" using assms(2) by (auto simp: in_set_conv_nth)
  then have "R x (zs ! i)" "zs ! i \<in> set zs" using z(2) by (auto simp: list_all2_conv_all_nth)
  then show ?thesis using z(1) by auto
qed

lemma row_kept_refl [simp]: "row_kept b r r"
  by (simp add: row_kept_def)

lemma evidence_kept_refl [simp]: "evidence_kept v v"
  by (simp add: evidence_kept_def)

lemma extends_refl [simp]: "extends b d d"
  by (simp add: extends_def kept_list_refl)

lemma extends_trans:
  assumes "extends b d e" "extends b e f"
  shows "extends b d f"
  unfolding extends_def
proof (intro conjI)
  show "kept_list (=) (proposal_events d) (proposal_events f)"
    by (rule kept_list_trans[where ys = "proposal_events e"]) (use assms in \<open>simp_all add: extends_def\<close>)
  show "kept_list (row_kept b) (proposals d) (proposals f)"
    by (rule kept_list_trans[where ys = "proposals e"]) (use assms in \<open>simp_all add: extends_def row_kept_def\<close>)
  show "kept_list evidence_kept (evidence d) (evidence f)"
    by (rule kept_list_trans[where ys = "evidence e"]) (use assms in \<open>simp_all add: extends_def evidence_kept_def\<close>)
qed

lemma extends_update: "(\<And>r. proposal_id r = p \<Longrightarrow> row_kept b r (f r)) \<Longrightarrow> extends b d (update_proposal p f d)"
  by (simp add: extends_def kept_list_refl) (simp add: update_proposal_def kept_list_map)

lemma extends_append: "append_event p etype payload now d = Inr d' \<Longrightarrow> extends b d d'"
proof -
  assume a: "append_event p etype payload now d = Inr d'"
  obtain e where "d' = update_proposal p (\<lambda>r. r\<lparr>head_event_id := Some (event_id e), updated_at := now\<rparr>)
      (d\<lparr>proposal_events := proposal_events d @ [e]\<rparr>)"
    using a by (auto simp: append_event_def Let_def bindE_Inr insert_event_def split: if_splits)
  moreover have "extends b d (d\<lparr>proposal_events := proposal_events d @ [e]\<rparr>)"
    by (simp add: extends_def kept_list_append kept_list_refl)
  moreover have "extends b f (update_proposal p (\<lambda>r. r\<lparr>head_event_id := Some (event_id e), updated_at := now\<rparr>) f)" for f
    by (rule extends_update) (simp add: row_kept_def)
  ultimately show ?thesis using extends_trans by blast
qed

lemma extends_step:
  "append_event p etype payload now (update_proposal p f e) = Inr d' \<Longrightarrow> extends b d e \<Longrightarrow>
     (\<And>r. proposal_id r = p \<Longrightarrow> row_kept b r (f r)) \<Longrightarrow> extends b d d'"
  using extends_append extends_update extends_trans by meson

lemma extends_mark: "extends b d (mark_snapshots p is d)"
  by (simp add: extends_def kept_list_refl) (simp add: mark_snapshots_def kept_list_map evidence_kept_def)

lemma extends_redact: "extends b d (redact_rows p eid d)"
proof -
  have "extends b (mark_snapshots p [] d) (redact_rows p eid d)"
    by (simp add: extends_def kept_list_refl) (simp add: redact_row_def kept_list_map evidence_kept_def)
  then show ?thesis using extends_mark extends_trans by blast
qed

section \<open>What a call may do to the store\<close>

definition grows :: "bool \<Rightarrow> corr_store \<Rightarrow> corr_store \<Rightarrow> bool" where
  "grows b s s' \<longleftrightarrow>
     (\<forall>ns d. dict_get (databases s) ns = Some (Db_file 1 True d) \<longrightarrow>
        (\<exists>d'. dict_get (databases s') ns = Some (Db_file 1 True d') \<and> extends b d d'))"

lemma grows_refl [simp]: "grows b s s"
  by (simp add: grows_def)

lemma grows_trans: "grows b r s \<Longrightarrow> grows b s t \<Longrightarrow> grows b r t"
  unfolding grows_def by (meson extends_trans)

lemma grows_databases: "databases s' = databases s \<Longrightarrow> grows b s s'"
  by (simp add: grows_def)

lemma connected:
  "connect s ns c = Inr (Some d) \<Longrightarrow> dict_get (databases s) ns = Some (Db_file 1 True e) \<Longrightarrow> d = e"
  by (simp add: connect_def migrate_def split: if_splits)

lemma grows_put:
  assumes "connect s ns c = Inr (Some d)" "extends b d d'"
  shows "grows b s (put_db ns d' s)"
  using connected[OF assms(1)] assms(2) by (auto simp: grows_def put_db_def)

definition grow_work :: "bool \<Rightarrow> (proposal_row \<Rightarrow> db \<Rightarrow> cexn + db) \<Rightarrow> (proposal_row \<Rightarrow> bool) \<Rightarrow> bool" where
  "grow_work b work pre \<longleftrightarrow>
     (\<forall>r d d'. pre r \<longrightarrow> find_proposal d (proposal_id r) = Some r \<longrightarrow> distinct (ids d) \<longrightarrow> work r d = Inr d' \<longrightarrow> extends b d d')"

lemma change_grows:
  assumes "store_ok s" "grow_work b work pre" "\<And>r. check r = Inr () \<Longrightarrow> pre r"
  shows "grows b s (fst (change p check work s))"
proof -
  obtain s' a where c: "change p check work s = (s', a)" by fastforce
  consider "s' = s" | ns d r d' where "locate s p = Inr (ns, d, r)" "check r = Inr ()" "work r d = Inr d'" "s' = put_db ns d' s"
    using change_Inr[OF c] by blast
  then have "grows b s s'"
  proof cases
    case 2
    have l: "connect s ns False = Inr (Some d)" "find_proposal d p = Some r" "proposal_id r = p" "distinct (ids d)"
      using locate_Inr[OF 2(1)] locate_ok[OF assms(1) 2(1)] db_ok_parts by blast+
    have "extends b d d'" using assms(2,3) l 2 by (auto simp: grow_work_def)
    then show ?thesis using grows_put[OF l(1)] 2(4) by simp
  qed simp
  then show ?thesis by (simp add: c)
qed

text \<open>In a database with distinct ids an update of a row may use what is known of that row.\<close>

lemma extends_own:
  assumes "append_event (proposal_id r) etype payload now (update_proposal (proposal_id r) f e) = Inr d'" "extends b d e"
    "\<And>x. row_kept False x (f x)" "b \<Longrightarrow> p_state r \<noteq> ''withdrawn''" "find_proposal d (proposal_id r) = Some r" "distinct (ids d)"
    "proposals e = proposals d"
  shows "extends b d d'"
proof -
  have "row_kept b x (f x)" if "x \<in> set (proposals e)" "proposal_id x = proposal_id r" for x
  proof -
    have "x = r" using same_row[OF assms(6) _ _ that(2)] find_proposal_Some[OF assms(5)] that(1) assms(7) by simp
    then show ?thesis using assms(3)[of x] assms(4) by (auto simp: row_kept_def)
  qed
  then have "kept_list (row_kept b) (proposals e) (proposals (update_proposal (proposal_id r) f e))"
    unfolding kept_list_def update_proposal_def
    by (intro exI[of _ "map (\<lambda>x. if proposal_id x = proposal_id r then f x else x) (proposals e)"] exI[of _ "[]"])
      (auto simp: list_all2_map2 intro!: list.rel_refl_strong)
  then have "extends b e (update_proposal (proposal_id r) f e)" by (simp add: extends_def kept_list_refl)
  then show ?thesis using extends_append[OF assms(1)] assms(2) extends_trans by blast
qed

lemma revise_grows: "grow_work b (revise_work prop now) (\<lambda>r. p_state r \<noteq> ''withdrawn'')"
  unfolding grow_work_def
proof (intro allI impI)
  fix r d d'
  assume a: "p_state r \<noteq> ''withdrawn''" "find_proposal d (proposal_id r) = Some r" "distinct (ids d)" "revise_work prop now r d = Inr d'"
  have "\<exists>tgt. decode (Some (target_json r)) = Inr tgt"
  proof (cases "decode (Some (target_json r))")
    case (Inl e)
    then show ?thesis using a(4) by (simp add: revise_work_def)
  qed blast
  then obtain tgt where t: "decode (Some (target_json r)) = Inr tgt" by blast
  show "extends b d d'"
    by (rule extends_own[OF a(4)[unfolded revise_work_def t bindE_simps Let_def] extends_refl _ _ a(2,3)])
      (simp_all add: row_kept_def a(1))
qed

lemma transition_grows: "grow_work b (transition_work st etype payload vis now) (\<lambda>r. p_state r \<noteq> ''withdrawn'')"
  unfolding grow_work_def
proof (intro allI impI)
  fix r d d'
  assume a: "p_state r \<noteq> ''withdrawn''" "find_proposal d (proposal_id r) = Some r" "distinct (ids d)"
    "transition_work st etype payload vis now r d = Inr d'"
  show "extends b d d'"
    by (rule extends_own[OF a(4)[unfolded transition_work_def] extends_refl _ _ a(2,3)]) (simp_all add: row_kept_def a(1))
qed

lemma validation_grows: "grow_work b (validation_work st level reasons conflicts is now) (\<lambda>r. p_state r \<noteq> ''withdrawn'')"
  unfolding grow_work_def
proof (intro allI impI)
  fix r d d'
  assume a: "p_state r \<noteq> ''withdrawn''" "find_proposal d (proposal_id r) = Some r" "distinct (ids d)"
    "validation_work st level reasons conflicts is now r d = Inr d'"
  show "extends b d d'"
    by (rule extends_own[OF a(4)[unfolded validation_work_def] extends_mark _ _ a(2,3)]) (simp_all add: row_kept_def a(1))
qed

lemma attach_grows:
  assumes "attach_work ns url host revision rc origin now r d = Inr d'" "p_state r \<noteq> ''withdrawn''"
    "find_proposal d (proposal_id r) = Some r" "distinct (ids d)"
  shows "extends b d d'"
proof -
  let ?v = "new_evidence (proposal_id r) ns url host revision rc now r"
  obtain e where e: "insert_evidence ?v d = Inr e"
     "append_event (proposal_id r) (if origin = None then ''evidence_attached'' else ''evidence_imported_from_research'')
       (attach_payload (evidence_hash (proposal_id r) url (r_raw_sha rc)) url rc origin) now
       (update_proposal (proposal_id r) (\<lambda>x. x\<lparr>p_state := ''evidence_attached'', verification_level := ''none'',
          validation_json := dumps no_findings, local_visibility := ''queue_only''\<rparr>) e) = Inr d'"
    using assms(1) unfolding attach_work_def bindE_Inr by blast
  have e': "e = d\<lparr>evidence := evidence d @ [?v]\<rparr>" using e(1) by (simp add: insert_evidence_def split: if_splits)
  have "extends b d e" by (simp add: e' extends_def kept_list_refl kept_list_append)
  then show ?thesis
    by (rule extends_own[OF e(2) _ _ _ assms(3,4)]) (simp_all add: row_kept_def assms(2) e')
qed

lemma create_grows: "create_in ns ctype tgt orig prop src uuid now d = Inr d' \<Longrightarrow> extends b d d'"
proof -
  assume a: "create_in ns ctype tgt orig prop src uuid now d = Inr d'"
  obtain d1 where d1: "insert_proposal (draft_row (''cp_'' @ uuid) ns ctype tgt orig prop src now) d = Inr d1"
      "append_event (''cp_'' @ uuid) ''created'' (created_payload ns ctype tgt orig prop src) now d1 = Inr d'"
    using a by (auto simp: create_in_def bindE_Inr)
  have "d1 = d\<lparr>proposals := proposals d @ [draft_row (''cp_'' @ uuid) ns ctype tgt orig prop src now]\<rparr>"
    using d1(1) unfolding insert_proposal_def by (metis Inl_Inr_False Inr_inject)
  then have "extends b d d1" by (simp add: extends_def kept_list_append kept_list_refl)
  then show ?thesis using extends_append[OF d1(2)] extends_trans by blast
qed

lemma export_grows: "export_work x r d = Inr d' \<Longrightarrow> find_proposal d (proposal_id r) = Some r \<Longrightarrow> distinct (ids d) \<Longrightarrow> extends b d d'"
proof -
  assume a: "export_work x r d = Inr d'" "find_proposal d (proposal_id r) = Some r" "distinct (ids d)"
  have i: "extends b d (insert_or_ignore x d)" by (simp add: extends_def kept_list_refl)
  show ?thesis
  proof (cases "p_state r \<in> {''validated_candidate'', ''accepted_local''}")
    case True
    have ap: "append_event (proposal_id r) ''exported''
        (JObj [(''export_id'', JStr (export_id x)), (''sha256'', JStr (x_sha x)), (''bytes'', JInt (int (x_bytes x)))])
        (exported_at x) (update_proposal (proposal_id r) (\<lambda>y. y\<lparr>p_state := ''exported''\<rparr>) (insert_or_ignore x d)) = Inr d'"
      using a(1) True unfolding export_work_def Let_def by argo
    have "p_state r \<noteq> ''withdrawn''" using True by auto
    then show ?thesis by (intro extends_own[OF ap i _ _ a(2,3)]) (simp_all add: row_kept_def)
  next
    case False
    then have "d' = insert_or_ignore x d" using a(1) unfolding export_work_def Let_def by (metis Inr_inject)
    then show ?thesis using i by simp
  qed
qed

lemma redact_grows: "redact_work p v now d = Inr d' \<Longrightarrow> extends False d d'"
proof -
  assume a: "redact_work p v now d = Inr d'"
  obtain d1 where d1: "append_event p ''evidence_redacted''
      (JObj [(''evidence_id'', JStr (evidence_id v)), (''raw_sha256'', JStr (raw_sha v))]) now (redact_rows p (evidence_id v) d) = Inr d1"
      "d' = redact_state p d1"
    using a by (auto simp: redact_work_def bindE_Inr)
  have "extends False d1 d'" unfolding d1(2) redact_state_def Let_def by (rule extends_update) (simp add: row_kept_def)
  then show ?thesis using extends_redact extends_append[OF d1(1)] extends_trans by blast
qed

lemma transition_kept:
  "store_ok s \<Longrightarrow> ''withdrawn'' \<notin> set allowed \<Longrightarrow> grows b s (fst (transition p allowed st etype payload vis expected now s))"
  unfolding transition_def
  by (rule change_grows[OF _ transition_grows]) (auto simp: transition_check_def bindE_Inr)

lemma no_withdrawn: "''withdrawn'' \<notin> set active_states"
  by (simp add: active_states_def)

lemma create_correction_grows: "grows b s (fst (create_correction W G body uuid now s))"
proof -
  have "grows b s (fst (create_proposal cat ctype tgt orig pr src ans uuid now s))" for cat ctype tgt orig pr src ans
  proof -
    obtain s' a where c: "create_proposal cat ctype tgt orig pr src ans uuid now s = (s', a)" by fastforce
    from c have "grows b s s'"
    proof (cases rule: create_cases)
      case (Made ns d d')
      then show ?thesis using grows_put[OF Made(2) create_grows[OF Made(5)]] by simp
    qed simp_all
    then show ?thesis by (simp add: c)
  qed
  then show ?thesis unfolding create_correction_def Let_def by (auto split: sum.splits prod.splits)
qed

lemma attach_evidence_grows:
  assumes "store_ok s"
  shows "grows b s (fst (attach_evidence p url host revision raw rc origin now s))"
proof -
  obtain s' a where c: "attach_evidence p url host revision raw rc origin now s = (s', a)" by fastforce
  have files: "databases s1 = databases s" if "atomic_raw ns digest raw s = Inr s1" for ns digest s1
    using that by (auto simp: atomic_raw_def split: option.splits disk_entry.splits if_splits)
  from c have "grows b s s'"
  proof (cases rule: attach_cases)
    case (Done ns d r s1 d')
    have l: "connect s ns False = Inr (Some d)" "find_proposal d (proposal_id r) = Some r" "distinct (ids d)"
      using locate_Inr[OF Done(1)] locate_ok[OF assms Done(1)] db_ok_parts by blast+
    have "extends b d d'" using attach_grows[OF Done(4) _ l(2,3)] Done(2) by simp
    then have "grows b s (put_db ns d' s)" by (rule grows_put[OF l(1)])
    then show ?thesis using files[OF Done(3)] by (simp add: grows_def put_db_def Done(5))
  next
    case (Orphan ns s1)
    then show ?thesis using files grows_databases by simp
  qed simp
  then show ?thesis by (simp add: c)
qed

lemma validate_grows: "store_ok s \<Longrightarrow> grows b s (fst (validate W p current now s))"
proof -
  assume ok: "store_ok s"
  obtain s' a where c: "validate W p current now s = (s', a)" by fastforce
  from c have "grows b s s'"
  proof (cases rule: validate_cases)
    case (Judged v reasons conflicts snaps st level codes)
    have "grows b s (fst (apply_validation p st level (sorted_set codes) conflicts snaps (head_event_id (row v)) now s))"
      unfolding apply_validation_def
      by (rule change_grows[OF ok validation_grows]) (auto simp: validation_check_def bindE_Inr)
    then show ?thesis using Judged(4) by (metis fst_conv)
  qed simp
  then show ?thesis by (simp add: c)
qed

lemma record_export_grows: "store_ok s \<Longrightarrow> grows b s (fst (record_export p head xid path sha bytes now s))"
proof -
  assume ok: "store_ok s"
  obtain s' a where c: "record_export p head xid path sha bytes now s = (s', a)" by fastforce
  from c have "grows b s s'"
  proof (cases rule: record_export_cases)
    case (Done ns d r d' x)
    have l: "connect s ns False = Inr (Some d)" "find_proposal d (proposal_id r) = Some r" "distinct (ids d)"
      using locate_Inr[OF Done(1)] locate_ok[OF ok Done(1)] db_ok_parts by blast+
    then show ?thesis using grows_put[OF l(1) export_grows[OF Done(2) l(2,3)]] Done(3) by simp
  qed simp
  then show ?thesis by (simp add: c)
qed

lemma export_proposal_grows: "store_ok s \<Longrightarrow> grows b s (fst (export_proposal cat p expected now s))"
proof -
  assume ok: "store_ok s"
  obtain s' a where c: "export_proposal cat p expected now s = (s', a)" by fastforce
  have w: "grows b s (fst (write_export v history source now s))" for v history source
  proof -
    have "store_ok s1 \<and> databases s1 = databases s" if "write_atomic path payload s = Inr s1" for path payload s1
      using that ok by (auto simp: write_atomic_def store_ok_def split: option.splits disk_entry.splits if_splits)
    then have "grows b s (fst (record_export p' h x path sha n now s1))" if "write_atomic path' payload s = Inr s1"
      for p' h x path sha n s1 path' payload
      using record_export_grows that grows_databases grows_trans by meson
    then show ?thesis by (auto simp: write_export_def Let_def split: sum.splits)
  qed
  from c have "grows b s s'"
  proof (cases rule: export_cases)
    case (Gated v history)
    then show ?thesis using w by (metis fst_conv grows_refl)
  qed simp
  then show ?thesis by (simp add: c)
qed

lemma redact_evidence_grows: "grows False s (fst (redact_evidence p eid expected now s))"
proof -
  obtain s' a where c: "redact_evidence p eid expected now s = (s', a)" by fastforce
  from c have "grows False s s'"
  proof (cases rule: redact_cases)
    case (Done ns d r v d')
    have "grows False s (put_db ns d' s)" by (rule grows_put[OF _ redact_grows[OF Done(6)]]) (use locate_Inr[OF Done(1)] in blast)
    then show ?thesis by (simp add: grows_def Done(7) unlink_raw_def)
  qed simp
  then show ?thesis by (simp add: c)
qed

text \<open>The calls that do not purge, and for \<open>b\<close> those that do not redact either.\<close>

definition gentle :: "bool \<Rightarrow> correction_call \<Rightarrow> bool" where
  "gentle b c = (case c of Purge body \<Rightarrow> False | Redact p eid body \<Rightarrow> \<not> b | _ \<Rightarrow> True)"

lemma exec_call_grows:
  assumes "store_ok s" "gentle b c"
  shows "grows b s (exec_call W now c s)"
proof (cases c)
  case (Create G body uuid)
  then show ?thesis using create_correction_grows by (simp add: exec_call_def)
next
  case (Revise p body)
  have "grows b s (fst (revise_draft p pr e now s))" for pr e
    unfolding revise_draft_def by (rule change_grows[OF assms(1) revise_grows]) (auto simp: revise_check_def bindE_Inr)
  then show ?thesis using Revise by (auto simp: exec_call_def revise_correction_def split: bool.splits option.splits sum.splits)
next
  case (Attach url p body)
  then show ?thesis using attach_evidence_grows[OF assms(1)]
    by (auto simp: exec_call_def attach_correction_evidence_def split: json.splits sum.splits prod.splits)
next
  case (Import p url host revision raw display origin)
  then show ?thesis using attach_evidence_grows[OF assms(1)] by (simp add: exec_call_def)
next
  case (Validate p current)
  then show ?thesis using validate_grows[OF assms(1)] by (simp add: exec_call_def)
next
  case (Accept p body)
  then show ?thesis using transition_kept[OF assms(1)]
    by (auto simp: exec_call_def accept_local_def split: bool.splits option.splits sum.splits)
next
  case (Revoke p body)
  then show ?thesis using transition_kept[OF assms(1)]
    by (auto simp: exec_call_def revoke_local_def split: bool.splits option.splits sum.splits)
next
  case (Withdraw p body)
  then show ?thesis using transition_kept[OF assms(1) no_withdrawn]
    by (auto simp: exec_call_def withdraw_def split: option.splits)
next
  case (Submit p body)
  then show ?thesis using transition_kept[OF assms(1)]
    by (auto simp: exec_call_def mark_submitted_def split: bool.splits option.splits sum.splits)
next
  case (Export p body)
  then show ?thesis using export_proposal_grows[OF assms(1)]
    by (auto simp: exec_call_def export_correction_def split: bool.splits option.splits)
next
  case (Redact p eid body)
  then have "\<not> b" using assms(2) by (simp add: gentle_def)
  then show ?thesis using redact_evidence_grows Redact
    by (auto simp: exec_call_def redact_correction_def split: bool.splits option.splits)
qed (use assms(2) in \<open>simp add: gentle_def\<close>)

lemma corr_store_ok: "corr_ok cat K s \<Longrightarrow> store_ok s"
  by (simp add: corr_ok_def)

interpretation history: growing_machine "\<lambda>(now, c). exec_call W now c"
    "\<lambda>s. inj_on sha256_hex K \<and> corr_ok (w_catalog W) K s" "\<lambda>(now, c). allowed_call K c \<and> gentle b c" "grows b"
  for W K b
  by unfold_locales (auto simp: exec_call_corr exec_call_grows corr_store_ok intro: grows_trans split: prod.splits)

lemma run_database:
  assumes "list_all (\<lambda>(now, c). allowed_call K c) cs" "inj_on sha256_hex K"
    "dict_get (databases (run_calls W cs empty_store)) ns = Some f"
  shows "\<exists>d. f = Db_file 1 True d \<and> ns \<in> set known_namespaces \<and> db_ok ns (raws (run_calls W cs empty_store)) d \<and> life_ok (w_catalog W) d"
proof -
  have "corr_ok (w_catalog W) K (run_calls W cs empty_store)" by (rule run_corr[OF assms(1,2)])
  then show ?thesis using assms(3) by (fastforce simp: corr_ok_def store_ok_def)
qed

section \<open>The audit\<close>

text \<open>
  C11: the update check never fails on what the app wrote.  After any run of correction calls
  (creating, revising, attaching, importing, validating, accepting, revoking, withdrawing,
  exporting, submitting, redacting, purging, in any order and with any refusals between), the
  audit of every database accepts it: its hash chains, canonical payloads, heads, namespaces,
  evidence ids and evidence bytes.  The captured texts of the run must not collide under
  SHA-256.
\<close>

theorem audit_accepts_every_run:
  assumes "list_all (\<lambda>(now, c). allowed_call K c) cs" "inj_on sha256_hex K"
    "dict_get (databases (run_calls W cs empty_store)) ns = Some f"
  shows "check_correction_database ns (run_calls W cs empty_store) f = Inr ()"
  using run_database[OF assms] audit_ok by blast

section \<open>The log\<close>

text \<open>
  C12: a proposal's row is the replay of its log.  After any run, every column of every row, the
  proposed value, the validation findings, the fingerprint, the state, level and visibility, the
  times and the identity the row was created with, is what the proposal's hash-chained events say,
  folded through the abstract lifecycle from nothing; the head is the id of the last event; and the
  numbers of attached and still readable evidence items are the log's: the mutable table holds
  nothing the append-only log does not.
\<close>

theorem rows_replay_their_log:
  assumes "list_all (\<lambda>(now, c). allowed_call K c) cs" "inj_on sha256_hex K"
    "dict_get (databases (run_calls W cs empty_store)) ns = Some (Db_file v i d)" "r \<in> set (proposals d)"
  shows "let es = events_of (proposal_id r) d; l = replay es; items = evidence_of (proposal_id r) d
    in r = (l_row l)\<lparr>head_event_id := head_of es\<rparr>
       \<and> l_attached l = length items \<and> l_live l = length (filter (\<lambda>v. \<not> redacted v) items)"
proof -
  have d: "db_ok ns (raws (run_calls W cs empty_store)) d" "life_ok (w_catalog W) d"
    using run_database[OF assms(1-3)] by auto
  then have "events_of (proposal_id r) d = mine (proposal_id r) d" using events_of_mine by (simp add: db_ok_def)
  moreover have "replay (mine (proposal_id r) d) = life_of d r" by (rule life_okD[OF d(2) assms(4)])
  moreover have "head_event_id r = head_of (mine (proposal_id r) d)" using d(1) assms(4) by (simp add: db_ok_def rows_ok_def)
  ultimately show ?thesis by (simp add: life_of_def)
qed

text \<open>
  C28: the history only grows.  From any state a run can reach, every further run of calls that
  does not purge keeps each database, its events as they are and in their order, each
  proposal's id, namespace, type, target, original value, source and creation time, and each
  evidence item's identity and digests; what was redacted stays redacted.
\<close>

theorem correction_history_grows:
  assumes "list_all (\<lambda>(now, c). allowed_call K c) before" "inj_on sha256_hex K"
    "list_all (\<lambda>(now, c). allowed_call K c \<and> gentle False c) after"
  shows "grows False (run_calls W before empty_store) (run_calls W after (run_calls W before empty_store))"
  using history.keeps_run[of K False after W "run_calls W before empty_store"] run_corr[OF assms(1,2)] assms(2,3)
  by (simp add: run_calls_def)

section \<open>What is shown\<close>

lemma run_from:
  assumes "corr_ok (w_catalog W) K s" "list_all (\<lambda>(now, c). allowed_call K c) cs" "inj_on sha256_hex K"
  shows "corr_ok (w_catalog W) K (run_calls W cs s)"
  using corrections.inv_run[of K cs W s] assms by (simp add: run_calls_def)

text \<open>
  C18: what a user sees as a local annotation was validated.  Over any run of calls, from the
  empty store or any store with the invariant, a proposal that is visible is accepted, exported
  or submitted, its last validation had no reason and no conflict and at least the structural
  level, and it is filed under the license namespace of its registered source.
\<close>

theorem annotations_were_validated:
  assumes "corr_ok (w_catalog W) K s" "list_all (\<lambda>(now, c). allowed_call K c) cs" "inj_on sha256_hex K"
    "dict_get (databases (run_calls W cs s)) ns = Some (Db_file 1 True d)" "r \<in> set (proposals d)"
    "local_visibility r = ''local_annotation''"
  shows "p_state r \<in> {''accepted_local'', ''exported'', ''submitted''} \<and> validation_json r = dumps no_findings
    \<and> verification_level r \<in> {''structural_only'', ''snapshot_verified''} \<and> namespace_for (w_catalog W) (p_source r) = Inr ns"
proof -
  have "corr_ok (w_catalog W) K (run_calls W cs s)" by (rule run_from[OF assms(1-3)])
  then have d: "db_ok ns (raws (run_calls W cs s)) d" "life_ok (w_catalog W) d"
    using assms(4) by (fastforce simp: corr_ok_def store_ok_def)+
  have safe: "row_safe (w_catalog W) r" using d(2) assms(5) by (simp add: life_ok_def)
  have st: "p_state r \<in> {''accepted_local'', ''exported'', ''submitted''}" using safe assms(6) by (simp add: row_safe_def)
  then have "p_state r \<in> set approved" by (auto simp: approved_def)
  moreover have "p_namespace r = ns" using d(1) assms(5) by (simp add: db_ok_def rows_ok_def row_ok_def)
  ultimately show ?thesis using safe st by (simp add: row_safe_def)
qed

text \<open>
  C33: withdrawal is final but for redaction.  A withdrawn proposal stays withdrawn over every
  further run of calls without a redaction and without a purge: no revision, evidence,
  validation, acceptance, revocation, export or submission brings it back.
\<close>

theorem withdrawn_is_final:
  assumes "corr_ok (w_catalog W) K s" "inj_on sha256_hex K" "list_all (\<lambda>(now, c). allowed_call K c \<and> gentle True c) cs"
    "dict_get (databases s) ns = Some (Db_file 1 True d)" "r \<in> set (proposals d)" "p_state r = ''withdrawn''"
  shows "\<exists>d' r'. dict_get (databases (run_calls W cs s)) ns = Some (Db_file 1 True d')
    \<and> r' \<in> set (proposals d') \<and> proposal_id r' = proposal_id r \<and> p_state r' = ''withdrawn''"
proof -
  have "grows True s (run_calls W cs s)"
    using history.keeps_run[of K True cs W s] assms(1-3) by (simp add: run_calls_def)
  then obtain d' where d': "dict_get (databases (run_calls W cs s)) ns = Some (Db_file 1 True d')" "extends True d d'"
    using assms(4) by (auto simp: grows_def)
  then obtain r' where "r' \<in> set (proposals d')" "row_kept True r r'"
    using kept_list_in[of "row_kept True" "proposals d" "proposals d'" r] assms(5) by (auto simp: extends_def)
  then show ?thesis using d'(1) assms(6) by (auto simp: row_kept_def)
qed

end
