(* ===== verification/Correction_Guards.thy ===== *)
theory Correction_Guards
  imports Correction_Promises
begin

text \<open>
  The guards of the correction calls: stale views, repeated creations, validations without
  evidence, and what may be exported.
\<close>

section \<open>Stale views\<close>

text \<open>The proposal a versioned call is about and the head its caller saw.\<close>

definition versioned :: "correction_call \<Rightarrow> (string \<times> string) option" where
  "versioned c =
     (case c of
        Revise p body \<Rightarrow> map_option (Pair p) (head_text body)
      | Accept p body \<Rightarrow> map_option (Pair p) (head_text body)
      | Revoke p body \<Rightarrow> map_option (Pair p) (head_text body)
      | Withdraw p body \<Rightarrow> map_option (Pair p) (head_text body)
      | Submit p body \<Rightarrow> map_option (Pair p) (head_text body)
      | Export p body \<Rightarrow> map_option (Pair p) (head_text body)
      | Redact p eid body \<Rightarrow> map_option (Pair p) (head_text body)
      | _ \<Rightarrow> None)"

lemma change_refused:
  "locate s p = Inr (ns, d, r) \<Longrightarrow> check r \<noteq> Inr () \<Longrightarrow> fst (change p check work s) = s"
  by (cases "check r") (simp_all add: change_def)

lemma expect_refused: "head_event_id r \<noteq> Some h \<Longrightarrow> expect_head (Some h) r = Inl proposal_changed"
  by (simp add: expect_head_def guardE_def)

lemma transition_stale:
  assumes "locate s p = Inr (ns, d, r)" "head_event_id r \<noteq> Some h"
  shows "fst (transition p allowed st etype payload vis (Some h) now s) = s"
  unfolding transition_def
  by (rule change_refused[OF assms(1)]) (simp add: transition_check_def expect_refused[OF assms(2)] bindE_Inr)

text \<open>
  C27: a stale view changes nothing.  A revision, acceptance, revocation, withdrawal,
  submission, export or redaction whose caller saw another head than the proposal has now
  leaves the store, the database, the evidence and the exports, exactly as it was.
\<close>

theorem stale_view_changes_nothing:
  assumes "versioned c = Some (p, h)" "locate s p = Inr (ns, d, r)" "head_event_id r \<noteq> Some h"
  shows "exec_call W now c s = s"
proof -
  note stale = transition_stale[OF assms(2,3)]
  have revise: "fst (revise_draft p pr h now s) = s" for pr
    unfolding revise_draft_def
    by (rule change_refused[OF assms(2)]) (simp add: revise_check_def bindE_Inr assms(3))
  have row: "row v = r" if "get_proposal s p = Inr v" for v using located_row[OF that assms(2)] .
  have export: "fst (export_proposal cat p (Some h) now s) = s" for cat
  proof -
    have "export_gate cat (Some h) v \<noteq> Inr ()" if "get_proposal s p = Inr v" for v
      using row[OF that] assms(3) by (simp add: export_gate_def bindE_Inr)
    moreover obtain s' a where c: "export_proposal cat p (Some h) now s = (s', a)" by fastforce
    ultimately show ?thesis by (cases rule: export_cases[OF c]) simp_all
  qed
  have redact: "fst (redact_evidence p eid (Some h) now s) = s" for eid
    using assms(2) expect_refused[OF assms(3)] by (simp add: redact_evidence_def)
  show ?thesis
    using assms(1)
    by (cases c)
      (auto simp: versioned_def exec_call_def revise_correction_def accept_local_def revoke_local_def withdraw_def
        mark_submitted_def export_correction_def redact_correction_def stale revise export redact row assms(3)
        split: bool.splits option.splits sum.splits)
qed

section \<open>Creating twice\<close>

lemma connect_put:
  "ns \<in> set known_namespaces \<Longrightarrow> connect (put_db ns d s) ns c = Inr (Some d)"
  by (simp add: connect_def put_db_def migrate_def)

lemma connect_known: "connect s ns c = Inr x \<Longrightarrow> ns \<in> set known_namespaces"
  by (simp add: connect_def split: if_splits)

lemma find_snoc: "List.find P xs = None \<Longrightarrow> P x \<Longrightarrow> List.find P (xs @ [x]) = Some x"
  by (induction xs) (auto split: if_splits)

lemma create_in_rows:
  assumes "create_in ns ctype tgt orig pr src uuid now d = Inr d'"
  obtains h where "proposals d' = map (\<lambda>r. if proposal_id r = ''cp_'' @ uuid then r\<lparr>head_event_id := Some h, updated_at := now\<rparr> else r)
      (proposals d @ [draft_row (''cp_'' @ uuid) ns ctype tgt orig pr src now])" "''cp_'' @ uuid \<notin> proposal_id ` set (proposals d)"
proof -
  let ?p = "''cp_'' @ uuid"
  define r where "r = draft_row ?p ns ctype tgt orig pr src now"
  obtain d1 where d1: "insert_proposal r d = Inr d1" "append_event ?p ''created'' (created_payload ns ctype tgt orig pr src) now d1 = Inr d'"
    using assms unfolding create_in_def bindE_Inr r_def by blast
  have r: "proposal_id r = ?p" by (simp add: r_def draft_row_def)
  have i: "?p \<notin> proposal_id ` set (proposals d)" "d1 = d\<lparr>proposals := proposals d @ [r]\<rparr>"
    using d1(1) r unfolding insert_proposal_def by (metis Inl_Inr_False) (metis d1(1) insert_proposal_def Inl_Inr_False Inr_inject)
  obtain e where "d' = update_proposal ?p (\<lambda>x. x\<lparr>head_event_id := Some (event_id e), updated_at := now\<rparr>)
      (d1\<lparr>proposal_events := proposal_events d1 @ [e]\<rparr>)"
    using d1(2) unfolding append_event_def Let_def bindE_Inr by (auto simp: insert_event_def split: if_splits)
  then have "proposals d' = map (\<lambda>x. if proposal_id x = ?p then x\<lparr>head_event_id := Some (event_id e), updated_at := now\<rparr> else x)
      (proposals d @ [r])"
    by (simp add: update_proposal_def i(2))
  then show thesis using that i(1) unfolding r_def by blast
qed

text \<open>
  C34: creating a proposal twice creates it once.  After a creation was answered, the same
  creation, with any other time and random id, changes nothing and is answered with the same
  proposal, marked as not new.
\<close>

theorem create_twice_is_once:
  assumes "create_proposal cat ctype tgt orig pr src ans uuid now s = (s', Inr (v, new))" "ans' \<noteq> Some False"
  shows "create_proposal cat ctype tgt orig' pr src ans' uuid' now' s' = (s', Inr (v, False))"
  using assms(1)
proof (cases rule: create_cases)
  case (Refused e)
  then show ?thesis by simp
next
  case (Found ns d r)
  have "view_of_row d r = Inr v" using Found(6)[symmetric] by (simp add: bindE_Inr)
  then show ?thesis using Found assms(2) by (simp add: create_proposal_def)
next
  case (Made ns d d')
  let ?p = "''cp_'' @ uuid" let ?fp = "fingerprint ns ctype tgt pr"
  let ?live = "\<lambda>r. p_fingerprint r = ?fp \<and> p_state r \<notin> {''withdrawn'', ''superseded''}"
  obtain h where h: "proposals d' = map (\<lambda>r. if proposal_id r = ?p then r\<lparr>head_event_id := Some h, updated_at := now\<rparr> else r)
      (proposals d @ [draft_row ?p ns ctype tgt orig pr src now])" "?p \<notin> proposal_id ` set (proposals d)"
    using create_in_rows[OF Made(5)] by blast
  define r where "r = (draft_row ?p ns ctype tgt orig pr src now)\<lparr>head_event_id := Some h, updated_at := now\<rparr>"
  have rows: "proposals d' = proposals d @ [r]"
  proof -
    have "\<forall>x \<in> set (proposals d). proposal_id x \<noteq> ?p" using h(2) by (metis image_eqI)
    then have "map (\<lambda>r. if proposal_id r = ?p then r\<lparr>head_event_id := Some h, updated_at := now\<rparr> else r) (proposals d) = proposals d"
      by (intro map_idI) simp
    then show ?thesis unfolding h(1) by (simp add: r_def draft_row_def)
  qed
  have "filter ?live (proposals d) = []"
    using Made(3) by (cases "sort_key created_at (filter ?live (proposals d))") (simp_all add: existing_proposal_def)
  moreover have "?live r" by (simp add: r_def draft_row_def)
  ultimately have "filter ?live (proposals d') = [r]" unfolding rows filter_append by simp
  then have ex: "existing_proposal d' ?fp = Some r" by (simp add: existing_proposal_def)
  have id: "proposal_id r = ?p" by (simp add: r_def draft_row_def)
  have "find_proposal d' ?p = Some r"
  proof -
    have "List.find (\<lambda>x. proposal_id x = ?p) (proposals d) = None" using h(2) unfolding find_None_iff by (metis image_eqI)
    then have "List.find (\<lambda>x. proposal_id x = ?p) (proposals d @ [r]) = Some r" using id by (rule find_snoc)
    then show ?thesis by (simp add: find_proposal_def rows)
  qed
  then have view: "view_of_row d' r = Inr v" using Made(7)[symmetric] by (simp add: fresh_view_def bindE_Inr)
  have "connect s' ns True = Inr (Some d')" using connect_put connect_known[OF Made(2)] Made(6) by simp
  then show ?thesis using Made(1) ex view assms(2) by (simp add: create_proposal_def)
qed

section \<open>Validating without evidence\<close>

text \<open>
  C40: a proposal without evidence is never validated.  Validating it raises whatever judging it
  raises (a kickoff precision that is a list or a dict raises \<open>TypeError\<close>); if the judgement finds
  no conflict, a withdrawn, superseded or submitted proposal raises the 409 of its state, and any
  other raises \<open>ValueError\<close>, the state \<open>draft\<close> its verdict names being none that a validation may
  write.  In all these cases the store stays as it was.
\<close>

theorem validation_needs_evidence:
  assumes "get_proposal s p = Inr v" "shown_evidence v = []"
  shows "case judge W current s v of Inl e \<Rightarrow> validate W p current now s = (s, Inl e)
    | Inr (reasons, conflicts, snaps) \<Rightarrow> conflicts = [] \<longrightarrow> validate W p current now s = (s, Inl
        (if p_state (row v) \<in> {''withdrawn'', ''superseded'', ''submitted''}
         then Store_error ''proposal_not_validatable'' 409 else Value_error))"
proof (cases "judge W current s v")
  case (Inl e)
  then show ?thesis using assms(1) by (simp add: validate_def)
next
  case (Inr j)
  obtain reasons conflicts snaps where j: "j = (reasons, conflicts, snaps)" by (cases j)
  let ?e = "if p_state (row v) \<in> {''withdrawn'', ''superseded'', ''submitted''}
         then Store_error ''proposal_not_validatable'' 409 else Value_error"
  have "validate W p current now s = (s, Inl ?e)" if none: "conflicts = []"
  proof -
    obtain typed xs where "reasons = xs @ typed @ reason_if (list_all (\<lambda>e. redacted e) (shown_evidence v)) ''source_url_and_captured_evidence_required''"
      using judge_parts[OF Inr[unfolded j]] by (auto simp: reason_codes_def bindE_Inr)
    then have "reasons \<noteq> []" using assms(2) by (simp add: reason_if_def)
    then have vd: "verdict v reasons [] snaps = (''draft'', ''none'', reasons)" using assms(2) by (simp add: verdict_def)
    obtain ns d where l: "locate s p = Inr (ns, d, row v)" using get_proposal_Inr[OF assms(1)] by blast
    have "validation_check ''draft'' (head_event_id (row v)) (row v) = Inl ?e"
      by (simp add: validation_check_def expect_head_def)
    then have "apply_validation p ''draft'' ''none'' codes [] snaps (head_event_id (row v)) now s = (s, Inl ?e)" for codes
      using l by (simp add: apply_validation_def change_def)
    then show ?thesis using assms(1) Inr vd by (simp add: validate_def j none)
  qed
  then show ?thesis by (simp add: Inr j)
qed

section \<open>What leaves the machine\<close>

text \<open>
  An exported file: canonical JSON under its license namespace, which is an exportable one, and
  named by the digest of its content.
\<close>

definition licensed_file :: "string \<Rightarrow> disk_entry \<Rightarrow> bool" where
  "licensed_file path f \<longleftrightarrow>
     (\<exists>ns xid body. path = export_path ns xid \<and> ns \<in> set exportable_namespaces \<and>
        f = Regular (canonical_line (JObj ((''export_id'', JStr xid) # body))) \<and>
        jget (JObj body) ''license_namespace'' = JStr ns \<and> xid = ''cx_'' @ sha256_hex (canonical_line (JObj body)))"

definition exports_ok :: "corr_store \<Rightarrow> bool" where
  "exports_ok s \<longleftrightarrow> dict_ok (exported_files s) \<and> (\<forall>path f. dict_get (exported_files s) path = Some f \<longrightarrow> licensed_file path f)"

lemma exports_ok_put [simp]: "exports_ok (put_db ns d s) = exports_ok s"
  by (simp add: exports_ok_def put_db_def)

lemma change_exports: "exports_ok s \<Longrightarrow> exports_ok (fst (change p check work s))"
  by (auto simp: change_def split: sum.splits prod.splits)

lemma attach_exports: "exports_ok s \<Longrightarrow> exports_ok (fst (attach_evidence p url host revision raw rc origin now s))"
proof -
  assume ok: "exports_ok s"
  obtain s' a where c: "attach_evidence p url host revision raw rc origin now s = (s', a)" by fastforce
  have files: "exports_ok s1" if "atomic_raw ns digest raw s = Inr s1" for ns digest s1
    using that ok by (auto simp: atomic_raw_def exports_ok_def split: option.splits disk_entry.splits if_splits)
  from c have "exports_ok s'" by (cases rule: attach_cases) (use ok files in auto)
  then show ?thesis by (simp add: c)
qed

lemma redact_exports: "exports_ok s \<Longrightarrow> exports_ok (fst (redact_evidence p eid expected now s))"
proof -
  assume ok: "exports_ok s"
  obtain s' a where c: "redact_evidence p eid expected now s = (s', a)" by fastforce
  have pruned: "exports_ok (unlink_exports paths (put_db ns d s))" for paths ns d
    using ok by (auto simp: exports_ok_def unlink_exports_def put_db_def dict_get_filter)
  from c have "exports_ok s'"
  proof (cases rule: redact_cases)
    case (Done ns d r v d')
    then show ?thesis
      using pruned[of "map relative_path (filter (\<lambda>x. x_proposal x = p) (exports d))" ns d']
      by (auto simp: unlink_raw_def exports_ok_def)
  qed (simp add: ok)
  then show ?thesis by (simp add: c)
qed

lemma create_exports: "exports_ok s \<Longrightarrow> exports_ok (fst (create_correction W G body uuid now s))"
proof -
  assume ok: "exports_ok s"
  have "exports_ok (fst (create_proposal cat ctype tgt orig pr src ans uuid now s))" for cat ctype tgt orig pr src ans
  proof -
    obtain s' a where c: "create_proposal cat ctype tgt orig pr src ans uuid now s = (s', a)" by fastforce
    from c have "exports_ok s'" by (cases rule: create_cases) (use ok in auto)
    then show ?thesis by (simp add: c)
  qed
  then show ?thesis using ok unfolding create_correction_def Let_def by (auto split: sum.splits prod.splits)
qed

lemma write_export_exports:
  assumes "exports_ok s" "p_namespace (row v) \<in> set exportable_namespaces"
  shows "exports_ok (fst (write_export v history source now s))"
proof -
  define body where "body = export_body v history source"
  define xid where "xid = ''cx_'' @ sha256_hex (canonical_line (JObj body))"
  define payload where "payload = canonical_line (JObj ((''export_id'', JStr xid) # body))"
  let ?path = "export_path (p_namespace (row v)) xid"
  have ns: "jget (JObj body) ''license_namespace'' = JStr (p_namespace (row v))"
    by (simp add: body_def export_body_def jget_obj)
  have "licensed_file ?path (Regular payload)"
    unfolding licensed_file_def using assms(2) ns by (auto simp: payload_def xid_def)
  then have w: "exports_ok s1" if "write_atomic ?path payload s = Inr s1" for s1
    using that assms(1) by (auto simp: write_atomic_def exports_ok_def split: option.splits disk_entry.splits if_splits)
  have rec: "exports_ok (fst (record_export q hd x pa sha n now s1))" if "exports_ok s1" for q hd x pa sha n s1
    using that by (auto simp: record_export_def Let_def split: sum.splits prod.splits)
  have e: "write_export v history source now s = (case write_atomic ?path payload s of
      Inl e \<Rightarrow> (s, Inl e)
    | Inr s' \<Rightarrow> record_export (proposal_id (row v)) (py_str (opt_json (head_event_id (row v)))) xid ?path
                 (sha256_hex payload) (length payload) now s')"
    unfolding write_export_def Let_def body_def xid_def payload_def by (rule refl)
  show ?thesis
    using assms(1) w rec unfolding e by (cases "write_atomic ?path payload s") simp_all
qed

lemma export_exports:
  assumes "corr_ok cat K s" "exports_ok s"
  shows "exports_ok (fst (export_proposal cat p expected now s))"
proof -
  obtain s' a where c: "export_proposal cat p expected now s = (s', a)" by fastforce
  from c have "exports_ok s'"
  proof (cases rule: export_cases)
    case (Gated v history)
    obtain ns d where l: "locate s p = Inr (ns, d, row v)" using get_proposal_Inr[OF Gated(1)] by blast
    have "life_ok cat d" "row v \<in> set (proposals d)" using locate_life[OF assms(1) l] by blast+
    then have "namespace_for cat (p_source (row v)) = Inr (p_namespace (row v))" by (simp add: life_ok_def row_safe_def)
    moreover have "can_export cat (p_source (row v))" using Gated(3) by (simp add: export_gate_def bindE_Inr)
    ultimately have "p_namespace (row v) \<in> set exportable_namespaces" using export_namespace by fastforce
    then show ?thesis using Gated(4) write_export_exports[OF assms(2)] assms(2) by (metis fst_conv)
  qed (simp add: assms)
  then show ?thesis by (simp add: c)
qed

lemma exec_call_exports:
  assumes "corr_ok (w_catalog W) K s" "exports_ok s"
  shows "exports_ok (exec_call W now c s)"
proof -
  have t: "exports_ok (fst (transition p al st et pl vis e now s))" for p al st et pl vis e
    unfolding transition_def by (rule change_exports[OF assms(2)])
  have r: "exports_ok (fst (revise_draft p pr e now s))" for p pr e
    unfolding revise_draft_def by (rule change_exports[OF assms(2)])
  have v: "exports_ok (fst (validate W p cur now s))" for p cur
    using assms(2) change_exports[OF assms(2)] unfolding validate_def apply_validation_def Let_def
    by (auto split: sum.splits prod.splits)
  show ?thesis
    using assms(2) create_exports[OF assms(2)] attach_exports[OF assms(2)] redact_exports[OF assms(2)] export_exports[OF assms] t r v
    by (cases c)
      (auto simp: exec_call_def revise_correction_def attach_correction_evidence_def accept_local_def revoke_local_def
        withdraw_def mark_submitted_def export_correction_def redact_correction_def purge_corrections_def purge_def
        empty_store_def exports_ok_def[of "\<lparr>databases = [], raws = [], exported_files = []\<rparr>"]
        split: json.splits bool.splits option.splits sum.splits prod.splits)
qed

interpretation shared: machine "\<lambda>(now, c). exec_call W now c"
    "\<lambda>s. inj_on sha256_hex K \<and> corr_ok (w_catalog W) K s \<and> exports_ok s" "\<lambda>(now, c). allowed_call K c"
  for W K
  by unfold_locales (auto simp: exec_call_corr exec_call_exports split: prod.splits)

text \<open>
  C29: only licensed exports leave the machine.  Over any run of calls every exported file is
  canonical JSON named by the digest of its content, states its license namespace, and that
  namespace is one of the four that may be redistributed.
\<close>

theorem exports_are_licensed:
  assumes "corr_ok (w_catalog W) K s" "exports_ok s" "list_all (\<lambda>(now, c). allowed_call K c) cs" "inj_on sha256_hex K"
    "dict_get (exported_files (run_calls W cs s)) path = Some f"
  shows "licensed_file path f"
  using shared.inv_run[of K cs W s] assms by (simp add: run_calls_def exports_ok_def)

end
