(* ===== verification/Correction_Samples.thy ===== *)
theory Correction_Samples
  imports Correction_Guards
begin

text \<open>The promises of the correction store at concrete inputs.\<close>

section \<open>A world and a creation\<close>

definition any_texts :: texts where
  "any_texts = \<lparr>sanitize = Inr, casefold = (\<lambda>s. s), strip = (\<lambda>s. s), fromisoformat = (\<lambda>_. None)\<rparr>"

definition sample_policy :: json where
  "sample_policy = JObj [(''enabled'', JBool True), (''license_namespace'', JStr ''core-cc0''),
     (''allowed_types'', JArr [JStr ''missing_fixture'']), (''redistributable_export'', JBool True),
     (''contribution_url'', JStr ''u'')]"

definition sample_source :: json where
  "sample_source = JObj [(''name'', JStr ''S''), (''license'', JStr ''CC0''), (''corrections'', sample_policy)]"

definition sample_world :: world where
  "sample_world = \<lparr>w_catalog = [(''src'', sample_source)], w_texts = any_texts, w_manifest = None,
     w_source = (\<lambda>_ _ _. None)\<rparr>"

definition sample_generation :: stable_generation where
  "sample_generation = \<lparr>g_id = JNull, g_index = JNull, g_match = (\<lambda>_. None), g_commit = True\<rparr>"

definition sample_body :: json where
  "sample_body = JObj [(''correction_type'', JStr ''missing_fixture''), (''source_id'', JStr ''src''),
     (''target'', JObj []), (''proposed'', JObj [(''home_team'', JStr ''A'')])]"

definition sample_uuid :: string where
  "sample_uuid = ''0123456789abcdef0123456789abcdef''"

definition sample_proposed :: json where
  "sample_proposed = JObj [(''home_team'', JStr ''A'')]"

definition sample_target :: json where
  "sample_target = JObj [(''kind'', JStr ''fixture_candidate''), (''match_id'', JNull), (''entity_id'', JNull),
     (''upstream_record_key'', JNull), (''base_generation_id'', JNull), (''index_fingerprint'', JNull)]"

definition sample_id :: string where
  "sample_id = ''cp_'' @ sample_uuid"

text \<open>The database after the first creation in a namespace.\<close>

definition fresh_row :: "string \<Rightarrow> proposal_row" where
  "fresh_row now = (draft_row sample_id ''core-cc0'' ''missing_fixture'' sample_target None sample_proposed (Some ''src'') now)
     \<lparr>head_event_id := Some (event_id (next_event sample_id ''created''
        (created_payload ''core-cc0'' ''missing_fixture'' sample_target None sample_proposed (Some ''src'')) now [])),
      updated_at := now\<rparr>"

definition fresh_db :: "string \<Rightarrow> db" where
  "fresh_db now = \<lparr>proposals = [fresh_row now],
     proposal_events = [next_event sample_id ''created''
        (created_payload ''core-cc0'' ''missing_fixture'' sample_target None sample_proposed (Some ''src'')) now []],
     evidence = [], exports = []\<rparr>"

definition fresh_store :: "string \<Rightarrow> corr_store" where
  "fresh_store now = put_db ''core-cc0'' (fresh_db now) empty_store"

lemma sample_namespace: "namespace_for (w_catalog sample_world) (Some ''src'') = Inr ''core-cc0''"
  by (simp add: namespace_for_def policy_for_def sample_world_def sample_source_def sample_policy_def jget_obj
      json_set_def item_def py_str_def Let_def)

lemma create_in_fresh:
  "create_in ''core-cc0'' ''missing_fixture'' sample_target None sample_proposed (Some ''src'') sample_uuid now empty_db = Inr (fresh_db now)"
  unfolding create_in_def sample_id_def[symmetric]
  by (simp add: insert_proposal_def empty_db_def append_event_def events_of_def insert_event_def Let_def
      update_proposal_def fresh_db_def fresh_row_def draft_row_def next_event_def new_event_def)

lemma sample_objects [simp]: "wf_obj sample_target" "wf_obj sample_proposed" "wf_json sample_body" "generation_ok sample_generation"
  by (auto simp: wf_obj_def sample_target_def sample_proposed_def sample_body_def generation_ok_def sample_generation_def dict_ok_def)

definition sample_view :: "string \<Rightarrow> proposal_view" where
  "sample_view now = \<lparr>row = fresh_row now, target = normalise sample_target, original = JNull,
     proposed = normalise sample_proposed, validation = normalise no_findings, shown_evidence = []\<rparr>"

lemma fresh_row_view: "view_of_row (fresh_db now) (fresh_row now) = Inr (sample_view now)"
  using sample_objects(1,2) wf_obj_no_findings
  by (simp add: view_of_row_def fresh_row_def draft_row_def decode_def loads_dumps wf_obj_def sample_view_def
      evidence_rows_def fresh_db_def)

lemma fresh_row_id: "proposal_id (fresh_row now) = sample_id"
  by (simp add: fresh_row_def draft_row_def)

lemma fresh_created:
  "create_proposal (w_catalog sample_world) ''missing_fixture'' sample_target None sample_proposed (Some ''src'') (Some True) sample_uuid now empty_store
     = (fresh_store now, Inr (sample_view now, True))"
proof -
  have c: "connect empty_store ''core-cc0'' True = Inr (Some empty_db)"
    by (simp add: connect_def empty_store_def known_namespaces_def)
  have e: "existing_proposal empty_db fp = None" for fp by (simp add: existing_proposal_def empty_db_def)
  have f: "fresh_view sample_id (fresh_db now) = Inr (sample_view now)"
    using fresh_row_view[of now] by (simp add: fresh_view_def find_proposal_def fresh_db_def fresh_row_id)
  show ?thesis
    unfolding create_proposal_def sample_namespace bindE_simps c sum.case prod.case option.case e create_in_fresh
    by (simp add: fresh_store_def f sample_id_def[symmetric] del: append_Cons)
qed

lemma fresh_run: "run_calls sample_world [(now, Create sample_generation sample_body sample_uuid)] empty_store = fresh_store now"
proof -
  have "target_of ''missing_fixture'' JNull sample_proposed None JNull JNull = sample_target"
    by (simp add: target_of_def object_kind_def sample_target_def sample_proposed_def jget_obj)
  moreover have "normalize_proposed any_texts 0 (JObj [(''home_team'', JStr ''A'')]) = Inr sample_proposed"
    by (simp add: any_texts_def char_count_def is_continuation_def sample_proposed_def)
  moreover have "policy_for (w_catalog sample_world) (Some ''src'') = Some (json_set ''source'' sample_source sample_policy, sample_source)"
    by (simp add: policy_for_def sample_world_def sample_source_def sample_policy_def jget_obj Let_def)
  moreover have "validate_type (w_catalog sample_world) (Some ''src'') ''missing_fixture'' = Inr ()"
    using calculation(3) by (simp add: validate_type_def correction_types_def item_def json_set_def sample_policy_def json_items_def)
  ultimately have "create_correction sample_world sample_generation sample_body sample_uuid now empty_store =
      create_proposal (w_catalog sample_world) ''missing_fixture'' sample_target None sample_proposed (Some ''src'') (Some True) sample_uuid now empty_store"
    by (simp add: create_correction_def sample_body_def jget_obj Let_def py_str_def correction_types_def source_id_pattern_def
        is_digit_def derive_original_def match_for_def sample_world_def sample_generation_def)
  then show ?thesis by (simp add: run_calls_def exec_call_def fresh_created)
qed

lemma fresh_get: "dict_get (databases (fresh_store now)) ''core-cc0'' = Some (Db_file 1 True (fresh_db now))"
  by (simp add: fresh_store_def put_db_def)

theorem audit_accepts_every_run_witness:
  "\<exists>s f. s = run_calls sample_world [(''t'', Create sample_generation sample_body sample_uuid)] empty_store
     \<and> dict_get (databases s) ''core-cc0'' = Some f \<and> check_correction_database ''core-cc0'' s f = Inr ()"
  using audit_accepts_every_run[of "{}" "[(''t'', Create sample_generation sample_body sample_uuid)]" sample_world "''core-cc0''"]
  by (simp add: fresh_run fresh_get allowed_call_def)

theorem rows_replay_their_log_witness:
  "\<exists>d r. dict_get (databases (run_calls sample_world [(''t'', Create sample_generation sample_body sample_uuid)] empty_store)) ''core-cc0''
       = Some (Db_file 1 True d) \<and> proposals d = [r]
     \<and> r = (l_row (replay (events_of (proposal_id r) d)))\<lparr>head_event_id := head_of (events_of (proposal_id r) d)\<rparr>"
proof -
  have run: "dict_get (databases (run_calls sample_world [(''t'', Create sample_generation sample_body sample_uuid)] empty_store)) ''core-cc0''
      = Some (Db_file 1 True (fresh_db ''t''))"
    by (simp add: fresh_run fresh_get)
  have calls: "list_all (\<lambda>(now, c). allowed_call {} c) [(''t'', Create sample_generation sample_body sample_uuid)]"
    by (simp add: allowed_call_def)
  have rows: "proposals (fresh_db ''t'') = [fresh_row ''t'']" by (simp add: fresh_db_def)
  then have "fresh_row ''t'' \<in> set (proposals (fresh_db ''t''))" by simp
  note rows_replay_their_log[OF calls inj_on_empty run this, unfolded Let_def, THEN conjunct1]
  then show ?thesis using run rows by blast
qed

theorem correction_history_grows_witness:
  "grows False (run_calls sample_world [(''t'', Create sample_generation sample_body sample_uuid)] empty_store)
     (run_calls sample_world [(''u'', Withdraw sample_id (JObj [(''expected_head_event_id'', JStr ''ce'')]))]
        (run_calls sample_world [(''t'', Create sample_generation sample_body sample_uuid)] empty_store))"
  by (rule correction_history_grows[of "{}"]) (simp_all add: allowed_call_def gentle_def)

section \<open>Guards\<close>

lemma fresh_locate: "locate (fresh_store now) sample_id = Inr (''core-cc0'', fresh_db now, fresh_row now)"
proof -
  have i: "length sample_id = 35" "starts_with ''cp_'' sample_id" by (simp_all add: sample_id_def sample_uuid_def starts_with_def)
  have "connect (fresh_store now) ''core-cc0'' False = Inr (Some (fresh_db now))"
    by (simp add: fresh_store_def connect_put known_namespaces_def)
  moreover have "find_proposal (fresh_db now) sample_id = Some (fresh_row now)" by (simp add: find_proposal_def fresh_db_def fresh_row_id)
  ultimately show ?thesis using i by (simp add: locate_def known_namespaces_def)
qed

theorem stale_view_changes_nothing_witness:
  "exec_call sample_world ''u'' (Withdraw sample_id (JObj [(''expected_head_event_id'', JStr ''stale'')])) (fresh_store ''t'') = fresh_store ''t''"
proof (rule stale_view_changes_nothing[OF _ fresh_locate])
  show "versioned (Withdraw sample_id (JObj [(''expected_head_event_id'', JStr ''stale'')])) = Some (sample_id, ''stale'')"
    by (simp add: versioned_def head_text_def jget_obj)
  show "head_event_id (fresh_row ''t'') \<noteq> Some ''stale''" by (simp add: fresh_row_def next_event_def new_event_def Let_def)
qed

theorem create_twice_is_once_witness:
  "create_proposal (w_catalog sample_world) ''missing_fixture'' sample_target None sample_proposed (Some ''src'') (Some True) ''other'' ''later'' (fresh_store ''t'')
     = (fresh_store ''t'', Inr (sample_view ''t'', False))"
  by (rule create_twice_is_once[OF fresh_created]) simp

theorem validation_needs_evidence_witness:
  "validate sample_world sample_id None ''u'' (fresh_store ''t'') = (fresh_store ''t'', Inl Value_error)"
proof -
  let ?v = "sample_view ''t''"
  have get: "get_proposal (fresh_store ''t'') sample_id = Inr ?v" by (simp add: get_proposal_def fresh_locate fresh_row_view)
  have "type_reasons (w_catalog sample_world) (p_source (row ?v)) (correction_type (row ?v)) = Inr []"
  proof -
    have "policy_for (w_catalog sample_world) (Some ''src'') = Some (json_set ''source'' sample_source sample_policy, sample_source)"
      by (simp add: policy_for_def sample_world_def sample_source_def sample_policy_def jget_obj Let_def)
    then show ?thesis
      by (simp add: type_reasons_def sample_view_def fresh_row_def draft_row_def validate_type_def correction_types_def
          item_def json_set_def sample_policy_def json_items_def)
  qed
  moreover have "\<exists>fields. typed_reasons (w_texts sample_world) (correction_type (row ?v)) (proposed ?v) (original ?v) (p_source (row ?v)) = Inr fields"
    by (simp add: typed_reasons_def fixture_reasons_def kickoff_reasons_def in_texts_def sample_view_def fresh_row_def
        draft_row_def sample_proposed_def jget_obj Let_def)
  ultimately obtain xs where rs: "reason_codes sample_world ?v = Inr (xs @ [''source_url_and_captured_evidence_required''])"
    by (fastforce simp: reason_codes_def reason_if_def sample_view_def)
  have own: "own_conflicts None ?v = Inr []" by (simp add: own_conflicts_def sample_view_def fresh_row_def draft_row_def)
  have "competing_in ?v (fresh_db ''t'') = Inr []" by (simp add: competing_in_def fresh_db_def sample_view_def)
  moreover have "connect (fresh_store ''t'') ns False = Inr None" if "ns \<noteq> ''core-cc0''" "ns \<in> set known_namespaces" for ns
    using that by (simp add: connect_def fresh_store_def put_db_def empty_store_def)
  moreover have "connect (fresh_store ''t'') ''core-cc0'' False = Inr (Some (fresh_db ''t''))"
    by (simp add: fresh_store_def connect_put known_namespaces_def)
  ultimately have "competing_proposals (fresh_store ''t'') ?v = Inr []"
    by (simp add: competing_proposals_def known_namespaces_def)
  then have "judge sample_world None (fresh_store ''t'') ?v = Inr (xs @ [''source_url_and_captured_evidence_required''], [], [])"
    by (simp add: judge_def rs own)
  then show ?thesis
    using validation_needs_evidence[OF get, of sample_world None "''u''"]
    by (simp add: sample_view_def fresh_row_def draft_row_def)
qed

section \<open>Stores with a longer history\<close>

text \<open>The chain that a list of steps (event type, payload, time) makes.\<close>

definition chain_of :: "string \<Rightarrow> (string \<times> json \<times> string) list \<Rightarrow> event_row list" where
  "chain_of p steps = foldl (\<lambda>es (etype, payload, now). es @ [next_event p etype payload now es]) [] steps"

lemma chain_of_ok:
  "list_all (\<lambda>(etype, payload, now). wf_obj payload) steps \<Longrightarrow> chain_from p 0 None (chain_of p steps) \<and>
     replay (chain_of p steps) = foldl (\<lambda>l (etype, payload, now). life_step p now etype (normalise payload) l) blank_life steps"
proof (induction steps rule: rev_induct)
  case Nil
  then show ?case by (simp add: chain_of_def replay_def)
next
  case (snoc x steps)
  obtain etype payload now where x: "x = (etype, payload, now)" by (cases x)
  have w: "wf_obj payload" and ih: "chain_from p 0 None (chain_of p steps)"
      "replay (chain_of p steps) = foldl (\<lambda>l (etype, payload, now). life_step p now etype (normalise payload) l) blank_life steps"
    using snoc x by simp_all
  have c: "chain_of p (steps @ [x]) = chain_of p steps @ [next_event p etype payload now (chain_of p steps)]"
    by (simp add: chain_of_def x)
  show ?case
    unfolding c chain_snoc replay_snoc
    using next_event_fits[OF w ih(1)] ih by (simp add: x payload_next[OF w] type_next)
qed

lemma chain_of_nonempty: "steps \<noteq> [] \<Longrightarrow> chain_of p steps \<noteq> []"
  by (induction steps rule: rev_induct) (auto simp: chain_of_def split: prod.splits)

definition old_evidence :: evidence_row where
  "old_evidence = \<lparr>evidence_id = evidence_hash sample_id ''url'' (sha256_hex ''text''), v_proposal = sample_id, source_url = ''url'',
     hostname = ''host'', v_source = ''src'', v_namespace = ''core-cc0'', source_revision = None, raw_sha = sha256_hex ''text'',
     raw_bytes = 4, sanitized_text = ''text'', sanitized_sha = sha256_hex ''text'', snapshot_verified = False,
     captured_at = ''t'', redacted = False\<rparr>"

definition old_base :: "string \<Rightarrow> string \<Rightarrow> proposal_row" where
  "old_base st vis = \<lparr>proposal_id = sample_id, p_namespace = ''core-cc0'', correction_type = ''missing_fixture'', p_state = st,
     verification_level = ''structural_only'', target_json = dumps (JObj []), original_json = None, proposed_json = dumps (JObj []),
     p_source = Some ''src'', validation_json = dumps no_findings, local_visibility = vis,
     p_fingerprint = fingerprint ''core-cc0'' ''missing_fixture'' (JObj []) (JObj []),
     created_at = ''t'', updated_at = ''t'', head_event_id = None\<rparr>"

definition old_row :: "string \<Rightarrow> string \<Rightarrow> (string \<times> json \<times> string) list \<Rightarrow> proposal_row" where
  "old_row st vis steps = (old_base st vis)\<lparr>head_event_id := head_of (chain_of sample_id steps)\<rparr>"

definition old_life :: "string \<Rightarrow> string \<Rightarrow> life" where
  "old_life st vis = \<lparr>l_row = old_base st vis, l_attached = 1, l_live = 1\<rparr>"

definition old_db :: "string \<Rightarrow> string \<Rightarrow> (string \<times> json \<times> string) list \<Rightarrow> db" where
  "old_db st vis steps = \<lparr>proposals = [old_row st vis steps], proposal_events = chain_of sample_id steps,
     evidence = [old_evidence], exports = []\<rparr>"

definition old_store :: "string \<Rightarrow> string \<Rightarrow> (string \<times> json \<times> string) list \<Rightarrow> corr_store" where
  "old_store st vis steps = \<lparr>databases = [(''core-cc0'', Db_file 1 True (old_db st vis steps))],
     raws = [((''core-cc0'', sha256_hex ''text''), Regular ''text'')], exported_files = []\<rparr>"

definition sample_created :: json where
  "sample_created = created_payload ''core-cc0'' ''missing_fixture'' (JObj []) None (JObj []) (Some ''src'')"

definition validated_payload :: json where
  "validated_payload = JObj [(''state'', JStr ''validated_candidate''), (''verification_level'', JStr ''structural_only''),
     (''reason_codes'', JArr []), (''conflicts'', JArr [])]"

definition validated_steps :: "(string \<times> json \<times> string) list" where
  "validated_steps = [(''created'', sample_created, ''t''), (''evidence_attached'', JObj [], ''t''), (''validation_passed'', validated_payload, ''t'')]"

definition history_ok :: "string \<Rightarrow> string \<Rightarrow> (string \<times> json \<times> string) list \<Rightarrow> bool" where
  "history_ok st vis steps \<longleftrightarrow> steps \<noteq> [] \<and> list_all (\<lambda>(etype, payload, now). wf_obj payload) steps \<and>
     foldl (\<lambda>l (etype, payload, now). life_step sample_id now etype (normalise payload) l) blank_life steps = old_life st vis"

lemma old_store_ok:
  assumes "history_ok st vis steps" "row_safe (w_catalog sample_world) (old_row st vis steps)"
  shows "corr_ok (w_catalog sample_world) {''text''} (old_store st vis steps)"
proof -
  let ?d = "old_db st vis steps" and ?R = "raws (old_store st vis steps)"
  have c: "chain_from sample_id 0 None (chain_of sample_id steps)"
      "replay (chain_of sample_id steps) = old_life st vis"
    using chain_of_ok[of steps sample_id] assms(1) by (simp_all add: history_ok_def)
  have own: "e_proposal e = sample_id" if "e \<in> set (chain_of sample_id steps)" for e using chain_proposal[OF c(1) that] .
  have m: "mine q ?d = (if q = sample_id then chain_of sample_id steps else [])" for q
    using own by (auto simp: mine_def old_db_def filter_id_conv filter_empty_conv)
  have obj: "object_json (dumps (JObj []))" by (rule object_dumps) (simp add: wf_obj_def)
  have rows: "rows_ok ''core-cc0'' ?d"
    by (simp add: rows_ok_def ids_def old_db_def m[unfolded old_db_def] row_ok_def obj object_dumps)
       (simp add: old_row_def old_base_def row_ok_def obj object_dumps m[unfolded old_db_def])
  have "chains_ok ?d" by (simp add: chains_ok_def m c(1))
  moreover have "foreign_keys_ok ?d" using own by (simp add: foreign_keys_ids ids_def old_db_def) (simp add: old_row_def old_base_def old_evidence_def)
  moreover have "evidence_ok ''core-cc0'' ?R old_evidence" by (simp add: evidence_ok_def old_evidence_def old_store_def)
  ultimately have "db_ok ''core-cc0'' ?R ?d" using rows by (simp add: db_ok_def) (simp add: old_db_def)
  moreover have "life_ok (w_catalog sample_world) ?d"
    using assms(2) c(2) m[of sample_id] by (simp add: life_ok_def old_db_def life_of_def evidence_of_def) (simp add: old_row_def old_base_def old_life_def old_evidence_def)
  ultimately show ?thesis
    by (auto simp: corr_ok_def store_ok_def captured_in_def old_store_def known_namespaces_def dict_ok_def split: if_splits)
qed

lemma validated_objects: "wf_obj (JObj [])" "wf_obj validated_payload" "wf_obj sample_created"
  by (simp_all add: wf_obj_def validated_payload_def sample_created_def created_payload_def opt_json_def dict_ok_def)

lemma validated_fields:
  "jget (normalise validated_payload) ''state'' = JStr ''validated_candidate''"
  "jget (normalise validated_payload) ''verification_level'' = JStr ''structural_only''"
  "jget (normalise validated_payload) ''reason_codes'' = JArr []" "jget (normalise validated_payload) ''conflicts'' = JArr []"
  using validated_objects(2) by (simp_all add: wf_obj_def jget_normal) (simp_all add: validated_payload_def jget_obj)

lemma sample_born: "born sample_id ''t'' (normalise sample_created) =
    draft_row sample_id ''core-cc0'' ''missing_fixture'' (JObj []) None (JObj []) (Some ''src'') ''t''"
  unfolding sample_created_def by (rule born_created) (simp add: create_args_def wf_obj_def)

lemma validated_life:
  "life_step sample_id ''t'' ''validation_passed'' (normalise validated_payload) (life_step sample_id ''t'' ''evidence_attached'' (JObj [])
     (life_step sample_id ''t'' ''created'' (normalise sample_created) blank_life)) = old_life ''validated_candidate'' ''queue_only''"
  by (simp add: life_step_def life_move_def validated_fields reset_def on_row_def text_of_def sample_born old_life_def old_base_def
      draft_row_def no_findings_def)

lemma validated_history:
  "history_ok st vis (validated_steps @ extra) \<longleftrightarrow> list_all (\<lambda>(etype, payload, now). wf_obj payload) extra \<and>
     foldl (\<lambda>l (etype, payload, now). life_step sample_id now etype (normalise payload) l) (old_life ''validated_candidate'' ''queue_only'') extra
     = old_life st vis"
  by (simp add: history_ok_def validated_steps_def validated_objects validated_life)

lemmas old_simps = validated_objects life_step_simps on_row_def old_life_def old_base_def

lemma old_row_safe:
  assumes "st = ''withdrawn'' \<or> st \<in> set active_states"
    "vis = ''local_annotation'' \<Longrightarrow> st \<in> {''accepted_local'', ''exported'', ''submitted''}"
  shows "row_safe (w_catalog sample_world) (old_row st vis steps)"
  using assms sample_namespace by (simp add: row_safe_def old_row_def old_base_def)

lemma old_row_fields:
  "proposal_id (old_row st vis steps) = sample_id" "p_state (old_row st vis steps) = st"
  "local_visibility (old_row st vis steps) = vis" "p_source (old_row st vis steps) = Some ''src''"
  "p_namespace (old_row st vis steps) = ''core-cc0''"
  by (simp_all add: old_row_def old_base_def)

definition accepted_steps :: "(string \<times> json \<times> string) list" where
  "accepted_steps = validated_steps @ [(''accepted_local'', JObj [], ''t'')]"

theorem annotations_were_validated_witness:
  "\<exists>s r. s = run_calls sample_world [(''u'', Withdraw sample_id (JObj []))] (old_store ''accepted_local'' ''local_annotation'' accepted_steps)
     \<and> r \<in> set (proposals (old_db ''accepted_local'' ''local_annotation'' accepted_steps))
     \<and> verification_level r \<in> {''structural_only'', ''snapshot_verified''} \<and> namespace_for (w_catalog sample_world) (p_source r) = Inr ''core-cc0''"
proof -
  let ?s = "old_store ''accepted_local'' ''local_annotation'' accepted_steps"
  let ?r = "old_row ''accepted_local'' ''local_annotation'' accepted_steps"
  have "history_ok ''accepted_local'' ''local_annotation'' accepted_steps"
    unfolding accepted_steps_def validated_history by (simp add: old_simps)
  then have ok: "corr_ok (w_catalog sample_world) {''text''} ?s"
    by (rule old_store_ok) (rule old_row_safe; simp add: active_states_def)
  have same: "run_calls sample_world [(''u'', Withdraw sample_id (JObj []))] ?s = ?s"
    by (simp add: run_calls_def exec_call_def withdraw_def head_text_def jget_obj)
  have "?r \<in> set (proposals (old_db ''accepted_local'' ''local_annotation'' accepted_steps))" by (simp add: old_db_def)
  then show ?thesis
    using annotations_were_validated[OF ok, of "[(''u'', Withdraw sample_id (JObj []))]" "''core-cc0''"
        "old_db ''accepted_local'' ''local_annotation'' accepted_steps" ?r, unfolded same]
    by (fastforce simp: allowed_call_def old_row_fields same old_store_def)
qed

definition withdrawn_steps :: "(string \<times> json \<times> string) list" where
  "withdrawn_steps = validated_steps @ [(''withdrawn'', JObj [], ''t'')]"

theorem withdrawn_is_final_witness:
  "\<exists>d' r'. dict_get (databases (run_calls sample_world [(''u'', Accept sample_id sample_body), (''v'', Revise sample_id sample_body)]
        (old_store ''withdrawn'' ''queue_only'' withdrawn_steps))) ''core-cc0'' = Some (Db_file 1 True d')
     \<and> r' \<in> set (proposals d') \<and> proposal_id r' = sample_id \<and> p_state r' = ''withdrawn''"
proof -
  let ?s = "old_store ''withdrawn'' ''queue_only'' withdrawn_steps"
  have "history_ok ''withdrawn'' ''queue_only'' withdrawn_steps"
    unfolding withdrawn_steps_def validated_history by (simp add: old_simps)
  then have ok: "corr_ok (w_catalog sample_world) {''text''} ?s"
    by (rule old_store_ok) (rule old_row_safe; simp)
  show ?thesis
    using withdrawn_is_final[OF ok, of "[(''u'', Accept sample_id sample_body), (''v'', Revise sample_id sample_body)]" "''core-cc0''"
        "old_db ''withdrawn'' ''queue_only'' withdrawn_steps" "old_row ''withdrawn'' ''queue_only'' withdrawn_steps"]
    by (simp add: allowed_call_def gentle_def old_row_fields old_store_def old_db_def)
qed

text \<open>An exported proposal, exported again because its file is gone.\<close>

definition exported_steps :: "(string \<times> json \<times> string) list" where
  "exported_steps = validated_steps @ [(''exported'', JObj [], ''t'')]"

definition exported_head :: string where
  "exported_head = py_str (opt_json (head_of (chain_of sample_id exported_steps)))"

definition export_request :: json where
  "export_request = JObj [(''confirm'', JStr ''reviewed_for_public_export''), (''expected_head_event_id'', JStr exported_head)]"

lemma old_locate: "locate (old_store st vis steps) sample_id = Inr (''core-cc0'', old_db st vis steps, old_row st vis steps)"
proof -
  have i: "length sample_id = 35" "starts_with ''cp_'' sample_id" by (simp_all add: sample_id_def sample_uuid_def starts_with_def)
  have "connect (old_store st vis steps) ''core-cc0'' False = Inr (Some (old_db st vis steps))"
    by (simp add: connect_def old_store_def known_namespaces_def migrate_def)
  moreover have "find_proposal (old_db st vis steps) sample_id = Some (old_row st vis steps)"
    by (simp add: find_proposal_def old_db_def old_row_fields)
  ultimately show ?thesis using i by (simp add: locate_def known_namespaces_def)
qed

lemma chain_head: "steps \<noteq> [] \<Longrightarrow> \<exists>h. head_of (chain_of p steps) = Some h"
  using chain_of_nonempty[of steps p] by (cases "chain_of p steps" rule: rev_cases) (simp_all add: head_of_def)

lemma sample_licensed:
  "can_export (w_catalog sample_world) (Some ''src'')" "\<exists>source. public_source (w_catalog sample_world) ''src'' = Inr source"
proof -
  have "policy_for (w_catalog sample_world) (Some ''src'') = Some (json_set ''source'' sample_source sample_policy, sample_source)"
    by (simp add: policy_for_def sample_world_def sample_source_def sample_policy_def jget_obj Let_def)
  then show "can_export (w_catalog sample_world) (Some ''src'')" "\<exists>source. public_source (w_catalog sample_world) ''src'' = Inr source"
    by (simp_all add: can_export_def public_source_def exportable_namespaces_def item_def sample_source_def sample_policy_def json_set_def jget_obj)
qed

lemma old_view:
  "\<exists>v. get_proposal (old_store st vis steps) sample_id = Inr v \<and> row v = old_row st vis steps"
proof -
  have "decode (Some (dumps (JObj []))) = Inr (JObj [])" by (simp add: decode_def loads_dumps)
  moreover have "decode (Some (dumps no_findings)) = Inr (normalise no_findings)"
    using wf_obj_no_findings by (simp add: decode_def loads_dumps wf_obj_def)
  ultimately show ?thesis by (simp add: get_proposal_def old_locate view_of_row_def old_row_def old_base_def decode_def)
qed

lemma recorded_files: "exported_files (fst (record_export p head xid path sha bytes now s)) = exported_files s"
  by (auto simp: record_export_def Let_def put_db_def split: sum.splits)

lemma export_again:
  "\<exists>path f. dict_get (exported_files (run_calls sample_world [(''u'', Export sample_id export_request)]
      (old_store ''exported'' ''queue_only'' exported_steps))) path = Some f"
proof -
  let ?s = "old_store ''exported'' ''queue_only'' exported_steps"
  let ?r = "old_row ''exported'' ''queue_only'' exported_steps"
  obtain v where v: "get_proposal ?s sample_id = Inr v" "row v = ?r" using old_view by blast
  obtain source where src: "public_source (w_catalog sample_world) ''src'' = Inr source" using sample_licensed(2) by blast
  have "exported_steps \<noteq> []" by (simp add: exported_steps_def)
  then obtain h where h: "head_of (chain_of sample_id exported_steps) = Some h" using chain_head by blast
  then have head: "head_event_id ?r = Some exported_head" by (simp add: old_row_def old_base_def exported_head_def py_str_def opt_json_def)
  have request: "jget export_request ''confirm'' = JStr ''reviewed_for_public_export''" "head_text export_request = Some exported_head"
    by (simp_all add: export_request_def jget_obj head_text_def)
  have gate: "export_gate (w_catalog sample_world) (Some exported_head) v = Inr ()"
    by (simp add: export_gate_def v(2) head old_row_fields sample_licensed(1))
  have "exec_call sample_world ''u'' (Export sample_id export_request) ?s
      = fst (write_export v (events_of sample_id (old_db ''exported'' ''queue_only'' exported_steps)) source ''u'' ?s)"
    by (simp add: exec_call_def export_correction_def request export_proposal_def v(1) proposal_history_def old_locate gate
        latest_export_def standing_export_def old_db_def v(2) old_row_fields py_str_def opt_json_def src)
  also have "\<exists>path f. dict_get (exported_files \<dots>) path = Some f"
    by (simp add: write_export_def Let_def write_atomic_def old_store_def recorded_files)
  finally show ?thesis by (simp add: run_calls_def)
qed

theorem exports_are_licensed_witness:
  "\<exists>path f. dict_get (exported_files (run_calls sample_world [(''u'', Export sample_id export_request)]
      (old_store ''exported'' ''queue_only'' exported_steps))) path = Some f \<and> licensed_file path f"
proof -
  let ?s = "old_store ''exported'' ''queue_only'' exported_steps"
  have "history_ok ''exported'' ''queue_only'' exported_steps"
    unfolding exported_steps_def validated_history by (simp add: old_simps)
  then have ok: "corr_ok (w_catalog sample_world) {''text''} ?s"
    by (rule old_store_ok) (rule old_row_safe; simp add: active_states_def)
  have empty: "exports_ok ?s" by (simp add: exports_ok_def old_store_def dict_ok_def)
  obtain path f where "dict_get (exported_files (run_calls sample_world [(''u'', Export sample_id export_request)] ?s)) path = Some f"
    using export_again by blast
  then show ?thesis using exports_are_licensed[OF ok empty, of "[(''u'', Export sample_id export_request)]"]
    by (fastforce simp: allowed_call_def)
qed

end
