(* ===== verification/Pretty_Json.thy ===== *)
theory Pretty_Json
  imports Json
begin

text \<open>
  \<open>json.dumps(value, indent=2, sort_keys=True)\<close> and its round trip.  The files written this way
  hold ASCII texts only, where \<open>ensure_ascii\<close> changes nothing.
\<close>

section \<open>The printer\<close>

definition line_break :: "nat \<Rightarrow> string" where
  "line_break n = CHR 0x0A # replicate (2 * n) (CHR '' '')"

function pretty_value :: "nat \<Rightarrow> json \<Rightarrow> string"
  and pretty_items :: "nat \<Rightarrow> json list \<Rightarrow> string"
  and pretty_members :: "nat \<Rightarrow> (string, json) dict \<Rightarrow> string" where
  "pretty_value n (JArr vs) =
     (if vs = [] then ''[]'' else CHR ''['' # line_break (Suc n) @ pretty_items (Suc n) vs @ line_break n @ '']'')"
| "pretty_value n (JObj kvs) =
     (if kvs = [] then ''{}'' else CHR ''{'' # line_break (Suc n) @ pretty_members (Suc n) kvs @ line_break n @ ''}'')"
| "pretty_value n JNull = ''null''"
| "pretty_value n (JBool b) = (if b then ''true'' else ''false'')"
| "pretty_value n (JInt i) = print_int i"
| "pretty_value n (JFloat f) = print_float f"
| "pretty_value n (JStr s) = print_string s"
| "pretty_items n [] = []"
| "pretty_items n [v] = pretty_value n v"
| "pretty_items n (v # w # vs) = pretty_value n v @ CHR '','' # line_break n @ pretty_items n (w # vs)"
| "pretty_members n [] = []"
| "pretty_members n [(k, v)] = print_string k @ '': '' @ pretty_value n v"
| "pretty_members n ((k, v) # q # kvs) =
     print_string k @ '': '' @ pretty_value n v @ CHR '','' # line_break n @ pretty_members n (q # kvs)"
  by pat_completeness auto
termination
  by (relation "measure (case_sum (\<lambda>(n, v). json_size (Inl v))
        (case_sum (\<lambda>(n, vs). json_size (Inr (Inl vs))) (\<lambda>(n, kvs). json_size (Inr (Inr kvs)))))") simp_all

definition pretty :: "json \<Rightarrow> string" where
  "pretty v = pretty_value 0 (normalise v)"

section \<open>Reading it back\<close>

lemma skip_break [simp]: "skip_ws (line_break n @ s) = skip_ws s"
proof -
  have "dropWhile is_ws (replicate k (CHR '' '') @ s) = dropWhile is_ws s" for k
    by (induction k) (simp_all add: is_ws_def)
  then show ?thesis by (simp add: line_break_def skip_ws_def is_ws_def)
qed

lemma break_stops [simp]: "stops (line_break n @ s)"
  by (simp add: line_break_def stops_def is_digit_def)

lemma pretty_hd: "\<exists>c cs. pretty_value n v = c # cs \<and> value_start c"
proof (cases v)
  case (JBool b)
  then show ?thesis by (cases b) (simp_all add: value_start_def)
next
  case (JInt i)
  then show ?thesis using print_int_hd[of i] by (auto simp: value_start_def)
next
  case (JFloat f)
  then show ?thesis using print_float_hd[of f] by (auto simp: value_start_def)
qed (simp_all add: value_start_def print_string_def)

lemma pretty_skip [simp]: "skip_ws (pretty_value n v @ t) = pretty_value n v @ t"
proof -
  obtain c cs where "pretty_value n v = c # cs" "value_start c" using pretty_hd by blast
  then show ?thesis using value_start_not_ws[of c] by (simp add: skip_ws_def)
qed

lemma pretty_length: "0 < length (pretty_value n v)"
  using pretty_hd[of n v] by auto

lemma items_head:
  assumes "vs \<noteq> []" shows "\<exists>c cs. pretty_items n vs = c # cs \<and> value_start c"
proof -
  have "\<exists>s. pretty_items n vs = pretty_value n (hd vs) @ s" using assms by (cases "(n, vs)" rule: pretty_items.cases) auto
  then show ?thesis using pretty_hd[of n "hd vs"] by auto
qed

lemma members_head: "kvs \<noteq> [] \<Longrightarrow> \<exists>cs. pretty_members n kvs = CHR 0x22 # cs"
  by (cases "(n, kvs)" rule: pretty_members.cases) (auto simp: print_string_def)

lemma skip_items [simp]: "vs \<noteq> [] \<Longrightarrow> skip_ws (pretty_items n vs @ t) = pretty_items n vs @ t"
  using items_head[of vs n] value_start_not_ws by (fastforce simp: skip_ws_def)

lemma skip_members [simp]: "kvs \<noteq> [] \<Longrightarrow> skip_ws (pretty_members n kvs @ t) = pretty_members n kvs @ t"
  using members_head[of kvs n] by auto

lemma skip_space [simp]: "skip_ws (CHR '' '' # s) = skip_ws s"
  by (simp add: skip_ws_def is_ws_def)

lemma parse_pretty:
  shows "wf_json v \<Longrightarrow> stops t \<Longrightarrow> 2 * length (pretty_value n v) \<le> f \<Longrightarrow> parse_value f (pretty_value n v @ t) = Some (v, t)"
    and "wf_items vs \<Longrightarrow> vs \<noteq> [] \<Longrightarrow> 2 * length (pretty_items n vs) + 1 \<le> f \<Longrightarrow>
           parse_items f (pretty_items n vs @ line_break m @ CHR '']'' # t) = Some (vs, t)"
    and "wf_members kvs \<Longrightarrow> kvs \<noteq> [] \<Longrightarrow> 2 * length (pretty_members n kvs) + 1 \<le> f \<Longrightarrow>
           parse_members f (pretty_members n kvs @ line_break m @ CHR ''}'' # t) = Some (kvs, t)"
proof (induction n v and n vs and n kvs arbitrary: f t and f m t and f m t rule: pretty_value_pretty_items_pretty_members.induct)
  case (1 n vs)
  obtain f' where f: "f = Suc f'" using 1(4) pretty_length[of n "JArr vs"] by (cases f) auto
  show ?case
  proof (cases "vs = []")
    case False
    then have l: "length (pretty_value n (JArr vs)) \<ge> length (pretty_items (Suc n) vs) + 2" by simp
    have i: "parse_items f' (pretty_items (Suc n) vs @ line_break n @ CHR '']'' # t) = Some (vs, t)"
      using 1 False l f by simp
    obtain c cs where h: "pretty_items (Suc n) vs = c # cs" "value_start c" using items_head[OF False] by blast
    have "skip_ws (line_break (Suc n) @ pretty_items (Suc n) vs @ line_break n @ CHR '']'' # t)
        = c # (cs @ line_break n @ CHR '']'' # t)" "c \<noteq> CHR '']''"
      using h value_start_not_ws[of c] by (simp_all add: skip_ws_def[of "c # _"])
    then show ?thesis using f False i h by simp
  qed (use f in simp)
next
  case (2 n kvs)
  obtain f' where f: "f = Suc f'" using 2(4) pretty_length[of n "JObj kvs"] by (cases f) auto
  show ?case
  proof (cases "kvs = []")
    case False
    then have l: "length (pretty_value n (JObj kvs)) \<ge> length (pretty_members (Suc n) kvs) + 2" by simp
    have ok: "dict_ok kvs" "wf_members kvs" using 2(2) by simp_all
    have i: "parse_members f' (pretty_members (Suc n) kvs @ line_break n @ CHR ''}'' # t) = Some (kvs, t)"
      using 2 False l f by simp
    obtain cs where h: "pretty_members (Suc n) kvs = CHR 0x22 # cs" using members_head[OF False] by blast
    have "skip_ws (line_break (Suc n) @ pretty_members (Suc n) kvs @ line_break n @ CHR ''}'' # t)
        = CHR 0x22 # (cs @ line_break n @ CHR ''}'' # t)"
      using h by simp
    then show ?thesis using f False i h fold_dict_set[of "[]" kvs] ok(1) by (simp add: dict_ok_def)
  qed (use f in simp)
next
  case (3 n)
  then obtain f' where "f = Suc f'" by (cases f) auto
  then show ?case by (simp add: parse_literal_def starts_with_def)
next
  case (4 n b)
  then obtain f' where "f = Suc f'" by (cases f) (auto split: if_splits)
  then show ?case by (simp add: parse_literal_def starts_with_def)
next
  case (5 n i)
  then obtain f' where "f = Suc f'" using pretty_length[of n "JInt i"] by (cases f) auto
  with 5 show ?case by (simp only: pretty_value.simps parse_value_int)
next
  case (6 n g)
  then obtain f' where "f = Suc f'" using pretty_length[of n "JFloat g"] by (cases f) auto
  with 6 show ?case by (simp only: pretty_value.simps parse_value_float)
next
  case (7 n s)
  then obtain f' where "f = Suc f'" by (cases f) (auto simp: print_string_def)
  with 7 show ?case by (simp add: print_string_def scan_print_body)
next
  case (9 n v)
  then obtain f' where "f = Suc f'" by (cases f) auto
  with 9 show ?case by simp
next
  case (10 n v w vs)
  then obtain f' where "f = Suc f'" by (cases f) auto
  with 10 show ?case by simp
next
  case (12 n k v)
  then obtain f' where "f = Suc f'" by (cases f) auto
  with 12 show ?case by (simp add: print_string_def scan_print_body)
next
  case (13 n k v q kvs)
  then obtain f' where "f = Suc f'" by (cases f) auto
  with 13 show ?case by (simp add: print_string_def scan_print_body)
qed simp_all

lemma loads_pretty: "wf_json v \<Longrightarrow> list_all is_ws s \<Longrightarrow> loads (pretty v @ s) = Some (normalise v)"
proof -
  assume "wf_json v" "list_all is_ws s"
  moreover have "stops s" using \<open>list_all is_ws s\<close> by (cases s) (auto simp: stops_def is_ws_def is_digit_def)
  ultimately have "parse_value (2 * length (pretty v @ s) + 2) (pretty v @ s) = Some (normalise v, s)"
    unfolding pretty_def by (intro parse_pretty wf_normalise) simp_all
  moreover have "skip_ws s = []" using \<open>list_all is_ws s\<close> by (induction s) (simp_all add: skip_ws_def)
  moreover have "skip_ws (pretty v @ s) = pretty v @ s" by (simp add: pretty_def)
  ultimately show ?thesis by (simp add: loads_def)
qed

end
