(* ===== verification/Archive.thy ===== *)
theory Archive
  imports Ledger_Checkpoints Picks_Core Refresh_Receipts Pretty_Json Py_Equality "HOL-Library.Sublist"
begin

text \<open>
  \<open>src/server/golavo_server/personal_archive.py\<close>, its reading side: which files of the ledger an
  archive owns, what their contents must be, the export, and the inspection of an archive
  before it is restored.

  The ledger is a dictionary from names (\<open>ledger/fa_...json\<close>) to the bytes that reading them
  gives, with the names that are symbolic links beside it.  The ZIP format, the SQLite backup,
  the check of a follow history and the decoding of JSON bytes that are not plain UTF-8 are
  arguments (\<open>tools\<close>).
\<close>

text \<open>
  What the archive calls can raise: \<open>ValueError\<close>, the validation error of jsonschema (which is no
  \<open>ValueError\<close>), \<open>TypeError\<close>, \<open>KeyError\<close>, \<open>BadZipFile\<close>, SQLite's \<open>DatabaseError\<close> and \<open>FileExistsError\<close>.
\<close>

datatype xerror = Refused | Schema_refused | Type_error | Missing | Bad_zip | Db_error | Exists_error

record zip_info =
  z_name :: string
  z_size :: nat
  z_link :: bool
  z_data :: "string option"

record tools =
  t_format :: "string \<Rightarrow> string \<Rightarrow> bool"
  t_wide :: "string \<Rightarrow> string option"
  t_unzip :: "string \<Rightarrow> zip_info list option"
  t_zip :: "(string, string) dict \<Rightarrow> string"
  t_snapshot :: "string \<Rightarrow> string option"
  t_follows :: "string \<Rightarrow> bool"

text \<open>The interrupted restore beside the ledger: its journal, what it staged and what it kept.\<close>

record transaction =
  x_journal :: "json option option"
  x_staged :: "(string, string) dict"
  x_kept :: "(string, string) dict"

record vault =
  v_files :: "(string, string) dict"
  v_links :: "string list"
  v_unsafe :: "string list"
  v_tx :: "transaction option"
  v_backups :: "(string, string) dict"

definition archive_schema :: string where "archive_schema = ''0.2.0''"
definition archive_legacy :: string where "archive_legacy = ''0.1.0''"
definition max_files :: nat where "max_files = 5000"
definition max_uncompressed :: nat where "max_uncompressed = 67108864"
definition max_depth :: nat where "max_depth = 64"

section \<open>Names\<close>

definition hex_json :: "string \<Rightarrow> nat \<Rightarrow> string \<Rightarrow> bool" where
  "hex_json pre n s \<longleftrightarrow>
     length s = length pre + n + 5 \<and> starts_with pre s \<and> list_all is_hex (take n (drop (length pre) s))
     \<and> drop (length pre + n) s = ''.json''"

definition name_char :: "char \<Rightarrow> bool" where
  "name_char c \<longleftrightarrow>
     CHR ''A'' \<le> c \<and> c \<le> CHR ''Z'' \<or> CHR ''a'' \<le> c \<and> c \<le> CHR ''z'' \<or> is_digit c \<or> c \<in> set ''_.-''"

definition draft_name :: "string \<Rightarrow> bool" where
  "draft_name s \<longleftrightarrow>
     starts_with ''ledger/picks/drafts/'' s \<and> ends_with ''.json'' s \<and> 26 \<le> length s
     \<and> list_all name_char (take (length s - 25) (drop 20 s))"

definition allowed :: "string \<Rightarrow> bool" where
  "allowed s \<longleftrightarrow> CHR 0x5c \<notin> set s \<and>
     (hex_json ''ledger/fa_'' 20 s \<or> s = ''ledger/checkpoints/head.json'' \<or> hex_json ''ledger/checkpoints/lc_'' 64 s
      \<or> draft_name s \<or> hex_json ''ledger/picks/pk_'' 20 s \<or> s = ''ledger/picks/audit.jsonl''
      \<or> s = ''ledger/follows/follows.sqlite3'')"

text \<open>The last part of a \<open>.json\<close> path, without its suffix.\<close>

definition base_of :: "string \<Rightarrow> string" where
  "base_of s = rev (takeWhile (\<lambda>c. c \<noteq> CHR ''/'') (rev s))"

definition stem_of :: "string \<Rightarrow> string" where
  "stem_of s = take (length (base_of s) - 5) (base_of s)"

text \<open>A path that \<open>PurePosixPath\<close> prints as it was given, below \<open>ledger\<close>.\<close>

definition portable :: "string \<Rightarrow> bool" where
  "portable s \<longleftrightarrow> starts_with ''ledger/'' s \<and> \<not> sublist ''//'' s \<and> \<not> sublist ''/./'' s
     \<and> \<not> ends_with ''/'' s \<and> \<not> ends_with ''/.'' s"

text \<open>
  No part of the destination is a link.  Allowed names hold no \<open>..\<close>, so that a destination without
  links cannot leave the ledger.
\<close>

definition safe_destination :: "vault \<Rightarrow> string \<Rightarrow> xerror + unit" where
  "safe_destination v s =
     bindE (guardE (''ledger'' \<notin> set (v_links v)) Refused) (\<lambda>_.
     bindE (guardE (CHR 0x5c \<notin> set s \<and> portable s) Refused) (\<lambda>_.
     guardE (list_all (\<lambda>l. l \<noteq> s \<and> \<not> starts_with (l @ ''/'') s) (v_links v)) Refused))"

section \<open>Contents\<close>

text \<open>\<open>json.loads\<close> of bytes takes UTF-16, UTF-32 and a byte-order mark too.\<close>

definition wide_bytes :: "string \<Rightarrow> bool" where
  "wide_bytes s \<longleftrightarrow>
     starts_with [CHR 0xFF, CHR 0xFE] s \<or> starts_with [CHR 0xFE, CHR 0xFF] s
     \<or> starts_with [CHR 0xEF, CHR 0xBB, CHR 0xBF] s \<or> CHR 0x00 \<in> set (take 4 s)"

function depth_ok :: "nat \<Rightarrow> json \<Rightarrow> bool"
  and depths_ok :: "nat \<Rightarrow> json list \<Rightarrow> bool"
  and members_ok :: "nat \<Rightarrow> (string, json) dict \<Rightarrow> bool" where
  "depth_ok d (JArr vs) \<longleftrightarrow> d \<le> max_depth \<and> depths_ok (Suc d) vs"
| "depth_ok d (JObj kvs) \<longleftrightarrow> d \<le> max_depth \<and> members_ok (Suc d) kvs"
| "depth_ok d JNull \<longleftrightarrow> d \<le> max_depth"
| "depth_ok d (JBool b) \<longleftrightarrow> d \<le> max_depth"
| "depth_ok d (JInt i) \<longleftrightarrow> d \<le> max_depth"
| "depth_ok d (JFloat f) \<longleftrightarrow> d \<le> max_depth"
| "depth_ok d (JStr s) \<longleftrightarrow> d \<le> max_depth"
| "depths_ok d [] \<longleftrightarrow> True"
| "depths_ok d (v # vs) \<longleftrightarrow> depth_ok d v \<and> depths_ok d vs"
| "members_ok d [] \<longleftrightarrow> True"
| "members_ok d ((k, v) # kvs) \<longleftrightarrow> depth_ok d v \<and> members_ok d kvs"
  by pat_completeness auto
termination
  by (relation "measure (case_sum (\<lambda>(d, v). json_size (Inl v))
        (case_sum (\<lambda>(d, vs). json_size (Inr (Inl vs))) (\<lambda>(d, kvs). json_size (Inr (Inr kvs)))))") simp_all

definition archive_json :: "tools \<Rightarrow> string \<Rightarrow> xerror + json" where
  "archive_json T data =
     (case (if wide_bytes data then Option.bind (t_wide T data) loads else read_json data) of
        None \<Rightarrow> Inl Refused
      | Some v \<Rightarrow> bindE (guardE (depth_ok 1 v) Refused) (\<lambda>_. Inr v))"

definition artifact_fault :: "aerror \<Rightarrow> xerror" where
  "artifact_fault e = (case e of Schema_invalid \<Rightarrow> Schema_refused | Type_failure \<Rightarrow> Type_error | _ \<Rightarrow> Refused)"

definition pick_fault :: "integrity_error \<Rightarrow> xerror" where
  "pick_fault e = (case e of Validation_error \<Rightarrow> Schema_refused | _ \<Rightarrow> Refused)"

definition follows_name :: string where
  "follows_name = ''ledger/follows/follows.sqlite3''"

definition validate_content :: "tools \<Rightarrow> string \<Rightarrow> string \<Rightarrow> xerror + unit" where
  "validate_content T s data =
     (if starts_with ''ledger/fa_'' s then
        bindE (archive_json T data) (\<lambda>v.
          case verify_artifact_integrity (t_format T) v (Some (stem_of s)) of Inl e \<Rightarrow> Inl (artifact_fault e) | Inr _ \<Rightarrow> Inr ())
      else if sublist ''/picks/pk_'' s then
        bindE (archive_json T data) (\<lambda>v.
          case verify_pick_integrity v (Some (stem_of s)) of Inl e \<Rightarrow> Inl (pick_fault e) | Inr _ \<Rightarrow> Inr ())
      else if sublist ''/picks/drafts/'' s then
        bindE (archive_json T data) (\<lambda>v.
        bindE (guardE (validate_user_pick v \<noteq> None) Schema_refused) (\<lambda>_.
        guardE (jget (jget v ''match'') ''match_id'' = JStr (stem_of s)) Refused))
      else if ends_with ''/picks/audit.jsonl'' s then
        bindE (mapE (\<lambda>line. bindE (archive_json T line) (\<lambda>v. guardE (is_obj v) Refused)) (byte_lines data)) (\<lambda>_. Inr ())
      else if ends_with ''/follows/follows.sqlite3'' s then guardE (t_follows T data) Refused
      else if starts_with ''ledger/checkpoints/'' s then
        bindE (archive_json T data) (\<lambda>v. guardE (is_obj v) Refused)
      else Inr ())"

section \<open>The ledger's files\<close>

definition json_child :: "string \<Rightarrow> string \<Rightarrow> bool" where
  "json_child pre s \<longleftrightarrow>
     starts_with pre s \<and> ends_with ''.json'' s \<and> length pre + 5 \<le> length s \<and> CHR ''/'' \<notin> set (drop (length pre) s)"

definition child_stem :: "string \<Rightarrow> string \<Rightarrow> string" where
  "child_stem pre s = take (length s - length pre - 5) (drop (length pre) s)"

text \<open>The checkpoint directory of \<open>Ledger_Checkpoints\<close> that a dictionary of files is.\<close>

definition files_below :: "string \<Rightarrow> (string, string) dict \<Rightarrow> (string, string) dict" where
  "files_below pre fs = map (\<lambda>(s, b). (child_stem pre s, b)) (filter (\<lambda>(s, b). json_child pre s) fs)"

definition dir_of :: "(string, string) dict \<Rightarrow> ledger_dir" where
  "dir_of fs = \<lparr>ld_root_unsafe = False, ld_links = [],
     ld_artifacts = map (\<lambda>(i, b). (''fa_'' @ i, b)) (files_below ''ledger/fa_'' fs),
     ld_head = map_option read_json (dict_get fs ''ledger/checkpoints/head.json''),
     ld_records = map (\<lambda>(c, b). (c, read_json b)) (files_below ''ledger/checkpoints/lc_'' fs)\<rparr>"

definition chain_view :: "vault \<Rightarrow> ledger_dir" where
  "chain_view v = (dir_of (v_files v))\<lparr>
     ld_root_unsafe := (''ledger'' \<in> set (v_links v) \<or> ''ledger/checkpoints'' \<in> set (v_links v)),
     ld_links := map (drop 7) (filter (starts_with ''ledger/'') (v_links v))\<rparr>"

definition chain_fault :: "cerror \<Rightarrow> xerror" where
  "chain_fault e = (case e of cerror.Unhashable \<Rightarrow> Type_error | _ \<Rightarrow> Refused)"

definition chainE :: "cerror + 'a \<Rightarrow> xerror + 'a" where
  "chainE m = (case m of Inl e \<Rightarrow> Inl (chain_fault e) | Inr x \<Rightarrow> Inr x)"

text \<open>The names to archive: what the patterns find, and the checkpoint files, by name.\<close>

definition globbed :: "string \<Rightarrow> bool" where
  "globbed s \<longleftrightarrow> json_child ''ledger/fa_'' s \<or> starts_with ''ledger/picks/'' s \<and> ends_with ''.json'' s
     \<or> s = ''ledger/picks/audit.jsonl'' \<or> s = follows_name"

definition checkpoint_names :: "bool \<Rightarrow> vault \<Rightarrow> xerror + string list" where
  "checkpoint_names validate v =
     (if validate
      then (case recovery_files (chain_view v) of
              None \<Rightarrow> Inl Refused
            | Some r \<Rightarrow> bindE (chainE r) (\<lambda>names. Inr (map ((@) ''ledger/checkpoints/'') names)))
      else Inr (filter (\<lambda>s. s = ''ledger/checkpoints/head.json'' \<or> json_child ''ledger/checkpoints/lc_'' s)
                  (dict_keys (v_files v))))"

definition candidate_ok :: "vault \<Rightarrow> string \<Rightarrow> xerror + unit" where
  "candidate_ok v s =
     bindE (guardE (s \<notin> set (v_links v)) Refused) (\<lambda>_. if allowed s then safe_destination v s else Inr ())"

definition owned_files :: "bool \<Rightarrow> vault \<Rightarrow> xerror + string list" where
  "owned_files validate v =
     bindE (checkpoint_names validate v) (\<lambda>cs.
     (let names = filter globbed (dict_keys (v_files v)) @ cs in
      bindE (mapE (candidate_ok v) names) (\<lambda>_. Inr (sort (filter allowed names)))))"

section \<open>Exporting\<close>

definition entry_data :: "tools \<Rightarrow> bool \<Rightarrow> vault \<Rightarrow> string \<Rightarrow> xerror + string" where
  "entry_data T validate v s =
     (case dict_get (v_files v) s of
        None \<Rightarrow> Inl Refused
      | Some b \<Rightarrow>
          if validate \<and> ends_with ''/follows/follows.sqlite3'' s
          then (case t_snapshot T b of None \<Rightarrow> Inl Db_error | Some c \<Rightarrow> Inr c) else Inr b)"

fun gather :: "tools \<Rightarrow> bool \<Rightarrow> vault \<Rightarrow> nat \<Rightarrow> string list \<Rightarrow> xerror + (string, string) dict" where
  "gather T validate v used [] = Inr []"
| "gather T validate v used (s # ss) =
     bindE (entry_data T validate v s) (\<lambda>data.
     bindE (guardE (used + length data \<le> max_uncompressed) Refused) (\<lambda>_.
     bindE (if validate then validate_content T s data else Inr ()) (\<lambda>_.
     bindE (gather T validate v (used + length data) ss) (\<lambda>rest. Inr ((s, data) # rest)))))"

definition file_json :: "string \<times> string \<Rightarrow> json" where
  "file_json = (\<lambda>(s, data). JObj
     [(''path'', JStr s), (''bytes'', JInt (int (length data))), (''sha256'', JStr (sha256_hex data))])"

definition texts :: "string list \<Rightarrow> json" where
  "texts xs = JArr (map JStr xs)"

definition recovery_summary :: "chain_status \<Rightarrow> json" where
  "recovery_summary st = JObj
     [(''available'', JBool (cs_head st \<noteq> None)), (''recovery_drill_verified'', JBool True),
      (''checkpoint_count'', JInt (int (cs_count st))), (''head'', jtext (cs_head st)),
      (''head_schema_version'', cs_head_schema st), (''checkpoint_schema_versions'', texts (cs_schema_versions st)),
      (''legacy_checkpoint_count'', JInt (int (cs_legacy st))), (''missing_artifacts'', texts (cs_missing st)),
      (''uncheckpointed_artifacts'', texts (cs_uncheckpointed st))]"

definition raw_recovery :: "vault \<Rightarrow> json" where
  "raw_recovery v = JObj
     [(''available'', JBool (dict_get (v_files v) ''ledger/checkpoints/head.json'' \<noteq> None)),
      (''recovery_drill_verified'', JBool False),
      (''checkpoint_count'', JInt (int (length (filter (json_child ''ledger/checkpoints/lc_'') (dict_keys (v_files v)))))),
      (''head'', JNull), (''head_schema_version'', JNull), (''checkpoint_schema_versions'', JArr []),
      (''legacy_checkpoint_count'', JInt 0), (''missing_artifacts'', JArr []), (''uncheckpointed_artifacts'', JArr [])]"

definition included :: json where
  "included = texts [''forecast artifacts'', ''picks'', ''followed-match state'',
     ''verified linked ledger checkpoints when available'']"

definition excluded :: json where
  "excluded = texts [''team favorites stored in browser preferences'', ''credentials and provider settings'',
     ''licensed overlays and provider responses'', ''weather captures and research data'',
     ''refresh generations and derived caches'']"

definition manifest_json :: "string \<Rightarrow> bool \<Rightarrow> (string, string) dict \<Rightarrow> json \<Rightarrow> json" where
  "manifest_json now validate content summary = JObj
     [(''schema_version'', JStr archive_schema), (''created_at_utc'', JStr now),
      (''files'', JArr (map file_json content)), (''included'', included), (''excluded'', excluded),
      (''checkpoint_recovery'', summary),
      (''integrity'', JStr (if validate then ''verified'' else ''unverified-preservation''))]"

definition manifest_text :: "json \<Rightarrow> string" where
  "manifest_text m = pretty m @ [CHR 0x0A]"

text \<open>The chain of the archived files alone, in an empty directory.\<close>

definition drill :: "(string, string) dict \<Rightarrow> xerror + chain_status" where
  "drill content = chainE (chain_status_of (dir_of content))"

definition export_unlocked :: "tools \<Rightarrow> string \<Rightarrow> bool \<Rightarrow> vault \<Rightarrow> xerror + (string \<times> json)" where
  "export_unlocked T now validate v =
     bindE (owned_files validate v) (\<lambda>names.
     bindE (guardE (length names \<le> max_files) Refused) (\<lambda>_.
     bindE (gather T validate v 0 names) (\<lambda>content.
     bindE (if validate then bindE (drill content) (\<lambda>st. Inr (recovery_summary st)) else Inr (raw_recovery v)) (\<lambda>summary.
     (let m = manifest_json now validate content summary in
      Inr (t_zip T (sort_key fst (content @ [(''manifest.json'', manifest_text m)])), m))))))"

section \<open>Inspecting\<close>

record preview =
  pv_version :: string
  pv_count :: nat
  pv_bytes :: nat
  pv_new :: "string list"
  pv_identical :: "string list"
  pv_conflicts :: "string list"
  pv_token :: string
  pv_excluded :: json
  pv_recovery :: json
  pv_blocked :: "cerror option"

definition zip_get :: "zip_info list \<Rightarrow> string \<Rightarrow> xerror + string" where
  "zip_get zs s =
     (case List.find (\<lambda>z. z_name z = s) zs of
        None \<Rightarrow> Inl Missing
      | Some z \<Rightarrow> (case z_data z of None \<Rightarrow> Inl Bad_zip | Some b \<Rightarrow> Inr b))"

text \<open>No absolute path, no \<open>..\<close> part, no directory, no link; and only names an archive owns.\<close>

definition zip_entry_ok :: "zip_info \<Rightarrow> bool" where
  "zip_entry_ok z \<longleftrightarrow>
     \<not> starts_with ''/'' (z_name z) \<and> \<not> sublist ''/../'' (CHR ''/'' # z_name z @ ''/'') \<and> \<not> ends_with ''/'' (z_name z)
     \<and> \<not> z_link z \<and> (z_name z = ''manifest.json'' \<or> allowed (z_name z))"

definition path_text :: "json \<Rightarrow> string" where
  "path_text e = (case jget e ''path'' of JStr s \<Rightarrow> s | _ \<Rightarrow> [])"

fun read_entries :: "tools \<Rightarrow> vault \<Rightarrow> zip_info list \<Rightarrow> string list \<Rightarrow> json list \<Rightarrow> xerror + (string, string) dict" where
  "read_entries T v zs seen [] = Inr []"
| "read_entries T v zs seen (e # es) =
     bindE (guardE (is_obj e \<and> allowed (path_text e)) Refused) (\<lambda>_.
     bindE (guardE (path_text e \<notin> set seen) Refused) (\<lambda>_.
     bindE (zip_get zs (path_text e)) (\<lambda>data.
     bindE (guardE (equals_nat (length data) (jget e ''bytes'') \<and> jget e ''sha256'' = JStr (sha256_hex data)) Refused) (\<lambda>_.
     bindE (validate_content T (path_text e) data) (\<lambda>_.
     bindE (safe_destination v (path_text e)) (\<lambda>_.
     bindE (read_entries T v zs (path_text e # seen) es) (\<lambda>rest. Inr ((path_text e, data) # rest))))))))"

text \<open>The archive's files over the local ones.\<close>

definition over_files :: "(string, string) dict \<Rightarrow> (string, string) dict \<Rightarrow> (string, string) dict" where
  "over_files content fs = fold (\<lambda>(s, b). dict_set s b) content fs"

definition chain_file :: "string \<Rightarrow> bool" where
  "chain_file s \<longleftrightarrow> json_child ''ledger/fa_'' s \<or> s = ''ledger/checkpoints/head.json'' \<or> json_child ''ledger/checkpoints/lc_'' s"

definition overlay_status :: "vault \<Rightarrow> (string, string) dict \<Rightarrow> cerror + chain_status" where
  "overlay_status v content =
     bindE (validate_paths (chain_view v)) (\<lambda>_.
     bindE (guardE (list_all (\<lambda>s. chain_file s \<longrightarrow> s \<notin> set (v_links v)) (dict_keys (v_files v))) Unsafe_path) (\<lambda>_.
     chain_status_of (dir_of (over_files content (v_files v)))))"

definition token_json :: "vault \<Rightarrow> string \<times> string \<Rightarrow> json" where
  "token_json v = (\<lambda>(s, b). JObj
     [(''path'', JStr s), (''archive_sha256'', JStr (sha256_hex b)),
      (''local_sha256'', jtext (map_option sha256_hex (dict_get (v_files v) s)))])"

definition token_text :: "vault \<Rightarrow> (string, string) dict \<Rightarrow> string" where
  "token_text v content = dumps (JArr (map (token_json v) (sort_key fst content)))"

definition preview_token :: "vault \<Rightarrow> (string, string) dict \<Rightarrow> string" where
  "preview_token v content = sha256_hex (token_text v content)"

definition manifest_version :: "json \<Rightarrow> xerror + string" where
  "manifest_version m =
     bindE (guardE (is_obj m) Refused) (\<lambda>_.
     bindE (guardE (hashable (jget m ''schema_version'')) Type_error) (\<lambda>_.
     if jget m ''schema_version'' = JStr archive_schema then Inr archive_schema
     else if jget m ''schema_version'' = JStr archive_legacy then Inr archive_legacy else Inl Refused))"

definition listed_entries :: "string list \<Rightarrow> json \<Rightarrow> xerror + (string \<times> json list)" where
  "listed_entries names m =
     bindE (manifest_version m) (\<lambda>version.
     bindE (guardE (\<not> (version = archive_legacy \<and> list_ex (starts_with ''ledger/checkpoints/'') names)) Refused) (\<lambda>_.
     (case jget m ''files'' of JArr es \<Rightarrow> Inr (version, es) | _ \<Rightarrow> Inl Refused)))"

definition open_zip :: "tools \<Rightarrow> string \<Rightarrow> xerror + (zip_info list \<times> json)" where
  "open_zip T data =
     bindE (guardE (length data \<le> max_uncompressed) Refused) (\<lambda>_.
     (case t_unzip T data of
        None \<Rightarrow> Inl Refused
      | Some zs \<Rightarrow>
          bindE (guardE (length zs \<le> Suc max_files \<and> sum_list (map z_size zs) \<le> max_uncompressed) Refused) (\<lambda>_.
          bindE (guardE (distinct (map z_name zs) \<and> ''manifest.json'' \<in> set (map z_name zs)) Refused) (\<lambda>_.
          bindE (guardE (list_all zip_entry_ok zs) Refused) (\<lambda>_.
          bindE (zip_get zs ''manifest.json'') (\<lambda>text.
          bindE (archive_json T text) (\<lambda>m. Inr (zs, m))))))))"

text \<open>The chain of the archive must be whole, and what a current manifest says of it true.\<close>

definition check_recovery :: "string \<Rightarrow> json \<Rightarrow> (string, string) dict \<Rightarrow> xerror + json" where
  "check_recovery version m content =
     bindE (drill content) (\<lambda>st.
     bindE (guardE (length (filter (starts_with ''ledger/checkpoints/lc_'') (dict_keys content)) = cs_count st) Refused) (\<lambda>_.
     bindE (guardE (version = archive_schema \<longrightarrow> py_eq (jget m ''checkpoint_recovery'') (recovery_summary st)) Refused) (\<lambda>_.
     Inr (recovery_summary st))))"

definition inspect_unlocked :: "tools \<Rightarrow> vault \<Rightarrow> string \<Rightarrow> xerror + (preview \<times> (string, string) dict)" where
  "inspect_unlocked T v data =
     bindE (open_zip T data) (\<lambda>(zs, m).
     bindE (listed_entries (map z_name zs) m) (\<lambda>(version, es).
     bindE (read_entries T v zs [] es) (\<lambda>content.
     bindE (guardE (set (dict_keys content) = set (map z_name zs) - {''manifest.json''}) Refused) (\<lambda>_.
     bindE (check_recovery version m content) (\<lambda>summary.
     bindE (case overlay_status v content of Inl cerror.Unhashable \<Rightarrow> Inl Type_error | Inl e \<Rightarrow> Inr (Some e) | Inr _ \<Rightarrow> Inr None) (\<lambda>blocked.
     (let locals = (\<lambda>s. dict_get (v_files v) s);
          pick = (\<lambda>P. sort (map fst (filter P content))) in
      Inr (\<lparr>pv_version = version, pv_count = length content, pv_bytes = sum_list (map (length \<circ> snd) content),
            pv_new = pick (\<lambda>(s, b). locals s = None), pv_identical = pick (\<lambda>(s, b). locals s = Some b),
            pv_conflicts = pick (\<lambda>(s, b). locals s \<notin> {None, Some b}),
            pv_token = preview_token v content,
            pv_excluded = (if dict_get (obj_fields m) ''excluded'' = None then JArr [] else jget m ''excluded''),
            pv_recovery = summary, pv_blocked = blocked\<rparr>, content))))))))"

end
