(* ===== verification/Archive_Restore.thy ===== *)
theory Archive_Restore
  imports Archive
begin

text \<open>
  \<open>src/server/golavo_server/personal_archive.py\<close>, its writing side: restoring an archive and
  recovering from a restore that was interrupted.

  Every durable write is a step of its own (\<open>vstep\<close>).  A call is the list of steps it performs
  and its answer, so that stopping it after any of them is a prefix of the list.  Removing the
  transaction directory deletes its files in an order nothing fixes; \<open>tears\<close> says in which
  portions.  Empty directories are not part of the state.
\<close>

datatype vstep =
    Save_backup string string
  | Make_root
  | Stage string string
  | Keep string string
  | Log json
  | Move string
  | Put string string
  | Unlink string
  | Prune "string list" bool
  | Drop_root

definition in_tx :: "(transaction \<Rightarrow> transaction) \<Rightarrow> vault \<Rightarrow> vault" where
  "in_tx f v = v\<lparr>v_tx := map_option f (v_tx v)\<rparr>"

definition without :: "string list \<Rightarrow> (string, string) dict \<Rightarrow> (string, string) dict" where
  "without names d = filter (\<lambda>(s, b). s \<notin> set names) d"

definition staged_data :: "vault \<Rightarrow> string \<Rightarrow> string option" where
  "staged_data v s = (case v_tx v of None \<Rightarrow> None | Some x \<Rightarrow> dict_get (x_staged x) s)"

definition apply_step :: "vstep \<Rightarrow> vault \<Rightarrow> vault" where
  "apply_step a v =
     (case a of
        Save_backup s b \<Rightarrow> v\<lparr>v_backups := dict_set s b (v_backups v)\<rparr>
      | Make_root \<Rightarrow> v\<lparr>v_tx := Some \<lparr>x_journal = None, x_staged = [], x_kept = []\<rparr>\<rparr>
      | Stage s b \<Rightarrow> in_tx (\<lambda>x. x\<lparr>x_staged := dict_set s b (x_staged x)\<rparr>) v
      | Keep s b \<Rightarrow> in_tx (\<lambda>x. x\<lparr>x_kept := dict_set s b (x_kept x)\<rparr>) v
      | Log j \<Rightarrow> in_tx (\<lambda>x. x\<lparr>x_journal := Some (Some (normalise j))\<rparr>) v
      | Move s \<Rightarrow>
          (case staged_data v s of
             None \<Rightarrow> v
           | Some b \<Rightarrow> in_tx (\<lambda>x. x\<lparr>x_staged := dict_pop s (x_staged x)\<rparr>) (v\<lparr>v_files := dict_set s b (v_files v)\<rparr>))
      | Put s b \<Rightarrow> v\<lparr>v_files := dict_set s b (v_files v)\<rparr>
      | Unlink s \<Rightarrow> v\<lparr>v_files := dict_pop s (v_files v)\<rparr>
      | Prune names j \<Rightarrow>
          in_tx (\<lambda>x. x\<lparr>x_staged := without names (x_staged x), x_kept := without names (x_kept x),
                     x_journal := (if j then None else x_journal x)\<rparr>) v
      | Drop_root \<Rightarrow> v\<lparr>v_tx := None\<rparr>)"

definition run_steps :: "vstep list \<Rightarrow> vault \<Rightarrow> vault" where
  "run_steps steps v = fold apply_step steps v"

type_synonym tears = "(string list \<times> bool) list"

definition removal :: "tears \<Rightarrow> vstep list" where
  "removal tears = map (\<lambda>(names, j). Prune names j) tears @ [Drop_root]"

section \<open>Recovery\<close>

definition sibling_root :: "vault \<Rightarrow> string \<Rightarrow> xerror + unit" where
  "sibling_root v name = guardE (''parent'' \<notin> set (v_unsafe v) \<and> name \<notin> set (v_unsafe v)) Refused"

definition phases :: "string list" where
  "phases = [''prepared'', ''applying'', ''committed'', ''rolled_back'']"

definition undo_entry :: "vault \<Rightarrow> transaction \<Rightarrow> json \<Rightarrow> xerror + vstep" where
  "undo_entry v x e =
     bindE (guardE (is_obj e \<and> allowed (path_text e)) Refused) (\<lambda>_.
     bindE (safe_destination v (path_text e)) (\<lambda>_.
     if py_bool (jget e ''existed'')
     then (case dict_get (x_kept x) (path_text e) of None \<Rightarrow> Inl Refused | Some b \<Rightarrow> Inr (Put (path_text e) b))
     else Inr (Unlink (path_text e))))"

text \<open>The steps up to the first entry that raises, and what it raises.\<close>

fun undo :: "vault \<Rightarrow> transaction \<Rightarrow> json list \<Rightarrow> vstep list \<times> (xerror + unit)" where
  "undo v x [] = ([], Inr ())"
| "undo v x (e # es) =
     (case undo_entry v x e of
        Inl f \<Rightarrow> ([], Inl f)
      | Inr a \<Rightarrow> (case undo v x es of (steps, r) \<Rightarrow> (a # steps, r)))"

definition journal_entries :: "json \<Rightarrow> xerror + (string \<times> json list)" where
  "journal_entries j =
     bindE (guardE (depth_ok 1 j) Refused) (\<lambda>_.
     bindE (guardE (is_obj j) Refused) (\<lambda>_.
     bindE (guardE (hashable (jget j ''phase'')) Type_error) (\<lambda>_.
     (case (jget j ''phase'', jget j ''files'') of
        (JStr p, JArr es) \<Rightarrow> bindE (guardE (p \<in> set phases) Refused) (\<lambda>_. Inr (p, es))
      | _ \<Rightarrow> Inl Refused))))"

definition recover_trace :: "tears \<Rightarrow> vault \<Rightarrow> vstep list \<times> (xerror + bool)" where
  "recover_trace tears v =
     (case sibling_root v ''transaction'' of
        Inl e \<Rightarrow> ([], Inl e)
      | Inr _ \<Rightarrow>
          (case v_tx v of
             None \<Rightarrow> ([], Inr False)
           | Some x \<Rightarrow>
               (case x_journal x of
                  None \<Rightarrow> (removal tears, Inr True)
                | Some None \<Rightarrow> ([], Inl Refused)
                | Some (Some j) \<Rightarrow>
                    (case journal_entries j of
                       Inl e \<Rightarrow> ([], Inl e)
                     | Inr (phase, es) \<Rightarrow>
                         if phase = ''applying''
                         then (case undo v x es of
                                 (steps, Inl e) \<Rightarrow> (steps, Inl e)
                               | (steps, Inr _) \<Rightarrow>
                                   (steps @ Log (json_set ''phase'' (JStr ''rolled_back'') j) # removal tears, Inr True))
                         else (removal tears, Inr True)))))"

definition recover_pending :: "tears \<Rightarrow> vault \<Rightarrow> vault \<times> (xerror + bool)" where
  "recover_pending tears v = (case recover_trace tears v of (steps, r) \<Rightarrow> (run_steps steps v, r))"

definition export_archive :: "tools \<Rightarrow> tears \<Rightarrow> string \<Rightarrow> vault \<Rightarrow> vault \<times> (xerror + (string \<times> json))" where
  "export_archive T tears now v =
     (case recover_pending tears v of
        (v', Inl e) \<Rightarrow> (v', Inl e) | (v', Inr _) \<Rightarrow> (v', export_unlocked T now True v'))"

definition inspect_archive :: "tools \<Rightarrow> tears \<Rightarrow> string \<Rightarrow> vault \<Rightarrow> vault \<times> (xerror + (preview \<times> (string, string) dict))" where
  "inspect_archive T tears data v =
     (case recover_pending tears v of
        (v', Inl e) \<Rightarrow> (v', Inl e) | (v', Inr _) \<Rightarrow> (v', inspect_unlocked T v' data))"

section \<open>Restoring\<close>

text \<open>The archive is whole, the user agreed, and to this archive over these files.\<close>

definition approve :: "tools \<Rightarrow> string \<Rightarrow> bool \<Rightarrow> string option \<Rightarrow> vault \<Rightarrow> xerror + (preview \<times> (string, string) dict)" where
  "approve T data replace token v =
     bindE (inspect_unlocked T v data) (\<lambda>(pv, content).
     bindE (guardE (pv_blocked pv = None) Refused) (\<lambda>_.
     bindE (guardE (pv_conflicts pv = [] \<or> replace) Exists_error) (\<lambda>_.
     bindE (guardE (token = Some (pv_token pv)) Refused) (\<lambda>_. Inr (pv, content)))))"

definition caught :: "xerror \<Rightarrow> bool" where
  "caught e \<longleftrightarrow> e \<in> {Missing, Type_error, Refused, Db_error}"

text \<open>The bytes of the copy kept before a restore, and whether they verify.\<close>

definition backup_copy :: "tools \<Rightarrow> string \<Rightarrow> vault \<Rightarrow> xerror + (string \<times> bool)" where
  "backup_copy T now v =
     bindE (case export_unlocked T now True v of
              Inr (b, m) \<Rightarrow> Inr (b, True)
            | Inl e \<Rightarrow>
                if caught e then bindE (export_unlocked T now False v) (\<lambda>(b, m). Inr (b, False)) else Inl e) (\<lambda>r.
     bindE (sibling_root v ''backups'') (\<lambda>_. Inr r))"

definition backup_name :: "string \<Rightarrow> string \<times> bool \<Rightarrow> string" where
  "backup_name stamp = (\<lambda>(b, verified).
     (if verified then ''pre-restore'' else ''pre-restore-unverified'') @ ''-'' @ stamp @ ''-''
     @ take 12 (sha256_hex b) @ ''.zip'')"

definition existed_json :: "vault \<Rightarrow> string \<times> string \<Rightarrow> json" where
  "existed_json v = (\<lambda>(s, b). JObj [(''path'', JStr s), (''existed'', JBool (dict_get (v_files v) s \<noteq> None))])"

definition stage_steps :: "vault \<Rightarrow> (string, string) dict \<Rightarrow> vstep list" where
  "stage_steps v content = concat (map (\<lambda>(s, b).
     Stage s b # (case dict_get (v_files v) s of None \<Rightarrow> [] | Some old \<Rightarrow> [Keep s old])) content)"

definition journal_json :: "vault \<Rightarrow> (string, string) dict \<Rightarrow> string \<Rightarrow> string \<Rightarrow> nat \<Rightarrow> json" where
  "journal_json v content backup phase n = JObj
     [(''schema_version'', JStr archive_schema), (''phase'', JStr phase),
      (''files'', JArr (map (existed_json v) content)), (''applied_count'', JInt (int n)),
      (''pre_restore_backup'', JStr backup)]"

definition move_steps :: "vault \<Rightarrow> (string, string) dict \<Rightarrow> string \<Rightarrow> vstep list" where
  "move_steps v content backup = concat (map (\<lambda>(n, (s, b)).
     [Move s, Log (journal_json v content backup ''applying'' n)]) (enumerate 1 content))"

text \<open>Everything up to the last file, for the content in the order of its names.\<close>

definition apply_steps :: "vault \<Rightarrow> (string, string) dict \<Rightarrow> string \<Rightarrow> vstep list" where
  "apply_steps v content backup =
     Make_root # stage_steps v content
     @ [Log (journal_json v content backup ''prepared'' 0), Log (journal_json v content backup ''applying'' 0)]
     @ move_steps v content backup"

definition commit_steps :: "tears \<Rightarrow> vault \<Rightarrow> (string, string) dict \<Rightarrow> string \<Rightarrow> vstep list" where
  "commit_steps tears v content backup =
     Log (journal_json v content backup ''committed'' (length content)) # removal tears"

definition restore_steps ::
  "tools \<Rightarrow> tears \<Rightarrow> string \<Rightarrow> string \<Rightarrow> preview \<times> (string, string) dict \<Rightarrow> vault \<Rightarrow> vstep list \<times> (xerror + preview)" where
  "restore_steps T tears now stamp = (\<lambda>(pv, found) v.
     (case backup_copy T now v of
        Inl e \<Rightarrow> ([], Inl e)
      | Inr copy \<Rightarrow>
          let backup = backup_name stamp copy; save = Save_backup backup (fst copy); v2 = apply_step save v in
          (case (if snd copy then bindE (inspect_unlocked T v2 (fst copy)) (\<lambda>_. Inr ()) else Inr ()) of
             Inl e \<Rightarrow> ([save], Inl e)
           | Inr _ \<Rightarrow>
               (case sibling_root v2 ''transaction'' of
                  Inl e \<Rightarrow> ([save], Inl e)
                | Inr _ \<Rightarrow>
                    let content = sort_key fst found; ops = apply_steps v2 content backup; v3 = run_steps ops v2 in
                    (case chain_status_of (chain_view v3) of
                       Inl e \<Rightarrow>
                         (case recover_trace tears v3 of
                            (undone, r) \<Rightarrow> (save # ops @ undone, Inl (case r of Inl f \<Rightarrow> f | Inr _ \<Rightarrow> chain_fault e)))
                     | Inr st \<Rightarrow> (save # ops @ commit_steps tears v2 content backup, Inr pv))))))"

definition restore_trace ::
  "tools \<Rightarrow> tears \<Rightarrow> string \<Rightarrow> string \<Rightarrow> string \<Rightarrow> bool \<Rightarrow> string option \<Rightarrow> vault \<Rightarrow> vstep list \<times> (xerror + preview)" where
  "restore_trace T tears now stamp data replace token v =
     (case recover_trace tears v of
        (before, Inl e) \<Rightarrow> (before, Inl e)
      | (before, Inr _) \<Rightarrow>
          let v1 = run_steps before v in
          (case approve T data replace token v1 of
             Inl e \<Rightarrow> (before, Inl e)
           | Inr approved \<Rightarrow>
               (case restore_steps T tears now stamp approved v1 of (steps, r) \<Rightarrow> (before @ steps, r))))"

definition restore_archive ::
  "tools \<Rightarrow> tears \<Rightarrow> string \<Rightarrow> string \<Rightarrow> string \<Rightarrow> bool \<Rightarrow> string option \<Rightarrow> vault \<Rightarrow> vault \<times> (xerror + preview)" where
  "restore_archive T tears now stamp data replace token v =
     (case restore_trace T tears now stamp data replace token v of (steps, r) \<Rightarrow> (run_steps steps v, r))"

end
