(* ===== verification/Archive_Crash.thy ===== *)
theory Archive_Crash
  imports Archive_Restore
begin

text \<open>
  A restore is all or nothing: stopped after any durable write, and with any number of stopped
  recoveries after it, a recovery that finishes leaves the ledger as it was before or with the
  whole archive in place.
\<close>

section \<open>Along a list of steps\<close>

primrec along :: "(vault \<Rightarrow> bool) \<Rightarrow> vstep list \<Rightarrow> vault \<Rightarrow> bool" where
  "along P [] v = P v"
| "along P (a # as) v = (P v \<and> along P as (apply_step a v))"

lemma run_simps [simp]:
  "run_steps [] v = v" "run_steps (a # as) v = run_steps as (apply_step a v)" "run_steps (as @ bs) v = run_steps bs (run_steps as v)"
  by (simp_all add: run_steps_def)

lemma along_append: "along P (as @ bs) v \<longleftrightarrow> along P as v \<and> along P bs (run_steps as v)"
proof (induction as arbitrary: v)
  case Nil
  then show ?case by (cases bs) simp_all
qed simp

lemma along_prefix: "along P as v \<Longrightarrow> prefix pre as \<Longrightarrow> P (run_steps pre v)"
proof (induction as arbitrary: pre v)
  case (Cons a as)
  then show ?case by (cases pre) simp_all
qed simp

lemma along_end: "along P as v \<Longrightarrow> P (run_steps as v)"
  by (rule along_prefix[OF _ prefix_order.order_refl])

lemma along_steps: "P v \<Longrightarrow> (\<And>a w. a \<in> set as \<Longrightarrow> P w \<Longrightarrow> P (apply_step a w)) \<Longrightarrow> along P as v"
  by (induction as arbitrary: v) simp_all

lemma along_mono: "along P as v \<Longrightarrow> (\<And>w. P w \<Longrightarrow> Q w) \<Longrightarrow> along Q as v"
  by (induction as arbitrary: v) simp_all

section \<open>Files\<close>

definition same_files :: "(string, string) dict \<Rightarrow> (string, string) dict \<Rightarrow> bool" where
  "same_files fs gs \<longleftrightarrow> dict_get fs = dict_get gs"

lemma over_get:
  "distinct (dict_keys content) \<Longrightarrow>
   dict_get (over_files content fs) s = (case dict_get content s of Some b \<Rightarrow> Some b | None \<Rightarrow> dict_get fs s)"
proof (induction content arbitrary: fs)
  case (Cons x xs)
  obtain k b where x: "x = (k, b)" by (cases x)
  have "dict_get xs k = None" using Cons.prems by (simp add: x map_of_eq_None_iff)
  then show ?case using Cons by (simp add: x over_files_def split: option.splits)
qed (simp add: over_files_def)

lemma over_snoc: "over_files (content @ [(s, b)]) fs = dict_set s b (over_files content fs)"
  by (simp add: over_files_def)

lemma safe_links: "v_links w = v_links v \<Longrightarrow> safe_destination w s = safe_destination v s"
  by (simp add: safe_destination_def)

section \<open>The journal\<close>

lemma members_ok_all: "members_ok d kvs \<longleftrightarrow> list_all (\<lambda>(k, v). depth_ok d v) kvs"
  by (induction kvs) auto

lemma depths_ok_all: "depths_ok d vs \<longleftrightarrow> list_all (depth_ok d) vs"
  by (induction vs) auto

lemma depth_normalise:
  "depth_ok d (normalise v) = depth_ok d v"
  "depths_ok d (normalise_items vs) = depths_ok d vs"
  "members_ok d (normalise_members kvs) = members_ok d kvs"
proof (induction v and vs and kvs arbitrary: d and d and d rule: normalise_normalise_items_normalise_members.induct)
  case (2 kvs)
  then show ?case by (simp add: members_ok_all list_all_iff)
qed simp_all

definition entry_objects :: "vault \<Rightarrow> (string, string) dict \<Rightarrow> json list" where
  "entry_objects v content = map (\<lambda>(s, b). JObj [(''existed'', JBool (dict_get (v_files v) s \<noteq> None)), (''path'', JStr s)]) content"

definition journal_ok :: "vault \<Rightarrow> (string, string) dict \<Rightarrow> string \<Rightarrow> json \<Rightarrow> bool" where
  "journal_ok v content p j \<longleftrightarrow> wf_json j \<and> is_obj j \<and> depth_ok 1 j \<and> jget j ''phase'' = JStr p
     \<and> jget j ''files'' = JArr (entry_objects v content)"

lemma normalise_existed: "normalise_items (map (existed_json v) content) = entry_objects v content"
  by (induction content) (auto simp: entry_objects_def existed_json_def string_less_simps)

lemma journal_json_wf: "wf_json (journal_json v content backup p n)"
proof -
  have "wf_items (map (existed_json v) content)" by (induction content) (auto simp: existed_json_def dict_ok_def)
  then show ?thesis by (simp add: journal_json_def dict_ok_def)
qed

lemma journal_json_ok: "journal_ok v content p (normalise (journal_json v content backup p n))"
proof -
  let ?j = "journal_json v content backup p n"
  have d: "depths_ok 3 (map (existed_json v) content)"
    by (induction content) (auto simp: existed_json_def max_depth_def)
  have "depth_ok 1 (normalise ?j)"
    unfolding depth_normalise using d by (simp add: journal_json_def max_depth_def numeral_3_eq_3)
  moreover have "jget (normalise ?j) ''phase'' = JStr p" "jget (normalise ?j) ''files'' = JArr (entry_objects v content)"
    unfolding jget_normal[OF journal_json_wf] by (simp_all add: journal_json_def jget_obj normalise_existed)
  moreover have "is_obj (normalise ?j)" by (simp add: journal_json_def)
  ultimately show ?thesis using wf_normalise(1)[OF journal_json_wf] by (simp add: journal_ok_def)
qed

lemma journal_phase: "journal_ok v content p j \<Longrightarrow> journal_ok v content q (normalise (json_set ''phase'' (JStr q) j))"
proof -
  assume j: "journal_ok v content p j"
  let ?k = "json_set ''phase'' (JStr q) j"
  have wf: "wf_json ?k" "is_obj ?k" using j by (simp_all add: journal_ok_def wf_json_set is_obj_set)
  have "depth_ok 1 ?k"
    using j set_dict_set[of "''phase''" "JStr q"]
    by (cases j) (fastforce simp: journal_ok_def json_set_def members_ok_all list_all_iff max_depth_def)+
  moreover have "normalise_items (entry_objects v content) = entry_objects v content"
    by (induction content) (auto simp: entry_objects_def string_less_simps)
  ultimately show ?thesis
    using j wf by (simp add: journal_ok_def depth_normalise wf_normalise jget_normal jget_set)
qed

lemma journal_read: "journal_ok v content p j \<Longrightarrow> p \<in> set phases \<Longrightarrow> journal_entries j = Inr (p, entry_objects v content)"
  by (simp add: journal_ok_def journal_entries_def hashable_def)

section \<open>States a recovery can start from\<close>

text \<open>The restore is of \<open>content\<close> over the vault \<open>v\<close>.\<close>

definition settled :: "vault \<Rightarrow> (string, string) dict \<Rightarrow> vault \<Rightarrow> bool" where
  "settled v content w \<longleftrightarrow>
     same_files (v_files w) (v_files v) \<or> same_files (v_files w) (over_files content (v_files v))"

definition quiet :: "vault \<Rightarrow> (string, string) dict \<Rightarrow> transaction \<Rightarrow> bool" where
  "quiet v content x \<longleftrightarrow>
     x_journal x = None \<or> (\<exists>j p. x_journal x = Some (Some j) \<and> journal_ok v content p j \<and> p \<in> set phases - {''applying''})"

definition kept_all :: "vault \<Rightarrow> (string, string) dict \<Rightarrow> transaction \<Rightarrow> bool" where
  "kept_all v content x \<longleftrightarrow>
     (\<forall>s old. s \<in> set (dict_keys content) \<and> dict_get (v_files v) s = Some old \<longrightarrow> dict_get (x_kept x) s = Some old)"

definition midway :: "vault \<Rightarrow> (string, string) dict \<Rightarrow> vault \<Rightarrow> bool" where
  "midway v content w \<longleftrightarrow>
     (\<forall>s. s \<notin> set (dict_keys content) \<longrightarrow> dict_get (v_files w) s = dict_get (v_files v) s) \<and>
     (\<exists>x j. v_tx w = Some x \<and> x_journal x = Some (Some j) \<and> journal_ok v content ''applying'' j \<and> kept_all v content x)"

definition recoverable :: "vault \<Rightarrow> (string, string) dict \<Rightarrow> vault \<Rightarrow> bool" where
  "recoverable v content w \<longleftrightarrow>
     v_links w = v_links v \<and> v_unsafe w = v_unsafe v \<and>
     (settled v content w \<and> (case v_tx w of None \<Rightarrow> True | Some x \<Rightarrow> quiet v content x) \<or> midway v content w)"

lemma step_links [simp]: "v_links (apply_step a w) = v_links w" "v_unsafe (apply_step a w) = v_unsafe w"
  by (cases a; simp add: apply_step_def in_tx_def staged_data_def split: option.splits)+

lemma removal_along:
  assumes "recoverable v content w" "\<not> midway v content w"
  shows "along (recoverable v content) (removal tears) w \<and> \<not> midway v content (run_steps (removal tears) w)
    \<and> v_tx (run_steps (removal tears) w) = None \<and> settled v content (run_steps (removal tears) w)"
proof -
  let ?P = "\<lambda>u. recoverable v content u \<and> \<not> midway v content u"
  have prune: "?P (apply_step (Prune names j) u)" if p: "?P u" for names j u
  proof -
    have s: "settled v content u" "\<forall>x. v_tx u = Some x \<longrightarrow> quiet v content x"
      using p by (auto simp: recoverable_def split: option.splits)
    have q: "quiet v content (x\<lparr>x_staged := a, x_kept := b, x_journal := if j then None else x_journal x\<rparr>)"
      if "quiet v content x" for x a b
      using that by (auto simp: quiet_def)
    have nm: "\<not> midway v content (apply_step (Prune names j) u)"
    proof
      assume "midway v content (apply_step (Prune names j) u)"
      then obtain x y where "v_tx (apply_step (Prune names j) u) = Some x" "x_journal x = Some (Some y)" "journal_ok v content ''applying'' y"
        by (auto simp: midway_def)
      moreover have "quiet v content x" if "v_tx (apply_step (Prune names j) u) = Some x" for x
        using that s(2) q by (auto simp: apply_step_def in_tx_def)
      ultimately show False by (auto simp: quiet_def journal_ok_def)
    qed
    have "settled v content (apply_step (Prune names j) u)" using s(1) by (simp add: settled_def apply_step_def in_tx_def)
    then show ?thesis
      using p s(2) q nm by (auto simp: recoverable_def apply_step_def in_tx_def split: option.splits)
  qed
  have drop: "?P (apply_step Drop_root u) \<and> v_tx (apply_step Drop_root u) = None \<and> settled v content (apply_step Drop_root u)" if "?P u" for u
    using that by (auto simp: recoverable_def midway_def settled_def apply_step_def)
  have tears: "along ?P (map (\<lambda>(names, j). Prune names j) tears) w"
    by (rule along_steps) (use assms prune in auto)
  note last = along_end[OF tears]
  have "along (recoverable v content) (removal tears) w"
    unfolding removal_def along_append
    using along_mono[OF tears] last drop[OF last] by simp
  then show ?thesis using drop[OF last] by (simp add: removal_def)
qed

section \<open>Recovering\<close>

lemma undo_entries:
  assumes "\<And>s b. (s, b) \<in> set content \<Longrightarrow> allowed s \<and> safe_destination w s = Inr ()"
    and "\<And>s old. s \<in> set (dict_keys content) \<Longrightarrow> dict_get (v_files v) s = Some old \<Longrightarrow> dict_get (x_kept x) s = Some old"
  shows "undo w x (entry_objects v content) =
    (map (\<lambda>(s, b). case dict_get (v_files v) s of None \<Rightarrow> Unlink s | Some old \<Rightarrow> Put s old) content, Inr ())"
  using assms
proof (induction content)
  case Nil
  then show ?case by (simp add: entry_objects_def)
next
  case (Cons c content)
  obtain s b where c: "c = (s, b)" by (cases c)
  have "undo w x (entry_objects v content) =
    (map (\<lambda>(s, b). case dict_get (v_files v) s of None \<Rightarrow> Unlink s | Some old \<Rightarrow> Put s old) content, Inr ())"
    by (rule Cons.IH) (use Cons.prems in auto)
  moreover have "allowed s" "safe_destination w s = Inr ()" "\<And>old. dict_get (v_files v) s = Some old \<Longrightarrow> dict_get (x_kept x) s = Some old"
    using Cons.prems by (auto simp: c)
  ultimately show ?case
    by (auto simp: c entry_objects_def undo_entry_def jget_obj path_text_def py_bool_def split: option.splits)
qed

lemma undone_files:
  assumes "\<And>s. s \<notin> set (dict_keys content) \<Longrightarrow> dict_get (v_files w) s = dict_get (v_files v) s"
  shows "same_files (v_files (run_steps (map (\<lambda>(s, b). case dict_get (v_files v) s of None \<Rightarrow> Unlink s | Some old \<Rightarrow> Put s old) content) w)) (v_files v)"
  using assms
proof (induction content arbitrary: w)
  case Nil
  then show ?case by (auto simp: same_files_def)
next
  case (Cons c content)
  obtain s b where c: "c = (s, b)" by (cases c)
  let ?w = "apply_step (case dict_get (v_files v) s of None \<Rightarrow> Unlink s | Some old \<Rightarrow> Put s old) w"
  have "dict_get (v_files ?w) t = dict_get (v_files v) t" if "t \<notin> set (dict_keys content)" for t
    using Cons.prems[of t] that by (cases "t = s") (auto simp: c apply_step_def split: option.splits)
  from Cons.IH[OF this] show ?case by (simp add: c)
qed

lemma midway_step:
  assumes "midway v content w" "a = Put s b \<or> a = Unlink s" "s \<in> set (dict_keys content)"
  shows "midway v content (apply_step a w)"
proof -
  have "\<forall>t. t \<notin> set (dict_keys content) \<longrightarrow> dict_get (v_files (apply_step a w)) t = dict_get (v_files w) t"
    using assms(2,3) by (force simp: apply_step_def)
  moreover have "v_tx (apply_step a w) = v_tx w" using assms(2) by (auto simp: apply_step_def)
  ultimately show ?thesis using assms(1) by (simp add: midway_def)
qed

definition owned :: "vault \<Rightarrow> (string, string) dict \<Rightarrow> bool" where
  "owned v content \<longleftrightarrow> distinct (dict_keys content) \<and> list_all (\<lambda>(s, b). allowed s \<and> safe_destination v s = Inr ()) content"

lemma recover_along:
  assumes "recoverable v content w" "owned v content" "sibling_root v ''transaction'' = Inr ()"
  shows "\<not> isl (snd (recover_trace tears w)) \<and> along (recoverable v content) (fst (recover_trace tears w)) w
    \<and> v_tx (run_steps (fst (recover_trace tears w)) w) = None \<and> settled v content (run_steps (fst (recover_trace tears w)) w)"
proof -
  have sib: "sibling_root w ''transaction'' = Inr ()" using assms(1,3) by (simp add: recoverable_def sibling_root_def)
  show ?thesis
  proof (cases "midway v content w")
    case True
    then obtain x j where x: "v_tx w = Some x" "x_journal x = Some (Some j)" "journal_ok v content ''applying'' j" "kept_all v content x"
      by (auto simp: midway_def)
    have links: "v_links w = v_links v" "v_unsafe w = v_unsafe v" using assms(1) by (simp_all add: recoverable_def)
    let ?undone = "map (\<lambda>(s, b). case dict_get (v_files v) s of None \<Rightarrow> Unlink s | Some old \<Rightarrow> Put s old) content"
    let ?log = "json_set ''phase'' (JStr ''rolled_back'') j"
    have u: "undo w x (entry_objects v content) = (?undone, Inr ())"
      by (rule undo_entries) (use assms(2) x(4) safe_links[OF links(1)] in \<open>auto simp: owned_def list_all_iff kept_all_def\<close>)
    have tr: "recover_trace tears w = (?undone @ Log ?log # removal tears, Inr True)"
      using x journal_read[OF x(3)] u sib by (simp add: recover_trace_def phases_def)
    let ?P = "\<lambda>u. midway v content u \<and> v_links u = v_links v \<and> v_unsafe u = v_unsafe v \<and> v_tx u = Some x"
    have undoing: "along ?P ?undone w"
    proof (rule along_steps)
      show "?P w" using True links x(1) by simp
      fix a u assume "a \<in> set ?undone" "?P u"
      then obtain s b where "(s, b) \<in> set content" "a = Unlink s \<or> (\<exists>old. a = Put s old)" by (auto split: option.splits)
      moreover then have "v_tx (apply_step a u) = v_tx u" by (auto simp: apply_step_def)
      ultimately show "?P (apply_step a u)" using \<open>?P u\<close> midway_step[of v content u a s] by force
    qed
    let ?w = "apply_step (Log ?log) (run_steps ?undone w)"
    note at_end = along_end[OF undoing]
    have "same_files (v_files (run_steps ?undone w)) (v_files v)"
      by (rule undone_files) (use True in \<open>simp add: midway_def\<close>)
    then have st: "settled v content ?w" by (simp add: settled_def apply_step_def in_tx_def)
    have jl: "journal_ok v content ''rolled_back'' (normalise ?log)" by (rule journal_phase[OF x(3)])
    have tx: "v_tx ?w = Some (x\<lparr>x_journal := Some (Some (normalise ?log))\<rparr>)" using at_end by (simp add: apply_step_def in_tx_def)
    have "quiet v content (x\<lparr>x_journal := Some (Some (normalise ?log))\<rparr>)"
      using jl by (auto simp: quiet_def phases_def)
    then have rec: "recoverable v content ?w" "\<not> midway v content ?w"
      using st tx at_end jl by (auto simp: recoverable_def midway_def journal_ok_def)
    have "along (recoverable v content) ?undone w"
      by (rule along_mono[OF undoing]) (simp add: recoverable_def)
    then have "along (recoverable v content) (?undone @ Log ?log # removal tears) w"
      using removal_along[OF rec] assms(1) at_end by (simp add: along_append recoverable_def)
    then show ?thesis
      using removal_along[OF rec, of tears] by (simp add: tr)
  next
    case False
    note gone = removal_along[OF assms(1) False]
    have s: "settled v content w" "\<And>x. v_tx w = Some x \<Longrightarrow> quiet v content x"
      using assms(1) False by (auto simp: recoverable_def split: option.splits)
    show ?thesis
    proof (cases "v_tx w")
      case None
      then show ?thesis using sib s(1) assms(1) by (simp add: recover_trace_def)
    next
      case (Some x)
      have "recover_trace tears w = (removal tears, Inr True)"
        using s(2)[OF Some] Some sib journal_read by (auto simp: recover_trace_def quiet_def)
      then show ?thesis using gone by simp
    qed
  qed
qed

text \<open>A call stopped at some step, and recoveries stopped after it.\<close>

inductive stopped :: "vault \<Rightarrow> vault \<Rightarrow> bool" where
  Once: "stopped v v"
| Again: "stopped v w \<Longrightarrow> recover_trace tears w = (steps, r) \<Longrightarrow> prefix pre steps \<Longrightarrow> stopped v (run_steps pre w)"

lemma stopped_recoverable:
  "stopped u w \<Longrightarrow> recoverable v content u \<Longrightarrow> owned v content \<Longrightarrow> sibling_root v ''transaction'' = Inr () \<Longrightarrow>
   recoverable v content w"
proof (induction rule: stopped.induct)
  case (Again u w tears steps r pre)
  then have "recoverable v content w" by simp
  from recover_along[OF this Again.prems(2,3), of tears] show ?case
    using Again.hyps(2,3) along_prefix[of "recoverable v content" steps w pre] by auto
qed

section \<open>Restoring\<close>

lemma staging_along:
  assumes "v_tx w = Some x" "x_journal x = None" "v_files w = v_files v" "v_links w = v_links v" "v_unsafe w = v_unsafe v"
    and "distinct (dict_keys content)"
  shows "along (recoverable v done) (stage_steps v content) w \<and>
    (\<exists>y. v_tx (run_steps (stage_steps v content) w) = Some y \<and> x_journal y = None
       \<and> (\<forall>s. dict_get (x_staged y) s = (case dict_get content s of Some b \<Rightarrow> Some b | None \<Rightarrow> dict_get (x_staged x) s))
       \<and> (\<forall>s. dict_get (x_kept y) s = (if s \<in> set (dict_keys content) \<and> dict_get (v_files v) s \<noteq> None
                 then dict_get (v_files v) s else dict_get (x_kept x) s)))
    \<and> v_files (run_steps (stage_steps v content) w) = v_files v"
  using assms
proof (induction content arbitrary: w x)
  case Nil
  then show ?case by (simp add: stage_steps_def recoverable_def settled_def same_files_def quiet_def)
next
  case (Cons c content)
  obtain s b where c: "c = (s, b)" by (cases c)
  let ?keep = "case dict_get (v_files v) s of None \<Rightarrow> [] | Some old \<Rightarrow> [Keep s old]"
  let ?x1 = "x\<lparr>x_staged := dict_set s b (x_staged x)\<rparr>"
  let ?x2 = "case dict_get (v_files v) s of None \<Rightarrow> ?x1 | Some old \<Rightarrow> ?x1\<lparr>x_kept := dict_set s old (x_kept x)\<rparr>"
  let ?w1 = "apply_step (Stage s b) w" let ?w2 = "run_steps ?keep ?w1"
  have steps: "stage_steps v (c # content) = Stage s b # ?keep @ stage_steps v content" by (simp add: stage_steps_def c)
  have w1: "v_tx ?w1 = Some ?x1" "v_files ?w1 = v_files v" using Cons.prems by (simp_all add: apply_step_def in_tx_def)
  have w2: "v_tx ?w2 = Some ?x2" "v_files ?w2 = v_files v" "v_links ?w2 = v_links v" "v_unsafe ?w2 = v_unsafe v"
    using Cons.prems w1 by (simp_all add: apply_step_def in_tx_def split: option.splits)
  have j: "x_journal ?x2 = None" using Cons.prems by (simp split: option.splits)
  have fresh: "s \<notin> set (dict_keys content)" "dict_get content s = None" using Cons.prems(6) by (auto simp: c map_of_eq_None_iff)
  have rec: "recoverable v done u" if "v_files u = v_files v" "v_links u = v_links v" "v_unsafe u = v_unsafe v"
      "v_tx u = Some y" "x_journal y = None" for u y
    using that by (simp add: recoverable_def settled_def same_files_def quiet_def)
  have "along (recoverable v done) (Stage s b # ?keep) w"
    using rec[of w x] rec[of ?w1 ?x1] rec[of ?w2 ?x2] Cons.prems w1 w2 j by (simp split: option.splits)
  moreover note ih = Cons.IH[OF w2(1) j w2(2-4)]
  ultimately show ?case
    unfolding steps using Cons.prems(6) fresh
    by (auto simp: along_append c split: option.splits)
qed

definition moves_from :: "nat \<Rightarrow> vault \<Rightarrow> (string, string) dict \<Rightarrow> string \<Rightarrow> (string, string) dict \<Rightarrow> vstep list" where
  "moves_from k v content backup xs = concat (map (\<lambda>(n, (s, b)).
     [Move s, Log (journal_json v content backup ''applying'' n)]) (enumerate k xs))"

lemma moves_along:
  assumes "midway v content w" "\<And>s b. (s, b) \<in> set xs \<Longrightarrow> staged_data w s = Some b" "distinct (dict_keys xs)" "set xs \<subseteq> set content"
  shows "along (midway v content) (moves_from k v content backup xs) w
    \<and> v_files (run_steps (moves_from k v content backup xs) w) = over_files xs (v_files w)"
  using assms
proof (induction xs arbitrary: w k)
  case Nil
  then show ?case by (simp add: moves_from_def over_files_def)
next
  case (Cons c xs)
  obtain s b where c: "c = (s, b)" by (cases c)
  let ?log = "Log (journal_json v content backup ''applying'' k)"
  have steps: "moves_from k v content backup (c # xs) = Move s # ?log # moves_from (Suc k) v content backup xs"
    by (simp add: moves_from_def c)
  obtain x where x: "v_tx w = Some x" "dict_get (x_staged x) s = Some b" "kept_all v content x"
    using Cons.prems(1,2) by (auto simp: midway_def staged_data_def c)
  have w1: "apply_step (Move s) w = in_tx (\<lambda>x. x\<lparr>x_staged := dict_pop s (x_staged x)\<rparr>) (w\<lparr>v_files := dict_set s b (v_files w)\<rparr>)"
    using x by (simp add: apply_step_def staged_data_def)
  have key: "s \<in> set (dict_keys content)" using Cons.prems(4) by (force simp: c)
  have m1: "midway v content (apply_step (Move s) w)"
    unfolding w1 using Cons.prems(1) key by (auto simp: midway_def in_tx_def kept_all_def)
  let ?w2 = "apply_step ?log (apply_step (Move s) w)"
  have m2: "midway v content ?w2"
    using m1 journal_json_ok[of v content "''applying''" backup k] by (auto simp: midway_def apply_step_def[of "Log _"] in_tx_def kept_all_def)
  have "staged_data ?w2 t = Some d" if "(t, d) \<in> set xs" for t d
  proof -
    have "t \<noteq> s" using that Cons.prems(3) by (force simp: c)
    then show ?thesis using that Cons.prems(2)[of t d] x(1) by (simp add: staged_data_def apply_step_def[of "Log _"] w1 in_tx_def)
  qed
  moreover have "v_files ?w2 = dict_set s b (v_files w)" by (simp add: apply_step_def[of "Log _"] w1 in_tx_def)
  ultimately show ?case
    unfolding steps using Cons.IH[OF m2, of "Suc k"] Cons.prems m1 m2 by (simp add: c over_files_def)
qed

lemma run_links [simp]: "v_links (run_steps as w) = v_links w" "v_unsafe (run_steps as w) = v_unsafe w"
  by (induction as arbitrary: w) simp_all

lemma along_links:
  "along P as w \<Longrightarrow> v_links w = ls \<Longrightarrow> v_unsafe w = us \<Longrightarrow> along (\<lambda>u. P u \<and> v_links u = ls \<and> v_unsafe u = us) as w"
  by (induction as arbitrary: w) simp_all

lemma apply_along:
  assumes "owned v content" "v_tx v = None"
  shows "along (recoverable v content) (apply_steps v content backup) v
    \<and> midway v content (run_steps (apply_steps v content backup) v)
    \<and> v_files (run_steps (apply_steps v content backup) v) = over_files content (v_files v)"
proof -
  have d: "distinct (dict_keys content)" using assms(1) by (simp add: owned_def)
  let ?x0 = "\<lparr>x_journal = None, x_staged = [], x_kept = []\<rparr>" let ?w0 = "apply_step Make_root v"
  have w0: "v_tx ?w0 = Some ?x0" "v_files ?w0 = v_files v" by (simp_all add: apply_step_def)
  have r0: "recoverable v content v" using assms(2) by (simp add: recoverable_def settled_def same_files_def)
  let ?S = "stage_steps v content" let ?w1 = "run_steps ?S ?w0"
  have v0: "v_links ?w0 = v_links v" "v_unsafe ?w0 = v_unsafe v" "x_journal ?x0 = None" by simp_all
  note stage = staging_along[OF w0(1) v0(3) w0(2) v0(1,2) d, of content]
  then obtain y where y: "v_tx ?w1 = Some y" "x_journal y = None"
      "\<forall>s. dict_get (x_staged y) s = (case dict_get content s of Some b \<Rightarrow> Some b | None \<Rightarrow> dict_get (x_staged ?x0) s)"
      "\<forall>s. dict_get (x_kept y) s = (if s \<in> set (dict_keys content) \<and> dict_get (v_files v) s \<noteq> None
         then dict_get (v_files v) s else dict_get (x_kept ?x0) s)"
    by blast
  have st: "along (recoverable v content) ?S ?w0" "v_tx ?w1 = Some y" "x_journal y = None" "v_files ?w1 = v_files v"
    using stage y(1,2) by blast+
  have new: "dict_get (x_staged y) s = Some b" if "dict_get content s = Some b" for s b
    using y(3)[rule_format, of s] that by simp
  have old: "dict_get (x_kept y) s = Some b" if "s \<in> set (dict_keys content)" "dict_get (v_files v) s = Some b" for s b
    using y(4)[rule_format, of s] that(2) by (simp only: that(1) simp_thms if_True option.distinct not_False_eq_True)
  let ?p = "journal_json v content backup ''prepared'' 0" let ?a = "journal_json v content backup ''applying'' 0"
  let ?w2 = "apply_step (Log ?p) ?w1" let ?w3 = "apply_step (Log ?a) ?w2"
  have tx2: "v_tx ?w2 = Some (y\<lparr>x_journal := Some (Some (normalise ?p))\<rparr>)" "v_files ?w2 = v_files v"
    and tx3: "v_tx ?w3 = Some (y\<lparr>x_journal := Some (Some (normalise ?a))\<rparr>)" "v_files ?w3 = v_files v"
    using st by (simp_all add: apply_step_def in_tx_def)
  have r2: "recoverable v content ?w2"
    using tx2 journal_json_ok[of v content "''prepared''" backup 0]
    by (auto simp: recoverable_def settled_def same_files_def quiet_def phases_def)
  have "kept_all v content (y\<lparr>x_journal := j\<rparr>)" for j unfolding kept_all_def using old by simp
  then have m3: "midway v content ?w3"
    unfolding midway_def tx3 using journal_json_ok[of v content "''applying''" backup 0] by simp
  have staged: "staged_data ?w3 s = Some b" if "(s, b) \<in> set content" for s b
  proof -
    have "dict_get content s = Some b" using map_of_is_SomeI[OF d that] .
    from new[OF this] show ?thesis unfolding staged_data_def tx3(1) by simp
  qed
  let ?M = "moves_from 1 v content backup content"
  have mv: "along (midway v content) ?M ?w3" "v_files (run_steps ?M ?w3) = over_files content (v_files v)"
    using moves_along[OF m3 staged d subset_refl, of 1 backup] tx3(2) by simp_all
  have links: "v_links ?w3 = v_links v" "v_unsafe ?w3 = v_unsafe v" by simp_all
  have "along (recoverable v content) ?M ?w3"
    using along_links[OF mv(1) links] by (rule along_mono) (simp add: recoverable_def)
  moreover have "apply_steps v content backup = Make_root # ?S @ [Log ?p, Log ?a] @ ?M"
    by (simp add: apply_steps_def move_steps_def moves_from_def)
  ultimately show ?thesis
    using r0 st(1) along_end[OF st(1)] r2 along_end[OF mv(1)] mv(2) by (simp add: along_append)
qed

lemma commit_along:
  assumes "midway v content w" "v_files w = over_files content (v_files v)" "v_links w = v_links v" "v_unsafe w = v_unsafe v"
  shows "along (recoverable v content) (commit_steps tears v content backup) w
    \<and> v_tx (run_steps (commit_steps tears v content backup) w) = None
    \<and> settled v content (run_steps (commit_steps tears v content backup) w)"
proof -
  let ?j = "journal_json v content backup ''committed'' (length content)" let ?w = "apply_step (Log ?j) w"
  have "settled v content ?w" using assms(2) by (simp add: settled_def same_files_def apply_step_def in_tx_def)
  moreover have j: "journal_ok v content ''committed'' (normalise ?j)" by (rule journal_json_ok)
  moreover obtain x where "v_tx w = Some x" using assms(1) by (auto simp: midway_def)
  ultimately have "recoverable v content ?w" "\<not> midway v content ?w"
    using assms(3,4) by (auto simp: recoverable_def midway_def quiet_def phases_def apply_step_def in_tx_def journal_ok_def)
  moreover have "recoverable v content w" using assms(1,3,4) by (simp add: recoverable_def)
  ultimately show ?thesis using removal_along[of v content ?w tears] by (simp add: commit_steps_def)
qed

lemma save_recoverable: "recoverable (apply_step (Save_backup a b) v) = recoverable v"
proof -
  let ?u = "apply_step (Save_backup a b) v"
  have fields: "v_files ?u = v_files v" "v_links ?u = v_links v" "v_unsafe ?u = v_unsafe v" by (simp_all add: apply_step_def)
  then have "journal_ok ?u = journal_ok v" by (intro ext) (simp add: journal_ok_def entry_objects_def)
  then have "quiet ?u = quiet v" "midway ?u = midway v" "settled ?u = settled v"
    using fields by (auto simp: fun_eq_iff quiet_def midway_def settled_def kept_all_def)
  then show ?thesis using fields by (intro ext) (simp add: recoverable_def split: option.split)
qed

lemma save_owned: "owned (apply_step (Save_backup a b) v) = owned v"
  by (intro ext) (simp add: owned_def safe_destination_def apply_step_def)

lemma owned_sort: "owned v content \<Longrightarrow> owned v (sort_key fst content)"
  using dict_ok_sort[of fst content] by (simp add: owned_def dict_ok_def list_all_iff)

lemma restore_along:
  assumes "restore_steps T tears now stamp (pv, found) v = (steps, r)" "owned v found" "v_tx v = None"
    "sibling_root v ''transaction'' = Inr ()"
  shows "along (recoverable v (sort_key fst found)) steps v"
proof -
  let ?c = "sort_key fst found"
  have own: "owned v ?c" by (rule owned_sort[OF assms(2)])
  have start: "recoverable v ?c v" using assms(3) by (simp add: recoverable_def settled_def same_files_def)
  show ?thesis
  proof (cases "backup_copy T now v")
    case (Inl e)
    then show ?thesis using assms(1) start by (simp add: restore_steps_def)
  next
    case (Inr copy)
    define backup where "backup = backup_name stamp copy"
    define save where "save = Save_backup backup (fst copy)"
    define u where "u = apply_step save v"
    have rec: "recoverable u = recoverable v" and ou: "owned u ?c" "v_tx u = None" "sibling_root u ''transaction'' = Inr ()"
      using own assms(3,4) by (simp_all add: u_def save_def save_recoverable save_owned sibling_root_def) (simp add: apply_step_def)
    have saved: "along (recoverable v ?c) [save] v"
      using start along_end[of "recoverable v ?c" "[]" u] ou(2) rec
      by (simp add: u_def[symmetric] recoverable_def[of u ?c u, symmetric])
        (simp add: recoverable_def settled_def same_files_def u_def save_def apply_step_def)
    define ops where "ops = apply_steps u ?c backup"
    define w where "w = run_steps ops u"
    note ap = apply_along[OF ou(1,2), of backup, folded ops_def w_def, unfolded rec]
    have links: "v_links w = v_links u" "v_unsafe w = v_unsafe u" by (simp_all add: w_def)
    have rw: "recoverable u ?c w" using ap along_end[of "recoverable v ?c" ops u] rec by (simp add: w_def)
    have undone: "along (recoverable v ?c) (fst (recover_trace tears w)) w"
      using recover_along[OF rw ou(1,3), of tears] rec by simp
    have commit: "along (recoverable v ?c) (commit_steps tears u ?c backup) w"
      using commit_along[of u ?c w tears backup] ap links rec by simp
    consider "steps = [save]" | "steps = save # ops @ fst (recover_trace tears w)" | "steps = save # ops @ commit_steps tears u ?c backup"
      using assms(1) Inr
      by (auto simp: restore_steps_def Let_def backup_def[symmetric] save_def[symmetric] u_def[symmetric] ops_def[symmetric]
          w_def[symmetric] split: sum.splits prod.splits if_splits)
    then show ?thesis
      using start saved undone commit ap by cases (simp_all add: along_append u_def[symmetric] w_def[symmetric])
  qed
qed

lemma read_entries_owned:
  "read_entries T v zs seen es = Inr content \<Longrightarrow> owned v content \<and> set (dict_keys content) \<inter> set seen = {}"
proof (induction es arbitrary: seen content)
  case (Cons e es)
  then obtain rest data where r: "content = (path_text e, data) # rest" "read_entries T v zs (path_text e # seen) es = Inr rest"
      "allowed (path_text e)" "safe_destination v (path_text e) = Inr ()" "path_text e \<notin> set seen"
    by (auto simp: bindE_Inr)
  from Cons.IH[OF r(2)] show ?case using r by (auto simp: owned_def)
qed (simp add: owned_def)

lemma approve_owned: "approve T data replace token v = Inr (pv, content) \<Longrightarrow> owned v content \<and> inspect_unlocked T v data = Inr (pv, content)"
proof -
  assume a: "approve T data replace token v = Inr (pv, content)"
  then have i: "inspect_unlocked T v data = Inr (pv, content)" by (auto simp: approve_def bindE_Inr)
  then obtain zs es where "read_entries T v zs [] es = Inr content"
    by (auto simp: inspect_unlocked_def bindE_Inr Let_def split: prod.splits)
  then show ?thesis using i read_entries_owned by blast
qed

lemma over_sort: "distinct (dict_keys content) \<Longrightarrow> same_files (over_files (sort_key fst content) fs) (over_files content fs)"
proof -
  assume d: "distinct (dict_keys content)"
  then have "dict_ok (sort_key fst content)" by (simp add: dict_ok_sort dict_ok_def[of content])
  then have "dict_get (sort_key fst content) = dict_get content" using d by (intro ext dict_get_sort) (simp add: dict_ok_def)
  then show ?thesis using d \<open>dict_ok (sort_key fst content)\<close> by (simp add: same_files_def over_get fun_eq_iff dict_ok_def)
qed

text \<open>
  C9: a restore is all or nothing.  Stop a restore after any of its durable writes, and stop any
  number of recoveries after it at any of theirs: a recovery that is then let run answers, leaves
  no transaction behind, and the ledger has exactly the files it had before the restore, or
  exactly those with every file of the inspected archive in place.
\<close>

theorem restore_is_atomic:
  assumes "v_tx v = None" "sibling_root v ''transaction'' = Inr ()"
    and "prefix pre (fst (restore_trace T tears now stamp data replace token v))" "stopped (run_steps pre v) w"
    and "recover_pending tears' w = (w', answer)"
  shows "\<not> isl answer \<and> v_tx w' = None \<and>
    (same_files (v_files w') (v_files v) \<or>
     (\<exists>pv content. inspect_unlocked T v data = Inr (pv, content) \<and> same_files (v_files w') (over_files content (v_files v))))"
proof -
  have before: "recover_trace tears v = ([], Inr False)" using assms(1,2) by (simp add: recover_trace_def)
  have finish: ?thesis
    if own: "owned v content" and al: "along (recoverable v content) steps v" and p: "prefix pre steps"
      and new: "same_files (over_files content (v_files v)) (over_files found (v_files v))"
      and ins: "content = [] \<or> inspect_unlocked T v data = Inr (pv, found)" for content found pv steps
  proof -
    have "recoverable v content (run_steps pre v)" by (rule along_prefix[OF al p])
    then have "recoverable v content w" using stopped_recoverable[OF assms(4) _ own assms(2)] by simp
    from recover_along[OF this own assms(2), of tears'] have "\<not> isl answer" "v_tx w' = None" "settled v content w'"
      using assms(5) by (auto simp: recover_pending_def split: prod.splits)
    then show ?thesis using ins new by (auto simp: settled_def same_files_def over_files_def)
  qed
  show ?thesis
  proof (cases "approve T data replace token v")
    case (Inl e)
    have "recoverable v [] v" using assms(1) by (simp add: recoverable_def settled_def same_files_def)
    then show ?thesis using finish[of "[]" "[]" "[]"] assms(3) before Inl by (simp add: restore_trace_def owned_def same_files_def)
  next
    case (Inr approved)
    obtain pv found where ap: "approved = (pv, found)" by (cases approved)
    note own = approve_owned[OF Inr[unfolded ap]]
    obtain steps r where st: "restore_steps T tears now stamp (pv, found) v = (steps, r)" by fastforce
    have "fst (restore_trace T tears now stamp data replace token v) = steps"
      using before Inr st by (simp add: restore_trace_def ap)
    then have "prefix pre steps" using assms(3) by simp
    moreover have "distinct (dict_keys found)" using own by (simp add: owned_def)
    ultimately show ?thesis
      using finish[OF owned_sort restore_along[OF st _ assms(1,2)] _ over_sort] own by blast
  qed
qed

end
