(* ===== verification/Archive_Promises.thy ===== *)
theory Archive_Promises
  imports Archive_Crash
begin

text \<open>
  What an accepted archive is, what a completed restore leaves, and what the preview token a
  user confirms stands for.
\<close>

section \<open>What an accepted archive is\<close>

definition verified_content :: "tools \<Rightarrow> (string, string) dict \<Rightarrow> bool" where
  "verified_content T content \<longleftrightarrow>
     distinct (dict_keys content) \<and> list_all (\<lambda>(s, b). allowed s \<and> validate_content T s b = Inr ()) content"

lemma read_entries_verified:
  assumes "read_entries T v zs seen es = Inr content"
  shows "verified_content T content \<and> list_all (\<lambda>(s, b). zip_get zs s = Inr b) content
    \<and> list_all2 (\<lambda>e (s, b). path_text e = s \<and> jget e ''sha256'' = JStr (sha256_hex b)) es content"
  using assms
proof (induction es arbitrary: seen content)
  case Nil
  then show ?case by (simp add: verified_content_def)
next
  case (Cons e es)
  then obtain rest data where r: "content = (path_text e, data) # rest" "read_entries T v zs (path_text e # seen) es = Inr rest"
      "allowed (path_text e)" "zip_get zs (path_text e) = Inr data" "validate_content T (path_text e) data = Inr ()"
      "jget e ''sha256'' = JStr (sha256_hex data)"
    by (auto simp: bindE_Inr)
  have "path_text e \<notin> set (dict_keys rest)" using read_entries_owned[OF r(2)] by auto
  then have "verified_content T content"
    using Cons.IH[OF r(2)] r(3,5) unfolding verified_content_def r(1) by auto
  moreover have "list_all (\<lambda>(s, b). zip_get zs s = Inr b) content"
    using Cons.IH[OF r(2)] r(4) unfolding r(1) by simp
  moreover have "list_all2 (\<lambda>e (s, b). path_text e = s \<and> jget e ''sha256'' = JStr (sha256_hex b)) (e # es) content"
    unfolding r(1) list.rel_inject using Cons.IH[OF r(2)] r(6) by blast
  ultimately show ?case by blast
qed

lemma inspect_parts:
  assumes "inspect_unlocked T v data = Inr (pv, content)"
  obtains zs m version es st where "open_zip T data = Inr (zs, m)" "listed_entries (map z_name zs) m = Inr (version, es)"
    "read_entries T v zs [] es = Inr content" "set (dict_keys content) = set (map z_name zs) - {''manifest.json''}"
    "drill content = Inr st" "length (filter (starts_with ''ledger/checkpoints/lc_'') (dict_keys content)) = cs_count st"
    "pv_token pv = preview_token v content"
proof -
  obtain zs m version es summary blocked where i: "open_zip T data = Inr (zs, m)" "listed_entries (map z_name zs) m = Inr (version, es)"
      "read_entries T v zs [] es = Inr content" "set (dict_keys content) = set (map z_name zs) - {''manifest.json''}"
      "check_recovery version m content = Inr summary"
      "(case overlay_status v content of Inl cerror.Unhashable \<Rightarrow> Inl Type_error | Inl e \<Rightarrow> Inr (Some e) | Inr _ \<Rightarrow> Inr None) = Inr blocked"
      "pv_token pv = preview_token v content" "pv_blocked pv = blocked"
    using assms unfolding inspect_unlocked_def bindE_Inr Let_def guardE_Inr by (clarsimp simp: bindE_Inr)
  obtain st where st: "drill content = Inr st" "length (filter (starts_with ''ledger/checkpoints/lc_'') (dict_keys content)) = cs_count st"
    using i(5) unfolding check_recovery_def bindE_Inr by (clarsimp simp: bindE_Inr)
  show thesis by (rule that[OF i(1-4) st i(7)])
qed

text \<open>
  C21: what an inspection accepts is verified.  Every file of an accepted archive has a name that
  archives own, once, and contents that pass the validator of its kind; the archive holds
  exactly its manifest and those files; and the checkpoint records among them are one whole
  chain that verifies on the archive's files alone.
\<close>

theorem accepted_archive_verified:
  assumes "inspect_unlocked T v data = Inr (pv, content)"
  shows "\<exists>zs st. t_unzip T data = Some zs \<and> verified_content T content
    \<and> set (map z_name zs) = insert ''manifest.json'' (set (dict_keys content)) \<and> list_all (\<lambda>(s, b). zip_get zs s = Inr b) content
    \<and> chain_status_of (dir_of content) = Inr st
    \<and> cs_count st = length (filter (starts_with ''ledger/checkpoints/lc_'') (dict_keys content))"
proof -
  obtain zs m version es st where i: "open_zip T data = Inr (zs, m)" "read_entries T v zs [] es = Inr content"
      "set (dict_keys content) = set (map z_name zs) - {''manifest.json''}" "drill content = Inr st"
      "length (filter (starts_with ''ledger/checkpoints/lc_'') (dict_keys content)) = cs_count st"
    using inspect_parts[OF assms] by metis
  have z: "t_unzip T data = Some zs" "''manifest.json'' \<in> set (map z_name zs)"
    using i(1) by (auto simp: open_zip_def bindE_Inr split: option.splits)
  have chain: "chain_status_of (dir_of content) = Inr st"
    using i(4) by (cases "chain_status_of (dir_of content)") (simp_all add: drill_def chainE_def)
  have names: "set (map z_name zs) = insert ''manifest.json'' (set (dict_keys content))" using i(3) z(2) by blast
  note v = read_entries_verified[OF i(2)]
  show ?thesis
    by (intro exI[of _ zs] exI[of _ st] conjI z(1) names chain i(5)[symmetric] v[THEN conjunct1] v[THEN conjunct2, THEN conjunct1])
qed

section \<open>What a completed restore leaves\<close>

lemma step_files: "a \<notin> range Move \<union> range (\<lambda>(s, b). Put s b) \<union> range Unlink \<Longrightarrow> v_files (apply_step a w) = v_files w"
  by (cases a) (auto simp: apply_step_def in_tx_def)

lemma run_files:
  "list_all (\<lambda>a. a \<notin> range Move \<union> range (\<lambda>(s, b). Put s b) \<union> range Unlink) as \<Longrightarrow> v_files (run_steps as w) = v_files w"
proof (induction as arbitrary: w)
  case (Cons a as)
  then show ?case using step_files[of a w] by simp
qed simp

lemma commit_files: "v_files (run_steps (commit_steps tears v content backup) w) = v_files w"
  by (rule run_files) (auto simp: commit_steps_def removal_def list_all_iff)

lemma step_backups: "a \<notin> range (\<lambda>(s, b). Save_backup s b) \<Longrightarrow> v_backups (apply_step a w) = v_backups w"
  by (cases a) (auto simp: apply_step_def in_tx_def split: option.splits)

lemma run_backups:
  "list_all (\<lambda>a. a \<notin> range (\<lambda>(s, b). Save_backup s b)) as \<Longrightarrow> v_backups (run_steps as w) = v_backups w"
proof (induction as arbitrary: w)
  case (Cons a as)
  then show ?case using step_backups[of a w] by simp
qed simp

lemma apply_backups: "v_backups (run_steps (apply_steps v content backup) w) = v_backups w"
  by (rule run_backups) (auto simp: apply_steps_def stage_steps_def move_steps_def list_all_iff split: option.splits)

lemma commit_backups: "v_backups (run_steps (commit_steps tears v content backup) w) = v_backups w"
  by (rule run_backups) (auto simp: commit_steps_def removal_def list_all_iff)

lemma restore_parts:
  assumes "restore_archive T tears now stamp data replace token v = (w, Inr pv)" "v_tx v = None"
  obtains content copy u x where "approve T data replace token v = Inr (pv, content)" "backup_copy T now v = Inr copy"
    "u = apply_step (Save_backup (backup_name stamp copy) (fst copy)) v"
    "x = run_steps (apply_steps u (sort_key fst content) (backup_name stamp copy)) u"
    "\<not> isl (chain_status_of (chain_view x))" "sibling_root u ''transaction'' = Inr ()"
    "w = run_steps (commit_steps tears u (sort_key fst content) (backup_name stamp copy)) x"
proof -
  have sib: "sibling_root v ''transaction'' = Inr ()"
    using assms by (auto simp: restore_archive_def restore_trace_def recover_trace_def split: sum.splits prod.splits)
  then have before: "recover_trace tears v = ([], Inr False)" using assms(2) by (simp add: recover_trace_def)
  have run: "(case approve T data replace token v of Inl e \<Rightarrow> (v, Inl e)
      | Inr approved \<Rightarrow> (case restore_steps T tears now stamp approved v of (steps, r) \<Rightarrow> (run_steps steps v, r))) = (w, Inr pv)"
    using assms(1) before by (auto simp: restore_archive_def restore_trace_def split: sum.splits prod.splits)
  then obtain pv' content where ap: "approve T data replace token v = Inr (pv', content)" by (auto split: sum.splits)
  obtain steps where st: "restore_steps T tears now stamp (pv', content) v = (steps, Inr pv)" "w = run_steps steps v"
    using run ap by (auto split: prod.splits)
  obtain copy where copy: "backup_copy T now v = Inr copy"
    using st(1) by (cases "backup_copy T now v") (simp_all add: restore_steps_def)
  define backup where "backup = backup_name stamp copy"
  define u where "u = apply_step (Save_backup backup (fst copy)) v"
  define x where "x = run_steps (apply_steps u (sort_key fst content) backup) u"
  have "pv = pv' \<and> \<not> isl (chain_status_of (chain_view x))
      \<and> steps = Save_backup backup (fst copy) # apply_steps u (sort_key fst content) backup @ commit_steps tears u (sort_key fst content) backup"
    using st(1) copy
    by (auto simp: restore_steps_def Let_def backup_def[symmetric] u_def[symmetric] x_def[symmetric] split: sum.splits prod.splits if_splits)
  then show thesis
    using that[of content copy u x] ap copy sib st(2)
    by (simp add: backup_def[symmetric] u_def[symmetric] x_def[symmetric] sibling_root_def) (simp add: u_def)
qed

text \<open>
  C10: a restore that answers has done it all.  The ledger has every file of the accepted archive
  and, at every other name, what it had; its checkpoint chain verifies; no transaction is left;
  and the copy of the ledger made before is among the backups.
\<close>

theorem restore_takes_effect:
  assumes "restore_archive T tears now stamp data replace token v = (w, Inr pv)" "v_tx v = None"
  shows "\<exists>content copy st. inspect_unlocked T v data = Inr (pv, content) \<and> same_files (v_files w) (over_files content (v_files v))
    \<and> v_tx w = None \<and> chain_status_of (chain_view w) = Inr st
    \<and> backup_copy T now v = Inr copy \<and> dict_get (v_backups w) (backup_name stamp copy) = Some (fst copy)"
proof -
  obtain content copy u x where r: "approve T data replace token v = Inr (pv, content)" "backup_copy T now v = Inr copy"
      "u = apply_step (Save_backup (backup_name stamp copy) (fst copy)) v"
      "x = run_steps (apply_steps u (sort_key fst content) (backup_name stamp copy)) u"
      "\<not> isl (chain_status_of (chain_view x))" "sibling_root u ''transaction'' = Inr ()"
      "w = run_steps (commit_steps tears u (sort_key fst content) (backup_name stamp copy)) x"
    using restore_parts[OF assms] by blast
  let ?c = "sort_key fst content" let ?b = "backup_name stamp copy"
  note ins = approve_owned[OF r(1)]
  have u: "owned u ?c" "v_tx u = None" "v_files u = v_files v" "dict_get (v_backups u) ?b = Some (fst copy)"
    using owned_sort ins assms(2) by (simp_all add: r(3) save_owned) (simp_all add: apply_step_def)
  note ap = apply_along[OF u(1,2), of ?b, folded r(4)]
  have links: "v_links x = v_links u" "v_unsafe x = v_unsafe u" by (simp_all add: r(4))
  have files: "v_files w = over_files ?c (v_files v)" using ap by (simp add: r(7) commit_files u(3))
  have "chain_view w = chain_view x" by (simp add: chain_view_def r(7) commit_files)
  then obtain st where st: "chain_status_of (chain_view w) = Inr st"
    using r(5) by (cases "chain_status_of (chain_view x)") simp_all
  have "v_tx w = None" using commit_along[of u ?c x tears ?b] ap links u(3) by (simp add: r(7))
  moreover have "dict_get (v_backups w) ?b = Some (fst copy)"
    using u(4) by (simp add: r(7) r(4) commit_backups apply_backups)
  moreover have "same_files (v_files w) (over_files content (v_files v))"
    unfolding files by (rule over_sort) (use ins in \<open>simp add: owned_def\<close>)
  ultimately show ?thesis using ins r(2) st by blast
qed

section \<open>What the preview token stands for\<close>

lemma read_entries_same:
  "read_entries T v zs seen es = Inr content \<Longrightarrow> read_entries T u zs seen es = Inr content' \<Longrightarrow> content' = content"
  by (induction es arbitrary: seen content content') (auto simp: bindE_Inr)

lemma inspect_same:
  assumes "inspect_unlocked T u data = Inr (pv, content)" "inspect_unlocked T v data = Inr (pv', content')"
  shows "content' = content"
proof -
  obtain zs m version es st where i: "open_zip T data = Inr (zs, m)" "listed_entries (map z_name zs) m = Inr (version, es)"
      "read_entries T u zs [] es = Inr content"
    using inspect_parts[OF assms(1)] by metis
  obtain zs' m' version' es' where i': "open_zip T data = Inr (zs', m')" "listed_entries (map z_name zs') m' = Inr (version', es')"
      "read_entries T v zs' [] es' = Inr content'"
    using inspect_parts[OF assms(2)] by metis
  have "zs' = zs" "es' = es" using i(1,2) i'(1,2) by auto
  then show ?thesis using read_entries_same[OF i(3)] i'(3) by blast
qed

lemma inspect_token: "inspect_unlocked T v data = Inr (pv, content) \<Longrightarrow> pv_token pv = preview_token v content"
  by (rule inspect_parts)

lemma token_wf: "wf_json (JArr (map (token_json v) content))"
proof -
  have "wf_items (map (token_json v) content)" for content
    by (induction content) (auto simp: token_json_def jtext_def dict_ok_def split: option.splits)
  then show ?thesis by simp
qed

lemma token_normal: "normalise (token_json v c) = JObj [(''archive_sha256'', JStr (sha256_hex (snd c))),
    (''local_sha256'', jtext (map_option sha256_hex (dict_get (v_files v) (fst c)))), (''path'', JStr (fst c))]"
  by (cases c) (simp add: token_json_def jtext_def string_less_simps split: option.splits)

lemma items_normal: "normalise_items (map f xs) = map (normalise \<circ> f) xs"
  by (induction xs) simp_all

text \<open>
  C20: a confirmed preview binds the restore.  If an archive was previewed over one state of the
  ledger and its restore is approved over another with the token of that preview, then the two
  states hold, at every name the archive would write, the same bytes or none both: nothing the
  user did not see is replaced.  The only escapes are SHA-256 collisions of the texts at hand: the
  two listings the tokens are digests of, or the two files at that very name.
\<close>

theorem preview_binds_restore:
  assumes "inspect_unlocked T u data = Inr (pv, content)" "approve T data replace (Some (pv_token pv)) v = Inr (pv', content')"
  shows "content' = content
    \<and> (collision (token_text u content) (token_text v content)
       \<or> list_all (\<lambda>(s, b). dict_get (v_files v) s = dict_get (v_files u) s
            \<or> (\<exists>old new. dict_get (v_files u) s = Some old \<and> dict_get (v_files v) s = Some new \<and> collision old new)) content)"
proof -
  note ap = approve_owned[OF assms(2)]
  have same: "content' = content" using inspect_same[OF assms(1)] ap by blast
  let ?c = "sort_key fst content"
  have "pv_token pv = pv_token pv'" using assms(2) by (auto simp: approve_def bindE_Inr)
  then have "sha256_hex (token_text u content) = sha256_hex (token_text v content)"
    using inspect_token[OF assms(1)] inspect_token[OF ap[THEN conjunct2]] same by (auto simp: preview_token_def)
  then consider "collision (token_text u content) (token_text v content)" | "token_text u content = token_text v content"
    by (auto simp: sha256_eq)
  then show ?thesis
  proof cases
    case 2
    then have norm: "normalise (JArr (map (token_json u) ?c)) = normalise (JArr (map (token_json v) ?c))"
      unfolding token_text_def by (rule dumps_inj[OF token_wf token_wf])
    have eq: "map_option sha256_hex (dict_get (v_files u) (fst c)) = map_option sha256_hex (dict_get (v_files v) (fst c))"
      if "c \<in> set content" for c
    proof -
      have "normalise (token_json u c) = normalise (token_json v c)"
        using norm that by (simp add: items_normal)
      then show ?thesis unfolding token_normal
        by (cases "dict_get (v_files u) (fst c)"; cases "dict_get (v_files v) (fst c)") (simp_all add: jtext_def)
    qed
    have "dict_get (v_files v) s = dict_get (v_files u) s
        \<or> (\<exists>old new. dict_get (v_files u) s = Some old \<and> dict_get (v_files v) s = Some new \<and> collision old new)"
      if "(s, b) \<in> set content" for s b
      using eq[OF that] by (cases "dict_get (v_files u) s"; cases "dict_get (v_files v) s") (auto simp: sha256_eq)
    then show ?thesis using same by (auto simp: list_all_iff)
  qed (use same in blast)
qed

end
