(* ===== verification/Archive_Samples.thy ===== *)
theory Archive_Samples
  imports Archive_Promises Text_Json
begin

text \<open>
  The promises of the archive at a concrete restore: an archive with one file, an empty pick
  audit, over a ledger whose audit is damaged, so that the copy kept before is an unverified one.
\<close>

definition audit_name :: string where
  "audit_name = ''ledger/picks/audit.jsonl''"

definition sample_listing :: json where
  "sample_listing = JObj [(''files'', JArr [JObj
     [(''bytes'', JInt 0), (''path'', JStr audit_name), (''sha256'', JStr (sha256_hex []))]]),
     (''schema_version'', JStr archive_legacy)]"

definition sample_zip :: "zip_info list" where
  "sample_zip = [\<lparr>z_name = ''manifest.json'', z_size = 200, z_link = False, z_data = Some (dumps sample_listing)\<rparr>,
     \<lparr>z_name = audit_name, z_size = 0, z_link = False, z_data = Some []\<rparr>]"

definition sample_tools :: tools where
  "sample_tools = \<lparr>t_format = (\<lambda>f s. True), t_wide = (\<lambda>b. None), t_unzip = (\<lambda>b. if b = ''archive'' then Some sample_zip else None),
     t_zip = (\<lambda>d. ''backup''), t_snapshot = Some, t_follows = (\<lambda>b. True)\<rparr>"

definition damaged_vault :: vault where
  "damaged_vault = \<lparr>v_files = [(audit_name, ''x'')], v_links = [], v_unsafe = [], v_tx = None, v_backups = []\<rparr>"

definition sample_content :: "(string, string) dict" where
  "sample_content = [(audit_name, [])]"

definition sample_preview :: preview where
  "sample_preview = \<lparr>pv_version = archive_legacy, pv_count = 1, pv_bytes = 0, pv_new = [], pv_identical = [],
     pv_conflicts = [audit_name], pv_token = preview_token damaged_vault sample_content, pv_excluded = JArr [],
     pv_recovery = recovery_summary \<lparr>cs_count = 0, cs_head = None, cs_head_schema = JNull, cs_schema_versions = [],
       cs_legacy = 0, cs_migration = False, cs_missing = [], cs_uncheckpointed = []\<rparr>, pv_blocked = None\<rparr>"

lemma listing_read: "archive_json sample_tools (dumps sample_listing) = Inr sample_listing"
proof -
  have n: "normalise sample_listing = sample_listing"
    by (simp add: sample_listing_def string_less_simps)
  have "read_json (dumps sample_listing) = Some sample_listing"
    by (rule read_dumps[OF _ _ n])
      (simp_all add: sample_listing_def dict_ok_def text_json_def audit_name_def archive_legacy_def)
  moreover have "\<not> wide_bytes (dumps sample_listing)"
  proof -
    have "\<exists>t. dumps sample_listing = CHR 0x7B # t" unfolding dumps_def n by (simp add: sample_listing_def)
    moreover have "CHR 0x00 \<notin> set (dumps sample_listing)"
      using dumps_printable[of sample_listing] by (auto simp: printable_def list_all_iff)
    ultimately show ?thesis by (auto simp: wide_bytes_def starts_with_def dest: in_set_takeD)
  qed
  moreover have "depth_ok 1 sample_listing" by (simp add: sample_listing_def max_depth_def)
  ultimately show ?thesis by (simp add: archive_json_def)
qed

lemma audit_allowed: "allowed audit_name" "starts_with ''/'' audit_name = False" "ends_with ''/'' audit_name = False"
  "sublist ''/../'' (CHR ''/'' # audit_name @ ''/'') = False" "audit_name \<noteq> ''manifest.json''"
  by (code_simp)+

lemma audit_portable: "portable audit_name"
  by code_simp

lemma manifest_entry: "sublist ''/../'' ''/manifest.json/'' = False" "ends_with ''/'' ''manifest.json'' = False"
  by (code_simp)+

lemma sample_opens: "open_zip sample_tools ''archive'' = Inr (sample_zip, sample_listing)"
proof -
  have "t_unzip sample_tools ''archive'' = Some sample_zip" by (simp add: sample_tools_def)
  moreover have "list_all zip_entry_ok sample_zip"
    using audit_allowed manifest_entry by (simp add: sample_zip_def zip_entry_ok_def starts_with_def)
  ultimately show ?thesis using listing_read audit_allowed(5)
    by (simp add: open_zip_def sample_zip_def zip_get_def max_uncompressed_def max_files_def)
qed

lemma sample_listed: "listed_entries (map z_name sample_zip) sample_listing
    = Inr (archive_legacy, [JObj [(''bytes'', JInt 0), (''path'', JStr audit_name), (''sha256'', JStr (sha256_hex []))]])"
proof -
  have "starts_with ''ledger/checkpoints/'' audit_name = False" by code_simp
  moreover have "starts_with ''ledger/checkpoints/'' ''manifest.json'' = False" by code_simp
  ultimately show ?thesis
    by (simp add: listed_entries_def manifest_version_def sample_listing_def sample_zip_def archive_legacy_def archive_schema_def
        hashable_def jget_obj)
qed

lemma audit_kind: "starts_with ''ledger/fa_'' audit_name = False" "sublist ''/picks/pk_'' audit_name = False"
  "sublist ''/picks/drafts/'' audit_name = False" "ends_with ''/picks/audit.jsonl'' audit_name = True"
  by (code_simp)+

lemma audit_empty: "validate_content sample_tools audit_name [] = Inr ()"
  by (simp add: validate_content_def audit_kind)

lemma safe_vault: "v_links v = [] \<Longrightarrow> safe_destination v audit_name = Inr ()"
  by (simp add: safe_destination_def audit_portable) code_simp

lemma sample_reads: "v_links v = [] \<Longrightarrow> read_entries sample_tools v sample_zip []
    [JObj [(''bytes'', JInt 0), (''path'', JStr audit_name), (''sha256'', JStr (sha256_hex []))]] = Inr sample_content"
  using audit_allowed audit_empty safe_vault[of v]
  by (simp add: path_text_def jget_obj zip_get_def sample_zip_def equals_nat_def sample_content_def)

lemma audit_chain: "json_child ''ledger/fa_'' audit_name = False" "json_child ''ledger/checkpoints/lc_'' audit_name = False"
  "(audit_name = ''ledger/checkpoints/head.json'') = False" "starts_with ''ledger/checkpoints/lc_'' audit_name = False"
  by (code_simp)+

lemma audit_dir: "dir_of [(audit_name, b)] = \<lparr>ld_root_unsafe = False, ld_links = [], ld_artifacts = [], ld_head = None, ld_records = []\<rparr>"
  using audit_chain by (simp add: dir_of_def files_below_def)

lemma audit_status: "chain_status_of (dir_of [(audit_name, b)]) = Inr \<lparr>cs_count = 0, cs_head = None, cs_head_schema = JNull,
    cs_schema_versions = [], cs_legacy = 0, cs_migration = False, cs_missing = [], cs_uncheckpointed = []\<rparr>"
  by (simp add: audit_dir chain_status_of_def read_head_def owned_checkpoint_path_def artifact_ids_def)


lemma damaged_links: "v_links damaged_vault = []" "v_files damaged_vault = [(audit_name, ''x'')]" "v_tx damaged_vault = None"
  "v_unsafe damaged_vault = []"
  by (simp_all add: damaged_vault_def)

lemma sample_overlay:
  assumes "v_links v = []" "v_files v = [(audit_name, ''x'')]"
  shows "overlay_status v sample_content = chain_status_of (dir_of [(audit_name, [])])"
proof -
  have "chain_file audit_name = False" using audit_chain by (simp add: chain_file_def)
  moreover have "validate_paths (chain_view v) = Inr ()"
    by (simp add: chain_view_def assms audit_dir validate_paths_def owned_checkpoint_path_def)
  ultimately show ?thesis by (simp add: overlay_status_def assms sample_content_def over_files_def)
qed

lemma sample_recovery: "check_recovery archive_legacy m sample_content = Inr (pv_recovery sample_preview)"
  using audit_chain
  by (simp add: check_recovery_def drill_def chainE_def sample_content_def audit_status sample_preview_def archive_legacy_def archive_schema_def)

lemma sample_inspects:
  assumes "v_links v = []" "v_files v = [(audit_name, ''x'')]"
  shows "inspect_unlocked sample_tools v ''archive'' = Inr (sample_preview, sample_content)"
proof -
  have "set (dict_keys sample_content) = set (map z_name sample_zip) - {''manifest.json''}"
    using audit_allowed(5) by (simp add: sample_content_def sample_zip_def)
  moreover have "dict_get (obj_fields sample_listing) ''excluded'' = None" by (simp add: sample_listing_def)
  moreover have "preview_token v sample_content = preview_token damaged_vault sample_content"
    by (simp add: preview_token_def token_text_def token_json_def assms damaged_links)
  ultimately show ?thesis
    using sample_opens sample_listed sample_reads[OF assms(1)] sample_recovery sample_overlay[OF assms]
    by (simp add: inspect_unlocked_def audit_status Let_def assms sample_preview_def sample_content_def)
qed

lemma sample_approved:
  assumes "v_links v = []" "v_files v = [(audit_name, ''x'')]"
  shows "approve sample_tools ''archive'' True (Some (preview_token damaged_vault sample_content)) v = Inr (sample_preview, sample_content)"
  by (simp add: approve_def sample_inspects[OF assms]) (simp add: sample_preview_def)

section \<open>The copy made before\<close>

lemma audit_globbed: "globbed audit_name"
  by (code_simp)

lemma damaged_owned: "owned_files validate damaged_vault = Inr [audit_name]"
proof -
  have "candidate_ok damaged_vault audit_name = Inr ()"
    using safe_vault[OF damaged_links(1)] by (simp add: candidate_ok_def damaged_links)
  moreover have "recovery_files (chain_view damaged_vault) = Some (Inr [])"
    by (simp add: recovery_files_def chain_view_def damaged_links audit_dir audit_status[unfolded audit_dir])
  ultimately show ?thesis
    using audit_globbed audit_allowed audit_chain
    by (simp add: owned_files_def checkpoint_names_def chainE_def damaged_links Let_def)
qed

lemma damaged_content: "validate_content sample_tools audit_name ''x'' = Inl Refused"
proof -
  have "archive_json sample_tools ''x'' = Inl Refused" by code_simp
  then show ?thesis by (simp add: validate_content_def audit_kind)
qed

lemma damaged_copy: "backup_copy sample_tools ''now'' damaged_vault = Inr (''backup'', False)"
proof -
  have "ends_with ''/follows/follows.sqlite3'' audit_name = False" by code_simp
  then have "entry_data sample_tools b damaged_vault audit_name = Inr ''x''" for b
    by (simp add: entry_data_def damaged_links)
  then show ?thesis
    by (simp add: backup_copy_def export_unlocked_def damaged_owned max_files_def max_uncompressed_def damaged_content caught_def
        Let_def sibling_root_def damaged_links) (simp add: sample_tools_def)
qed


section \<open>The restore\<close>

definition sample_token :: "string option" where
  "sample_token = Some (preview_token damaged_vault sample_content)"

definition sample_backup :: string where
  "sample_backup = backup_name ''stamp'' (''backup'', False)"

definition saved_vault :: vault where
  "saved_vault = apply_step (Save_backup sample_backup ''backup'') damaged_vault"

definition applied_vault :: vault where
  "applied_vault = run_steps (apply_steps saved_vault sample_content sample_backup) saved_vault"

lemma saved_links: "v_links saved_vault = []" "v_files saved_vault = [(audit_name, ''x'')]" "v_tx saved_vault = None"
  "v_unsafe saved_vault = []"
  by (simp_all add: saved_vault_def damaged_links) (simp_all add: apply_step_def damaged_links)

lemma applied_files: "v_files applied_vault = [(audit_name, [])]" "v_links applied_vault = []"
proof -
  have "owned saved_vault sample_content"
    using audit_allowed safe_vault[OF saved_links(1)] by (simp add: owned_def sample_content_def)
  from apply_along[OF this saved_links(3), of sample_backup]
  show "v_files applied_vault = [(audit_name, [])]"
    by (simp add: applied_vault_def saved_links sample_content_def over_files_def)
  show "v_links applied_vault = []" by (simp add: applied_vault_def saved_links)
qed

lemma applied_chain: "\<not> isl (chain_status_of (chain_view applied_vault))"
  by (simp add: chain_view_def applied_files audit_dir audit_status[unfolded audit_dir])

lemma sample_trace:
  "restore_trace sample_tools [] ''now'' ''stamp'' ''archive'' True sample_token damaged_vault
   = (Save_backup sample_backup ''backup'' # apply_steps saved_vault sample_content sample_backup
        @ commit_steps [] saved_vault sample_content sample_backup, Inr sample_preview)"
proof -
  have "recover_trace [] damaged_vault = ([], Inr False)"
    by (simp add: recover_trace_def damaged_links sibling_root_def)
  moreover have "sort_key fst sample_content = sample_content" by (simp add: sample_content_def)
  moreover obtain st where "chain_status_of (chain_view applied_vault) = Inr st"
    using applied_chain by (cases "chain_status_of (chain_view applied_vault)") simp_all
  ultimately show ?thesis
    by (simp add: restore_trace_def sample_token_def sample_approved[OF damaged_links(1,2)] restore_steps_def damaged_copy Let_def sibling_root_def
        sample_backup_def[symmetric] saved_vault_def[symmetric] applied_vault_def[symmetric] saved_links damaged_links)
qed

section \<open>The witnesses\<close>

theorem accepted_archive_verified_witness:
  "\<exists>zs st. t_unzip sample_tools ''archive'' = Some zs \<and> verified_content sample_tools sample_content
    \<and> set (map z_name zs) = insert ''manifest.json'' (set (dict_keys sample_content))
    \<and> list_all (\<lambda>(s, b). zip_get zs s = Inr b) sample_content \<and> chain_status_of (dir_of sample_content) = Inr st
    \<and> cs_count st = length (filter (starts_with ''ledger/checkpoints/lc_'') (dict_keys sample_content))"
  by (rule accepted_archive_verified[OF sample_inspects[OF damaged_links(1,2)]])

theorem restore_takes_effect_witness:
  "\<exists>w. restore_archive sample_tools [] ''now'' ''stamp'' ''archive'' True sample_token damaged_vault = (w, Inr sample_preview)
    \<and> (\<exists>content copy st. inspect_unlocked sample_tools damaged_vault ''archive'' = Inr (sample_preview, content)
      \<and> same_files (v_files w) (over_files content (v_files damaged_vault)) \<and> v_tx w = None
      \<and> chain_status_of (chain_view w) = Inr st \<and> backup_copy sample_tools ''now'' damaged_vault = Inr copy
      \<and> dict_get (v_backups w) (backup_name ''stamp'' copy) = Some (fst copy))"
proof -
  define w where "w = fst (restore_archive sample_tools [] ''now'' ''stamp'' ''archive'' True sample_token damaged_vault)"
  have r: "restore_archive sample_tools [] ''now'' ''stamp'' ''archive'' True sample_token damaged_vault = (w, Inr sample_preview)"
    by (simp add: w_def restore_archive_def sample_trace)
  show ?thesis by (intro exI[of _ w] conjI r restore_takes_effect[OF r damaged_links(3)])
qed

definition half_restored :: vault where
  "half_restored = run_steps (take 6 (fst (restore_trace sample_tools [] ''now'' ''stamp'' ''archive'' True sample_token damaged_vault)))
     damaged_vault"

theorem restore_is_atomic_witness:
  "v_tx half_restored \<noteq> None \<and> \<not> isl (snd (recover_pending [] half_restored)) \<and> v_tx (fst (recover_pending [] half_restored)) = None
    \<and> (same_files (v_files (fst (recover_pending [] half_restored))) (v_files damaged_vault)
      \<or> (\<exists>pv content. inspect_unlocked sample_tools damaged_vault ''archive'' = Inr (pv, content)
          \<and> same_files (v_files (fst (recover_pending [] half_restored))) (over_files content (v_files damaged_vault))))"
proof -
  have "v_tx half_restored \<noteq> None"
    by (simp add: half_restored_def sample_trace apply_steps_def stage_steps_def sample_content_def saved_links run_steps_def
        apply_step_def in_tx_def)
  moreover have p: "prefix (take 6 (fst (restore_trace sample_tools [] ''now'' ''stamp'' ''archive'' True sample_token damaged_vault)))
      (fst (restore_trace sample_tools [] ''now'' ''stamp'' ''archive'' True sample_token damaged_vault))"
    by (rule take_is_prefix)
  have st: "stopped (run_steps (take 6 (fst (restore_trace sample_tools [] ''now'' ''stamp'' ''archive'' True sample_token damaged_vault)))
      damaged_vault) half_restored"
    by (simp add: half_restored_def stopped.Once)
  have "sibling_root damaged_vault ''transaction'' = Inr ()" by (simp add: sibling_root_def damaged_links)
  from restore_is_atomic[OF damaged_links(3) this p st surjective_pairing]
  have "\<not> isl (snd (recover_pending [] half_restored)) \<and> v_tx (fst (recover_pending [] half_restored)) = None
    \<and> (same_files (v_files (fst (recover_pending [] half_restored))) (v_files damaged_vault)
      \<or> (\<exists>pv content. inspect_unlocked sample_tools damaged_vault ''archive'' = Inr (pv, content)
          \<and> same_files (v_files (fst (recover_pending [] half_restored))) (over_files content (v_files damaged_vault))))" .
  ultimately show ?thesis by blast
qed

theorem preview_binds_restore_witness:
  "sample_content = sample_content
    \<and> list_all (\<lambda>(s, b). dict_get (v_files saved_vault) s = dict_get (v_files damaged_vault) s
            \<or> (\<exists>old new. dict_get (v_files damaged_vault) s = Some old \<and> dict_get (v_files saved_vault) s = Some new
                 \<and> collision old new)) sample_content"
proof -
  have "approve sample_tools ''archive'' True (Some (pv_token sample_preview)) saved_vault = Inr (sample_preview, sample_content)"
    using sample_approved[OF saved_links(1,2)] by (simp add: sample_preview_def)
  note binds = preview_binds_restore[OF sample_inspects[OF damaged_links(1,2)] this]
  have "token_text damaged_vault sample_content = token_text saved_vault sample_content"
    by (simp add: token_text_def token_json_def damaged_links saved_links)
  then show ?thesis using binds by (simp add: collision_def)
qed

end
