(* ===== verification/Spec2Isabelle.thy ===== *)
theory Spec2Isabelle
  imports Jobs Picks_Safety Score_Matrix Leak_Safe Source_Packs Artifact_Samples Checkpoint_Chain Standings_Laws Calibration_Laws Artifact_Register Competitions Settlement_Samples Refresh_Samples Seal_Samples Correction_Samples Archive_Samples
begin

text \<open>
  Golavo is a football forecasting app that runs on one machine.  Its Python core
  (\<open>src/core/golavo_core\<close>) turns match tables into sealed forecasts, picks, league tables and
  calibration records; its sidecar (\<open>src/server/golavo_server\<close>) serves them to the user
  interface and keeps what must not change in content-addressed files, hash chains and
  databases.  This development models the parts that decide what is recorded, kept, scored and
  shown, and proves what the app promises about them.

  \<^bold>\<open>How the parts interact.\<close>  Source packs (directories with a manifest, pinned by the registry)
  give match tables.  A seal takes the leak-safe training view of a table at one instant, fits a
  model and writes a forecast artifact.  Settlement fetches results, agrees the score of a
  pending forecast and has it scored, which writes a successor artifact; the calibration record
  reads all chains.  Checkpoints pin the artifact directory in a hash chain.  A refresh installs
  a new generation of packs and moves a pointer to it; the seal route and the match rows read
  through that pointer.  Picks are the user's own forecasts in a ledger beside; corrections are
  the user's proposals against the data, in databases of their own that no other part reads.  The
  personal archive exports the ledger (artifacts, picks, checkpoints) as one file and restores it.
  Jobs run the slow work of all of them.

  \<^bold>\<open>Theories and files.\<close>
  \<^item> \<open>Prelude\<close>: results as sums (\<open>bindE\<close>, \<open>guardE\<close>), dictionaries as association lists, decimal
    text, stable sorting, and the interfaces every store implements: the locale \<open>machine\<close> (calls
    that keep an invariant) and \<open>growing_machine\<close> (calls that also keep what is recorded).  Each
    component's safety theory interprets them on its own calls and takes its properties from the
    facts of the interpretation.
  \<^item> \<open>Json\<close>, \<open>Text_Json\<close>, \<open>Csv\<close>, \<open>Sha256\<close>, \<open>Py_Time\<close>, \<open>Rounding\<close>, \<open>Schema\<close>: what the code uses of the
    standard library: \<open>json\<close> (canonical text and parser with their round trip), \<open>csv\<close>,
    \<open>hashlib.sha256\<close>, \<open>datetime\<close>, \<open>round\<close> and the JSON Schema keywords of the contracts.
  \<^item> \<open>Jobs\<close>: \<open>server/jobs.py\<close>.
  \<^item> \<open>Picks_Core\<close>, \<open>Picks_Rules\<close>: \<open>core/picks.py\<close>; \<open>Picks_Ledger\<close>, \<open>Picks_Safety\<close>: \<open>server/picks.py\<close>.
  \<^item> \<open>Score_Matrix\<close>: \<open>core/score_matrix.py\<close>; \<open>Standings\<close>, \<open>Standings_Laws\<close>: \<open>core/standings.py\<close>;
    \<open>Competitions\<close>: \<open>core/competitions.py\<close>; \<open>Metrics\<close>: the metrics of \<open>core/evaluation.py\<close>.
  \<^item> \<open>Leak_Safe\<close>, \<open>Source_Packs\<close>: \<open>core/ingest/snapshot.py\<close>; \<open>Packstore\<close>: \<open>core/packstore.py\<close>.
  \<^item> \<open>Artifacts\<close> and \<open>Artifact_Laws\<close>, \<open>Artifact_Safety\<close>, \<open>Artifact_Sealing\<close>, \<open>Artifact_Register\<close>:
    \<open>core/artifacts.py\<close> and its JSON schema; \<open>Calibration\<close>, \<open>Calibration_Laws\<close>,
    \<open>Calibration_Total\<close>: \<open>core/calibration.py\<close>.
  \<^item> \<open>Settlement\<close>, \<open>Settlement_Laws\<close>, \<open>Settlement_Safety\<close>: \<open>server/settlement.py\<close>.
  \<^item> \<open>Ledger_Checkpoints\<close>, \<open>Checkpoint_Chain\<close>: \<open>server/ledger_checkpoints.py\<close>.
  \<^item> \<open>Refresh_State\<close>, \<open>Refresh_Receipts\<close> and their \<open>_Laws\<close>: \<open>server/refresh_state.py\<close>,
    \<open>server/refresh_receipts.py\<close> and the activation of \<open>server/refresh_jobs.py\<close>.
  \<^item> \<open>Match_Links\<close>, \<open>Seal_Route\<close> and their \<open>_Laws\<close>: the forecasts of a match row
    (\<open>server/matches.py\<close>) and \<open>server/seal.py\<close>.
  \<^item> \<open>Correction_Policy\<close>, \<open>Correction_Store\<close>, \<open>Correction_Validation\<close>, \<open>Correction_Routes\<close>,
    \<open>Correction_Audit\<close>: \<open>server/correction_*.py\<close>, the correction routes and the audit of
    \<open>server/main.py\<close>; \<open>Correction_Laws\<close> and \<open>Correction_Steps\<close> hold the invariant of the
    databases, \<open>Correction_Lifecycle\<close> the abstract lifecycle and its simulation,
    \<open>Correction_Safety\<close>, \<open>Correction_Promises\<close> and \<open>Correction_Guards\<close> the properties.
  \<^item> \<open>Archive\<close>, \<open>Archive_Restore\<close>: \<open>server/personal_archive.py\<close>, with \<open>Pretty_Json\<close> for its manifest
    text; \<open>Archive_Crash\<close> and \<open>Archive_Promises\<close> hold the properties.
  \<^item> The \<open>_Samples\<close> theories apply properties at concrete inputs.

  \<^bold>\<open>State and operations.\<close>  A directory is a dictionary from names to bytes, a database a record of
  its tables as lists of rows with their keys and constraints, a store a record of those.  Every
  operation takes the state and returns the new one with its answer; every raise, refusal and
  early return is an \<open>Inl\<close> of the component's error type.  What the code keeps under a lock or
  in one transaction is one operation, and a run is a list of them.  Where the code may be
  stopped between two durable writes (\<open>Refresh_Receipts\<close>, \<open>Ledger_Checkpoints\<close>,
  \<open>Archive_Restore\<close>) the writes are
  separate steps and the properties hold after any prefix.  The clock, random ids, the network,
  file system faults and the results of model fits are arguments, so that a property holds for
  every choice of them.

  \<^bold>\<open>What the lemmas show.\<close>  For each store: an invariant kept by every call (\<open>job_states_honest\<close>,
  \<open>ledger_always_verifies\<close>, \<open>refresh_never_loses_data\<close>, \<open>one_root_per_fixture\<close>,
  \<open>audit_accepts_every_run\<close>, \<open>annotations_were_validated\<close>); what is recorded stays
  (\<open>locked_picks_immutable\<close>, \<open>artifact_ledger_immutable\<close>, \<open>correction_history_grows\<close>); content
  addresses and chains pin what they name, up to a collision that the statement exhibits
  (\<open>artifact_tamper_evident\<close>, \<open>registry_pins_pack\<close>, \<open>head_pins_history\<close>); every row of a mutable
  table is the replay of its log (\<open>rows_replay_their_log\<close>), and a ledger implements an abstract
  register (\<open>ledger_refines_register\<close>).  A restore is all or nothing wherever it is stopped
  (\<open>restore_is_atomic\<close>) and does what the user was shown (\<open>preview_binds_restore\<close>).  Two statements
  name what the code does not guard: \<open>refresh_never_loses_data\<close> is of runs that clean only what is
  below staging (\<open>cleaning_reaches_generations\<close> shows the other case), and \<open>registry_pins_pack\<close> leaves
  out manifest names below the top of a pack (\<open>nested_manifest_names_unchecked\<close>).  The current pack
  is unique and newest for one registry and one resolver; search and sealing use different ones.
  For each computation: exact functional statements
  (\<open>leak_safe_view_exact\<close>, \<open>calibration_pairs_exact\<close>, \<open>settled_scores_agreed\<close>,
  \<open>standings_ranked\<close>, \<open>current_pack_is_newest\<close>, \<open>season_summary_correct\<close>), order independence
  (\<open>standings_order_free\<close>), bounds (\<open>wilson_brackets\<close>) and that results exist
  (\<open>scoring_always_completes\<close>, \<open>service_keeps_record\<close>, \<open>recovery_returns\<close>).

  \<^bold>\<open>Bounds and fuel.\<close>  The JSON scanner takes fuel; \<open>loads\<close> gives it twice the length of the text
  plus two, each unit pays for a character or a value, and \<open>Json.loads_dumps\<close> shows it is enough
  for every printed value.  A JSON float is a multiple of \<open>10 ^ -9\<close>, the precision every number
  the app writes is rounded to.  A pick operation makes the code's three attempts.  The checkpoint
  walk is measured by the records not yet seen; the recovery walk, whose loop in the code has no
  bound, is \<open>partial_function (option)\<close> and proved to return.  Instants are the texts
  \<open>YYYY-MM-DDTHH:MM:SSZ\<close> the code writes.  Strings are their UTF-8 bytes, whose order is the order
  of code points; lengths in characters count the bytes that do not continue one.  CSV fields are
  bounded by the reader's 131072.

  \<^bold>\<open>Narrowings.\<close>  Probabilities are brought to canonical numbers when an artifact is built, in the code
  when it is written, so the model never holds a float no JSON text of the ledger can spell.  A
  JSON number written with a fraction is not read as an integer of a pick, while JSON Schema takes
  \<open>2.0\<close> for one: the model accepts fewer hand-made pick files, none the app writes.

  \<^bold>\<open>Parameters.\<close>  Third-party code and what cannot be read from the sources are arguments: the
  schema's format checker, the minisign check, model fitting, path resolution, the fetched bytes,
  Unicode folding and stripping (\<open>fold_name\<close>, \<open>sanitize\<close>, \<open>casefold\<close>, \<open>strip\<close>), pandas' time stamps
  (\<open>stamp\<close>), the comparison of parquet indexes, the match index, the canonical evidence URL, the
  CSV of a pack, and for the archive the ZIP format, SQLite's backup and the check of a follow
  history (\<open>tools\<close>).  SHA-256 is defined, not assumed; statements that need it to separate texts
  say so (\<open>inj_on sha256_hex K\<close> for the texts \<open>K\<close> of a run) or exhibit the collision.

  \<^bold>\<open>Not modelled.\<close>  Numerical model fitting, season simulation and the backtest harness (numpy and
  scipy floating point), the pandas ingest of CSV and text sources into the match index, search and
  team pages, the network providers and their caches (Sportmonks, OpenLigaDB, weather, research),
  the AI gateway and narration, follows, the HTTP layer itself (FastAPI,
  tokens, CORS), the desktop shell (Rust) and the user interface (TypeScript).  The manifest lists
  them with their reasons.  Concurrency within an operation is not modelled: where the code does
  not serialise a read and a write, the manifest records it as a finding.
\<close>

end
